(* ===== verification/Vmir_Prelude.thy ===== *)
theory Vmir_Prelude
  imports Main "HOL-Library.Word"
begin

unbundle bit_operations_syntax

text \<open>
  Shared ground of the development: names for the C integer types, the error values every
  fallible operation of VMIR can end in, the result type with its sequencing combinators,
  and generic facts about lists, bits and words that the component theories use.

  VMIR reports a malformed module by \<open>parser_error\<close> (\<open>src/src/vmir.c\<close>), which formats a
  message, sets \<open>iu_failed\<close> and does a \<open>longjmp\<close> out of the loader. In the model such a call
  is the value \<open>Inl (Parser_error msg)\<close>; the message is the constant part of the format
  string. A failing \<open>assert\<close> is \<open>Assertion_failed\<close>, and C code whose behaviour the language
  leaves undefined (a read of uninitialised memory, a shift by the width or more, a division
  by zero) is \<open>Undefined_behaviour\<close>, so that no branch of the source is silently total.
  Recursion of the source that never ends is \<open>Stack_overflow\<close>.
\<close>

named_theorems res_simps \<open>equations of the result combinators\<close>
named_theorems word_nat \<open>conversions between words and natural numbers\<close>
named_theorems align_simps \<open>facts about rounding up to an alignment\<close>

section \<open>C types\<close>

type_synonym u8 = "8 word"
type_synonym u16 = "16 word"
type_synonym u32 = "32 word"
type_synonym u64 = "64 word"

section \<open>Errors and results\<close>

datatype ir_error =
    Parser_error string
  | Assertion_failed
  | Undefined_behaviour
  | Stack_overflow

type_synonym 'a result = "ir_error + 'a"

definition res_bind :: "'e + 'a \<Rightarrow> ('a \<Rightarrow> 'e + 'b) \<Rightarrow> 'e + 'b" where
  "res_bind m f = (case m of Inl e \<Rightarrow> Inl e | Inr x \<Rightarrow> f x)"

lemma res_bind_simps [simp, res_simps]:
  "res_bind (Inl e) f = Inl e"
  "res_bind (Inr x) f = f x"
  by (simp_all add: res_bind_def)

lemma res_bind_eq_Inr [res_simps]:
  "res_bind m f = Inr y \<longleftrightarrow> (\<exists>x. m = Inr x \<and> f x = Inr y)"
  by (cases m) auto

lemma res_bind_eq_Inl [res_simps]:
  "res_bind m f = Inl e \<longleftrightarrow> m = Inl e \<or> (\<exists>x. m = Inr x \<and> f x = Inl e)"
  by (cases m) auto

lemma res_bind_cong [fundef_cong]:
  "m = m' \<Longrightarrow> (\<And>x. m' = Inr x \<Longrightarrow> f x = f' x) \<Longrightarrow> res_bind m f = res_bind m' f'"
  by (cases m') auto

text \<open>An \<open>assert\<close> of the source, and a check that ends in \<open>parser_error\<close>.\<close>

definition c_assert :: "bool \<Rightarrow> unit result" where
  "c_assert b = (if b then Inr () else Inl Assertion_failed)"

definition parser_check :: "bool \<Rightarrow> string \<Rightarrow> unit result" where
  "parser_check b msg = (if b then Inr () else Inl (Parser_error msg))"

lemma c_assert_simps [simp]:
  "c_assert True = Inr ()" "c_assert False = Inl Assertion_failed"
  by (simp_all add: c_assert_def)

lemma parser_check_simps [simp]:
  "parser_check True msg = Inr ()" "parser_check False msg = Inl (Parser_error msg)"
  by (simp_all add: parser_check_def)

lemma c_assert_eq_Inr [res_simps]: "c_assert b = Inr u \<longleftrightarrow> b"
  by (cases b) auto

lemma parser_check_eq_Inr [res_simps]: "parser_check b msg = Inr u \<longleftrightarrow> b"
  by (cases b) auto

text \<open>A loop that threads a state through a list and stops at the first error.\<close>

fun res_fold :: "('s \<Rightarrow> 'a \<Rightarrow> 'e + 's) \<Rightarrow> 's \<Rightarrow> 'a list \<Rightarrow> 'e + 's" where
  "res_fold f s [] = Inr s"
| "res_fold f s (x # xs) = res_bind (f s x) (\<lambda>s'. res_fold f s' xs)"

lemma res_fold_append: "res_fold f s (xs @ ys) = res_bind (res_fold f s xs) (\<lambda>s'. res_fold f s' ys)"
proof (induction xs arbitrary: s)
  case Nil
  then show ?case by simp
next
  case (Cons x xs)
  then show ?case by (cases "f s x") auto
qed

text \<open>An invariant kept by every step is kept by the loop.\<close>

lemma res_fold_inv:
  assumes "res_fold f s xs = Inr s'" and "P s"
    and "\<And>s x s'. x \<in> set xs \<Longrightarrow> P s \<Longrightarrow> f s x = Inr s' \<Longrightarrow> P s'"
  shows "P s'"
  using assms by (induction xs arbitrary: s) (auto simp: res_bind_eq_Inr)

lemma take_Suc_update: "n < length xs \<Longrightarrow> take (Suc n) (xs[n := x]) = take n xs @ [x]"
  by (simp add: take_Suc_conv_app_nth)

lemma uint_of_sint: "0 \<le> sint (w :: u32) \<Longrightarrow> uint w = sint w"
proof -
  assume "0 \<le> sint w"
  moreover have "sint w < 2 ^ 32" using sint_less [of w] by simp
  ultimately show ?thesis by (simp add: uint_sint take_bit_int_eq_self)
qed

section \<open>The type \<open>int\<close>\<close>

text \<open>The value of an \<open>int\<close> expression, undefined outside the range of the type.\<close>

definition c_int :: "int \<Rightarrow> int option" where
  "c_int x = (if - (2 ^ 31) \<le> x \<and> x < 2 ^ 31 then Some x else None)"

lemma c_intI: "- 2147483648 \<le> k \<Longrightarrow> k < 2147483648 \<Longrightarrow> c_int k = Some k"
  by (simp add: c_int_def)

section \<open>Bits of a number, least significant first\<close>

text \<open>
  LLVM bitcode packs numbers least significant bit first. \<open>bits_nat\<close> reads a list of bits
  as a number and \<open>nat_bits\<close> writes the low \<open>n\<close> bits of one; they are the reference notions
  the bit stream and the variable-width encodings are specified with.
\<close>

fun bits_nat :: "bool list \<Rightarrow> nat" where
  "bits_nat [] = 0"
| "bits_nat (b # bs) = (if b then 1 else 0) + 2 * bits_nat bs"

fun nat_bits :: "nat \<Rightarrow> nat \<Rightarrow> bool list" where
  "nat_bits 0 k = []"
| "nat_bits (Suc n) k = odd k # nat_bits n (k div 2)"

lemma length_nat_bits [simp]: "length (nat_bits n k) = n"
  by (induction n arbitrary: k) auto

lemma bits_nat_append: "bits_nat (xs @ ys) = bits_nat xs + 2 ^ length xs * bits_nat ys"
  by (induction xs) (auto simp: algebra_simps)

lemma bits_nat_less: "bits_nat bs < 2 ^ length bs"
  by (induction bs) auto

lemma bits_nat_nat_bits [simp]: "bits_nat (nat_bits n k) = k mod 2 ^ n"
proof (induction n arbitrary: k)
  case 0
  then show ?case by simp
next
  case (Suc n)
  have "k mod (2 * 2 ^ n) = 2 * (k div 2 mod 2 ^ n) + k mod 2"
    by (rule mod_mult2_eq)
  with Suc show ?case
    by (auto simp: odd_iff_mod_2_eq_one even_iff_mod_2_eq_zero)
qed

lemma nat_bits_bits_nat [simp]: "nat_bits (length bs) (bits_nat bs) = bs"
  by (induction bs) auto

lemma bits_nat_take_bit: "bits_nat (take n bs) = take_bit n (bits_nat bs)"
proof (induction bs arbitrary: n)
  case Nil
  then show ?case by simp
next
  case (Cons b bs)
  then show ?case
    by (cases n) (auto simp: take_bit_Suc)
qed

lemma nat_bits_nth: "i < n \<Longrightarrow> nat_bits n k ! i = bit k i"
  by (induction n arbitrary: k i) (auto simp: nth_Cons bit_0 bit_Suc split: nat.split)

lemma take_nat_bits: "m \<le> n \<Longrightarrow> take m (nat_bits n k) = nat_bits m k"
  by (induction n arbitrary: m k) (auto simp: take_Cons split: nat.split)

lemma drop_nat_bits: "drop m (nat_bits n k) = nat_bits (n - m) (k div 2 ^ m)"
  by (induction n arbitrary: m k) (auto simp: drop_Cons div_mult2_eq [symmetric] split: nat.split)

lemma nat_bits_append: "nat_bits (m + n) k = nat_bits m k @ nat_bits n (k div 2 ^ m)"
proof -
  have "nat_bits (m + n) k = take m (nat_bits (m + n) k) @ drop m (nat_bits (m + n) k)"
    by simp
  then show ?thesis
    by (simp add: take_nat_bits drop_nat_bits)
qed

section \<open>Words\<close>

lemma unat_less: "unat (w :: 'a::len word) < 2 ^ LENGTH('a)"
  by (rule unsigned_less)

lemma unat_drop_bit [word_nat]: "unat (drop_bit n w) = unat w div 2 ^ n"
  unfolding unsigned_drop_bit_eq by (simp add: drop_bit_eq_div take_bit_nat_eq_self)

lemma add_shift_eq_or:
  fixes a b :: nat
  assumes "a < 2 ^ n"
  shows "a + 2 ^ n * b = a OR push_bit n b"
proof -
  have "a AND push_bit n b = 0"
  proof -
    have "\<not> bit a i" if "n \<le> i" for i
      using assms that by (metis bit_take_bit_iff not_le take_bit_nat_eq_self)
    then show ?thesis by (auto simp: bit_eq_iff bit_simps)
  qed
  then show ?thesis
    by (simp add: disjunctive_add_eq_or push_bit_eq_mult mult.commute)
qed

lemma word_of_nat_shift:
  assumes "a < 2 ^ n"
  shows "(of_nat (a + 2 ^ n * b) :: 'a::len word) = of_nat a OR push_bit n (of_nat b)"
  using assms by (simp only: add_shift_eq_or of_nat_or_eq push_bit_of_nat)

lemma ucast_and_mask:
  fixes w :: "'b::len word"
  shows "(ucast (w AND mask n) :: 'a::len word) = of_nat (unat w mod 2 ^ n)"
proof -
  have "unat (w AND mask n) = unat w mod 2 ^ n"
    unfolding take_bit_eq_mask [symmetric] unsigned_take_bit_eq by (rule take_bit_eq_mod)
  then show ?thesis
    by (metis of_nat_unat)
qed

section \<open>Rounding up to a power of two\<close>

lemma neg_mask_eq_div:
  fixes x :: int
  shows "x AND NOT (mask n) = 2 ^ n * (x div 2 ^ n)"
proof -
  have "x AND NOT (mask n) = push_bit n (drop_bit n x)"
    by (rule bit_eqI) (auto simp: bit_simps)
  then show ?thesis
    by (simp add: push_bit_eq_mult drop_bit_eq_div)
qed

lemma word_neg_mask_eq:
  fixes x :: "'a::len word"
  shows "x AND NOT (mask n) = x - (x AND mask n)"
proof -
  have "(x AND NOT (mask n)) AND (x AND mask n) = 0"
    by (rule bit_word_eqI) (auto simp: bit_simps)
  then have "(x AND NOT (mask n)) + (x AND mask n) = (x AND NOT (mask n)) OR (x AND mask n)"
    by (rule disjunctive_add_eq_or)
  also have "\<dots> = x"
    by (rule bit_word_eqI) (auto simp: bit_simps)
  finally show ?thesis
    by (simp add: algebra_simps)
qed

end
