(* ===== verification/Vmir_Ops.thy ===== *)
theory Vmir_Ops
  imports Vmir_Prelude
begin

text \<open>
  The instruction set of the virtual machine, \<open>enum vm_op_t\<close> of \<open>src/src/vmir_vm.h\<close>, and
  the LLVM opcode numbers of \<open>src/src/bitcode.h\<close> it is laid out after. The enumeration has
  490 members that fall into families, for example \<open>VM_ADD_R32\<close> to \<open>VM_XOR_R32\<close>; a family is
  one constructor over the operation it is indexed with. The value of a member is its position
  in \<open>vm_op_enum\<close>, the members in the order of the header file. The emitter computes opcodes by
  adding an LLVM opcode number to the first member of a family ("must be in same order as enum
  BinaryOpcodes"); the theorems of this file show that this arithmetic selects the member meant.
\<close>

section \<open>LLVM opcodes\<close>

datatype binop = ADD | SUB | MUL | UDIV | SDIV | UREM | SREM | SHL | LSHR | ASHR | AND_OP | OR_OP | XOR_OP

definition binops :: "binop list" where
  "binops = [ADD, SUB, MUL, UDIV, SDIV, UREM, SREM, SHL, LSHR, ASHR, AND_OP, OR_OP, XOR_OP]"

fun BINOP :: "binop \<Rightarrow> nat" where
  "BINOP ADD = 0" | "BINOP SUB = 1" | "BINOP MUL = 2" | "BINOP UDIV = 3" | "BINOP SDIV = 4"
| "BINOP UREM = 5" | "BINOP SREM = 6" | "BINOP SHL = 7" | "BINOP LSHR = 8" | "BINOP ASHR = 9"
| "BINOP AND_OP = 10" | "BINOP OR_OP = 11" | "BINOP XOR_OP = 12"

datatype icmp = EQ | NE | UGT | UGE | ULT | ULE | SGT | SGE | SLT | SLE

definition icmps :: "icmp list" where
  "icmps = [EQ, NE, UGT, UGE, ULT, ULE, SGT, SGE, SLT, SLE]"

fun ICMP :: "icmp \<Rightarrow> nat" where
  "ICMP EQ = 32" | "ICMP NE = 33" | "ICMP UGT = 34" | "ICMP UGE = 35" | "ICMP ULT = 36"
| "ICMP ULE = 37" | "ICMP SGT = 38" | "ICMP SGE = 39" | "ICMP SLT = 40" | "ICMP SLE = 41"

datatype fcmp =
    FOEQ | FOGT | FOGE | FOLT | FOLE | FONE | FORD | FUNO | FUEQ | FUGT | FUGE | FULT | FULE | FUNE

definition fcmps :: "fcmp list" where
  "fcmps = [FOEQ, FOGT, FOGE, FOLT, FOLE, FONE, FORD, FUNO, FUEQ, FUGT, FUGE, FULT, FULE, FUNE]"

text \<open>\<open>FCMP_FALSE\<close> (0) and \<open>FCMP_TRUE\<close> (15) have no instruction.\<close>

fun FCMP :: "fcmp \<Rightarrow> nat" where
  "FCMP FOEQ = 1" | "FCMP FOGT = 2" | "FCMP FOGE = 3" | "FCMP FOLT = 4" | "FCMP FOLE = 5"
| "FCMP FONE = 6" | "FCMP FORD = 7" | "FCMP FUNO = 8" | "FCMP FUEQ = 9" | "FCMP FUGT = 10"
| "FCMP FUGE = 11" | "FCMP FULT = 12" | "FCMP FULE = 13" | "FCMP FUNE = 14"

section \<open>Operations of the families\<close>

datatype narrow = NSDIV | NSREM | NASHR
datatype farith = FADD | FSUB | FMUL | FDIV
datatype nwidth = W8 | W16
datatype wwidth = W32 | W64
datatype width = Narrow nwidth | Wide wwidth
datatype lnmode = LN | LN_G | LN_OFF | LN_ZEXT_32_OFF | LN_SEXT_32_OFF | LN_ROFF | LN_ZEXT_32_ROFF
  | LN_SEXT_32_ROFF
datatype lwmode = LW | LW_G | LW_OFF | LW_ROFF
datatype smode = ST_G | ST | ST_C_OFF | ST_OFF
datatype sel = RR | RC | CR | CC
datatype vm_ret = RET_VOID | RET_R32 | RET_R64 | RET_R32C | RET_R64C
datatype vm_call = JSR | JSR_R | JSR_VM | JSR_EXT | INVOKE | INVOKE_R | INVOKE_VM | INVOKE_EXT
datatype vm_mov = MOV32 | MOV64 | MOV8_C | MOV16_C | MOV32_C | MOV64_C
datatype vm_lea = LEA_R32_SHL | LEA_R32_SHL2 | LEA_R32_SHL_OFF | LEA_R32_MUL_OFF
datatype vm_math = MFLOOR | MSIN | MCOS | MPOW | MFABS | MFMOD | MLOG | MLOG10 | MROUND | MSQRT | MCEIL | MEXP

datatype cast8 = CAST_1_TRUNC_8 | CAST_1_TRUNC_16
  | CAST_8_ZEXT_1 | CAST_8_SEXT_1 | CAST_8_TRUNC_16 | CAST_8_TRUNC_32 | CAST_8_TRUNC_64
datatype cast16 = CAST_16_ZEXT_1 | CAST_16_ZEXT_8 | CAST_16_SEXT_8 | CAST_16_TRUNC_32 | CAST_16_TRUNC_64
  | CAST_16_FPTOSI_FLT | CAST_16_FPTOUI_FLT | CAST_16_FPTOSI_DBL | CAST_16_FPTOUI_DBL
datatype cast32 = CAST_32_TRUNC_64 | CAST_32_SEXT_1 | CAST_32_ZEXT_8 | CAST_32_SEXT_8 | CAST_32_ZEXT_16
  | CAST_32_SEXT_16 | CAST_32_FPTOSI_FLT | CAST_32_FPTOUI_FLT | CAST_32_FPTOSI_DBL | CAST_32_FPTOUI_DBL
datatype cast64 = CAST_64_ZEXT_1 | CAST_64_SEXT_1 | CAST_64_ZEXT_8 | CAST_64_SEXT_8 | CAST_64_ZEXT_16
  | CAST_64_SEXT_16 | CAST_64_ZEXT_32 | CAST_64_SEXT_32
  | CAST_64_FPTOSI_FLT | CAST_64_FPTOUI_FLT | CAST_64_FPTOSI_DBL | CAST_64_FPTOUI_DBL
datatype fp_int = SITOFP_8 | UITOFP_8 | SITOFP_16 | UITOFP_16 | SITOFP_32 | UITOFP_32 | SITOFP_64 | UITOFP_64
datatype vm_cast = TO8 cast8 | TO16 cast16 | TO32 cast32 | TO64 cast64
  | CAST_FLT_FPTRUNC_DBL | CAST_FLT fp_int | CAST_DBL_FPEXT_FLT | CAST_DBL fp_int

datatype vm_stack = ALLOCA | ALLOCAD | UNREACHABLE | STACKSHRINK | STACKCOPYR | STACKCOPYC | STACKSAVE
  | STACKRESTORE
datatype vm_va = VASTART | VAARG32 | VAARG64 | VACOPY
datatype vm_str = STRCMP | STRCASECMP | STRLEN | STRDUP | STRCHR | STRRCHR | STRNCMP | STRCPY | STRNCPY
  | STRCAT | STRNCAT
datatype vm_memop = MEMMOVE | MEMCMP | MEMCPY | MEMSET | LLVM_MEMCPY | LLVM_MEMSET | LLVM_MEMSET64
datatype vm_bits = CTZ32 | CLZ32 | POP32 | CTZ64 | CLZ64 | POP64 | UADDO32 | UMULO32

section \<open>Instructions\<close>

datatype fkind = DBL | DBLC | FLT | FLTC
datatype brkind = BR8 | BR8_C | BR32 | BR32_C
datatype vm_flow = B | BCOND | LANDINGPAD | RESUME | JUMPTABLE | SWITCH8_BS | SWITCH32_BS | SWITCH64_BS | NOP
datatype vm_misc = JIT_CALL | INC_R32 | DEC_R32 | MLA32 | ABS | INSTRUMENT_COUNT

datatype vm_op =
    VM_RET vm_ret | VM_R8 narrow | VM_R8C narrow | VM_R16 narrow
  | VM_R16C binop | VM_R32 binop | VM_R32C binop | VM_R64 binop | VM_R64C binop | VM_FARITH fkind farith
  | VM_LOADN nwidth lnmode | VM_LOADW wwidth lwmode | VM_STORE width smode
  | VM_CMP width icmp | VM_CMP_C width icmp | VM_FCMP fkind fcmp
  | VM_CMP_BR brkind icmp | VM_CMP32_SEL icmp | VM_CMP32_C_SEL icmp
  | VM_SELECT32 sel | VM_SELECT64 sel | VM_FLOW vm_flow | VM_CALL vm_call
  | VM_MOV vm_mov | VM_LEA vm_lea | VM_CAST vm_cast | VM_MATH vm_math | VM_MATHF vm_math
  | VM_STACK vm_stack | VM_VA vm_va | VM_STR vm_str | VM_MEM vm_memop | VM_BITS vm_bits
  | VM_MISC vm_misc

subsection \<open>The enumeration, in the order of the header file\<close>

definition ops_control :: "vm_op list" where
  "ops_control = VM_MISC JIT_CALL # map VM_RET [RET_VOID, RET_R32, RET_R64, RET_R32C, RET_R64C]"

definition ops_narrow :: "vm_op list" where
  "ops_narrow = map VM_R8 [NSDIV, NSREM, NASHR] @ map VM_R8C [NSDIV, NSREM, NASHR] @
     map VM_R16 [NSDIV, NSREM, NASHR]"

definition ops_binary :: "vm_op list" where
  "ops_binary = map VM_R16C binops @ map VM_R32 binops @ [VM_MISC INC_R32, VM_MISC DEC_R32] @
     map VM_R32C binops @ map VM_R64 binops @ map VM_R64C binops"

definition ops_float :: "vm_op list" where
  "ops_float = map (VM_FARITH DBL) [FADD, FSUB, FMUL, FDIV] @ map (VM_FARITH DBLC) [FADD, FSUB, FMUL, FDIV] @
     map (VM_FARITH FLT) [FADD, FSUB, FMUL, FDIV] @ map (VM_FARITH FLTC) [FADD, FSUB, FMUL, FDIV] @
     [VM_MISC MLA32]"

definition ops_memory :: "vm_op list" where
  "ops_memory =
     map (VM_LOADN W8) [LN, LN_G, LN_OFF, LN_ZEXT_32_OFF, LN_SEXT_32_OFF, LN_ROFF, LN_ZEXT_32_ROFF,
       LN_SEXT_32_ROFF] @
     map (VM_STORE (Narrow W8)) [ST_G, ST, ST_C_OFF, ST_OFF] @
     map (VM_LOADN W16) [LN, LN_G, LN_OFF, LN_ZEXT_32_OFF, LN_SEXT_32_OFF, LN_ROFF, LN_ZEXT_32_ROFF,
       LN_SEXT_32_ROFF] @
     map (VM_STORE (Narrow W16)) [ST_G, ST, ST_C_OFF, ST_OFF] @
     map (VM_LOADW W32) [LW, LW_G, LW_OFF, LW_ROFF] @
     map (VM_STORE (Wide W32)) [ST_G, ST_C_OFF, ST, ST_OFF] @
     map (VM_LOADW W64) [LW, LW_G, LW_OFF, LW_ROFF] @
     map (VM_STORE (Wide W64)) [ST_G, ST_C_OFF, ST, ST_OFF]"

definition ops_icmp :: "vm_op list" where
  "ops_icmp =
     map (VM_CMP (Narrow W8)) icmps @ map (VM_CMP_C (Narrow W8)) icmps @
     map (VM_CMP (Narrow W16)) icmps @ map (VM_CMP_C (Narrow W16)) icmps @
     map (VM_CMP (Wide W32)) icmps @ map (VM_CMP_C (Wide W32)) icmps @
     map (VM_CMP (Wide W64)) icmps @ map (VM_CMP_C (Wide W64)) icmps"

definition ops_fcmp :: "vm_op list" where
  "ops_fcmp = map (VM_FCMP DBL) fcmps @ map (VM_FCMP DBLC) fcmps @ map (VM_FCMP FLT) fcmps @
     map (VM_FCMP FLTC) fcmps"

definition ops_branch :: "vm_op list" where
  "ops_branch = map (VM_CMP_BR BR8) icmps @ map (VM_CMP_BR BR8_C) icmps @ map (VM_CMP_BR BR32) icmps @
     map (VM_CMP_BR BR32_C) icmps @ map VM_CMP32_SEL icmps @ map VM_CMP32_C_SEL icmps"

definition ops_flow :: "vm_op list" where
  "ops_flow = map VM_SELECT32 [RR, RC, CR, CC] @ map VM_SELECT64 [RR, RC, CR, CC] @ [VM_FLOW B, VM_FLOW BCOND] @
     map VM_CALL [JSR, JSR_R, JSR_VM, JSR_EXT, INVOKE, INVOKE_R, INVOKE_VM, INVOKE_EXT] @
     [VM_FLOW LANDINGPAD, VM_FLOW RESUME, VM_FLOW JUMPTABLE, VM_FLOW SWITCH8_BS, VM_FLOW SWITCH32_BS, VM_FLOW SWITCH64_BS]"

definition ops_move :: "vm_op list" where
  "ops_move = map VM_MOV [MOV32, MOV64, MOV8_C, MOV16_C, MOV32_C, MOV64_C] @
     map VM_LEA [LEA_R32_SHL, LEA_R32_SHL2, LEA_R32_SHL_OFF, LEA_R32_MUL_OFF]"

definition fp_ints :: "fp_int list" where
  "fp_ints = [SITOFP_8, UITOFP_8, SITOFP_16, UITOFP_16, SITOFP_32, UITOFP_32, SITOFP_64, UITOFP_64]"

definition casts :: "vm_cast list" where
  "casts =
    map TO8 [CAST_1_TRUNC_8, CAST_1_TRUNC_16, CAST_8_ZEXT_1, CAST_8_SEXT_1, CAST_8_TRUNC_16, CAST_8_TRUNC_32,
      CAST_8_TRUNC_64] @
    map TO16 [CAST_16_ZEXT_1, CAST_16_ZEXT_8, CAST_16_SEXT_8, CAST_16_TRUNC_32, CAST_16_TRUNC_64,
      CAST_16_FPTOSI_FLT, CAST_16_FPTOUI_FLT, CAST_16_FPTOSI_DBL, CAST_16_FPTOUI_DBL] @
    map TO32 [CAST_32_TRUNC_64, CAST_32_SEXT_1, CAST_32_ZEXT_8, CAST_32_SEXT_8, CAST_32_ZEXT_16,
      CAST_32_SEXT_16, CAST_32_FPTOSI_FLT, CAST_32_FPTOUI_FLT, CAST_32_FPTOSI_DBL, CAST_32_FPTOUI_DBL] @
    map TO64 [CAST_64_ZEXT_1, CAST_64_SEXT_1, CAST_64_ZEXT_8, CAST_64_SEXT_8, CAST_64_ZEXT_16,
      CAST_64_SEXT_16, CAST_64_ZEXT_32, CAST_64_SEXT_32, CAST_64_FPTOSI_FLT, CAST_64_FPTOUI_FLT,
      CAST_64_FPTOSI_DBL, CAST_64_FPTOUI_DBL] @
    [CAST_FLT_FPTRUNC_DBL] @ map CAST_FLT fp_ints @ [CAST_DBL_FPEXT_FLT] @ map CAST_DBL fp_ints"

definition maths :: "vm_math list" where
  "maths = [MFLOOR, MSIN, MCOS, MPOW, MFABS, MFMOD, MLOG, MLOG10, MROUND, MSQRT, MCEIL, MEXP]"

definition ops_math :: "vm_op list" where
  "ops_math = VM_MISC ABS # map VM_MATH maths @ map VM_MATHF maths"

definition ops_misc :: "vm_op list" where
  "ops_misc = map VM_STACK [ALLOCA, ALLOCAD, UNREACHABLE, STACKSHRINK, STACKCOPYR, STACKCOPYC, STACKSAVE,
       STACKRESTORE] @
     map VM_VA [VASTART, VAARG32, VAARG64, VACOPY]"

definition ops_intrinsic :: "vm_op list" where
  "ops_intrinsic =
     map VM_STR [STRCMP, STRCASECMP, STRLEN, STRDUP, STRCHR, STRRCHR, STRNCMP, STRCPY, STRNCPY, STRCAT,
       STRNCAT] @
     map VM_MEM [MEMMOVE, MEMCMP, MEMCPY, MEMSET, LLVM_MEMCPY, LLVM_MEMSET, LLVM_MEMSET64] @
     map VM_BITS [CTZ32, CLZ32, POP32, CTZ64, CLZ64, POP64, UADDO32, UMULO32] @
     [VM_FLOW NOP, VM_MISC INSTRUMENT_COUNT]"

definition vm_op_enum :: "vm_op list" where
  "vm_op_enum = ops_control @ ops_narrow @ ops_binary @ ops_float @ ops_memory @ ops_icmp @ ops_fcmp @
     ops_branch @ ops_flow @ ops_move @ map VM_CAST casts @ ops_math @ ops_misc @ ops_intrinsic"

text \<open>The value of an enumeration constant and the constant of a value.\<close>

definition vm_op_num :: "vm_op \<Rightarrow> nat" where
  "vm_op_num op = length (takeWhile (\<lambda>x. x \<noteq> op) vm_op_enum)"

definition vm_op_of :: "nat \<Rightarrow> vm_op option" where
  "vm_op_of n = (if n < length vm_op_enum then Some (vm_op_enum ! n) else None)"

text \<open>
  \<open>vm_resolve\<close> of the build without computed gotos: the opcode is the enumeration value. (With
  computed gotos it is the distance of a label, an injective renaming the compiler chooses.)
\<close>

definition vm_resolve :: "vm_op \<Rightarrow> u16" where
  "vm_resolve op = of_nat (vm_op_num op)"

definition vm_decode :: "u16 \<Rightarrow> vm_op option" where
  "vm_decode opc = vm_op_of (unat opc)"

section \<open>Layout\<close>

text \<open>The enumeration value of each member, in closed form.\<close>

fun fkind_num :: "fkind \<Rightarrow> nat" where
  "fkind_num DBL = 0" | "fkind_num DBLC = 1" | "fkind_num FLT = 2" | "fkind_num FLTC = 3"

fun width_num :: "width \<Rightarrow> nat" where
  "width_num (Narrow W8) = 0" | "width_num (Narrow W16) = 1" | "width_num (Wide W32) = 2"
| "width_num (Wide W64) = 3"

fun brkind_num :: "brkind \<Rightarrow> nat" where
  "brkind_num BR8 = 0" | "brkind_num BR8_C = 1" | "brkind_num BR32 = 2" | "brkind_num BR32_C = 3"

definition pos :: "'a list \<Rightarrow> 'a \<Rightarrow> nat" where
  "pos xs x = length (takeWhile (\<lambda>y. y \<noteq> x) xs)"

fun vm_op_code :: "vm_op \<Rightarrow> nat" where
  "vm_op_code (VM_RET r) = 1 + pos [RET_VOID, RET_R32, RET_R64, RET_R32C, RET_R64C] r"
| "vm_op_code (VM_R8 n) = 6 + pos [NSDIV, NSREM, NASHR] n"
| "vm_op_code (VM_R8C n) = 9 + pos [NSDIV, NSREM, NASHR] n"
| "vm_op_code (VM_R16 n) = 12 + pos [NSDIV, NSREM, NASHR] n"
| "vm_op_code (VM_R16C b) = 15 + BINOP b"
| "vm_op_code (VM_R32 b) = 28 + BINOP b"
| "vm_op_code (VM_R32C b) = 43 + BINOP b"
| "vm_op_code (VM_R64 b) = 56 + BINOP b"
| "vm_op_code (VM_R64C b) = 69 + BINOP b"
| "vm_op_code (VM_FARITH k a) = 82 + 4 * fkind_num k + pos [FADD, FSUB, FMUL, FDIV] a"
| "vm_op_code (VM_LOADN v m) = (if v = W8 then 99 else 111) +
     pos [LN, LN_G, LN_OFF, LN_ZEXT_32_OFF, LN_SEXT_32_OFF, LN_ROFF, LN_ZEXT_32_ROFF, LN_SEXT_32_ROFF] m"
| "vm_op_code (VM_LOADW w m) = (if w = W32 then 123 else 131) + pos [LW, LW_G, LW_OFF, LW_ROFF] m"
| "vm_op_code (VM_STORE (Narrow v) s) = (if v = W8 then 107 else 119) + pos [ST_G, ST, ST_C_OFF, ST_OFF] s"
| "vm_op_code (VM_STORE (Wide w) s) = (if w = W32 then 127 else 135) + pos [ST_G, ST_C_OFF, ST, ST_OFF] s"
| "vm_op_code (VM_CMP w i) = 139 + 20 * width_num w + (ICMP i - 32)"
| "vm_op_code (VM_CMP_C w i) = 149 + 20 * width_num w + (ICMP i - 32)"
| "vm_op_code (VM_FCMP k f) = 219 + 14 * fkind_num k + (FCMP f - 1)"
| "vm_op_code (VM_CMP_BR k i) = 275 + 10 * brkind_num k + (ICMP i - 32)"
| "vm_op_code (VM_CMP32_SEL i) = 315 + (ICMP i - 32)"
| "vm_op_code (VM_CMP32_C_SEL i) = 325 + (ICMP i - 32)"
| "vm_op_code (VM_SELECT32 s) = 335 + pos [RR, RC, CR, CC] s"
| "vm_op_code (VM_SELECT64 s) = 339 + pos [RR, RC, CR, CC] s"
| "vm_op_code (VM_FLOW f) = (case f of NOP \<Rightarrow> 488 | B \<Rightarrow> 343 | BCOND \<Rightarrow> 344
   | _ \<Rightarrow> 353 + pos [LANDINGPAD, RESUME, JUMPTABLE, SWITCH8_BS, SWITCH32_BS, SWITCH64_BS] f)"
| "vm_op_code (VM_CALL c) = 345 + pos [JSR, JSR_R, JSR_VM, JSR_EXT, INVOKE, INVOKE_R, INVOKE_VM, INVOKE_EXT] c"
| "vm_op_code (VM_MOV m) = 359 + pos [MOV32, MOV64, MOV8_C, MOV16_C, MOV32_C, MOV64_C] m"
| "vm_op_code (VM_LEA l) = 365 + pos [LEA_R32_SHL, LEA_R32_SHL2, LEA_R32_SHL_OFF, LEA_R32_MUL_OFF] l"
| "vm_op_code (VM_CAST c) = 369 + pos casts c"
| "vm_op_code (VM_MATH m) = 426 + pos maths m"
| "vm_op_code (VM_MATHF m) = 438 + pos maths m"
| "vm_op_code (VM_STACK s) = 450 + pos [ALLOCA, ALLOCAD, UNREACHABLE, STACKSHRINK, STACKCOPYR, STACKCOPYC,
     STACKSAVE, STACKRESTORE] s"
| "vm_op_code (VM_VA v) = 458 + pos [VASTART, VAARG32, VAARG64, VACOPY] v"
| "vm_op_code (VM_STR s) = 462 + pos [STRCMP, STRCASECMP, STRLEN, STRDUP, STRCHR, STRRCHR, STRNCMP, STRCPY,
     STRNCPY, STRCAT, STRNCAT] s"
| "vm_op_code (VM_MEM m) = 473 + pos [MEMMOVE, MEMCMP, MEMCPY, MEMSET, LLVM_MEMCPY, LLVM_MEMSET,
     LLVM_MEMSET64] m"
| "vm_op_code (VM_BITS b) = 480 + pos [CTZ32, CLZ32, POP32, CTZ64, CLZ64, POP64, UADDO32, UMULO32] b"
| "vm_op_code (VM_MISC m) = (case m of JIT_CALL \<Rightarrow> 0 | INC_R32 \<Rightarrow> 41 | DEC_R32 \<Rightarrow> 42 | MLA32 \<Rightarrow> 98
   | ABS \<Rightarrow> 425 | INSTRUMENT_COUNT \<Rightarrow> 489)"

text \<open>Every instruction is a member of the enumeration, section by section.\<close>

lemma in_binops [simp]: "x \<in> set binops"
  by (cases x) (simp_all add: binops_def)

lemma in_icmps [simp]: "x \<in> set icmps"
  by (cases x) (simp_all add: icmps_def)

lemma in_fcmps [simp]: "x \<in> set fcmps"
  by (cases x) (simp_all add: fcmps_def)

lemma in_maths [simp]: "x \<in> set maths"
  by (cases x) (simp_all add: maths_def)

lemma in_fp_ints [simp]: "x \<in> set fp_ints"
  by (cases x) (simp_all add: fp_ints_def)

lemma in_casts [simp]: "c \<in> set casts"
proof (cases c)
  case (TO8 d) then show ?thesis by (cases d) (simp_all add: casts_def)
next
  case (TO16 d) then show ?thesis by (cases d) (simp_all add: casts_def)
next
  case (TO32 d) then show ?thesis by (cases d) (simp_all add: casts_def)
next
  case (TO64 d) then show ?thesis by (cases d) (simp_all add: casts_def)
qed (simp_all add: casts_def)

lemma in_r8: "VM_R8 n \<in> set ops_narrow"
  by (cases n; simp add: ops_narrow_def)

lemma in_r8c: "VM_R8C n \<in> set ops_narrow"
  by (cases n; simp add: ops_narrow_def)

lemma in_r16: "VM_R16 n \<in> set ops_narrow"
  by (cases n; simp add: ops_narrow_def)

lemma in_farith: "VM_FARITH k a \<in> set ops_float"
  by (cases k; cases a; simp add: ops_float_def)

lemma in_fcmp: "VM_FCMP k f \<in> set ops_fcmp"
  by (cases k; simp add: ops_fcmp_def)

lemma in_loadn: "VM_LOADN v n \<in> set ops_memory"
  by (cases v; cases n; simp add: ops_memory_def)

lemma in_loadw: "VM_LOADW w l \<in> set ops_memory"
  by (cases w; cases l; simp add: ops_memory_def)

lemma in_storen: "VM_STORE (Narrow v) s \<in> set ops_memory"
  by (cases v; cases s; simp add: ops_memory_def)

lemma in_storew: "VM_STORE (Wide w) s \<in> set ops_memory"
  by (cases w; cases s; simp add: ops_memory_def)

lemma in_cmpn: "VM_CMP (Narrow v) i \<in> set ops_icmp"
  by (cases v; simp add: ops_icmp_def)

lemma in_cmpw: "VM_CMP (Wide w) i \<in> set ops_icmp"
  by (cases w; simp add: ops_icmp_def)

lemma in_cmpnc: "VM_CMP_C (Narrow v) i \<in> set ops_icmp"
  by (cases v; simp add: ops_icmp_def)

lemma in_cmpwc: "VM_CMP_C (Wide w) i \<in> set ops_icmp"
  by (cases w; simp add: ops_icmp_def)

lemma in_cmp_br: "VM_CMP_BR k i \<in> set ops_branch"
  by (cases k; simp add: ops_branch_def)

lemma in_select32: "VM_SELECT32 s \<in> set ops_flow"
  by (cases s; simp add: ops_flow_def)

lemma in_select64: "VM_SELECT64 s \<in> set ops_flow"
  by (cases s; simp add: ops_flow_def)

lemma in_call: "VM_CALL c \<in> set ops_flow"
  by (cases c; simp add: ops_flow_def)

lemma in_ret: "VM_RET r \<in> set ops_control"
  by (cases r; simp add: ops_control_def)

lemma in_mov: "VM_MOV m \<in> set ops_move"
  by (cases m; simp add: ops_move_def)

lemma in_lea: "VM_LEA l \<in> set ops_move"
  by (cases l; simp add: ops_move_def)

lemma in_stack: "VM_STACK s \<in> set ops_misc"
  by (cases s; simp add: ops_misc_def)

lemma in_va: "VM_VA v \<in> set ops_misc"
  by (cases v; simp add: ops_misc_def)

lemma in_str: "VM_STR s \<in> set ops_intrinsic"
  by (cases s; simp add: ops_intrinsic_def)

lemma in_mem: "VM_MEM m \<in> set ops_intrinsic"
  by (cases m; simp add: ops_intrinsic_def)

lemma in_bits: "VM_BITS b \<in> set ops_intrinsic"
  by (cases b; simp add: ops_intrinsic_def)

lemmas in_ops = in_r8 in_r8c in_r16 in_farith in_fcmp in_loadn in_loadw in_storen in_storew in_cmpn in_cmpw in_cmpnc in_cmpwc in_cmp_br in_select32 in_select64 in_call in_ret in_mov in_lea in_stack in_va in_str in_mem in_bits

lemma in_vm_op_enum: "op \<in> set vm_op_enum"
proof (cases op)
  case (VM_FLOW f)
  then show ?thesis by (cases f) (simp_all add: vm_op_enum_def ops_flow_def ops_intrinsic_def)
next
  case (VM_MISC m)
  then show ?thesis
    by (cases m) (simp_all add: vm_op_enum_def ops_control_def ops_binary_def ops_float_def ops_math_def
        ops_intrinsic_def)
next
  case (VM_STORE w s)
  then show ?thesis by (cases w) (simp_all add: vm_op_enum_def in_ops)
next
  case (VM_CMP w s)
  then show ?thesis by (cases w) (simp_all add: vm_op_enum_def in_ops)
next
  case (VM_CMP_C w s)
  then show ?thesis by (cases w) (simp_all add: vm_op_enum_def in_ops)
next
  case (VM_CMP_BR k i)
  then show ?thesis by (simp add: vm_op_enum_def in_ops)
qed (auto simp: vm_op_enum_def in_ops ops_binary_def ops_branch_def ops_math_def)

lemma vm_op_enum_codes: "map vm_op_code vm_op_enum = [0..<490]"
  by code_simp

lemma length_vm_op_enum: "length vm_op_enum = 490"
  using arg_cong [OF vm_op_enum_codes, of length] by simp

lemma distinct_vm_op_enum: "distinct vm_op_enum"
  using distinct_map [of vm_op_code vm_op_enum] by (simp add: vm_op_enum_codes)

lemma pos_nth: "distinct xs \<Longrightarrow> i < length xs \<Longrightarrow> pos xs (xs ! i) = i"
proof (induction xs arbitrary: i)
  case (Cons x xs)
  then show ?case by (cases i) (auto simp: pos_def)
qed simp

lemma vm_op_num_code: "vm_op_num op = vm_op_code op"
proof -
  obtain i where i: "i < length vm_op_enum" "op = vm_op_enum ! i"
    using in_vm_op_enum [of op] by (auto simp: in_set_conv_nth)
  have "vm_op_code op = map vm_op_code vm_op_enum ! i"
    using i by simp
  also have "\<dots> = i"
    using i by (simp add: vm_op_enum_codes length_vm_op_enum)
  finally show ?thesis
    using pos_nth [OF distinct_vm_op_enum i(1)] i(2) by (simp add: vm_op_num_def pos_def)
qed

lemma vm_op_of_num [simp]: "vm_op_of (vm_op_num op) = Some op"
proof -
  obtain i where i: "i < length vm_op_enum" "op = vm_op_enum ! i"
    using in_vm_op_enum [of op] by (auto simp: in_set_conv_nth)
  show ?thesis
    using pos_nth [OF distinct_vm_op_enum i(1)] i by (simp add: vm_op_of_def vm_op_num_def pos_def)
qed

lemma vm_op_num_less: "vm_op_num op < 490"
  using vm_op_of_num [of op] by (auto simp: vm_op_of_def length_vm_op_enum split: if_splits)

lemma vm_decode_resolve [simp]: "vm_decode (vm_resolve op) = Some op"
proof -
  have "unat (vm_resolve op) = vm_op_num op"
    using vm_op_num_less [of op] by (simp add: vm_resolve_def unsigned_of_nat take_bit_nat_eq_self)
  then show ?thesis by (simp add: vm_decode_def)
qed

text \<open>
  Opcode layout. Adding an LLVM opcode number to the first member of an instruction family
  gives the member for that opcode, for every family the emitter indexes this way, and an
  emitted opcode decodes to the instruction it was emitted for.
\<close>

lemma opcode_arithmetic:
  "vm_decode (vm_resolve op) = Some op \<and>
   vm_op_of (vm_op_num (VM_R16C ADD) + BINOP b) = Some (VM_R16C b) \<and>
   vm_op_of (vm_op_num (VM_R32 ADD) + BINOP b) = Some (VM_R32 b) \<and>
   vm_op_of (vm_op_num (VM_R32C ADD) + BINOP b) = Some (VM_R32C b) \<and>
   vm_op_of (vm_op_num (VM_R64 ADD) + BINOP b) = Some (VM_R64 b) \<and>
   vm_op_of (vm_op_num (VM_R64C ADD) + BINOP b) = Some (VM_R64C b) \<and>
   vm_op_of (vm_op_num (VM_CMP w EQ) + (ICMP i - ICMP EQ)) = Some (VM_CMP w i) \<and>
   vm_op_of (vm_op_num (VM_CMP_C w EQ) + (ICMP i - ICMP EQ)) = Some (VM_CMP_C w i) \<and>
   vm_op_of (vm_op_num (VM_CMP_BR k EQ) + (ICMP i - ICMP EQ)) = Some (VM_CMP_BR k i) \<and>
   vm_op_of (vm_op_num (VM_CMP32_SEL EQ) + (ICMP i - ICMP EQ)) = Some (VM_CMP32_SEL i) \<and>
   vm_op_of (vm_op_num (VM_CMP32_C_SEL EQ) + (ICMP i - ICMP EQ)) = Some (VM_CMP32_C_SEL i) \<and>
   vm_op_of (vm_op_num (VM_FCMP l FOEQ) + (FCMP f - FCMP FOEQ)) = Some (VM_FCMP l f)"
proof -
  have n: "vm_op_of n = Some op'" if "n = vm_op_num op'" for n op'
    using that by simp
  show ?thesis
    by (intro conjI n vm_decode_resolve) (simp_all add: vm_op_num_code)
qed

end
