(* ===== verification/Vmir_Float.thy ===== *)
theory Vmir_Float
  imports Vmir_Ops
begin

text \<open>
  The C types \<open>float\<close> and \<open>double\<close> as the interpreter loop of \<open>src/src/vmir_vm.c\<close> uses them:
  IEEE 754 binary32 and binary64 on their bit patterns, rounding to nearest with ties to even.
  The operators are exact on finite values; which quiet NaN an invalid operation yields is left
  to the host by C and is the argument \<open>nan\<close> of the arithmetic. A format is given by the number
  \<open>p\<close> of its fraction bits (23 for \<open>float\<close>, 52 for \<open>double\<close>) and the width of the word.
\<close>

section \<open>Bit patterns\<close>

definition fp_sign :: "'a::len word \<Rightarrow> bool" where
  "fp_sign w = bit w (LENGTH('a) - 1)"

definition fp_mag :: "'a::len word \<Rightarrow> int" where
  "fp_mag w = uint w mod 2 ^ (LENGTH('a) - 1)"

text \<open>The magnitude of infinity: exponent all ones, fraction zero.\<close>

definition fp_inf_mag :: "nat \<Rightarrow> 'a::len itself \<Rightarrow> int" where
  "fp_inf_mag p t = (2 ^ (LENGTH('a) - 1 - p) - 1) * 2 ^ p"

definition fp_isnan :: "nat \<Rightarrow> 'a::len word \<Rightarrow> bool" where
  "fp_isnan p w = (fp_inf_mag p TYPE('a) < fp_mag w)"

definition fp_isinf :: "nat \<Rightarrow> 'a::len word \<Rightarrow> bool" where
  "fp_isinf p w = (fp_mag w = fp_inf_mag p TYPE('a))"

definition fp_make :: "bool \<Rightarrow> int \<Rightarrow> 'a::len word" where
  "fp_make s mag = word_of_int (mag + (if s then 2 ^ (LENGTH('a) - 1) else 0))"

text \<open>A finite value is \<open>m * 2 ^ (e + emin)\<close> with \<open>emin\<close> the weight of the least fraction bit.\<close>

definition fp_mant :: "nat \<Rightarrow> 'a::len word \<Rightarrow> int" where
  "fp_mant p w = (let e = fp_mag w div 2 ^ p; f = fp_mag w mod 2 ^ p in if e = 0 then f else 2 ^ p + f)"

definition fp_exp :: "nat \<Rightarrow> 'a::len word \<Rightarrow> int" where
  "fp_exp p w = max (fp_mag w div 2 ^ p) 1 - 1"

definition fp_emin :: "nat \<Rightarrow> 'a::len itself \<Rightarrow> int" where
  "fp_emin p t = 2 - 2 ^ (LENGTH('a) - 2 - p) - int p"

section \<open>Comparison\<close>

text \<open>The order of the numbers, in which both zeroes are equal.\<close>

definition fp_key :: "'a::len word \<Rightarrow> int" where
  "fp_key w = (if fp_sign w then - fp_mag w else fp_mag w)"

definition fp_eq :: "nat \<Rightarrow> 'a::len word \<Rightarrow> 'a word \<Rightarrow> bool" where
  "fp_eq p a b = (\<not> fp_isnan p a \<and> \<not> fp_isnan p b \<and> fp_key a = fp_key b)"

definition fp_lt :: "nat \<Rightarrow> 'a::len word \<Rightarrow> 'a word \<Rightarrow> bool" where
  "fp_lt p a b = (\<not> fp_isnan p a \<and> \<not> fp_isnan p b \<and> fp_key a < fp_key b)"

definition fp_le :: "nat \<Rightarrow> 'a::len word \<Rightarrow> 'a word \<Rightarrow> bool" where
  "fp_le p a b = (\<not> fp_isnan p a \<and> \<not> fp_isnan p b \<and> fp_key a \<le> fp_key b)"

section \<open>Rounding\<close>

function bitlen :: "int \<Rightarrow> nat" where
  "bitlen m = (if m \<le> 0 then 0 else Suc (bitlen (m div 2)))"
  by auto
termination by (relation "measure nat") auto

declare bitlen.simps [simp del]

text \<open>\<open>m / 2 ^ k\<close> to the nearest integer, ties to even.\<close>

definition round_half_even :: "int \<Rightarrow> nat \<Rightarrow> int" where
  "round_half_even m k =
     (if k = 0 then m
      else let q = m div 2 ^ k; r = m mod 2 ^ k; h = 2 ^ (k - 1)
           in if h < r \<or> (r = h \<and> odd q) then q + 1 else q)"

text \<open>The pattern of \<open>(-1) ^ s * m * 2 ^ e\<close> after rounding.\<close>

definition fp_round :: "nat \<Rightarrow> bool \<Rightarrow> int \<Rightarrow> int \<Rightarrow> 'a::len word" where
  "fp_round p s m e =
     (let emin = fp_emin p TYPE('a);
          q = max (e + int (bitlen m) - (int p + 1)) emin;
          m' = (if q \<le> e then m * 2 ^ nat (e - q) else round_half_even m (nat (q - e)));
          mag = (q - emin) * 2 ^ p + m'
      in if m = 0 then fp_make s 0
         else if fp_inf_mag p TYPE('a) \<le> mag then fp_make s (fp_inf_mag p TYPE('a))
         else fp_make s mag)"

text \<open>The signed exact value \<open>x * 2 ^ e\<close>; \<open>z\<close> is the sign of an exact zero.\<close>

definition fp_of_exact :: "nat \<Rightarrow> bool \<Rightarrow> int \<Rightarrow> int \<Rightarrow> 'a::len word" where
  "fp_of_exact p z x e = (if x = 0 then fp_make z 0 else fp_round p (x < 0) \<bar>x\<bar> e)"

section \<open>Arithmetic\<close>

definition fp_smant :: "nat \<Rightarrow> 'a::len word \<Rightarrow> int" where
  "fp_smant p w = (if fp_sign w then - fp_mant p w else fp_mant p w)"

definition fp_neg :: "'a::len word \<Rightarrow> 'a word" where
  "fp_neg w = fp_make (\<not> fp_sign w) (fp_mag w)"

definition fp_add :: "nat \<Rightarrow> ('a::len word \<Rightarrow> 'a word \<Rightarrow> 'a word) \<Rightarrow> 'a word \<Rightarrow> 'a word \<Rightarrow> 'a word" where
  "fp_add p nan a b =
     (if fp_isnan p a \<or> fp_isnan p b then nan a b
      else if fp_isinf p a \<and> fp_isinf p b then (if fp_sign a = fp_sign b then a else nan a b)
      else if fp_isinf p a then a
      else if fp_isinf p b then b
      else let e = min (fp_exp p a) (fp_exp p b) in
        fp_of_exact p (fp_sign a \<and> fp_sign b)
          (fp_smant p a * 2 ^ nat (fp_exp p a - e) + fp_smant p b * 2 ^ nat (fp_exp p b - e))
          (e + fp_emin p TYPE('a)))"

definition fp_sub :: "nat \<Rightarrow> ('a::len word \<Rightarrow> 'a word \<Rightarrow> 'a word) \<Rightarrow> 'a word \<Rightarrow> 'a word \<Rightarrow> 'a word" where
  "fp_sub p nan a b =
     (if fp_isnan p a \<or> fp_isnan p b then nan a b
      else if fp_isinf p a \<and> fp_isinf p b \<and> fp_sign a = fp_sign b then nan a b
      else fp_add p nan a (fp_neg b))"

definition fp_mul :: "nat \<Rightarrow> ('a::len word \<Rightarrow> 'a word \<Rightarrow> 'a word) \<Rightarrow> 'a word \<Rightarrow> 'a word \<Rightarrow> 'a word" where
  "fp_mul p nan a b =
     (let s = (fp_sign a \<noteq> fp_sign b) in
      if fp_isnan p a \<or> fp_isnan p b then nan a b
      else if fp_isinf p a \<or> fp_isinf p b then
        (if fp_mag a = 0 \<or> fp_mag b = 0 then nan a b else fp_make s (fp_inf_mag p TYPE('a)))
      else fp_round p s (fp_mant p a * fp_mant p b)
             (fp_exp p a + fp_exp p b + 2 * fp_emin p TYPE('a)))"

text \<open>The quotient is computed to more than \<open>p + 2\<close> bits with a sticky bit for the remainder.\<close>

definition fp_div :: "nat \<Rightarrow> ('a::len word \<Rightarrow> 'a word \<Rightarrow> 'a word) \<Rightarrow> 'a word \<Rightarrow> 'a word \<Rightarrow> 'a word" where
  "fp_div p nan a b =
     (let s = (fp_sign a \<noteq> fp_sign b);
          k = 2 * p + 4;
          n = fp_mant p a * 2 ^ k; d = fp_mant p b
      in if fp_isnan p a \<or> fp_isnan p b then nan a b
         else if fp_isinf p a then (if fp_isinf p b then nan a b else fp_make s (fp_inf_mag p TYPE('a)))
         else if fp_isinf p b then fp_make s 0
         else if d = 0 then (if fp_mag a = 0 then nan a b else fp_make s (fp_inf_mag p TYPE('a)))
         else fp_round p s (2 * (n div d) + (if n mod d = 0 then 0 else 1))
                (fp_exp p a - fp_exp p b - int k - 1))"

fun fp_arith :: "nat \<Rightarrow> ('a::len word \<Rightarrow> 'a word \<Rightarrow> 'a word) \<Rightarrow> farith \<Rightarrow> 'a word \<Rightarrow> 'a word \<Rightarrow> 'a word" where
  "fp_arith p nan FADD a b = fp_add p nan a b"
| "fp_arith p nan FSUB a b = fp_sub p nan a b"
| "fp_arith p nan FMUL a b = fp_mul p nan a b"
| "fp_arith p nan FDIV a b = fp_div p nan a b"

section \<open>Conversions\<close>

definition fp_of_int :: "nat \<Rightarrow> int \<Rightarrow> 'a::len word" where
  "fp_of_int p x = fp_of_exact p False x 0"

text \<open>Truncation toward zero; \<open>None\<close> for a NaN or an infinity.\<close>

definition fp_trunc :: "nat \<Rightarrow> 'a::len word \<Rightarrow> int option" where
  "fp_trunc p w =
     (if fp_inf_mag p TYPE('a) \<le> fp_mag w then None
      else let e = fp_exp p w + fp_emin p TYPE('a);
               m = (if 0 \<le> e then fp_mant p w * 2 ^ nat e else fp_mant p w div 2 ^ nat (- e))
           in Some (if fp_sign w then - m else m))"

text \<open>A conversion to an integer type whose range does not hold the value is undefined.\<close>

definition fp_to_int :: "nat \<Rightarrow> int \<Rightarrow> int \<Rightarrow> 'a::len word \<Rightarrow> int option" where
  "fp_to_int p lo hi w =
     (case fp_trunc p w of None \<Rightarrow> None | Some x \<Rightarrow> if lo \<le> x \<and> x < hi then Some x else None)"

text \<open>\<open>float\<close> to \<open>double\<close> and back; \<open>nan\<close> converts the payload of a NaN.\<close>

definition fp_convert :: "nat \<Rightarrow> nat \<Rightarrow> ('a::len word \<Rightarrow> 'b::len word) \<Rightarrow> 'a word \<Rightarrow> 'b word" where
  "fp_convert p p' nan w =
     (if fp_isnan p w then nan w
      else if fp_isinf p w then fp_make (fp_sign w) (fp_inf_mag p' TYPE('b))
      else fp_round p' (fp_sign w) (fp_mant p w) (fp_exp p w + fp_emin p TYPE('a)))"

section \<open>Compare instructions\<close>

text \<open>The register forms \<open>VM_OEQ_DBL\<close> to \<open>VM_UNE_DBL\<close> and their \<open>float\<close> twins, as written.\<close>

fun vm_fcmp :: "nat \<Rightarrow> fcmp \<Rightarrow> 'a::len word \<Rightarrow> 'a word \<Rightarrow> bool" where
  "vm_fcmp p FOEQ a b = fp_eq p a b"
| "vm_fcmp p FOGT a b = fp_lt p b a"
| "vm_fcmp p FOGE a b = fp_le p b a"
| "vm_fcmp p FOLT a b = fp_lt p a b"
| "vm_fcmp p FOLE a b = fp_le p a b"
| "vm_fcmp p FONE a b = (\<not> fp_isnan p a \<and> \<not> fp_isnan p b \<and> \<not> fp_eq p a b)"
| "vm_fcmp p FORD a b = (\<not> fp_isnan p a \<and> \<not> fp_isnan p b)"
| "vm_fcmp p FUNO a b = (fp_isnan p a \<or> fp_isnan p a)"
| "vm_fcmp p FUEQ a b = (fp_isnan p a \<or> fp_isnan p b \<or> fp_eq p a b)"
| "vm_fcmp p FUGT a b = (fp_isnan p a \<or> fp_isnan p b \<or> fp_lt p b a)"
| "vm_fcmp p FUGE a b = (fp_isnan p a \<or> fp_isnan p b \<or> fp_le p a b)"
| "vm_fcmp p FULT a b = (fp_isnan p a \<or> fp_isnan p b \<or> fp_lt p a b)"
| "vm_fcmp p FULE a b = (fp_isnan p a \<or> fp_isnan p b \<or> fp_le p a b)"
| "vm_fcmp p FUNE a b = (\<not> fp_eq p a b)"

text \<open>The forms with an immediate test only the register for a NaN.\<close>

fun vm_fcmp_c :: "nat \<Rightarrow> fcmp \<Rightarrow> 'a::len word \<Rightarrow> 'a word \<Rightarrow> bool" where
  "vm_fcmp_c p FOEQ a b = fp_eq p a b"
| "vm_fcmp_c p FOGT a b = fp_lt p b a"
| "vm_fcmp_c p FOGE a b = fp_le p b a"
| "vm_fcmp_c p FOLT a b = fp_lt p a b"
| "vm_fcmp_c p FOLE a b = fp_le p a b"
| "vm_fcmp_c p FONE a b = (\<not> fp_isnan p a \<and> \<not> fp_eq p a b)"
| "vm_fcmp_c p FORD a b = (\<not> fp_isnan p a)"
| "vm_fcmp_c p FUNO a b = fp_isnan p a"
| "vm_fcmp_c p FUEQ a b = (fp_isnan p a \<or> fp_eq p a b)"
| "vm_fcmp_c p FUGT a b = (fp_isnan p a \<or> fp_lt p b a)"
| "vm_fcmp_c p FUGE a b = (fp_isnan p a \<or> fp_le p a b)"
| "vm_fcmp_c p FULT a b = (fp_isnan p a \<or> fp_lt p a b)"
| "vm_fcmp_c p FULE a b = (fp_isnan p a \<or> fp_le p a b)"
| "vm_fcmp_c p FUNE a b = (\<not> fp_eq p a b)"

text \<open>The predicates of the LLVM language reference: ordered and related, or unordered or related.\<close>

definition fp_unordered :: "nat \<Rightarrow> 'a::len word \<Rightarrow> 'a word \<Rightarrow> bool" where
  "fp_unordered p a b = (fp_isnan p a \<or> fp_isnan p b)"

fun fp_relation :: "fcmp \<Rightarrow> int \<Rightarrow> int \<Rightarrow> bool" where
  "fp_relation FOEQ x y = (x = y)" | "fp_relation FUEQ x y = (x = y)"
| "fp_relation FOGT x y = (x > y)" | "fp_relation FUGT x y = (x > y)"
| "fp_relation FOGE x y = (x \<ge> y)" | "fp_relation FUGE x y = (x \<ge> y)"
| "fp_relation FOLT x y = (x < y)" | "fp_relation FULT x y = (x < y)"
| "fp_relation FOLE x y = (x \<le> y)" | "fp_relation FULE x y = (x \<le> y)"
| "fp_relation FONE x y = (x \<noteq> y)" | "fp_relation FUNE x y = (x \<noteq> y)"
| "fp_relation FORD x y = True" | "fp_relation FUNO x y = False"

definition fcmp_ordered :: "fcmp \<Rightarrow> bool" where
  "fcmp_ordered f = (f \<in> {FOEQ, FOGT, FOGE, FOLT, FOLE, FONE, FORD})"

definition llvm_fcmp :: "nat \<Rightarrow> fcmp \<Rightarrow> 'a::len word \<Rightarrow> 'a word \<Rightarrow> bool" where
  "llvm_fcmp p f a b =
     (if fcmp_ordered f then \<not> fp_unordered p a b \<and> fp_relation f (fp_key a) (fp_key b)
      else fp_unordered p a b \<or> fp_relation f (fp_key a) (fp_key b))"

section \<open>Integers survive the conversion\<close>

lemma bitlen_bounds:
  "0 < m \<Longrightarrow> 0 < bitlen m \<and> 2 ^ (bitlen m - 1) \<le> m \<and> m < 2 ^ bitlen m"
proof (induction m rule: bitlen.induct)
  case (1 m)
  show ?case
  proof (cases "m = 1")
    case True
    then show ?thesis by (simp add: bitlen.simps)
  next
    case False
    with 1 have "0 < bitlen (m div 2)" "2 ^ (bitlen (m div 2) - 1) \<le> m div 2" "m div 2 < 2 ^ bitlen (m div 2)"
      by auto
    moreover from this have "(2 :: int) ^ bitlen (m div 2) = 2 * 2 ^ (bitlen (m div 2) - 1)"
      by (metis power_Suc Suc_pred')
    moreover have "bitlen m = Suc (bitlen (m div 2))"
      using 1 by (subst bitlen.simps) simp
    moreover have "2 * x \<le> m \<longleftrightarrow> x \<le> m div 2" "m < 2 * x \<longleftrightarrow> m div 2 < x" for x
      by linarith+
    ultimately show ?thesis by (simp only: diff_Suc_1 power_Suc zero_less_Suc simp_thms)
  qed
qed

lemma bitlen_le: "0 < m \<Longrightarrow> m < 2 ^ n \<Longrightarrow> bitlen m \<le> n"
  using bitlen_bounds [of m] power_less_imp_less_exp [of "2 :: int" "bitlen m - 1" n] by fastforce

text \<open>The fields of a pattern put together by \<open>fp_make\<close>.\<close>

lemma fp_make_fields:
  assumes len: "LENGTH('a) = Suc n" and mag: "0 \<le> mag" "mag < 2 ^ n"
  shows "fp_mag (fp_make s mag :: 'a::len word) = mag" and "fp_sign (fp_make s mag :: 'a::len word) = s"
proof -
  let ?v = "mag + (if s then 2 ^ n else 0)"
  have "0 \<le> ?v" "?v < 2 ^ LENGTH('a)"
    using mag by (auto simp: len)
  then have u: "uint (fp_make s mag :: 'a word) = ?v"
    by (simp only: fp_make_def len diff_Suc_1 unsigned_of_int take_bit_int_eq_self)
  then show "fp_mag (fp_make s mag :: 'a word) = mag"
    using mag by (simp add: fp_mag_def len mod_pos_pos_trivial)
  have "fp_sign (fp_make s mag :: 'a word) \<longleftrightarrow> bit (uint (fp_make s mag :: 'a word)) n"
    by (simp add: fp_sign_def len bit_uint_iff)
  also have "\<dots> \<longleftrightarrow> odd (?v div 2 ^ n)"
    by (simp only: u bit_iff_odd)
  also have "\<dots> \<longleftrightarrow> s"
    using mag by (auto simp: div_pos_pos_trivial div_add_self2)
  finally show "fp_sign (fp_make s mag :: 'a word) = s" .
qed

lemma fp_trunc_of_int:
  fixes x :: int
  assumes len: "LENGTH('a) = Suc n" and p: "p + 1 < n" "p < 2 ^ (n - 1 - p)" and x: "\<bar>x\<bar> < 2 ^ (p + 1)"
  shows "fp_trunc p (fp_of_int p x :: 'a::len word) = Some x"
proof (cases "x = 0")
  case True
  have "fp_mag (fp_make False 0 :: 'a word) = 0"
    by (rule fp_make_fields [OF len]) simp_all
  moreover have "0 < fp_inf_mag p TYPE('a)"
    using p by (simp add: fp_inf_mag_def len)
  ultimately show ?thesis
    using True by (simp add: fp_of_int_def fp_of_exact_def fp_trunc_def fp_mant_def Let_def)
next
  case False
  define m where "m = \<bar>x\<bar>"
  define L where "L = bitlen m"
  define k where "k = p + 1 - L"
  define emin where "emin = fp_emin p TYPE('a)"
  have m: "0 < m" "m < 2 ^ (p + 1)" using False x by (auto simp: m_def)
  have L: "0 < L" "2 ^ (L - 1) \<le> m" "m < 2 ^ L" "L \<le> p + 1"
    using bitlen_bounds [OF m(1)] bitlen_le [OF m] by (auto simp: L_def)
  have emin: "emin = 2 - 2 ^ (n - 1 - p) - int p"
    by (simp add: emin_def fp_emin_def len numeral_2_eq_2)
  define m' where "m' = m * 2 ^ k"
  have m': "2 ^ p \<le> m'" "m' < 2 * 2 ^ p"
  proof -
    have "(2 :: int) ^ p = 2 ^ (L - 1) * 2 ^ k"
      using L by (simp add: k_def flip: power_add)
    then show "2 ^ p \<le> m'" using L by (simp add: m'_def)
    have "(2 :: int) * 2 ^ p = 2 ^ L * 2 ^ k"
      using L by (simp add: k_def flip: power_add power_Suc)
    then show "m' < 2 * 2 ^ p" using L by (simp add: m'_def)
  qed
  define E where "E = - int k - emin"
  have E: "0 \<le> E" "E + 2 < 2 ^ (n - p)"
  proof -
    have two: "(2 :: int) ^ (n - p) = 2 * 2 ^ (n - 1 - p)"
      using p by (simp flip: power_Suc)
    have "(2 :: int) \<le> 2 ^ (n - 1 - p)"
      using p power_increasing [of 1 "n - 1 - p" "2 :: int"] by simp
    moreover have "int p < 2 ^ (n - 1 - p)"
      using p(2) by (metis of_nat_less_iff of_nat_numeral of_nat_power)
    moreover have "int k = int p + 1 - int L"
      using L by (simp add: k_def)
    moreover have "1 \<le> int L" "int L \<le> int p + 1"
      using L by auto
    ultimately have "0 \<le> E \<and> E + 2 < 2 ^ (n - p)"
      unfolding E_def emin two by (intro conjI; linarith)
    then show "0 \<le> E" "E + 2 < 2 ^ (n - p)" by auto
  qed
  define mag where "mag = E * 2 ^ p + m'"
  have inf: "fp_inf_mag p TYPE('a) = (2 ^ (n - p) - 1) * 2 ^ p"
    by (simp add: fp_inf_mag_def len)
  have "mag < (E + 2) * 2 ^ p" using m' by (simp add: mag_def algebra_simps)
  also have "\<dots> \<le> (2 ^ (n - p) - 1) * 2 ^ p" using E by (intro mult_right_mono) auto
  finally have mag_inf: "mag < fp_inf_mag p TYPE('a)" by (simp add: inf)
  have "fp_inf_mag p TYPE('a) \<le> 2 ^ n"
    using p by (simp add: inf algebra_simps flip: power_add)
  with mag_inf have mag: "0 \<le> mag" "mag < 2 ^ n"
    using E m' by (auto simp: mag_def intro!: add_nonneg_nonneg)
  have q: "max (int L - (int p + 1)) emin = - int k"
    using E L by (auto simp: k_def E_def max_def)
  have le: "emin \<le> 0" "int L \<le> int p + 1"
    using E L by (auto simp: E_def)
  have w: "(fp_of_int p x :: 'a word) = fp_make (x < 0) mag"
    using False m(1) mag_inf le
    by (simp add: fp_of_int_def fp_of_exact_def fp_round_def Let_def q emin_def [symmetric] L_def [symmetric]
        m_def [symmetric]) (simp add: mag_def E_def m'_def)
  have f: "fp_mag (fp_of_int p x :: 'a word) = mag" "fp_sign (fp_of_int p x :: 'a word) = (x < 0)"
    unfolding w using fp_make_fields [OF len mag] by auto
  have "mag div 2 ^ p = E + 1" "mag mod 2 ^ p = m' - 2 ^ p"
  proof -
    have "mag = (E + 1) * 2 ^ p + (m' - 2 ^ p)" by (simp add: mag_def algebra_simps)
    moreover have "0 \<le> m' - 2 ^ p" "m' - 2 ^ p < 2 ^ p" using m' by auto
    ultimately show "mag div 2 ^ p = E + 1" "mag mod 2 ^ p = m' - 2 ^ p"
      using int_div_pos_eq [of mag "2 ^ p" "E + 1" "m' - 2 ^ p"] int_mod_pos_eq [of mag "2 ^ p" "E + 1" "m' - 2 ^ p"]
      by (simp_all add: mult.commute)
  qed
  then have "fp_mant p (fp_of_int p x :: 'a word) = m'" "fp_exp p (fp_of_int p x :: 'a word) = E"
    using E by (auto simp: fp_mant_def fp_exp_def f Let_def)
  with mag_inf have "fp_trunc p (fp_of_int p x :: 'a word) = Some (if x < 0 then - m else m)"
    by (simp add: fp_trunc_def f emin_def [symmetric] E_def Let_def m'_def)
  then show ?thesis by (simp add: m_def)
qed

section \<open>Properties\<close>

lemmas fcmp_defs = llvm_fcmp_def fcmp_ordered_def fp_unordered_def fp_eq_def fp_lt_def fp_le_def



text \<open>
  C34. \<open>UGE\<close> and \<open>UNO\<close> are wrong. The unordered-or-greater-or-equal compare decides unordered or
  less or equal, in both forms, and the unordered compare of two registers never looks at the
  second: 2.0 is not \<open>UGE\<close> 1.0, and 1.0 is not \<open>UNO\<close> NaN.
\<close>

theorem fcmp_uge_uno_wrong:
  "(\<forall>a b :: u64. vm_fcmp 52 FUGE a b = llvm_fcmp 52 FULE a b \<and>
     vm_fcmp 52 FUNO a b = fp_isnan 52 a) \<and>
   \<not> vm_fcmp 52 FUGE (0x4000000000000000 :: u64) 0x3ff0000000000000 \<and>
   llvm_fcmp 52 FUGE (0x4000000000000000 :: u64) 0x3ff0000000000000 \<and>
   \<not> vm_fcmp_c 52 FUGE (0x4000000000000000 :: u64) 0x3ff0000000000000 \<and>
   \<not> vm_fcmp 52 FUNO (0x3ff0000000000000 :: u64) 0x7ff8000000000000 \<and>
   llvm_fcmp 52 FUNO (0x3ff0000000000000 :: u64) 0x7ff8000000000000"
proof (intro conjI allI)
  fix a b :: u64
  show "vm_fcmp 52 FUGE a b = llvm_fcmp 52 FULE a b" "vm_fcmp 52 FUNO a b = fp_isnan 52 a"
    by (auto simp: fcmp_defs)
qed code_simp+

text \<open>
  Integer to floating point and back. Every 32-bit integer, signed or not, survives the
  conversion to \<open>double\<close> and the conversion back to an integer, and every integer of at most
  24 bits survives the conversion through \<open>float\<close>.
\<close>

theorem int_float_roundtrip:
  "fp_to_int 52 (- (2 ^ 31)) (2 ^ 31) (fp_of_int 52 (sint i) :: u64) = Some (sint (i :: u32)) \<and>
   fp_to_int 52 0 (2 ^ 32) (fp_of_int 52 (uint i) :: u64) = Some (uint i) \<and>
   (\<bar>x\<bar> < 2 ^ 24 \<longrightarrow> fp_to_int 23 (- (2 ^ 31)) (2 ^ 31) (fp_of_int 23 x :: u32) = Some x)"
proof -
  have s: "- (2 ^ 31) \<le> sint i" "sint i < 2 ^ 31"
    using sint_range_size [of i] by (auto simp: word_size)
  have u: "0 \<le> uint i" "uint i < 2 ^ 32"
    using uint_range_size [of i] by (auto simp: word_size)
  have "fp_trunc 52 (fp_of_int 52 y :: u64) = Some y" if "\<bar>y\<bar> < 2 ^ 53" for y
    using that by (intro fp_trunc_of_int [where n = 63]) auto
  with s u have "fp_trunc 52 (fp_of_int 52 (sint i) :: u64) = Some (sint i)"
    "fp_trunc 52 (fp_of_int 52 (uint i) :: u64) = Some (uint i)"
    by auto
  moreover have "fp_trunc 23 (fp_of_int 23 x :: u32) = Some x" if "\<bar>x\<bar> < 2 ^ 24"
    using that by (intro fp_trunc_of_int [where n = 31]) auto
  ultimately show ?thesis
    using s u by (auto simp: fp_to_int_def)
qed

theorem int_float_roundtrip_witness:
  "fp_to_int 52 (- (2 ^ 31)) (2 ^ 31) (fp_of_int 52 (sint (- 7 :: u32)) :: u64) = Some (- 7) \<and>
   fp_to_int 23 (- (2 ^ 31)) (2 ^ 31) (fp_of_int 23 (- 7) :: u32) = Some (- 7)"
  using int_float_roundtrip [of "- 7" "- 7"] by simp

end
