(* ===== verification/Vmir_Alu.thy ===== *)
theory Vmir_Alu
  imports Vmir_Float "HOL-Library.Signed_Division"
begin

text \<open>
  The integer instructions of the interpreter, \<open>src/src/vmir_vm.c\<close> lines 731 to 929: what the C
  expression of each instruction evaluates to. \<open>None\<close> is an expression whose behaviour C leaves
  undefined: a division by zero, \<open>INT_MIN / -1\<close>, a shift by the width or more, and a result of
  the promoted 8- and 16-bit operands that does not fit in \<open>int\<close>. A shift of a negative
  \<open>int\<close> to the right is the arithmetic shift all supported compilers implement.

  The reference semantics \<open>llvm_binop\<close> and \<open>llvm_icmp\<close> is that of the LLVM language reference
  on integers of any width; \<open>None\<close> there is a division LLVM leaves undefined or a poison shift.
\<close>

section \<open>C expressions\<close>

text \<open>\<open>VM_SDIV_R8\<close> to \<open>VM_ASHR_R16\<close>: operands already sign extended to \<open>int\<close>; the count of
  the shift is the zero extended operand.\<close>

fun narrow_alu :: "narrow \<Rightarrow> int \<Rightarrow> int \<Rightarrow> nat \<Rightarrow> u32 option" where
  "narrow_alu NSDIV a b k = (if b = 0 then None else map_option word_of_int (c_int (a sdiv b)))"
| "narrow_alu NSREM a b k = (if b = 0 then None else map_option word_of_int (c_int (a smod b)))"
| "narrow_alu NASHR a b k = (if 32 \<le> k then None else Some (word_of_int (drop_bit k a)))"

text \<open>\<open>VM_ADD_R16C\<close> to \<open>VM_XOR_R16C\<close>: a 16-bit register and a 16-bit immediate, promoted to \<open>int\<close>.\<close>

fun alu_r16c :: "binop \<Rightarrow> u16 \<Rightarrow> u16 \<Rightarrow> u32 option" where
  "alu_r16c ADD r i = map_option word_of_int (c_int (uint r + uint i))"
| "alu_r16c SUB r i = map_option word_of_int (c_int (uint r - uint i))"
| "alu_r16c MUL r i = map_option word_of_int (c_int (uint r * uint i))"
| "alu_r16c UDIV r i = (if i = 0 then None else Some (word_of_int (uint r div uint i)))"
| "alu_r16c SDIV r i = (if i = 0 then None else map_option word_of_int (c_int (sint r sdiv sint i)))"
| "alu_r16c UREM r i = (if i = 0 then None else Some (word_of_int (uint r mod uint i)))"
| "alu_r16c SREM r i = (if i = 0 then None else map_option word_of_int (c_int (sint r smod sint i)))"
| "alu_r16c SHL r i = (if 32 \<le> unat i then None else map_option word_of_int (c_int (uint r * 2 ^ unat i)))"
| "alu_r16c LSHR r i = (if 32 \<le> unat i then None else Some (word_of_int (drop_bit (unat i) (uint r))))"
| "alu_r16c ASHR r i = (if 32 \<le> unat i then None else Some (word_of_int (drop_bit (unat i) (sint r))))"
| "alu_r16c AND_OP r i = Some (word_of_int (uint r AND uint i))"
| "alu_r16c OR_OP r i = Some (word_of_int (uint r OR uint i))"
| "alu_r16c XOR_OP r i = Some (word_of_int (uint r XOR uint i))"

text \<open>The families \<open>R32\<close>, \<open>R32C\<close>, \<open>R64\<close> and \<open>R64C\<close>: no promotion, unsigned arithmetic wraps.\<close>

fun alu :: "binop \<Rightarrow> 'a::len word \<Rightarrow> 'a word \<Rightarrow> 'a word option" where
  "alu ADD a b = Some (a + b)"
| "alu SUB a b = Some (a - b)"
| "alu MUL a b = Some (a * b)"
| "alu UDIV a b = (if b = 0 then None else Some (a div b))"
| "alu SDIV a b = (if b = 0 \<or> sint a = - (2 ^ (LENGTH('a) - 1)) \<and> sint b = - 1 then None
     else Some (word_of_int (sint a sdiv sint b)))"
| "alu UREM a b = (if b = 0 then None else Some (a mod b))"
| "alu SREM a b = (if b = 0 \<or> sint a = - (2 ^ (LENGTH('a) - 1)) \<and> sint b = - 1 then None
     else Some (word_of_int (sint a smod sint b)))"
| "alu SHL a b = (if LENGTH('a) \<le> unat b then None else Some (push_bit (unat b) a))"
| "alu LSHR a b = (if LENGTH('a) \<le> unat b then None else Some (drop_bit (unat b) a))"
| "alu ASHR a b = (if LENGTH('a) \<le> unat b then None else Some (signed_drop_bit (unat b) a))"
| "alu AND_OP a b = Some (a AND b)"
| "alu OR_OP a b = Some (a OR b)"
| "alu XOR_OP a b = Some (a XOR b)"

text \<open>The compare families; operands are read at the width of the family, signed for \<open>S..\<close>.\<close>

fun vm_icmp :: "icmp \<Rightarrow> 'a::len word \<Rightarrow> 'a word \<Rightarrow> bool" where
  "vm_icmp EQ a b = (a = b)"
| "vm_icmp NE a b = (a \<noteq> b)"
| "vm_icmp UGT a b = (uint a > uint b)"
| "vm_icmp UGE a b = (uint a \<ge> uint b)"
| "vm_icmp ULT a b = (uint a < uint b)"
| "vm_icmp ULE a b = (uint a \<le> uint b)"
| "vm_icmp SGT a b = (sint a > sint b)"
| "vm_icmp SGE a b = (sint a \<ge> sint b)"
| "vm_icmp SLT a b = (sint a < sint b)"
| "vm_icmp SLE a b = (sint a \<le> sint b)"

text \<open>\<open>VM_ABS\<close>: \<open>abs(S32(1))\<close>, undefined for \<open>INT_MIN\<close>.\<close>

definition vm_abs :: "u32 \<Rightarrow> u32 option" where
  "vm_abs a = map_option word_of_int (c_int \<bar>sint a\<bar>)"

section \<open>LLVM\<close>

text \<open>
  One LLVM binary operation at width \<open>w\<close> on the unsigned values of its operands; the signed
  value of \<open>x\<close> is \<open>signed_take_bit (w - 1) x\<close>.
\<close>

fun llvm_binop :: "nat \<Rightarrow> binop \<Rightarrow> int \<Rightarrow> int \<Rightarrow> int option" where
  "llvm_binop w ADD x y = Some (take_bit w (x + y))"
| "llvm_binop w SUB x y = Some (take_bit w (x - y))"
| "llvm_binop w MUL x y = Some (take_bit w (x * y))"
| "llvm_binop w UDIV x y = (if y = 0 then None else Some (x div y))"
| "llvm_binop w SDIV x y =
    (let a = signed_take_bit (w - 1) x; b = signed_take_bit (w - 1) y
     in if b = 0 \<or> a = - (2 ^ (w - 1)) \<and> b = - 1 then None else Some (take_bit w (a sdiv b)))"
| "llvm_binop w UREM x y = (if y = 0 then None else Some (x mod y))"
| "llvm_binop w SREM x y =
    (let a = signed_take_bit (w - 1) x; b = signed_take_bit (w - 1) y
     in if b = 0 \<or> a = - (2 ^ (w - 1)) \<and> b = - 1 then None else Some (take_bit w (a smod b)))"
| "llvm_binop w SHL x y = (if int w \<le> y then None else Some (take_bit w (x * 2 ^ nat y)))"
| "llvm_binop w LSHR x y = (if int w \<le> y then None else Some (x div 2 ^ nat y))"
| "llvm_binop w ASHR x y = (if int w \<le> y then None else Some (take_bit w (signed_take_bit (w - 1) x div 2 ^ nat y)))"
| "llvm_binop w AND_OP x y = Some (x AND y)"
| "llvm_binop w OR_OP x y = Some (x OR y)"
| "llvm_binop w XOR_OP x y = Some (x XOR y)"

fun llvm_icmp :: "nat \<Rightarrow> icmp \<Rightarrow> int \<Rightarrow> int \<Rightarrow> bool" where
  "llvm_icmp w EQ x y = (x = y)"
| "llvm_icmp w NE x y = (x \<noteq> y)"
| "llvm_icmp w UGT x y = (x > y)"
| "llvm_icmp w UGE x y = (x \<ge> y)"
| "llvm_icmp w ULT x y = (x < y)"
| "llvm_icmp w ULE x y = (x \<le> y)"
| "llvm_icmp w SGT x y = (signed_take_bit (w - 1) x > signed_take_bit (w - 1) y)"
| "llvm_icmp w SGE x y = (signed_take_bit (w - 1) x \<ge> signed_take_bit (w - 1) y)"
| "llvm_icmp w SLT x y = (signed_take_bit (w - 1) x < signed_take_bit (w - 1) y)"
| "llvm_icmp w SLE x y = (signed_take_bit (w - 1) x \<le> signed_take_bit (w - 1) y)"

fun narrow_binop :: "narrow \<Rightarrow> binop" where
  "narrow_binop NSDIV = SDIV" | "narrow_binop NSREM = SREM" | "narrow_binop NASHR = ASHR"

text \<open>An \<open>int\<close> result stored in a 32-bit register, seen at a narrower width.\<close>

definition low_bits :: "u32 option \<Rightarrow> 'w::len itself \<Rightarrow> int \<Rightarrow> bool" where
  "low_bits r t z = (\<exists>v. r = Some v \<and> uint (ucast v :: 'w word) = z)"

section \<open>Agreement with LLVM\<close>

lemma sint_signed: "signed_take_bit (LENGTH('a) - 1) (uint (x :: 'a::len word)) = sint x"
  by (simp add: sint_uint)

lemma le_unat_iff: "n \<le> unat y \<longleftrightarrow> int n \<le> uint y"
  by (metis of_nat_le_iff uint_nat)

lemma alu_llvm: "map_option uint (alu b x y) = llvm_binop LENGTH('a) b (uint x) (uint (y :: 'a::len word))"
proof (cases b)
  case SHL
  have "uint (push_bit n x) = take_bit LENGTH('a) (uint x * 2 ^ n)" for n
    using unsigned_push_bit_eq [of n x, where ?'a = int] by (simp only: push_bit_eq_mult)
  with SHL show ?thesis
    by (simp add: le_unat_iff nat_uint_eq)
next
  case LSHR
  have "uint (drop_bit n x) = uint x div 2 ^ n" for n
    using unsigned_drop_bit_eq [of n x, where ?'a = int] by (simp only: drop_bit_eq_div) (simp add: take_bit_int_eq_self)
  with LSHR show ?thesis
    by (simp add: le_unat_iff nat_uint_eq)
next
  case ASHR
  have "uint (signed_drop_bit n x) = take_bit LENGTH('a) (sint x div 2 ^ n)" for n
    unfolding uint_sint sint_signed_drop_bit_eq drop_bit_eq_div by simp
  with ASHR show ?thesis
    by (simp add: sint_signed [simplified] le_unat_iff nat_uint_eq)
qed (auto simp: sint_signed [simplified] uint_0_iff signed_eq_0_iff unsigned_of_int uint_word_ariths take_bit_eq_mod uint_div_distrib uint_mod_distrib unsigned_and_eq unsigned_or_eq unsigned_xor_eq Let_def)

lemma sdiv_smod_int_range:
  assumes "- (2 ^ n) \<le> a" "a < 2 ^ n" "n < 31"
  shows "c_int (a sdiv b) = Some (a sdiv b)" and "c_int (a smod b) = Some (a smod b)"
proof -
  have n: "(2 :: int) ^ n \<le> 2 ^ 30" using assms(3) by (intro power_increasing) auto
  have a: "\<bar>a\<bar> \<le> 2 ^ n" using assms by auto
  show "c_int (a sdiv b) = Some (a sdiv b)"
    using sdiv_int_range [of a b] a n by (auto simp: c_int_def)
  have "\<bar>a\<bar> mod \<bar>b\<bar> \<le> \<bar>a\<bar>" "0 \<le> \<bar>a\<bar> mod \<bar>b\<bar>"
    by (cases "b = 0"; simp add: zmod_le_nonneg_dividend pos_mod_sign)+
  then have "\<bar>a smod b\<bar> \<le> \<bar>a\<bar>"
    by (auto simp: signed_modulo_int_def abs_mult abs_sgn_eq)
  then show "c_int (a smod b) = Some (a smod b)"
    using a n by (auto simp: c_int_def)
qed

lemma low_bits_int [simp]:
  "LENGTH('w::len) \<le> 32 \<Longrightarrow> low_bits (Some (word_of_int k)) TYPE('w) z \<longleftrightarrow> take_bit LENGTH('w) k = z"
  unfolding low_bits_def by (simp add: unsigned_of_int unsigned_ucast_eq min_def)

lemma low_bits_c_int:
  "LENGTH('w::len) \<le> 32 \<Longrightarrow> c_int k = Some k \<Longrightarrow> take_bit LENGTH('w) k = z \<Longrightarrow>
    low_bits (map_option word_of_int (c_int k)) TYPE('w) z"
  by (simp only: option.map low_bits_int)

lemma narrow_llvm:
  fixes a b :: "'w::len word"
  assumes w: "LENGTH('w) \<le> 16" and llvm: "llvm_binop LENGTH('w) (narrow_binop n) (uint a) (uint b) = Some z"
  shows "low_bits (narrow_alu n (sint a) (sint b) (unat b)) TYPE('w) z"
proof -
  have r: "- (2 ^ (LENGTH('w) - 1)) \<le> sint a" "sint a < 2 ^ (LENGTH('w) - 1)" "LENGTH('w) - 1 < 31"
    using sint_range_size [of a] w by (auto simp: word_size)
  note sd = sdiv_smod_int_range [OF r, of "sint b"]
  show ?thesis
  proof (cases n)
    case NASHR
    with llvm have "uint b < int LENGTH('w)" and z: "z = take_bit LENGTH('w) (sint a div 2 ^ unat b)"
      by (auto simp: sint_signed [simplified] nat_uint_eq split: if_splits)
    then have "unat b < LENGTH('w)"
      using le_unat_iff [of "LENGTH('w)" b] by linarith
    then show ?thesis
      using NASHR w z by (simp add: drop_bit_eq_div)
  next
    case NSDIV
    with llvm w sd show ?thesis
      by (auto simp: sint_signed [simplified] Let_def intro!: low_bits_c_int split: if_splits)
  next
    case NSREM
    with llvm w sd show ?thesis
      by (auto simp: sint_signed [simplified] Let_def intro!: low_bits_c_int split: if_splits)
  qed
qed

lemma r16c_llvm:
  assumes llvm: "llvm_binop 16 b (uint r) (uint i) = Some z"
    and mul: "b = MUL \<Longrightarrow> uint r * uint i < 2 ^ 31"
  shows "low_bits (alu_r16c b r i) TYPE(16) z"
proof -
  have u: "0 \<le> uint r" "uint r < 65536" "0 \<le> uint i" "uint i < 65536"
    using uint_range_size [of r] uint_range_size [of i] by (auto simp: word_size)
  have s: "- (2 ^ 15) \<le> sint r" "sint r < 2 ^ 15"
    using sint_range_size [of r] by (auto simp: word_size)
  note sd = sdiv_smod_int_range [OF s]
  have i: "unat i < 16" if "uint i < 16"
    using that le_unat_iff [of 16 i] by simp
  have tb: "take_bit 16 y = y" if "0 \<le> y" "y \<le> uint r \<or> y \<le> uint i" for y
    using that u by (intro take_bit_int_eq_self) auto
  have dv: "take_bit 16 (uint r div k) = uint r div k" if "0 < k" for k
    using that u zdiv_mono2 [of "uint r" 1 k] by (intro tb) (auto simp: pos_imp_zdiv_nonneg_iff)
  have ip: "0 < uint i" if "uint i \<noteq> 0"
    using that u by linarith
  note sg = sint_signed [where ?'a = 16, simplified]
  show ?thesis
  proof (cases b)
    case ADD
    have "c_int (uint r + uint i) = Some (uint r + uint i)"
      using u by (intro c_intI) linarith+
    with ADD llvm show ?thesis by (auto simp del: of_int_add intro!: low_bits_c_int)
  next
    case SUB
    have "c_int (uint r - uint i) = Some (uint r - uint i)"
      using u by (intro c_intI) linarith+
    with SUB llvm show ?thesis by (auto simp del: of_int_diff intro!: low_bits_c_int)
  next
    case MUL
    have "0 \<le> uint r * uint i"
      by (rule mult_nonneg_nonneg [OF u(1,3)])
    then have "c_int (uint r * uint i) = Some (uint r * uint i)"
      using mul [OF MUL] by (intro c_intI) (linarith, simp)
    with MUL llvm show ?thesis by (auto simp del: of_int_mult intro!: low_bits_c_int)
  next
    case UDIV
    with llvm u show ?thesis by (auto intro!: dv ip split: if_splits)
  next
    case SDIV
    with llvm sd show ?thesis by (auto simp: sg Let_def intro!: low_bits_c_int split: if_splits)
  next
    case UREM
    with llvm u show ?thesis by (auto intro!: tb zmod_le_nonneg_dividend pos_mod_sign ip split: if_splits)
  next
    case SREM
    with llvm sd show ?thesis by (auto simp: sg Let_def intro!: low_bits_c_int split: if_splits)
  next
    case SHL
    with llvm i have i: "unat i < 16" and z: "z = take_bit 16 (uint r * 2 ^ unat i)"
      by (auto simp: nat_uint_eq split: if_splits)
    have "(2 :: int) ^ unat i \<le> 2 ^ 15"
      using i by (intro power_increasing) auto
    with u have "uint r * 2 ^ unat i \<le> 65535 * 32768"
      by (intro mult_mono) auto
    moreover have "0 \<le> uint r * 2 ^ unat i"
      by (rule mult_nonneg_nonneg) (use u in auto)
    ultimately have "c_int (uint r * 2 ^ unat i) = Some (uint r * 2 ^ unat i)"
      by (intro c_intI) linarith+
    with SHL i z show ?thesis by (auto simp del: of_int_mult intro!: low_bits_c_int)
  next
    case LSHR
    with llvm i u show ?thesis
      by (auto simp: nat_uint_eq drop_bit_eq_div intro!: dv split: if_splits)
  next
    case ASHR
    with llvm i show ?thesis by (auto simp: nat_uint_eq drop_bit_eq_div sg split: if_splits)
  next
    case AND_OP
    with llvm u show ?thesis by (auto simp: AND_upper1 intro!: tb)
  next
    case OR_OP
    with llvm u show ?thesis by (auto simp: tb)
  next
    case XOR_OP
    with llvm u show ?thesis by (auto simp: tb)
  qed
qed

section \<open>Properties\<close>

lemma vm_icmp_llvm: "vm_icmp p a b = llvm_icmp LENGTH('a) p (uint a) (uint (b :: 'a::len word))"
  by (cases p) (simp_all add: sint_uint word_uint_eq_iff)

text \<open>
  C17. 32- and 64-bit arithmetic. For every binary operation and all operands the instruction
  computes the LLVM result, and its C expression is undefined exactly where LLVM's result is:
  for division by zero, the overflowing signed division and shifts by the width or more.
\<close>

theorem alu_correct:
  "map_option uint (alu b (x :: u32) y) = llvm_binop 32 b (uint x) (uint y) \<and>
   map_option uint (alu b (x' :: u64) y') = llvm_binop 64 b (uint x') (uint y')"
  using alu_llvm [of b x y] alu_llvm [of b x' y'] by simp

text \<open>
  C32. 8- and 16-bit arithmetic on promoted operands. Wherever LLVM defines the result the C
  expression is defined and the low bits of the register are that result, with one exception:
  the product of a 16-bit register and a 16-bit immediate overflows \<open>int\<close> when it reaches \<open>2 ^ 31\<close>.
\<close>

theorem narrow_alu_correct:
  fixes a8 b8 :: u8 and a16 b16 r i :: u16
  shows "(llvm_binop 8 (narrow_binop n) (uint a8) (uint b8) = Some z \<longrightarrow>
      low_bits (narrow_alu n (sint a8) (sint b8) (unat b8)) TYPE(8) z) \<and>
    (llvm_binop 16 (narrow_binop n) (uint a16) (uint b16) = Some z \<longrightarrow>
      low_bits (narrow_alu n (sint a16) (sint b16) (unat b16)) TYPE(16) z) \<and>
    (llvm_binop 16 b (uint r) (uint i) = Some z \<and> (b = MUL \<longrightarrow> uint r * uint i < 2 ^ 31) \<longrightarrow>
      low_bits (alu_r16c b r i) TYPE(16) z)"
  using narrow_llvm [of n a8 b8 z] narrow_llvm [of n a16 b16 z] r16c_llvm [of b r i z] by simp

theorem narrow_alu_correct_witness:
  "low_bits (narrow_alu NSDIV (sint (-7 :: u8)) (sint (2 :: u8)) (unat (2 :: u8))) TYPE(8) 253 \<and>
   low_bits (alu_r16c ADD 0xffff 2) TYPE(16) 1"
proof -
  have "llvm_binop 8 (narrow_binop NSDIV) (uint (-7 :: u8)) (uint (2 :: u8)) = Some 253"
    "llvm_binop 16 ADD (uint (0xffff :: u16)) (uint (2 :: u16)) = Some 1"
    by code_simp+
  then show ?thesis
    using narrow_alu_correct [of NSDIV "-7" 2 253 0 0 ADD 0 0]
      narrow_alu_correct [of NSDIV 0 0 1 0 0 ADD "0xffff" 2] by simp
qed

text \<open>
  The excepted products: \<open>VM_MUL_R16C\<close> on 65535 and 65535 is a signed overflow in C, where
  LLVM's 16-bit product is 1.
\<close>

theorem mul_r16c_overflows:
  "alu_r16c MUL 0xffff 0xffff = None \<and> llvm_binop 16 MUL (uint (0xffff :: u16)) (uint (0xffff :: u16)) = Some 1"
  by code_simp

end
