(* ===== verification/Vmir_Support.thy ===== *)
theory Vmir_Support
  imports Vmir_Prelude
begin

text \<open>
  The helpers of \<open>src/src/vmir_support.c\<close>: the macros \<open>VMIR_ALIGN\<close>, \<open>VMIR_MIN\<close>,
  \<open>VMIR_MAX\<close>, the decoding of LLVM's alignment field, bit sets stored in 32-bit words, and
  the growable vectors (\<open>VECTOR_HEAD\<close>) every table of the loader is kept in.

  A vector is modelled with the state of its backing block, since the C code frees the block
  in \<open>VECTOR_CLEAR\<close> without resetting the pointer: \<open>Null\<close> before the first allocation,
  \<open>Live\<close> cells (a cell nobody has written yet is \<open>None\<close>), and \<open>Freed\<close>.
\<close>

section \<open>Alignment\<close>

definition VMIR_MIN :: "'a::linorder \<Rightarrow> 'a \<Rightarrow> 'a" where
  "VMIR_MIN a b = (if a < b then a else b)"

definition VMIR_MAX :: "'a::linorder \<Rightarrow> 'a \<Rightarrow> 'a" where
  "VMIR_MAX a b = (if a > b then a else b)"

lemma VMIR_MIN_min [simp]: "VMIR_MIN a b = min a b"
  by (auto simp: VMIR_MIN_def min_def)

lemma VMIR_MAX_max [simp]: "VMIR_MAX a b = max a b"
  by (auto simp: VMIR_MAX_def max_def)

definition VMIR_ALIGN :: "'a::ring_bit_operations \<Rightarrow> 'a \<Rightarrow> 'a" where
  "VMIR_ALIGN a b = (a + b - 1) AND NOT (b - 1)"

lemma VMIR_ALIGN_int:
  fixes a :: int
  shows "VMIR_ALIGN a (2 ^ n) = 2 ^ n * ((a + 2 ^ n - 1) div 2 ^ n)"
  using neg_mask_eq_div [of "a + 2 ^ n - 1" n] by (simp add: VMIR_ALIGN_def mask_eq_exp_minus_1)

lemma VMIR_ALIGN_int_dvd [align_simps, intro]:
  fixes a :: int
  shows "2 ^ n dvd VMIR_ALIGN a (2 ^ n)"
  by (simp add: VMIR_ALIGN_int)

lemma VMIR_ALIGN_int_bounds:
  fixes a :: int
  shows "a \<le> VMIR_ALIGN a (2 ^ n)" and "VMIR_ALIGN a (2 ^ n) < a + 2 ^ n"
proof -
  let ?b = "(2::int) ^ n" and ?x = "a + 2 ^ n - 1"
  have "?b * (?x div ?b) + ?x mod ?b = ?x" by simp
  moreover have "0 \<le> ?x mod ?b" and "?x mod ?b < ?b" by simp_all
  ultimately show "a \<le> VMIR_ALIGN a ?b" and "VMIR_ALIGN a ?b < a + ?b"
    unfolding VMIR_ALIGN_int by linarith+
qed

lemma VMIR_ALIGN_int_id:
  fixes a :: int
  assumes "2 ^ n dvd a"
  shows "VMIR_ALIGN a (2 ^ n) = a"
proof -
  obtain d where d: "VMIR_ALIGN a (2 ^ n) - a = 2 ^ n * d"
    using assms VMIR_ALIGN_int_dvd [of n a] by (metis dvd_def dvd_diff)
  moreover have "0 \<le> VMIR_ALIGN a (2 ^ n) - a" and "VMIR_ALIGN a (2 ^ n) - a < 2 ^ n"
    using VMIR_ALIGN_int_bounds [of a n] by auto
  ultimately have "d = 0"
    by (metis add.commute add.right_neutral div_mult_self4 mult.commute
        div_pos_pos_trivial nonzero_mult_div_cancel_left power_eq_0_iff zero_neq_numeral)
  with d show ?thesis by simp
qed

text \<open>The least multiple: no multiple of the alignment lies in between.\<close>

lemma VMIR_ALIGN_int_least:
  fixes a m :: int
  assumes "a \<le> m" and "2 ^ n dvd m"
  shows "VMIR_ALIGN a (2 ^ n) \<le> m"
proof (rule ccontr)
  assume "\<not> ?thesis"
  then have "0 < VMIR_ALIGN a (2 ^ n) - m" by simp
  moreover have "2 ^ n dvd VMIR_ALIGN a (2 ^ n) - m"
    using assms(2) VMIR_ALIGN_int_dvd by (rule dvd_diff [rotated])
  ultimately have "2 ^ n \<le> VMIR_ALIGN a (2 ^ n) - m"
    by (rule zdvd_imp_le [rotated])
  with assms(1) VMIR_ALIGN_int_bounds(2) [of a n] show False by simp
qed

lemma unat_and_not_mask:
  fixes w :: "'a::len word"
  shows "unat (w AND NOT (mask n)) = 2 ^ n * (unat w div 2 ^ n)"
proof -
  have "uint (w AND NOT (mask n)) = uint w AND NOT (mask n)"
    by (rule bit_eqI) (auto simp: bit_simps bit_uint_iff dest: bit_imp_le_length)
  then have "uint (w AND NOT (mask n)) = 2 ^ n * (uint w div 2 ^ n)"
    by (simp add: neg_mask_eq_div)
  then have "int (unat (w AND NOT (mask n))) = int (2 ^ n * (unat w div 2 ^ n))"
    by (simp add: zdiv_int)
  then show ?thesis
    by (simp only: of_nat_eq_iff)
qed

text \<open>On machine words the same holds as long as the rounding does not wrap around.\<close>

lemma unat_VMIR_ALIGN:
  fixes a :: "'a::len word"
  assumes "unat a + 2 ^ n \<le> 2 ^ LENGTH('a)" and "n < LENGTH('a)"
  shows "unat (VMIR_ALIGN a (2 ^ n)) = 2 ^ n * ((unat a + 2 ^ n - 1) div 2 ^ n)"
proof -
  have "unat a + (2 ^ n - 1) < 2 ^ LENGTH('a)"
  proof -
    have "(0::nat) < 2 ^ n" by simp
    with assms(1) show ?thesis by linarith
  qed
  moreover have "unat (2 ^ n - 1 :: 'a word) = 2 ^ n - 1"
  proof -
    have "(2::nat) ^ n - 1 < 2 ^ LENGTH('a)"
      using assms(2) by (meson diff_le_self le_less_trans one_less_numeral_iff
          power_strict_increasing_iff semiring_norm(76))
    then have "unat (of_nat (2 ^ n - 1) :: 'a word) = 2 ^ n - 1"
      by (simp only: unsigned_of_nat take_bit_nat_eq_self of_nat_id)
    then show ?thesis by simp
  qed
  ultimately have "unat (a + (2 ^ n - 1)) = unat a + (2 ^ n - 1)"
    by (simp add: unat_word_ariths)
  moreover have "VMIR_ALIGN a (2 ^ n) = (a + (2 ^ n - 1)) AND NOT (mask n)"
    by (simp add: VMIR_ALIGN_def mask_eq_exp_minus_1 add_diff_eq)
  ultimately show ?thesis
    by (simp add: unat_and_not_mask)
qed

definition vmir_llvm_alignment :: "int \<Rightarrow> int \<Rightarrow> int result" where
  "vmir_llvm_alignment align default_alignment =
     (if align = 0 then Inr default_alignment
      else if align > 9 then Inr 256
      else if align < 0 then Inl Undefined_behaviour
      else Inr (drop_bit 1 (push_bit (nat align) 1)))"

lemma vmir_llvm_alignment_pos:
  assumes "0 < align" and "align \<le> 9"
  shows "vmir_llvm_alignment align d = Inr (2 ^ (nat align - 1))"
proof -
  obtain k where "nat align = Suc k"
    using assms(1) by (cases "nat align") auto
  with assms show ?thesis
    by (simp add: vmir_llvm_alignment_def drop_bit_Suc push_bit_eq_mult)
qed

section \<open>Bit sets\<close>

type_synonym bitset_words = "u32 list"

definition bitset :: "bitset_words \<Rightarrow> nat \<Rightarrow> bitset_words" where
  "bitset bs v = bs[drop_bit 5 v := bs ! drop_bit 5 v OR push_bit (v AND 31) 1]"

definition bitclr :: "bitset_words \<Rightarrow> nat \<Rightarrow> bitset_words" where
  "bitclr bs v = bs[drop_bit 5 v := bs ! drop_bit 5 v AND NOT (push_bit (v AND 31) 1)]"

definition bitchk :: "bitset_words \<Rightarrow> nat \<Rightarrow> bool" where
  "bitchk bs v \<longleftrightarrow> bs ! drop_bit 5 v AND push_bit (v AND 31) 1 \<noteq> 0"

fun bitset_or_loop :: "bitset_words \<Rightarrow> bitset_words \<Rightarrow> nat \<Rightarrow> nat \<Rightarrow> bitset_words" where
  "bitset_or_loop bs src i 0 = bs"
| "bitset_or_loop bs src i (Suc n) = bitset_or_loop (bs[i := bs ! i OR src ! i]) src (Suc i) n"

definition bitset_or :: "bitset_words \<Rightarrow> bitset_words \<Rightarrow> nat \<Rightarrow> bitset_words" where
  "bitset_or bs src words = bitset_or_loop bs src 0 words"

text \<open>The set a word array stands for: its members below \<open>32 * length\<close>.\<close>

definition bitset_members :: "bitset_words \<Rightarrow> nat set" where
  "bitset_members bs = {v. v < 32 * length bs \<and> bit (bs ! (v div 32)) (v mod 32)}"

lemma bitset_index [simp]: "drop_bit 5 (v::nat) = v div 32" "v AND 31 = v mod 32"
  using take_bit_eq_mask [of 5 v]
  by (simp_all add: drop_bit_eq_div take_bit_eq_mod mask_eq_exp_minus_1)

lemma length_bitset_ops [simp]:
  "length (bitset bs v) = length bs" "length (bitclr bs v) = length bs"
  by (simp_all add: bitset_def bitclr_def)

lemma bitset_div_less: "v < 32 * length bs \<Longrightarrow> v div 32 < length bs"
  by (simp add: less_mult_imp_div_less mult.commute)

lemma div_mod_32_eq: "u div 32 = v div 32 \<Longrightarrow> u mod 32 = v mod 32 \<Longrightarrow> u = (v::nat)"
  by (metis div_mult_mod_eq)

lemma bitchk_iff: "v < 32 * length bs \<Longrightarrow> bitchk bs v \<longleftrightarrow> v \<in> bitset_members bs"
proof -
  have "w AND push_bit k 1 \<noteq> 0 \<longleftrightarrow> bit w k" if "k < 32" for w :: u32 and k
    using that and_exp_eq_0_iff_not_bit [of w k] by (simp add: push_bit_eq_mult)
  then show "v < 32 * length bs \<Longrightarrow> ?thesis"
    by (simp add: bitchk_def bitset_members_def)
qed

lemma bitset_members_bitset:
  assumes "v < 32 * length bs"
  shows "bitset_members (bitset bs v) = insert v (bitset_members bs)"
  using assms bitset_div_less [OF assms]
  by (auto simp: bitset_members_def bitset_def nth_list_update bit_simps
      dest: div_mod_32_eq)

lemma bitset_members_bitclr:
  assumes "v < 32 * length bs"
  shows "bitset_members (bitclr bs v) = bitset_members bs - {v}"
  using assms bitset_div_less [OF assms]
  by (auto simp: bitset_members_def bitclr_def nth_list_update bit_simps
      dest: div_mod_32_eq)

lemma bitset_or_loop_nth:
  assumes "i + n \<le> length bs"
  shows "length (bitset_or_loop bs src i n) = length bs"
    and "j < length bs \<Longrightarrow> bitset_or_loop bs src i n ! j =
      (if i \<le> j \<and> j < i + n then bs ! j OR src ! j else bs ! j)"
  using assms by (induction bs src i n rule: bitset_or_loop.induct)
    (auto simp: nth_list_update)

lemma bitset_members_or:
  assumes "length bs = words" and "length src = words"
  shows "bitset_members (bitset_or bs src words) = bitset_members bs \<union> bitset_members src"
proof -
  have "bitset_or bs src words ! j = bs ! j OR src ! j" if "j < words" for j
    using that assms bitset_or_loop_nth(2) [of 0 words bs j src] by (simp add: bitset_or_def)
  moreover have "length (bitset_or bs src words) = words"
    using assms bitset_or_loop_nth(1) [of 0 words bs src] by (simp add: bitset_or_def)
  ultimately show ?thesis
    using assms by (auto simp: bitset_members_def bitset_div_less bit_simps)
qed

section \<open>Growable vectors\<close>

datatype 'a block = Null | Live "'a option list" | Freed

record 'a vector =
  vh_p :: "'a block"
  vh_length :: nat
  vh_capacity :: nat

definition vector_zero :: "'a vector" where
  "vector_zero = \<lparr>vh_p = Null, vh_length = 0, vh_capacity = 0\<rparr>"

text \<open>\<open>realloc\<close> of the C library; \<open>realloc(NULL, n)\<close> allocates, a freed block is undefined.\<close>

fun c_realloc :: "'a block \<Rightarrow> nat \<Rightarrow> 'a block result" where
  "c_realloc Null n = Inr (Live (replicate n None))"
| "c_realloc (Live cs) n = Inr (Live (take n cs @ replicate (n - length cs) None))"
| "c_realloc Freed n = Inl Undefined_behaviour"

definition VECTOR_LEN :: "'a vector \<Rightarrow> nat" where
  "VECTOR_LEN head = vh_length head"

definition VECTOR_RESIZE :: "'a vector \<Rightarrow> nat \<Rightarrow> 'a vector result" where
  "VECTOR_RESIZE head n =
     (if n > vh_capacity head
      then res_bind (c_realloc (vh_p head) (n * 2))
             (\<lambda>p. Inr (head\<lparr>vh_p := p, vh_capacity := n * 2, vh_length := n\<rparr>))
      else Inr (head\<lparr>vh_length := n\<rparr>))"

definition VECTOR_SET_CAPACITY :: "'a vector \<Rightarrow> nat \<Rightarrow> 'a vector result" where
  "VECTOR_SET_CAPACITY head n =
     (if n > vh_capacity head
      then res_bind (c_realloc (vh_p head) n)
             (\<lambda>p. Inr (head\<lparr>vh_p := p, vh_capacity := n\<rparr>))
      else Inr head)"

text \<open>\<open>VECTOR_ITEM\<close> as a value and as the target of an assignment.\<close>

definition VECTOR_ITEM :: "'a vector \<Rightarrow> nat \<Rightarrow> 'a result" where
  "VECTOR_ITEM head n =
     (case vh_p head of
        Live cs \<Rightarrow> (if n < length cs then (case cs ! n of Some x \<Rightarrow> Inr x | None \<Rightarrow> Inl Undefined_behaviour)
                    else Inl Undefined_behaviour)
      | _ \<Rightarrow> Inl Undefined_behaviour)"

definition VECTOR_ASSIGN :: "'a vector \<Rightarrow> nat \<Rightarrow> 'a \<Rightarrow> 'a vector result" where
  "VECTOR_ASSIGN head n x =
     (case vh_p head of
        Live cs \<Rightarrow> (if n < length cs then Inr (head\<lparr>vh_p := Live (cs[n := Some x])\<rparr>)
                    else Inl Undefined_behaviour)
      | _ \<Rightarrow> Inl Undefined_behaviour)"

definition VECTOR_PUSH_BACK :: "'a vector \<Rightarrow> 'a \<Rightarrow> 'a vector result" where
  "VECTOR_PUSH_BACK head item =
     (let cursize = VECTOR_LEN head
      in res_bind (VECTOR_RESIZE head (cursize + 1))
           (\<lambda>head'. VECTOR_ASSIGN head' cursize item))"

text \<open>\<open>vh_length--\<close> on a \<open>size_t\<close> wraps at zero.\<close>

definition VECTOR_POP :: "'a vector \<Rightarrow> 'a vector" where
  "VECTOR_POP head =
     head\<lparr>vh_length := if vh_length head = 0 then 2 ^ 64 - 1 else vh_length head - 1\<rparr>"

definition VECTOR_CLEAR :: "'a vector \<Rightarrow> 'a vector result" where
  "VECTOR_CLEAR head =
     (case vh_p head of
        Freed \<Rightarrow> Inl Undefined_behaviour
      | Null \<Rightarrow> Inr (head\<lparr>vh_capacity := 0, vh_length := 0\<rparr>)
      | Live cs \<Rightarrow> Inr (head\<lparr>vh_capacity := 0, vh_length := 0, vh_p := Freed\<rparr>))"

definition vector_cells :: "'a vector \<Rightarrow> 'a option list" where
  "vector_cells v = (case vh_p v of Live cs \<Rightarrow> cs | _ \<Rightarrow> [])"

definition vector_list :: "'a vector \<Rightarrow> 'a list" where
  "vector_list v = map the (take (vh_length v) (vector_cells v))"

text \<open>
  A vector in use: the block holds exactly the capacity, the length fits, and every element
  below the length has been written.
\<close>

definition vector_ok :: "'a vector \<Rightarrow> bool" where
  "vector_ok v \<longleftrightarrow> vh_p v \<noteq> Freed \<and> length (vector_cells v) = vh_capacity v \<and>
     vh_length v \<le> vh_capacity v \<and> (\<forall>i < vh_length v. vector_cells v ! i \<noteq> None)"

lemma vector_ok_zero: "vector_ok vector_zero" "vector_list vector_zero = []"
  by (simp_all add: vector_ok_def vector_zero_def vector_cells_def vector_list_def)

lemma length_vector_list: "vector_ok v \<Longrightarrow> length (vector_list v) = vh_length v"
  by (simp add: vector_ok_def vector_list_def)

lemma VECTOR_RESIZE_cells:
  assumes "vector_ok v" and "n \<ge> vh_length v"
  obtains v' k where "VECTOR_RESIZE v n = Inr v'" and "vh_length v' = n"
    and "vector_cells v' = vector_cells v @ replicate k None"
    and "vh_p v' = Live (vector_cells v') \<or> n = 0" and "length (vector_cells v') = vh_capacity v'"
    and "n \<le> vh_capacity v'" and "vh_p v' \<noteq> Freed"
  using assms that
  by (cases "vh_p v"; cases "n > vh_capacity v")
    (force simp: VECTOR_RESIZE_def vector_ok_def vector_cells_def)+

lemma VECTOR_PUSH_BACK_ok:
  assumes "vector_ok v"
  obtains v' where "VECTOR_PUSH_BACK v x = Inr v'" and "vector_ok v'"
    and "vector_list v' = vector_list v @ [x]"
proof -
  define n where "n = vh_length v"
  define cs where "cs = vector_cells v"
  have len: "n \<le> length cs" and init: "\<forall>i < n. cs ! i \<noteq> None"
    using assms by (auto simp: vector_ok_def n_def cs_def)
  obtain v1 k where v1: "VECTOR_RESIZE v (Suc n) = Inr v1" "vh_length v1 = Suc n"
    "vector_cells v1 = cs @ replicate k None"
    "vh_p v1 = Live (vector_cells v1) \<or> Suc n = 0"
    "length (vector_cells v1) = vh_capacity v1" "Suc n \<le> vh_capacity v1" "vh_p v1 \<noteq> Freed"
    using VECTOR_RESIZE_cells [OF assms, of "Suc n"] unfolding n_def cs_def by auto
  define c where "c = vector_cells v1"
  have c: "length c = vh_capacity v1" "n < length c" "vh_p v1 = Live c"
    "\<And>i. i < n \<Longrightarrow> c ! i = cs ! i" "take n c = take n cs"
    using v1 len by (auto simp: c_def nth_append)
  have push: "VECTOR_PUSH_BACK v x = Inr (v1\<lparr>vh_p := Live (c[n := Some x])\<rparr>)"
    using v1(1) c by (simp add: VECTOR_PUSH_BACK_def VECTOR_LEN_def VECTOR_ASSIGN_def n_def)
  have "vector_ok (v1\<lparr>vh_p := Live (c[n := Some x])\<rparr>)"
    using v1(2,6) c init
    by (auto simp: vector_ok_def vector_cells_def nth_list_update less_Suc_eq)
  moreover have "vector_list (v1\<lparr>vh_p := Live (c[n := Some x])\<rparr>) = vector_list v @ [x]"
    using v1(2) c by (simp add: vector_list_def vector_cells_def take_Suc_update cs_def n_def)
  ultimately show thesis
    using push that by blast
qed

lemma VECTOR_ITEM_ok:
  assumes "vector_ok v" and "i < length (vector_list v)"
  shows "VECTOR_ITEM v i = Inr (vector_list v ! i)"
  using assms
  by (auto simp: VECTOR_ITEM_def vector_ok_def vector_list_def vector_cells_def
      split: block.splits option.splits)

text \<open>
  The contract the loader's tables rely on: pushing appends and keeps what is there, items are
  read back by index. The client lemma is about a whole run of pushes, which is how every
  record handler fills its table.
\<close>

locale growable =
  fixes push :: "'v \<Rightarrow> 'a \<Rightarrow> 'v result"
    and item :: "'v \<Rightarrow> nat \<Rightarrow> 'a result"
    and elems :: "'v \<Rightarrow> 'a list"
    and ok :: "'v \<Rightarrow> bool"
  assumes push_ok: "ok v \<Longrightarrow> \<exists>v'. push v x = Inr v' \<and> ok v' \<and> elems v' = elems v @ [x]"
    and item_ok: "ok v \<Longrightarrow> i < length (elems v) \<Longrightarrow> item v i = Inr (elems v ! i)"
begin

lemma push_all_ok: "ok v \<Longrightarrow> \<exists>v'. res_fold push v xs = Inr v' \<and> ok v' \<and> elems v' = elems v @ xs"
proof (induction xs arbitrary: v)
  case Nil
  then show ?case by simp
next
  case (Cons x xs)
  then obtain v1 where v1: "push v x = Inr v1" "ok v1" "elems v1 = elems v @ [x]"
    using push_ok by blast
  with Cons.IH [of v1] show ?case by auto
qed

lemma push_all_item:
  assumes "ok v"
  shows "\<exists>v'. res_fold push v xs = Inr v' \<and>
    (\<forall>i < length (elems v). item v' i = Inr (elems v ! i)) \<and>
    (\<forall>j < length xs. item v' (length (elems v) + j) = Inr (xs ! j))"
proof -
  obtain v' where v': "res_fold push v xs = Inr v'" "ok v'" "elems v' = elems v @ xs"
    using push_all_ok [OF assms] by blast
  moreover have "item v' i = Inr ((elems v @ xs) ! i)" if "i < length (elems v) + length xs" for i
    using item_ok [OF v'(2)] v'(3) that by simp
  ultimately show ?thesis
    by (auto simp: nth_append)
qed

end

interpretation vec: growable VECTOR_PUSH_BACK VECTOR_ITEM vector_list vector_ok
proof unfold_locales
  fix v :: "'a vector" and x
  assume "vector_ok v"
  then show "\<exists>v'. VECTOR_PUSH_BACK v x = Inr v' \<and> vector_ok v' \<and> vector_list v' = vector_list v @ [x]"
    by (metis VECTOR_PUSH_BACK_ok)
qed (rule VECTOR_ITEM_ok)

text \<open>
  Pushing any sequence of elements onto a vector in use never touches memory outside the
  block: it succeeds, every earlier element is still read at its index, and the new elements
  are read at the indices that follow, across all the reallocations on the way.
\<close>

theorem vector_pushes_readable:
  assumes "vector_ok v"
  shows "\<exists>v'. res_fold VECTOR_PUSH_BACK v xs = Inr v' \<and>
    (\<forall>i < length (vector_list v). VECTOR_ITEM v' i = Inr (vector_list v ! i)) \<and>
    (\<forall>j < length xs. VECTOR_ITEM v' (length (vector_list v) + j) = Inr (xs ! j))"
  using assms by (rule vec.push_all_item)

theorem vector_pushes_readable_witness:
  "\<exists>v'. res_fold VECTOR_PUSH_BACK vector_zero [10, 20, 30 :: nat] = Inr v' \<and>
    (\<forall>i < length (vector_list (vector_zero :: nat vector)).
       VECTOR_ITEM v' i = Inr (vector_list vector_zero ! i)) \<and>
    (\<forall>j < length [10, 20, 30 :: nat].
       VECTOR_ITEM v' (length (vector_list (vector_zero :: nat vector)) + j) = Inr ([10, 20, 30] ! j))"
  by (rule vector_pushes_readable) (rule vector_ok_zero)

end
