(* ===== verification/Vmir_Mem.thy ===== *)
theory Vmir_Mem
  imports Vmir_Support
begin

text \<open>
  Memory access, \<open>src/src/vmir_mem.c\<close>, and the address translation of \<open>src/src/vmir.c\<close>.
  The guest sees a little endian memory. \<open>mem_rd*\<close> and \<open>mem_wr*\<close> come in two variants: a
  plain load or store on a little endian host, and one that swaps bytes on a big endian host.
  Both are modelled, over the bytes the host's own loads and stores touch, and shown equal.

  Memory is a function from byte offsets (relative to \<open>iu_mem\<close>) to bytes. The checks of
  \<open>CHECK_MEM_ACCESS\<close> exist only under \<open>VM_TRACE\<close>, so an access is never refused; what the
  theorems pin down is which bytes it reads and writes. The register frame of the virtual
  machine is the same kind of byte store.
\<close>

type_synonym vmem = "nat \<Rightarrow> u8"

section \<open>Host loads and stores\<close>

fun le_word :: "u8 list \<Rightarrow> 'a::len word" where
  "le_word [] = 0"
| "le_word (b # bs) = ucast b OR push_bit 8 (le_word bs)"

definition le_bytes :: "nat \<Rightarrow> 'a::len word \<Rightarrow> u8 list" where
  "le_bytes n w = map (\<lambda>i. ucast (drop_bit (8 * i) w)) [0..<n]"

definition load_bytes :: "vmem \<Rightarrow> nat \<Rightarrow> nat \<Rightarrow> u8 list" where
  "load_bytes m p n = map (\<lambda>i. m (p + i)) [0..<n]"

definition store_bytes :: "vmem \<Rightarrow> nat \<Rightarrow> u8 list \<Rightarrow> vmem" where
  "store_bytes m p bs = (\<lambda>a. if p \<le> a \<and> a < p + length bs then bs ! (a - p) else m a)"

text \<open>What \<open>*(uintN_t *)p\<close> means on a little and on a big endian host.\<close>

definition host_load_le :: "vmem \<Rightarrow> nat \<Rightarrow> 'a::len word" where
  "host_load_le m p = le_word (load_bytes m p (LENGTH('a) div 8))"

definition host_load_be :: "vmem \<Rightarrow> nat \<Rightarrow> 'a::len word" where
  "host_load_be m p = le_word (rev (load_bytes m p (LENGTH('a) div 8)))"

definition host_store_le :: "vmem \<Rightarrow> nat \<Rightarrow> 'a::len word \<Rightarrow> vmem" where
  "host_store_le m p v = store_bytes m p (le_bytes (LENGTH('a) div 8) v)"

definition host_store_be :: "vmem \<Rightarrow> nat \<Rightarrow> 'a::len word \<Rightarrow> vmem" where
  "host_store_be m p v = store_bytes m p (rev (le_bytes (LENGTH('a) div 8) v))"

text \<open>\<open>__builtin_bswap32\<close> and \<open>__builtin_bswap64\<close> of the compiler.\<close>

definition builtin_bswap :: "'a::len word \<Rightarrow> 'a word" where
  "builtin_bswap v = le_word (rev (le_bytes (LENGTH('a) div 8) v))"

section \<open>The access functions\<close>

definition mem_rd8 :: "vmem \<Rightarrow> nat \<Rightarrow> u8" where
  "mem_rd8 m p = m p"

definition mem_wr8 :: "vmem \<Rightarrow> nat \<Rightarrow> u8 \<Rightarrow> vmem" where
  "mem_wr8 m p v = m(p := v)"

subsection \<open>Big endian host\<close>

definition swap16 :: "u16 \<Rightarrow> u16" where
  "swap16 val = (drop_bit 8 val AND 0xff) OR (push_bit 8 val AND 0xff00)"

definition mem_rd16_be :: "vmem \<Rightarrow> nat \<Rightarrow> u16" where
  "mem_rd16_be m p = swap16 (host_load_be m p)"

definition mem_rd32_be :: "vmem \<Rightarrow> nat \<Rightarrow> u32" where
  "mem_rd32_be m p = builtin_bswap (host_load_be m p)"

definition mem_rd64_be :: "vmem \<Rightarrow> nat \<Rightarrow> u64" where
  "mem_rd64_be m p = builtin_bswap (host_load_be m p)"

definition mem_wr16_be :: "vmem \<Rightarrow> nat \<Rightarrow> u16 \<Rightarrow> vmem" where
  "mem_wr16_be m p v = host_store_be m p (swap16 v)"

definition mem_wr32_be :: "vmem \<Rightarrow> nat \<Rightarrow> u32 \<Rightarrow> vmem" where
  "mem_wr32_be m p v = host_store_be m p (builtin_bswap v)"

definition mem_wr64_be :: "vmem \<Rightarrow> nat \<Rightarrow> u64 \<Rightarrow> vmem" where
  "mem_wr64_be m p v = host_store_be m p (builtin_bswap v)"

definition host_wr16_be :: "vmem \<Rightarrow> nat \<Rightarrow> u16 \<Rightarrow> vmem" where
  "host_wr16_be m p v = host_store_be m p (swap16 v)"

definition host_wr32_be :: "vmem \<Rightarrow> nat \<Rightarrow> u32 \<Rightarrow> vmem" where
  "host_wr32_be m p v = host_store_be m p (builtin_bswap v)"

definition host_wr64_be :: "vmem \<Rightarrow> nat \<Rightarrow> u64 \<Rightarrow> vmem" where
  "host_wr64_be m p v = host_store_be m p (builtin_bswap v)"

subsection \<open>Little endian host\<close>

definition mem_rd16 :: "vmem \<Rightarrow> nat \<Rightarrow> u16" where
  "mem_rd16 m p = host_load_le m p"

definition mem_rd32 :: "vmem \<Rightarrow> nat \<Rightarrow> u32" where
  "mem_rd32 m p = host_load_le m p"

definition mem_rd64 :: "vmem \<Rightarrow> nat \<Rightarrow> u64" where
  "mem_rd64 m p = host_load_le m p"

definition mem_wr16 :: "vmem \<Rightarrow> nat \<Rightarrow> u16 \<Rightarrow> vmem" where
  "mem_wr16 m p v = host_store_le m p v"

definition mem_wr32 :: "vmem \<Rightarrow> nat \<Rightarrow> u32 \<Rightarrow> vmem" where
  "mem_wr32 m p v = host_store_le m p v"

definition mem_wr64 :: "vmem \<Rightarrow> nat \<Rightarrow> u64 \<Rightarrow> vmem" where
  "mem_wr64 m p v = host_store_le m p v"

definition host_wr16 :: "vmem \<Rightarrow> nat \<Rightarrow> u16 \<Rightarrow> vmem" where
  "host_wr16 m p v = host_store_le m p v"

definition host_wr32 :: "vmem \<Rightarrow> nat \<Rightarrow> u32 \<Rightarrow> vmem" where
  "host_wr32 m p v = host_store_le m p v"

definition host_wr64 :: "vmem \<Rightarrow> nat \<Rightarrow> u64 \<Rightarrow> vmem" where
  "host_wr64 m p v = host_store_le m p v"

section \<open>Addresses\<close>

text \<open>
  A host pointer is \<open>None\<close> for \<open>NULL\<close> and \<open>Some k\<close> for \<open>iu_mem + k\<close>. The guest's null is
  address 0, so the byte at offset 0 has no guest address of its own.
\<close>

definition vmir_host_to_vmaddr :: "nat option \<Rightarrow> u32" where
  "vmir_host_to_vmaddr ptr = (case ptr of None \<Rightarrow> 0 | Some k \<Rightarrow> of_nat k)"

definition vmir_vmaddr_to_host :: "u32 \<Rightarrow> nat option" where
  "vmir_vmaddr_to_host ptr = (if ptr = 0 then None else Some (unat ptr))"

definition mem_wrptr :: "vmem \<Rightarrow> u32 \<Rightarrow> nat option \<Rightarrow> vmem" where
  "mem_wrptr m offset ptr = mem_wr32 m (unat offset) (case ptr of None \<Rightarrow> 0 | Some k \<Rightarrow> of_nat k)"

definition mem_rdptr :: "vmem \<Rightarrow> u32 \<Rightarrow> nat option" where
  "mem_rdptr m offset =
     (let p = mem_rd32 m (unat offset) in if p \<noteq> 0 then Some (unat p) else None)"

section \<open>Bytes of a word\<close>

lemma length_le_bytes [simp]: "length (le_bytes n w) = n"
  by (simp add: le_bytes_def)

lemma length_load_bytes [simp]: "length (load_bytes m p n) = n"
  by (simp add: load_bytes_def)

lemma bit_le_word:
  "bit (le_word bs :: 'a::len word) n \<longleftrightarrow>
     n < LENGTH('a) \<and> n div 8 < length bs \<and> bit (bs ! (n div 8)) (n mod 8)"
proof (induction bs arbitrary: n)
  case Nil
  then show ?case by simp
next
  case (Cons b bs)
  show ?case
  proof (cases "n < 8")
    case True
    then show ?thesis by (auto simp: bit_simps)
  next
    case False
    then have "n div 8 = Suc ((n - 8) div 8)" and "(n - 8) mod 8 = n mod 8"
      by (simp_all add: le_div_geq le_mod_geq)
    moreover have "\<not> bit b n"
      using False bit_imp_le_length [of b n] by auto
    moreover have "bit (le_word (b # bs) :: 'a word) n \<longleftrightarrow>
        n < LENGTH('a) \<and> (bit b n \<or> 8 \<le> n \<and> bit (le_word bs :: 'a word) (n - 8))"
      by (auto simp: bit_or_iff bit_push_bit_iff bit_unsigned_iff)
    ultimately show ?thesis
      using False Cons [of "n - 8"] by auto
  qed
qed

lemma le_bytes_nth: "i < n \<Longrightarrow> le_bytes n w ! i = ucast (drop_bit (8 * i) w)"
  by (simp add: le_bytes_def)

lemma le_word_le_bytes:
  fixes w :: "'a::len word"
  assumes "LENGTH('a) = 8 * n"
  shows "le_word (le_bytes n w) = w"
proof (rule bit_word_eqI)
  fix k assume k: "k < LENGTH('a)"
  then have "k div 8 < n"
    using assms by (simp add: less_mult_imp_div_less mult.commute)
  with k show "bit (le_word (le_bytes n w) :: 'a word) k \<longleftrightarrow> bit w k"
    by (simp add: bit_le_word le_bytes_nth bit_simps)
qed

lemma le_bytes_le_word:
  assumes "LENGTH('a) = 8 * length bs"
  shows "le_bytes (length bs) (le_word bs :: 'a::len word) = bs"
proof (rule nth_equalityI)
  show "length (le_bytes (length bs) (le_word bs :: 'a word)) = length bs" by simp
  fix i assume "i < length (le_bytes (length bs) (le_word bs :: 'a word))"
  then have i: "i < length bs" by simp
  have "bit (le_word bs :: 'a word) (8 * i + k) \<longleftrightarrow> bit (bs ! i) k" if "k < 8" for k
  proof -
    have "(8 * i + k) div 8 = i" and "(8 * i + k) mod 8 = k" and "8 * i + k < 8 * length bs"
      using that i by auto
    with i assms show ?thesis by (simp add: bit_le_word)
  qed
  then show "le_bytes (length bs) (le_word bs :: 'a word) ! i = bs ! i"
    using i by (intro bit_word_eqI) (simp add: le_bytes_nth bit_simps)
qed

lemma load_store_bytes: "load_bytes (store_bytes m p bs) p (length bs) = bs"
  by (rule nth_equalityI) (simp_all add: load_bytes_def store_bytes_def)

lemma load_bytes_cong: "(\<And>i. i < n \<Longrightarrow> m (p + i) = m' (p' + i)) \<Longrightarrow> load_bytes m p n = load_bytes m' p' n"
  by (simp add: load_bytes_def)

lemma store_bytes_frame: "a < p \<or> p + length bs \<le> a \<Longrightarrow> store_bytes m p bs a = m a"
  by (auto simp: store_bytes_def)

section \<open>Cells\<close>

text \<open>
  The contract of a typed access of \<open>sz\<close> bytes: a store is read back, it leaves every byte
  outside the cell alone, and a load looks at the bytes of the cell only. The virtual machine
  relies on it for guest memory and for its registers.
\<close>

locale cell =
  fixes rd :: "vmem \<Rightarrow> nat \<Rightarrow> 'v"
    and wr :: "vmem \<Rightarrow> nat \<Rightarrow> 'v \<Rightarrow> vmem"
    and sz :: nat
  assumes rd_wr: "rd (wr m p v) p = v"
    and wr_frame: "a < p \<or> p + sz \<le> a \<Longrightarrow> wr m p v a = m a"
    and rd_local: "(\<And>i. i < sz \<Longrightarrow> m (p + i) = m' (p' + i)) \<Longrightarrow> rd m p = rd m' p'"
begin

lemma rd_frame: "(\<And>a. p \<le> a \<Longrightarrow> a < p + sz \<Longrightarrow> m' a = m a) \<Longrightarrow> rd m' p = rd m p"
  by (rule rd_local) auto

lemma rd_wr_disjoint: "q + sz \<le> p \<or> p + sz \<le> q \<Longrightarrow> rd (wr m p v) q = rd m q"
  by (rule rd_frame) (auto intro: wr_frame)

end

text \<open>Two kinds of cell over the same memory: a store of one does not disturb the other.\<close>

locale cell_pair = a: cell rda wra na + b: cell rdb wrb nb
  for rda :: "vmem \<Rightarrow> nat \<Rightarrow> 'a" and wra na
    and rdb :: "vmem \<Rightarrow> nat \<Rightarrow> 'b" and wrb nb
begin

lemma rd_wr_other: "q + nb \<le> p \<or> p + na \<le> q \<Longrightarrow> rdb (wra m p v) q = rdb m q"
  by (rule b.rd_frame) (auto intro: a.wr_frame)

lemma rd_wr_wr:
  assumes "p + na \<le> q \<or> q + nb \<le> p"
  shows "rda (wrb (wra m p v) q w) p = v" and "rdb (wrb (wra m p v) q w) q = w"
proof -
  have "rda (wrb (wra m p v) q w) p = rda (wra m p v) p"
    using assms by (intro a.rd_frame b.wr_frame) auto
  then show "rda (wrb (wra m p v) q w) p = v" by (simp add: a.rd_wr)
qed (rule b.rd_wr)

end

lemma host_le_cell:
  assumes "LENGTH('a::len) = 8 * n"
  shows "cell (host_load_le :: vmem \<Rightarrow> nat \<Rightarrow> 'a word) host_store_le n"
proof unfold_locales
  have n: "LENGTH('a) div 8 = n" using assms by simp
  fix m m' :: vmem and p p' a and v :: "'a word"
  show "host_load_le (host_store_le m p v) p = v"
    using load_store_bytes [of m p "le_bytes n v"] assms
    by (simp add: host_load_le_def host_store_le_def n le_word_le_bytes)
  show "a < p \<or> p + n \<le> a \<Longrightarrow> host_store_le m p v a = m a"
    by (simp add: host_store_le_def store_bytes_frame n)
  show "(\<And>i. i < n \<Longrightarrow> m (p + i) = m' (p' + i)) \<Longrightarrow>
      (host_load_le m p :: 'a word) = host_load_le m' p'"
    by (simp add: host_load_le_def n load_bytes_cong [of n m p m' p'])
qed

interpretation m8: cell mem_rd8 mem_wr8 1
  by unfold_locales (auto simp: mem_rd8_def mem_wr8_def)

interpretation m16: cell mem_rd16 mem_wr16 2
  using host_le_cell [where ?'a = 16, of 2] by (simp add: mem_rd16_def [abs_def] mem_wr16_def [abs_def])

interpretation m32: cell mem_rd32 mem_wr32 4
  using host_le_cell [where ?'a = 32, of 4] by (simp add: mem_rd32_def [abs_def] mem_wr32_def [abs_def])

interpretation m64: cell mem_rd64 mem_wr64 8
  using host_le_cell [where ?'a = 64, of 8] by (simp add: mem_rd64_def [abs_def] mem_wr64_def [abs_def])

interpretation m32_64: cell_pair mem_rd32 mem_wr32 4 mem_rd64 mem_wr64 8 ..

interpretation m64_32: cell_pair mem_rd64 mem_wr64 8 mem_rd32 mem_wr32 4 ..

interpretation m8_32: cell_pair mem_rd8 mem_wr8 1 mem_rd32 mem_wr32 4 ..

section \<open>Properties\<close>

lemma swap16_bswap: "swap16 v = builtin_bswap v"
proof -
  have e: "(0xff :: u16) = mask 8" "(0xff00 :: u16) = push_bit 8 (mask 8)"
    by code_simp+
  have "bit (swap16 v) n \<longleftrightarrow> (if n < 8 then bit v (n + 8) else n < 16 \<and> bit v (n - 8))" for n
    unfolding swap16_def e
    by (simp only: bit_or_iff bit_and_iff bit_mask_iff bit_push_bit_iff bit_drop_bit_eq comp_apply
        possible_bit_word) (auto simp: add.commute dest: bit_imp_le_length)
  moreover have "bit (builtin_bswap v) n \<longleftrightarrow> (if n < 8 then bit v (n + 8) else n < 16 \<and> bit v (n - 8))" for n
    by (auto simp: builtin_bswap_def le_bytes_def bit_simps add.commute numeral_2_eq_2)
  ultimately show ?thesis
    by (simp add: bit_eq_iff)
qed

lemma bswap_load_be:
  assumes "LENGTH('a::len) = 8 * n"
  shows "builtin_bswap (host_load_be m p :: 'a word) = host_load_le m p"
  using assms le_bytes_le_word [where ?'a = 'a, of "rev (load_bytes m p n)"]
  by (simp add: builtin_bswap_def host_load_be_def host_load_le_def)

lemma bswap_store_be:
  assumes "LENGTH('a::len) = 8 * n"
  shows "host_store_be m p (builtin_bswap v :: 'a word) = host_store_le m p v"
  using assms le_bytes_le_word [where ?'a = 'a, of "rev (le_bytes n v)"]
  by (simp add: builtin_bswap_def host_store_be_def host_store_le_def)

text \<open>
  C31. Guest memory does not depend on the byte order of the host: every access of the big
  endian build reads and writes the same bytes as that of the little endian build.
\<close>

theorem mem_access_endian_independent:
  "mem_rd16_be m p = mem_rd16 m p \<and> mem_rd32_be m p = mem_rd32 m p \<and>
   mem_rd64_be m p = mem_rd64 m p \<and> mem_wr16_be m p v16 = mem_wr16 m p v16 \<and>
   mem_wr32_be m p v32 = mem_wr32 m p v32 \<and> mem_wr64_be m p v64 = mem_wr64 m p v64 \<and>
   host_wr16_be m p v16 = host_wr16 m p v16 \<and> host_wr32_be m p v32 = host_wr32 m p v32 \<and>
   host_wr64_be m p v64 = host_wr64 m p v64"
  by (simp add: mem_rd16_be_def mem_rd16_def mem_rd32_be_def mem_rd32_def mem_rd64_be_def
      mem_rd64_def mem_wr16_be_def mem_wr16_def mem_wr32_be_def mem_wr32_def mem_wr64_be_def
      mem_wr64_def host_wr16_be_def host_wr16_def host_wr32_be_def host_wr32_def host_wr64_be_def
      host_wr64_def swap16_bswap bswap_load_be bswap_store_be)

text \<open>
  A pointer stored in guest memory is read back as the same pointer, and the translations
  between host pointers and guest addresses are inverse to each other, for every pointer into
  the guest's 4 GB other than the base address, which the guest cannot tell from \<open>NULL\<close>.
\<close>

lemma pointer_roundtrip:
  assumes "\<And>k. ptr = Some k \<Longrightarrow> 0 < k \<and> k < 2 ^ 32"
  shows "mem_rdptr (mem_wrptr m offset ptr) offset = ptr \<and>
    vmir_vmaddr_to_host (vmir_host_to_vmaddr ptr) = ptr"
proof (cases ptr)
  case None
  then show ?thesis
    by (simp add: mem_rdptr_def mem_wrptr_def m32.rd_wr vmir_vmaddr_to_host_def vmir_host_to_vmaddr_def)
next
  case (Some k)
  with assms have k: "0 < k" "k < 2 ^ 32" by auto
  then have u: "unat (of_nat k :: u32) = k"
    by (simp add: unsigned_of_nat take_bit_nat_eq_self)
  with k have "(of_nat k :: u32) \<noteq> 0" by (metis less_numeral_extra(3) unat_0)
  with u Some show ?thesis
    by (simp add: mem_rdptr_def mem_wrptr_def m32.rd_wr vmir_vmaddr_to_host_def vmir_host_to_vmaddr_def)
qed

theorem pointer_roundtrip_witness:
  "mem_rdptr (mem_wrptr (\<lambda>_. 0) 64 (Some 4096)) 64 = Some 4096 \<and>
   vmir_vmaddr_to_host (vmir_host_to_vmaddr (Some 4096)) = Some 4096"
  by (rule pointer_roundtrip) simp

end
