(* ===== verification/Vmir_VM.thy ===== *)
theory Vmir_VM
  imports Vmir_Alu Vmir_Mem
begin

text \<open>
  The interpreter of \<open>src/src/vmir_vm.c\<close>: the state it works on, the operand macros (\<open>R32\<close>,
  \<open>UIMM32\<close>, \<open>AR32\<close>, \<open>HOSTADDR\<close> and so on), one definition per group of instructions of
  \<open>vm_exec\<close>, the dispatch and the loop. The model is that of the build without \<open>VM_TRACE\<close> and
  without computed gotos on a little endian 64-bit host.

  A C pointer into a buffer is an offset. Code is a byte buffer per function (\<open>iu_vm_funcs\<close>),
  the registers of all active frames live in one buffer (the \<open>alloca\<close> of
  \<open>vmir_vm_function_call\<close>), guest memory is \<open>iu_mem\<close>. The C code checks none of its accesses;
  one that leaves its buffer is undefined behaviour and ends the model run with \<open>Ub\<close>.
  \<open>vm_stop\<close>, a \<open>longjmp\<close>, ends it with \<open>Stop\<close>.

  Code that is not part of the interpreter is an argument, the record \<open>vm_env\<close>: the external
  functions of \<open>iu_function_table\<close>, \<open>vm_exec_ext\<close> (declared in \<open>vmir.h\<close>, defined nowhere in
  the repository), code generated by the JIT, the C math library and the choices C leaves to
  the host (NaN payloads, the magnitude of \<open>memcmp\<close>, addresses of host buffers).
\<close>

section \<open>State\<close>

record vm_unit =
  iu_mem :: vmem
  iu_memsize :: nat
  iu_regs :: vmem
  iu_regsize :: nat
  iu_vm_funcs :: "nat \<Rightarrow> (vmem \<times> nat) option"
  iu_nfuncs :: nat
  iu_exception :: "u32 \<times> u32"
  iu_exit_code :: u32
  iu_instrumentation :: "u64 list"
  iu_allocapeak :: u32
  iu_out :: vmem

text \<open>Where a function writes its result: a caller's register or the buffer of the host.\<close>

datatype retptr = RetReg nat | RetOut

text \<open>The locals of one activation of \<open>vm_exec\<close>; \<open>fr_pc\<close> is \<open>I\<close>, a byte offset into the code.\<close>

record vm_frame =
  fr_fn :: nat
  fr_pc :: nat
  fr_rf :: nat
  fr_ret :: retptr
  fr_allocaptr :: u32

datatype stop_reason = STOP_EXIT | STOP_ABORT | STOP_UNREACHABLE | STOP_BAD_INSTRUCTION | STOP_BAD_FUNCTION
  | STOP_UNCAUGHT_EXCEPTION

datatype vm_halt = Ub | Stop stop_reason vm_unit

text \<open>How an instruction ends: with the next one, by leaving the function, or with a call of
  another function of the module. \<open>vm_after\<close> is what the caller does with the result.\<close>

datatype vm_flow_out = Next vm_frame | Return int
datatype vm_after = After_jsr | After_invoke
datatype vm_out = Flow vm_flow_out | Call vm_frame vm_after vm_frame

type_synonym 'a vm = "vm_halt + 'a"
type_synonym vm_res = "(vm_out \<times> vm_unit) vm"
type_synonym ext_fun = "retptr \<Rightarrow> nat \<Rightarrow> vm_unit \<Rightarrow> (int \<times> vm_unit) vm"

record vm_env =
  env_function_table :: "nat \<Rightarrow> ext_fun option"
  env_exec_ext :: "ext_fun option \<Rightarrow> ext_fun"
  env_jit :: "u32 \<Rightarrow> vm_frame \<Rightarrow> vm_unit \<Rightarrow> (nat \<times> vm_unit) vm"
  env_math :: "vm_math \<Rightarrow> u64 list \<Rightarrow> u64"
  env_mathf :: "vm_math \<Rightarrow> u32 list \<Rightarrow> u32"
  env_nan64 :: "u64 \<Rightarrow> u64 \<Rightarrow> u64"
  env_nan32 :: "u32 \<Rightarrow> u32 \<Rightarrow> u32"
  env_nan_ext :: "u32 \<Rightarrow> u64"
  env_nan_trunc :: "u64 \<Rightarrow> u32"
  env_diff :: "u8 \<Rightarrow> u8 \<Rightarrow> int"
  env_strdup :: "u8 list \<Rightarrow> u32"
  env_regbase :: u64
  env_has_builtin :: bool

definition of_opt :: "'a option \<Rightarrow> 'a vm" where
  "of_opt x = (case x of None \<Rightarrow> Inl Ub | Some v \<Rightarrow> Inr v)"

lemma of_opt_simps [simp]: "of_opt None = Inl Ub" "of_opt (Some v) = Inr v"
  by (simp_all add: of_opt_def)

definition vm_stop :: "stop_reason \<Rightarrow> u32 \<Rightarrow> vm_unit \<Rightarrow> 'a vm" where
  "vm_stop reason code st = Inl (Stop reason (st\<lparr>iu_exit_code := code\<rparr>))"

definition vm_bad_function :: "u32 \<Rightarrow> vm_unit \<Rightarrow> 'a vm" where
  "vm_bad_function fid st = vm_stop STOP_BAD_FUNCTION fid st"

section \<open>Operands\<close>

text \<open>The word \<open>I[k]\<close> and the immediates at \<open>I + k\<close>.\<close>

definition imm :: "(vmem \<Rightarrow> nat \<Rightarrow> 'v) \<Rightarrow> nat \<Rightarrow> vm_unit \<Rightarrow> vm_frame \<Rightarrow> nat \<Rightarrow> 'v vm" where
  "imm rd sz st f k =
     (case iu_vm_funcs st (fr_fn f) of
        None \<Rightarrow> Inl Ub
      | Some (text, n) \<Rightarrow> if fr_pc f + 2 * k + sz \<le> n then Inr (rd text (fr_pc f + 2 * k)) else Inl Ub)"

definition UIMM8 :: "vm_unit \<Rightarrow> vm_frame \<Rightarrow> nat \<Rightarrow> u8 vm" where
  "UIMM8 = imm mem_rd8 1"

definition UIMM16 :: "vm_unit \<Rightarrow> vm_frame \<Rightarrow> nat \<Rightarrow> u16 vm" where
  "UIMM16 = imm mem_rd16 2"

definition UIMM32 :: "vm_unit \<Rightarrow> vm_frame \<Rightarrow> nat \<Rightarrow> u32 vm" where
  "UIMM32 = imm mem_rd32 4"

definition UIMM64 :: "vm_unit \<Rightarrow> vm_frame \<Rightarrow> nat \<Rightarrow> u64 vm" where
  "UIMM64 = imm mem_rd64 8"

text \<open>\<open>rf + (int16_t)I[k]\<close>, for an access of \<open>sz\<close> bytes.\<close>

definition reg_addr :: "vm_unit \<Rightarrow> vm_frame \<Rightarrow> nat \<Rightarrow> nat \<Rightarrow> nat vm" where
  "reg_addr st f k sz =
     res_bind (UIMM16 st f k) (\<lambda>w.
       let a = int (fr_rf f) + sint w
       in if 0 \<le> a \<and> a + int sz \<le> int (iu_regsize st) then Inr (nat a) else Inl Ub)"

definition R32 :: "vm_unit \<Rightarrow> vm_frame \<Rightarrow> nat \<Rightarrow> u32 vm" where
  "R32 st f k = res_bind (reg_addr st f k 4) (\<lambda>a. Inr (mem_rd32 (iu_regs st) a))"

definition R64 :: "vm_unit \<Rightarrow> vm_frame \<Rightarrow> nat \<Rightarrow> u64 vm" where
  "R64 st f k = res_bind (reg_addr st f k 8) (\<lambda>a. Inr (mem_rd64 (iu_regs st) a))"

definition R8 :: "vm_unit \<Rightarrow> vm_frame \<Rightarrow> nat \<Rightarrow> u8 vm" where
  "R8 st f k = res_bind (R32 st f k) (\<lambda>w. Inr (ucast w))"

definition R16 :: "vm_unit \<Rightarrow> vm_frame \<Rightarrow> nat \<Rightarrow> u16 vm" where
  "R16 st f k = res_bind (R32 st f k) (\<lambda>w. Inr (ucast w))"

definition AR32 :: "vm_unit \<Rightarrow> vm_frame \<Rightarrow> nat \<Rightarrow> u32 \<Rightarrow> vm_unit vm" where
  "AR32 st f k v =
     res_bind (reg_addr st f k 4) (\<lambda>a. Inr (st\<lparr>iu_regs := mem_wr32 (iu_regs st) a v\<rparr>))"

definition AR64 :: "vm_unit \<Rightarrow> vm_frame \<Rightarrow> nat \<Rightarrow> u64 \<Rightarrow> vm_unit vm" where
  "AR64 st f k v =
     res_bind (reg_addr st f k 8) (\<lambda>a. Inr (st\<lparr>iu_regs := mem_wr64 (iu_regs st) a v\<rparr>))"

text \<open>\<open>NEXT(skip)\<close> without the fetch, and the two common ways to end an instruction.\<close>

definition next_op :: "nat \<Rightarrow> vm_frame \<Rightarrow> vm_unit \<Rightarrow> vm_res" where
  "next_op skip f st = Inr (Flow (Next (f\<lparr>fr_pc := fr_pc f + 2 * skip\<rparr>)), st)"

definition put32 :: "nat \<Rightarrow> vm_frame \<Rightarrow> vm_unit \<Rightarrow> u32 \<Rightarrow> vm_res" where
  "put32 skip f st v = res_bind (AR32 st f 0 v) (next_op skip f)"

definition put64 :: "nat \<Rightarrow> vm_frame \<Rightarrow> vm_unit \<Rightarrow> u64 \<Rightarrow> vm_res" where
  "put64 skip f st v = res_bind (AR64 st f 0 v) (next_op skip f)"

text \<open>\<open>I = (void *)I + (int16_t)off\<close>.\<close>

definition jump :: "u16 \<Rightarrow> vm_frame \<Rightarrow> vm_unit \<Rightarrow> vm_res" where
  "jump off f st =
     (let a = int (fr_pc f) + sint off
      in if 0 \<le> a then Inr (Flow (Next (f\<lparr>fr_pc := nat a\<rparr>)), st) else Inl Ub)"

text \<open>\<open>HOSTADDR(ea)\<close> for an access of \<open>sz\<close> bytes.\<close>

definition hostaddr :: "vm_unit \<Rightarrow> int \<Rightarrow> nat \<Rightarrow> nat vm" where
  "hostaddr st ea sz = (if 0 \<le> ea \<and> ea + int sz \<le> int (iu_memsize st) then Inr (nat ea) else Inl Ub)"

definition bool32 :: "bool \<Rightarrow> u32" where
  "bool32 b = (if b then 1 else 0)"

section \<open>Instructions\<close>

subsection \<open>Returns\<close>

definition write_ret32 :: "vm_frame \<Rightarrow> vm_unit \<Rightarrow> u32 \<Rightarrow> vm_res" where
  "write_ret32 f st v =
     (case fr_ret f of
        RetReg a \<Rightarrow>
          if a + 4 \<le> iu_regsize st
          then Inr (Flow (Return 0), st\<lparr>iu_regs := mem_wr32 (iu_regs st) a v\<rparr>) else Inl Ub
      | RetOut \<Rightarrow> Inr (Flow (Return 0), st\<lparr>iu_out := mem_wr32 (iu_out st) 0 v\<rparr>))"

definition write_ret64 :: "vm_frame \<Rightarrow> vm_unit \<Rightarrow> u64 \<Rightarrow> vm_res" where
  "write_ret64 f st v =
     (case fr_ret f of
        RetReg a \<Rightarrow>
          if a + 8 \<le> iu_regsize st
          then Inr (Flow (Return 0), st\<lparr>iu_regs := mem_wr64 (iu_regs st) a v\<rparr>) else Inl Ub
      | RetOut \<Rightarrow> Inr (Flow (Return 0), st\<lparr>iu_out := mem_wr64 (iu_out st) 0 v\<rparr>))"

fun exec_ret :: "vm_ret \<Rightarrow> vm_frame \<Rightarrow> vm_unit \<Rightarrow> vm_res" where
  "exec_ret RET_VOID f st = Inr (Flow (Return 0), st)"
| "exec_ret RET_R32 f st = res_bind (R32 st f 0) (write_ret32 f st)"
| "exec_ret RET_R64 f st = res_bind (R64 st f 0) (write_ret64 f st)"
| "exec_ret RET_R32C f st = res_bind (UIMM32 st f 0) (write_ret32 f st)"
| "exec_ret RET_R64C f st = res_bind (UIMM64 st f 0) (write_ret64 f st)"

subsection \<open>Calls\<close>

text \<open>What a call of function \<open>fid\<close> runs in: \<open>F\<close> is copied, registers start at \<open>rf + I[1]\<close> and
  the result goes to \<open>rf + I[2]\<close>.\<close>

definition callee_frame :: "nat \<Rightarrow> u16 \<Rightarrow> u16 \<Rightarrow> vm_frame \<Rightarrow> vm_frame" where
  "callee_frame fid i1 i2 f =
     f\<lparr>fr_fn := fid, fr_pc := 0, fr_rf := fr_rf f + unat i1, fr_ret := RetReg (fr_rf f + unat i2)\<rparr>"

text \<open>\<open>if(r) return r; NEXT(3);\<close> and \<open>I = (void *)I + (int16_t)I[3 + r]; NEXT(0);\<close>\<close>

fun after_call :: "vm_after \<Rightarrow> int \<Rightarrow> vm_frame \<Rightarrow> vm_unit \<Rightarrow> (vm_flow_out \<times> vm_unit) vm" where
  "after_call After_jsr r f st =
     (if r \<noteq> 0 then Inr (Return r, st) else Inr (Next (f\<lparr>fr_pc := fr_pc f + 6\<rparr>), st))"
| "after_call After_invoke r f st =
     (if 0 \<le> 3 + r then
        res_bind (UIMM16 st f (nat (3 + r))) (\<lambda>off.
          let a = int (fr_pc f) + sint off
          in if 0 \<le> a then Inr (Next (f\<lparr>fr_pc := nat a\<rparr>), st) else Inl Ub)
      else Inl Ub)"

definition after_flow :: "vm_after \<Rightarrow> vm_frame \<Rightarrow> int \<times> vm_unit \<Rightarrow> vm_res" where
  "after_flow k f r = res_bind (after_call k (fst r) f (snd r)) (\<lambda>(fl, st). Inr (Flow fl, st))"

text \<open>\<open>vm_exec(iu->iu_vm_funcs[fid], ...)\<close>; the callee has no code when the pointer is null.\<close>

definition call_vm :: "vm_after \<Rightarrow> nat \<Rightarrow> u16 \<Rightarrow> u16 \<Rightarrow> vm_frame \<Rightarrow> vm_unit \<Rightarrow> vm_res" where
  "call_vm k fid i1 i2 f st =
     (if fid < iu_nfuncs st \<and> iu_vm_funcs st fid \<noteq> None
      then Inr (Call (callee_frame fid i1 i2 f) k f, st) else Inl Ub)"

text \<open>\<open>I[-1] = vm_resolve(op)\<close>: the call instruction rewrites its own opcode.\<close>

definition patch_op :: "vm_op \<Rightarrow> vm_frame \<Rightarrow> vm_unit \<Rightarrow> vm_unit" where
  "patch_op op f st =
     (case iu_vm_funcs st (fr_fn f) of
        None \<Rightarrow> st
      | Some (text, n) \<Rightarrow>
          st\<lparr>iu_vm_funcs := (iu_vm_funcs st)(fr_fn f \<mapsto> (mem_wr16 text (fr_pc f - 2) (vm_resolve op), n))\<rparr>)"

definition exec_call_direct :: "vm_env \<Rightarrow> vm_after \<Rightarrow> bool \<Rightarrow> vm_frame \<Rightarrow> vm_unit \<Rightarrow> vm_res" where
  "exec_call_direct env k patch f st =
     res_bind (UIMM16 st f 0) (\<lambda>i0. res_bind (UIMM16 st f 1) (\<lambda>i1. res_bind (UIMM16 st f 2) (\<lambda>i2.
       if unat i0 < iu_nfuncs st then
         (case env_function_table env (unat i0) of
            Some ext \<Rightarrow>
              res_bind (ext (RetReg (fr_rf f + unat i2)) (fr_rf f + unat i1)
                  (if patch then patch_op (VM_CALL JSR_EXT) f st else st)) (after_flow k f)
          | None \<Rightarrow>
              call_vm k (unat i0) i1 i2 f (if patch then patch_op (VM_CALL JSR_VM) f st else st))
       else Inl Ub)))"

definition exec_call_vm :: "vm_after \<Rightarrow> vm_frame \<Rightarrow> vm_unit \<Rightarrow> vm_res" where
  "exec_call_vm k f st =
     res_bind (UIMM16 st f 0) (\<lambda>i0. res_bind (UIMM16 st f 1) (\<lambda>i1. res_bind (UIMM16 st f 2) (\<lambda>i2.
       call_vm k (unat i0) i1 i2 f st)))"

definition exec_call_ext :: "vm_env \<Rightarrow> vm_after \<Rightarrow> vm_frame \<Rightarrow> vm_unit \<Rightarrow> vm_res" where
  "exec_call_ext env k f st =
     res_bind (UIMM16 st f 0) (\<lambda>i0. res_bind (UIMM16 st f 1) (\<lambda>i1. res_bind (UIMM16 st f 2) (\<lambda>i2.
       if unat i0 < iu_nfuncs st then
         res_bind (env_exec_ext env (env_function_table env (unat i0))
             (RetReg (fr_rf f + unat i2)) (fr_rf f + unat i1) st) (after_flow k f)
       else Inl Ub)))"

text \<open>An indirect call prefers the function's VM code; \<open>JSR_R\<close> drops the result of an external function.\<close>

definition exec_call_indirect :: "vm_env \<Rightarrow> vm_after \<Rightarrow> vm_frame \<Rightarrow> vm_unit \<Rightarrow> vm_res" where
  "exec_call_indirect env k f st =
     res_bind (R32 st f 0) (\<lambda>fid. res_bind (UIMM16 st f 1) (\<lambda>i1. res_bind (UIMM16 st f 2) (\<lambda>i2.
       if iu_nfuncs st \<le> unat fid then vm_bad_function fid st
       else if iu_vm_funcs st (unat fid) \<noteq> None then call_vm k (unat fid) i1 i2 f st
       else (case env_function_table env (unat fid) of
               Some ext \<Rightarrow>
                 res_bind (ext (RetReg (fr_rf f + unat i2)) (fr_rf f + unat i1) st) (\<lambda>(r, st').
                   after_flow k f (if k = After_jsr then 0 else r, st'))
             | None \<Rightarrow> vm_bad_function fid st))))"

fun exec_call :: "vm_env \<Rightarrow> vm_call \<Rightarrow> vm_frame \<Rightarrow> vm_unit \<Rightarrow> vm_res" where
  "exec_call env JSR = exec_call_direct env After_jsr True"
| "exec_call env JSR_VM = exec_call_vm After_jsr"
| "exec_call env JSR_EXT = exec_call_ext env After_jsr"
| "exec_call env JSR_R = exec_call_indirect env After_jsr"
| "exec_call env INVOKE = exec_call_direct env After_invoke False"
| "exec_call env INVOKE_VM = exec_call_vm After_invoke"
| "exec_call env INVOKE_EXT = exec_call_ext env After_invoke"
| "exec_call env INVOKE_R = exec_call_indirect env After_invoke"

subsection \<open>Integer arithmetic\<close>

definition exec_r8 :: "narrow \<Rightarrow> vm_frame \<Rightarrow> vm_unit \<Rightarrow> vm_res" where
  "exec_r8 n f st = res_bind (R8 st f 1) (\<lambda>a. res_bind (R8 st f 2) (\<lambda>b.
     res_bind (of_opt (narrow_alu n (sint a) (sint b) (unat b))) (put32 3 f st)))"

definition exec_r8c :: "narrow \<Rightarrow> vm_frame \<Rightarrow> vm_unit \<Rightarrow> vm_res" where
  "exec_r8c n f st = res_bind (R8 st f 1) (\<lambda>a. res_bind (UIMM8 st f 2) (\<lambda>b.
     res_bind (of_opt (narrow_alu n (sint a) (sint b) (unat b))) (put32 3 f st)))"

definition exec_r16 :: "narrow \<Rightarrow> vm_frame \<Rightarrow> vm_unit \<Rightarrow> vm_res" where
  "exec_r16 n f st = res_bind (R16 st f 1) (\<lambda>a. res_bind (R16 st f 2) (\<lambda>b.
     res_bind (of_opt (narrow_alu n (sint a) (sint b) (unat b))) (put32 3 f st)))"

definition exec_r16c :: "binop \<Rightarrow> vm_frame \<Rightarrow> vm_unit \<Rightarrow> vm_res" where
  "exec_r16c op f st = res_bind (R16 st f 1) (\<lambda>a. res_bind (UIMM16 st f 2) (\<lambda>b.
     res_bind (of_opt (alu_r16c op a b)) (put32 3 f st)))"

definition exec_r32 :: "binop \<Rightarrow> vm_frame \<Rightarrow> vm_unit \<Rightarrow> vm_res" where
  "exec_r32 op f st = res_bind (R32 st f 1) (\<lambda>a. res_bind (R32 st f 2) (\<lambda>b.
     res_bind (of_opt (alu op a b)) (put32 3 f st)))"

definition exec_r32c :: "binop \<Rightarrow> vm_frame \<Rightarrow> vm_unit \<Rightarrow> vm_res" where
  "exec_r32c op f st = res_bind (R32 st f 1) (\<lambda>a. res_bind (UIMM32 st f 2) (\<lambda>b.
     res_bind (of_opt (alu op a b)) (put32 4 f st)))"

definition exec_r64 :: "binop \<Rightarrow> vm_frame \<Rightarrow> vm_unit \<Rightarrow> vm_res" where
  "exec_r64 op f st = res_bind (R64 st f 1) (\<lambda>a. res_bind (R64 st f 2) (\<lambda>b.
     res_bind (of_opt (alu op a b)) (put64 3 f st)))"

definition exec_r64c :: "binop \<Rightarrow> vm_frame \<Rightarrow> vm_unit \<Rightarrow> vm_res" where
  "exec_r64c op f st = res_bind (R64 st f 1) (\<lambda>a. res_bind (UIMM64 st f 2) (\<lambda>b.
     res_bind (of_opt (alu op a b)) (put64 6 f st)))"

definition exec_mla32 :: "vm_frame \<Rightarrow> vm_unit \<Rightarrow> vm_res" where
  "exec_mla32 f st = res_bind (R32 st f 1) (\<lambda>a. res_bind (R32 st f 2) (\<lambda>b. res_bind (R32 st f 3) (\<lambda>c.
     put32 4 f st (a * b + c))))"

subsection \<open>Floating point\<close>

fun exec_farith :: "vm_env \<Rightarrow> fkind \<Rightarrow> farith \<Rightarrow> vm_frame \<Rightarrow> vm_unit \<Rightarrow> vm_res" where
  "exec_farith env DBL op f st = res_bind (R64 st f 1) (\<lambda>a. res_bind (R64 st f 2) (\<lambda>b.
     put64 3 f st (fp_arith 52 (env_nan64 env) op a b)))"
| "exec_farith env DBLC op f st = res_bind (R64 st f 1) (\<lambda>a. res_bind (UIMM64 st f 2) (\<lambda>b.
     put64 6 f st (fp_arith 52 (env_nan64 env) op a b)))"
| "exec_farith env FLT op f st = res_bind (R32 st f 1) (\<lambda>a. res_bind (R32 st f 2) (\<lambda>b.
     put32 3 f st (fp_arith 23 (env_nan32 env) op a b)))"
| "exec_farith env FLTC op f st = res_bind (R32 st f 1) (\<lambda>a. res_bind (UIMM32 st f 2) (\<lambda>b.
     put32 4 f st (fp_arith 23 (env_nan32 env) op a b)))"

fun exec_fcmp :: "fkind \<Rightarrow> fcmp \<Rightarrow> vm_frame \<Rightarrow> vm_unit \<Rightarrow> vm_res" where
  "exec_fcmp DBL p f st = res_bind (R64 st f 1) (\<lambda>a. res_bind (R64 st f 2) (\<lambda>b.
     put32 3 f st (bool32 (vm_fcmp 52 p a b))))"
| "exec_fcmp DBLC p f st = res_bind (R64 st f 1) (\<lambda>a. res_bind (UIMM64 st f 2) (\<lambda>b.
     put32 6 f st (bool32 (vm_fcmp_c 52 p a b))))"
| "exec_fcmp FLT p f st = res_bind (R32 st f 1) (\<lambda>a. res_bind (R32 st f 2) (\<lambda>b.
     put32 3 f st (bool32 (vm_fcmp 23 p a b))))"
| "exec_fcmp FLTC p f st = res_bind (R32 st f 1) (\<lambda>a. res_bind (UIMM32 st f 2) (\<lambda>b.
     put32 4 f st (bool32 (vm_fcmp_c 23 p a b))))"

definition math_binary :: "vm_math \<Rightarrow> bool" where
  "math_binary m = (m \<in> {MPOW, MFMOD})"

definition exec_math :: "vm_env \<Rightarrow> vm_math \<Rightarrow> vm_frame \<Rightarrow> vm_unit \<Rightarrow> vm_res" where
  "exec_math env m f st = res_bind (R64 st f 1) (\<lambda>a.
     if math_binary m then res_bind (R64 st f 2) (\<lambda>b. put64 3 f st (env_math env m [a, b]))
     else put64 2 f st (env_math env m [a]))"

definition exec_mathf :: "vm_env \<Rightarrow> vm_math \<Rightarrow> vm_frame \<Rightarrow> vm_unit \<Rightarrow> vm_res" where
  "exec_mathf env m f st = res_bind (R32 st f 1) (\<lambda>a.
     if math_binary m then res_bind (R32 st f 2) (\<lambda>b. put32 3 f st (env_mathf env m [a, b]))
     else put32 2 f st (env_mathf env m [a]))"

subsection \<open>Compare, branch, select\<close>

fun exec_cmp :: "width \<Rightarrow> icmp \<Rightarrow> vm_frame \<Rightarrow> vm_unit \<Rightarrow> vm_res" where
  "exec_cmp (Narrow W8) p f st = res_bind (R8 st f 1) (\<lambda>a. res_bind (R8 st f 2) (\<lambda>b.
     put32 3 f st (bool32 (vm_icmp p a b))))"
| "exec_cmp (Narrow W16) p f st = res_bind (R16 st f 1) (\<lambda>a. res_bind (R16 st f 2) (\<lambda>b.
     put32 3 f st (bool32 (vm_icmp p a b))))"
| "exec_cmp (Wide W32) p f st = res_bind (R32 st f 1) (\<lambda>a. res_bind (R32 st f 2) (\<lambda>b.
     put32 3 f st (bool32 (vm_icmp p a b))))"
| "exec_cmp (Wide W64) p f st = res_bind (R64 st f 1) (\<lambda>a. res_bind (R64 st f 2) (\<lambda>b.
     put32 3 f st (bool32 (vm_icmp p a b))))"

fun exec_cmp_c :: "width \<Rightarrow> icmp \<Rightarrow> vm_frame \<Rightarrow> vm_unit \<Rightarrow> vm_res" where
  "exec_cmp_c (Narrow W8) p f st = res_bind (R8 st f 1) (\<lambda>a. res_bind (UIMM8 st f 2) (\<lambda>b.
     put32 3 f st (bool32 (vm_icmp p a b))))"
| "exec_cmp_c (Narrow W16) p f st = res_bind (R16 st f 1) (\<lambda>a. res_bind (UIMM16 st f 2) (\<lambda>b.
     put32 3 f st (bool32 (vm_icmp p a b))))"
| "exec_cmp_c (Wide W32) p f st = res_bind (R32 st f 1) (\<lambda>a. res_bind (UIMM32 st f 2) (\<lambda>b.
     put32 4 f st (bool32 (vm_icmp p a b))))"
| "exec_cmp_c (Wide W64) p f st = res_bind (R64 st f 1) (\<lambda>a. res_bind (UIMM64 st f 2) (\<lambda>b.
     put32 6 f st (bool32 (vm_icmp p a b))))"

definition jump_if :: "vm_frame \<Rightarrow> vm_unit \<Rightarrow> nat \<Rightarrow> nat \<Rightarrow> bool \<Rightarrow> vm_res" where
  "jump_if f st k0 k1 c = res_bind (UIMM16 st f (if c then k0 else k1)) (\<lambda>off. jump off f st)"

fun exec_cmp_br :: "brkind \<Rightarrow> icmp \<Rightarrow> vm_frame \<Rightarrow> vm_unit \<Rightarrow> vm_res" where
  "exec_cmp_br BR8 p f st = res_bind (R8 st f 2) (\<lambda>a. res_bind (R8 st f 3) (\<lambda>b.
     jump_if f st 0 1 (vm_icmp p a b)))"
| "exec_cmp_br BR8_C p f st = res_bind (R8 st f 2) (\<lambda>a. res_bind (UIMM8 st f 3) (\<lambda>b.
     jump_if f st 0 1 (vm_icmp p a b)))"
| "exec_cmp_br BR32 p f st = res_bind (R32 st f 2) (\<lambda>a. res_bind (R32 st f 3) (\<lambda>b.
     jump_if f st 0 1 (vm_icmp p a b)))"
| "exec_cmp_br BR32_C p f st = res_bind (R32 st f 2) (\<lambda>a. res_bind (UIMM32 st f 3) (\<lambda>b.
     jump_if f st 0 1 (vm_icmp p a b)))"

definition exec_cmp32_sel :: "icmp \<Rightarrow> vm_frame \<Rightarrow> vm_unit \<Rightarrow> vm_res" where
  "exec_cmp32_sel p f st = res_bind (R32 st f 3) (\<lambda>a. res_bind (R32 st f 4) (\<lambda>b.
     res_bind (R32 st f (if vm_icmp p a b then 1 else 2)) (put32 5 f st)))"

definition exec_cmp32_c_sel :: "icmp \<Rightarrow> vm_frame \<Rightarrow> vm_unit \<Rightarrow> vm_res" where
  "exec_cmp32_c_sel p f st = res_bind (R32 st f 3) (\<lambda>a. res_bind (UIMM32 st f 4) (\<lambda>b.
     res_bind (R32 st f (if vm_icmp p a b then 1 else 2)) (put32 6 f st)))"

fun exec_select32 :: "sel \<Rightarrow> vm_frame \<Rightarrow> vm_unit \<Rightarrow> vm_res" where
  "exec_select32 RR f st = res_bind (R32 st f 1) (\<lambda>c.
     res_bind (if c \<noteq> 0 then R32 st f 2 else R32 st f 3) (put32 4 f st))"
| "exec_select32 RC f st = res_bind (R32 st f 1) (\<lambda>c.
     res_bind (if c \<noteq> 0 then R32 st f 2 else UIMM32 st f 3) (put32 5 f st))"
| "exec_select32 CR f st = res_bind (R32 st f 1) (\<lambda>c.
     res_bind (if c \<noteq> 0 then UIMM32 st f 3 else R32 st f 2) (put32 5 f st))"
| "exec_select32 CC f st = res_bind (R32 st f 1) (\<lambda>c.
     res_bind (if c \<noteq> 0 then UIMM32 st f 2 else UIMM32 st f 4) (put32 6 f st))"

fun exec_select64 :: "sel \<Rightarrow> vm_frame \<Rightarrow> vm_unit \<Rightarrow> vm_res" where
  "exec_select64 RR f st = res_bind (R32 st f 1) (\<lambda>c.
     res_bind (if c \<noteq> 0 then R64 st f 2 else R64 st f 3) (put64 4 f st))"
| "exec_select64 RC f st = res_bind (R32 st f 1) (\<lambda>c.
     res_bind (if c \<noteq> 0 then R64 st f 2 else UIMM64 st f 3) (put64 7 f st))"
| "exec_select64 CR f st = res_bind (R32 st f 1) (\<lambda>c.
     res_bind (if c \<noteq> 0 then UIMM64 st f 3 else R64 st f 2) (put64 7 f st))"
| "exec_select64 CC f st = res_bind (R32 st f 1) (\<lambda>c.
     res_bind (if c \<noteq> 0 then UIMM64 st f 2 else UIMM64 st f 6) (put64 10 f st))"

subsection \<open>Switches\<close>

text \<open>The binary search of \<open>VM_SWITCH*_BS\<close>; \<open>rd i\<close> is the key with index \<open>i\<close>.\<close>

function bs_search :: "(int \<Rightarrow> 'a::len word vm) \<Rightarrow> 'a word \<Rightarrow> int \<Rightarrow> int \<Rightarrow> (int \<times> int) vm" where
  "bs_search rd v imin imax =
     (if imin < imax then
        let imid = (imin + imax) div 2 in
        res_bind (rd imid) (\<lambda>x.
          if x < v then bs_search rd v (imid + 1) imax else bs_search rd v imin imid)
      else Inr (imin, imax))"
  by auto
termination
  by (relation "measure (\<lambda>(_, _, imin, imax). nat (imax - imin))") auto

declare bs_search.simps [simp del]

text \<open>The whole selection: the index found, or \<open>p\<close>, the index of the default target.\<close>

definition bs_select :: "(int \<Rightarrow> 'a::len word vm) \<Rightarrow> 'a word \<Rightarrow> int \<Rightarrow> int vm" where
  "bs_select rd v p =
     res_bind (bs_search rd v 0 (p - 1)) (\<lambda>(imin, imax).
       if imax = imin then res_bind (rd imin) (\<lambda>x. Inr (if x = v then imin else p))
       else Inr p)"

text \<open>\<open>scale\<close> is the number of code words of a key.\<close>

definition switch_jump :: "vm_frame \<Rightarrow> vm_unit \<Rightarrow> nat \<Rightarrow> u16 \<Rightarrow> int \<Rightarrow> vm_res" where
  "switch_jump f st scale p i = res_bind (UIMM16 st f (2 + unat p * scale + nat i)) (\<lambda>off. jump off f st)"

definition exec_switch8 :: "vm_frame \<Rightarrow> vm_unit \<Rightarrow> vm_res" where
  "exec_switch8 f st = res_bind (R8 st f 0) (\<lambda>v. res_bind (UIMM16 st f 1) (\<lambda>p.
     res_bind (bs_select (\<lambda>i. UIMM8 st f (2 + nat i)) v (uint p)) (switch_jump f st 1 p)))"

definition exec_switch32 :: "vm_frame \<Rightarrow> vm_unit \<Rightarrow> vm_res" where
  "exec_switch32 f st = res_bind (R32 st f 0) (\<lambda>v. res_bind (UIMM16 st f 1) (\<lambda>p.
     res_bind (bs_select (\<lambda>i. UIMM32 st f (2 + nat i * 2)) v (uint p)) (switch_jump f st 2 p)))"

definition exec_switch64 :: "vm_frame \<Rightarrow> vm_unit \<Rightarrow> vm_res" where
  "exec_switch64 f st = res_bind (R64 st f 0) (\<lambda>v. res_bind (UIMM16 st f 1) (\<lambda>p.
     res_bind (bs_select (\<lambda>i. UIMM64 st f (2 + nat i * 4)) v (uint p)) (switch_jump f st 4 p)))"

definition exec_jumptable :: "vm_frame \<Rightarrow> vm_unit \<Rightarrow> vm_res" where
  "exec_jumptable f st = res_bind (R8 st f 0) (\<lambda>v. res_bind (UIMM16 st f 1) (\<lambda>n.
     res_bind (UIMM16 st f (2 + nat (uint v AND (uint n - 1)))) (\<lambda>off. jump off f st)))"

subsection \<open>Other control\<close>

fun exec_flow :: "vm_flow \<Rightarrow> vm_frame \<Rightarrow> vm_unit \<Rightarrow> vm_res" where
  "exec_flow NOP f st = next_op 0 f st"
| "exec_flow B f st = res_bind (UIMM16 st f 0) (\<lambda>off. jump off f st)"
| "exec_flow BCOND f st = res_bind (R32 st f 0) (\<lambda>c. jump_if f st 1 2 (c \<noteq> 0))"
| "exec_flow LANDINGPAD f st =
     res_bind (AR32 st f 0 (fst (iu_exception st))) (\<lambda>st1.
       res_bind (AR32 st1 f 1 (snd (iu_exception st))) (next_op 2 f))"
| "exec_flow RESUME f st = res_bind (R32 st f 0) (\<lambda>e. res_bind (R32 st f 1) (\<lambda>t.
     Inr (Flow (Return 1), st\<lparr>iu_exception := (e, t)\<rparr>)))"
| "exec_flow JUMPTABLE f st = exec_jumptable f st"
| "exec_flow SWITCH8_BS f st = exec_switch8 f st"
| "exec_flow SWITCH32_BS f st = exec_switch32 f st"
| "exec_flow SWITCH64_BS f st = exec_switch64 f st"

subsection \<open>Loads and stores\<close>

text \<open>Effective addresses: 32-bit arithmetic, except that a global's address is a signed immediate.\<close>

definition ea_reg :: "nat \<Rightarrow> vm_frame \<Rightarrow> vm_unit \<Rightarrow> int vm" where
  "ea_reg k f st = res_bind (R32 st f k) (\<lambda>r. Inr (uint r))"

definition ea_global :: "nat \<Rightarrow> vm_frame \<Rightarrow> vm_unit \<Rightarrow> int vm" where
  "ea_global k f st = res_bind (UIMM32 st f k) (\<lambda>i. Inr (sint i))"

definition ea_off :: "nat \<Rightarrow> nat \<Rightarrow> vm_frame \<Rightarrow> vm_unit \<Rightarrow> int vm" where
  "ea_off k o' f st = res_bind (R32 st f k) (\<lambda>r. res_bind (UIMM16 st f o') (\<lambda>off.
     Inr (uint (r + scast off :: u32))))"

definition ea_roff :: "vm_frame \<Rightarrow> vm_unit \<Rightarrow> int vm" where
  "ea_roff f st = res_bind (R32 st f 1) (\<lambda>r. res_bind (UIMM16 st f 2) (\<lambda>off.
     res_bind (R32 st f 3) (\<lambda>x. res_bind (UIMM16 st f 4) (\<lambda>m.
       Inr (uint (r + scast off + x * scast m :: u32))))))"

definition load8 :: "vm_unit \<Rightarrow> int \<Rightarrow> u8 vm" where
  "load8 st ea = res_bind (hostaddr st ea 1) (\<lambda>a. Inr (mem_rd8 (iu_mem st) a))"

definition load16 :: "vm_unit \<Rightarrow> int \<Rightarrow> u16 vm" where
  "load16 st ea = res_bind (hostaddr st ea 2) (\<lambda>a. Inr (mem_rd16 (iu_mem st) a))"

definition load32 :: "vm_unit \<Rightarrow> int \<Rightarrow> u32 vm" where
  "load32 st ea = res_bind (hostaddr st ea 4) (\<lambda>a. Inr (mem_rd32 (iu_mem st) a))"

definition load64 :: "vm_unit \<Rightarrow> int \<Rightarrow> u64 vm" where
  "load64 st ea = res_bind (hostaddr st ea 8) (\<lambda>a. Inr (mem_rd64 (iu_mem st) a))"

text \<open>\<open>LOAD8\<close>, \<open>LOAD8_ZEXT_32\<close>, \<open>LOAD8_SEXT_32\<close> and their 16-bit twins.\<close>

definition LOADN_ext :: "nwidth \<Rightarrow> bool \<Rightarrow> vm_unit \<Rightarrow> int \<Rightarrow> u32 vm" where
  "LOADN_ext w sext st ea =
     (case w of
        W8 \<Rightarrow> res_bind (load8 st ea) (\<lambda>v. Inr (if sext then scast v else ucast v))
      | W16 \<Rightarrow> res_bind (load16 st ea) (\<lambda>v. Inr (if sext then scast v else ucast v)))"

definition exec_loadn_ea :: "nwidth \<Rightarrow> bool \<Rightarrow> nat \<Rightarrow> vm_frame \<Rightarrow> vm_unit \<Rightarrow> int vm \<Rightarrow> vm_res" where
  "exec_loadn_ea w sext skip f st ea =
     res_bind ea (\<lambda>a. res_bind (LOADN_ext w sext st a) (put32 skip f st))"

fun exec_loadn :: "nwidth \<Rightarrow> lnmode \<Rightarrow> vm_frame \<Rightarrow> vm_unit \<Rightarrow> vm_res" where
  "exec_loadn w LN f st = exec_loadn_ea w False 2 f st (ea_reg 1 f st)"
| "exec_loadn w LN_G f st = exec_loadn_ea w False 3 f st (ea_global 1 f st)"
| "exec_loadn w LN_OFF f st = exec_loadn_ea w False 3 f st (ea_off 1 2 f st)"
| "exec_loadn w LN_ZEXT_32_OFF f st = exec_loadn_ea w False 3 f st (ea_off 1 2 f st)"
| "exec_loadn w LN_SEXT_32_OFF f st = exec_loadn_ea w True 3 f st (ea_off 1 2 f st)"
| "exec_loadn w LN_ROFF f st = exec_loadn_ea w False 5 f st (ea_roff f st)"
| "exec_loadn w LN_ZEXT_32_ROFF f st = exec_loadn_ea w False 5 f st (ea_roff f st)"
| "exec_loadn w LN_SEXT_32_ROFF f st = exec_loadn_ea w True 5 f st (ea_roff f st)"

definition exec_loadw_ea :: "wwidth \<Rightarrow> nat \<Rightarrow> vm_frame \<Rightarrow> vm_unit \<Rightarrow> int vm \<Rightarrow> vm_res" where
  "exec_loadw_ea w skip f st ea =
     res_bind ea (\<lambda>a. case w of W32 \<Rightarrow> res_bind (load32 st a) (put32 skip f st)
                               | W64 \<Rightarrow> res_bind (load64 st a) (put64 skip f st))"

fun exec_loadw :: "wwidth \<Rightarrow> lwmode \<Rightarrow> vm_frame \<Rightarrow> vm_unit \<Rightarrow> vm_res" where
  "exec_loadw w LW f st = exec_loadw_ea w 2 f st (ea_reg 1 f st)"
| "exec_loadw w LW_G f st = exec_loadw_ea w 3 f st (ea_global 1 f st)"
| "exec_loadw w LW_OFF f st = exec_loadw_ea w 3 f st (ea_off 1 2 f st)"
| "exec_loadw w LW_ROFF f st = exec_loadw_ea w 5 f st (ea_roff f st)"

text \<open>The value of a store: a register or, for the \<open>C_OFF\<close> forms, an immediate.\<close>

definition store_mem :: "(vmem \<Rightarrow> nat \<Rightarrow> 'v \<Rightarrow> vmem) \<Rightarrow> nat \<Rightarrow> nat \<Rightarrow> vm_frame \<Rightarrow> vm_unit \<Rightarrow> int vm \<Rightarrow> 'v vm \<Rightarrow> vm_res" where
  "store_mem wr sz skip f st ea val =
     res_bind ea (\<lambda>a. res_bind val (\<lambda>v. res_bind (hostaddr st a sz) (\<lambda>h.
       next_op skip f (st\<lparr>iu_mem := wr (iu_mem st) h v\<rparr>))))"

fun store_val :: "width \<Rightarrow> nat \<Rightarrow> vm_frame \<Rightarrow> vm_unit \<Rightarrow> int vm \<Rightarrow> nat \<Rightarrow> vm_res" where
  "store_val (Narrow W8) skip f st ea k = store_mem mem_wr8 1 skip f st ea (R8 st f k)"
| "store_val (Narrow W16) skip f st ea k = store_mem mem_wr16 2 skip f st ea (R16 st f k)"
| "store_val (Wide W32) skip f st ea k = store_mem mem_wr32 4 skip f st ea (R32 st f k)"
| "store_val (Wide W64) skip f st ea k = store_mem mem_wr64 8 skip f st ea (R64 st f k)"

fun store_imm :: "width \<Rightarrow> vm_frame \<Rightarrow> vm_unit \<Rightarrow> vm_res" where
  "store_imm (Narrow W8) f st = store_mem mem_wr8 1 3 f st (ea_off 0 1 f st) (UIMM8 st f 2)"
| "store_imm (Narrow W16) f st = store_mem mem_wr16 2 3 f st (ea_off 0 1 f st) (UIMM16 st f 2)"
| "store_imm (Wide W32) f st = store_mem mem_wr32 4 4 f st (ea_off 0 1 f st) (UIMM32 st f 2)"
| "store_imm (Wide W64) f st = store_mem mem_wr64 8 6 f st (ea_off 0 1 f st) (UIMM64 st f 2)"

fun exec_store :: "width \<Rightarrow> smode \<Rightarrow> vm_frame \<Rightarrow> vm_unit \<Rightarrow> vm_res" where
  "exec_store w ST_G f st = store_val w 3 f st (ea_global 1 f st) 0"
| "exec_store w ST f st = store_val w 2 f st (ea_reg 0 f st) 1"
| "exec_store w ST_C_OFF f st = store_imm w f st"
| "exec_store w ST_OFF f st = store_val w 3 f st (ea_off 0 2 f st) 1"

subsection \<open>Moves and address computations\<close>

fun exec_mov :: "vm_mov \<Rightarrow> vm_frame \<Rightarrow> vm_unit \<Rightarrow> vm_res" where
  "exec_mov MOV32 f st = res_bind (R32 st f 1) (put32 2 f st)"
| "exec_mov MOV64 f st = res_bind (R64 st f 1) (put64 2 f st)"
| "exec_mov MOV8_C f st = res_bind (UIMM8 st f 1) (\<lambda>v. put32 2 f st (ucast v))"
| "exec_mov MOV16_C f st = res_bind (UIMM16 st f 1) (\<lambda>v. put32 2 f st (ucast v))"
| "exec_mov MOV32_C f st = res_bind (UIMM32 st f 1) (put32 3 f st)"
| "exec_mov MOV64_C f st = res_bind (UIMM64 st f 1) (put64 5 f st)"

definition shl32 :: "u32 \<Rightarrow> nat \<Rightarrow> u32 vm" where
  "shl32 r k = (if k < 32 then Inr (push_bit k r) else Inl Ub)"

fun exec_lea :: "vm_lea \<Rightarrow> vm_frame \<Rightarrow> vm_unit \<Rightarrow> vm_res" where
  "exec_lea LEA_R32_SHL f st = res_bind (R32 st f 1) (\<lambda>a. res_bind (R32 st f 2) (\<lambda>b.
     res_bind (UIMM16 st f 3) (\<lambda>k. res_bind (shl32 b (unat k)) (\<lambda>s. put32 4 f st (a + s)))))"
| "exec_lea LEA_R32_SHL2 f st = res_bind (R32 st f 1) (\<lambda>a. res_bind (R32 st f 2) (\<lambda>b.
     res_bind (shl32 b 2) (\<lambda>s. put32 3 f st (a + s))))"
| "exec_lea LEA_R32_SHL_OFF f st = res_bind (R32 st f 1) (\<lambda>a. res_bind (R32 st f 2) (\<lambda>b.
     res_bind (UIMM16 st f 3) (\<lambda>k. res_bind (shl32 b (unat k)) (\<lambda>s. res_bind (UIMM32 st f 4) (\<lambda>off.
       put32 6 f st (a + s + off))))))"
| "exec_lea LEA_R32_MUL_OFF f st = res_bind (R32 st f 1) (\<lambda>a. res_bind (R32 st f 2) (\<lambda>b.
     res_bind (UIMM32 st f 3) (\<lambda>m. res_bind (UIMM32 st f 5) (\<lambda>off. put32 7 f st (a + b * m + off)))))"

subsection \<open>Casts\<close>

text \<open>The value conversions, by the register width they read.\<close>

definition sext1 :: "u32 \<Rightarrow> 'a::len word" where
  "sext1 r = (if r \<noteq> 0 then - 1 else 0)"

definition fptosi :: "nat \<Rightarrow> nat \<Rightarrow> 'a::len word \<Rightarrow> 'b::len word option" where
  "fptosi p w x = map_option word_of_int (fp_to_int p (- (2 ^ (w - 1))) (2 ^ (w - 1)) x)"

definition fptoui :: "nat \<Rightarrow> nat \<Rightarrow> 'a::len word \<Rightarrow> 'b::len word option" where
  "fptoui p w x = map_option word_of_int (fp_to_int p 0 (2 ^ w) x)"

fun exec_cast8 :: "cast8 \<Rightarrow> vm_frame \<Rightarrow> vm_unit \<Rightarrow> vm_res" where
  "exec_cast8 CAST_1_TRUNC_8 f st = res_bind (R8 st f 1) (\<lambda>v. put32 2 f st (bool32 (v \<noteq> 0)))"
| "exec_cast8 CAST_1_TRUNC_16 f st = res_bind (R16 st f 1) (\<lambda>v. put32 2 f st (bool32 (v \<noteq> 0)))"
| "exec_cast8 CAST_8_ZEXT_1 f st = res_bind (R32 st f 1) (put32 2 f st)"
| "exec_cast8 CAST_8_SEXT_1 f st = res_bind (R32 st f 1) (\<lambda>v. put32 2 f st (sext1 v))"
| "exec_cast8 CAST_8_TRUNC_16 f st = res_bind (R16 st f 1) (\<lambda>v. put32 2 f st (ucast v))"
| "exec_cast8 CAST_8_TRUNC_32 f st = res_bind (R32 st f 1) (put32 2 f st)"
| "exec_cast8 CAST_8_TRUNC_64 f st = res_bind (R64 st f 1) (\<lambda>v. put32 2 f st (ucast v))"

fun exec_cast16 :: "cast16 \<Rightarrow> vm_frame \<Rightarrow> vm_unit \<Rightarrow> vm_res" where
  "exec_cast16 CAST_16_ZEXT_1 f st = res_bind (R32 st f 1) (put32 2 f st)"
| "exec_cast16 CAST_16_ZEXT_8 f st = res_bind (R8 st f 1) (\<lambda>v. put32 2 f st (ucast v))"
| "exec_cast16 CAST_16_SEXT_8 f st = res_bind (R8 st f 1) (\<lambda>v. put32 2 f st (scast v))"
| "exec_cast16 CAST_16_TRUNC_32 f st = res_bind (R16 st f 1) (\<lambda>v. put32 2 f st (ucast v))"
| "exec_cast16 CAST_16_TRUNC_64 f st = res_bind (R64 st f 1) (\<lambda>v. put32 2 f st (ucast v))"
| "exec_cast16 CAST_16_FPTOSI_FLT f st = res_bind (R32 st f 1) (\<lambda>v. res_bind (of_opt (fptosi 23 32 v)) (put32 2 f st))"
| "exec_cast16 CAST_16_FPTOUI_FLT f st = res_bind (R32 st f 1) (\<lambda>v. res_bind (of_opt (fptoui 23 32 v)) (put32 2 f st))"
| "exec_cast16 CAST_16_FPTOSI_DBL f st = res_bind (R64 st f 1) (\<lambda>v. res_bind (of_opt (fptosi 52 32 v)) (put32 2 f st))"
| "exec_cast16 CAST_16_FPTOUI_DBL f st = res_bind (R64 st f 1) (\<lambda>v. res_bind (of_opt (fptoui 52 32 v)) (put32 2 f st))"

fun exec_cast32 :: "cast32 \<Rightarrow> vm_frame \<Rightarrow> vm_unit \<Rightarrow> vm_res" where
  "exec_cast32 CAST_32_SEXT_1 f st = res_bind (R32 st f 1) (\<lambda>v. put32 2 f st (sext1 v))"
| "exec_cast32 CAST_32_ZEXT_8 f st = res_bind (R8 st f 1) (\<lambda>v. put32 2 f st (ucast v))"
| "exec_cast32 CAST_32_SEXT_8 f st = res_bind (R8 st f 1) (\<lambda>v. put32 2 f st (scast v))"
| "exec_cast32 CAST_32_ZEXT_16 f st = res_bind (R16 st f 1) (\<lambda>v. put32 2 f st (ucast v))"
| "exec_cast32 CAST_32_SEXT_16 f st = res_bind (R16 st f 1) (\<lambda>v. put32 2 f st (scast v))"
| "exec_cast32 CAST_32_TRUNC_64 f st = res_bind (R64 st f 1) (\<lambda>v. put32 2 f st (ucast v))"
| "exec_cast32 CAST_32_FPTOSI_FLT f st = res_bind (R32 st f 1) (\<lambda>v. res_bind (of_opt (fptosi 23 32 v)) (put32 2 f st))"
| "exec_cast32 CAST_32_FPTOUI_FLT f st = res_bind (R32 st f 1) (\<lambda>v. res_bind (of_opt (fptoui 23 32 v)) (put32 2 f st))"
| "exec_cast32 CAST_32_FPTOSI_DBL f st = res_bind (R64 st f 1) (\<lambda>v. res_bind (of_opt (fptosi 52 32 v)) (put32 2 f st))"
| "exec_cast32 CAST_32_FPTOUI_DBL f st = res_bind (R64 st f 1) (\<lambda>v. res_bind (of_opt (fptoui 52 32 v)) (put32 2 f st))"

fun exec_cast64 :: "cast64 \<Rightarrow> vm_frame \<Rightarrow> vm_unit \<Rightarrow> vm_res" where
  "exec_cast64 CAST_64_ZEXT_1 f st = res_bind (R32 st f 1) (\<lambda>v. put64 2 f st (ucast v))"
| "exec_cast64 CAST_64_SEXT_1 f st = res_bind (R32 st f 1) (\<lambda>v. put64 2 f st (sext1 v))"
| "exec_cast64 CAST_64_ZEXT_8 f st = res_bind (R8 st f 1) (\<lambda>v. put64 2 f st (ucast v))"
| "exec_cast64 CAST_64_SEXT_8 f st = res_bind (R8 st f 1) (\<lambda>v. put64 2 f st (scast v))"
| "exec_cast64 CAST_64_ZEXT_16 f st = res_bind (R16 st f 1) (\<lambda>v. put64 2 f st (ucast v))"
| "exec_cast64 CAST_64_SEXT_16 f st = res_bind (R16 st f 1) (\<lambda>v. put64 2 f st (scast v))"
| "exec_cast64 CAST_64_ZEXT_32 f st = res_bind (R32 st f 1) (\<lambda>v. put64 2 f st (ucast v))"
| "exec_cast64 CAST_64_SEXT_32 f st = res_bind (R32 st f 1) (\<lambda>v. put64 2 f st (scast v))"
| "exec_cast64 CAST_64_FPTOSI_FLT f st = res_bind (R32 st f 1) (\<lambda>v. res_bind (of_opt (fptosi 23 64 v)) (put64 2 f st))"
| "exec_cast64 CAST_64_FPTOUI_FLT f st = res_bind (R32 st f 1) (\<lambda>v. res_bind (of_opt (fptoui 23 64 v)) (put64 2 f st))"
| "exec_cast64 CAST_64_FPTOSI_DBL f st = res_bind (R64 st f 1) (\<lambda>v. res_bind (of_opt (fptosi 52 64 v)) (put64 2 f st))"
| "exec_cast64 CAST_64_FPTOUI_DBL f st = res_bind (R64 st f 1) (\<lambda>v. res_bind (of_opt (fptoui 52 64 v)) (put64 2 f st))"

text \<open>The integer a \<open>SITOFP\<close> or \<open>UITOFP\<close> converts.\<close>

fun fp_int_arg :: "fp_int \<Rightarrow> vm_frame \<Rightarrow> vm_unit \<Rightarrow> int vm" where
  "fp_int_arg SITOFP_8 f st = res_bind (R8 st f 1) (\<lambda>v. Inr (sint v))"
| "fp_int_arg UITOFP_8 f st = res_bind (R8 st f 1) (\<lambda>v. Inr (uint v))"
| "fp_int_arg SITOFP_16 f st = res_bind (R16 st f 1) (\<lambda>v. Inr (sint v))"
| "fp_int_arg UITOFP_16 f st = res_bind (R16 st f 1) (\<lambda>v. Inr (uint v))"
| "fp_int_arg SITOFP_32 f st = res_bind (R32 st f 1) (\<lambda>v. Inr (sint v))"
| "fp_int_arg UITOFP_32 f st = res_bind (R32 st f 1) (\<lambda>v. Inr (uint v))"
| "fp_int_arg SITOFP_64 f st = res_bind (R64 st f 1) (\<lambda>v. Inr (sint v))"
| "fp_int_arg UITOFP_64 f st = res_bind (R64 st f 1) (\<lambda>v. Inr (uint v))"

fun exec_cast :: "vm_env \<Rightarrow> vm_cast \<Rightarrow> vm_frame \<Rightarrow> vm_unit \<Rightarrow> vm_res" where
  "exec_cast env (TO8 c) f st = exec_cast8 c f st"
| "exec_cast env (TO16 c) f st = exec_cast16 c f st"
| "exec_cast env (TO32 c) f st = exec_cast32 c f st"
| "exec_cast env (TO64 c) f st = exec_cast64 c f st"
| "exec_cast env CAST_FLT_FPTRUNC_DBL f st =
     res_bind (R64 st f 1) (\<lambda>v. put32 2 f st (fp_convert 52 23 (env_nan_trunc env) v))"
| "exec_cast env (CAST_FLT i) f st = res_bind (fp_int_arg i f st) (\<lambda>x. put32 2 f st (fp_of_int 23 x))"
| "exec_cast env CAST_DBL_FPEXT_FLT f st =
     res_bind (R32 st f 1) (\<lambda>v. put64 2 f st (fp_convert 23 52 (env_nan_ext env) v))"
| "exec_cast env (CAST_DBL i) f st = res_bind (fp_int_arg i f st) (\<lambda>x. put64 2 f st (fp_of_int 52 x))"

subsection \<open>The stack of the guest\<close>

text \<open>\<open>ALLOCATRACEPEAK()\<close>.\<close>

definition alloca_peak :: "vm_frame \<Rightarrow> vm_unit \<Rightarrow> vm_unit" where
  "alloca_peak f st = st\<lparr>iu_allocapeak := VMIR_MAX (iu_allocapeak st) (fr_allocaptr f)\<rparr>"

text \<open>\<open>memcpy\<close>: undefined for buffers that overlap or leave guest memory.\<close>

definition disjoint_bytes :: "nat \<Rightarrow> nat \<Rightarrow> nat \<Rightarrow> bool" where
  "disjoint_bytes d s n = (n = 0 \<or> d + n \<le> s \<or> s + n \<le> d)"

definition c_memmove :: "vm_unit \<Rightarrow> u32 \<Rightarrow> u32 \<Rightarrow> nat \<Rightarrow> vm_unit vm" where
  "c_memmove st d s n =
     res_bind (hostaddr st (uint d) n) (\<lambda>dst. res_bind (hostaddr st (uint s) n) (\<lambda>src.
       Inr (st\<lparr>iu_mem := store_bytes (iu_mem st) dst (load_bytes (iu_mem st) src n)\<rparr>)))"

definition c_memcpy :: "vm_unit \<Rightarrow> u32 \<Rightarrow> u32 \<Rightarrow> nat \<Rightarrow> vm_unit vm" where
  "c_memcpy st d s n = (if disjoint_bytes (unat d) (unat s) n then c_memmove st d s n else Inl Ub)"

definition c_memset :: "vm_unit \<Rightarrow> u32 \<Rightarrow> u8 \<Rightarrow> nat \<Rightarrow> vm_unit vm" where
  "c_memset st d c n =
     res_bind (hostaddr st (uint d) n) (\<lambda>dst.
       Inr (st\<lparr>iu_mem := store_bytes (iu_mem st) dst (replicate n c)\<rparr>))"

text \<open>\<open>STACKCOPYR\<close> and \<open>STACKCOPYC\<close> after their operands are read.\<close>

definition stackcopy :: "nat \<Rightarrow> u32 \<Rightarrow> u32 \<Rightarrow> vm_frame \<Rightarrow> vm_unit \<Rightarrow> vm_res" where
  "stackcopy skip src sz f st =
     (let p = fr_allocaptr f
      in res_bind (c_memcpy st p src (unat sz)) (\<lambda>st1.
           let f1 = f\<lparr>fr_allocaptr := p + sz\<rparr> in next_op skip f1 (alloca_peak f1 st1)))"

fun exec_stack :: "vm_stack \<Rightarrow> vm_frame \<Rightarrow> vm_unit \<Rightarrow> vm_res" where
  "exec_stack ALLOCA f st = res_bind (UIMM16 st f 1) (\<lambda>al.
     let p = VMIR_ALIGN (fr_allocaptr f) (ucast al) in
     res_bind (AR32 st f 0 p) (\<lambda>st1. res_bind (UIMM32 st1 f 2) (\<lambda>sz.
       let f1 = f\<lparr>fr_allocaptr := p + sz\<rparr> in next_op 4 f1 (alloca_peak f1 st1))))"
| "exec_stack ALLOCAD f st = res_bind (UIMM16 st f 1) (\<lambda>al.
     let p = VMIR_ALIGN (fr_allocaptr f) (ucast al) in
     res_bind (UIMM32 st f 3) (\<lambda>sz. res_bind (R32 st f 2) (\<lambda>n.
       let f1 = f\<lparr>fr_allocaptr := p + sz * n\<rparr> in
       res_bind (AR32 (alloca_peak f1 st) f 0 p) (next_op 5 f1))))"
| "exec_stack STACKSHRINK f st = res_bind (UIMM32 st f 0) (\<lambda>n.
     next_op 2 (f\<lparr>fr_allocaptr := fr_allocaptr f - n\<rparr>) st)"
| "exec_stack STACKSAVE f st = put32 1 f st (fr_allocaptr f)"
| "exec_stack STACKRESTORE f st = res_bind (R32 st f 0) (\<lambda>p. next_op 1 (f\<lparr>fr_allocaptr := p\<rparr>) st)"
| "exec_stack STACKCOPYR f st =
     (let f1 = f\<lparr>fr_allocaptr := VMIR_ALIGN (fr_allocaptr f) 4\<rparr> in
      res_bind (AR32 st f 0 (fr_allocaptr f1)) (\<lambda>st1. res_bind (R32 st1 f 1) (\<lambda>src.
        res_bind (UIMM32 st1 f 2) (\<lambda>sz. stackcopy 4 src sz f1 st1))))"
| "exec_stack STACKCOPYC f st =
     (let f1 = f\<lparr>fr_allocaptr := VMIR_ALIGN (fr_allocaptr f) 4\<rparr> in
      res_bind (AR32 st f 0 (fr_allocaptr f1)) (\<lambda>st1. res_bind (UIMM32 st1 f 1) (\<lambda>src.
        res_bind (UIMM32 st1 f 3) (\<lambda>sz. stackcopy 5 src sz f1 st1))))"
| "exec_stack UNREACHABLE f st = vm_stop STOP_UNREACHABLE 0 st"

subsection \<open>Memory and string intrinsics\<close>

text \<open>
  The loop of \<open>memcmp\<close>, \<open>strcmp\<close>, \<open>strncmp\<close> and \<open>strcasecmp\<close>: at most \<open>n\<close> bytes are compared
  after \<open>fld\<close>, and \<open>stop\<close> says whether a null byte ends the comparison.
\<close>

fun cmp_loop :: "(u8 \<Rightarrow> u8 \<Rightarrow> int) \<Rightarrow> (u8 \<Rightarrow> u8) \<Rightarrow> bool \<Rightarrow> vm_unit \<Rightarrow> nat \<Rightarrow> nat \<Rightarrow> nat \<Rightarrow> int vm" where
  "cmp_loop diff fld stop st a b 0 = Inr 0"
| "cmp_loop diff fld stop st a b (Suc n) =
     (if a < iu_memsize st \<and> b < iu_memsize st then
        let x = fld (iu_mem st a); y = fld (iu_mem st b) in
        if x \<noteq> y then Inr (diff x y)
        else if stop \<and> x = 0 then Inr 0
        else cmp_loop diff fld stop st (Suc a) (Suc b) n
      else Inl Ub)"

definition c_tolower :: "u8 \<Rightarrow> u8" where
  "c_tolower c = (if 65 \<le> c \<and> c \<le> 90 then c + 32 else c)"

text \<open>The bytes of the string at \<open>a\<close>, at most \<open>n\<close> of them, without the null byte.\<close>

fun cstrn :: "vm_unit \<Rightarrow> nat \<Rightarrow> nat \<Rightarrow> u8 list vm" where
  "cstrn st a 0 = Inr []"
| "cstrn st a (Suc n) =
     (if a < iu_memsize st then
        if iu_mem st a = 0 then Inr [] else res_bind (cstrn st (Suc a) n) (\<lambda>bs. Inr (iu_mem st a # bs))
      else Inl Ub)"

text \<open>A string has to end inside guest memory, so this many steps always reach its end or leave it.\<close>

definition cstring :: "vm_unit \<Rightarrow> u32 \<Rightarrow> u8 list vm" where
  "cstring st a = cstrn st (unat a) (Suc (iu_memsize st))"

definition store_str :: "vm_unit \<Rightarrow> nat \<Rightarrow> u32 \<Rightarrow> nat \<Rightarrow> u8 list \<Rightarrow> vm_unit vm" where
  "store_str st d s slen bs =
     (if d + length bs \<le> iu_memsize st \<and> (d + length bs \<le> unat s \<or> unat s + slen \<le> d)
      then Inr (st\<lparr>iu_mem := store_bytes (iu_mem st) d bs\<rparr>) else Inl Ub)"

definition c_strcpy :: "vm_unit \<Rightarrow> u32 \<Rightarrow> u32 \<Rightarrow> vm_unit vm" where
  "c_strcpy st d s = res_bind (cstring st s) (\<lambda>bs. store_str st (unat d) s (Suc (length bs)) (bs @ [0]))"

definition c_strcat :: "vm_unit \<Rightarrow> u32 \<Rightarrow> u32 \<Rightarrow> vm_unit vm" where
  "c_strcat st d s = res_bind (cstring st d) (\<lambda>ds. res_bind (cstring st s) (\<lambda>bs.
     store_str st (unat d + length ds) s (Suc (length bs)) (bs @ [0])))"

definition c_strncpy :: "vm_unit \<Rightarrow> u32 \<Rightarrow> u32 \<Rightarrow> nat \<Rightarrow> vm_unit vm" where
  "c_strncpy st d s n = res_bind (cstrn st (unat s) n) (\<lambda>bs.
     store_str st (unat d) s (min n (Suc (length bs))) (bs @ replicate (n - length bs) 0))"

definition c_strncat :: "vm_unit \<Rightarrow> u32 \<Rightarrow> u32 \<Rightarrow> nat \<Rightarrow> vm_unit vm" where
  "c_strncat st d s n = res_bind (cstring st d) (\<lambda>ds. res_bind (cstrn st (unat s) n) (\<lambda>bs.
     store_str st (unat d + length ds) s (min n (Suc (length bs))) (bs @ [0])))"

text \<open>\<open>vm_strchr\<close> and \<open>vm_strrchr\<close>: the first or last position of the byte, the null byte included,
  as a guest address, or 0.\<close>

definition str_positions :: "u8 list \<Rightarrow> u8 \<Rightarrow> nat list" where
  "str_positions bs c = filter (\<lambda>i. (bs @ [0]) ! i = c) [0..<Suc (length bs)]"

definition vm_strchr :: "vm_unit \<Rightarrow> u32 \<Rightarrow> u32 \<Rightarrow> u32 vm" where
  "vm_strchr st a b = res_bind (cstring st a) (\<lambda>bs.
     case str_positions bs (ucast b) of [] \<Rightarrow> Inr 0 | i # _ \<Rightarrow> Inr (a + of_nat i))"

definition vm_strrchr :: "vm_unit \<Rightarrow> u32 \<Rightarrow> u32 \<Rightarrow> u32 vm" where
  "vm_strrchr st a b = res_bind (cstring st a) (\<lambda>bs.
     case rev (str_positions bs (ucast b)) of [] \<Rightarrow> Inr 0 | i # _ \<Rightarrow> Inr (a + of_nat i))"

text \<open>\<open>vm_strdup\<close> calls the host's \<open>strdup\<close>: the copy is not in guest memory, and the value is the
  distance of the host pointer from \<open>iu_mem\<close> cut to 32 bits.\<close>

definition vm_strdup :: "vm_env \<Rightarrow> vm_unit \<Rightarrow> u32 \<Rightarrow> u32 vm" where
  "vm_strdup env st a = res_bind (cstring st a) (\<lambda>bs. Inr (env_strdup env bs))"

definition int32 :: "int \<Rightarrow> u32" where
  "int32 x = word_of_int x"

text \<open>\<open>{ uint32_t r = R32(1); call; AR32(0, r); NEXT(skip); }\<close>\<close>

definition mem_call :: "nat \<Rightarrow> vm_frame \<Rightarrow> u32 \<Rightarrow> vm_unit vm \<Rightarrow> vm_res" where
  "mem_call skip f r m = res_bind m (\<lambda>st1. put32 skip f st1 r)"

fun exec_mem :: "vm_env \<Rightarrow> vm_memop \<Rightarrow> vm_frame \<Rightarrow> vm_unit \<Rightarrow> vm_res" where
  "exec_mem env MEMCPY f st = res_bind (R32 st f 1) (\<lambda>d. res_bind (R32 st f 2) (\<lambda>s. res_bind (R32 st f 3) (\<lambda>n.
     mem_call 4 f d (c_memcpy st d s (unat n)))))"
| "exec_mem env MEMSET f st = res_bind (R32 st f 1) (\<lambda>d. res_bind (R32 st f 2) (\<lambda>c. res_bind (R32 st f 3) (\<lambda>n.
     mem_call 4 f d (c_memset st d (ucast c) (unat n)))))"
| "exec_mem env MEMMOVE f st = res_bind (R32 st f 1) (\<lambda>d. res_bind (R32 st f 2) (\<lambda>s. res_bind (R32 st f 3) (\<lambda>n.
     mem_call 4 f d (c_memmove st d s (unat n)))))"
| "exec_mem env LLVM_MEMCPY f st = res_bind (R32 st f 0) (\<lambda>d. res_bind (R32 st f 1) (\<lambda>s.
     res_bind (R32 st f 2) (\<lambda>n. res_bind (c_memcpy st d s (unat n)) (next_op 3 f))))"
| "exec_mem env LLVM_MEMSET f st = res_bind (R32 st f 0) (\<lambda>d. res_bind (R8 st f 1) (\<lambda>c.
     res_bind (R32 st f 2) (\<lambda>n. res_bind (c_memset st d c (unat n)) (next_op 3 f))))"
| "exec_mem env LLVM_MEMSET64 f st = res_bind (R32 st f 0) (\<lambda>d. res_bind (R8 st f 1) (\<lambda>c.
     res_bind (R64 st f 2) (\<lambda>n. res_bind (c_memset st d c (unat n)) (next_op 3 f))))"
| "exec_mem env MEMCMP f st = res_bind (R32 st f 1) (\<lambda>a. res_bind (R32 st f 2) (\<lambda>b. res_bind (R32 st f 3) (\<lambda>n.
     res_bind (cmp_loop (env_diff env) id False st (unat a) (unat b) (unat n)) (\<lambda>r. put32 4 f st (int32 r)))))"

fun exec_str :: "vm_env \<Rightarrow> vm_str \<Rightarrow> vm_frame \<Rightarrow> vm_unit \<Rightarrow> vm_res" where
  "exec_str env STRCPY f st = res_bind (R32 st f 1) (\<lambda>d. res_bind (R32 st f 2) (\<lambda>s.
     mem_call 3 f d (c_strcpy st d s)))"
| "exec_str env STRCAT f st = res_bind (R32 st f 1) (\<lambda>d. res_bind (R32 st f 2) (\<lambda>s.
     mem_call 3 f d (c_strcat st d s)))"
| "exec_str env STRNCPY f st = res_bind (R32 st f 1) (\<lambda>d. res_bind (R32 st f 2) (\<lambda>s. res_bind (R32 st f 3) (\<lambda>n.
     mem_call 4 f d (c_strncpy st d s (unat n)))))"
| "exec_str env STRNCAT f st = res_bind (R32 st f 1) (\<lambda>d. res_bind (R32 st f 2) (\<lambda>s. res_bind (R32 st f 3) (\<lambda>n.
     mem_call 4 f d (c_strncat st d s (unat n)))))"
| "exec_str env STRCMP f st = res_bind (R32 st f 1) (\<lambda>a. res_bind (R32 st f 2) (\<lambda>b.
     res_bind (cmp_loop (env_diff env) id True st (unat a) (unat b) (Suc (iu_memsize st))) (\<lambda>r.
       put32 3 f st (int32 r))))"
| "exec_str env STRCASECMP f st = res_bind (R32 st f 1) (\<lambda>a. res_bind (R32 st f 2) (\<lambda>b.
     res_bind (cmp_loop (env_diff env) c_tolower True st (unat a) (unat b) (Suc (iu_memsize st))) (\<lambda>r.
       put32 3 f st (int32 r))))"
| "exec_str env STRNCMP f st = res_bind (R32 st f 1) (\<lambda>a. res_bind (R32 st f 2) (\<lambda>b. res_bind (R32 st f 3) (\<lambda>n.
     res_bind (cmp_loop (env_diff env) id True st (unat a) (unat b) (unat n)) (\<lambda>r. put32 4 f st (int32 r)))))"
| "exec_str env STRCHR f st = res_bind (R32 st f 1) (\<lambda>a. res_bind (R32 st f 2) (\<lambda>b.
     res_bind (vm_strchr st a b) (put32 3 f st)))"
| "exec_str env STRRCHR f st = res_bind (R32 st f 1) (\<lambda>a. res_bind (R32 st f 2) (\<lambda>b.
     res_bind (vm_strrchr st a b) (put32 3 f st)))"
| "exec_str env STRLEN f st = res_bind (R32 st f 1) (\<lambda>a.
     res_bind (cstring st a) (\<lambda>bs. put32 2 f st (of_nat (length bs))))"
| "exec_str env STRDUP f st = res_bind (R32 st f 1) (\<lambda>a. res_bind (vm_strdup env st a) (put32 2 f st))"

subsection \<open>Variable arguments\<close>

text \<open>A \<open>va_list\<close> in guest memory holds a host pointer into the register buffer.\<close>

definition va_reg :: "vm_env \<Rightarrow> vm_unit \<Rightarrow> u64 \<Rightarrow> nat \<Rightarrow> nat vm" where
  "va_reg env st p sz =
     (let a = uint p - uint (env_regbase env)
      in if 0 \<le> a \<and> a + int sz \<le> int (iu_regsize st) then Inr (nat a) else Inl Ub)"

fun exec_va :: "vm_env \<Rightarrow> vm_va \<Rightarrow> vm_frame \<Rightarrow> vm_unit \<Rightarrow> vm_res" where
  "exec_va env VASTART f st = res_bind (R32 st f 0) (\<lambda>l. res_bind (R32 st f 1) (\<lambda>o'.
     res_bind (hostaddr st (uint l) 8) (\<lambda>h.
       next_op 2 f (st\<lparr>iu_mem := mem_wr64 (iu_mem st) h
         (env_regbase env + of_nat (fr_rf f) + word_of_int (sint o'))\<rparr>))))"
| "exec_va env VACOPY f st = res_bind (R32 st f 0) (\<lambda>d. res_bind (R32 st f 1) (\<lambda>s.
     res_bind (hostaddr st (uint d) 8) (\<lambda>hd'. res_bind (load64 st (uint s)) (\<lambda>p.
       next_op 2 f (st\<lparr>iu_mem := mem_wr64 (iu_mem st) hd' p\<rparr>)))))"
| "exec_va env VAARG32 f st = res_bind (R32 st f 1) (\<lambda>l. res_bind (hostaddr st (uint l) 8) (\<lambda>h.
     let p = mem_rd64 (iu_mem st) h - 4 in
     res_bind (va_reg env st p 4) (\<lambda>a.
       put32 2 f (st\<lparr>iu_mem := mem_wr64 (iu_mem st) h p\<rparr>) (mem_rd32 (iu_regs st) a))))"
| "exec_va env VAARG64 f st = res_bind (R32 st f 1) (\<lambda>l. res_bind (hostaddr st (uint l) 8) (\<lambda>h.
     let p = mem_rd64 (iu_mem st) h - 8 in
     res_bind (va_reg env st p 8) (\<lambda>a.
       put64 2 f (st\<lparr>iu_mem := mem_wr64 (iu_mem st) h p\<rparr>) (mem_rd64 (iu_regs st) a))))"

subsection \<open>Bit counting and overflow\<close>

definition builtin_ctz :: "'a::len word \<Rightarrow> nat option" where
  "builtin_ctz w = (if w = 0 then None else Some (length (takeWhile (\<lambda>i. \<not> bit w i) [0..<LENGTH('a)])))"

definition builtin_clz :: "'a::len word \<Rightarrow> nat option" where
  "builtin_clz w = (if w = 0 then None else Some (length (takeWhile (\<lambda>i. \<not> bit w i) (rev [0..<LENGTH('a)]))))"

definition builtin_popcount :: "'a::len word \<Rightarrow> nat" where
  "builtin_popcount w = length (filter (bit w) [0..<LENGTH('a)])"

text \<open>The overflow flag and the result, with the compiler's builtins and without.\<close>

definition uaddo32 :: "bool \<Rightarrow> u32 \<Rightarrow> u32 \<Rightarrow> u32 \<times> u32" where
  "uaddo32 builtin a b =
     (if builtin then (bool32 (2 ^ 32 \<le> uint a + uint b), a + b)
      else (bool32 (- 1 - a < b), a + b))"

definition umulo32 :: "bool \<Rightarrow> u32 \<Rightarrow> u32 \<Rightarrow> u32 \<times> u32" where
  "umulo32 builtin a b =
     (if builtin then (bool32 (2 ^ 32 \<le> uint a * uint b), a * b)
      else let p = (ucast (a * b) :: u64) in (bool32 (drop_bit 32 p \<noteq> 0), ucast p))"

definition put_overflow :: "vm_frame \<Rightarrow> vm_unit \<Rightarrow> u32 \<times> u32 \<Rightarrow> vm_res" where
  "put_overflow f st r = res_bind (AR32 st f 1 (fst r)) (\<lambda>st1. put32 4 f st1 (snd r))"

fun exec_bits :: "vm_env \<Rightarrow> vm_bits \<Rightarrow> vm_frame \<Rightarrow> vm_unit \<Rightarrow> vm_res" where
  "exec_bits env CTZ32 f st = res_bind (R32 st f 1) (\<lambda>w. res_bind (of_opt (builtin_ctz w)) (\<lambda>n. put32 2 f st (of_nat n)))"
| "exec_bits env CLZ32 f st = res_bind (R32 st f 1) (\<lambda>w. res_bind (of_opt (builtin_clz w)) (\<lambda>n. put32 2 f st (of_nat n)))"
| "exec_bits env POP32 f st = res_bind (R32 st f 1) (\<lambda>w. put32 2 f st (of_nat (builtin_popcount w)))"
| "exec_bits env CTZ64 f st = res_bind (R64 st f 1) (\<lambda>w. res_bind (of_opt (builtin_ctz w)) (\<lambda>n. put64 2 f st (of_nat n)))"
| "exec_bits env CLZ64 f st = res_bind (R64 st f 1) (\<lambda>w. res_bind (of_opt (builtin_clz w)) (\<lambda>n. put64 2 f st (of_nat n)))"
| "exec_bits env POP64 f st = res_bind (R64 st f 1) (\<lambda>w. put64 2 f st (of_nat (builtin_popcount w)))"
| "exec_bits env UADDO32 f st = res_bind (R32 st f 2) (\<lambda>a. res_bind (R32 st f 3) (\<lambda>b.
     put_overflow f st (uaddo32 (env_has_builtin env) a b)))"
| "exec_bits env UMULO32 f st = res_bind (R32 st f 2) (\<lambda>a. res_bind (R32 st f 3) (\<lambda>b.
     put_overflow f st (umulo32 (env_has_builtin env) a b)))"

subsection \<open>The rest\<close>

fun exec_misc :: "vm_env \<Rightarrow> vm_misc \<Rightarrow> vm_frame \<Rightarrow> vm_unit \<Rightarrow> vm_res" where
  "exec_misc env JIT_CALL f st = res_bind (UIMM32 st f 0) (\<lambda>code. res_bind (env_jit env code f st) (\<lambda>(pc, st1).
     Inr (Flow (Next (f\<lparr>fr_pc := pc\<rparr>)), st1)))"
| "exec_misc env INC_R32 f st = res_bind (R32 st f 1) (\<lambda>a. put32 2 f st (a + 1))"
| "exec_misc env DEC_R32 f st = res_bind (R32 st f 1) (\<lambda>a. put32 2 f st (a - 1))"
| "exec_misc env MLA32 f st = exec_mla32 f st"
| "exec_misc env ABS f st = res_bind (R32 st f 1) (\<lambda>a. res_bind (of_opt (vm_abs a)) (put32 2 f st))"
| "exec_misc env INSTRUMENT_COUNT f st = res_bind (UIMM32 st f 0) (\<lambda>i.
     if unat i < length (iu_instrumentation st) then
       next_op 2 f (st\<lparr>iu_instrumentation :=
         (iu_instrumentation st)[unat i := iu_instrumentation st ! unat i + 1]\<rparr>)
     else Inl Ub)"

section \<open>Dispatch and the loop\<close>

fun exec_op :: "vm_env \<Rightarrow> vm_op \<Rightarrow> vm_frame \<Rightarrow> vm_unit \<Rightarrow> vm_res" where
  "exec_op env (VM_RET r) = exec_ret r"
| "exec_op env (VM_R8 n) = exec_r8 n"
| "exec_op env (VM_R8C n) = exec_r8c n"
| "exec_op env (VM_R16 n) = exec_r16 n"
| "exec_op env (VM_R16C b) = exec_r16c b"
| "exec_op env (VM_R32 b) = exec_r32 b"
| "exec_op env (VM_R32C b) = exec_r32c b"
| "exec_op env (VM_R64 b) = exec_r64 b"
| "exec_op env (VM_R64C b) = exec_r64c b"
| "exec_op env (VM_FARITH k a) = exec_farith env k a"
| "exec_op env (VM_LOADN w m) = exec_loadn w m"
| "exec_op env (VM_LOADW w m) = exec_loadw w m"
| "exec_op env (VM_STORE w m) = exec_store w m"
| "exec_op env (VM_CMP w p) = exec_cmp w p"
| "exec_op env (VM_CMP_C w p) = exec_cmp_c w p"
| "exec_op env (VM_FCMP k p) = exec_fcmp k p"
| "exec_op env (VM_CMP_BR k p) = exec_cmp_br k p"
| "exec_op env (VM_CMP32_SEL p) = exec_cmp32_sel p"
| "exec_op env (VM_CMP32_C_SEL p) = exec_cmp32_c_sel p"
| "exec_op env (VM_SELECT32 s) = exec_select32 s"
| "exec_op env (VM_SELECT64 s) = exec_select64 s"
| "exec_op env (VM_FLOW c) = exec_flow c"
| "exec_op env (VM_CALL c) = exec_call env c"
| "exec_op env (VM_MOV m) = exec_mov m"
| "exec_op env (VM_LEA l) = exec_lea l"
| "exec_op env (VM_CAST c) = exec_cast env c"
| "exec_op env (VM_MATH m) = exec_math env m"
| "exec_op env (VM_MATHF m) = exec_mathf env m"
| "exec_op env (VM_STACK s) = exec_stack s"
| "exec_op env (VM_VA a) = exec_va env a"
| "exec_op env (VM_STR s) = exec_str env s"
| "exec_op env (VM_MEM m) = exec_mem env m"
| "exec_op env (VM_BITS b) = exec_bits env b"
| "exec_op env (VM_MISC m) = exec_misc env m"

text \<open>\<open>opc = *I++;\<close> and the \<open>switch\<close>.\<close>

definition vm_step :: "vm_env \<Rightarrow> vm_frame \<Rightarrow> vm_unit \<Rightarrow> vm_res" where
  "vm_step env f st =
     res_bind (UIMM16 st f 0) (\<lambda>opc.
       case vm_decode opc of
         None \<Rightarrow> vm_stop STOP_BAD_INSTRUCTION 0 st
       | Some op \<Rightarrow> exec_op env op (f\<lparr>fr_pc := fr_pc f + 2\<rparr>) st)"

text \<open>
  The loop of \<open>vm_exec\<close> with its recursive calls. A program may run forever, so the model takes
  fuel, one unit per instruction of a frame; \<open>None\<close> says that it did not suffice.
\<close>

definition vm_flow_cont :: "(vm_frame \<Rightarrow> vm_unit \<Rightarrow> (int \<times> vm_unit) vm option) \<Rightarrow> (vm_flow_out \<times> vm_unit) vm \<Rightarrow> (int \<times> vm_unit) vm option" where
  "vm_flow_cont run r =
     (case r of
        Inl h \<Rightarrow> Some (Inl h)
      | Inr (Next f, st) \<Rightarrow> run f st
      | Inr (Return x, st) \<Rightarrow> Some (Inr (x, st)))"

definition vm_cont :: "(vm_frame \<Rightarrow> vm_unit \<Rightarrow> (int \<times> vm_unit) vm option) \<Rightarrow> vm_res \<Rightarrow> (int \<times> vm_unit) vm option" where
  "vm_cont run r =
     (case r of
        Inl h \<Rightarrow> Some (Inl h)
      | Inr (Flow fl, st) \<Rightarrow> vm_flow_cont run (Inr (fl, st))
      | Inr (Call g k f, st) \<Rightarrow>
          (case run g st of
             None \<Rightarrow> None
           | Some (Inl h) \<Rightarrow> Some (Inl h)
           | Some (Inr (x, st1)) \<Rightarrow> vm_flow_cont run (after_call k x f st1)))"

fun vm_exec :: "vm_env \<Rightarrow> nat \<Rightarrow> vm_frame \<Rightarrow> vm_unit \<Rightarrow> (int \<times> vm_unit) vm option" where
  "vm_exec env 0 f st = None"
| "vm_exec env (Suc n) f st = vm_cont (vm_exec env n) (vm_step env f st)"

section \<open>External functions\<close>

text \<open>
  How an external function takes its arguments off the caller's registers, downward from \<open>rf\<close>,
  and writes its result. The pointer \<open>*rfp\<close> is returned updated.
\<close>

definition rf_pop :: "(vmem \<Rightarrow> nat \<Rightarrow> 'v) \<Rightarrow> nat \<Rightarrow> vm_unit \<Rightarrow> nat \<Rightarrow> ('v \<times> nat) vm" where
  "rf_pop rd sz st rf =
     (if sz \<le> rf \<and> rf \<le> iu_regsize st then Inr (rd (iu_regs st) (rf - sz), rf - sz) else Inl Ub)"

definition vmir_vm_arg32 :: "vm_unit \<Rightarrow> nat \<Rightarrow> (u32 \<times> nat) vm" where
  "vmir_vm_arg32 = rf_pop mem_rd32 4"

definition vmir_vm_arg64 :: "vm_unit \<Rightarrow> nat \<Rightarrow> (u64 \<times> nat) vm" where
  "vmir_vm_arg64 = rf_pop mem_rd64 8"

definition vmir_vm_arg_dbl :: "vm_unit \<Rightarrow> nat \<Rightarrow> (u64 \<times> nat) vm" where
  "vmir_vm_arg_dbl = rf_pop mem_rd64 8"

definition vmir_vm_arg_flt :: "vm_unit \<Rightarrow> nat \<Rightarrow> (u32 \<times> nat) vm" where
  "vmir_vm_arg_flt = rf_pop mem_rd32 4"

definition vmir_vm_ptr :: "vm_unit \<Rightarrow> nat \<Rightarrow> (nat \<times> nat) vm" where
  "vmir_vm_ptr st rf = res_bind (vmir_vm_arg32 st rf) (\<lambda>(v, rf'). Inr (unat v, rf'))"

definition vmir_vm_ptr_nullchk :: "vm_unit \<Rightarrow> nat \<Rightarrow> (nat option \<times> nat) vm" where
  "vmir_vm_ptr_nullchk st rf =
     res_bind (vmir_vm_arg32 st rf) (\<lambda>(vma, rf'). Inr (if vma \<noteq> 0 then Some (unat vma) else None, rf'))"

definition vmir_vm_arg_func :: "vm_unit \<Rightarrow> nat \<Rightarrow> (nat option \<times> nat) vm" where
  "vmir_vm_arg_func st rf =
     res_bind (vmir_vm_arg32 st rf) (\<lambda>(fnid, rf').
       Inr (if iu_nfuncs st \<le> unat fnid then None else Some (unat fnid), rf'))"

definition ret_write :: "(vmem \<Rightarrow> nat \<Rightarrow> 'v \<Rightarrow> vmem) \<Rightarrow> nat \<Rightarrow> retptr \<Rightarrow> 'v \<Rightarrow> vm_unit \<Rightarrow> vm_unit vm" where
  "ret_write wr sz ret v st =
     (case ret of
        RetReg a \<Rightarrow> if a + sz \<le> iu_regsize st then Inr (st\<lparr>iu_regs := wr (iu_regs st) a v\<rparr>) else Inl Ub
      | RetOut \<Rightarrow> Inr (st\<lparr>iu_out := wr (iu_out st) 0 v\<rparr>))"

definition vmir_vm_ret32 :: "retptr \<Rightarrow> u32 \<Rightarrow> vm_unit \<Rightarrow> vm_unit vm" where
  "vmir_vm_ret32 = ret_write mem_wr32 4"

definition vmir_vm_ret64 :: "retptr \<Rightarrow> u64 \<Rightarrow> vm_unit \<Rightarrow> vm_unit vm" where
  "vmir_vm_ret64 = ret_write mem_wr64 8"

definition vmir_vm_retptr :: "retptr \<Rightarrow> nat option \<Rightarrow> vm_unit \<Rightarrow> vm_unit vm" where
  "vmir_vm_retptr ret p = vmir_vm_ret32 ret (case p of None \<Rightarrow> 0 | Some k \<Rightarrow> of_nat k)"

definition vm_exit :: ext_fun where
  "vm_exit ret rf st = res_bind (vmir_vm_arg32 st rf) (\<lambda>(code, _). vm_stop STOP_EXIT code st)"

definition vm_abort :: ext_fun where
  "vm_abort ret rf st = vm_stop STOP_ABORT 0 st"

end
