(* ===== verification/Vmir_VM_Props.thy ===== *)
theory Vmir_VM_Props
  imports Vmir_VM
begin

text \<open>
  Properties of the interpreter of \<open>Vmir_VM\<close>: the result of a run does not depend on the fuel;
  no instruction changes the code or the size of any buffer, except that a direct call rewrites
  its own opcode, which is shown to be harmless; switches find their case; the guest stack hands
  out disjoint aligned blocks; and what becomes of an exception and of the overflow flags.
\<close>

section \<open>Notions of the proofs\<close>

text \<open>The part of the state only a call instruction may change: sizes, tables and the code.\<close>

definition fixed_part :: "vm_unit \<Rightarrow> nat \<times> nat \<times> (nat \<Rightarrow> (vmem \<times> nat) option) \<times> nat \<times> nat" where
  "fixed_part st = (iu_memsize st, iu_regsize st, iu_vm_funcs st, iu_nfuncs st, length (iu_instrumentation st))"

definition keeps :: "nat \<times> nat \<times> (nat \<Rightarrow> (vmem \<times> nat) option) \<times> nat \<times> nat \<Rightarrow> vm_res \<Rightarrow> bool" where
  "keeps s m = (\<forall>out st. m = Inr (out, st) \<longrightarrow> fixed_part st = s)"

text \<open>What is asked of the code outside the interpreter.\<close>

definition env_keeps :: "vm_env \<Rightarrow> bool" where
  "env_keeps env \<longleftrightarrow>
     (\<forall>fid e ret rf st r st'. env_function_table env fid = Some e \<longrightarrow> e ret rf st = Inr (r, st') \<longrightarrow>
        fixed_part st' = fixed_part st) \<and>
     (\<forall>fid ret rf st r st'. env_exec_ext env (env_function_table env fid) ret rf st = Inr (r, st') \<longrightarrow>
        fixed_part st' = fixed_part st) \<and>
     (\<forall>code f st pc st'. env_jit env code f st = Inr (pc, st') \<longrightarrow> fixed_part st' = fixed_part st)"

definition sizes_of :: "vm_unit \<Rightarrow> nat \<times> nat \<times> (nat \<Rightarrow> nat option) \<times> nat \<times> nat" where
  "sizes_of st = (iu_memsize st, iu_regsize st, \<lambda>fn. map_option snd (iu_vm_funcs st fn), iu_nfuncs st,
     length (iu_instrumentation st))"

text \<open>The instruction a direct call rewrites itself to.\<close>

definition quick_op :: "vm_env \<Rightarrow> u16 \<Rightarrow> vm_op" where
  "quick_op env i0 = VM_CALL (case env_function_table env (unat i0) of None \<Rightarrow> JSR_VM | Some _ \<Rightarrow> JSR_EXT)"

text \<open>A unit with one function, used to instantiate the theorems on concrete code.\<close>

definition code_bytes :: "u16 list \<Rightarrow> vmem" where
  "code_bytes ws a = (if a div 2 < length ws then le_bytes 2 (ws ! (a div 2)) ! (a mod 2) else 0)"

definition demo_unit :: "u16 list \<Rightarrow> vm_unit" where
  "demo_unit ws = \<lparr>iu_mem = (\<lambda>_. 0), iu_memsize = 256, iu_regs = (\<lambda>_. 0), iu_regsize = 256,
     iu_vm_funcs = [0 \<mapsto> (code_bytes ws, 2 * length ws)], iu_nfuncs = 1, iu_exception = (0, 0),
     iu_exit_code = 0, iu_instrumentation = [], iu_allocapeak = 0, iu_out = (\<lambda>_. 0)\<rparr>"

definition demo_frame :: vm_frame where
  "demo_frame = \<lparr>fr_fn = 0, fr_pc = 0, fr_rf = 0, fr_ret = RetOut, fr_allocaptr = 16\<rparr>"

definition demo_env :: vm_env where
  "demo_env = \<lparr>env_function_table = (\<lambda>_. None),
     env_exec_ext = (\<lambda>e. case e of None \<Rightarrow> (\<lambda>_ _ _. Inl Ub) | Some g \<Rightarrow> g), env_jit = (\<lambda>_ _ _. Inl Ub),
     env_math = (\<lambda>_ _. 0), env_mathf = (\<lambda>_ _. 0), env_nan64 = (\<lambda>_ _. 0x7ff8000000000000),
     env_nan32 = (\<lambda>_ _. 0x7fc00000), env_nan_ext = (\<lambda>_. 0x7ff8000000000000), env_nan_trunc = (\<lambda>_. 0x7fc00000),
     env_diff = (\<lambda>a b. uint a - uint b), env_strdup = (\<lambda>_. 0), env_regbase = 4096, env_has_builtin = True\<rparr>"

section \<open>Fuel\<close>

lemma vm_exec_mono_Suc: "vm_exec env n f st = Some r \<Longrightarrow> vm_exec env (Suc n) f st = Some r"
proof (induction n arbitrary: f st r)
  case (Suc n)
  have flow: "vm_flow_cont (vm_exec env (Suc n)) x = Some r" if "vm_flow_cont (vm_exec env n) x = Some r" for x r
    using that Suc.IH by (auto simp: vm_flow_cont_def split: sum.splits prod.splits vm_flow_out.splits simp del: vm_exec.simps)
  have "vm_cont (vm_exec env (Suc n)) x = Some r" if "vm_cont (vm_exec env n) x = Some r" for x
    using that Suc.IH flow
    by (auto simp: vm_cont_def split: sum.splits prod.splits vm_out.splits option.splits simp del: vm_exec.simps)
  with Suc.prems show ?case by simp
qed simp

lemma vm_exec_mono: "vm_exec env n f st = Some r \<Longrightarrow> n \<le> m \<Longrightarrow> vm_exec env m f st = Some r"
proof (induction m)
  case (Suc m)
  then show ?case by (cases "n = Suc m") (auto intro: vm_exec_mono_Suc simp del: vm_exec.simps)
qed simp

section \<open>What instructions leave alone\<close>

lemma fixed_part_simps [simp]:
  "fixed_part (st\<lparr>iu_regs := r\<rparr>) = fixed_part st" "fixed_part (st\<lparr>iu_mem := m\<rparr>) = fixed_part st"
  "fixed_part (st\<lparr>iu_out := m\<rparr>) = fixed_part st" "fixed_part (st\<lparr>iu_exception := e\<rparr>) = fixed_part st"
  "fixed_part (st\<lparr>iu_allocapeak := p\<rparr>) = fixed_part st"
  "fixed_part (st\<lparr>iu_instrumentation := (iu_instrumentation st)[i := c]\<rparr>) = fixed_part st"
  by (simp_all add: fixed_part_def)

named_theorems keeps_intro

lemma keeps_Inl [keeps_intro, simp]: "keeps s (Inl h)"
  by (simp add: keeps_def)

lemma keeps_Inr [keeps_intro]: "fixed_part st = s \<Longrightarrow> keeps s (Inr (out, st))"
  by (simp add: keeps_def)

lemma keeps_bind [keeps_intro]: "(\<And>x. m = Inr x \<Longrightarrow> keeps s (g x)) \<Longrightarrow> keeps s (res_bind m g)"
  by (cases m) auto

lemma keeps_next [keeps_intro]: "fixed_part st = s \<Longrightarrow> keeps s (next_op k f st)"
  by (simp add: next_op_def keeps_Inr)

lemma AR32_fixed [dest]: "AR32 st f k v = Inr st' \<Longrightarrow> fixed_part st' = fixed_part st"
  by (auto simp: AR32_def res_simps)

lemma AR64_fixed [dest]: "AR64 st f k v = Inr st' \<Longrightarrow> fixed_part st' = fixed_part st"
  by (auto simp: AR64_def res_simps)

lemma keeps_put32 [keeps_intro]: "fixed_part st = s \<Longrightarrow> keeps s (put32 k f st v)"
  by (auto simp: put32_def intro!: keeps_intro)

lemma keeps_put64 [keeps_intro]: "fixed_part st = s \<Longrightarrow> keeps s (put64 k f st v)"
  by (auto simp: put64_def intro!: keeps_intro)

lemma keeps_jump [keeps_intro]: "fixed_part st = s \<Longrightarrow> keeps s (jump off f st)"
  by (auto simp: jump_def Let_def intro!: keeps_intro)

lemma keeps_jump_if [keeps_intro]: "fixed_part st = s \<Longrightarrow> keeps s (jump_if f st a b c)"
  by (auto simp: jump_if_def intro!: keeps_intro)

lemma memop_fixed:
  "c_memmove st d s' n = Inr st' \<Longrightarrow> fixed_part st' = fixed_part st"
  "c_memcpy st d s' n = Inr st' \<Longrightarrow> fixed_part st' = fixed_part st"
  "c_memset st d c n = Inr st' \<Longrightarrow> fixed_part st' = fixed_part st"
  "store_str st dd s' k bs = Inr st' \<Longrightarrow> fixed_part st' = fixed_part st"
  by (auto simp: c_memmove_def c_memcpy_def c_memset_def store_str_def res_simps split: if_splits)

lemma strop_fixed:
  "c_strcpy st d s' = Inr st' \<Longrightarrow> fixed_part st' = fixed_part st"
  "c_strcat st d s' = Inr st' \<Longrightarrow> fixed_part st' = fixed_part st"
  "c_strncpy st d s' n = Inr st' \<Longrightarrow> fixed_part st' = fixed_part st"
  "c_strncat st d s' n = Inr st' \<Longrightarrow> fixed_part st' = fixed_part st"
  by (auto simp: c_strcpy_def c_strcat_def c_strncpy_def c_strncat_def res_simps dest: memop_fixed)

lemma keeps_mem_call [keeps_intro]:
  "(\<And>st'. m = Inr st' \<Longrightarrow> fixed_part st' = s) \<Longrightarrow> keeps s (mem_call k f r m)"
  by (auto simp: mem_call_def intro!: keeps_intro)

lemma keeps_store_mem [keeps_intro]: "fixed_part st = s \<Longrightarrow> keeps s (store_mem wr sz k f st ea v)"
  by (auto simp: store_mem_def intro!: keeps_intro)

lemma keeps_after_flow [keeps_intro]: "fixed_part (snd r) = s \<Longrightarrow> keeps s (after_flow k f r)"
  by (cases k) (auto simp: after_flow_def Let_def intro!: keeps_intro split: if_splits simp: res_simps)

lemma keeps_call_vm [keeps_intro]: "fixed_part st = s \<Longrightarrow> keeps s (call_vm k fid i1 i2 f st)"
  by (auto simp: call_vm_def intro!: keeps_intro)

lemma keeps_ret: "keeps (fixed_part st) (exec_ret r f st)"
  by (cases r) (auto simp: write_ret32_def write_ret64_def intro!: keeps_intro split: retptr.splits)

lemma keeps_flow: "keeps (fixed_part st) (exec_flow c f st)"
  by (cases c) (auto simp: exec_jumptable_def exec_switch8_def exec_switch32_def exec_switch64_def
      switch_jump_def intro!: keeps_intro dest!: AR32_fixed)

lemma keeps_int:
  "keeps (fixed_part st) (exec_r8 n f st)" "keeps (fixed_part st) (exec_r8c n f st)"
  "keeps (fixed_part st) (exec_r16 n f st)" "keeps (fixed_part st) (exec_r16c b f st)"
  "keeps (fixed_part st) (exec_r32 b f st)" "keeps (fixed_part st) (exec_r32c b f st)"
  "keeps (fixed_part st) (exec_r64 b f st)" "keeps (fixed_part st) (exec_r64c b f st)"
  by (auto simp: exec_r8_def exec_r8c_def exec_r16_def exec_r16c_def exec_r32_def exec_r32c_def exec_r64_def
      exec_r64c_def intro!: keeps_intro)

lemma keeps_fp: "keeps (fixed_part st) (exec_farith env k a f st)" "keeps (fixed_part st) (exec_fcmp k p f st)"
  "keeps (fixed_part st) (exec_math env m f st)" "keeps (fixed_part st) (exec_mathf env m f st)"
  by (cases k; auto intro!: keeps_intro) (cases k; auto simp: exec_math_def exec_mathf_def intro!: keeps_intro)+

lemma keeps_load: "keeps (fixed_part st) (exec_loadn nw nm f st)" "keeps (fixed_part st) (exec_loadw ww wm f st)"
  by (cases nm; auto simp: exec_loadn_ea_def intro!: keeps_intro)
    (cases wm; cases ww; auto simp: exec_loadw_ea_def intro!: keeps_intro)

lemma keeps_store: "keeps (fixed_part st) (exec_store w m f st)"
proof -
  have "keeps (fixed_part st) (store_val w k f st ea j)" "keeps (fixed_part st) (store_imm w f st)" for k ea j
    by (cases w rule: width.exhaust; rename_tac x; case_tac x; auto intro!: keeps_intro)+
  then show ?thesis by (cases m) auto
qed

lemma keeps_cmp: "keeps (fixed_part st) (exec_cmp w p f st)" "keeps (fixed_part st) (exec_cmp_c w p f st)"
  by (cases w; rename_tac x; case_tac x; auto intro!: keeps_intro)+

lemma keeps_br: "keeps (fixed_part st) (exec_cmp_br k p f st)"
  by (cases k) (auto intro!: keeps_intro)

lemma keeps_sel:
  "keeps (fixed_part st) (exec_cmp32_sel p f st)" "keeps (fixed_part st) (exec_cmp32_c_sel p f st)"
  "keeps (fixed_part st) (exec_select32 s f st)" "keeps (fixed_part st) (exec_select64 s f st)"
  by (auto simp: exec_cmp32_sel_def exec_cmp32_c_sel_def intro!: keeps_intro)
    (cases s; auto intro!: keeps_intro)+

lemma keeps_mov: "keeps (fixed_part st) (exec_mov m f st)" "keeps (fixed_part st) (exec_lea l f st)"
  by (cases m; auto intro!: keeps_intro) (cases l; auto intro!: keeps_intro)

lemma keeps_cast: "keeps (fixed_part st) (exec_cast env c f st)"
proof (cases c)
  case (TO8 d) then show ?thesis by (cases d) (auto intro!: keeps_intro)
next
  case (TO16 d) then show ?thesis by (cases d) (auto intro!: keeps_intro)
next
  case (TO32 d) then show ?thesis by (cases d) (auto intro!: keeps_intro)
next
  case (TO64 d) then show ?thesis by (cases d) (auto intro!: keeps_intro)
qed (auto intro!: keeps_intro)

lemma keeps_stack: "keeps (fixed_part st) (exec_stack s f st)"
  by (cases s) (auto simp: Let_def alloca_peak_def stackcopy_def vm_stop_def intro!: keeps_intro
      dest!: AR32_fixed memop_fixed)

lemma keeps_va: "keeps (fixed_part st) (exec_va env a f st)"
  by (cases a) (auto simp: Let_def intro!: keeps_intro)

lemma keeps_str: "keeps (fixed_part st) (exec_str env s f st)"
  by (cases s) (auto intro!: keeps_intro dest!: strop_fixed)

lemma keeps_memop: "keeps (fixed_part st) (exec_mem env m f st)"
  by (cases m) (auto intro!: keeps_intro dest!: memop_fixed)

lemma keeps_bits: "keeps (fixed_part st) (exec_bits env b f st)"
  by (cases b) (auto simp: put_overflow_def intro!: keeps_intro dest!: AR32_fixed)

lemma keeps_misc: "env_keeps env \<Longrightarrow> keeps (fixed_part st) (exec_misc env m f st)"
  by (cases m) (auto simp: exec_mla32_def env_keeps_def split: prod.splits intro!: keeps_intro)

lemma keeps_call:
  assumes "env_keeps env" "c \<noteq> JSR"
  shows "keeps (fixed_part st) (exec_call env c f st)"
proof -
  have "keeps (fixed_part st) (exec_call_direct env k False f st)"
    "keeps (fixed_part st) (exec_call_vm k f st)" "keeps (fixed_part st) (exec_call_ext env k f st)"
    "keeps (fixed_part st) (exec_call_indirect env k f st)" for k
    using assms(1)
    by (auto simp: exec_call_direct_def exec_call_vm_def exec_call_ext_def exec_call_indirect_def env_keeps_def
        vm_bad_function_def vm_stop_def split: option.splits prod.splits intro!: keeps_intro)
  with assms(2) show ?thesis by (cases c) auto
qed

lemma keeps_op:
  assumes "env_keeps env" "op \<noteq> VM_CALL JSR"
  shows "keeps (fixed_part st) (exec_op env op f st)"
  using assms
  by (cases op) (auto simp: keeps_ret keeps_int keeps_fp keeps_load keeps_store keeps_cmp keeps_br keeps_sel
      keeps_flow keeps_mov keeps_cast keeps_stack keeps_va keeps_str keeps_memop keeps_bits keeps_misc keeps_call)

lemma fixed_sizes: "fixed_part st' = fixed_part st \<Longrightarrow> sizes_of st' = sizes_of st"
  by (simp add: fixed_part_def sizes_of_def)

lemma patch_op_sizes [simp]: "sizes_of (patch_op op f st) = sizes_of st"
  by (auto simp: patch_op_def sizes_of_def fun_eq_iff split: option.splits prod.splits)

lemma after_call_state: "after_call k r f st = Inr (fl, st') \<Longrightarrow> st' = st"
  by (cases k) (auto simp: Let_def res_simps split: if_splits)

lemma after_flow_state: "after_flow k f r = Inr (out, st') \<Longrightarrow> st' = snd r"
  by (auto simp: after_flow_def res_simps dest: after_call_state)

lemma jsr_sizes:
  assumes "env_keeps env" "exec_call env JSR f st = Inr (out, st')"
  shows "sizes_of st' = sizes_of st"
proof -
  from assms(2) obtain i0 i1 i2 where "UIMM16 st f 0 = Inr i0"
    "(case env_function_table env (unat i0) of
        Some ext \<Rightarrow> res_bind (ext (RetReg (fr_rf f + unat i2)) (fr_rf f + unat i1) (patch_op (VM_CALL JSR_EXT) f st))
          (after_flow After_jsr f)
      | None \<Rightarrow> call_vm After_jsr (unat i0) i1 i2 f (patch_op (VM_CALL JSR_VM) f st)) = Inr (out, st')"
    by (auto simp: exec_call_direct_def res_simps split: if_splits)
  then show ?thesis
    using assms(1)
    by (auto simp: env_keeps_def call_vm_def res_simps split: option.splits if_splits dest!: after_flow_state)
      (metis fixed_sizes patch_op_sizes)
qed

lemma vm_step_sizes:
  assumes "env_keeps env" "vm_step env f st = Inr (out, st')"
  shows "sizes_of st' = sizes_of st"
proof -
  from assms(2) obtain op where op: "exec_op env op (f\<lparr>fr_pc := fr_pc f + 2\<rparr>) st = Inr (out, st')"
    by (auto simp: vm_step_def vm_stop_def res_simps split: option.splits)
  show ?thesis
  proof (cases "op = VM_CALL JSR")
    case True
    with op jsr_sizes [OF assms(1)] show ?thesis by auto
  next
    case False
    with op keeps_op [OF assms(1) False] show ?thesis by (auto simp: keeps_def intro: fixed_sizes)
  qed
qed

lemma vm_exec_sizes:
  assumes "env_keeps env"
  shows "vm_exec env n f st = Some (Inr (r, st')) \<Longrightarrow> sizes_of st' = sizes_of st"
proof (induction n arbitrary: f st r st')
  case (Suc n)
  have fl: "sizes_of st' = sizes_of st2" if "vm_flow_cont (vm_exec env n) (Inr (fl, st2)) = Some (Inr (r, st'))" for fl st2
    using that Suc.IH by (auto simp: vm_flow_cont_def split: vm_flow_out.splits)
  from Suc.prems obtain out st1 where step: "vm_step env f st = Inr (out, st1)"
    by (cases "vm_step env f st") (auto simp: vm_cont_def)
  note s1 = vm_step_sizes [OF assms step]
  show ?case
  proof (cases out)
    case (Flow x)
    with Suc.prems step fl s1 show ?thesis by (auto simp: vm_cont_def)
  next
    case (Call g k f')
    with Suc.prems step obtain y st2 where c: "vm_exec env n g st1 = Some (Inr (y, st2))"
      and a: "vm_flow_cont (vm_exec env n) (after_call k y f' st2) = Some (Inr (r, st'))"
      by (auto simp: vm_cont_def split: option.splits sum.splits)
    from a obtain fl' st3 where ac: "after_call k y f' st2 = Inr (fl', st3)"
      by (cases "after_call k y f' st2") (auto simp: vm_flow_cont_def)
    with a fl have "sizes_of st' = sizes_of st3" by auto
    with after_call_state [OF ac] Suc.IH [OF c] s1 show ?thesis by simp
  qed
qed simp

section \<open>Rewritten call instructions\<close>

lemma imm_at:
  "iu_vm_funcs st (fr_fn f) = Some (t, n) \<Longrightarrow>
   imm rd sz st f k = (if fr_pc f + 2 * k + sz \<le> n then Inr (rd t (fr_pc f + 2 * k)) else Inl Ub)"
  by (simp add: imm_def)

lemma patch_op_funcs:
  assumes "iu_vm_funcs st (fr_fn f) = Some (t, n)"
  shows "iu_vm_funcs (patch_op op f st) (fr_fn f) = Some (mem_wr16 t (fr_pc f - 2) (vm_resolve op), n)"
    and "fixed_part (patch_op op f st) = (iu_memsize st, iu_regsize st,
      (iu_vm_funcs st)(fr_fn f \<mapsto> (mem_wr16 t (fr_pc f - 2) (vm_resolve op), n)), iu_nfuncs st,
      length (iu_instrumentation st))"
  using assms by (simp_all add: patch_op_def fixed_part_def)

lemma patch_op_idem: "patch_op op f (patch_op op f st) = patch_op op f st"
proof -
  have "mem_wr16 (mem_wr16 t a v) a v = mem_wr16 t a v" for t a v
    by (auto simp: mem_wr16_def host_store_le_def store_bytes_def fun_eq_iff)
  then show ?thesis by (auto simp: patch_op_def split: option.splits)
qed

lemma patch_op_imm16:
  assumes "2 \<le> fr_pc f"
  shows "UIMM16 (patch_op op f st) f k = UIMM16 st f k"
proof (cases "iu_vm_funcs st (fr_fn f)")
  case None
  then show ?thesis by (simp add: patch_op_def)
next
  case (Some tn)
  obtain t n where "tn = (t, n)" by (cases tn)
  moreover have "mem_rd16 (mem_wr16 t (fr_pc f - 2) v) (fr_pc f + 2 * k) = mem_rd16 t (fr_pc f + 2 * k)" for v
    using assms by (intro m16.rd_wr_disjoint) auto
  ultimately show ?thesis
    using Some by (simp add: UIMM16_def imm_at patch_op_funcs)
qed

lemma patch_op_none: "iu_vm_funcs (patch_op op f st) fid = None \<longleftrightarrow> iu_vm_funcs st fid = None"
  by (auto simp: patch_op_def split: option.splits)

lemma patch_op_nfuncs [simp]: "iu_nfuncs (patch_op op f st) = iu_nfuncs st"
  by (auto simp: patch_op_def split: option.splits)

lemma jsr_quick:
  assumes op: "UIMM16 st f 0 = Inr (vm_resolve (VM_CALL JSR))"
    and i0: "UIMM16 st (f\<lparr>fr_pc := fr_pc f + 2\<rparr>) 0 = Inr i0" "unat i0 < iu_nfuncs st"
    and ext: "\<And>e. env_exec_ext env (Some e) = e"
  shows "vm_step env f st = vm_step env f (patch_op (quick_op env i0) (f\<lparr>fr_pc := fr_pc f + 2\<rparr>) st)"
proof -
  let ?f = "f\<lparr>fr_pc := fr_pc f + 2\<rparr>"
  let ?st = "patch_op (quick_op env i0) ?f st"
  have imm: "UIMM16 ?st ?f k = UIMM16 st ?f k" for k
    by (rule patch_op_imm16) simp
  from op obtain t n where tn: "iu_vm_funcs st (fr_fn ?f) = Some (t, n)" "fr_pc f + 2 \<le> n"
    by (auto simp: UIMM16_def imm_def split: option.splits if_splits)
  then have "UIMM16 ?st f 0 = Inr (vm_resolve (quick_op env i0))"
    using patch_op_funcs(1) [OF tn(1), of "quick_op env i0"] by (simp add: UIMM16_def imm_def m16.rd_wr)
  then have "vm_step env f ?st = exec_op env (quick_op env i0) ?f ?st"
    by (simp add: vm_step_def)
  also have "\<dots> = exec_op env (VM_CALL JSR) ?f st"
  proof (cases "env_function_table env (unat i0)")
    case None
    then show ?thesis
      using i0 imm by (simp add: quick_op_def exec_call_direct_def exec_call_vm_def)
  next
    case (Some e)
    then show ?thesis
      using i0 imm ext by (simp add: quick_op_def exec_call_direct_def exec_call_ext_def)
  qed
  also have "\<dots> = vm_step env f st"
    using op by (simp add: vm_step_def)
  finally show ?thesis by simp
qed

section \<open>The binary search of a switch\<close>

lemma bs_search_finds:
  fixes tab :: "int \<Rightarrow> 'a::len word"
  assumes rd: "\<And>i. 0 \<le> i \<Longrightarrow> i < p \<Longrightarrow> rd i = Inr (tab i)"
    and sorted: "\<And>i j. 0 \<le> i \<Longrightarrow> i < j \<Longrightarrow> j < p \<Longrightarrow> tab i < tab j"
  shows "0 \<le> imin \<Longrightarrow> imin \<le> imax \<Longrightarrow> imax < p \<Longrightarrow>
    \<forall>i. 0 \<le> i \<and> i < p \<and> tab i = v \<longrightarrow> imin \<le> i \<and> i \<le> imax \<Longrightarrow>
    \<exists>m. bs_search rd v imin imax = Inr (m, m) \<and> 0 \<le> m \<and> m < p \<and>
      (\<forall>i. 0 \<le> i \<and> i < p \<and> tab i = v \<longrightarrow> i = m)"
proof (induction "nat (imax - imin)" arbitrary: imin imax rule: less_induct)
  case less
  show ?case
  proof (cases "imin < imax")
    case False
    with less.prems show ?thesis by (intro exI [of _ imin]) (auto simp: bs_search.simps)
  next
    case True
    define mid where "mid = (imin + imax) div 2"
    have mid: "imin \<le> mid" "mid < imax" using True by (auto simp: mid_def)
    have mono: "tab i \<le> tab mid" if "0 \<le> i" "i \<le> mid" for i
      using sorted [of i mid] that less.prems mid by (cases "i = mid") auto
    have mono': "tab mid < tab i" if "mid < i" "i < p" for i
      using sorted [of mid i] that less.prems mid by auto
    show ?thesis
    proof (cases "tab mid < v")
      case c: True
      have "\<forall>i. 0 \<le> i \<and> i < p \<and> tab i = v \<longrightarrow> mid + 1 \<le> i \<and> i \<le> imax"
        using less.prems(4) mono c by (metis not_less zless_imp_add1_zle)
      then have "\<exists>m. bs_search rd v (mid + 1) imax = Inr (m, m) \<and> 0 \<le> m \<and> m < p \<and>
          (\<forall>i. 0 \<le> i \<and> i < p \<and> tab i = v \<longrightarrow> i = m)"
        using less.prems mid by (intro less.hyps) auto
      then show ?thesis
        using c True rd [of mid] less.prems mid by (subst bs_search.simps) (simp add: mid_def [symmetric])
    next
      case c: False
      have "\<forall>i. 0 \<le> i \<and> i < p \<and> tab i = v \<longrightarrow> imin \<le> i \<and> i \<le> mid"
        using less.prems(4) mono' c by (metis not_less)
      then have "\<exists>m. bs_search rd v imin mid = Inr (m, m) \<and> 0 \<le> m \<and> m < p \<and>
          (\<forall>i. 0 \<le> i \<and> i < p \<and> tab i = v \<longrightarrow> i = m)"
        using less.prems mid by (intro less.hyps) auto
      then show ?thesis
        using c True rd [of mid] less.prems mid by (subst bs_search.simps) (simp add: mid_def [symmetric])
    qed
  qed
qed

text \<open>The selection returns the index of the key, or \<open>p\<close> when the table does not hold it.\<close>

lemma bs_select_spec:
  fixes tab :: "int \<Rightarrow> 'a::len word"
  assumes rd: "\<And>i. 0 \<le> i \<Longrightarrow> i < p \<Longrightarrow> rd i = Inr (tab i)"
    and sorted: "\<And>i j. 0 \<le> i \<Longrightarrow> i < j \<Longrightarrow> j < p \<Longrightarrow> tab i < tab j" and "0 \<le> p"
  shows "\<exists>m. bs_select rd v p = Inr m \<and>
    (0 \<le> m \<and> m < p \<and> tab m = v \<or> m = p \<and> (\<forall>i. 0 \<le> i \<and> i < p \<longrightarrow> tab i \<noteq> v))"
proof (cases "p = 0")
  case True
  moreover have "bs_search rd v 0 (- 1) = Inr (0, - 1)"
    by (subst bs_search.simps) simp
  ultimately show ?thesis by (auto simp: bs_select_def)
next
  case False
  have "\<exists>m. bs_search rd v 0 (p - 1) = Inr (m, m) \<and> 0 \<le> m \<and> m < p \<and>
      (\<forall>i. 0 \<le> i \<and> i < p \<and> tab i = v \<longrightarrow> i = m)"
  proof (rule bs_search_finds [where tab = tab])
    show "\<And>i. 0 \<le> i \<Longrightarrow> i < p \<Longrightarrow> rd i = Inr (tab i)" by (rule rd)
    show "\<And>i j. 0 \<le> i \<Longrightarrow> i < j \<Longrightarrow> j < p \<Longrightarrow> tab i < tab j" by (rule sorted)
  qed (use False \<open>0 \<le> p\<close> in auto)
  then obtain m where m: "bs_search rd v 0 (p - 1) = Inr (m, m)" "0 \<le> m" "m < p"
    "\<And>i. 0 \<le> i \<Longrightarrow> i < p \<Longrightarrow> tab i = v \<Longrightarrow> i = m" by blast
  have r: "bs_select rd v p = Inr (if tab m = v then m else p)"
    using m(1) rd [OF m(2,3)] by (simp add: bs_select_def)
  show ?thesis
  proof (cases "tab m = v")
    case True
    with r m(2,3) show ?thesis by simp
  next
    case False
    with m(4) have "\<forall>i. 0 \<le> i \<and> i < p \<longrightarrow> tab i \<noteq> v" by blast
    with False r show ?thesis by simp
  qed
qed

lemma switch_selects_gen:
  fixes tab :: "nat \<Rightarrow> 'a::len word"
  assumes rd: "\<And>i. i < n \<Longrightarrow> rd (int i) = Inr (tab i)"
    and sorted: "\<And>i j. i < j \<Longrightarrow> j < n \<Longrightarrow> tab i < tab j"
    and tgt: "\<And>i. i \<le> n \<Longrightarrow> UIMM16 st f (2 + n * scale + i) = Inr (tgt i)"
    and n: "n = unat p"
    and m: "m \<le> n" "m < n \<Longrightarrow> tab m = v" "m = n \<Longrightarrow> (\<forall>i<n. tab i \<noteq> v)"
  shows "res_bind (bs_select rd v (uint p)) (switch_jump f st scale p) = jump (tgt m) f st"
proof -
  have u: "uint p = int n" unfolding n by simp
  obtain k where k: "bs_select rd v (int n) = Inr k"
    "0 \<le> k \<and> k < int n \<and> tab (nat k) = v \<or> k = int n \<and> (\<forall>i. 0 \<le> i \<and> i < int n \<longrightarrow> tab (nat i) \<noteq> v)"
  proof -
    have "rd i = Inr (tab (nat i))" if "0 \<le> i" "i < int n" for i
      using that rd [of "nat i"] by simp
    moreover have "tab (nat i) < tab (nat j)" if "0 \<le> i" "i < j" "j < int n" for i j
      using that by (intro sorted) auto
    ultimately have "\<exists>k. bs_select rd v (int n) = Inr k \<and>
      (0 \<le> k \<and> k < int n \<and> tab (nat k) = v \<or> k = int n \<and> (\<forall>i. 0 \<le> i \<and> i < int n \<longrightarrow> tab (nat i) \<noteq> v))"
      by (rule bs_select_spec [OF _ _ of_nat_0_le_iff])
    then show ?thesis using that by blast
  qed
  have "k = int m"
  proof (cases "m < n")
    case True
    have tm: "tab m = v" by (rule m(2) [OF True])
    have k': "0 \<le> k" "k < int n" "tab (nat k) = v"
    proof -
      have "\<not> (\<forall>i. 0 \<le> i \<and> i < int n \<longrightarrow> tab (nat i) \<noteq> v)"
        using True tm by (intro notI) (drule spec [of _ "int m"], simp)
      with k(2) show "0 \<le> k" "k < int n" "tab (nat k) = v" by blast+
    qed
    then have kn: "nat k < n" by linarith
    have "nat k = m"
      using sorted [of m "nat k"] sorted [of "nat k" m] k'(3) tm True kn
      by (cases "nat k" m rule: linorder_cases) simp_all
    with k' show ?thesis by linarith
  next
    case False
    then have "m = n" using m(1) by simp
    moreover have "\<forall>i<n. tab i \<noteq> v" by (rule m(3)) fact
    moreover have "nat k < n" if "k < int n" "0 \<le> k" using that by linarith
    ultimately show ?thesis using k(2) by blast
  qed
  then show ?thesis
    using k(1) tgt [OF m(1)] by (simp only: u switch_jump_def n [symmetric] res_bind_simps nat_int)
qed

section \<open>A small machine\<close>

lemma code_bytes_rd16: "i < length ws \<Longrightarrow> mem_rd16 (code_bytes ws) (2 * i) = ws ! i"
proof -
  assume i: "i < length ws"
  have "load_bytes (code_bytes ws) (2 * i) 2 = le_bytes 2 (ws ! i)"
    by (rule nth_equalityI) (auto simp: load_bytes_def code_bytes_def i less_2_cases_iff)
  then show ?thesis
    by (simp add: mem_rd16_def host_load_le_def le_word_le_bytes)
qed

lemma demo_simps [simp]:
  "UIMM16 (demo_unit ws) f k =
     (if fr_fn f = 0 \<and> fr_pc f + 2 * k + 2 \<le> 2 * length ws
      then Inr (mem_rd16 (code_bytes ws) (fr_pc f + 2 * k)) else Inl Ub)"
  "UIMM32 (demo_unit ws) f k =
     (if fr_fn f = 0 \<and> fr_pc f + 2 * k + 4 \<le> 2 * length ws
      then Inr (mem_rd32 (code_bytes ws) (fr_pc f + 2 * k)) else Inl Ub)"
  "iu_nfuncs (demo_unit ws) = 1" "iu_regsize (demo_unit ws) = 256" "iu_regs (demo_unit ws) = (\<lambda>_. 0)"
  by (auto simp: UIMM16_def UIMM32_def imm_def demo_unit_def)

lemma demo_frame_simps [simp]: "fr_fn demo_frame = 0" "fr_pc demo_frame = 0" "fr_rf demo_frame = 0"
  by (simp_all add: demo_frame_def)

lemma mem_rd_zero [simp]: "mem_rd32 (\<lambda>_. 0) a = 0"
proof -
  have "mem_rd32 (\<lambda>_. 0) a = mem_rd32 (\<lambda>_. 0) 0" by (rule m32.rd_local) simp
  also have "\<dots> = 0" by code_simp
  finally show ?thesis .
qed

lemma env_keeps_demo: "env_keeps demo_env"
  by (simp add: env_keeps_def demo_env_def)

lemma VMIR_ALIGN_word_bounds:
  fixes a :: "'a::len word"
  assumes "unat a + 2 ^ n \<le> 2 ^ LENGTH('a)" and "n < LENGTH('a)"
  shows "2 ^ n dvd unat (VMIR_ALIGN a (2 ^ n))" and "unat a \<le> unat (VMIR_ALIGN a (2 ^ n))"
    and "unat (VMIR_ALIGN a (2 ^ n)) < unat a + 2 ^ n"
proof -
  let ?b = "(2 :: nat) ^ n" and ?x = "unat a + 2 ^ n - 1"
  have "?b * (?x div ?b) + ?x mod ?b = ?x" and "?x mod ?b < ?b"
    by simp_all
  then show "2 ^ n dvd unat (VMIR_ALIGN a (2 ^ n))" and "unat a \<le> unat (VMIR_ALIGN a (2 ^ n))"
    and "unat (VMIR_ALIGN a (2 ^ n)) < unat a + 2 ^ n"
    unfolding unat_VMIR_ALIGN [OF assms] by (simp, linarith+)
qed

section \<open>Properties\<close>

text \<open>
  Fuel. A run that ends with some amount of fuel ends with the same result for every larger
  amount, so the result of a program does not depend on the fuel.
\<close>

theorem vm_exec_fuel_irrelevant:
  assumes "vm_exec env n f st = Some r" "vm_exec env m f st = Some s"
  shows "r = s"
  using vm_exec_mono [OF assms(1), of "max n m"] vm_exec_mono [OF assms(2), of "max n m"] by simp

theorem vm_exec_fuel_irrelevant_witness:
  "vm_exec demo_env 1 demo_frame (demo_unit [vm_resolve (VM_RET RET_VOID)]) =
     vm_exec demo_env 9 demo_frame (demo_unit [vm_resolve (VM_RET RET_VOID)]) \<and>
   vm_exec demo_env 1 demo_frame (demo_unit [vm_resolve (VM_RET RET_VOID)]) \<noteq> None"
proof -
  let ?u = "demo_unit [vm_resolve (VM_RET RET_VOID)]"
  have "vm_step demo_env demo_frame ?u = Inr (Flow (Return 0), ?u)"
    using code_bytes_rd16 [of 0 "[vm_resolve (VM_RET RET_VOID)]"] by (simp add: vm_step_def)
  then have "vm_exec demo_env (Suc n) demo_frame ?u = Some (Inr (0, ?u))" for n
    by (simp add: vm_cont_def vm_flow_cont_def)
  from this [of 0] this [of 8] show ?thesis
    using vm_exec_fuel_irrelevant [of demo_env 1 demo_frame ?u "Inr (0, ?u)" 9 "Inr (0, ?u)"] by simp
qed





text \<open>
  C22. Switch dispatch. Over a strictly ascending table of 32-bit keys the binary search jumps to
  the target of the key that equals the operand, and to the default target when there is none.
\<close>

theorem switch32_selects:
  assumes v: "R32 st f 0 = Inr v" and p: "UIMM16 st f 1 = Inr p" and n: "n = unat p"
    and keys: "\<forall>i<n. UIMM32 st f (2 + i * 2) = Inr (tab i)"
    and sorted: "\<forall>i j. i < j \<and> j < n \<longrightarrow> tab i < tab j"
    and targets: "\<forall>i\<le>n. UIMM16 st f (2 + n * 2 + i) = Inr (tgt i)"
    and m: "m \<le> n" "if m < n then tab m = v else \<forall>i<n. tab i \<noteq> v"
  shows "exec_op env (VM_FLOW SWITCH32_BS) f st = jump (tgt m) f st"
proof -
  have "res_bind (bs_select (\<lambda>i. UIMM32 st f (2 + nat i * 2)) v (uint p)) (switch_jump f st 2 p) =
      jump (tgt m) f st"
    using keys sorted targets m by (intro switch_selects_gen [where tab = tab and n = n]) (auto simp: n)
  then show ?thesis
    using v p by (simp add: exec_switch32_def)
qed

theorem switch32_selects_witness:
  "exec_op demo_env (VM_FLOW SWITCH32_BS) demo_frame (demo_unit [8, 1, 0, 0, 40, 60]) =
     jump 40 demo_frame (demo_unit [8, 1, 0, 0, 40, 60])"
proof -
  let ?ws = "[8, 1, 0, 0, 40, 60] :: u16 list"
  have rd: "mem_rd16 (code_bytes ?ws) 0 = 8" "mem_rd16 (code_bytes ?ws) 2 = 1"
    "mem_rd16 (code_bytes ?ws) 8 = 40" "mem_rd16 (code_bytes ?ws) 10 = 60"
    using code_bytes_rd16 [of 0 ?ws] code_bytes_rd16 [of 1 ?ws] code_bytes_rd16 [of 4 ?ws]
      code_bytes_rd16 [of 5 ?ws] by simp_all
  have key: "mem_rd32 (code_bytes ?ws) 4 = 0"
    by code_simp
  have "R32 (demo_unit ?ws) demo_frame 0 = Inr 0"
    using rd by (simp add: R32_def reg_addr_def)
  then show ?thesis
    using switch32_selects [of "demo_unit ?ws" demo_frame 0 1 1 "\<lambda>_. 0" "\<lambda>i. if i = 0 then 40 else 60" 0 demo_env] rd key
    by (simp add: le_Suc_eq all_conj_distrib eval_nat_numeral)
qed

text \<open>
  C35. Guest stack. \<open>VM_ALLOCA\<close> with alignment \<open>2 ^ k\<close> hands out an aligned address not below the
  stack pointer, moves the stack pointer exactly past the block and raises the recorded peak to
  it, unless the stack pointer would leave the 32-bit address space.
\<close>

theorem alloca_block:
  assumes al: "UIMM16 st f 1 = Inr (2 ^ k)" "k < 16" and sz: "UIMM32 st f 2 = Inr sz"
    and dst: "reg_addr st f 0 4 = Inr d"
    and room: "unat (fr_allocaptr f) + 2 ^ k + unat sz \<le> 2 ^ 32"
  shows "\<exists>p. exec_op env (VM_STACK ALLOCA) f st =
      Inr (Flow (Next (f\<lparr>fr_allocaptr := p + sz, fr_pc := fr_pc f + 8\<rparr>)),
        st\<lparr>iu_regs := mem_wr32 (iu_regs st) d p, iu_allocapeak := max (iu_allocapeak st) (p + sz)\<rparr>) \<and>
      2 ^ k dvd unat p \<and> unat (fr_allocaptr f) \<le> unat p \<and> unat p < unat (fr_allocaptr f) + 2 ^ k \<and>
      unat (p + sz) = unat p + unat sz"
proof -
  define p where "p = VMIR_ALIGN (fr_allocaptr f) (2 ^ k :: u32)"
  have b: "2 ^ k dvd unat p" "unat (fr_allocaptr f) \<le> unat p" "unat p < unat (fr_allocaptr f) + 2 ^ k"
    using VMIR_ALIGN_word_bounds [of "fr_allocaptr f" k] room al(2) by (auto simp: p_def)
  have "(ucast (2 ^ k :: u16) :: u32) = 2 ^ k"
    using al(2) by (intro bit_word_eqI) (auto simp: bit_simps bit_exp_iff)
  moreover have "UIMM32 (st\<lparr>iu_regs := r\<rparr>) f 2 = Inr sz" for r
    using sz by (simp add: UIMM32_def imm_def)
  moreover have "unat (p + sz) = unat p + unat sz"
    using b(3) room by (simp add: unat_word_ariths)
  ultimately show ?thesis
    using b al(1) dst
    by (intro exI [of _ p]) (simp add: AR32_def alloca_peak_def next_op_def p_def Let_def)
qed

theorem alloca_block_witness:
  "\<exists>p. exec_op demo_env (VM_STACK ALLOCA) demo_frame (demo_unit [4, 8, 24, 0]) =
      Inr (Flow (Next (demo_frame\<lparr>fr_allocaptr := p + 24, fr_pc := 8\<rparr>)),
        (demo_unit [4, 8, 24, 0])\<lparr>iu_regs := mem_wr32 (\<lambda>_. 0) 4 p,
          iu_allocapeak := max (iu_allocapeak (demo_unit [4, 8, 24, 0])) (p + 24)\<rparr>) \<and>
      8 dvd unat p \<and> 16 \<le> unat p \<and> unat p < 24"
proof -
  let ?ws = "[4, 8, 24, 0] :: u16 list"
  have "mem_rd16 (code_bytes ?ws) 0 = 4" "mem_rd16 (code_bytes ?ws) (Suc (Suc 0)) = 2 ^ 3"
    using code_bytes_rd16 [of 0 ?ws] code_bytes_rd16 [of 1 ?ws] by (simp_all add: numeral_2_eq_2)
  moreover have "mem_rd32 (code_bytes ?ws) 4 = 24"
    by code_simp
  moreover have "fr_allocaptr demo_frame = 16" by (simp add: demo_frame_def)
  ultimately show ?thesis
    using alloca_block [of "demo_unit ?ws" demo_frame 3 24 4 demo_env] by (auto simp: reg_addr_def)
qed



text \<open>
  Overflow flags. With the compiler's builtins, and for the addition also without, the flag
  is set exactly when the result does not fit in 32 bits. The multiplication without the builtin
  multiplies in 32 bits and never sets the flag.
\<close>

theorem overflow_flags:
  "uaddo32 b x y = (bool32 (2 ^ 32 \<le> uint x + uint y), x + y) \<and>
   umulo32 True x y = (bool32 (2 ^ 32 \<le> uint x * uint y), x * y) \<and>
   umulo32 False x y = (0, x * y)"
proof -
  have m: "uint (- 1 - x) = 2 ^ 32 - 1 - uint x"
    using uint_range_size [of x] by (auto simp: uint_word_ariths word_size intro!: mod_pos_pos_trivial
        order.strict_trans2 [OF _ unsigned_greater_eq])
  have "- 1 - x < y \<longleftrightarrow> 2 ^ 32 \<le> uint x + uint y"
    unfolding word_less_def m by auto
  moreover have "drop_bit 32 (ucast (x * y) :: u64) = 0"
    by (rule bit_word_eqI) (auto simp: bit_simps dest: bit_imp_le_length)
  moreover have "(ucast (ucast (x * y) :: u64) :: u32) = x * y"
    by (rule bit_word_eqI) (simp add: bit_simps)
  ultimately show ?thesis
    by (simp add: uaddo32_def umulo32_def bool32_def Let_def)
qed

end
