(* ===== verification/Vmir_Bitstream.thy ===== *)
theory Vmir_Bitstream
  imports Vmir_Support
begin

text \<open>
  The bit reader of \<open>src/src/vmir_bitstream.c\<close>: \<open>read_bits\<close>, \<open>align_bits32\<close>, the
  variable bit rate readers, and the helpers that turn record operands into strings and
  signed integers. The state is the C struct; \<open>rdata\<close> is the memory the pointer refers to.

  The reference view of a stream is the list of bits that are still to come
  (\<open>stream_bits\<close>); the theorems say that the reader takes its results off the front of that
  list, and that what an LLVM writer emits as a VBR number is read back.
\<close>

section \<open>State\<close>

record bcbitstream =
  rdata :: "u8 list"
  bytes_length :: nat
  bytes_offset :: nat
  remain :: nat
  tmp :: u8

section \<open>Operations\<close>

text \<open>
  The loop of \<open>read_bits\<close>. The accumulator \<open>r\<close> is a 32-bit integer, so a shift by 32 or more
  is undefined in C; that is reached only when more than 32 bits are asked for.
\<close>

definition refill :: "bcbitstream \<Rightarrow> bcbitstream" where
  "refill bs =
     (if remain bs = 0
      then bs\<lparr>tmp := rdata bs ! bytes_offset bs, bytes_offset := bytes_offset bs + 1, remain := 8\<rparr>
      else bs)"

function read_bits_loop :: "bcbitstream \<Rightarrow> nat \<Rightarrow> nat \<Rightarrow> u32 \<Rightarrow> (u32 \<times> bcbitstream) result" where
  "read_bits_loop bs num off r =
     (if num > 0 then
        (if bytes_offset bs \<ge> bytes_length bs then Inr (0, bs)
         else
           (let bs1 = refill bs;
                pick = VMIR_MIN num (remain bs1)
            in if off \<ge> 32 then Inl Undefined_behaviour
               else read_bits_loop
                      (bs1\<lparr>tmp := drop_bit pick (tmp bs1), remain := remain bs1 - pick\<rparr>)
                      (num - pick) (off + pick)
                      (r OR push_bit off (ucast (tmp bs1 AND (push_bit pick 1 - 1))))))
      else Inr (r, bs))"
  by pat_completeness auto
termination
  by (relation "measure (\<lambda>(bs, num, off, r). num)") (auto simp: refill_def)

declare read_bits_loop.simps [simp del]

definition read_bits :: "bcbitstream \<Rightarrow> nat \<Rightarrow> (u32 \<times> bcbitstream) result" where
  "read_bits bs num = read_bits_loop bs num 0 0"

definition align_bits32 :: "bcbitstream \<Rightarrow> bcbitstream" where
  "align_bits32 bs =
     bs\<lparr>bytes_offset := nat ((int (bytes_offset bs) + 3) AND NOT 3), remain := 0\<rparr>"

text \<open>
  \<open>read_vbr\<close> and \<open>read_vbr64\<close> are the same loop over accumulators of 32 and 64 bits, with
  \<open>assert(stride < 32)\<close> and \<open>assert(stride < 64)\<close>. A chunk of one bit has no payload, so
  with \<open>width = 1\<close> the stride stays zero and a stream of continuation bits keeps the C loop
  running until the input ends, where \<open>read_bits\<close> returns 0. Each chunk consumes input or
  finds none left, so the bits still in the stream bound the number of rounds.
\<close>

fun vbr_loop :: "nat \<Rightarrow> bcbitstream \<Rightarrow> nat \<Rightarrow> nat \<Rightarrow> 'a::len word \<Rightarrow> ('a word \<times> bcbitstream) result" where
  "vbr_loop 0 bs width stride ret = Inl Undefined_behaviour"
| "vbr_loop (Suc fuel) bs width stride ret =
     (let cont = push_bit (width - 1) 1 :: u32;
          mask = cont - 1
      in res_bind (read_bits bs width)
           (\<lambda>(x, bs').
              let ret' = ret OR push_bit stride (ucast (x AND mask))
              in if cont AND x \<noteq> 0
                 then res_bind (c_assert (stride + (width - 1) < LENGTH('a)))
                        (\<lambda>_. vbr_loop fuel bs' width (stride + (width - 1)) ret')
                 else Inr (ret', bs')))"

definition bits_left :: "bcbitstream \<Rightarrow> nat" where
  "bits_left bs = remain bs + 8 * (bytes_length bs - bytes_offset bs)"

definition read_vbr :: "bcbitstream \<Rightarrow> nat \<Rightarrow> (u32 \<times> bcbitstream) result" where
  "read_vbr bs width =
     res_bind (c_assert (width > 0)) (\<lambda>_. vbr_loop (bits_left bs + 2) bs width 0 0)"

definition read_vbr64 :: "bcbitstream \<Rightarrow> nat \<Rightarrow> (u64 \<times> bcbitstream) result" where
  "read_vbr64 bs width =
     res_bind (c_assert (width > 0)) (\<lambda>_. vbr_loop (bits_left bs + 2) bs width 0 0)"

text \<open>Record operands are 64-bit (\<open>ir_arg_t\<close>); strings are bytes of operands.\<close>

type_synonym ir_arg = u64

fun argv_zero_index :: "ir_arg list \<Rightarrow> nat" where
  "argv_zero_index [] = 0"
| "argv_zero_index (a # as) = (if a = 0 then 0 else Suc (argv_zero_index as))"

text \<open>
  The returned string holds the bytes before the terminator; the count and the vector move
  past the terminator. \<open>None\<close> is the \<open>NULL\<close> result, which leaves them alone.
\<close>

definition read_zstr_from_argv :: "ir_arg list \<Rightarrow> (u8 list \<times> ir_arg list) option" where
  "read_zstr_from_argv argv =
     (let len = argv_zero_index argv
      in if len = length argv then None
         else Some (map ucast (take len argv), drop (len + 1) argv))"

definition read_str_from_argv :: "ir_arg list \<Rightarrow> u8 list" where
  "read_str_from_argv argv = map ucast argv"

definition read_sign_rotated :: "ir_arg \<Rightarrow> u64" where
  "read_sign_rotated u64 =
     (if u64 AND 1 = 0 then drop_bit 1 u64
      else if u64 \<noteq> 1 then - drop_bit 1 u64
      else push_bit 63 1)"

section \<open>The stream as a list of bits\<close>

definition byte_bits :: "u8 \<Rightarrow> bool list" where
  "byte_bits b = nat_bits 8 (unat b)"

definition stream_bits :: "bcbitstream \<Rightarrow> bool list" where
  "stream_bits bs = nat_bits (remain bs) (unat (tmp bs)) @
     concat (map byte_bits (take (bytes_length bs - bytes_offset bs) (drop (bytes_offset bs) (rdata bs))))"

text \<open>
  A stream in a state the reader leaves it in: the length is that of the data, and \<open>tmp\<close> holds
  the unread bits of the current byte and nothing above them.
\<close>

definition stream_ok :: "bcbitstream \<Rightarrow> bool" where
  "stream_ok bs \<longleftrightarrow> bytes_length bs = length (rdata bs) \<and> remain bs \<le> 8 \<and>
     (remain bs > 0 \<longrightarrow> unat (tmp bs) < 2 ^ remain bs)"

text \<open>
  Whether \<open>n\<close> bits can be delivered. The loop tests the byte offset before it looks at the
  bits it still holds, so once the last byte has been fetched its remaining bits are out of
  reach.
\<close>

definition can_read :: "bcbitstream \<Rightarrow> nat \<Rightarrow> bool" where
  "can_read bs n \<longleftrightarrow> n \<le> length (stream_bits bs) \<and>
     (remain bs > 0 \<longrightarrow> bytes_offset bs < bytes_length bs)"

lemma length_byte_bits [simp]: "length (byte_bits b) = 8"
  by (simp add: byte_bits_def)

lemma length_concat_byte_bits [simp]: "length (concat (map byte_bits xs)) = 8 * length xs"
  by (induction xs) auto

lemma length_stream_bits:
  "stream_ok bs \<Longrightarrow> length (stream_bits bs) = remain bs + 8 * (bytes_length bs - bytes_offset bs)"
  by (simp add: stream_bits_def stream_ok_def)

lemma bits_left_eq: "stream_ok bs \<Longrightarrow> bits_left bs = length (stream_bits bs)"
  by (simp add: bits_left_def length_stream_bits)

lemma refill_ok:
  assumes "stream_ok bs" and "bytes_offset bs < bytes_length bs"
  shows "stream_ok (refill bs)" and "remain (refill bs) > 0"
    and "stream_bits (refill bs) = stream_bits bs"
    and "rdata (refill bs) = rdata bs" and "bytes_length (refill bs) = bytes_length bs"
proof -
  show "stream_ok (refill bs)" "remain (refill bs) > 0"
    "rdata (refill bs) = rdata bs" "bytes_length (refill bs) = bytes_length bs"
    using assms unat_less [of "rdata bs ! bytes_offset bs"]
    by (auto simp: stream_ok_def refill_def)
  have "take (length (rdata bs) - bytes_offset bs) (drop (bytes_offset bs) (rdata bs)) =
    rdata bs ! bytes_offset bs # drop (Suc (bytes_offset bs)) (rdata bs)"
    if "bytes_offset bs < length (rdata bs)"
    using that by (simp add: Cons_nth_drop_Suc)
  with assms show "stream_bits (refill bs) = stream_bits bs"
    by (auto simp: stream_bits_def refill_def stream_ok_def byte_bits_def)
qed

text \<open>One round of the loop takes \<open>pick\<close> bits off the front.\<close>

definition consume :: "nat \<Rightarrow> bcbitstream \<Rightarrow> bcbitstream" where
  "consume pick bs = bs\<lparr>tmp := drop_bit pick (tmp bs), remain := remain bs - pick\<rparr>"

lemma consume_ok:
  assumes "stream_ok bs" and "pick \<le> remain bs"
  shows "stream_ok (consume pick bs)"
    and "stream_bits (consume pick bs) = drop pick (stream_bits bs)"
    and "bits_nat (take pick (stream_bits bs)) = unat (tmp bs) mod 2 ^ pick"
proof -
  have "unat (tmp bs) div 2 ^ pick < 2 ^ (remain bs - pick)" if "remain bs > 0"
  proof -
    have "unat (tmp bs) < 2 ^ pick * 2 ^ (remain bs - pick)"
      using assms that by (simp add: stream_ok_def flip: power_add)
    then show ?thesis
      by (simp add: less_mult_imp_div_less mult.commute)
  qed
  with assms show "stream_ok (consume pick bs)"
    by (auto simp: stream_ok_def consume_def unat_drop_bit)
  show "stream_bits (consume pick bs) = drop pick (stream_bits bs)"
    using assms(2) by (simp add: stream_bits_def consume_def drop_nat_bits unat_drop_bit)
  show "bits_nat (take pick (stream_bits bs)) = unat (tmp bs) mod 2 ^ pick"
    using assms(2) by (simp add: stream_bits_def take_nat_bits)
qed

lemma read_bits_loop_step:
  assumes "0 < n" and "bytes_offset bs < bytes_length bs" and "off < 32"
  shows "read_bits_loop bs n off r =
    (let bs1 = refill bs; pick = min n (remain bs1)
     in read_bits_loop (consume pick bs1) (n - pick) (off + pick)
          (r OR push_bit off (of_nat (unat (tmp bs1) mod 2 ^ pick))))"
proof -
  have "(push_bit k 1 - 1 :: u8) = mask k" for k
    by (simp add: mask_eq_exp_minus_1 push_bit_eq_mult)
  with assms show ?thesis
    by (subst read_bits_loop.simps) (simp add: Let_def consume_def ucast_and_mask)
qed

lemma read_bits_loop_spec:
  assumes "stream_ok bs" and "n > 0 \<Longrightarrow> can_read bs n" and "off + n \<le> 32"
  shows "\<exists>bs'. read_bits_loop bs n off r =
      Inr (r OR push_bit off (of_nat (bits_nat (take n (stream_bits bs)))), bs') \<and>
    stream_ok bs' \<and> stream_bits bs' = drop n (stream_bits bs) \<and> rdata bs' = rdata bs"
  using assms
proof (induction n arbitrary: bs off r rule: less_induct)
  case (less n)
  show ?case
  proof (cases "n = 0")
    case True
    with less.prems show ?thesis by (simp add: read_bits_loop.simps [of bs 0])
  next
    case False
    let ?s = "stream_bits bs"
    from False less.prems(2) have cr: "can_read bs n" by simp
    then have off: "bytes_offset bs < bytes_length bs"
      using False less.prems(1) by (auto simp: can_read_def length_stream_bits)
    note rf = refill_ok [OF less.prems(1) off]
    define bs1 where "bs1 = refill bs"
    define p where "p = min n (remain bs1)"
    have p: "0 < p" "p \<le> n" "p \<le> remain bs1"
      using False rf(2) by (auto simp: p_def bs1_def)
    have c: "stream_ok (consume p bs1)" "stream_bits (consume p bs1) = drop p ?s"
      "bits_nat (take p ?s) = unat (tmp bs1) mod 2 ^ p"
      using consume_ok [of bs1 p] rf p by (simp_all add: bs1_def)
    have "can_read (consume p bs1) (n - p)" if "n - p > 0"
      using that cr c(2) p by (auto simp: can_read_def consume_def p_def split: if_splits)
    with less.IH [of "n - p" "consume p bs1" "off + p"] c p less.prems(3)
    have IH: "\<And>r. \<exists>bs'. read_bits_loop (consume p bs1) (n - p) (off + p) r =
          Inr (r OR push_bit (off + p) (of_nat (bits_nat (take (n - p) (drop p ?s)))), bs') \<and>
        stream_ok bs' \<and> stream_bits bs' = drop (n - p) (drop p ?s) \<and> rdata bs' = rdata bs1"
      by (auto simp: consume_def)
    have "take n ?s = take p ?s @ take (n - p) (drop p ?s)"
      using p by (metis le_add_diff_inverse take_add)
    then have "bits_nat (take n ?s) =
        bits_nat (take p ?s) + 2 ^ p * bits_nat (take (n - p) (drop p ?s))"
      using cr p by (simp add: bits_nat_append can_read_def)
    then have "of_nat (bits_nat (take n ?s)) = (of_nat (unat (tmp bs1) mod 2 ^ p) :: u32) OR
        push_bit p (of_nat (bits_nat (take (n - p) (drop p ?s))))"
      using c(3) word_of_nat_shift [where n = p and a = "unat (tmp bs1) mod 2 ^ p"] by simp
    with IH [of "r OR push_bit off (of_nat (unat (tmp bs1) mod 2 ^ p))"] False off less.prems(3) p rf
    show ?thesis
      by (simp add: read_bits_loop_step Let_def flip: bs1_def p_def)
         (simp add: bs1_def or.assoc push_bit_or add.commute)
  qed
qed

section \<open>Properties of the bit reader\<close>

lemma read_bits_spec:
  assumes "stream_ok bs" and "can_read bs n" and "n \<le> 32"
  shows "\<exists>bs'. read_bits bs n = Inr (of_nat (bits_nat (take n (stream_bits bs))), bs') \<and>
    stream_ok bs' \<and> stream_bits bs' = drop n (stream_bits bs) \<and> rdata bs' = rdata bs"
  using read_bits_loop_spec [of bs n 0 0] assms by (simp add: read_bits_def)

lemma long_stream_can_read:
  assumes "stream_ok bs" and "n + 8 \<le> length (stream_bits bs)" and "0 < n"
  shows "can_read bs n"
proof -
  have "bytes_offset bs < bytes_length bs"
  proof (rule ccontr)
    assume "\<not> ?thesis"
    with assms show False by (simp add: length_stream_bits stream_ok_def)
  qed
  with assms(2) show ?thesis by (simp add: can_read_def)
qed

subsection \<open>Variable bit rate numbers\<close>

text \<open>
  What LLVM's writer emits: chunks of \<open>w - 1\<close> payload bits, least significant first, each
  followed by a continuation bit.
\<close>

function vbr_bits :: "nat \<Rightarrow> nat \<Rightarrow> bool list" where
  "vbr_bits w v =
     (if w < 2 \<or> v < 2 ^ (w - 1) then nat_bits w v
      else nat_bits (w - 1) v @ [True] @ vbr_bits w (v div 2 ^ (w - 1)))"
  by pat_completeness auto
termination
proof (relation "measure snd")
  fix w v :: nat
  assume *: "\<not> (w < 2 \<or> v < 2 ^ (w - 1))"
  then have "(2::nat) ^ 1 \<le> 2 ^ (w - 1)" by (intro power_increasing) auto
  moreover from * have "0 < v" by (metis not_gr_zero zero_less_numeral zero_less_power)
  ultimately show "((w, v div 2 ^ (w - 1)), w, v) \<in> measure snd" by simp
qed simp

declare vbr_bits.simps [simp del]

lemma vbr_chunk:
  assumes "1 \<le> w" and "w \<le> 32" and "c < 2 ^ w"
  shows "push_bit (w - 1) 1 AND (of_nat c :: u32) \<noteq> 0 \<longleftrightarrow> 2 ^ (w - 1) \<le> c"
    and "ucast ((of_nat c :: u32) AND (push_bit (w - 1) 1 - 1)) =
      (of_nat (c mod 2 ^ (w - 1)) :: 'a::len word)"
proof -
  have "c < 2 ^ 32"
    using assms(2,3) by (meson less_le_trans one_le_numeral power_increasing)
  then have c: "unat (of_nat c :: u32) = c"
    by (simp add: unsigned_of_nat take_bit_nat_eq_self)
  have "c < 2 * 2 ^ (w - 1)"
    using assms(1,3) by (cases w) auto
  then have "c div 2 ^ (w - 1) = (if 2 ^ (w - 1) \<le> c then 1 else 0)"
    by (auto intro: div_nat_eqI)
  then have "odd (c div 2 ^ (w - 1)) \<longleftrightarrow> 2 ^ (w - 1) \<le> c"
    by simp
  moreover have "push_bit (w - 1) 1 AND (of_nat c :: u32) \<noteq> 0 \<longleftrightarrow> bit (of_nat c :: u32) (w - 1)"
    using and_exp_eq_0_iff_not_bit [of "of_nat c :: u32" "w - 1"]
    by (simp add: push_bit_eq_mult and.commute)
  moreover have "bit (of_nat c :: u32) (w - 1) \<longleftrightarrow> odd (c div 2 ^ (w - 1))"
    using assms(1,2) bit_iff_odd [of c "w - 1"] by (auto simp: bit_of_nat_iff)
  ultimately show "push_bit (w - 1) 1 AND (of_nat c :: u32) \<noteq> 0 \<longleftrightarrow> 2 ^ (w - 1) \<le> c"
    by simp
  have "push_bit (w - 1) 1 - 1 = (mask (w - 1) :: u32)"
    by (simp add: mask_eq_exp_minus_1 push_bit_eq_mult)
  then show "ucast ((of_nat c :: u32) AND (push_bit (w - 1) 1 - 1)) =
      (of_nat (c mod 2 ^ (w - 1)) :: 'a::len word)"
    using c by (simp add: ucast_and_mask)
qed

text \<open>Reading one chunk whose bits are those of \<open>c\<close>.\<close>

lemma vbr_loop_chunk:
  assumes "stream_ok bs" and "1 \<le> w" and "w \<le> 32" and "c < 2 ^ w"
    and "stream_bits bs = nat_bits w c @ rest" and "8 \<le> length rest"
  shows "\<exists>bs'. vbr_loop (Suc fuel) bs w stride (ret :: 'a::len word) =
      (let ret' = ret OR push_bit stride (of_nat (c mod 2 ^ (w - 1)))
       in if 2 ^ (w - 1) \<le> c
          then res_bind (c_assert (stride + (w - 1) < LENGTH('a)))
                 (\<lambda>_. vbr_loop fuel bs' w (stride + (w - 1)) ret')
          else Inr (ret', bs')) \<and>
    stream_ok bs' \<and> stream_bits bs' = rest \<and> rdata bs' = rdata bs"
proof -
  have "can_read bs w"
    using assms by (intro long_stream_can_read) auto
  moreover have "take w (stream_bits bs) = nat_bits w c" "drop w (stream_bits bs) = rest"
    using assms(5) by auto
  ultimately obtain bs' where bs': "read_bits bs w = Inr (of_nat c, bs')" "stream_ok bs'"
    "stream_bits bs' = rest" "rdata bs' = rdata bs"
    using read_bits_spec [of bs w] assms by auto
  with vbr_chunk(1) [OF assms(2-4)] vbr_chunk(2) [OF assms(2-4), where ?'a = 'a] show ?thesis
    by (intro exI [of _ bs']) (simp add: Let_def)
qed

lemma vbr_loop_decodes:
  assumes "stream_ok bs" and "2 \<le> w" and "w \<le> 32"
    and "stream_bits bs = vbr_bits w v @ rest" and "8 \<le> length rest"
    and "v * 2 ^ stride < 2 ^ LENGTH('a)" and "length (vbr_bits w v) \<le> fuel"
  shows "\<exists>bs'. vbr_loop fuel bs w stride (ret :: 'a::len word) =
      Inr (ret OR push_bit stride (of_nat v), bs') \<and>
    stream_ok bs' \<and> stream_bits bs' = rest \<and> rdata bs' = rdata bs"
  using assms
proof (induction w v arbitrary: bs stride ret fuel rule: vbr_bits.induct)
  case (1 w v)
  let ?k = "2 ^ (w - 1) :: nat"
  have w: "w = Suc (w - 1)" and k2: "2 ^ w = 2 * ?k"
    using "1.prems"(2) by (auto simp: power_Suc [symmetric] simp del: power_Suc)
  have "0 < length (vbr_bits w v)"
    using "1.prems"(2) by (auto simp: vbr_bits.simps [of w v] simp del: length_greater_0_conv)
  then obtain f where fuel: "fuel = Suc f"
    using "1.prems"(7) by (cases fuel) auto
  show ?case
  proof (cases "v < ?k")
    case True
    then have "stream_bits bs = nat_bits w v @ rest" and "v < 2 ^ w"
      using "1.prems"(4) k2 by (simp_all add: vbr_bits.simps [of w v])
    with True "1.prems" vbr_loop_chunk [of bs w v rest f stride ret] show ?thesis
      by (auto simp: fuel)
  next
    case False
    let ?c = "v mod ?k + ?k"
    have enc: "vbr_bits w v = nat_bits (w - 1) v @ [True] @ vbr_bits w (v div ?k)"
      using False "1.prems"(2) by (simp add: vbr_bits.simps [of w v])
    have "nat_bits w ?c = nat_bits (w - 1) ?c @ nat_bits 1 (?c div ?k)"
      by (metis Suc_eq_plus1 nat_bits_append w)
    also have "nat_bits (w - 1) ?c = nat_bits (w - 1) v"
      by (metis bits_nat_nat_bits length_nat_bits mod_add_self2 mod_mod_trivial nat_bits_bits_nat)
    also have "nat_bits 1 (?c div ?k) = [True]"
      by (simp add: div_add_self2)
    finally have "nat_bits w ?c = nat_bits (w - 1) v @ [True]" .
    with enc "1.prems"(4)
    have bits: "stream_bits bs = nat_bits w ?c @ vbr_bits w (v div ?k) @ rest" by simp
    have stride: "v div ?k * 2 ^ (stride + (w - 1)) < 2 ^ LENGTH('a)"
    proof -
      have "v div ?k * ?k \<le> v" by simp
      then have "v div ?k * ?k * 2 ^ stride \<le> v * 2 ^ stride" by (rule mult_le_mono1)
      moreover have "v div ?k * 2 ^ (stride + (w - 1)) = v div ?k * ?k * 2 ^ stride"
        by (simp add: power_add)
      ultimately show ?thesis using "1.prems"(6) by (metis le_less_trans)
    qed
    have ok: "stride + (w - 1) < LENGTH('a)"
    proof -
      have "(2::nat) ^ (stride + (w - 1)) = ?k * 2 ^ stride" by (simp add: power_add)
      also have "\<dots> \<le> v * 2 ^ stride" using False by simp
      also note "1.prems"(6)
      finally have "(2::nat) ^ (stride + (w - 1)) < 2 ^ LENGTH('a)" .
      then show ?thesis by simp
    qed
    obtain bs1 where step: "vbr_loop fuel bs w stride ret =
        vbr_loop f bs1 w (stride + (w - 1)) (ret OR push_bit stride (of_nat (v mod ?k)))"
      and bs1: "stream_ok bs1" "stream_bits bs1 = vbr_bits w (v div ?k) @ rest" "rdata bs1 = rdata bs"
      using vbr_loop_chunk [OF "1.prems"(1) _ "1.prems"(3) _ bits, of f stride ret] "1.prems"(2,5) ok k2
      by (auto simp: fuel)
    have "length (vbr_bits w (v div ?k)) \<le> f"
      using "1.prems"(7) enc by (simp add: fuel)
    then have IH: "\<exists>bs'. vbr_loop f bs1 w (stride + (w - 1)) r' =
        Inr (r' OR push_bit (stride + (w - 1)) (of_nat (v div ?k)), bs') \<and>
      stream_ok bs' \<and> stream_bits bs' = rest \<and> rdata bs' = rdata bs1" for r' :: "'a word"
      using False "1.prems"(2,3,5) bs1(1,2) stride by (intro "1.IH") auto
    have "of_nat v = (of_nat (v mod ?k) :: 'a word) OR push_bit (w - 1) (of_nat (v div ?k))"
      using word_of_nat_shift [of "v mod ?k" "w - 1" "v div ?k"] by simp
    then have v: "push_bit stride (of_nat v :: 'a word) = push_bit stride (of_nat (v mod ?k)) OR
        push_bit (stride + (w - 1)) (of_nat (v div ?k))"
      by (simp only: push_bit_or push_bit_push_bit)
    show ?thesis
      unfolding step v or.assoc [symmetric] using IH bs1(3) by simp
  qed
qed

lemma length_vbr_bits_le: "stream_ok bs \<Longrightarrow> stream_bits bs = vbr_bits w v @ rest \<Longrightarrow>
    length (vbr_bits w v) \<le> bits_left bs + 2"
  by (simp add: bits_left_eq)



text \<open>The same for \<open>read_vbr64\<close> and 64-bit values, which record operands are read with.\<close>

theorem read_vbr64_roundtrip:
  assumes "stream_ok bs" and "2 \<le> w" and "w \<le> 32" and "v < 2 ^ 64"
    and "stream_bits bs = vbr_bits w v @ rest" and "8 \<le> length rest"
  shows "\<exists>bs'. read_vbr64 bs w = Inr (of_nat v, bs') \<and> stream_ok bs' \<and> stream_bits bs' = rest"
  using vbr_loop_decodes [where ?'a = 64, of bs w v rest 0 "bits_left bs + 2" 0] assms
    length_vbr_bits_le [OF assms(1,5)]
  by (auto simp: read_vbr64_def)

definition example_stream :: bcbitstream where
  "example_stream = \<lparr>rdata = [0x65, 0x21, 0x43, 0x87], bytes_length = 4, bytes_offset = 0, remain = 0, tmp = 0\<rparr>"

lemma example_stream_ok: "stream_ok example_stream"
  by (simp add: stream_ok_def example_stream_def)



theorem read_vbr64_roundtrip_witness:
  "\<exists>bs'. read_vbr64 example_stream 6 = Inr (of_nat 165, bs') \<and> stream_ok bs' \<and>
     stream_bits bs' = drop 12 (stream_bits example_stream)"
proof (rule read_vbr64_roundtrip [OF example_stream_ok])
  show "stream_bits example_stream = vbr_bits 6 165 @ drop 12 (stream_bits example_stream)"
    by code_simp
  show "8 \<le> length (drop 12 (stream_bits example_stream))" by code_simp
qed simp_all

subsection \<open>Termination\<close>

lemma read_bits_loop_bits_left:
  "read_bits_loop bs n off r = Inr (x, bs') \<Longrightarrow> x = 0 \<or> bits_left bs' + n = bits_left bs"
proof (induction n arbitrary: bs off r rule: less_induct)
  case (less n)
  show ?case
  proof (cases "0 < n \<and> bytes_offset bs < bytes_length bs")
    case True
    define bs1 where "bs1 = refill bs"
    define p where "p = min n (remain bs1)"
    have p: "0 < p" "p \<le> n" and left: "bits_left (consume p bs1) + p = bits_left bs"
      using True by (auto simp: bits_left_def consume_def refill_def bs1_def p_def)
    have "off < 32"
      using less.prems True by (auto simp: read_bits_loop.simps [of bs n] Let_def split: if_splits)
    then have "read_bits_loop (consume p bs1) (n - p) (off + p)
        (r OR push_bit off (of_nat (unat (tmp bs1) mod 2 ^ p))) = Inr (x, bs')"
      using less.prems True by (simp add: read_bits_loop_step Let_def bs1_def p_def)
    from less.IH [OF _ this] p left show ?thesis by auto
  next
    case False
    with less.prems show ?thesis
      by (auto simp: read_bits_loop.simps [of bs n] split: if_splits)
  qed
qed

lemma read_bits_loop_defined: "off + n \<le> 32 \<Longrightarrow> \<exists>x bs'. read_bits_loop bs n off r = Inr (x, bs')"
proof (induction bs n off r rule: read_bits_loop.induct)
  case (1 bs n off r)
  show ?case
  proof (cases "0 < n \<and> bytes_offset bs < bytes_length bs")
    case True
    with "1.prems" "1.IH" show ?thesis
      by (auto simp: read_bits_loop.simps [of bs n] Let_def)
  next
    case False
    then show ?thesis by (auto simp: read_bits_loop.simps [of bs n])
  qed
qed

lemma vbr_loop_defined:
  assumes "1 \<le> w" and "w \<le> 32" and "bits_left bs < fuel"
  shows "vbr_loop fuel bs w stride ret \<noteq> Inl Undefined_behaviour"
  using assms(3)
proof (induction fuel arbitrary: bs stride ret)
  case 0
  then show ?case by simp
next
  case (Suc fuel)
  obtain x bs' where rd: "read_bits bs w = Inr (x, bs')"
    using read_bits_loop_defined [of 0 w bs 0] assms(2) by (auto simp: read_bits_def)
  then have "x = 0 \<or> bits_left bs' + w = bits_left bs"
    using read_bits_loop_bits_left by (simp add: read_bits_def)
  then have "bits_left bs' < fuel" if "push_bit (w - 1) 1 AND x \<noteq> 0"
    using that Suc.prems assms(1) by auto
  with rd Suc.IH [of bs'] show ?case
    by (auto simp: Let_def c_assert_def)
qed

text \<open>
  C30. \<open>read_vbr\<close> and \<open>read_vbr64\<close> always come back on chunks of 1 to 32 bits, whatever the
  stream holds: they return a number or stop at the assertion on the stride, and the number
  of rounds is bounded by the bits left.
\<close>

theorem read_vbr_terminates:
  assumes "1 \<le> w" and "w \<le> 32"
  shows "read_vbr bs w \<noteq> Inl Undefined_behaviour \<and> read_vbr64 bs w \<noteq> Inl Undefined_behaviour"
  using assms vbr_loop_defined [where ?'a = 32, of w bs "bits_left bs + 2" 0 0]
    vbr_loop_defined [where ?'a = 64, of w bs "bits_left bs + 2" 0 0]
  by (simp add: read_vbr_def read_vbr64_def)

theorem read_vbr_terminates_witness:
  "read_vbr (example_stream\<lparr>rdata := [255, 255, 255, 255]\<rparr>) 1 \<noteq> Inl Undefined_behaviour \<and>
   read_vbr64 (example_stream\<lparr>rdata := [255, 255, 255, 255]\<rparr>) 1 \<noteq> Inl Undefined_behaviour"
  by (rule read_vbr_terminates) simp_all

text \<open>
  Bits of the last byte are lost: once that byte has been fetched, every further field
  reads as 0 and nothing is consumed, although \<open>remain\<close> bits of it have not been delivered.
\<close>

theorem read_bits_last_byte_lost:
  assumes "bytes_offset bs \<ge> bytes_length bs" and "0 < n"
  shows "read_bits bs n = Inr (0, bs)"
  using assms by (simp add: read_bits_def read_bits_loop.simps [of bs n])

theorem read_bits_last_byte_lost_witness:
  "(\<exists>bs. read_bits (example_stream\<lparr>rdata := [0xff], bytes_length := 1\<rparr>) 4 = Inr (15, bs) \<and>
     stream_bits bs = [True, True, True, True] \<and> read_bits bs 4 = Inr (0, bs))"
proof -
  let ?bs = "\<lparr>rdata = [0xff], bytes_length = 1, bytes_offset = 1, remain = 4, tmp = 0xf\<rparr>"
  have "read_bits (example_stream\<lparr>rdata := [0xff], bytes_length := 1\<rparr>) 4 = Inr (15, ?bs)"
    by code_simp
  moreover have "stream_bits ?bs = [True, True, True, True]" by code_simp
  moreover have "read_bits ?bs 4 = Inr (0, ?bs)"
    by (rule read_bits_last_byte_lost) simp_all
  ultimately show ?thesis by blast
qed

subsection \<open>Alignment and operands\<close>

lemma align_offset: "nat ((int n + 3) AND NOT 3) = 4 * ((n + 3) div 4)"
proof -
  have "(int n + 3) AND NOT 3 = 4 * ((int n + 3) div 4)"
    using neg_mask_eq_div [of "int n + 3" 2] by (simp add: mask_eq_exp_minus_1)
  also have "\<dots> = int (4 * ((n + 3) div 4))"
    by (simp add: zdiv_int)
  finally show ?thesis by (simp only: nat_int)
qed

lemma align_bits32_spec:
  "stream_ok bs \<Longrightarrow> stream_ok (align_bits32 bs)" "remain (align_bits32 bs) = 0"
  "4 dvd bytes_offset (align_bits32 bs)" "bytes_offset bs \<le> bytes_offset (align_bits32 bs)"
  "bytes_offset (align_bits32 bs) < bytes_offset bs + 4"
  unfolding align_bits32_def align_offset by (auto simp: stream_ok_def)

text \<open>The writer's side: the sign is the lowest bit, and the least integer is written as 1.\<close>

definition emit_signed :: "u64 \<Rightarrow> ir_arg" where
  "emit_signed v = (if 0 \<le> sint v then push_bit 1 v else push_bit 1 (- v) OR 1)"

lemma not_bit_63_iff: "\<not> bit (v::u64) 63 \<longleftrightarrow> 0 \<le> sint v"
  using bit_last_iff [of v] by auto

lemma bit_push_one: "bit (push_bit 1 (v::u64)) n \<longleftrightarrow> 1 \<le> n \<and> n < 64 \<and> bit v (n - 1)"
  unfolding bit_push_bit_iff possible_bit_word by simp

lemma shift_back:
  fixes v :: u64
  assumes "\<not> bit v 63"
  shows "drop_bit 1 (push_bit 1 v) = v" and "drop_bit 1 (push_bit 1 v OR 1) = v"
proof -
  have "\<not> bit v n" if "\<not> n < 63" for n
    using that assms bit_imp_le_length [of v n] by (cases "n = 63") auto
  then have *: "bit (push_bit 1 v) (1 + n) \<longleftrightarrow> bit v n" for n
    unfolding bit_push_one by auto
  show "drop_bit 1 (push_bit 1 v) = v"
    by (rule bit_word_eqI) (simp only: bit_drop_bit_eq comp_apply *)
  show "drop_bit 1 (push_bit 1 v OR 1) = v"
    by (rule bit_word_eqI) (simp only: bit_drop_bit_eq comp_apply bit_or_iff bit_1_iff *, simp)
qed

lemma sint_least_64: "sint (v::u64) = - (2 ^ 63) \<Longrightarrow> v = push_bit 63 1"
proof -
  assume "sint v = - (2 ^ 63)"
  moreover have "sint (push_bit 63 1 :: u64) = - (2 ^ 63)" by code_simp
  ultimately show ?thesis
    by (metis signed_word_eqI)
qed

text \<open>
  \<open>read_sign_rotated\<close> inverts the sign-rotated encoding of integer constants for every
  64-bit value, the most negative one included.
\<close>

lemma read_sign_rotated_roundtrip: "read_sign_rotated (emit_signed v) = v"
proof (cases "0 \<le> sint v")
  case True
  moreover have "push_bit 1 v AND 1 = 0"
    by (rule bit_word_eqI) (simp only: bit_and_iff bit_push_one bit_1_iff bit_0_eq, auto)
  ultimately show ?thesis
    using shift_back(1) [of v] by (simp add: emit_signed_def read_sign_rotated_def not_bit_63_iff)
next
  case False
  let ?e = "push_bit 1 (- v) OR 1"
  have odd: "?e AND 1 \<noteq> 0"
    by (auto simp: bit_eq_iff bit_simps bit_1_iff intro!: exI [of _ 0])
  show ?thesis
  proof (cases "sint v = - (2 ^ 63)")
    case True
    then have "v = push_bit 63 1" by (rule sint_least_64)
    moreover have "read_sign_rotated (emit_signed (push_bit 63 1)) = push_bit 63 1" by code_simp
    ultimately show ?thesis by (simp only:)
  next
    case least: False
    have "- (2 ^ 63) \<le> sint v"
      using sint_greater_eq [of v] by simp
    with False least have "signed_take_bit 63 (- sint v) = - sint v"
      by (intro signed_take_bit_int_eq_self) auto
    then have "sint (- v) = - sint v"
      by (simp add: sint_word_ariths)
    with False have "drop_bit 1 ?e = - v"
      by (intro shift_back(2)) (simp add: not_bit_63_iff)
    moreover from this False have "?e \<noteq> 1"
      by (auto simp: drop_bit_eq_div)
    ultimately show ?thesis
      using False odd by (simp add: emit_signed_def read_sign_rotated_def)
  qed
qed

text \<open>
  \<open>read_zstr_from_argv\<close> reads the characters before the first zero operand and moves past
  it; with no terminator among the operands it reports failure.
\<close>

theorem read_zstr_from_argv_spec:
  assumes "0 \<notin> set xs"
  shows "read_zstr_from_argv (xs @ 0 # ys) = Some (map ucast xs, ys) \<and> read_zstr_from_argv xs = None"
proof -
  have "argv_zero_index (xs @ 0 # zs) = length xs" "argv_zero_index xs = length xs" for zs
    using assms by (induction xs) auto
  then show ?thesis by (simp add: read_zstr_from_argv_def)
qed

theorem read_zstr_from_argv_spec_witness:
  "read_zstr_from_argv ([104, 105] @ 0 # [7]) = Some (map ucast [104 :: ir_arg, 105], [7]) \<and>
   read_zstr_from_argv [104, 105] = None"
  by (rule read_zstr_from_argv_spec) simp

end
