(* ===== verification/Vmir_Type.thy ===== *)
theory Vmir_Type
  imports Vmir_Bitstream
begin

text \<open>
  The type table of a module, \<open>src/src/vmir_type.c\<close>: the types, lookup, size and alignment,
  the records of a TYPE block, and the layout of structures. The vector \<open>iu_types\<close> is the
  list of its elements (\<open>vector_list\<close> of \<open>Vmir_Support\<close>); an index is the 32-bit value the code
  uses it with. Fields of a structure that the code has not written yet are \<open>None\<close>, and reading
  one is undefined behaviour.

  \<open>type_sizeof_ptr\<close> and \<open>type_alignment_ptr\<close> recurse through array types and
  \<open>type_struct_layout\<close> through structures. A malformed module can make them recurse forever. The
  model bounds the depth by the number of types: a longer chain visits a type twice, so the
  recursion of the C code does not end, and the model reports \<open>Stack_overflow\<close>.
\<close>

section \<open>Types\<close>

datatype ir_type_code = IR_TYPE_STRUCT | IR_TYPE_VOID | IR_TYPE_INT1 | IR_TYPE_INT8 | IR_TYPE_INT16
  | IR_TYPE_INT32 | IR_TYPE_INT64 | IR_TYPE_INTx | IR_TYPE_FLOAT | IR_TYPE_DOUBLE | IR_TYPE_ARRAY
  | IR_TYPE_POINTER | IR_TYPE_FUNCTION | IR_TYPE_METADATA | IR_TYPE_LABEL | IR_TYPE_OPAQUE

record ir_struct =
  st_name :: "u8 list option"
  st_elements :: "(u32 \<times> int option) list"
  st_size :: "int option"
  st_alignment :: "int option"
  st_packed :: bool
  st_computed :: bool

datatype ir_type = It_struct ir_struct | It_void | It_int1 | It_int8 | It_int16 | It_int32 | It_int64
  | It_intx int | It_float | It_double | It_array u32 u32 | It_pointer u32
  | It_function u32 "u32 list" u32 | It_metadata | It_label | It_opaque

fun it_code :: "ir_type \<Rightarrow> ir_type_code" where
  "it_code (It_struct _) = IR_TYPE_STRUCT" | "it_code It_void = IR_TYPE_VOID" | "it_code It_int1 = IR_TYPE_INT1"
| "it_code It_int8 = IR_TYPE_INT8" | "it_code It_int16 = IR_TYPE_INT16" | "it_code It_int32 = IR_TYPE_INT32"
| "it_code It_int64 = IR_TYPE_INT64" | "it_code (It_intx _) = IR_TYPE_INTx" | "it_code It_float = IR_TYPE_FLOAT"
| "it_code It_double = IR_TYPE_DOUBLE" | "it_code (It_array _ _) = IR_TYPE_ARRAY"
| "it_code (It_pointer _) = IR_TYPE_POINTER" | "it_code (It_function _ _ _) = IR_TYPE_FUNCTION"
| "it_code It_metadata = IR_TYPE_METADATA" | "it_code It_label = IR_TYPE_LABEL" | "it_code It_opaque = IR_TYPE_OPAQUE"

type_synonym types = "ir_type list"

record type_state =
  iu_types :: types
  iu_types_created :: bool
  iu_current_struct_name :: "u8 list option"

section \<open>Lookup\<close>

definition type_get :: "types \<Rightarrow> u32 \<Rightarrow> ir_type result" where
  "type_get tys i = (if length tys \<le> unat i then Inl (Parser_error ''Bad type index'') else Inr (tys ! unat i))"

definition type_get_pointee :: "types \<Rightarrow> u32 \<Rightarrow> u32 result" where
  "type_get_pointee tys i =
     res_bind (type_get tys i) (\<lambda>it.
       case it of
         It_pointer p \<Rightarrow>
           if p = - 1 then Inl (Parser_error ''Attempting to dereference void pointer'') else Inr p
       | _ \<Rightarrow> Inl (Parser_error ''Type is not a pointer''))"

text \<open>The first index, from \<open>k\<close> on, whose type satisfies \<open>P\<close>.\<close>

fun find_index :: "(ir_type \<Rightarrow> bool) \<Rightarrow> nat \<Rightarrow> types \<Rightarrow> nat option" where
  "find_index P k [] = None"
| "find_index P k (t # ts) = (if P t then Some k else find_index P (Suc k) ts)"

text \<open>A type the code creates from its code alone; the union stays uninitialised.\<close>

fun bare_type :: "ir_type_code \<Rightarrow> ir_type result" where
  "bare_type IR_TYPE_VOID = Inr It_void" | "bare_type IR_TYPE_INT1 = Inr It_int1"
| "bare_type IR_TYPE_INT8 = Inr It_int8" | "bare_type IR_TYPE_INT16 = Inr It_int16"
| "bare_type IR_TYPE_INT32 = Inr It_int32" | "bare_type IR_TYPE_INT64 = Inr It_int64"
| "bare_type IR_TYPE_FLOAT = Inr It_float" | "bare_type IR_TYPE_DOUBLE = Inr It_double"
| "bare_type IR_TYPE_METADATA = Inr It_metadata" | "bare_type IR_TYPE_LABEL = Inr It_label"
| "bare_type IR_TYPE_OPAQUE = Inr It_opaque" | "bare_type _ = Inl Undefined_behaviour"

definition type_make :: "type_state \<Rightarrow> ir_type_code \<Rightarrow> (nat \<times> type_state) result" where
  "type_make ts code =
     (case find_index (\<lambda>t. it_code t = code) 0 (iu_types ts) of
        Some i \<Rightarrow> Inr (i, ts)
      | None \<Rightarrow>
          res_bind (bare_type code) (\<lambda>it.
            Inr (length (iu_types ts), ts\<lparr>iu_types := iu_types ts @ [it], iu_types_created := True\<rparr>)))"

text \<open>\<open>None\<close> is the result \<open>-1\<close>.\<close>

definition type_make_pointer :: "type_state \<Rightarrow> u32 \<Rightarrow> bool \<Rightarrow> nat option \<times> type_state" where
  "type_make_pointer ts ty may_create =
     (case find_index (\<lambda>t. t = It_pointer ty) 0 (iu_types ts) of
        Some i \<Rightarrow> (Some i, ts)
      | None \<Rightarrow>
          if \<not> may_create then (None, ts)
          else (Some (length (iu_types ts)),
                ts\<lparr>iu_types := iu_types ts @ [It_pointer ty], iu_types_created := True\<rparr>))"

definition type_find_by_code :: "types \<Rightarrow> ir_type_code \<Rightarrow> nat result" where
  "type_find_by_code tys code =
     (case find_index (\<lambda>t. it_code t = code) 0 tys of
        Some i \<Rightarrow> Inr i
      | None \<Rightarrow> Inl (Parser_error ''Unable to find type class''))"

section \<open>Size and alignment\<close>

definition uninit :: "int option \<Rightarrow> u32 result" where
  "uninit x = (case x of None \<Rightarrow> Inl Undefined_behaviour | Some v \<Rightarrow> Inr (word_of_int v))"

text \<open>The cases of the two \<open>switch\<close>es that do not recurse; arrays are \<open>None\<close>.\<close>

fun flat_sizeof :: "ir_type \<Rightarrow> u32 result" where
  "flat_sizeof It_void = Inr 0" | "flat_sizeof It_int1 = Inr 1" | "flat_sizeof It_int8 = Inr 1"
| "flat_sizeof It_int16 = Inr 2" | "flat_sizeof It_int32 = Inr 4" | "flat_sizeof It_float = Inr 4"
| "flat_sizeof It_int64 = Inr 8" | "flat_sizeof It_double = Inr 8"
| "flat_sizeof (It_intx b) =
    (if b \<le> 32 then Inr 4 else if b \<le> 64 then Inr 8 else Inl (Parser_error ''Unable to compute size of type''))"
| "flat_sizeof (It_pointer _) = Inr 4"
| "flat_sizeof (It_struct s) = uninit (st_size s)"
| "flat_sizeof _ = Inl (Parser_error ''Unable to compute size of type'')"

fun flat_alignment :: "ir_type \<Rightarrow> u32 result" where
  "flat_alignment It_void = Inr 0" | "flat_alignment It_int1 = Inr 1" | "flat_alignment It_int8 = Inr 1"
| "flat_alignment It_int16 = Inr 2" | "flat_alignment It_int32 = Inr 4" | "flat_alignment It_float = Inr 4"
| "flat_alignment It_int64 = Inr 8" | "flat_alignment It_double = Inr 8"
| "flat_alignment (It_intx b) =
    (if b \<le> 32 then Inr 4 else if b \<le> 64 then Inr 8 else Inl (Parser_error ''Unable to compute alignment for type''))"
| "flat_alignment (It_pointer _) = Inr 4"
| "flat_alignment (It_struct s) = uninit (st_alignment s)"
| "flat_alignment _ = Inl (Parser_error ''Unable to compute alignment for type'')"

fun type_sizeof_ptr :: "nat \<Rightarrow> types \<Rightarrow> ir_type \<Rightarrow> u32 result" where
  "type_sizeof_ptr 0 tys it = (case it of It_array _ _ \<Rightarrow> Inl Stack_overflow | _ \<Rightarrow> flat_sizeof it)"
| "type_sizeof_ptr (Suc n) tys it =
    (case it of
       It_array num el \<Rightarrow>
         res_bind (type_get tys el) (\<lambda>t. res_bind (type_sizeof_ptr n tys t) (\<lambda>s. Inr (s * num)))
     | _ \<Rightarrow> flat_sizeof it)"

definition type_sizeof :: "types \<Rightarrow> u32 \<Rightarrow> u32 result" where
  "type_sizeof tys i = res_bind (type_get tys i) (type_sizeof_ptr (length tys) tys)"

fun type_alignment_ptr :: "nat \<Rightarrow> types \<Rightarrow> ir_type \<Rightarrow> u32 result" where
  "type_alignment_ptr 0 tys it = (case it of It_array _ _ \<Rightarrow> Inl Stack_overflow | _ \<Rightarrow> flat_alignment it)"
| "type_alignment_ptr (Suc n) tys it =
    (case it of
       It_array num el \<Rightarrow> res_bind (type_get tys el) (type_alignment_ptr n tys)
     | _ \<Rightarrow> flat_alignment it)"

definition type_alignment :: "types \<Rightarrow> u32 \<Rightarrow> u32 result" where
  "type_alignment tys i = res_bind (type_get tys i) (type_alignment_ptr (length tys) tys)"

fun type_code_mask :: "ir_type_code \<Rightarrow> u32" where
  "type_code_mask IR_TYPE_INT1 = 0xff" | "type_code_mask IR_TYPE_INT8 = 0xff"
| "type_code_mask IR_TYPE_INT16 = 0xffff" | "type_code_mask _ = 0xffffffff"

fun type_bitwidth :: "ir_type \<Rightarrow> int result" where
  "type_bitwidth It_void = Inr 0" | "type_bitwidth It_int1 = Inr 1" | "type_bitwidth It_int8 = Inr 8"
| "type_bitwidth It_int16 = Inr 16" | "type_bitwidth It_int32 = Inr 32" | "type_bitwidth It_int64 = Inr 64"
| "type_bitwidth (It_intx b) = Inr b"
| "type_bitwidth _ = Inl (Parser_error ''Unable to compute bitwidth of type'')"

definition legalize_type :: "ir_type \<Rightarrow> ir_type_code" where
  "legalize_type ty =
     (case ty of
        It_intx b \<Rightarrow>
          if b \<le> 8 then IR_TYPE_INT8 else if b \<le> 16 then IR_TYPE_INT16 else if b \<le> 32 then IR_TYPE_INT32
          else if b \<le> 64 then IR_TYPE_INT64 else IR_TYPE_INTx
      | _ \<Rightarrow> it_code ty)"

section \<open>Records of a TYPE block\<close>

definition arg :: "ir_arg list \<Rightarrow> nat \<Rightarrow> ir_arg result" where
  "arg argv i = (if i < length argv then Inr (argv ! i) else Inl Undefined_behaviour)"

definition push_type :: "type_state \<Rightarrow> ir_type \<Rightarrow> type_state" where
  "push_type ts it = ts\<lparr>iu_types := iu_types ts @ [it]\<rparr>"

text \<open>\<open>TYPE_CODE_INTEGER\<close>: the width is a signed 64-bit operand.\<close>

definition int_type :: "ir_arg \<Rightarrow> ir_type result" where
  "int_type w =
     (if w = 1 then Inr It_int1 else if w = 8 then Inr It_int8 else if w = 16 then Inr It_int16
      else if w = 32 then Inr It_int32 else if w = 64 then Inr It_int64
      else if sint w < 64 then Inr (It_intx (sint (ucast w :: u32)))
      else Inl (Parser_error ''types: Integer width not supported''))"

definition struct_type :: "u8 list option \<Rightarrow> ir_arg list \<Rightarrow> ir_type result" where
  "struct_type name argv =
     res_bind (arg argv 0) (\<lambda>packed.
       Inr (It_struct \<lparr>st_name = name, st_elements = map (\<lambda>a. (ucast a, None)) (tl argv), st_size = None,
         st_alignment = None, st_packed = (packed \<noteq> 0), st_computed = False\<rparr>))"

text \<open>The operations are the constants \<open>TYPE_CODE_*\<close> of \<open>bitcode.h\<close>.\<close>

definition types_new_rec_handler :: "type_state \<Rightarrow> nat \<Rightarrow> ir_arg list \<Rightarrow> type_state result" where
  "types_new_rec_handler ts op argv =
     res_bind (c_assert (\<not> iu_types_created ts)) (\<lambda>_.
       if op = 1 then res_bind (parser_check (1 \<le> length argv) ''types: Short NUMENTRY record'') (\<lambda>_. Inr ts)
       else if op = 2 then Inr (push_type ts It_void)
       else if op = 3 then Inr (push_type ts It_float)
       else if op = 4 then Inr (push_type ts It_double)
       else if op = 7 then
         res_bind (arg argv 0) (\<lambda>w. res_bind (int_type w) (\<lambda>t. Inr (push_type ts t)))
       else if op = 11 then
         res_bind (arg argv 0) (\<lambda>n. res_bind (arg argv 1) (\<lambda>e. Inr (push_type ts (It_array (ucast n) (ucast e)))))
       else if op = 19 then Inr (ts\<lparr>iu_current_struct_name := Some (read_str_from_argv argv)\<rparr>)
       else if op = 20 then
         res_bind (struct_type (iu_current_struct_name ts) argv) (\<lambda>t.
           Inr (push_type (ts\<lparr>iu_current_struct_name := None\<rparr>) t))
       else if op = 18 then res_bind (struct_type None argv) (\<lambda>t. Inr (push_type ts t))
       else if op = 8 then res_bind (arg argv 0) (\<lambda>p. Inr (push_type ts (It_pointer (ucast p))))
       else if op = 21 then
         res_bind (parser_check (2 \<le> length argv) ''types: Invalid # of args for function type'') (\<lambda>_.
           Inr (push_type ts (It_function (ucast (argv ! 0)) (map ucast (drop 2 argv)) (ucast (argv ! 1)))))
       else if op = 16 then Inr (push_type ts It_metadata)
       else if op = 5 then Inr (push_type ts It_label)
       else if op = 6 then Inr (push_type ts It_opaque)
       else Inl (Parser_error ''types: Unknown op''))"

section \<open>Layout of structures\<close>

definition align_int :: "int \<Rightarrow> int \<Rightarrow> int result" where
  "align_int off a =
     (case c_int (off + a - 1) of None \<Rightarrow> Inl Undefined_behaviour | Some _ \<Rightarrow> Inr (VMIR_ALIGN off a))"

definition add_int :: "int \<Rightarrow> int \<Rightarrow> int result" where
  "add_int x y = (case c_int (x + y) of None \<Rightarrow> Inl Undefined_behaviour | Some z \<Rightarrow> Inr z)"

definition set_offset :: "types \<Rightarrow> nat \<Rightarrow> nat \<Rightarrow> int \<Rightarrow> types" where
  "set_offset tys idx i off =
     (case tys ! idx of
        It_struct s \<Rightarrow> tys[idx := It_struct (s\<lparr>st_elements :=
          (st_elements s)[i := (fst (st_elements s ! i), Some off)]\<rparr>)]
      | _ \<Rightarrow> tys)"

definition set_layout :: "types \<Rightarrow> nat \<Rightarrow> int \<Rightarrow> int \<Rightarrow> types" where
  "set_layout tys idx sz al =
     (case tys ! idx of
        It_struct s \<Rightarrow> tys[idx := It_struct (s\<lparr>st_size := Some sz, st_alignment := Some al, st_computed := True\<rparr>)]
      | _ \<Rightarrow> tys)"

definition uncomputed :: "ir_type \<Rightarrow> bool" where
  "uncomputed t = (case t of It_struct s \<Rightarrow> \<not> st_computed s | _ \<Rightarrow> False)"

text \<open>Offset and biggest alignment after one element of size \<open>s\<close> has been placed.\<close>

definition place :: "bool \<Rightarrow> int \<Rightarrow> int \<Rightarrow> u32 result \<Rightarrow> (int \<times> int) result" where
  "place packed off ba al =
     (if packed then Inr (off, ba)
      else res_bind al (\<lambda>a. res_bind (align_int off (sint a)) (\<lambda>off'. Inr (off', VMIR_MAX ba (sint a)))))"

function (sequential) type_struct_layout :: "nat \<Rightarrow> types \<Rightarrow> nat \<Rightarrow> types result"
  and layout_elems :: "nat \<Rightarrow> types \<Rightarrow> nat \<Rightarrow> bool \<Rightarrow> nat \<Rightarrow> u32 list \<Rightarrow> int \<Rightarrow> int \<Rightarrow> (types \<times> int \<times> int) result" where
  "type_struct_layout 0 tys idx = Inl Stack_overflow"
| "type_struct_layout (Suc n) tys idx =
    (case tys ! idx of
       It_struct st \<Rightarrow>
         res_bind (layout_elems n tys idx (st_packed st) 0 (map fst (st_elements st)) 0 1) (\<lambda>(tys', off, ba).
           res_bind (if st_packed st then Inr off else align_int off ba) (\<lambda>sz.
             Inr (set_layout tys' idx sz ba)))
     | _ \<Rightarrow> Inl Undefined_behaviour)"
| "layout_elems n tys idx packed i [] off ba = Inr (tys, off, ba)"
| "layout_elems n tys idx packed i (t # ts) off ba =
    res_bind (type_get tys t) (\<lambda>ty.
      res_bind (if uncomputed ty then type_struct_layout n tys (unat t) else Inr tys) (\<lambda>tys1.
        res_bind (type_sizeof_ptr (length tys1) tys1 (tys1 ! unat t)) (\<lambda>s.
          res_bind (place packed off ba (type_alignment_ptr (length tys1) tys1 (tys1 ! unat t))) (\<lambda>(off1, ba1).
            res_bind (add_int off1 (sint s)) (\<lambda>off2.
              layout_elems n (set_offset tys1 idx i off1) idx packed (Suc i) ts off2 ba1)))))"
  by pat_completeness auto
termination
  by (relation "inv_image (less_than <*lex*> less_than)
        (\<lambda>x. case x of Inl (n, _, _) \<Rightarrow> (2 * n, 0) | Inr (n, _, _, _, _, ts, _, _) \<Rightarrow> (Suc (2 * n), length ts))") auto

text \<open>A struct is laid out once for every index; recursion deeper than the table is a cycle.\<close>

fun finalize_from :: "types \<Rightarrow> nat list \<Rightarrow> types result" where
  "finalize_from tys [] = Inr tys"
| "finalize_from tys (i # is) =
    (if uncomputed (tys ! i)
     then res_bind (type_struct_layout (length tys) tys i) (\<lambda>tys'. finalize_from tys' is)
     else finalize_from tys is)"

definition types_finalize :: "type_state \<Rightarrow> type_state result" where
  "types_finalize ts =
     res_bind (finalize_from (iu_types ts) [0..<length (iu_types ts)]) (\<lambda>tys. Inr (ts\<lparr>iu_types := tys\<rparr>))"

end
