(* ===== verification/Vmir_Value.thy ===== *)
theory Vmir_Value
  imports Vmir_Type Vmir_Alu
begin

text \<open>
  The translation unit and its values: the structs of \<open>src/src/vmir.c\<close> and the operations of
  \<open>src/src/vmir_value.c\<close>. The vector \<open>iu_values\<close> is a list of pointers, \<open>None\<close> for \<open>NULL\<close>; a
  value is named by its index. The union of a value is read according to its class, so class and
  union are one datatype, \<open>value_class\<close>; a constant is the 64-bit member of the union, and the
  32-bit member its low half. Functions are named by their index \<open>if_gfid\<close>.

  The links between values and instructions (\<open>iv_instructions\<close>) and the printing of values are not
  part of this theory. \<open>eval_constexpr\<close> recurses through constant expressions; the model bounds
  the depth by the number of values, since a deeper recursion of the C code meets a value it is
  already evaluating and never ends (\<open>Stack_overflow\<close>).
\<close>

section \<open>Values\<close>

datatype ir_constexpr =
    Ce_cast (cast_op: u32) (cast_src: u32)
  | Ce_gep "u32 list"
  | Ce_binop u32 u32 u32
  | Ce_cmp u32 u32 u32 u32

record ir_globalvar =
  ig_type :: u32
  ig_name :: "u8 list option"
  ig_addr :: u32
  ig_size :: u32

datatype value_class =
    Vc_undef
  | Vc_function nat
  | Vc_globalvar ir_globalvar
  | Vc_constant u64
  | Vc_temporary
  | Vc_regframe int
  | Vc_machinereg int
  | Vc_data "u8 list"
  | Vc_ce ir_constexpr
  | Vc_aggregate "(u32 \<times> u32) list"
  | Vc_alias u32
  | Vc_zero_initializer
  | Vc_dead

text \<open>The numbers of the enumerations, which \<open>COMBINE3\<close> packs together.\<close>

fun class_num :: "value_class \<Rightarrow> u32" where
  "class_num Vc_undef = 0" | "class_num (Vc_function _) = 1" | "class_num (Vc_globalvar _) = 2"
| "class_num (Vc_constant _) = 3" | "class_num Vc_temporary = 4" | "class_num (Vc_regframe _) = 5"
| "class_num (Vc_machinereg _) = 6" | "class_num (Vc_data _) = 7" | "class_num (Vc_ce _) = 8"
| "class_num (Vc_aggregate _) = 9" | "class_num (Vc_alias _) = 10" | "class_num Vc_zero_initializer = 11"
| "class_num Vc_dead = 12"

fun type_num :: "ir_type_code \<Rightarrow> u32" where
  "type_num IR_TYPE_STRUCT = 0" | "type_num IR_TYPE_VOID = 1" | "type_num IR_TYPE_INT1 = 2"
| "type_num IR_TYPE_INT8 = 3" | "type_num IR_TYPE_INT16 = 4" | "type_num IR_TYPE_INT32 = 5"
| "type_num IR_TYPE_INT64 = 6" | "type_num IR_TYPE_INTx = 7" | "type_num IR_TYPE_FLOAT = 8"
| "type_num IR_TYPE_DOUBLE = 9" | "type_num IR_TYPE_ARRAY = 10" | "type_num IR_TYPE_POINTER = 11"
| "type_num IR_TYPE_FUNCTION = 12" | "type_num IR_TYPE_METADATA = 13" | "type_num IR_TYPE_LABEL = 14"
| "type_num IR_TYPE_OPAQUE = 15"

definition COMBINE3 :: "u32 \<Rightarrow> u32 \<Rightarrow> u32 \<Rightarrow> u32" where
  "COMBINE3 a b c = push_bit 16 a OR push_bit 8 b OR c"

record ir_value =
  iv_class :: value_class
  iv_name :: "u8 list option"
  iv_type :: u32
  iv_edges :: int
  iv_precolored :: int

text \<open>A value fresh from \<open>calloc\<close>.\<close>

definition new_value :: ir_value where
  "new_value = \<lparr>iv_class = Vc_undef, iv_name = None, iv_type = 0, iv_edges = 0, iv_precolored = 0\<rparr>"

section \<open>The unit\<close>

record ir_function =
  if_type :: u32
  if_name :: "u8 list option"
  if_isproto :: bool
  if_regframe_size :: int
  if_callarg_size :: int
  if_vmop :: nat
  if_vmop_args :: nat
  if_ext_func :: "nat option"

datatype ir_abbrev_operand =
    IAOT_LITTERAL u32 | IAOT_FIXED_WIDTH u32 | IAOT_VBR u32 | IAOT_ARRAY | IAOT_CHAR6 | IAOT_BLOB

type_synonym ir_abbrev = "ir_abbrev_operand list"

record ir_block =
  ib_scoped_abbrevs :: "ir_abbrev list"
  ib_blockinfo :: "u32 option"

record ir_attr =
  ia_group_id :: u32
  ia_index :: u32
  ia_flags :: u64

text \<open>
  \<open>iu_blockinfos\<close> is the list of block ids with their abbreviations, the latest first; a pointer to
  an entry is its id. \<open>iu_blocks\<close> is the stack of open blocks, the innermost first.
\<close>

record ir_unit =
  iu_ts :: type_state
  iu_values :: "ir_value option list"
  iu_next_value :: nat
  iu_first_func_value :: nat
  iu_functions :: "ir_function list"
  iu_functions_with_bodies :: "nat list"
  iu_current_function :: "nat option"
  iu_data_ptr :: u32
  iu_initializers :: "(nat \<times> u32) list"
  iu_current_type :: u32
  iu_version :: u32
  iu_triple :: "u8 list option"
  iu_vstoffset :: u32
  iu_attribute_groups :: "ir_attr list"
  iu_attrsets :: "ir_attr list list"
  iu_blockinfos :: "(u32 \<times> ir_abbrev list) list"
  iu_blocks :: "ir_block list"

section \<open>The table of values\<close>

definition set_value :: "ir_unit \<Rightarrow> nat \<Rightarrow> ir_value \<Rightarrow> ir_unit" where
  "set_value iu i iv = iu\<lparr>iu_values := (iu_values iu)[i := Some iv]\<rparr>"

text \<open>The index and the unit; the value itself is at that index.\<close>

definition value_append :: "ir_unit \<Rightarrow> (nat \<times> ir_unit) result" where
  "value_append iu =
     (let i = iu_next_value iu
      in if i = length (iu_values iu)
         then Inr (i, iu\<lparr>iu_values := iu_values iu @ [Some new_value], iu_next_value := i + 1\<rparr>)
         else res_bind (c_assert (i < length (iu_values iu))) (\<lambda>_.
           Inr (i, (if iu_values iu ! i = None then set_value iu i new_value else iu)\<lparr>iu_next_value := i + 1\<rparr>)))"

definition value_resize :: "ir_unit \<Rightarrow> nat \<Rightarrow> ir_unit result" where
  "value_resize iu newsize =
     res_bind (c_assert (newsize \<le> length (iu_values iu))) (\<lambda>_.
       Inr (iu\<lparr>iu_values := take newsize (iu_values iu) @ replicate (length (iu_values iu) - newsize) None,
         iu_next_value := newsize\<rparr>))"

text \<open>\<open>value_get\<close> returns a pointer; every use dereferences it, which is undefined for \<open>NULL\<close>.\<close>

definition value_get :: "ir_unit \<Rightarrow> u32 \<Rightarrow> ir_value option result" where
  "value_get iu i =
     (if length (iu_values iu) \<le> unat i then Inl (Parser_error ''Bad value index'')
      else Inr (iu_values iu ! unat i))"

definition deref :: "'a option \<Rightarrow> 'a result" where
  "deref p = (case p of None \<Rightarrow> Inl Undefined_behaviour | Some x \<Rightarrow> Inr x)"

definition value_at :: "ir_unit \<Rightarrow> u32 \<Rightarrow> ir_value result" where
  "value_at iu i = res_bind (value_get iu i) deref"

definition value_reg :: "ir_value \<Rightarrow> u32 result" where
  "value_reg iv = (case iv_class iv of Vc_regframe r \<Rightarrow> Inr (word_of_int r) | _ \<Rightarrow> Inl Assertion_failed)"

text \<open>\<open>None\<close> is the \<open>NULL\<close> result; the comparison of \<open>int\<close> with \<open>size_t\<close> is unsigned.\<close>

definition value_function :: "ir_unit \<Rightarrow> u32 \<Rightarrow> nat option result" where
  "value_function iu i =
     (if length (iu_values iu) \<le> unat i then Inr None
      else res_bind (deref (iu_values iu ! unat i)) (\<lambda>iv.
        case iv_class iv of Vc_function f \<Rightarrow> Inr (Some f) | _ \<Rightarrow> Inr None))"

definition value_function_addr :: "ir_value \<Rightarrow> u32 result" where
  "value_function_addr iv = (case iv_class iv of Vc_function f \<Rightarrow> Inr (of_nat f) | _ \<Rightarrow> Inl Assertion_failed)"

definition value_alloc_temporary :: "ir_unit \<Rightarrow> u32 \<Rightarrow> ((nat \<times> u32) \<times> ir_unit) result" where
  "value_alloc_temporary iu ty =
     res_bind (value_append iu) (\<lambda>(i, iu1).
       res_bind (deref (iu_values iu1 ! i)) (\<lambda>iv.
         Inr ((i, ty), set_value iu1 i (iv\<lparr>iv_class := Vc_temporary, iv_precolored := - 1, iv_type := ty\<rparr>))))"

definition value_regframe_slots :: "types \<Rightarrow> u32 \<Rightarrow> int result" where
  "value_regframe_slots tys ty =
     res_bind (type_get tys ty) (\<lambda>it.
       case it of
         It_int1 \<Rightarrow> Inr 1 | It_int8 \<Rightarrow> Inr 1 | It_int16 \<Rightarrow> Inr 1 | It_int32 \<Rightarrow> Inr 1 | It_float \<Rightarrow> Inr 1
       | It_pointer _ \<Rightarrow> Inr 1 | It_function _ _ _ \<Rightarrow> Inr 1
       | It_int64 \<Rightarrow> Inr 2 | It_double \<Rightarrow> Inr 2
       | It_intx b \<Rightarrow> Inr (if b \<le> 32 then 1 else 2)
       | _ \<Rightarrow> Inl (Parser_error ''Can't determine regframe slots''))"

definition value_regframe_size :: "types \<Rightarrow> u32 \<Rightarrow> int result" where
  "value_regframe_size tys ty = res_bind (value_regframe_slots tys ty) (\<lambda>n. Inr (n * 4))"

text \<open>The arguments of a function lie below the register frame, at negative offsets.\<close>

definition value_alloc_function_arg :: "ir_unit \<Rightarrow> u32 \<Rightarrow> ir_unit result" where
  "value_alloc_function_arg iu ty =
     res_bind (value_append iu) (\<lambda>(i, iu1).
       res_bind (deref (iu_values iu1 ! i)) (\<lambda>iv.
         res_bind (deref (iu_current_function iu1)) (\<lambda>f.
           res_bind (value_regframe_size (iu_types (iu_ts iu1)) ty) (\<lambda>sz.
             let fn = iu_functions iu1 ! f; off = if_callarg_size fn - sz
             in Inr (set_value (iu1\<lparr>iu_functions := (iu_functions iu1)[f := fn\<lparr>if_callarg_size := off\<rparr>]\<rparr>) i
                  (iv\<lparr>iv_class := Vc_regframe off, iv_type := ty\<rparr>))))))"

fun function_args :: "ir_unit \<Rightarrow> u32 list \<Rightarrow> ir_unit result" where
  "function_args iu [] = Inr iu"
| "function_args iu (t # ts) = res_bind (value_alloc_function_arg iu t) (\<lambda>iu'. function_args iu' ts)"

definition function_prepare_parse :: "ir_unit \<Rightarrow> nat \<Rightarrow> ir_unit result" where
  "function_prepare_parse iu f =
     (let fn = (iu_functions iu ! f)\<lparr>if_regframe_size := 8, if_callarg_size := 0\<rparr>;
          iu1 = iu\<lparr>iu_functions := (iu_functions iu)[f := fn]\<rparr>
      in res_bind (type_get (iu_types (iu_ts iu1)) (if_type fn)) (\<lambda>it.
           case it of It_function _ ps _ \<Rightarrow> function_args iu1 ps | _ \<Rightarrow> Inl Undefined_behaviour))"

section \<open>Constants\<close>

definition value_get_const32 :: "types \<Rightarrow> ir_value \<Rightarrow> u32 result" where
  "value_get_const32 tys iv =
     res_bind (type_get tys (iv_type iv)) (\<lambda>it.
       case iv_class iv of
         Vc_globalvar ig \<Rightarrow> Inr (ig_addr ig)
       | Vc_constant v \<Rightarrow>
           (case it of
              It_int1 \<Rightarrow> Inr (if (ucast v :: u32) \<noteq> 0 then 1 else 0)
            | It_int8 \<Rightarrow> Inr (ucast v) | It_int16 \<Rightarrow> Inr (ucast v) | It_int32 \<Rightarrow> Inr (ucast v)
            | It_pointer _ \<Rightarrow> Inr (ucast v) | It_float \<Rightarrow> Inr (ucast v)
            | It_intx _ \<Rightarrow> Inr (ucast v) | It_int64 \<Rightarrow> Inr (ucast v) | It_double \<Rightarrow> Inr (ucast v)
            | _ \<Rightarrow> Inl (Parser_error ''Unable to value_get_const''))
       | _ \<Rightarrow> Inl (Parser_error ''Unable to value_get_const''))"

definition value_get_const :: "types \<Rightarrow> ir_value \<Rightarrow> u32 result" where
  "value_get_const tys iv =
     res_bind (type_get tys (iv_type iv)) (\<lambda>it.
       case iv_class iv of
         Vc_globalvar ig \<Rightarrow> Inr (ig_addr ig)
       | Vc_constant v \<Rightarrow>
           (case it of
              It_int1 \<Rightarrow> Inr (if (ucast v :: u32) \<noteq> 0 then 1 else 0)
            | It_int8 \<Rightarrow> Inr (ucast v AND type_code_mask IR_TYPE_INT8)
            | It_int16 \<Rightarrow> Inr (ucast v AND type_code_mask IR_TYPE_INT16)
            | It_int32 \<Rightarrow> Inr (ucast v AND type_code_mask IR_TYPE_INT32)
            | It_pointer _ \<Rightarrow> Inr (ucast v AND type_code_mask IR_TYPE_POINTER)
            | It_float \<Rightarrow> Inr (ucast v AND type_code_mask IR_TYPE_FLOAT)
            | It_intx _ \<Rightarrow> Inr (ucast v) | It_int64 \<Rightarrow> Inr (ucast v) | It_double \<Rightarrow> Inr (ucast v)
            | _ \<Rightarrow> Inl (Parser_error ''Unable to value_get_const''))
       | _ \<Rightarrow> Inl (Parser_error ''Unable to value_get_const''))"

definition value_get_const64 :: "types \<Rightarrow> ir_value \<Rightarrow> u64 result" where
  "value_get_const64 tys iv =
     (case iv_class iv of
        Vc_constant v \<Rightarrow>
          res_bind (type_get tys (iv_type iv)) (\<lambda>it.
            case it of
              It_int1 \<Rightarrow> Inr (if (ucast v :: u32) \<noteq> 0 then 1 else 0)
            | It_int8 \<Rightarrow> Inr (ucast (ucast v :: u32)) | It_int16 \<Rightarrow> Inr (ucast (ucast v :: u32))
            | It_int32 \<Rightarrow> Inr (ucast (ucast v :: u32)) | It_pointer _ \<Rightarrow> Inr (ucast (ucast v :: u32))
            | It_intx _ \<Rightarrow> Inr v | It_int64 \<Rightarrow> Inr v | It_double \<Rightarrow> Inr v
            | _ \<Rightarrow> Inl (Parser_error ''Unable to get_constant''))
      | _ \<Rightarrow> Inl Assertion_failed)"

text \<open>A constant whose 32-bit member has been written.\<close>

definition const32 :: "u32 \<Rightarrow> value_class" where
  "const32 v = Vc_constant (ucast v)"

definition value_create_const32 :: "ir_unit \<Rightarrow> u32 \<Rightarrow> ((nat \<times> u32) \<times> ir_unit) result" where
  "value_create_const32 iu v =
     res_bind (type_find_by_code (iu_types (iu_ts iu)) IR_TYPE_INT32) (\<lambda>ty.
       res_bind (value_append iu) (\<lambda>(i, iu1).
         res_bind (deref (iu_values iu1 ! i)) (\<lambda>iv.
           Inr ((i, of_nat ty), set_value iu1 i (iv\<lparr>iv_class := const32 v, iv_type := of_nat ty\<rparr>)))))"

definition value_create_zero :: "ir_unit \<Rightarrow> u32 \<Rightarrow> ((nat \<times> u32) \<times> ir_unit) result" where
  "value_create_zero iu ty =
     res_bind (value_append iu) (\<lambda>(i, iu1).
       res_bind (deref (iu_values iu1 ! i)) (\<lambda>iv.
         Inr ((i, ty), set_value iu1 i (iv\<lparr>iv_class := Vc_constant 0, iv_type := ty\<rparr>))))"

section \<open>Constant expressions\<close>

definition c_opt :: "'a option \<Rightarrow> 'a result" where
  "c_opt x = (case x of None \<Rightarrow> Inl Undefined_behaviour | Some v \<Rightarrow> Inr v)"

text \<open>The \<open>switch\<close> of \<open>CST_CODE_CE_BINOP\<close> over the operation; \<open>None\<close> is its default.\<close>

definition ce_binop :: "u32 \<Rightarrow> u32 \<Rightarrow> u32 \<Rightarrow> u32 result option" where
  "ce_binop op l r =
     (if op = 0 then Some (Inr (l + r))
      else if op = 1 then Some (Inr (l - r))
      else if op = 2 then Some (Inr (l * r))
      else if op = 3 then Some (if r = 0 then Inl Undefined_behaviour else Inr (l div r))
      else if op = 4 then
        Some (if r = 0 then Inl Undefined_behaviour else c_opt (map_option word_of_int (c_int (sint l sdiv sint r))))
      else if op = 5 then Some (if r = 0 then Inl Undefined_behaviour else Inr (l mod r))
      else if op = 6 then
        Some (if r = 0 \<or> c_int (sint l sdiv sint r) = None then Inl Undefined_behaviour
              else Inr (word_of_int (sint l smod sint r)))
      else if op = 7 then Some (if 32 \<le> unat r then Inl Undefined_behaviour else Inr (push_bit (unat r) l))
      else if op = 8 then Some (if 32 \<le> unat r then Inl Undefined_behaviour else Inr (drop_bit (unat r) l))
      else if op = 9 then
        Some (if 32 \<le> unat r then Inl Undefined_behaviour else Inr (word_of_int (drop_bit (unat r) (sint l))))
      else if op = 10 then Some (Inr (l AND r))
      else if op = 11 then Some (Inr (l OR r))
      else if op = 12 then Some (Inr (l XOR r))
      else None)"

definition ce_cmp :: "u32 \<Rightarrow> u32 \<Rightarrow> u32 \<Rightarrow> bool option" where
  "ce_cmp pred l r =
     (if pred = 32 then Some (l = r)
      else if pred = 33 then Some (l \<noteq> r)
      else if pred = 34 then Some (uint l > uint r)
      else if pred = 35 then Some (uint l \<ge> uint r)
      else if pred = 36 then Some (uint l < uint r)
      else if pred = 37 then Some (uint l \<le> uint r)
      else if pred = 38 then Some (sint l > sint r)
      else if pred = 39 then Some (sint l \<ge> sint r)
      else if pred = 40 then Some (sint l < sint r)
      else if pred = 41 then Some (sint l \<le> sint r)
      else None)"

text \<open>The loop of the address computation over the indices after the first.\<close>

fun ce_gep :: "ir_unit \<Rightarrow> u32 \<Rightarrow> u32 \<Rightarrow> u32 list \<Rightarrow> (u32 \<times> u32) result" where
  "ce_gep iu addr ty [] = Inr (addr, ty)"
| "ce_gep iu addr ty (v # vs) =
    (let tys = iu_types (iu_ts iu) in
     res_bind (type_get tys ty) (\<lambda>curtype.
       res_bind (value_at iu v) (\<lambda>curval.
         res_bind (value_get_const32 tys curval) (\<lambda>x.
           case curtype of
             It_pointer p \<Rightarrow> res_bind (type_sizeof tys p) (\<lambda>sz. ce_gep iu (addr + x * sz) p vs)
           | It_struct st \<Rightarrow>
               if int (length (st_elements st)) \<le> sint x then Inl (Parser_error ''Bad index into struct'')
               else if sint x < 0 then Inl Undefined_behaviour
               else (case st_elements st ! unat x of
                       (t, None) \<Rightarrow> Inl Undefined_behaviour
                     | (t, Some off) \<Rightarrow> ce_gep iu (addr + word_of_int off) t vs)
           | It_array n e \<Rightarrow> res_bind (type_sizeof tys e) (\<lambda>sz. ce_gep iu (addr + x * sz) e vs)
           | _ \<Rightarrow> Inl (Parser_error ''Unable to handle type in constexpr GEP'')))))"

text \<open>
  The cast of \<open>CST_CODE_CE_CAST\<close> once its operand is known: class, type and union of the result.
  A cast number that does not fit its byte of \<open>COMBINE3\<close> overflows the shift in \<open>int\<close>
  from \<open>2^23\<close> on.
\<close>

definition ce_cast :: "types \<Rightarrow> u32 \<Rightarrow> ir_type_code \<Rightarrow> ir_value \<Rightarrow> ir_value \<Rightarrow> ir_value result" where
  "ce_cast tys op tc src iv =
     (let key = COMBINE3 (type_num tc) op (class_num (iv_class src));
          const = (\<lambda>v. Inr (iv\<lparr>iv_class := const32 v\<rparr>))
      in if 2 ^ 23 \<le> unat op then Inl Undefined_behaviour
         else if key = COMBINE3 (type_num IR_TYPE_POINTER) 10 3 then
           (case iv_class src of Vc_constant v \<Rightarrow> const (ucast v) | _ \<Rightarrow> Inl Undefined_behaviour)
         else if key \<in> {COMBINE3 (type_num IR_TYPE_POINTER) 11 2, COMBINE3 (type_num IR_TYPE_POINTER) 11 3} then
           res_bind (value_get_const32 tys src) const
         else if key = COMBINE3 (type_num IR_TYPE_POINTER) 11 1 then
           Inr (iv\<lparr>iv_class := iv_class src, iv_type := iv_type src\<rparr>)
         else if key \<in> {COMBINE3 (type_num IR_TYPE_INT32) 9 3, COMBINE3 (type_num IR_TYPE_INT32) 9 2,
                        COMBINE3 (type_num IR_TYPE_INT8) 9 3, COMBINE3 (type_num IR_TYPE_INT8) 9 2} then
           res_bind (value_get_const32 tys src) const
         else if key = COMBINE3 (type_num IR_TYPE_INT32) 9 1 then
           res_bind (value_function_addr src) const
         else Inl (Parser_error ''Unable to constant-cast''))"

text \<open>An alias is followed once. Its target may not be the value under evaluation.\<close>

definition ce_cast_source :: "ir_unit \<Rightarrow> nat \<Rightarrow> u32 \<Rightarrow> ir_value result" where
  "ce_cast_source iu i src =
     res_bind (value_at iu src) (\<lambda>s.
       case iv_class s of
         Vc_alias t \<Rightarrow> if unat t = i then Inl Undefined_behaviour else value_at iu t
       | _ \<Rightarrow> Inr s)"

fun eval_constexpr :: "nat \<Rightarrow> ir_unit \<Rightarrow> nat \<Rightarrow> ir_constexpr \<Rightarrow> ir_unit result"
  and eval_operand :: "nat \<Rightarrow> ir_unit \<Rightarrow> u32 \<Rightarrow> ir_unit result" where
  "eval_constexpr n iu i ce =
    (let tys = iu_types (iu_ts iu) in
     res_bind (deref (iu_values iu ! i)) (\<lambda>iv.
       case ce of
         Ce_cast op src \<Rightarrow>
           res_bind (type_get tys (iv_type iv)) (\<lambda>it.
             res_bind (eval_operand n iu src) (\<lambda>iu1.
               res_bind (ce_cast_source iu1 i src) (\<lambda>s.
                 res_bind (ce_cast (iu_types (iu_ts iu1)) op (it_code it) s iv) (\<lambda>iv1.
                   Inr (set_value iu1 i iv1)))))
       | Ce_binop op lhs rhs \<Rightarrow>
           res_bind (value_at iu lhs) (\<lambda>lv.
             res_bind (value_at iu rhs) (\<lambda>rv.
               res_bind (type_get tys (iv_type iv)) (\<lambda>it.
                 if it_code it \<in> {IR_TYPE_INT8, IR_TYPE_INT32, IR_TYPE_POINTER} then
                   res_bind (value_get_const32 tys lv) (\<lambda>l.
                     res_bind (value_get_const32 tys rv) (\<lambda>r.
                       case ce_binop op l r of
                         None \<Rightarrow> Inl (Parser_error ''Unable to handle opcode in constant binop'')
                       | Some x \<Rightarrow> res_bind x (\<lambda>v. Inr (set_value iu i (iv\<lparr>iv_class := const32 v\<rparr>)))))
                 else Inl (Parser_error ''Unable to handle constant binop''))))
       | Ce_cmp opty lhs rhs pred \<Rightarrow>
           res_bind (value_at iu lhs) (\<lambda>lv.
             res_bind (value_at iu rhs) (\<lambda>rv.
               res_bind (type_get tys opty) (\<lambda>it.
                 if it_code it \<in> {IR_TYPE_INT32, IR_TYPE_POINTER} then
                   res_bind (value_get_const32 tys lv) (\<lambda>l.
                     res_bind (value_get_const32 tys rv) (\<lambda>r.
                       case ce_cmp pred l r of
                         None \<Rightarrow> Inl (Parser_error ''Unable to handle opcode in constant cmp'')
                       | Some b \<Rightarrow> Inr (set_value iu i (iv\<lparr>iv_class := const32 (if b then 1 else 0)\<rparr>))))
                 else Inl (Parser_error ''Unable to handle constant cmp''))))
       | Ce_gep [] \<Rightarrow> Inl Undefined_behaviour
       | Ce_gep (v # vs) \<Rightarrow>
           res_bind (eval_operand n iu v) (\<lambda>iu1.
             res_bind (value_at iu1 v) (\<lambda>base.
               res_bind (value_get_const32 (iu_types (iu_ts iu1)) base) (\<lambda>a.
                 res_bind (ce_gep iu1 a (iv_type base) vs) (\<lambda>(addr, ty).
                   case type_make_pointer (iu_ts iu1) ty True of
                     (None, _) \<Rightarrow> Inl Undefined_behaviour
                   | (Some p, ts1) \<Rightarrow>
                       Inr (set_value (iu1\<lparr>iu_ts := ts1\<rparr>) i
                         (iv\<lparr>iv_class := const32 addr, iv_type := of_nat p\<rparr>))))))))"
| "eval_operand n iu src =
    res_bind (value_at iu src) (\<lambda>s.
      case iv_class s of
        Vc_ce ce \<Rightarrow> (case n of 0 \<Rightarrow> Inl Stack_overflow | Suc m \<Rightarrow> eval_constexpr m iu (unat src) ce)
      | _ \<Rightarrow> Inr iu)"

declare eval_constexpr.simps [simp del] eval_operand.simps [simp del]

fun eval_constexprs_from :: "ir_unit \<Rightarrow> nat list \<Rightarrow> ir_unit result" where
  "eval_constexprs_from iu [] = Inr iu"
| "eval_constexprs_from iu (i # is) =
    res_bind (deref (iu_values iu ! i)) (\<lambda>iv.
      case iv_class iv of
        Vc_ce ce \<Rightarrow> res_bind (eval_constexpr (length (iu_values iu)) iu i ce) (\<lambda>iu'. eval_constexprs_from iu' is)
      | _ \<Rightarrow> eval_constexprs_from iu is)"

definition eval_constexprs :: "ir_unit \<Rightarrow> ir_unit result" where
  "eval_constexprs iu = eval_constexprs_from iu [0..<iu_next_value iu]"

end
