(* ===== verification/Vmir_Value_Props.thy ===== *)
theory Vmir_Value_Props
  imports Vmir_Value
begin

text \<open>
  Constant folding against the interpreter: \<open>eval_constexpr\<close> and \<open>alu\<close> model two separate pieces of C
  code for the same LLVM operations.
\<close>

lemma c_int_sdiv:
  fixes l r :: u32
  assumes "r \<noteq> 0"
  shows "c_int (sint l sdiv sint r) =
    (if sint l = - (2 ^ 31) \<and> sint r = - 1 then None else Some (sint l sdiv sint r))"
proof -
  define a b where "a = sint l" and "b = sint r"
  have a: "- (2 ^ 31) \<le> a" "a < 2 ^ 31"
    using sint_greater_eq [of l] sint_less [of l] by (auto simp: a_def)
  have b: "b \<noteq> 0" using assms by (simp add: b_def signed_eq_0_iff)
  show ?thesis
  proof (cases "a = - (2 ^ 31)")
    case True
    show ?thesis
    proof (cases "\<bar>b\<bar> = 1")
      case True
      with \<open>a = - (2 ^ 31)\<close> have "b = 1 \<or> b = - 1" by auto
      then show ?thesis using \<open>a = - (2 ^ 31)\<close>
        by (auto simp: a_def [symmetric] b_def [symmetric] c_int_def signed_divide_int_def)
    next
      case False
      with b have b2: "2 \<le> \<bar>b\<bar>" by auto
      have "\<bar>a\<bar> div \<bar>b\<bar> \<le> \<bar>a\<bar> div 2" using b2 by (intro zdiv_mono2) auto
      also have "\<dots> < 2 ^ 31" using a by auto
      finally have "\<bar>a\<bar> div \<bar>b\<bar> < 2 ^ 31" .
      moreover have "0 \<le> \<bar>a\<bar> div \<bar>b\<bar>" by (simp add: pos_imp_zdiv_nonneg_iff b)
      ultimately have "c_int (a sdiv b) = Some (a sdiv b)"
        by (auto simp: c_int_def signed_divide_int_def sgn_if)
      with False show ?thesis by (auto simp: a_def [symmetric] b_def [symmetric])
    qed
  next
    case False
    with sdiv_int_range [of a b] a have "c_int (a sdiv b) = Some (a sdiv b)" by (auto simp: c_int_def)
    with False show ?thesis by (auto simp: a_def [symmetric] b_def [symmetric])
  qed
qed

lemma ce_binop_alu:
  "ce_binop (of_nat (BINOP b)) l r = Some (case alu b l r of None \<Rightarrow> Inl Undefined_behaviour | Some v \<Rightarrow> Inr v)"
proof (cases b)
  case SDIV
  then show ?thesis by (cases "r = 0") (simp_all add: ce_binop_def c_int_sdiv c_opt_def)
next
  case SREM
  then show ?thesis by (cases "r = 0") (simp_all add: ce_binop_def c_int_sdiv)
next
  case ASHR
  have "word_of_int (drop_bit (unat r) (sint l)) = signed_drop_bit (unat r) l"
    by (simp only: sint_signed_drop_bit_eq [symmetric] of_int_sint scast_id)
  with ASHR show ?thesis by (simp add: ce_binop_def)
qed (auto simp: ce_binop_def)

text \<open>A constant the folder may use: of a 32-bit type, or the address of a global variable.\<close>

definition const32_of :: "ir_unit \<Rightarrow> u32 \<Rightarrow> u32 \<Rightarrow> bool" where
  "const32_of iu i v = (\<exists>iv. value_at iu i = Inr iv \<and> value_get_const32 (iu_types (iu_ts iu)) iv = Inr v)"

text \<open>
  C16. A constant binary expression of type i32 or pointer folds to exactly what the interpreter would
  compute for the same operation on the same operands, and is undefined exactly where the
  interpreter's expression is.
\<close>

theorem constant_fold_agrees:
  assumes "iu_values iu ! i = Some iv" and "type_get (iu_types (iu_ts iu)) (iv_type iv) = Inr it"
    and "it = It_int32 \<or> (\<exists>p. it = It_pointer p)"
    and "const32_of iu lhs l" and "const32_of iu rhs r"
  shows "eval_constexpr n iu i (Ce_binop (of_nat (BINOP b)) lhs rhs) =
    (case alu b l r of None \<Rightarrow> Inl Undefined_behaviour
     | Some v \<Rightarrow> Inr (set_value iu i (iv\<lparr>iv_class := const32 v\<rparr>)))"
proof -
  have "it_code it \<in> {IR_TYPE_INT8, IR_TYPE_INT32, IR_TYPE_POINTER}" using assms(3) by auto
  with assms ce_binop_alu [of b l r] show ?thesis
    by (cases "alu b l r") (auto simp: eval_constexpr.simps const32_of_def deref_def)
qed

lemma ce_cmp_icmp: "ce_cmp (of_nat (ICMP c)) l r = Some (vm_icmp c l r)"
  by (cases c) (simp_all add: ce_cmp_def)

definition fold_unit :: ir_unit where
  "fold_unit = \<lparr>iu_ts = \<lparr>iu_types = [It_int32, It_int8], iu_types_created = False, iu_current_struct_name = None\<rparr>,
     iu_values = map (\<lambda>(c, t). Some (new_value\<lparr>iv_class := c, iv_type := t\<rparr>))
       [(Vc_constant 0xffffffff, 0), (Vc_constant 2, 0), (Vc_ce (Ce_binop 4 0 1), 0),
        (Vc_constant 0xffffffff, 1), (Vc_constant 2, 1), (Vc_ce (Ce_binop 3 3 4), 1)],
     iu_next_value = 6, iu_first_func_value = 0, iu_functions = [], iu_functions_with_bodies = [],
     iu_current_function = None, iu_data_ptr = 4096, iu_initializers = [], iu_current_type = 0, iu_version = 0,
     iu_triple = None, iu_vstoffset = 0, iu_attribute_groups = [], iu_attrsets = [], iu_blockinfos = [], iu_blocks = []\<rparr>"

theorem constant_fold_agrees_witness:
  "eval_constexpr 0 fold_unit 2 (Ce_binop (of_nat (BINOP SDIV)) 0 1) =
     Inr (set_value fold_unit 2 (new_value\<lparr>iv_class := const32 0\<rparr>))"
proof -
  have "eval_constexpr 0 fold_unit 2 (Ce_binop (of_nat (BINOP SDIV)) 0 1) =
    (case alu SDIV (0xffffffff :: u32) 2 of None \<Rightarrow> Inl Undefined_behaviour
     | Some v \<Rightarrow> Inr (set_value fold_unit 2 ((new_value\<lparr>iv_class := Vc_ce (Ce_binop 4 0 1)\<rparr>)\<lparr>iv_class := const32 v\<rparr>)))"
    by (rule constant_fold_agrees [of _ _ _ It_int32])
      (simp_all add: fold_unit_def type_get_def const32_of_def value_at_def value_get_def deref_def value_get_const32_def new_value_def)
  moreover have "alu SDIV (0xffffffff :: u32) 2 = Some 0" by code_simp
  ultimately show ?thesis by simp
qed

text \<open>
  Constants of type i8 are kept sign extended to 32 bits, and the folder divides these: it folds
  \<open>udiv i8 255, 2\<close> to 255 instead of 127.
\<close>

theorem fold_i8_udiv_wrong:
  "eval_constexprs fold_unit = Inr (set_value (set_value fold_unit 2 (new_value\<lparr>iv_class := const32 0\<rparr>)) 5
      (new_value\<lparr>iv_class := const32 0x7fffffff, iv_type := 1\<rparr>)) \<and>
   uint (ucast (0x7fffffff :: u32) :: u8) = 255 \<and>
   llvm_binop 8 UDIV (uint (ucast (0xffffffff :: u32) :: u8)) (uint (ucast (2 :: u32) :: u8)) = Some 127"
  by (intro conjI; code_simp)

end
