(* ===== verification/Vmir_Module.thy ===== *)
theory Vmir_Module
  imports Vmir_Value Vmir_Mem
begin

text \<open>
  The record handlers of \<open>src/src/vmir_bitcode_parser.c\<close>: global variables, functions and aliases of
  a module, attributes, symbol names and constants. A handler gets the unit, the record code and
  the operands and returns the unit or the error the parser stops with. Resolving the name of a
  function against the table of built-in instructions is \<open>vmop_resolve\<close> of \<open>src/src/vmir_vm.c\<close>; the
  resolver of external functions is installed by the embedding program and is a parameter.

  Reading an operand a record does not have is undefined behaviour.
\<close>

section \<open>Block information\<close>

text \<open>The entry of a block id, created empty when there is none.\<close>

definition blockinfo_find :: "ir_unit \<Rightarrow> u32 \<Rightarrow> ir_unit" where
  "blockinfo_find iu i =
     (if map_of (iu_blockinfos iu) i \<noteq> None then iu
      else iu\<lparr>iu_blockinfos := (i, []) # iu_blockinfos iu\<rparr>)"

definition blockinfo_rec_handler :: "ir_unit \<Rightarrow> u32 \<Rightarrow> ir_arg list \<Rightarrow> ir_unit result" where
  "blockinfo_rec_handler iu op argv =
     (if op = 1 then
        res_bind (parser_check (length argv = 1) ''Bad number of args for SETBID'') (\<lambda>_.
          case iu_blocks iu of
            [] \<Rightarrow> Inl Undefined_behaviour
          | b # bs \<Rightarrow>
              let i = ucast (argv ! 0)
              in Inr ((blockinfo_find iu i)\<lparr>iu_blocks := b\<lparr>ib_blockinfo := Some i\<rparr> # bs\<rparr>))
      else Inr iu)"

section \<open>Module records\<close>

definition append_value :: "ir_unit \<Rightarrow> value_class \<Rightarrow> u32 \<Rightarrow> (nat \<times> ir_unit) result" where
  "append_value iu c ty =
     res_bind (value_append iu) (\<lambda>(i, iu1).
       res_bind (deref (iu_values iu1 ! i)) (\<lambda>iv.
         Inr (i, set_value iu1 i (iv\<lparr>iv_class := c, iv_type := ty\<rparr>))))"

text \<open>The type of a global variable: its pointer type and the type pointed to.\<close>

definition globalvar_type :: "ir_unit \<Rightarrow> ir_arg list \<Rightarrow> (u32 \<times> u32) result" where
  "globalvar_type iu argv =
     (if argv ! 1 AND 2 \<noteq> 0 then
        (let pointee = ucast (argv ! 0) in
         case type_make_pointer (iu_ts iu) pointee False of
           (None, _) \<Rightarrow> Inl (Parser_error ''No pointer type for pointee'')
         | (Some t, _) \<Rightarrow> Inr (of_nat t, pointee))
      else
        (let t = ucast (argv ! 0) in
         res_bind (type_get_pointee (iu_types (iu_ts iu)) t) (\<lambda>p. Inr (t, p))))"

definition module_globalvar :: "ir_unit \<Rightarrow> ir_arg list \<Rightarrow> ir_unit result" where
  "module_globalvar iu argv =
     res_bind (parser_check (6 \<le> length argv) ''Bad number of args for global var def'') (\<lambda>_.
       res_bind (globalvar_type iu argv) (\<lambda>(ty, pointee).
         res_bind (vmir_llvm_alignment (sint (ucast (argv ! 4) :: u32)) 4) (\<lambda>align.
           res_bind (c_assert (align > 0)) (\<lambda>_.
             let addr = VMIR_ALIGN (iu_data_ptr iu) (word_of_int align) in
             res_bind (type_sizeof (iu_types (iu_ts iu)) pointee) (\<lambda>sz.
               res_bind (append_value iu
                  (Vc_globalvar \<lparr>ig_type = pointee, ig_name = None, ig_addr = addr, ig_size = sz\<rparr>) ty)
                 (\<lambda>(i, iu1).
                   let iu2 = iu1\<lparr>iu_data_ptr := addr + sz\<rparr>; init = ucast (argv ! 2) :: u32
                   in Inr (if init > 0
                           then iu2\<lparr>iu_initializers := iu_initializers iu2 @ [(i, init - 1)]\<rparr>
                           else iu2)))))))"

definition new_function :: "u32 \<Rightarrow> bool \<Rightarrow> ir_function" where
  "new_function ty isproto = \<lparr>if_type = ty, if_name = None, if_isproto = isproto, if_regframe_size = 0,
     if_callarg_size = 0, if_vmop = 0, if_vmop_args = 0, if_ext_func = None\<rparr>"

definition module_function :: "ir_unit \<Rightarrow> ir_arg list \<Rightarrow> ir_unit result" where
  "module_function iu argv =
     res_bind (parser_check (8 \<le> length argv) ''Bad number of args'') (\<lambda>_.
       res_bind (type_get (iu_types (iu_ts iu)) (ucast (argv ! 0))) (\<lambda>it.
         let ty = (case it of It_pointer p \<Rightarrow> p | _ \<Rightarrow> ucast (argv ! 0));
             isproto = (argv ! 2 \<noteq> 0);
             gfid = length (iu_functions iu);
             iu1 = iu\<lparr>iu_functions := iu_functions iu @ [new_function ty isproto],
                      iu_functions_with_bodies :=
                        iu_functions_with_bodies iu @ (if isproto then [] else [gfid])\<rparr>
         in res_bind (append_value iu1 (Vc_function gfid) ty) (\<lambda>(_, iu2). Inr iu2)))"

definition module_alias :: "ir_unit \<Rightarrow> ir_arg list \<Rightarrow> ir_unit result" where
  "module_alias iu argv =
     res_bind (parser_check (3 \<le> length argv) ''Bad number of args'') (\<lambda>_.
       res_bind (append_value iu (Vc_alias (ucast (argv ! 1))) (ucast (argv ! 0))) (\<lambda>(_, iu1). Inr iu1))"

definition module_vstoffset :: "ir_unit \<Rightarrow> ir_arg list \<Rightarrow> ir_unit result" where
  "module_vstoffset iu argv =
     res_bind (parser_check (length argv = 1) ''Bad number of args'') (\<lambda>_.
       Inr (iu\<lparr>iu_vstoffset := ucast (argv ! 0)\<rparr>))"

definition module_rec_handler :: "ir_unit \<Rightarrow> u32 \<Rightarrow> ir_arg list \<Rightarrow> ir_unit result" where
  "module_rec_handler iu op argv =
     (if op = 1 then res_bind (arg argv 0) (\<lambda>v. Inr (iu\<lparr>iu_version := ucast v\<rparr>))
      else if op = 2 then Inr (iu\<lparr>iu_triple := Some (read_str_from_argv argv)\<rparr>)
      else if op = 3 then Inr iu
      else if op = 7 then module_globalvar iu argv
      else if op = 8 then module_function iu argv
      else if op = 9 then module_alias iu argv
      else if op = 13 then module_vstoffset iu argv
      else if op = 12 \<or> op = 15 then Inr iu
      else Inl (Parser_error ''Unknown module code''))"

section \<open>Attributes\<close>

lemma read_zstr_shorter: "read_zstr_from_argv as = Some (s, r) \<Longrightarrow> length r < length as"
proof -
  assume *: "read_zstr_from_argv as = Some (s, r)"
  then have "as \<noteq> []" by (auto simp: read_zstr_from_argv_def)
  with * show ?thesis by (auto simp: read_zstr_from_argv_def Let_def split: if_splits)
qed

text \<open>
  The loop over the attributes of a group. An integer attribute takes two operands after its kind
  but only one is checked for: with one operand left the unsigned count wraps and the loop reads on
  past the record.
\<close>

function attr_loop :: "u64 \<Rightarrow> ir_arg list \<Rightarrow> u64 result" where
  "attr_loop flags [] = Inr flags"
| "attr_loop flags [k] = Inl (Parser_error ''PARAMATTR_GRP_CODE_ENTRY: Short record'')"
| "attr_loop flags (k # a # as) =
    (let kind = ucast k :: u32 in
     if kind = 0 then
       if 64 \<le> unat a then Inl Undefined_behaviour else attr_loop (flags OR push_bit (unat a) 1) as
     else if kind = 1 then
       if as = [] then Inl Undefined_behaviour else attr_loop flags (tl as)
     else if kind = 3 then
       (case read_zstr_from_argv (a # as) of
          None \<Rightarrow> Inl (Parser_error ''PARAMATTR_GRP_CODE_ENTRY: short string'')
        | Some (_, r) \<Rightarrow> attr_loop flags r)
     else if kind = 4 then
       (case read_zstr_from_argv (a # as) of
          None \<Rightarrow> Inl (Parser_error ''PARAMATTR_GRP_CODE_ENTRY: short string'')
        | Some (_, r) \<Rightarrow>
            (case read_zstr_from_argv r of
               None \<Rightarrow> Inl (Parser_error ''PARAMATTR_GRP_CODE_ENTRY: short string'')
             | Some (_, r') \<Rightarrow> attr_loop flags r'))
     else Inl (Parser_error ''PARAMATTR_GRP_CODE_ENTRY: Unknown attr''))"
  by pat_completeness auto
termination
  by (relation "measure (\<lambda>(_, as). length as)") (auto dest!: read_zstr_shorter)

definition paramattr_group_rec_handler :: "ir_unit \<Rightarrow> u32 \<Rightarrow> ir_arg list \<Rightarrow> ir_unit result" where
  "paramattr_group_rec_handler iu op argv =
     (if op = 3 then
        res_bind (parser_check (3 \<le> length argv) ''PARAMATTR_GRP_CODE_ENTRY: Short'') (\<lambda>_.
          res_bind (attr_loop 0 (drop 2 argv)) (\<lambda>flags.
            Inr (iu\<lparr>iu_attribute_groups :=
              \<lparr>ia_group_id = ucast (argv ! 0), ia_index = ucast (argv ! 1), ia_flags = flags\<rparr>
                # iu_attribute_groups iu\<rparr>)))
      else Inl (Parser_error ''Unknown op in paramattr_group''))"

fun find_attrs :: "ir_attr list \<Rightarrow> ir_arg list \<Rightarrow> ir_attr list result" where
  "find_attrs gs [] = Inr []"
| "find_attrs gs (a # as) =
    (case find (\<lambda>g. ucast (ia_group_id g) = a) gs of
       None \<Rightarrow> Inl (Parser_error ''paramattr: Group not found'')
     | Some g \<Rightarrow> res_bind (find_attrs gs as) (\<lambda>l. Inr (g # l)))"

definition paramattr_rec_handler :: "ir_unit \<Rightarrow> u32 \<Rightarrow> ir_arg list \<Rightarrow> ir_unit result" where
  "paramattr_rec_handler iu op argv =
     (if op = 2 then
        res_bind (find_attrs (iu_attribute_groups iu) argv) (\<lambda>l.
          Inr (iu\<lparr>iu_attrsets := iu_attrsets iu @ [l]\<rparr>))
      else Inl (Parser_error ''Unknown op in paramattr''))"

section \<open>Names\<close>

text \<open>Functions that are instructions of the virtual machine.\<close>

definition vmop_map :: "(string \<times> vm_op \<times> nat) list" where
  "vmop_map = [
    (''llvm.memcpy.p0i8.p0i8.i32'', VM_MEM LLVM_MEMCPY, 3), (''llvm.memset.p0i8.i32'', VM_MEM LLVM_MEMSET, 3),
    (''llvm.memset.p0i8.i64'', VM_MEM LLVM_MEMSET64, 3), (''llvm.va_copy'', VM_VA VACOPY, 2),
    (''llvm.invariant.start'', VM_FLOW NOP, 2), (''llvm.stacksave'', VM_STACK STACKSAVE, 0),
    (''llvm.stackrestore'', VM_STACK STACKRESTORE, 1), (''llvm.cttz.i32'', VM_BITS CTZ32, 1),
    (''llvm.ctlz.i32'', VM_BITS CLZ32, 1), (''llvm.ctpop.i32'', VM_BITS POP32, 1),
    (''llvm.cttz.i64'', VM_BITS CTZ64, 1), (''llvm.ctlz.i64'', VM_BITS CLZ64, 1),
    (''llvm.ctpop.i64'', VM_BITS POP64, 1), (''llvm.uadd.with.overflow.i32'', VM_BITS UADDO32, 2),
    (''llvm.umul.with.overflow.i32'', VM_BITS UMULO32, 2), (''memcpy'', VM_MEM MEMCPY, 3),
    (''memmove'', VM_MEM MEMMOVE, 3), (''memset'', VM_MEM MEMSET, 3), (''memcmp'', VM_MEM MEMCMP, 3),
    (''strcmp'', VM_STR STRCMP, 2), (''strcasecmp'', VM_STR STRCASECMP, 2), (''strchr'', VM_STR STRCHR, 2),
    (''strrchr'', VM_STR STRRCHR, 2), (''strlen'', VM_STR STRLEN, 1), (''strcpy'', VM_STR STRCPY, 2),
    (''strncpy'', VM_STR STRNCPY, 3), (''strcat'', VM_STR STRCAT, 2), (''strncat'', VM_STR STRNCAT, 3),
    (''strncmp'', VM_STR STRNCMP, 3), (''strdup'', VM_STR STRDUP, 1), (''llvm.va_start'', VM_VA VASTART, 2),
    (''abs'', VM_MISC ABS, 1), (''floor'', VM_MATH MFLOOR, 1), (''sin'', VM_MATH MSIN, 1),
    (''cos'', VM_MATH MCOS, 1), (''pow'', VM_MATH MPOW, 2), (''fabs'', VM_MATH MFABS, 1),
    (''fmod'', VM_MATH MFMOD, 2), (''log'', VM_MATH MLOG, 1), (''log10'', VM_MATH MLOG10, 1),
    (''round'', VM_MATH MROUND, 1), (''sqrt'', VM_MATH MSQRT, 1), (''exp'', VM_MATH MEXP, 1),
    (''ceil'', VM_MATH MCEIL, 1), (''floorf'', VM_MATHF MFLOOR, 1), (''sinf'', VM_MATHF MSIN, 1),
    (''cosf'', VM_MATHF MCOS, 1), (''powf'', VM_MATHF MPOW, 2), (''fabsf'', VM_MATHF MFABS, 1),
    (''fmodf'', VM_MATHF MFMOD, 2), (''logf'', VM_MATHF MLOG, 1), (''log10f'', VM_MATHF MLOG10, 1),
    (''roundf'', VM_MATHF MROUND, 1), (''sqrtf'', VM_MATHF MSQRT, 1), (''expf'', VM_MATHF MEXP, 1),
    (''ceilf'', VM_MATHF MCEIL, 1)]"

definition c_string :: "u8 list \<Rightarrow> u8 list" where
  "c_string s = takeWhile (\<lambda>c. c \<noteq> 0) s"

definition c_literal :: "string \<Rightarrow> u8 list" where
  "c_literal s = map (\<lambda>c. of_nat (of_char c)) s"

definition vmop_resolve :: "ir_function \<Rightarrow> bool \<times> ir_function" where
  "vmop_resolve f =
     (case find (\<lambda>(n, _, _). if_name f = Some (c_literal n)) vmop_map of
        Some (_, op, k) \<Rightarrow> (True, f\<lparr>if_vmop := vm_op_num op, if_vmop_args := k\<rparr>)
      | None \<Rightarrow> (False, f\<lparr>if_vmop := 0\<rparr>))"

text \<open>The resolver returns the function pointer, \<open>None\<close> for \<open>NULL\<close>.\<close>

definition set_value_name :: "(u8 list \<Rightarrow> nat option) \<Rightarrow> ir_unit \<Rightarrow> u32 \<Rightarrow> u8 list \<Rightarrow> ir_unit result" where
  "set_value_name resolver iu vid str =
     res_bind (value_at iu vid) (\<lambda>iv0.
       let name = c_string str;
           iv = iv0\<lparr>iv_name := Some name\<rparr>
       in case iv_class iv of
            Vc_function f \<Rightarrow>
              let fn = (iu_functions iu ! f)\<lparr>if_name := Some name\<rparr>;
                  fn' = (if if_ext_func fn = None
                         then (case vmop_resolve fn of
                                 (True, g) \<Rightarrow> g
                               | (False, g) \<Rightarrow> g\<lparr>if_ext_func := resolver name\<rparr>)
                         else fn)
              in Inr ((set_value iu (unat vid) iv)\<lparr>iu_functions := (iu_functions iu)[f := fn']\<rparr>)
          | Vc_globalvar ig \<Rightarrow>
              Inr (set_value iu (unat vid) (iv\<lparr>iv_class := Vc_globalvar (ig\<lparr>ig_name := Some name\<rparr>)\<rparr>))
          | Vc_constant _ \<Rightarrow> Inr (set_value iu (unat vid) iv)
          | Vc_zero_initializer \<Rightarrow> Inr (set_value iu (unat vid) iv)
          | Vc_temporary \<Rightarrow> Inr (set_value iu (unat vid) iv)
          | Vc_regframe _ \<Rightarrow> Inr (set_value iu (unat vid) iv)
          | Vc_alias _ \<Rightarrow> Inr (set_value iu (unat vid) iv)
          | _ \<Rightarrow> Inl (Parser_error ''Can't give name to value''))"

definition value_symtab_rec_handler :: "(u8 list \<Rightarrow> nat option) \<Rightarrow> ir_unit \<Rightarrow> u32 \<Rightarrow> ir_arg list \<Rightarrow> ir_unit result" where
  "value_symtab_rec_handler resolver iu op argv =
     (if op = 1 then
        res_bind (parser_check (2 \<le> length argv) ''Bad args to VST_CODE_ENTRY'') (\<lambda>_.
          set_value_name resolver iu (ucast (argv ! 0)) (read_str_from_argv (drop 1 argv)))
      else if op = 2 then Inr iu
      else if op = 3 then
        res_bind (parser_check (3 \<le> length argv) ''Bad args to VST_CODE_FNENTRY'') (\<lambda>_.
          set_value_name resolver iu (ucast (argv ! 0)) (read_str_from_argv (drop 2 argv)))
      else Inl (Parser_error ''Unknown op in symtab''))"

section \<open>Constants\<close>

definition scalar_type :: "ir_type_code \<Rightarrow> bool" where
  "scalar_type c = (c \<in> {IR_TYPE_INT1, IR_TYPE_INT8, IR_TYPE_INT16, IR_TYPE_INT32, IR_TYPE_POINTER,
     IR_TYPE_DOUBLE, IR_TYPE_INT64, IR_TYPE_FLOAT, IR_TYPE_INTx})"

definition cst_null :: "ir_type_code \<Rightarrow> value_class result" where
  "cst_null c =
     (if scalar_type c then Inr (Vc_constant 0)
      else if c = IR_TYPE_ARRAY \<or> c = IR_TYPE_STRUCT then Inr Vc_zero_initializer
      else Inl (Parser_error ''Bad type for NULL integer constant''))"

definition cst_integer :: "ir_type_code \<Rightarrow> ir_arg list \<Rightarrow> value_class result" where
  "cst_integer c argv =
     res_bind (c_assert (argv \<noteq> [])) (\<lambda>_.
       if c \<in> {IR_TYPE_INT1, IR_TYPE_INT8, IR_TYPE_INT16, IR_TYPE_INT32}
       then Inr (const32 (ucast (read_sign_rotated (argv ! 0))))
       else if c \<in> {IR_TYPE_INT64, IR_TYPE_INTx} then Inr (Vc_constant (read_sign_rotated (argv ! 0)))
       else Inl (Parser_error ''Bad type for integer constant''))"

definition cst_float :: "ir_type_code \<Rightarrow> ir_arg list \<Rightarrow> value_class result" where
  "cst_float c argv =
     res_bind (c_assert (argv \<noteq> [])) (\<lambda>_.
       if c = IR_TYPE_FLOAT then Inr (const32 (ucast (argv ! 0)))
       else if c = IR_TYPE_DOUBLE then Inr (Vc_constant (argv ! 0))
       else Inl (Parser_error ''Bad type for float constant''))"

fun cst_aggregate :: "ir_unit \<Rightarrow> ir_arg list \<Rightarrow> (u32 \<times> u32) list result" where
  "cst_aggregate iu [] = Inr []"
| "cst_aggregate iu (a # as) =
    res_bind (value_at iu (ucast a)) (\<lambda>iv.
      res_bind (cst_aggregate iu as) (\<lambda>l. Inr ((ucast a, iv_type iv) # l)))"

definition cst_data :: "types \<Rightarrow> ir_type \<Rightarrow> ir_arg list \<Rightarrow> u8 list result" where
  "cst_data tys ty argv =
     (case ty of
        It_array n e \<Rightarrow>
          res_bind (type_get tys e) (\<lambda>el.
            if it_code el \<in> {IR_TYPE_INT64, IR_TYPE_DOUBLE} then Inr (concat (map (le_bytes 8) argv))
            else if it_code el \<in> {IR_TYPE_INT32, IR_TYPE_FLOAT} then
              Inr (concat (map (\<lambda>a. le_bytes 4 (ucast a :: u32)) argv))
            else if it_code el = IR_TYPE_INT16 then Inr (concat (map (\<lambda>a. le_bytes 2 (ucast a :: u16)) argv))
            else Inl (Parser_error ''Can't parse constant data''))
      | _ \<Rightarrow> Inl (Parser_error ''Can't parse constant data''))"

fun gep_values :: "ir_arg list \<Rightarrow> u32 list" where
  "gep_values (t # v # as) = ucast v # gep_values as"
| "gep_values _ = []"

definition cst_ce :: "u32 \<Rightarrow> ir_arg list \<Rightarrow> ir_constexpr result" where
  "cst_ce op argv =
     (if op = 11 then
        (if length argv < 3 then Inl Undefined_behaviour else Inr (Ce_cast (ucast (argv ! 0)) (ucast (argv ! 2))))
      else if op = 12 \<or> op = 20 then Inr (Ce_gep (gep_values (if odd (length argv) then tl argv else argv)))
      else if op = 10 then
        res_bind (parser_check (3 \<le> length argv) ''CST_CODE_CE_BINOP with invalid number of args'') (\<lambda>_.
          Inr (Ce_binop (ucast (argv ! 0)) (ucast (argv ! 1)) (ucast (argv ! 2))))
      else
        res_bind (parser_check (4 \<le> length argv) ''CST_CODE_CE_CMP with invalid number of args'') (\<lambda>_.
          Inr (Ce_cmp (ucast (argv ! 0)) (ucast (argv ! 1)) (ucast (argv ! 2)) (ucast (argv ! 3)))))"

text \<open>The value a record describes; \<open>iu\<close> already has the new value, of the current type.\<close>

definition cst_value :: "ir_unit \<Rightarrow> u32 \<Rightarrow> ir_arg list \<Rightarrow> value_class result" where
  "cst_value iu op argv =
     (let tys = iu_types (iu_ts iu); ty = type_get tys (iu_current_type iu) in
      if op = 3 \<or> op = 2 then res_bind ty (\<lambda>t. cst_null (it_code t))
      else if op = 4 then
        res_bind (c_assert (argv \<noteq> [])) (\<lambda>_. res_bind ty (\<lambda>t. cst_integer (it_code t) argv))
      else if op = 6 then
        res_bind (c_assert (argv \<noteq> [])) (\<lambda>_. res_bind ty (\<lambda>t. cst_float (it_code t) argv))
      else if op = 7 then res_bind (cst_aggregate iu argv) (\<lambda>l. Inr (Vc_aggregate l))
      else if op = 22 then res_bind ty (\<lambda>t. res_bind (cst_data tys t argv) (\<lambda>d. Inr (Vc_data d)))
      else if op = 8 \<or> op = 9 then Inr (Vc_data (read_str_from_argv argv @ [0]))
      else if op \<in> {11, 12, 20, 10, 17} then res_bind (cst_ce op argv) (\<lambda>c. Inr (Vc_ce c))
      else if op = 21 then Inl (Parser_error ''CST_CODE_BLOCKADDRESS (computed goto) is not supported'')
      else if op = 23 \<or> op = 18 then Inl (Parser_error ''Inline asm not supported'')
      else Inl (Parser_error ''Unknown op in constant block''))"

definition constants_rec_handler :: "ir_unit \<Rightarrow> u32 \<Rightarrow> ir_arg list \<Rightarrow> ir_unit result" where
  "constants_rec_handler iu op argv =
     (if op = 1 then
        res_bind (parser_check (1 \<le> length argv) ''Bad # of args for CST_CODE_SETTYPE'') (\<lambda>_.
          Inr (iu\<lparr>iu_current_type := ucast (argv ! 0)\<rparr>))
      else
        res_bind (append_value iu Vc_undef (iu_current_type iu)) (\<lambda>(i, iu1).
          res_bind (cst_value iu1 op argv) (\<lambda>c.
            res_bind (deref (iu_values iu1 ! i)) (\<lambda>iv.
              Inr (set_value iu1 i (iv\<lparr>iv_class := c\<rparr>))))))"

end
