(* ===== verification/Vmir_Parser.thy ===== *)
theory Vmir_Parser
  imports Vmir_Module
begin

text \<open>
  The container format of LLVM bitcode, the second half of \<open>src/src/vmir_bitcode_parser.c\<close>: blocks,
  abbreviations, records. The parser calls a record handler through a function pointer
  (\<open>rec_handler_t\<close>); \<open>rec_handler\<close> names the handlers and \<open>run_handler\<close> calls one. What happens to the
  body of a function (\<open>function_rec_handler\<close> and \<open>function_process\<close>: instruction parsing,
  transformation and code generation) is a pair of parameters in \<open>parse_env\<close>, next to the resolver
  of external functions.

  \<open>ir_parse_blocks\<close> and \<open>ir_enter_subblock\<close> call each other. They take a bound on the number of calls,
  and \<open>None\<close> is a run that needs more: a module can make the C code recurse forever, so no bound
  on the number of rounds exists for every input.
\<close>

section \<open>Handlers\<close>

record parse_env =
  pe_resolver :: "u8 list \<Rightarrow> nat option"
  pe_function_rec :: "ir_unit \<Rightarrow> u32 \<Rightarrow> ir_arg list \<Rightarrow> ir_unit result"
  pe_function_process :: "ir_unit \<Rightarrow> nat \<Rightarrow> ir_unit result"

datatype rec_handler = Rh_blockinfo | Rh_module | Rh_paramattr | Rh_paramattr_group | Rh_constants
  | Rh_function | Rh_value_symtab | Rh_metadata | Rh_types_new | Rh_dummy

fun run_handler :: "parse_env \<Rightarrow> rec_handler \<Rightarrow> ir_unit \<Rightarrow> u32 \<Rightarrow> ir_arg list \<Rightarrow> ir_unit result" where
  "run_handler env Rh_blockinfo iu op argv = blockinfo_rec_handler iu op argv"
| "run_handler env Rh_module iu op argv = module_rec_handler iu op argv"
| "run_handler env Rh_paramattr iu op argv = paramattr_rec_handler iu op argv"
| "run_handler env Rh_paramattr_group iu op argv = paramattr_group_rec_handler iu op argv"
| "run_handler env Rh_constants iu op argv = constants_rec_handler iu op argv"
| "run_handler env Rh_function iu op argv = pe_function_rec env iu op argv"
| "run_handler env Rh_value_symtab iu op argv = value_symtab_rec_handler (pe_resolver env) iu op argv"
| "run_handler env Rh_types_new iu op argv =
    res_bind (types_new_rec_handler (iu_ts iu) (unat op) argv) (\<lambda>ts. Inr (iu\<lparr>iu_ts := ts\<rparr>))"
| "run_handler env Rh_metadata iu op argv = Inr iu"
| "run_handler env Rh_dummy iu op argv = Inr iu"

text \<open>Calling a handler that is \<open>NULL\<close> is undefined.\<close>

definition call_handler :: "parse_env \<Rightarrow> rec_handler option \<Rightarrow> ir_unit \<Rightarrow> u32 \<Rightarrow> ir_arg list \<Rightarrow> ir_unit result" where
  "call_handler env rh iu op argv =
     (case rh of None \<Rightarrow> Inl Undefined_behaviour | Some h \<Rightarrow> run_handler env h iu op argv)"

text \<open>The handler of a block id.\<close>

definition block_handler :: "u32 \<Rightarrow> rec_handler result" where
  "block_handler i =
     (if i = 0 then Inr Rh_blockinfo
      else if i = 8 then Inr Rh_module
      else if i = 9 then Inr Rh_paramattr
      else if i = 10 then Inr Rh_paramattr_group
      else if i = 11 then Inr Rh_constants
      else if i = 12 then Inr Rh_function
      else if i = 14 then Inr Rh_value_symtab
      else if i = 15 \<or> i = 16 then Inr Rh_metadata
      else if i = 17 then Inr Rh_types_new
      else if i = 18 \<or> i = 22 \<or> i = 13 \<or> i = 21 then Inr Rh_dummy
      else Inl (Parser_error ''Invalid block type''))"

section \<open>Abbreviations\<close>

text \<open>A width is a 32-bit field used as \<open>int\<close>; a negative one reads nothing.\<close>

definition width_of :: "u32 \<Rightarrow> nat" where
  "width_of d = nat (sint d)"

text \<open>One operand of a definition, with \<open>left\<close> operands after it; \<open>define_kind\<close> is the \<open>switch\<close>.\<close>

definition define_kind :: "nat \<Rightarrow> u32 \<Rightarrow> bcbitstream \<Rightarrow> (ir_abbrev_operand \<times> bcbitstream) result" where
  "define_kind left k bs =
     (if k = 1 then res_bind (read_vbr bs 5) (\<lambda>(d, bs1). Inr (IAOT_FIXED_WIDTH d, bs1))
      else if k = 2 then res_bind (read_vbr bs 5) (\<lambda>(d, bs1). Inr (IAOT_VBR d, bs1))
      else if k = 4 then Inr (IAOT_CHAR6, bs)
      else if k = 5 then res_bind (parser_check (left = 0) ''Blob is not last'') (\<lambda>_. Inr (IAOT_BLOB, bs))
      else if k = 3 then
        res_bind (parser_check (left = 1) ''Array is not next to last'') (\<lambda>_. Inr (IAOT_ARRAY, bs))
      else Inl (Parser_error ''Bad type in abbrev''))"

definition define_flag :: "nat \<Rightarrow> u32 \<Rightarrow> bcbitstream \<Rightarrow> (ir_abbrev_operand \<times> bcbitstream) result" where
  "define_flag left litteral bs =
     (if litteral \<noteq> 0 then res_bind (read_vbr bs 8) (\<lambda>(d, bs1). Inr (IAOT_LITTERAL d, bs1))
      else res_bind (read_bits bs 3) (\<lambda>(k, bs1). define_kind left k bs1))"

definition define_op :: "nat \<Rightarrow> bcbitstream \<Rightarrow> (ir_abbrev_operand \<times> bcbitstream) result" where
  "define_op left bs = res_bind (read_bits bs 1) (\<lambda>(l, bs1). define_flag left l bs1)"

fun define_ops :: "nat \<Rightarrow> bcbitstream \<Rightarrow> (ir_abbrev \<times> bcbitstream) result" where
  "define_ops 0 bs = Inr ([], bs)"
| "define_ops (Suc left) bs =
    res_bind (define_op left bs) (\<lambda>(o', bs1).
      res_bind (define_ops left bs1) (\<lambda>(os, bs2). Inr (o' # os, bs2)))"

text \<open>
  A new abbreviation belongs to the block info a BLOCKINFO block has selected, or else to the
  innermost block.
\<close>

definition add_abbrev :: "ir_unit \<Rightarrow> ir_abbrev \<Rightarrow> ir_unit result" where
  "add_abbrev iu ia =
     (case iu_blocks iu of
        [] \<Rightarrow> Inl Undefined_behaviour
      | b # bs \<Rightarrow>
          (case ib_blockinfo b of
             Some i \<Rightarrow> Inr (iu\<lparr>iu_blockinfos :=
               map (\<lambda>(j, as). if j = i then (j, as @ [ia]) else (j, as)) (iu_blockinfos iu)\<rparr>)
           | None \<Rightarrow> Inr (iu\<lparr>iu_blocks := b\<lparr>ib_scoped_abbrevs := ib_scoped_abbrevs b @ [ia]\<rparr> # bs\<rparr>)))"

definition ir_define_abbrev :: "ir_unit \<Rightarrow> bcbitstream \<Rightarrow> (ir_unit \<times> bcbitstream) result" where
  "ir_define_abbrev iu bs =
     res_bind (read_vbr bs 5) (\<lambda>(numops, bs1).
       res_bind (define_ops (unat numops) bs1) (\<lambda>(ia, bs2).
         res_bind (add_abbrev iu ia) (\<lambda>iu'. Inr (iu', bs2))))"

definition char6 :: string where
  "char6 = ''abcdefghijklmnopqrstuvwxyzABCDEFGHIJKLMNOPQRSTUVWXYZ0123456789._''"

definition load_elem :: "bcbitstream \<Rightarrow> ir_abbrev_operand \<Rightarrow> (ir_arg \<times> bcbitstream) result" where
  "load_elem bs ty =
     (case ty of
        IAOT_FIXED_WIDTH d \<Rightarrow> res_bind (read_bits bs (width_of d)) (\<lambda>(x, bs'). Inr (ucast x, bs'))
      | IAOT_VBR d \<Rightarrow> res_bind (read_vbr bs (width_of d)) (\<lambda>(x, bs'). Inr (ucast x, bs'))
      | IAOT_CHAR6 \<Rightarrow> res_bind (read_bits bs 6) (\<lambda>(x, bs'). Inr (of_nat (of_char (char6 ! unat x)), bs'))
      | _ \<Rightarrow> Inl (Parser_error ''Bad array type''))"

fun load_elems :: "nat \<Rightarrow> bcbitstream \<Rightarrow> ir_abbrev_operand \<Rightarrow> (ir_arg list \<times> bcbitstream) result" where
  "load_elems 0 bs ty = Inr ([], bs)"
| "load_elems (Suc n) bs ty =
    res_bind (load_elem bs ty) (\<lambda>(a, bs1).
      res_bind (load_elems n bs1 ty) (\<lambda>(as, bs2). Inr (a # as, bs2)))"

text \<open>The count is an \<open>int\<close>: a negative one loads nothing.\<close>

definition load_array :: "bcbitstream \<Rightarrow> ir_abbrev_operand \<Rightarrow> (ir_arg list \<times> bcbitstream) result" where
  "load_array bs ty =
     res_bind (read_vbr bs 6) (\<lambda>(n, bs1). load_elems (nat (sint n)) bs1 ty)"

text \<open>The operands of an abbreviated record; an array ends the list, its element type is skipped.\<close>

fun expand_abbrev :: "ir_abbrev \<Rightarrow> bcbitstream \<Rightarrow> (ir_arg list \<times> bcbitstream) result" where
  "expand_abbrev [] bs = Inr ([], bs)"
| "expand_abbrev (o' # os) bs =
    (case o' of
       IAOT_ARRAY \<Rightarrow>
         (case os of
            [el] \<Rightarrow> load_array bs el
          | _ \<Rightarrow> Inl Assertion_failed)
     | IAOT_LITTERAL d \<Rightarrow> res_bind (expand_abbrev os bs) (\<lambda>(as, bs'). Inr (ucast d # as, bs'))
     | IAOT_FIXED_WIDTH d \<Rightarrow>
         res_bind (read_bits bs (width_of d)) (\<lambda>(x, bs1).
           res_bind (expand_abbrev os bs1) (\<lambda>(as, bs2). Inr (ucast x # as, bs2)))
     | IAOT_VBR d \<Rightarrow>
         res_bind (read_vbr64 bs (width_of d)) (\<lambda>(x, bs1).
           res_bind (expand_abbrev os bs1) (\<lambda>(as, bs2). Inr (x # as, bs2)))
     | _ \<Rightarrow> Inl (Parser_error ''Can't handle abbrevs with arg yet''))"

text \<open>
  The abbreviation of an id: first those of the block info, then those of the innermost block. A
  block info pointer of \<open>NULL\<close> is dereferenced.
\<close>

definition find_abbrev :: "ir_unit \<Rightarrow> u32 option \<Rightarrow> u32 \<Rightarrow> ir_abbrev result" where
  "find_abbrev iu ibi i =
     res_bind (deref ibi) (\<lambda>j.
       res_bind (deref (map_of (iu_blockinfos iu) j)) (\<lambda>shared.
         let k = unat (i - 4) in
         if length shared \<le> k then
           (case iu_blocks iu of
              [] \<Rightarrow> Inl Undefined_behaviour
            | b # _ \<Rightarrow>
                if k - length shared < length (ib_scoped_abbrevs b)
                then Inr (ib_scoped_abbrevs b ! (k - length shared))
                else Inl (Parser_error ''Abbrev not found''))
         else Inr (shared ! k)))"

definition ir_dispatch_abbrev :: "parse_env \<Rightarrow> ir_unit \<Rightarrow> u32 \<Rightarrow> rec_handler option \<Rightarrow> u32 option \<Rightarrow> bcbitstream \<Rightarrow>
    (ir_unit \<times> bcbitstream) result" where
  "ir_dispatch_abbrev env iu i rh ibi bs =
     res_bind (find_abbrev iu ibi i) (\<lambda>ia.
       res_bind (expand_abbrev ia bs) (\<lambda>(argv, bs1).
         case argv of
           [] \<Rightarrow> Inl Undefined_behaviour
         | c # as \<Rightarrow> res_bind (call_handler env rh iu (ucast c) as) (\<lambda>iu'. Inr (iu', bs1))))"

fun read_operands :: "nat \<Rightarrow> bcbitstream \<Rightarrow> (ir_arg list \<times> bcbitstream) result" where
  "read_operands 0 bs = Inr ([], bs)"
| "read_operands (Suc n) bs =
    res_bind (read_vbr64 bs 6) (\<lambda>(a, bs1).
      res_bind (read_operands n bs1) (\<lambda>(as, bs2). Inr (a # as, bs2)))"

definition ir_unabbrev_record :: "parse_env \<Rightarrow> ir_unit \<Rightarrow> rec_handler option \<Rightarrow> bcbitstream \<Rightarrow>
    (ir_unit \<times> bcbitstream) result" where
  "ir_unabbrev_record env iu rh bs =
     res_bind (read_vbr bs 6) (\<lambda>(code, bs1).
       res_bind (read_vbr bs1 6) (\<lambda>(numops, bs2).
         res_bind (read_operands (unat numops) bs2) (\<lambda>(argv, bs3).
           res_bind (call_handler env rh iu code argv) (\<lambda>iu'. Inr (iu', bs3)))))"

section \<open>Blocks\<close>

definition opt_bind :: "'a result option \<Rightarrow> ('a \<Rightarrow> 'b result option) \<Rightarrow> 'b result option" where
  "opt_bind m f = (case m of None \<Rightarrow> None | Some (Inl e) \<Rightarrow> Some (Inl e) | Some (Inr x) \<Rightarrow> f x)"

lemma opt_bind_simps [simp, res_simps]:
  "opt_bind None f = None" "opt_bind (Some (Inl e)) f = Some (Inl e)" "opt_bind (Some (Inr x)) f = f x"
  by (simp_all add: opt_bind_def)

lemma opt_bind_cong [fundef_cong]:
  "m = m' \<Longrightarrow> (\<And>x. m' = Some (Inr x) \<Longrightarrow> f x = f' x) \<Longrightarrow> opt_bind m f = opt_bind m' f'"
  by (auto simp: opt_bind_def split: option.splits sum.splits)

text \<open>The header of a block: its id and the width of abbreviation ids inside.\<close>

definition read_block_header :: "bcbitstream \<Rightarrow> (u32 \<times> nat \<times> bcbitstream) result" where
  "read_block_header bs =
     res_bind (read_vbr bs 8) (\<lambda>(blockid, bs1).
       res_bind (read_vbr bs1 4) (\<lambda>(w, bs2).
         res_bind (read_bits (align_bits32 bs2) 32) (\<lambda>(_, bs3).
           Inr (blockid, width_of w, bs3))))"

definition open_block :: "ir_unit \<Rightarrow> u32 \<Rightarrow> ir_unit" where
  "open_block iu blockid =
     blockinfo_find (iu\<lparr>iu_blocks := \<lparr>ib_scoped_abbrevs = [], ib_blockinfo = None\<rparr> # iu_blocks iu\<rparr>) blockid"

text \<open>The next function that has a body: the first one, or the one after the current function.\<close>

definition next_function :: "ir_unit \<Rightarrow> nat option" where
  "next_function iu =
     (case iu_current_function iu of
        None \<Rightarrow> (case iu_functions_with_bodies iu of [] \<Rightarrow> None | f # _ \<Rightarrow> Some f)
      | Some f \<Rightarrow> (case tl (dropWhile (\<lambda>g. g \<noteq> f) (iu_functions_with_bodies iu)) of [] \<Rightarrow> None | g # _ \<Rightarrow> Some g))"

definition begin_function :: "ir_unit \<Rightarrow> ir_unit result" where
  "begin_function iu =
     (case next_function iu of
        None \<Rightarrow> Inl (Parser_error ''Function body without matching function'')
      | Some f \<Rightarrow> function_prepare_parse (iu\<lparr>iu_current_function := Some f\<rparr>) f)"

definition end_block :: "parse_env \<Rightarrow> ir_unit \<Rightarrow> u32 \<Rightarrow> nat \<Rightarrow> ir_unit result" where
  "end_block env iu blockid valuelistsize =
     res_bind
       (if blockid = 12 then
          res_bind (deref (iu_current_function iu)) (\<lambda>f.
            res_bind (pe_function_process env iu f) (\<lambda>iu1. value_resize iu1 valuelistsize))
        else if blockid = 11 then eval_constexprs iu
        else if blockid = 17 then res_bind (types_finalize (iu_ts iu)) (\<lambda>ts. Inr (iu\<lparr>iu_ts := ts\<rparr>))
        else Inr iu)
       (\<lambda>iu1. Inr (iu1\<lparr>iu_blocks := tl (iu_blocks iu1)\<rparr>))"

text \<open>The stream at the symbol table, to which \<open>MODULE_CODE_VSTOFFSET\<close> points in words.\<close>

definition vst_stream :: "ir_unit \<Rightarrow> bcbitstream \<Rightarrow> bcbitstream result" where
  "vst_stream iu bs =
     (if sint (iu_vstoffset iu) < 0 \<or> 2 ^ 29 \<le> sint (iu_vstoffset iu) then Inl Undefined_behaviour
      else Inr (bs\<lparr>bytes_offset := 4 * unat (iu_vstoffset iu), remain := 0\<rparr>))"

function (sequential) ir_parse_blocks :: "nat \<Rightarrow> parse_env \<Rightarrow> ir_unit \<Rightarrow> nat \<Rightarrow> rec_handler option \<Rightarrow> u32 option \<Rightarrow> bcbitstream \<Rightarrow>
    (ir_unit \<times> bcbitstream) result option"
  and parse_items :: "nat \<Rightarrow> parse_env \<Rightarrow> ir_unit \<Rightarrow> nat \<Rightarrow> rec_handler option \<Rightarrow> u32 option \<Rightarrow> bcbitstream \<Rightarrow>
    (ir_unit \<times> bcbitstream) result option"
  and ir_enter_subblock :: "nat \<Rightarrow> parse_env \<Rightarrow> ir_unit \<Rightarrow> bcbitstream \<Rightarrow> nat \<Rightarrow>
    (ir_unit \<times> bcbitstream) result option" where
  "ir_parse_blocks 0 env iu w rh ibi bs = None"
| "ir_parse_blocks (Suc n) env iu w rh ibi bs =
    opt_bind (Some (c_assert (remain bs = 0))) (\<lambda>_. parse_items n env iu w rh ibi bs)"
| "parse_items 0 env iu w rh ibi bs = None"
| "parse_items (Suc n) env iu w rh ibi bs =
    opt_bind (Some (read_bits bs w)) (\<lambda>(i, bs1).
      if i = 0 then Some (Inr (iu, align_bits32 bs1))
      else
        opt_bind
          (if i = 1 then ir_enter_subblock n env iu bs1 w
           else if i = 2 then Some (ir_define_abbrev iu bs1)
           else if i = 3 then Some (ir_unabbrev_record env iu rh bs1)
           else Some (ir_dispatch_abbrev env iu i rh ibi bs1))
          (\<lambda>(iu', bs'). parse_items n env iu' w rh ibi bs'))"
| "ir_enter_subblock 0 env iu bs outer = None"
| "ir_enter_subblock (Suc n) env iu bs outer =
    opt_bind (Some (read_block_header bs)) (\<lambda>(blockid, w, bs1).
      let iu1 = open_block iu blockid; size = iu_next_value iu1 in
      opt_bind (Some (block_handler blockid)) (\<lambda>rh.
        opt_bind
          (if blockid = 12 then
             let iu2 = iu1\<lparr>iu_first_func_value := size\<rparr> in
             opt_bind
               (if iu_vstoffset iu2 \<noteq> 0 then
                  opt_bind (Some (vst_stream iu2 bs1)) (\<lambda>vst.
                    opt_bind (ir_parse_blocks n env iu2 outer None (Some blockid) vst) (\<lambda>(iu3, _).
                      Some (Inr (iu3\<lparr>iu_vstoffset := 0\<rparr>))))
                else Some (Inr iu2))
               (\<lambda>iu3. Some (begin_function iu3))
           else Some (Inr iu1))
          (\<lambda>iu3.
            opt_bind (ir_parse_blocks n env iu3 w (Some rh) (Some blockid) bs1) (\<lambda>(iu4, bs4).
              Some (res_bind (end_block env iu4 blockid (if blockid = 12 then size else 0)) (\<lambda>iu5.
                Inr (iu5, bs4)))))))"
  by pat_completeness auto
termination
  by (relation "measure (\<lambda>x. case x of Inl (n, _) \<Rightarrow> n | Inr (Inl (n, _)) \<Rightarrow> n | Inr (Inr (n, _)) \<Rightarrow> n)") auto

declare ir_parse_blocks.simps [simp del] parse_items.simps [simp del] ir_enter_subblock.simps [simp del]

end
