(* ===== verification/Vmir_Load.thy ===== *)
theory Vmir_Load
  imports Vmir_Parser
begin

text \<open>
  Loading a module, \<open>src/src/vmir.c\<close>: the initial contents of global variables, and \<open>vmir_load\<close> up to
  the tables the interpreter runs on. Guest memory is \<open>vmem\<close> of \<open>Vmir_Mem\<close>, with addresses relative to
  \<open>iu_mem\<close>; the code does not check them against the size of the memory.

  \<open>initialize_global\<close> recurses into the elements of a type. The depth is bounded by the number of types,
  as for the size of a type: deeper nesting means a type that contains itself, for which the C code
  does not return.
\<close>

section \<open>Initial values\<close>

definition write_const32 :: "ir_unit \<Rightarrow> ir_value \<Rightarrow> (u32 \<Rightarrow> vmem) \<Rightarrow> vmem result" where
  "write_const32 iu c wr = res_bind (value_get_const32 (iu_types (iu_ts iu)) c) (\<lambda>v. Inr (wr v))"

text \<open>The size is an \<open>int\<close> that is passed as \<open>size_t\<close>: a negative one is undefined.\<close>

definition c_memset0 :: "vmem \<Rightarrow> nat \<Rightarrow> u32 \<Rightarrow> vmem result" where
  "c_memset0 m addr sz =
     (if sint sz < 0 then Inl Undefined_behaviour else Inr (store_bytes m addr (replicate (unat sz) 0)))"

definition c_memcpy_data :: "vmem \<Rightarrow> nat \<Rightarrow> u8 list \<Rightarrow> u32 \<Rightarrow> vmem result" where
  "c_memcpy_data m addr d sz =
     (if sint sz < 0 \<or> length d < unat sz then Inl Undefined_behaviour
      else Inr (store_bytes m addr (take (unat sz) d)))"

text \<open>The cases of \<open>initialize_global\<close> that write a scalar.\<close>

definition init_scalar :: "ir_unit \<Rightarrow> vmem \<Rightarrow> nat \<Rightarrow> ir_type \<Rightarrow> ir_value \<Rightarrow> vmem result" where
  "init_scalar iu m addr dstty c =
     (case dstty of
        It_int1 \<Rightarrow> write_const32 iu c (\<lambda>v. mem_wr8 m addr (ucast v))
      | It_int8 \<Rightarrow> write_const32 iu c (\<lambda>v. mem_wr8 m addr (ucast v))
      | It_int16 \<Rightarrow> write_const32 iu c (\<lambda>v. mem_wr16 m addr (ucast v))
      | It_int32 \<Rightarrow> write_const32 iu c (mem_wr32 m addr)
      | It_float \<Rightarrow> write_const32 iu c (mem_wr32 m addr)
      | It_int64 \<Rightarrow> res_bind (value_get_const64 (iu_types (iu_ts iu)) c) (\<lambda>v. Inr (mem_wr64 m addr v))
      | It_double \<Rightarrow> res_bind (value_get_const64 (iu_types (iu_ts iu)) c) (\<lambda>v. Inr (mem_wr64 m addr v))
      | It_pointer _ \<Rightarrow>
          (case iv_class c of
             Vc_globalvar _ \<Rightarrow> write_const32 iu c (mem_wr32 m addr)
           | Vc_constant _ \<Rightarrow> write_const32 iu c (mem_wr32 m addr)
           | Vc_function _ \<Rightarrow> res_bind (value_function_addr c) (\<lambda>v. Inr (mem_wr32 m addr v))
           | _ \<Rightarrow> Inl (Parser_error ''Unable to initialize pointer''))
      | _ \<Rightarrow> Inl (Parser_error ''Unable to initialize global''))"

text \<open>The values of an aggregate; \<open>None\<close> for every other class.\<close>

definition aggregate_values :: "ir_value \<Rightarrow> (u32 \<times> u32) list option" where
  "aggregate_values c = (case iv_class c of Vc_aggregate vs \<Rightarrow> Some vs | _ \<Rightarrow> None)"

definition init_bulk :: "vmem \<Rightarrow> nat \<Rightarrow> bool \<Rightarrow> u32 \<Rightarrow> ir_value \<Rightarrow> vmem result" where
  "init_bulk m addr data_ok sz c =
     (case iv_class c of
        Vc_data d \<Rightarrow> if data_ok then c_memcpy_data m addr d sz else Inl (Parser_error ''Unable to initialize struct'')
      | Vc_zero_initializer \<Rightarrow> c_memset0 m addr sz
      | _ \<Rightarrow> Inl (Parser_error ''Unable to initialize aggregate''))"

datatype init_kind = Init_array u32 u32 | Init_struct "(u32 \<times> int option) list" | Init_scalar

definition init_kind :: "ir_type \<Rightarrow> init_kind" where
  "init_kind t = (case t of It_array n e \<Rightarrow> Init_array n e | It_struct s \<Rightarrow> Init_struct (st_elements s) | _ \<Rightarrow> Init_scalar)"

function (sequential) initialize_global :: "nat \<Rightarrow> ir_unit \<Rightarrow> vmem \<Rightarrow> nat \<Rightarrow> u32 \<Rightarrow> ir_value \<Rightarrow> vmem result"
  and init_array :: "nat \<Rightarrow> ir_unit \<Rightarrow> vmem \<Rightarrow> nat \<Rightarrow> u32 \<Rightarrow> (u32 \<times> u32) list \<Rightarrow> vmem result"
  and init_struct :: "nat \<Rightarrow> ir_unit \<Rightarrow> vmem \<Rightarrow> nat \<Rightarrow> (u32 \<times> int option) list \<Rightarrow> (u32 \<times> u32) list \<Rightarrow> vmem result" where
  "initialize_global 0 iu m addr ty c = Inl Stack_overflow"
| "initialize_global (Suc n) iu m addr ty c =
    res_bind (type_get (iu_types (iu_ts iu)) ty) (\<lambda>dstty.
      case init_kind dstty of
        Init_scalar \<Rightarrow> init_scalar iu m addr dstty c
      | Init_array num el \<Rightarrow>
          res_bind (type_sizeof (iu_types (iu_ts iu)) ty) (\<lambda>sz.
            case aggregate_values c of
              None \<Rightarrow> init_bulk m addr True sz c
            | Some vs \<Rightarrow>
                res_bind (c_assert (int (length vs) = sint num)) (\<lambda>_. init_array n iu m addr el vs))
      | Init_struct els \<Rightarrow>
          res_bind (type_sizeof (iu_types (iu_ts iu)) ty) (\<lambda>sz.
            case aggregate_values c of
              None \<Rightarrow> init_bulk m addr False sz c
            | Some vs \<Rightarrow>
                res_bind (c_assert (length vs = length els)) (\<lambda>_. init_struct n iu m addr els vs)))"
| "init_array n iu m addr el [] = Inr m"
| "init_array n iu m addr el (v # vs) =
    res_bind (value_at iu (fst v)) (\<lambda>sub.
      res_bind (initialize_global n iu m addr el sub) (\<lambda>m1.
        res_bind (type_sizeof (iu_types (iu_ts iu)) el) (\<lambda>s.
          init_array n iu m1 (addr + unat s) el vs)))"
| "init_struct n iu m addr (e # es) (v # vs) =
    res_bind (value_at iu (fst v)) (\<lambda>sub.
      case snd e of
        None \<Rightarrow> Inl Undefined_behaviour
      | Some off \<Rightarrow>
          if off < 0 then Inl Undefined_behaviour
          else res_bind (initialize_global n iu m (addr + nat off) (fst e) sub) (\<lambda>m1.
                 init_struct n iu m1 addr es vs))"
| "init_struct n iu m addr _ _ = Inr m"
  by pat_completeness auto
termination
  by (relation "inv_image (less_than <*lex*> less_than)
        (\<lambda>x. case x of Inl (n, _) \<Rightarrow> (2 * n, 0) | Inr (Inl (n, _, _, _, _, vs)) \<Rightarrow> (Suc (2 * n), length vs)
           | Inr (Inr (n, _, _, _, _, vs)) \<Rightarrow> (Suc (2 * n), length vs))") auto

fun initialize_globals :: "ir_unit \<Rightarrow> vmem \<Rightarrow> (nat \<times> u32) list \<Rightarrow> vmem result" where
  "initialize_globals iu m [] = Inr m"
| "initialize_globals iu m ((g, c) # is) =
    res_bind (value_at iu (of_nat g)) (\<lambda>gv.
      res_bind (value_at iu c) (\<lambda>cv.
        case iv_class gv of
          Vc_globalvar ig \<Rightarrow>
            res_bind (initialize_global (Suc (length (iu_types (iu_ts iu)))) iu m (unat (ig_addr ig)) (ig_type ig) cv)
              (\<lambda>m1. initialize_globals iu m1 is)
        | _ \<Rightarrow> Inl Undefined_behaviour))"

section \<open>Loading\<close>

definition find_globalvar :: "ir_unit \<Rightarrow> u8 list \<Rightarrow> ir_globalvar option" where
  "find_globalvar iu name =
     (case find (\<lambda>iv. case iv_class iv of Vc_globalvar ig \<Rightarrow> ig_name ig = Some name | _ \<Rightarrow> False)
            (List.map_filter id (take (iu_next_value iu) (iu_values iu))) of
        Some iv \<Rightarrow> (case iv_class iv of Vc_globalvar ig \<Rightarrow> Some ig | _ \<Rightarrow> None)
      | None \<Rightarrow> None)"

datatype vmir_error = VMIR_ERR_NOT_BITCODE | VMIR_ERR_LOAD_ERROR

definition heap_start :: "ir_unit \<Rightarrow> u32" where
  "heap_start iu = VMIR_ALIGN (iu_data_ptr iu) 4096"

text \<open>
  \<open>vmir_load\<close> up to the initialisation of global variables: the unit, guest memory, and the start of
  the heap. A parser error makes the load fail; the other errors of the model are outcomes the C code
  has no defined result for. The outer option is the bound on the number of parser calls.
\<close>

definition vmir_load :: "nat \<Rightarrow> parse_env \<Rightarrow> ir_unit \<Rightarrow> vmem \<Rightarrow> u8 list \<Rightarrow>
    (vmir_error + (ir_unit \<times> vmem \<times> u32)) result option" where
  "vmir_load n env iu m u8 =
     (let bs = \<lparr>rdata = u8, bytes_length = length u8, bytes_offset = 0, remain = 0, tmp = 0\<rparr>;
          failed = (\<lambda>e. case e of Parser_error _ \<Rightarrow> Inr (Inl VMIR_ERR_LOAD_ERROR) | _ \<Rightarrow> Inl e)
      in opt_bind (Some (read_bits bs 32)) (\<lambda>(x, bs1).
           if x \<noteq> 0xdec04342 then Some (Inr (Inl VMIR_ERR_NOT_BITCODE))
           else
             (case ir_parse_blocks n env (iu\<lparr>iu_functions_with_bodies := [], iu_data_ptr := 4096\<rparr>) 2 None None bs1 of
                None \<Rightarrow> None
              | Some (Inl e) \<Rightarrow> Some (failed e)
              | Some (Inr (iu1, _)) \<Rightarrow>
                  (case initialize_globals iu1 m (iu_initializers iu1) of
                     Inl e \<Rightarrow> Some (failed e)
                   | Inr m1 \<Rightarrow> Some (Inr (Inr (iu1, m1, heap_start iu1)))))))"

end
