(* ===== verification/Vmir_Type_Props.thy ===== *)
theory Vmir_Type_Props
  imports Vmir_Type
begin

text \<open>
  What the type table promises: \<open>types_finalize\<close> gives every structure the layout of the C ABI
  (offsets aligned, in order, disjoint; the size a multiple of the alignment), a size or alignment once
  computed never changes, the records of a TYPE block rebuild the types they describe, and
  \<open>type_make_pointer\<close> only extends the table. \<open>field_layout\<close> is the layout as a function of sizes
  and alignments alone, \<open>abi_layout\<close> its specification without the algorithm.
\<close>

section \<open>Reference layout\<close>

text \<open>The layout of the C ABI for fields of given size and alignment, from offset \<open>off\<close> on.\<close>

fun field_layout :: "bool \<Rightarrow> int \<Rightarrow> int \<Rightarrow> (int \<times> int) list \<Rightarrow> int list \<times> int \<times> int" where
  "field_layout packed off ba [] = ([], off, ba)"
| "field_layout packed off ba ((s, a) # xs) =
    (let o' = (if packed then off else VMIR_ALIGN off a);
         (os, e, b) = field_layout packed (o' + s) (if packed then ba else max ba a) xs
     in (o' # os, e, b))"

section \<open>How the table evolves\<close>

definition wf_types :: "types \<Rightarrow> bool" where
  "wf_types tys = (\<forall>k s. k < length tys \<and> tys ! k = It_struct s \<and> \<not> st_computed s \<longrightarrow>
     st_size s = None \<and> st_alignment s = None)"

definition same_shape :: "ir_type \<Rightarrow> ir_type \<Rightarrow> bool" where
  "same_shape t t' = (case (t, t') of
     (It_struct s, It_struct s') \<Rightarrow> map fst (st_elements s') = map fst (st_elements s) \<and>
        st_packed s' = st_packed s \<and> st_name s' = st_name s
   | _ \<Rightarrow> t' = t)"

text \<open>Only structures that have no layout yet change, and of these only the layout.\<close>

definition evolves :: "types \<Rightarrow> types \<Rightarrow> bool" where
  "evolves tys tys' = (length tys' = length tys \<and>
     (\<forall>k<length tys. tys' ! k = tys ! k \<or> uncomputed (tys ! k) \<and> same_shape (tys ! k) (tys' ! k)))"

lemma same_shape_trans: "same_shape a b \<Longrightarrow> same_shape b c \<Longrightarrow> same_shape a c"
  by (auto simp: same_shape_def split: ir_type.splits)

lemma same_shape_refl [simp]: "same_shape a a"
  by (auto simp: same_shape_def split: ir_type.splits)

lemma evolves_refl [simp]: "evolves tys tys"
  by (simp add: evolves_def)

lemma evolves_trans: "evolves a b \<Longrightarrow> evolves b c \<Longrightarrow> evolves a c"
proof -
  assume ab: "evolves a b" and bc: "evolves b c"
  have "c ! k = a ! k \<or> uncomputed (a ! k) \<and> same_shape (a ! k) (c ! k)" if "k < length a" for k
    using ab bc that
    by (cases "b ! k = a ! k"; cases "c ! k = b ! k") (auto simp: evolves_def intro: same_shape_trans)
  then show ?thesis using ab bc by (simp add: evolves_def)
qed

lemma evolves_length: "evolves tys tys' \<Longrightarrow> length tys' = length tys"
  by (simp add: evolves_def)

lemma evolves_shape: "evolves tys tys' \<Longrightarrow> k < length tys \<Longrightarrow> same_shape (tys ! k) (tys' ! k)"
  by (auto simp: evolves_def dest!: spec [of _ k])

lemma evolves_get: "evolves tys tys' \<Longrightarrow> type_get tys i = Inr t \<Longrightarrow> type_get tys' i = Inr (tys' ! unat i) \<and> t = tys ! unat i \<and> unat i < length tys"
  by (auto simp: type_get_def evolves_def split: if_splits)

lemma uncomputed_flat:
  assumes "wf_types tys" "k < length tys" "uncomputed (tys ! k)"
  shows "flat_sizeof (tys ! k) = Inl Undefined_behaviour" "flat_alignment (tys ! k) = Inl Undefined_behaviour"
  using assms by (auto simp: wf_types_def uncomputed_def uninit_def split: ir_type.splits)

lemma uncomputed_not_array: "uncomputed t \<Longrightarrow> t \<noteq> It_array a b"
  by (auto simp: uncomputed_def)

text \<open>A size or an alignment that has been computed never changes.\<close>

lemma sizeof_stable:
  assumes "wf_types tys" "evolves tys tys'"
  shows "k < length tys \<Longrightarrow> type_sizeof_ptr n tys (tys ! k) = Inr v \<Longrightarrow> type_sizeof_ptr n tys' (tys' ! k) = Inr v"
proof (induction n arbitrary: k v)
  case 0
  then show ?case
    using assms uncomputed_flat(1) [OF assms(1), of k]
    by (cases "tys' ! k = tys ! k") (auto simp: evolves_def dest: uncomputed_not_array split: ir_type.splits)
next
  case (Suc n)
  show ?case
  proof (cases "tys' ! k = tys ! k")
    case True
    show ?thesis
    proof (cases "\<exists>num el. tys ! k = It_array num el")
      case arr: True
      then obtain num el where t: "tys ! k = It_array num el" by auto
      with Suc.prems obtain t s where g: "type_get tys el = Inr t" "type_sizeof_ptr n tys t = Inr s" "v = s * num"
        by (auto simp: res_simps)
      with evolves_get [OF assms(2) g(1)] Suc.IH show ?thesis
        using True t by auto
    next
      case False
      with True Suc.prems show ?thesis by (auto split: ir_type.splits)
    qed
  next
    case False
    with assms(2) Suc.prems have "uncomputed (tys ! k)" by (auto simp: evolves_def)
    with Suc.prems uncomputed_flat(1) [OF assms(1), of k] show ?thesis
      by (auto dest: uncomputed_not_array split: ir_type.splits)
  qed
qed

lemma alignment_stable:
  assumes "wf_types tys" "evolves tys tys'"
  shows "k < length tys \<Longrightarrow> type_alignment_ptr n tys (tys ! k) = Inr v \<Longrightarrow> type_alignment_ptr n tys' (tys' ! k) = Inr v"
proof (induction n arbitrary: k v)
  case 0
  then show ?case
    using assms uncomputed_flat(2) [OF assms(1), of k]
    by (cases "tys' ! k = tys ! k") (auto simp: evolves_def dest: uncomputed_not_array split: ir_type.splits)
next
  case (Suc n)
  show ?case
  proof (cases "tys' ! k = tys ! k")
    case True
    show ?thesis
    proof (cases "\<exists>num el. tys ! k = It_array num el")
      case arr: True
      then obtain num el where t: "tys ! k = It_array num el" by auto
      with Suc.prems obtain t where g: "type_get tys el = Inr t" "type_alignment_ptr n tys t = Inr v"
        by (auto simp: res_simps)
      with evolves_get [OF assms(2) g(1)] Suc.IH show ?thesis
        using True t by auto
    next
      case False
      with True Suc.prems show ?thesis by (auto split: ir_type.splits)
    qed
  next
    case False
    with assms(2) Suc.prems have "uncomputed (tys ! k)" by (auto simp: evolves_def)
    with Suc.prems uncomputed_flat(2) [OF assms(1), of k] show ?thesis
      by (auto dest: uncomputed_not_array split: ir_type.splits)
  qed
qed

text \<open>The types a value of a type contains; no type may contain itself.\<close>

fun contained :: "ir_type \<Rightarrow> u32 list" where
  "contained (It_struct s) = map fst (st_elements s)"
| "contained (It_array n e) = [e]"
| "contained _ = []"

definition acyclic_types :: "(nat \<Rightarrow> nat) \<Rightarrow> types \<Rightarrow> bool" where
  "acyclic_types rank tys = (\<forall>k<length tys. \<forall>t\<in>set (contained (tys ! k)).
     unat t < length tys \<longrightarrow> rank (unat t) < rank k)"

definition field_of :: "types \<Rightarrow> bool \<Rightarrow> u32 \<Rightarrow> int \<times> int \<Rightarrow> bool" where
  "field_of tys packed t x = (unat t < length tys \<and>
     (\<exists>v. type_sizeof_ptr (length tys) tys (tys ! unat t) = Inr v \<and> sint v = fst x) \<and>
     (\<not> packed \<longrightarrow> (\<exists>w. type_alignment_ptr (length tys) tys (tys ! unat t) = Inr w \<and> sint w = snd x)))"

definition laid_out :: "types \<Rightarrow> ir_struct \<Rightarrow> bool" where
  "laid_out tys s = (\<exists>xs offs e b. list_all2 (field_of tys (st_packed s)) (map fst (st_elements s)) xs \<and>
     field_layout (st_packed s) 0 1 xs = (offs, e, b) \<and> map snd (st_elements s) = map Some offs \<and>
     st_size s = Some (if st_packed s then e else VMIR_ALIGN e b) \<and> st_alignment s = Some b)"

lemma same_shape_contained: "same_shape t t' \<Longrightarrow> contained t' = contained t"
  by (auto simp: same_shape_def split: ir_type.splits)

lemma acyclic_evolves:
  assumes "acyclic_types rank tys" "evolves tys tys'"
  shows "acyclic_types rank tys'"
  using assms(1) same_shape_contained [OF evolves_shape [OF assms(2)]] evolves_length [OF assms(2)]
  by (simp add: acyclic_types_def)

lemma field_of_stable:
  assumes "wf_types tys" "evolves tys tys'" "field_of tys packed t x"
  shows "field_of tys' packed t x"
  using assms(3) sizeof_stable [OF assms(1,2), of "unat t"] alignment_stable [OF assms(1,2), of "unat t"]
    evolves_length [OF assms(2)]
  by (fastforce simp: field_of_def)

definition done_at :: "types \<Rightarrow> nat \<Rightarrow> bool" where
  "done_at tys k = (\<forall>s. tys ! k = It_struct s \<longrightarrow> st_computed s \<and> laid_out tys s)"

lemma laid_out_stable:
  assumes "wf_types tys" "evolves tys tys'" "laid_out tys s"
  shows "laid_out tys' s"
proof -
  from assms(3) obtain xs offs e b where *: "list_all2 (field_of tys (st_packed s)) (map fst (st_elements s)) xs"
    "field_layout (st_packed s) 0 1 xs = (offs, e, b)" "map snd (st_elements s) = map Some offs"
    "st_size s = Some (if st_packed s then e else VMIR_ALIGN e b)" "st_alignment s = Some b"
    unfolding laid_out_def by blast
  from *(1) have "list_all2 (field_of tys' (st_packed s)) (map fst (st_elements s)) xs"
    by (rule list_all2_mono) (rule field_of_stable [OF assms(1,2)])
  with * show ?thesis unfolding laid_out_def by blast
qed

lemma done_at_stable:
  assumes "wf_types tys" "evolves tys tys'" "k < length tys" "done_at tys k"
  shows "done_at tys' k"
  unfolding done_at_def
proof (intro allI impI)
  fix s assume s: "tys' ! k = It_struct s"
  then have "same_shape (tys ! k) (It_struct s)"
    using evolves_shape [OF assms(2,3)] by simp
  then obtain s0 where s0: "tys ! k = It_struct s0"
    by (auto simp: same_shape_def split: ir_type.splits)
  with assms(4) have c: "st_computed s0" "laid_out tys s0" by (auto simp: done_at_def)
  then have "tys' ! k = tys ! k"
    using assms(2,3) s0 by (auto simp: evolves_def uncomputed_def)
  with s s0 c laid_out_stable [OF assms(1,2)] show "st_computed s \<and> laid_out tys' s" by auto
qed

definition settled :: "types \<Rightarrow> bool" where
  "settled tys = (\<forall>k<length tys. uncomputed (tys ! k) \<or> done_at tys k)"

lemma settled_step:
  assumes "wf_types tys" "evolves tys tys'" "settled tys" "\<And>k. k \<noteq> idx \<Longrightarrow> tys' ! k = tys ! k"
    "uncomputed (tys' ! idx) \<or> done_at tys' idx"
  shows "settled tys'"
  unfolding settled_def
proof (intro allI impI)
  fix k assume "k < length tys'"
  then have k: "k < length tys" using evolves_length [OF assms(2)] by simp
  with assms show "uncomputed (tys' ! k) \<or> done_at tys' k"
    using done_at_stable [OF assms(1,2) k] by (cases "k = idx") (auto simp: settled_def)
qed

lemma set_offset_at:
  assumes "tys ! idx = It_struct s" "idx < length tys"
  shows "set_offset tys idx i off ! k = (if k = idx then It_struct (s\<lparr>st_elements :=
      (st_elements s)[i := (fst (st_elements s ! i), Some off)]\<rparr>) else tys ! k)"
    and "length (set_offset tys idx i off) = length tys"
  using assms by (auto simp: set_offset_def)

lemma set_layout_at:
  assumes "tys ! idx = It_struct s" "idx < length tys"
  shows "set_layout tys idx sz al ! k = (if k = idx then It_struct (s\<lparr>st_size := Some sz, st_alignment := Some al,
      st_computed := True\<rparr>) else tys ! k)"
    and "length (set_layout tys idx sz al) = length tys"
  using assms by (auto simp: set_layout_def)

lemma evolves_at:
  assumes "idx < length tys" "uncomputed (tys ! idx)" "same_shape (tys ! idx) (tys' ! idx)"
    "length tys' = length tys" "\<And>k. k \<noteq> idx \<Longrightarrow> tys' ! k = tys ! k"
  shows "evolves tys tys'"
proof -
  have "tys' ! k = tys ! k \<or> uncomputed (tys ! k) \<and> same_shape (tys ! k) (tys' ! k)" for k
    using assms by (cases "k = idx") auto
  with assms(4) show ?thesis by (simp add: evolves_def)
qed

lemma map_fst_update: "map fst (xs[i := (fst (xs ! i), y)]) = map fst xs"
  by (cases "i < length xs") (auto intro!: nth_equalityI simp: nth_list_update)

text \<open>The step for one element: the table after its structure has been laid out.\<close>

lemma elem_table:
  assumes ac: "acyclic_types rank tys" and wf: "wf_types tys"
    and idx: "idx < length tys" "tys ! idx = It_struct s" "t \<in> fst ` set (st_elements s)"
    and get: "type_get tys t = Inr ty"
    and lay: "(if uncomputed ty then type_struct_layout n tys (unat t) else Inr tys) = Inr tys1"
    and IH: "\<And>tys'. type_struct_layout n tys (unat t) = Inr tys' \<Longrightarrow> uncomputed (tys ! unat t) \<Longrightarrow>
      unat t < length tys \<Longrightarrow> evolves tys tys' \<and> wf_types tys' \<and> (settled tys \<longrightarrow> settled tys') \<and>
      (\<forall>k<length tys. k \<noteq> unat t \<and> rank (unat t) \<le> rank k \<longrightarrow> tys' ! k = tys ! k)"
  shows "evolves tys tys1" "wf_types tys1" "settled tys \<longrightarrow> settled tys1" "unat t < length tys"
    "\<forall>k<length tys. rank idx \<le> rank k \<longrightarrow> tys1 ! k = tys ! k"
proof -
  have t: "ty = tys ! unat t" "unat t < length tys"
    using get by (auto simp: type_get_def split: if_splits)
  show "unat t < length tys" by (fact t)
  have "evolves tys tys1 \<and> wf_types tys1 \<and> (settled tys \<longrightarrow> settled tys1) \<and> (\<forall>k<length tys. rank idx \<le> rank k \<longrightarrow> tys1 ! k = tys ! k)"
  proof (cases "uncomputed ty")
    case True
    from ac idx t have "rank (unat t) < rank idx"
      by (auto simp: acyclic_types_def dest!: spec [of _ idx])
    then show ?thesis
      using IH [of tys1] True lay t by auto
  qed (use lay wf in auto)
  then show "evolves tys tys1" "wf_types tys1" "settled tys \<longrightarrow> settled tys1" "\<forall>k<length tys. rank idx \<le> rank k \<longrightarrow> tys1 ! k = tys ! k"
    by auto
qed

lemma place_field:
  assumes "place packed off ba al = Inr (off1, ba1)"
  shows "if packed then off1 = off \<and> ba1 = ba
    else \<exists>w. al = Inr w \<and> off1 = VMIR_ALIGN off (sint w) \<and> ba1 = max ba (sint w)"
  using assms by (auto simp: place_def align_int_def res_simps split: option.splits if_splits)

lemma add_int_Inr: "add_int x y = Inr z \<Longrightarrow> z = x + y"
  by (auto simp: add_int_def c_int_def split: option.splits if_splits)

lemma wf_types_struct: "wf_types tys \<Longrightarrow> k < length tys \<Longrightarrow> uncomputed (It_struct s) \<Longrightarrow> tys ! k = It_struct s \<Longrightarrow>
   st_size s = None \<and> st_alignment s = None"
  by (auto simp: wf_types_def uncomputed_def)

lemma wf_types_update:
  assumes "wf_types tys" "\<And>k. k \<noteq> idx \<Longrightarrow> tys' ! k = tys ! k" "length tys' = length tys"
    "tys' ! idx = It_struct s'" "st_computed s' \<or> st_size s' = None \<and> st_alignment s' = None"
  shows "wf_types tys'"
  unfolding wf_types_def
proof (intro allI impI)
  fix k s assume "k < length tys' \<and> tys' ! k = It_struct s \<and> \<not> st_computed s"
  then show "st_size s = None \<and> st_alignment s = None"
    using assms by (cases "k = idx") (auto simp: wf_types_def)
qed

lemma field_layout_length: "field_layout p o' b xs = (offs, e, c) \<Longrightarrow> length offs = length xs"
  by (induction p o' b xs arbitrary: offs e c rule: field_layout.induct) (auto simp: Let_def split: prod.splits)

lemma drop_map_Cons:
  assumes "map f (drop i xs) = y # ys"
  shows "i < length xs" "f (xs ! i) = y" "map f (drop (Suc i) xs) = ys"
proof -
  show il: "i < length xs"
    using assms by (cases "i < length xs") auto
  have "map f (drop i xs) = f (xs ! i) # map f (drop (Suc i) xs)"
    by (simp only: Cons_nth_drop_Suc [OF il, symmetric] list.simps)
  with assms show "f (xs ! i) = y" "map f (drop (Suc i) xs) = ys" by auto
qed

lemma layout_induct:
  shows "\<And>tys'. type_struct_layout n tys idx = Inr tys' \<Longrightarrow> wf_types tys \<Longrightarrow> acyclic_types rank tys \<Longrightarrow>
      idx < length tys \<Longrightarrow> uncomputed (tys ! idx) \<Longrightarrow>
      evolves tys tys' \<and> wf_types tys' \<and> (settled tys \<longrightarrow> settled tys') \<and>
      (\<forall>k<length tys. k \<noteq> idx \<and> rank idx \<le> rank k \<longrightarrow> tys' ! k = tys ! k) \<and>
      (\<exists>s'. tys' ! idx = It_struct s' \<and> st_computed s' \<and> laid_out tys' s')"
    and "\<And>tys' off' ba' s. layout_elems n tys idx packed i ts off ba = Inr (tys', off', ba') \<Longrightarrow> wf_types tys \<Longrightarrow>
      acyclic_types rank tys \<Longrightarrow> idx < length tys \<Longrightarrow> tys ! idx = It_struct s \<Longrightarrow> \<not> st_computed s \<Longrightarrow>
      map fst (drop i (st_elements s)) = ts \<Longrightarrow>
      evolves tys tys' \<and> wf_types tys' \<and> (settled tys \<longrightarrow> settled tys') \<and>
      (\<forall>k<length tys. k \<noteq> idx \<and> rank idx \<le> rank k \<longrightarrow> tys' ! k = tys ! k) \<and>
      (\<exists>xs offs. list_all2 (field_of tys' packed) ts xs \<and> field_layout packed off ba xs = (offs, off', ba') \<and>
        tys' ! idx = It_struct (s\<lparr>st_elements := take i (st_elements s) @ zip ts (map Some offs)\<rparr>))"
proof (induction n tys idx and n tys idx packed i ts off ba rule: type_struct_layout_layout_elems.induct)
  case (1 tys idx)
  then show ?case by simp
next
  case (2 n tys idx)
  from 2(6) obtain s where s: "tys ! idx = It_struct s" "\<not> st_computed s"
    by (auto simp: uncomputed_def split: ir_type.splits)
  from 2(2) s obtain tys1 off ba sz where
    el: "layout_elems n tys idx (st_packed s) 0 (map fst (st_elements s)) 0 1 = Inr (tys1, off, ba)" and
    sz: "(if st_packed s then Inr off else align_int off ba) = Inr sz" and
    tys': "tys' = set_layout tys1 idx sz ba"
    by (auto simp: res_simps)
  from 2(1) [OF s(1) el 2(3-5) s(1,2)] obtain xs offs where
    ev: "evolves tys tys1" and se1: "settled tys \<longrightarrow> settled tys1" and wf1: "wf_types tys1" and
    un: "\<forall>k<length tys. k \<noteq> idx \<and> rank idx \<le> rank k \<longrightarrow> tys1 ! k = tys ! k" and
    fl: "list_all2 (field_of tys1 (st_packed s)) (map fst (st_elements s)) xs"
      "field_layout (st_packed s) 0 1 xs = (offs, off, ba)" and
    at: "tys1 ! idx = It_struct (s\<lparr>st_elements := zip (map fst (st_elements s)) (map Some offs)\<rparr>)"
    by auto
  have len: "length tys1 = length tys" using ev by (rule evolves_length)
  with 2(5) have i1: "idx < length tys1" by simp
  let ?s = "s\<lparr>st_elements := zip (map fst (st_elements s)) (map Some offs)\<rparr>"
  note lay = set_layout_at [OF at i1, of sz ba]
  have "length offs = length xs" if "field_layout p o' b xs = (offs, e, c)" for p o' b e c
    using that by (rule field_layout_length)
  with fl have lo: "length offs = length (st_elements s)"
    by (auto dest!: list_all2_lengthD)
  have ev2: "evolves tys1 tys'"
    unfolding tys' using s lay by (intro evolves_at [OF i1]) (auto simp: at uncomputed_def same_shape_def)
  have wf2: "wf_types tys'"
    unfolding tys' by (rule wf_types_update [OF wf1, of idx]) (auto simp: lay)
  have "list_all2 (field_of tys' (st_packed s)) (map fst (st_elements s)) xs"
    using fl(1) by (rule list_all2_mono) (rule field_of_stable [OF wf1 ev2])
  then have "laid_out tys' (?s\<lparr>st_size := Some sz, st_alignment := Some ba, st_computed := True\<rparr>)"
    using fl(2) sz lo unfolding laid_out_def
    by (intro exI [of _ xs] exI [of _ offs]) (auto simp: align_int_def split: if_splits option.splits)
  then have dn: "done_at tys' idx"
    by (simp add: done_at_def tys' lay)
  have "settled tys \<longrightarrow> settled tys'"
    using settled_step [OF wf1 ev2, of idx] se1 dn by (simp add: tys' lay)
  with dn wf2 evolves_trans [OF ev ev2] un lay len show ?case
    by (auto simp: tys' done_at_def)
next
  case (3 n tys idx packed i off ba)
  then show ?case by (intro conjI exI [of _ "[]"]) auto
next
  case (4 n tys idx packed i t ts off ba)
  from 4(3) obtain ty tys1 v off1 ba1 off2 where get: "type_get tys t = Inr ty" and
    lay: "(if uncomputed ty then type_struct_layout n tys (unat t) else Inr tys) = Inr tys1" and
    sz: "type_sizeof_ptr (length tys1) tys1 (tys1 ! unat t) = Inr v" and
    pl: "place packed off ba (type_alignment_ptr (length tys1) tys1 (tys1 ! unat t)) = Inr (off1, ba1)" and
    ad: "add_int off1 (sint v) = Inr off2" and
    rest: "layout_elems n (set_offset tys1 idx i off1) idx packed (Suc i) ts off2 ba1 = Inr (tys', off', ba')"
    by (auto simp: res_simps)
  note i = drop_map_Cons [OF 4(9)]
  from i have tin: "t \<in> fst ` set (st_elements s)" by (metis image_eqI nth_mem)
  have tyn: "ty = tys ! unat t"
    using get by (auto simp: type_get_def split: if_splits)
  have IH1: "evolves tys tys' \<and> wf_types tys' \<and> (settled tys \<longrightarrow> settled tys') \<and> (\<forall>k<length tys. k \<noteq> unat t \<and> rank (unat t) \<le> rank k \<longrightarrow> tys' ! k = tys ! k)"
    if "type_struct_layout n tys (unat t) = Inr tys'" "uncomputed (tys ! unat t)" "unat t < length tys" for tys'
    using 4(1) [OF get _ that(1) 4(4,5) that(3,2)] that(2) tyn by blast
  have E: "evolves tys tys1" "wf_types tys1" "settled tys \<longrightarrow> settled tys1" "unat t < length tys" "\<forall>k<length tys. rank idx \<le> rank k \<longrightarrow> tys1 ! k = tys ! k"
    using elem_table [OF 4(5,4,6,7) tin get lay] IH1 by blast+
  define tys2 where "tys2 = set_offset tys1 idx i off1"
  have len: "length tys1 = length tys" using E(1) by (rule evolves_length)
  have at1: "tys1 ! idx = It_struct s" "idx < length tys1" using E 4(6,7) len by auto
  let ?s2 = "s\<lparr>st_elements := (st_elements s)[i := (t, Some off1)]\<rparr>"
  have at2: "tys2 ! k = (if k = idx then It_struct ?s2 else tys1 ! k)" "length tys2 = length tys1" for k
    using set_offset_at [OF at1, of i off1] i by (auto simp: tys2_def)
  have "map fst (st_elements ?s2) = map fst (st_elements s)"
    using map_fst_update [of "st_elements s" i "Some off1"] i by simp
  then have ev2: "evolves tys1 tys2"
    using 4(8) at1 at2 by (intro evolves_at [OF at1(2)]) (auto simp: uncomputed_def same_shape_def)
  have "st_size s = None \<and> st_alignment s = None"
    using wf_types_struct [OF 4(4,6)] 4(7,8) by (auto simp: uncomputed_def)
  then have wf2: "wf_types tys2"
    using at2 by (intro wf_types_update [OF E(2), of idx]) auto
  have se2: "settled tys \<longrightarrow> settled tys2"
    using settled_step [OF E(2) ev2, of idx] E(3) at2 4(8) by (simp add: uncomputed_def)
  have ac2: "acyclic_types rank tys2"
    by (rule acyclic_evolves [OF 4(5) evolves_trans [OF E(1) ev2]])
  have d2: "map fst (drop (Suc i) (st_elements ?s2)) = ts"
    using i by simp
  have id2: "idx < length tys2" "tys2 ! idx = It_struct ?s2" "\<not> st_computed ?s2"
    using at1 at2 4(8) by auto
  from 4(2) [OF get lay sz pl _ ad, folded tys2_def, OF _ rest [folded tys2_def] wf2 ac2 id2 d2]
  obtain xs offs where ev3: "evolves tys2 tys'" and se3: "settled tys2 \<longrightarrow> settled tys'" and wf3: "wf_types tys'"
    and un3: "\<forall>k<length tys2. k \<noteq> idx \<and> rank idx \<le> rank k \<longrightarrow> tys' ! k = tys2 ! k"
    and fl3: "list_all2 (field_of tys' packed) ts xs" "field_layout packed off2 ba1 xs = (offs, off', ba')"
    and at3: "tys' ! idx = It_struct (?s2\<lparr>st_elements := take (Suc i) (st_elements ?s2) @ zip ts (map Some offs)\<rparr>)"
    by auto
  have tk: "take (Suc i) (st_elements ?s2) = take i (st_elements s) @ [(t, Some off1)]"
    using i by (simp add: take_Suc_conv_app_nth)
  have "\<exists>a. (if packed then off1 = off \<and> ba1 = ba else off1 = VMIR_ALIGN off a \<and> ba1 = max ba a) \<and>
      field_of tys1 packed t (sint v, a)"
    using place_field [OF pl] sz E(4) len by (auto simp: field_of_def split: if_splits)
  then obtain a where a: "if packed then off1 = off \<and> ba1 = ba else off1 = VMIR_ALIGN off a \<and> ba1 = max ba a"
    "field_of tys1 packed t (sint v, a)" by auto
  have "field_of tys' packed t (sint v, a)"
    by (rule field_of_stable [OF E(2) evolves_trans [OF ev2 ev3] a(2)])
  then have "list_all2 (field_of tys' packed) (t # ts) ((sint v, a) # xs)"
    using fl3 by simp
  moreover have "field_layout packed off ba ((sint v, a) # xs) = (off1 # offs, off', ba')"
    using a(1) fl3(2) add_int_Inr [OF ad] by (auto simp: Let_def split: if_splits)
  moreover have "tys' ! idx = It_struct (s\<lparr>st_elements := take i (st_elements s) @ zip (t # ts) (map Some (off1 # offs))\<rparr>)"
    using at3 tk by simp
  moreover have "evolves tys tys'"
    by (rule evolves_trans [OF E(1) evolves_trans [OF ev2 ev3]])
  moreover have "\<forall>k<length tys. k \<noteq> idx \<and> rank idx \<le> rank k \<longrightarrow> tys' ! k = tys ! k"
    using un3 E(5) at2 len by auto
  ultimately show ?case using wf3 se2 se3 by blast
qed

definition fresh_types :: "types \<Rightarrow> bool" where
  "fresh_types tys = (\<forall>k<length tys. case tys ! k of It_struct s \<Rightarrow>
     \<not> st_computed s \<and> st_size s = None \<and> st_alignment s = None | _ \<Rightarrow> True)"

lemma fresh_wf: "fresh_types tys \<Longrightarrow> wf_types tys \<and> settled tys"
  by (auto simp: fresh_types_def wf_types_def settled_def done_at_def uncomputed_def split: ir_type.splits)

lemma finalize_from_correct:
  "finalize_from tys is = Inr tys' \<Longrightarrow> wf_types tys \<Longrightarrow> settled tys \<Longrightarrow> acyclic_types rank tys \<Longrightarrow>
    \<forall>i\<in>set is. i < length tys \<Longrightarrow> evolves tys tys' \<and> (\<forall>i\<in>set is. done_at tys' i)"
proof (induction tys "is" rule: finalize_from.induct)
  case (1 tys)
  then show ?case by simp
next
  case (2 tys i "is")
  show ?case
  proof (cases "uncomputed (tys ! i)")
    case True
    with 2(3) obtain tys1 where l: "type_struct_layout (length tys) tys i = Inr tys1" "finalize_from tys1 is = Inr tys'"
      by (auto simp: res_simps)
    have i: "i < length tys" using 2(7) by simp
    from layout_induct(1) [OF l(1) 2(4,6) i True] 2(5) have ev: "evolves tys tys1" and wf: "wf_types tys1" "settled tys1"
      and di: "done_at tys1 i" by (auto simp: done_at_def)
    have len: "length tys1 = length tys" using ev by (rule evolves_length)
    from 2(1) [OF True l wf acyclic_evolves [OF 2(6) ev]] 2(7) len
    have ev2: "evolves tys1 tys'" and dn: "\<forall>i\<in>set is. done_at tys' i" by auto
    show ?thesis
      using evolves_trans [OF ev ev2] dn done_at_stable [OF wf(1) ev2 _ di] i len by simp
  next
    case False
    with 2(5,7) have "done_at tys i" by (auto simp: settled_def)
    moreover from 2(2) [OF False _ 2(4-6)] 2(3,7) False have "evolves tys tys'" "\<forall>i\<in>set is. done_at tys' i" by auto
    ultimately show ?thesis using done_at_stable [OF 2(4)] 2(7) by auto
  qed
qed

lemma types_finalize_laid_out:
  assumes "types_finalize ts = Inr ts'" "fresh_types (iu_types ts)" "acyclic_types rank (iu_types ts)"
  shows "evolves (iu_types ts) (iu_types ts')"
    "It_struct s \<in> set (iu_types ts') \<Longrightarrow> st_computed s \<and> laid_out (iu_types ts') s"
proof -
  from assms(1) have f: "finalize_from (iu_types ts) [0..<length (iu_types ts)] = Inr (iu_types ts')"
    by (auto simp: types_finalize_def res_simps)
  from finalize_from_correct [OF f _ _ assms(3)] fresh_wf [OF assms(2)]
  have ev: "evolves (iu_types ts) (iu_types ts')" and dn: "\<forall>i<length (iu_types ts). done_at (iu_types ts') i"
    by auto
  show "evolves (iu_types ts) (iu_types ts')" by (fact ev)
  show "st_computed s \<and> laid_out (iu_types ts') s" if "It_struct s \<in> set (iu_types ts')"
    using that dn evolves_length [OF ev] by (auto simp: done_at_def in_set_conv_nth)
qed

text \<open>The least multiple of \<open>a\<close> that is at least \<open>m\<close>.\<close>

definition next_multiple :: "int \<Rightarrow> int \<Rightarrow> int \<Rightarrow> bool" where
  "next_multiple a m x = (a dvd x \<and> m \<le> x \<and> x < m + a)"

definition field_end :: "(int \<times> int) list \<Rightarrow> int list \<Rightarrow> nat \<Rightarrow> int" where
  "field_end fs offs i = (if i = 0 then 0 else offs ! (i - 1) + fst (fs ! (i - 1)))"

definition abi_layout :: "bool \<Rightarrow> (int \<times> int) list \<Rightarrow> int list \<Rightarrow> int \<Rightarrow> int \<Rightarrow> bool" where
  "abi_layout packed fs offs sz al = (length offs = length fs \<and>
     (\<forall>i<length fs. next_multiple (if packed then 1 else snd (fs ! i)) (field_end fs offs i) (offs ! i)) \<and>
     al = (if packed then 1 else Max (insert 1 (snd ` set fs))) \<and>
     next_multiple al (field_end fs offs (length fs)) sz)"

definition pow2_align :: "int \<Rightarrow> bool" where
  "pow2_align a = (a = 1 \<or> a = 2 \<or> a = 4 \<or> a = 8)"

lemma align_next_multiple:
  assumes "pow2_align a"
  shows "next_multiple a m (VMIR_ALIGN m a)"
proof -
  have "a = 2 ^ 0 \<or> a = 2 ^ 1 \<or> a = 2 ^ 2 \<or> a = 2 ^ 3"
    using assms by (simp add: pow2_align_def)
  then obtain n where n: "a = 2 ^ n" by blast
  show ?thesis
    unfolding n next_multiple_def
    using VMIR_ALIGN_int_dvd [of n m] VMIR_ALIGN_int_bounds [of m n] by auto
qed

lemma next_multiple_1: "next_multiple 1 m x \<longleftrightarrow> x = m"
  by (auto simp: next_multiple_def)

text \<open>The reference layout starting at \<open>off\<close> with largest alignment \<open>ba\<close>.\<close>

lemma field_layout_abi:
  "field_layout packed off ba fs = (offs, e, b) \<Longrightarrow> packed \<or> (\<forall>f\<in>set fs. pow2_align (snd f)) \<Longrightarrow>
    length offs = length fs \<and>
    (\<forall>i<length fs. next_multiple (if packed then 1 else snd (fs ! i)) (if i = 0 then off else field_end fs offs i) (offs ! i)) \<and>
    b = (if packed then ba else Max (insert ba (snd ` set fs))) \<and>
    e = (if fs = [] then off else field_end fs offs (length fs))"
proof (induction packed off ba fs arbitrary: offs e b rule: field_layout.induct)
  case (1 packed off ba)
  then show ?case by auto
next
  case (2 packed off ba s a xs)
  define o1 where "o1 = (if packed then off else VMIR_ALIGN off a)"
  let ?b = "if packed then ba else max ba a"
  obtain os where fl: "field_layout packed (o1 + s) ?b xs = (os, e, b)" and offs: "offs = o1 # os"
    using 2(2) by (auto simp: Let_def o1_def split: prod.splits)
  have p: "packed \<or> (\<forall>f\<in>set xs. pow2_align (snd f))" using 2(3) by auto
  have ih: "length os = length xs"
    "\<forall>i<length xs. next_multiple (if packed then 1 else snd (xs ! i)) (if i = 0 then o1 + s else field_end xs os i) (os ! i)"
    "b = (if packed then ?b else Max (insert ?b (snd ` set xs)))"
    "e = (if xs = [] then o1 + s else field_end xs os (length xs))"
    using 2(1) [OF o1_def fl p] by blast+
  have fe: "field_end ((s, a) # xs) offs (Suc i) = (if i = 0 then o1 + s else field_end xs os i)" for i
    by (cases i) (auto simp: field_end_def offs)
  have o: "next_multiple (if packed then 1 else a) off o1"
    using 2(3) by (auto simp: next_multiple_1 o1_def intro: align_next_multiple)
  have "next_multiple (if packed then 1 else snd (((s, a) # xs) ! i))
      (if i = 0 then off else field_end ((s, a) # xs) offs i) (offs ! i)" if "i < length ((s, a) # xs)" for i
  proof (cases i)
    case 0
    with o show ?thesis by (auto simp: offs split: if_splits)
  next
    case (Suc j)
    with that ih(2) have "next_multiple (if packed then 1 else snd (xs ! j)) (if j = 0 then o1 + s else field_end xs os j) (os ! j)"
      by simp
    with Suc fe [of j] show ?thesis by (auto simp: offs split: if_splits)
  qed
  moreover have "b = (if packed then ba else Max (insert ba (snd ` set ((s, a) # xs))))"
    using ih(3) by (cases "xs = []") (auto simp: max.assoc insert_commute)
  ultimately show ?case
    using ih(1,4) fe [of "length xs"] by (auto simp: offs)
qed

text \<open>Every alignment of a laid out table is a power of two; only \<open>void\<close> has none.\<close>

lemma alignment_array:
  assumes "type_alignment_ptr n tys it = Inr w"
  shows "(\<exists>num el. it = It_array num el \<and> (\<exists>m t. type_get tys el = Inr t \<and> type_alignment_ptr m tys t = Inr w))
    \<or> flat_alignment it = Inr w"
  using assms by (cases n) (auto simp: res_simps split: ir_type.splits)

lemma max_pow2: "pow2_align a \<Longrightarrow> pow2_align b \<or> b = 0 \<Longrightarrow> pow2_align (max a b)"
  by (auto simp: pow2_align_def)

lemma field_layout_pow2:
  "field_layout packed off ba fs = (offs, e, b) \<Longrightarrow> pow2_align ba \<Longrightarrow>
    packed \<or> (\<forall>f\<in>set fs. pow2_align (snd f) \<or> snd f = 0) \<Longrightarrow> pow2_align b"
  by (induction packed off ba fs arbitrary: offs e b rule: field_layout.induct)
    (auto simp: Let_def max_pow2 split: prod.splits if_splits)

lemma list_all2_right: "list_all2 P xs ys \<Longrightarrow> y \<in> set ys \<Longrightarrow> \<exists>x\<in>set xs. P x y"
  by (induction rule: list_all2_induct) auto

lemma alignment_pow2:
  assumes ac: "acyclic_types rank tys" and lo: "\<And>s. It_struct s \<in> set tys \<Longrightarrow> laid_out tys s"
  shows "k < length tys \<Longrightarrow> type_alignment_ptr n tys (tys ! k) = Inr w \<Longrightarrow> pow2_align (sint w) \<or> sint w = 0"
proof (induction "rank k" arbitrary: k n w rule: less_induct)
  case less
  have sub: "pow2_align (sint w) \<or> sint w = 0"
    if "t \<in> set (contained (tys ! k))" "unat t < length tys" "type_alignment_ptr m tys (tys ! unat t) = Inr w" for t m w
    using less(1) [OF _ that(2,3)] ac less(2) that(1,2) unfolding acyclic_types_def by blast
  from alignment_array [OF less(3)] show ?case
  proof
    assume "\<exists>num el. tys ! k = It_array num el \<and> (\<exists>m t. type_get tys el = Inr t \<and> type_alignment_ptr m tys t = Inr w)"
    then obtain num el m t where "tys ! k = It_array num el" "type_get tys el = Inr t" "type_alignment_ptr m tys t = Inr w"
      by blast
    then show ?thesis using sub [of el m w] by (simp add: type_get_def split: if_splits)
  next
    assume fl: "flat_alignment (tys ! k) = Inr w"
    show ?thesis
    proof (cases "tys ! k")
      case (It_struct s)
      then have "laid_out tys s" using lo [of s] less(2) nth_mem [of k tys] by simp
      then obtain xs offs e b where la: "list_all2 (field_of tys (st_packed s)) (map fst (st_elements s)) xs"
        "field_layout (st_packed s) 0 1 xs = (offs, e, b)" "st_alignment s = Some b"
        unfolding laid_out_def by blast
      have "st_packed s \<or> (\<forall>f\<in>set xs. pow2_align (snd f) \<or> snd f = 0)"
      proof (cases "st_packed s")
        case False
        have "pow2_align (snd f) \<or> snd f = 0" if f: "f \<in> set xs" for f
        proof -
          obtain t where t: "t \<in> set (map fst (st_elements s))" "field_of tys False t f"
            using list_all2_right [OF la(1) f] False by auto
          then obtain w' where "type_alignment_ptr (length tys) tys (tys ! unat t) = Inr w'" "sint w' = snd f"
            "unat t < length tys" by (auto simp: field_of_def)
          with sub [OF _ this(3,1)] t It_struct show ?thesis by simp
        qed
        then show ?thesis by blast
      qed auto
      moreover have "pow2_align 1" by (simp add: pow2_align_def)
      ultimately have "pow2_align b" using field_layout_pow2 [OF la(2)] by blast
      with fl It_struct la(3) show ?thesis by (auto simp: uninit_def pow2_align_def)
    qed (use fl in \<open>auto simp: pow2_align_def split: if_splits\<close>)
  qed
qed

definition element_of :: "types \<Rightarrow> bool \<Rightarrow> u32 \<Rightarrow> int \<times> int \<Rightarrow> bool" where
  "element_of tys packed t f = ((\<exists>v. type_sizeof tys t = Inr v \<and> fst f = sint v) \<and>
     (packed \<or> (\<exists>w. type_alignment tys t = Inr w \<and> snd f = sint w)))"

lemma field_of_element: "field_of tys packed t f \<Longrightarrow> element_of tys packed t f"
  by (auto simp: field_of_def element_of_def type_sizeof_def type_alignment_def type_get_def res_simps)

lemma laid_out_abi:
  assumes ac: "acyclic_types rank tys" and lo: "\<And>s. It_struct s \<in> set tys \<Longrightarrow> laid_out tys s"
    and s: "It_struct s \<in> set tys" and nv: "\<And>t. t \<in> fst ` set (st_elements s) \<Longrightarrow> type_alignment tys t \<noteq> Inr 0"
  shows "\<exists>fs offs sz al. list_all2 (element_of tys (st_packed s)) (map fst (st_elements s)) fs \<and>
    map snd (st_elements s) = map Some offs \<and> st_size s = Some sz \<and> st_alignment s = Some al \<and>
    abi_layout (st_packed s) fs offs sz al"
proof -
  from lo [OF s] obtain fs offs e b where la: "list_all2 (field_of tys (st_packed s)) (map fst (st_elements s)) fs"
    "field_layout (st_packed s) 0 1 fs = (offs, e, b)" "map snd (st_elements s) = map Some offs"
    "st_size s = Some (if st_packed s then e else VMIR_ALIGN e b)" "st_alignment s = Some b"
    unfolding laid_out_def by blast
  have el: "list_all2 (element_of tys (st_packed s)) (map fst (st_elements s)) fs"
    using la(1) by (rule list_all2_mono) (rule field_of_element)
  have pw: "pow2_align (snd f)" if np: "\<not> st_packed s" and f: "f \<in> set fs" for f
  proof -
    obtain t where t: "t \<in> fst ` set (st_elements s)" "field_of tys False t f"
      using list_all2_right [OF la(1) f] np by auto
    then obtain w where w: "unat t < length tys" "type_alignment_ptr (length tys) tys (tys ! unat t) = Inr w" "sint w = snd f"
      by (auto simp: field_of_def)
    moreover have "w \<noteq> 0"
      using nv [OF t(1)] w by (auto simp: type_alignment_def type_get_def res_simps)
    then have "sint w \<noteq> 0" by (simp add: signed_eq_0_iff)
    ultimately show ?thesis using alignment_pow2 [OF ac lo, of "unat t" "length tys" w] by auto
  qed
  then have p: "st_packed s \<or> (\<forall>f\<in>set fs. pow2_align (snd f))" by blast
  note abi = field_layout_abi [OF la(2) p]
  have b: "pow2_align b"
    using field_layout_pow2 [OF la(2)] p by (auto simp: pow2_align_def)
  have e: "e = field_end fs offs (length fs)"
    using abi by (auto simp: field_end_def)
  have nx: "next_multiple b e (if st_packed s then e else VMIR_ALIGN e b)"
    using abi align_next_multiple [OF b, of e] by (auto simp: next_multiple_1)
  have at: "next_multiple (if st_packed s then 1 else snd (fs ! i)) (field_end fs offs i) (offs ! i)" if "i < length fs" for i
    using abi that by (cases "i = 0") (auto simp: field_end_def split: if_splits)
  have "abi_layout (st_packed s) fs offs (if st_packed s then e else VMIR_ALIGN e b) b"
    unfolding abi_layout_def e [symmetric] using abi at nx by blast
  with el la(3-5) show ?thesis by blast
qed

text \<open>
  C12. When \<open>types_finalize\<close> succeeds on a table whose structures have no layout yet and no type
  contains itself, every structure gets the layout of the C ABI: each field lies at the least offset
  after its predecessor that is a multiple of the alignment of its type (any offset if the structure is
  packed), the alignment of the structure is the largest of its fields, and its size is the least
  multiple of it that holds all fields. Sizes and alignments are those \<open>type_sizeof\<close> and
  \<open>type_alignment\<close> report afterwards; no field may be \<open>void\<close>, which has alignment 0.
\<close>
theorem struct_layout_abi:
  assumes "types_finalize ts = Inr ts'" and "fresh_types (iu_types ts)" and "acyclic_types rank (iu_types ts)"
    and "It_struct s \<in> set (iu_types ts')"
    and "\<And>t. t \<in> fst ` set (st_elements s) \<Longrightarrow> type_alignment (iu_types ts') t \<noteq> Inr 0"
  shows "\<exists>fs offs sz al. list_all2 (element_of (iu_types ts') (st_packed s)) (map fst (st_elements s)) fs \<and>
    map snd (st_elements s) = map Some offs \<and> st_size s = Some sz \<and> st_alignment s = Some al \<and>
    abi_layout (st_packed s) fs offs sz al"
proof (rule laid_out_abi [OF _ _ assms(4,5)])
  show "acyclic_types rank (iu_types ts')"
    by (rule acyclic_evolves [OF assms(3) types_finalize_laid_out(1) [OF assms(1-3)]])
  show "laid_out (iu_types ts') s" if "It_struct s \<in> set (iu_types ts')" for s
    using types_finalize_laid_out(2) [OF assms(1-3) that] by simp
qed

lemma abi_disjoint:
  assumes "abi_layout p fs offs sz al" "\<And>f. f \<in> set fs \<Longrightarrow> 0 \<le> fst f"
  shows "i < j \<Longrightarrow> j \<le> length fs \<Longrightarrow> offs ! i + fst (fs ! i) \<le> field_end fs offs j"
proof (induction j)
  case (Suc j)
  show ?case
  proof (cases "i = j")
    case True
    then show ?thesis by (simp add: field_end_def)
  next
    case False
    with Suc have "offs ! i + fst (fs ! i) \<le> field_end fs offs j" by simp
    also have "\<dots> \<le> offs ! j"
      using assms(1) Suc.prems by (auto simp: abi_layout_def next_multiple_def)
    also have "\<dots> \<le> field_end fs offs (Suc j)"
      using assms(2) [of "fs ! j"] Suc.prems by (simp add: field_end_def)
    finally show ?thesis .
  qed
qed simp

definition demo_struct :: "(u32 \<times> int option) list \<Rightarrow> ir_struct" where
  "demo_struct els = \<lparr>st_name = None, st_elements = els, st_size = None, st_alignment = None,
     st_packed = False, st_computed = False\<rparr>"

definition demo_types :: type_state where
  "demo_types = \<lparr>iu_types = [It_int8, It_int32, It_int64, It_array 3 0,
     It_struct (demo_struct [(0, None), (5, None), (3, None)]), It_struct (demo_struct [(1, None), (2, None)])],
     iu_types_created = False, iu_current_struct_name = None\<rparr>"

definition demo_outer :: ir_struct where
  "demo_outer = \<lparr>st_name = None, st_elements = [(0, Some 0), (5, Some 8), (3, Some 24)], st_size = Some 32,
     st_alignment = Some 8, st_packed = False, st_computed = True\<rparr>"

definition demo_laid_out :: type_state where
  "demo_laid_out = \<lparr>iu_types = [It_int8, It_int32, It_int64, It_array 3 0, It_struct demo_outer,
     It_struct \<lparr>st_name = None, st_elements = [(1, Some 0), (2, Some 8)], st_size = Some 16, st_alignment = Some 8,
       st_packed = False, st_computed = True\<rparr>],
     iu_types_created = False, iu_current_struct_name = None\<rparr>"

definition demo_rank :: "nat \<Rightarrow> nat" where
  "demo_rank k = (if k = 4 then 2 else if k = 3 \<or> k = 5 then 1 else 0)"

lemma demo_layout: "types_finalize demo_types = Inr demo_laid_out" "fresh_types (iu_types demo_types)"
  "acyclic_types demo_rank (iu_types demo_types)" "It_struct demo_outer \<in> set (iu_types demo_laid_out)"
  by code_simp+

lemma demo_elements: "t \<in> fst ` set (st_elements demo_outer) \<Longrightarrow> t = 0 \<or> t = 5 \<or> t = 3"
  by (auto simp: demo_outer_def)

lemma demo_alignments: "type_alignment (iu_types demo_laid_out) 0 = Inr 1"
  "type_alignment (iu_types demo_laid_out) 5 = Inr 8" "type_alignment (iu_types demo_laid_out) 3 = Inr 1"
  by code_simp+

lemma demo_sizes: "type_sizeof (iu_types demo_laid_out) 0 = Inr 1"
  "type_sizeof (iu_types demo_laid_out) 5 = Inr 16" "type_sizeof (iu_types demo_laid_out) 3 = Inr 3"
  by code_simp+

lemma demo_not_void: "t \<in> fst ` set (st_elements demo_outer) \<Longrightarrow> type_alignment (iu_types demo_laid_out) t \<noteq> Inr 0"
  by (drule demo_elements) (auto simp: demo_alignments)

theorem struct_layout_abi_witness:
  "types_finalize demo_types = Inr demo_laid_out \<and>
   (\<exists>fs offs sz al. list_all2 (element_of (iu_types demo_laid_out) False) [0, 5, 3] fs \<and>
      [Some 0, Some 8, Some 24] = map Some offs \<and> Some 32 = Some sz \<and> Some 8 = Some al \<and>
      abi_layout False fs offs sz al)"
  using struct_layout_abi [OF demo_layout demo_not_void] demo_layout(1) by (simp add: demo_outer_def)

lemma abi_end: "abi_layout p fs offs sz al \<Longrightarrow> i < length fs \<Longrightarrow> field_end fs offs i \<le> offs ! i"
  by (simp add: abi_layout_def next_multiple_def)

lemma abi_nonneg:
  assumes "abi_layout p fs offs sz al" "\<And>f. f \<in> set fs \<Longrightarrow> 0 \<le> fst f" "i < length fs"
  shows "0 \<le> offs ! i"
proof (cases "i = 0")
  case True
  then show ?thesis using abi_end [OF assms(1), of 0] assms(3) by (cases fs) (auto simp: field_end_def)
next
  case False
  have "0 \<le> offs ! 0" using abi_end [OF assms(1), of 0] assms(3) by (cases fs) (auto simp: field_end_def)
  moreover have "0 \<le> fst (fs ! 0)" using assms(2) [of "fs ! 0"] assms(3) nth_mem [of 0 fs] by fastforce
  moreover have "offs ! 0 + fst (fs ! 0) \<le> field_end fs offs i"
    using abi_disjoint [OF assms(1,2), of 0 i] False assms(3) by simp
  ultimately show ?thesis using abi_end [OF assms(1,3)] by simp
qed

text \<open>
  C37. In a structure laid out by \<open>types_finalize\<close> whose fields have sizes below \<open>2^31\<close>, an earlier
  field ends at or before the offset of a later one, offsets are not negative, and every field ends
  within the size of the structure.
\<close>
theorem struct_fields_disjoint:
  assumes "types_finalize ts = Inr ts'" and "fresh_types (iu_types ts)" and "acyclic_types rank (iu_types ts)"
    and "It_struct s \<in> set (iu_types ts')"
    and "\<And>t. t \<in> fst ` set (st_elements s) \<Longrightarrow> type_alignment (iu_types ts') t \<noteq> Inr 0"
    and "\<And>t v. t \<in> fst ` set (st_elements s) \<Longrightarrow> type_sizeof (iu_types ts') t = Inr v \<Longrightarrow> 0 \<le> sint v"
    and "i < j" and "j < length (st_elements s)"
  shows "\<exists>vi vj oi oj sz. type_sizeof (iu_types ts') (fst (st_elements s ! i)) = Inr vi \<and>
    type_sizeof (iu_types ts') (fst (st_elements s ! j)) = Inr vj \<and>
    snd (st_elements s ! i) = Some oi \<and> snd (st_elements s ! j) = Some oj \<and> st_size s = Some sz \<and>
    0 \<le> oi \<and> oi + sint vi \<le> oj \<and> oj + sint vj \<le> sz"
proof -
  have "\<exists>fs offs sz al. list_all2 (element_of (iu_types ts') (st_packed s)) (map fst (st_elements s)) fs \<and>
    map snd (st_elements s) = map Some offs \<and> st_size s = Some sz \<and> st_alignment s = Some al \<and>
    abi_layout (st_packed s) fs offs sz al"
    by (rule laid_out_abi [OF acyclic_evolves [OF assms(3) types_finalize_laid_out(1) [OF assms(1-3)]] _ assms(4,5)])
      (use types_finalize_laid_out(2) [OF assms(1-3)] in auto)
  then obtain fs offs sz al where el: "list_all2 (element_of (iu_types ts') (st_packed s)) (map fst (st_elements s)) fs"
    and offs: "map snd (st_elements s) = map Some offs" and sz: "st_size s = Some sz"
    and abi: "abi_layout (st_packed s) fs offs sz al" by blast
  have len: "length fs = length (st_elements s)" "length offs = length (st_elements s)"
    using el abi by (auto simp: abi_layout_def dest: list_all2_lengthD)
  have f: "\<exists>v. type_sizeof (iu_types ts') (fst (st_elements s ! k)) = Inr v \<and> fst (fs ! k) = sint v \<and>
      snd (st_elements s ! k) = Some (offs ! k)" if "k < length (st_elements s)" for k
    using list_all2_nthD [OF el, of k] that len arg_cong [OF offs, of "\<lambda>xs. xs ! k"] by (auto simp: element_of_def)
  have ge: "0 \<le> fst g" if "g \<in> set fs" for g
    using list_all2_right [OF el that] assms(6) by (fastforce simp: element_of_def)
  note dj = abi_disjoint [OF abi ge]
  have "0 \<le> offs ! i"
    using abi_nonneg [OF abi ge] assms(7,8) len by simp
  moreover have "offs ! i + fst (fs ! i) \<le> offs ! j"
    using dj [of i j] abi_end [OF abi, of j] assms(7,8) len by simp
  moreover have "offs ! j + fst (fs ! j) \<le> sz"
    using dj [of j "length fs"] assms(8) len abi by (fastforce simp: abi_layout_def next_multiple_def)
  ultimately show ?thesis using f [of i] f [of j] assms(7,8) sz by auto
qed

theorem struct_fields_disjoint_witness:
  "types_finalize demo_types = Inr demo_laid_out \<and>
   (\<exists>vi vj oi oj sz. type_sizeof (iu_types demo_laid_out) 5 = Inr vi \<and> type_sizeof (iu_types demo_laid_out) 3 = Inr vj \<and>
      Some 8 = Some oi \<and> Some 24 = Some oj \<and> Some 32 = Some sz \<and> 0 \<le> oi \<and> oi + sint vi \<le> oj \<and> oj + sint vj \<le> sz)"
proof -
  have "0 \<le> sint v" if "t \<in> fst ` set (st_elements demo_outer)" "type_sizeof (iu_types demo_laid_out) t = Inr v" for t v
    using demo_elements [OF that(1)] that(2) by (auto simp: demo_sizes)
  from struct_fields_disjoint [OF demo_layout demo_not_void this, where i = 1 and j = 2] demo_layout(1) show ?thesis
    by (simp add: demo_outer_def)
qed

text \<open>
  \<open>type_struct_layout\<close> lays out an element that is itself a structure, but not one inside an
  array: a structure with a field of type array of a structure that comes later in the table reads the
  size of the latter before it has been written.
\<close>
theorem array_of_later_struct_undefined:
  "types_finalize \<lparr>iu_types = [It_struct (demo_struct [(1, None)]), It_array 2 2, It_struct (demo_struct [(3, None)]), It_int32],
     iu_types_created = False, iu_current_struct_name = None\<rparr> = Inl Undefined_behaviour"
  by code_simp

section \<open>Records\<close>

text \<open>The records of a TYPE block that describe a type, as LLVM writes them.\<close>

fun encode_type :: "ir_type \<Rightarrow> (nat \<times> ir_arg list) list" where
  "encode_type (It_struct s) =
    (case st_name s of
       Some n \<Rightarrow> [(19, map ucast n), (20, (if st_packed s then 1 else 0) # map (ucast \<circ> fst) (st_elements s))]
     | None \<Rightarrow> [(18, (if st_packed s then 1 else 0) # map (ucast \<circ> fst) (st_elements s))])"
| "encode_type It_void = [(2, [])]" | "encode_type It_int1 = [(7, [1])]" | "encode_type It_int8 = [(7, [8])]"
| "encode_type It_int16 = [(7, [16])]" | "encode_type It_int32 = [(7, [32])]" | "encode_type It_int64 = [(7, [64])]"
| "encode_type (It_intx b) = [(7, [word_of_int b])]"
| "encode_type It_float = [(3, [])]" | "encode_type It_double = [(4, [])]"
| "encode_type (It_array n e) = [(11, [ucast n, ucast e])]"
| "encode_type (It_pointer p) = [(8, [ucast p])]"
| "encode_type (It_function r ps v) = [(21, ucast r # ucast v # map ucast ps)]"
| "encode_type It_metadata = [(16, [])]" | "encode_type It_label = [(5, [])]" | "encode_type It_opaque = [(6, [])]"

fun encodable :: "ir_type \<Rightarrow> bool" where
  "encodable (It_struct s) = (st_size s = None \<and> st_alignment s = None \<and> \<not> st_computed s \<and>
     (\<forall>e\<in>set (st_elements s). snd e = None))"
| "encodable (It_intx b) = (0 \<le> b \<and> b < 64 \<and> b \<notin> {1, 8, 16, 32})"
| "encodable _ = True"

fun run_records :: "type_state \<Rightarrow> (nat \<times> ir_arg list) list \<Rightarrow> type_state result" where
  "run_records ts [] = Inr ts"
| "run_records ts ((op, argv) # rs) = res_bind (types_new_rec_handler ts op argv) (\<lambda>ts'. run_records ts' rs)"

lemma run_records_append:
  "run_records ts (xs @ ys) = res_bind (run_records ts xs) (\<lambda>ts'. run_records ts' ys)"
  by (induction ts xs rule: run_records.induct) (auto simp: res_bind_def split: sum.splits)

lemma ucast_up_down [simp]: "ucast (ucast (x :: u32) :: u64) = x" "ucast (ucast (y :: u8) :: u64) = y"
  by (rule bit_word_eqI, simp add: bit_unsigned_iff)+

lemma fresh_elements: "\<forall>e\<in>set xs. snd e = None \<Longrightarrow> map (\<lambda>a. (fst a, None)) xs = xs"
  by (induction xs) (auto simp: prod_eq_iff)

lemma int_type_intx:
  assumes "0 \<le> b" "b < 64" "b \<notin> {1, 8, 16, 32}"
  shows "int_type (word_of_int b) = Inr (It_intx b)"
proof -
  have u: "sint (word_of_int b :: u64) = b" "uint (word_of_int b :: u64) = b" "sint (ucast (word_of_int b :: u64) :: u32) = b"
    using assms by (auto simp: signed_of_int unsigned_of_int signed_take_bit_int_eq_self_iff take_bit_int_eq_self)
  have "(word_of_int b :: u64) \<noteq> word_of_int k" if "k \<in> {1, 8, 16, 32, 64}" for k
    using that assms u by (auto dest!: arg_cong [of _ _ uint])
  from this [of 1] this [of 8] this [of 16] this [of 32] this [of 64] show ?thesis using u assms by (simp add: int_type_def)
qed

lemma encode_type_record:
  assumes "encodable t" "\<not> iu_types_created ts" "iu_current_struct_name ts = None"
  shows "run_records ts (encode_type t) = Inr (push_type ts t)"
proof (cases t)
  case (It_struct s)
  show ?thesis
  proof (cases "st_name s")
    case None
    with It_struct assms show ?thesis
      by (cases s) (auto simp: types_new_rec_handler_def struct_type_def arg_def res_simps c_assert_def fresh_elements comp_def)
  next
    case (Some n)
    with It_struct assms show ?thesis
      by (cases s) (auto simp: types_new_rec_handler_def struct_type_def arg_def res_simps c_assert_def fresh_elements comp_def
          read_str_from_argv_def push_type_def intro!: type_state.equality)
  qed
next
  case (It_intx b)
  with assms show ?thesis
    by (auto simp: types_new_rec_handler_def arg_def res_simps c_assert_def int_type_intx)
qed (use assms in \<open>auto simp: types_new_rec_handler_def arg_def res_simps c_assert_def int_type_def parser_check_def comp_def\<close>)



section \<open>Created pointer types\<close>

lemma find_index_Some: "find_index P k ts = Some i \<Longrightarrow> k \<le> i \<and> i < k + length ts \<and> P (ts ! (i - k))"
proof (induction P k ts rule: find_index.induct)
  case (2 P k t ts)
  then show ?case by (cases "P t") (auto simp: nth_Cons' Suc_le_eq)
qed simp

lemma find_index_None: "find_index P k ts = None \<longleftrightarrow> (\<forall>t\<in>set ts. \<not> P t)"
  by (induction P k ts rule: find_index.induct) auto

lemma find_index_append: "find_index P k (xs @ ys) =
   (case find_index P k xs of Some i \<Rightarrow> Some i | None \<Rightarrow> find_index P (k + length xs) ys)"
  by (induction P k xs rule: find_index.induct) (auto simp: add_ac split: option.splits)

text \<open>
  \<open>type_make_pointer\<close> with permission to create returns an index at which the table holds the
  pointer type, keeps every earlier type at its index, adds at most one, and a second request finds the
  same index and changes nothing; \<open>type_get_pointee\<close> gives the pointee back.
\<close>
lemma type_make_pointer_spec:
  assumes "type_make_pointer ts ty True = (r, ts')"
  shows "\<exists>i. r = Some i \<and> i < length (iu_types ts') \<and> iu_types ts' ! i = It_pointer ty \<and>
    take (length (iu_types ts)) (iu_types ts') = iu_types ts \<and>
    length (iu_types ts') \<le> Suc (length (iu_types ts)) \<and>
    type_make_pointer ts' ty may_create = (Some i, ts') \<and>
    (ty \<noteq> - 1 \<and> length (iu_types ts') \<le> 2 ^ 32 \<longrightarrow> type_get_pointee (iu_types ts') (of_nat i) = Inr ty)"
proof (cases "find_index (\<lambda>t. t = It_pointer ty) 0 (iu_types ts)")
  case None
  with assms have "r = Some (length (iu_types ts))" "iu_types ts' = iu_types ts @ [It_pointer ty]"
    by (auto simp: type_make_pointer_def)
  with None show ?thesis
    by (auto simp: type_make_pointer_def find_index_append type_get_pointee_def type_get_def res_simps
        unsigned_of_nat take_bit_nat_eq_self)
next
  case (Some i)
  with assms have "r = Some i" "ts' = ts" by (auto simp: type_make_pointer_def)
  with Some find_index_Some [OF Some] show ?thesis
    by (auto simp: type_make_pointer_def type_get_pointee_def type_get_def res_simps unsigned_of_nat take_bit_nat_eq_self)
qed

end
