(* ===== verification/Vmir_Parser_Props.thy ===== *)
theory Vmir_Parser_Props
  imports Vmir_Parser
begin

text \<open>
  The parser against a writer: what a writer of the bitcode container emits for a list of
  abbreviation definitions and records is delivered to the record handler in order. \<open>reads\<close> says that
  a reader takes a given list of bits off the front of the stream and returns a given value; the
  locale \<open>codec\<close> lifts this from one value to a counted list, for the operands of plain records and
  for the elements of abbreviated arrays. The bits after the block must be at least eight, since the
  reader loses the bits of the last byte.
\<close>

section \<open>Readers\<close>

definition reads :: "(bcbitstream \<Rightarrow> ('a \<times> bcbitstream) result) \<Rightarrow> bool list \<Rightarrow> 'a \<Rightarrow> bool" where
  "reads rd bits v = (\<forall>bs rest. stream_ok bs \<and> stream_bits bs = bits @ rest \<and> 8 \<le> length rest \<longrightarrow>
     (\<exists>bs'. rd bs = Inr (v, bs') \<and> stream_ok bs' \<and> stream_bits bs' = rest))"

lemma readsD:
  assumes "reads rd bits v" "stream_ok bs" "stream_bits bs = bits @ rest" "8 \<le> length rest"
  obtains bs' where "rd bs = Inr (v, bs')" "stream_ok bs'" "stream_bits bs' = rest"
  using assms unfolding reads_def by blast

lemma reads_return [intro]: "reads (\<lambda>bs. Inr (v, bs)) [] v"
  by (auto simp: reads_def)

lemma reads_bind:
  assumes "reads rd b1 x" "reads (f x) b2 y"
  shows "reads (\<lambda>bs. res_bind (rd bs) (\<lambda>(x, bs'). f x bs')) (b1 @ b2) y"
  unfolding reads_def
proof (intro allI impI, elim conjE)
  fix bs rest
  assume *: "stream_ok bs" "stream_bits bs = (b1 @ b2) @ rest" "8 \<le> length rest"
  then obtain bs1 where 1: "rd bs = Inr (x, bs1)" "stream_ok bs1" "stream_bits bs1 = b2 @ rest"
    using readsD [OF assms(1), of bs "b2 @ rest"] by auto
  from readsD [OF assms(2) 1(2,3) *(3)] 1(1)
  show "\<exists>bs'. res_bind (rd bs) (\<lambda>(x, bs'). f x bs') = Inr (y, bs') \<and> stream_ok bs' \<and> stream_bits bs' = rest"
    by auto
qed

lemma reads_map:
  assumes "reads rd b x"
  shows "reads (\<lambda>bs. res_bind (rd bs) (\<lambda>(x, bs'). Inr (g x, bs'))) b (g x)"
  using reads_bind [OF assms, of "\<lambda>x bs. Inr (g x, bs)" "[]"] by (auto simp: reads_return)

lemma reads_check: "b \<Longrightarrow> reads f bits v \<Longrightarrow> reads (\<lambda>bs. res_bind (parser_check b msg) (\<lambda>_. f bs)) bits v"
  by simp

lemma reads_bits:
  assumes "n \<le> 32" "v < 2 ^ n"
  shows "reads (\<lambda>bs. read_bits bs n) (nat_bits n v) (of_nat v)"
  unfolding reads_def
proof (intro allI impI, elim conjE)
  fix bs rest
  assume *: "stream_ok bs" "stream_bits bs = nat_bits n v @ rest" "8 \<le> length rest"
  show "\<exists>bs'. read_bits bs n = Inr (of_nat v, bs') \<and> stream_ok bs' \<and> stream_bits bs' = rest"
  proof (cases n)
    case 0
    with * assms show ?thesis by (simp add: read_bits_def read_bits_loop.simps)
  next
    case (Suc m)
    with * have "can_read bs n" by (intro long_stream_can_read) auto
    from read_bits_spec [OF *(1) this assms(1)] *(2) assms(2) show ?thesis by auto
  qed
qed

lemma reads_vbr:
  assumes "2 \<le> w" "w \<le> 32" "v < 2 ^ 32"
  shows "reads (\<lambda>bs. read_vbr bs w) (vbr_bits w v) (of_nat v)"
  unfolding reads_def
proof (intro allI impI, elim conjE)
  fix bs rest
  assume *: "stream_ok bs" "stream_bits bs = vbr_bits w v @ rest" "8 \<le> length rest"
  then show "\<exists>bs'. read_vbr bs w = Inr (of_nat v, bs') \<and> stream_ok bs' \<and> stream_bits bs' = rest"
    using vbr_loop_decodes [where ?'a = 32, of bs w v rest 0 "bits_left bs + 2" 0] assms
      length_vbr_bits_le [OF *(1,2)] by (auto simp: read_vbr_def)
qed

lemma reads_vbr64:
  assumes "2 \<le> w" "w \<le> 32" "v < 2 ^ 64"
  shows "reads (\<lambda>bs. read_vbr64 bs w) (vbr_bits w v) (of_nat v)"
  unfolding reads_def
proof (intro allI impI, elim conjE)
  fix bs rest
  assume *: "stream_ok bs" "stream_bits bs = vbr_bits w v @ rest" "8 \<le> length rest"
  then show "\<exists>bs'. read_vbr64 bs w = Inr (of_nat v, bs') \<and> stream_ok bs' \<and> stream_bits bs' = rest"
    using vbr_loop_decodes [where ?'a = 64, of bs w v rest 0 "bits_left bs + 2" 0] assms
      length_vbr_bits_le [OF *(1,2)] by (auto simp: read_vbr64_def)
qed

text \<open>The same for words.\<close>

lemma reads_vbr_word: "2 \<le> w \<Longrightarrow> w \<le> 32 \<Longrightarrow> reads (\<lambda>bs. read_vbr bs w) (vbr_bits w (unat (d :: u32))) d"
  using reads_vbr [of w "unat d"] unsigned_less [of d] by (simp add: of_nat_unat)

lemma reads_vbr64_word: "2 \<le> w \<Longrightarrow> w \<le> 32 \<Longrightarrow> reads (\<lambda>bs. read_vbr64 bs w) (vbr_bits w (unat (d :: u64))) d"
  using reads_vbr64 [of w "unat d"] unsigned_less [of d] by (simp add: of_nat_unat)

section \<open>Lists of coded values\<close>

locale codec =
  fixes rd :: "bcbitstream \<Rightarrow> ('a \<times> bcbitstream) result"
    and rds :: "nat \<Rightarrow> bcbitstream \<Rightarrow> ('a list \<times> bcbitstream) result"
    and enc :: "'a \<Rightarrow> bool list"
    and ok :: "'a \<Rightarrow> bool"
  assumes rd_enc: "ok v \<Longrightarrow> reads rd (enc v) v"
    and rds_0: "rds 0 bs = Inr ([], bs)"
    and rds_Suc: "rds (Suc n) bs = res_bind (rd bs) (\<lambda>(a, bs1). res_bind (rds n bs1) (\<lambda>(as, bs2). Inr (a # as, bs2)))"
begin

lemma rds_enc: "list_all ok vs \<Longrightarrow> reads (rds (length vs)) (concat (map enc vs)) vs"
proof (induction vs)
  case Nil
  then show ?case by (auto simp: reads_def rds_0)
next
  case (Cons v vs)
  have "reads (\<lambda>bs. res_bind (rds (length vs) bs) (\<lambda>(as, bs2). Inr (v # as, bs2))) (concat (map enc vs)) (v # vs)"
    using reads_map [OF Cons.IH, of "(#) v"] Cons.prems by simp
  from reads_bind [where rd = rd and f = "\<lambda>a bs1. res_bind (rds (length vs) bs1) (\<lambda>(as, bs2). Inr (a # as, bs2))",
    OF rd_enc this]
  show ?case using Cons.prems by (simp add: rds_Suc [abs_def])
qed

end

interpretation operands: codec "\<lambda>bs. read_vbr64 bs 6" read_operands "\<lambda>a. vbr_bits 6 (unat a)" "\<lambda>_. True"
  by unfold_locales (auto intro: reads_vbr64_word)

definition elem_bits :: "ir_abbrev_operand \<Rightarrow> ir_arg \<Rightarrow> bool list" where
  "elem_bits ty a =
     (case ty of
        IAOT_FIXED_WIDTH d \<Rightarrow> nat_bits (width_of d) (unat a)
      | IAOT_VBR d \<Rightarrow> vbr_bits (width_of d) (unat a)
      | _ \<Rightarrow> nat_bits 6 (length (takeWhile (\<lambda>c. of_nat (of_char c) \<noteq> a) char6)))"

definition elem_ok :: "ir_abbrev_operand \<Rightarrow> ir_arg \<Rightarrow> bool" where
  "elem_ok ty a =
     (case ty of
        IAOT_FIXED_WIDTH d \<Rightarrow> width_of d \<le> 32 \<and> unat a < 2 ^ width_of d
      | IAOT_VBR d \<Rightarrow> 2 \<le> width_of d \<and> width_of d \<le> 32 \<and> uint a < 2 ^ 32
      | IAOT_CHAR6 \<Rightarrow> \<exists>c\<in>set char6. of_nat (of_char c) = a
      | _ \<Rightarrow> False)"

lemma ucast_down_up: "unat (a :: u64) < 4294967296 \<Longrightarrow> ucast (ucast a :: u32) = a"
proof -
  assume "unat a < 4294967296"
  then have "take_bit 32 (unat a) = unat a" by (simp add: take_bit_nat_eq_self)
  then have "unat (take_bit 32 a) = unat a" by (simp add: unsigned_take_bit_eq)
  then have "take_bit 32 a = a" by (simp add: word_unat_eq_iff)
  then show ?thesis by (simp add: unsigned_ucast_eq)
qed

lemma takeWhile_find:
  assumes "\<exists>c\<in>set xs. P c"
  shows "length (takeWhile (\<lambda>c. \<not> P c) xs) < length xs" "P (xs ! length (takeWhile (\<lambda>c. \<not> P c) xs))"
  using assms by (induction xs) auto

lemma load_elem_ok: "elem_ok ty a \<Longrightarrow> reads (\<lambda>bs. load_elem bs ty) (elem_bits ty a) a"
proof (cases ty)
  case (IAOT_FIXED_WIDTH d)
  assume "elem_ok ty a"
  with IAOT_FIXED_WIDTH have w: "width_of d \<le> 32" "unat a < 2 ^ width_of d" by (auto simp: elem_ok_def)
  have "(2::nat) ^ width_of d \<le> 2 ^ 32" using w(1) by (intro power_increasing) auto
  with w(2) have "unat a < 2 ^ 32" by linarith
  then have "ucast (ucast a :: u32) = a" by (simp add: ucast_down_up)
  with reads_map [OF reads_bits [OF w], of "ucast :: u32 \<Rightarrow> u64"] IAOT_FIXED_WIDTH show ?thesis
    by (simp add: load_elem_def elem_bits_def)
next
  case (IAOT_VBR d)
  assume "elem_ok ty a"
  with IAOT_VBR have w: "2 \<le> width_of d" "width_of d \<le> 32" "unat a < 2 ^ 32"
    using le_unat_iff [of "2 ^ 32" a] by (auto simp: elem_ok_def)
  with reads_map [OF reads_vbr [OF w], of "ucast :: u32 \<Rightarrow> u64"] IAOT_VBR show ?thesis
    by (simp add: load_elem_def elem_bits_def ucast_down_up)
next
  case IAOT_CHAR6
  assume "elem_ok ty a"
  with IAOT_CHAR6 have ex: "\<exists>c\<in>set char6. of_nat (of_char c) = a" by (auto simp: elem_ok_def)
  let ?k = "length (takeWhile (\<lambda>c. of_nat (of_char c) \<noteq> a) char6)"
  have k: "?k < 64" "of_nat (of_char (char6 ! ?k)) = a"
    using takeWhile_find [OF ex] by (auto simp: char6_def)
  have "unat (of_nat ?k :: u32) = ?k" using k(1) by (simp add: unsigned_of_nat take_bit_nat_eq_self)
  with reads_map [OF reads_bits [of 6 ?k], of "\<lambda>x. of_nat (of_char (char6 ! unat x)) :: u64"] k IAOT_CHAR6 show ?thesis
    by (simp add: load_elem_def elem_bits_def)
qed (simp_all add: elem_ok_def)

interpretation elems: codec "\<lambda>bs. load_elem bs ty" "\<lambda>n bs. load_elems n bs ty" "elem_bits ty" "elem_ok ty" for ty
  by unfold_locales (auto intro: load_elem_ok)

text \<open>The operands of an abbreviation, as the writer emits them.\<close>

fun op_bits :: "ir_abbrev_operand \<Rightarrow> bool list" where
  "op_bits (IAOT_LITTERAL d) = nat_bits 1 1 @ vbr_bits 8 (unat d)"
| "op_bits (IAOT_FIXED_WIDTH d) = nat_bits 1 0 @ nat_bits 3 1 @ vbr_bits 5 (unat d)"
| "op_bits (IAOT_VBR d) = nat_bits 1 0 @ nat_bits 3 2 @ vbr_bits 5 (unat d)"
| "op_bits IAOT_ARRAY = nat_bits 1 0 @ nat_bits 3 3"
| "op_bits IAOT_CHAR6 = nat_bits 1 0 @ nat_bits 3 4"
| "op_bits IAOT_BLOB = nat_bits 1 0 @ nat_bits 3 5"

fun wf_abbrev :: "ir_abbrev \<Rightarrow> bool" where
  "wf_abbrev [] = True"
| "wf_abbrev (o' # os) = ((o' = IAOT_BLOB \<longrightarrow> os = []) \<and> (o' = IAOT_ARRAY \<longrightarrow> length os = 1) \<and> wf_abbrev os)"

lemma reads_flag: "reads (\<lambda>bs. read_bits bs 1) (nat_bits 1 1) 1" "reads (\<lambda>bs. read_bits bs 1) (nat_bits 1 0) 0"
  using reads_bits [of 1 1] reads_bits [of 1 0] by (simp_all del: nat_bits.simps)

lemma reads_kind: "k < 8 \<Longrightarrow> reads (\<lambda>bs. read_bits bs 3) (nat_bits 3 k) (of_nat k)"
  using reads_bits [of 3 k] by (simp del: nat_bits.simps)

lemma define_op_ok:
  assumes "o' = IAOT_BLOB \<longrightarrow> left = 0" "o' = IAOT_ARRAY \<longrightarrow> left = 1"
  shows "reads (define_op left) (op_bits o') o'"
proof -
  have op: "reads (define_op left) (b1 @ b2) v"
    if "reads (\<lambda>bs. read_bits bs 1) b1 l" "reads (define_flag left l) b2 v" for b1 b2 v l
    using reads_bind [where f = "define_flag left", OF that] by (simp add: define_op_def [abs_def])
  have other: "reads (define_op left) (nat_bits 1 0 @ nat_bits 3 k @ b) v"
    if "k < 8" "reads (define_kind left (of_nat k)) b v" for k b v
    using reads_bind [where f = "define_kind left", OF reads_kind [OF that(1)] that(2)]
    by (intro op [OF reads_flag(2)]) (simp add: define_flag_def [abs_def])
  have vbr: "reads (\<lambda>bs. res_bind (read_vbr bs w) (\<lambda>(d, bs3). Inr (g d, bs3))) (vbr_bits w (unat d)) (g d)"
    if "2 \<le> w" "w \<le> 32" for w d and g :: "u32 \<Rightarrow> ir_abbrev_operand"
    by (rule reads_map [OF reads_vbr_word [OF that]])
  show ?thesis
  proof (cases o')
    case (IAOT_LITTERAL d)
    then show ?thesis using vbr [of 8 IAOT_LITTERAL d] by (auto intro!: op [OF reads_flag(1)] simp: define_flag_def [abs_def] simp del: nat_bits.simps One_nat_def)
  next
    case (IAOT_FIXED_WIDTH d)
    then show ?thesis using other [of 1] vbr [of 5 IAOT_FIXED_WIDTH d] by (simp del: nat_bits.simps add: define_kind_def [abs_def])
  next
    case (IAOT_VBR d)
    then show ?thesis using other [of 2] vbr [of 5 IAOT_VBR d] by (simp del: nat_bits.simps add: define_kind_def [abs_def])
  next
    case IAOT_ARRAY
    then show ?thesis using other [of 3 "[]" IAOT_ARRAY] assms by (simp del: nat_bits.simps add: reads_return define_kind_def [abs_def])
  next
    case IAOT_CHAR6
    then show ?thesis using other [of 4 "[]" IAOT_CHAR6] by (simp del: nat_bits.simps add: reads_return define_kind_def [abs_def])
  next
    case IAOT_BLOB
    then show ?thesis using other [of 5 "[]" IAOT_BLOB] assms by (simp del: nat_bits.simps add: reads_return define_kind_def [abs_def])
  qed
qed

lemma define_ops_ok: "wf_abbrev ia \<Longrightarrow> reads (define_ops (length ia)) (concat (map op_bits ia)) ia"
proof (induction ia)
  case Nil
  then show ?case by (auto simp: reads_def)
next
  case (Cons o' os)
  have "reads (\<lambda>bs. res_bind (define_ops (length os) bs) (\<lambda>(os, bs''). Inr (o' # os, bs''))) (concat (map op_bits os)) (o' # os)"
    using reads_map [OF Cons.IH, of "(#) o'"] Cons.prems by simp
  from reads_bind [where f = "\<lambda>o' bs'. res_bind (define_ops (length os) bs') (\<lambda>(os, bs''). Inr (o' # os, bs''))",
      OF define_op_ok this]
  show ?case using Cons.prems by (simp add: define_ops.simps(2) [abs_def])
qed

definition abbrev_bits :: "ir_abbrev \<Rightarrow> bool list" where
  "abbrev_bits ia = vbr_bits 5 (length ia) @ concat (map op_bits ia)"

lemma ir_define_abbrev_ok:
  assumes "wf_abbrev ia" "length ia < 2 ^ 32" "add_abbrev iu ia = Inr iu'"
  shows "reads (ir_define_abbrev iu) (abbrev_bits ia) iu'"
proof -
  have "unat (of_nat (length ia) :: u32) = length ia"
    using assms(2) by (simp add: unsigned_of_nat take_bit_nat_eq_self)
  then have 1: "reads (\<lambda>bs. res_bind (define_ops (unat (of_nat (length ia) :: u32)) bs)
      (\<lambda>(ia, bs2). res_bind (add_abbrev iu ia) (\<lambda>iu'. Inr (iu', bs2)))) (concat (map op_bits ia)) iu'"
    using reads_bind [where f = "\<lambda>ia bs2. res_bind (add_abbrev iu ia) (\<lambda>iu'. Inr (iu', bs2))" and ?b2.0 = "[]",
      OF define_ops_ok [OF assms(1)]] assms(3) by (simp add: reads_return)
  show ?thesis
    using reads_bind [where f = "\<lambda>numops bs1. res_bind (define_ops (unat numops) bs1)
      (\<lambda>(ia, bs2). res_bind (add_abbrev iu ia) (\<lambda>iu'. Inr (iu', bs2)))", OF reads_vbr [of 5 "length ia"] 1] assms(2)
    by (simp add: ir_define_abbrev_def [abs_def] abbrev_bits_def)
qed

section \<open>Records\<close>

text \<open>The operands of a record coded with an abbreviation; \<open>None\<close> when they do not fit it.\<close>

fun arg_bits :: "ir_abbrev \<Rightarrow> ir_arg list \<Rightarrow> bool list option" where
  "arg_bits [] as = (if as = [] then Some [] else None)"
| "arg_bits (o' # os) as =
    (case o' of
       IAOT_ARRAY \<Rightarrow>
         (case os of
            [el] \<Rightarrow>
              if int (length as) < 2 ^ 31 \<and> list_all (elem_ok el) as
              then Some (vbr_bits 6 (length as) @ concat (map (elem_bits el) as)) else None
          | _ \<Rightarrow> None)
     | IAOT_LITTERAL d \<Rightarrow> (case as of a # as' \<Rightarrow> if a = ucast d then arg_bits os as' else None | [] \<Rightarrow> None)
     | IAOT_FIXED_WIDTH d \<Rightarrow>
         (case as of
            a # as' \<Rightarrow>
              if width_of d \<le> 32 \<and> unat a < 2 ^ width_of d
              then map_option ((@) (nat_bits (width_of d) (unat a))) (arg_bits os as') else None
          | [] \<Rightarrow> None)
     | IAOT_VBR d \<Rightarrow>
         (case as of
            a # as' \<Rightarrow>
              if 2 \<le> width_of d \<and> width_of d \<le> 32
              then map_option ((@) (vbr_bits (width_of d) (unat a))) (arg_bits os as') else None
          | [] \<Rightarrow> None)
     | _ \<Rightarrow> None)"

lemma reads_cons: "reads rd b as \<Longrightarrow> reads (\<lambda>bs. res_bind (rd bs) (\<lambda>(as, bs'). Inr (a # as, bs'))) b (a # as)"
  by (rule reads_map)

lemma load_array_ok:
  assumes "length as < 2 ^ 31" "list_all (elem_ok el) as"
  shows "reads (\<lambda>bs. load_array bs el) (vbr_bits 6 (length as) @ concat (map (elem_bits el) as)) as"
proof -
  have "nat (sint (of_nat (length as) :: u32)) = length as"
    using assms(1) signed_take_bit_int_eq_self [of 31 "int (length as)"] by (simp add: signed_of_nat)
  with elems.rds_enc [OF assms(2)]
  have "reads (\<lambda>bs. load_elems (nat (sint (of_nat (length as) :: u32))) bs el) (concat (map (elem_bits el) as)) as"
    by simp
  from reads_bind [where f = "\<lambda>n bs1. load_elems (nat (sint n)) bs1 el", OF reads_vbr [of 6 "length as"] this]
  show ?thesis using assms(1) by (simp add: load_array_def [abs_def])
qed

lemma expand_abbrev_ok: "arg_bits ia as = Some b \<Longrightarrow> reads (expand_abbrev ia) b as"
proof (induction ia as arbitrary: b rule: arg_bits.induct)
  case (1 as)
  then show ?case by (auto simp: reads_def split: if_splits)
next
  case (2 o' os as)
  show ?case
  proof (cases o')
    case (IAOT_LITTERAL d)
    with 2(4) obtain as' where a: "as = ucast d # as'" "arg_bits os as' = Some b"
      by (auto split: list.splits if_splits)
    have IH: "reads (expand_abbrev os) b as'" using 2 IAOT_LITTERAL a by auto
    from reads_cons [OF IH, of "ucast d"] show ?thesis
      using a IAOT_LITTERAL by (simp add: expand_abbrev.simps(2) [abs_def])
  next
    case (IAOT_FIXED_WIDTH d)
    with 2(4) obtain a as' b' where a: "as = a # as'" "width_of d \<le> 32" "unat a < 2 ^ width_of d"
      "arg_bits os as' = Some b'" "b = nat_bits (width_of d) (unat a) @ b'"
      by (auto split: list.splits if_splits)
    have IH: "reads (expand_abbrev os) b' as'" using 2 IAOT_FIXED_WIDTH a by auto
    have "(2::nat) ^ width_of d \<le> 2 ^ 32" using a(2) by (intro power_increasing) auto
    with a(3) have "ucast (of_nat (unat a) :: u32) = a" by (simp add: ucast_down_up)
    from reads_bind [where f = "\<lambda>x bs1. res_bind (expand_abbrev os bs1) (\<lambda>(as, bs2). Inr (ucast x # as, bs2))",
        OF reads_bits [OF a(2,3)] reads_cons [OF IH]] this
    show ?thesis using a IAOT_FIXED_WIDTH by (simp add: expand_abbrev.simps(2) [abs_def])
  next
    case (IAOT_VBR d)
    with 2(4) obtain a as' b' where a: "as = a # as'" "2 \<le> width_of d" "width_of d \<le> 32"
      "arg_bits os as' = Some b'" "b = vbr_bits (width_of d) (unat a) @ b'"
      by (auto split: list.splits if_splits)
    have IH: "reads (expand_abbrev os) b' as'" using 2 IAOT_VBR a by auto
    from reads_bind [where f = "\<lambda>x bs1. res_bind (expand_abbrev os bs1) (\<lambda>(as, bs2). Inr (x # as, bs2))",
        OF reads_vbr64_word [OF a(2,3)] reads_cons [OF IH]]
    show ?thesis using a IAOT_VBR by (simp add: expand_abbrev.simps(2) [abs_def])
  next
    case IAOT_ARRAY
    with 2(4) show ?thesis
      by (auto split: list.splits if_splits simp: expand_abbrev.simps(2) [abs_def] intro: load_array_ok)
  qed (use 2 in auto)
qed

lemma ir_dispatch_abbrev_ok:
  assumes "find_abbrev iu ibi i = Inr ia" "arg_bits ia (c # as) = Some b" "call_handler env rh iu (ucast c) as = Inr iu'"
  shows "reads (ir_dispatch_abbrev env iu i rh ibi) b iu'"
  using reads_bind [where f = "\<lambda>argv bs1. case argv of [] \<Rightarrow> Inl Undefined_behaviour
     | c # as \<Rightarrow> res_bind (call_handler env rh iu (ucast c) as) (\<lambda>iu'. Inr (iu', bs1))" and ?b2.0 = "[]",
    OF expand_abbrev_ok [OF assms(2)]] assms(1,3)
  by (simp add: ir_dispatch_abbrev_def [abs_def] reads_return)

definition record_bits :: "u32 \<Rightarrow> ir_arg list \<Rightarrow> bool list" where
  "record_bits code as = vbr_bits 6 (unat code) @ vbr_bits 6 (length as) @ concat (map (\<lambda>a. vbr_bits 6 (unat a)) as)"

lemma ir_unabbrev_record_ok:
  assumes "length as < 2 ^ 32" "call_handler env rh iu code as = Inr iu'"
  shows "reads (ir_unabbrev_record env iu rh) (record_bits code as) iu'"
proof -
  let ?h = "\<lambda>code argv bs3. res_bind (call_handler env rh iu code argv) (\<lambda>iu'. Inr (iu', bs3))"
  let ?g = "\<lambda>code numops bs2. res_bind (read_operands (unat (numops :: u32)) bs2) (\<lambda>(argv, bs3). ?h code argv bs3)"
  have n: "unat (of_nat (length as) :: u32) = length as"
    using assms(1) by (simp add: unsigned_of_nat take_bit_nat_eq_self)
  have "reads (?g code (of_nat (length as))) (concat (map (\<lambda>a. vbr_bits 6 (unat a)) as)) iu'"
    using reads_bind [where f = "?h code" and ?b2.0 = "[]", OF operands.rds_enc [of as]] assms(2) n
    by (simp add: reads_return list_all_iff)
  from reads_bind [where f = "?g code", OF reads_vbr [of 6 "length as"] this] assms(1)
  have "reads (\<lambda>bs. res_bind (read_vbr bs 6) (\<lambda>(numops, bs2). ?g code numops bs2))
      (vbr_bits 6 (length as) @ concat (map (\<lambda>a. vbr_bits 6 (unat a)) as)) iu'" by simp
  from reads_bind [where f = "\<lambda>code bs1. res_bind (read_vbr bs1 6) (\<lambda>(numops, bs2). ?g code numops bs2)",
      OF reads_vbr_word [of 6 code] this]
  show ?thesis by (simp add: ir_unabbrev_record_def [abs_def] record_bits_def)
qed

section \<open>The contents of a block\<close>

datatype item = Define ir_abbrev | Record u32 "ir_arg list" | Abbreviated u32 ir_arg "ir_arg list"

text \<open>
  A writer, which tracks the state of the reader to know the abbreviations in force: the bits of an
  item and the unit after it.
\<close>

fun write_item :: "parse_env \<Rightarrow> nat \<Rightarrow> rec_handler option \<Rightarrow> u32 option \<Rightarrow> ir_unit \<Rightarrow> item \<Rightarrow>
    (bool list \<times> ir_unit) option" where
  "write_item env w rh ibi iu (Define ia) =
    (case add_abbrev iu ia of
       Inr iu' \<Rightarrow> if wf_abbrev ia \<and> int (length ia) < 2 ^ 32 then Some (nat_bits w 2 @ abbrev_bits ia, iu') else None
     | Inl _ \<Rightarrow> None)"
| "write_item env w rh ibi iu (Record c as) =
    (case call_handler env rh iu c as of
       Inr iu' \<Rightarrow> if int (length as) < 2 ^ 32 then Some (nat_bits w 3 @ record_bits c as, iu') else None
     | Inl _ \<Rightarrow> None)"
| "write_item env w rh ibi iu (Abbreviated i c as) =
    (case find_abbrev iu ibi i of
       Inr ia \<Rightarrow>
         (case (arg_bits ia (c # as), call_handler env rh iu (ucast c) as) of
            (Some b, Inr iu') \<Rightarrow> if 4 \<le> unat i \<and> unat i < 2 ^ w then Some (nat_bits w (unat i) @ b, iu') else None
          | _ \<Rightarrow> None)
     | Inl _ \<Rightarrow> None)"

fun write_items :: "parse_env \<Rightarrow> nat \<Rightarrow> rec_handler option \<Rightarrow> u32 option \<Rightarrow> ir_unit \<Rightarrow> item list \<Rightarrow>
    (bool list \<times> ir_unit) option" where
  "write_items env w rh ibi iu [] = Some ([], iu)"
| "write_items env w rh ibi iu (it # its) =
    (case write_item env w rh ibi iu it of
       None \<Rightarrow> None
     | Some (b, iu1) \<Rightarrow>
         (case write_items env w rh ibi iu1 its of None \<Rightarrow> None | Some (bs, iu2) \<Rightarrow> Some (b @ bs, iu2)))"

definition read_item :: "parse_env \<Rightarrow> ir_unit \<Rightarrow> u32 \<Rightarrow> rec_handler option \<Rightarrow> u32 option \<Rightarrow> bcbitstream \<Rightarrow>
    (ir_unit \<times> bcbitstream) result" where
  "read_item env iu i rh ibi bs =
     (if i = 2 then ir_define_abbrev iu bs
      else if i = 3 then ir_unabbrev_record env iu rh bs
      else ir_dispatch_abbrev env iu i rh ibi bs)"

lemma write_item_read:
  assumes "write_item env w rh ibi iu it = Some (b, iu')" "2 \<le> w" "w \<le> 32"
  shows "\<exists>i b'. b = nat_bits w (unat i) @ b' \<and> unat i < 2 ^ w \<and> i \<noteq> 0 \<and> i \<noteq> 1 \<and> reads (read_item env iu i rh ibi) b' iu'"
proof -
  have w4: "(4::nat) \<le> 2 ^ w" using power_increasing [of 2 w "2::nat"] assms(2) by simp
  show ?thesis
  proof (cases it)
    case (Define ia)
    with assms w4 show ?thesis
      by (intro exI [of _ 2] exI [of _ "abbrev_bits ia"])
        (auto simp: read_item_def [abs_def] intro: ir_define_abbrev_ok split: sum.splits if_splits)
  next
    case (Record c as)
    with assms w4 show ?thesis
      by (intro exI [of _ 3] exI [of _ "record_bits c as"])
        (auto simp: read_item_def [abs_def] intro: ir_unabbrev_record_ok split: sum.splits if_splits)
  next
    case (Abbreviated i c as)
    with assms obtain ia b' where *: "find_abbrev iu ibi i = Inr ia" "arg_bits ia (c # as) = Some b'"
      "call_handler env rh iu (ucast c) as = Inr iu'" "4 \<le> unat i" "unat i < 2 ^ w" "b = nat_bits w (unat i) @ b'"
      by (auto split: sum.splits option.splits if_splits)
    have "i \<noteq> 0" "i \<noteq> 1" "i \<noteq> 2" "i \<noteq> 3" using *(4) by auto
    with * show ?thesis
      by (intro exI [of _ i] exI [of _ b']) (auto simp: read_item_def [abs_def] intro: ir_dispatch_abbrev_ok)
  qed
qed

lemma parse_items_reads:
  assumes "2 \<le> w" "w \<le> 32"
  shows "write_items env w rh ibi iu items = Some (bits, iu') \<Longrightarrow> stream_ok bs \<Longrightarrow>
    stream_bits bs = bits @ nat_bits w 0 @ rest \<Longrightarrow> 8 \<le> length rest \<Longrightarrow> length items < n \<Longrightarrow>
    \<exists>bs'. parse_items n env iu w rh ibi bs = Some (Inr (iu', align_bits32 bs')) \<and> stream_ok bs' \<and> stream_bits bs' = rest"
proof (induction items arbitrary: iu bits bs n)
  case Nil
  then obtain m where n: "n = Suc m" by (cases n) auto
  from readsD [OF reads_bits [of w 0]] Nil assms obtain bs' where
    "read_bits bs w = Inr (0, bs')" "stream_ok bs'" "stream_bits bs' = rest" by auto
  with Nil n show ?case by (auto simp: parse_items.simps)
next
  case (Cons it items)
  then obtain m where n: "n = Suc m" by (cases n) auto
  from Cons.prems(1) obtain b iu1 bits' where wi: "write_item env w rh ibi iu it = Some (b, iu1)"
    "write_items env w rh ibi iu1 items = Some (bits', iu')" "bits = b @ bits'"
    by (auto split: option.splits)
  from write_item_read [OF wi(1) assms] obtain i b' where i: "b = nat_bits w (unat i) @ b'" "unat i < 2 ^ w" "i \<noteq> 0" "i \<noteq> 1"
    "reads (read_item env iu i rh ibi) b' iu1" by blast
  let ?rest = "bits' @ nat_bits w 0 @ rest"
  have len: "8 \<le> length ?rest" "8 \<le> length (b' @ ?rest)" using Cons.prems(4) by auto
  obtain bs1 where r1: "read_bits bs w = Inr (i, bs1)" "stream_ok bs1" "stream_bits bs1 = b' @ ?rest"
    using readsD [OF reads_bits [OF assms(2) i(2)] Cons.prems(2), of "b' @ ?rest"] Cons.prems(3) wi(3) i(1) len
    by (auto simp: of_nat_unat)
  obtain bs2 where r2: "read_item env iu i rh ibi bs1 = Inr (iu1, bs2)" "stream_ok bs2" "stream_bits bs2 = ?rest"
    using readsD [OF i(5) r1(2,3) len(1)] by auto
  have "parse_items n env iu w rh ibi bs = parse_items m env iu1 w rh ibi bs2"
    using r1(1) r2(1) i(3,4) n by (auto simp: parse_items.simps(2) read_item_def split: if_splits)
  moreover from Cons.IH [OF wi(2) r2(2,3) Cons.prems(4), of m] Cons.prems(5) n
  obtain bs' where "parse_items m env iu1 w rh ibi bs2 = Some (Inr (iu', align_bits32 bs'))" "stream_ok bs'" "stream_bits bs' = rest"
    by auto
  ultimately show ?case by auto
qed


definition plain_env :: parse_env where
  "plain_env = \<lparr>pe_resolver = (\<lambda>_. None), pe_function_rec = (\<lambda>iu _ _. Inr iu), pe_function_process = (\<lambda>iu _. Inr iu)\<rparr>"

definition empty_unit :: ir_unit where
  "empty_unit = \<lparr>iu_ts = \<lparr>iu_types = [], iu_types_created = False, iu_current_struct_name = None\<rparr>,
     iu_values = [], iu_next_value = 0, iu_first_func_value = 0, iu_functions = [], iu_functions_with_bodies = [],
     iu_current_function = None, iu_data_ptr = 4096, iu_initializers = [], iu_current_type = 0, iu_version = 0,
     iu_triple = None, iu_vstoffset = 0, iu_attribute_groups = [], iu_attrsets = [], iu_blockinfos = [], iu_blocks = []\<rparr>"

definition demo_items :: "item list" where
  "demo_items = [Define [IAOT_LITTERAL 8, IAOT_VBR 6], Record 7 [32], Abbreviated 4 8 [0]]"

definition demo_block :: bcbitstream where
  "demo_block = \<lparr>rdata = [18, 17, 200, 236, 8, 192, 128, 0, 0, 0, 0, 0, 0, 0, 0, 0], bytes_length = 16, bytes_offset = 0, remain = 0, tmp = 0\<rparr>"

definition demo_parsed :: ir_unit where
  "demo_parsed = (open_block empty_unit 17)\<lparr>
     iu_ts := \<lparr>iu_types = [It_int32, It_pointer 0], iu_types_created = False, iu_current_struct_name = None\<rparr>,
     iu_blocks := [\<lparr>ib_scoped_abbrevs = [[IAOT_LITTERAL 8, IAOT_VBR 6]], ib_blockinfo = None\<rparr>]\<rparr>"


lemma open_block_vst [simp]: "iu_vstoffset (open_block iu i) = iu_vstoffset iu"
  by (simp add: open_block_def blockinfo_find_def)

section \<open>Recursion without end\<close>

text \<open>
  C39. \<open>iu_vstoffset\<close> is cleared only after the symbol table has been parsed. When the offset leads to
  a FUNCTION block, entering that block jumps to the offset again, and the parser never returns: no
  number of calls is enough.
\<close>

theorem vst_recursion_diverges:
  assumes "iu_vstoffset iu = v" and "v \<noteq> 0" and "remain vst = 0"
    and "read_bits vst w = Inr (1, bs1)" and "read_block_header bs1 = Inr (12, wi, bs2)"
    and "\<And>iu. iu_vstoffset iu = v \<Longrightarrow> vst_stream iu bs2 = Inr vst"
  shows "ir_parse_blocks n env iu w rh ibi vst = None"
  using assms(1)
proof (induction n arbitrary: iu rh ibi rule: less_induct)
  case (less n)
  show ?case
  proof (cases "\<exists>k. n = Suc (Suc (Suc k))")
    case True
    then obtain k where n: "n = Suc (Suc (Suc k))" by blast
    let ?iu = "(open_block iu 12)\<lparr>iu_first_func_value := iu_next_value (open_block iu 12)\<rparr>"
    have "iu_vstoffset ?iu = v" using less.prems by simp
    then have "ir_parse_blocks k env ?iu w None (Some 12) vst = None" "vst_stream ?iu bs2 = Inr vst"
      using less.IH [of k ?iu] assms(6) n by auto
    then have "ir_enter_subblock (Suc k) env iu bs1 w = None"
      using assms(2,5) less.prems by (simp add: ir_enter_subblock.simps block_handler_def Let_def)
    then show ?thesis
      using n assms(3,4) by (simp add: ir_parse_blocks.simps parse_items.simps)
  next
    case False
    then consider "n = 0" | "n = Suc 0" | "n = Suc (Suc 0)"
      by (metis old.nat.exhaust)
    then show ?thesis
      using assms(3,4) by cases (simp_all add: ir_parse_blocks.simps parse_items.simps ir_enter_subblock.simps)
  qed
qed

definition looping_module :: bcbitstream where
  "looping_module = \<lparr>rdata = [0, 0, 0, 0, 0x31, 0x10, 0, 0, 0, 0, 0, 0, 0, 0, 0, 0, 0, 0, 0, 0], bytes_length = 20, bytes_offset = 4, remain = 0, tmp = 0\<rparr>"

theorem vst_recursion_diverges_witness:
  "\<forall>n. ir_parse_blocks n plain_env (empty_unit\<lparr>iu_vstoffset := 1\<rparr>) 2 None None looping_module = None"
proof (rule allI, rule vst_recursion_diverges)
  show "read_bits looping_module 2 = Inr (1, looping_module\<lparr>bytes_offset := 5, remain := 6, tmp := 0x0c\<rparr>)"
    by code_simp
  show "read_block_header (looping_module\<lparr>bytes_offset := 5, remain := 6, tmp := 0x0c\<rparr>) =
      Inr (12, 4, looping_module\<lparr>bytes_offset := 12\<rparr>)"
    by code_simp
  show "vst_stream iu (looping_module\<lparr>bytes_offset := 12\<rparr>) = Inr looping_module" if "iu_vstoffset iu = 1" for iu
    using that by (simp add: vst_stream_def looping_module_def)
qed (simp_all add: looping_module_def)

end
