(* ===== verification/Vmir_Load_Props.thy ===== *)
theory Vmir_Load_Props
  imports Vmir_Load Vmir_Type_Props Vmir_Parser_Props
begin

text \<open>
  The data segment: global variables do not overlap, and their initial values stay inside them. The
  second needs the layout of structures, for which \<open>finalize_sound_struct\<close> applies the layout theorem
  of the type table.
\<close>

section \<open>Where initial values are written\<close>

definition unchanged_outside :: "vmem \<Rightarrow> vmem \<Rightarrow> nat \<Rightarrow> nat \<Rightarrow> bool" where
  "unchanged_outside m m' p n = (\<forall>a. a < p \<or> p + n \<le> a \<longrightarrow> m' a = m a)"

lemma unchanged_refl [simp]: "unchanged_outside m m p n"
  by (simp add: unchanged_outside_def)

lemma unchanged_trans:
  "unchanged_outside m m1 p n \<Longrightarrow> unchanged_outside m1 m2 q k \<Longrightarrow> p' \<le> p \<Longrightarrow> p + n \<le> p' + n' \<Longrightarrow> p' \<le> q \<Longrightarrow> q + k \<le> p' + n' \<Longrightarrow>
    unchanged_outside m m2 p' n'"
  by (auto simp: unchanged_outside_def)

lemma unchanged_store [intro]: "length bs \<le> n \<Longrightarrow> unchanged_outside m (store_bytes m p bs) p n"
  by (auto simp: unchanged_outside_def intro: store_bytes_frame)

lemma unchanged_wr:
  "1 \<le> n \<Longrightarrow> unchanged_outside m (mem_wr8 m p v8) p n"
  "2 \<le> n \<Longrightarrow> unchanged_outside m (mem_wr16 m p v16) p n"
  "4 \<le> n \<Longrightarrow> unchanged_outside m (mem_wr32 m p v32) p n"
  "8 \<le> n \<Longrightarrow> unchanged_outside m (mem_wr64 m p v64) p n"
  by (auto simp: mem_wr8_def mem_wr16_def mem_wr32_def mem_wr64_def host_store_le_def unchanged_outside_def store_bytes_frame)

text \<open>Every field lies inside its structure, and the size of an array does not wrap around.\<close>

definition sound_type :: "types \<Rightarrow> ir_type \<Rightarrow> bool" where
  "sound_type tys t =
     (case t of
        It_struct s \<Rightarrow>
          list_all (\<lambda>e. case (snd e, type_sizeof tys (fst e), st_size s) of
              (Some off, Inr v, Some sz) \<Rightarrow> 0 \<le> off \<and> off + uint v \<le> sz \<and> sz < 2 ^ 31
            | _ \<Rightarrow> False) (st_elements s)
      | It_array num el \<Rightarrow> (case type_sizeof tys el of Inr v \<Rightarrow> uint v * uint num < 2 ^ 32 | Inl _ \<Rightarrow> True)
      | _ \<Rightarrow> True)"

definition sound_sizes :: "types \<Rightarrow> bool" where
  "sound_sizes tys = list_all (sound_type tys) tys"

lemma sound_array: "sound_sizes tys \<Longrightarrow> It_array num el \<in> set tys \<Longrightarrow> type_sizeof tys el = Inr v \<Longrightarrow>
    unat (v * num) = unat v * unat num"
proof -
  assume "sound_sizes tys" "It_array num el \<in> set tys" "type_sizeof tys el = Inr v"
  then have "uint v * uint num < 2 ^ 32" by (auto simp: sound_sizes_def list_all_iff sound_type_def)
  then have "int (unat v * unat num) < int (2 ^ 32)" by simp
  then have "unat v * unat num < 2 ^ 32" by (simp only: of_nat_less_iff)
  then show ?thesis by (simp add: unat_word_ariths)
qed

lemma sound_field:
  assumes "sound_sizes tys" "It_struct s \<in> set tys" "e \<in> set (st_elements s)"
  obtains off v sz where "snd e = Some off" "type_sizeof tys (fst e) = Inr v" "st_size s = Some sz"
    "0 \<le> off" "nat off + unat v \<le> nat sz" "0 \<le> sz" "sz < 2 ^ 31"
proof -
  have "sound_type tys (It_struct s)" using assms(1,2) unfolding sound_sizes_def list_all_iff by blast
  then have "case (snd e, type_sizeof tys (fst e), st_size s) of
      (Some off, Inr v, Some sz) \<Rightarrow> 0 \<le> off \<and> off + uint v \<le> sz \<and> sz < 2 ^ 31 | _ \<Rightarrow> False"
    using assms(3) by (simp add: sound_type_def list_all_iff)
  then obtain off v sz where *: "snd e = Some off" "type_sizeof tys (fst e) = Inr v" "st_size s = Some sz"
    "0 \<le> off" "off + uint v \<le> sz" "sz < 2 ^ 31"
    by (auto split: option.splits sum.splits)
  moreover have "0 \<le> sz" using *(4,5) uint_ge_0 [of v] by linarith
  moreover have "nat off + unat v \<le> nat sz"
  proof -
    have "int (nat off + unat v) \<le> int (nat sz)" using *(4,5) \<open>0 \<le> sz\<close> by simp
    then show ?thesis by (simp only: of_nat_le_iff)
  qed
  ultimately show ?thesis using that by blast
qed

lemma sizeof_mono: "type_sizeof_ptr n tys t = Inr v \<Longrightarrow> type_sizeof_ptr (Suc n) tys t = Inr v"
proof (induction n arbitrary: t v)
  case 0
  then show ?case by (cases t) (auto simp: res_simps)
next
  case (Suc n)
  show ?case
  proof (cases "\<exists>num el. t = It_array num el")
    case True
    then obtain num el where "t = It_array num el" by blast
    with Suc show ?thesis by (auto simp: res_simps simp del: type_sizeof_ptr.simps(2)) (auto simp: res_simps)
  next
    case False
    with Suc.prems show ?thesis by (cases t) auto
  qed
qed

lemma sizeof_array:
  assumes "type_get tys ty = Inr (It_array num el)" "type_sizeof tys ty = Inr sz"
  shows "\<exists>v. type_sizeof tys el = Inr v \<and> sz = v * num"
proof (cases "length tys")
  case 0
  with assms show ?thesis by (auto simp: type_get_def split: if_splits)
next
  case (Suc n)
  with assms obtain t v where "type_get tys el = Inr t" "type_sizeof_ptr n tys t = Inr v" "sz = v * num"
    by (auto simp: type_sizeof_def res_simps)
  with sizeof_mono [of n tys t v] Suc show ?thesis by (auto simp: type_sizeof_def res_simps simp del: type_sizeof_ptr.simps)
qed

lemma sizeof_flat:
  assumes "type_get tys ty = Inr t" "init_kind t = Init_scalar \<or> (\<exists>s. t = It_struct s)" "type_sizeof tys ty = Inr sz"
  shows "flat_sizeof t = Inr sz"
  using assms by (cases "length tys"; cases t) (auto simp: type_sizeof_def init_kind_def)

lemma sizeof_struct:
  assumes "type_get tys ty = Inr (It_struct s)" "type_sizeof tys ty = Inr sz" "st_size s = Some k" "0 \<le> k" "k < 2 ^ 31"
  shows "unat sz = nat k"
  using sizeof_flat [OF assms(1) _ assms(2)] assms(3-5)
  by (auto simp: uninit_def unsigned_of_int take_bit_int_eq_self)

lemma init_scalar_within:
  assumes "init_scalar iu m addr t c = Inr m'" "flat_sizeof t = Inr sz"
  shows "unchanged_outside m m' addr (unat sz)"
  using assms
  by (auto simp: init_scalar_def write_const32_def res_simps unchanged_wr split: ir_type.splits value_class.splits)

lemma init_bulk_within:
  "init_bulk m addr b sz c = Inr m' \<Longrightarrow> unchanged_outside m m' addr (unat sz)"
  by (auto simp: init_bulk_def c_memcpy_data_def c_memset0_def split: value_class.splits if_splits)

lemma type_get_mem: "type_get tys i = Inr t \<Longrightarrow> t \<in> set tys"
  by (auto simp: type_get_def split: if_splits)

lemma unat_of_sint: "int k = sint (w :: u32) \<Longrightarrow> unat w = k"
proof -
  assume k: "int k = sint w"
  then have "int k < 2 ^ 32" using sint_less [of w] by simp
  then have "uint w = int k" by (simp add: uint_sint k [symmetric] take_bit_int_eq_self)
  then show ?thesis by (metis nat_int nat_uint_eq)
qed

lemma initialize_global_within:
  shows "\<And>m' sz. initialize_global n iu m addr ty c = Inr m' \<Longrightarrow> sound_sizes (iu_types (iu_ts iu)) \<Longrightarrow>
      type_sizeof (iu_types (iu_ts iu)) ty = Inr sz \<Longrightarrow> unchanged_outside m m' addr (unat sz)"
    and "\<And>m' esz. init_array n iu m addr el vs = Inr m' \<Longrightarrow> sound_sizes (iu_types (iu_ts iu)) \<Longrightarrow>
      type_sizeof (iu_types (iu_ts iu)) el = Inr esz \<Longrightarrow> unchanged_outside m m' addr (unat esz * length vs)"
    and "\<And>m' k. init_struct n iu m addr els ws = Inr m' \<Longrightarrow> sound_sizes (iu_types (iu_ts iu)) \<Longrightarrow>
      (\<And>e. e \<in> set els \<Longrightarrow> \<exists>off v. snd e = Some off \<and> type_sizeof (iu_types (iu_ts iu)) (fst e) = Inr v \<and> nat off + unat v \<le> k) \<Longrightarrow>
      unchanged_outside m m' addr k"
proof (induction n iu m addr ty c and n iu m addr el vs and n iu m addr els ws
    rule: initialize_global_init_array_init_struct.induct)
  case (1 iu m addr ty c)
  then show ?case by simp
next
  case (2 n iu m addr ty c)
  let ?tys = "iu_types (iu_ts iu)"
  from 2(3) obtain t where t: "type_get ?tys ty = Inr t" by (auto simp: res_simps)
  note mem = type_get_mem [OF t]
  show ?case
  proof (cases "init_kind t")
    case Init_scalar
    with 2(3,5) t init_scalar_within sizeof_flat [OF t _ 2(5)] show ?thesis by simp
  next
    case (Init_array num el)
    then have arr: "t = It_array num el" by (cases t) (auto simp: init_kind_def)
    from sizeof_array [OF t [unfolded arr] 2(5)] obtain v where v: "type_sizeof ?tys el = Inr v" "sz = v * num" by blast
    show ?thesis
    proof (cases "aggregate_values c")
      case None
      with 2(3,5) t Init_array init_bulk_within show ?thesis by (auto simp: res_simps)
    next
      case (Some vs)
      with 2(3,5) t Init_array have "init_array n iu m addr el vs = Inr m'" "int (length vs) = sint num"
        by (auto simp: res_simps)
      moreover have "unat num = length vs"
        using calculation(2) by (rule unat_of_sint)
      ultimately show ?thesis
        using 2(1) [OF t Init_array 2(5) Some] 2(4) v sound_array [OF 2(4) mem [unfolded arr] v(1)] by auto
    qed
  next
    case (Init_struct els)
    then obtain s where st: "t = It_struct s" "els = st_elements s" by (cases t) (auto simp: init_kind_def)
    show ?thesis
    proof (cases "aggregate_values c")
      case None
      with 2(3,5) t Init_struct init_bulk_within show ?thesis by (auto simp: res_simps)
    next
      case (Some vs)
      with 2(3,5) t Init_struct have ist: "init_struct n iu m addr els vs = Inr m'" "length vs = length els"
        by (auto simp: res_simps)
      have "\<exists>off v. snd e = Some off \<and> type_sizeof ?tys (fst e) = Inr v \<and> nat off + unat v \<le> unat sz" if "e \<in> set els" for e
        using sound_field [OF 2(4) mem [unfolded st(1)] that [unfolded st(2)]]
          sizeof_struct [OF t [unfolded st(1)] 2(5)] by metis
      with 2(2) [OF t Init_struct 2(5) Some] ist 2(4) show ?thesis by auto
    qed
  qed
next
  case (3 n iu m addr el)
  then show ?case by simp
next
  case (4 n iu m addr el v vs)
  from 4(3) obtain sub m1 s where st: "initialize_global n iu m addr el sub = Inr m1"
    "value_at iu (fst v) = Inr sub" "type_sizeof (iu_types (iu_ts iu)) el = Inr s"
    "init_array n iu m1 (addr + unat s) el vs = Inr m'"
    by (auto simp: res_simps)
  have "unchanged_outside m m1 addr (unat esz)" "unchanged_outside m1 m' (addr + unat esz) (unat esz * length vs)"
    using 4(1) [OF st(2,1) 4(4,5)] 4(2) [OF st(2,1,3,4) 4(4,5)] st(3) 4(5) by auto
  then show ?case by (rule unchanged_trans) auto
next
  case (5 n iu m addr e es v vs)
  from 5(3) obtain sub off m1 where st: "value_at iu (fst v) = Inr sub" "snd e = Some off" "0 \<le> off"
    "initialize_global n iu m (addr + nat off) (fst e) sub = Inr m1" "init_struct n iu m1 addr es vs = Inr m'"
    by (auto simp: res_simps split: option.splits if_splits)
  from 5(5) [of e] st(2) obtain w where w: "type_sizeof (iu_types (iu_ts iu)) (fst e) = Inr w" "nat off + unat w \<le> k"
    by auto
  have "unchanged_outside m m1 (addr + nat off) (unat w)"
    using 5(1) [OF st(1,2) _ st(4) 5(4) w(1)] st(3) by simp
  moreover have "unchanged_outside m1 m' addr k"
    using 5(2) [OF st(1,2) _ st(4,5) 5(4)] st(3) 5(5) by auto
  ultimately show ?case by (rule unchanged_trans) (use w in auto)
qed auto

section \<open>Global variables\<close>

definition global_at :: "ir_unit \<Rightarrow> nat \<Rightarrow> ir_globalvar \<Rightarrow> bool" where
  "global_at iu k ig = (k < length (iu_values iu) \<and> (\<exists>iv. iu_values iu ! k = Some iv \<and> iv_class iv = Vc_globalvar ig))"

definition in_global :: "ir_globalvar \<Rightarrow> nat \<Rightarrow> bool" where
  "in_global ig a = (unat (ig_addr ig) \<le> a \<and> a < unat (ig_addr ig) + unat (ig_size ig))"

text \<open>
  Every global variable has the size of its type and lies between the start of the data segment and
  the data pointer, and no two share a byte.
\<close>

definition globals_ok :: "ir_unit \<Rightarrow> bool" where
  "globals_ok iu =
    ((\<forall>k ig. global_at iu k ig \<longrightarrow> type_sizeof (iu_types (iu_ts iu)) (ig_type ig) = Inr (ig_size ig) \<and>
        4096 \<le> unat (ig_addr ig) \<and> unat (ig_addr ig) + unat (ig_size ig) \<le> unat (iu_data_ptr iu)) \<and>
     (\<forall>j k ig ig' a. global_at iu j ig \<and> global_at iu k ig' \<and> in_global ig a \<and> in_global ig' a \<longrightarrow> j = k))"

lemma append_value_spec:
  assumes "append_value iu c ty = Inr (i, iu1)"
  shows "i = iu_next_value iu \<and> i \<le> length (iu_values iu) \<and> iu_ts iu1 = iu_ts iu \<and> (\<exists>iv. iv_class iv = c \<and>
      iu_values iu1 = (if i = length (iu_values iu) then iu_values iu @ [Some iv] else (iu_values iu)[i := Some iv]))"
proof -
  let ?i = "iu_next_value iu"
  consider "?i = length (iu_values iu)" | "?i < length (iu_values iu)"
    using assms by (cases "?i = length (iu_values iu)") (auto simp: append_value_def value_append_def Let_def res_simps)
  then show ?thesis
  proof cases
    case 1
    with assms show ?thesis
      by (auto simp: append_value_def value_append_def Let_def set_value_def deref_def
          intro!: exI [of _ "new_value\<lparr>iv_class := c, iv_type := ty\<rparr>"])
  next
    case 2
    with assms obtain iv where "i = ?i" "iu_values iu1 = (iu_values iu)[?i := Some (iv\<lparr>iv_class := c, iv_type := ty\<rparr>)]"
      "iu_ts iu1 = iu_ts iu"
      by (cases "iu_values iu ! ?i") (auto simp: append_value_def value_append_def Let_def set_value_def deref_def res_simps)
    with 2 show ?thesis by (auto intro!: exI [of _ "iv\<lparr>iv_class := c, iv_type := ty\<rparr>"])
  qed
qed

lemma align_pow: "vmir_llvm_alignment al 4 = Inr a \<Longrightarrow> \<exists>n\<le>8. a = 2 ^ n"
proof -
  assume *: "vmir_llvm_alignment al 4 = Inr a"
  consider "al = 0" | "al > 9" | "0 < al" "al \<le> 9" using * by (fastforce simp: vmir_llvm_alignment_def split: if_splits)
  then show ?thesis
  proof cases
    case 1
    with * show ?thesis by (intro exI [of _ 2]) (simp add: vmir_llvm_alignment_def)
  next
    case 2
    with * show ?thesis by (intro exI [of _ 8]) (simp add: vmir_llvm_alignment_def)
  next
    case 3
    with * vmir_llvm_alignment_pos [of al 4] show ?thesis by (intro exI [of _ "nat al - 1"]) auto
  qed
qed

lemma aligned_addr:
  fixes dp :: u32
  assumes "n \<le> 8" "unat dp + 256 < 2 ^ 32"
  shows "2 ^ n dvd unat (VMIR_ALIGN dp (2 ^ n))" "unat dp \<le> unat (VMIR_ALIGN dp (2 ^ n))"
    "unat (VMIR_ALIGN dp (2 ^ n)) < unat dp + 256"
proof -
  have p: "(2::nat) ^ n \<le> 256" using power_increasing [OF assms(1), of "2::nat"] by simp
  have "unat (VMIR_ALIGN dp (2 ^ n)) = 2 ^ n * ((unat dp + 2 ^ n - 1) div 2 ^ n)"
    using assms p by (intro unat_VMIR_ALIGN) auto
  moreover have "2 ^ n * ((unat dp + 2 ^ n - 1) div 2 ^ n) + (unat dp + 2 ^ n - 1) mod 2 ^ n = unat dp + 2 ^ n - 1"
    by simp
  moreover have "(unat dp + 2 ^ n - 1) mod 2 ^ n < 2 ^ n" by simp
  ultimately show "2 ^ n dvd unat (VMIR_ALIGN dp (2 ^ n))" "unat dp \<le> unat (VMIR_ALIGN dp (2 ^ n))"
    "unat (VMIR_ALIGN dp (2 ^ n)) < unat dp + 256"
    using p by (simp, linarith+)
qed

text \<open>
  C27. Defining a global variable keeps all global variables apart: the new one is aligned as asked,
  starts at or after the data pointer and ends at the new one, as long as the 32-bit data pointer does
  not wrap around.
\<close>

theorem module_globalvar_disjoint:
  assumes "module_globalvar iu argv = Inr iu'" and "globals_ok iu" and "4096 \<le> unat (iu_data_ptr iu)"
    and "vmir_llvm_alignment (sint (ucast (argv ! 4) :: u32)) 4 = Inr al"
    and "\<And>t p sz. globalvar_type iu argv = Inr (t, p) \<Longrightarrow> type_sizeof (iu_types (iu_ts iu)) p = Inr sz \<Longrightarrow>
      unat (iu_data_ptr iu) + 256 + unat sz < 2 ^ 32"
  shows "globals_ok iu' \<and> (\<exists>ig. global_at iu' (iu_next_value iu) ig \<and> nat al dvd unat (ig_addr ig)) \<and>
    unat (iu_data_ptr iu) \<le> unat (iu_data_ptr iu')"
proof -
  obtain t p sz i iu1 where g: "globalvar_type iu argv = Inr (t, p)" and sz: "type_sizeof (iu_types (iu_ts iu)) p = Inr sz"
    and ap: "append_value iu (Vc_globalvar \<lparr>ig_type = p, ig_name = None,
        ig_addr = VMIR_ALIGN (iu_data_ptr iu) (word_of_int al), ig_size = sz\<rparr>) t = Inr (i, iu1)"
    and iu': "iu_values iu' = iu_values iu1" "iu_ts iu' = iu_ts iu1"
      "iu_data_ptr iu' = VMIR_ALIGN (iu_data_ptr iu) (word_of_int al) + sz"
    using assms(1,4) by (auto simp: module_globalvar_def Let_def res_simps split: if_splits)
  let ?addr = "VMIR_ALIGN (iu_data_ptr iu) (word_of_int al)"
  let ?ig = "\<lparr>ig_type = p, ig_name = None, ig_addr = ?addr, ig_size = sz\<rparr>"
  note ovf = assms(5) [OF g sz]
  obtain n where n: "n \<le> 8" "al = 2 ^ n" using align_pow [OF assms(4)] by blast
  have ad: "2 ^ n dvd unat ?addr" "unat (iu_data_ptr iu) \<le> unat ?addr" "unat ?addr < unat (iu_data_ptr iu) + 256"
    using aligned_addr [OF n(1), of "iu_data_ptr iu"] ovf n(2) by auto
  have dp: "unat (iu_data_ptr iu') = unat ?addr + unat sz"
    using ad ovf iu'(3) by (simp add: unat_word_ariths)
  from append_value_spec [OF ap] obtain iv where i: "i = iu_next_value iu" "i \<le> length (iu_values iu)"
    and iv: "iv_class iv = Vc_globalvar ?ig" and v1: "iu_ts iu1 = iu_ts iu"
    "iu_values iu1 = (if i = length (iu_values iu) then iu_values iu @ [Some iv] else (iu_values iu)[i := Some iv])"
    by auto
  have at: "global_at iu' k ig \<longleftrightarrow> (if k = i then ig = ?ig else global_at iu k ig)" for k ig
    using iu'(1) v1(2) i(2) iv by (auto simp: global_at_def nth_append nth_list_update)
  have old: "type_sizeof (iu_types (iu_ts iu)) (ig_type ig) = Inr (ig_size ig)" "4096 \<le> unat (ig_addr ig)"
    "unat (ig_addr ig) + unat (ig_size ig) \<le> unat (iu_data_ptr iu)" if "global_at iu k ig" for k ig
    using assms(2) that by (auto simp: globals_ok_def)
  have apart: "\<not> (in_global ig a \<and> in_global ?ig a)" if "global_at iu k ig" for k ig a
    using old [OF that] ad by (auto simp: in_global_def)
  have "globals_ok iu'"
    unfolding globals_ok_def
  proof (intro conjI allI impI)
    fix k ig assume "global_at iu' k ig"
    with at old [of k ig] sz ad dp assms(3) iu'(2) v1(1)
    show "type_sizeof (iu_types (iu_ts iu')) (ig_type ig) = Inr (ig_size ig)" "4096 \<le> unat (ig_addr ig)"
      "unat (ig_addr ig) + unat (ig_size ig) \<le> unat (iu_data_ptr iu')"
      by (auto split: if_splits)
  next
    fix j k ig ig' a
    assume *: "global_at iu' j ig \<and> global_at iu' k ig' \<and> in_global ig a \<and> in_global ig' a"
    then show "j = k"
      using at [of j ig] at [of k ig'] apart assms(2) unfolding globals_ok_def by (metis)
  qed
  moreover have "global_at iu' (iu_next_value iu) ?ig" using at [of i ?ig] i(1) by simp
  ultimately show ?thesis using ad n(2) dp by (auto simp: nat_power_eq intro!: exI [of _ ?ig])
qed

text \<open>
  C25. \<open>initialize_globals\<close> writes only inside global variables: a byte of guest memory that belongs to
  none keeps its value, whatever the initialisers are, provided the structures of the type table are
  laid out and no array size wraps around.
\<close>

theorem initialize_globals_within:
  assumes "initialize_globals iu m is = Inr m'" and "globals_ok iu" and "sound_sizes (iu_types (iu_ts iu))"
    and "\<And>k ig. global_at iu k ig \<Longrightarrow> \<not> in_global ig a"
  shows "m' a = m a"
  using assms(1)
proof (induction "is" arbitrary: m)
  case (Cons gc "is")
  obtain g c where gc: "gc = (g, c)" by force
  with Cons.prems obtain gv cv where v: "value_at iu (of_nat g) = Inr gv" "value_at iu c = Inr cv"
    by (auto simp: res_simps)
  with Cons.prems gc obtain ig m1 where s: "iv_class gv = Vc_globalvar ig"
    "initialize_global (Suc (length (iu_types (iu_ts iu)))) iu m (unat (ig_addr ig)) (ig_type ig) cv = Inr m1"
    "initialize_globals iu m1 is = Inr m'"
    by (cases "iv_class gv") (auto simp: res_simps simp del: initialize_global.simps)
  have at: "global_at iu (unat (of_nat g :: u32)) ig"
    using v(1) s(1) by (auto simp: value_at_def value_get_def deref_def global_at_def res_simps split: if_splits option.splits)
  then have "type_sizeof (iu_types (iu_ts iu)) (ig_type ig) = Inr (ig_size ig)"
    using assms(2) by (auto simp: globals_ok_def)
  with initialize_global_within(1) [OF s(2) assms(3)] have "unchanged_outside m m1 (unat (ig_addr ig)) (unat (ig_size ig))"
    by blast
  with assms(4) [OF at] have "m1 a = m a" by (auto simp: unchanged_outside_def in_global_def not_le)
  with Cons.IH [OF s(3)] show ?case by simp
qed simp

text \<open>A structure laid out by \<open>types_finalize\<close> is sound when no field is \<open>void\<close> and sizes are below \<open>2^31\<close>.\<close>

lemma finalize_sound_struct:
  assumes fin: "types_finalize ts = Inr ts'" "fresh_types (iu_types ts)" "acyclic_types rank (iu_types ts)"
    and s: "It_struct s \<in> set (iu_types ts')"
    and nv: "\<And>t. t \<in> fst ` set (st_elements s) \<Longrightarrow> type_alignment (iu_types ts') t \<noteq> Inr 0"
    and nn: "\<And>t v. t \<in> fst ` set (st_elements s) \<Longrightarrow> type_sizeof (iu_types ts') t = Inr v \<Longrightarrow> 0 \<le> sint v"
    and big: "\<And>sz. st_size s = Some sz \<Longrightarrow> sz < 2 ^ 31"
  shows "sound_type (iu_types ts') (It_struct s)"
proof -
  have "\<exists>fs offs sz al. list_all2 (element_of (iu_types ts') (st_packed s)) (map fst (st_elements s)) fs \<and>
    map snd (st_elements s) = map Some offs \<and> st_size s = Some sz \<and> st_alignment s = Some al \<and>
    abi_layout (st_packed s) fs offs sz al"
    by (rule laid_out_abi [OF acyclic_evolves [OF fin(3) types_finalize_laid_out(1) [OF fin]] _ s nv])
      (use types_finalize_laid_out(2) [OF fin] in auto)
  then obtain fs offs sz al where el: "list_all2 (element_of (iu_types ts') (st_packed s)) (map fst (st_elements s)) fs"
    and offs: "map snd (st_elements s) = map Some offs" and sz: "st_size s = Some sz"
    and abi: "abi_layout (st_packed s) fs offs sz al" by blast
  have len: "length fs = length (st_elements s)" "length offs = length (st_elements s)"
    using el abi by (auto simp: abi_layout_def dest: list_all2_lengthD)
  have ge: "0 \<le> fst g" if "g \<in> set fs" for g
    using list_all2_right [OF el that] nn by (fastforce simp: element_of_def)
  have "\<exists>v. type_sizeof (iu_types ts') (fst (st_elements s ! k)) = Inr v \<and> snd (st_elements s ! k) = Some (offs ! k) \<and>
      0 \<le> offs ! k \<and> offs ! k + uint v \<le> sz" if k: "k < length (st_elements s)" for k
  proof -
    have off: "snd (st_elements s ! k) = Some (offs ! k)"
      using k len arg_cong [OF offs, of "\<lambda>xs. xs ! k"] by simp
    obtain v where v: "type_sizeof (iu_types ts') (fst (st_elements s ! k)) = Inr v" "fst (fs ! k) = sint v"
      using list_all2_nthD [OF el, of k] k len by (auto simp: element_of_def)
    have "offs ! k + fst (fs ! k) \<le> field_end fs offs (length fs)"
      using abi_disjoint [OF abi ge, of k "length fs"] k len by simp
    also have "\<dots> \<le> sz" using abi by (simp add: abi_layout_def next_multiple_def)
    finally have "offs ! k + sint v \<le> sz" using v(2) by simp
    moreover have "0 \<le> offs ! k" using abi_nonneg [OF abi ge] k len by simp
    ultimately show ?thesis using v(1) off uint_of_sint [of v] nn [OF _ v(1)] nth_mem [OF k] by auto
  qed
  with big [OF sz] sz show ?thesis
    by (fastforce simp: sound_type_def list_all_length)
qed

section \<open>Instances\<close>

definition gv_types :: type_state where
  "gv_types = \<lparr>iu_types = [It_int32, It_array 2 0, It_pointer 1], iu_types_created = False, iu_current_struct_name = None\<rparr>"

definition gv_global :: ir_globalvar where
  "gv_global = \<lparr>ig_type = 1, ig_name = None, ig_addr = 4096, ig_size = 8\<rparr>"

definition gv_unit :: ir_unit where
  "gv_unit = empty_unit\<lparr>iu_ts := gv_types, iu_next_value := 1, iu_data_ptr := 4104,
     iu_values := [Some (new_value\<lparr>iv_class := Vc_globalvar gv_global, iv_type := 2\<rparr>)],
     iu_initializers := [(0, 1)]\<rparr>"

lemma gv_global_at: "global_at gv_unit k ig \<longleftrightarrow> k = 0 \<and> ig = gv_global"
  by (auto simp: global_at_def gv_unit_def)

lemma gv_globals_ok: "globals_ok gv_unit"
proof -
  have "type_sizeof (iu_types (iu_ts gv_unit)) (ig_type gv_global) = Inr (ig_size gv_global)" by code_simp
  moreover have "4096 \<le> unat (ig_addr gv_global)"
    "unat (ig_addr gv_global) + unat (ig_size gv_global) \<le> unat (iu_data_ptr gv_unit)"
    by (simp_all add: gv_global_def gv_unit_def)
  ultimately show ?thesis by (auto simp: globals_ok_def gv_global_at)
qed

theorem module_globalvar_disjoint_witness:
  "\<exists>iu'. module_globalvar gv_unit [2, 0, 0, 0, 5, 0] = Inr iu' \<and> globals_ok iu' \<and>
     (\<exists>ig. global_at iu' 1 ig \<and> 16 dvd unat (ig_addr ig)) \<and> 4104 \<le> unat (iu_data_ptr iu')"
proof -
  let ?iu' = "gv_unit\<lparr>iu_next_value := 2, iu_data_ptr := 4120, iu_values := iu_values gv_unit @
     [Some (new_value\<lparr>iv_class := Vc_globalvar (gv_global\<lparr>ig_addr := 4112\<rparr>), iv_type := 2\<rparr>)]\<rparr>"
  have run: "module_globalvar gv_unit [2, 0, 0, 0, 5, 0] = Inr ?iu'" by code_simp
  have "globals_ok ?iu' \<and> (\<exists>ig. global_at ?iu' (iu_next_value gv_unit) ig \<and> nat 16 dvd unat (ig_addr ig)) \<and>
      unat (iu_data_ptr gv_unit) \<le> unat (iu_data_ptr ?iu')"
  proof (rule module_globalvar_disjoint [OF run gv_globals_ok])
    show "vmir_llvm_alignment (sint (ucast ([2, 0, 0, 0, 5, 0 :: ir_arg] ! 4) :: u32)) 4 = Inr 16" by code_simp
    fix t p sz
    assume "globalvar_type gv_unit [2, 0, 0, 0, 5, 0] = Inr (t, p)" and sz: "type_sizeof (iu_types (iu_ts gv_unit)) p = Inr sz"
    moreover have "globalvar_type gv_unit [2, 0, 0, 0, 5, 0] = Inr (2, 1)" by code_simp
    ultimately have "type_sizeof (iu_types (iu_ts gv_unit)) 1 = Inr sz" by simp
    moreover have "type_sizeof (iu_types (iu_ts gv_unit)) 1 = Inr 8" by code_simp
    ultimately have "sz = 8" by simp
    then show "unat (iu_data_ptr gv_unit) + 256 + unat sz < 2 ^ 32" by (simp add: gv_unit_def)
  qed (simp add: gv_unit_def)
  with run show ?thesis by (intro exI [of _ ?iu']) (simp add: gv_unit_def)
qed

definition gv_unit2 :: ir_unit where
  "gv_unit2 = gv_unit\<lparr>iu_next_value := 2, iu_values := iu_values gv_unit @
     [Some (new_value\<lparr>iv_class := Vc_data [1, 2, 3, 4, 5, 6, 7, 8], iv_type := 1\<rparr>)]\<rparr>"

theorem initialize_globals_within_witness:
  "\<exists>m'. initialize_globals gv_unit2 (\<lambda>_. 9) (iu_initializers gv_unit2) = Inr m' \<and> m' 4097 = 2 \<and> m' 4104 = 9"
proof -
  let ?m' = "store_bytes (\<lambda>_. 9) 4096 [1, 2, 3, 4, 5, 6, 7, 8]"
  have ts: "type_get (iu_types (iu_ts gv_unit2)) 1 = Inr (It_array 2 0)"
    "type_sizeof (iu_types (iu_ts gv_unit2)) 1 = Inr 8" by code_simp+
  have run: "initialize_globals gv_unit2 (\<lambda>_. 9) (iu_initializers gv_unit2) = Inr ?m'"
    using ts by (simp add: gv_unit2_def gv_unit_def gv_global_def value_at_def value_get_def deref_def init_kind_def
        aggregate_values_def init_bulk_def c_memcpy_data_def)
  have at: "global_at gv_unit2 k ig \<longleftrightarrow> k = 0 \<and> ig = gv_global" for k ig
    by (auto simp: global_at_def gv_unit2_def gv_unit_def nth_Cons split: nat.splits)
  have "globals_ok gv_unit2"
    using gv_globals_ok by (auto simp: globals_ok_def at gv_global_at) (auto simp: gv_unit2_def)
  then have "?m' 4104 = 9"
    by (rule initialize_globals_within [OF run, of 4104])
      (code_simp, auto simp: at in_global_def gv_global_def)
  moreover have "?m' 4097 = 2" by (simp add: store_bytes_def)
  ultimately show ?thesis using run by blast
qed

end
