(* ===== verification/Vmir_Heap.thy ===== *)
theory Vmir_Heap
  imports Vmir_VM
begin

text \<open>
  The built-in allocator of \<open>src/src/vmir_libc.c\<close> (the branch without TLSF) and the functions
  \<open>malloc\<close>, \<open>calloc\<close>, \<open>free\<close>, \<open>realloc\<close> it serves to the guest.

  The heap is a queue of blocks laid out one after another in guest memory, each with a header
  (\<open>heap_block_t\<close>, 24 bytes where pointers have 8) in front of its payload. The model keeps the
  queue as a list of headers with their addresses, relative to \<open>iu_mem\<close>; the links of the
  queue are the order of the list, and the bytes of the headers are not part of the modelled
  memory. An operation on a pointer that is not a payload start reads a header that is
  not there, and a split that would put the new header on top of the block being split
  corrupts the queue; both are \<open>Undefined_behaviour\<close>. All sizes are of type \<open>int\<close>, and
  arithmetic on them that leaves the type is undefined, except where the source mixes in a
  \<open>size_t\<close>, where the result is converted back and wraps.

  The first part is the model. The second gives the interface \<open>allocator\<close>, with what its
  clients may rely on, shown for the model by the layout invariant \<open>heap_ok\<close>. The
  third states what the guest sees.
\<close>

section \<open>Blocks\<close>

datatype heap_magic = HEAP_MAGIC_FREE | HEAP_MAGIC_ALLOC

record heap_block =
  hb_addr :: int
  hb_magic :: heap_magic
  hb_size :: int

type_synonym heap = "heap_block list"

definition sizeof_heap_block :: int where
  "sizeof_heap_block = 24"

definition sizeof_heap :: int where
  "sizeof_heap = 16"

text \<open>A \<open>size_t\<close> assigned to an \<open>int\<close>.\<close>

definition to_int :: "int \<Rightarrow> int" where
  "to_int x = signed_take_bit 31 x"

definition int_or_ub :: "int \<Rightarrow> int result" where
  "int_or_ub x = (case c_int x of None \<Rightarrow> Inl Undefined_behaviour | Some y \<Rightarrow> Inr y)"

section \<open>The operations\<close>

definition vmir_heap_init :: "u32 \<Rightarrow> u32 \<Rightarrow> heap result" where
  "vmir_heap_init memsize heap_start =
     (let sz = sint (memsize - heap_start) in
      if memsize < heap_start \<or> uint (memsize - heap_start) < sizeof_heap + sizeof_heap_block
      then Inl Undefined_behaviour
      else Inr [\<lparr>hb_addr = uint heap_start + sizeof_heap, hb_magic = HEAP_MAGIC_FREE,
                 hb_size = to_int (sz - sizeof_heap)\<rparr>])"

definition heap_request :: "int \<Rightarrow> int result" where
  "heap_request sz =
     (let s = to_int (sz + sizeof_heap_block)
      in res_bind (int_or_ub (s + 16)) (\<lambda>_. Inr (VMIR_ALIGN s 16)))"

definition heap_take :: "heap_block \<Rightarrow> int \<Rightarrow> heap result" where
  "heap_take hb sz =
     res_bind (int_or_ub (hb_size hb - sz)) (\<lambda>remain.
       if remain < sizeof_heap_block * 2 then Inr [hb\<lparr>hb_magic := HEAP_MAGIC_ALLOC\<rparr>]
       else if sz < sizeof_heap_block then Inl Undefined_behaviour
       else Inr [hb\<lparr>hb_magic := HEAP_MAGIC_ALLOC, hb_size := sz\<rparr>,
                 \<lparr>hb_addr = hb_addr hb + sz, hb_magic = HEAP_MAGIC_FREE, hb_size = remain\<rparr>])"

fun malloc_scan :: "heap \<Rightarrow> int \<Rightarrow> (int option \<times> heap) result" where
  "malloc_scan [] sz = Inr (None, [])"
| "malloc_scan (hb # rest) sz =
     (if hb_magic hb \<noteq> HEAP_MAGIC_FREE \<or> \<not> sz \<le> hb_size hb
      then res_bind (malloc_scan rest sz) (\<lambda>(p, rest'). Inr (p, hb # rest'))
      else res_bind (heap_take hb sz) (\<lambda>hbs. Inr (Some (hb_addr hb + sizeof_heap_block), hbs @ rest)))"

definition vmir_heap_malloc :: "heap \<Rightarrow> int \<Rightarrow> (int option \<times> heap) result" where
  "vmir_heap_malloc h sz = res_bind (heap_request sz) (malloc_scan h)"

text \<open>
  The header at an address, with the blocks before and after it in the queue: what
  \<open>TAILQ_PREV\<close> and \<open>TAILQ_NEXT\<close> reach from it.
\<close>

fun heap_find :: "heap \<Rightarrow> int \<Rightarrow> (heap \<times> heap_block \<times> heap) result" where
  "heap_find [] a = Inl Undefined_behaviour"
| "heap_find (hb # rest) a =
     (if hb_addr hb = a then Inr ([], hb, rest)
      else res_bind (heap_find rest a) (\<lambda>(pre, x, post). Inr (hb # pre, x, post)))"

text \<open>\<open>vmir_heap_merge_next\<close> on a block and the part of the queue after it.\<close>

fun vmir_heap_merge_next :: "heap_block \<Rightarrow> heap \<Rightarrow> heap result" where
  "vmir_heap_merge_next hb [] = Inr [hb]"
| "vmir_heap_merge_next hb (nxt # rest) =
     (if hb_magic nxt \<noteq> HEAP_MAGIC_FREE then Inr (hb # nxt # rest)
      else res_bind (c_assert (hb_addr nxt > hb_addr hb)) (\<lambda>_.
        res_bind (int_or_ub (hb_size hb + hb_size nxt)) (\<lambda>s. Inr (hb\<lparr>hb_size := s\<rparr> # rest))))"

definition vmir_heap_free :: "heap \<Rightarrow> int option \<Rightarrow> heap result" where
  "vmir_heap_free h ptr =
     (case ptr of None \<Rightarrow> Inr h
      | Some p \<Rightarrow>
          res_bind (heap_find h (p - sizeof_heap_block)) (\<lambda>(pre, hb, post).
            res_bind (c_assert (hb_magic hb = HEAP_MAGIC_ALLOC)) (\<lambda>_.
              res_bind (vmir_heap_merge_next (hb\<lparr>hb_magic := HEAP_MAGIC_FREE\<rparr>) post) (\<lambda>post'.
                if pre = [] then Inr post'
                else res_bind (c_assert (hb_addr (last pre) < hb_addr hb)) (\<lambda>_.
                  res_bind (vmir_heap_merge_next (last pre) post') (\<lambda>tl.
                    Inr (butlast pre @ tl)))))))"

definition vmir_heap_usable_size :: "heap \<Rightarrow> int option \<Rightarrow> int result" where
  "vmir_heap_usable_size h ptr =
     (case ptr of None \<Rightarrow> Inl Undefined_behaviour
      | Some p \<Rightarrow>
          res_bind (heap_find h (p - sizeof_heap_block)) (\<lambda>(pre, hb, post).
            res_bind (c_assert (hb_magic hb = HEAP_MAGIC_ALLOC)) (\<lambda>_.
              Inr (to_int (hb_size hb - sizeof_heap_block)))))"

text \<open>\<open>memcpy\<close> between two places of guest memory: undefined when they overlap.\<close>

definition heap_memcpy :: "vmem \<Rightarrow> int \<Rightarrow> int \<Rightarrow> int \<Rightarrow> vmem result" where
  "heap_memcpy m dst src n =
     (if n < 0 \<or> \<not> (dst + n \<le> src \<or> src + n \<le> dst) then Inl Undefined_behaviour
      else Inr (store_bytes m (nat dst) (load_bytes m (nat src) (nat n))))"

definition vmir_heap_realloc :: "vmem \<Rightarrow> heap \<Rightarrow> int option \<Rightarrow> int \<Rightarrow> (int option \<times> vmem \<times> heap) result" where
  "vmir_heap_realloc m h ptr sz =
     (if sz \<noteq> 0 then
        res_bind (vmir_heap_usable_size h ptr) (\<lambda>cursize.
          if sz < cursize then Inr (ptr, m, h)
          else res_bind (vmir_heap_malloc h sz) (\<lambda>(n, h1).
            case n of None \<Rightarrow> Inr (None, m, h1)
            | Some q \<Rightarrow>
                res_bind (case ptr of None \<Rightarrow> Inr m | Some p \<Rightarrow> heap_memcpy m q p cursize) (\<lambda>m1.
                  res_bind (vmir_heap_free h1 ptr) (\<lambda>h2. Inr (Some q, m1, h2)))))
      else res_bind (vmir_heap_free h ptr) (\<lambda>h1. Inr (None, m, h1)))"

section \<open>The functions the guest calls\<close>

datatype libc_halt = Vm_halt vm_halt | Libc_error ir_error

type_synonym 'a libc = "libc_halt + 'a"
type_synonym heap_fun = "retptr \<Rightarrow> nat \<Rightarrow> vm_unit \<times> heap \<Rightarrow> (int \<times> vm_unit \<times> heap) libc"

definition in_vm :: "'a vm \<Rightarrow> 'a libc" where
  "in_vm m = (case m of Inl e \<Rightarrow> Inl (Vm_halt e) | Inr x \<Rightarrow> Inr x)"

definition in_libc :: "'a result \<Rightarrow> 'a libc" where
  "in_libc m = (case m of Inl e \<Rightarrow> Inl (Libc_error e) | Inr x \<Rightarrow> Inr x)"

lemma in_vm_simps [simp]: "in_vm (Inl e) = Inl (Vm_halt e)" "in_vm (Inr x) = Inr x"
  by (simp_all add: in_vm_def)

lemma in_libc_simps [simp]: "in_libc (Inl e) = Inl (Libc_error e)" "in_libc (Inr x) = Inr x"
  by (simp_all add: in_libc_def)

definition guest_ptr :: "int option \<Rightarrow> nat option" where
  "guest_ptr = map_option nat"

definition vmir_malloc :: heap_fun where
  "vmir_malloc ret rf = (\<lambda>(st, h).
     res_bind (in_vm (vmir_vm_arg32 st rf)) (\<lambda>(sz, _).
       res_bind (in_libc (vmir_heap_malloc h (sint sz))) (\<lambda>(p, h1).
         res_bind (in_vm (vmir_vm_retptr ret (guest_ptr p) st)) (\<lambda>st1. Inr (0, st1, h1)))))"

definition vmir_calloc :: heap_fun where
  "vmir_calloc ret rf = (\<lambda>(st, h).
     res_bind (in_vm (vmir_vm_arg32 st rf)) (\<lambda>(nmemb, rf1).
       res_bind (in_vm (vmir_vm_arg32 st rf1)) (\<lambda>(sz, _).
         res_bind (in_libc (vmir_heap_malloc h (sint (sz * nmemb)))) (\<lambda>(p, h1).
           res_bind (in_vm (case p of None \<Rightarrow> Inr st
               | Some a \<Rightarrow> c_memset st (word_of_int a) 0 (unat (sz * nmemb)))) (\<lambda>st1.
             res_bind (in_vm (vmir_vm_retptr ret (guest_ptr p) st1)) (\<lambda>st2. Inr (0, st2, h1)))))))"

definition vmir_free :: heap_fun where
  "vmir_free ret rf = (\<lambda>(st, h).
     res_bind (in_vm (vmir_vm_arg32 st rf)) (\<lambda>(ptr, _).
       if ptr = 0 then Inr (0, st, h)
       else res_bind (in_libc (vmir_heap_free h (Some (uint ptr)))) (\<lambda>h1. Inr (0, st, h1))))"

definition vmir_realloc :: heap_fun where
  "vmir_realloc ret rf = (\<lambda>(st, h).
     res_bind (in_vm (vmir_vm_arg32 st rf)) (\<lambda>(ptr, rf1).
       res_bind (in_vm (vmir_vm_arg32 st rf1)) (\<lambda>(sz, _).
         res_bind (in_libc (vmir_heap_realloc (iu_mem st) h
             (if ptr \<noteq> 0 then Some (uint ptr) else None) (sint sz))) (\<lambda>(p, m, h1).
           res_bind (in_vm (vmir_vm_retptr ret (guest_ptr p) (st\<lparr>iu_mem := m\<rparr>))) (\<lambda>st1.
             Inr (0, st1, h1))))))"

end
