(* ===== verification/Vmir_Heap_Props.thy ===== *)
theory Vmir_Heap_Props
  imports Vmir_Heap
begin

text \<open>
  The allocator of \<open>Vmir_Heap\<close> is safe: the contract of an allocator as a locale, the layout
  invariant \<open>heap_ok\<close> (the blocks tile the heap, no two free blocks are neighbours), its
  preservation by \<open>malloc\<close> and \<open>free\<close>, and what a guest program can rely on.
\<close>

section \<open>The interface\<close>

locale allocator =
  fixes inv :: "'h \<Rightarrow> bool"
    and live :: "'h \<Rightarrow> (int \<times> int) set"
    and req :: "int \<Rightarrow> bool"
    and alloc :: "'h \<Rightarrow> int \<Rightarrow> (int option \<times> 'h) result"
    and release :: "'h \<Rightarrow> int \<Rightarrow> 'h result"
  assumes alloc_total: "inv h \<Longrightarrow> req n \<Longrightarrow> \<exists>p h'. alloc h n = Inr (p, h') \<and> inv h'"
    and alloc_none: "inv h \<Longrightarrow> req n \<Longrightarrow> alloc h n = Inr (None, h') \<Longrightarrow> h' = h"
    and alloc_some: "inv h \<Longrightarrow> req n \<Longrightarrow> alloc h n = Inr (Some p, h') \<Longrightarrow>
      \<exists>l \<ge> n. live h' = insert (p, l) (live h) \<and> p \<notin> fst ` live h"
    and release_ok: "inv h \<Longrightarrow> (p, l) \<in> live h \<Longrightarrow>
      \<exists>h'. release h p = Inr h' \<and> inv h' \<and> fst ` live h' = fst ` live h - {p} \<and>
        (\<forall>q k. (q, k) \<in> live h \<and> q \<noteq> p \<longrightarrow> (\<exists>k' \<ge> k. (q, k') \<in> live h'))"
    and live_disjoint: "inv h \<Longrightarrow> (p, l) \<in> live h \<Longrightarrow> (q, k) \<in> live h \<Longrightarrow> p \<noteq> q \<Longrightarrow>
      p + l \<le> q \<or> q + k \<le> p"

text \<open>
  A client that owns the blocks it was given, with the sizes it asked for, and frees only
  those.
\<close>

datatype heap_op = Op_malloc int | Op_free int

type_synonym owned = "int \<Rightarrow> int option"

fun client_run :: "('h \<Rightarrow> int \<Rightarrow> (int option \<times> 'h) result) \<Rightarrow> ('h \<Rightarrow> int \<Rightarrow> 'h result) \<Rightarrow>
    heap_op list \<Rightarrow> 'h \<Rightarrow> owned \<Rightarrow> ('h \<times> owned) result" where
  "client_run al rl [] h own = Inr (h, own)"
| "client_run al rl (Op_malloc n # ops) h own =
     res_bind (al h n) (\<lambda>(p, h').
       client_run al rl ops h' (case p of None \<Rightarrow> own | Some q \<Rightarrow> own(q \<mapsto> n)))"
| "client_run al rl (Op_free p # ops) h own =
     (case own p of None \<Rightarrow> client_run al rl ops h own
      | Some _ \<Rightarrow> res_bind (rl h p) (\<lambda>h'. client_run al rl ops h' (own(p := None))))"

context allocator
begin

definition owns :: "'h \<Rightarrow> owned \<Rightarrow> bool" where
  "owns h own \<longleftrightarrow> fst ` live h = dom own \<and>
     (\<forall>p n. own p = Some n \<longrightarrow> (\<exists>l \<ge> n. (p, l) \<in> live h))"

lemma owns_malloc:
  assumes "inv h" and "req n" and "owns h own" and "alloc h n = Inr (p, h')"
  shows "owns h' (case p of None \<Rightarrow> own | Some q \<Rightarrow> own(q \<mapsto> n))"
proof (cases p)
  case None
  with assms alloc_none show ?thesis by auto
next
  case (Some q)
  with alloc_some assms obtain l where l: "n \<le> l" "live h' = insert (q, l) (live h)" by blast
  have "\<exists>l \<ge> k. (r, l) \<in> live h'" if "(own(q \<mapsto> n)) r = Some k" for r k
  proof (cases "r = q")
    case True
    with that l show ?thesis by (intro exI [of _ l]) simp
  next
    case False
    with that have "own r = Some k" by simp
    with assms(3) obtain l' where "k \<le> l'" "(r, l') \<in> live h" unfolding owns_def by blast
    with l(2) show ?thesis by blast
  qed
  moreover have "fst ` live h = dom own" using assms(3) unfolding owns_def by blast
  with l(2) have "fst ` live h' = dom (own(q \<mapsto> n))" by simp
  ultimately have "owns h' (own(q \<mapsto> n))" unfolding owns_def by (intro conjI allI impI)
  with Some show ?thesis by simp
qed

lemma owns_free:
  assumes "inv h" and "owns h own" and "own p = Some n"
  shows "\<exists>h'. release h p = Inr h' \<and> inv h' \<and> owns h' (own(p := None))"
proof -
  have own: "\<exists>l \<ge> m. (q, l) \<in> live h" if "own q = Some m" for q m
    using assms(2) that unfolding owns_def by blast
  from own [OF assms(3)] obtain l where "(p, l) \<in> live h" by (elim exE conjE)
  from release_ok [OF assms(1) this] obtain h' where h': "release h p = Inr h'" "inv h'"
      "fst ` live h' = fst ` live h - {p}"
    and keep: "\<forall>q k. (q, k) \<in> live h \<and> q \<noteq> p \<longrightarrow> (\<exists>k' \<ge> k. (q, k') \<in> live h')"
    by (elim exE conjE)
  have "\<exists>l \<ge> m. (q, l) \<in> live h'" if "(own(p := None)) q = Some m" for q m
  proof -
    from that have "own q = Some m" "q \<noteq> p" by (auto split: if_splits)
    with own obtain k where "m \<le> k" "(q, k) \<in> live h" by blast
    with keep \<open>q \<noteq> p\<close> obtain k' where "k \<le> k'" "(q, k') \<in> live h'" by blast
    with \<open>m \<le> k\<close> show ?thesis by (intro exI [of _ k']) simp
  qed
  moreover have "fst ` live h = dom own" using assms(2) unfolding owns_def by blast
  with h'(3) have "fst ` live h' = dom (own(p := None))" by simp
  ultimately have "owns h' (own(p := None))" unfolding owns_def by (intro conjI allI impI)
  with h'(1,2) show ?thesis by blast
qed

lemma client_run_ok:
  assumes "inv h" and "owns h own" and "\<And>n. Op_malloc n \<in> set ops \<Longrightarrow> req n"
  shows "\<exists>h' own'. client_run alloc release ops h own = Inr (h', own') \<and> inv h' \<and> owns h' own'"
  using assms
proof (induction ops arbitrary: h own)
  case Nil
  then show ?case by simp
next
  case (Cons oper ops)
  show ?case
  proof (cases oper)
    case (Op_malloc n)
    with Cons.prems have n: "req n" by simp
    then obtain p h' where h': "alloc h n = Inr (p, h')" "inv h'" using alloc_total Cons.prems by blast
    with owns_malloc n Cons.prems have "owns h' (case p of None \<Rightarrow> own | Some q \<Rightarrow> own(q \<mapsto> n))" by blast
    from Cons.IH [OF h'(2) this] Cons.prems(3) h' Op_malloc show ?thesis by simp
  next
    case (Op_free p)
    show ?thesis
    proof (cases "own p")
      case None
      with Cons Op_free show ?thesis by simp
    next
      case (Some n)
      with owns_free Cons.prems obtain h' where "release h p = Inr h'" "inv h'" "owns h' (own(p := None))"
        by blast
      with Cons.IH Cons.prems(3) Op_free Some show ?thesis by simp
    qed
  qed
qed

lemma owns_disjoint:
  assumes "inv h" and "owns h own" and "own p = Some n" and "own q = Some m" and "p \<noteq> q"
  shows "p + n \<le> q \<or> q + m \<le> p"
proof -
  from assms obtain l k where "n \<le> l" "(p, l) \<in> live h" "m \<le> k" "(q, k) \<in> live h"
    unfolding owns_def by blast
  with live_disjoint [OF assms(1) _ _ assms(5)] show ?thesis by fastforce
qed

end

section \<open>The layout of the heap\<close>

definition is_free :: "heap_block \<Rightarrow> bool" where
  "is_free x \<longleftrightarrow> hb_magic x = HEAP_MAGIC_FREE"

fun tiles :: "int \<Rightarrow> heap \<Rightarrow> int \<Rightarrow> bool" where
  "tiles a [] b \<longleftrightarrow> a = b"
| "tiles a (x # xs) b \<longleftrightarrow> hb_addr x = a \<and> sizeof_heap_block \<le> hb_size x \<and> tiles (a + hb_size x) xs b"

definition heap_ok :: "int \<Rightarrow> int \<Rightarrow> heap \<Rightarrow> bool" where
  "heap_ok lo hi h \<longleftrightarrow> h \<noteq> [] \<and> hi - lo < 2 ^ 31 \<and> tiles lo h hi \<and>
     successively (\<lambda>x y. \<not> (is_free x \<and> is_free y)) h"

definition payload :: "heap_block \<Rightarrow> int \<times> int" where
  "payload x = (hb_addr x + sizeof_heap_block, hb_size x - sizeof_heap_block)"

definition live_blocks :: "heap \<Rightarrow> (int \<times> int) set" where
  "live_blocks h = payload ` set (filter (\<lambda>x. \<not> is_free x) h)"

definition valid_request :: "int \<Rightarrow> bool" where
  "valid_request n \<longleftrightarrow> 0 \<le> n \<and> n < 2 ^ 31 - 64"

lemma not_free_alloc: "\<not> is_free x \<longleftrightarrow> hb_magic x = HEAP_MAGIC_ALLOC"
  by (cases "hb_magic x") (auto simp: is_free_def)

lemma live_blocks_simps [simp]:
  "live_blocks [] = {}"
  "live_blocks (x # xs) = (if is_free x then {} else {payload x}) \<union> live_blocks xs"
  "live_blocks (xs @ ys) = live_blocks xs \<union> live_blocks ys"
  by (auto simp: live_blocks_def)

lemma live_blocksE:
  assumes "(p, l) \<in> live_blocks h"
  obtains pre x post where "h = pre @ x # post" and "\<not> is_free x" and "payload x = (p, l)"
proof -
  from assms obtain x where "x \<in> set h" "\<not> is_free x" "payload x = (p, l)"
    by (auto simp: live_blocks_def)
  with that show ?thesis by (meson split_list)
qed

lemma tiles_append: "tiles a (xs @ ys) b \<longleftrightarrow> (\<exists>c. tiles a xs c \<and> tiles c ys b)"
  by (induction xs arbitrary: a) auto

lemma tiles_le: "tiles a xs b \<Longrightarrow> a \<le> b"
  by (induction xs arbitrary: a) (fastforce simp: sizeof_heap_block_def)+

lemma tiles_in:
  assumes "tiles a xs b" and "x \<in> set xs"
  shows "a \<le> hb_addr x \<and> hb_addr x + hb_size x \<le> b \<and> sizeof_heap_block \<le> hb_size x"
proof -
  obtain pre post where xs: "xs = pre @ x # post" using assms(2) by (meson split_list)
  with assms(1) obtain c where "tiles a pre c" "hb_addr x = c" "sizeof_heap_block \<le> hb_size x"
      "tiles (c + hb_size x) post b" by (auto simp: tiles_append)
  with tiles_le show ?thesis by fastforce
qed

lemma tiles_order:
  assumes "tiles a (pre @ x # post) b" and "y \<in> set pre"
  shows "hb_addr y + hb_size y \<le> hb_addr x"
  using assms tiles_in by (fastforce simp: tiles_append)

lemma tiles_apart:
  assumes "tiles a xs b" and "x \<in> set xs" and "y \<in> set xs" and "hb_addr x \<noteq> hb_addr y"
  shows "hb_addr x + hb_size x \<le> hb_addr y \<or> hb_addr y + hb_size y \<le> hb_addr x"
proof -
  obtain pre post where xs: "xs = pre @ x # post" using assms(2) by (meson split_list)
  with assms(3,4) consider "y \<in> set pre" | "y \<in> set post" by auto
  then show ?thesis
  proof cases
    case 1
    with tiles_order assms(1) xs show ?thesis by blast
  next
    case 2
    then obtain us vs where "post = us @ y # vs" by (meson split_list)
    with xs have "xs = (pre @ x # us) @ y # vs" by simp
    with tiles_order [of a "pre @ x # us" y vs b x] assms(1) show ?thesis by simp
  qed
qed

lemma payload_eq: "payload x = (p, l) \<longleftrightarrow> p = hb_addr x + sizeof_heap_block \<and> l = hb_size x - sizeof_heap_block"
  by (auto simp: payload_def)

lemma live_blocks_disjoint:
  assumes "heap_ok lo hi h" and "(p, l) \<in> live_blocks h" and "(q, k) \<in> live_blocks h" and "p \<noteq> q"
  shows "p + l \<le> q \<or> q + k \<le> p"
proof -
  from assms obtain x y where "x \<in> set h" "payload x = (p, l)" "y \<in> set h" "payload y = (q, k)"
    by (auto simp: live_blocks_def)
  with assms(1,4) tiles_apart [of lo h hi x y] show ?thesis
    by (auto simp: payload_eq heap_ok_def sizeof_heap_block_def)
qed

lemma live_blocks_within:
  assumes "heap_ok lo hi h" and "(p, l) \<in> live_blocks h"
  shows "lo + sizeof_heap_block \<le> p \<and> p + l \<le> hi \<and> 0 \<le> l"
proof -
  from assms obtain x where "x \<in> set h" "payload x = (p, l)" by (auto simp: live_blocks_def)
  with assms(1) tiles_in [of lo h hi x] show ?thesis by (auto simp: payload_eq heap_ok_def)
qed

section \<open>Allocation\<close>

lemma to_int_id: "- (2 ^ 31) \<le> x \<Longrightarrow> x < 2 ^ 31 \<Longrightarrow> to_int x = x"
  unfolding to_int_def by (simp add: signed_take_bit_int_eq_self)

lemma int_or_ub_id: "- (2 ^ 31) \<le> x \<Longrightarrow> x < 2 ^ 31 \<Longrightarrow> int_or_ub x = Inr x"
  by (simp add: int_or_ub_def c_int_def)

lemma heap_request_ok:
  assumes "valid_request n"
  shows "\<exists>s. heap_request n = Inr s \<and> n + sizeof_heap_block \<le> s \<and> sizeof_heap_block \<le> s"
proof -
  have "to_int (n + sizeof_heap_block) = n + sizeof_heap_block"
    using assms by (intro to_int_id) (auto simp: valid_request_def sizeof_heap_block_def)
  moreover have "int_or_ub (n + sizeof_heap_block + 16) = Inr (n + sizeof_heap_block + 16)"
    using assms by (intro int_or_ub_id) (auto simp: valid_request_def sizeof_heap_block_def)
  moreover have "n + sizeof_heap_block \<le> VMIR_ALIGN (n + sizeof_heap_block) 16"
    using VMIR_ALIGN_int_bounds(1) [of "n + sizeof_heap_block" 4] by simp
  ultimately show ?thesis
    using assms by (auto simp: heap_request_def valid_request_def Let_def)
qed

lemma malloc_scan_none:
  "(\<forall>x \<in> set h. is_free x \<longrightarrow> hb_size x < s) \<Longrightarrow> malloc_scan h s = Inr (None, h)"
  by (induction h) (auto simp: is_free_def)

lemma malloc_scan_fit:
  assumes "\<forall>x \<in> set pre. is_free x \<longrightarrow> hb_size x < s" and "is_free x" and "s \<le> hb_size x"
  shows "malloc_scan (pre @ x # post) s =
    res_bind (heap_take x s) (\<lambda>hbs. Inr (Some (hb_addr x + sizeof_heap_block), pre @ hbs @ post))"
  using assms by (induction pre) (auto simp: is_free_def res_bind_def split: sum.splits)

text \<open>The blocks a split leaves behind.\<close>

lemma heap_take_ok:
  assumes "sizeof_heap_block \<le> s" and "s \<le> hb_size x" and "hb_size x < 2 ^ 31"
  obtains y ys where "heap_take x s = Inr (y # ys)" and "hb_addr y = hb_addr x" and "\<not> is_free y"
    and "s \<le> hb_size y" and "tiles (hb_addr x) (y # ys) (hb_addr x + hb_size x)"
    and "ys = [] \<or> (\<exists>z. ys = [z] \<and> is_free z)"
proof -
  have i: "int_or_ub (hb_size x - s) = Inr (hb_size x - s)"
    using assms by (intro int_or_ub_id) (auto simp: sizeof_heap_block_def)
  show ?thesis
  proof (cases "hb_size x - s < sizeof_heap_block * 2")
    case True
    with assms i show ?thesis
      by (intro that [of "x\<lparr>hb_magic := HEAP_MAGIC_ALLOC\<rparr>" "[]"])
        (auto simp: heap_take_def not_free_alloc)
  next
    case False
    with assms i show ?thesis
      by (intro that [of "x\<lparr>hb_magic := HEAP_MAGIC_ALLOC, hb_size := s\<rparr>"
            "[\<lparr>hb_addr = hb_addr x + s, hb_magic = HEAP_MAGIC_FREE, hb_size = hb_size x - s\<rparr>]"])
        (auto simp: heap_take_def not_free_alloc is_free_def sizeof_heap_block_def)
  qed
qed

lemma heap_ok_size: "heap_ok lo hi h \<Longrightarrow> x \<in> set h \<Longrightarrow> hb_size x < 2 ^ 31"
  unfolding heap_ok_def using tiles_in by fastforce

lemma heap_fit_cases:
  obtains "\<forall>x \<in> set h. is_free x \<longrightarrow> hb_size x < s"
  | pre x post where "h = pre @ x # post" and "\<forall>x \<in> set pre. is_free x \<longrightarrow> hb_size x < s"
      and "is_free x" and "s \<le> hb_size x"
  using split_list_first_prop [of h "\<lambda>x. is_free x \<and> s \<le> hb_size x"]
  by (metis linorder_not_le)

text \<open>Replacing a block by blocks over the same range.\<close>

lemma heap_ok_replace:
  assumes "heap_ok lo hi (pre @ x # post)"
    and "tiles (hb_addr x) xs (hb_addr x + hb_size x)" and "xs \<noteq> []"
    and "successively (\<lambda>x y. \<not> (is_free x \<and> is_free y)) xs"
    and "pre = [] \<or> \<not> (is_free (last pre) \<and> is_free (hd xs))"
    and "post = [] \<or> \<not> (is_free (last xs) \<and> is_free (hd post))"
  shows "heap_ok lo hi (pre @ xs @ post)"
  using assms by (auto simp: heap_ok_def tiles_append successively_append_iff successively_Cons)

lemma heap_malloc_some:
  assumes "heap_ok lo hi h" and "h = pre @ x # post" and "is_free x"
    and "sizeof_heap_block \<le> s" and "s \<le> hb_size x"
    and "heap_take x s = Inr (y # ys)" and "hb_addr y = hb_addr x" and "\<not> is_free y"
    and "tiles (hb_addr x) (y # ys) (hb_addr x + hb_size x)"
    and "ys = [] \<or> (\<exists>z. ys = [z] \<and> is_free z)"
  shows "heap_ok lo hi (pre @ (y # ys) @ post)"
    and "live_blocks (pre @ (y # ys) @ post) = insert (payload y) (live_blocks h)"
    and "hb_addr x + sizeof_heap_block \<notin> fst ` live_blocks h"
proof -
  have succ: "successively (\<lambda>x y. \<not> (is_free x \<and> is_free y)) h" and t: "tiles lo h hi"
    using assms(1) by (auto simp: heap_ok_def)
  have "post = [] \<or> \<not> is_free (hd post)"
    using succ assms(2,3) by (cases post) (auto simp: successively_append_iff)
  with assms show "heap_ok lo hi (pre @ (y # ys) @ post)"
    by (intro heap_ok_replace [of lo hi pre x post "y # ys"]) auto
  show "live_blocks (pre @ (y # ys) @ post) = insert (payload y) (live_blocks h)"
    using assms by auto
  have "False" if "z \<in> set h" "\<not> is_free z" "hb_addr z = hb_addr x" for z
  proof -
    from that assms(2,3) have "z \<in> set pre \<union> set post" by auto
    moreover have "z \<notin> set pre"
      using tiles_order [of lo pre x post hi z] tiles_in [OF t that(1)] t assms(2) that(3)
      by (auto simp: sizeof_heap_block_def)
    moreover have "z \<notin> set post"
    proof
      assume "z \<in> set post"
      then obtain us vs where "post = us @ z # vs" by (meson split_list)
      with tiles_order [of lo "pre @ x # us" z vs hi x] t assms(2,3) that(3) tiles_in [of lo h hi x]
      show False by (auto simp: sizeof_heap_block_def)
    qed
    ultimately show False by blast
  qed
  then show "hb_addr x + sizeof_heap_block \<notin> fst ` live_blocks h"
    by (fastforce simp: live_blocks_def payload_def image_iff)
qed

lemma vmir_heap_malloc_cases:
  assumes "heap_ok lo hi h" and "valid_request n"
  obtains s where "vmir_heap_malloc h n = Inr (None, h)" and "heap_request n = Inr s"
      and "\<forall>x \<in> set h. is_free x \<longrightarrow> hb_size x < s"
  | p h' l where "vmir_heap_malloc h n = Inr (Some p, h')" and "heap_ok lo hi h'" and "n \<le> l"
      and "live_blocks h' = insert (p, l) (live_blocks h)" and "p \<notin> fst ` live_blocks h"
proof -
  obtain s where s: "heap_request n = Inr s" "n + sizeof_heap_block \<le> s" "sizeof_heap_block \<le> s"
    using heap_request_ok assms(2) by blast
  show ?thesis
  proof (rule heap_fit_cases [of h s])
    assume none: "\<forall>x \<in> set h. is_free x \<longrightarrow> hb_size x < s"
    with s(1) show ?thesis
      by (intro that(1)) (simp_all add: vmir_heap_malloc_def malloc_scan_none)
  next
    fix pre x post
    assume h: "h = pre @ x # post" and pre: "\<forall>x \<in> set pre. is_free x \<longrightarrow> hb_size x < s"
      and x: "is_free x" "s \<le> hb_size x"
    from h assms(1) have "hb_size x < 2 ^ 31" by (intro heap_ok_size [OF assms(1)]) simp
    from heap_take_ok [OF s(3) x(2) this] obtain y ys where y: "heap_take x s = Inr (y # ys)"
        "hb_addr y = hb_addr x" "\<not> is_free y" "s \<le> hb_size y"
        "tiles (hb_addr x) (y # ys) (hb_addr x + hb_size x)" "ys = [] \<or> (\<exists>z. ys = [z] \<and> is_free z)"
      by blast
    note r = heap_malloc_some [OF assms(1) h x(1) s(3) x(2) y(1,2,3,5,6)]
    have "vmir_heap_malloc h n = Inr (Some (hb_addr x + sizeof_heap_block), pre @ (y # ys) @ post)"
      using s(1) malloc_scan_fit [OF pre x] y(1) h by (simp add: vmir_heap_malloc_def)
    moreover have "payload y = (hb_addr x + sizeof_heap_block, hb_size y - sizeof_heap_block)"
      using y(2) by (simp add: payload_def)
    moreover have "n \<le> hb_size y - sizeof_heap_block" using s(2) y(4) by simp
    ultimately show ?thesis using that(2) r by metis
  qed
qed

section \<open>Release\<close>

lemma heap_find_ok:
  assumes "tiles a (pre @ x # post) b"
  shows "heap_find (pre @ x # post) (hb_addr x) = Inr (pre, x, post)"
proof -
  have "hb_addr y \<noteq> hb_addr x" if "y \<in> set pre" for y
    using tiles_order [OF assms that] tiles_in [OF assms, of y] that by (auto simp: sizeof_heap_block_def)
  then show ?thesis by (induction pre) auto
qed

lemma merge_next_free:
  assumes "tiles a (x # z # zs) b" and "b - a < 2 ^ 31" and "is_free z"
  shows "vmir_heap_merge_next x (z # zs) = Inr (x\<lparr>hb_size := hb_size x + hb_size z\<rparr> # zs)"
    and "tiles a (x\<lparr>hb_size := hb_size x + hb_size z\<rparr> # zs) b"
proof -
  have sz: "0 \<le> hb_size x" "0 \<le> hb_size z" "hb_addr x < hb_addr z"
    using assms(1) by (auto simp: sizeof_heap_block_def)
  have "int_or_ub (hb_size x + hb_size z) = Inr (hb_size x + hb_size z)"
    using assms(1,2) tiles_le [of "a + hb_size x + hb_size z" zs b] sz by (intro int_or_ub_id) auto
  with sz assms(3) show "vmir_heap_merge_next x (z # zs) = Inr (x\<lparr>hb_size := hb_size x + hb_size z\<rparr> # zs)"
    by (simp add: is_free_def)
  show "tiles a (x\<lparr>hb_size := hb_size x + hb_size z\<rparr> # zs) b"
    using assms(1) sz by (auto simp: add.assoc)
qed

lemma merge_next_ok:
  assumes t: "tiles a (x # post) b" and b: "b - a < 2 ^ 31"
    and s: "successively (\<lambda>x y. \<not> (is_free x \<and> is_free y)) post"
  obtains y rest where "vmir_heap_merge_next x post = Inr (y # rest)" and "tiles a (y # rest) b"
    and "hb_addr y = hb_addr x" and "hb_magic y = hb_magic x"
    and "live_blocks rest = live_blocks post"
    and "successively (\<lambda>x y. \<not> (is_free x \<and> is_free y)) rest" and "rest = [] \<or> \<not> is_free (hd rest)"
proof (cases post)
  case Nil
  with t show ?thesis by (intro that [of x "[]"]) auto
next
  case (Cons z zs)
  show ?thesis
  proof (cases "is_free z")
    case False
    with t s Cons show ?thesis by (intro that [of x post]) (auto simp: is_free_def)
  next
    case True
    have "zs = [] \<or> \<not> is_free (hd zs)" "successively (\<lambda>x y. \<not> (is_free x \<and> is_free y)) zs"
      using s Cons True by (cases zs; auto)+
    with merge_next_free [of a x z zs b] t b s Cons True show ?thesis
      by (intro that [of "x\<lparr>hb_size := hb_size x + hb_size z\<rparr>" zs]) (simp_all add: successively_Cons)
  qed
qed

lemma live_pointer_once:
  assumes "tiles a (pre @ x # post) b"
  shows "hb_addr x + sizeof_heap_block \<notin> fst ` live_blocks pre"
    and "hb_addr x + sizeof_heap_block \<notin> fst ` live_blocks post"
proof -
  have x: "0 < hb_size x" using tiles_in [OF assms, of x] by (auto simp: sizeof_heap_block_def)
  have "hb_addr y \<noteq> hb_addr x" if "y \<in> set pre" for y
    using tiles_order [OF assms that] tiles_in [OF assms, of y] that by (auto simp: sizeof_heap_block_def)
  then show "hb_addr x + sizeof_heap_block \<notin> fst ` live_blocks pre"
    by (fastforce simp: live_blocks_def payload_def image_iff)
  have "hb_addr x < hb_addr y" if "y \<in> set post" for y
  proof -
    from that obtain us vs where "post = us @ y # vs" by (meson split_list)
    with tiles_order [of a "pre @ x # us" y vs b x] assms x show ?thesis by simp
  qed
  then show "hb_addr x + sizeof_heap_block \<notin> fst ` live_blocks post"
    by (fastforce simp: live_blocks_def payload_def image_iff)
qed

text \<open>What a release leaves: the freed pointer is gone, every other block kept or grown.\<close>

definition released :: "int \<Rightarrow> heap \<Rightarrow> heap \<Rightarrow> bool" where
  "released p h h' \<longleftrightarrow> fst ` live_blocks h' = fst ` live_blocks h - {p} \<and>
     (\<forall>q k. (q, k) \<in> live_blocks h \<and> q \<noteq> p \<longrightarrow> (\<exists>k' \<ge> k. (q, k') \<in> live_blocks h'))"

lemma released_merge:
  assumes "p \<notin> fst ` live_blocks us" "p \<notin> fst ` live_blocks zs" "hb_addr w + sizeof_heap_block \<noteq> p"
    and "hb_addr w' = hb_addr w" and "hb_magic w' = hb_magic w" and "hb_size w \<le> hb_size w'"
    and "payload x = (p, l)" and "\<not> is_free x"
  shows "released p (us @ w # x # zs) (us @ w' # zs)"
proof -
  have f: "is_free w' = is_free w" using assms(5) by (simp add: is_free_def)
  have pw: "payload w' = (fst (payload w), snd (payload w) + (hb_size w' - hb_size w))"
    using assms(4) by (simp add: payload_def)
  have ne: "fst (payload w) \<noteq> p" using assms(3) by (simp add: payload_def)
  let ?W = "\<lambda>x. if is_free w then {} else {payload x}"
  have new: "live_blocks (us @ w' # zs) = live_blocks us \<union> ?W w' \<union> live_blocks zs" using f by auto
  have old: "live_blocks (us @ w # x # zs) = live_blocks us \<union> ?W w \<union> {(p, l)} \<union> live_blocks zs"
    using assms(7,8) by auto
  have "fst ` ?W w' = fst ` ?W w" and "p \<notin> fst ` ?W w" using pw ne by simp_all
  then have dom: "fst ` live_blocks (us @ w' # zs) = fst ` live_blocks (us @ w # x # zs) - {p}"
    using assms(1,2) unfolding new old image_Un by simp
  have keep: "\<exists>k' \<ge> k. (q, k') \<in> live_blocks (us @ w' # zs)"
    if "(q, k) \<in> live_blocks (us @ w # x # zs)" "q \<noteq> p" for q k
  proof -
    from that consider "(q, k) \<in> live_blocks us \<union> live_blocks zs" | "\<not> is_free w" "payload w = (q, k)"
      unfolding old by (auto split: if_splits)
    then show ?thesis
    proof cases
      case 1
      with new show ?thesis by auto
    next
      case 2
      with pw new assms(6) show ?thesis by (intro exI [of _ "snd (payload w')"]) auto
    qed
  qed
  show ?thesis
    unfolding released_def by (intro conjI allI impI, fact dom, elim conjE, rule keep)
qed

lemma heap_free_first:
  assumes "heap_ok lo hi (x # post)" and "\<not> is_free x" and "payload x = (p, l)"
  shows "\<exists>h'. vmir_heap_free (x # post) (Some p) = Inr h' \<and> heap_ok lo hi h' \<and> released p (x # post) h'"
proof -
  let ?x = "x\<lparr>hb_magic := HEAP_MAGIC_FREE\<rparr>"
  have t: "tiles lo (x # post) hi" and b: "hi - lo < 2 ^ 31"
    and s: "successively (\<lambda>x y. \<not> (is_free x \<and> is_free y)) post"
    using assms(1) by (cases post, auto simp: heap_ok_def)+
  have "tiles lo (?x # post) hi" using t by simp
  then obtain y rest where m: "vmir_heap_merge_next ?x post = Inr (y # rest)"
      "tiles lo (y # rest) hi" "hb_magic y = hb_magic ?x" "live_blocks rest = live_blocks post"
      "successively (\<lambda>x y. \<not> (is_free x \<and> is_free y)) rest" "rest = [] \<or> \<not> is_free (hd rest)"
    by (rule merge_next_ok [OF _ b s])
  have "heap_find (x # post) (p - sizeof_heap_block) = Inr ([], x, post)"
    using assms(3) by (auto simp: payload_eq)
  then have "vmir_heap_free (x # post) (Some p) = Inr (y # rest)"
    using m(1) assms(2) by (simp add: vmir_heap_free_def not_free_alloc)
  moreover have "heap_ok lo hi (y # rest)"
    using m b by (cases rest) (auto simp: heap_ok_def)
  moreover have "p \<notin> fst ` live_blocks post"
    using live_pointer_once(2) [of lo "[]" x post hi] t assms(3) by (auto simp: payload_eq)
  then have "released p (x # post) (y # rest)"
    using m(3,4) assms(2,3) by (auto simp: released_def is_free_def)
  ultimately show ?thesis by blast
qed

lemma heap_free_later:
  assumes "heap_ok lo hi (us @ w # x # post)" and "\<not> is_free x" and "payload x = (p, l)"
  shows "\<exists>h'. vmir_heap_free (us @ w # x # post) (Some p) = Inr h' \<and> heap_ok lo hi h' \<and>
    released p (us @ w # x # post) h'"
proof -
  let ?x = "x\<lparr>hb_magic := HEAP_MAGIC_FREE\<rparr>" and ?h = "us @ w # x # post"
  obtain c where us: "tiles lo us c" and t: "tiles c (w # x # post) hi"
    using assms(1) by (auto simp: heap_ok_def tiles_append)
  have b: "hi - c < 2 ^ 31" using assms(1) tiles_le [OF us] by (simp add: heap_ok_def)
  have sw: "0 \<le> hb_size w" "0 \<le> hb_size x" using t by (auto simp: sizeof_heap_block_def)
  have s: "successively (\<lambda>x y. \<not> (is_free x \<and> is_free y)) post"
      "successively (\<lambda>x y. \<not> (is_free x \<and> is_free y)) (us @ [w])"
    using assms(1) by (auto simp: heap_ok_def successively_append_iff successively_Cons)
  have tx: "tiles (c + hb_size w) (?x # post) hi" and bx: "hi - (c + hb_size w) < 2 ^ 31"
    using t b sw by auto
  obtain y rest where
      m: "vmir_heap_merge_next ?x post = Inr (y # rest)" "tiles (c + hb_size w) (y # rest) hi"
      "hb_addr y = hb_addr ?x" "hb_magic y = hb_magic ?x" "live_blocks rest = live_blocks post"
      "successively (\<lambda>x y. \<not> (is_free x \<and> is_free y)) rest" "rest = [] \<or> \<not> is_free (hd rest)"
    by (rule merge_next_ok [OF tx bx s(1)])
  have fy: "is_free y" using m(4) by (simp add: is_free_def)
  have ty: "tiles c (w # y # rest) hi" using t m(2) by simp
  let ?w = "w\<lparr>hb_size := hb_size w + hb_size y\<rparr>"
  have w: "vmir_heap_merge_next w (y # rest) = Inr (?w # rest)" "tiles c (?w # rest) hi"
    using merge_next_free [OF ty b fy] by simp_all
  have yx: "hb_size w \<le> hb_size ?w" using m(2) by (simp add: sizeof_heap_block_def)
  have "heap_find ?h (p - sizeof_heap_block) = Inr (us @ [w], x, post)"
    using heap_find_ok [of lo "us @ [w]" x post hi] assms(1,3) by (auto simp: heap_ok_def payload_eq)
  moreover have "hb_addr w < hb_addr x" using t by (auto simp: sizeof_heap_block_def)
  ultimately have "vmir_heap_free ?h (Some p) = Inr (us @ ?w # rest)"
    using m(1) w(1) assms(2) by (simp add: vmir_heap_free_def not_free_alloc)
  moreover have "heap_ok lo hi (us @ ?w # rest)"
  proof -
    have "is_free ?w = is_free w" by (simp add: is_free_def)
    with s(2) m(6,7) have "successively (\<lambda>x y. \<not> (is_free x \<and> is_free y)) (us @ ?w # rest)"
      by (auto simp: successively_append_iff successively_Cons)
    moreover have "tiles lo (us @ ?w # rest) hi" using us w(2) by (auto simp: tiles_append)
    ultimately show ?thesis using assms(1) by (simp add: heap_ok_def)
  qed
  moreover have "released p ?h (us @ ?w # post)"
  proof (rule released_merge [OF _ _ _ _ _ yx assms(3,2)])
    have tt: "tiles lo ((us @ [w]) @ x # post) hi" using assms(1) by (simp add: heap_ok_def)
    show "p \<notin> fst ` live_blocks us" "p \<notin> fst ` live_blocks post"
      using live_pointer_once [OF tt] assms(3) by (auto simp: payload_eq)
    show "hb_addr w + sizeof_heap_block \<noteq> p"
      using \<open>hb_addr w < hb_addr x\<close> assms(3) by (auto simp: payload_eq)
  qed simp_all
  then have "released p ?h (us @ ?w # rest)" using m(5) by (simp add: released_def)
  ultimately show ?thesis by blast
qed

lemma heap_free_ok:
  assumes "heap_ok lo hi h" and "(p, l) \<in> live_blocks h"
  shows "\<exists>h'. vmir_heap_free h (Some p) = Inr h' \<and> heap_ok lo hi h' \<and> released p h h'"
proof -
  from assms(2) obtain pre x post where h: "h = pre @ x # post" and x: "\<not> is_free x" "payload x = (p, l)"
    by (rule live_blocksE)
  show ?thesis
  proof (cases pre rule: rev_cases)
    case Nil
    with heap_free_first assms(1) h x show ?thesis by simp
  next
    case (snoc us w)
    with heap_free_later [of lo hi us w x post] assms(1) h x show ?thesis by simp
  qed
qed

interpretation libc_heap: allocator "heap_ok lo hi" live_blocks valid_request vmir_heap_malloc
  "\<lambda>h p. vmir_heap_free h (Some p)" for lo hi
proof unfold_locales
  fix h n
  assume *: "heap_ok lo hi h" "valid_request n"
  show "\<exists>p h'. vmir_heap_malloc h n = Inr (p, h') \<and> heap_ok lo hi h'"
    using * by (rule vmir_heap_malloc_cases) (use * in blast)+
  show "h' = h" if "vmir_heap_malloc h n = Inr (None, h')" for h'
    using * by (rule vmir_heap_malloc_cases) (use that in auto)
  show "\<exists>l \<ge> n. live_blocks h' = insert (p, l) (live_blocks h) \<and> p \<notin> fst ` live_blocks h"
    if "vmir_heap_malloc h n = Inr (Some p, h')" for p h'
    using * by (rule vmir_heap_malloc_cases) (use that in auto)
next
  fix h p l
  assume "heap_ok lo hi h" "(p, l) \<in> live_blocks h"
  from heap_free_ok [OF this] show "\<exists>h'. vmir_heap_free h (Some p) = Inr h' \<and> heap_ok lo hi h' \<and>
      fst ` live_blocks h' = fst ` live_blocks h - {p} \<and>
      (\<forall>q k. (q, k) \<in> live_blocks h \<and> q \<noteq> p \<longrightarrow> (\<exists>k' \<ge> k. (q, k') \<in> live_blocks h'))"
    unfolding released_def .
next
  fix h p l q k
  assume "heap_ok lo hi h" "(p, l) \<in> live_blocks h" "(q, k) \<in> live_blocks h" "p \<noteq> q"
  then show "p + l \<le> q \<or> q + k \<le> p" by (rule live_blocks_disjoint)
qed

section \<open>What the guest sees\<close>

lemma vmir_heap_init_ok:
  assumes "vmir_heap_init ms hs = Inr h" and "uint ms - uint hs < 2 ^ 31"
  shows "heap_ok (uint hs + sizeof_heap) (uint ms) h" and "live_blocks h = {}"
    and "h = [\<lparr>hb_addr = uint hs + sizeof_heap, hb_magic = HEAP_MAGIC_FREE,
               hb_size = uint ms - uint hs - sizeof_heap\<rparr>]"
proof -
  have le: "hs \<le> ms" and big: "40 \<le> uint (ms - hs)" and h: "h = [\<lparr>hb_addr = uint hs + sizeof_heap,
      hb_magic = HEAP_MAGIC_FREE, hb_size = to_int (sint (ms - hs) - sizeof_heap)\<rparr>]"
    using assms(1) by (auto simp: vmir_heap_init_def Let_def sizeof_heap_def sizeof_heap_block_def
        not_less split: if_splits)
  have d: "uint (ms - hs) = uint ms - uint hs" using le by (simp add: uint_minus_simple_alt)
  then have "sint (ms - hs) = uint ms - uint hs"
    using assms(2) big by (simp add: sint_uint signed_take_bit_int_eq_self)
  moreover have "to_int (uint ms - uint hs - sizeof_heap) = uint ms - uint hs - sizeof_heap"
    using assms(2) big d by (intro to_int_id) (auto simp: sizeof_heap_def)
  ultimately show e: "h = [\<lparr>hb_addr = uint hs + sizeof_heap, hb_magic = HEAP_MAGIC_FREE,
      hb_size = uint ms - uint hs - sizeof_heap\<rparr>]" using h by simp
  show "heap_ok (uint hs + sizeof_heap) (uint ms) h" "live_blocks h = {}"
    using assms(2) big d e
    by (auto simp: heap_ok_def sizeof_heap_def sizeof_heap_block_def is_free_def)
qed

lemma heap_drained:
  assumes "heap_ok lo hi h" and "live_blocks h = {}"
  shows "h = [\<lparr>hb_addr = lo, hb_magic = HEAP_MAGIC_FREE, hb_size = hi - lo\<rparr>]"
proof -
  have free: "\<forall>x \<in> set h. is_free x" using assms(2) by (auto simp: live_blocks_def)
  obtain x xs where h: "h = x # xs" using assms(1) by (cases h) (auto simp: heap_ok_def)
  with free assms(1) have "xs = []" by (cases xs) (auto simp: heap_ok_def)
  with h free assms(1) show ?thesis by (cases x) (auto simp: heap_ok_def is_free_def)
qed

lemma owns_init:
  assumes "live_blocks h = {}"
  shows "libc_heap.owns h (\<lambda>_. None)"
  using assms by (auto simp: libc_heap.owns_def)

abbreviation heap_client :: "heap_op list \<Rightarrow> heap \<Rightarrow> owned \<Rightarrow> (heap \<times> owned) result" where
  "heap_client \<equiv> client_run vmir_heap_malloc (\<lambda>h p. vmir_heap_free h (Some p))"


text \<open>
  C20. Once the program has freed everything, the heap is back in its initial state: one free
  block of the whole memory, whatever the order of the calls was.
\<close>

theorem heap_drained_whole:
  assumes "vmir_heap_init ms hs = Inr h0" and "uint ms - uint hs < 2 ^ 31"
    and "\<And>n. Op_malloc n \<in> set ops \<Longrightarrow> 0 \<le> n \<and> n < 2 ^ 31 - 64"
    and "heap_client ops h0 (\<lambda>_. None) = Inr (h, \<lambda>_. None)"
  shows "h = h0"
proof -
  note init = vmir_heap_init_ok [OF assms(1,2)]
  have req: "valid_request n" if "Op_malloc n \<in> set ops" for n
    using assms(3) [OF that] by (simp add: valid_request_def)
  have ok: "heap_ok (uint hs + sizeof_heap) (uint ms) h" and "libc_heap.owns h (\<lambda>_. None)"
    using libc_heap.client_run_ok [of _ _ _ _ ops, OF init(1) owns_init [OF init(2)] req] assms(4)
    by auto
  then have "live_blocks h = {}" by (simp add: libc_heap.owns_def)
  from heap_drained [OF ok this] init(3) show ?thesis by simp
qed

lemma store_bytes_at:
  "store_bytes m d bs a = (if d \<le> a \<and> a < d + length bs then bs ! (a - d) else m a)"
  by (simp add: store_bytes_def)

text \<open>
  C21. \<open>realloc\<close> of a block to a size from 1 to \<open>2 ^ 31 - 65\<close> returns: either NULL, with the
  block and the heap as they were, or a block of at least the size asked for that starts with
  the bytes of the old one, every other block keeping its place and its bytes.
\<close>

theorem heap_realloc_preserves:
  assumes "heap_ok lo hi h" and "0 \<le> lo" and "(p, l) \<in> live_blocks h" and "0 < n" and "n < 2 ^ 31 - 64"
  shows "\<exists>q m' h'. vmir_heap_realloc m h (Some p) n = Inr (q, m', h') \<and> heap_ok lo hi h' \<and>
    (case q of None \<Rightarrow> m' = m \<and> h' = h
     | Some q \<Rightarrow> (\<exists>l' \<ge> n. (q, l') \<in> live_blocks h') \<and>
         (\<forall>i. 0 \<le> i \<and> i < min l n \<longrightarrow> m' (nat (q + i)) = m (nat (p + i))) \<and>
         (\<forall>r k. (r, k) \<in> live_blocks h \<and> r \<noteq> p \<longrightarrow> (\<exists>k' \<ge> k. (r, k') \<in> live_blocks h') \<and>
            (\<forall>i. 0 \<le> i \<and> i < k \<longrightarrow> m' (nat (r + i)) = m (nat (r + i)))))"
proof -
  have n: "valid_request n" using assms(4,5) by (simp add: valid_request_def)
  obtain pre x post where h: "h = pre @ x # post" and x: "\<not> is_free x" "payload x = (p, l)"
    using assms(3) by (rule live_blocksE)
  have t: "tiles lo h hi" and hx: "hb_size x < 2 ^ 31" "sizeof_heap_block \<le> hb_size x"
    using assms(1) h heap_ok_size [OF assms(1), of x] tiles_in [of lo h hi x] by (auto simp: heap_ok_def)
  have "heap_find h (p - sizeof_heap_block) = Inr (pre, x, post)"
    using heap_find_ok [of lo pre x post hi] t h x(2) by (auto simp: payload_eq)
  moreover have "to_int (hb_size x - sizeof_heap_block) = hb_size x - sizeof_heap_block"
    using hx by (intro to_int_id) (auto simp: sizeof_heap_block_def)
  ultimately have us: "vmir_heap_usable_size h (Some p) = Inr l"
    using x by (auto simp: vmir_heap_usable_size_def not_free_alloc payload_eq)
  show ?thesis
  proof (cases "n < l")
    case True
    with us assms(1,3,4) show ?thesis by (simp add: vmir_heap_realloc_def) (meson less_imp_le order_refl)
  next
    case False
    show ?thesis
    proof (rule vmir_heap_malloc_cases [OF assms(1) n])
      assume "vmir_heap_malloc h n = Inr (None, h)"
      with us False assms(1,4) show ?thesis by (simp add: vmir_heap_realloc_def)
    next
      fix q h1 l'
      assume ma: "vmir_heap_malloc h n = Inr (Some q, h1)" and h1: "heap_ok lo hi h1" and l': "n \<le> l'"
        and live: "live_blocks h1 = insert (q, l') (live_blocks h)" and q: "q \<notin> fst ` live_blocks h"
      have p1: "(p, l) \<in> live_blocks h1" and q1: "(q, l') \<in> live_blocks h1" and pq: "p \<noteq> q"
        using assms(3) live q by force+
      obtain h2 where fr: "vmir_heap_free h1 (Some p) = Inr h2" and h2: "heap_ok lo hi h2" "released p h1 h2"
        using heap_free_ok [OF h1 p1] by blast
      have keep: "\<exists>k' \<ge> k. (r, k') \<in> live_blocks h2" if "(r, k) \<in> live_blocks h1" "r \<noteq> p" for r k
        using h2(2) that unfolding released_def by blast
      let ?m = "store_bytes m (nat q) (load_bytes m (nat p) (nat l))"
      have wp: "0 \<le> p" "0 \<le> l" "0 \<le> q"
        using live_blocks_within [OF h1 p1] live_blocks_within [OF h1 q1] assms(2)
        by (auto simp: sizeof_heap_block_def)
      have "heap_memcpy m q p l = Inr ?m"
        using live_blocks_disjoint [OF h1 p1 q1 pq] wp False l' by (auto simp: heap_memcpy_def)
      then have "vmir_heap_realloc m h (Some p) n = Inr (Some q, ?m, h2)"
        using us ma fr False assms(4) by (simp add: vmir_heap_realloc_def)
      moreover have "\<exists>l' \<ge> n. (q, l') \<in> live_blocks h2"
        using keep [OF q1 pq [symmetric]] l' by (meson order_trans)
      moreover have "?m (nat (q + i)) = m (nat (p + i))" if "0 \<le> i" "i < min l n" for i
      proof -
        have "nat (q + i) = nat q + nat i" "nat (p + i) = nat p + nat i" "nat i < nat l"
          using that wp by (simp_all add: nat_add_distrib)
        then show ?thesis by (simp add: store_bytes_at load_bytes_def)
      qed
      moreover have "\<exists>k' \<ge> k. (r, k') \<in> live_blocks h2" if "(r, k) \<in> live_blocks h" "r \<noteq> p" for r k
        using keep that live by blast
      moreover have "?m (nat (r + i)) = m (nat (r + i))"
        if "(r, k) \<in> live_blocks h" "0 \<le> i" "i < k" for r k i
      proof -
        have r1: "(r, k) \<in> live_blocks h1" "r \<noteq> q" using that(1) live q by force+
        have "0 \<le> r" using live_blocks_within [OF h1 r1(1)] assms(2) by (auto simp: sizeof_heap_block_def)
        with live_blocks_disjoint [OF h1 r1(1) q1 r1(2)] that(2,3) wp False l'
        show ?thesis by (auto simp: store_bytes_at load_bytes_def)
      qed
      ultimately show ?thesis using h2(1) by (intro exI [of _ "Some q"] exI [of _ ?m] exI [of _ h2]) (simp, blast)
    qed
  qed
qed


text \<open>The theorems on a heap of 60 KiB.\<close>

definition sample_heap :: heap where
  "sample_heap = [\<lparr>hb_addr = 4112, hb_magic = HEAP_MAGIC_FREE, hb_size = 61424\<rparr>]"

lemma sample_init: "vmir_heap_init 0x10000 0x1000 = Inr sample_heap"
  by code_simp


definition sample_blocks :: "(int \<times> bool \<times> int) list \<Rightarrow> heap" where
  "sample_blocks = map (\<lambda>(a, f, s). \<lparr>hb_addr = a, hb_magic = if f then HEAP_MAGIC_FREE else HEAP_MAGIC_ALLOC, hb_size = s\<rparr>)"

lemma sample_steps:
  "vmir_heap_malloc sample_heap 100 = Inr (Some 4136, sample_blocks [(4112, False, 128), (4240, True, 61296)])"
  "vmir_heap_malloc (sample_blocks [(4112, False, 128), (4240, True, 61296)]) 8 =
    Inr (Some 4264, sample_blocks [(4112, False, 128), (4240, False, 32), (4272, True, 61264)])"
  "vmir_heap_free (sample_blocks [(4112, False, 128), (4240, False, 32), (4272, True, 61264)]) (Some 4136) =
    Inr (sample_blocks [(4112, True, 128), (4240, False, 32), (4272, True, 61264)])"
  "vmir_heap_free (sample_blocks [(4112, True, 128), (4240, False, 32), (4272, True, 61264)]) (Some 4264) =
    Inr sample_heap"
  by code_simp+

lemma heap_drained_whole_witness:
  "heap_client [Op_malloc 100, Op_malloc 8, Op_free 4136, Op_free 4264] sample_heap (\<lambda>_. None)
    = Inr (sample_heap, \<lambda>_. None)"
proof -
  have *: "heap_client [Op_malloc 100, Op_malloc 8, Op_free 4136, Op_free 4264] sample_heap (\<lambda>_. None)
    = Inr (sample_heap, \<lambda>_. None)" (is "?run = Inr (?h, _)")
    by (simp add: sample_steps)
  from heap_drained_whole [OF sample_init _ _ this] have "?h = sample_heap" by auto
  with * show ?thesis by (simp only:)
qed

lemma heap_realloc_preserves_witness:
  "\<exists>q m' h'. vmir_heap_realloc (\<lambda>a. of_nat a) (sample_blocks [(4112, False, 128), (4240, True, 61296)]) (Some 4136) 200
      = Inr (q, m', h') \<and> heap_ok 4112 65536 h' \<and>
    (case q of None \<Rightarrow> m' = (\<lambda>a. of_nat a) \<and> h' = sample_blocks [(4112, False, 128), (4240, True, 61296)]
     | Some q \<Rightarrow> (\<exists>l' \<ge> 200. (q, l') \<in> live_blocks h') \<and>
         (\<forall>i. 0 \<le> i \<and> i < min 104 200 \<longrightarrow> m' (nat (q + i)) = of_nat (nat (4136 + i))) \<and>
         (\<forall>r k. (r, k) \<in> live_blocks (sample_blocks [(4112, False, 128), (4240, True, 61296)]) \<and> r \<noteq> 4136 \<longrightarrow>
            (\<exists>k' \<ge> k. (r, k') \<in> live_blocks h') \<and>
            (\<forall>i. 0 \<le> i \<and> i < k \<longrightarrow> m' (nat (r + i)) = of_nat (nat (r + i)))))"
proof -
  have "heap_ok 4112 65536 (sample_blocks [(4112, False, 128), (4240, True, 61296)])"
    and "(4136, 104) \<in> live_blocks (sample_blocks [(4112, False, 128), (4240, True, 61296)])"
    by (simp_all add: sample_blocks_def heap_ok_def is_free_def payload_def sizeof_heap_block_def)
  from heap_realloc_preserves [OF this(1) _ this(2), of 200 "\<lambda>a. of_nat a"] show ?thesis by simp
qed


lemma malloc_of_negative: "vmir_heap_malloc sample_heap (- 100) = Inl Undefined_behaviour"
  by code_simp

end
