(* ===== verification/Vmir_Fd.thy ===== *)
theory Vmir_Fd
  imports Vmir_Heap
begin

text \<open>
  File descriptors, \<open>src/src/vmir_libc.c\<close>: the table \<open>iu_vfds\<close> with its list of free entries,
  and the POSIX calls over it.

  An entry of the table is a union of a handle and the link of the free list, a release function
  and a type, 0 for an entry that is free. The union is a 64-bit word of which the link is
  the low half, as on a little endian host. The file system operations of the embedder
  (\<open>vmir_fsops_t\<close>) and the release functions it passes are parameters over the state of
  the host; they do not call back into the table.
\<close>

section \<open>The table\<close>

datatype fd_release = Release_fh | Release_user nat

record vmir_fd =
  vfd_word :: u64
  vfd_release :: "fd_release option"
  vfd_type :: u8

record fd_table =
  iu_vfds :: "vmir_fd list"
  iu_vfd_free :: int

definition VMIR_FD_TYPE_FILEHANDLE :: int where
  "VMIR_FD_TYPE_FILEHANDLE = 1"

text \<open>\<open>libc_initialize\<close> on the table.\<close>

definition fd_init :: fd_table where
  "fd_init = \<lparr>iu_vfds = [], iu_vfd_free = -1\<rparr>"

definition fd_freelist :: "vmir_fd \<Rightarrow> int" where
  "fd_freelist v = sint (ucast (vfd_word v) :: u32)"

definition fd_set_freelist :: "vmir_fd \<Rightarrow> int \<Rightarrow> vmir_fd" where
  "fd_set_freelist v n =
     v\<lparr>vfd_word := (vfd_word v AND 0xFFFFFFFF00000000) OR ucast (word_of_int n :: u32)\<rparr>"

text \<open>\<open>VECTOR_ITEM\<close> of a signed index.\<close>

definition fd_item :: "fd_table \<Rightarrow> int \<Rightarrow> vmir_fd result" where
  "fd_item t fd =
     (if 0 \<le> fd \<and> fd < int (length (iu_vfds t)) then Inr (iu_vfds t ! nat fd) else Inl Undefined_behaviour)"

definition fd_put :: "fd_table \<Rightarrow> int \<Rightarrow> vmir_fd \<Rightarrow> fd_table" where
  "fd_put t fd v = t\<lparr>iu_vfds := (iu_vfds t)[nat fd := v]\<rparr>"

definition vfd_create :: "fd_table \<Rightarrow> int \<Rightarrow> (int \<times> fd_table) result" where
  "vfd_create t ty =
     (let fd = iu_vfd_free t in
      res_bind
        (if fd \<noteq> -1 then res_bind (fd_item t fd) (\<lambda>v. Inr (fd, t\<lparr>iu_vfd_free := fd_freelist v\<rparr>))
         else Inr (to_int (int (length (iu_vfds t))),
                   t\<lparr>iu_vfds := iu_vfds t @ [\<lparr>vfd_word = 0, vfd_release = None, vfd_type = 0\<rparr>]\<rparr>))
        (\<lambda>(fd, t1). res_bind (fd_item t1 fd) (\<lambda>v.
           Inr (fd, fd_put t1 fd (v\<lparr>vfd_type := word_of_int ty\<rparr>)))))"

text \<open>The entry an argument names; the argument is compared as an \<open>unsigned int\<close>.\<close>

definition vfd_get :: "fd_table \<Rightarrow> u32 \<Rightarrow> int \<Rightarrow> vmir_fd option" where
  "vfd_get t fd ty =
     (if length (iu_vfds t) \<le> unat fd then None
      else let v = iu_vfds t ! unat fd
           in if vfd_type v = 0 \<or> (ty \<noteq> -1 \<and> uint (vfd_type v) \<noteq> ty) then None else Some v)"

definition vmir_fd_get :: "fd_table \<Rightarrow> int \<Rightarrow> int \<Rightarrow> u64" where
  "vmir_fd_get t fd ty = (case vfd_get t (word_of_int fd) ty of None \<Rightarrow> 0 | Some v \<Rightarrow> vfd_word v)"

definition vmir_fd_create :: "fd_table \<Rightarrow> u64 \<Rightarrow> int \<Rightarrow> fd_release option \<Rightarrow> (int \<times> fd_table) result" where
  "vmir_fd_create t handle ty rel =
     res_bind (vfd_create t ty) (\<lambda>(fd, t1).
       res_bind (fd_item t1 fd) (\<lambda>v.
         Inr (fd, fd_put t1 fd (v\<lparr>vfd_word := handle, vfd_release := rel\<rparr>))))"

definition vmir_fd_create_fh :: "fd_table \<Rightarrow> u64 \<Rightarrow> bool \<Rightarrow> (int \<times> fd_table) result" where
  "vmir_fd_create_fh t handle closable =
     vmir_fd_create t handle VMIR_FD_TYPE_FILEHANDLE (if closable then Some Release_fh else None)"

section \<open>Operations that reach the host\<close>

text \<open>Reading returns the result and the bytes stored in the buffer.\<close>

record 'w fsops =
  fs_open :: "'w \<Rightarrow> u8 list \<Rightarrow> u32 \<Rightarrow> int \<times> u64 \<times> 'w"
  fs_close :: "'w \<Rightarrow> u64 \<Rightarrow> 'w"
  fs_read :: "'w \<Rightarrow> u64 \<Rightarrow> nat \<Rightarrow> int \<times> u8 list \<times> 'w"
  fs_write :: "'w \<Rightarrow> u64 \<Rightarrow> u8 list \<Rightarrow> int \<times> 'w"
  fs_seek :: "'w \<Rightarrow> u64 \<Rightarrow> int \<Rightarrow> u32 \<Rightarrow> int \<times> 'w"
  fs_user_release :: "'w \<Rightarrow> nat \<Rightarrow> u64 \<Rightarrow> 'w"

definition vfd_open :: "'w fsops \<Rightarrow> fd_table \<times> 'w \<Rightarrow> u8 list \<Rightarrow> u32 \<Rightarrow> (int \<times> fd_table \<times> 'w) result" where
  "vfd_open fs = (\<lambda>(t, w) path flags.
     case fs_open fs w path flags of
       (err, fh, w1) \<Rightarrow>
         if err \<noteq> 0 then Inr (-1, t, w1)
         else res_bind (vmir_fd_create_fh t fh True) (\<lambda>(fd, t1). Inr (fd, t1, w1)))"

definition fd_call_release :: "'w fsops \<Rightarrow> fd_release option \<Rightarrow> u64 \<Rightarrow> 'w \<Rightarrow> 'w" where
  "fd_call_release fs rel h w =
     (case rel of None \<Rightarrow> w | Some Release_fh \<Rightarrow> fs_close fs w h | Some (Release_user k) \<Rightarrow> fs_user_release fs w k h)"

definition vmir_fd_close :: "'w fsops \<Rightarrow> fd_table \<times> 'w \<Rightarrow> int \<Rightarrow> fd_table \<times> 'w" where
  "vmir_fd_close fs = (\<lambda>(t, w) fd.
     case vfd_get t (word_of_int fd) (-1) of
       None \<Rightarrow> (t, w)
     | Some v \<Rightarrow>
         let w1 = fd_call_release fs (vfd_release v) (vfd_word v) w;
             v1 = fd_set_freelist (v\<lparr>vfd_type := 0\<rparr>) (iu_vfd_free t)
         in (fd_put t (uint (word_of_int fd :: u32)) v1\<lparr>iu_vfd_free := fd\<rparr>, w1))"

definition vfd_read :: "'w fsops \<Rightarrow> fd_table \<times> 'w \<Rightarrow> int \<Rightarrow> nat \<Rightarrow> int \<times> u8 list \<times> 'w" where
  "vfd_read fs = (\<lambda>(t, w) fd n.
     case vfd_get t (word_of_int fd) VMIR_FD_TYPE_FILEHANDLE of
       None \<Rightarrow> (-1, [], w) | Some v \<Rightarrow> fs_read fs w (vfd_word v) n)"

definition vfd_write :: "'w fsops \<Rightarrow> fd_table \<times> 'w \<Rightarrow> int \<Rightarrow> u8 list \<Rightarrow> int \<times> 'w" where
  "vfd_write fs = (\<lambda>(t, w) fd buf.
     case vfd_get t (word_of_int fd) VMIR_FD_TYPE_FILEHANDLE of
       None \<Rightarrow> (-1, w) | Some v \<Rightarrow> fs_write fs w (vfd_word v) buf)"

definition vfd_seek :: "'w fsops \<Rightarrow> fd_table \<times> 'w \<Rightarrow> int \<Rightarrow> int \<Rightarrow> u32 \<Rightarrow> int \<times> 'w" where
  "vfd_seek fs = (\<lambda>(t, w) fd off whence.
     case vfd_get t (word_of_int fd) VMIR_FD_TYPE_FILEHANDLE of
       None \<Rightarrow> (-1, w) | Some v \<Rightarrow> fs_seek fs w (vfd_word v) off whence)"

text \<open>The descriptors \<open>vmir_walk_fds\<close> calls its argument on, with their types.\<close>

definition vmir_walk_fds :: "fd_table \<Rightarrow> (nat \<times> u8) list" where
  "vmir_walk_fds t =
     filter (\<lambda>(_, ty). ty \<noteq> 0) (map (\<lambda>i. (i, vfd_type (iu_vfds t ! i))) [0..<length (iu_vfds t)])"

section \<open>The functions the guest calls\<close>

definition VMIR_FS_OPEN_READ :: u32 where "VMIR_FS_OPEN_READ = 0x1"
definition VMIR_FS_OPEN_WRITE :: u32 where "VMIR_FS_OPEN_WRITE = 0x2"
definition VMIR_FS_OPEN_RW :: u32 where "VMIR_FS_OPEN_RW = 0x3"
definition VMIR_FS_OPEN_CREATE :: u32 where "VMIR_FS_OPEN_CREATE = 0x4"
definition VMIR_FS_OPEN_TRUNC :: u32 where "VMIR_FS_OPEN_TRUNC = 0x8"
definition VMIR_FS_OPEN_APPEND :: u32 where "VMIR_FS_OPEN_APPEND = 0x10"

definition open_flags :: "u32 \<Rightarrow> u32" where
  "open_flags flags =
     ((if flags AND 64 \<noteq> 0 then VMIR_FS_OPEN_CREATE else 0) OR
      (if flags AND 2 \<noteq> 0 then VMIR_FS_OPEN_RW
       else if flags AND 1 \<noteq> 0 then VMIR_FS_OPEN_WRITE else VMIR_FS_OPEN_READ))"

type_synonym 'w fd_fun = "retptr \<Rightarrow> nat \<Rightarrow> vm_unit \<times> fd_table \<times> 'w \<Rightarrow> (int \<times> vm_unit \<times> fd_table \<times> 'w) libc"

definition vmir_open :: "'w fsops \<Rightarrow> 'w fd_fun" where
  "vmir_open fs ret rf = (\<lambda>(st, tw).
     res_bind (in_vm (vmir_vm_ptr st rf)) (\<lambda>(p, rf1).
       res_bind (in_vm (vmir_vm_arg32 st rf1)) (\<lambda>(flags, _).
         res_bind (in_vm (cstring st (of_nat p))) (\<lambda>path.
           res_bind (in_libc (vfd_open fs tw path (open_flags flags))) (\<lambda>(fd, tw1).
             res_bind (in_vm (vmir_vm_ret32 ret (word_of_int fd) st)) (\<lambda>st1. Inr (0, st1, tw1)))))))"

definition vmir_read :: "'w fsops \<Rightarrow> 'w fd_fun" where
  "vmir_read fs ret rf = (\<lambda>(st, t, w).
     res_bind (in_vm (vmir_vm_arg32 st rf)) (\<lambda>(fd, rf1).
       res_bind (in_vm (vmir_vm_ptr st rf1)) (\<lambda>(buf, rf2).
         res_bind (in_vm (vmir_vm_arg32 st rf2)) (\<lambda>(nbyte, _).
           case vfd_read fs (t, w) (sint fd) (unat nbyte) of (r, bs, w1) \<Rightarrow>
             if bs = [] \<or> length bs \<le> unat nbyte \<and> buf + length bs \<le> iu_memsize st
             then res_bind (in_vm (vmir_vm_ret32 ret (word_of_int r)
                    (st\<lparr>iu_mem := store_bytes (iu_mem st) buf bs\<rparr>))) (\<lambda>st1. Inr (0, st1, t, w1))
             else Inl (Vm_halt Ub)))))"

definition vmir_write :: "'w fsops \<Rightarrow> 'w fd_fun" where
  "vmir_write fs ret rf = (\<lambda>(st, t, w).
     res_bind (in_vm (vmir_vm_arg32 st rf)) (\<lambda>(fd, rf1).
       res_bind (in_vm (vmir_vm_ptr st rf1)) (\<lambda>(buf, rf2).
         res_bind (in_vm (vmir_vm_arg32 st rf2)) (\<lambda>(nbyte, _).
           if vfd_get t fd VMIR_FD_TYPE_FILEHANDLE = None \<or> buf + unat nbyte \<le> iu_memsize st
           then case vfd_write fs (t, w) (sint fd) (load_bytes (iu_mem st) buf (unat nbyte)) of (r, w1) \<Rightarrow>
             res_bind (in_vm (vmir_vm_ret32 ret (word_of_int r) st)) (\<lambda>st1. Inr (0, st1, t, w1))
           else Inl (Vm_halt Ub)))))"

definition vmir_lseek :: "'w fsops \<Rightarrow> 'w fd_fun" where
  "vmir_lseek fs ret rf = (\<lambda>(st, t, w).
     res_bind (in_vm (vmir_vm_arg32 st rf)) (\<lambda>(fd, rf1).
       res_bind (in_vm (vmir_vm_arg64 st rf1)) (\<lambda>(off, rf2).
         res_bind (in_vm (vmir_vm_arg32 st rf2)) (\<lambda>(whence, _).
           case vfd_seek fs (t, w) (sint fd) (sint off) whence of (r, w1) \<Rightarrow>
             res_bind (in_vm (vmir_vm_ret64 ret (word_of_int r) st)) (\<lambda>st1. Inr (0, st1, t, w1))))))"

definition vmir_close :: "'w fsops \<Rightarrow> 'w fd_fun" where
  "vmir_close fs ret rf = (\<lambda>(st, tw).
     res_bind (in_vm (vmir_vm_arg32 st rf)) (\<lambda>(fd, _).
       let tw1 = vmir_fd_close fs tw (sint fd)
       in res_bind (in_vm (vmir_vm_ret32 ret 0 st)) (\<lambda>st1. Inr (0, st1, tw1))))"

end
