(* ===== verification/Vmir_Fd_Props.thy ===== *)
theory Vmir_Fd_Props
  imports Vmir_Fd
begin

text \<open>
  The file descriptor table refines a map from descriptors to open files: the invariant of
  the free list, what the table stands for, and the simulation of every operation.
\<close>

section \<open>The free list\<close>

lemma fd_freelist_set [simp]:
  assumes "- (2 ^ 31) \<le> n" and "n < 2 ^ 31"
  shows "fd_freelist (fd_set_freelist v n) = n"
proof -
  have "(ucast ((vfd_word v AND 0xFFFFFFFF00000000) OR ucast (word_of_int n :: u32)) :: u32) = word_of_int n"
  proof (rule bit_word_eqI)
    fix k
    assume "k < LENGTH(32)"
    moreover have "\<not> bit (0xFFFFFFFF00000000 :: u64) k" if "k < 32"
    proof -
      have "(0xFFFFFFFF00000000 :: u64) = push_bit 32 0xFFFFFFFF" by (simp add: push_bit_eq_mult)
      with that show ?thesis by (simp only: bit_push_bit_iff) simp
    qed
    ultimately show "bit (ucast ((vfd_word v AND 0xFFFFFFFF00000000) OR ucast (word_of_int n :: u32)) :: u32) k
        = bit (word_of_int n :: u32) k"
      by (simp add: bit_simps)
  qed
  moreover have "sint (word_of_int n :: u32) = n"
    using assms by (simp only: sint_sbintrunc') (simp add: signed_take_bit_int_eq_self)
  ultimately show ?thesis unfolding fd_freelist_def fd_set_freelist_def by simp
qed

lemma vfd_type_set_freelist [simp]:
  "vfd_type (fd_set_freelist v n) = vfd_type v" "vfd_release (fd_set_freelist v n) = vfd_release v"
  by (simp_all add: fd_set_freelist_def)

fun free_chain :: "vmir_fd list \<Rightarrow> int \<Rightarrow> nat list \<Rightarrow> bool" where
  "free_chain vs f [] \<longleftrightarrow> f = -1"
| "free_chain vs f (i # js) \<longleftrightarrow> f = int i \<and> i < length vs \<and> vfd_type (vs ! i) = 0 \<and>
     free_chain vs (fd_freelist (vs ! i)) js"

definition fd_ok :: "fd_table \<Rightarrow> bool" where
  "fd_ok t \<longleftrightarrow> (\<exists>js. free_chain (iu_vfds t) (iu_vfd_free t) js \<and> distinct js \<and>
     (\<forall>i. i \<in> set js \<longleftrightarrow> i < length (iu_vfds t) \<and> vfd_type (iu_vfds t ! i) = 0))"

text \<open>A change outside the chain leaves it alone.\<close>

lemma free_chain_update:
  "free_chain vs f js \<Longrightarrow> i \<notin> set js \<Longrightarrow> free_chain (vs[i := v]) f js"
  by (induction js arbitrary: f) auto

lemma free_chain_append:
  "free_chain vs f js \<Longrightarrow> free_chain (vs @ ws) f js"
  by (induction js arbitrary: f) (auto simp: nth_append)

lemma free_chain_first: "free_chain vs f js \<Longrightarrow> f = -1 \<or> (0 \<le> f \<and> f < int (length vs))"
  by (cases js) auto

section \<open>What the table stands for\<close>

type_synonym open_fds = "int \<Rightarrow> (u64 \<times> fd_release option \<times> u8) option"

definition fd_abs :: "fd_table \<Rightarrow> open_fds" where
  "fd_abs t fd =
     (if 0 \<le> fd \<and> fd < int (length (iu_vfds t)) \<and> vfd_type (iu_vfds t ! nat fd) \<noteq> 0
      then let v = iu_vfds t ! nat fd in Some (vfd_word v, vfd_release v, vfd_type v) else None)"

text \<open>Writing an entry changes what the table stands for at its index.\<close>

definition fd_entry :: "vmir_fd \<Rightarrow> (u64 \<times> fd_release option \<times> u8) option" where
  "fd_entry v = (if vfd_type v = 0 then None else Some (vfd_word v, vfd_release v, vfd_type v))"

lemma fd_abs_entry:
  "fd_abs t fd = (if 0 \<le> fd \<and> nat fd < length (iu_vfds t) then fd_entry (iu_vfds t ! nat fd) else None)"
  unfolding fd_abs_def fd_entry_def Let_def by (auto simp: nat_less_iff)

lemma fd_abs_put:
  assumes "iu_vfds t' = (iu_vfds t)[i := v]" and "i < length (iu_vfds t)"
  shows "fd_abs t' = (fd_abs t)(int i := fd_entry v)"
proof
  fix x
  show "fd_abs t' x = ((fd_abs t)(int i := fd_entry v)) x"
    using assms by (cases "x = int i") (auto simp: fd_abs_entry nth_list_update)
qed

lemma fd_abs_append:
  assumes "iu_vfds t' = iu_vfds t @ [v]"
  shows "fd_abs t' = (fd_abs t)(int (length (iu_vfds t)) := fd_entry v)"
proof
  fix x
  show "fd_abs t' x = ((fd_abs t)(int (length (iu_vfds t)) := fd_entry v)) x"
    using assms by (cases "x = int (length (iu_vfds t))") (auto simp: fd_abs_entry nth_append)
qed

lemma fd_index_pos:
  assumes "0 \<le> fd" and "fd < 2 ^ 31"
  shows "uint (word_of_int fd :: u32) = fd" and "unat (word_of_int fd :: u32) = nat fd"
proof -
  show u: "uint (word_of_int fd :: u32) = fd" using assms by (simp add: uint_word_of_int)
  show "unat (word_of_int fd :: u32) = nat fd" unfolding unat_eq_nat_uint u ..
qed

lemma fd_index_neg:
  assumes "- (2 ^ 31) \<le> fd" and "fd < 0"
  shows "2 ^ 31 \<le> unat (word_of_int fd :: u32)"
proof -
  have "fd mod 2 ^ 32 = fd + 2 ^ 32"
    using assms by (subst mod_add_self2 [symmetric]) (rule mod_pos_pos_trivial, simp_all)
  then have "uint (word_of_int fd :: u32) = fd + 2 ^ 32" by (simp add: uint_word_of_int)
  with assms show ?thesis by (simp add: unat_eq_nat_uint)
qed

lemma vfd_get_abs:
  assumes "length (iu_vfds t) < 2 ^ 31" and "- (2 ^ 31) \<le> fd" and "fd < 2 ^ 31"
  shows "map_option (\<lambda>v. (vfd_word v, vfd_release v, vfd_type v)) (vfd_get t (word_of_int fd) ty) =
    (case fd_abs t fd of None \<Rightarrow> None
     | Some (h, r, k) \<Rightarrow> if ty = -1 \<or> uint k = ty then Some (h, r, k) else None)"
proof (cases "0 \<le> fd")
  case True
  with fd_index_pos assms(3) have u: "unat (word_of_int fd :: u32) = nat fd" by simp
  have n: "length (iu_vfds t) \<le> nat fd \<longleftrightarrow> \<not> fd < int (length (iu_vfds t))" using True by linarith
  show ?thesis using True unfolding vfd_get_def fd_abs_def u n by (simp add: Let_def)
next
  case False
  with fd_index_neg assms have "length (iu_vfds t) \<le> unat (word_of_int fd :: u32)" by force
  with False show ?thesis by (simp add: vfd_get_def fd_abs_def)
qed

lemma fd_create_ok:
  assumes "fd_ok t" and "length (iu_vfds t) < 2 ^ 31 - 1" and "0 < ty" and "ty < 256"
  obtains fd t' where "vmir_fd_create t h ty rel = Inr (fd, t')" and "fd_ok t'" and "0 \<le> fd"
    and "fd_abs t fd = None" and "fd_abs t' = (fd_abs t)(fd \<mapsto> (h, rel, word_of_int ty))"
    and "length (iu_vfds t') \<le> Suc (length (iu_vfds t))"
proof -
  from assms(1) obtain js where ch: "free_chain (iu_vfds t) (iu_vfd_free t) js" and d: "distinct js"
    and js: "\<And>i. i \<in> set js \<longleftrightarrow> i < length (iu_vfds t) \<and> vfd_type (iu_vfds t ! i) = 0"
    unfolding fd_ok_def by blast
  have ty: "(word_of_int ty :: u8) \<noteq> 0"
  proof
    assume "(word_of_int ty :: u8) = 0"
    then have "uint (word_of_int ty :: u8) = 0" by simp
    with assms(3,4) show False by (simp add: uint_word_of_int)
  qed
  show ?thesis
  proof (cases js)
    case Nil
    let ?n = "length (iu_vfds t)" and ?v = "\<lparr>vfd_word = h, vfd_release = rel, vfd_type = word_of_int ty\<rparr>"
    let ?t = "t\<lparr>iu_vfds := iu_vfds t @ [?v]\<rparr>"
    have f: "iu_vfd_free t = -1" using ch Nil by simp
    have n: "to_int (int ?n) = int ?n"
      using assms(2) by (simp add: to_int_def signed_take_bit_int_eq_self)
    have "vmir_fd_create t h ty rel = Inr (int ?n, ?t)"
      using f n by (simp add: vmir_fd_create_def vfd_create_def fd_item_def fd_put_def)
    moreover have "\<not> (i < length (iu_vfds ?t) \<and> vfd_type (iu_vfds ?t ! i) = 0)" for i
      using js [of i] Nil ty by (simp add: nth_append less_Suc_eq)
    with f have "fd_ok ?t" unfolding fd_ok_def by (intro exI [of _ "[]"]) simp
    moreover have "fd_abs ?t = (fd_abs t)(int ?n \<mapsto> (h, rel, word_of_int ty))"
      using ty fd_abs_append [of ?t t ?v] by (simp add: fd_entry_def)
    ultimately show ?thesis by (intro that [of "int ?n" ?t]) (auto simp: fd_abs_def)
  next
    case (Cons i ks)
    let ?v = "\<lparr>vfd_word = h, vfd_release = rel, vfd_type = word_of_int ty\<rparr>"
    let ?t = "t\<lparr>iu_vfds := (iu_vfds t)[i := ?v], iu_vfd_free := fd_freelist (iu_vfds t ! i)\<rparr>"
    have i: "iu_vfd_free t = int i" "i < length (iu_vfds t)" "vfd_type (iu_vfds t ! i) = 0"
      and ks: "free_chain (iu_vfds t) (fd_freelist (iu_vfds t ! i)) ks" "i \<notin> set ks" "distinct ks"
      using ch d Cons by auto
    have "vmir_fd_create t h ty rel = Inr (int i, ?t)"
      using i by (cases t, cases "iu_vfds t ! i") (simp add: vmir_fd_create_def vfd_create_def fd_item_def fd_put_def)
    moreover have "j \<in> set ks \<longleftrightarrow> j < length (iu_vfds ?t) \<and> vfd_type (iu_vfds ?t ! j) = 0" for j
      using js [of j] Cons i ks(2) ty by (cases "j = i") simp_all
    with free_chain_update [OF ks(1,2)] ks(3) have "fd_ok ?t"
      unfolding fd_ok_def by (intro exI [of _ ks]) simp
    moreover have "fd_abs ?t = (fd_abs t)(int i \<mapsto> (h, rel, word_of_int ty))"
      using i ty fd_abs_put [of ?t t i ?v] by (simp add: fd_entry_def)
    ultimately show ?thesis using i by (intro that [of "int i" ?t]) (auto simp: fd_abs_def)
  qed
qed

lemma fd_close_ok:
  assumes "fd_ok t" and "length (iu_vfds t) < 2 ^ 31" and "- (2 ^ 31) \<le> fd" and "fd < 2 ^ 31"
  obtains t' w' where "vmir_fd_close fs (t, w) fd = (t', w')" and "fd_ok t'"
    and "length (iu_vfds t') = length (iu_vfds t)"
    and "case fd_abs t fd of None \<Rightarrow> t' = t \<and> w' = w
      | Some (h, r, k) \<Rightarrow> fd_abs t' = (fd_abs t)(fd := None) \<and> w' = fd_call_release fs r h w"
proof (cases "fd_abs t fd")
  case None
  then have "vfd_get t (word_of_int fd) (-1) = None"
    using vfd_get_abs [OF assms(2-4), of "-1"] by simp
  then show ?thesis using that [of t w] assms(1) None by (simp add: vmir_fd_close_def)
next
  case (Some a)
  then have fd: "0 \<le> fd" "fd < int (length (iu_vfds t))" "vfd_type (iu_vfds t ! nat fd) \<noteq> 0"
    by (auto simp: fd_abs_def split: if_splits)
  let ?v = "iu_vfds t ! nat fd"
  note u = fd_index_pos [OF fd(1) assms(4)]
  have g: "vfd_get t (word_of_int fd) (-1) = Some ?v"
    using fd unfolding vfd_get_def u(2) by (simp add: Let_def nat_le_iff linorder_not_le zless_nat_eq_int_zless)
  let ?t = "t\<lparr>iu_vfds := (iu_vfds t)[nat fd := fd_set_freelist (?v\<lparr>vfd_type := 0\<rparr>) (iu_vfd_free t)],
              iu_vfd_free := fd\<rparr>"
  have c: "vmir_fd_close fs (t, w) fd = (?t, fd_call_release fs (vfd_release ?v) (vfd_word ?v) w)"
    using g u(1) by (simp add: vmir_fd_close_def fd_put_def Let_def)
  from assms(1) obtain js where ch: "free_chain (iu_vfds t) (iu_vfd_free t) js" and d: "distinct js"
    and js: "\<And>i. i \<in> set js \<longleftrightarrow> i < length (iu_vfds t) \<and> vfd_type (iu_vfds t ! i) = 0"
    unfolding fd_ok_def by blast
  have r: "- (2 ^ 31) \<le> iu_vfd_free t" "iu_vfd_free t < 2 ^ 31"
    using free_chain_first [OF ch] assms(2) by auto
  have "nat fd \<notin> set js" using js [of "nat fd"] fd by simp
  then have c1: "free_chain (iu_vfds ?t) (iu_vfd_free ?t) (nat fd # js)"
    using free_chain_update [OF ch \<open>nat fd \<notin> set js\<close>] fd r by simp
  have c2: "i \<in> set (nat fd # js) \<longleftrightarrow> i < length (iu_vfds ?t) \<and> vfd_type (iu_vfds ?t ! i) = 0" for i
    using js [of i] fd by (cases "i = nat fd") (simp_all add: nat_less_iff)
  have "fd_ok ?t"
    unfolding fd_ok_def
    by (rule exI [of _ "nat fd # js"], intro conjI allI, rule c1)
      (simp add: d \<open>nat fd \<notin> set js\<close>, rule c2)
  moreover have "fd_abs ?t = (fd_abs t)(fd := None)"
    using fd fd_abs_put [of ?t t "nat fd" "iu_vfds ?t ! nat fd"] by (simp add: fd_entry_def nat_less_iff)
  moreover have "fd_abs t fd = Some (vfd_word ?v, vfd_release ?v, vfd_type ?v)"
    using fd by (simp add: fd_abs_def Let_def)
  ultimately show ?thesis using that [OF c] by simp
qed

section \<open>Refinement of a map of open files\<close>

datatype fd_op =
    Fd_create u64 int "fd_release option"
  | Fd_open "u8 list" u32
  | Fd_close int
  | Fd_get int int
  | Fd_read int nat
  | Fd_write int "u8 list"
  | Fd_seek int int u32

datatype fd_res = Res_unit | Res_int int | Res_handle u64 | Res_bytes int "u8 list"

fun fd_step :: "'w fsops \<Rightarrow> fd_table \<times> 'w \<Rightarrow> fd_op \<Rightarrow> (fd_res \<times> fd_table \<times> 'w) result" where
  "fd_step fs (t, w) (Fd_create h ty rel) =
     res_bind (vmir_fd_create t h ty rel) (\<lambda>(fd, t'). Inr (Res_int fd, t', w))"
| "fd_step fs s (Fd_open path flags) = res_bind (vfd_open fs s path flags) (\<lambda>(fd, s'). Inr (Res_int fd, s'))"
| "fd_step fs s (Fd_close fd) = Inr (Res_unit, vmir_fd_close fs s fd)"
| "fd_step fs (t, w) (Fd_get fd ty) = Inr (Res_handle (vmir_fd_get t fd ty), t, w)"
| "fd_step fs (t, w) (Fd_read fd n) = (case vfd_read fs (t, w) fd n of (r, bs, w') \<Rightarrow> Inr (Res_bytes r bs, t, w'))"
| "fd_step fs (t, w) (Fd_write fd bs) = (case vfd_write fs (t, w) fd bs of (r, w') \<Rightarrow> Inr (Res_int r, t, w'))"
| "fd_step fs (t, w) (Fd_seek fd off wh) = (case vfd_seek fs (t, w) fd off wh of (r, w') \<Rightarrow> Inr (Res_int r, t, w'))"

fun fd_run :: "'w fsops \<Rightarrow> fd_table \<times> 'w \<Rightarrow> fd_op list \<Rightarrow> (fd_res list \<times> fd_table \<times> 'w) result" where
  "fd_run fs s [] = Inr ([], s)"
| "fd_run fs s (oper # ops) =
     res_bind (fd_step fs s oper) (\<lambda>(r, s'). res_bind (fd_run fs s' ops) (\<lambda>(rs, s''). Inr (r # rs, s'')))"

text \<open>
  The specification: a map from descriptors to what was registered under them. A new descriptor
  is any that is not in use.
\<close>

definition typed_handle :: "open_fds \<Rightarrow> int \<Rightarrow> int \<Rightarrow> u64 option" where
  "typed_handle m fd ty =
     (case m fd of None \<Rightarrow> None | Some (h, _, k) \<Rightarrow> if ty = -1 \<or> uint k = ty then Some h else None)"

inductive spec_step :: "'w fsops \<Rightarrow> open_fds \<times> 'w \<Rightarrow> fd_op \<Rightarrow> fd_res \<Rightarrow> open_fds \<times> 'w \<Rightarrow> bool"
  for fs :: "'w fsops" where
  create_fd: "0 \<le> fd \<Longrightarrow> m fd = None \<Longrightarrow>
    spec_step fs (m, w) (Fd_create h ty rel) (Res_int fd) (m(fd \<mapsto> (h, rel, word_of_int ty)), w)"
| open_fails: "fs_open fs w path flags = (e, h, w') \<Longrightarrow> e \<noteq> 0 \<Longrightarrow>
    spec_step fs (m, w) (Fd_open path flags) (Res_int (-1)) (m, w')"
| open_ok: "fs_open fs w path flags = (0, h, w') \<Longrightarrow> 0 \<le> fd \<Longrightarrow> m fd = None \<Longrightarrow>
    spec_step fs (m, w) (Fd_open path flags) (Res_int fd) (m(fd \<mapsto> (h, Some Release_fh, 1)), w')"
| close_unused: "m fd = None \<Longrightarrow> spec_step fs (m, w) (Fd_close fd) Res_unit (m, w)"
| close_used: "m fd = Some (h, rel, k) \<Longrightarrow>
    spec_step fs (m, w) (Fd_close fd) Res_unit (m(fd := None), fd_call_release fs rel h w)"
| get_fd: "spec_step fs (m, w) (Fd_get fd ty)
    (Res_handle (case typed_handle m fd ty of None \<Rightarrow> 0 | Some h \<Rightarrow> h)) (m, w)"
| read_fd: "(case typed_handle m fd 1 of None \<Rightarrow> (-1, [], w) | Some h \<Rightarrow> fs_read fs w h n) = (r, bs, w') \<Longrightarrow>
    spec_step fs (m, w) (Fd_read fd n) (Res_bytes r bs) (m, w')"
| write_fd: "(case typed_handle m fd 1 of None \<Rightarrow> (-1, w) | Some h \<Rightarrow> fs_write fs w h bs) = (r, w') \<Longrightarrow>
    spec_step fs (m, w) (Fd_write fd bs) (Res_int r) (m, w')"
| seek_fd: "(case typed_handle m fd 1 of None \<Rightarrow> (-1, w) | Some h \<Rightarrow> fs_seek fs w h off wh) = (r, w') \<Longrightarrow>
    spec_step fs (m, w) (Fd_seek fd off wh) (Res_int r) (m, w')"

inductive spec_run :: "'w fsops \<Rightarrow> open_fds \<times> 'w \<Rightarrow> fd_op list \<Rightarrow> fd_res list \<Rightarrow> open_fds \<times> 'w \<Rightarrow> bool"
  for fs :: "'w fsops" where
  spec_nil: "spec_run fs s [] [] s"
| spec_cons: "spec_step fs s oper r s' \<Longrightarrow> spec_run fs s' ops rs s'' \<Longrightarrow> spec_run fs s (oper # ops) (r # rs) s''"

text \<open>Arguments of the types the C functions take, and the types a descriptor may be created with.\<close>

definition c_fd :: "int \<Rightarrow> bool" where
  "c_fd fd \<longleftrightarrow> - (2 ^ 31) \<le> fd \<and> fd < 2 ^ 31"

fun fd_op_ok :: "fd_op \<Rightarrow> bool" where
  "fd_op_ok (Fd_create h ty rel) \<longleftrightarrow> 0 < ty \<and> ty < 256"
| "fd_op_ok (Fd_open path flags) \<longleftrightarrow> True"
| "fd_op_ok (Fd_close fd) \<longleftrightarrow> c_fd fd"
| "fd_op_ok (Fd_get fd ty) \<longleftrightarrow> c_fd fd"
| "fd_op_ok (Fd_read fd n) \<longleftrightarrow> c_fd fd"
| "fd_op_ok (Fd_write fd bs) \<longleftrightarrow> c_fd fd"
| "fd_op_ok (Fd_seek fd off wh) \<longleftrightarrow> c_fd fd"

lemma vfd_get_handle:
  assumes "length (iu_vfds t) < 2 ^ 31" and "c_fd fd"
  shows "map_option vfd_word (vfd_get t (word_of_int fd) ty) = typed_handle (fd_abs t) fd ty"
proof -
  have "map_option vfd_word (vfd_get t (word_of_int fd) ty) =
      map_option fst (map_option (\<lambda>v. (vfd_word v, vfd_release v, vfd_type v)) (vfd_get t (word_of_int fd) ty))"
    by (simp add: option.map_comp comp_def)
  also have "\<dots> = typed_handle (fd_abs t) fd ty"
    using assms unfolding c_fd_def
    by (subst vfd_get_abs) (auto simp: typed_handle_def split: option.splits)
  finally show ?thesis .
qed

lemma vfd_get_case:
  assumes "length (iu_vfds t) < 2 ^ 31" and "c_fd fd"
  shows "(case vfd_get t (word_of_int fd) ty of None \<Rightarrow> a | Some v \<Rightarrow> f (vfd_word v)) =
    (case typed_handle (fd_abs t) fd ty of None \<Rightarrow> a | Some h \<Rightarrow> f h)"
  unfolding vfd_get_handle [OF assms, symmetric] by (cases "vfd_get t (word_of_int fd) ty") simp_all

lemma fd_step_refines:
  assumes "fd_ok t" and "length (iu_vfds t) < 2 ^ 31 - 1" and "fd_op_ok oper"
  shows "\<exists>r t' w'. fd_step fs (t, w) oper = Inr (r, t', w') \<and> fd_ok t' \<and>
    length (iu_vfds t') \<le> Suc (length (iu_vfds t)) \<and> spec_step fs (fd_abs t, w) oper r (fd_abs t', w')"
proof -
  have len: "length (iu_vfds t) < 2 ^ 31" using assms(2) by simp
  note get = vfd_get_case [OF len]
  show ?thesis
  proof (cases oper)
    case (Fd_create h ty rel)
    with assms(3) have ty: "0 < ty" "ty < 256" by simp_all
    obtain fd t' where c: "vmir_fd_create t h ty rel = Inr (fd, t')" "fd_ok t'" "0 \<le> fd"
        "fd_abs t fd = None" "fd_abs t' = (fd_abs t)(fd \<mapsto> (h, rel, word_of_int ty))"
        "length (iu_vfds t') \<le> Suc (length (iu_vfds t))"
      by (rule fd_create_ok [OF assms(1,2) ty])
    have "spec_step fs (fd_abs t, w) oper (Res_int fd) (fd_abs t', w)"
      unfolding Fd_create c(5) using c(3,4) by (rule create_fd)
    moreover have "fd_step fs (t, w) oper = Inr (Res_int fd, t', w)"
      using c(1) by (simp add: Fd_create)
    ultimately show ?thesis using c(2,6) by blast
  next
    case (Fd_open path flags)
    obtain e h w' where o: "fs_open fs w path flags = (e, h, w')" by (cases "fs_open fs w path flags")
    show ?thesis
    proof (cases "e = 0")
      case True
      obtain fd t' where c: "vmir_fd_create t h 1 (Some Release_fh) = Inr (fd, t')" "fd_ok t'" "0 \<le> fd"
          "fd_abs t fd = None" "fd_abs t' = (fd_abs t)(fd \<mapsto> (h, Some Release_fh, word_of_int 1))"
          "length (iu_vfds t') \<le> Suc (length (iu_vfds t))"
        by (rule fd_create_ok [OF assms(1,2), of 1]) simp_all
      have "fd_step fs (t, w) oper = Inr (Res_int fd, t', w')"
        using Fd_open o True c(1)
        by (simp add: vfd_open_def vmir_fd_create_fh_def VMIR_FD_TYPE_FILEHANDLE_def)
      moreover have "spec_step fs (fd_abs t, w) oper (Res_int fd) (fd_abs t', w')"
        unfolding Fd_open c(5) using open_ok [of fs w path flags h w' fd "fd_abs t"] o True c(3,4) by simp
      ultimately show ?thesis using c(2,6) by blast
    next
      case False
      have "fd_step fs (t, w) oper = Inr (Res_int (-1), t, w')"
        using Fd_open o False by (simp add: vfd_open_def)
      with assms(1) open_fails [OF o False] show ?thesis unfolding Fd_open
        by (intro exI [of _ "Res_int (-1)"] exI [of _ t] exI [of _ w']) simp
    qed
  next
    case (Fd_close fd)
    with assms(3) have "- (2 ^ 31) \<le> fd" "fd < 2 ^ 31" by (simp_all add: c_fd_def)
    obtain t' w' where
        c: "vmir_fd_close fs (t, w) fd = (t', w')" "fd_ok t'" "length (iu_vfds t') = length (iu_vfds t)"
      and a: "case fd_abs t fd of None \<Rightarrow> t' = t \<and> w' = w
        | Some (h, r, k) \<Rightarrow> fd_abs t' = (fd_abs t)(fd := None) \<and> w' = fd_call_release fs r h w"
      by (rule fd_close_ok [OF assms(1) len \<open>- (2 ^ 31) \<le> fd\<close> \<open>fd < 2 ^ 31\<close>])
    have "spec_step fs (fd_abs t, w) (Fd_close fd) Res_unit (fd_abs t', w')"
    proof (cases "fd_abs t fd")
      case None
      with a show ?thesis by (simp add: close_unused)
    next
      case (Some x)
      obtain h r k where "x = (h, r, k)" by (cases x)
      with a Some close_used [of "fd_abs t" fd h r k fs w] show ?thesis by simp
    qed
    moreover have "fd_step fs (t, w) oper = Inr (Res_unit, t', w')" using c(1) Fd_close by simp
    ultimately show ?thesis using c(2,3) unfolding Fd_close
      by (intro exI [of _ Res_unit] exI [of _ t'] exI [of _ w']) simp
  next
    case (Fd_get fd ty)
    with assms(3) have "c_fd fd" by simp
    from get [OF this, where ty = ty and a = 0 and f = "\<lambda>h. h"] Fd_get assms(1) spec_step.get_fd [of fs "fd_abs t" w fd ty]
    show ?thesis by (simp add: vmir_fd_get_def)
  next
    case (Fd_read fd n)
    obtain r bs w' where r: "vfd_read fs (t, w) fd n = (r, bs, w')" by (cases "vfd_read fs (t, w) fd n")
    from Fd_read assms(3) have "c_fd fd" by simp
    from r get [OF this, where ty = VMIR_FD_TYPE_FILEHANDLE and a = "(-1, [], w)" and f = "\<lambda>h. fs_read fs w h n"]
    have "spec_step fs (fd_abs t, w) (Fd_read fd n) (Res_bytes r bs) (fd_abs t, w')"
      by (intro spec_step.read_fd) (simp add: vfd_read_def VMIR_FD_TYPE_FILEHANDLE_def)
    with r Fd_read assms(1) show ?thesis by simp
  next
    case (Fd_write fd bs)
    obtain r w' where r: "vfd_write fs (t, w) fd bs = (r, w')" by (cases "vfd_write fs (t, w) fd bs")
    from Fd_write assms(3) have "c_fd fd" by simp
    from r get [OF this, where ty = VMIR_FD_TYPE_FILEHANDLE and a = "(-1, w)" and f = "\<lambda>h. fs_write fs w h bs"]
    have "spec_step fs (fd_abs t, w) (Fd_write fd bs) (Res_int r) (fd_abs t, w')"
      by (intro spec_step.write_fd) (simp add: vfd_write_def VMIR_FD_TYPE_FILEHANDLE_def)
    with r Fd_write assms(1) show ?thesis by simp
  next
    case (Fd_seek fd off wh)
    obtain r w' where r: "vfd_seek fs (t, w) fd off wh = (r, w')" by (cases "vfd_seek fs (t, w) fd off wh")
    from Fd_seek assms(3) have "c_fd fd" by simp
    from r get [OF this, where ty = VMIR_FD_TYPE_FILEHANDLE and a = "(-1, w)" and f = "\<lambda>h. fs_seek fs w h off wh"]
    have "spec_step fs (fd_abs t, w) (Fd_seek fd off wh) (Res_int r) (fd_abs t, w')"
      by (intro spec_step.seek_fd) (simp add: vfd_seek_def VMIR_FD_TYPE_FILEHANDLE_def)
    with r Fd_seek assms(1) show ?thesis by simp
  qed
qed

lemma fd_run_refines:
  assumes "fd_ok t" and "length (iu_vfds t) + length ops < 2 ^ 31" and "\<forall>oper \<in> set ops. fd_op_ok oper"
  shows "\<exists>rs t' w'. fd_run fs (t, w) ops = Inr (rs, t', w') \<and> fd_ok t' \<and> spec_run fs (fd_abs t, w) ops rs (fd_abs t', w')"
  using assms
proof (induction ops arbitrary: t w)
  case Nil
  then show ?case by (auto intro: spec_nil)
next
  case (Cons oper ops)
  then have "length (iu_vfds t) < 2 ^ 31 - 1" "fd_op_ok oper" by simp_all
  from fd_step_refines [OF Cons.prems(1) this, of fs w] obtain r t1 w1 where
      s: "fd_step fs (t, w) oper = Inr (r, t1, w1)" "fd_ok t1" "length (iu_vfds t1) \<le> Suc (length (iu_vfds t))"
      "spec_step fs (fd_abs t, w) oper r (fd_abs t1, w1)" by blast
  have "length (iu_vfds t1) + length ops < 2 ^ 31" using s(3) Cons.prems(2) by simp
  from Cons.IH [OF s(2) this, of w1] Cons.prems(3) obtain rs t2 w2 where
      "fd_run fs (t1, w1) ops = Inr (rs, t2, w2)" "fd_ok t2" "spec_run fs (fd_abs t1, w1) ops rs (fd_abs t2, w2)"
    by auto
  with s show ?case by (auto intro: spec_cons)
qed

text \<open>
  C15. From the state \<open>libc_initialize\<close> sets up, every sequence of fewer than \<open>2 ^ 31\<close> operations
  on file descriptors runs without an error and is a run of the map of open files: a new
  descriptor is one that is not in use, an open one keeps its handle until it is closed, \<open>close\<close>
  calls the release function once and does nothing on a descriptor that is not open, and reads,
  writes and seeks reach the host only on open files.
\<close>

theorem fd_table_refines:
  assumes "length ops < 2 ^ 31" and "\<forall>oper \<in> set ops. fd_op_ok oper"
  shows "\<exists>rs t w'. fd_run fs (fd_init, w) ops = Inr (rs, t, w') \<and>
    spec_run fs (\<lambda>_. None, w) ops rs (fd_abs t, w')"
proof -
  have ok: "fd_ok fd_init" unfolding fd_ok_def by (rule exI [of _ "[]"]) (simp add: fd_init_def)
  have e: "fd_abs fd_init = (\<lambda>_. None)" by (rule ext) (simp add: fd_abs_entry fd_init_def)
  have n: "length (iu_vfds fd_init) = 0" by (simp add: fd_init_def)
  from fd_run_refines [OF ok, of ops fs w] assms show ?thesis unfolding e n by auto
qed

definition log_fs :: "u64 list fsops" where
  "log_fs = \<lparr>fs_open = (\<lambda>w path flags. (0, of_nat (length w), w)), fs_close = (\<lambda>w h. h # w),
     fs_read = (\<lambda>w h n. (0, [], w)), fs_write = (\<lambda>w h bs. (int (length bs), w)),
     fs_seek = (\<lambda>w h off wh. (off, w)), fs_user_release = (\<lambda>w k h. w)\<rparr>"

lemma fd_table_refines_witness:
  "\<exists>rs t w'. fd_run log_fs (fd_init, []) [Fd_open [] 1, Fd_create 7 128 None, Fd_close 0, Fd_create 9 2 None, Fd_get 0 2]
      = Inr (rs, t, w') \<and>
    spec_run log_fs (\<lambda>_. None, []) [Fd_open [] 1, Fd_create 7 128 None, Fd_close 0, Fd_create 9 2 None, Fd_get 0 2]
      rs (fd_abs t, w')"
  by (rule fd_table_refines) (simp_all add: c_fd_def)

lemma fd_run_sample:
  "map_option fst (case fd_run log_fs (fd_init, [])
      [Fd_open [] 1, Fd_create 7 128 None, Fd_close 0, Fd_create 9 2 None, Fd_get 0 2] of Inl _ \<Rightarrow> None | Inr x \<Rightarrow> Some x)
    = Some [Res_int 0, Res_int 1, Res_unit, Res_int 0, Res_handle 9]"
  by code_simp

end
