(* ===== verification/Vmir_Libc.thy ===== *)
theory Vmir_Libc
  imports Vmir_Fd "HOL-Library.Char_ord"
begin

text \<open>
  Smaller functions \<open>src/src/vmir_libc.c\<close> serves to the guest: character classes, the mode table
  of \<open>fopen\<close>, \<open>strtok\<close>, the guards of C++ static variables and the allocation of exception
  objects. What ends in a call of the host's own \<open>stdio\<close> is not modelled.
\<close>

section \<open>Characters\<close>

definition ret32 :: "(u32 \<Rightarrow> u32) \<Rightarrow> ext_fun" where
  "ret32 g ret rf st =
     res_bind (vmir_vm_arg32 st rf) (\<lambda>(c, _). res_bind (vmir_vm_ret32 ret (g c) st) (\<lambda>st1. Inr (0, st1)))"

definition vmir_toupper :: ext_fun where
  "vmir_toupper = ret32 (\<lambda>c. if c \<ge> 97 \<and> c \<le> 122 then c - 32 else c)"

definition vmir_tolower :: ext_fun where
  "vmir_tolower = ret32 (\<lambda>c. if c \<ge> 65 \<and> c \<le> 90 then c + 32 else c)"

definition vmir_isprint :: ext_fun where
  "vmir_isprint = ret32 (\<lambda>c. let c = c AND 0x7f in bool32 (c \<ge> 32 \<and> c < 127))"

definition vmir_isdigit :: ext_fun where
  "vmir_isdigit = ret32 (\<lambda>c. bool32 (c \<ge> 48 \<and> c \<le> 57))"

definition vmir_getpid :: ext_fun where
  "vmir_getpid ret rf st = res_bind (vmir_vm_ret32 ret 1 st) (\<lambda>st1. Inr (0, st1))"

section \<open>The modes of \<open>fopen\<close>\<close>

definition modetable :: "(string \<times> u32) list" where
  "modetable =
    [(''r'', VMIR_FS_OPEN_READ),
     (''rb'', VMIR_FS_OPEN_READ),
     (''w'', VMIR_FS_OPEN_WRITE OR VMIR_FS_OPEN_CREATE OR VMIR_FS_OPEN_TRUNC),
     (''wb'', VMIR_FS_OPEN_WRITE OR VMIR_FS_OPEN_CREATE OR VMIR_FS_OPEN_TRUNC),
     (''a'', VMIR_FS_OPEN_WRITE OR VMIR_FS_OPEN_CREATE OR VMIR_FS_OPEN_APPEND),
     (''ab'', VMIR_FS_OPEN_WRITE OR VMIR_FS_OPEN_CREATE OR VMIR_FS_OPEN_APPEND),
     (''r+'', VMIR_FS_OPEN_RW),
     (''rb+'', VMIR_FS_OPEN_RW),
     (''r+b'', VMIR_FS_OPEN_RW),
     (''w+'', VMIR_FS_OPEN_RW OR VMIR_FS_OPEN_CREATE OR VMIR_FS_OPEN_TRUNC),
     (''wb+'', VMIR_FS_OPEN_RW OR VMIR_FS_OPEN_CREATE OR VMIR_FS_OPEN_TRUNC),
     (''w+b'', VMIR_FS_OPEN_RW OR VMIR_FS_OPEN_CREATE OR VMIR_FS_OPEN_TRUNC),
     (''a+'', VMIR_FS_OPEN_RW OR VMIR_FS_OPEN_CREATE OR VMIR_FS_OPEN_APPEND),
     (''b+'', VMIR_FS_OPEN_RW OR VMIR_FS_OPEN_CREATE OR VMIR_FS_OPEN_APPEND),
     (''a+b'', VMIR_FS_OPEN_RW OR VMIR_FS_OPEN_CREATE OR VMIR_FS_OPEN_APPEND)]"

text \<open>The first row with the mode; 0 stands for a mode that is not in the table.\<close>

definition mode_flags :: "string \<Rightarrow> u32" where
  "mode_flags mode = (case map_of modetable mode of None \<Rightarrow> 0 | Some flags \<Rightarrow> flags)"

text \<open>
  \<open>vFILE_open\<close> up to the \<open>FILE\<close> of the host: the descriptor, or -1.
\<close>

definition vFILE_open_desc :: "'w fsops \<Rightarrow> fd_table \<times> 'w \<Rightarrow> u8 list \<Rightarrow> string \<Rightarrow> (int \<times> fd_table \<times> 'w) result" where
  "vFILE_open_desc fs tw path mode =
     (let flags = mode_flags mode in
      if flags = 0 then Inr (-1, tw) else vfd_open fs tw path flags)"

text \<open>The mode \<open>"ab+"\<close>, which C has, is missing: the table has \<open>"b+"\<close> in its place.\<close>

lemma mode_ab_plus_missing: "mode_flags ''ab+'' = 0" "mode_flags ''b+'' = mode_flags ''a+''"
  by code_simp+

section \<open>\<open>strtok\<close>\<close>

text \<open>
  The token at or after \<open>str\<close>; \<open>save\<close> keeps where to go on. The byte after the token is
  overwritten only when it is not the end of the string.
\<close>

definition strtok_from :: "nat \<Rightarrow> nat \<Rightarrow> (nat \<Rightarrow> vm_unit \<Rightarrow> vm_unit) \<Rightarrow> retptr \<Rightarrow> vm_unit \<Rightarrow> (int \<times> vm_unit) vm" where
  "strtok_from str delim save ret st =
     res_bind (cstring st (of_nat str)) (\<lambda>bs.
       res_bind (cstring st (of_nat delim)) (\<lambda>ds.
         let p = length (takeWhile (\<lambda>c. c \<in> set ds) bs);
             tail = drop p bs;
             n = length (takeWhile (\<lambda>c. c \<notin> set ds) tail)
         in if tail = [] then res_bind (vmir_vm_ret32 ret 0 st) (\<lambda>st1. Inr (0, st1))
            else let e = str + p + n;
                     (st1, nxt) = (if n < length tail then (st\<lparr>iu_mem := mem_wr8 (iu_mem st) e 0\<rparr>, e + 1) else (st, e))
                 in res_bind (vmir_vm_retptr ret (Some (str + p)) (save nxt st1)) (\<lambda>st2. Inr (0, st2))))"

text \<open>
  \<open>vmir_vm_ptr\<close> adds \<open>iu_mem\<close> to the guest's pointer and so never yields NULL; the test for it
  is kept as the source has it.
\<close>

definition vmir_strtok_r :: ext_fun where
  "vmir_strtok_r ret rf st =
     res_bind (vmir_vm_ptr st rf) (\<lambda>(s, rf1).
       res_bind (vmir_vm_ptr st rf1) (\<lambda>(delim, rf2).
         res_bind (vmir_vm_arg32 st rf2) (\<lambda>(nextp, _).
           case (case Some s of None \<Rightarrow> mem_rdptr (iu_mem st) nextp | Some q \<Rightarrow> Some q) of
             None \<Rightarrow> Inl Ub
           | Some str \<Rightarrow>
               strtok_from str delim (\<lambda>q st. st\<lparr>iu_mem := mem_wrptr (iu_mem st) nextp (Some q)\<rparr>) ret st)))"

text \<open>A call that is to go on with a string passes 0, and gets the first token at address 0.\<close>

lemma strtok_r_restarts_at_zero:
  assumes "vmir_vm_ptr st rf = Inr (0, rf1)" and "vmir_vm_ptr st rf1 = Inr (delim, rf2)"
    and "vmir_vm_arg32 st rf2 = Inr (nextp, rf3)"
  shows "vmir_strtok_r ret rf st =
    strtok_from 0 delim (\<lambda>q st. st\<lparr>iu_mem := mem_wrptr (iu_mem st) nextp (Some q)\<rparr>) ret st"
  using assms by (simp add: vmir_strtok_r_def)

section \<open>C++ support\<close>

definition vmir_cxa_guard_acquire :: ext_fun where
  "vmir_cxa_guard_acquire ret rf st =
     res_bind (vmir_vm_ptr st rf) (\<lambda>(p, _).
       if p < iu_memsize st then
         (let fresh = iu_mem st p = 0;
              st1 = (if fresh then st\<lparr>iu_mem := mem_wr8 (iu_mem st) p 1\<rparr> else st)
          in res_bind (vmir_vm_ret32 ret (if fresh then 1 else 0) st1) (\<lambda>st2. Inr (0, st2)))
       else Inl Ub)"

definition vmir_llvm_eh_typeid_for :: ext_fun where
  "vmir_llvm_eh_typeid_for = ret32 (\<lambda>c. c)"

definition sizeof_cxx_exception :: u32 where
  "sizeof_cxx_exception = 12"

text \<open>The \<open>memset\<close> after an allocation that failed is undefined.\<close>

definition vmir_cxa_allocate_exception :: heap_fun where
  "vmir_cxa_allocate_exception ret rf = (\<lambda>(st, h).
     res_bind (in_vm (vmir_vm_arg32 st rf)) (\<lambda>(sz, _).
       res_bind (in_libc (vmir_heap_malloc h (sint (sz + sizeof_cxx_exception)))) (\<lambda>(p, h1).
         case p of None \<Rightarrow> Inl (Libc_error Undefined_behaviour)
         | Some a \<Rightarrow>
             res_bind (in_vm (c_memset st (word_of_int a) 0 (unat sizeof_cxx_exception))) (\<lambda>st1.
               res_bind (in_vm (vmir_vm_retptr ret (Some (nat a + unat sizeof_cxx_exception)) st1)) (\<lambda>st2.
                 Inr (0, st2, h1))))))"

definition vmir_cxa_free_exception :: heap_fun where
  "vmir_cxa_free_exception ret rf = (\<lambda>(st, h).
     res_bind (in_vm (vmir_vm_arg32 st rf)) (\<lambda>(x, _).
       res_bind (in_libc (vmir_heap_free h (Some (uint (x - sizeof_cxx_exception))))) (\<lambda>h1. Inr (0, st, h1))))"

text \<open>A static variable is initialised once: the guard is granted to the first caller only.\<close>

lemma guard_granted_once:
  assumes "vmir_vm_ptr st rf = Inr (p, rf1)" and "p < iu_memsize st"
    and "vmir_cxa_guard_acquire RetOut rf st = Inr (r, st1)"
  shows "iu_mem st1 p \<noteq> 0" and "mem_rd32 (iu_out st1) 0 = (if iu_mem st p = 0 then 1 else 0)"
  using assms
  by (auto simp: vmir_cxa_guard_acquire_def Let_def vmir_vm_ret32_def ret_write_def mem_wr8_def
      m32.rd_wr split: if_splits)

end
