(* ===== verification/Vmir_Emit.thy ===== *)
theory Vmir_Emit
  imports Vmir_Value Vmir_VM
begin

text \<open>
  Code generation, \<open>src/src/vmir_vm.c\<close>: how an instruction becomes code of the virtual machine.
  This theory has the text buffer, and the instructions that do not transfer control;
  \<open>Vmir_Emit_Flow\<close> has branches, calls and whole functions.

  The text buffer is memory with a write position. \<open>emit_i8\<close> advances by two and leaves the byte
  after the operand as it was. Operation codes are numbers here, since the source computes
  them by adding the operation or the predicate of an instruction to the first member of a
  family; \<open>vm_resolve\<close> is the identity on them (the build without computed gotos). Addresses are
  relative to the buffer, which \<open>malloc\<close> aligns.

  The structs of \<open>src/src/vmir_instr_parse.c\<close> are records without the links of the instruction
  graph. A value is dereferenced when it is looked up.
\<close>

section \<open>Instructions\<close>

record ir_valuetype =
  vt_value :: int
  vt_type :: u32

text \<open>\<open>ii_ret\<close> and, for several results, \<open>ii_rets\<close>.\<close>

record ir_super =
  ii_ret :: ir_valuetype
  ii_rets :: "ir_valuetype list"

record ir_instr_unary =
  iun_super :: ir_super
  iun_value :: ir_valuetype
  iun_op :: nat

record ir_instr_binary =
  ibi_super :: ir_super
  ibi_op :: nat
  ibi_lhs :: ir_valuetype
  ibi_rhs :: ir_valuetype

record ir_instr_ternary =
  ite_super :: ir_super
  ite_arg1 :: ir_valuetype
  ite_arg2 :: ir_valuetype
  ite_arg3 :: ir_valuetype

record ir_instr_load =
  ild_super :: ir_super
  ild_ptr :: ir_valuetype
  ild_immediate_offset :: int
  ild_value_offset :: ir_valuetype
  ild_value_offset_multiply :: int
  ild_cast :: int
  ild_load_type :: u32

record ir_instr_store =
  ist_ptr :: ir_valuetype
  ist_value :: ir_valuetype
  ist_immediate_offset :: int

record ir_instr_lea =
  ile_super :: ir_super
  ile_baseptr :: ir_valuetype
  ile_immediate_offset :: int
  ile_value_offset :: ir_valuetype
  ile_value_offset_multiply :: int

record ir_instr_alloca =
  ial_super :: ir_super
  ial_size :: int
  ial_num_items :: ir_valuetype
  ial_alignment :: int

record ir_instr_select =
  ise_super :: ir_super
  ise_true :: ir_valuetype
  ise_false :: ir_valuetype
  ise_pred :: ir_valuetype

record ir_instr_move =
  imo_super :: ir_super
  imo_value :: ir_valuetype

record ir_instr_stackcopy =
  isc_super :: ir_super
  isc_value :: ir_valuetype
  isc_size :: int

record ir_instr_cmp_select =
  ics_super :: ir_super
  ics_op :: nat
  ics_lhs :: ir_valuetype
  ics_rhs :: ir_valuetype
  ics_true :: ir_valuetype
  ics_false :: ir_valuetype

section \<open>The text buffer\<close>

record emitter =
  em_text :: vmem
  em_ptr :: nat
  em_size :: nat
  em_fixups :: "nat list"

type_synonym emission = "emitter \<Rightarrow> emitter result"

definition emit_cell :: "nat \<Rightarrow> nat \<Rightarrow> (vmem \<Rightarrow> nat \<Rightarrow> 'v \<Rightarrow> vmem) \<Rightarrow> 'v \<Rightarrow> emission" where
  "emit_cell room adv wr v e =
     (if em_size e \<le> em_ptr e + room then Inl (Parser_error ''Function too big'')
      else Inr (e\<lparr>em_text := wr (em_text e) (em_ptr e) v, em_ptr := em_ptr e + adv\<rparr>))"

definition emit_i16 :: "u16 \<Rightarrow> emission" where
  "emit_i16 = emit_cell 2 2 mem_wr16"

definition emit_i8 :: "u8 \<Rightarrow> emission" where
  "emit_i8 = emit_cell 2 2 mem_wr8"

definition emit_i32 :: "u32 \<Rightarrow> emission" where
  "emit_i32 = emit_cell 4 4 mem_wr32"

definition emit_i64 :: "u64 \<Rightarrow> emission" where
  "emit_i64 = emit_cell 8 8 mem_wr64"

text \<open>The position of the reserved bytes, and the buffer.\<close>

definition emit_data :: "nat \<Rightarrow> emitter \<Rightarrow> (nat \<times> emitter) result" where
  "emit_data sz e =
     (if em_size e \<le> em_ptr e + sz then Inl (Parser_error ''Function too big'')
      else Inr (em_ptr e, e\<lparr>em_ptr := em_ptr e + sz\<rparr>))"

fun em_all :: "emission list \<Rightarrow> emission" where
  "em_all [] e = Inr e"
| "em_all (x # xs) e = res_bind (x e) (em_all xs)"

definition emit_opn :: "nat \<Rightarrow> emission" where
  "emit_opn n = emit_i16 (of_nat n)"

definition emit_op :: "vm_op \<Rightarrow> emission" where
  "emit_op op = emit_opn (vm_op_num op)"

definition emit_op1 :: "vm_op \<Rightarrow> u16 \<Rightarrow> emission" where
  "emit_op1 op a = em_all [emit_op op, emit_i16 a]"

text \<open>\<open>emit_op2\<close>, \<open>emit_op3\<close> and \<open>emit_op4\<close> differ in the number of operands only.\<close>

definition emit_ops :: "nat \<Rightarrow> u16 list \<Rightarrow> emission" where
  "emit_ops n args = em_all (emit_opn n # map emit_i16 args)"

definition vm_align32 :: "bool \<Rightarrow> emission" where
  "vm_align32 imm_at_odd e =
     (if imm_at_odd \<noteq> odd (em_ptr e div 2) then emit_op (VM_FLOW NOP) e else Inr e)"

section \<open>Operands\<close>

abbreviation iu_tys :: "ir_unit \<Rightarrow> types" where
  "iu_tys iu \<equiv> iu_types (iu_ts iu)"

definition vt_at :: "ir_unit \<Rightarrow> ir_valuetype \<Rightarrow> ir_value result" where
  "vt_at iu vt = value_at iu (word_of_int (vt_value vt))"

definition vt_code :: "ir_unit \<Rightarrow> ir_valuetype \<Rightarrow> ir_type_code result" where
  "vt_code iu vt = res_bind (type_get (iu_tys iu) (vt_type vt)) (\<lambda>it. Inr (legalize_type it))"

definition ret_at :: "ir_unit \<Rightarrow> ir_super \<Rightarrow> ir_value result" where
  "ret_at iu s = vt_at iu (ii_ret s)"

definition is_reg :: "ir_value \<Rightarrow> bool" where
  "is_reg iv = (case iv_class iv of Vc_regframe _ \<Rightarrow> True | _ \<Rightarrow> False)"

definition is_const :: "ir_value \<Rightarrow> bool" where
  "is_const iv = (case iv_class iv of Vc_constant _ \<Rightarrow> True | _ \<Rightarrow> False)"

definition is_gvar :: "ir_value \<Rightarrow> bool" where
  "is_gvar iv = (case iv_class iv of Vc_globalvar _ \<Rightarrow> True | _ \<Rightarrow> False)"

definition is_func :: "ir_value \<Rightarrow> bool" where
  "is_func iv = (case iv_class iv of Vc_function _ \<Rightarrow> True | _ \<Rightarrow> False)"

lemma class_simps [simp]:
  "iv_class iv = Vc_regframe r \<Longrightarrow> is_reg iv" "iv_class iv = Vc_constant c \<Longrightarrow> \<not> is_reg iv"
  "iv_class iv = Vc_constant c \<Longrightarrow> is_const iv" "iv_class iv = Vc_regframe r \<Longrightarrow> \<not> is_const iv"
  "iv_class iv = Vc_regframe r \<Longrightarrow> \<not> is_gvar iv" "iv_class iv = Vc_constant c \<Longrightarrow> \<not> is_gvar iv"
  by (simp_all add: is_reg_def is_const_def is_gvar_def)

text \<open>Registers are \<open>int\<close> offsets passed as \<open>uint16_t\<close>.\<close>

definition reg16 :: "ir_value \<Rightarrow> u16 result" where
  "reg16 iv = res_bind (value_reg iv) (\<lambda>r. Inr (ucast r))"

fun regs16 :: "ir_value list \<Rightarrow> u16 list result" where
  "regs16 [] = Inr []"
| "regs16 (v # vs) = res_bind (reg16 v) (\<lambda>r. res_bind (regs16 vs) (\<lambda>rs. Inr (r # rs)))"

definition emit_op_regs :: "nat \<Rightarrow> ir_value list \<Rightarrow> emission" where
  "emit_op_regs n vs e = res_bind (regs16 vs) (\<lambda>rs. emit_ops n rs e)"

definition emit_reg :: "ir_value \<Rightarrow> emission" where
  "emit_reg iv e = res_bind (reg16 iv) (\<lambda>r. emit_i16 r e)"

definition emit_c8 :: "ir_unit \<Rightarrow> ir_value \<Rightarrow> emission" where
  "emit_c8 iu iv e = res_bind (value_get_const32 (iu_tys iu) iv) (\<lambda>c. emit_i8 (ucast c) e)"

definition emit_c16 :: "ir_unit \<Rightarrow> ir_value \<Rightarrow> emission" where
  "emit_c16 iu iv e = res_bind (value_get_const32 (iu_tys iu) iv) (\<lambda>c. emit_i16 (ucast c) e)"

definition emit_c32 :: "ir_unit \<Rightarrow> ir_value \<Rightarrow> emission" where
  "emit_c32 iu iv e = res_bind (value_get_const32 (iu_tys iu) iv) (\<lambda>c. emit_i32 c e)"

definition emit_c64 :: "ir_unit \<Rightarrow> ir_value \<Rightarrow> emission" where
  "emit_c64 iu iv e = res_bind (value_get_const64 (iu_tys iu) iv) (\<lambda>c. emit_i64 c e)"

definition emit_faddr :: "ir_value \<Rightarrow> emission" where
  "emit_faddr iv e = res_bind (value_function_addr iv) (\<lambda>a. emit_i32 a e)"

definition cannot :: "string \<Rightarrow> emission" where
  "cannot msg e = Inl (Parser_error msg)"

abbreviation small_types :: "ir_type_code set" where
  "small_types \<equiv> {IR_TYPE_INT1, IR_TYPE_INT8, IR_TYPE_INT16, IR_TYPE_INT32, IR_TYPE_POINTER, IR_TYPE_FLOAT}"

abbreviation word_types :: "ir_type_code set" where
  "word_types \<equiv> {IR_TYPE_INT32, IR_TYPE_POINTER, IR_TYPE_FLOAT}"

abbreviation wide_types :: "ir_type_code set" where
  "wide_types \<equiv> {IR_TYPE_INT64, IR_TYPE_DOUBLE}"

section \<open>Return\<close>

definition emit_ret :: "ir_unit \<Rightarrow> ir_instr_unary \<Rightarrow> emission" where
  "emit_ret iu ii e =
     (if vt_value (iun_value ii) = -1 then emit_op (VM_RET RET_VOID) e
      else res_bind (vt_at iu (iun_value ii)) (\<lambda>iv. res_bind (vt_code iu (iun_value ii)) (\<lambda>code.
        if is_reg iv then
          if code \<in> small_types then emit_op_regs (vm_op_num (VM_RET RET_R32)) [iv] e
          else if code \<in> wide_types then emit_op_regs (vm_op_num (VM_RET RET_R64)) [iv] e
          else cannot ''Can't return type'' e
        else if is_gvar iv then
          if code = IR_TYPE_POINTER then em_all [emit_op (VM_RET RET_R32C), emit_c32 iu iv] e
          else cannot ''Can't return global type'' e
        else if is_const iv then
          if code \<in> small_types then em_all [emit_op (VM_RET RET_R32C), emit_c32 iu iv] e
          else if code \<in> wide_types
          then em_all [vm_align32 True, emit_op (VM_RET RET_R64C), emit_c64 iu iv] e
          else cannot ''Can't return const type'' e
        else if is_func iv then em_all [emit_op (VM_RET RET_R32C), emit_faddr iv] e
        else cannot ''Can't return value class'' e)))"

section \<open>Binary operations\<close>

definition narrow_op :: "(narrow \<Rightarrow> vm_op) \<Rightarrow> nat \<Rightarrow> vm_op option" where
  "narrow_op R op =
     (if op = BINOP SDIV then Some (R NSDIV) else if op = BINOP SREM then Some (R NSREM)
      else if op = BINOP ASHR then Some (R NASHR) else None)"

definition float_op :: "nat \<Rightarrow> farith option" where
  "float_op op =
     (if op = BINOP ADD then Some FADD else if op = BINOP SUB then Some FSUB
      else if op = BINOP MUL then Some FMUL
      else if op = BINOP SDIV \<or> op = BINOP UDIV then Some FDIV else None)"

definition emit_binop_rr :: "nat \<Rightarrow> ir_type_code \<Rightarrow> ir_value list \<Rightarrow> emission" where
  "emit_binop_rr op code vs =
     (let r32 = vm_op_num (VM_R32 ADD) + op in
      if code \<in> {IR_TYPE_INT1, IR_TYPE_INT32} then emit_op_regs r32 vs
      else if code = IR_TYPE_INT8
      then emit_op_regs (case narrow_op VM_R8 op of Some n \<Rightarrow> vm_op_num n | None \<Rightarrow> r32) vs
      else if code = IR_TYPE_INT16
      then emit_op_regs (case narrow_op VM_R16 op of Some n \<Rightarrow> vm_op_num n | None \<Rightarrow> r32) vs
      else if code = IR_TYPE_INT64 then emit_op_regs (vm_op_num (VM_R64 ADD) + op) vs
      else if code = IR_TYPE_DOUBLE then
        (case float_op op of None \<Rightarrow> cannot ''Can't binop for double''
         | Some a \<Rightarrow> emit_op_regs (vm_op_num (VM_FARITH DBL a)) vs)
      else if code = IR_TYPE_FLOAT then
        (case float_op op of None \<Rightarrow> cannot ''Can't binop for float''
         | Some a \<Rightarrow> emit_op_regs (vm_op_num (VM_FARITH FLT a)) vs)
      else cannot ''Can't binop types'')"

definition emit_binop_rc :: "ir_unit \<Rightarrow> nat \<Rightarrow> ir_type_code \<Rightarrow> ir_value \<Rightarrow> ir_value \<Rightarrow> ir_value \<Rightarrow> emission" where
  "emit_binop_rc iu op code ret lhs rhs =
     (if code = IR_TYPE_INT8 then
        (case narrow_op VM_R8C op of
           Some n \<Rightarrow> em_all [emit_op_regs (vm_op_num n) [ret, lhs], emit_c8 iu rhs]
         | None \<Rightarrow> em_all [emit_op_regs (vm_op_num (VM_R16C ADD) + op) [ret, lhs],
             (\<lambda>e. res_bind (value_get_const32 (iu_tys iu) rhs) (\<lambda>c. emit_i16 (ucast (c AND 0xff)) e))])
      else if code = IR_TYPE_INT16 then
        em_all [emit_op_regs (vm_op_num (VM_R16C ADD) + op) [ret, lhs], emit_c16 iu rhs]
      else if code \<in> {IR_TYPE_INT1, IR_TYPE_INT32} then
        (\<lambda>e. res_bind (value_get_const32 (iu_tys iu) rhs) (\<lambda>u32.
           if op = BINOP ADD \<and> u32 = 1 \<or> op = BINOP SUB \<and> u32 = - 1
           then emit_op_regs (vm_op_num (VM_MISC INC_R32)) [ret, lhs] e
           else if op = BINOP ADD \<and> u32 = - 1 \<or> op = BINOP SUB \<and> u32 = 1
           then emit_op_regs (vm_op_num (VM_MISC DEC_R32)) [ret, lhs] e
           else em_all [emit_op_regs (vm_op_num (VM_R32C ADD) + op) [ret, lhs], emit_c32 iu rhs] e))
      else if code = IR_TYPE_INT64 then
        em_all [vm_align32 True, emit_op_regs (vm_op_num (VM_R64C ADD) + op) [ret, lhs], emit_c64 iu rhs]
      else if code = IR_TYPE_DOUBLE then
        (case float_op op of None \<Rightarrow> cannot ''Can't binop for double''
         | Some a \<Rightarrow> em_all [vm_align32 True, emit_op_regs (vm_op_num (VM_FARITH DBLC a)) [ret, lhs], emit_c64 iu rhs])
      else if code = IR_TYPE_FLOAT then
        (case float_op op of None \<Rightarrow> cannot ''Can't binop for float''
         | Some a \<Rightarrow> em_all [vm_align32 True, emit_op_regs (vm_op_num (VM_FARITH FLTC a)) [ret, lhs], emit_c32 iu rhs])
      else cannot ''Can't binop types'')"

definition emit_binop :: "ir_unit \<Rightarrow> ir_instr_binary \<Rightarrow> emission" where
  "emit_binop iu ii e =
     res_bind (vt_at iu (ibi_lhs ii)) (\<lambda>lhs. res_bind (vt_at iu (ibi_rhs ii)) (\<lambda>rhs.
     res_bind (ret_at iu (ibi_super ii)) (\<lambda>ret. res_bind (vt_code iu (ibi_lhs ii)) (\<lambda>code.
       if is_reg lhs \<and> is_reg rhs then emit_binop_rr (ibi_op ii) code [ret, lhs, rhs] e
       else if is_reg lhs \<and> is_const rhs then emit_binop_rc iu (ibi_op ii) code ret lhs rhs e
       else cannot ''Can't binop value class'' e))))"

section \<open>Loads\<close>

definition load_op :: "ir_type_code \<Rightarrow> lnmode \<Rightarrow> lwmode \<Rightarrow> nat option" where
  "load_op code m wm =
     (if code = IR_TYPE_INT8 then Some (vm_op_num (VM_LOADN W8 m))
      else if code = IR_TYPE_INT16 then Some (vm_op_num (VM_LOADN W16 m))
      else if code \<in> word_types then Some (vm_op_num (VM_LOADW W32 wm))
      else if code \<in> wide_types then Some (vm_op_num (VM_LOADW W64 wm))
      else None)"

text \<open>The operands of a register offset.\<close>

definition roff_tail :: "ir_value option \<Rightarrow> int \<Rightarrow> emission list" where
  "roff_tail roff mul =
     (case roff of None \<Rightarrow> [] | Some r \<Rightarrow> [emit_reg r, emit_i16 (word_of_int mul)])"

definition emit_load1 :: "ir_unit \<Rightarrow> ir_value \<Rightarrow> ir_value \<Rightarrow> ir_type_code \<Rightarrow> ir_value option \<Rightarrow> int \<Rightarrow> int \<Rightarrow> emission" where
  "emit_load1 iu src ret code roff ioff mul e =
     (let has_offset = (ioff \<noteq> 0 \<or> roff \<noteq> None) in
      res_bind (c_assert (- 32768 \<le> ioff \<and> ioff \<le> 32767)) (\<lambda>_.
        if is_reg src \<and> \<not> has_offset then
          (case load_op (if code = IR_TYPE_INT1 then IR_TYPE_INT8 else code) LN LW of
             Some n \<Rightarrow> emit_op_regs n [ret, src] e | None \<Rightarrow> cannot ''Can't load'' e)
        else if is_reg src then
          (case load_op code (if roff = None then LN_OFF else LN_ROFF) (if roff = None then LW_OFF else LW_ROFF) of
             Some n \<Rightarrow> em_all ([emit_op_regs n [ret, src], emit_i16 (word_of_int ioff)] @ roff_tail roff mul) e
           | None \<Rightarrow> cannot ''Can't load'' e)
        else if (is_const src \<or> is_gvar src) \<and> \<not> has_offset then
          if code = IR_TYPE_INT1 then
            em_all [emit_ops (vm_op_num (VM_LOADN W8 LN_G)) [0], emit_c32 iu src,
              (\<lambda>e. res_bind (reg16 ret) (\<lambda>r. emit_ops (vm_op_num (VM_CAST (TO8 CAST_1_TRUNC_8))) [r, 0] e))] e
          else
            (case load_op code LN_G LW_G of
               Some n \<Rightarrow> em_all [emit_op_regs n [ret], emit_c32 iu src] e | None \<Rightarrow> cannot ''Can't load'' e)
        else cannot ''Can't load'' e))"

definition CAST_ZEXT :: int where "CAST_ZEXT = 1"
definition CAST_SEXT :: int where "CAST_SEXT = 2"

definition load_cast_op :: "ir_type_code \<Rightarrow> ir_type_code \<Rightarrow> int \<Rightarrow> bool \<Rightarrow> nat option" where
  "load_cast_op dst src c roff =
     (if dst = IR_TYPE_INT32 \<and> src \<in> {IR_TYPE_INT8, IR_TYPE_INT16} \<and> c \<in> {CAST_ZEXT, CAST_SEXT}
      then Some (vm_op_num (VM_LOADN (if src = IR_TYPE_INT8 then W8 else W16)
             (if c = CAST_ZEXT then (if roff then LN_ZEXT_32_ROFF else LN_ZEXT_32_OFF)
              else (if roff then LN_SEXT_32_ROFF else LN_SEXT_32_OFF))))
      else None)"

definition emit_load :: "ir_unit \<Rightarrow> ir_instr_load \<Rightarrow> emission" where
  "emit_load iu ii e =
     res_bind (vt_at iu (ild_ptr ii)) (\<lambda>src.
     res_bind (if 0 \<le> vt_value (ild_value_offset ii) then res_bind (vt_at iu (ild_value_offset ii)) (\<lambda>r. Inr (Some r))
               else Inr None) (\<lambda>roff.
     res_bind (ret_at iu (ild_super ii)) (\<lambda>ret. res_bind (vt_code iu (ii_ret (ild_super ii))) (\<lambda>code.
       if ild_cast ii \<noteq> -1 then
         res_bind (type_get (iu_tys iu) (ild_load_type ii)) (\<lambda>pointee.
         res_bind (c_assert (is_reg src)) (\<lambda>_.
           case load_cast_op code (legalize_type pointee) (ild_cast ii) (roff \<noteq> None) of
             None \<Rightarrow> cannot ''Can't load+cast'' e
           | Some n \<Rightarrow> em_all ([emit_op_regs n [ret, src], emit_i16 (word_of_int (ild_immediate_offset ii))] @
               roff_tail roff (ild_value_offset_multiply ii)) e))
       else emit_load1 iu src ret code roff (ild_immediate_offset ii) (ild_value_offset_multiply ii) e))))"

section \<open>Stores\<close>

text \<open>A value of register 0 is a scratch register.\<close>

definition emit_store8 :: "ir_unit \<Rightarrow> bool \<Rightarrow> ir_value \<Rightarrow> ir_value \<Rightarrow> int \<Rightarrow> emission" where
  "emit_store8 iu bit1 val ptr ioff =
     (if is_reg val \<and> is_reg ptr \<and> \<not> bit1 \<and> ioff = 0 then emit_op_regs (vm_op_num (VM_STORE (Narrow W8) ST)) [ptr, val]
      else if is_reg val \<and> is_reg ptr \<and> \<not> bit1 then
        em_all [emit_op_regs (vm_op_num (VM_STORE (Narrow W8) ST_OFF)) [ptr, val], emit_i16 (word_of_int ioff)]
      else if is_reg val \<and> (is_gvar ptr \<or> is_const ptr \<and> \<not> bit1) \<and> ioff = 0 then
        em_all [emit_op_regs (vm_op_num (VM_STORE (Narrow W8) ST_G)) [val], emit_c32 iu ptr]
      else if is_const val \<and> (is_gvar ptr \<or> is_const ptr \<and> \<not> bit1) \<and> ioff = 0 then
        em_all [emit_op1 (VM_MOV MOV8_C) 0, emit_c8 iu val, emit_op1 (VM_STORE (Narrow W8) ST_G) 0, emit_c32 iu ptr]
      else if is_const val \<and> is_reg ptr then
        em_all [emit_op_regs (vm_op_num (VM_STORE (Narrow W8) ST_C_OFF)) [ptr], emit_i16 (word_of_int ioff), emit_c8 iu val]
      else cannot ''Can't store'')"

definition emit_store16 :: "ir_unit \<Rightarrow> ir_value \<Rightarrow> ir_value \<Rightarrow> int \<Rightarrow> emission" where
  "emit_store16 iu val ptr ioff =
     (if is_reg val \<and> is_reg ptr \<and> ioff = 0 then emit_op_regs (vm_op_num (VM_STORE (Narrow W16) ST)) [ptr, val]
      else if is_reg val \<and> (is_const ptr \<or> is_gvar ptr) \<and> ioff = 0 then
        em_all [emit_op_regs (vm_op_num (VM_STORE (Narrow W16) ST_G)) [val], emit_c32 iu ptr]
      else if is_reg val \<and> is_reg ptr then
        em_all [emit_op_regs (vm_op_num (VM_STORE (Narrow W16) ST_OFF)) [ptr, val], emit_i16 (word_of_int ioff)]
      else if is_const val \<and> is_reg ptr then
        em_all [emit_op_regs (vm_op_num (VM_STORE (Narrow W16) ST_C_OFF)) [ptr], emit_i16 (word_of_int ioff), emit_c16 iu val]
      else if is_const val \<and> (is_gvar ptr \<or> is_const ptr) \<and> ioff = 0 then
        em_all [emit_op1 (VM_MOV MOV16_C) 0, emit_c16 iu val, emit_op1 (VM_STORE (Narrow W16) ST_G) 0, emit_c32 iu ptr]
      else cannot ''Can't store'')"

definition emit_store32 :: "ir_unit \<Rightarrow> bool \<Rightarrow> ir_value \<Rightarrow> ir_value \<Rightarrow> int \<Rightarrow> emission" where
  "emit_store32 iu pointer val ptr ioff =
     (if is_reg val \<and> (is_gvar ptr \<or> is_const ptr) \<and> ioff = 0 then
        em_all [emit_op_regs (vm_op_num (VM_STORE (Wide W32) ST_G)) [val], emit_c32 iu ptr]
      else if (is_const val \<or> is_gvar val \<and> pointer) \<and> (is_gvar ptr \<or> is_const ptr) \<and> ioff = 0 then
        em_all [emit_op1 (VM_MOV MOV32_C) 0, emit_c32 iu val, emit_op1 (VM_STORE (Wide W32) ST_G) 0, emit_c32 iu ptr]
      else if (is_const val \<or> is_gvar val) \<and> is_reg ptr then
        em_all [emit_op_regs (vm_op_num (VM_STORE (Wide W32) ST_C_OFF)) [ptr], emit_i16 (word_of_int ioff), emit_c32 iu val]
      else if is_reg val \<and> is_reg ptr \<and> ioff \<noteq> 0 then
        em_all [emit_op_regs (vm_op_num (VM_STORE (Wide W32) ST_OFF)) [ptr, val], emit_i16 (word_of_int ioff)]
      else if is_reg val \<and> is_reg ptr then emit_op_regs (vm_op_num (VM_STORE (Wide W32) ST)) [ptr, val]
      else cannot ''Can't store'')"

definition emit_store64 :: "ir_unit \<Rightarrow> ir_value \<Rightarrow> ir_value \<Rightarrow> int \<Rightarrow> emission" where
  "emit_store64 iu val ptr ioff =
     (if is_reg val \<and> (is_gvar ptr \<or> is_const ptr) \<and> ioff = 0 then
        em_all [emit_op_regs (vm_op_num (VM_STORE (Wide W64) ST_G)) [val], emit_c32 iu ptr]
      else if is_const val \<and> (is_gvar ptr \<or> is_const ptr) \<and> ioff = 0 then
        em_all [vm_align32 False, emit_op1 (VM_MOV MOV64_C) 0, emit_c64 iu val,
          emit_op1 (VM_STORE (Wide W64) ST_G) 0, emit_c32 iu ptr]
      else if is_const val \<and> is_reg ptr then
        em_all [vm_align32 True, emit_op_regs (vm_op_num (VM_STORE (Wide W64) ST_C_OFF)) [ptr],
          emit_i16 (word_of_int ioff), emit_c64 iu val]
      else if is_reg val \<and> is_reg ptr \<and> ioff \<noteq> 0 then
        em_all [emit_op_regs (vm_op_num (VM_STORE (Wide W64) ST_OFF)) [ptr, val], emit_i16 (word_of_int ioff)]
      else if is_reg val \<and> is_reg ptr then emit_op_regs (vm_op_num (VM_STORE (Wide W64) ST)) [ptr, val]
      else cannot ''Can't store'')"

definition emit_store_function :: "ir_unit \<Rightarrow> ir_value \<Rightarrow> ir_value \<Rightarrow> int \<Rightarrow> emission" where
  "emit_store_function iu val ptr ioff =
     (if is_func val \<and> is_reg ptr then
        em_all [emit_op_regs (vm_op_num (VM_STORE (Wide W32) ST_C_OFF)) [ptr], emit_i16 (word_of_int ioff), emit_faddr val]
      else if is_func val \<and> (is_gvar ptr \<or> is_const ptr) \<and> ioff = 0 then
        em_all [emit_op1 (VM_MOV MOV32_C) 0, emit_faddr val, emit_op1 (VM_STORE (Wide W32) ST_G) 0, emit_c32 iu ptr]
      else cannot ''Can't store'')"

definition emit_store :: "ir_unit \<Rightarrow> ir_instr_store \<Rightarrow> emission" where
  "emit_store iu ii e =
     res_bind (vt_at iu (ist_ptr ii)) (\<lambda>ptr. res_bind (vt_at iu (ist_value ii)) (\<lambda>val.
       let ioff = ist_immediate_offset ii in
       res_bind (c_assert (- 32768 \<le> ioff \<and> ioff \<le> 32767)) (\<lambda>_.
       res_bind (vt_code iu (ist_value ii)) (\<lambda>code.
         if code \<in> {IR_TYPE_INT1, IR_TYPE_INT8} then emit_store8 iu (code = IR_TYPE_INT1) val ptr ioff e
         else if code = IR_TYPE_INT16 then emit_store16 iu val ptr ioff e
         else if code \<in> word_types then emit_store32 iu (code = IR_TYPE_POINTER) val ptr ioff e
         else if code \<in> wide_types then emit_store64 iu val ptr ioff e
         else if code = IR_TYPE_FUNCTION then emit_store_function iu val ptr ioff e
         else cannot ''Can't store'' e))))"

section \<open>Compares\<close>

text \<open>\<open>abort\<close> on a number that is no predicate.\<close>

definition swap_pred :: "nat \<Rightarrow> nat result" where
  "swap_pred pred =
     (if pred \<in> {ICMP EQ, ICMP NE} then Inr pred
      else if pred = ICMP SGT then Inr (ICMP SLT) else if pred = ICMP SLT then Inr (ICMP SGT)
      else if pred = ICMP SGE then Inr (ICMP SLE) else if pred = ICMP SLE then Inr (ICMP SGE)
      else if pred = ICMP UGT then Inr (ICMP ULT) else if pred = ICMP ULT then Inr (ICMP UGT)
      else if pred = ICMP UGE then Inr (ICMP ULE) else if pred = ICMP ULE then Inr (ICMP UGE)
      else if pred \<in> {0, 15, FCMP FOEQ, FCMP FONE, FCMP FUEQ, FCMP FUNE, FCMP FORD, FCMP FUNO} then Inr pred
      else if pred = FCMP FOGT then Inr (FCMP FOLT) else if pred = FCMP FOLT then Inr (FCMP FOGT)
      else if pred = FCMP FOGE then Inr (FCMP FOLE) else if pred = FCMP FOLE then Inr (FCMP FOGE)
      else if pred = FCMP FUGT then Inr (FCMP FULT) else if pred = FCMP FULT then Inr (FCMP FUGT)
      else if pred = FCMP FUGE then Inr (FCMP FULE) else if pred = FCMP FULE then Inr (FCMP FUGE)
      else Inl Assertion_failed)"

definition invert_pred :: "nat \<Rightarrow> nat result" where
  "invert_pred pred =
     (if pred = ICMP EQ then Inr (ICMP NE) else if pred = ICMP NE then Inr (ICMP EQ)
      else if pred = ICMP UGT then Inr (ICMP ULE) else if pred = ICMP ULT then Inr (ICMP UGE)
      else if pred = ICMP UGE then Inr (ICMP ULT) else if pred = ICMP ULE then Inr (ICMP UGT)
      else if pred = ICMP SGT then Inr (ICMP SLE) else if pred = ICMP SLT then Inr (ICMP SGE)
      else if pred = ICMP SGE then Inr (ICMP SLT) else if pred = ICMP SLE then Inr (ICMP SGT)
      else if pred = FCMP FOEQ then Inr (FCMP FUNE) else if pred = FCMP FONE then Inr (FCMP FUEQ)
      else if pred = FCMP FOGT then Inr (FCMP FULE) else if pred = FCMP FOLT then Inr (FCMP FUGE)
      else if pred = FCMP FOGE then Inr (FCMP FULT) else if pred = FCMP FOLE then Inr (FCMP FUGT)
      else if pred = FCMP FUEQ then Inr (FCMP FONE) else if pred = FCMP FUNE then Inr (FCMP FOEQ)
      else if pred = FCMP FUGT then Inr (FCMP FOLE) else if pred = FCMP FULT then Inr (FCMP FOGE)
      else if pred = FCMP FUGE then Inr (FCMP FOLT) else if pred = FCMP FULE then Inr (FCMP FOGT)
      else if pred = FCMP FORD then Inr (FCMP FUNO) else if pred = FCMP FUNO then Inr (FCMP FORD)
      else if pred = 15 then Inr 0 else if pred = 0 then Inr 15
      else Inl Assertion_failed)"

definition is_fcmp :: "nat \<Rightarrow> bool" where
  "is_fcmp pred \<longleftrightarrow> FCMP FOEQ \<le> pred \<and> pred \<le> FCMP FUNE"

definition is_icmp :: "nat \<Rightarrow> bool" where
  "is_icmp pred \<longleftrightarrow> ICMP EQ \<le> pred \<and> pred \<le> ICMP SLE"

definition icmp_width :: "ir_type_code \<Rightarrow> width option" where
  "icmp_width code =
     (if code = IR_TYPE_INT8 then Some (Narrow W8) else if code = IR_TYPE_INT16 then Some (Narrow W16)
      else if code \<in> {IR_TYPE_INT32, IR_TYPE_POINTER} then Some (Wide W32)
      else if code = IR_TYPE_INT64 then Some (Wide W64) else None)"

definition emit_cmp_rr :: "nat \<Rightarrow> ir_type_code \<Rightarrow> ir_value list \<Rightarrow> emission" where
  "emit_cmp_rr pred code vs =
     (if is_fcmp pred then
        if code = IR_TYPE_FLOAT then emit_op_regs (pred - FCMP FOEQ + vm_op_num (VM_FCMP FLT FOEQ)) vs
        else if code = IR_TYPE_DOUBLE then emit_op_regs (pred - FCMP FOEQ + vm_op_num (VM_FCMP DBL FOEQ)) vs
        else cannot ''Can't fcmp''
      else if is_icmp pred then
        (case icmp_width code of None \<Rightarrow> cannot ''Can't icmp''
         | Some w \<Rightarrow> emit_op_regs (pred - ICMP EQ + vm_op_num (VM_CMP w EQ)) vs)
      else cannot ''Can't compare pred'')"

definition const_bits :: "ir_value \<Rightarrow> u64" where
  "const_bits iv = (case iv_class iv of Vc_constant v \<Rightarrow> v | _ \<Rightarrow> 0)"

definition emit_cmp_imm :: "ir_unit \<Rightarrow> width \<Rightarrow> ir_value \<Rightarrow> emission" where
  "emit_cmp_imm iu w rhs =
     (case w of Narrow W8 \<Rightarrow> emit_c8 iu rhs | Narrow W16 \<Rightarrow> emit_c16 iu rhs
      | Wide W32 \<Rightarrow> emit_c32 iu rhs | Wide W64 \<Rightarrow> emit_c64 iu rhs)"

definition emit_cmp_rc :: "ir_unit \<Rightarrow> nat \<Rightarrow> ir_type_code \<Rightarrow> ir_value \<Rightarrow> ir_value \<Rightarrow> ir_value \<Rightarrow> emission" where
  "emit_cmp_rc iu pred code ret lhs rhs =
     (if is_fcmp pred then
        if code = IR_TYPE_DOUBLE then
          if fp_isnan 52 (const_bits rhs) then cannot ''Ugh, immediate is nan in fcmp''
          else em_all [vm_align32 True, emit_op_regs (pred - FCMP FOEQ + vm_op_num (VM_FCMP DBLC FOEQ)) [ret, lhs],
                       emit_c64 iu rhs]
        else if code = IR_TYPE_FLOAT then
          if fp_isnan 23 (ucast (const_bits rhs) :: u32) then cannot ''Ugh, immediate is nan in fcmp''
          else em_all [vm_align32 True, emit_op_regs (pred - FCMP FOEQ + vm_op_num (VM_FCMP FLTC FOEQ)) [ret, lhs],
                       emit_c32 iu rhs]
        else cannot ''Can't fcmp''
      else if is_icmp pred then
        (case icmp_width code of None \<Rightarrow> cannot ''Can't icmp''
         | Some w \<Rightarrow>
             em_all ((if w = Wide W64 then [vm_align32 True] else []) @
               [emit_op_regs (pred - ICMP EQ + vm_op_num (VM_CMP_C w EQ)) [ret, lhs], emit_cmp_imm iu w rhs]))
      else cannot ''Can't compare pred'')"

definition emit_cmp_rg :: "ir_unit \<Rightarrow> nat \<Rightarrow> ir_type_code \<Rightarrow> ir_value \<Rightarrow> ir_value \<Rightarrow> ir_value \<Rightarrow> emission" where
  "emit_cmp_rg iu pred code ret lhs rhs =
     (if is_icmp pred then
        if code = IR_TYPE_POINTER then
          em_all [emit_op_regs (pred - ICMP EQ + vm_op_num (VM_CMP_C (Wide W32) EQ)) [ret, lhs], emit_c32 iu rhs]
        else cannot ''Can't icmp''
      else cannot ''Can't compare pred'')"

definition emit_cmp2 :: "ir_unit \<Rightarrow> ir_instr_binary \<Rightarrow> emission" where
  "emit_cmp2 iu ii e =
     res_bind (vt_at iu (ibi_lhs ii)) (\<lambda>lhs. res_bind (vt_at iu (ibi_rhs ii)) (\<lambda>rhs.
     res_bind (ret_at iu (ibi_super ii)) (\<lambda>ret. res_bind (vt_code iu (ibi_lhs ii)) (\<lambda>code.
       let pred = ibi_op ii in
       if is_reg lhs \<and> is_reg rhs then emit_cmp_rr pred code [ret, lhs, rhs] e
       else if is_reg lhs \<and> is_const rhs then emit_cmp_rc iu pred code ret lhs rhs e
       else if is_const lhs \<and> is_reg rhs then
         res_bind (swap_pred pred) (\<lambda>pred. emit_cmp_rc iu pred code ret rhs lhs e)
       else if is_reg lhs \<and> is_gvar rhs then emit_cmp_rg iu pred code ret lhs rhs e
       else if is_gvar lhs \<and> is_reg rhs then
         res_bind (swap_pred pred) (\<lambda>pred. emit_cmp_rg iu pred code ret rhs lhs e)
       else cannot ''Can't icmp value class'' e))))"

text \<open>A value in a register, loaded into the scratch register first when it is a constant.\<close>

definition emit_scratch :: "ir_unit \<Rightarrow> u16 \<Rightarrow> ir_value \<Rightarrow> emitter \<Rightarrow> (u16 \<times> emitter) result" where
  "emit_scratch iu scratch v e =
     (if is_reg v then res_bind (reg16 v) (\<lambda>r. Inr (r, e))
      else if is_const v \<or> is_gvar v then
        res_bind (em_all [emit_op1 (VM_MOV MOV32_C) scratch, emit_c32 iu v] e) (\<lambda>e1. Inr (scratch, e1))
      else Inl (Parser_error ''Can't use value''))"

definition emit_cmp_select :: "ir_unit \<Rightarrow> ir_instr_cmp_select \<Rightarrow> emission" where
  "emit_cmp_select iu ii e =
     res_bind (ret_at iu (ics_super ii)) (\<lambda>ret.
     res_bind (vt_at iu (ics_lhs ii)) (\<lambda>lhs0. res_bind (vt_at iu (ics_rhs ii)) (\<lambda>rhs0.
     res_bind (vt_at iu (ics_true ii)) (\<lambda>tv. res_bind (vt_at iu (ics_false ii)) (\<lambda>fv.
     res_bind (vt_code iu (ics_lhs ii)) (\<lambda>code.
       let swap = (is_reg rhs0 \<and> \<not> is_reg lhs0);
           lhs = (if swap then rhs0 else lhs0); rhs = (if swap then lhs0 else rhs0) in
       res_bind (if swap then swap_pred (ics_op ii) else Inr (ics_op ii)) (\<lambda>pred.
       res_bind (emit_scratch iu 0 tv e) (\<lambda>(treg, e1). res_bind (emit_scratch iu 4 fv e1) (\<lambda>(freg, e2).
         if is_reg lhs \<and> is_reg rhs then
           if \<not> is_icmp pred then cannot ''Can't compare pred'' e2
           else if code \<in> {IR_TYPE_INT32, IR_TYPE_POINTER} then
             em_all [emit_opn (pred - ICMP EQ + vm_op_num (VM_CMP32_SEL EQ)), emit_reg ret, emit_i16 treg, emit_i16 freg,
               emit_reg lhs, emit_reg rhs] e2
           else cannot ''Can't cmpselect type'' e2
         else if is_reg lhs \<and> (is_const rhs \<or> is_gvar rhs) then
           if \<not> is_icmp pred then cannot ''Can't cmpsel pred'' e2
           else if code \<in> {IR_TYPE_INT32, IR_TYPE_POINTER} then
             em_all [emit_opn (pred - ICMP EQ + vm_op_num (VM_CMP32_C_SEL EQ)), emit_reg ret, emit_i16 treg, emit_i16 freg,
               emit_reg lhs, emit_c32 iu rhs] e2
           else cannot ''Can't cmpsel type'' e2
         else cannot ''Can't cmpsel value class'' e2)))))))))"

section \<open>Moves\<close>

text \<open>The destination: one register, or two adjacent ones of type \<open>i32\<close> taken as one.\<close>

definition move_dest :: "ir_unit \<Rightarrow> ir_super \<Rightarrow> (u16 \<times> ir_type_code) result" where
  "move_dest iu s =
     (if vt_value (ii_ret s) = -2 then
        (case ii_rets s of
           r0 # r1 # _ \<Rightarrow>
             res_bind (vt_at iu r0) (\<lambda>v1. res_bind (vt_at iu r1) (\<lambda>v2.
             res_bind (value_reg v1) (\<lambda>reg1. res_bind (value_reg v2) (\<lambda>reg2.
               if reg1 + 4 \<noteq> reg2 \<or> vt_type r0 \<noteq> vt_type r1
               then Inl (Parser_error ''Bad aggregate destionation for move'')
               else res_bind (vt_code iu r0) (\<lambda>code.
                 if code \<noteq> IR_TYPE_INT32 then Inl (Parser_error ''Bad aggregate destionation type for move'')
                 else Inr (ucast reg1, IR_TYPE_INT64))))))
         | _ \<Rightarrow> Inl Undefined_behaviour)
      else res_bind (ret_at iu s) (\<lambda>ret. res_bind (vt_code iu (ii_ret s)) (\<lambda>code.
             res_bind (reg16 ret) (\<lambda>r. Inr (r, code)))))"

definition emit_move :: "ir_unit \<Rightarrow> ir_instr_move \<Rightarrow> emission" where
  "emit_move iu ii e =
     res_bind (vt_at iu (imo_value ii)) (\<lambda>src. res_bind (move_dest iu (imo_super ii)) (\<lambda>(ret, code).
       if is_const src then
         if code = IR_TYPE_INT8 then em_all [emit_op1 (VM_MOV MOV8_C) ret, emit_c8 iu src] e
         else if code = IR_TYPE_INT16 then em_all [emit_op1 (VM_MOV MOV16_C) ret, emit_c16 iu src] e
         else if code \<in> {IR_TYPE_INT1, IR_TYPE_INT32, IR_TYPE_POINTER, IR_TYPE_FLOAT}
         then em_all [emit_op1 (VM_MOV MOV32_C) ret, emit_c32 iu src] e
         else if code \<in> wide_types
         then em_all [vm_align32 False, emit_op1 (VM_MOV MOV64_C) ret, emit_c64 iu src] e
         else cannot ''Can't emit'' e
       else if is_gvar src \<and> code = IR_TYPE_POINTER
       then em_all [emit_op1 (VM_MOV MOV32_C) ret, emit_c32 iu src] e
       else if is_reg src \<and> code \<in> small_types
       then res_bind (reg16 src) (\<lambda>r. emit_ops (vm_op_num (VM_MOV MOV32)) [ret, r] e)
       else if is_reg src \<and> code \<in> wide_types
       then res_bind (reg16 src) (\<lambda>r. emit_ops (vm_op_num (VM_MOV MOV64)) [ret, r] e)
       else if is_func src \<and> code \<in> {IR_TYPE_FUNCTION, IR_TYPE_POINTER}
       then em_all [emit_op1 (VM_MOV MOV32_C) ret, emit_faddr src] e
       else cannot ''Can't emit'' e))"

definition emit_stackcopy :: "ir_unit \<Rightarrow> ir_instr_stackcopy \<Rightarrow> emission" where
  "emit_stackcopy iu ii e =
     res_bind (ret_at iu (isc_super ii)) (\<lambda>ret. res_bind (vt_at iu (isc_value ii)) (\<lambda>src.
     res_bind (vt_code iu (isc_value ii)) (\<lambda>code.
       if code = IR_TYPE_POINTER \<and> (is_gvar src \<or> is_const src) then
         em_all [emit_op_regs (vm_op_num (VM_STACK STACKCOPYC)) [ret], emit_c32 iu src,
           emit_i32 (word_of_int (isc_size ii))] e
       else if code = IR_TYPE_POINTER \<and> is_reg src then
         em_all [emit_op_regs (vm_op_num (VM_STACK STACKCOPYR)) [ret, src], emit_i32 (word_of_int (isc_size ii))] e
       else cannot ''Can't stackcopy'' e)))"

definition emit_stackshrink :: "int \<Rightarrow> emission" where
  "emit_stackshrink sz = em_all [emit_op (VM_STACK STACKSHRINK), emit_i32 (word_of_int sz)]"

section \<open>Address arithmetic\<close>

text \<open>\<open>ffs\<close>: one more than the index of the lowest set bit.\<close>

definition ffs32 :: "u32 \<Rightarrow> int" where
  "ffs32 w = (if w = 0 then 0 else int (length (takeWhile (\<lambda>i. \<not> bit w i) [0..<32])) + 1)"

text \<open>\<open>1 << 31\<close> of an \<open>int\<close> gives \<open>INT_MIN\<close> with the compilers in use.\<close>

definition lea_shift :: "int \<Rightarrow> nat option" where
  "lea_shift mul =
     (let fb = nat (ffs32 (word_of_int mul) - 1)
      in if (word_of_int mul :: u32) = push_bit fb 1 then Some fb else None)"

definition emit_lea :: "ir_unit \<Rightarrow> ir_instr_lea \<Rightarrow> emission" where
  "emit_lea iu ii e =
     res_bind (ret_at iu (ile_super ii)) (\<lambda>ret. res_bind (vt_at iu (ile_baseptr ii)) (\<lambda>base.
       if vt_value (ile_value_offset ii) = -1 then
         em_all [emit_op_regs (vm_op_num (VM_R32C ADD)) [ret, base],
           emit_i32 (word_of_int (ile_immediate_offset ii))] e
       else
         res_bind (vt_at iu (ile_value_offset ii)) (\<lambda>off. res_bind (vt_code iu (ile_value_offset ii)) (\<lambda>code.
           if code \<noteq> IR_TYPE_INT32 then cannot ''LEA: Can't handle offset register'' e
           else res_bind (c_assert (ile_value_offset_multiply ii \<noteq> 0)) (\<lambda>_.
             case lea_shift (ile_value_offset_multiply ii) of
               Some fb \<Rightarrow>
                 if ile_immediate_offset ii \<noteq> 0 then
                   em_all [emit_op_regs (vm_op_num (VM_LEA LEA_R32_SHL_OFF)) [ret, base, off], emit_i16 (of_nat fb),
                     emit_i32 (word_of_int (ile_immediate_offset ii))] e
                 else if fb = 2 then emit_op_regs (vm_op_num (VM_LEA LEA_R32_SHL2)) [ret, base, off] e
                 else em_all [emit_op_regs (vm_op_num (VM_LEA LEA_R32_SHL)) [ret, base, off], emit_i16 (of_nat fb)] e
             | None \<Rightarrow>
                 em_all [emit_op_regs (vm_op_num (VM_LEA LEA_R32_MUL_OFF)) [ret, base, off],
                   emit_i32 (word_of_int (ile_value_offset_multiply ii)),
                   emit_i32 (word_of_int (ile_immediate_offset ii))] e)))))"

section \<open>Casts\<close>

datatype castop = TRUNC | ZEXT | SEXT | FPTOUI | FPTOSI | UITOFP | SITOFP | FPTRUNC | FPEXT | PTRTOINT | INTTOPTR | BITCAST

definition castop_of :: "nat \<Rightarrow> castop option" where
  "castop_of n =
     (let ops = [TRUNC, ZEXT, SEXT, FPTOUI, FPTOSI, UITOFP, SITOFP, FPTRUNC, FPEXT, PTRTOINT, INTTOPTR, BITCAST]
      in if n < length ops then Some (ops ! n) else None)"

text \<open>The rows of the \<open>switch\<close> that select an instruction of the \<open>CAST\<close> family, by destination type.\<close>

definition cast_rows :: "(ir_type_code \<times> castop \<times> ir_type_code \<times> vm_cast) list" where
  "cast_rows =
    [(IR_TYPE_INT1, TRUNC, IR_TYPE_INT8, TO8 CAST_1_TRUNC_8),
     (IR_TYPE_INT1, TRUNC, IR_TYPE_INT16, TO8 CAST_1_TRUNC_16),
     (IR_TYPE_INT8, SEXT, IR_TYPE_INT1, TO8 CAST_8_SEXT_1),
     (IR_TYPE_INT8, TRUNC, IR_TYPE_INT16, TO8 CAST_8_TRUNC_16),
     (IR_TYPE_INT8, TRUNC, IR_TYPE_INT32, TO8 CAST_8_TRUNC_32),
     (IR_TYPE_INT8, ZEXT, IR_TYPE_INT1, TO8 CAST_8_TRUNC_32),
     (IR_TYPE_INT8, TRUNC, IR_TYPE_INT64, TO8 CAST_8_TRUNC_64),
     (IR_TYPE_INT16, ZEXT, IR_TYPE_INT1, TO16 CAST_16_ZEXT_1),
     (IR_TYPE_INT16, ZEXT, IR_TYPE_INT8, TO16 CAST_16_ZEXT_8),
     (IR_TYPE_INT16, SEXT, IR_TYPE_INT8, TO16 CAST_16_SEXT_8),
     (IR_TYPE_INT16, TRUNC, IR_TYPE_INT32, TO16 CAST_16_TRUNC_32),
     (IR_TYPE_INT16, TRUNC, IR_TYPE_INT64, TO16 CAST_16_TRUNC_64),
     (IR_TYPE_INT16, FPTOSI, IR_TYPE_FLOAT, TO16 CAST_16_FPTOSI_FLT),
     (IR_TYPE_INT16, FPTOUI, IR_TYPE_FLOAT, TO16 CAST_16_FPTOUI_FLT),
     (IR_TYPE_INT16, FPTOSI, IR_TYPE_DOUBLE, TO16 CAST_16_FPTOSI_DBL),
     (IR_TYPE_INT16, FPTOUI, IR_TYPE_DOUBLE, TO16 CAST_16_FPTOUI_DBL),
     (IR_TYPE_INT32, TRUNC, IR_TYPE_INT64, TO32 CAST_32_TRUNC_64),
     (IR_TYPE_INT32, SEXT, IR_TYPE_INT1, TO32 CAST_32_SEXT_1),
     (IR_TYPE_INT32, ZEXT, IR_TYPE_INT8, TO32 CAST_32_ZEXT_8),
     (IR_TYPE_INT32, SEXT, IR_TYPE_INT8, TO32 CAST_32_SEXT_8),
     (IR_TYPE_INT32, ZEXT, IR_TYPE_INT16, TO32 CAST_32_ZEXT_16),
     (IR_TYPE_INT32, SEXT, IR_TYPE_INT16, TO32 CAST_32_SEXT_16),
     (IR_TYPE_INT32, FPTOSI, IR_TYPE_FLOAT, TO32 CAST_32_FPTOSI_FLT),
     (IR_TYPE_INT32, FPTOUI, IR_TYPE_FLOAT, TO32 CAST_32_FPTOUI_FLT),
     (IR_TYPE_INT32, FPTOSI, IR_TYPE_DOUBLE, TO32 CAST_32_FPTOSI_DBL),
     (IR_TYPE_INT32, FPTOUI, IR_TYPE_DOUBLE, TO32 CAST_32_FPTOUI_DBL),
     (IR_TYPE_INT64, ZEXT, IR_TYPE_INT1, TO64 CAST_64_ZEXT_1),
     (IR_TYPE_INT64, SEXT, IR_TYPE_INT1, TO64 CAST_64_SEXT_1),
     (IR_TYPE_INT64, ZEXT, IR_TYPE_INT8, TO64 CAST_64_ZEXT_8),
     (IR_TYPE_INT64, SEXT, IR_TYPE_INT8, TO64 CAST_64_SEXT_8),
     (IR_TYPE_INT64, ZEXT, IR_TYPE_INT16, TO64 CAST_64_ZEXT_16),
     (IR_TYPE_INT64, SEXT, IR_TYPE_INT16, TO64 CAST_64_SEXT_16),
     (IR_TYPE_INT64, ZEXT, IR_TYPE_INT32, TO64 CAST_64_ZEXT_32),
     (IR_TYPE_INT64, SEXT, IR_TYPE_INT32, TO64 CAST_64_SEXT_32),
     (IR_TYPE_INT64, FPTOSI, IR_TYPE_FLOAT, TO64 CAST_64_FPTOSI_FLT),
     (IR_TYPE_INT64, FPTOUI, IR_TYPE_FLOAT, TO64 CAST_64_FPTOUI_FLT),
     (IR_TYPE_INT64, FPTOSI, IR_TYPE_DOUBLE, TO64 CAST_64_FPTOSI_DBL),
     (IR_TYPE_INT64, FPTOUI, IR_TYPE_DOUBLE, TO64 CAST_64_FPTOUI_DBL),
     (IR_TYPE_FLOAT, FPTRUNC, IR_TYPE_DOUBLE, CAST_FLT_FPTRUNC_DBL),
     (IR_TYPE_FLOAT, SITOFP, IR_TYPE_INT8, CAST_FLT SITOFP_8),
     (IR_TYPE_FLOAT, UITOFP, IR_TYPE_INT8, CAST_FLT UITOFP_8),
     (IR_TYPE_FLOAT, SITOFP, IR_TYPE_INT16, CAST_FLT SITOFP_16),
     (IR_TYPE_FLOAT, UITOFP, IR_TYPE_INT16, CAST_FLT UITOFP_16),
     (IR_TYPE_FLOAT, SITOFP, IR_TYPE_INT32, CAST_FLT SITOFP_32),
     (IR_TYPE_FLOAT, UITOFP, IR_TYPE_INT32, CAST_FLT UITOFP_32),
     (IR_TYPE_FLOAT, SITOFP, IR_TYPE_INT64, CAST_FLT SITOFP_64),
     (IR_TYPE_FLOAT, UITOFP, IR_TYPE_INT64, CAST_FLT UITOFP_64),
     (IR_TYPE_DOUBLE, SITOFP, IR_TYPE_INT8, CAST_DBL SITOFP_8),
     (IR_TYPE_DOUBLE, UITOFP, IR_TYPE_INT8, CAST_DBL UITOFP_8),
     (IR_TYPE_DOUBLE, SITOFP, IR_TYPE_INT16, CAST_DBL SITOFP_16),
     (IR_TYPE_DOUBLE, UITOFP, IR_TYPE_INT16, CAST_DBL UITOFP_16),
     (IR_TYPE_DOUBLE, SITOFP, IR_TYPE_INT32, CAST_DBL SITOFP_32),
     (IR_TYPE_DOUBLE, UITOFP, IR_TYPE_INT32, CAST_DBL UITOFP_32),
     (IR_TYPE_DOUBLE, SITOFP, IR_TYPE_INT64, CAST_DBL SITOFP_64),
     (IR_TYPE_DOUBLE, UITOFP, IR_TYPE_INT64, CAST_DBL UITOFP_64),
     (IR_TYPE_DOUBLE, FPEXT, IR_TYPE_FLOAT, CAST_DBL_FPEXT_FLT)]"

definition cast_op_of :: "ir_type_code \<Rightarrow> castop \<Rightarrow> ir_type_code \<Rightarrow> vm_cast option" where
  "cast_op_of dst c src = map_of (map (\<lambda>(d, c, s, op). ((d, c, s), op)) cast_rows) (dst, c, src)"

text \<open>\<open>CAST_PTRTOINT\<close> to \<open>i64\<close> chooses an operation and returns before it is emitted.\<close>

definition emit_cast :: "ir_unit \<Rightarrow> ir_instr_unary \<Rightarrow> emission" where
  "emit_cast iu ii e =
     res_bind (vt_at iu (iun_value ii)) (\<lambda>src. res_bind (ret_at iu (iun_super ii)) (\<lambda>ret.
     res_bind (vt_code iu (iun_value ii)) (\<lambda>srccode. res_bind (vt_code iu (ii_ret (iun_super ii))) (\<lambda>dstcode.
       case castop_of (iun_op ii) of
         None \<Rightarrow> cannot ''Unable to convert'' e
       | Some c \<Rightarrow>
           (case cast_op_of dstcode c srccode of
              Some op \<Rightarrow> emit_op_regs (vm_op_num (VM_CAST op)) [ret, src] e
            | None \<Rightarrow>
                if (dstcode, c, srccode) \<in> {(IR_TYPE_INT32, ZEXT, IR_TYPE_INT1), (IR_TYPE_INT32, BITCAST, IR_TYPE_FLOAT),
                      (IR_TYPE_FLOAT, BITCAST, IR_TYPE_INT32)}
                then emit_op_regs (vm_op_num (VM_MOV MOV32)) [ret, src] e
                else if (dstcode, c, srccode) \<in> {(IR_TYPE_DOUBLE, BITCAST, IR_TYPE_INT64),
                      (IR_TYPE_INT64, BITCAST, IR_TYPE_DOUBLE)}
                then emit_op_regs (vm_op_num (VM_MOV MOV64)) [ret, src] e
                else if (dstcode, c, srccode) = (IR_TYPE_INT64, PTRTOINT, IR_TYPE_POINTER) then Inr e
                else cannot ''Unable to convert'' e)))))"

section \<open>The rest\<close>

definition emit_alloca :: "ir_unit \<Rightarrow> ir_instr_alloca \<Rightarrow> emission" where
  "emit_alloca iu ii e =
     res_bind (ret_at iu (ial_super ii)) (\<lambda>ret. res_bind (vt_at iu (ial_num_items ii)) (\<lambda>iv.
       if is_const iv then
         em_all [emit_op_regs (vm_op_num (VM_STACK ALLOCA)) [ret], emit_i16 (word_of_int (ial_alignment ii)),
           (\<lambda>e. res_bind (value_get_const32 (iu_tys iu) iv) (\<lambda>n. emit_i32 (word_of_int (ial_size ii) * n) e))] e
       else if is_reg iv then
         res_bind (vt_code iu (ial_num_items ii)) (\<lambda>code.
           if code = IR_TYPE_INT32 then
             em_all [emit_op_regs (vm_op_num (VM_STACK ALLOCAD)) [ret], emit_i16 (word_of_int (ial_alignment ii)),
               emit_reg iv, emit_i32 (word_of_int (ial_size ii))] e
           else cannot ''Unable to alloca num_elements'' e)
       else cannot ''Bad class for alloca elements'' e))"

definition emit_c32_masked :: "ir_unit \<Rightarrow> ir_type_code \<Rightarrow> ir_value \<Rightarrow> emission" where
  "emit_c32_masked iu code iv e =
     res_bind (value_get_const32 (iu_tys iu) iv) (\<lambda>c. emit_i32 (c AND type_code_mask code) e)"

definition emit_select :: "ir_unit \<Rightarrow> ir_instr_select \<Rightarrow> emission" where
  "emit_select iu ii e =
     res_bind (vt_at iu (ise_pred ii)) (\<lambda>p. res_bind (vt_at iu (ise_true ii)) (\<lambda>tv.
     res_bind (vt_at iu (ise_false ii)) (\<lambda>fv. res_bind (ret_at iu (ise_super ii)) (\<lambda>ret.
     res_bind (vt_code iu (ii_ret (ise_super ii))) (\<lambda>code.
       let small = (code \<in> {IR_TYPE_INT8, IR_TYPE_INT16} \<union> word_types);
           c = (\<lambda>v. is_const v \<or> is_gvar v \<and> code = IR_TYPE_POINTER) in
       if small \<and> is_reg tv \<and> is_reg fv then emit_op_regs (vm_op_num (VM_SELECT32 RR)) [ret, p, tv, fv] e
       else if small \<and> is_reg tv \<and> c fv then
         em_all [emit_op_regs (vm_op_num (VM_SELECT32 RC)) [ret, p, tv], emit_c32_masked iu code fv] e
       else if small \<and> c tv \<and> is_reg fv then
         em_all [emit_op_regs (vm_op_num (VM_SELECT32 CR)) [ret, p, fv], emit_c32_masked iu code tv] e
       else if small \<and> c tv \<and> c fv then
         em_all [emit_op_regs (vm_op_num (VM_SELECT32 CC)) [ret, p], emit_c32_masked iu code tv,
           emit_c32_masked iu code fv] e
       else if code \<in> wide_types \<and> is_reg tv \<and> is_reg fv then
         emit_op_regs (vm_op_num (VM_SELECT64 RR)) [ret, p, tv, fv] e
       else if code \<in> wide_types \<and> is_reg tv \<and> is_const fv then
         em_all [vm_align32 False, emit_op_regs (vm_op_num (VM_SELECT64 RC)) [ret, p, tv], emit_c64 iu fv] e
       else if code \<in> wide_types \<and> is_const tv \<and> is_reg fv then
         em_all [vm_align32 False, emit_op_regs (vm_op_num (VM_SELECT64 CR)) [ret, p, fv], emit_c64 iu tv] e
       else if code \<in> wide_types \<and> is_const tv \<and> is_const fv then
         em_all [vm_align32 True, emit_op_regs (vm_op_num (VM_SELECT64 CC)) [ret, p], emit_c64 iu tv, emit_c64 iu fv] e
       else cannot ''Unable to emit select'' e)))))"

fun emit_vt_regs :: "ir_unit \<Rightarrow> ir_valuetype list \<Rightarrow> emission" where
  "emit_vt_regs iu [] e = Inr e"
| "emit_vt_regs iu (v # vs) e =
     res_bind (vt_at iu v) (\<lambda>iv. res_bind (emit_reg iv e) (emit_vt_regs iu vs))"

text \<open>A result below \<open>-1\<close> says how many there are.\<close>

definition emit_vmop :: "ir_unit \<Rightarrow> nat \<Rightarrow> ir_super \<Rightarrow> ir_valuetype list \<Rightarrow> emission" where
  "emit_vmop iu vmop s argv e =
     res_bind (c_assert (vmop \<noteq> 0)) (\<lambda>_. res_bind (emit_opn vmop e) (\<lambda>e1.
       let n = nat (- vt_value (ii_ret s)) in
       if vt_value (ii_ret s) < -1 \<and> length (ii_rets s) < n then Inl Undefined_behaviour
       else em_all [emit_vt_regs iu (if vt_value (ii_ret s) < -1 then take n (ii_rets s)
                                     else if vt_value (ii_ret s) \<noteq> -1 then [ii_ret s] else []),
                    emit_vt_regs iu argv] e1))"

definition emit_vaarg :: "ir_unit \<Rightarrow> ir_instr_unary \<Rightarrow> emission" where
  "emit_vaarg iu ii e =
     res_bind (vt_at iu (iun_value ii)) (\<lambda>val. res_bind (emit_scratch iu 0 val e) (\<lambda>(valreg, e1).
     res_bind (ret_at iu (iun_super ii)) (\<lambda>ret. res_bind (vt_code iu (ii_ret (iun_super ii))) (\<lambda>code.
       if code \<in> {IR_TYPE_INT32, IR_TYPE_POINTER, IR_TYPE_INT1} then
         em_all [emit_op (VM_VA VAARG32), emit_reg ret, emit_i16 valreg] e1
       else if code \<in> wide_types then em_all [emit_op (VM_VA VAARG64), emit_reg ret, emit_i16 valreg] e1
       else cannot ''Unable to emit vaarg'' e1))))"

definition emit_mla :: "ir_unit \<Rightarrow> ir_instr_ternary \<Rightarrow> emission" where
  "emit_mla iu ii e =
     res_bind (ret_at iu (ite_super ii)) (\<lambda>ret. res_bind (vt_code iu (ii_ret (ite_super ii))) (\<lambda>code.
     res_bind (vt_at iu (ite_arg1 ii)) (\<lambda>a1. res_bind (vt_at iu (ite_arg2 ii)) (\<lambda>a2. res_bind (vt_at iu (ite_arg3 ii)) (\<lambda>a3.
       if code = IR_TYPE_INT32 then emit_op_regs (vm_op_num (VM_MISC MLA32)) [ret, a1, a2, a3] e
       else cannot ''Unable to emit mla'' e)))))"

definition emit_landingpad :: "ir_unit \<Rightarrow> ir_super \<Rightarrow> emission" where
  "emit_landingpad iu s e =
     (if vt_value (ii_ret s) = -2 then
        if length (ii_rets s) < 2 then Inl Undefined_behaviour
        else em_all [emit_op (VM_FLOW LANDINGPAD), emit_vt_regs iu (take 2 (ii_rets s))] e
      else cannot ''Unable to emit landingpad'' e)"

definition emit_resume :: "ir_unit \<Rightarrow> ir_valuetype list \<Rightarrow> emission" where
  "emit_resume iu vs e =
     (if length vs \<noteq> 2 then cannot ''Unable to emit resume'' e
      else em_all [emit_op (VM_FLOW RESUME), emit_vt_regs iu vs] e)"

end
