(* ===== verification/Vmir_Emit_Flow.thy ===== *)
theory Vmir_Emit_Flow
  imports Vmir_Emit
begin

text \<open>
  Code generation for control flow, \<open>src/src/vmir_vm.c\<close>: branches, switches, calls, the
  code of a whole function and the fixup of its branches; and \<open>parse_switch\<close> of
  \<open>src/src/vmir_instr_parse.c\<close>, which prepares the table of a switch.

  A branch is emitted with the numbers of its target blocks in place of offsets. When all blocks
  have a position, \<open>branch_fixup\<close> replaces the numbers, at the places kept in
  \<open>iu_branch_fixups\<close>. The build is the one without the JIT and without tracing.
\<close>

section \<open>Instructions and blocks\<close>

record ir_instr_br =
  ibr_condition :: ir_valuetype
  ibr_true :: int
  ibr_false :: int

record ir_instr_cmp_branch =
  icb_op :: nat
  icb_lhs :: ir_valuetype
  icb_rhs :: ir_valuetype
  icb_true :: int
  icb_false :: int

record ir_instr_switch =
  isw_value :: ir_valuetype
  isw_defblock :: int
  isw_paths :: "(u64 \<times> int) list"

record ir_instr_call =
  ica_super :: ir_super
  ica_callee :: ir_valuetype
  ica_vmop :: nat
  ica_normal_dest :: int
  ica_unwind_dest :: int
  ica_argv :: "(ir_valuetype \<times> int) list"

text \<open>Instructions that code generation rejects: they are gone when a function has been transformed.\<close>

record ir_instr_gep =
  igp_super :: ir_super
  igp_baseptr :: ir_valuetype
  igp_indicies :: "(ir_valuetype \<times> int) list"

record ir_instr_phi =
  iph_super :: ir_super
  iph_nodes :: "(int \<times> ir_valuetype) list"

record ir_instr_extractval =
  iev_super :: ir_super
  iev_value :: ir_valuetype
  iev_indicies :: "int list"

record ir_instr_insertval =
  iiv_super :: ir_super
  iiv_src :: ir_valuetype
  iiv_replacement :: ir_valuetype
  iiv_indicies :: "int list"

record ir_instr_landingpad =
  ilp_super :: ir_super
  ilp_type :: u32
  ilp_personality :: u32
  ilp_is_clean_up :: u32
  ilp_clauses :: "(u32 \<times> u32) list"

datatype ir_instr =
    IR_IC_UNREACHABLE
  | IR_IC_RET ir_instr_unary
  | IR_IC_BINOP ir_instr_binary
  | IR_IC_CAST ir_instr_unary
  | IR_IC_LOAD ir_instr_load
  | IR_IC_STORE ir_instr_store
  | IR_IC_CMP2 ir_instr_binary
  | IR_IC_BR ir_instr_br
  | IR_IC_CALL ir_instr_call
  | IR_IC_INVOKE ir_instr_call
  | IR_IC_SWITCH ir_instr_switch
  | IR_IC_ALLOCA ir_instr_alloca
  | IR_IC_SELECT ir_instr_select
  | IR_IC_VAARG ir_instr_unary
  | IR_IC_LANDINGPAD ir_instr_landingpad
  | IR_IC_RESUME "ir_valuetype list"
  | IR_IC_LEA ir_instr_lea
  | IR_IC_MOVE ir_instr_move
  | IR_IC_VMOP ir_instr_call
  | IR_IC_STACKCOPY ir_instr_stackcopy
  | IR_IC_STACKSHRINK int
  | IR_IC_CMP_BRANCH ir_instr_cmp_branch
  | IR_IC_CMP_SELECT ir_instr_cmp_select
  | IR_IC_MLA ir_instr_ternary
  | IR_IC_GEP ir_instr_gep
  | IR_IC_PHI ir_instr_phi
  | IR_IC_EXTRACTVAL ir_instr_extractval
  | IR_IC_INSERTVAL ir_instr_insertval

record ir_bb =
  bb_id :: int
  bb_instrs :: "ir_instr list"

section \<open>Parsing a switch\<close>

definition instr_get_uint :: "ir_arg list \<Rightarrow> (u32 \<times> ir_arg list) result" where
  "instr_get_uint argv =
     (case argv of [] \<Rightarrow> Inl (Parser_error ''Missing argument'') | a # rest \<Rightarrow> Inr (ucast a, rest))"

definition instr_get_value :: "ir_unit \<Rightarrow> ir_arg list \<Rightarrow> u32 \<Rightarrow> (ir_valuetype \<times> ir_arg list) result" where
  "instr_get_value iu argv ty =
     (case argv of [] \<Rightarrow> Inl (Parser_error ''Missing value code'')
      | a # rest \<Rightarrow>
          Inr (\<lparr>vt_value = sint (ucast (of_nat (iu_next_value iu) - a) :: u32), vt_type = ty\<rparr>, rest))"

text \<open>\<open>~1ULL\<close> for 64 bits; the shift of the other widths is undefined from 64 on.\<close>

definition switch_mask :: "int \<Rightarrow> u64 result" where
  "switch_mask width =
     (if width = 64 then Inr (NOT 1)
      else if 0 \<le> width \<and> width < 64 then Inr (push_bit (nat width) 1 - 1)
      else Inl Undefined_behaviour)"

fun switch_paths :: "ir_unit \<Rightarrow> u32 \<Rightarrow> u64 \<Rightarrow> nat \<Rightarrow> ir_arg list \<Rightarrow> (u64 \<times> int) list result" where
  "switch_paths iu ty msk 0 argv = Inr []"
| "switch_paths iu ty msk (Suc n) argv =
     res_bind (instr_get_uint argv) (\<lambda>(val, argv1). res_bind (instr_get_uint argv1) (\<lambda>(block, argv2).
     res_bind (value_at iu val) (\<lambda>iv.
       if \<not> is_const iv then Inl (Parser_error ''Switch on non-constant value'')
       else if iv_type iv \<noteq> ty then Inl (Parser_error ''Type mismatch for switch/case values'')
       else res_bind (value_get_const64 (iu_tys iu) iv) (\<lambda>v.
              res_bind (switch_paths iu ty msk n argv2) (\<lambda>ps. Inr ((v AND msk, sint block) # ps))))))"

text \<open>The order \<open>qsort\<close> leaves equal keys in is not specified by C; here it is that of the record.\<close>

definition parse_switch :: "ir_unit \<Rightarrow> ir_arg list \<Rightarrow> ir_instr_switch result" where
  "parse_switch iu argv =
     res_bind (instr_get_uint argv) (\<lambda>(ty, argv1). res_bind (instr_get_value iu argv1 ty) (\<lambda>(value, argv2).
     res_bind (instr_get_uint argv2) (\<lambda>(defblock, argv3).
     res_bind (type_get (iu_tys iu) ty) (\<lambda>it. res_bind (type_bitwidth it) (\<lambda>width. res_bind (switch_mask width) (\<lambda>msk.
     res_bind (switch_paths iu ty msk (length argv3 div 2) argv3) (\<lambda>paths.
       Inr \<lparr>isw_value = value, isw_defblock = sint defblock, isw_paths = sort_key fst paths\<rparr>)))))))"

section \<open>Branches\<close>

definition push_fixup :: "emitter \<Rightarrow> emitter" where
  "push_fixup e = e\<lparr>em_fixups := em_fixups e @ [em_ptr e]\<rparr>"

definition emit_block :: "int \<Rightarrow> emission" where
  "emit_block b = emit_i16 (word_of_int b)"

text \<open>\<open>nxt\<close> is the number of the block after the current one, if any.\<close>

definition emit_br :: "ir_unit \<Rightarrow> ir_instr_br \<Rightarrow> int option \<Rightarrow> emission" where
  "emit_br iu ii nxt e =
     (let e1 = push_fixup e in
      if vt_value (ibr_condition ii) = -1 then
        if nxt = Some (ibr_true ii) then Inr (e1\<lparr>em_fixups := butlast (em_fixups e1)\<rparr>)
        else em_all [emit_op (VM_FLOW B), emit_block (ibr_true ii)] e1
      else res_bind (vt_at iu (ibr_condition ii)) (\<lambda>iv.
        if is_reg iv then
          em_all [emit_op (VM_FLOW BCOND), emit_reg iv, emit_block (ibr_true ii), emit_block (ibr_false ii)] e1
        else if is_const iv then
          em_all [emit_op (VM_FLOW B),
            (\<lambda>e. res_bind (value_get_const32 (iu_tys iu) iv) (\<lambda>c.
               emit_block (if c \<noteq> 0 then ibr_true ii else ibr_false ii) e))] e1
        else cannot ''Unable to branch on value class'' e1))"

definition emit_cmp_branch :: "ir_unit \<Rightarrow> ir_instr_cmp_branch \<Rightarrow> emission" where
  "emit_cmp_branch iu ii e =
     res_bind (vt_at iu (icb_lhs ii)) (\<lambda>lhs0. res_bind (vt_at iu (icb_rhs ii)) (\<lambda>rhs0.
     res_bind (vt_code iu (icb_lhs ii)) (\<lambda>code.
       let e1 = push_fixup e; targets = [emit_block (icb_true ii), emit_block (icb_false ii)] in
       if is_reg lhs0 \<and> is_reg rhs0 then
         if \<not> is_icmp (icb_op ii) then cannot ''Can't compare pred'' e1
         else if code = IR_TYPE_INT8 then
           em_all ([emit_opn (icb_op ii - ICMP EQ + vm_op_num (VM_CMP_BR BR8 EQ))] @ targets @
             [emit_reg lhs0, emit_reg rhs0]) e1
         else if code \<in> {IR_TYPE_INT32, IR_TYPE_POINTER} then
           em_all ([emit_opn (icb_op ii - ICMP EQ + vm_op_num (VM_CMP_BR BR32 EQ))] @ targets @
             [emit_reg lhs0, emit_reg rhs0]) e1
         else cannot ''Can't cmpbr type'' e1
       else
         let swap = is_reg rhs0; lhs = (if swap then rhs0 else lhs0); rhs = (if swap then lhs0 else rhs0) in
         res_bind (if swap then swap_pred (icb_op ii) else Inr (icb_op ii)) (\<lambda>pred.
           if is_reg lhs \<and> (is_const rhs \<or> is_gvar rhs) then
             if \<not> is_icmp pred then cannot ''Can't brcmp pred'' e1
             else if code = IR_TYPE_INT8 then
               em_all ([emit_opn (pred - ICMP EQ + vm_op_num (VM_CMP_BR BR8_C EQ))] @ targets @
                 [emit_reg lhs, emit_c8 iu rhs]) e1
             else if code \<in> {IR_TYPE_INT32, IR_TYPE_POINTER} then
               em_all ([emit_opn (pred - ICMP EQ + vm_op_num (VM_CMP_BR BR32_C EQ))] @ targets @
                 [emit_reg lhs, emit_c32 iu rhs]) e1
             else cannot ''Can't cmpbr type'' e1
           else if is_reg lhs \<and> is_func rhs then
             em_all ([emit_opn (pred - ICMP EQ + vm_op_num (VM_CMP_BR BR32_C EQ))] @ targets @
               [emit_reg lhs, emit_faddr rhs]) e1
           else cannot ''Can't brcmp value class'' e1))))"

section \<open>Switches\<close>

definition emit_table :: "(u64 \<Rightarrow> emission) \<Rightarrow> ir_instr_switch \<Rightarrow> emission list" where
  "emit_table key ii = emit_i16 (of_nat (length (isw_paths ii))) # map (\<lambda>(v, _). key v) (isw_paths ii) @
     map (\<lambda>(_, b). emit_block b) (isw_paths ii) @ [emit_block (isw_defblock ii)]"

definition emit_switch32 :: "u32 \<Rightarrow> u16 \<Rightarrow> ir_instr_switch \<Rightarrow> emission" where
  "emit_switch32 msk reg ii e =
     em_all ([emit_op (VM_FLOW SWITCH32_BS), emit_i16 reg] @
       emit_table (\<lambda>v. emit_i32 (ucast (v AND ucast msk))) ii) (push_fixup e)"

text \<open>The table of \<open>JUMPTABLE\<close>, written in place: the default block everywhere, then the paths.\<close>

definition table_write :: "nat \<Rightarrow> vmem \<Rightarrow> nat \<times> int \<Rightarrow> vmem" where
  "table_write base m = (\<lambda>(i, b). mem_wr16 m (base + 2 * i) (word_of_int b))"

definition emit_jumptable :: "nat \<Rightarrow> u16 \<Rightarrow> ir_instr_switch \<Rightarrow> emission" where
  "emit_jumptable sz reg ii e =
     res_bind (em_all [emit_op (VM_FLOW JUMPTABLE), emit_i16 reg, emit_i16 (of_nat sz)] (push_fixup e)) (\<lambda>e1.
       res_bind (emit_data (sz * 2) e1) (\<lambda>(base, e2).
         let rows = map (\<lambda>i. (i, isw_defblock ii)) [0..<sz] @
               map (\<lambda>(v, b). (unat (v AND of_nat (sz - 1)), b)) (isw_paths ii)
         in Inr (e2\<lparr>em_text := foldl (table_write base) (em_text e2) rows\<rparr>)))"

definition emit_switch :: "ir_unit \<Rightarrow> ir_instr_switch \<Rightarrow> emission" where
  "emit_switch iu ii e =
     res_bind (vt_at iu (isw_value ii)) (\<lambda>c. res_bind (type_get (iu_tys iu) (vt_type (isw_value ii))) (\<lambda>cty.
     res_bind (c_assert (is_reg c)) (\<lambda>_. res_bind (reg16 c) (\<lambda>reg.
       case cty of
         It_intx b \<Rightarrow>
           res_bind (c_assert (b < 32)) (\<lambda>_.
             if b \<le> 4 then emit_jumptable (2 ^ nat b) reg ii e
             else let msk = word_of_int (2 ^ nat b - 1) in
               em_all [emit_ops (vm_op_num (VM_R32C AND_OP)) [0, reg], emit_i32 msk, emit_switch32 msk 0 ii] e)
       | It_int1 \<Rightarrow>
           if 64 < length (isw_paths ii) then emit_jumptable 256 reg ii e
           else em_all ([emit_op (VM_FLOW SWITCH8_BS), emit_i16 reg] @ emit_table (\<lambda>v. emit_i8 (ucast v)) ii) (push_fixup e)
       | It_int8 \<Rightarrow>
           if 64 < length (isw_paths ii) then emit_jumptable 256 reg ii e
           else em_all ([emit_op (VM_FLOW SWITCH8_BS), emit_i16 reg] @ emit_table (\<lambda>v. emit_i8 (ucast v)) ii) (push_fixup e)
       | It_int16 \<Rightarrow>
           em_all [emit_ops (vm_op_num (VM_CAST (TO16 CAST_16_TRUNC_32))) [0, reg], emit_switch32 0xffff 0 ii] e
       | It_int32 \<Rightarrow> emit_switch32 0xffffffff reg ii e
       | It_int64 \<Rightarrow>
           res_bind (vm_align32 True e) (\<lambda>e1.
             em_all ([emit_op (VM_FLOW SWITCH64_BS), emit_i16 reg] @ emit_table emit_i64 ii) (push_fixup e1))
       | _ \<Rightarrow> cannot ''Bad type in switch'' e))))"

section \<open>Calls\<close>

definition call_return_reg :: "ir_unit \<Rightarrow> ir_super \<Rightarrow> u16 result" where
  "call_return_reg iu s = (if vt_value (ii_ret s) \<noteq> -1 then res_bind (ret_at iu s) reg16 else Inr 0)"

text \<open>The operation and its first operand: the number of a function or a register.\<close>

definition call_target :: "ir_unit \<Rightarrow> ir_valuetype \<Rightarrow> vm_call \<Rightarrow> vm_call \<Rightarrow> vm_call \<Rightarrow> (vm_op \<times> u16) result" where
  "call_target iu callee direct ext indirect =
     res_bind (value_function iu (word_of_int (vt_value callee))) (\<lambda>fn.
       case fn of
         Some g \<Rightarrow> Inr (VM_CALL (if if_ext_func (iu_functions iu ! g) \<noteq> None then ext else direct), of_nat g)
       | None \<Rightarrow>
           res_bind (vt_at iu callee) (\<lambda>iv.
             if is_reg iv then res_bind (reg16 iv) (\<lambda>r. Inr (VM_CALL indirect, r))
             else Inl (Parser_error ''Call via incompatible value class'')))"

definition emit_call :: "ir_unit \<Rightarrow> ir_instr_call \<Rightarrow> ir_function \<Rightarrow> emission" where
  "emit_call iu ii f e =
     res_bind (call_return_reg iu (ica_super ii)) (\<lambda>ret.
     res_bind (call_target iu (ica_callee ii) JSR JSR_EXT JSR_R) (\<lambda>(op, a).
       emit_ops (vm_op_num op) [a, word_of_int (if_regframe_size f), ret] e))"

definition emit_invoke :: "ir_unit \<Rightarrow> ir_instr_call \<Rightarrow> ir_function \<Rightarrow> emission" where
  "emit_invoke iu ii f e =
     res_bind (call_return_reg iu (ica_super ii)) (\<lambda>ret.
     res_bind (call_target iu (ica_callee ii) INVOKE INVOKE_EXT INVOKE_R) (\<lambda>(op, a).
       em_all [emit_ops (vm_op_num op) [a, word_of_int (if_regframe_size f), ret],
         emit_block (ica_normal_dest ii), emit_block (ica_unwind_dest ii)] (push_fixup e)))"

section \<open>Functions\<close>

fun emit_instr :: "ir_unit \<Rightarrow> ir_function \<Rightarrow> int option \<Rightarrow> ir_instr \<Rightarrow> emission" where
  "emit_instr iu f nxt IR_IC_UNREACHABLE e = emit_op (VM_STACK UNREACHABLE) e"
| "emit_instr iu f nxt (IR_IC_RET ii) e = emit_ret iu ii e"
| "emit_instr iu f nxt (IR_IC_BINOP ii) e = emit_binop iu ii e"
| "emit_instr iu f nxt (IR_IC_CAST ii) e = emit_cast iu ii e"
| "emit_instr iu f nxt (IR_IC_LOAD ii) e = emit_load iu ii e"
| "emit_instr iu f nxt (IR_IC_STORE ii) e = emit_store iu ii e"
| "emit_instr iu f nxt (IR_IC_CMP2 ii) e = emit_cmp2 iu ii e"
| "emit_instr iu f nxt (IR_IC_BR ii) e = emit_br iu ii nxt e"
| "emit_instr iu f nxt (IR_IC_CALL ii) e = emit_call iu ii f e"
| "emit_instr iu f nxt (IR_IC_INVOKE ii) e = emit_invoke iu ii f e"
| "emit_instr iu f nxt (IR_IC_SWITCH ii) e = emit_switch iu ii e"
| "emit_instr iu f nxt (IR_IC_ALLOCA ii) e = emit_alloca iu ii e"
| "emit_instr iu f nxt (IR_IC_SELECT ii) e = emit_select iu ii e"
| "emit_instr iu f nxt (IR_IC_VAARG ii) e = emit_vaarg iu ii e"
| "emit_instr iu f nxt (IR_IC_LANDINGPAD ii) e = emit_landingpad iu (ilp_super ii) e"
| "emit_instr iu f nxt (IR_IC_RESUME vs) e = emit_resume iu vs e"
| "emit_instr iu f nxt (IR_IC_LEA ii) e = emit_lea iu ii e"
| "emit_instr iu f nxt (IR_IC_MOVE ii) e = emit_move iu ii e"
| "emit_instr iu f nxt (IR_IC_VMOP ii) e = emit_vmop iu (ica_vmop ii) (ica_super ii) (map fst (ica_argv ii)) e"
| "emit_instr iu f nxt (IR_IC_STACKCOPY ii) e = emit_stackcopy iu ii e"
| "emit_instr iu f nxt (IR_IC_STACKSHRINK sz) e = emit_stackshrink sz e"
| "emit_instr iu f nxt (IR_IC_CMP_BRANCH ii) e = emit_cmp_branch iu ii e"
| "emit_instr iu f nxt (IR_IC_CMP_SELECT ii) e = emit_cmp_select iu ii e"
| "emit_instr iu f nxt (IR_IC_MLA ii) e = emit_mla iu ii e"
| "emit_instr iu f nxt (IR_IC_GEP ii) e = cannot ''Unable to emit instruction'' e"
| "emit_instr iu f nxt (IR_IC_PHI ii) e = cannot ''Unable to emit instruction'' e"
| "emit_instr iu f nxt (IR_IC_EXTRACTVAL ii) e = cannot ''Unable to emit instruction'' e"
| "emit_instr iu f nxt (IR_IC_INSERTVAL ii) e = cannot ''Unable to emit instruction'' e"

definition instr_emit :: "ir_unit \<Rightarrow> ir_function \<Rightarrow> int option \<Rightarrow> ir_bb \<Rightarrow> emission" where
  "instr_emit iu f nxt bb = em_all (map (emit_instr iu f nxt) (bb_instrs bb))"

text \<open>The counter of a block under \<open>VMIR_DBG_BB_INSTRUMENT\<close>; \<open>count\<close> numbers the counters.\<close>

definition emit_instrument :: "nat option \<Rightarrow> emission" where
  "emit_instrument count =
     (case count of None \<Rightarrow> Inr
      | Some n \<Rightarrow> em_all [emit_op (VM_MISC INSTRUMENT_COUNT), emit_i32 (of_nat n)])"

text \<open>The blocks in order, with the offset each starts at (\<open>ib_text_offset\<close>).\<close>

fun emit_blocks :: "ir_unit \<Rightarrow> ir_function \<Rightarrow> nat option \<Rightarrow> ir_bb list \<Rightarrow> emitter \<Rightarrow> ((int \<times> nat) list \<times> emitter) result" where
  "emit_blocks iu f count [] e = Inr ([], e)"
| "emit_blocks iu f count (bb # bbs) e =
     res_bind (emit_instrument count e) (\<lambda>e1.
     res_bind (instr_emit iu f (case bbs of [] \<Rightarrow> None | b # _ \<Rightarrow> Some (bb_id b)) bb e1) (\<lambda>e2.
     res_bind (emit_blocks iu f (map_option Suc count) bbs e2) (\<lambda>(offs, e3).
       Inr ((bb_id bb, em_ptr e) # offs, e3))))"

text \<open>A block that is not there ends in \<open>abort\<close>.\<close>

definition bb_to_offset_delta :: "(int \<times> nat) list \<Rightarrow> int \<Rightarrow> nat \<Rightarrow> u16 result" where
  "bb_to_offset_delta offs bbi off =
     (case map_of offs bbi of
        None \<Rightarrow> Inl Assertion_failed
      | Some t \<Rightarrow>
          let k = int t - (int off + 2)
          in res_bind (c_assert (- 32768 \<le> k \<and> k \<le> 32767)) (\<lambda>_. Inr (word_of_int k)))"

text \<open>The code words of an instruction that hold block numbers.\<close>

definition fixup_slots :: "vmem \<Rightarrow> nat \<Rightarrow> nat list result" where
  "fixup_slots text off =
     (let p = unat (mem_rd16 text (off + 4)) in
      case vm_decode (mem_rd16 text off) of
        Some (VM_FLOW B) \<Rightarrow> Inr [1]
      | Some (VM_FLOW BCOND) \<Rightarrow> Inr [2, 3]
      | Some (VM_CALL c) \<Rightarrow>
          if c \<in> {INVOKE, INVOKE_VM, INVOKE_EXT, INVOKE_R} then Inr [4, 5]
          else Inl (Parser_error ''Bad branch temporary opcode'')
      | Some (VM_CMP_BR _ _) \<Rightarrow> Inr [1, 2]
      | Some (VM_FLOW JUMPTABLE) \<Rightarrow> Inr (map (\<lambda>j. 3 + j) [0..<p])
      | Some (VM_FLOW SWITCH8_BS) \<Rightarrow> Inr (map (\<lambda>j. 3 + p + j) [0..<p + 1])
      | Some (VM_FLOW SWITCH32_BS) \<Rightarrow> Inr (map (\<lambda>j. 3 + p * 2 + j) [0..<p + 1])
      | Some (VM_FLOW SWITCH64_BS) \<Rightarrow> Inr (map (\<lambda>j. 3 + p * 4 + j) [0..<p + 1])
      | _ \<Rightarrow> Inl (Parser_error ''Bad branch temporary opcode''))"

fun fix_slots :: "(int \<times> nat) list \<Rightarrow> nat \<Rightarrow> nat list \<Rightarrow> vmem \<Rightarrow> vmem result" where
  "fix_slots offs off [] text = Inr text"
| "fix_slots offs off (k # ks) text =
     res_bind (bb_to_offset_delta offs (uint (mem_rd16 text (off + 2 * k))) off) (\<lambda>d.
       fix_slots offs off ks (mem_wr16 text (off + 2 * k) d))"

definition fix_branch :: "(int \<times> nat) list \<Rightarrow> vmem \<Rightarrow> nat \<Rightarrow> vmem result" where
  "fix_branch offs text off = res_bind (fixup_slots text off) (\<lambda>ks. fix_slots offs off ks text)"

definition branch_fixup :: "(int \<times> nat) list \<Rightarrow> nat list \<Rightarrow> vmem \<Rightarrow> vmem result" where
  "branch_fixup offs fixups text = res_fold (fix_branch offs) text fixups"

text \<open>The code and its size, from a buffer with capacity \<open>cap\<close>.\<close>

definition vm_emit_function :: "ir_unit \<Rightarrow> nat option \<Rightarrow> vmem \<Rightarrow> nat \<Rightarrow> ir_function \<Rightarrow> ir_bb list \<Rightarrow> (vmem \<times> nat) result" where
  "vm_emit_function iu count buf cap f bbs =
     res_bind (emit_blocks iu f count bbs \<lparr>em_text = buf, em_ptr = 0, em_size = cap, em_fixups = []\<rparr>) (\<lambda>(offs, e).
       res_bind (branch_fixup offs (em_fixups e) (em_text e)) (\<lambda>text. Inr (text, em_ptr e)))"

end
