(* ===== verification/Vmir_Emit_Code.thy ===== *)
theory Vmir_Emit_Code
  imports Vmir_Emit_Flow Vmir_VM_Props
begin

text \<open>
  What stands between code generation and execution: emissions as lists of cells, code that
  holds given cells, how the operand macros of the interpreter read them back, and the value an
  operand of an instruction has in a running frame.
\<close>

section \<open>Cells in the text buffer\<close>

datatype code_cell = C8 u8 | C16 u16 | C32 u32 | C64 u64

fun cell_size :: "code_cell \<Rightarrow> nat" where
  "cell_size (C8 _) = 2" | "cell_size (C16 _) = 2" | "cell_size (C32 _) = 4" | "cell_size (C64 _) = 8"

definition cells_size :: "code_cell list \<Rightarrow> nat" where
  "cells_size cs = sum_list (map cell_size cs)"

lemma cells_size_simps [simp]:
  "cells_size [] = 0" "cells_size (c # cs) = cell_size c + cells_size cs"
  "cells_size (cs @ cs') = cells_size cs + cells_size cs'"
  by (simp_all add: cells_size_def)

fun cell_emit :: "code_cell \<Rightarrow> emission" where
  "cell_emit (C8 v) = emit_i8 v" | "cell_emit (C16 v) = emit_i16 v"
| "cell_emit (C32 v) = emit_i32 v" | "cell_emit (C64 v) = emit_i64 v"

fun cell_write :: "code_cell \<Rightarrow> vmem \<Rightarrow> nat \<Rightarrow> vmem" where
  "cell_write (C8 v) t p = mem_wr8 t p v" | "cell_write (C16 v) t p = mem_wr16 t p v"
| "cell_write (C32 v) t p = mem_wr32 t p v" | "cell_write (C64 v) t p = mem_wr64 t p v"

fun cell_read :: "code_cell \<Rightarrow> vmem \<Rightarrow> nat \<Rightarrow> code_cell" where
  "cell_read (C8 _) t p = C8 (mem_rd8 t p)" | "cell_read (C16 _) t p = C16 (mem_rd16 t p)"
| "cell_read (C32 _) t p = C32 (mem_rd32 t p)" | "cell_read (C64 _) t p = C64 (mem_rd64 t p)"

fun put_cells :: "code_cell list \<Rightarrow> emitter \<Rightarrow> emitter" where
  "put_cells [] e = e"
| "put_cells (c # cs) e =
     put_cells cs (e\<lparr>em_text := cell_write c (em_text e) (em_ptr e), em_ptr := em_ptr e + cell_size c\<rparr>)"

fun holds :: "vmem \<Rightarrow> nat \<Rightarrow> code_cell list \<Rightarrow> bool" where
  "holds t p [] \<longleftrightarrow> True"
| "holds t p (c # cs) \<longleftrightarrow> cell_read c t p = c \<and> holds t (p + cell_size c) cs"

abbreviation emit_cells :: "code_cell list \<Rightarrow> emission" where
  "emit_cells cs \<equiv> em_all (map cell_emit cs)"

lemma cell_emit_Inr:
  assumes "em_ptr e + cell_size c < em_size e"
  shows "cell_emit c e = Inr (put_cells [c] e)"
  using assms by (cases c) (simp_all add: emit_i8_def emit_i16_def emit_i32_def emit_i64_def emit_cell_def)

lemma put_cells_fields [simp]:
  "em_ptr (put_cells cs e) = em_ptr e + cells_size cs" "em_size (put_cells cs e) = em_size e"
  "em_fixups (put_cells cs e) = em_fixups e"
  by (induction cs arbitrary: e) simp_all

lemma put_cells_append: "put_cells (cs @ cs') e = put_cells cs' (put_cells cs e)"
  by (induction cs arbitrary: e) simp_all

lemma emit_cells_Inr:
  assumes "em_ptr e + cells_size cs < em_size e"
  shows "emit_cells cs e = Inr (put_cells cs e)"
  using assms by (induction cs arbitrary: e) (simp_all add: cell_emit_Inr)

lemma em_all_append: "em_all (xs @ ys) e = res_bind (em_all xs e) (em_all ys)"
proof (induction xs arbitrary: e)
  case (Cons x xs)
  then show ?case by (cases "x e") simp_all
qed simp

lemma cell_write_frame: "a < p \<or> p + cell_size c \<le> a \<Longrightarrow> cell_write c t p a = t a"
  by (cases c) (auto simp: m8.wr_frame m16.wr_frame m32.wr_frame m64.wr_frame)

lemma put_cells_frame: "a < em_ptr e \<or> em_ptr e + cells_size cs \<le> a \<Longrightarrow> em_text (put_cells cs e) a = em_text e a"
proof (induction cs arbitrary: e)
  case (Cons c cs)
  let ?e = "e\<lparr>em_text := cell_write c (em_text e) (em_ptr e), em_ptr := em_ptr e + cell_size c\<rparr>"
  have "em_text (put_cells cs ?e) a = em_text ?e a" using Cons.prems by (intro Cons.IH) auto
  also have "\<dots> = em_text e a" using Cons.prems by (auto intro: cell_write_frame)
  finally show ?case by simp
qed simp

lemma cell_read_cong: "(\<And>a. p \<le> a \<Longrightarrow> a < p + cell_size c \<Longrightarrow> t a = t' a) \<Longrightarrow> cell_read c t p = cell_read c t' p"
  by (cases c) (auto intro: m8.rd_frame m16.rd_frame m32.rd_frame m64.rd_frame)

lemma holds_cong:
  "(\<And>a. p \<le> a \<Longrightarrow> a < p + cells_size cs \<Longrightarrow> t a = t' a) \<Longrightarrow> holds t p cs = holds t' p cs"
proof (induction cs arbitrary: p)
  case (Cons c cs)
  have "cell_read c t p = cell_read c t' p" using Cons.prems by (intro cell_read_cong) auto
  moreover have "holds t (p + cell_size c) cs = holds t' (p + cell_size c) cs"
    using Cons.prems by (intro Cons.IH) auto
  ultimately show ?case by simp
qed simp

lemma cell_read_write: "cell_read c (cell_write c t p) p = c"
  by (cases c) (simp_all add: m8.rd_wr m16.rd_wr m32.rd_wr m64.rd_wr)

lemma holds_put_cells: "holds (em_text (put_cells cs e)) (em_ptr e) cs"
proof (induction cs arbitrary: e)
  case (Cons c cs)
  let ?e = "e\<lparr>em_text := cell_write c (em_text e) (em_ptr e), em_ptr := em_ptr e + cell_size c\<rparr>"
  have "cell_read c (em_text (put_cells cs ?e)) (em_ptr e) = cell_read c (em_text ?e) (em_ptr e)"
    by (intro cell_read_cong put_cells_frame) simp
  with Cons [of ?e] show ?case by (simp add: cell_read_write)
qed simp

lemma holds_append: "holds t p (cs @ cs') \<longleftrightarrow> holds t p cs \<and> holds t (p + cells_size cs) cs'"
  by (induction cs arbitrary: p) (auto simp: add.assoc)

section \<open>Code in the machine\<close>

text \<open>The code at the instruction pointer, and the cell that starts at word \<open>I[k]\<close>.\<close>

definition loaded :: "vm_unit \<Rightarrow> vm_frame \<Rightarrow> code_cell list \<Rightarrow> bool" where
  "loaded st f cs \<longleftrightarrow> (\<exists>t n. iu_vm_funcs st (fr_fn f) = Some (t, n) \<and>
     fr_pc f + cells_size cs \<le> n \<and> holds t (fr_pc f) cs)"

fun cell_at :: "code_cell list \<Rightarrow> nat \<Rightarrow> code_cell option" where
  "cell_at [] k = None"
| "cell_at (c # cs) k = (if k = 0 then Some c else cell_at cs (k - cell_size c div 2))"

fun cell_ok :: "code_cell list \<Rightarrow> nat \<Rightarrow> bool" where
  "cell_ok [] k = False"
| "cell_ok (c # cs) k = (k = 0 \<or> cell_size c div 2 \<le> k \<and> cell_ok cs (k - cell_size c div 2))"

lemma loaded_at:
  assumes "iu_vm_funcs st (fr_fn f) = Some (t, n)" "p + cells_size cs \<le> n" "holds t p cs"
    and "cell_at cs k = Some c" "cell_ok cs k"
  shows "cell_read c t (p + 2 * k) = c \<and> p + 2 * k + cell_size c \<le> n"
  using assms(2-)
proof (induction cs arbitrary: p k)
  case (Cons d ds)
  show ?case
  proof (cases "k = 0")
    case False
    have d: "even (cell_size d)" by (cases d) simp_all
    let ?k = "k - cell_size d div 2"
    have "cell_size d + 2 * ?k = 2 * k" using d Cons.prems(4) False by auto
    with Cons.IH [of "p + cell_size d" ?k] Cons.prems False show ?thesis by (simp add: add.assoc)
  qed (use Cons.prems in auto)
qed simp

lemma loaded_imm:
  assumes "loaded st f cs" "cell_at cs k = Some c" "cell_ok cs k"
  shows "c = C8 v \<Longrightarrow> UIMM8 st f k = Inr v" and "c = C16 w \<Longrightarrow> UIMM16 st f k = Inr w"
    and "c = C32 x \<Longrightarrow> UIMM32 st f k = Inr x" and "c = C64 y \<Longrightarrow> UIMM64 st f k = Inr y"
proof -
  obtain t n where t: "iu_vm_funcs st (fr_fn f) = Some (t, n)" "fr_pc f + cells_size cs \<le> n" "holds t (fr_pc f) cs"
    using assms(1) by (auto simp: loaded_def)
  note at = loaded_at [OF t assms(2,3)]
  show "c = C8 v \<Longrightarrow> UIMM8 st f k = Inr v" using t at by (simp add: UIMM8_def imm_def)
  show "c = C16 w \<Longrightarrow> UIMM16 st f k = Inr w" using t at by (simp add: UIMM16_def imm_def)
  show "c = C32 x \<Longrightarrow> UIMM32 st f k = Inr x" using t at by (simp add: UIMM32_def imm_def)
  show "c = C64 y \<Longrightarrow> UIMM64 st f k = Inr y" using t at by (simp add: UIMM64_def imm_def)
qed

lemma loaded_tail:
  assumes "loaded st f (c # cs)"
  shows "loaded st (f\<lparr>fr_pc := fr_pc f + cell_size c\<rparr>) cs"
  using assms by (auto simp: loaded_def add.assoc)

lemma loaded_regs [simp]: "loaded (st\<lparr>iu_regs := r\<rparr>) f cs = loaded st f cs"
  by (simp add: loaded_def)

text \<open>The code emitted between two states of the buffer is what the machine runs.\<close>

definition in_code :: "vm_unit \<Rightarrow> vm_frame \<Rightarrow> emitter \<Rightarrow> emitter \<Rightarrow> bool" where
  "in_code st f e e' \<longleftrightarrow> fr_pc f = em_ptr e \<and>
     (\<exists>t n. iu_vm_funcs st (fr_fn f) = Some (t, n) \<and> em_ptr e' \<le> n \<and>
        (\<forall>a. em_ptr e \<le> a \<and> a < em_ptr e' \<longrightarrow> t a = em_text e' a))"

lemma in_code_loaded: "in_code st f e (put_cells cs e) \<Longrightarrow> loaded st f cs"
proof -
  assume "in_code st f e (put_cells cs e)"
  then obtain t n where t: "fr_pc f = em_ptr e" "iu_vm_funcs st (fr_fn f) = Some (t, n)"
      "em_ptr e + cells_size cs \<le> n"
    and eq: "\<And>a. em_ptr e \<le> a \<Longrightarrow> a < em_ptr e + cells_size cs \<Longrightarrow> t a = em_text (put_cells cs e) a"
    unfolding in_code_def by auto
  have "holds t (em_ptr e) cs"
    using holds_cong [of "em_ptr e" cs t "em_text (put_cells cs e)"] eq holds_put_cells [of cs e] by simp
  with t show ?thesis unfolding loaded_def by auto
qed

section \<open>Execution\<close>

lemma exec_next:
  assumes "vm_step env f st = Inr (Flow (Next f'), st')"
  shows "vm_exec env (Suc n) f st = vm_exec env n f' st'"
  using assms by (simp add: vm_cont_def vm_flow_cont_def)

lemma exec_halt: "vm_step env f st = Inl h \<Longrightarrow> vm_exec env (Suc n) f st = Some (Inl h)"
  by (simp add: vm_cont_def)

lemma step_loaded:
  assumes "loaded st f (C16 w # cs)" "w = vm_resolve op"
  shows "vm_step env f st = exec_op env op (f\<lparr>fr_pc := fr_pc f + 2\<rparr>) st"
proof -
  have "UIMM16 st f 0 = Inr w" by (rule loaded_imm(2) [OF assms(1)]) simp_all
  then show ?thesis using assms(2) by (simp add: vm_step_def vm_decode_resolve)
qed

section \<open>Operands\<close>

text \<open>The place of a register of \<open>sz\<close> bytes; operands of the code have 16 bits.\<close>

definition reg_at :: "vm_unit \<Rightarrow> vm_frame \<Rightarrow> int \<Rightarrow> nat \<Rightarrow> nat option" where
  "reg_at st f r sz =
     (if - (2 ^ 15) \<le> r \<and> r < 2 ^ 15 \<and> 0 \<le> int (fr_rf f) + r \<and> int (fr_rf f) + r + int sz \<le> int (iu_regsize st)
      then Some (nat (int (fr_rf f) + r)) else None)"

lemma reg_at_pc [simp]: "reg_at st (f\<lparr>fr_pc := p\<rparr>) r sz = reg_at st f r sz"
  by (simp add: reg_at_def)

lemma sint_reg16: "- (2 ^ 15) \<le> r \<Longrightarrow> r < 2 ^ 15 \<Longrightarrow> sint (word_of_int r :: u16) = r"
  by (simp add: signed_of_int signed_take_bit_int_eq_self)

lemma reg_addr_at:
  assumes "UIMM16 st f k = Inr (word_of_int r)" "reg_at st f r sz = Some a"
  shows "reg_addr st f k sz = Inr a"
  using assms by (auto simp: reg_addr_def reg_at_def sint_reg16 Let_def split: if_splits)

definition reg_of :: "ir_value \<Rightarrow> int" where
  "reg_of iv = (case iv_class iv of Vc_regframe r \<Rightarrow> r | _ \<Rightarrow> 0)"

lemma ucast_word_of_int_16: "(ucast (word_of_int r :: u32) :: u16) = word_of_int r"
  by (rule bit_word_eqI) (simp add: bit_simps)

lemma reg16_of: "is_reg iv \<Longrightarrow> reg16 iv = Inr (word_of_int (reg_of iv))"
  by (auto simp: reg16_def value_reg_def is_reg_def reg_of_def ucast_word_of_int_16
        split: value_class.splits)

lemma R32_at: "UIMM16 st f k = Inr (word_of_int r) \<Longrightarrow> reg_at st f r 4 = Some a \<Longrightarrow> R32 st f k = Inr (mem_rd32 (iu_regs st) a)"
  by (simp add: R32_def reg_addr_at)

lemma R64_at: "UIMM16 st f k = Inr (word_of_int r) \<Longrightarrow> reg_at st f r 8 = Some a \<Longrightarrow> R64 st f k = Inr (mem_rd64 (iu_regs st) a)"
  by (simp add: R64_def reg_addr_at)

lemma put32_at:
  "UIMM16 st f 0 = Inr (word_of_int r) \<Longrightarrow> reg_at st f r 4 = Some a \<Longrightarrow>
   put32 k f st v = Inr (Flow (Next (f\<lparr>fr_pc := fr_pc f + 2 * k\<rparr>)), st\<lparr>iu_regs := mem_wr32 (iu_regs st) a v\<rparr>)"
  by (simp add: put32_def AR32_def reg_addr_at next_op_def)

lemma put64_at:
  "UIMM16 st f 0 = Inr (word_of_int r) \<Longrightarrow> reg_at st f r 8 = Some a \<Longrightarrow>
   put64 k f st v = Inr (Flow (Next (f\<lparr>fr_pc := fr_pc f + 2 * k\<rparr>)), st\<lparr>iu_regs := mem_wr64 (iu_regs st) a v\<rparr>)"
  by (simp add: put64_def AR64_def reg_addr_at next_op_def)

text \<open>
  The unsigned value of an operand of \<open>w\<close> bits, 64 or at most 32: the low bits of its register or its constant.
\<close>

definition operand :: "nat \<Rightarrow> ir_unit \<Rightarrow> vm_unit \<Rightarrow> vm_frame \<Rightarrow> ir_value \<Rightarrow> int option" where
  "operand w iu st f iv =
     (if is_reg iv then
        if w = 64 then map_option (\<lambda>a. uint (mem_rd64 (iu_regs st) a)) (reg_at st f (reg_of iv) 8)
        else map_option (\<lambda>a. take_bit w (uint (mem_rd32 (iu_regs st) a))) (reg_at st f (reg_of iv) 4)
      else if w = 64 then (case value_get_const64 (iu_tys iu) iv of Inr c \<Rightarrow> Some (uint c) | Inl _ \<Rightarrow> None)
      else (case value_get_const32 (iu_tys iu) iv of Inr c \<Rightarrow> Some (take_bit w (uint c)) | Inl _ \<Rightarrow> None))"

definition put_reg :: "nat \<Rightarrow> vm_unit \<Rightarrow> nat \<Rightarrow> int \<Rightarrow> vm_unit" where
  "put_reg w st d z = st\<lparr>iu_regs := if w = 64 then mem_wr64 (iu_regs st) d (word_of_int z)
     else mem_wr32 (iu_regs st) d (word_of_int z)\<rparr>"

lemma operand_reg32: "operand 32 iu st f iv = Some x \<Longrightarrow> is_reg iv \<Longrightarrow>
    \<exists>a. reg_at st f (reg_of iv) 4 = Some a \<and> x = uint (mem_rd32 (iu_regs st) a)"
  by (auto simp: operand_def bintr_uint)

lemma operand_reg64: "operand 64 iu st f iv = Some x \<Longrightarrow> is_reg iv \<Longrightarrow>
    \<exists>a. reg_at st f (reg_of iv) 8 = Some a \<and> x = uint (mem_rd64 (iu_regs st) a)"
  by (auto simp: operand_def)

lemma operand_const32: "operand 32 iu st f iv = Some x \<Longrightarrow> \<not> is_reg iv \<Longrightarrow>
    \<exists>c. value_get_const32 (iu_tys iu) iv = Inr c \<and> x = uint c"
  by (auto simp: operand_def bintr_uint split: sum.splits)

lemma operand_const64: "operand 64 iu st f iv = Some x \<Longrightarrow> \<not> is_reg iv \<Longrightarrow>
    \<exists>c. value_get_const64 (iu_tys iu) iv = Inr c \<and> x = uint c"
  by (auto simp: operand_def split: sum.splits)

section \<open>Emissions as cells\<close>

abbreviation reg_cell :: "ir_value \<Rightarrow> code_cell" where
  "reg_cell iv \<equiv> C16 (word_of_int (reg_of iv))"

lemma regs16_of: "\<forall>v \<in> set vs. is_reg v \<Longrightarrow> regs16 vs = Inr (map (\<lambda>v. word_of_int (reg_of v)) vs)"
  by (induction vs) (simp_all add: reg16_of)

lemma emit_ops_cells:
  "em_ptr e + 2 * (1 + length rs) < em_size e \<Longrightarrow>
   emit_ops n rs e = Inr (put_cells (C16 (of_nat n) # map C16 rs) e)"
proof -
  assume room: "em_ptr e + 2 * (1 + length rs) < em_size e"
  have "cells_size (map C16 rs) = 2 * length rs" by (induction rs) simp_all
  with room emit_cells_Inr [of e "C16 (of_nat n) # map C16 rs"] show ?thesis
    by (simp add: emit_ops_def emit_opn_def comp_def)
qed

lemma emit_op_regs_cells:
  assumes "\<forall>v \<in> set vs. is_reg v" "em_ptr e + 2 * (1 + length vs) < em_size e"
  shows "emit_op_regs n vs e = Inr (put_cells (C16 (of_nat n) # map reg_cell vs) e)"
  using assms by (simp add: emit_op_regs_def regs16_of emit_ops_cells comp_def)

lemma emit_c_cells:
  "value_get_const32 (iu_tys iu) iv = Inr c \<Longrightarrow> em_ptr e + 4 < em_size e \<Longrightarrow> emit_c32 iu iv e = Inr (put_cells [C32 c] e)"
  "value_get_const64 (iu_tys iu) iv = Inr c' \<Longrightarrow> em_ptr e + 8 < em_size e \<Longrightarrow> emit_c64 iu iv e = Inr (put_cells [C64 c'] e)"
  "value_get_const32 (iu_tys iu) iv = Inr c \<Longrightarrow> em_ptr e + 2 < em_size e \<Longrightarrow> emit_c16 iu iv e = Inr (put_cells [C16 (ucast c)] e)"
  "value_get_const32 (iu_tys iu) iv = Inr c \<Longrightarrow> em_ptr e + 2 < em_size e \<Longrightarrow> emit_c8 iu iv e = Inr (put_cells [C8 (ucast c)] e)"
  using cell_emit_Inr [of e "C32 c"] cell_emit_Inr [of e "C64 c'"] cell_emit_Inr [of e "C16 (ucast c)"]
    cell_emit_Inr [of e "C8 (ucast c)"]
  by (simp_all add: emit_c32_def emit_c64_def emit_c16_def emit_c8_def)

definition align_cells :: "emitter \<Rightarrow> code_cell list" where
  "align_cells e = (if even (em_ptr e div 2) then [C16 (vm_resolve (VM_FLOW NOP))] else [])"

lemma vm_align32_cells: "em_ptr e + 2 < em_size e \<Longrightarrow> vm_align32 True e = Inr (put_cells (align_cells e) e)"
  using cell_emit_Inr [of e "C16 (vm_resolve (VM_FLOW NOP))"]
  by (simp add: vm_align32_def align_cells_def emit_op_def emit_opn_def vm_resolve_def)

lemma align_size: "cells_size (align_cells e) \<le> 2"
  by (simp add: align_cells_def)

lemmas cells_simps = emit_op_regs_cells emit_c_cells vm_align32_cells put_cells_append [symmetric]

end
