(* ===== verification/Vmir_Emit_Props.thy ===== *)
theory Vmir_Emit_Props
  imports Vmir_Emit_Code Vmir_Value_Props
begin

text \<open>
  Correctness of the code for binary operations and integer compares: running what \<open>emit_binop\<close>
  and \<open>emit_cmp2\<close> write is the LLVM operation on the operands.
\<close>

section \<open>Binary operations\<close>

definition alu_run :: "vm_env \<Rightarrow> vm_frame \<Rightarrow> vm_unit \<Rightarrow> nat \<Rightarrow> nat \<Rightarrow> nat \<Rightarrow> int option \<Rightarrow> bool" where
  "alu_run env f st pc' w d r \<longleftrightarrow> (\<exists>k > 0. \<forall>n. vm_exec env (n + k) f st =
     (case r of None \<Rightarrow> Some (Inl Ub) | Some z \<Rightarrow> vm_exec env n (f\<lparr>fr_pc := pc'\<rparr>) (put_reg w st d z)))"

lemma alu_runI:
  assumes "vm_step env f st = (case r of None \<Rightarrow> Inl Ub | Some z \<Rightarrow> Inr (Flow (Next (f\<lparr>fr_pc := pc'\<rparr>)), put_reg w st d z))"
  shows "alu_run env f st pc' w d r"
proof -
  have "vm_exec env (Suc n) f st = (case r of None \<Rightarrow> Some (Inl Ub)
      | Some z \<Rightarrow> vm_exec env n (f\<lparr>fr_pc := pc'\<rparr>) (put_reg w st d z))" for n
    using assms exec_halt [of env f st Ub n] exec_next [of env f st "f\<lparr>fr_pc := pc'\<rparr>" _ n]
    by (cases r) simp_all
  then show ?thesis unfolding alu_run_def by (intro exI [of _ 1]) simp
qed

lemma nop_step:
  assumes "loaded st f (C16 (vm_resolve (VM_FLOW NOP)) # cs)"
  shows "vm_step env f st = Inr (Flow (Next (f\<lparr>fr_pc := fr_pc f + 2\<rparr>)), st)"
  using step_loaded [OF assms refl] by (simp add: next_op_def)

lemma alu_run_aligned:
  assumes "loaded st f (align_cells e @ cs)"
    and "\<And>g. g = f\<lparr>fr_pc := fr_pc f + cells_size (align_cells e)\<rparr> \<Longrightarrow> loaded st g cs \<Longrightarrow> alu_run env g st pc' w d r"
  shows "alu_run env f st pc' w d r"
proof (cases "align_cells e = []")
  case True
  with assms show ?thesis by simp
next
  case False
  then have a: "align_cells e = [C16 (vm_resolve (VM_FLOW NOP))]" by (simp add: align_cells_def split: if_splits)
  let ?g = "f\<lparr>fr_pc := fr_pc f + 2\<rparr>"
  have "loaded st ?g cs" using loaded_tail [of st f "C16 (vm_resolve (VM_FLOW NOP))" cs] assms(1) a by simp
  with assms(2) [of ?g] a have "alu_run env ?g st pc' w d r" by simp
  then obtain k where k: "k > 0" "\<forall>n. vm_exec env (n + k) ?g st = (case r of None \<Rightarrow> Some (Inl Ub)
      | Some z \<Rightarrow> vm_exec env n (?g\<lparr>fr_pc := pc'\<rparr>) (put_reg w st d z))"
    unfolding alu_run_def by blast
  have "vm_exec env (n + Suc k) f st = vm_exec env (n + k) ?g st" for n
    using exec_next [OF nop_step, of st f cs env "n + k"] assms(1) a by simp
  with k show ?thesis unfolding alu_run_def by (intro exI [of _ "Suc k"]) (cases r; simp)
qed

lemma put_reg_word [simp]:
  "put_reg 32 st d (uint (v :: u32)) = st\<lparr>iu_regs := mem_wr32 (iu_regs st) d v\<rparr>"
  "put_reg 64 st d (uint (v' :: u64)) = st\<lparr>iu_regs := mem_wr64 (iu_regs st) d v'\<rparr>"
  by (simp_all add: put_reg_def)

lemma alu_run_step:
  assumes "loaded st f (C16 w # cs)" "w = vm_resolve op"
    and "\<And>g. loaded st g cs \<Longrightarrow> (\<And>r sz. reg_at st g r sz = reg_at st f r sz) \<Longrightarrow> fr_pc g = fr_pc f + 2 \<Longrightarrow>
      (\<And>p. g\<lparr>fr_pc := p\<rparr> = f\<lparr>fr_pc := p\<rparr>) \<Longrightarrow>
      exec_op env op g st = (case r of None \<Rightarrow> Inl Ub | Some z \<Rightarrow> Inr (Flow (Next (f\<lparr>fr_pc := pc'\<rparr>)), put_reg n st d z))"
  shows "alu_run env f st pc' n d r"
proof (rule alu_runI)
  have "loaded st (f\<lparr>fr_pc := fr_pc f + 2\<rparr>) cs" using loaded_tail [OF assms(1)] by simp
  from assms(3) [OF this] show "vm_step env f st = (case r of None \<Rightarrow> Inl Ub
      | Some z \<Rightarrow> Inr (Flow (Next (f\<lparr>fr_pc := pc'\<rparr>)), put_reg n st d z))"
    using step_loaded [OF assms(1,2)] by simp
qed

lemma alu_run_r32:
  assumes l: "loaded st f [C16 (vm_resolve (VM_R32 b)), C16 (word_of_int d), C16 (word_of_int x), C16 (word_of_int y)]"
    and r: "reg_at st f d 4 = Some ad" "reg_at st f x 4 = Some ax" "reg_at st f y 4 = Some ay"
  shows "alu_run env f st (fr_pc f + 8) 32 ad (map_option uint (alu b (mem_rd32 (iu_regs st) ax) (mem_rd32 (iu_regs st) ay)))"
  using r by (intro alu_run_step [OF l refl], cases "alu b (mem_rd32 (iu_regs st) ax) (mem_rd32 (iu_regs st) ay)")
    (simp_all add: exec_r32_def R32_at [where r = x] R32_at [where r = y] put32_at [where r = d] loaded_imm)

lemma alu_run_r32c:
  assumes l: "loaded st f [C16 (vm_resolve (VM_R32C b)), C16 (word_of_int d), C16 (word_of_int x), C32 c]"
    and r: "reg_at st f d 4 = Some ad" "reg_at st f x 4 = Some ax"
  shows "alu_run env f st (fr_pc f + 10) 32 ad (map_option uint (alu b (mem_rd32 (iu_regs st) ax) c))"
  using r by (intro alu_run_step [OF l refl], cases "alu b (mem_rd32 (iu_regs st) ax) c")
    (simp_all add: exec_r32c_def R32_at [where r = x] put32_at [where r = d] loaded_imm)

lemma alu_run_inc_dec:
  assumes l: "loaded st f [C16 (vm_resolve (VM_MISC i)), C16 (word_of_int d), C16 (word_of_int x)]"
    and r: "reg_at st f d 4 = Some ad" "reg_at st f x 4 = Some ax"
    and i: "i = INC_R32 \<and> v = mem_rd32 (iu_regs st) ax + 1 \<or> i = DEC_R32 \<and> v = mem_rd32 (iu_regs st) ax - 1"
  shows "alu_run env f st (fr_pc f + 6) 32 ad (Some (uint v))"
  using r i by (intro alu_run_step [OF l refl])
    (auto simp: R32_at [where r = x] put32_at [where r = d] loaded_imm)

lemma alu_run_r64:
  assumes l: "loaded st f [C16 (vm_resolve (VM_R64 b)), C16 (word_of_int d), C16 (word_of_int x), C16 (word_of_int y)]"
    and r: "reg_at st f d 8 = Some ad" "reg_at st f x 8 = Some ax" "reg_at st f y 8 = Some ay"
  shows "alu_run env f st (fr_pc f + 8) 64 ad (map_option uint (alu b (mem_rd64 (iu_regs st) ax) (mem_rd64 (iu_regs st) ay)))"
  using r by (intro alu_run_step [OF l refl], cases "alu b (mem_rd64 (iu_regs st) ax) (mem_rd64 (iu_regs st) ay)")
    (simp_all add: exec_r64_def R64_at [where r = x] R64_at [where r = y] put64_at [where r = d] loaded_imm)

lemma alu_run_r64c:
  assumes l: "loaded st f [C16 (vm_resolve (VM_R64C b)), C16 (word_of_int d), C16 (word_of_int x), C64 c]"
    and r: "reg_at st f d 8 = Some ad" "reg_at st f x 8 = Some ax"
  shows "alu_run env f st (fr_pc f + 14) 64 ad (map_option uint (alu b (mem_rd64 (iu_regs st) ax) c))"
  using r by (intro alu_run_step [OF l refl], cases "alu b (mem_rd64 (iu_regs st) ax) c")
    (simp_all add: exec_r64c_def R64_at [where r = x] put64_at [where r = d] loaded_imm)

text \<open>What the code between two buffer states does, for every machine that runs it.\<close>

definition computes :: "nat \<Rightarrow> ir_unit \<Rightarrow> emitter \<Rightarrow> emitter \<Rightarrow> ir_value \<Rightarrow> ir_value \<Rightarrow> ir_value \<Rightarrow> nat \<Rightarrow> (int \<Rightarrow> int \<Rightarrow> int option) \<Rightarrow> bool" where
  "computes w iu e e' lhs rhs ret w' g \<longleftrightarrow> (\<forall>env st f x y d.
     in_code st f e e' \<and> operand w iu st f lhs = Some x \<and> operand w iu st f rhs = Some y \<and>
     reg_at st f (reg_of ret) (if w' = 64 then 8 else 4) = Some d \<longrightarrow> alu_run env f st (em_ptr e') w' d (g x y))"

lemma computesI:
  assumes "e' = put_cells cs e"
    and "\<And>env st f x y d. loaded st f cs \<Longrightarrow> fr_pc f = em_ptr e \<Longrightarrow> operand w iu st f lhs = Some x \<Longrightarrow> operand w iu st f rhs = Some y \<Longrightarrow>
      reg_at st f (reg_of ret) (if w' = 64 then 8 else 4) = Some d \<Longrightarrow> alu_run env f st (em_ptr e + cells_size cs) w' d (g x y)"
  shows "computes w iu e e' lhs rhs ret w' g"
  unfolding computes_def using assms in_code_loaded by (auto simp: in_code_def)

lemma binop_reg32:
  assumes "is_reg lhs" "is_reg rhs" "is_reg ret" "em_ptr e + 8 < em_size e"
  shows "\<exists>e'. emit_op_regs (vm_op_num (VM_R32 ADD) + BINOP b) [ret, lhs, rhs] e = Inr e' \<and>
    computes 32 iu e e' lhs rhs ret 32 (llvm_binop 32 b)"
proof -
  have op: "vm_op_num (VM_R32 ADD) + BINOP b = vm_op_num (VM_R32 b)" by (simp add: vm_op_num_code)
  let ?cs = "[C16 (vm_resolve (VM_R32 b)), reg_cell ret, reg_cell lhs, reg_cell rhs]"
  have "emit_op_regs (vm_op_num (VM_R32 ADD) + BINOP b) [ret, lhs, rhs] e = Inr (put_cells ?cs e)"
    using assms by (simp add: op emit_op_regs_cells vm_resolve_def)
  moreover have "computes 32 iu e (put_cells ?cs e) lhs rhs ret 32 (llvm_binop 32 b)"
  proof (rule computesI [OF refl])
    fix env st f x y d
    assume l: "loaded st f ?cs" and pc: "fr_pc f = em_ptr e" and x: "operand 32 iu st f lhs = Some x"
      and y: "operand 32 iu st f rhs = Some y" and d: "reg_at st f (reg_of ret) (if (32::nat) = 64 then 8 else 4) = Some d"
    obtain ax where ax: "reg_at st f (reg_of lhs) 4 = Some ax" "x = uint (mem_rd32 (iu_regs st) ax)"
      using operand_reg32 [OF x assms(1)] by blast
    obtain ay where ay: "reg_at st f (reg_of rhs) 4 = Some ay" "y = uint (mem_rd32 (iu_regs st) ay)"
      using operand_reg32 [OF y assms(2)] by blast
    show "alu_run env f st (em_ptr e + cells_size ?cs) 32 d (llvm_binop 32 b x y)"
      using alu_run_r32 [OF l _ ax(1) ay(1), of d env] d pc by (simp add: ax(2) ay(2) alu_llvm)
  qed
  ultimately show ?thesis by blast
qed

lemma binop_reg64:
  assumes "is_reg lhs" "is_reg rhs" "is_reg ret" "em_ptr e + 8 < em_size e"
  shows "\<exists>e'. emit_op_regs (vm_op_num (VM_R64 ADD) + BINOP b) [ret, lhs, rhs] e = Inr e' \<and>
    computes 64 iu e e' lhs rhs ret 64 (llvm_binop 64 b)"
proof -
  have op: "vm_op_num (VM_R64 ADD) + BINOP b = vm_op_num (VM_R64 b)" by (simp add: vm_op_num_code)
  let ?cs = "[C16 (vm_resolve (VM_R64 b)), reg_cell ret, reg_cell lhs, reg_cell rhs]"
  have "emit_op_regs (vm_op_num (VM_R64 ADD) + BINOP b) [ret, lhs, rhs] e = Inr (put_cells ?cs e)"
    using assms by (simp add: op emit_op_regs_cells vm_resolve_def)
  moreover have "computes 64 iu e (put_cells ?cs e) lhs rhs ret 64 (llvm_binop 64 b)"
  proof (rule computesI [OF refl])
    fix env st f x y d
    assume l: "loaded st f ?cs" and pc: "fr_pc f = em_ptr e" and x: "operand 64 iu st f lhs = Some x"
      and y: "operand 64 iu st f rhs = Some y" and d: "reg_at st f (reg_of ret) (if (64::nat) = 64 then 8 else 4) = Some d"
    obtain ax where ax: "reg_at st f (reg_of lhs) 8 = Some ax" "x = uint (mem_rd64 (iu_regs st) ax)"
      using operand_reg64 [OF x assms(1)] by blast
    obtain ay where ay: "reg_at st f (reg_of rhs) 8 = Some ay" "y = uint (mem_rd64 (iu_regs st) ay)"
      using operand_reg64 [OF y assms(2)] by blast
    show "alu_run env f st (em_ptr e + cells_size ?cs) 64 d (llvm_binop 64 b x y)"
      using alu_run_r64 [OF l _ ax(1) ay(1), of d env] d pc by (simp add: ax(2) ay(2) alu_llvm)
  qed
  ultimately show ?thesis by blast
qed

lemma binop_const64:
  assumes "is_reg lhs" "\<not> is_reg rhs" "is_reg ret" "em_ptr e + 16 < em_size e" "value_get_const64 (iu_tys iu) rhs = Inr c"
  shows "\<exists>e'. em_all [vm_align32 True, emit_op_regs (vm_op_num (VM_R64C ADD) + BINOP b) [ret, lhs], emit_c64 iu rhs] e = Inr e' \<and>
    computes 64 iu e e' lhs rhs ret 64 (llvm_binop 64 b)"
proof -
  have op: "vm_op_num (VM_R64C ADD) + BINOP b = vm_op_num (VM_R64C b)" by (simp add: vm_op_num_code)
  let ?cs = "[C16 (vm_resolve (VM_R64C b)), reg_cell ret, reg_cell lhs, C64 c]"
  let ?as = "align_cells e @ ?cs"
  have "em_all [vm_align32 True, emit_op_regs (vm_op_num (VM_R64C ADD) + BINOP b) [ret, lhs], emit_c64 iu rhs] e =
      Inr (put_cells ?as e)"
    using assms align_size [of e] by (simp add: op cells_simps vm_resolve_def)
  moreover have "computes 64 iu e (put_cells ?as e) lhs rhs ret 64 (llvm_binop 64 b)"
  proof (rule computesI [OF refl])
    fix env st f x y d
    assume l: "loaded st f ?as" and pc: "fr_pc f = em_ptr e" and x: "operand 64 iu st f lhs = Some x"
      and y: "operand 64 iu st f rhs = Some y" and d: "reg_at st f (reg_of ret) (if (64::nat) = 64 then 8 else 4) = Some d"
    obtain ax where ax: "reg_at st f (reg_of lhs) 8 = Some ax" "x = uint (mem_rd64 (iu_regs st) ax)"
      using operand_reg64 [OF x assms(1)] by blast
    have y': "y = uint c" using operand_const64 [OF y assms(2)] assms(5) by auto
    show "alu_run env f st (em_ptr e + cells_size ?as) 64 d (llvm_binop 64 b x y)"
    proof (rule alu_run_aligned [OF l])
      fix g assume g: "g = f\<lparr>fr_pc := fr_pc f + cells_size (align_cells e)\<rparr>" and lg: "loaded st g ?cs"
      show "alu_run env g st (em_ptr e + cells_size ?as) 64 d (llvm_binop 64 b x y)"
        using alu_run_r64c [OF lg, of d ax env] ax(1) d pc by (simp add: ax(2) y' alu_llvm g add.assoc)
    qed
  qed
  ultimately show ?thesis by blast
qed

lemma alu_one: "alu ADD a 1 = Some (a + 1)" "alu SUB a (- 1) = Some (a + 1)" "alu ADD a (- 1) = Some (a - 1)"
  "alu SUB a 1 = Some (a - 1)"
  by simp_all

lemma binop_const32:
  assumes "is_reg lhs" "\<not> is_reg rhs" "is_reg ret" "em_ptr e + 10 < em_size e" "value_get_const32 (iu_tys iu) rhs = Inr c"
  shows "\<exists>e'. emit_binop_rc iu (BINOP b) IR_TYPE_INT32 ret lhs rhs e = Inr e' \<and>
    computes 32 iu e e' lhs rhs ret 32 (llvm_binop 32 b)"
proof -
  have op: "vm_op_num (VM_R32C ADD) + BINOP b = vm_op_num (VM_R32C b)" by (simp add: vm_op_num_code)
  define inc where "inc = (b = ADD \<and> c = 1 \<or> b = SUB \<and> c = - 1)"
  define dec where "dec = (b = ADD \<and> c = - 1 \<or> b = SUB \<and> c = 1)"
  define cs where "cs = (if inc then [C16 (vm_resolve (VM_MISC INC_R32)), reg_cell ret, reg_cell lhs]
    else if dec then [C16 (vm_resolve (VM_MISC DEC_R32)), reg_cell ret, reg_cell lhs]
    else [C16 (vm_resolve (VM_R32C b)), reg_cell ret, reg_cell lhs, C32 c])"
  have B: "BINOP b = 0 \<longleftrightarrow> b = ADD" "BINOP b = Suc 0 \<longleftrightarrow> b = SUB" by (cases b; simp)+
  have "emit_binop_rc iu (BINOP b) IR_TYPE_INT32 ret lhs rhs e = Inr (put_cells cs e)"
    using assms unfolding emit_binop_rc_def cs_def inc_def dec_def
    by (simp add: B op cells_simps vm_resolve_def del: put_cells.simps)
  moreover have "computes 32 iu e (put_cells cs e) lhs rhs ret 32 (llvm_binop 32 b)"
  proof (rule computesI [OF refl])
    fix env st f x y d
    assume l: "loaded st f cs" and pc: "fr_pc f = em_ptr e" and x: "operand 32 iu st f lhs = Some x"
      and y: "operand 32 iu st f rhs = Some y" and d: "reg_at st f (reg_of ret) (if (32::nat) = 64 then 8 else 4) = Some d"
    obtain ax where ax: "reg_at st f (reg_of lhs) 4 = Some ax" "x = uint (mem_rd32 (iu_regs st) ax)"
      using operand_reg32 [OF x assms(1)] by blast
    have y': "y = uint c" using operand_const32 [OF y assms(2)] assms(5) by auto
    have g: "llvm_binop 32 b x y = map_option uint (alu b (mem_rd32 (iu_regs st) ax) c)"
      by (simp add: ax(2) y' alu_llvm)
    have d': "reg_at st f (reg_of ret) 4 = Some d" using d by simp
    consider (i) inc | (dc) "\<not> inc" dec | (o) "\<not> inc" "\<not> dec" by blast
    then show "alu_run env f st (em_ptr e + cells_size cs) 32 d (llvm_binop 32 b x y)"
    proof cases
      case i
      then have "alu b a c = Some (a + 1)" for a by (auto simp: inc_def)
      then show ?thesis using alu_run_inc_dec [of st f INC_R32 _ _ d ax] l d' ax(1) pc i by (simp add: g cs_def)
    next
      case dc
      then have "alu b a c = Some (a - 1)" for a by (auto simp: dec_def)
      then show ?thesis using alu_run_inc_dec [of st f DEC_R32 _ _ d ax] l d' ax(1) pc dc by (simp add: g cs_def)
    next
      case o
      then show ?thesis using alu_run_r32c [of st f b _ _ c d ax] l d' ax(1) pc by (simp add: g cs_def)
    qed
  qed
  ultimately show ?thesis by blast
qed

definition const_known :: "nat \<Rightarrow> ir_unit \<Rightarrow> ir_value \<Rightarrow> bool" where
  "const_known w iu iv \<longleftrightarrow>
     (if w = 64 then \<exists>c. value_get_const64 (iu_tys iu) iv = Inr c else \<exists>c. value_get_const32 (iu_tys iu) iv = Inr c)"

definition sample_unit :: ir_unit where
  "sample_unit = fold_unit\<lparr>iu_ts := (iu_ts fold_unit)\<lparr>iu_types := [It_int32, It_int64, It_int8]\<rparr>,
     iu_values := map (\<lambda>(c, t). Some (new_value\<lparr>iv_class := c, iv_type := t\<rparr>))
       [(Vc_regframe 16, 0), (Vc_constant 5, 0), (Vc_regframe 24, 0)]\<rparr>"

definition sample_value :: "value_class \<Rightarrow> ir_value" where
  "sample_value c = new_value\<lparr>iv_class := c, iv_type := 0\<rparr>"

definition sample_emitter :: emitter where
  "sample_emitter = \<lparr>em_text = (\<lambda>_. 0), em_ptr = 0, em_size = 64, em_fixups = []\<rparr>"

definition sample_binary :: "nat \<Rightarrow> int \<Rightarrow> int \<Rightarrow> ir_instr_binary" where
  "sample_binary op l r = \<lparr>ibi_super = \<lparr>ii_ret = \<lparr>vt_value = 2, vt_type = 0\<rparr>, ii_rets = []\<rparr>, ibi_op = op,
     ibi_lhs = \<lparr>vt_value = l, vt_type = 0\<rparr>, ibi_rhs = \<lparr>vt_value = r, vt_type = 0\<rparr>\<rparr>"

text \<open>A machine with 7 in the register at offset 16 that runs the code of a buffer.\<close>

definition sample_machine :: "emitter \<Rightarrow> vm_unit" where
  "sample_machine e = (demo_unit [])\<lparr>iu_vm_funcs := [0 \<mapsto> (em_text e, em_ptr e)], iu_regs := mem_wr32 (\<lambda>_. 0) 16 7\<rparr>"

lemma sample_lookup:
  "vt_at sample_unit \<lparr>vt_value = 0, vt_type = t\<rparr> = Inr (sample_value (Vc_regframe 16))"
  "vt_at sample_unit \<lparr>vt_value = 1, vt_type = t\<rparr> = Inr (sample_value (Vc_constant 5))"
  "vt_at sample_unit \<lparr>vt_value = 2, vt_type = t\<rparr> = Inr (sample_value (Vc_regframe 24))"
  "vt_code sample_unit \<lparr>vt_value = v, vt_type = 0\<rparr> = Inr IR_TYPE_INT32"
  "value_get_const32 (iu_tys sample_unit) (sample_value (Vc_constant 5)) = Inr 5"
  "is_reg (sample_value (Vc_regframe r))" "is_const (sample_value (Vc_constant 5))" "\<not> is_reg (sample_value (Vc_constant 5))"
  "reg_of (sample_value (Vc_regframe r)) = r"
  by (simp_all add: vt_at_def vt_code_def value_at_def value_get_def deref_def sample_unit_def sample_value_def fold_unit_def
      type_get_def legalize_type_def value_get_const32_def is_reg_def is_const_def reg_of_def)

lemma sample_operand:
  "operand 32 sample_unit (sample_machine e) demo_frame (sample_value (Vc_regframe 16)) = Some 7"
  "operand 32 sample_unit (sample_machine e) demo_frame (sample_value (Vc_constant 5)) = Some 5"
  "reg_at (sample_machine e) demo_frame 24 4 = Some 24"
  by (simp_all add: operand_def reg_at_def sample_lookup sample_machine_def demo_frame_def m32.rd_wr)

lemma sample_run:
  assumes "computes 32 sample_unit sample_emitter e' lhs rhs (sample_value (Vc_regframe 24)) 32 g"
    and "operand 32 sample_unit (sample_machine e') demo_frame lhs = Some x"
    and "operand 32 sample_unit (sample_machine e') demo_frame rhs = Some y" "g x y = Some z"
  shows "\<exists>k > 0. \<forall>n. vm_exec demo_env (n + k) demo_frame (sample_machine e') =
    vm_exec demo_env n (demo_frame\<lparr>fr_pc := em_ptr e'\<rparr>) (put_reg 32 (sample_machine e') 24 z)"
proof -
  have "in_code (sample_machine e') demo_frame sample_emitter e'"
    by (auto simp: in_code_def sample_machine_def sample_emitter_def demo_frame_def)
  with assms sample_operand(3) have "alu_run demo_env demo_frame (sample_machine e') (em_ptr e') 32 24 (g x y)"
    by (intro assms(1) [unfolded computes_def, rule_format]) (simp add: sample_lookup)
  then show ?thesis by (simp add: alu_run_def assms(4))
qed



section \<open>Compares\<close>

fun icmp_swap :: "icmp \<Rightarrow> icmp" where
  "icmp_swap EQ = EQ" | "icmp_swap NE = NE" | "icmp_swap UGT = ULT" | "icmp_swap UGE = ULE"
| "icmp_swap ULT = UGT" | "icmp_swap ULE = UGE" | "icmp_swap SGT = SLT" | "icmp_swap SGE = SLE"
| "icmp_swap SLT = SGT" | "icmp_swap SLE = SGE"

lemma swap_pred_icmp: "swap_pred (ICMP p) = Inr (ICMP (icmp_swap p))"
  by (cases p; simp add: swap_pred_def)

lemma llvm_icmp_swap: "llvm_icmp w (icmp_swap p) x y = llvm_icmp w p y x"
  by (cases p) auto

fun width_bits :: "width \<Rightarrow> nat" where
  "width_bits (Narrow W8) = 8" | "width_bits (Narrow W16) = 16" | "width_bits (Wide W32) = 32" | "width_bits (Wide W64) = 64"

definition icmp_result :: "nat \<Rightarrow> icmp \<Rightarrow> int \<Rightarrow> int \<Rightarrow> int option" where
  "icmp_result w p x y = Some (if llvm_icmp w p x y then 1 else 0)"

lemma icmp_result_swap: "icmp_result w (icmp_swap p) x y = icmp_result w p y x"
  by (simp add: icmp_result_def llvm_icmp_swap)

lemma put_reg_bool [simp]: "put_reg 32 st d (if b then 1 else 0) = st\<lparr>iu_regs := mem_wr32 (iu_regs st) d (bool32 b)\<rparr>"
  by (simp add: put_reg_def bool32_def)

lemma operand_pc [simp]: "operand w iu st (f\<lparr>fr_pc := p\<rparr>) iv = operand w iu st f iv"
  unfolding operand_def reg_at_pc ..

lemma operand_small: "operand w iu st f iv = Some x \<Longrightarrow> w \<noteq> 64 \<Longrightarrow> is_reg iv \<Longrightarrow>
    \<exists>a. reg_at st f (reg_of iv) 4 = Some a \<and> x = take_bit w (uint (mem_rd32 (iu_regs st) a))"
  by (auto simp: operand_def)

lemma uint_low [simp]: "uint (ucast (x :: u32) :: u8) = take_bit 8 (uint x)" "uint (ucast x :: u16) = take_bit 16 (uint x)"
  by (simp_all add: unsigned_ucast_eq)

lemma R8_at: "UIMM16 st f k = Inr (word_of_int r) \<Longrightarrow> reg_at st f r 4 = Some a \<Longrightarrow> R8 st f k = Inr (ucast (mem_rd32 (iu_regs st) a))"
  by (simp add: R8_def R32_at)

lemma R16_at: "UIMM16 st f k = Inr (word_of_int r) \<Longrightarrow> reg_at st f r 4 = Some a \<Longrightarrow> R16 st f k = Inr (ucast (mem_rd32 (iu_regs st) a))"
  by (simp add: R16_def R32_at)

lemma operand_reg:
  assumes "operand (width_bits w) iu st f iv = Some x" "is_reg iv"
  obtains a where "reg_at st f (reg_of iv) (if w = Wide W64 then 8 else 4) = Some a"
    and "w = Narrow W8 \<Longrightarrow> x = uint (ucast (mem_rd32 (iu_regs st) a) :: u8)"
    and "w = Narrow W16 \<Longrightarrow> x = uint (ucast (mem_rd32 (iu_regs st) a) :: u16)"
    and "w = Wide W32 \<Longrightarrow> x = uint (mem_rd32 (iu_regs st) a)"
    and "w = Wide W64 \<Longrightarrow> x = uint (mem_rd64 (iu_regs st) a)"
  using assms that by (cases w rule: width_bits.cases) (auto simp: operand_def bintr_uint)

lemma alu_run_cmp:
  assumes l: "loaded st f [C16 (vm_resolve (VM_CMP w p)), C16 (word_of_int d), reg_cell lhs, reg_cell rhs]"
    and "reg_at st f d 4 = Some ad" "is_reg lhs" "is_reg rhs"
    and x: "operand (width_bits w) iu st f lhs = Some x" and y: "operand (width_bits w) iu st f rhs = Some y"
  shows "alu_run env f st (fr_pc f + 8) 32 ad (icmp_result (width_bits w) p x y)"
proof -
  obtain ax where ax: "reg_at st f (reg_of lhs) (if w = Wide W64 then 8 else 4) = Some ax"
    and vx: "w = Narrow W8 \<Longrightarrow> x = uint (ucast (mem_rd32 (iu_regs st) ax) :: u8)"
      "w = Narrow W16 \<Longrightarrow> x = uint (ucast (mem_rd32 (iu_regs st) ax) :: u16)"
      "w = Wide W32 \<Longrightarrow> x = uint (mem_rd32 (iu_regs st) ax)" "w = Wide W64 \<Longrightarrow> x = uint (mem_rd64 (iu_regs st) ax)"
    using operand_reg [OF x assms(3)] by blast
  obtain ay where ay: "reg_at st f (reg_of rhs) (if w = Wide W64 then 8 else 4) = Some ay"
    and vy: "w = Narrow W8 \<Longrightarrow> y = uint (ucast (mem_rd32 (iu_regs st) ay) :: u8)"
      "w = Narrow W16 \<Longrightarrow> y = uint (ucast (mem_rd32 (iu_regs st) ay) :: u16)"
      "w = Wide W32 \<Longrightarrow> y = uint (mem_rd32 (iu_regs st) ay)" "w = Wide W64 \<Longrightarrow> y = uint (mem_rd64 (iu_regs st) ay)"
    using operand_reg [OF y assms(4)] by blast
  show ?thesis
    using assms(2) ax ay
    by (intro alu_run_step [OF l refl], cases w rule: width_bits.cases)
      (simp_all add: R8_at R16_at R32_at R64_at put32_at [where r = d] loaded_imm vm_icmp_llvm icmp_result_def vx vy del: uint_low)
qed

fun imm_cell :: "width \<Rightarrow> int \<Rightarrow> code_cell" where
  "imm_cell (Narrow W8) y = C8 (word_of_int y)" | "imm_cell (Narrow W16) y = C16 (word_of_int y)"
| "imm_cell (Wide W32) y = C32 (word_of_int y)" | "imm_cell (Wide W64) y = C64 (word_of_int y)"

lemma alu_run_cmp_c:
  assumes l: "loaded st f [C16 (vm_resolve (VM_CMP_C w p)), C16 (word_of_int d), reg_cell lhs, imm_cell w y]"
    and "reg_at st f d 4 = Some ad" "is_reg lhs"
    and x: "operand (width_bits w) iu st f lhs = Some x" and y: "y = take_bit (width_bits w) y"
  shows "alu_run env f st (fr_pc f + 6 + cell_size (imm_cell w y)) 32 ad (icmp_result (width_bits w) p x y)"
proof -
  obtain ax where ax: "reg_at st f (reg_of lhs) (if w = Wide W64 then 8 else 4) = Some ax"
    and vx: "w = Narrow W8 \<Longrightarrow> x = uint (ucast (mem_rd32 (iu_regs st) ax) :: u8)"
      "w = Narrow W16 \<Longrightarrow> x = uint (ucast (mem_rd32 (iu_regs st) ax) :: u16)"
      "w = Wide W32 \<Longrightarrow> x = uint (mem_rd32 (iu_regs st) ax)" "w = Wide W64 \<Longrightarrow> x = uint (mem_rd64 (iu_regs st) ax)"
    using operand_reg [OF x assms(3)] by blast
  have vy: "w = Narrow W8 \<Longrightarrow> y = uint (word_of_int y :: u8)" "w = Narrow W16 \<Longrightarrow> y = uint (word_of_int y :: u16)"
    "w = Wide W32 \<Longrightarrow> y = uint (word_of_int y :: u32)" "w = Wide W64 \<Longrightarrow> y = uint (word_of_int y :: u64)"
    using y take_bit_nonnegative [of "width_bits w" y] by (auto simp: unsigned_of_int)
  show ?thesis
    using assms(2) ax vy [symmetric] l
    by (intro alu_run_step [OF l refl], cases w rule: width_bits.cases)
      (simp_all add: R8_at R16_at R32_at R64_at put32_at [where r = d] loaded_imm vm_icmp_llvm icmp_result_def vx del: uint_low)
qed

lemma const_operand:
  assumes "const_known (width_bits w) iu rhs" "\<not> is_reg rhs"
  shows "\<exists>y. (\<forall>st f. operand (width_bits w) iu st f rhs = Some y) \<and> y = take_bit (width_bits w) y \<and>
    (\<forall>e. em_ptr e + 8 < em_size e \<longrightarrow> emit_cmp_imm iu w rhs e = Inr (put_cells [imm_cell w y] e))"
proof -
  have u: "(ucast (c :: u32) :: u8) = word_of_int (take_bit 8 (uint c))" "(ucast c :: u16) = word_of_int (take_bit 16 (uint c))" for c
    by (rule bit_word_eqI; simp add: bit_simps)+
  show ?thesis
    using assms
    by (cases w rule: width_bits.cases)
      (auto simp: const_known_def operand_def emit_cmp_imm_def emit_c_cells u bintr_uint simp del: put_cells.simps)
qed

lemma icmp_width_small: "icmp_width code = Some w \<Longrightarrow> \<not> is_fcmp (ICMP p) \<and> is_icmp (ICMP p)"
  by (cases p) (simp_all add: is_fcmp_def is_icmp_def)

lemma emit_cmp_rr_correct:
  assumes "is_reg lhs" "is_reg rhs" "is_reg ret" "em_ptr e + 8 < em_size e" "icmp_width code = Some w"
  shows "\<exists>e'. emit_cmp_rr (ICMP p) code [ret, lhs, rhs] e = Inr e' \<and>
    computes (width_bits w) iu e e' lhs rhs ret 32 (icmp_result (width_bits w) p)"
proof -
  have op: "ICMP p - ICMP EQ + vm_op_num (VM_CMP w EQ) = vm_op_num (VM_CMP w p)"
    by (cases p) (simp_all add: vm_op_num_code)
  let ?cs = "[C16 (vm_resolve (VM_CMP w p)), reg_cell ret, reg_cell lhs, reg_cell rhs]"
  have "emit_cmp_rr (ICMP p) code [ret, lhs, rhs] e = Inr (put_cells ?cs e)"
    using assms icmp_width_small [OF assms(5), of p]
    by (simp add: emit_cmp_rr_def op emit_op_regs_cells vm_resolve_def del: ICMP.simps put_cells.simps)
  moreover have "computes (width_bits w) iu e (put_cells ?cs e) lhs rhs ret 32 (icmp_result (width_bits w) p)"
  proof (rule computesI [OF refl])
    fix env st f x y d
    assume l: "loaded st f ?cs" and pc: "fr_pc f = em_ptr e" and x: "operand (width_bits w) iu st f lhs = Some x"
      and y: "operand (width_bits w) iu st f rhs = Some y" and d: "reg_at st f (reg_of ret) (if (32::nat) = 64 then 8 else 4) = Some d"
    show "alu_run env f st (em_ptr e + cells_size ?cs) 32 d (icmp_result (width_bits w) p x y)"
      using alu_run_cmp [OF l _ assms(1,2) x y, of d env] d pc by simp
  qed
  ultimately show ?thesis by blast
qed

lemma emit_cmp_rc_correct:
  assumes "is_reg lhs" "\<not> is_reg rhs" "const_known (width_bits w) iu rhs" "is_reg ret" "em_ptr e + 16 < em_size e"
    "icmp_width code = Some w"
  shows "\<exists>e'. emit_cmp_rc iu (ICMP p) code ret lhs rhs e = Inr e' \<and>
    computes (width_bits w) iu e e' lhs rhs ret 32 (icmp_result (width_bits w) p)"
proof -
  have op: "ICMP p - ICMP EQ + vm_op_num (VM_CMP_C w EQ) = vm_op_num (VM_CMP_C w p)"
    by (cases p) (simp_all add: vm_op_num_code)
  obtain y0 where y0: "\<And>st f. operand (width_bits w) iu st f rhs = Some y0" "y0 = take_bit (width_bits w) y0"
    "\<And>e. em_ptr e + 8 < em_size e \<Longrightarrow> emit_cmp_imm iu w rhs e = Inr (put_cells [imm_cell w y0] e)"
    using const_operand [OF assms(3,2)] by blast
  define as where "as = (if w = Wide W64 then align_cells e else [])"
  let ?cs = "[C16 (vm_resolve (VM_CMP_C w p)), reg_cell ret, reg_cell lhs, imm_cell w y0]"
  have "emit_cmp_rc iu (ICMP p) code ret lhs rhs e = Inr (put_cells (as @ ?cs) e)"
    using assms icmp_width_small [OF assms(6), of p] align_size [of e] y0(3) op
    by (cases "w = Wide W64") (simp_all add: emit_cmp_rc_def cells_simps vm_resolve_def as_def del: ICMP.simps put_cells.simps of_nat_add)
  moreover have "computes (width_bits w) iu e (put_cells (as @ ?cs) e) lhs rhs ret 32
      (icmp_result (width_bits w) p)"
  proof (rule computesI [OF refl])
    fix env st f x y d
    assume l: "loaded st f (as @ ?cs)" and pc: "fr_pc f = em_ptr e" and x: "operand (width_bits w) iu st f lhs = Some x"
      and y: "operand (width_bits w) iu st f rhs = Some y" and d: "reg_at st f (reg_of ret) (if (32::nat) = 64 then 8 else 4) = Some d"
    have run: "alu_run env g st (em_ptr e + cells_size (as @ ?cs)) 32 d (icmp_result (width_bits w) p x y)"
      if "g = f\<lparr>fr_pc := fr_pc f + cells_size as\<rparr>" "loaded st g ?cs" for g
    proof -
      have "operand (width_bits w) iu st g lhs = Some x" using x that(1) by simp
      have "cells_size (as @ ?cs) = cells_size as + 6 + cell_size (imm_cell w y0)" by simp
      with alu_run_cmp_c [OF that(2) _ assms(1) \<open>operand (width_bits w) iu st g lhs = Some x\<close> y0(2), of d env]
      show ?thesis using that(1) d y y0(1) pc by (simp add: add.assoc del: cells_size_simps)
    qed
    show "alu_run env f st (em_ptr e + cells_size (as @ ?cs)) 32 d (icmp_result (width_bits w) p x y)"
    proof (cases "w = Wide W64")
      case True
      then show ?thesis using alu_run_aligned [of st f e ?cs] l run by (simp add: as_def)
    next
      case False
      then show ?thesis using run [of f] l by (simp add: as_def)
    qed
  qed
  ultimately show ?thesis by blast
qed

text \<open>
  C13. Code of integer compares. For operands of a type of 8, 16, 32 or 64 bits or a pointer, one a
  register and the other a register or constant, in either order, \<open>emit_cmp2\<close> succeeds when the
  buffer has room, and every machine that runs the emitted code goes to the byte behind it with
  1 in the destination register when the LLVM predicate holds of the operands and 0 otherwise.
  (A constant on the left makes the source swap the operands and the predicate.)
\<close>

theorem emit_cmp2_correct:
  assumes "vt_at iu (ibi_lhs ii) = Inr lhs" "vt_at iu (ibi_rhs ii) = Inr rhs" "ret_at iu (ibi_super ii) = Inr ret"
    and "vt_code iu (ibi_lhs ii) = Inr code" "icmp_width code = Some w" and "ibi_op ii = ICMP p" and "is_reg ret"
    and "is_reg lhs \<or> is_const lhs \<and> const_known (width_bits w) iu lhs"
    and "is_reg rhs \<or> is_const rhs \<and> const_known (width_bits w) iu rhs" and "is_reg lhs \<or> is_reg rhs"
    and "em_ptr e + 16 < em_size e"
  shows "\<exists>e'. emit_cmp2 iu ii e = Inr e' \<and>
    computes (width_bits w) iu e e' lhs rhs ret 32 (icmp_result (width_bits w) p)"
proof -
  have nr: "is_const v \<Longrightarrow> \<not> is_reg v" for v by (auto simp: is_const_def is_reg_def split: value_class.splits)
  consider "is_reg lhs" "is_reg rhs" | "is_reg lhs" "\<not> is_reg rhs" | "\<not> is_reg lhs" "is_reg rhs"
    using assms(10) by blast
  then show ?thesis
  proof cases
    case 1
    with assms emit_cmp_rr_correct [of lhs rhs ret e code w p iu] show ?thesis
      by (simp add: emit_cmp2_def Let_def)
  next
    case 2
    with assms nr emit_cmp_rc_correct [of lhs rhs w iu ret e code p] show ?thesis
      by (simp add: emit_cmp2_def Let_def)
  next
    case 3
    with assms nr emit_cmp_rc_correct [of rhs lhs w iu ret e code "icmp_swap p"] show ?thesis
      by (auto simp: emit_cmp2_def Let_def swap_pred_icmp icmp_result_swap computes_def)
  qed
qed

theorem emit_cmp2_correct_witness:
  "\<exists>e'. emit_cmp2 sample_unit (sample_binary (ICMP SLT) 1 0) sample_emitter = Inr e' \<and>
     (\<exists>k > 0. \<forall>n. vm_exec demo_env (n + k) demo_frame (sample_machine e') =
        vm_exec demo_env n (demo_frame\<lparr>fr_pc := em_ptr e'\<rparr>) (put_reg 32 (sample_machine e') 24 1))"
proof -
  obtain e' where e: "emit_cmp2 sample_unit (sample_binary (ICMP SLT) 1 0) sample_emitter = Inr e'"
    and c: "computes 32 sample_unit sample_emitter e' (sample_value (Vc_constant 5)) (sample_value (Vc_regframe 16))
      (sample_value (Vc_regframe 24)) 32 (icmp_result 32 SLT)"
    using emit_cmp2_correct [of sample_unit "sample_binary (ICMP SLT) 1 0" "sample_value (Vc_constant 5)"
        "sample_value (Vc_regframe 16)" "sample_value (Vc_regframe 24)" IR_TYPE_INT32 "Wide W32" SLT sample_emitter]
    by (auto simp: sample_binary_def ret_at_def sample_lookup const_known_def sample_emitter_def icmp_width_def)
  moreover have "icmp_result 32 SLT 5 7 = Some 1" by (simp add: icmp_result_def signed_take_bit_int_eq_self)
  ultimately show ?thesis using sample_run [OF c sample_operand(2,1)] by auto
qed

end
