(* ===== verification/Vmir_Emit_Layout.thy ===== *)
theory Vmir_Emit_Layout
  imports Vmir_Emit_Props Vmir_Module
begin

text \<open>
  Where code and branch targets end up: emission only appends, every branch keeps its block
  numbers inside its own instruction, and after the fixup each of them is the distance to the
  block it named.
\<close>

named_theorems grow_rules \<open>emission only appends\<close>

section \<open>Emission appends\<close>

definition extends :: "emitter \<Rightarrow> emitter \<Rightarrow> bool" where
  "extends e e' \<longleftrightarrow> em_ptr e \<le> em_ptr e' \<and> em_size e' = em_size e \<and> em_fixups e' = em_fixups e \<and>
     (\<forall>a < em_ptr e. em_text e' a = em_text e a)"

definition grows :: "emitter \<Rightarrow> emitter result \<Rightarrow> bool" where
  "grows e r \<longleftrightarrow> (\<forall>e'. r = Inr e' \<longrightarrow> extends e e')"

lemma extends_refl [simp]: "extends e e"
  by (simp add: extends_def)

lemma extends_trans: "extends e e1 \<Longrightarrow> extends e1 e2 \<Longrightarrow> extends e e2"
  by (auto simp: extends_def)

lemma growsD: "grows e r \<Longrightarrow> r = Inr e' \<Longrightarrow> extends e e'"
  by (simp add: grows_def)

lemma grows_seq: "grows e r \<Longrightarrow> (\<And>e1. grows e1 (g e1)) \<Longrightarrow> grows e (res_bind r g)"
  by (cases r) (auto simp: grows_def intro: extends_trans)

lemma grows_basic [grow_rules]: "grows e (Inl x)" "grows e (Inr e)" "grows e (cannot msg e)"
  by (simp_all add: grows_def cannot_def)

lemma grows_bind [grow_rules]: "(\<And>x. grows e (g x)) \<Longrightarrow> grows e (res_bind r g)"
  by (cases r) (auto simp: grows_def)

lemma grows_cases [grow_rules]:
  "grows e a \<Longrightarrow> grows e b \<Longrightarrow> grows e (if c then a else b)"
  "grows e (m e) \<Longrightarrow> grows e (m' e) \<Longrightarrow> grows e ((if c then m else m') e)"
  "grows e a \<Longrightarrow> (\<And>x. grows e (k x)) \<Longrightarrow> grows e (case_option a k opt)"
  "grows e (m e) \<Longrightarrow> (\<And>x. grows e (k' x e)) \<Longrightarrow> grows e (case_option m k' opt e)"
  "(\<And>x y. grows e (h x y)) \<Longrightarrow> grows e (case_prod h p)"
  "(\<And>x. grows e (u x)) \<Longrightarrow> grows e (Let t u)"
  "(\<And>x. grows e (u' x e)) \<Longrightarrow> grows e (Let t u' e)"
  by (auto split: option.splits prod.splits simp: Let_def)

lemma grows_all [grow_rules]:
  "grows e (em_all [] e)"
  "(\<And>e. grows e (m e)) \<Longrightarrow> (\<And>e. grows e (em_all ms e)) \<Longrightarrow> grows e (em_all (m # ms) e)"
proof -
  show "grows e (em_all [] e)" by (simp add: grows_def)
  assume "\<And>e. grows e (m e)" and "\<And>e. grows e (em_all ms e)"
  then show "grows e (em_all (m # ms) e)" unfolding em_all.simps by (rule grows_seq)
qed

lemma grows_append [grow_rules]:
  "(\<And>e. grows e (em_all xs e)) \<Longrightarrow> (\<And>e. grows e (em_all ys e)) \<Longrightarrow> grows e (em_all (xs @ ys) e)"
  unfolding em_all_append by (rule grows_seq)

lemma grows_map: "(\<And>x e. grows e (m x e)) \<Longrightarrow> grows e (em_all (map m xs) e)"
  by (induction xs arbitrary: e) (auto intro: grow_rules grows_seq)

lemma grows_cell [grow_rules]: "grows e (cell_emit c e)"
proof -
  have "cell_emit c e = (if em_ptr e + cell_size c < em_size e then Inr (put_cells [c] e)
      else Inl (Parser_error ''Function too big''))"
    by (cases c) (auto simp: emit_i8_def emit_i16_def emit_i32_def emit_i64_def emit_cell_def)
  then show ?thesis by (auto simp: grows_def extends_def cell_write_frame)
qed

lemma grows_words [grow_rules]:
  "grows e (emit_i8 a e)" "grows e (emit_i16 b e)" "grows e (emit_i32 c e)" "grows e (emit_i64 d e)"
  using grows_cell [of e "C8 a"] grows_cell [of e "C16 b"] grows_cell [of e "C32 c"] grows_cell [of e "C64 d"] by simp_all

lemma grows_ops [grow_rules]:
  "grows e (emit_opn n e)" "grows e (emit_op op e)" "grows e (emit_op1 op a e)" "grows e (emit_ops n args e)"
  "grows e (emit_op_regs n vs e)" "grows e (emit_reg iv e)" "grows e (emit_block b e)"
  "grows e (vm_align32 al e)" "grows e (emit_c8 iu iv e)" "grows e (emit_c16 iu iv e)"
  "grows e (emit_c32 iu iv e)" "grows e (emit_c64 iu iv e)" "grows e (emit_faddr iv e)" "grows e (emit_c32_masked iu code iv e)"
  unfolding emit_opn_def emit_op_def emit_op1_def emit_ops_def emit_op_regs_def emit_reg_def emit_block_def vm_align32_def
    emit_c8_def emit_c16_def emit_c32_def emit_c64_def emit_faddr_def emit_c32_masked_def
  by (intro grow_rules grows_map)+

lemma grows_vt_regs [grow_rules]: "grows e (emit_vt_regs iu vs e)"
proof (induction vs arbitrary: e)
  case (Cons v vs)
  have "grows e (res_bind (emit_reg iv e) (emit_vt_regs iu vs))" for iv
    by (intro grows_seq grow_rules Cons)
  then show ?case by (auto intro: grow_rules)
qed (simp add: grow_rules)

lemma grows_arith [grow_rules]: "grows e (emit_ret iu u e)" "grows e (emit_binop iu b e)" "grows e (emit_cast iu u e)"
  "grows e (emit_mla iu t e)"
  unfolding emit_ret_def emit_binop_def emit_binop_rr_def emit_binop_rc_def emit_cast_def emit_mla_def
  by (intro grow_rules)+

lemma grows_load [grow_rules]: "grows e (emit_load iu ii e)"
proof -
  have "grows e (em_all (roff_tail roff mul) e)" for e roff mul
    unfolding roff_tail_def by (cases roff; simp only: option.case; intro grow_rules)
  then show ?thesis
    unfolding emit_load_def emit_load1_def by (intro grow_rules)
qed

lemma grows_store [grow_rules]: "grows e (emit_store iu ii e)"
  unfolding emit_store_def emit_store8_def emit_store16_def emit_store32_def emit_store64_def emit_store_function_def
  by (intro grow_rules)

lemma grows_cmp2 [grow_rules]: "grows e (emit_cmp2 iu ii e)"
proof -
  have "grows e (emit_cmp_imm iu w rhs e)" for w rhs e
    unfolding emit_cmp_imm_def by (auto split: width.splits nwidth.splits wwidth.splits intro: grow_rules)
  moreover have "grows e (em_all (if c then [vm_align32 True] else []) e)" for c e
    by (cases c; simp only: if_True if_False; intro grow_rules)
  ultimately show ?thesis
    unfolding emit_cmp2_def emit_cmp_rr_def emit_cmp_rc_def emit_cmp_rg_def by (intro grow_rules)
qed

lemma grows_scratch:
  assumes "\<And>r e. grows e (g r e)"
  shows "grows e (res_bind (emit_scratch iu scratch v e) (\<lambda>(r, e1). g r e1))"
proof (cases "emit_scratch iu scratch v e")
  case (Inr x)
  then obtain r e1 where x: "emit_scratch iu scratch v e = Inr (r, e1)" by (cases x) auto
  have "extends e e1"
  proof (cases "is_reg v")
    case True
    with x show ?thesis by (auto simp: emit_scratch_def res_simps)
  next
    case False
    with x have "em_all [emit_op1 (VM_MOV MOV32_C) scratch, emit_c32 iu v] e = Inr e1"
      by (auto simp: emit_scratch_def res_simps split: if_splits)
    moreover have "grows e (em_all [emit_op1 (VM_MOV MOV32_C) scratch, emit_c32 iu v] e)" by (intro grow_rules)
    ultimately show ?thesis by (rule growsD [rotated])
  qed
  with x assms [of e1 r] show ?thesis by (auto simp: grows_def intro: extends_trans)
qed (simp add: grows_def)

lemma grows_select [grow_rules]: "grows e (emit_cmp_select iu ii e)" "grows e (emit_select iu s e)" "grows e (emit_vaarg iu u e)"
  unfolding emit_cmp_select_def emit_select_def emit_vaarg_def
  by (intro grow_rules grows_scratch)+

lemma grows_move [grow_rules]: "grows e (emit_move iu m e)" "grows e (emit_stackcopy iu c e)" "grows e (emit_stackshrink sz e)"
  "grows e (emit_lea iu l e)" "grows e (emit_alloca iu a e)" "grows e (emit_landingpad iu s e)" "grows e (emit_resume iu vs e)"
  unfolding emit_move_def emit_stackcopy_def emit_stackshrink_def emit_lea_def emit_alloca_def emit_landingpad_def emit_resume_def
  by (intro grow_rules)+

lemma grows_vmop [grow_rules]: "grows e (emit_vmop iu n s vs e)"
proof -
  have "grows e1 (if c then Inl Undefined_behaviour else em_all [emit_vt_regs iu us, emit_vt_regs iu vs] e1)" for c us e1
    by (intro grow_rules)
  then show ?thesis unfolding emit_vmop_def Let_def by (intro grows_bind grows_seq grows_ops)
qed

lemma grows_call [grow_rules]: "grows e (emit_call iu c f e)"
  unfolding emit_call_def by (intro grow_rules)

lemma grows_instrument: "grows e (emit_instrument count e)"
  unfolding emit_instrument_def by (cases count; simp only: option.case; intro grow_rules)

text \<open>The instructions that name no block.\<close>

fun names_blocks :: "ir_instr \<Rightarrow> bool" where
  "names_blocks (IR_IC_BR _) = True" | "names_blocks (IR_IC_INVOKE _) = True" | "names_blocks (IR_IC_SWITCH _) = True"
| "names_blocks (IR_IC_CMP_BRANCH _) = True" | "names_blocks _ = False"

lemma grows_instr: "\<not> names_blocks ii \<Longrightarrow> grows e (emit_instr iu f nxt ii e)"
  by (cases ii) (auto intro: grow_rules)

section \<open>Branch slots\<close>

text \<open>
  The instruction at \<open>off\<close>, which ends before \<open>hi\<close>, is a branch whose block numbers lie inside
  it, whatever the bytes outside it are.
\<close>

definition slots_within :: "vmem \<Rightarrow> nat \<Rightarrow> nat \<Rightarrow> bool" where
  "slots_within t off hi \<longleftrightarrow> (\<exists>ks. (\<forall>t'. (\<forall>a. off \<le> a \<and> a < hi \<longrightarrow> t' a = t a) \<longrightarrow> fixup_slots t' off = Inr ks) \<and>
     distinct ks \<and> (\<forall>k \<in> set ks. off + 2 * k + 2 \<le> hi))"

definition next_off :: "nat list \<Rightarrow> nat \<Rightarrow> nat" where
  "next_off fs hi = (case fs of [] \<Rightarrow> hi | off # _ \<Rightarrow> off)"

fun laid :: "vmem \<Rightarrow> nat list \<Rightarrow> nat \<Rightarrow> bool" where
  "laid t [] hi = True"
| "laid t (off # fs) hi = (off \<le> next_off fs hi \<and> slots_within t off (next_off fs hi) \<and> laid t fs hi)"

lemma slots_within_mono: "slots_within t off hi \<Longrightarrow> hi \<le> hi' \<Longrightarrow> slots_within t off hi'"
  unfolding slots_within_def by (meson le_trans order_less_le_trans)

lemma slots_within_cong: "slots_within t off hi \<Longrightarrow> (\<And>a. off \<le> a \<Longrightarrow> a < hi \<Longrightarrow> t' a = t a) \<Longrightarrow> slots_within t' off hi"
  unfolding slots_within_def by metis

lemma laid_next_le: "laid t fs hi \<Longrightarrow> next_off fs hi \<le> hi"
  by (induction fs) (auto simp: next_off_def split: list.splits)

lemma laid_mono: "laid t fs hi \<Longrightarrow> hi \<le> hi' \<Longrightarrow> laid t fs hi'"
proof (induction fs)
  case (Cons off fs)
  have "next_off fs hi \<le> next_off fs hi'" using Cons.prems by (auto simp: next_off_def split: list.splits)
  with Cons show ?case by (auto intro: slots_within_mono)
qed simp

lemma laid_cong: "laid t fs hi \<Longrightarrow> (\<And>a. a < hi \<Longrightarrow> t' a = t a) \<Longrightarrow> laid t' fs hi"
proof (induction fs)
  case (Cons off fs)
  have "next_off fs hi \<le> hi" using Cons.prems(1) laid_next_le by auto
  with Cons show ?case by (auto intro: slots_within_cong)
qed simp

lemma laid_snoc: "laid t fs off \<Longrightarrow> slots_within t off hi \<Longrightarrow> off \<le> hi \<Longrightarrow> laid t (fs @ [off]) hi"
proof (induction fs)
  case (Cons o' fs)
  have "next_off (fs @ [off]) hi = next_off fs off" by (cases fs) (simp_all add: next_off_def)
  with Cons show ?case by simp
qed (simp add: next_off_def)

definition good :: "emitter \<Rightarrow> bool" where
  "good e \<longleftrightarrow> laid (em_text e) (em_fixups e) (em_ptr e)"

lemma good_extends: "good e \<Longrightarrow> extends e e' \<Longrightarrow> good e'"
proof -
  assume "good e" and x: "extends e e'"
  then have "laid (em_text e') (em_fixups e) (em_ptr e)"
    by (auto simp: good_def extends_def intro: laid_cong)
  then show ?thesis using x laid_mono by (auto simp: good_def extends_def)
qed

definition branched :: "emitter \<Rightarrow> emitter \<Rightarrow> bool" where
  "branched e e' \<longleftrightarrow> em_ptr e \<le> em_ptr e' \<and> em_size e' = em_size e \<and> em_fixups e' = em_fixups e @ [em_ptr e] \<and>
     (\<forall>a < em_ptr e. em_text e' a = em_text e a) \<and> slots_within (em_text e') (em_ptr e) (em_ptr e')"

lemma good_branched:
  assumes "good e" "branched e e'"
  shows "good e'"
proof -
  have "laid (em_text e') (em_fixups e) (em_ptr e)"
    using assms by (auto simp: good_def branched_def intro: laid_cong)
  with assms(2) show ?thesis unfolding good_def branched_def by (auto intro: laid_snoc)
qed

section \<open>Branch instructions\<close>

text \<open>An emission of one cell out of a set.\<close>

definition single :: "emission \<Rightarrow> code_cell set \<Rightarrow> bool" where
  "single m S \<longleftrightarrow> (\<forall>e e'. m e = Inr e' \<longrightarrow> (\<exists>c \<in> S. e' = put_cells [c] e))"

lemma cell_emit_inv: "cell_emit c e = Inr e' \<Longrightarrow> e' = put_cells [c] e"
  by (cases c) (auto simp: emit_i8_def emit_i16_def emit_i32_def emit_i64_def emit_cell_def split: if_splits)

lemma single_words [simp]:
  "single (emit_i8 a) {C8 a}" "single (emit_i16 b) {C16 b}" "single (emit_i32 c) {C32 c}" "single (emit_i64 d) {C64 d}"
  "single (emit_op op) {C16 (vm_resolve op)}" "single (emit_opn n) {C16 (of_nat n)}" "single (emit_block bl) {C16 (word_of_int bl)}"
  using cell_emit_inv [of "C8 a"] cell_emit_inv [of "C16 b"] cell_emit_inv [of "C32 c"] cell_emit_inv [of "C64 d"]
    cell_emit_inv [of "C16 (vm_resolve op)"] cell_emit_inv [of "C16 (of_nat n)"] cell_emit_inv [of "C16 (word_of_int bl)"]
  by (auto simp: single_def emit_op_def emit_opn_def vm_resolve_def emit_block_def)

lemma single_sub: "single m S \<Longrightarrow> S \<subseteq> T \<Longrightarrow> single m T"
  unfolding single_def by blast

lemma single_bind: "(\<And>x. single (m x) S) \<Longrightarrow> single (\<lambda>e. res_bind r (\<lambda>x. m x e)) S"
  by (auto simp: single_def res_simps)

lemma single_operands [simp]:
  "single (emit_reg iv) (range C16)" "single (emit_c8 iu iv) (range C8)" "single (emit_c32 iu iv) (range C32)"
  "single (emit_faddr iv) (range C32)"
  unfolding emit_reg_def [abs_def] emit_c8_def [abs_def] emit_c32_def [abs_def] emit_faddr_def [abs_def]
  by (rule single_bind, rule single_words [THEN single_sub], simp)+

lemma em_all_single:
  assumes "em_all ms e = Inr e'" "list_all2 single ms Ss"
  shows "\<exists>cs. list_all2 (\<in>) cs Ss \<and> e' = put_cells cs e"
  using assms(2,1)
proof (induction arbitrary: e rule: list_all2_induct)
  case (Cons m ms S Ss)
  then obtain e1 where e1: "m e = Inr e1" "em_all ms e1 = Inr e'" by (auto simp: res_simps)
  then obtain c where c: "c \<in> S" "e1 = put_cells [c] e" using Cons(1) by (auto simp: single_def)
  from Cons.IH [OF e1(2)] obtain cs where "list_all2 (\<in>) cs Ss" "e' = put_cells cs e1" by blast
  with c show ?case by (intro exI [of _ "c # cs"]) simp
qed simp

text \<open>What is left to show of a branch: where its slots are, given its cells.\<close>

lemma branched_cells:
  assumes "e' = put_cells cs (push_fixup e)" "distinct ks" "\<forall>k \<in> set ks. 2 * k + 2 \<le> cells_size cs"
    and "\<And>t. holds t (em_ptr e) cs \<Longrightarrow> fixup_slots t (em_ptr e) = Inr ks"
  shows "branched e e'"
proof -
  have h: "holds (em_text e') (em_ptr e) cs"
    using holds_put_cells [of cs "push_fixup e"] assms(1) by (simp add: push_fixup_def)
  have "slots_within (em_text e') (em_ptr e) (em_ptr e + cells_size cs)"
    unfolding slots_within_def
  proof (intro exI [of _ ks] conjI allI impI)
    fix t assume "\<forall>a. em_ptr e \<le> a \<and> a < em_ptr e + cells_size cs \<longrightarrow> t a = em_text e' a"
    then have "holds t (em_ptr e) cs" using h holds_cong [of "em_ptr e" cs t "em_text e'"] by simp
    then show "fixup_slots t (em_ptr e) = Inr ks" by (rule assms(4))
  qed (use assms(2,3) in auto)
  with assms(1) put_cells_frame [of _ "push_fixup e" cs] show ?thesis
    by (auto simp: branched_def push_fixup_def)
qed

lemma res_bind_lookup: "res_bind r g = Inr e' \<Longrightarrow> \<exists>x. g x = Inr e'"
  by (cases r) auto

lemma branched_all:
  assumes "em_all ms (push_fixup e) = Inr e'" "list_all2 single ms Ss" "distinct ks"
    and "\<And>cs. list_all2 (\<in>) cs Ss \<Longrightarrow> (\<forall>k \<in> set ks. 2 * k + 2 \<le> cells_size cs) \<and>
      (\<forall>t. holds t (em_ptr e) cs \<longrightarrow> fixup_slots t (em_ptr e) = Inr ks)"
  shows "branched e e'"
proof -
  obtain cs where cs: "list_all2 (\<in>) cs Ss" "e' = put_cells cs (push_fixup e)"
    using em_all_single [OF assms(1,2)] by blast
  show ?thesis by (rule branched_cells [OF cs(2) assms(3)]) (use assms(4) [OF cs(1)] in blast)+
qed

lemma single_block16: "single (emit_block b) (range C16)"
  by (rule single_words(7) [THEN single_sub]) simp

lemmas slot_simps = list_all2_Cons2 fixup_slots_def vm_decode_resolve

lemma branched_b:
  assumes "em_all [emit_op (VM_FLOW B), m] (push_fixup e) = Inr e'" "single m (range C16)"
  shows "branched e e'"
  by (rule branched_all [OF assms(1), of "[{C16 (vm_resolve (VM_FLOW B))}, range C16]" "[1]"])
    (use assms(2) in \<open>auto simp: slot_simps\<close>)

lemma branched_br:
  assumes "emit_br iu ii nxt e = Inr e'"
  shows "extends e e' \<or> branched e e'"
proof (cases "vt_value (ibr_condition ii) = -1")
  case True
  then show ?thesis
    using assms branched_b [of "emit_block (ibr_true ii)" e e'] single_block16
    by (auto simp: emit_br_def Let_def push_fixup_def extends_def simp del: em_all.simps split: if_splits)
next
  case False
  let ?blk = "\<lambda>e. \<lambda>iv. res_bind (value_get_const32 (iu_tys iu) iv) (\<lambda>c. emit_block (if c \<noteq> 0 then ibr_true ii else ibr_false ii) e)"
  obtain iv where iv: "(if is_reg iv then
        em_all [emit_op (VM_FLOW BCOND), emit_reg iv, emit_block (ibr_true ii), emit_block (ibr_false ii)] (push_fixup e)
      else if is_const iv then em_all [emit_op (VM_FLOW B), (\<lambda>e. ?blk e iv)] (push_fixup e)
      else cannot ''Unable to branch on value class'' (push_fixup e)) = Inr e'"
    using assms False unfolding emit_br_def Let_def by (auto simp: res_bind_eq_Inr simp del: em_all.simps)
  have "branched e e'"
  proof (cases "is_reg iv")
    case True
    then have "em_all [emit_op (VM_FLOW BCOND), emit_reg iv, emit_block (ibr_true ii), emit_block (ibr_false ii)] (push_fixup e) = Inr e'"
      using iv by simp
    then show ?thesis
      by (rule branched_all [of _ _ _ "[{C16 (vm_resolve (VM_FLOW BCOND))}, range C16, range C16, range C16]" "[2, 3]"])
        (auto simp: slot_simps single_block16)
  next
    case False
    then have "em_all [emit_op (VM_FLOW B), (\<lambda>e. ?blk e iv)] (push_fixup e) = Inr e'"
      using iv by (auto simp: cannot_def simp del: em_all.simps split: if_splits)
    then show ?thesis by (rule branched_b) (intro single_bind single_block16)
  qed
  then show ?thesis ..
qed

lemma em_all_emit_ops: "em_all (emit_ops n args # ms) e = em_all ((emit_opn n # map emit_i16 args) @ ms) e"
  unfolding em_all_append by (simp add: emit_ops_def)

lemma call_target_op:
  assumes "call_target iu callee d x i = Inr (op, a)"
  shows "\<exists>c \<in> {d, x, i}. op = VM_CALL c"
proof (cases "value_function iu (word_of_int (vt_value callee))")
  case (Inr fn)
  then show ?thesis
    using assms by (cases fn) (auto simp: call_target_def res_bind_eq_Inr split: if_splits)
qed (use assms in \<open>simp add: call_target_def\<close>)

lemma branched_invoke:
  assumes "emit_invoke iu ii f e = Inr e'"
  shows "branched e e'"
proof -
  obtain op a ret where op: "op \<in> {INVOKE, INVOKE_EXT, INVOKE_R}"
    and em: "em_all [emit_ops (vm_op_num (VM_CALL op)) [a, word_of_int (if_regframe_size f), ret],
        emit_block (ica_normal_dest ii), emit_block (ica_unwind_dest ii)] (push_fixup e) = Inr e'"
    using assms call_target_op [of iu "ica_callee ii" INVOKE INVOKE_EXT INVOKE_R] unfolding emit_invoke_def
    by (fastforce simp: res_bind_eq_Inr simp del: em_all.simps)
  have "em_all [emit_op (VM_CALL op), emit_i16 a, emit_i16 (word_of_int (if_regframe_size f)), emit_i16 ret,
      emit_block (ica_normal_dest ii), emit_block (ica_unwind_dest ii)] (push_fixup e) = Inr e'"
    using em unfolding em_all_emit_ops by (simp add: emit_op_def del: em_all.simps)
  then show ?thesis
    by (rule branched_all [of _ _ _ "[{C16 (vm_resolve (VM_CALL op))}, range C16, range C16, range C16, range C16, range C16]" "[4, 5]"])
      (use op in \<open>auto simp: slot_simps single_block16 single_words(2) [THEN single_sub]\<close>)
qed

lemma VM_CMP_BR_num: "ICMP EQ \<le> pred \<Longrightarrow> pred \<le> ICMP SLE \<Longrightarrow>
    \<exists>p. (of_nat (pred - ICMP EQ + vm_op_num (VM_CMP_BR k EQ)) :: u16) = vm_resolve (VM_CMP_BR k p)"
proof -
  assume "ICMP EQ \<le> pred" "pred \<le> ICMP SLE"
  then have "pred - ICMP EQ \<in> {0..<10}" by auto
  then have "\<exists>p. pred - ICMP EQ = ICMP p - ICMP EQ"
    by (intro exI [of _ "[EQ, NE, UGT, UGE, ULT, ULE, SGT, SGE, SLT, SLE] ! (pred - ICMP EQ)"])
      (auto simp: atLeast0_lessThan_Suc eval_nat_numeral nth_Cons')
  then obtain p where "pred - ICMP EQ + vm_op_num (VM_CMP_BR k EQ) = vm_op_num (VM_CMP_BR k p)"
    by (auto simp: vm_op_num_code)
  then show ?thesis unfolding vm_resolve_def by metis
qed

lemma branched_cmp_branch_code:
  assumes "em_all ([emit_opn (pred - ICMP EQ + vm_op_num (VM_CMP_BR k EQ))] @ [emit_block t, emit_block f] @ [a, b]) (push_fixup e) = Inr e'"
    and "is_icmp pred" "single a S" "single b S'"
  shows "branched e e'"
proof -
  obtain p where p: "(of_nat (pred - ICMP EQ + vm_op_num (VM_CMP_BR k EQ)) :: u16) = vm_resolve (VM_CMP_BR k p)"
    using VM_CMP_BR_num [of pred k] assms(2) unfolding is_icmp_def by blast
  have o1: "single (emit_opn (pred - ICMP EQ + vm_op_num (VM_CMP_BR k EQ))) {C16 (vm_resolve (VM_CMP_BR k p))}"
    unfolding p [symmetric] by (rule single_words)
  show ?thesis
    using assms(1)
    by (rule branched_all [of _ _ _ "[{C16 (vm_resolve (VM_CMP_BR k p))}, range C16, range C16, S, S']" "[1, 2]"])
      (use assms o1 in \<open>auto simp: slot_simps single_block16\<close>)
qed

lemma swap_pred_is_icmp: "swap_pred pred = Inr pred' \<Longrightarrow> is_icmp pred \<Longrightarrow> is_icmp pred'"
  by (auto simp: swap_pred_def is_icmp_def split: if_splits)

lemma branched_cmp_branch:
  assumes "emit_cmp_branch iu ii e = Inr e'" "is_icmp (icb_op ii)"
  shows "branched e e'"
proof -
  let ?t = "[emit_block (icb_true ii), emit_block (icb_false ii)]"
  let ?op = "\<lambda>k pred. [emit_opn (pred - ICMP EQ + vm_op_num (VM_CMP_BR k EQ))]"
  obtain lhs0 rhs0 code where v: "vt_at iu (icb_lhs ii) = Inr lhs0" "vt_at iu (icb_rhs ii) = Inr rhs0"
      "vt_code iu (icb_lhs ii) = Inr code"
    using assms(1) unfolding emit_cmp_branch_def res_bind_eq_Inr by blast
  note code = assms(1) [unfolded emit_cmp_branch_def v res_bind_simps Let_def]
  have "\<exists>k pred a b S S'. em_all (?op k pred @ ?t @ [a, b]) (push_fixup e) = Inr e' \<and> is_icmp pred \<and> single a S \<and> single b S'"
  proof (cases "is_reg lhs0 \<and> is_reg rhs0")
    case True
    then have "\<exists>k. em_all (?op k (icb_op ii) @ ?t @ [emit_reg lhs0, emit_reg rhs0]) (push_fixup e) = Inr e'"
      using code assms(2) unfolding if_P [OF True] cannot_def by (metis sum.simps(4))
    then show ?thesis using assms(2) single_operands(1) by metis
  next
    case False
    define lhs where "lhs = (if is_reg rhs0 then rhs0 else lhs0)"
    define rhs where "rhs = (if is_reg rhs0 then lhs0 else rhs0)"
    obtain pred where pred: "(if is_reg rhs0 then swap_pred (icb_op ii) else Inr (icb_op ii)) = Inr pred"
      using code unfolding if_not_P [OF False] res_bind_eq_Inr by blast
    have ic: "is_icmp pred" using pred assms(2) swap_pred_is_icmp by (auto split: if_splits)
    note c = code [unfolded if_not_P [OF False] pred res_bind_simps, folded lhs_def rhs_def]
    have "\<exists>k b. em_all (?op k pred @ ?t @ [emit_reg lhs, b]) (push_fixup e) = Inr e' \<and> (b = emit_c8 iu rhs \<or> b = emit_c32 iu rhs \<or> b = emit_faddr rhs)"
      using c ic unfolding cannot_def by (metis sum.simps(4))
    then show ?thesis using ic single_operands by metis
  qed
  then show ?thesis using branched_cmp_branch_code by blast
qed

lemma cells_size_const: "list_all2 (\<in>) cs (map (\<lambda>_. K) xs) \<Longrightarrow> (\<And>c. c \<in> K \<Longrightarrow> cell_size c = n) \<Longrightarrow> cells_size cs = n * length xs"
  by (induction xs arbitrary: cs) (auto simp: list_all2_Cons2)

lemma unat_of_nat_le: "unat (of_nat n :: u16) \<le> n"
  by (simp add: unat_of_nat)

lemma branched_table:
  assumes em: "em_all ([emit_op (VM_FLOW S), emit_i16 reg] @ emit_table key ii) (push_fixup e) = Inr e'"
    and key: "\<And>v. single (key v) K" "\<And>c. c \<in> K \<Longrightarrow> cell_size c = 2 * n"
    and S: "\<And>t off. mem_rd16 t off = vm_resolve (VM_FLOW S) \<Longrightarrow>
      fixup_slots t off = Inr (let p = unat (mem_rd16 t (off + 4)) in map (\<lambda>j. 3 + p * n + j) [0..<p + 1])"
  shows "branched e e'"
proof -
  let ?ps = "isw_paths ii"
  let ?len = "length ?ps"
  let ?p = "unat (of_nat ?len :: u16)"
  let ?Ss = "[{C16 (vm_resolve (VM_FLOW S))}, {C16 reg}, {C16 (of_nat ?len)}] @ map (\<lambda>_. K) ?ps @ map (\<lambda>_. range C16) ?ps @ [range C16]"
  have "list_all2 single ([emit_op (VM_FLOW S), emit_i16 reg] @ emit_table key ii) ?Ss"
    unfolding emit_table_def
    by (auto simp: key(1) single_block16 list_all2_map1 list_all2_map2 list_all2_same intro!: list_all2_appendI split: prod.splits)
  then show ?thesis
  proof (rule branched_all [OF em])
    show "distinct (map (\<lambda>j. 3 + ?p * n + j) [0..<?p + 1])" by (auto simp: distinct_map inj_on_def)
    fix cs assume "list_all2 (\<in>) cs ?Ss"
    then obtain ks bs d where cs: "cs = [C16 (vm_resolve (VM_FLOW S)), C16 reg, C16 (of_nat ?len)] @ ks @ bs @ [C16 d]"
      and ks: "list_all2 (\<in>) ks (map (\<lambda>_. K) ?ps)" and bs: "list_all2 (\<in>) bs (map (\<lambda>_. range C16) ?ps)"
      by (auto simp: list_all2_Cons2 list_all2_append2)
    have sz: "cells_size cs = 8 + 2 * (?len * n) + 2 * ?len"
      using cells_size_const [OF ks key(2)] cells_size_const [OF bs, of 2] by (force simp: cs mult.commute)
    have "?p * n \<le> ?len * n" using unat_of_nat_le by (rule mult_le_mono1)
    then have "2 * k + 2 \<le> cells_size cs" if "3 + ?p * n \<le> k" "k < 3 + ?p * n + (?p + 1)" for k
      using that unat_of_nat_le [of ?len] unfolding sz by linarith
    moreover have "mem_rd16 t (em_ptr e) = vm_resolve (VM_FLOW S) \<and> mem_rd16 t (em_ptr e + 4) = of_nat ?len" if "holds t (em_ptr e) cs" for t
      using that by (simp add: cs eval_nat_numeral)
    ultimately show "(\<forall>k \<in> set (map (\<lambda>j. 3 + ?p * n + j) [0..<?p + 1]). 2 * k + 2 \<le> cells_size cs) \<and>
        (\<forall>t. holds t (em_ptr e) cs \<longrightarrow> fixup_slots t (em_ptr e) = Inr (map (\<lambda>j. 3 + ?p * n + j) [0..<?p + 1]))"
      using S [of _ "em_ptr e"] by (auto simp: Let_def simp del: upt_Suc)
  qed
qed

lemma branched_switch32: "emit_switch32 msk reg ii e = Inr e' \<Longrightarrow> branched e e'"
  unfolding emit_switch32_def
  by (erule branched_table [where K = "range C32" and n = 2])
    (auto simp: fixup_slots_def vm_decode_resolve Let_def intro: single_words(3) [THEN single_sub])

lemma table_write_frame:
  assumes "\<forall>(i, b) \<in> set rows. i < sz" "a < base \<or> base + 2 * sz \<le> a"
  shows "foldl (table_write base) m rows a = m a"
  using assms
proof (induction rows arbitrary: m)
  case (Cons r rows)
  obtain i b where r: "r = (i, b)" by (cases r)
  with Cons have "table_write base m r a = m a" by (auto simp: table_write_def intro!: m16.wr_frame)
  with Cons show ?case by auto
qed simp

lemma branched_jumptable:
  assumes "emit_jumptable sz reg ii e = Inr e'" "0 < sz" "sz < 2 ^ 16"
  shows "branched e e'"
proof -
  let ?cs = "[C16 (vm_resolve (VM_FLOW JUMPTABLE)), C16 reg, C16 (of_nat sz)]"
  define rows where "rows = map (\<lambda>i. (i, isw_defblock ii)) [0..<sz] @
    map (\<lambda>(v, b). (unat (v AND of_nat (sz - 1)), b)) (isw_paths ii)"
  obtain e1 where e1: "em_all [emit_op (VM_FLOW JUMPTABLE), emit_i16 reg, emit_i16 (of_nat sz)] (push_fixup e) = Inr e1"
    and e': "e' = e1\<lparr>em_ptr := em_ptr e1 + sz * 2, em_text := foldl (table_write (em_ptr e1)) (em_text e1) rows\<rparr>"
    using assms(1) by (auto simp: emit_jumptable_def emit_data_def rows_def res_bind_eq_Inr Let_def simp del: em_all.simps split: if_splits)
  obtain cs where "list_all2 (\<in>) cs [{C16 (vm_resolve (VM_FLOW JUMPTABLE))}, {C16 reg}, {C16 (of_nat sz)}]" "e1 = put_cells cs (push_fixup e)"
    using em_all_single [OF e1, of "[{C16 (vm_resolve (VM_FLOW JUMPTABLE))}, {C16 reg}, {C16 (of_nat sz)}]"] by auto
  then have c1: "e1 = put_cells ?cs (push_fixup e)" by (auto simp: list_all2_Cons2)
  have p1: "em_ptr e1 = em_ptr e + 6" by (simp add: c1 push_fixup_def)
  have "unat (v AND of_nat (sz - 1)) < sz" for v :: u64
  proof -
    have "v AND of_nat (sz - 1) \<le> (of_nat (sz - 1) :: u64)" by (rule word_and_le1)
    then have "unat (v AND of_nat (sz - 1)) \<le> unat (of_nat (sz - 1) :: u64)" by (simp only: word_le_nat_alt)
    moreover have "unat (of_nat (sz - 1) :: u64) = sz - 1" using assms(3) by (simp add: unat_of_nat del: of_nat_diff)
    ultimately show ?thesis using assms(2) by linarith
  qed
  then have rows: "\<forall>(i, b) \<in> set rows. i < sz" by (auto simp: rows_def)
  have low: "em_text e' a = em_text e1 a" if "a < em_ptr e1" for a
    using table_write_frame [OF rows] that by (simp add: e')
  have h: "holds (em_text e') (em_ptr e) ?cs"
    using holds_put_cells [of ?cs "push_fixup e"] holds_cong [of "em_ptr e" ?cs "em_text e'" "em_text e1"] low p1
    by (simp add: c1 push_fixup_def del: put_cells.simps)
  have "slots_within (em_text e') (em_ptr e) (em_ptr e')"
    unfolding slots_within_def
  proof (intro exI [of _ "map (\<lambda>j. 3 + j) [0..<sz]"] conjI allI impI)
    fix t assume "\<forall>a. em_ptr e \<le> a \<and> a < em_ptr e' \<longrightarrow> t a = em_text e' a"
    then have "holds t (em_ptr e) ?cs"
      using h holds_cong [of "em_ptr e" ?cs t "em_text e'"] by (simp add: e' p1)
    then have "mem_rd16 t (em_ptr e) = vm_resolve (VM_FLOW JUMPTABLE)" "mem_rd16 t (em_ptr e + 4) = of_nat sz"
      by (simp_all add: eval_nat_numeral)
    then show "fixup_slots t (em_ptr e) = Inr (map (\<lambda>j. 3 + j) [0..<sz])"
      using assms(3) by (simp add: fixup_slots_def vm_decode_resolve unat_of_nat)
  qed (auto simp: distinct_map inj_on_def e' p1)
  moreover have "em_text e' a = em_text e a" if "a < em_ptr e" for a
    using low [of a] put_cells_frame [of a "push_fixup e" ?cs] that p1 by (simp add: c1 push_fixup_def del: put_cells.simps)
  ultimately show ?thesis
    using p1 by (auto simp: branched_def e' c1 push_fixup_def simp del: put_cells.simps)
qed

definition steps_ok :: "emitter \<Rightarrow> emitter \<Rightarrow> bool" where
  "steps_ok e e' \<longleftrightarrow> extends e e' \<or> (\<exists>e1. extends e e1 \<and> branched e1 e')"

lemma em_all_last: "em_all [a, b, c] e = Inr e' \<Longrightarrow> \<exists>e1. em_all [a, b] e = Inr e1 \<and> c e1 = Inr e'"
  by (auto simp: res_bind_eq_Inr)

lemma steps_switch:
  assumes "emit_switch iu ii e = Inr e'"
  shows "steps_ok e e'"
proof -
  obtain c cty u reg where v: "vt_at iu (isw_value ii) = Inr c" "type_get (iu_tys iu) (vt_type (isw_value ii)) = Inr cty"
      "c_assert (is_reg c) = Inr u" "reg16 c = Inr reg"
    using assms unfolding emit_switch_def res_bind_eq_Inr by blast
  note code = assms [unfolded emit_switch_def v res_bind_simps]
  have one: "branched e e' \<Longrightarrow> ?thesis" by (auto simp: steps_ok_def)
  have small: "branched e e'" if "(if 64 < length (isw_paths ii) then emit_jumptable 256 reg ii e
      else em_all ([emit_op (VM_FLOW SWITCH8_BS), emit_i16 reg] @ emit_table (\<lambda>v. emit_i8 (ucast v)) ii) (push_fixup e)) = Inr e'"
  proof (cases "64 < length (isw_paths ii)")
    case True
    with that show ?thesis by (intro branched_jumptable [of 256 reg ii]) simp_all
  next
    case False
    with that have "em_all ([emit_op (VM_FLOW SWITCH8_BS), emit_i16 reg] @ emit_table (\<lambda>v. emit_i8 (ucast v)) ii) (push_fixup e) = Inr e'"
      by (simp only: if_False)
    then show ?thesis
      by (rule branched_table [where K = "range C8" and n = 1])
        (auto simp: fixup_slots_def vm_decode_resolve Let_def intro: single_words(1) [THEN single_sub])
  qed
  have two: ?thesis if em: "em_all [a, b, c] e = Inr e'" and g: "\<And>e. grows e (a e)" "\<And>e. grows e (b e)"
      and br: "\<And>e e'. c e = Inr e' \<Longrightarrow> branched e e'" for a b c
  proof -
    obtain e1 where e1: "em_all [a, b] e = Inr e1" "c e1 = Inr e'" using em_all_last [OF em] by blast
    have "grows e (em_all [a, b] e)" by (intro grow_rules g)
    with e1 br show ?thesis unfolding steps_ok_def using growsD by blast
  qed
  show ?thesis
  proof (cases cty)
    case (It_intx b)
    show ?thesis
    proof (cases "b \<le> 4")
      case True
      have "(2::nat) ^ nat b \<le> 2 ^ 4" using True by (intro power_increasing) auto
      with code It_intx True show ?thesis
        by (intro one branched_jumptable [of "2 ^ nat b" reg ii]) (auto simp: res_bind_eq_Inr)
    next
      case False
      then have "em_all [emit_ops (vm_op_num (VM_R32C AND_OP)) [0, reg], emit_i32 (word_of_int (2 ^ nat b - 1)),
          emit_switch32 (word_of_int (2 ^ nat b - 1)) 0 ii] e = Inr e'"
        using code It_intx by (auto simp: res_bind_eq_Inr Let_def simp del: em_all.simps)
      then show ?thesis by (rule two) (auto intro: grow_rules branched_switch32)
    qed
  next
    case It_int16
    with code obtain e1 where "emit_ops (vm_op_num (VM_CAST (TO16 CAST_16_TRUNC_32))) [0, reg] e = Inr e1" "emit_switch32 0xffff 0 ii e1 = Inr e'"
      by (auto simp: res_bind_eq_Inr)
    then show ?thesis unfolding steps_ok_def using growsD [OF grows_ops(4)] branched_switch32 by blast
  next
    case It_int64
    with code obtain e1 where "vm_align32 True e = Inr e1"
      and em: "em_all ([emit_op (VM_FLOW SWITCH64_BS), emit_i16 reg] @ emit_table emit_i64 ii) (push_fixup e1) = Inr e'"
      by (auto simp: res_bind_eq_Inr simp del: em_all.simps)
    moreover have "branched e1 e'"
      using em by (rule branched_table [where K = "range C64" and n = 4])
        (auto simp: fixup_slots_def vm_decode_resolve Let_def intro: single_words(4) [THEN single_sub])
    ultimately show ?thesis unfolding steps_ok_def using growsD [OF grows_ops(8)] by blast
  qed (use code small one branched_switch32 in \<open>auto simp: cannot_def simp del: em_all.simps\<close>)
qed

text \<open>A compare-and-branch instruction carries an integer predicate.\<close>

fun pred_ok :: "ir_instr \<Rightarrow> bool" where
  "pred_ok (IR_IC_CMP_BRANCH ii) = is_icmp (icb_op ii)" | "pred_ok _ = True"

lemma steps_instr:
  assumes "emit_instr iu f nxt ii e = Inr e'" "pred_ok ii"
  shows "steps_ok e e'"
proof (cases "names_blocks ii")
  case False
  with assms(1) show ?thesis using growsD [OF grows_instr] by (simp add: steps_ok_def)
next
  case True
  then show ?thesis
    using assms by (cases ii) (auto simp: steps_ok_def dest: branched_br branched_invoke branched_cmp_branch steps_switch [unfolded steps_ok_def])
qed

section \<open>Functions\<close>

definition reaches :: "emitter \<Rightarrow> emitter \<Rightarrow> bool" where
  "reaches e e' \<longleftrightarrow> em_ptr e \<le> em_ptr e' \<and> (\<forall>a < em_ptr e. em_text e' a = em_text e a) \<and>
     (\<exists>more. em_fixups e' = em_fixups e @ more \<and> (\<forall>off \<in> set more. em_ptr e \<le> off)) \<and> (good e \<longrightarrow> good e')"

lemma reaches_refl [simp]: "reaches e e"
  by (simp add: reaches_def)

lemma reaches_trans: "reaches e e1 \<Longrightarrow> reaches e1 e2 \<Longrightarrow> reaches e e2"
  unfolding reaches_def by (auto intro: le_trans) (metis le_trans)+

lemma extends_reaches: "extends e e' \<Longrightarrow> reaches e e'"
  using good_extends by (auto simp: reaches_def extends_def)

lemma branched_reaches: "branched e e' \<Longrightarrow> reaches e e'"
  using good_branched by (auto simp: reaches_def branched_def)

lemma steps_reaches: "steps_ok e e' \<Longrightarrow> reaches e e'"
  unfolding steps_ok_def using extends_reaches branched_reaches reaches_trans by blast

lemma em_all_reaches:
  assumes "em_all (map m xs) e = Inr e'" "\<And>x e e'. x \<in> set xs \<Longrightarrow> m x e = Inr e' \<Longrightarrow> steps_ok e e'"
  shows "reaches e e'"
  using assms
proof (induction xs arbitrary: e)
  case (Cons x xs)
  then obtain e1 where e1: "m x e = Inr e1" "em_all (map m xs) e1 = Inr e'" by (auto simp: res_bind_eq_Inr)
  with Cons.prems(2) have "reaches e e1" by (auto intro: steps_reaches)
  moreover have "reaches e1 e'" using Cons.IH [OF e1(2)] Cons.prems(2) by auto
  ultimately show ?case by (rule reaches_trans)
qed simp

lemma instr_emit_reaches:
  "instr_emit iu f nxt bb e = Inr e' \<Longrightarrow> \<forall>ii \<in> set (bb_instrs bb). pred_ok ii \<Longrightarrow> reaches e e'"
  unfolding instr_emit_def by (rule em_all_reaches) (auto intro: steps_instr)

lemma emit_blocks_reaches:
  "emit_blocks iu f count bbs e = Inr (offs, e') \<Longrightarrow> \<forall>bb \<in> set bbs. \<forall>ii \<in> set (bb_instrs bb). pred_ok ii \<Longrightarrow> reaches e e'"
proof (induction bbs arbitrary: count e offs)
  case (Cons bb bbs)
  then obtain e1 e2 offs' where e: "emit_instrument count e = Inr e1"
      "instr_emit iu f (case bbs of [] \<Rightarrow> None | b # _ \<Rightarrow> Some (bb_id b)) bb e1 = Inr e2"
      "emit_blocks iu f (map_option Suc count) bbs e2 = Inr (offs', e')"
    by (auto simp: res_bind_eq_Inr)
  have "reaches e e1" using growsD [OF grows_instrument e(1)] by (rule extends_reaches)
  moreover have "reaches e1 e2" using e(2) Cons.prems(2) by (auto intro: instr_emit_reaches)
  moreover have "reaches e2 e'" using Cons.IH [OF e(3)] Cons.prems(2) by auto
  ultimately show ?case by (blast intro: reaches_trans)
qed simp

text \<open>The bytes of the slots of the branch at \<open>off\<close>.\<close>

definition slot_bytes :: "vmem \<Rightarrow> nat \<Rightarrow> nat set" where
  "slot_bytes t off = (case fixup_slots t off of Inl _ \<Rightarrow> {} | Inr ks \<Rightarrow> \<Union>k \<in> set ks. {off + 2 * k, off + 2 * k + 1})"

lemma fix_slots_ok:
  assumes "fix_slots offs off ks t = Inr t'" "distinct ks"
  shows "(\<forall>k \<in> set ks. bb_to_offset_delta offs (uint (mem_rd16 t (off + 2 * k))) off = Inr (mem_rd16 t' (off + 2 * k))) \<and>
    (\<forall>a. a \<notin> (\<Union>k \<in> set ks. {off + 2 * k, off + 2 * k + 1}) \<longrightarrow> t' a = t a)"
  using assms
proof (induction ks arbitrary: t)
  case (Cons k ks)
  obtain d where d: "bb_to_offset_delta offs (uint (mem_rd16 t (off + 2 * k))) off = Inr d"
    and rest: "fix_slots offs off ks (mem_wr16 t (off + 2 * k) d) = Inr t'"
    using Cons.prems(1) by (auto simp: res_bind_eq_Inr)
  let ?t1 = "mem_wr16 t (off + 2 * k) d"
  note IH = Cons.IH [OF rest]
  have "mem_rd16 t' (off + 2 * k) = mem_rd16 ?t1 (off + 2 * k)"
  proof (rule m16.rd_frame)
    fix a assume "off + 2 * k \<le> a" "a < off + 2 * k + 2"
    moreover have "x \<noteq> k" if "x \<in> set ks" for x using Cons.prems(2) that by auto
    ultimately have "a \<notin> {off + 2 * x, off + 2 * x + 1}" if "x \<in> set ks" for x using that by fastforce
    then have "a \<notin> (\<Union>k \<in> set ks. {off + 2 * k, off + 2 * k + 1})" by blast
    with IH Cons.prems(2) show "t' a = ?t1 a" by simp
  qed
  then have "mem_rd16 t' (off + 2 * k) = d" by (simp add: m16.rd_wr)
  moreover have "mem_rd16 ?t1 (off + 2 * j) = mem_rd16 t (off + 2 * j)" if "j \<in> set ks" for j
  proof -
    have "j \<noteq> k" using that Cons.prems(2) by auto
    then show ?thesis by (intro m16.rd_wr_disjoint) linarith
  qed
  moreover have "?t1 a = t a" if "a \<noteq> off + 2 * k" "a \<noteq> off + 2 * k + 1" for a
    using that by (intro m16.wr_frame) linarith
  ultimately show ?case using IH Cons.prems(2) d by auto
qed simp

lemma slots_within_bytes:
  assumes "slots_within t off hi"
  shows "\<exists>ks. fixup_slots t off = Inr ks \<and> distinct ks \<and> slot_bytes t off \<subseteq> {off..<hi} \<and>
    (\<forall>t'. (\<forall>a. off \<le> a \<and> a < hi \<longrightarrow> t' a = t a) \<longrightarrow> fixup_slots t' off = Inr ks) \<and> (\<forall>k \<in> set ks. off + 2 * k + 2 \<le> hi)"
proof -
  from assms obtain ks where ks: "\<forall>t'. (\<forall>a. off \<le> a \<and> a < hi \<longrightarrow> t' a = t a) \<longrightarrow> fixup_slots t' off = Inr ks"
      "distinct ks" "\<forall>k \<in> set ks. off + 2 * k + 2 \<le> hi"
    unfolding slots_within_def by blast
  then have t: "fixup_slots t off = Inr ks" by blast
  moreover have "slot_bytes t off \<subseteq> {off..<hi}" using ks(3) by (auto simp: slot_bytes_def t)
  ultimately show ?thesis using ks by blast
qed

lemma laid_slots_above: "laid t fs hi \<Longrightarrow> off \<in> set fs \<Longrightarrow> slot_bytes t off \<subseteq> {next_off fs hi..<hi}"
proof (induction fs)
  case (Cons o' fs)
  have le: "o' \<le> next_off fs hi" "next_off fs hi \<le> hi" "laid t fs hi" "slots_within t o' (next_off fs hi)"
    using Cons.prems(1) laid_next_le by auto
  have "slot_bytes t o' \<subseteq> {o'..<next_off fs hi}" using slots_within_bytes [OF le(4)] by blast
  with Cons.IH [OF le(3)] Cons.prems(2) le(1,2) show ?case by (fastforce simp: next_off_def)
qed simp

lemma branch_fixup_ok:
  assumes "branch_fixup offs fs t = Inr t'" "laid t0 fs hi" "\<And>a. next_off fs hi \<le> a \<Longrightarrow> a < hi \<Longrightarrow> t a = t0 a"
  shows "(\<forall>off \<in> set fs. \<exists>ks. fixup_slots t0 off = Inr ks \<and> (\<forall>k \<in> set ks.
      bb_to_offset_delta offs (uint (mem_rd16 t0 (off + 2 * k))) off = Inr (mem_rd16 t' (off + 2 * k)))) \<and>
    (\<forall>a. a \<notin> (\<Union>off \<in> set fs. slot_bytes t0 off) \<longrightarrow> t' a = t a)"
  using assms
proof (induction fs arbitrary: t)
  case (Cons off fs)
  let ?n = "next_off fs hi"
  have le: "off \<le> ?n" "?n \<le> hi" "slots_within t0 off ?n" "laid t0 fs hi"
    using Cons.prems(2) laid_next_le by auto
  have same: "t a = t0 a" if "off \<le> a" "a < hi" for a using Cons.prems(3) that by (simp add: next_off_def)
  obtain ks where ks: "fixup_slots t0 off = Inr ks" "distinct ks" "slot_bytes t0 off \<subseteq> {off..<?n}"
    "\<forall>t'. (\<forall>a. off \<le> a \<and> a < ?n \<longrightarrow> t' a = t0 a) \<longrightarrow> fixup_slots t' off = Inr ks" "\<forall>k \<in> set ks. off + 2 * k + 2 \<le> ?n"
    using slots_within_bytes [OF le(3)] by blast
  have "fixup_slots t off = Inr ks" using same le(2) by (intro ks(4) [rule_format]) auto
  then obtain t1 where t1: "fix_slots offs off ks t = Inr t1" "branch_fixup offs fs t1 = Inr t'"
    using Cons.prems(1) by (auto simp: branch_fixup_def fix_branch_def res_bind_eq_Inr)
  note F = fix_slots_ok [OF t1(1) ks(2)]
  have sb: "slot_bytes t0 off = (\<Union>k \<in> set ks. {off + 2 * k, off + 2 * k + 1})" by (simp add: slot_bytes_def ks(1))
  have t1_out: "t1 a = t a" if "a \<notin> slot_bytes t0 off" for a using F that unfolding sb by blast
  have hi_same: "t1 a = t0 a" if "?n \<le> a" "a < hi" for a
  proof -
    have "a \<notin> slot_bytes t0 off" using ks(3) that(1) by fastforce
    then show ?thesis using t1_out same that le(1) by simp
  qed
  have IH: "(\<forall>off \<in> set fs. \<exists>ks. fixup_slots t0 off = Inr ks \<and> (\<forall>k \<in> set ks.
      bb_to_offset_delta offs (uint (mem_rd16 t0 (off + 2 * k))) off = Inr (mem_rd16 t' (off + 2 * k))))"
    and IH': "\<And>a. a \<notin> (\<Union>off \<in> set fs. slot_bytes t0 off) \<Longrightarrow> t' a = t1 a"
    using Cons.IH [OF t1(2) le(4) hi_same] by blast+
  have above: "a \<notin> (\<Union>off \<in> set fs. slot_bytes t0 off)" if "a < ?n" for a
    using laid_slots_above [OF le(4)] that by fastforce
  have mine: "bb_to_offset_delta offs (uint (mem_rd16 t0 (off + 2 * k))) off = Inr (mem_rd16 t' (off + 2 * k))" if "k \<in> set ks" for k
  proof -
    have k: "off + 2 * k + 2 \<le> ?n" using ks(5) that by blast
    have "mem_rd16 t (off + 2 * k) = mem_rd16 t0 (off + 2 * k)" using same k le(2) by (intro m16.rd_frame) auto
    moreover have "mem_rd16 t' (off + 2 * k) = mem_rd16 t1 (off + 2 * k)" using IH' above k by (intro m16.rd_frame) auto
    ultimately show ?thesis using bspec [OF conjunct1 [OF F] that] by simp
  qed
  show ?case using IH IH' t1_out mine ks(1) by auto
qed (simp add: branch_fixup_def)


section \<open>Instructions in place\<close>

lemma slots_below:
  assumes "good e" "\<And>a. a < em_ptr e \<Longrightarrow> t a = em_text e a" "off \<in> set (em_fixups e)"
  shows "slot_bytes t off \<subseteq> {..<em_ptr e}"
proof -
  have "laid t (em_fixups e) (em_ptr e)" using assms(1,2) by (auto simp: good_def intro: laid_cong)
  from laid_slots_above [OF this assms(3)] show ?thesis by auto
qed

lemma slots_after: "slot_bytes t off \<subseteq> {off..}"
  by (auto simp: slot_bytes_def split: sum.splits)

text \<open>The code between two states of the buffer is not a slot of any branch of the function.\<close>

lemma code_intact:
  assumes "good e1" "extends e1 e2" "reaches e2 e" "em_ptr e1 \<le> a" "a < em_ptr e2"
  shows "em_text e a = em_text e2 a \<and> a \<notin> (\<Union>off \<in> set (em_fixups e). slot_bytes (em_text e) off)"
proof -
  obtain more where more: "em_fixups e = em_fixups e1 @ more" "\<forall>off \<in> set more. em_ptr e2 \<le> off"
    using assms(2,3) by (auto simp: reaches_def extends_def)
  have same: "em_text e a = em_text e2 a" if "a < em_ptr e2" for a using assms(3) that by (simp add: reaches_def)
  then have "em_text e a = em_text e1 a" if "a < em_ptr e1" for a using assms(2) that by (simp add: extends_def)
  then have "a \<notin> slot_bytes (em_text e) off" if "off \<in> set (em_fixups e1)" for off
    using slots_below [OF assms(1) _ that, of "em_text e"] assms(4) by fastforce
  moreover have "a \<notin> slot_bytes (em_text e) off" if "off \<in> set more" for off
    using slots_after [of "em_text e" off] more(2) that assms(5) by fastforce
  ultimately show ?thesis using same assms(5) more(1) by auto
qed

text \<open>The states of the buffer before, between and after the instructions of a block.\<close>

fun traced :: "(emitter \<Rightarrow> emitter \<Rightarrow> ir_instr \<Rightarrow> bool) \<Rightarrow> emitter list \<Rightarrow> ir_instr list \<Rightarrow> bool" where
  "traced P [e] [] = True"
| "traced P (e1 # e2 # es) (ii # iis) = (P e1 e2 ii \<and> traced P (e2 # es) iis)"
| "traced P _ _ = False"

lemma em_all_traced:
  assumes "em_all (map m iis) e = Inr e'" "good e" "\<And>ii e e'. ii \<in> set iis \<Longrightarrow> m ii e = Inr e' \<Longrightarrow> steps_ok e e'"
  shows "\<exists>es. traced (\<lambda>e1 e2 ii. m ii e1 = Inr e2 \<and> good e1 \<and> reaches e2 e') (e # es) iis"
  using assms
proof (induction iis arbitrary: e)
  case Nil
  then show ?case by (auto intro!: exI [of _ "[]"])
next
  case (Cons ii iis)
  then obtain e1 where e1: "m ii e = Inr e1" "em_all (map m iis) e1 = Inr e'" by (auto simp: res_bind_eq_Inr)
  have "steps_ok e e1" by (rule Cons.prems(3) [OF _ e1(1)]) simp
  then have "good e1" using steps_reaches Cons.prems(2) by (auto simp: reaches_def)
  then obtain es where "traced (\<lambda>e1 e2 ii. m ii e1 = Inr e2 \<and> good e1 \<and> reaches e2 e') (e1 # es) iis"
    using Cons.IH [OF e1(2)] Cons.prems(3) by auto
  moreover have "reaches e1 e'" using em_all_reaches [OF e1(2)] Cons.prems(3) by auto
  ultimately show ?case using e1(1) Cons.prems(2) by (intro exI [of _ "e1 # es"]) simp
qed

lemma traced_mono: "traced P es iis \<Longrightarrow> (\<And>e1 e2 ii. ii \<in> set iis \<Longrightarrow> P e1 e2 ii \<Longrightarrow> Q e1 e2 ii) \<Longrightarrow> traced Q es iis"
  by (induction P es iis rule: traced.induct) auto

text \<open>
  The code of block \<open>bb\<close>, emitted between \<open>e\<close> and the end \<open>e'\<close> of the function; \<open>nxt\<close> is the block
  after it.
\<close>

definition block_in :: "ir_unit \<Rightarrow> ir_function \<Rightarrow> (nat \<Rightarrow> bool) \<Rightarrow> emitter \<Rightarrow> emitter \<Rightarrow> ir_bb \<Rightarrow> int option \<Rightarrow> bool" where
  "block_in iu f Slots e e' bb nxt \<longleftrightarrow> (\<exists>es. traced (\<lambda>e1 e2 ii. emit_instr iu f nxt ii e1 = Inr e2 \<and>
     (\<not> names_blocks ii \<longrightarrow> em_ptr e2 \<le> em_ptr e' \<and> (\<forall>a. em_ptr e1 \<le> a \<and> a < em_ptr e2 \<longrightarrow> em_text e' a = em_text e2 a \<and> \<not> Slots a)))
     (e # es) (bb_instrs bb))"

lemma emit_blocks_in:
  assumes "emit_blocks iu f None bbs e = Inr (offs, e')" "\<forall>bb \<in> set bbs. \<forall>ii \<in> set (bb_instrs bb). pred_ok ii" "good e"
    and "\<And>a. Slots a \<longleftrightarrow> a \<in> (\<Union>off \<in> set (em_fixups e'). slot_bytes (em_text e') off)" "k < length bbs"
  shows "\<exists>e0. offs ! k = (bb_id (bbs ! k), em_ptr e0) \<and>
     block_in iu f Slots e0 e' (bbs ! k) (if Suc k < length bbs then Some (bb_id (bbs ! Suc k)) else None)"
  using assms
proof (induction bbs arbitrary: e offs k)
  case (Cons bb bbs)
  let ?nxt = "case bbs of [] \<Rightarrow> None | b # _ \<Rightarrow> Some (bb_id b)"
  from Cons.prems(1) obtain e2 offs' where e: "instr_emit iu f ?nxt bb e = Inr e2" "emit_blocks iu f None bbs e2 = Inr (offs', e')"
      "offs = (bb_id bb, em_ptr e) # offs'"
    by (auto simp: res_bind_eq_Inr emit_instrument_def)
  have r: "reaches e2 e'" using emit_blocks_reaches [OF e(2)] Cons.prems(2) by auto
  show ?case
  proof (cases k)
    case 0
    obtain es where tr: "traced (\<lambda>e1 e2' ii. emit_instr iu f ?nxt ii e1 = Inr e2' \<and> good e1 \<and> reaches e2' e2) (e # es) (bb_instrs bb)"
      using em_all_traced [OF e(1) [unfolded instr_emit_def] Cons.prems(3)] Cons.prems(2) steps_instr by auto
    have "block_in iu f Slots e e' bb ?nxt"
      unfolding block_in_def
    proof (intro exI [of _ es] traced_mono [OF tr] conjI impI allI)
      fix e1 e2' ii a
      assume ii: "emit_instr iu f ?nxt ii e1 = Inr e2' \<and> good e1 \<and> reaches e2' e2" "\<not> names_blocks ii" and a: "em_ptr e1 \<le> a \<and> a < em_ptr e2'"
      have x: "extends e1 e2'" using ii growsD [OF grows_instr] by auto
      then have *: "em_text e' a = em_text e2' a \<and> a \<notin> (\<Union>off \<in> set (em_fixups e'). slot_bytes (em_text e') off)"
        using ii a r by (intro code_intact [of e1]) (auto intro: reaches_trans)
      show "em_text e' a = em_text e2' a" using * by simp
      show "\<not> Slots a" using * Cons.prems(4) by simp
    next
      fix e1 e2' ii
      assume "emit_instr iu f ?nxt ii e1 = Inr e2' \<and> good e1 \<and> reaches e2' e2"
      then show "em_ptr e2' \<le> em_ptr e'" using r reaches_trans by (fastforce simp: reaches_def)
    qed simp
    then show ?thesis using 0 e(3) by (cases bbs) auto
  next
    case (Suc j)
    have "good e2" using instr_emit_reaches [OF e(1)] Cons.prems(2,3) by (auto simp: reaches_def)
    with Cons.IH [OF e(2) _ _ Cons.prems(4), of j] Cons.prems(2,5) e(3) Suc show ?thesis
      by (cases "Suc j < length bbs") simp_all
  qed
qed simp

section \<open>The code of a function\<close>

lemma good_start [simp]: "good \<lparr>em_text = t, em_ptr = 0, em_size = cap, em_fixups = []\<rparr>"
  by (simp add: good_def)

text \<open>What \<open>vm_emit_function\<close> has done when it succeeds.\<close>

lemma vm_emit_function_inv:
  assumes "vm_emit_function iu count buf cap f bbs = Inr (text, n)" "\<forall>bb \<in> set bbs. \<forall>ii \<in> set (bb_instrs bb). pred_ok ii"
  obtains offs e where "emit_blocks iu f count bbs \<lparr>em_text = buf, em_ptr = 0, em_size = cap, em_fixups = []\<rparr> = Inr (offs, e)"
    "n = em_ptr e" "good e"
    "\<forall>off \<in> set (em_fixups e). \<exists>ks. fixup_slots (em_text e) off = Inr ks \<and> (\<forall>k \<in> set ks.
      bb_to_offset_delta offs (uint (mem_rd16 (em_text e) (off + 2 * k))) off = Inr (mem_rd16 text (off + 2 * k)))"
    "\<forall>a. a \<notin> (\<Union>off \<in> set (em_fixups e). slot_bytes (em_text e) off) \<longrightarrow> text a = em_text e a"
proof -
  let ?e0 = "\<lparr>em_text = buf, em_ptr = 0, em_size = cap, em_fixups = []\<rparr>"
  obtain offs e where e: "emit_blocks iu f count bbs ?e0 = Inr (offs, e)" "branch_fixup offs (em_fixups e) (em_text e) = Inr text" "n = em_ptr e"
    using assms(1) by (auto simp: vm_emit_function_def res_bind_eq_Inr)
  have g: "good e" using emit_blocks_reaches [OF e(1) assms(2)] by (simp add: reaches_def)
  from branch_fixup_ok [OF e(2) g [unfolded good_def]] that [OF e(1,3) g] show ?thesis by blast
qed

lemma sint_u16: "- 32768 \<le> z \<Longrightarrow> z \<le> 32767 \<Longrightarrow> sint (word_of_int z :: u16) = z"
  by (simp add: signed_of_int signed_take_bit_int_eq_self)

lemma delta_jump:
  assumes "bb_to_offset_delta offs b off = Inr d"
  shows "\<exists>target. map_of offs b = Some target \<and>
    (\<forall>g st. fr_pc g = off + 2 \<longrightarrow> jump d g st = Inr (Flow (Next (g\<lparr>fr_pc := target\<rparr>)), st))"
proof -
  obtain target where t: "map_of offs b = Some target" "- 32768 \<le> int target - (int off + 2)" "int target - (int off + 2) \<le> 32767"
      "d = word_of_int (int target - (int off + 2))"
    using assms by (auto simp: bb_to_offset_delta_def Let_def res_bind_eq_Inr c_assert_def split: option.splits if_splits)
  have "int (fr_pc g) + sint d = int target" if "fr_pc g = off + 2" for g :: vm_frame
    using that unfolding t(4) sint_u16 [OF t(2,3)] by simp
  then show ?thesis using t(1) by (auto simp: jump_def Let_def)
qed

text \<open>A function of three blocks: a branch over the second, whose addition goes nowhere, to a conditional branch back.\<close>

definition sample_bbs :: "ir_bb list" where
  "sample_bbs = (let none = \<lparr>vt_value = -1, vt_type = 0\<rparr> in
    [\<lparr>bb_id = 1, bb_instrs = [IR_IC_BR \<lparr>ibr_condition = none, ibr_true = 3, ibr_false = -1\<rparr>]\<rparr>,
     \<lparr>bb_id = 2, bb_instrs = [IR_IC_BINOP (sample_binary (BINOP ADD) 0 1), IR_IC_UNREACHABLE]\<rparr>,
     \<lparr>bb_id = 3, bb_instrs = [IR_IC_BR \<lparr>ibr_condition = \<lparr>vt_value = 0, vt_type = 0\<rparr>, ibr_true = 2, ibr_false = 1\<rparr>]\<rparr>])"

definition sample_code :: "(vmem \<times> nat) result" where
  "sample_code = vm_emit_function sample_unit None (\<lambda>_. 0) 64 (new_function 0 False) sample_bbs"

lemma sample_code_ok: "\<exists>text. sample_code = Inr (text, 24)"
proof -
  have "case sample_code of Inr (t, n) \<Rightarrow> n = 24 | Inl _ \<Rightarrow> False" by code_simp
  then show ?thesis by (auto split: sum.splits)
qed

lemma sample_offsets: "emit_blocks sample_unit (new_function 0 False) None sample_bbs
    \<lparr>em_text = \<lambda>_. 0, em_ptr = 0, em_size = 64, em_fixups = []\<rparr> = Inr (offs, e) \<Longrightarrow>
  offs = [(1, 0), (2, 4), (3, 16)] \<and> em_fixups e = [0, 16]"
proof -
  have "case emit_blocks sample_unit (new_function 0 False) None sample_bbs
      \<lparr>em_text = \<lambda>_. 0, em_ptr = 0, em_size = 64, em_fixups = []\<rparr> of
    Inr (offs, e) \<Rightarrow> offs = [(1, 0), (2, 4), (3, 16)] \<and> em_fixups e = [0, 16] | Inl _ \<Rightarrow> False" by code_simp
  then show "emit_blocks sample_unit (new_function 0 False) None sample_bbs
    \<lparr>em_text = \<lambda>_. 0, em_ptr = 0, em_size = 64, em_fixups = []\<rparr> = Inr (offs, e) \<Longrightarrow>
  offs = [(1, 0), (2, 4), (3, 16)] \<and> em_fixups e = [0, 16]" by simp
qed

lemma sample_preds: "\<forall>bb \<in> set sample_bbs. \<forall>ii \<in> set (bb_instrs bb). pred_ok ii"
  by (simp add: sample_bbs_def Let_def)



text \<open>
  C14. The code of a function is its blocks in order, each the code of its instructions in order, and
  what the machine runs at an instruction that names no block is exactly what was emitted for it:
  the fixup of branches elsewhere in the function leaves it alone.  So the theorems on single
  instructions (\<open>emit_binop_correct\<close>, \<open>emit_cmp2_correct\<close>), which ask for \<open>in_code\<close>, hold inside
  functions.
\<close>

theorem blocks_in_place:
  assumes "vm_emit_function iu None buf cap f bbs = Inr (text, n)" "\<forall>bb \<in> set bbs. \<forall>ii \<in> set (bb_instrs bb). pred_ok ii" "k < length bbs"
  shows "\<exists>offs e es. emit_blocks iu f None bbs \<lparr>em_text = buf, em_ptr = 0, em_size = cap, em_fixups = []\<rparr> = Inr (offs, e) \<and>
    offs ! k = (bb_id (bbs ! k), em_ptr (hd es)) \<and>
    traced (\<lambda>e1 e2 ii. emit_instr iu f (if Suc k < length bbs then Some (bb_id (bbs ! Suc k)) else None) ii e1 = Inr e2 \<and>
      (\<not> names_blocks ii \<longrightarrow> (\<forall>st g. iu_vm_funcs st (fr_fn g) = Some (text, n) \<and> fr_pc g = em_ptr e1 \<longrightarrow> in_code st g e1 e2)))
      es (bb_instrs (bbs ! k))"
proof -
  from vm_emit_function_inv [OF assms(1,2)] obtain offs e where
    e: "emit_blocks iu f None bbs \<lparr>em_text = buf, em_ptr = 0, em_size = cap, em_fixups = []\<rparr> = Inr (offs, e)" "n = em_ptr e"
    and same: "\<forall>a. a \<notin> (\<Union>off \<in> set (em_fixups e). slot_bytes (em_text e) off) \<longrightarrow> text a = em_text e a" by metis
  obtain e0 where e0: "offs ! k = (bb_id (bbs ! k), em_ptr e0)"
    and b: "block_in iu f (\<lambda>a. a \<in> (\<Union>off \<in> set (em_fixups e). slot_bytes (em_text e) off)) e0 e (bbs ! k)
      (if Suc k < length bbs then Some (bb_id (bbs ! Suc k)) else None)"
    using emit_blocks_in [OF e(1) assms(2) good_start refl assms(3)] by blast
  from b obtain es where es: "traced (\<lambda>e1 e2 ii. emit_instr iu f (if Suc k < length bbs then Some (bb_id (bbs ! Suc k)) else None) ii e1 = Inr e2 \<and>
      (\<not> names_blocks ii \<longrightarrow> em_ptr e2 \<le> em_ptr e \<and> (\<forall>a. em_ptr e1 \<le> a \<and> a < em_ptr e2 \<longrightarrow>
        em_text e a = em_text e2 a \<and> a \<notin> (\<Union>off \<in> set (em_fixups e). slot_bytes (em_text e) off)))) (e0 # es) (bb_instrs (bbs ! k))"
    unfolding block_in_def by blast
  have "traced (\<lambda>e1 e2 ii. emit_instr iu f (if Suc k < length bbs then Some (bb_id (bbs ! Suc k)) else None) ii e1 = Inr e2 \<and>
      (\<not> names_blocks ii \<longrightarrow> (\<forall>st g. iu_vm_funcs st (fr_fn g) = Some (text, n) \<and> fr_pc g = em_ptr e1 \<longrightarrow> in_code st g e1 e2)))
      (e0 # es) (bb_instrs (bbs ! k))"
    by (rule traced_mono [OF es]) (use same e(2) in \<open>auto simp: in_code_def\<close>)
  with e(1) e0 show ?thesis by (intro exI [of _ offs] exI [of _ e] exI [of _ "e0 # es"]) simp
qed

theorem blocks_in_place_witness:
  "\<exists>text (es::emitter list). sample_code = Inr (text, 24) \<and> em_ptr (hd es) = 4 \<and>
    traced (\<lambda>e1 e2 ii. emit_instr sample_unit (new_function 0 False) (Some 3) ii e1 = Inr e2 \<and>
      (\<not> names_blocks ii \<longrightarrow> (\<forall>st g. iu_vm_funcs st (fr_fn g) = Some (text, 24) \<and> fr_pc g = em_ptr e1 \<longrightarrow> in_code st g e1 e2)))
      es [IR_IC_BINOP (sample_binary (BINOP ADD) 0 1), IR_IC_UNREACHABLE]"
proof -
  obtain tx where t: "sample_code = Inr (tx, 24)" using sample_code_ok by blast
  have s: "length sample_bbs = 3" "bb_id (sample_bbs ! 1) = 2" "bb_id (sample_bbs ! Suc 1) = 3"
      "bb_instrs (sample_bbs ! 1) = [IR_IC_BINOP (sample_binary (BINOP ADD) 0 1), IR_IC_UNREACHABLE]"
    by (simp_all add: sample_bbs_def Let_def numeral_2_eq_2)
  from blocks_in_place [OF t [unfolded sample_code_def] sample_preds, of 1] obtain offs e es where
    "emit_blocks sample_unit (new_function 0 False) None sample_bbs \<lparr>em_text = \<lambda>_. 0, em_ptr = 0, em_size = 64, em_fixups = []\<rparr> = Inr (offs, e)"
    "offs ! 1 = (2, em_ptr (hd es))"
    and tr: "traced (\<lambda>e1 e2 ii. emit_instr sample_unit (new_function 0 False) (Some 3) ii e1 = Inr e2 \<and>
      (\<not> names_blocks ii \<longrightarrow> (\<forall>st g. iu_vm_funcs st (fr_fn g) = Some (tx, 24) \<and> fr_pc g = em_ptr e1 \<longrightarrow> in_code st g e1 e2)))
      es [IR_IC_BINOP (sample_binary (BINOP ADD) 0 1), IR_IC_UNREACHABLE]"
    unfolding s by auto
  moreover from this(1) have "offs ! 1 = (2, 4)" using sample_offsets by fastforce
  ultimately have "em_ptr (hd es) = 4" by simp
  then show ?thesis using t tr by (intro exI [of _ tx] exI [of _ es] conjI)
qed

end
