(* ===== verification/Vmir_Live.thy ===== *)
theory Vmir_Live
  imports Vmir_Emit_Flow
begin

text \<open>
  Liveness analysis, \<open>src/src/vmir_transform.c\<close>. Between parsing and code generation a function is
  a list of blocks whose instructions carry three bit sets (\<open>ii_liveness\<close>: live out, used, live in)
  over the temporaries of the function and pointers to the blocks that may come next
  (\<open>ii_succ\<close>). A pointer to a block is the number of that block, \<open>None\<close> for \<open>NULL\<close>.

  \<open>liveness_update\<close> sweeps over the function from its end to its start and updates the sets in place
  until a sweep changes nothing. The model makes no claim that this ends: a run that goes on
  for ever is \<open>None\<close>.
\<close>

section \<open>The flow graph\<close>

record flow_node =
  fn_id :: nat
  fn_instr :: ir_instr
  fn_out :: bitset_words
  fn_gen :: bitset_words
  fn_in :: bitset_words
  fn_num_succ :: int
  fn_succ :: "int option list"

record flow_bb =
  fb_id :: int
  fb_nodes :: "flow_node list"

text \<open>The results of an instruction; classes whose results are never set keep what \<open>instr_create\<close> put there.\<close>

definition no_super :: ir_super where
  "no_super = \<lparr>ii_ret = \<lparr>vt_value = - 1, vt_type = - 1\<rparr>, ii_rets = []\<rparr>"

fun instr_super :: "ir_instr \<Rightarrow> ir_super" where
  "instr_super (IR_IC_RET ii) = iun_super ii"
| "instr_super (IR_IC_BINOP ii) = ibi_super ii"
| "instr_super (IR_IC_CAST ii) = iun_super ii"
| "instr_super (IR_IC_LOAD ii) = ild_super ii"
| "instr_super (IR_IC_CMP2 ii) = ibi_super ii"
| "instr_super (IR_IC_CALL ii) = ica_super ii"
| "instr_super (IR_IC_INVOKE ii) = ica_super ii"
| "instr_super (IR_IC_ALLOCA ii) = ial_super ii"
| "instr_super (IR_IC_SELECT ii) = ise_super ii"
| "instr_super (IR_IC_VAARG ii) = iun_super ii"
| "instr_super (IR_IC_LANDINGPAD ii) = ilp_super ii"
| "instr_super (IR_IC_LEA ii) = ile_super ii"
| "instr_super (IR_IC_MOVE ii) = imo_super ii"
| "instr_super (IR_IC_VMOP ii) = ica_super ii"
| "instr_super (IR_IC_STACKCOPY ii) = isc_super ii"
| "instr_super (IR_IC_CMP_SELECT ii) = ics_super ii"
| "instr_super (IR_IC_MLA ii) = ite_super ii"
| "instr_super (IR_IC_GEP ii) = igp_super ii"
| "instr_super (IR_IC_PHI ii) = iph_super ii"
| "instr_super (IR_IC_EXTRACTVAL ii) = iev_super ii"
| "instr_super (IR_IC_INSERTVAL ii) = iiv_super ii"
| "instr_super _ = no_super"

text \<open>A value below \<open>-1\<close> in \<open>ii_ret\<close> is the negated number of entries of \<open>ii_rets\<close>.\<close>

definition instr_results :: "ir_super \<Rightarrow> ir_valuetype list result" where
  "instr_results s =
     (let r = vt_value (ii_ret s) in
      if r < - 1 then
        if nat (- r) \<le> length (ii_rets s) then Inr (take (nat (- r)) (ii_rets s)) else Inl Undefined_behaviour
      else if 0 \<le> r then Inr [ii_ret s]
      else Inr [])"

definition bb_find :: "flow_bb list \<Rightarrow> int \<Rightarrow> int option" where
  "bb_find bbs b = (if b \<in> fb_id ` set bbs then Some b else None)"

section \<open>Successors\<close>

text \<open>
  \<open>-1\<close> stands for the next instruction of the block. The number of successors is kept in 16 bits,
  which also size their array.
\<close>

definition succ_blocks :: "flow_bb list \<Rightarrow> int list \<Rightarrow> (int \<times> int option list) result" where
  "succ_blocks bbs bs =
     (if int (length bs) \<le> 32767 then Inr (int (length bs), map (bb_find bbs) bs) else Inl Undefined_behaviour)"

fun liveness_set_succ :: "flow_bb list \<Rightarrow> ir_instr \<Rightarrow> (int \<times> int option list) result" where
  "liveness_set_succ bbs (IR_IC_RET _) = Inr (0, [])"
| "liveness_set_succ bbs IR_IC_UNREACHABLE = Inr (0, [])"
| "liveness_set_succ bbs (IR_IC_RESUME _) = Inr (0, [])"
| "liveness_set_succ bbs (IR_IC_SWITCH ii) = succ_blocks bbs (isw_defblock ii # map snd (isw_paths ii))"
| "liveness_set_succ bbs (IR_IC_BR ii) =
     succ_blocks bbs (ibr_true ii # (if vt_value (ibr_condition ii) \<noteq> - 1 then [ibr_false ii] else []))"
| "liveness_set_succ bbs (IR_IC_CMP_BRANCH ii) = succ_blocks bbs [icb_true ii, icb_false ii]"
| "liveness_set_succ bbs (IR_IC_INVOKE ii) = succ_blocks bbs [ica_normal_dest ii, ica_unwind_dest ii]"
| "liveness_set_succ bbs (IR_IC_GEP _) = Inl Assertion_failed"
| "liveness_set_succ bbs (IR_IC_PHI _) = Inl Assertion_failed"
| "liveness_set_succ bbs (IR_IC_INSERTVAL _) = Inl Assertion_failed"
| "liveness_set_succ bbs _ = Inr (- 1, [])"

section \<open>Used values\<close>

definition bs_index :: "bitset_words \<Rightarrow> int \<Rightarrow> nat result" where
  "bs_index bs v = (if 0 \<le> v \<and> v < int (32 * length bs) then Inr (nat v) else Inl Undefined_behaviour)"

definition liveness_set_value :: "ir_unit \<Rightarrow> bitset_words \<Rightarrow> ir_valuetype \<Rightarrow> bitset_words result" where
  "liveness_set_value iu bs vt =
     res_bind (value_at iu (word_of_int (vt_value vt))) (\<lambda>iv.
       if iv_class iv \<noteq> Vc_temporary then Inr bs
       else let v = vt_value vt - int (iu_first_func_value iu) in
         res_bind (c_assert (0 \<le> v)) (\<lambda>_. res_bind (bs_index bs v) (\<lambda>n. Inr (bitset bs n))))"

fun gen_values :: "ir_instr \<Rightarrow> ir_valuetype list result" where
  "gen_values IR_IC_UNREACHABLE = Inr []"
| "gen_values (IR_IC_STACKSHRINK _) = Inr []"
| "gen_values (IR_IC_LANDINGPAD _) = Inr []"
| "gen_values (IR_IC_RET ii) = Inr (if vt_value (iun_value ii) \<noteq> - 1 then [iun_value ii] else [])"
| "gen_values (IR_IC_CAST ii) = Inr [iun_value ii]"
| "gen_values (IR_IC_VAARG ii) = Inr [iun_value ii]"
| "gen_values (IR_IC_LOAD ii) = Inr (ild_ptr ii # (if 0 \<le> vt_value (ild_value_offset ii) then [ild_value_offset ii] else []))"
| "gen_values (IR_IC_BINOP ii) = Inr [ibi_lhs ii, ibi_rhs ii]"
| "gen_values (IR_IC_CMP2 ii) = Inr [ibi_lhs ii, ibi_rhs ii]"
| "gen_values (IR_IC_CMP_BRANCH ii) = Inr [icb_lhs ii, icb_rhs ii]"
| "gen_values (IR_IC_STORE ii) = Inr [ist_value ii, ist_ptr ii]"
| "gen_values (IR_IC_BR ii) = Inr (if vt_value (ibr_condition ii) \<noteq> - 1 then [ibr_condition ii] else [])"
| "gen_values (IR_IC_ALLOCA ii) = Inr [ial_num_items ii]"
| "gen_values (IR_IC_SELECT ii) = Inr [ise_pred ii, ise_true ii, ise_false ii]"
| "gen_values (IR_IC_CMP_SELECT ii) = Inr [ics_lhs ii, ics_rhs ii, ics_true ii, ics_false ii]"
| "gen_values (IR_IC_LEA ii) = Inr (ile_baseptr ii # (if vt_value (ile_value_offset ii) \<noteq> - 1 then [ile_value_offset ii] else []))"
| "gen_values (IR_IC_CALL ii) = Inr (ica_callee ii # map fst (ica_argv ii))"
| "gen_values (IR_IC_VMOP ii) = Inr (ica_callee ii # map fst (ica_argv ii))"
| "gen_values (IR_IC_INVOKE ii) = Inr (ica_callee ii # map fst (ica_argv ii))"
| "gen_values (IR_IC_SWITCH ii) = Inr [isw_value ii]"
| "gen_values (IR_IC_MOVE ii) = Inr [imo_value ii]"
| "gen_values (IR_IC_STACKCOPY ii) = Inr [isc_value ii]"
| "gen_values (IR_IC_MLA ii) = Inr [ite_arg1 ii, ite_arg2 ii, ite_arg3 ii]"
| "gen_values (IR_IC_RESUME vs) = Inr vs"
| "gen_values _ = Inl Assertion_failed"

definition liveness_set_gen :: "ir_unit \<Rightarrow> ir_instr \<Rightarrow> bitset_words \<Rightarrow> bitset_words result" where
  "liveness_set_gen iu ii bs = res_bind (gen_values ii) (res_fold (liveness_set_value iu) bs)"

section \<open>The sweep\<close>

text \<open>The set of the values that live into the first instruction of a block.\<close>

definition bb_in :: "flow_bb list \<Rightarrow> int option \<Rightarrow> bitset_words result" where
  "bb_in bbs b =
     res_bind (deref b) (\<lambda>b. res_bind (deref (List.find (\<lambda>bb. fb_id bb = b) bbs)) (\<lambda>bb.
       res_bind (c_assert (fb_nodes bb \<noteq> [])) (\<lambda>_. Inr (fn_in (hd (fb_nodes bb))))))"

definition node_out :: "nat \<Rightarrow> flow_bb list \<Rightarrow> nat \<Rightarrow> nat \<Rightarrow> bitset_words result" where
  "node_out setwords bbs b i =
     (let nodes = fb_nodes (bbs ! b); nd = nodes ! i in
      if fn_num_succ nd = - 1 \<and> Suc i < length nodes then Inr (fn_in (nodes ! Suc i))
      else res_fold (\<lambda>o' s. res_bind (bb_in bbs s) (\<lambda>x. Inr (bitset_or o' x setwords)))
             (replicate setwords 0) (take (nat (fn_num_succ nd)) (fn_succ nd)))"

definition kill_results :: "int \<Rightarrow> ir_valuetype list \<Rightarrow> bitset_words \<Rightarrow> bitset_words result" where
  "kill_results ffv rs bs =
     res_fold (\<lambda>bs r. res_bind (bs_index bs (vt_value r - ffv)) (\<lambda>n. Inr (bitclr bs n))) bs rs"

definition node_update :: "nat \<Rightarrow> int \<Rightarrow> bitset_words \<Rightarrow> flow_node \<Rightarrow> (bool \<times> flow_node) result" where
  "node_update setwords ffv o' nd =
     res_bind (instr_results (instr_super (fn_instr nd))) (\<lambda>rs.
     res_bind (kill_results ffv rs o') (\<lambda>k.
       let new_in = bitset_or k (fn_gen nd) setwords in
       Inr (fn_out nd = o' \<and> fn_in nd = new_in, nd\<lparr>fn_out := o', fn_in := new_in\<rparr>)))"

definition set_node :: "flow_bb list \<Rightarrow> nat \<Rightarrow> nat \<Rightarrow> flow_node \<Rightarrow> flow_bb list" where
  "set_node bbs b i nd = bbs[b := (bbs ! b)\<lparr>fb_nodes := (fb_nodes (bbs ! b))[i := nd]\<rparr>]"

definition liveness_step :: "nat \<Rightarrow> int \<Rightarrow> bool \<times> flow_bb list \<Rightarrow> nat \<times> nat \<Rightarrow> (bool \<times> flow_bb list) result" where
  "liveness_step setwords ffv = (\<lambda>(quiet, bbs) (b, i).
     res_bind (node_out setwords bbs b i) (\<lambda>o'.
     res_bind (node_update setwords ffv o' (fb_nodes (bbs ! b) ! i)) (\<lambda>(same, nd).
       Inr (quiet \<and> same, if same then bbs else set_node bbs b i nd))))"

definition backwards :: "flow_bb list \<Rightarrow> (nat \<times> nat) list" where
  "backwards bbs = rev (concat (map (\<lambda>b. map (Pair b) [0..<length (fb_nodes (bbs ! b))]) [0..<length bbs]))"

definition liveness_round :: "nat \<Rightarrow> int \<Rightarrow> flow_bb list \<Rightarrow> (bool \<times> flow_bb list) result" where
  "liveness_round setwords ffv bbs = res_fold (liveness_step setwords ffv) (True, bbs) (backwards bbs)"

partial_function (option) liveness_update :: "nat \<Rightarrow> int \<Rightarrow> flow_bb list \<Rightarrow> flow_bb list result option" where
  [code]: "liveness_update setwords ffv bbs =
     (case liveness_round setwords ffv bbs of
        Inl e \<Rightarrow> Some (Inl e)
      | Inr (quiet, bbs') \<Rightarrow> if quiet then Some (Inr bbs') else liveness_update setwords ffv bbs')"

section \<open>Setting up\<close>

text \<open>What \<open>liveness_analysis\<close> does before the sweeps: cleared sets, uses and successors.\<close>

definition setwords_of :: "ir_unit \<Rightarrow> nat" where
  "setwords_of iu = (iu_next_value iu - iu_first_func_value iu + 31) div 32"

definition node_init :: "ir_unit \<Rightarrow> flow_bb list \<Rightarrow> flow_node \<Rightarrow> flow_node result" where
  "node_init iu bbs nd =
     (let none = replicate (setwords_of iu) 0 in
      res_bind (liveness_set_gen iu (fn_instr nd) none) (\<lambda>g.
      res_bind (liveness_set_succ bbs (fn_instr nd)) (\<lambda>(n, succs).
        Inr (nd\<lparr>fn_out := none, fn_gen := g, fn_in := none, fn_num_succ := n, fn_succ := succs\<rparr>))))"

fun res_map :: "('a \<Rightarrow> 'b result) \<Rightarrow> 'a list \<Rightarrow> 'b list result" where
  "res_map f [] = Inr []"
| "res_map f (x # xs) = res_bind (f x) (\<lambda>y. res_bind (res_map f xs) (\<lambda>ys. Inr (y # ys)))"

definition liveness_init :: "ir_unit \<Rightarrow> flow_bb list \<Rightarrow> flow_bb list result" where
  "liveness_init iu bbs =
     res_map (\<lambda>bb. res_bind (res_map (node_init iu bbs) (fb_nodes bb)) (\<lambda>nds. Inr (bb\<lparr>fb_nodes := nds\<rparr>))) bbs"

definition liveness_sets :: "ir_unit \<Rightarrow> flow_bb list \<Rightarrow> flow_bb list result option" where
  "liveness_sets iu bbs =
     (case liveness_init iu bbs of
        Inl e \<Rightarrow> Some (Inl e)
      | Inr bbs' \<Rightarrow> liveness_update (setwords_of iu) (int (iu_first_func_value iu)) bbs')"

end
