(* ===== verification/Vmir_Live_Props.thy ===== *)
theory Vmir_Live_Props
  imports Vmir_Live Vmir_Emit_Props
begin

text \<open>
  Liveness analysis is correct and ends. The reference is liveness along paths: a value is live
  before an instruction when some path from it reaches a use with no assignment on the way.
\<close>

section \<open>Liveness along paths\<close>

text \<open>The instruction at \<open>(b, i)\<close> is instruction \<open>i\<close> of block \<open>b\<close> in the list.\<close>

type_synonym place = "nat \<times> nat"

definition node_at :: "flow_bb list \<Rightarrow> place \<Rightarrow> flow_node" where
  "node_at bbs = (\<lambda>(b, i). fb_nodes (bbs ! b) ! i)"

definition places :: "flow_bb list \<Rightarrow> place set" where
  "places bbs = {(b, i). b < length bbs \<and> i < length (fb_nodes (bbs ! b))}"

definition bb_pos :: "flow_bb list \<Rightarrow> int \<Rightarrow> nat" where
  "bb_pos bbs id' = length (takeWhile (\<lambda>bb. fb_id bb \<noteq> id') bbs)"

definition succ_places :: "flow_bb list \<Rightarrow> place \<Rightarrow> place set" where
  "succ_places bbs = (\<lambda>(b, i).
     if fn_num_succ (node_at bbs (b, i)) = - 1 \<and> Suc i < length (fb_nodes (bbs ! b)) then {(b, Suc i)}
     else {(bb_pos bbs k, 0) |k. Some k \<in> set (take (nat (fn_num_succ (node_at bbs (b, i)))) (fn_succ (node_at bbs (b, i))))})"

definition gen_at :: "flow_bb list \<Rightarrow> place \<Rightarrow> nat set" where
  "gen_at bbs p = bitset_members (fn_gen (node_at bbs p))"

definition kill_at :: "int \<Rightarrow> flow_bb list \<Rightarrow> place \<Rightarrow> nat set" where
  "kill_at ffv bbs p = (case instr_results (instr_super (fn_instr (node_at bbs p))) of
     Inl _ \<Rightarrow> {} | Inr rs \<Rightarrow> (\<lambda>r. nat (vt_value r - ffv)) ` set rs)"

definition in_at :: "flow_bb list \<Rightarrow> place \<Rightarrow> nat set" where
  "in_at bbs p = bitset_members (fn_in (node_at bbs p))"

definition out_at :: "flow_bb list \<Rightarrow> place \<Rightarrow> nat set" where
  "out_at bbs p = bitset_members (fn_out (node_at bbs p))"

inductive live_before :: "int \<Rightarrow> flow_bb list \<Rightarrow> place \<Rightarrow> nat \<Rightarrow> bool" for ffv bbs where
  used: "v \<in> gen_at bbs p \<Longrightarrow> live_before ffv bbs p v"
| passed: "q \<in> succ_places bbs p \<Longrightarrow> live_before ffv bbs q v \<Longrightarrow> v \<notin> kill_at ffv bbs p \<Longrightarrow> live_before ffv bbs p v"

definition live_after :: "int \<Rightarrow> flow_bb list \<Rightarrow> place \<Rightarrow> nat \<Rightarrow> bool" where
  "live_after ffv bbs p v \<longleftrightarrow> (\<exists>q \<in> succ_places bbs p. live_before ffv bbs q v)"

inductive_simps live_before_unfold: "live_before ffv bbs p v"

section \<open>Graphs that differ in their live sets only\<close>

definition skel_node :: "flow_node \<Rightarrow> flow_node" where
  "skel_node nd = nd\<lparr>fn_out := [], fn_in := []\<rparr>"

definition skel :: "flow_bb list \<Rightarrow> flow_bb list" where
  "skel = map (\<lambda>bb. bb\<lparr>fb_nodes := map skel_node (fb_nodes bb)\<rparr>)"

text \<open>The sets have \<open>w\<close> words, every successor is a block with an instruction and results are temporaries.\<close>

definition node_ok :: "nat \<Rightarrow> int \<Rightarrow> flow_bb list \<Rightarrow> flow_node \<Rightarrow> bool" where
  "node_ok w ffv bbs nd \<longleftrightarrow> length (fn_gen nd) = w \<and>
     (\<forall>s \<in> set (take (nat (fn_num_succ nd)) (fn_succ nd)). \<exists>bb \<in> set bbs. s = Some (fb_id bb)) \<and>
     (case instr_results (instr_super (fn_instr nd)) of Inl _ \<Rightarrow> False
      | Inr rs \<Rightarrow> \<forall>r \<in> set rs. ffv \<le> vt_value r \<and> vt_value r - ffv < int (32 * w))"

definition graph_ok :: "nat \<Rightarrow> int \<Rightarrow> flow_bb list \<Rightarrow> bool" where
  "graph_ok w ffv bbs \<longleftrightarrow> (\<forall>bb \<in> set bbs. fb_nodes bb \<noteq> [] \<and> (\<forall>nd \<in> set (fb_nodes bb). node_ok w ffv bbs nd))"

definition sized :: "nat \<Rightarrow> flow_bb list \<Rightarrow> bool" where
  "sized w bbs \<longleftrightarrow> (\<forall>p \<in> places bbs. length (fn_out (node_at bbs p)) = w \<and> length (fn_in (node_at bbs p)) = w)"

lemma skel_sizes:
  assumes "skel bbs = skel bbs'"
  shows "length bbs = length bbs'" "b < length bbs \<Longrightarrow> length (fb_nodes (bbs ! b)) = length (fb_nodes (bbs' ! b))"
    "b < length bbs \<Longrightarrow> fb_id (bbs ! b) = fb_id (bbs' ! b)"
proof -
  show l: "length bbs = length bbs'" using arg_cong [OF assms, of length] by (simp add: skel_def)
  assume b: "b < length bbs"
  have e: "skel bbs ! b = skel bbs' ! b" by (simp add: assms)
  show "length (fb_nodes (bbs ! b)) = length (fb_nodes (bbs' ! b))"
    using arg_cong [OF e, of "\<lambda>bb. length (fb_nodes bb)"] b l by (simp add: skel_def)
  show "fb_id (bbs ! b) = fb_id (bbs' ! b)" using arg_cong [OF e, of fb_id] b l by (simp add: skel_def)
qed

lemma skel_node_at:
  assumes "skel bbs = skel bbs'" "p \<in> places bbs"
  shows "skel_node (node_at bbs p) = skel_node (node_at bbs' p)"
proof -
  obtain b i where p: "p = (b, i)" "b < length bbs" "i < length (fb_nodes (bbs ! b))" using assms(2) by (auto simp: places_def)
  have e: "skel bbs ! b = skel bbs' ! b" by (simp add: assms)
  show ?thesis
    using arg_cong [OF e, of "\<lambda>bb. fb_nodes bb ! i"] p skel_sizes [OF assms(1)] by (simp add: skel_def node_at_def)
qed

lemma skel_places: "skel bbs = skel bbs' \<Longrightarrow> places bbs = places bbs'"
  using skel_sizes [of bbs bbs'] by (auto simp: places_def)

lemma bb_pos_skel: "bb_pos (skel bbs) k = bb_pos bbs k"
  by (induction bbs) (auto simp: bb_pos_def skel_def)

lemma skel_node_fields:
  assumes "skel_node nd = skel_node nd'"
  shows "fn_instr nd = fn_instr nd'" "fn_gen nd = fn_gen nd'" "fn_num_succ nd = fn_num_succ nd'" "fn_succ nd = fn_succ nd'"
    "node_ok w ffv bbs nd = node_ok w ffv bbs nd'"
  using assms by (cases nd; cases nd'; simp add: skel_node_def node_ok_def)+

lemma skel_static:
  assumes "skel bbs = skel bbs'" "p \<in> places bbs"
  shows "succ_places bbs p = succ_places bbs' p" "gen_at bbs p = gen_at bbs' p" "kill_at ffv bbs p = kill_at ffv bbs' p"
proof -
  note n = skel_node_fields [OF skel_node_at [OF assms]]
  have k: "bb_pos bbs k = bb_pos bbs' k" for k using bb_pos_skel [of bbs k] bb_pos_skel [of bbs' k] assms(1) by simp
  show "succ_places bbs p = succ_places bbs' p"
    using n k skel_sizes [OF assms(1)] assms(2) by (cases p) (auto simp: succ_places_def places_def)
  show "gen_at bbs p = gen_at bbs' p" "kill_at ffv bbs p = kill_at ffv bbs' p" by (simp_all add: gen_at_def kill_at_def n)
qed

lemma graph_ok_nth:
  "graph_ok w ffv bbs \<longleftrightarrow> (\<forall>b < length bbs. fb_nodes (bbs ! b) \<noteq> []) \<and> (\<forall>p \<in> places bbs. node_ok w ffv bbs (node_at bbs p))"
  unfolding graph_ok_def all_set_conv_all_nth places_def node_at_def by (simp add: Ball_def) blast

lemma skel_graph_ok:
  assumes "skel bbs = skel bbs'" "graph_ok w ffv bbs"
  shows "graph_ok w ffv bbs'"
proof -
  have ids: "fb_id ` set bbs = fb_id ` set bbs'"
    using arg_cong [OF assms(1), of "\<lambda>x. fb_id ` set x"] by (simp add: skel_def image_image)
  have "(\<exists>bb \<in> set bbs. s = Some (fb_id bb)) = (\<exists>bb \<in> set bbs'. s = Some (fb_id bb))" for s
    using arg_cong [OF ids, of "\<lambda>I. \<exists>k \<in> I. s = Some k"] by simp
  then have 1: "node_ok w ffv bbs nd = node_ok w ffv bbs' nd" for nd by (simp add: node_ok_def)
  have "node_ok w ffv bbs' (node_at bbs' p)" if "p \<in> places bbs'" for p
  proof -
    have p: "p \<in> places bbs" using that skel_places [OF assms(1)] by simp
    then have "node_ok w ffv bbs (node_at bbs p)" using assms(2) by (simp add: graph_ok_nth)
    then show ?thesis using 1 skel_node_fields(5) [OF skel_node_at [OF assms(1) p]] by simp
  qed
  moreover have "fb_nodes (bbs' ! b) \<noteq> []" if "b < length bbs'" for b
  proof -
    have "b < length bbs" using that skel_sizes(1) [OF assms(1)] by simp
    then show ?thesis using assms(2) skel_sizes(2) [OF assms(1), of b] by (auto simp: graph_ok_nth)
  qed
  ultimately show ?thesis by (auto simp: graph_ok_nth)
qed

lemma succ_in_places:
  assumes "graph_ok w ffv bbs" "p \<in> places bbs"
  shows "succ_places bbs p \<subseteq> places bbs"
proof -
  have n: "node_ok w ffv bbs (node_at bbs p)" and ne: "\<And>b. b < length bbs \<Longrightarrow> fb_nodes (bbs ! b) \<noteq> []"
    using assms by (auto simp: graph_ok_nth)
  have "bb_pos bbs (fb_id bb) < length bbs" if "bb \<in> set bbs" for bb
    using that by (induction bbs) (auto simp: bb_pos_def)
  then have "(bb_pos bbs k, 0) \<in> places bbs"
    if "Some k \<in> set (take (nat (fn_num_succ (node_at bbs p))) (fn_succ (node_at bbs p)))" for k
    using that n ne by (fastforce simp: node_ok_def places_def)
  then show ?thesis using assms(2) by (cases p) (auto simp: succ_places_def places_def)
qed


section \<open>One step\<close>

lemma bitset_eqI:
  assumes "length xs = length ys" "bitset_members xs = bitset_members ys"
  shows "xs = ys"
proof (rule nth_equalityI [OF assms(1)])
  fix i assume i: "i < length xs"
  have "bit (xs ! i) n \<longleftrightarrow> bit (ys ! i) n" if "n < 32" for n
  proof -
    have "32 * i + n \<in> bitset_members xs \<longleftrightarrow> 32 * i + n \<in> bitset_members ys" by (simp add: assms(2))
    then show ?thesis using that i assms(1) by (simp add: bitset_members_def)
  qed
  then show "xs ! i = ys ! i" by (intro bit_word_eqI) simp
qed

lemma length_bitset_or [simp]: "length bs = w \<Longrightarrow> length (bitset_or bs src w) = w"
  using bitset_or_loop_nth(1) [of 0 w bs src] by (simp add: bitset_or_def)

lemma bitset_members_zero [simp]: "bitset_members (replicate w 0) = {}"
  by (auto simp: bitset_members_def bitset_div_less)

lemma bitset_members_bound: "bitset_members bs \<subseteq> {..<32 * length bs}"
  by (auto simp: bitset_members_def)

lemma find_bb:
  assumes "bb \<in> set bbs"
  shows "List.find (\<lambda>x. fb_id x = fb_id bb) bbs = Some (bbs ! bb_pos bbs (fb_id bb))"
  using assms by (induction bbs) (auto simp: bb_pos_def)

lemma bb_in_ok:
  assumes "graph_ok w ffv bbs" "bb \<in> set bbs" "s = Some (fb_id bb)"
  shows "bb_in bbs s = Inr (fn_in (node_at bbs (bb_pos bbs (fb_id bb), 0))) \<and> (bb_pos bbs (fb_id bb), 0) \<in> places bbs"
proof -
  have "bb_pos bbs (fb_id bb) < length bbs" using assms(2) by (induction bbs) (auto simp: bb_pos_def)
  moreover from this have "fb_nodes (bbs ! bb_pos bbs (fb_id bb)) \<noteq> []" using assms(1) by (simp add: graph_ok_nth)
  ultimately show ?thesis using assms(3) find_bb [OF assms(2)]
    by (auto simp: bb_in_def deref_def places_def node_at_def hd_conv_nth)
qed

lemma or_fold:
  assumes "graph_ok w ffv bbs" "sized w bbs" "\<forall>s \<in> set ss. \<exists>bb \<in> set bbs. s = Some (fb_id bb)" "length o' = w"
  shows "\<exists>r. res_fold (\<lambda>o' s. res_bind (bb_in bbs s) (\<lambda>x. Inr (bitset_or o' x w))) o' ss = Inr r \<and> length r = w \<and>
    bitset_members r = bitset_members o' \<union> (\<Union>k \<in> {k. Some k \<in> set ss}. in_at bbs (bb_pos bbs k, 0))"
  using assms(3,4)
proof (induction ss arbitrary: o')
  case (Cons s ss)
  then obtain bb where bb: "bb \<in> set bbs" "s = Some (fb_id bb)" by auto
  let ?x = "fn_in (node_at bbs (bb_pos bbs (fb_id bb), 0))"
  from bb_in_ok [OF assms(1) bb] have b: "bb_in bbs s = Inr ?x" "length ?x = w" using assms(2) by (auto simp: sized_def)
  have "length (bitset_or o' ?x w) = w" using Cons.prems(2) by simp
  from Cons.IH [OF _ this] Cons.prems(1) obtain r where
    r: "res_fold (\<lambda>o' s. res_bind (bb_in bbs s) (\<lambda>x. Inr (bitset_or o' x w))) (bitset_or o' ?x w) ss = Inr r" "length r = w"
      "bitset_members r = bitset_members (bitset_or o' ?x w) \<union> (\<Union>k \<in> {k. Some k \<in> set ss}. in_at bbs (bb_pos bbs k, 0))"
    by auto
  have "{k. Some k \<in> set (s # ss)} = insert (fb_id bb) {k. Some k \<in> set ss}" using bb(2) by auto
  then show ?case using r b Cons.prems(2) by (auto simp: bitset_members_or in_at_def)
qed simp

lemma node_out_ok:
  assumes "graph_ok w ffv bbs" "sized w bbs" "(b, i) \<in> places bbs"
  shows "\<exists>r. node_out w bbs b i = Inr r \<and> length r = w \<and> bitset_members r = (\<Union>q \<in> succ_places bbs (b, i). in_at bbs q)"
proof (cases "fn_num_succ (node_at bbs (b, i)) = - 1 \<and> Suc i < length (fb_nodes (bbs ! b))")
  case True
  then have "(b, Suc i) \<in> places bbs" using assms(3) by (auto simp: places_def)
  then show ?thesis using True assms(2) by (auto simp: node_out_def Let_def node_at_def succ_places_def sized_def in_at_def)
next
  case False
  let ?ss = "take (nat (fn_num_succ (node_at bbs (b, i)))) (fn_succ (node_at bbs (b, i)))"
  have "\<forall>s \<in> set ?ss. \<exists>bb \<in> set bbs. s = Some (fb_id bb)" using assms(1,3) by (auto simp: graph_ok_nth node_ok_def)
  from or_fold [OF assms(1,2) this, of "replicate w 0"] obtain r where
    r: "res_fold (\<lambda>o' s. res_bind (bb_in bbs s) (\<lambda>x. Inr (bitset_or o' x w))) (replicate w 0) ?ss = Inr r" "length r = w"
      "bitset_members r = (\<Union>k \<in> {k. Some k \<in> set ?ss}. in_at bbs (bb_pos bbs k, 0))" by auto
  have "succ_places bbs (b, i) = (\<lambda>k. (bb_pos bbs k, 0)) ` {k. Some k \<in> set ?ss}"
    using False by (auto simp: succ_places_def)
  moreover have "node_out w bbs b i = Inr r" using r(1) False by (auto simp: node_out_def Let_def node_at_def)
  ultimately show ?thesis using r by (simp add: image_image)
qed

lemma kill_results_ok:
  assumes "\<forall>r \<in> set rs. ffv \<le> vt_value r \<and> vt_value r - ffv < int (32 * w)" "length bs = w"
  shows "\<exists>k. kill_results ffv rs bs = Inr k \<and> length k = w \<and> bitset_members k = bitset_members bs - (\<lambda>r. nat (vt_value r - ffv)) ` set rs"
  using assms
proof (induction rs arbitrary: bs)
  case (Cons r rs)
  let ?n = "nat (vt_value r - ffv)"
  have n: "bs_index bs (vt_value r - ffv) = Inr ?n" "?n < 32 * length bs" using Cons.prems by (auto simp: bs_index_def)
  from Cons.IH [of "bitclr bs ?n"] Cons.prems obtain k where
    "kill_results ffv rs (bitclr bs ?n) = Inr k" "length k = w"
    "bitset_members k = bitset_members (bitclr bs ?n) - (\<lambda>r. nat (vt_value r - ffv)) ` set rs" by auto
  then show ?case using n by (auto simp: kill_results_def bitset_members_bitclr)
qed (simp add: kill_results_def)

text \<open>What the sweep puts into the sets of an instruction.\<close>

definition flow_out :: "flow_bb list \<Rightarrow> (place \<Rightarrow> nat set) \<Rightarrow> place \<Rightarrow> nat set" where
  "flow_out bbs S p = (\<Union>q \<in> succ_places bbs p. S q)"

definition flow_in :: "int \<Rightarrow> flow_bb list \<Rightarrow> (place \<Rightarrow> nat set) \<Rightarrow> place \<Rightarrow> nat set" where
  "flow_in ffv bbs S p = gen_at bbs p \<union> (flow_out bbs S p - kill_at ffv bbs p)"

lemma flow_mono: "(\<And>q. S q \<subseteq> T q) \<Longrightarrow> flow_out bbs S p \<subseteq> flow_out bbs T p" "(\<And>q. S q \<subseteq> T q) \<Longrightarrow> flow_in ffv bbs S p \<subseteq> flow_in ffv bbs T p"
  by (fastforce simp: flow_in_def flow_out_def)+

lemma set_node_at:
  assumes "(b, i) \<in> places bbs"
  shows "node_at (set_node bbs b i nd) = (node_at bbs)((b, i) := nd)"
  using assms by (auto simp: node_at_def set_node_def places_def nth_list_update fun_eq_iff)

lemma skel_set_node:
  assumes "(b, i) \<in> places bbs" "skel_node nd = skel_node (node_at bbs (b, i))"
  shows "skel (set_node bbs b i nd) = skel bbs"
proof -
  have "(map skel_node (fb_nodes (bbs ! b)))[i := skel_node nd] = map skel_node (fb_nodes (bbs ! b))"
    using assms by (auto simp: node_at_def places_def intro!: list_update_same_conv [THEN iffD2])
  then have "(skel bbs)[b := skel bbs ! b] = skel (set_node bbs b i nd)"
    using assms(1) by (simp add: skel_def set_node_def places_def map_update)
  then show ?thesis by simp
qed

lemma liveness_step_ok:
  assumes "graph_ok w ffv bbs" "sized w bbs" "p \<in> places bbs"
  shows "\<exists>bbs'. liveness_step w ffv (quiet, bbs) p =
      Inr (quiet \<and> out_at bbs p = flow_out bbs (in_at bbs) p \<and> in_at bbs p = flow_in ffv bbs (in_at bbs) p, bbs') \<and>
    skel bbs' = skel bbs \<and> sized w bbs' \<and>
    in_at bbs' = (in_at bbs)(p := flow_in ffv bbs (in_at bbs) p) \<and>
    out_at bbs' = (out_at bbs)(p := flow_out bbs (in_at bbs) p)"
proof -
  obtain b i where p: "p = (b, i)" by (cases p)
  let ?nd = "node_at bbs p"
  obtain r where r: "node_out w bbs b i = Inr r" "length r = w" "bitset_members r = flow_out bbs (in_at bbs) p"
    using node_out_ok [OF assms(1,2), of b i] assms(3) p by (auto simp: flow_out_def)
  have nok: "node_ok w ffv bbs ?nd" and sz: "length (fn_out ?nd) = w" "length (fn_in ?nd) = w"
    using assms by (auto simp: graph_ok_nth sized_def)
  then obtain rs where rs: "instr_results (instr_super (fn_instr ?nd)) = Inr rs"
      "\<forall>r \<in> set rs. ffv \<le> vt_value r \<and> vt_value r - ffv < int (32 * w)" and g: "length (fn_gen ?nd) = w"
    by (auto simp: node_ok_def split: sum.splits)
  obtain k where k: "kill_results ffv rs r = Inr k" "length k = w" "bitset_members k = bitset_members r - kill_at ffv bbs p"
    using kill_results_ok [OF rs(2) r(2)] rs(1) by (auto simp: kill_at_def)
  define n where "n = bitset_or k (fn_gen ?nd) w"
  have n: "length n = w" "bitset_members n = flow_in ffv bbs (in_at bbs) p"
    using k g r(3) by (auto simp: n_def bitset_members_or flow_in_def gen_at_def)
  define nd where "nd = ?nd\<lparr>fn_out := r, fn_in := n\<rparr>"
  have ndf: "fn_out nd = r" "fn_in nd = n" by (simp_all add: nd_def)
  let ?same = "fn_out ?nd = r \<and> fn_in ?nd = n"
  have same: "?same \<longleftrightarrow> out_at bbs p = flow_out bbs (in_at bbs) p \<and> in_at bbs p = flow_in ffv bbs (in_at bbs) p"
    using bitset_eqI [of "fn_out ?nd" r] bitset_eqI [of "fn_in ?nd" n] r n sz by (auto simp: out_at_def in_at_def)
  have step: "liveness_step w ffv (quiet, bbs) p = Inr (quiet \<and> ?same, if ?same then bbs else set_node bbs b i nd)"
    using r(1) rs(1) k(1) by (simp add: p liveness_step_def node_update_def n_def nd_def node_at_def Let_def)
  show ?thesis
  proof (cases ?same)
    case True
    then show ?thesis using step same assms(2) by (auto simp: fun_eq_iff)
  next
    case False
    have pl: "(b, i) \<in> places bbs" using assms(3) p by simp
    have sk: "skel (set_node bbs b i nd) = skel bbs" by (rule skel_set_node [OF pl]) (simp add: nd_def p skel_node_def)
    have at: "node_at (set_node bbs b i nd) = (node_at bbs)(p := nd)" using set_node_at [OF pl] p by simp
    have "sized w (set_node bbs b i nd)"
      using assms(2) skel_places [OF sk] r(2) n(1) by (auto simp: sized_def at ndf)
    moreover have "in_at (set_node bbs b i nd) = (in_at bbs)(p := flow_in ffv bbs (in_at bbs) p)"
      "out_at (set_node bbs b i nd) = (out_at bbs)(p := flow_out bbs (in_at bbs) p)"
      using n(2) r(3) by (auto simp: in_at_def out_at_def at ndf fun_eq_iff)
    ultimately show ?thesis using step same sk False by auto
  qed
qed


section \<open>The sweeps\<close>

lemma set_backwards [simp]: "set (backwards bbs) = places bbs"
  by (auto simp: backwards_def places_def)

lemma finite_places [simp]: "finite (places bbs)"
  by (metis List.finite_set set_backwards)

text \<open>
  During the sweeps every set is part of the solution, and no larger than what the sets of the
  successors justify.
\<close>

definition flow_inv :: "nat \<Rightarrow> int \<Rightarrow> flow_bb list \<Rightarrow> flow_bb list \<Rightarrow> bool" where
  "flow_inv w ffv bbs0 bbs \<longleftrightarrow> skel bbs = skel bbs0 \<and> sized w bbs \<and>
     (\<forall>p \<in> places bbs0. in_at bbs p \<subseteq> flow_in ffv bbs0 (in_at bbs) p \<and> out_at bbs p \<subseteq> flow_out bbs0 (in_at bbs) p \<and>
        in_at bbs p \<subseteq> {v. live_before ffv bbs0 p v} \<and> out_at bbs p \<subseteq> {v. live_after ffv bbs0 p v})"

definition weight :: "flow_bb list \<Rightarrow> nat" where
  "weight bbs = (\<Sum>p \<in> places bbs. card (in_at bbs p) + card (out_at bbs p))"

lemma flow_skel:
  assumes "skel bbs = skel bbs0" "p \<in> places bbs0"
  shows "flow_out bbs S p = flow_out bbs0 S p" "flow_in ffv bbs S p = flow_in ffv bbs0 S p"
  using skel_static [OF assms(1)] skel_places [OF assms(1)] assms(2) by (simp_all add: flow_out_def flow_in_def)

lemma finite_sets [simp]: "finite (in_at bbs p)" "finite (out_at bbs p)"
  unfolding in_at_def out_at_def by (rule finite_subset [OF bitset_members_bound]; simp)+

lemma sum_update_le:
  assumes "finite A" "p \<in> A" "f p \<le> (g p :: nat)" "\<And>q. q \<noteq> p \<Longrightarrow> g q = f q"
  shows "sum f A \<le> sum g A" "f p < g p \<Longrightarrow> sum f A < sum g A"
proof -
  have "sum f A = f p + sum f (A - {p})" "sum g A = g p + sum g (A - {p})" using assms(1,2) by (simp_all add: sum.remove)
  moreover have "sum g (A - {p}) = sum f (A - {p})" using assms(4) by (intro sum.cong) auto
  ultimately show "sum f A \<le> sum g A" "f p < g p \<Longrightarrow> sum f A < sum g A" using assms(3) by simp_all
qed

lemma sweep_step:
  assumes "graph_ok w ffv bbs0" "flow_inv w ffv bbs0 bbs" "p \<in> places bbs0"
  shows "\<exists>q' bbs'. liveness_step w ffv (quiet, bbs) p = Inr (q', bbs') \<and> flow_inv w ffv bbs0 bbs' \<and> weight bbs \<le> weight bbs' \<and>
    (q' \<longrightarrow> quiet \<and> in_at bbs' = in_at bbs \<and> out_at bbs' = out_at bbs \<and>
       in_at bbs p = flow_in ffv bbs0 (in_at bbs) p \<and> out_at bbs p = flow_out bbs0 (in_at bbs) p) \<and>
    (quiet \<and> \<not> q' \<longrightarrow> weight bbs < weight bbs')"
proof -
  let ?I = "flow_in ffv bbs0 (in_at bbs) p" and ?O = "flow_out bbs0 (in_at bbs) p"
  have sk: "skel bbs = skel bbs0" and sz: "sized w bbs"
    and sub: "\<And>q. q \<in> places bbs0 \<Longrightarrow> in_at bbs q \<subseteq> flow_in ffv bbs0 (in_at bbs) q \<and> out_at bbs q \<subseteq> flow_out bbs0 (in_at bbs) q \<and>
        in_at bbs q \<subseteq> {v. live_before ffv bbs0 q v} \<and> out_at bbs q \<subseteq> {v. live_after ffv bbs0 q v}"
    using assms(2) by (auto simp: flow_inv_def)
  have ok: "graph_ok w ffv bbs" using skel_graph_ok [OF sk [symmetric] assms(1)] .
  have p: "p \<in> places bbs" using assms(3) skel_places [OF sk] by simp
  from liveness_step_ok [OF ok sz p, of quiet] flow_skel [OF sk assms(3)] obtain bbs' where
    s: "liveness_step w ffv (quiet, bbs) p = Inr (quiet \<and> out_at bbs p = ?O \<and> in_at bbs p = ?I, bbs')"
    and sk': "skel bbs' = skel bbs" and sz': "sized w bbs'"
    and i: "in_at bbs' = (in_at bbs)(p := ?I)" and o': "out_at bbs' = (out_at bbs)(p := ?O)"
    by auto
  have grow: "in_at bbs q \<subseteq> in_at bbs' q" for q using sub [OF assms(3)] by (simp add: i)
  have succ: "succ_places bbs0 p \<subseteq> places bbs0" by (rule succ_in_places [OF assms(1,3)])
  have liveO: "?O \<subseteq> {v. live_after ffv bbs0 p v}" using sub succ by (fastforce simp: flow_out_def live_after_def)
  have liveI: "?I \<subseteq> {v. live_before ffv bbs0 p v}"
    using liveO by (auto simp: flow_in_def live_after_def intro: live_before.intros)
  have m: "flow_in ffv bbs0 (in_at bbs) q \<subseteq> flow_in ffv bbs0 (in_at bbs') q" "flow_out bbs0 (in_at bbs) q \<subseteq> flow_out bbs0 (in_at bbs') q" for q
    using flow_mono [of "in_at bbs" "in_at bbs'"] grow by blast+
  have inv: "flow_inv w ffv bbs0 bbs'"
    unfolding flow_inv_def
  proof (intro conjI ballI)
    show "skel bbs' = skel bbs0" "sized w bbs'" using sk sk' sz' by simp_all
    fix q assume q: "q \<in> places bbs0"
    show "in_at bbs' q \<subseteq> flow_in ffv bbs0 (in_at bbs') q" using sub [OF q] m(1) [of q] by (cases "q = p") (auto simp: i)
    show "out_at bbs' q \<subseteq> flow_out bbs0 (in_at bbs') q" using sub [OF q] m(2) [of q] by (cases "q = p") (auto simp: o')
    show "in_at bbs' q \<subseteq> {v. live_before ffv bbs0 q v}" using sub [OF q] liveI by (cases "q = p") (auto simp: i)
    show "out_at bbs' q \<subseteq> {v. live_after ffv bbs0 q v}" using sub [OF q] liveO by (cases "q = p") (auto simp: o')
  qed
  have pl: "places bbs' = places bbs" using skel_places [OF sk'] .
  have fin: "finite ?I" "finite ?O" using finite_sets [of bbs' p] by (simp_all add: i o')
  let ?f = "\<lambda>q. card (in_at bbs q) + card (out_at bbs q)" and ?g = "\<lambda>q. card (in_at bbs' q) + card (out_at bbs' q)"
  have le: "card (in_at bbs p) \<le> card ?I" "card (out_at bbs p) \<le> card ?O" using sub [OF assms(3)] fin by (auto intro: card_mono)
  have w1: "weight bbs \<le> weight bbs'"
    unfolding weight_def pl using sum_update_le(1) [OF finite_places p, of ?f ?g] le by (simp add: i o')
  have w2: "weight bbs < weight bbs'" if "out_at bbs p \<noteq> ?O \<or> in_at bbs p \<noteq> ?I"
  proof -
    have "card (in_at bbs p) < card ?I \<or> card (out_at bbs p) < card ?O"
      using that sub [OF assms(3)] fin by (auto intro!: psubset_card_mono)
    then have "?f p < ?g p" using le by (auto simp: i o')
    then show ?thesis unfolding weight_def pl using sum_update_le(2) [OF finite_places p, of ?f ?g] le by (simp add: i o')
  qed
  have idem: "in_at bbs' = in_at bbs" "out_at bbs' = out_at bbs" if "out_at bbs p = ?O" "in_at bbs p = ?I"
    using that by (auto simp: i o' fun_eq_iff)
  show ?thesis using s inv w1 w2 idem by blast
qed

lemma sweep:
  assumes "graph_ok w ffv bbs0" "flow_inv w ffv bbs0 bbs" "set ps \<subseteq> places bbs0"
  shows "\<exists>q' bbs'. res_fold (liveness_step w ffv) (quiet, bbs) ps = Inr (q', bbs') \<and> flow_inv w ffv bbs0 bbs' \<and> weight bbs \<le> weight bbs' \<and>
    (q' \<longrightarrow> quiet \<and> in_at bbs' = in_at bbs \<and> out_at bbs' = out_at bbs \<and>
       (\<forall>p \<in> set ps. in_at bbs p = flow_in ffv bbs0 (in_at bbs) p \<and> out_at bbs p = flow_out bbs0 (in_at bbs) p)) \<and>
    (quiet \<and> \<not> q' \<longrightarrow> weight bbs < weight bbs')"
  using assms(2,3)
proof (induction ps arbitrary: bbs quiet)
  case (Cons p ps)
  then have p: "p \<in> places bbs0" by simp
  from sweep_step [OF assms(1) Cons.prems(1) p, of quiet] obtain q1 bbs1 where
    s: "liveness_step w ffv (quiet, bbs) p = Inr (q1, bbs1)" "flow_inv w ffv bbs0 bbs1" "weight bbs \<le> weight bbs1"
      "q1 \<longrightarrow> quiet \<and> in_at bbs1 = in_at bbs \<and> out_at bbs1 = out_at bbs \<and>
       in_at bbs p = flow_in ffv bbs0 (in_at bbs) p \<and> out_at bbs p = flow_out bbs0 (in_at bbs) p"
      "quiet \<and> \<not> q1 \<longrightarrow> weight bbs < weight bbs1" by auto
  from Cons.IH [OF s(2), of q1] Cons.prems(2) obtain q2 bbs2 where
    t: "res_fold (liveness_step w ffv) (q1, bbs1) ps = Inr (q2, bbs2)" "flow_inv w ffv bbs0 bbs2" "weight bbs1 \<le> weight bbs2"
      "q2 \<longrightarrow> q1 \<and> in_at bbs2 = in_at bbs1 \<and> out_at bbs2 = out_at bbs1 \<and>
       (\<forall>p \<in> set ps. in_at bbs1 p = flow_in ffv bbs0 (in_at bbs1) p \<and> out_at bbs1 p = flow_out bbs0 (in_at bbs1) p)"
      "q1 \<and> \<not> q2 \<longrightarrow> weight bbs1 < weight bbs2" by auto
  have "q2 \<longrightarrow> quiet \<and> in_at bbs2 = in_at bbs \<and> out_at bbs2 = out_at bbs \<and>
       (\<forall>p \<in> set (p # ps). in_at bbs p = flow_in ffv bbs0 (in_at bbs) p \<and> out_at bbs p = flow_out bbs0 (in_at bbs) p)"
    using s(4) t(4) by auto
  moreover have "quiet \<and> \<not> q2 \<longrightarrow> weight bbs < weight bbs2" using s(3,5) t(3,5) by auto
  ultimately show ?case using s(1,3) t(1,2,3) by auto
qed simp

lemma weight_bound: "sized w bbs \<Longrightarrow> weight bbs \<le> card (places bbs) * (64 * w)"
proof -
  assume sz: "sized w bbs"
  have "card (bitset_members bs) \<le> 32 * w" if "length bs = w" for bs
    using card_mono [OF _ bitset_members_bound [of bs]] that by simp
  then have "card (in_at bbs p) \<le> 32 * w" "card (out_at bbs p) \<le> 32 * w" if "p \<in> places bbs" for p
    using sz that by (simp_all add: sized_def in_at_def out_at_def)
  then have "card (in_at bbs p) + card (out_at bbs p) \<le> 64 * w" if "p \<in> places bbs" for p
    using add_mono [of "card (in_at bbs p)" "32 * w" "card (out_at bbs p)" "32 * w"] that by simp
  from sum_bounded_above [of "places bbs", OF this] show "weight bbs \<le> card (places bbs) * (64 * w)" by (simp add: weight_def)
qed

lemma liveness_update_runs:
  assumes "graph_ok w ffv bbs0" "flow_inv w ffv bbs0 bbs"
  shows "\<exists>bbs'. liveness_update w ffv bbs = Some (Inr bbs') \<and> flow_inv w ffv bbs0 bbs' \<and>
    (\<forall>p \<in> places bbs0. in_at bbs' p = flow_in ffv bbs0 (in_at bbs') p \<and> out_at bbs' p = flow_out bbs0 (in_at bbs') p)"
  using assms(2)
proof (induction "card (places bbs0) * (64 * w) - weight bbs" arbitrary: bbs rule: less_induct)
  case less
  have pl: "places bbs = places bbs0" by (rule skel_places) (use less.prems in \<open>simp add: flow_inv_def\<close>)
  have "set (backwards bbs) \<subseteq> places bbs0" by (simp add: pl)
  from sweep [OF assms(1) less.prems this, of True] obtain q' bbs' where
    s: "liveness_round w ffv bbs = Inr (q', bbs')" "flow_inv w ffv bbs0 bbs'"
      "q' \<longrightarrow> in_at bbs' = in_at bbs \<and> out_at bbs' = out_at bbs \<and>
       (\<forall>p \<in> places bbs0. in_at bbs p = flow_in ffv bbs0 (in_at bbs) p \<and> out_at bbs p = flow_out bbs0 (in_at bbs) p)"
      "\<not> q' \<longrightarrow> weight bbs < weight bbs'"
    unfolding set_backwards pl liveness_round_def by blast
  show ?case
  proof (cases q')
    case True
    have u: "liveness_update w ffv bbs = Some (Inr bbs')" by (subst liveness_update.simps) (simp add: s(1) True)
    have e: "in_at bbs' = in_at bbs" "out_at bbs' = out_at bbs" using s(3) True by blast+
    show ?thesis
      by (intro exI [of _ bbs'] conjI u s(2)) (use s(3) True in \<open>simp only: e, blast\<close>)
  next
    case False
    have z: "sized w bbs'" and pl': "places bbs' = places bbs0"
      using s(2) by (simp_all add: flow_inv_def skel_places [of bbs' bbs0])
    have "weight bbs' \<le> card (places bbs0) * (64 * w)" using weight_bound [OF z] by (simp add: pl')
    then have "card (places bbs0) * (64 * w) - weight bbs' < card (places bbs0) * (64 * w) - weight bbs" using s(4) False by linarith
    moreover have "liveness_update w ffv bbs = liveness_update w ffv bbs'" by (subst liveness_update.simps) (simp add: s(1) False)
    ultimately show ?thesis using less.hyps [OF _ s(2)] by metis
  qed
qed

definition unset :: "flow_bb list \<Rightarrow> bool" where
  "unset bbs \<longleftrightarrow> (\<forall>p \<in> places bbs. in_at bbs p = {} \<and> out_at bbs p = {})"

lemma liveness_update_exact:
  assumes "graph_ok w ffv bbs" "sized w bbs" "unset bbs"
  shows "\<exists>bbs'. liveness_update w ffv bbs = Some (Inr bbs') \<and> skel bbs' = skel bbs \<and> sized w bbs' \<and>
    (\<forall>p \<in> places bbs. in_at bbs' p = {v. live_before ffv bbs p v} \<and> out_at bbs' p = {v. live_after ffv bbs p v})"
proof -
  have "flow_inv w ffv bbs bbs" using assms(2,3) by (auto simp: flow_inv_def unset_def)
  from liveness_update_runs [OF assms(1) this] obtain bbs' where
    r: "liveness_update w ffv bbs = Some (Inr bbs')" "flow_inv w ffv bbs bbs'"
    and fp: "\<And>p. p \<in> places bbs \<Longrightarrow> in_at bbs' p = flow_in ffv bbs (in_at bbs') p \<and> out_at bbs' p = flow_out bbs (in_at bbs') p"
    by blast
  have up: "v \<in> in_at bbs' p" if "live_before ffv bbs p v" "p \<in> places bbs" for p v
    using that
  proof induction
    case (used v p)
    then show ?case using fp by (auto simp: flow_in_def)
  next
    case (passed q p v)
    then have "v \<in> in_at bbs' q" using succ_in_places [OF assms(1)] by blast
    then show ?case using passed fp [OF passed.prems] by (auto simp: flow_in_def flow_out_def)
  qed
  have i: "in_at bbs' p = {v. live_before ffv bbs p v}" if "p \<in> places bbs" for p
  proof
    show "in_at bbs' p \<subseteq> {v. live_before ffv bbs p v}" using r(2) that by (simp add: flow_inv_def)
    show "{v. live_before ffv bbs p v} \<subseteq> in_at bbs' p" using up [OF _ that] by blast
  qed
  have "out_at bbs' p = {v. live_after ffv bbs p v}" if "p \<in> places bbs" for p
    using fp [OF that] i succ_in_places [OF assms(1) that] by (fastforce simp: flow_out_def live_after_def)
  then show ?thesis using r i by (auto simp: flow_inv_def)
qed


section \<open>From the instructions\<close>

lemma res_map_list_all2: "res_map f xs = Inr ys \<Longrightarrow> list_all2 (\<lambda>x y. f x = Inr y) xs ys"
  by (induction xs arbitrary: ys) (auto simp: res_bind_eq_Inr)

text \<open>The temporaries among the operands, counted from the first value of the function.\<close>

definition temporaries :: "ir_unit \<Rightarrow> ir_valuetype list \<Rightarrow> nat set" where
  "temporaries iu vts = {nat (vt_value vt - int (iu_first_func_value iu)) |vt. vt \<in> set vts \<and>
     (\<exists>iv. value_at iu (word_of_int (vt_value vt)) = Inr iv \<and> iv_class iv = Vc_temporary)}"

lemma set_gen_fold:
  "res_fold (liveness_set_value iu) bs vts = Inr g \<Longrightarrow> length g = length bs \<and> bitset_members g = bitset_members bs \<union> temporaries iu vts"
proof (induction vts arbitrary: bs)
  case (Cons vt vts)
  then obtain b1 where b1: "liveness_set_value iu bs vt = Inr b1" "res_fold (liveness_set_value iu) b1 vts = Inr g"
    by (auto simp: res_bind_eq_Inr)
  from b1(1) obtain iv where iv: "value_at iu (word_of_int (vt_value vt)) = Inr iv" by (auto simp: res_bind_eq_Inr liveness_set_value_def)
  note IH = Cons.IH [OF b1(2)]
  have t: "temporaries iu (vt # vts) = (if iv_class iv = Vc_temporary then {nat (vt_value vt - int (iu_first_func_value iu))} else {}) \<union> temporaries iu vts"
    using iv by (auto simp: temporaries_def)
  show ?case
  proof (cases "iv_class iv = Vc_temporary")
    case True
    let ?v = "vt_value vt - int (iu_first_func_value iu)"
    have n: "bs_index bs ?v = Inr (nat ?v)" "b1 = bitset bs (nat ?v)" "nat ?v < 32 * length bs"
      using b1(1) iv True by (auto simp: liveness_set_value_def Let_def res_bind_eq_Inr c_assert_def bs_index_def split: if_splits)
    then show ?thesis using IH True by (simp add: t bitset_members_bitset)
  next
    case False
    then have "b1 = bs" using b1(1) iv by (simp add: liveness_set_value_def)
    then show ?thesis using IH False by (simp add: t)
  qed
qed (simp add: temporaries_def)

lemma node_init_fields:
  assumes "node_init iu bbs nd = Inr nd'"
  shows "fn_out nd' = replicate (setwords_of iu) 0" "fn_in nd' = replicate (setwords_of iu) 0" "fn_instr nd' = fn_instr nd"
    "length (fn_gen nd') = setwords_of iu"
    "\<exists>vts. gen_values (fn_instr nd) = Inr vts \<and> bitset_members (fn_gen nd') = temporaries iu vts"
    "liveness_set_succ bbs (fn_instr nd) = Inr (fn_num_succ nd', fn_succ nd')"
proof -
  obtain g n ss where g: "liveness_set_gen iu (fn_instr nd) (replicate (setwords_of iu) 0) = Inr g"
      "liveness_set_succ bbs (fn_instr nd) = Inr (n, ss)"
      "nd' = nd\<lparr>fn_out := replicate (setwords_of iu) 0, fn_gen := g, fn_in := replicate (setwords_of iu) 0, fn_num_succ := n, fn_succ := ss\<rparr>"
    using assms by (auto simp: node_init_def Let_def res_bind_eq_Inr)
  obtain vts where v: "gen_values (fn_instr nd) = Inr vts" "res_fold (liveness_set_value iu) (replicate (setwords_of iu) 0) vts = Inr g"
    using g(1) by (auto simp: liveness_set_gen_def res_bind_eq_Inr)
  from set_gen_fold [OF v(2)] g v(1) show "fn_out nd' = replicate (setwords_of iu) 0" "fn_in nd' = replicate (setwords_of iu) 0"
    "fn_instr nd' = fn_instr nd" "length (fn_gen nd') = setwords_of iu"
    "\<exists>vts. gen_values (fn_instr nd) = Inr vts \<and> bitset_members (fn_gen nd') = temporaries iu vts"
    "liveness_set_succ bbs (fn_instr nd) = Inr (fn_num_succ nd', fn_succ nd')"
    by simp_all
qed

lemma liveness_init_nodes:
  assumes "liveness_init iu bbs = Inr bbs0"
  shows "places bbs0 = places bbs" "p \<in> places bbs0 \<Longrightarrow> node_init iu bbs (node_at bbs p) = Inr (node_at bbs0 p)"
proof -
  have l: "list_all2 (\<lambda>bb bb0. list_all2 (\<lambda>nd nd'. node_init iu bbs nd = Inr nd') (fb_nodes bb) (fb_nodes bb0)) bbs bbs0"
    using res_map_list_all2 [OF assms [unfolded liveness_init_def]]
    by (rule list_all2_mono) (auto simp: res_bind_eq_Inr dest: res_map_list_all2)
  then have len: "length bbs0 = length bbs" by (simp add: list_all2_lengthD)
  have nth: "list_all2 (\<lambda>nd nd'. node_init iu bbs nd = Inr nd') (fb_nodes (bbs ! b)) (fb_nodes (bbs0 ! b))" if "b < length bbs" for b
    using list_all2_nthD [OF l that] .
  have len': "length (fb_nodes (bbs0 ! b)) = length (fb_nodes (bbs ! b))" if "b < length bbs" for b
    using list_all2_lengthD [OF nth [OF that]] by simp
  show "places bbs0 = places bbs" using len len' by (auto simp: places_def)
  show "p \<in> places bbs0 \<Longrightarrow> node_init iu bbs (node_at bbs p) = Inr (node_at bbs0 p)"
    using list_all2_nthD [OF nth] len len' by (auto simp: places_def node_at_def)
qed

lemma liveness_sets_exact:
  assumes "liveness_init iu bbs = Inr bbs0" "graph_ok (setwords_of iu) (int (iu_first_func_value iu)) bbs0"
  shows "\<exists>bbs'. liveness_sets iu bbs = Some (Inr bbs') \<and> skel bbs' = skel bbs0 \<and>
    (\<forall>p \<in> places bbs. in_at bbs' p = {v. live_before (int (iu_first_func_value iu)) bbs0 p v} \<and>
       out_at bbs' p = {v. live_after (int (iu_first_func_value iu)) bbs0 p v} \<and>
       (\<exists>vts. gen_values (fn_instr (node_at bbs p)) = Inr vts \<and> gen_at bbs0 p = temporaries iu vts))"
proof -
  note n = liveness_init_nodes [OF assms(1)]
  have "sized (setwords_of iu) bbs0" "unset bbs0"
    using node_init_fields [OF n(2)] by (auto simp: sized_def unset_def in_at_def out_at_def)
  from liveness_update_exact [OF assms(2) this] obtain bbs' where
    b: "liveness_update (setwords_of iu) (int (iu_first_func_value iu)) bbs0 = Some (Inr bbs')" "skel bbs' = skel bbs0"
      "\<forall>p \<in> places bbs0. in_at bbs' p = {v. live_before (int (iu_first_func_value iu)) bbs0 p v} \<and>
         out_at bbs' p = {v. live_after (int (iu_first_func_value iu)) bbs0 p v}" by blast
  have "\<exists>vts. gen_values (fn_instr (node_at bbs p)) = Inr vts \<and> gen_at bbs0 p = temporaries iu vts" if "p \<in> places bbs" for p
    using node_init_fields(5) [OF n(2)] n(1) that by (simp add: gen_at_def)
  then show ?thesis using b n(1) assms(1) by (intro exI [of _ bbs']) (simp add: liveness_sets_def)
qed

text \<open>
  C9. Liveness analysis ends and is exact. For a function whose branches go to blocks that exist and
  whose results are temporaries of the function, \<open>liveness_update\<close> stops after finitely many
  sweeps. It leaves in the live-in set of every instruction exactly the temporaries that reach an
  instruction using them along some path without being assigned on the way, and in its live-out
  set those of its successors; nothing else of the graph has changed.
\<close>

theorem liveness_exact:
  assumes "liveness_init iu bbs = Inr bbs0" "graph_ok (setwords_of iu) (int (iu_first_func_value iu)) bbs0"
  shows "\<exists>bbs'. liveness_sets iu bbs = Some (Inr bbs') \<and> skel bbs' = skel bbs0 \<and>
    (\<forall>p \<in> places bbs. in_at bbs' p = {v. live_before (int (iu_first_func_value iu)) bbs0 p v} \<and>
       out_at bbs' p = {v. live_after (int (iu_first_func_value iu)) bbs0 p v} \<and>
       (\<exists>vts. gen_values (fn_instr (node_at bbs p)) = Inr vts \<and> gen_at bbs0 p = temporaries iu vts))"
  using liveness_sets_exact [OF assms] .

text \<open>A loop: value 0 is set before it and returned after it, value 1 lives from its sum to the test.\<close>

definition loop_unit :: ir_unit where
  "loop_unit = sample_unit\<lparr>iu_values := map (\<lambda>c. Some (new_value\<lparr>iv_class := c, iv_precolored := - 1\<rparr>))
     [Vc_constant 5, Vc_temporary, Vc_temporary], iu_first_func_value := 1, iu_next_value := 3\<rparr>"

definition loop_graph :: "flow_bb list" where
  "loop_graph =
     (let node = (\<lambda>ii. \<lparr>fn_id = 0, fn_instr = ii, fn_out = [], fn_gen = [], fn_in = [], fn_num_succ = 0, fn_succ = []\<rparr>);
          vt = (\<lambda>v. \<lparr>vt_value = v, vt_type = 0\<rparr>); to = (\<lambda>v. \<lparr>ii_ret = vt v, ii_rets = []\<rparr>)
      in [\<lparr>fb_id = 10, fb_nodes = map node
             [IR_IC_MOVE \<lparr>imo_super = to 1, imo_value = vt 0\<rparr>,
              IR_IC_BR \<lparr>ibr_condition = vt (- 1), ibr_true = 20, ibr_false = 0\<rparr>]\<rparr>,
          \<lparr>fb_id = 20, fb_nodes = map node
             [IR_IC_BINOP \<lparr>ibi_super = to 2, ibi_op = 0, ibi_lhs = vt 1, ibi_rhs = vt 0\<rparr>,
              IR_IC_CMP_BRANCH \<lparr>icb_op = ICMP EQ, icb_lhs = vt 2, icb_rhs = vt 0, icb_true = 20, icb_false = 30\<rparr>]\<rparr>,
          \<lparr>fb_id = 30, fb_nodes = map node
             [IR_IC_RET \<lparr>iun_super = no_super, iun_value = vt 1, iun_op = 0\<rparr>]\<rparr>])"

lemma liveness_update_step:
  "liveness_round w ffv bbs = Inr (quiet, bbs') \<Longrightarrow>
   liveness_update w ffv bbs = (if quiet then Some (Inr bbs') else liveness_update w ffv bbs')"
  by (subst liveness_update.simps) simp

lemma small_sets: "bitset_members [0] = {}" "bitset_members [1] = {0}" "bitset_members [3] = {0, 1}"
proof -
  have "bitset_members [x] = {v. v < 32 \<and> bit x v}" for x by (auto simp: bitset_members_def)
  moreover have "bit (3::u32) v \<longleftrightarrow> v = 0 \<or> v = 1" for v by (cases v; cases "v - 1") (auto simp: bit_numeral_simps bit_0)
  ultimately show "bitset_members [0] = {}" "bitset_members [1] = {0}" "bitset_members [3] = {0, 1}" by (auto simp: bit_1_iff)
qed

lemma case_result_iff:
  "(case r of Inl _ \<Rightarrow> False | Inr x \<Rightarrow> P x) \<longleftrightarrow> (\<exists>x. r = Inr x \<and> P x)"
  by (cases r) auto

theorem liveness_exact_witness:
  "\<exists>bbs0. liveness_init loop_unit loop_graph = Inr bbs0 \<and>
     {v. live_before 1 bbs0 (1, 0) v} = {0} \<and> {v. live_before 1 bbs0 (1, 1) v} = {0, 1} \<and> {v. live_before 1 bbs0 (0, 0) v} = {}"
proof -
  have "case liveness_init loop_unit loop_graph of Inr b0 \<Rightarrow> graph_ok 1 1 b0 | _ \<Rightarrow> False" by code_simp
  then obtain b0 where b0: "liveness_init loop_unit loop_graph = Inr b0" "graph_ok 1 1 b0" by (auto split: sum.splits)
  have "case liveness_init loop_unit loop_graph of Inr b0 \<Rightarrow>
      (case liveness_round 1 1 b0 of Inr (q1, b1) \<Rightarrow> \<not> q1 \<and>
      (case liveness_round 1 1 b1 of Inr (q2, b3) \<Rightarrow> q2 \<and>
         fn_in (node_at b3 (1, 0)) = [1] \<and> fn_in (node_at b3 (1, 1)) = [3] \<and> fn_in (node_at b3 (0, 0)) = [0]
      | _ \<Rightarrow> False) | _ \<Rightarrow> False) | _ \<Rightarrow> False" by code_simp
  then obtain b1 b3 where r: "liveness_round 1 1 b0 = Inr (False, b1)" "liveness_round 1 1 b1 = Inr (True, b3)"
    and v: "fn_in (node_at b3 (1, 0)) = [1]" "fn_in (node_at b3 (1, 1)) = [3]" "fn_in (node_at b3 (0, 0)) = [0]"
    unfolding b0(1) sum.case case_result_iff by (elim exE conjE) (auto simp: case_result_iff split: prod.split_asm)
  have lu: "liveness_update 1 1 b0 = Some (Inr b3)"
    unfolding liveness_update_step [OF r(1)] if_False liveness_update_step [OF r(2)] by simp
  have u: "setwords_of loop_unit = 1" "iu_first_func_value loop_unit = 1" by (simp_all add: setwords_of_def loop_unit_def)
  have s: "liveness_sets loop_unit loop_graph = Some (Inr b3)"
    unfolding liveness_sets_def b0(1) sum.case u of_nat_1 by (rule lu)
  have p: "(1, 0) \<in> places loop_graph" "(1, 1) \<in> places loop_graph" "(0, 0) \<in> places loop_graph"
    by (simp_all add: places_def loop_graph_def Let_def)
  have g: "graph_ok (setwords_of loop_unit) (int (iu_first_func_value loop_unit)) b0" using b0(2) by (simp add: u)
  obtain b' where b': "liveness_sets loop_unit loop_graph = Some (Inr b')"
    and l: "\<And>p. p \<in> places loop_graph \<Longrightarrow> in_at b' p = {v. live_before 1 b0 p v}"
    using liveness_exact [OF b0(1) g] unfolding u of_nat_1 by blast
  have "b' = b3" using b' s by simp
  then have "{v. live_before 1 b0 (1, 0) v} = {0} \<and> {v. live_before 1 b0 (1, 1) v} = {0, 1} \<and> {v. live_before 1 b0 (0, 0) v} = {}"
    unfolding l [OF p(1), symmetric] l [OF p(2), symmetric] l [OF p(3), symmetric] in_at_def by (simp only: v small_sets)
  then show ?thesis using b0(1) by blast
qed

end
