(* ===== verification/Vmir_Graph.thy ===== *)
theory Vmir_Graph
  imports Vmir_Live
begin

text \<open>
  The control flow graph of a function, \<open>src/src/vmir_transform.c\<close> with the helpers of
  \<open>src/src/vmir_value.c\<close>, \<open>src/src/vmir_instr_parse.c\<close> and \<open>src/src/vmir_function.c\<close> it uses: the
  links between values and the instructions that mention them, insertion and removal of
  instructions, edges, critical edges and empty blocks.

  A block is named by \<open>ib_id\<close>, an instruction and an edge by a number that stands for its address.
  \<open>fl_edges\<close> is \<open>if_edges\<close>, the latest edge first. An edge keeps the block it comes from, so the list of
  the edges out of a block is the part of \<open>fl_edges\<close> that starts there; \<open>fl_incoming\<close> is the list of the edges
  into each block. \<open>fl_binds\<close> holds the links \<open>ir_value_instr_t\<close> of all values, the latest first.
\<close>

section \<open>State\<close>

record flow_edge =
  fe_id :: nat
  fe_from :: int
  fe_to :: int

record flow =
  fl_iu :: ir_unit
  fl_bbs :: "flow_bb list"
  fl_edges :: "flow_edge list"
  fl_incoming :: "int \<Rightarrow> nat list"
  fl_binds :: "(nat \<times> nat \<times> bool) list"
  fl_fresh :: nat
  fl_num_bbs :: int
  fl_regframe_size :: int

section \<open>Links between values and instructions\<close>

text \<open>A link is the value, the instruction and whether it is the output relation.\<close>

definition value_bind_instr :: "nat \<Rightarrow> nat \<Rightarrow> bool \<Rightarrow> flow \<Rightarrow> flow" where
  "value_bind_instr v i out fl = fl\<lparr>fl_binds := (v, i, out) # fl_binds fl\<rparr>"

definition instr_bind_clear :: "nat \<Rightarrow> flow \<Rightarrow> flow" where
  "instr_bind_clear i fl = fl\<lparr>fl_binds := filter (\<lambda>(_, j, _). j \<noteq> i) (fl_binds fl)\<rparr>"

definition instr_bind_clear_inputs :: "nat \<Rightarrow> flow \<Rightarrow> flow" where
  "instr_bind_clear_inputs i fl = fl\<lparr>fl_binds := filter (\<lambda>(_, j, out). j \<noteq> i \<or> out) (fl_binds fl)\<rparr>"

definition instr_bind_input :: "ir_valuetype \<Rightarrow> nat \<Rightarrow> flow \<Rightarrow> flow result" where
  "instr_bind_input vt i fl =
     (if vt_value vt = - 1 then Inr fl
      else res_bind (value_at (fl_iu fl) (word_of_int (vt_value vt))) (\<lambda>iv.
        if iv_class iv \<noteq> Vc_temporary then Inr fl
        else Inr (value_bind_instr (unat (word_of_int (vt_value vt) :: u32)) i False fl)))"

definition value_bind_return_value :: "ir_valuetype \<Rightarrow> nat \<Rightarrow> flow \<Rightarrow> flow result" where
  "value_bind_return_value vt i fl =
     res_bind (value_at (fl_iu fl) (word_of_int (vt_value vt))) (\<lambda>_.
       Inr (value_bind_instr (unat (word_of_int (vt_value vt) :: u32)) i True fl))"

section \<open>Instructions\<close>

definition update_bb :: "int \<Rightarrow> (flow_bb \<Rightarrow> flow_bb) \<Rightarrow> flow \<Rightarrow> flow" where
  "update_bb b g fl = fl\<lparr>fl_bbs := map (\<lambda>bb. if fb_id bb = b then g bb else bb) (fl_bbs fl)\<rparr>"

definition update_nodes :: "(flow_node list \<Rightarrow> flow_node list) \<Rightarrow> flow \<Rightarrow> flow" where
  "update_nodes g fl = fl\<lparr>fl_bbs := map (\<lambda>bb. bb\<lparr>fb_nodes := g (fb_nodes bb)\<rparr>) (fl_bbs fl)\<rparr>"

definition find_bb :: "flow \<Rightarrow> int \<Rightarrow> flow_bb result" where
  "find_bb fl b = deref (List.find (\<lambda>bb. fb_id bb = b) (fl_bbs fl))"

definition find_node :: "flow \<Rightarrow> nat \<Rightarrow> flow_node result" where
  "find_node fl i = deref (List.find (\<lambda>nd. fn_id nd = i) (concat (map fb_nodes (fl_bbs fl))))"

definition instr_create :: "nat \<Rightarrow> ir_instr \<Rightarrow> flow_node" where
  "instr_create i ii = \<lparr>fn_id = i, fn_instr = ii, fn_out = [], fn_gen = [], fn_in = [], fn_num_succ = 0, fn_succ = []\<rparr>"

definition instr_add :: "int \<Rightarrow> ir_instr \<Rightarrow> flow \<Rightarrow> nat \<times> flow" where
  "instr_add b ii fl =
     (fl_fresh fl, (update_bb b (\<lambda>bb. bb\<lparr>fb_nodes := fb_nodes bb @ [instr_create (fl_fresh fl) ii]\<rparr>) fl)\<lparr>fl_fresh := fl_fresh fl + 1\<rparr>)"

definition instr_add_before :: "ir_instr \<Rightarrow> nat \<Rightarrow> flow \<Rightarrow> nat \<times> flow" where
  "instr_add_before ii before fl =
     (fl_fresh fl, (update_nodes (\<lambda>nds. concat (map (\<lambda>nd. if fn_id nd = before then [instr_create (fl_fresh fl) ii, nd] else [nd]) nds)) fl)
        \<lparr>fl_fresh := fl_fresh fl + 1\<rparr>)"

definition instr_add_after :: "ir_instr \<Rightarrow> nat \<Rightarrow> flow \<Rightarrow> nat \<times> flow" where
  "instr_add_after ii after fl =
     (fl_fresh fl, (update_nodes (\<lambda>nds. concat (map (\<lambda>nd. if fn_id nd = after then [nd, instr_create (fl_fresh fl) ii] else [nd]) nds)) fl)
        \<lparr>fl_fresh := fl_fresh fl + 1\<rparr>)"

definition instr_destroy :: "nat \<Rightarrow> flow \<Rightarrow> flow" where
  "instr_destroy i fl = update_nodes (filter (\<lambda>nd. fn_id nd \<noteq> i)) (instr_bind_clear i fl)"

definition set_instr :: "nat \<Rightarrow> ir_instr \<Rightarrow> flow \<Rightarrow> flow" where
  "set_instr i ii = update_nodes (map (\<lambda>nd. if fn_id nd = i then nd\<lparr>fn_instr := ii\<rparr> else nd))"

section \<open>Blocks and edges\<close>

definition bb_make :: "flow \<Rightarrow> flow_bb \<times> flow" where
  "bb_make fl = (\<lparr>fb_id = fl_num_bbs fl, fb_nodes = []\<rparr>, fl\<lparr>fl_num_bbs := fl_num_bbs fl + 1\<rparr>)"

definition bb_add_before :: "int \<Rightarrow> flow \<Rightarrow> int \<times> flow" where
  "bb_add_before before fl =
     (let (nb, fl1) = bb_make fl
      in (fb_id nb, fl1\<lparr>fl_bbs := concat (map (\<lambda>bb. if fb_id bb = before then [nb, bb] else [bb]) (fl_bbs fl1))\<rparr>))"

definition outgoing_edges :: "flow \<Rightarrow> int \<Rightarrow> flow_edge list" where
  "outgoing_edges fl b = filter (\<lambda>e. fe_from e = b) (fl_edges fl)"

definition find_edge :: "flow \<Rightarrow> nat \<Rightarrow> flow_edge result" where
  "find_edge fl i = deref (List.find (\<lambda>e. fe_id e = i) (fl_edges fl))"

definition incoming_edges :: "flow \<Rightarrow> int \<Rightarrow> nat list" where
  "incoming_edges fl b = fl_incoming fl b"

definition cfg_create_edge :: "int \<Rightarrow> int \<Rightarrow> flow \<Rightarrow> flow" where
  "cfg_create_edge from to fl =
     fl\<lparr>fl_edges := \<lparr>fe_id = fl_fresh fl, fe_from = from, fe_to = to\<rparr> # fl_edges fl,
        fl_incoming := (fl_incoming fl)(to := fl_fresh fl # fl_incoming fl to), fl_fresh := fl_fresh fl + 1\<rparr>"

text \<open>The target of an edge changes: it leaves one list of incoming edges and becomes the head of another.\<close>

definition move_edge :: "nat \<Rightarrow> int \<Rightarrow> int \<Rightarrow> flow \<Rightarrow> flow" where
  "move_edge i to nb fl =
     (let inc = (fl_incoming fl)(to := removeAll i (fl_incoming fl to))
      in fl\<lparr>fl_edges := map (\<lambda>e. if fe_id e = i then e\<lparr>fe_to := nb\<rparr> else e) (fl_edges fl),
            fl_incoming := inc(nb := i # inc nb)\<rparr>)"

definition ibe_destroy :: "nat \<Rightarrow> flow \<Rightarrow> flow" where
  "ibe_destroy i fl =
     fl\<lparr>fl_edges := filter (\<lambda>e. fe_id e \<noteq> i) (fl_edges fl), fl_incoming := (\<lambda>b. removeAll i (fl_incoming fl b))\<rparr>"

definition bb_destroy :: "int \<Rightarrow> flow \<Rightarrow> flow" where
  "bb_destroy b fl =
     (let gone = incoming_edges fl b @ map fe_id (outgoing_edges fl b);
          instrs = concat (map (\<lambda>bb. if fb_id bb = b then map fn_id (fb_nodes bb) else []) (fl_bbs fl));
          fl1 = fold ibe_destroy gone fl\<lparr>fl_bbs := filter (\<lambda>bb. fb_id bb \<noteq> b) (fl_bbs fl)\<rparr>
      in fold instr_bind_clear instrs fl1)"

section \<open>Building the graph\<close>

text \<open>
  \<open>marks\<close> are the blocks with \<open>ib_mark\<close> set, so that a block named twice by an instruction gets one edge.
\<close>

definition cfg_add_edge :: "int \<Rightarrow> bool \<Rightarrow> int list \<times> flow \<Rightarrow> int \<Rightarrow> (int list \<times> flow) result" where
  "cfg_add_edge from m = (\<lambda>(marks, fl) b.
     res_bind (find_bb fl b) (\<lambda>_.
       if m \<and> b \<in> set marks then Inr (marks, fl)
       else Inr (if m then b # marks else marks, cfg_create_edge from b fl)))"

fun branch_targets :: "ir_instr \<Rightarrow> int list result" where
  "branch_targets (IR_IC_BR ii) = Inr (ibr_true ii # (if vt_value (ibr_condition ii) \<noteq> - 1 then [ibr_false ii] else []))"
| "branch_targets (IR_IC_SWITCH ii) = Inr (isw_defblock ii # map snd (isw_paths ii))"
| "branch_targets (IR_IC_INVOKE ii) = Inr [ica_normal_dest ii, ica_unwind_dest ii]"
| "branch_targets (IR_IC_RET _) = Inr []"
| "branch_targets IR_IC_UNREACHABLE = Inr []"
| "branch_targets (IR_IC_RESUME _) = Inr []"
| "branch_targets _ = Inl Assertion_failed"

definition last_instr :: "flow_bb \<Rightarrow> flow_node result" where
  "last_instr bb = (if fb_nodes bb = [] then Inl Undefined_behaviour else Inr (last (fb_nodes bb)))"

definition first_instr :: "flow_bb \<Rightarrow> flow_node result" where
  "first_instr bb = (if fb_nodes bb = [] then Inl Undefined_behaviour else Inr (hd (fb_nodes bb)))"

text \<open>\<open>unmark_outgoing_blocks\<close> asserts that each edge out of the block leads to a marked one.\<close>

definition construct_cfg_bb :: "flow \<Rightarrow> flow_bb \<Rightarrow> flow result" where
  "construct_cfg_bb fl bb =
     res_bind (last_instr bb) (\<lambda>nd. res_bind (branch_targets (fn_instr nd)) (\<lambda>bs.
     res_bind (res_fold (cfg_add_edge (fb_id bb) True) ([], fl) bs) (\<lambda>(marks, fl1).
       let tos = map fe_to (outgoing_edges fl1 (fb_id bb)) in
       res_bind (c_assert (distinct tos \<and> set tos \<subseteq> set marks)) (\<lambda>_. Inr fl1))))"

definition construct_cfg :: "flow \<Rightarrow> flow result" where
  "construct_cfg fl = res_fold construct_cfg_bb fl (fl_bbs fl)"

section \<open>Changing branches\<close>

definition change_target :: "int \<Rightarrow> int \<Rightarrow> int \<Rightarrow> int" where
  "change_target to nb b = (if b = to then nb else b)"

fun change_branch :: "int \<Rightarrow> int \<Rightarrow> ir_instr \<Rightarrow> ir_instr result" where
  "change_branch to nb (IR_IC_BR ii) = Inr (IR_IC_BR (ii\<lparr>ibr_true := change_target to nb (ibr_true ii),
     ibr_false := if vt_value (ibr_condition ii) \<noteq> - 1 then change_target to nb (ibr_false ii) else ibr_false ii\<rparr>))"
| "change_branch to nb (IR_IC_CMP_BRANCH ii) = Inr (IR_IC_CMP_BRANCH (ii\<lparr>icb_true := change_target to nb (icb_true ii),
     icb_false := change_target to nb (icb_false ii)\<rparr>))"
| "change_branch to nb (IR_IC_SWITCH ii) = Inr (IR_IC_SWITCH (ii\<lparr>isw_defblock := change_target to nb (isw_defblock ii),
     isw_paths := map (\<lambda>(v, b). (v, change_target to nb b)) (isw_paths ii)\<rparr>))"
| "change_branch to nb (IR_IC_INVOKE ii) = Inr (IR_IC_INVOKE (ii\<lparr>ica_normal_dest := change_target to nb (ica_normal_dest ii),
     ica_unwind_dest := change_target to nb (ica_unwind_dest ii)\<rparr>))"
| "change_branch to nb (IR_IC_RET ii) = Inr (IR_IC_RET ii)"
| "change_branch to nb _ = Inl Assertion_failed"

text \<open>The array of successors is computed afresh when the instruction has one.\<close>

definition bb_change_branch :: "int \<Rightarrow> int \<Rightarrow> int \<Rightarrow> flow \<Rightarrow> flow result" where
  "bb_change_branch from to nb fl =
     res_bind (find_bb fl from) (\<lambda>bb. res_bind (last_instr bb) (\<lambda>nd.
     res_bind (change_branch to nb (fn_instr nd)) (\<lambda>ii.
       let fl1 = set_instr (fn_id nd) ii fl in
       if fn_succ nd = [] then Inr fl1
       else res_bind (liveness_set_succ (fl_bbs fl1) ii) (\<lambda>(n, ss).
         Inr (update_nodes (map (\<lambda>x. if fn_id x = fn_id nd then x\<lparr>fn_num_succ := n, fn_succ := ss\<rparr> else x)) fl1)))))"

section \<open>Critical edges\<close>

fun phi_prefix :: "(ir_instr_phi \<Rightarrow> ir_instr_phi) \<Rightarrow> flow_node list \<Rightarrow> flow_node list" where
  "phi_prefix g [] = []"
| "phi_prefix g (nd # nds) =
     (case fn_instr nd of IR_IC_PHI p \<Rightarrow> nd\<lparr>fn_instr := IR_IC_PHI (g p)\<rparr> # phi_prefix g nds | _ \<Rightarrow> nd # nds)"

definition no_value :: ir_valuetype where
  "no_value = \<lparr>vt_value = - 1, vt_type = 0\<rparr>"

definition break_critical_edge :: "flow \<Rightarrow> flow_edge \<Rightarrow> flow result" where
  "break_critical_edge fl ibe =
     (let from = fe_from ibe; to = fe_to ibe;
          (nb, fl1) = bb_add_before to fl;
          (_, fl2) = instr_add nb (IR_IC_BR \<lparr>ibr_condition = no_value, ibr_true = to, ibr_false = 0\<rparr>) fl1;
          fl3 = move_edge (fe_id ibe) to nb fl2
      in res_bind (cfg_add_edge nb False ([], fl3) to) (\<lambda>(_, fl4).
         res_bind (bb_change_branch from to nb fl4) (\<lambda>fl5.
           Inr (update_bb to (\<lambda>bb. bb\<lparr>fb_nodes := phi_prefix (\<lambda>p. p\<lparr>iph_nodes :=
             map (\<lambda>(pred, v). (change_target from nb pred, v)) (iph_nodes p)\<rparr>) (fb_nodes bb)\<rparr>) fl5))))"

fun is_phi :: "ir_instr \<Rightarrow> bool" where
  "is_phi (IR_IC_PHI _) = True" | "is_phi _ = False"

text \<open>The edges that were there before; the ones made on the way come first in the list.\<close>

definition break_critical_edges :: "flow \<Rightarrow> flow result" where
  "break_critical_edges fl =
     res_fold (\<lambda>fl ibe.
       res_bind (find_bb fl (fe_to ibe)) (\<lambda>bb. res_bind (first_instr bb) (\<lambda>nd.
         if \<not> is_phi (fn_instr nd) \<or> length (outgoing_edges fl (fe_from ibe)) < 2 then Inr fl
         else break_critical_edge fl ibe))) fl (fl_edges fl)"

section \<open>Empty blocks\<close>

definition remove_empty_bb_step :: "flow \<Rightarrow> int \<Rightarrow> flow result" where
  "remove_empty_bb_step fl b =
     res_bind (find_bb fl b) (\<lambda>bb. res_bind (first_instr bb) (\<lambda>nd.
       case fn_instr nd of
         IR_IC_BR ii \<Rightarrow>
           if vt_value (ibr_condition ii) \<noteq> - 1 then Inr fl
           else res_bind (c_assert (bb_find (fl_bbs fl) (ibr_true ii) \<noteq> None)) (\<lambda>_.
             let nb = ibr_true ii in
             if nb = b then Inr fl
             else res_bind (res_fold (\<lambda>fl i. res_bind (find_edge fl i) (\<lambda>e.
                    res_bind (bb_change_branch (fe_from e) b nb fl) (\<lambda>fl1. Inr (move_edge i b nb fl1))))
                    fl (incoming_edges fl b)) (\<lambda>fl1. Inr (bb_destroy b fl1)))
       | _ \<Rightarrow> Inr fl))"

definition remove_empty_bb :: "flow \<Rightarrow> flow result" where
  "remove_empty_bb fl = res_fold remove_empty_bb_step fl (map fb_id (fl_bbs fl))"

end
