(* ===== verification/Vmir_Regalloc.thy ===== *)
theory Vmir_Regalloc
  imports Vmir_Graph
begin

text \<open>
  Register allocation, \<open>coalesce\<close> and \<open>reg_alloc\<close> of \<open>src/src/vmir_transform.c\<close>: the interference
  matrix of the temporaries of a function, the merging of temporaries that a move connects, and the
  colouring of the rest. The build is the one without the JIT, so no temporary goes to a machine
  register.

  Temporaries are counted from \<open>ffv\<close>, the first value of the function. The matrix is triangular: the
  pair \<open>{x, y}\<close> with \<open>x \<le> y\<close> is bit \<open>y * (y + 1) / 2 + x\<close>. The order \<open>qsort\<close> gives to temporaries with
  the same number of neighbours is not fixed by the language, so \<open>qsort\<close> is a parameter.
\<close>

section \<open>Triangular bit matrix\<close>

definition tribitmtx_alloc :: "int \<Rightarrow> bitset_words result" where
  "tribitmtx_alloc n =
     (if n = 0 then Inr []
      else let s = n - 1 in
        case c_int (s * s + s) of
          None \<Rightarrow> Inl Undefined_behaviour
        | Some k \<Rightarrow> Inr (replicate (nat ((k div 2 + s + 1 + 31) div 32)) 0))"

definition tribitmtx_pos :: "nat \<Rightarrow> nat \<Rightarrow> nat" where
  "tribitmtx_pos x y = (let (x, y) = (if x > y then (y, x) else (x, y)) in (y * y + y) div 2 + x)"

definition tri_index :: "bitset_words \<Rightarrow> int \<Rightarrow> int \<Rightarrow> nat result" where
  "tri_index mtx x y =
     (let p = tribitmtx_pos (nat x) (nat y)
      in if 0 \<le> x \<and> 0 \<le> y \<and> p < 32 * length mtx then Inr p else Inl Undefined_behaviour)"

definition tribitmtx_get :: "bitset_words \<Rightarrow> int \<Rightarrow> int \<Rightarrow> bool result" where
  "tribitmtx_get mtx x y = res_bind (tri_index mtx x y) (\<lambda>p. Inr (bitchk mtx p))"

definition tribitmtx_set :: "bitset_words \<Rightarrow> int \<Rightarrow> int \<Rightarrow> bitset_words result" where
  "tribitmtx_set mtx x y = res_bind (tri_index mtx x y) (\<lambda>p. Inr (bitset mtx p))"

definition tribitmtx_clr :: "bitset_words \<Rightarrow> int \<Rightarrow> int \<Rightarrow> bitset_words result" where
  "tribitmtx_clr mtx x y = res_bind (tri_index mtx x y) (\<lambda>p. Inr (bitclr mtx p))"

section \<open>Interference\<close>

text \<open>\<open>VECTOR_ITEM\<close> does not check its index.\<close>

definition value_item :: "ir_unit \<Rightarrow> nat \<Rightarrow> ir_value result" where
  "value_item iu k = (if k < length (iu_values iu) then deref (iu_values iu ! k) else Inl Undefined_behaviour)"

definition add_edges :: "nat \<Rightarrow> int \<Rightarrow> ir_unit \<Rightarrow> ir_unit result" where
  "add_edges k d iu = res_bind (value_item iu k) (\<lambda>iv. Inr (set_value iu k (iv\<lparr>iv_edges := iv_edges iv + d\<rparr>)))"

definition interfere_with :: "nat \<Rightarrow> int \<Rightarrow> int \<Rightarrow> (bitset_words \<times> ir_unit) \<times> int \<Rightarrow> nat \<Rightarrow> ((bitset_words \<times> ir_unit) \<times> int) result" where
  "interfere_with ffv v x = (\<lambda>((mtx, iu), edges) y.
     if int y \<noteq> x \<and> int y \<noteq> v then
       res_bind (tribitmtx_get mtx x (int y)) (\<lambda>b.
         if b then Inr ((mtx, iu), edges)
         else res_bind (tribitmtx_set mtx x (int y)) (\<lambda>mtx'.
           res_bind (add_edges (y + ffv) 1 iu) (\<lambda>iu'. Inr ((mtx', iu'), edges + 1))))
     else Inr ((mtx, iu), edges))"

text \<open>The members of a set, in ascending order.\<close>

definition members_of :: "bitset_words \<Rightarrow> nat list" where
  "members_of bs = filter (bitchk bs) [0..<32 * length bs]"

definition interfere_result :: "nat \<Rightarrow> int \<Rightarrow> bitset_words \<Rightarrow> bitset_words \<times> ir_unit \<Rightarrow> ir_valuetype \<Rightarrow> (bitset_words \<times> ir_unit) result" where
  "interfere_result ffv v out = (\<lambda>(mtx, iu) r.
     res_bind (value_at iu (word_of_int (vt_value r))) (\<lambda>_.
     res_bind (res_fold (interfere_with ffv v (vt_value r - int ffv)) ((mtx, iu), 0) (members_of out)) (\<lambda>((mtx', iu'), edges).
       res_bind (add_edges (unat (word_of_int (vt_value r) :: u32)) edges iu') (\<lambda>iu''. Inr (mtx', iu'')))))"

fun move_source :: "ir_instr \<Rightarrow> int option" where
  "move_source (IR_IC_MOVE ii) = Some (vt_value (imo_value ii))" | "move_source _ = None"

definition interfere_node :: "nat \<Rightarrow> bitset_words \<times> ir_unit \<Rightarrow> flow_node \<Rightarrow> (bitset_words \<times> ir_unit) result" where
  "interfere_node ffv st nd =
     res_bind (instr_results (instr_super (fn_instr nd))) (\<lambda>rs.
       let v = (case move_source (fn_instr nd) of Some s \<Rightarrow> s - int ffv | None \<Rightarrow> - 1)
       in res_fold (interfere_result ffv v (fn_out nd)) st rs)"

definition interference :: "nat \<Rightarrow> bitset_words \<Rightarrow> flow \<Rightarrow> (bitset_words \<times> flow) result" where
  "interference ffv mtx fl =
     res_bind (res_fold (interfere_node ffv) (mtx, fl_iu fl) (concat (map fb_nodes (fl_bbs fl)))) (\<lambda>(mtx', iu').
       Inr (mtx', fl\<lparr>fl_iu := iu'\<rparr>))"

section \<open>Renaming a value\<close>

text \<open>
  \<open>map_values f\<close> replaces every value an instruction mentions. \<open>ii_rets\<close> is only looked at when
  \<open>ii_ret\<close> says how long it is.
\<close>

definition map_vt :: "(int \<Rightarrow> int) \<Rightarrow> ir_valuetype \<Rightarrow> ir_valuetype" where
  "map_vt f vt = vt\<lparr>vt_value := f (vt_value vt)\<rparr>"

definition map_prefix :: "nat \<Rightarrow> ('a \<Rightarrow> 'a) \<Rightarrow> 'a list \<Rightarrow> 'a list" where
  "map_prefix n g xs = map g (take n xs) @ drop n xs"

definition map_super :: "(int \<Rightarrow> int) \<Rightarrow> ir_super \<Rightarrow> ir_super" where
  "map_super f s =
     (let n = nat (- vt_value (ii_ret s)) in
      if vt_value (ii_ret s) < - 1 then s\<lparr>ii_rets := map_prefix n (map_vt f) (ii_rets s)\<rparr>
      else s\<lparr>ii_ret := map_vt f (ii_ret s)\<rparr>)"

fun map_values :: "(int \<Rightarrow> int) \<Rightarrow> ir_instr \<Rightarrow> ir_instr" where
  "map_values f IR_IC_UNREACHABLE = IR_IC_UNREACHABLE"
| "map_values f (IR_IC_STACKSHRINK n) = IR_IC_STACKSHRINK n"
| "map_values f (IR_IC_LANDINGPAD ii) = IR_IC_LANDINGPAD (ii\<lparr>ilp_super := map_super f (ilp_super ii)\<rparr>)"
| "map_values f (IR_IC_RET ii) = IR_IC_RET (ii\<lparr>iun_super := map_super f (iun_super ii), iun_value := map_vt f (iun_value ii)\<rparr>)"
| "map_values f (IR_IC_CAST ii) = IR_IC_CAST (ii\<lparr>iun_super := map_super f (iun_super ii), iun_value := map_vt f (iun_value ii)\<rparr>)"
| "map_values f (IR_IC_VAARG ii) = IR_IC_VAARG (ii\<lparr>iun_super := map_super f (iun_super ii), iun_value := map_vt f (iun_value ii)\<rparr>)"
| "map_values f (IR_IC_LOAD ii) = IR_IC_LOAD (ii\<lparr>ild_super := map_super f (ild_super ii),
     ild_ptr := map_vt f (ild_ptr ii), ild_value_offset := map_vt f (ild_value_offset ii)\<rparr>)"
| "map_values f (IR_IC_BINOP ii) = IR_IC_BINOP (ii\<lparr>ibi_super := map_super f (ibi_super ii),
     ibi_lhs := map_vt f (ibi_lhs ii), ibi_rhs := map_vt f (ibi_rhs ii)\<rparr>)"
| "map_values f (IR_IC_CMP2 ii) = IR_IC_CMP2 (ii\<lparr>ibi_super := map_super f (ibi_super ii),
     ibi_lhs := map_vt f (ibi_lhs ii), ibi_rhs := map_vt f (ibi_rhs ii)\<rparr>)"
| "map_values f (IR_IC_CMP_BRANCH ii) = IR_IC_CMP_BRANCH (ii\<lparr>icb_lhs := map_vt f (icb_lhs ii), icb_rhs := map_vt f (icb_rhs ii)\<rparr>)"
| "map_values f (IR_IC_STORE ii) = IR_IC_STORE (ii\<lparr>ist_ptr := map_vt f (ist_ptr ii), ist_value := map_vt f (ist_value ii)\<rparr>)"
| "map_values f (IR_IC_BR ii) = IR_IC_BR (ii\<lparr>ibr_condition := map_vt f (ibr_condition ii)\<rparr>)"
| "map_values f (IR_IC_ALLOCA ii) = IR_IC_ALLOCA (ii\<lparr>ial_super := map_super f (ial_super ii), ial_num_items := map_vt f (ial_num_items ii)\<rparr>)"
| "map_values f (IR_IC_SELECT ii) = IR_IC_SELECT (ii\<lparr>ise_super := map_super f (ise_super ii),
     ise_pred := map_vt f (ise_pred ii), ise_true := map_vt f (ise_true ii), ise_false := map_vt f (ise_false ii)\<rparr>)"
| "map_values f (IR_IC_LEA ii) = IR_IC_LEA (ii\<lparr>ile_super := map_super f (ile_super ii),
     ile_baseptr := map_vt f (ile_baseptr ii), ile_value_offset := map_vt f (ile_value_offset ii)\<rparr>)"
| "map_values f (IR_IC_CALL ii) = IR_IC_CALL (ii\<lparr>ica_super := map_super f (ica_super ii),
     ica_callee := map_vt f (ica_callee ii), ica_argv := map (\<lambda>(a, n). (map_vt f a, n)) (ica_argv ii)\<rparr>)"
| "map_values f (IR_IC_VMOP ii) = IR_IC_VMOP (ii\<lparr>ica_super := map_super f (ica_super ii),
     ica_callee := map_vt f (ica_callee ii), ica_argv := map (\<lambda>(a, n). (map_vt f a, n)) (ica_argv ii)\<rparr>)"
| "map_values f (IR_IC_INVOKE ii) = IR_IC_INVOKE (ii\<lparr>ica_super := map_super f (ica_super ii),
     ica_callee := map_vt f (ica_callee ii), ica_argv := map (\<lambda>(a, n). (map_vt f a, n)) (ica_argv ii)\<rparr>)"
| "map_values f (IR_IC_SWITCH ii) = IR_IC_SWITCH (ii\<lparr>isw_value := map_vt f (isw_value ii)\<rparr>)"
| "map_values f (IR_IC_MOVE ii) = IR_IC_MOVE (ii\<lparr>imo_super := map_super f (imo_super ii), imo_value := map_vt f (imo_value ii)\<rparr>)"
| "map_values f (IR_IC_STACKCOPY ii) = IR_IC_STACKCOPY (ii\<lparr>isc_super := map_super f (isc_super ii), isc_value := map_vt f (isc_value ii)\<rparr>)"
| "map_values f (IR_IC_MLA ii) = IR_IC_MLA (ii\<lparr>ite_super := map_super f (ite_super ii),
     ite_arg1 := map_vt f (ite_arg1 ii), ite_arg2 := map_vt f (ite_arg2 ii), ite_arg3 := map_vt f (ite_arg3 ii)\<rparr>)"
| "map_values f (IR_IC_CMP_SELECT ii) = IR_IC_CMP_SELECT (ii\<lparr>ics_super := map_super f (ics_super ii),
     ics_true := map_vt f (ics_true ii), ics_false := map_vt f (ics_false ii), ics_lhs := map_vt f (ics_lhs ii), ics_rhs := map_vt f (ics_rhs ii)\<rparr>)"
| "map_values f (IR_IC_RESUME vs) = IR_IC_RESUME (map (map_vt f) vs)"
| "map_values f ii = ii"

text \<open>The classes that are gone by now end in \<open>abort\<close>.\<close>

definition instr_replace_values :: "int \<Rightarrow> int \<Rightarrow> ir_instr \<Rightarrow> ir_instr result" where
  "instr_replace_values from to ii =
     (case ii of
        IR_IC_PHI _ \<Rightarrow> Inl Assertion_failed | IR_IC_GEP _ \<Rightarrow> Inl Assertion_failed
      | IR_IC_EXTRACTVAL _ \<Rightarrow> Inl Assertion_failed | IR_IC_INSERTVAL _ \<Rightarrow> Inl Assertion_failed
      | _ \<Rightarrow> Inr (map_values (\<lambda>v. if v = from then to else v) ii))"

section \<open>Merging values\<close>

text \<open>Every instruction linked to the dying value is rewritten and its link handed over.\<close>

definition rename_link :: "nat \<Rightarrow> nat \<Rightarrow> flow \<Rightarrow> nat \<times> nat \<times> bool \<Rightarrow> flow result" where
  "rename_link killed saved fl = (\<lambda>(v, i, out).
     res_bind (find_node fl i) (\<lambda>nd.
     res_bind (instr_replace_values (int killed) (int saved) (fn_instr nd)) (\<lambda>ii.
       Inr ((set_instr i ii fl)\<lparr>fl_binds := (saved, i, out) # remove1 (v, i, out) (fl_binds fl)\<rparr>))))"

definition rename_value :: "nat \<Rightarrow> nat \<Rightarrow> flow \<Rightarrow> flow result" where
  "rename_value killed saved fl =
     res_fold (rename_link killed saved) fl (filter (\<lambda>(v, _). v = killed) (fl_binds fl))"

definition merge_row :: "nat \<Rightarrow> nat \<Rightarrow> nat \<Rightarrow> bitset_words \<times> ir_unit \<Rightarrow> nat \<Rightarrow> (bitset_words \<times> ir_unit) result" where
  "merge_row ffv killed saved = (\<lambda>(mtx, iu) i.
     let k = int killed - int ffv; s = int saved - int ffv in
     res_bind (tribitmtx_get mtx k (int i)) (\<lambda>b.
       if \<not> b then Inr (mtx, iu)
       else res_bind (tribitmtx_clr mtx k (int i)) (\<lambda>mtx1.
         res_bind (tribitmtx_get mtx1 s (int i)) (\<lambda>b'.
           if \<not> b' then res_bind (tribitmtx_set mtx1 s (int i)) (\<lambda>mtx2.
             res_bind (add_edges saved 1 iu) (\<lambda>iu'. Inr (mtx2, iu')))
           else res_bind (add_edges (i + ffv) (- 1) iu) (\<lambda>iu'. Inr (mtx1, iu'))))))"

definition merge_values :: "nat \<Rightarrow> nat \<Rightarrow> nat \<Rightarrow> nat \<Rightarrow> bitset_words \<times> flow \<Rightarrow> (bitset_words \<times> flow) result" where
  "merge_values ffv temps killed saved = (\<lambda>(mtx, fl).
     res_bind (rename_value killed saved fl) (\<lambda>fl1.
     res_bind (res_fold (merge_row ffv killed saved) (mtx, fl_iu fl1) [0..<temps]) (\<lambda>(mtx', iu').
     res_bind (value_item iu' killed) (\<lambda>iv.
       Inr (mtx', fl1\<lparr>fl_iu := set_value iu' killed (iv\<lparr>iv_edges := 0, iv_class := Vc_dead\<rparr>)\<rparr>)))))"

definition coalesce_move :: "nat \<Rightarrow> nat \<Rightarrow> nat \<Rightarrow> ir_instr_move \<Rightarrow> bitset_words \<times> flow \<Rightarrow> (bitset_words \<times> flow) result" where
  "coalesce_move ffv temps i ii = (\<lambda>(mtx, fl).
     let v = unat (word_of_int (vt_value (imo_value ii)) :: u32); r = vt_value (ii_ret (imo_super ii)) in
     if v < ffv then Inr (mtx, fl)
     else res_bind (value_item (fl_iu fl) v) (\<lambda>src.
       if iv_class src \<noteq> Vc_temporary \<or> r < - 1 then Inr (mtx, fl)
       else if r < 0 then Inl Undefined_behaviour
       else res_bind (value_item (fl_iu fl) (nat r)) (\<lambda>dst.
         if nat r = v then Inr (mtx, instr_destroy i fl)
         else res_bind (c_assert (iv_class dst = Vc_temporary)) (\<lambda>_.
           if iv_precolored dst \<noteq> - 1 \<and> iv_precolored src \<noteq> - 1 then Inr (mtx, fl)
           else res_bind (tribitmtx_get mtx (r - int ffv) (int v - int ffv)) (\<lambda>b.
             if b then Inr (mtx, fl)
             else let (killed, saved) = (if iv_precolored src \<noteq> - 1 then (nat r, v) else (v, nat r)) in
               res_bind (merge_values ffv temps killed saved (mtx, fl)) (\<lambda>(mtx', fl').
                 Inr (mtx', instr_destroy i fl')))))))"

definition coalesce_instr :: "nat \<Rightarrow> nat \<Rightarrow> bitset_words \<times> flow \<Rightarrow> nat \<Rightarrow> (bitset_words \<times> flow) result" where
  "coalesce_instr ffv temps = (\<lambda>(mtx, fl) i.
     res_bind (find_node fl i) (\<lambda>nd.
       case fn_instr nd of IR_IC_MOVE ii \<Rightarrow> coalesce_move ffv temps i ii (mtx, fl) | _ \<Rightarrow> Inr (mtx, fl)))"

text \<open>The traversal removes no instruction but the one it is at.\<close>

definition coalesce_moves :: "nat \<Rightarrow> nat \<Rightarrow> bitset_words \<times> flow \<Rightarrow> (bitset_words \<times> flow) result" where
  "coalesce_moves ffv temps = (\<lambda>(mtx, fl).
     res_fold (coalesce_instr ffv temps) (mtx, fl) (map fn_id (concat (map fb_nodes (fl_bbs fl)))))"

section \<open>Colouring\<close>

record value_info =
  vi_value :: nat
  vi_score :: int
  vi_class :: nat

definition RA_CLASS_REGFRAME_32 :: nat where
  "RA_CLASS_REGFRAME_32 = 1"

definition RA_CLASS_REGFRAME_64 :: nat where
  "RA_CLASS_REGFRAME_64 = 2"

definition class_reg_size :: "nat \<Rightarrow> int" where
  "class_reg_size c = [0, 4, 8] ! c"

definition vertex_of :: "ir_unit \<Rightarrow> nat \<Rightarrow> nat \<Rightarrow> value_info option result" where
  "vertex_of iu ffv i =
     res_bind (value_at iu (of_nat (i + ffv))) (\<lambda>iv.
       if iv_class iv \<noteq> Vc_temporary \<or> iv_precolored iv \<noteq> - 1 then Inr None
       else res_bind (value_regframe_slots (iu_tys iu) (iv_type iv)) (\<lambda>s.
         if s = 2 then Inr (Some \<lparr>vi_value = i, vi_score = iv_edges iv, vi_class = RA_CLASS_REGFRAME_64\<rparr>)
         else if s = 1 then Inr (Some \<lparr>vi_value = i, vi_score = iv_edges iv, vi_class = RA_CLASS_REGFRAME_32\<rparr>)
         else Inl Assertion_failed))"

definition vertices :: "ir_unit \<Rightarrow> nat \<Rightarrow> nat \<Rightarrow> value_info list result" where
  "vertices iu ffv temps = res_bind (res_map (vertex_of iu ffv) [0..<temps]) (\<lambda>vs. Inr (List.map_filter id vs))"

definition ffs :: "u32 \<Rightarrow> nat" where
  "ffs w = (case List.find (bit w) [0..<32] of None \<Rightarrow> 0 | Some i \<Rightarrow> Suc i)"

text \<open>The colours that neighbours of the temporary \<open>i\<close> already have are taken out of the table.\<close>

definition take_colour :: "bitset_words \<Rightarrow> int list \<Rightarrow> (nat \<Rightarrow> nat) \<Rightarrow> bitset_words \<Rightarrow> nat \<Rightarrow> bitset_words" where
  "take_colour mtx colours at tab x =
     (if bitchk mtx (at x) \<and> 0 \<le> colours ! x then bitclr tab (nat (colours ! x)) else tab)"

definition free_colours :: "bitset_words \<Rightarrow> nat \<Rightarrow> nat \<Rightarrow> int list \<Rightarrow> nat \<Rightarrow> bitset_words" where
  "free_colours mtx temps words colours i =
     (let vivi = (i * i + i) div 2;
          tab = foldl (take_colour mtx colours (\<lambda>x. vivi + x)) (replicate words (- 1)) [0..<i]
      in foldl (take_colour mtx colours (\<lambda>x. i + (x * x + x) div 2)) tab [i..<temps])"

fun first_colour :: "bitset_words \<Rightarrow> nat \<Rightarrow> int option" where
  "first_colour [] j = None"
| "first_colour (w # ws) j = (let c = ffs w in if c = 0 then first_colour ws (Suc j) else Some (int (c - 1 + j * 32)))"

definition colour_vertex :: "bitset_words \<Rightarrow> nat \<Rightarrow> nat \<Rightarrow> int list \<Rightarrow> value_info \<Rightarrow> int list" where
  "colour_vertex mtx temps words colours vi =
     (case first_colour (free_colours mtx temps words colours (vi_value vi)) 0 of
        None \<Rightarrow> colours | Some c \<Rightarrow> colours[vi_value vi := c])"

definition colour :: "bitset_words \<Rightarrow> nat \<Rightarrow> value_info list \<Rightarrow> int \<Rightarrow> int list" where
  "colour mtx temps vis degree =
     foldl (colour_vertex mtx temps (nat ((degree + 32) div 32))) (replicate temps (- 1)) vis"

section \<open>Registers\<close>

definition place_vertex :: "nat \<Rightarrow> int \<Rightarrow> int \<Rightarrow> int list \<Rightarrow> int \<times> ir_unit \<Rightarrow> value_info \<Rightarrow> (int \<times> ir_unit) result" where
  "place_vertex ffv base rsize colours = (\<lambda>(slots, iu) vi.
     res_bind (value_item iu (vi_value vi + ffv)) (\<lambda>iv.
       let c = colours ! vi_value vi in
       Inr (VMIR_MAX slots (c + 1), set_value iu (vi_value vi + ffv) (iv\<lparr>iv_class := Vc_regframe (base + c * rsize)\<rparr>))))"

definition place_class :: "nat \<Rightarrow> value_info list \<Rightarrow> int list \<Rightarrow> int \<times> ir_unit \<Rightarrow> nat \<Rightarrow> (int \<times> ir_unit) result" where
  "place_class ffv vis colours = (\<lambda>(frame, iu) c.
     let rsize = class_reg_size c; base = VMIR_ALIGN frame rsize in
     res_bind (res_fold (place_vertex ffv base rsize colours) (0, iu) (filter (\<lambda>vi. vi_class vi = c) vis)) (\<lambda>(slots, iu').
       Inr (base + slots * rsize, iu')))"

definition reg_alloc :: "(value_info list \<Rightarrow> value_info list) \<Rightarrow> bitset_words \<Rightarrow> nat \<Rightarrow> nat \<Rightarrow> int \<times> ir_unit \<Rightarrow> (int \<times> ir_unit) result" where
  "reg_alloc qsort mtx temps ffv = (\<lambda>(frame, iu).
     res_bind (vertices iu ffv temps) (\<lambda>vis0.
       let degree = foldl (\<lambda>d vi. VMIR_MAX d (vi_score vi)) 0 vis0;
           vis = qsort vis0;
           colours = colour mtx temps vis degree
       in res_fold (place_class ffv vis colours) (frame, iu) [RA_CLASS_REGFRAME_32, RA_CLASS_REGFRAME_64]))"

section \<open>The whole pass\<close>

definition coalesce :: "(value_info list \<Rightarrow> value_info list) \<Rightarrow> nat \<Rightarrow> nat \<Rightarrow> flow \<Rightarrow> flow result" where
  "coalesce qsort temps ffv fl =
     res_bind (tribitmtx_alloc (int temps)) (\<lambda>mtx0.
     res_bind (interference ffv mtx0 fl) (\<lambda>st1.
     res_bind (coalesce_moves ffv temps st1) (\<lambda>(mtx, fl2).
     res_bind (remove_empty_bb fl2) (\<lambda>fl3.
     res_bind (reg_alloc qsort mtx temps ffv (fl_regframe_size fl3, fl_iu fl3)) (\<lambda>(frame, iu).
       Inr (fl3\<lparr>fl_regframe_size := frame, fl_iu := iu\<rparr>))))))"

definition liveness_analysis :: "(value_info list \<Rightarrow> value_info list) \<Rightarrow> flow \<Rightarrow> flow result option" where
  "liveness_analysis qsort fl =
     (let iu = fl_iu fl; ffv = iu_first_func_value iu; temps = iu_next_value iu - ffv in
      case liveness_sets iu (fl_bbs fl) of
        None \<Rightarrow> None
      | Some (Inl e) \<Rightarrow> Some (Inl e)
      | Some (Inr bbs) \<Rightarrow> Some (coalesce qsort temps ffv (fl\<lparr>fl_bbs := bbs\<rparr>)))"

text \<open>The arguments of calls lie at the end of the frame, the first one last.\<close>

definition finalize_call_args :: "nat \<Rightarrow> nat \<Rightarrow> flow \<Rightarrow> flow result" where
  "finalize_call_args base n fl =
     (let frame = fl_regframe_size fl + int n * 4 in
      res_bind (res_fold (\<lambda>iu i. res_bind (value_at iu (of_nat (base + i))) (\<lambda>iv.
          Inr (set_value iu (base + i) (iv\<lparr>iv_class := Vc_regframe (frame - (int i + 1) * 4)\<rparr>)))) (fl_iu fl) [0..<n]) (\<lambda>iu.
        Inr (fl\<lparr>fl_regframe_size := frame, fl_iu := iu\<rparr>)))"

end
