(* ===== verification/Vmir_Regalloc_Props.thy ===== *)
theory Vmir_Regalloc_Props
  imports Vmir_Regalloc Vmir_Live_Props "HOL-Library.Multiset"
begin

text \<open>
  Register allocation is sound: temporaries that interfere never share a byte of the register
  frame. The proof goes from the triangular matrix, an undirected graph, over the colouring of the
  graph to the registers, and then through the merging of temporaries.
\<close>

section \<open>The matrix is a graph\<close>

definition tri :: "nat \<Rightarrow> nat" where
  "tri n = (n * n + n) div 2"

lemma tri_Suc: "tri (Suc n) = tri n + n + 1"
proof -
  have "even (n * n + n)" by simp
  then show ?thesis by (auto simp: tri_def algebra_simps elim: evenE)
qed

lemma tri_mono: "m \<le> n \<Longrightarrow> tri m \<le> tri n"
  by (rule lift_Suc_mono_le [of tri]) (auto simp: tri_Suc)

lemma tri_less: "m < n \<Longrightarrow> tri m + m < tri n"
  using tri_mono [of "Suc m" n] by (simp add: tri_Suc)

lemma tri_inj:
  assumes "x \<le> y" "u \<le> v" "tri y + x = tri v + u"
  shows "x = u \<and> y = v"
proof -
  have "\<not> y < v" using tri_less [of y v] assms by auto
  moreover have "\<not> v < y" using tri_less [of v y] assms by auto
  ultimately show ?thesis using assms by auto
qed

lemma tribitmtx_pos_tri: "tribitmtx_pos x y = tri (max x y) + min x y"
  by (auto simp: tribitmtx_pos_def tri_def Let_def max_def min_def)

lemma tribitmtx_pos_eq: "tribitmtx_pos x y = tribitmtx_pos u v \<longleftrightarrow> {x, y} = {u, v}"
proof
  assume "tribitmtx_pos x y = tribitmtx_pos u v"
  then have "min x y = min u v \<and> max x y = max u v" unfolding tribitmtx_pos_tri by (intro tri_inj) auto
  then show "{x, y} = {u, v}" by (auto simp: min_def max_def split: if_splits)
next
  assume "{x, y} = {u, v}"
  then have "min x y = min u v \<and> max x y = max u v" by (auto simp: doubleton_eq_iff)
  then show "tribitmtx_pos x y = tribitmtx_pos u v" by (simp add: tribitmtx_pos_tri)
qed

definition tri_ok :: "nat \<Rightarrow> bitset_words \<Rightarrow> bool" where
  "tri_ok n mtx \<longleftrightarrow> tri n \<le> 32 * length mtx"

definition edge :: "bitset_words \<Rightarrow> nat \<Rightarrow> nat \<Rightarrow> bool" where
  "edge mtx x y \<longleftrightarrow> tribitmtx_pos x y \<in> bitset_members mtx"

lemma edge_sym: "edge mtx x y \<longleftrightarrow> edge mtx y x"
  using tribitmtx_pos_eq [of x y y x] by (auto simp: edge_def)

lemma tri_index_ok:
  assumes "tri_ok n mtx" "x < n" "y < n"
  shows "tribitmtx_pos x y < 32 * length mtx"
proof -
  have "tri (max x y) + min x y < tri n" using tri_less [of "max x y" n] assms(2,3) by auto
  then show ?thesis using assms(1) by (simp add: tribitmtx_pos_tri tri_ok_def)
qed

lemma tribitmtx_get_ok: "tri_ok n mtx \<Longrightarrow> x < n \<Longrightarrow> y < n \<Longrightarrow> tribitmtx_get mtx (int x) (int y) = Inr (edge mtx x y)"
  using tri_index_ok [of n mtx x y] by (simp add: tribitmtx_get_def tri_index_def Let_def edge_def bitchk_iff)

lemma tribitmtx_set_ok:
  assumes "tri_ok n mtx" "x < n" "y < n"
  shows "\<exists>mtx'. tribitmtx_set mtx (int x) (int y) = Inr mtx' \<and> length mtx' = length mtx \<and>
    (\<forall>u v. edge mtx' u v \<longleftrightarrow> {u, v} = {x, y} \<or> edge mtx u v)"
  using tri_index_ok [OF assms] tribitmtx_pos_eq
  by (auto simp: tribitmtx_set_def tri_index_def Let_def edge_def bitset_members_bitset)

lemma tribitmtx_clr_ok:
  assumes "tri_ok n mtx" "x < n" "y < n"
  shows "\<exists>mtx'. tribitmtx_clr mtx (int x) (int y) = Inr mtx' \<and> length mtx' = length mtx \<and>
    (\<forall>u v. edge mtx' u v \<longleftrightarrow> {u, v} \<noteq> {x, y} \<and> edge mtx u v)"
  using tri_index_ok [OF assms] tribitmtx_pos_eq
  by (auto simp: tribitmtx_clr_def tri_index_def Let_def edge_def bitset_members_bitclr)

lemma tri_words:
  assumes "0 < n"
  shows "tri n \<le> 32 * nat ((int (tri (n - 1)) + (int n - 1) + 1 + 31) div 32)"
proof -
  obtain m where m: "n = Suc m" using assms by (cases n) auto
  then have "tri n = tri (n - 1) + m + 1" by (simp add: tri_Suc)
  then show ?thesis using m by simp
qed

lemma tribitmtx_alloc_cases:
  assumes "tribitmtx_alloc (int n) = Inr mtx"
  shows "mtx = replicate (if n = 0 then 0 else nat ((int (tri (n - 1)) + (int n - 1) + 1 + 31) div 32)) 0"
proof (cases "n = 0")
  case True
  then show ?thesis using assms by (simp add: tribitmtx_alloc_def)
next
  case False
  then obtain m where m: "n = Suc m" by (cases n) auto
  let ?k = "int (m * m + m)"
  have "c_int (int m * int m + int m) = Some ?k"
    using assms False by (cases "c_int (int m * int m + int m)") (auto simp: tribitmtx_alloc_def Let_def m c_int_def split: if_splits)
  moreover have "?k div 2 = int (tri m)" by (simp add: tri_def zdiv_int)
  ultimately show ?thesis using assms False by (simp add: tribitmtx_alloc_def Let_def m)
qed

lemma tribitmtx_alloc_ok:
  assumes "tribitmtx_alloc (int n) = Inr mtx"
  shows "tri_ok n mtx" "\<not> edge mtx x y"
proof -
  show "tri_ok n mtx" using tri_words [of n] by (cases "n = 0") (simp_all add: tribitmtx_alloc_cases [OF assms] tri_ok_def tri_def [of 0])
  show "\<not> edge mtx x y" unfolding tribitmtx_alloc_cases [OF assms] edge_def bitset_members_zero by simp
qed

section \<open>Colouring\<close>

lemma ffs_zero: "ffs w = 0 \<longleftrightarrow> w = 0"
proof -
  have "ffs w = 0 \<longleftrightarrow> List.find (bit w) [0..<32] = None" by (simp add: ffs_def split: option.splits)
  also have "\<dots> \<longleftrightarrow> (\<forall>i < 32. \<not> bit w i)" by (auto simp: find_None_iff)
  finally have "ffs w = 0 \<longleftrightarrow> (\<forall>i < 32. \<not> bit w i)" .
  then show ?thesis by (auto intro: bit_word_eqI)
qed

lemma ffs_bit: "w \<noteq> 0 \<Longrightarrow> bit w (ffs w - 1) \<and> ffs w - 1 < 32"
proof -
  assume "w \<noteq> 0"
  then obtain i where "ffs w = Suc i" using ffs_zero [of w] by (cases "ffs w") auto
  then show ?thesis by (auto simp: ffs_def find_Some_iff split: option.splits)
qed

lemma first_colour_some: "first_colour ws j = Some c \<Longrightarrow> \<exists>k \<in> bitset_members ws. c = int (k + j * 32)"
proof (induction ws arbitrary: j)
  case (Cons w ws)
  show ?case
  proof (cases "w = 0")
    case True
    then have "first_colour ws (Suc j) = Some c" using Cons.prems ffs_zero [of w] by simp
    from Cons.IH [OF this] obtain k where k: "k \<in> bitset_members ws" "c = int (k + Suc j * 32)" by blast
    moreover have "(k + 32) div 32 = Suc (k div 32)" by simp
    ultimately have "k + 32 \<in> bitset_members (w # ws)" unfolding bitset_members_def by simp
    then show ?thesis using k(2) by (intro bexI [of _ "k + 32"]) auto
  next
    case False
    then have "c = int (ffs w - 1 + j * 32)" using Cons.prems ffs_zero [of w] by (simp add: Let_def)
    moreover have "ffs w - 1 \<in> bitset_members (w # ws)" using ffs_bit [OF False] by (simp add: bitset_members_def)
    ultimately show ?thesis by blast
  qed
qed simp

lemma first_colour_none: "first_colour ws j = None \<Longrightarrow> bitset_members ws = {}"
proof (induction ws arbitrary: j)
  case (Cons w ws)
  then have w: "w = 0" and e: "bitset_members ws = {}" using ffs_zero [of w] by (auto simp: Let_def split: if_splits)
  have False if v: "v \<in> bitset_members (w # ws)" for v
  proof (cases "v < 32")
    case True
    then show False using v w by (simp add: bitset_members_def)
  next
    case False
    then have "v - 32 \<in> bitset_members ws"
      using v by (auto simp: bitset_members_def le_div_geq not_less le_mod_geq)
    then show False using e by simp
  qed
  then show ?case by blast
qed (simp add: bitset_members_def)

lemma members_bitclr: "bitset_members (bitclr bs v) = bitset_members bs - {v}"
proof (cases "v < 32 * length bs")
  case False
  then have "bitclr bs v = bs" by (simp add: bitclr_def list_update_beyond)
  then show ?thesis using False by (auto simp: bitset_members_def)
qed (rule bitset_members_bitclr)

lemma members_all [simp]: "bitset_members (replicate w (- 1)) = {..<32 * w}"
  by (auto simp: bitset_members_def bitset_div_less)

lemma take_colours:
  "bitset_members (foldl (take_colour mtx colours at) tab xs) =
     bitset_members tab - {nat (colours ! x) |x. x \<in> set xs \<and> bitchk mtx (at x) \<and> 0 \<le> colours ! x}"
  by (induction xs arbitrary: tab) (auto simp: take_colour_def members_bitclr)

lemma free_colours_members:
  assumes "tri_ok temps mtx" "i < temps"
  shows "bitset_members (free_colours mtx temps words colours i) =
    {..<32 * words} - {nat (colours ! x) |x. x < temps \<and> edge mtx i x \<and> 0 \<le> colours ! x}"
proof -
  have lo: "bitchk mtx ((i * i + i) div 2 + x) = edge mtx i x" if "x < i" for x
  proof -
    have "(i * i + i) div 2 + x = tribitmtx_pos i x" using that by (simp add: tribitmtx_pos_tri tri_def max_def min_def)
    then show ?thesis using tri_index_ok [OF assms, of x] that assms(2) by (simp add: edge_def bitchk_iff)
  qed
  have hi: "bitchk mtx (i + (x * x + x) div 2) = edge mtx i x" if "i \<le> x" "x < temps" for x
  proof -
    have "i + (x * x + x) div 2 = tribitmtx_pos i x" using that by (simp add: tribitmtx_pos_tri tri_def max_def min_def)
    then show ?thesis using tri_index_ok [OF assms that(2)] by (simp add: edge_def bitchk_iff)
  qed
  have 1: "{nat (colours ! x) |x. x \<in> set [0..<i] \<and> bitchk mtx ((i * i + i) div 2 + x) \<and> 0 \<le> colours ! x} =
      {nat (colours ! x) |x. x < i \<and> edge mtx i x \<and> 0 \<le> colours ! x}" using lo by force
  have 2: "{nat (colours ! x) |x. x \<in> set [i..<temps] \<and> bitchk mtx (i + (x * x + x) div 2) \<and> 0 \<le> colours ! x} =
      {nat (colours ! x) |x. i \<le> x \<and> x < temps \<and> edge mtx i x \<and> 0 \<le> colours ! x}" using hi by force
  show ?thesis unfolding free_colours_def Let_def take_colours 1 2 members_all using assms(2) by force
qed

text \<open>The colouring so far: the temporaries of \<open>done\<close> have colours, and neighbours differ.\<close>

definition coloured :: "bitset_words \<Rightarrow> nat \<Rightarrow> nat \<Rightarrow> nat set \<Rightarrow> int list \<Rightarrow> bool" where
  "coloured mtx temps words ready colours \<longleftrightarrow> length colours = temps \<and>
     (\<forall>i < temps. if i \<in> ready then 0 \<le> colours ! i \<and> colours ! i < int (32 * words) else colours ! i = - 1) \<and>
     (\<forall>i \<in> ready. \<forall>j \<in> ready. edge mtx i j \<longrightarrow> colours ! i \<noteq> colours ! j)"

definition neighbours :: "bitset_words \<Rightarrow> nat \<Rightarrow> nat \<Rightarrow> nat set" where
  "neighbours mtx temps i = {j. j < temps \<and> edge mtx i j}"

lemma colour_vertex_ok:
  assumes "tri_ok temps mtx" "coloured mtx temps words ready colours" "ready \<subseteq> {..<temps}" "vi_value vi < temps" "vi_value vi \<notin> ready"
    and "\<not> edge mtx (vi_value vi) (vi_value vi)" "card (neighbours mtx temps (vi_value vi)) < 32 * words"
  shows "coloured mtx temps words (insert (vi_value vi) ready) (colour_vertex mtx temps words colours vi)"
proof -
  let ?i = "vi_value vi" and ?tab = "free_colours mtx temps words colours (vi_value vi)"
  let ?used = "{nat (colours ! x) |x. x < temps \<and> edge mtx ?i x \<and> 0 \<le> colours ! x}"
  note free = free_colours_members [OF assms(1,4), of words colours]
  let ?N = "neighbours mtx temps ?i"
  have fin: "finite ?N" by (simp add: neighbours_def)
  have sub: "?used \<subseteq> (\<lambda>x. nat (colours ! x)) ` ?N" by (auto simp: neighbours_def)
  have "card ?used \<le> card ((\<lambda>x. nat (colours ! x)) ` ?N)" by (rule card_mono [OF finite_imageI [OF fin] sub])
  also have "\<dots> \<le> card ?N" by (rule card_image_le [OF fin])
  finally have lt: "card ?used < card {..<32 * words}" using assms(7) by simp
  have finu: "finite ?used" by (rule finite_subset [OF sub finite_imageI [OF fin]])
  have "\<not> {..<32 * words} \<subseteq> ?used" using card_mono [OF finu, of "{..<32 * words}"] lt by linarith
  then have "bitset_members ?tab \<noteq> {}" unfolding free by blast
  then obtain c where c: "first_colour ?tab 0 = Some c" using first_colour_none by (cases "first_colour ?tab 0") auto
  obtain k where k: "k \<in> bitset_members ?tab" "c = int k" using first_colour_some [OF c] by auto
  have len: "length colours = temps" and old: "\<And>j. j < temps \<Longrightarrow> if j \<in> ready then 0 \<le> colours ! j \<and> colours ! j < int (32 * words) else colours ! j = - 1"
    and diff: "\<And>a b. a \<in> ready \<Longrightarrow> b \<in> ready \<Longrightarrow> edge mtx a b \<Longrightarrow> colours ! a \<noteq> colours ! b"
    using assms(2) unfolding coloured_def by blast+
  have new: "colours ! j \<noteq> c" if "j \<in> ready" "edge mtx ?i j" for j
  proof -
    have j: "j < temps" "0 \<le> colours ! j" using that(1) assms(3) old [of j] by auto
    then have "nat (colours ! j) \<in> ?used" using that(2) by blast
    then show ?thesis using k unfolding free by auto
  qed
  have k2: "k < 32 * words" using k(1) unfolding free by simp
  let ?cs = "colours[?i := c]"
  have at: "?cs ! ?i = c" "\<And>a. a \<noteq> ?i \<Longrightarrow> ?cs ! a = colours ! a" using assms(4) len by auto
  have "?cs ! a \<noteq> ?cs ! b" if "a \<in> insert ?i ready" "b \<in> insert ?i ready" "edge mtx a b" for a b
  proof (cases "a = ?i")
    case True
    then have "b \<in> ready" "b \<noteq> ?i" using that assms(5,6) by auto
    then show ?thesis using new [of b] that(3) True at by auto
  next
    case False
    then have a: "a \<in> ready" using that(1) by simp
    show ?thesis
    proof (cases "b = ?i")
      case True
      then have "edge mtx ?i a" using that(3) edge_sym [of mtx a b] by simp
      then show ?thesis using new [OF a] True False at by auto
    next
      case False
      then show ?thesis using diff [OF a _ that(3)] that(2) \<open>a \<noteq> ?i\<close> at by auto
    qed
  qed
  moreover have "if j \<in> insert ?i ready then 0 \<le> ?cs ! j \<and> ?cs ! j < int (32 * words) else ?cs ! j = - 1" if "j < temps" for j
    using old [OF that] at k(2) k2 by (cases "j = ?i") auto
  ultimately show ?thesis unfolding coloured_def colour_vertex_def c option.case length_list_update using len by blast
qed

lemma colour_ok:
  assumes "tri_ok temps mtx" "distinct (map vi_value vis)" "\<forall>vi \<in> set vis. vi_value vi < temps"
    and "\<forall>vi \<in> set vis. \<not> edge mtx (vi_value vi) (vi_value vi) \<and> int (card (neighbours mtx temps (vi_value vi))) \<le> degree"
  shows "coloured mtx temps (nat ((degree + 32) div 32)) (vi_value ` set vis) (colour mtx temps vis degree)"
proof -
  let ?w = "nat ((degree + 32) div 32)"
  have fits: "n < 32 * ?w" if "int n \<le> degree" for n :: nat using that by simp
  have "coloured mtx temps ?w (ready \<union> vi_value ` set ys) (foldl (colour_vertex mtx temps ?w) cs ys)"
    if "coloured mtx temps ?w ready cs" "ready \<subseteq> {..<temps}" "set ys \<subseteq> set vis" "distinct (map vi_value ys)" "ready \<inter> vi_value ` set ys = {}" for ready cs ys
    using that
  proof (induction ys arbitrary: ready cs)
    case (Cons y ys)
    have y: "y \<in> set vis" using Cons.prems(3) by simp
    have "coloured mtx temps ?w (insert (vi_value y) ready) (colour_vertex mtx temps ?w cs y)"
      using Cons.prems y assms(3,4) fits by (intro colour_vertex_ok [OF assms(1)]) auto
    from Cons.IH [OF this] Cons.prems y assms(3) show ?case by auto
  qed simp
  note loop = this
  have "coloured mtx temps ?w {} (replicate temps (- 1))" by (simp add: coloured_def)
  from loop [OF this _ _ assms(2)] show ?thesis by (simp add: colour_def)
qed


section \<open>Registers\<close>

lemma vertex_of_cases:
  "vertex_of iu ffv i = Inr (Some vi) \<Longrightarrow> \<exists>iv s. value_at iu (of_nat (i + ffv)) = Inr iv \<and> iv_class iv = Vc_temporary \<and>
     iv_precolored iv = - 1 \<and> value_regframe_slots (iu_tys iu) (iv_type iv) = Inr s \<and> (s = 1 \<or> s = 2) \<and>
     vi = \<lparr>vi_value = i, vi_score = iv_edges iv, vi_class = nat s\<rparr>"
  by (auto simp: vertex_of_def res_bind_eq_Inr RA_CLASS_REGFRAME_32_def RA_CLASS_REGFRAME_64_def split: if_splits)

lemma vertex_value: "vertex_of iu ffv i = Inr (Some vi) \<Longrightarrow> vi_value vi = i"
  by (auto simp: vertex_of_def res_bind_eq_Inr split: if_splits)

lemma vertices_spec:
  assumes "vertices iu ffv temps = Inr vis"
  shows "map vi_value vis = filter (\<lambda>i. \<exists>vi. vertex_of iu ffv i = Inr (Some vi)) [0..<temps]"
    "vi \<in> set vis \<Longrightarrow> vertex_of iu ffv (vi_value vi) = Inr (Some vi)"
proof -
  obtain vs where vs: "res_map (vertex_of iu ffv) [0..<temps] = Inr vs" "vis = List.map_filter id vs"
    using assms by (auto simp: vertices_def res_bind_eq_Inr)
  have "map vi_value (List.map_filter id vs) = filter (\<lambda>i. \<exists>vi. vertex_of iu ffv i = Inr (Some vi)) xs \<and>
      (\<forall>vi \<in> set (List.map_filter id vs). vertex_of iu ffv (vi_value vi) = Inr (Some vi))"
    if "list_all2 (\<lambda>x y. vertex_of iu ffv x = Inr y) xs vs" for xs vs
    using that
  proof (induction xs vs rule: list_all2_induct)
    case (Cons x xs y ys)
    show ?case
    proof (cases y)
      case None
      then show ?thesis using Cons by (simp add: map_filter_simps)
    next
      case (Some vi)
      then show ?thesis using Cons vertex_value [of iu ffv x vi] by (simp add: map_filter_simps)
    qed
  qed (simp add: map_filter_simps)
  from this [OF res_map_list_all2 [OF vs(1)]] vs(2)
  show "map vi_value vis = filter (\<lambda>i. \<exists>vi. vertex_of iu ffv i = Inr (Some vi)) [0..<temps]"
    "vi \<in> set vis \<Longrightarrow> vertex_of iu ffv (vi_value vi) = Inr (Some vi)" by simp_all
qed

lemma value_at_item: "k < 2 ^ 32 \<Longrightarrow> value_at iu (of_nat k) = Inr iv \<longleftrightarrow> value_item iu k = Inr iv"
  by (auto simp: value_at_def value_get_def value_item_def unsigned_of_nat take_bit_nat_eq_self res_bind_eq_Inr)

definition in_reg :: "ir_unit \<Rightarrow> nat \<Rightarrow> int \<Rightarrow> bool" where
  "in_reg iu k r \<longleftrightarrow> (\<exists>iv. value_item iu k = Inr iv \<and> iv_class iv = Vc_regframe r)"

lemma value_item_set:
  assumes "value_item iu k = Inr iv0"
  shows "value_item (set_value iu k iv) j = (if j = k then Inr iv else value_item iu j)"
proof -
  have "k < length (iu_values iu)" using assms by (auto simp: value_item_def split: if_splits)
  then show ?thesis by (auto simp: value_item_def set_value_def deref_def nth_list_update)
qed

lemma place_fold:
  assumes "distinct (map vi_value ys)" "\<forall>vi \<in> set ys. \<exists>iv. value_item iu (vi_value vi + ffv) = Inr iv"
  shows "\<exists>slots' iu'. res_fold (place_vertex ffv base rsize colours) (slots, iu) ys = Inr (slots', iu') \<and> slots \<le> slots' \<and>
    (\<forall>vi \<in> set ys. colours ! vi_value vi < slots' \<and> in_reg iu' (vi_value vi + ffv) (base + colours ! vi_value vi * rsize)) \<and>
    (\<forall>k. k \<notin> (\<lambda>vi. vi_value vi + ffv) ` set ys \<longrightarrow> value_item iu' k = value_item iu k)"
  using assms
proof (induction ys arbitrary: slots iu)
  case (Cons y ys)
  let ?k = "vi_value y + ffv" and ?c = "colours ! vi_value y"
  obtain iv where iv: "value_item iu ?k = Inr iv" using Cons.prems(2) by auto
  define iu1 where "iu1 = set_value iu ?k (iv\<lparr>iv_class := Vc_regframe (base + ?c * rsize)\<rparr>)"
  have v1: "value_item iu1 j = (if j = ?k then Inr (iv\<lparr>iv_class := Vc_regframe (base + ?c * rsize)\<rparr>) else value_item iu j)" for j
    unfolding iu1_def by (rule value_item_set [OF iv])
  have s: "place_vertex ffv base rsize colours (slots, iu) y = Inr (VMIR_MAX slots (?c + 1), iu1)"
    by (simp add: place_vertex_def iv iu1_def Let_def)
  have "\<forall>vi \<in> set ys. \<exists>iv. value_item iu1 (vi_value vi + ffv) = Inr iv" using Cons.prems(2) v1 by auto
  from Cons.IH [OF _ this, of "VMIR_MAX slots (?c + 1)"] Cons.prems(1) obtain slots' iu' where
    r: "res_fold (place_vertex ffv base rsize colours) (VMIR_MAX slots (?c + 1), iu1) ys = Inr (slots', iu')" "VMIR_MAX slots (?c + 1) \<le> slots'"
    and ys: "\<forall>vi \<in> set ys. colours ! vi_value vi < slots' \<and> in_reg iu' (vi_value vi + ffv) (base + colours ! vi_value vi * rsize)"
    and other: "\<forall>k. k \<notin> (\<lambda>vi. vi_value vi + ffv) ` set ys \<longrightarrow> value_item iu' k = value_item iu1 k" by auto
  have "?k \<notin> (\<lambda>vi. vi_value vi + ffv) ` set ys" using Cons.prems(1) by auto
  then have "in_reg iu' ?k (base + ?c * rsize)" using other v1 [of ?k] by (simp add: in_reg_def)
  moreover have "slots \<le> slots' \<and> ?c < slots'" using r(2) by auto
  ultimately show ?case using s r(1) ys other v1 by auto
qed simp

lemma align_int:
  fixes a :: int
  shows "a \<le> VMIR_ALIGN a 4" "4 dvd VMIR_ALIGN a 4" "a \<le> VMIR_ALIGN a 8" "8 dvd VMIR_ALIGN a 8"
  using VMIR_ALIGN_int [of a 2] VMIR_ALIGN_int [of a 3] by simp_all

lemma degree_bound:
  fixes vis :: "value_info list"
  shows "d \<le> foldl (\<lambda>d vi. VMIR_MAX d (vi_score vi)) d vis" "vi \<in> set vis \<Longrightarrow> vi_score vi \<le> foldl (\<lambda>d vi. VMIR_MAX d (vi_score vi)) d vis"
proof -
  have "d \<le> foldl (\<lambda>d vi. VMIR_MAX d (vi_score vi)) d vis \<and> (\<forall>vi \<in> set vis. vi_score vi \<le> foldl (\<lambda>d vi. VMIR_MAX d (vi_score vi)) d vis)"
  proof (induction vis arbitrary: d)
    case (Cons a vis)
    from Cons.IH [of "VMIR_MAX d (vi_score a)"] show ?case by auto
  qed simp
  then show "d \<le> foldl (\<lambda>d vi. VMIR_MAX d (vi_score vi)) d vis" "vi \<in> set vis \<Longrightarrow> vi_score vi \<le> foldl (\<lambda>d vi. VMIR_MAX d (vi_score vi)) d vis"
    by blast+
qed

definition reg_bytes :: "value_info \<Rightarrow> int" where
  "reg_bytes vi = class_reg_size (vi_class vi)"

definition regs_apart :: "int \<Rightarrow> int \<Rightarrow> int \<Rightarrow> int \<Rightarrow> bool" where
  "regs_apart r n r' n' \<longleftrightarrow> {r..<r + n} \<inter> {r'..<r' + n'} = {}"

lemma slots_apart: "(c::int) \<noteq> c' \<Longrightarrow> 0 < n \<Longrightarrow> regs_apart (b + c * n) n (b + c' * n) n"
proof -
  assume "c \<noteq> c'" "0 < n"
  then have "(c + 1) * n \<le> c' * n \<or> (c' + 1) * n \<le> c * n"
    using mult_right_mono [of "c + 1" c' n] mult_right_mono [of "c' + 1" c n] by linarith
  then show ?thesis by (auto simp: regs_apart_def algebra_simps)
qed

text \<open>What the result of \<open>reg_alloc\<close> promises of the temporaries it was given.\<close>

definition allocated :: "bitset_words \<Rightarrow> nat \<Rightarrow> value_info list \<Rightarrow> int \<Rightarrow> ir_unit \<Rightarrow> int \<Rightarrow> ir_unit \<Rightarrow> (nat \<Rightarrow> int) \<Rightarrow> bool" where
  "allocated mtx ffv vis frame iu frame' iu' reg \<longleftrightarrow> frame \<le> frame' \<and>
     (\<forall>vi \<in> set vis. in_reg iu' (vi_value vi + ffv) (reg (vi_value vi)) \<and> frame \<le> reg (vi_value vi) \<and>
        reg (vi_value vi) + reg_bytes vi \<le> frame' \<and> reg_bytes vi dvd reg (vi_value vi)) \<and>
     (\<forall>vi \<in> set vis. \<forall>vj \<in> set vis. edge mtx (vi_value vi) (vi_value vj) \<longrightarrow>
        regs_apart (reg (vi_value vi)) (reg_bytes vi) (reg (vi_value vj)) (reg_bytes vj)) \<and>
     (\<forall>k. k \<notin> (\<lambda>vi. vi_value vi + ffv) ` set vis \<longrightarrow> value_item iu' k = value_item iu k)"

lemma reg_alloc_ok:
  assumes perm: "\<And>xs. mset (qsort xs) = mset xs" and vis0: "vertices iu ffv temps = Inr vis0"
    and ok: "tri_ok temps mtx" and small: "ffv + temps \<le> 2 ^ 32"
    and deg: "\<forall>vi \<in> set vis0. \<not> edge mtx (vi_value vi) (vi_value vi) \<and> int (card (neighbours mtx temps (vi_value vi))) \<le> vi_score vi"
  shows "\<exists>frame' iu' reg. reg_alloc qsort mtx temps ffv (frame, iu) = Inr (frame', iu') \<and> allocated mtx ffv vis0 frame iu frame' iu' reg"
proof -
  define degree where "degree = foldl (\<lambda>d vi. VMIR_MAX d (vi_score vi)) 0 vis0"
  define vis where "vis = qsort vis0"
  define cs where "cs = colour mtx temps vis degree"
  have sv: "set vis = set vis0" and dist: "distinct (map vi_value vis)"
  proof -
    have m: "mset vis = mset vis0" by (simp add: vis_def perm)
    then show "set vis = set vis0" by (rule mset_eq_setD)
    have "mset (map vi_value vis) = mset (map vi_value vis0)" using m by simp
    moreover have "distinct (map vi_value vis0)" by (simp add: vertices_spec(1) [OF vis0])
    ultimately show "distinct (map vi_value vis)" by (metis mset_eq_imp_distinct_iff)
  qed
  have less: "vi_value vi < temps" if "vi \<in> set vis" for vi
  proof -
    have "vi_value vi \<in> set (map vi_value vis0)" using that sv by auto
    then show ?thesis unfolding vertices_spec(1) [OF vis0] by simp
  qed
  have item: "(\<exists>iv. value_item iu (vi_value vi + ffv) = Inr iv) \<and> vi_class vi \<in> {1, 2}" if "vi \<in> set vis" for vi
  proof -
    have "vertex_of iu ffv (vi_value vi) = Inr (Some vi)" using vertices_spec(2) [OF vis0, of vi] that sv by simp
    from vertex_of_cases [OF this] obtain iv s where
      v: "value_at iu (of_nat (vi_value vi + ffv)) = Inr iv" "s = 1 \<or> s = 2"
        "vi = \<lparr>vi_value = vi_value vi, vi_score = iv_edges iv, vi_class = nat s\<rparr>" by blast
    have "vi_value vi + ffv < 2 ^ 32" using less [OF that] small by simp
    then have "value_item iu (vi_value vi + ffv) = Inr iv" using value_at_item v(1) by blast
    moreover have "vi_class vi = nat s" by (subst v(3)) simp
    ultimately show ?thesis using v(2) by auto
  qed
  have dg: "\<not> edge mtx (vi_value vi) (vi_value vi) \<and> int (card (neighbours mtx temps (vi_value vi))) \<le> degree" if "vi \<in> set vis" for vi
  proof -
    have "vi \<in> set vis0" using that sv by simp
    then show ?thesis using deg degree_bound(2) [of vi vis0 0] order_trans unfolding degree_def by blast
  qed
  have col: "coloured mtx temps (nat ((degree + 32) div 32)) (vi_value ` set vis) cs"
    unfolding cs_def by (rule colour_ok [OF ok dist]) (use less dg in blast)+
  have pos: "0 \<le> cs ! vi_value vi" if "vi \<in> set vis" for vi
    using col less [OF that] that unfolding coloured_def by (metis image_eqI)
  have diff: "cs ! vi_value vi \<noteq> cs ! vi_value vj" if "vi \<in> set vis" "vj \<in> set vis" "edge mtx (vi_value vi) (vi_value vj)" for vi vj
    using col that by (auto simp: coloured_def)
  define v1 where "v1 = filter (\<lambda>vi. vi_class vi = 1) vis"
  define v2 where "v2 = filter (\<lambda>vi. vi_class vi = 2) vis"
  define b1 where "b1 = VMIR_ALIGN frame 4"
  have d12: "distinct (map vi_value v1)" "distinct (map vi_value v2)" using dist by (simp_all add: v1_def v2_def distinct_map inj_on_def)
  have "\<forall>vi \<in> set v1. \<exists>iv. value_item iu (vi_value vi + ffv) = Inr iv" using item by (auto simp: v1_def)
  from place_fold [OF d12(1) this, of b1 4 cs 0] obtain s1 iu1 where
    p1: "res_fold (place_vertex ffv b1 4 cs) (0, iu) v1 = Inr (s1, iu1)" "0 \<le> s1"
    and r1: "\<And>vi. vi \<in> set v1 \<Longrightarrow> cs ! vi_value vi < s1 \<and> in_reg iu1 (vi_value vi + ffv) (b1 + cs ! vi_value vi * 4)"
    and o1: "\<And>k. k \<notin> (\<lambda>vi. vi_value vi + ffv) ` set v1 \<Longrightarrow> value_item iu1 k = value_item iu k" by blast
  define b2 where "b2 = VMIR_ALIGN (b1 + s1 * 4) 8"
  have apart: "vi_value vi + ffv \<notin> (\<lambda>vi. vi_value vi + ffv) ` set v1" if "vi \<in> set v2" for vi
    using that dist by (auto simp: v1_def v2_def distinct_map inj_on_def)
  then have "\<forall>vi \<in> set v2. \<exists>iv. value_item iu1 (vi_value vi + ffv) = Inr iv" using item o1 by (auto simp: v2_def)
  from place_fold [OF d12(2) this, of b2 8 cs 0] obtain s2 iu2 where
    p2: "res_fold (place_vertex ffv b2 8 cs) (0, iu1) v2 = Inr (s2, iu2)" "0 \<le> s2"
    and r2: "\<And>vi. vi \<in> set v2 \<Longrightarrow> cs ! vi_value vi < s2 \<and> in_reg iu2 (vi_value vi + ffv) (b2 + cs ! vi_value vi * 8)"
    and o2: "\<And>k. k \<notin> (\<lambda>vi. vi_value vi + ffv) ` set v2 \<Longrightarrow> value_item iu2 k = value_item iu1 k" by blast
  define frame' where "frame' = b2 + s2 * 8"
  have c1: "place_class ffv vis cs (frame, iu) RA_CLASS_REGFRAME_32 = Inr (b1 + s1 * 4, iu1)"
    using p1(1) by (simp add: place_class_def RA_CLASS_REGFRAME_32_def class_reg_size_def Let_def b1_def v1_def)
  have c2: "place_class ffv vis cs (b1 + s1 * 4, iu1) RA_CLASS_REGFRAME_64 = Inr (frame', iu2)"
    using p2(1) by (simp add: place_class_def RA_CLASS_REGFRAME_64_def class_reg_size_def Let_def b2_def v2_def frame'_def)
  have run: "reg_alloc qsort mtx temps ffv (frame, iu) = Inr (frame', iu2)"
    unfolding reg_alloc_def vis0 Let_def degree_def [symmetric] vis_def [symmetric] cs_def [symmetric] split_conv res_bind_simps
    by (simp add: c1 c2)
  have bases: "frame \<le> b1" "4 dvd b1" "b1 + s1 * 4 \<le> b2" "8 dvd b2" by (simp_all add: b1_def b2_def align_int)
  have split: "set vis = set v1 \<union> set v2" using item by (auto simp: v1_def v2_def)
  have cls: "vi_class vi = 1" if "vi \<in> set v1" for vi using that by (simp add: v1_def)
  have cls2: "vi_class vi = 2" if "vi \<in> set v2" for vi using that by (simp add: v2_def)
  define reg where "reg = (\<lambda>i. if i \<in> vi_value ` set v1 then b1 + cs ! i * 4 else b2 + cs ! i * 8)"
  have reg1: "reg (vi_value vi) = b1 + cs ! vi_value vi * 4" "reg_bytes vi = 4" if "vi \<in> set v1" for vi
    using that cls by (auto simp: reg_def reg_bytes_def class_reg_size_def)
  have reg2: "reg (vi_value vi) = b2 + cs ! vi_value vi * 8" "reg_bytes vi = 8" if "vi \<in> set v2" for vi
  proof -
    have "vi_value vi \<notin> vi_value ` set v1" using apart [OF that] by auto
    then show "reg (vi_value vi) = b2 + cs ! vi_value vi * 8" by (simp add: reg_def)
    show "reg_bytes vi = 8" using cls2 [OF that] by (simp add: reg_bytes_def class_reg_size_def)
  qed
  have in1: "in_reg iu2 (vi_value vi + ffv) (reg (vi_value vi))" if "vi \<in> set v1" for vi
  proof -
    have "vi_value vi + ffv \<notin> (\<lambda>vi. vi_value vi + ffv) ` set v2" using that dist by (auto simp: v1_def v2_def distinct_map inj_on_def)
    then show ?thesis using o2 r1 [OF that] reg1 [OF that] by (simp add: in_reg_def)
  qed
  have in2: "in_reg iu2 (vi_value vi + ffv) (reg (vi_value vi))" if "vi \<in> set v2" for vi using r2 [OF that] reg2 [OF that] by simp
  have lim1: "b1 \<le> reg (vi_value vi) \<and> reg (vi_value vi) + 4 \<le> b1 + s1 * 4 \<and> 4 dvd reg (vi_value vi)" if "vi \<in> set v1" for vi
    using r1 [OF that] reg1(1) [OF that] pos [of vi] split that bases(2) by auto
  have lim2: "b2 \<le> reg (vi_value vi) \<and> reg (vi_value vi) + 8 \<le> frame' \<and> 8 dvd reg (vi_value vi)" if "vi \<in> set v2" for vi
    using r2 [OF that] reg2(1) [OF that] pos [of vi] split that bases(4) by (auto simp: frame'_def)
  have "allocated mtx ffv vis0 frame iu frame' iu2 reg"
    unfolding allocated_def sv [symmetric]
  proof (intro conjI ballI impI allI)
    show "frame \<le> frame'" using bases p1(2) p2(2) by (simp add: frame'_def)
  next
    fix vi assume "vi \<in> set vis"
    then consider "vi \<in> set v1" | "vi \<in> set v2" using split by blast
    then show "in_reg iu2 (vi_value vi + ffv) (reg (vi_value vi))" "frame \<le> reg (vi_value vi)"
      "reg (vi_value vi) + reg_bytes vi \<le> frame'" "reg_bytes vi dvd reg (vi_value vi)"
      using in1 in2 lim1 lim2 bases p1(2) p2(2) reg1(2) reg2(2) by (cases; force simp: frame'_def)+
  next
    fix vi vj assume v: "vi \<in> set vis" "vj \<in> set vis" and e: "edge mtx (vi_value vi) (vi_value vj)"
    have d: "cs ! vi_value vi \<noteq> cs ! vi_value vj" by (rule diff [OF v e])
    consider "vi \<in> set v1" "vj \<in> set v1" | "vi \<in> set v2" "vj \<in> set v2" | "vi \<in> set v1" "vj \<in> set v2" | "vi \<in> set v2" "vj \<in> set v1"
      using v split by blast
    then show "regs_apart (reg (vi_value vi)) (reg_bytes vi) (reg (vi_value vj)) (reg_bytes vj)"
    proof cases
      case 1
      then show ?thesis using slots_apart [OF d, of 4 b1] by (simp add: reg1)
    next
      case 2
      then show ?thesis using slots_apart [OF d, of 8 b2] by (simp add: reg2)
    next
      case 3
      then show ?thesis using lim1 [OF 3(1)] lim2 [OF 3(2)] bases(3) by (auto simp: regs_apart_def reg1(2) reg2(2))
    next
      case 4
      then show ?thesis using lim1 [OF 4(2)] lim2 [OF 4(1)] bases(3) by (auto simp: regs_apart_def reg1(2) reg2(2))
    qed
  next
    fix k assume "k \<notin> (\<lambda>vi. vi_value vi + ffv) ` set vis"
    then have "k \<notin> (\<lambda>vi. vi_value vi + ffv) ` set v1" "k \<notin> (\<lambda>vi. vi_value vi + ffv) ` set v2" using split by auto
    then show "value_item iu2 k = value_item iu k" using o1 [of k] o2 [of k] by simp
  qed
  with run show ?thesis by blast
qed

end
