(* ===== verification/Vmir_Coalesce.thy ===== *)
theory Vmir_Coalesce
  imports Vmir_Regalloc_Props
begin

text \<open>
  Merging temporaries is sound: two temporaries that interfere are never merged, whatever a
  temporary interferes with its representative does, and the instructions are those of the
  function with every temporary replaced by its representative.
\<close>

section \<open>Degrees\<close>

definition value_edges :: "ir_unit \<Rightarrow> nat \<Rightarrow> int" where
  "value_edges iu k = (case value_item iu k of Inl _ \<Rightarrow> 0 | Inr iv \<Rightarrow> iv_edges iv)"

text \<open>What the counting of neighbours leaves alone.\<close>

definition same_but_edges :: "ir_unit \<Rightarrow> ir_unit \<Rightarrow> bool" where
  "same_but_edges iu iu' \<longleftrightarrow> iu_ts iu' = iu_ts iu \<and> length (iu_values iu') = length (iu_values iu) \<and>
     (\<forall>k. map_sum id (\<lambda>iv. iv\<lparr>iv_edges := 0\<rparr>) (value_item iu' k) = map_sum id (\<lambda>iv. iv\<lparr>iv_edges := 0\<rparr>) (value_item iu k))"

lemma same_but_edges_refl [simp]: "same_but_edges iu iu"
  by (simp add: same_but_edges_def)

lemma same_but_edges_trans: "same_but_edges iu iu1 \<Longrightarrow> same_but_edges iu1 iu2 \<Longrightarrow> same_but_edges iu iu2"
  by (simp add: same_but_edges_def)

lemma same_but_edges_item:
  assumes "same_but_edges iu iu'" "value_item iu k = Inr iv"
  shows "\<exists>n. value_item iu' k = Inr (iv\<lparr>iv_edges := n\<rparr>)"
proof -
  have "map_sum id (\<lambda>iv. iv\<lparr>iv_edges := 0\<rparr>) (value_item iu' k) = Inr (iv\<lparr>iv_edges := 0\<rparr>)"
    using assms by (simp add: same_but_edges_def)
  then obtain iv' where iv': "value_item iu' k = Inr iv'" "iv'\<lparr>iv_edges := 0\<rparr> = iv\<lparr>iv_edges := 0\<rparr>"
    by (cases "value_item iu' k") auto
  then have "iv' = iv\<lparr>iv_edges := iv_edges iv'\<rparr>" by (cases iv; cases iv') simp
  then show ?thesis using iv'(1) by metis
qed

lemma add_edges_ok:
  assumes "value_item iu k = Inr iv"
  shows "\<exists>iu'. add_edges k d iu = Inr iu' \<and> same_but_edges iu iu' \<and> value_edges iu' = (value_edges iu)(k := value_edges iu k + d)"
proof -
  let ?iu = "set_value iu k (iv\<lparr>iv_edges := iv_edges iv + d\<rparr>)"
  have "add_edges k d iu = Inr ?iu" by (simp add: add_edges_def assms)
  moreover have "same_but_edges iu ?iu"
    by (auto simp: same_but_edges_def value_item_set [OF assms] assms) (simp_all add: set_value_def)
  moreover have "value_edges ?iu = (value_edges iu)(k := value_edges iu k + d)"
    by (auto simp: value_edges_def value_item_set [OF assms] assms fun_eq_iff)
  ultimately show ?thesis by blast
qed

definition items_ok :: "nat \<Rightarrow> nat \<Rightarrow> ir_unit \<Rightarrow> bool" where
  "items_ok ffv temps iu \<longleftrightarrow> (\<forall>k < temps. \<exists>iv. value_item iu (k + ffv) = Inr iv)"

lemma items_ok_same: "same_but_edges iu iu' \<Longrightarrow> items_ok ffv temps iu \<Longrightarrow> items_ok ffv temps iu'"
  using same_but_edges_item by (fastforce simp: items_ok_def)

definition graph_inv :: "nat \<Rightarrow> bitset_words \<Rightarrow> bool" where
  "graph_inv temps mtx \<longleftrightarrow> tri_ok temps mtx \<and> (\<forall>x. \<not> edge mtx x x)"

definition degrees :: "nat \<Rightarrow> nat \<Rightarrow> bitset_words \<Rightarrow> ir_unit \<Rightarrow> bool" where
  "degrees ffv temps mtx iu \<longleftrightarrow> (\<forall>k < temps. value_edges iu (k + ffv) = int (card (neighbours mtx temps k)))"

lemma finite_neighbours [simp]: "finite (neighbours mtx temps k)"
  by (simp add: neighbours_def)

text \<open>Adding and removing an edge.\<close>

lemma neighbours_insert:
  assumes "\<forall>u v. edge mtx' u v \<longleftrightarrow> {u, v} = {x, y} \<or> edge mtx u v" "x < temps" "y < temps" "x \<noteq> y"
  shows "neighbours mtx' temps x = insert y (neighbours mtx temps x)" "neighbours mtx' temps y = insert x (neighbours mtx temps y)"
    "k \<noteq> x \<Longrightarrow> k \<noteq> y \<Longrightarrow> neighbours mtx' temps k = neighbours mtx temps k"
  using assms by (auto simp: neighbours_def doubleton_eq_iff)

lemma neighbours_remove:
  assumes "\<forall>u v. edge mtx' u v \<longleftrightarrow> {u, v} \<noteq> {x, y} \<and> edge mtx u v" "x \<noteq> y"
  shows "neighbours mtx' temps x = neighbours mtx temps x - {y}" "neighbours mtx' temps y = neighbours mtx temps y - {x}"
    "k \<noteq> x \<Longrightarrow> k \<noteq> y \<Longrightarrow> neighbours mtx' temps k = neighbours mtx temps k"
  using assms by (auto simp: neighbours_def doubleton_eq_iff)

section \<open>The interference matrix\<close>

text \<open>While the edges of \<open>x\<close> are counted, \<open>e\<close> of them are not yet in its value.\<close>

definition counting :: "nat \<Rightarrow> nat \<Rightarrow> nat \<Rightarrow> bitset_words \<Rightarrow> ir_unit \<Rightarrow> int \<Rightarrow> bool" where
  "counting ffv temps x mtx iu e \<longleftrightarrow>
     (\<forall>k < temps. value_edges iu (k + ffv) + (if k = x then e else 0) = int (card (neighbours mtx temps k)))"

lemma interfere_with_ok:
  assumes "graph_inv temps mtx" "items_ok ffv temps iu" "counting ffv temps x mtx iu e" "x < temps" "y < temps"
  shows "\<exists>mtx' iu' e'. interfere_with ffv v (int x) ((mtx, iu), e) y = Inr ((mtx', iu'), e') \<and> graph_inv temps mtx' \<and>
    same_but_edges iu iu' \<and> counting ffv temps x mtx' iu' e' \<and>
    (\<forall>a b. edge mtx' a b \<longleftrightarrow> edge mtx a b \<or> {a, b} = {x, y} \<and> y \<noteq> x \<and> int y \<noteq> v)"
proof (cases "y \<noteq> x \<and> int y \<noteq> v \<and> \<not> edge mtx x y")
  case True
  have ok: "tri_ok temps mtx" using assms(1) by (simp add: graph_inv_def)
  obtain mtx' where m: "tribitmtx_set mtx (int x) (int y) = Inr mtx'" "length mtx' = length mtx"
    and e: "\<forall>u v. edge mtx' u v \<longleftrightarrow> {u, v} = {x, y} \<or> edge mtx u v"
    using tribitmtx_set_ok [OF ok assms(4,5)] by blast
  obtain iv where "value_item iu (y + ffv) = Inr iv" using assms(2,5) by (auto simp: items_ok_def)
  from add_edges_ok [OF this, of 1] obtain iu' where
    i: "add_edges (y + ffv) 1 iu = Inr iu'" "same_but_edges iu iu'" "value_edges iu' = (value_edges iu)(y + ffv := value_edges iu (y + ffv) + 1)" by blast
  have xy: "x \<noteq> y" using True by simp
  note n = neighbours_insert [OF e assms(4,5) xy]
  have new: "y \<notin> neighbours mtx temps x" "x \<notin> neighbours mtx temps y" using True edge_sym [of mtx x y] by (auto simp: neighbours_def)
  have "counting ffv temps x mtx' iu' (e + 1)"
    unfolding counting_def
  proof (intro allI impI)
    fix k assume k: "k < temps"
    show "value_edges iu' (k + ffv) + (if k = x then e + 1 else 0) = int (card (neighbours mtx' temps k))"
      using assms(3) k xy new by (cases "k = x"; cases "k = y") (auto simp: i(3) n counting_def)
  qed
  moreover have "graph_inv temps mtx'" using assms(1) m(2) e xy by (auto simp: graph_inv_def tri_ok_def)
  moreover have "interfere_with ffv v (int x) ((mtx, iu), e) y = Inr ((mtx', iu'), e + 1)"
    using True m(1) i(1) by (simp add: interfere_with_def tribitmtx_get_ok [OF ok assms(4,5)])
  ultimately show ?thesis using i(2) e True by auto
next
  case False
  have "tri_ok temps mtx" using assms(1) by (simp add: graph_inv_def)
  then have "interfere_with ffv v (int x) ((mtx, iu), e) y = Inr ((mtx, iu), e)"
    using False tribitmtx_get_ok [OF _ assms(4,5)] by (auto simp: interfere_with_def)
  moreover have "edge mtx a b" if "{a, b} = {x, y}" "y \<noteq> x" "int y \<noteq> v" for a b
    using that False edge_sym [of mtx x y] by (auto simp: doubleton_eq_iff)
  ultimately show ?thesis using assms(1,3) by (intro exI [of _ mtx] exI [of _ iu] exI [of _ e]) auto
qed

lemma interfere_loop:
  assumes "graph_inv temps mtx" "items_ok ffv temps iu" "counting ffv temps x mtx iu e" "x < temps" "set ys \<subseteq> {..<temps}"
  shows "\<exists>mtx' iu' e'. res_fold (interfere_with ffv v (int x)) ((mtx, iu), e) ys = Inr ((mtx', iu'), e') \<and> graph_inv temps mtx' \<and>
    same_but_edges iu iu' \<and> counting ffv temps x mtx' iu' e' \<and>
    (\<forall>a b. edge mtx' a b \<longleftrightarrow> edge mtx a b \<or> (\<exists>y \<in> set ys. {a, b} = {x, y} \<and> y \<noteq> x \<and> int y \<noteq> v))"
  using assms
proof (induction ys arbitrary: mtx iu e)
  case (Cons y ys)
  from interfere_with_ok [OF Cons.prems(1-4), of y v] Cons.prems(5) obtain mtx1 iu1 e1 where
    s: "interfere_with ffv v (int x) ((mtx, iu), e) y = Inr ((mtx1, iu1), e1)" "graph_inv temps mtx1" "same_but_edges iu iu1"
      "counting ffv temps x mtx1 iu1 e1" "\<forall>a b. edge mtx1 a b \<longleftrightarrow> edge mtx a b \<or> {a, b} = {x, y} \<and> y \<noteq> x \<and> int y \<noteq> v" by auto
  from Cons.IH [OF s(2) items_ok_same [OF s(3) Cons.prems(2)] s(4) Cons.prems(4)] Cons.prems(5) obtain mtx' iu' e' where
    t: "res_fold (interfere_with ffv v (int x)) ((mtx1, iu1), e1) ys = Inr ((mtx', iu'), e')" "graph_inv temps mtx'" "same_but_edges iu1 iu'"
      "counting ffv temps x mtx' iu' e'"
      "\<forall>a b. edge mtx' a b \<longleftrightarrow> edge mtx1 a b \<or> (\<exists>y \<in> set ys. {a, b} = {x, y} \<and> y \<noteq> x \<and> int y \<noteq> v)" by auto
  have "same_but_edges iu iu'" by (rule same_but_edges_trans [OF s(3) t(3)])
  then show ?case using s(1) t(1,2,4) s(5) t(5) by auto
qed auto

lemma members_of_set: "set (members_of bs) = bitset_members bs"
  using bitset_members_bound [of bs] by (auto simp: members_of_def bitchk_iff)

definition result_ok :: "nat \<Rightarrow> nat \<Rightarrow> ir_valuetype \<Rightarrow> bool" where
  "result_ok ffv temps r \<longleftrightarrow> int ffv \<le> vt_value r \<and> vt_value r < int (ffv + temps)"

lemma interfere_result_ok:
  assumes "graph_inv temps mtx" "items_ok ffv temps iu" "degrees ffv temps mtx iu" "result_ok ffv temps r"
    "bitset_members out \<subseteq> {..<temps}" "ffv + temps \<le> 2 ^ 32"
  shows "\<exists>mtx' iu'. interfere_result ffv v out (mtx, iu) r = Inr (mtx', iu') \<and> graph_inv temps mtx' \<and>
    same_but_edges iu iu' \<and> degrees ffv temps mtx' iu' \<and>
    (\<forall>a b. edge mtx' a b \<longleftrightarrow> edge mtx a b \<or>
       (\<exists>y \<in> bitset_members out. {a, b} = {nat (vt_value r - int ffv), y} \<and> y \<noteq> nat (vt_value r - int ffv) \<and> int y \<noteq> v))"
proof -
  define x where "x = nat (vt_value r - int ffv)"
  have x: "x < temps" "vt_value r = int (x + ffv)" "vt_value r - int ffv = int x" using assms(4) by (auto simp: result_ok_def x_def)
  have k: "unat (word_of_int (vt_value r) :: u32) = x + ffv"
    using x(1) assms(6) unfolding x(2) by (simp add: unsigned_of_nat take_bit_nat_eq_self flip: of_nat_add)
  have "counting ffv temps x mtx iu 0" using assms(3) by (simp add: counting_def degrees_def)
  from interfere_loop [OF assms(1,2) this x(1), of "members_of out" v] assms(5) members_of_set obtain mtx' iu' e' where
    l: "res_fold (interfere_with ffv v (int x)) ((mtx, iu), 0) (members_of out) = Inr ((mtx', iu'), e')" "graph_inv temps mtx'"
      "same_but_edges iu iu'" "counting ffv temps x mtx' iu' e'"
      "\<forall>a b. edge mtx' a b \<longleftrightarrow> edge mtx a b \<or> (\<exists>y \<in> bitset_members out. {a, b} = {x, y} \<and> y \<noteq> x \<and> int y \<noteq> v)"
    unfolding members_of_set by blast
  obtain iv0 where iv0: "value_item iu (x + ffv) = Inr iv0" using assms(2) x(1) by (auto simp: items_ok_def)
  obtain iv where iv: "value_item iu' (x + ffv) = Inr iv" using same_but_edges_item [OF l(3) iv0] by blast
  from add_edges_ok [OF iv, of e'] obtain iu'' where
    a: "add_edges (x + ffv) e' iu' = Inr iu''" "same_but_edges iu' iu''" "value_edges iu'' = (value_edges iu')(x + ffv := value_edges iu' (x + ffv) + e')" by blast
  have d: "degrees ffv temps mtx' iu''"
    unfolding degrees_def
  proof (intro allI impI)
    fix k assume "k < temps"
    then show "value_edges iu'' (k + ffv) = int (card (neighbours mtx' temps k))"
      using l(4) by (auto simp: a(3) counting_def split: if_splits)
  qed
  have "value_at iu (word_of_int (vt_value r)) = Inr iv0"
  proof -
    have "word_of_int (vt_value r) = (of_nat (x + ffv) :: u32)" by (simp add: x(2))
    moreover have "x + ffv < 2 ^ 32" using x(1) assms(6) by simp
    ultimately show ?thesis using value_at_item [of "x + ffv" iu iv0] iv0 by metis
  qed
  then have "interfere_result ffv v out (mtx, iu) r = Inr (mtx', iu'')"
    using l(1) a(1) by (simp add: interfere_result_def k x(3))
  then show ?thesis using l(2,5) d same_but_edges_trans [OF l(3) a(2)] unfolding x_def [symmetric] by blast
qed

end
