(* ===== verification/Vmir_Rename.thy ===== *)
theory Vmir_Rename
  imports Vmir_Regalloc
begin

text \<open>Facts on renaming the values of instructions.\<close>

section \<open>Renamings\<close>

text \<open>A renaming acts on value numbers only; the negative numbers of \<open>ii_ret\<close> and of absent operands stay.\<close>

definition renaming :: "(int \<Rightarrow> int) \<Rightarrow> bool" where
  "renaming f \<longleftrightarrow> (\<forall>v. if v < 0 then f v = v else 0 \<le> f v)"

lemma renamingI: "(\<And>v. v < 0 \<Longrightarrow> f v = v) \<Longrightarrow> (\<And>v. 0 \<le> v \<Longrightarrow> 0 \<le> f v) \<Longrightarrow> renaming f"
  by (simp add: renaming_def)

lemma renaming_facts:
  assumes "renaming f"
  shows "v < 0 \<Longrightarrow> f v = v" "f v < 0 \<longleftrightarrow> v < 0" "0 \<le> f v \<longleftrightarrow> 0 \<le> v" "f v = - 1 \<longleftrightarrow> v = - 1" "f v < - 1 \<longleftrightarrow> v < - 1"
proof -
  have f: "if v < 0 then f v = v else 0 \<le> f v" using assms by (simp add: renaming_def)
  show "v < 0 \<Longrightarrow> f v = v" using f by simp
  show "f v < 0 \<longleftrightarrow> v < 0" "0 \<le> f v \<longleftrightarrow> 0 \<le> v" "f v = - 1 \<longleftrightarrow> v = - 1" "f v < - 1 \<longleftrightarrow> v < - 1"
    using f by (cases "v < 0"; force)+
qed

lemma renaming_comp: "renaming f \<Longrightarrow> renaming g \<Longrightarrow> renaming (f \<circ> g)"
  by (rule renamingI) (simp_all add: renaming_facts)

lemma renaming_swap: "0 \<le> k \<Longrightarrow> 0 \<le> s \<Longrightarrow> renaming (\<lambda>v. if v = k then s else v)"
  by (rule renamingI) auto

lemma renaming_id: "renaming (\<lambda>v. v)"
  by (rule renamingI) auto

lemma vt_value_map [simp]: "vt_value (map_vt f vt) = f (vt_value vt)" "vt_type (map_vt f vt) = vt_type vt"
  by (simp_all add: map_vt_def)

lemma map_vt_comp: "map_vt f (map_vt g vt) = map_vt (f \<circ> g) vt"
  by (simp add: map_vt_def)

lemma map_vt_idem: "f (vt_value vt) = vt_value vt \<Longrightarrow> map_vt f vt = vt"
  by (simp add: map_vt_def)

lemma ret_map_super:
  assumes "renaming f"
  shows "vt_value (ii_ret (map_super f s)) = (if vt_value (ii_ret s) < 0 then vt_value (ii_ret s) else f (vt_value (ii_ret s)))"
  by (simp add: map_super_def Let_def renaming_facts [OF assms])

lemma map_prefix_comp: "map_prefix n g (map_prefix n h xs) = map_prefix n (g \<circ> h) xs"
  by (cases "n \<le> length xs") (simp_all add: map_prefix_def)

lemma map_prefix_simps [simp]: "length (map_prefix n g xs) = length xs" "take n (map_prefix n g xs) = map g (take n xs)"
  by (cases "n \<le> length xs"; simp add: map_prefix_def)+

lemma map_args_idem [simp]: "\<forall>x \<in> set xs. g (fst x) = fst x \<Longrightarrow> map (\<lambda>(a, n). (g a, n)) xs = xs"
  by (induction xs) auto

lemma map_super_comp:
  assumes "renaming f" "renaming g"
  shows "map_super f (map_super g s) = map_super (f \<circ> g) s"
  by (simp add: map_super_def Let_def map_prefix_comp map_vt_comp comp_def renaming_facts [OF assms(1)] renaming_facts [OF assms(2)])

lemma map_super_no_super: "renaming f \<Longrightarrow> map_super f no_super = no_super"
  by (simp add: map_super_def no_super_def map_vt_def renaming_facts)

lemma instr_results_map:
  assumes "renaming f"
  shows "instr_results (map_super f s) = map_sum id (map (map_vt f)) (instr_results s)"
  by (simp add: instr_results_def Let_def map_super_def renaming_facts [OF assms])

lemma map_super_idem:
  assumes "renaming f" "instr_results s = Inr rs" "\<forall>r \<in> set rs. f (vt_value r) = vt_value r"
  shows "map_super f s = s"
proof (cases "vt_value (ii_ret s) < - 1")
  case True
  let ?n = "nat (- vt_value (ii_ret s))"
  have "rs = take ?n (ii_rets s)" using assms(2) True by (auto simp: instr_results_def Let_def split: if_splits)
  then have "map (map_vt f) (take ?n (ii_rets s)) = take ?n (ii_rets s)" using assms(3) by (intro map_idI map_vt_idem) auto
  then show ?thesis using True by (simp add: map_super_def map_prefix_def Let_def)
next
  case False
  have "f (vt_value (ii_ret s)) = vt_value (ii_ret s)"
    using assms(2,3) False renaming_facts(1) [OF assms(1)] by (cases "0 \<le> vt_value (ii_ret s)") (auto simp: instr_results_def Let_def)
  then show ?thesis using False by (simp add: map_super_def Let_def map_vt_idem)
qed

section \<open>Instructions\<close>

lemma instr_super_map: "renaming f \<Longrightarrow> \<exists>vs. gen_values ii = Inr vs \<Longrightarrow> instr_super (map_values f ii) = map_super f (instr_super ii)"
  by (cases ii) (simp_all add: map_super_no_super)

lemma gen_values_map:
  assumes "renaming f" "gen_values ii = Inr vs"
  shows "gen_values (map_values f ii) = Inr (map (map_vt f) vs)"
  using assms(2) by (cases ii) (auto simp: split_beta renaming_facts [OF assms(1)])

lemma map_values_comp: "renaming f \<Longrightarrow> renaming g \<Longrightarrow> map_values f (map_values g ii) = map_values (f \<circ> g) ii"
  by (cases ii) (simp_all add: map_super_comp map_vt_comp split_beta comp_def)

lemma map_values_idem:
  assumes "renaming f" "instr_results (instr_super ii) = Inr rs" "gen_values ii = Inr vs"
    and "\<forall>r \<in> set rs \<union> set vs. f (vt_value r) = vt_value r"
  shows "map_values f ii = ii"
proof -
  have s: "map_super f (instr_super ii) = instr_super ii" using map_super_idem [OF assms(1,2)] assms(4) by blast
  have v: "\<forall>x \<in> set vs. map_vt f x = x" using assms(4) by (auto intro: map_vt_idem)
  show ?thesis
    using s v assms(3) renaming_facts(1) [OF assms(1)]
    by (cases ii) (auto simp: map_vt_idem map_idI not_le split: if_splits)
qed

lemma map_values_cong: "(\<And>v. f v = g v) \<Longrightarrow> map_values f ii = map_values g ii"
  by (rule arg_cong [of f g "\<lambda>f. map_values f ii"]) auto

lemma map_id [simp]: "map_vt (\<lambda>v. v) = (\<lambda>x. x)" "map_super (\<lambda>v. v) s = s"
proof -
  show v: "map_vt (\<lambda>v. v) = (\<lambda>x. x)" by (simp add: map_vt_def fun_eq_iff)
  show "map_super (\<lambda>v. v) s = s" by (simp add: map_super_def map_prefix_def Let_def v)
qed

lemma map_values_same [simp]: "map_values (\<lambda>v. v) ii = ii"
  by (cases ii) auto

lemma instr_replace_values_map:
  "gen_values ii = Inr vs \<Longrightarrow> instr_replace_values from to ii = Inr (map_values (\<lambda>v. if v = from then to else v) ii)"
  by (cases ii) (simp_all add: instr_replace_values_def)

end
