(* ===== verification/Vmir_Merge.thy ===== *)
theory Vmir_Merge
  imports Vmir_Coalesce Vmir_Rename
begin

text \<open>
  Merging temporaries, \<open>coalesce\<close>: the matrix holds exactly the conflicts of the function, merging
  keeps them, and the instructions stay those of the function up to a renaming.
\<close>

section \<open>Conflicts\<close>

text \<open>
  A result and a temporary that is live after the instruction are in conflict; a move is not in
  conflict with its source.
\<close>

definition nodes_of :: "flow_bb list \<Rightarrow> flow_node list" where
  "nodes_of bbs = concat (map fb_nodes bbs)"

definition conflict_at :: "nat \<Rightarrow> flow_node \<Rightarrow> nat \<Rightarrow> nat \<Rightarrow> bool" where
  "conflict_at ffv nd a b \<longleftrightarrow> (\<exists>rs. instr_results (instr_super (fn_instr nd)) = Inr rs \<and>
     (\<exists>r \<in> set rs. \<exists>y \<in> bitset_members (fn_out nd). {a, b} = {nat (vt_value r - int ffv), y} \<and>
        y \<noteq> nat (vt_value r - int ffv) \<and> move_source (fn_instr nd) \<noteq> Some (int y + int ffv)))"

definition conflict :: "nat \<Rightarrow> flow_bb list \<Rightarrow> nat \<Rightarrow> nat \<Rightarrow> bool" where
  "conflict ffv bbs a b \<longleftrightarrow> (\<exists>nd \<in> set (nodes_of bbs). conflict_at ffv nd a b)"

definition results_in :: "nat \<Rightarrow> nat \<Rightarrow> flow_node \<Rightarrow> bool" where
  "results_in ffv temps nd \<longleftrightarrow> bitset_members (fn_out nd) \<subseteq> {..<temps} \<and>
     (\<exists>rs. instr_results (instr_super (fn_instr nd)) = Inr rs \<and> (\<forall>r \<in> set rs. result_ok ffv temps r))"

text \<open>A state of the counting loops.\<close>

definition matrix_ok :: "nat \<Rightarrow> nat \<Rightarrow> bitset_words \<times> ir_unit \<Rightarrow> bool" where
  "matrix_ok ffv temps = (\<lambda>(mtx, iu). graph_inv temps mtx \<and> items_ok ffv temps iu \<and> degrees ffv temps mtx iu)"

lemma interfere_results:
  assumes "matrix_ok ffv temps (mtx, iu)" "\<forall>r \<in> set rs. result_ok ffv temps r" "bitset_members out \<subseteq> {..<temps}" "ffv + temps \<le> 2 ^ 32"
  shows "\<exists>mtx' iu'. res_fold (interfere_result ffv v out) (mtx, iu) rs = Inr (mtx', iu') \<and> matrix_ok ffv temps (mtx', iu') \<and>
    same_but_edges iu iu' \<and>
    (\<forall>a b. edge mtx' a b \<longleftrightarrow> edge mtx a b \<or> (\<exists>r \<in> set rs. \<exists>y \<in> bitset_members out.
       {a, b} = {nat (vt_value r - int ffv), y} \<and> y \<noteq> nat (vt_value r - int ffv) \<and> int y \<noteq> v))"
  using assms(1,2)
proof (induction rs arbitrary: mtx iu)
  case Nil
  then show ?case by (intro exI [of _ mtx] exI [of _ iu]) simp
next
  case (Cons r rs)
  have st: "graph_inv temps mtx" "items_ok ffv temps iu" "degrees ffv temps mtx iu" using Cons.prems(1) by (simp_all add: matrix_ok_def)
  have r: "result_ok ffv temps r" using Cons.prems(2) by simp
  from interfere_result_ok [OF st r assms(3,4), of v] obtain mtx1 iu1 where
    s: "interfere_result ffv v out (mtx, iu) r = Inr (mtx1, iu1)" "graph_inv temps mtx1" "same_but_edges iu iu1" "degrees ffv temps mtx1 iu1"
      "\<forall>a b. edge mtx1 a b \<longleftrightarrow> edge mtx a b \<or> (\<exists>y \<in> bitset_members out. {a, b} = {nat (vt_value r - int ffv), y} \<and>
         y \<noteq> nat (vt_value r - int ffv) \<and> int y \<noteq> v)" by blast
  have "matrix_ok ffv temps (mtx1, iu1)" using s(2,4) items_ok_same [OF s(3) st(2)] by (simp add: matrix_ok_def)
  from Cons.IH [OF this] Cons.prems(2) obtain mtx' iu' where
    t: "res_fold (interfere_result ffv v out) (mtx1, iu1) rs = Inr (mtx', iu')" "matrix_ok ffv temps (mtx', iu')" "same_but_edges iu1 iu'"
      "\<forall>a b. edge mtx' a b \<longleftrightarrow> edge mtx1 a b \<or> (\<exists>r \<in> set rs. \<exists>y \<in> bitset_members out.
         {a, b} = {nat (vt_value r - int ffv), y} \<and> y \<noteq> nat (vt_value r - int ffv) \<and> int y \<noteq> v)" by auto
  have "res_fold (interfere_result ffv v out) (mtx, iu) (r # rs) = Inr (mtx', iu')" using s(1) t(1) by simp
  moreover have "edge mtx' a b \<longleftrightarrow> edge mtx a b \<or> (\<exists>r \<in> set (r # rs). \<exists>y \<in> bitset_members out.
         {a, b} = {nat (vt_value r - int ffv), y} \<and> y \<noteq> nat (vt_value r - int ffv) \<and> int y \<noteq> v)" for a b
    unfolding t(4) [rule_format] s(5) [rule_format] by simp
  ultimately show ?case using t(2) same_but_edges_trans [OF s(3) t(3)] by blast
qed

lemma interfere_node_ok:
  assumes "matrix_ok ffv temps (mtx, iu)" "results_in ffv temps nd" "ffv + temps \<le> 2 ^ 32"
  shows "\<exists>mtx' iu'. interfere_node ffv (mtx, iu) nd = Inr (mtx', iu') \<and> matrix_ok ffv temps (mtx', iu') \<and> same_but_edges iu iu' \<and>
    (\<forall>a b. edge mtx' a b \<longleftrightarrow> edge mtx a b \<or> conflict_at ffv nd a b)"
proof -
  obtain rs where rs: "instr_results (instr_super (fn_instr nd)) = Inr rs" "\<forall>r \<in> set rs. result_ok ffv temps r"
    and out: "bitset_members (fn_out nd) \<subseteq> {..<temps}" using assms(2) by (auto simp: results_in_def)
  define v where "v = (case move_source (fn_instr nd) of Some s \<Rightarrow> s - int ffv | None \<Rightarrow> - 1)"
  have v: "int y \<noteq> v \<longleftrightarrow> move_source (fn_instr nd) \<noteq> Some (int y + int ffv)" for y
    by (auto simp: v_def split: option.splits)
  from interfere_results [OF assms(1) rs(2) out assms(3), of v] show ?thesis
    unfolding v by (auto simp: interfere_node_def rs(1) conflict_at_def v_def [symmetric] Let_def)
qed

lemma interfere_nodes:
  assumes "matrix_ok ffv temps (mtx, iu)" "\<forall>nd \<in> set nds. results_in ffv temps nd" "ffv + temps \<le> 2 ^ 32"
  shows "\<exists>mtx' iu'. res_fold (interfere_node ffv) (mtx, iu) nds = Inr (mtx', iu') \<and> matrix_ok ffv temps (mtx', iu') \<and>
    same_but_edges iu iu' \<and> (\<forall>a b. edge mtx' a b \<longleftrightarrow> edge mtx a b \<or> (\<exists>nd \<in> set nds. conflict_at ffv nd a b))"
  using assms(1,2)
proof (induction nds arbitrary: mtx iu)
  case (Cons nd nds)
  from interfere_node_ok [OF Cons.prems(1) _ assms(3), of nd] Cons.prems(2) obtain mtx1 iu1 where
    s: "interfere_node ffv (mtx, iu) nd = Inr (mtx1, iu1)" "matrix_ok ffv temps (mtx1, iu1)" "same_but_edges iu iu1"
      "\<forall>a b. edge mtx1 a b \<longleftrightarrow> edge mtx a b \<or> conflict_at ffv nd a b" by auto
  from Cons.IH [OF s(2)] Cons.prems(2) obtain mtx' iu' where
    t: "res_fold (interfere_node ffv) (mtx1, iu1) nds = Inr (mtx', iu')" "matrix_ok ffv temps (mtx', iu')" "same_but_edges iu1 iu'"
      "\<forall>a b. edge mtx' a b \<longleftrightarrow> edge mtx1 a b \<or> (\<exists>nd \<in> set nds. conflict_at ffv nd a b)" by auto
  then show ?case using s same_but_edges_trans [OF s(3) t(3)] by auto
qed auto

text \<open>The matrix holds exactly the conflicts, and every value the number of its neighbours.\<close>

lemma interference_ok:
  assumes "tribitmtx_alloc (int temps) = Inr mtx0" "items_ok ffv temps (fl_iu fl)" "\<forall>k < temps. value_edges (fl_iu fl) (k + ffv) = 0"
    "\<forall>nd \<in> set (nodes_of (fl_bbs fl)). results_in ffv temps nd" "ffv + temps \<le> 2 ^ 32"
  shows "\<exists>mtx iu. interference ffv mtx0 fl = Inr (mtx, fl\<lparr>fl_iu := iu\<rparr>) \<and> matrix_ok ffv temps (mtx, iu) \<and>
    same_but_edges (fl_iu fl) iu \<and> (\<forall>a b. edge mtx a b \<longleftrightarrow> conflict ffv (fl_bbs fl) a b)"
proof -
  note a = tribitmtx_alloc_ok [OF assms(1)]
  have "matrix_ok ffv temps (mtx0, fl_iu fl)"
    using a assms(2,3) by (simp add: matrix_ok_def graph_inv_def degrees_def neighbours_def)
  from interfere_nodes [OF this assms(4,5)] a(2) show ?thesis
    by (auto simp: interference_def conflict_def nodes_of_def)
qed

section \<open>Merging the rows of two temporaries\<close>

definition degrees_but :: "nat \<Rightarrow> nat \<Rightarrow> nat \<Rightarrow> bitset_words \<Rightarrow> ir_unit \<Rightarrow> bool" where
  "degrees_but k ffv temps mtx iu \<longleftrightarrow> (\<forall>x < temps. x \<noteq> k \<longrightarrow> value_edges iu (x + ffv) = int (card (neighbours mtx temps x)))"

lemma item_exists: "items_ok ffv temps iu \<Longrightarrow> x < temps \<Longrightarrow> \<exists>iv. value_item iu (x + ffv) = Inr iv"
  by (simp add: items_ok_def)

text \<open>One edge \<open>{k, i}\<close> becomes the edge \<open>{s, i}\<close>.\<close>

lemma merge_row_ok:
  assumes "graph_inv temps mtx" "items_ok ffv temps iu" "degrees_but k ffv temps mtx iu" "k < temps" "s < temps" "i < temps"
    "k \<noteq> s" "\<not> edge mtx k s"
  shows "\<exists>mtx' iu'. merge_row ffv (k + ffv) (s + ffv) (mtx, iu) i = Inr (mtx', iu') \<and> graph_inv temps mtx' \<and> same_but_edges iu iu' \<and>
    degrees_but k ffv temps mtx' iu' \<and> \<not> edge mtx' k s \<and>
    (\<forall>a b. edge mtx' a b \<longleftrightarrow> edge mtx a b \<and> {a, b} \<noteq> {k, i} \<or> {a, b} = {s, i} \<and> edge mtx k i)"
proof (cases "edge mtx k i")
  case False
  have ok: "tri_ok temps mtx" using assms(1) by (simp add: graph_inv_def)
  have "merge_row ffv (k + ffv) (s + ffv) (mtx, iu) i = Inr (mtx, iu)"
    using False tribitmtx_get_ok [OF ok assms(4,6)] by (simp add: merge_row_def)
  moreover have "edge mtx a b \<longleftrightarrow> edge mtx a b \<and> {a, b} \<noteq> {k, i} \<or> {a, b} = {s, i} \<and> edge mtx k i" for a b
    using False edge_sym [of mtx k i] by (auto simp: doubleton_eq_iff)
  ultimately show ?thesis using assms(1,3,8) by (intro exI [of _ mtx] exI [of _ iu]) auto
next
  case True
  have ok: "tri_ok temps mtx" and irr: "\<And>x. \<not> edge mtx x x" using assms(1) by (auto simp: graph_inv_def)
  have ik: "i \<noteq> k" "i \<noteq> s" using True assms(8) irr by auto
  obtain mtx1 where c: "tribitmtx_clr mtx (int k) (int i) = Inr mtx1" "length mtx1 = length mtx"
    and e1: "\<forall>u v. edge mtx1 u v \<longleftrightarrow> {u, v} \<noteq> {k, i} \<and> edge mtx u v" using tribitmtx_clr_ok [OF ok assms(4,6)] by blast
  have ok1: "tri_ok temps mtx1" using ok c(2) by (simp add: tri_ok_def)
  have get: "tribitmtx_get mtx (int k) (int i) = Inr True" using tribitmtx_get_ok [OF ok assms(4,6)] True by simp
  have get1: "tribitmtx_get mtx1 (int s) (int i) = Inr (edge mtx s i)"
    using tribitmtx_get_ok [OF ok1 assms(5,6)] e1 ik assms(7) by (auto simp: doubleton_eq_iff)
  note n1 = neighbours_remove [where temps = temps, OF e1 ik(1) [symmetric]]
  have ki: "k \<in> neighbours mtx temps i" using True edge_sym [of mtx k i] assms(4) by (simp add: neighbours_def)
  have d: "value_edges iu (x + ffv) = int (card (neighbours mtx temps x))" if "x < temps" "x \<noteq> k" for x
    using assms(3) that by (simp add: degrees_but_def)
  show ?thesis
  proof (cases "edge mtx s i")
    case both: True
    obtain iv where "value_item iu (i + ffv) = Inr iv" using item_exists [OF assms(2,6)] by blast
    from add_edges_ok [OF this, of "- 1"] obtain iu' where
      u: "add_edges (i + ffv) (- 1) iu = Inr iu'" "same_but_edges iu iu'" "value_edges iu' = (value_edges iu)(i + ffv := value_edges iu (i + ffv) - 1)" by auto
    have "merge_row ffv (k + ffv) (s + ffv) (mtx, iu) i = Inr (mtx1, iu')"
      using get c(1) get1 both u(1) by (simp add: merge_row_def)
    moreover have "degrees_but k ffv temps mtx1 iu'"
      unfolding degrees_but_def
    proof (intro allI impI)
      fix x assume x: "x < temps" "x \<noteq> k"
      have "0 < card (neighbours mtx temps i)" using ki by (auto simp: card_gt_0_iff)
      then show "value_edges iu' (x + ffv) = int (card (neighbours mtx1 temps x))"
        using d [OF x] x ki by (cases "x = i") (simp_all add: u(3) n1 card_Diff_singleton of_nat_diff Suc_leI)
    qed
    moreover have "edge mtx1 a b \<longleftrightarrow> edge mtx a b \<and> {a, b} \<noteq> {k, i} \<or> {a, b} = {s, i} \<and> edge mtx k i" for a b
      using e1 both True edge_sym [of mtx s i] ik assms(7) by (auto simp: doubleton_eq_iff)
    ultimately show ?thesis using u(2) c(2) assms(1,8) e1 by (intro exI [of _ mtx1] exI [of _ iu']) (auto simp: graph_inv_def tri_ok_def)
  next
    case False
    obtain mtx2 where st: "tribitmtx_set mtx1 (int s) (int i) = Inr mtx2" "length mtx2 = length mtx1"
      and e2: "\<forall>u v. edge mtx2 u v \<longleftrightarrow> {u, v} = {s, i} \<or> edge mtx1 u v" using tribitmtx_set_ok [OF ok1 assms(5,6)] by blast
    obtain iv where "value_item iu (s + ffv) = Inr iv" using item_exists [OF assms(2,5)] by blast
    from add_edges_ok [OF this, of 1] obtain iu' where
      u: "add_edges (s + ffv) 1 iu = Inr iu'" "same_but_edges iu iu'" "value_edges iu' = (value_edges iu)(s + ffv := value_edges iu (s + ffv) + 1)" by auto
    note n2 = neighbours_insert [OF e2 assms(5,6) ik(2) [symmetric]]
    have "merge_row ffv (k + ffv) (s + ffv) (mtx, iu) i = Inr (mtx2, iu')"
      using get c(1) get1 False st(1) u(1) by (simp add: merge_row_def)
    moreover have "degrees_but k ffv temps mtx2 iu'"
      unfolding degrees_but_def
    proof (intro allI impI)
      fix x assume x: "x < temps" "x \<noteq> k"
      have new: "i \<notin> neighbours mtx temps s" "s \<notin> neighbours mtx temps i"
        using False edge_sym [of mtx s i] by (auto simp: neighbours_def)
      have sk: "neighbours mtx1 temps s = neighbours mtx temps s" using n1(3) [of s] ik assms(7) by simp
      have "0 < card (neighbours mtx temps i)" using ki by (auto simp: card_gt_0_iff)
      then have ci: "card (insert s (neighbours mtx temps i - {k})) = card (neighbours mtx temps i)"
        using ki new by (simp add: card_Diff_singleton)
      consider "x = i" | "x = s" | "x \<noteq> i" "x \<noteq> s" by blast
      then show "value_edges iu' (x + ffv) = int (card (neighbours mtx2 temps x))"
      proof cases
        case 1
        then show ?thesis using d [OF x] ik by (simp add: u(3) n2(2) n1(2) ci)
      next
        case 2
        then show ?thesis using d [OF x] new by (simp add: u(3) n2(1) sk)
      next
        case 3
        then show ?thesis using d [OF x] x by (simp add: u(3) n2(3) n1(3))
      qed
    qed
    moreover have "edge mtx2 a b \<longleftrightarrow> edge mtx a b \<and> {a, b} \<noteq> {k, i} \<or> {a, b} = {s, i} \<and> edge mtx k i" for a b
      using e1 e2 True by auto
    ultimately show ?thesis using u(2) c(2) st(2) assms(1,7,8) e1 e2 ik
      by (intro exI [of _ mtx2] exI [of _ iu']) (auto simp: graph_inv_def tri_ok_def doubleton_eq_iff)
  qed
qed

lemma merge_row_logic:
  assumes "\<And>i. K x \<Longrightarrow> Q x \<Longrightarrow> \<not> P i"
  shows "((E \<and> \<not> P x \<or> Q x \<and> K x) \<and> (\<forall>i \<in> S. \<not> P i) \<or> (\<exists>i \<in> S. Q i \<and> K i \<and> i \<noteq> x)) =
    (E \<and> \<not> P x \<and> (\<forall>i \<in> S. \<not> P i) \<or> Q x \<and> K x \<or> (\<exists>i \<in> S. Q i \<and> K i))"
  using assms by blast

lemma merge_rows:
  assumes "graph_inv temps mtx" "items_ok ffv temps iu" "degrees_but k ffv temps mtx iu" "k < temps" "s < temps" "set xs \<subseteq> {..<temps}"
    "k \<noteq> s" "\<not> edge mtx k s"
  shows "\<exists>mtx' iu'. res_fold (merge_row ffv (k + ffv) (s + ffv)) (mtx, iu) xs = Inr (mtx', iu') \<and> graph_inv temps mtx' \<and> same_but_edges iu iu' \<and>
    degrees_but k ffv temps mtx' iu' \<and>
    (\<forall>a b. edge mtx' a b \<longleftrightarrow> edge mtx a b \<and> (\<forall>i \<in> set xs. {a, b} \<noteq> {k, i}) \<or> (\<exists>i \<in> set xs. {a, b} = {s, i} \<and> edge mtx k i))"
  using assms
proof (induction xs arbitrary: mtx iu)
  case (Cons x xs)
  have x: "x < temps" using Cons.prems(6) by simp
  from merge_row_ok [OF Cons.prems(1-5) x Cons.prems(7,8)] obtain mtx1 iu1 where
    s: "merge_row ffv (k + ffv) (s + ffv) (mtx, iu) x = Inr (mtx1, iu1)" "graph_inv temps mtx1" "same_but_edges iu iu1"
      "degrees_but k ffv temps mtx1 iu1" "\<not> edge mtx1 k s"
      "\<forall>a b. edge mtx1 a b \<longleftrightarrow> edge mtx a b \<and> {a, b} \<noteq> {k, x} \<or> {a, b} = {s, x} \<and> edge mtx k x" by blast
  from Cons.IH [OF s(2) items_ok_same [OF s(3) Cons.prems(2)] s(4) Cons.prems(4,5) _ Cons.prems(7) s(5)] Cons.prems(6) obtain mtx' iu' where
    t: "res_fold (merge_row ffv (k + ffv) (s + ffv)) (mtx1, iu1) xs = Inr (mtx', iu')" "graph_inv temps mtx'" "same_but_edges iu1 iu'"
      "degrees_but k ffv temps mtx' iu'"
      "\<forall>a b. edge mtx' a b \<longleftrightarrow> edge mtx1 a b \<and> (\<forall>i \<in> set xs. {a, b} \<noteq> {k, i}) \<or> (\<exists>i \<in> set xs. {a, b} = {s, i} \<and> edge mtx1 k i)" by auto
  have irr: "\<not> edge mtx k k" using Cons.prems(1) by (simp add: graph_inv_def)
  have k1: "edge mtx1 k i \<longleftrightarrow> edge mtx k i \<and> i \<noteq> x" for i
    using s(6) irr Cons.prems(7) by (auto simp: doubleton_eq_iff)
  have sx: "{s, x} \<noteq> {k, i}" if "edge mtx k x" for i using that irr Cons.prems(7) by (auto simp: doubleton_eq_iff)
  have "edge mtx' a b \<longleftrightarrow> edge mtx a b \<and> (\<forall>i \<in> set (x # xs). {a, b} \<noteq> {k, i}) \<or> (\<exists>i \<in> set (x # xs). {a, b} = {s, i} \<and> edge mtx k i)" for a b
    unfolding t(5) [rule_format] unfolding k1 unfolding s(6) [rule_format] unfolding list.set(2) ball_simps bex_simps
    by (rule merge_row_logic) (use sx in metis)
  then show ?case using s(1) t(1,2,4) same_but_edges_trans [OF s(3) t(3)]
    by (intro exI [of _ mtx'] exI [of _ iu']) simp
qed simp

end
