(* ===== verification/Vmir_Merge_Flow.thy ===== *)
theory Vmir_Merge_Flow
  imports Vmir_Merge
begin

section \<open>Renaming the instructions linked to a value\<close>

definition rename_node :: "(int \<Rightarrow> int) \<Rightarrow> flow_node \<Rightarrow> flow_node" where
  "rename_node f nd = nd\<lparr>fn_instr := map_values f (fn_instr nd)\<rparr>"

definition map_nodes :: "(flow_node \<Rightarrow> flow_node) \<Rightarrow> flow_bb list \<Rightarrow> flow_bb list" where
  "map_nodes g = map (\<lambda>bb. bb\<lparr>fb_nodes := map g (fb_nodes bb)\<rparr>)"

definition rename_some :: "(int \<Rightarrow> int) \<Rightarrow> nat set \<Rightarrow> flow_node \<Rightarrow> flow_node" where
  "rename_some f ids nd = (if fn_id nd \<in> ids then rename_node f nd else nd)"

lemma rename_node_fields [simp]: "fn_id (rename_node f nd) = fn_id nd" "fn_instr (rename_node f nd) = map_values f (fn_instr nd)"
  "fn_out (rename_node f nd) = fn_out nd" "fn_succ (rename_node f nd) = fn_succ nd" "fn_num_succ (rename_node f nd) = fn_num_succ nd"
  by (simp_all add: rename_node_def)

lemma rename_some_id [simp]: "fn_id (rename_some f ids nd) = fn_id nd"
  by (simp add: rename_some_def)

lemma nodes_of_map [simp]: "nodes_of (map_nodes g bbs) = map g (nodes_of bbs)"
  by (simp add: map_nodes_def map_concat comp_def nodes_of_def)

lemma map_nodes_comp: "map_nodes g (map_nodes h bbs) = map_nodes (g \<circ> h) bbs"
  by (simp add: map_nodes_def comp_def)

lemma map_nodes_cong: "(\<And>nd. nd \<in> set (nodes_of bbs) \<Longrightarrow> g nd = h nd) \<Longrightarrow> map_nodes g bbs = map_nodes h bbs"
  by (fastforce simp: map_nodes_def nodes_of_def intro!: flow_bb.fold_congs)

lemma update_nodes_map: "update_nodes (map g) fl = fl\<lparr>fl_bbs := map_nodes g (fl_bbs fl)\<rparr>"
  by (simp add: update_nodes_def map_nodes_def)

text \<open>An instruction has a defined set of results and operands once the classes that are lowered are gone.\<close>

definition instr_ok :: "ir_instr \<Rightarrow> bool" where
  "instr_ok ii \<longleftrightarrow> (\<exists>rs vs. instr_results (instr_super ii) = Inr rs \<and> gen_values ii = Inr vs)"

definition mentions :: "ir_instr \<Rightarrow> int set" where
  "mentions ii = (case (instr_results (instr_super ii), gen_values ii) of (Inr rs, Inr vs) \<Rightarrow> vt_value ` (set rs \<union> set vs) | _ \<Rightarrow> {})"

lemma mentions_map:
  assumes "renaming f" "instr_ok ii"
  shows "instr_ok (map_values f ii)" "mentions (map_values f ii) = f ` mentions ii"
proof -
  obtain rs vs where r: "instr_results (instr_super ii) = Inr rs" "gen_values ii = Inr vs" using assms(2) by (auto simp: instr_ok_def)
  have s: "instr_super (map_values f ii) = map_super f (instr_super ii)" using instr_super_map [OF assms(1)] r(2) by blast
  show "instr_ok (map_values f ii)" "mentions (map_values f ii) = f ` mentions ii"
    unfolding instr_ok_def mentions_def s instr_results_map [OF assms(1)] gen_values_map [OF assms(1) r(2)] r
    by (simp_all add: image_Un image_image)
qed

lemma map_values_fixed:
  assumes "renaming f" "instr_ok ii" "\<forall>v \<in> mentions ii. f v = v"
  shows "map_values f ii = ii"
  using assms by (auto simp: instr_ok_def mentions_def intro!: map_values_idem)

definition links_live :: "flow \<Rightarrow> bool" where
  "links_live fl \<longleftrightarrow> (\<forall>(v, i, out) \<in> set (fl_binds fl). i \<in> fn_id ` set (nodes_of (fl_bbs fl)))"

definition instrs_ok :: "flow_bb list \<Rightarrow> bool" where
  "instrs_ok bbs \<longleftrightarrow> distinct (map fn_id (nodes_of bbs)) \<and> (\<forall>nd \<in> set (nodes_of bbs). instr_ok (fn_instr nd))"

lemma find_node_ok:
  assumes "distinct (map fn_id (nodes_of (fl_bbs fl)))" "nd \<in> set (nodes_of (fl_bbs fl))"
  shows "find_node fl (fn_id nd) = Inr nd"
proof -
  have "List.find (\<lambda>x. fn_id x = fn_id nd) xs = Some nd" if "distinct (map fn_id xs)" "nd \<in> set xs" for xs
    using that by (induction xs) auto
  then show ?thesis using assms by (simp add: find_node_def nodes_of_def [symmetric] deref_def)
qed

lemma set_instr_rename:
  assumes "distinct (map fn_id (nodes_of (fl_bbs fl)))" "nd \<in> set (nodes_of (fl_bbs fl))"
  shows "set_instr (fn_id nd) (map_values f (fn_instr nd)) fl = fl\<lparr>fl_bbs := map_nodes (rename_some f {fn_id nd}) (fl_bbs fl)\<rparr>"
proof -
  have "x = nd" if "x \<in> set (nodes_of (fl_bbs fl))" "fn_id x = fn_id nd" for x
    using that assms by (auto simp: distinct_map inj_on_def)
  then have "map_nodes (\<lambda>x. if fn_id x = fn_id nd then x\<lparr>fn_instr := map_values f (fn_instr nd)\<rparr> else x) (fl_bbs fl) =
      map_nodes (rename_some f {fn_id nd}) (fl_bbs fl)"
    by (intro map_nodes_cong) (auto simp: rename_some_def rename_node_def)
  then show ?thesis by (simp add: set_instr_def update_nodes_map)
qed

definition swap :: "nat \<Rightarrow> nat \<Rightarrow> int \<Rightarrow> int" where
  "swap k s = (\<lambda>v. if v = int k then int s else v)"

lemma renaming_swap': "renaming (swap k s)"
  unfolding swap_def by (rule renaming_swap) simp_all

lemma rename_links:
  assumes "filter (\<lambda>(v, _). v = k) (fl_binds fl) = links" "k \<noteq> s" "links_live fl" "instrs_ok (fl_bbs fl)"
  shows "\<exists>binds. res_fold (rename_link k s) fl links =
      Inr (fl\<lparr>fl_bbs := map_nodes (rename_some (swap k s) ((\<lambda>(_, i, _). i) ` set links)) (fl_bbs fl), fl_binds := binds\<rparr>) \<and>
    set binds = {l \<in> set (fl_binds fl). fst l \<noteq> k} \<union> {(s, i, out) |i out. (k, i, out) \<in> set links}"
  using assms
proof (induction links arbitrary: fl)
  case Nil
  then have "\<forall>l \<in> set (fl_binds fl). fst l \<noteq> k" by (auto simp: filter_empty_conv)
  moreover have "map_nodes (rename_some (swap k s) {}) (fl_bbs fl) = fl_bbs fl" by (simp add: map_nodes_def rename_some_def [abs_def])
  ultimately show ?case by (intro exI [of _ "fl_binds fl"]) auto
next
  case (Cons l ls)
  have "l \<in> set (filter (\<lambda>(v, _). v = k) (fl_binds fl))" unfolding Cons.prems(1) by simp
  then obtain i out where l: "l = (k, i, out)" "l \<in> set (fl_binds fl)" by auto
  then obtain nd where nd: "nd \<in> set (nodes_of (fl_bbs fl))" "fn_id nd = i" using Cons.prems(3) by (force simp: links_live_def)
  have dist: "distinct (map fn_id (nodes_of (fl_bbs fl)))" and ok: "\<forall>x \<in> set (nodes_of (fl_bbs fl)). instr_ok (fn_instr x)"
    using Cons.prems(4) by (simp_all add: instrs_ok_def)
  obtain vs where vs: "gen_values (fn_instr nd) = Inr vs" using ok nd(1) by (auto simp: instr_ok_def)
  define fl1 where "fl1 = fl\<lparr>fl_bbs := map_nodes (rename_some (swap k s) {i}) (fl_bbs fl), fl_binds := (s, i, out) # remove1 l (fl_binds fl)\<rparr>"
  have step: "rename_link k s fl l = Inr fl1"
    using find_node_ok [OF dist nd(1)] instr_replace_values_map [OF vs, of "int k" "int s"] set_instr_rename [OF dist nd(1), of "swap k s"]
    by (simp add: rename_link_def l(1) nd(2) fl1_def swap_def)
  have rem: "filter (\<lambda>(v, _). v = k) (remove1 l xs) = remove1 l (filter (\<lambda>(v, _). v = k) xs)" for xs :: "(nat \<times> nat \<times> bool) list"
    by (induction xs) (auto simp: l(1))
  have "filter (\<lambda>(v, _). v = k) (fl_binds fl1) = ls" using Cons.prems(1,2) rem by (simp add: fl1_def)
  moreover have "links_live fl1"
    using Cons.prems(3) nd by (auto simp: links_live_def fl1_def image_iff dest: notin_set_remove1 set_remove1_subset [THEN subsetD])
  moreover have "instrs_ok (fl_bbs fl1)"
    unfolding instrs_ok_def
  proof
    show "distinct (map fn_id (nodes_of (fl_bbs fl1)))" using dist by (simp add: fl1_def comp_def)
    show "\<forall>x \<in> set (nodes_of (fl_bbs fl1)). instr_ok (fn_instr x)"
      using ok mentions_map(1) [OF renaming_swap'] by (auto simp: fl1_def rename_some_def)
  qed
  ultimately obtain binds where b: "res_fold (rename_link k s) fl1 ls =
      Inr (fl1\<lparr>fl_bbs := map_nodes (rename_some (swap k s) ((\<lambda>(_, i, _). i) ` set ls)) (fl_bbs fl1), fl_binds := binds\<rparr>)"
    "set binds = {l \<in> set (fl_binds fl1). fst l \<noteq> k} \<union> {(s, i, out) |i out. (k, i, out) \<in> set ls}"
    using Cons.IH [OF _ Cons.prems(2)] by blast
  have idem: "rename_node (swap k s) (rename_node (swap k s) x) = rename_node (swap k s) x" for x
  proof -
    have "swap k s \<circ> swap k s = swap k s" using Cons.prems(2) by (auto simp: swap_def)
    then show ?thesis by (simp add: rename_node_def map_values_comp renaming_swap')
  qed
  have "map_nodes (rename_some (swap k s) ((\<lambda>(_, i, _). i) ` set ls)) (fl_bbs fl1) = map_nodes (rename_some (swap k s) ((\<lambda>(_, i, _). i) ` set (l # ls))) (fl_bbs fl)"
    unfolding fl1_def by (simp add: map_nodes_comp) (rule map_nodes_cong, auto simp: rename_some_def l(1) idem)
  moreover have "{l \<in> set (fl_binds fl1). fst l \<noteq> k} = insert (s, i, out) {l \<in> set (fl_binds fl). fst l \<noteq> k}"
    using Cons.prems(2) set_remove1_subset [of l "fl_binds fl"] in_set_remove1 [of _ l "fl_binds fl"] by (auto simp: fl1_def l(1))
  ultimately show ?case using step b by (intro exI [of _ binds]) (auto simp: l(1) fl1_def)
qed

text \<open>Links are complete when every temporary an instruction mentions is linked to it.\<close>

definition links_complete :: "(nat \<Rightarrow> bool) \<Rightarrow> flow \<Rightarrow> bool" where
  "links_complete temp fl \<longleftrightarrow> (\<forall>nd \<in> set (nodes_of (fl_bbs fl)). \<forall>v. temp v \<and> int v \<in> mentions (fn_instr nd) \<longrightarrow>
     (\<exists>out. (v, fn_id nd, out) \<in> set (fl_binds fl)))"

lemma rename_value_ok:
  assumes "k \<noteq> s" "links_live fl" "instrs_ok (fl_bbs fl)" "links_complete temp fl" "temp k" "temp s"
  shows "\<exists>binds. rename_value k s fl = Inr (fl\<lparr>fl_bbs := map_nodes (rename_node (swap k s)) (fl_bbs fl), fl_binds := binds\<rparr>) \<and>
    links_live (fl\<lparr>fl_bbs := map_nodes (rename_node (swap k s)) (fl_bbs fl), fl_binds := binds\<rparr>) \<and>
    links_complete (\<lambda>v. temp v \<and> v \<noteq> k) (fl\<lparr>fl_bbs := map_nodes (rename_node (swap k s)) (fl_bbs fl), fl_binds := binds\<rparr>)"
proof -
  let ?L = "filter (\<lambda>(v, _). v = k) (fl_binds fl)"
  obtain binds where b: "res_fold (rename_link k s) fl ?L =
      Inr (fl\<lparr>fl_bbs := map_nodes (rename_some (swap k s) ((\<lambda>(_, i, _). i) ` set ?L)) (fl_bbs fl), fl_binds := binds\<rparr>)"
    "set binds = {l \<in> set (fl_binds fl). fst l \<noteq> k} \<union> {(s, i, out) |i out. (k, i, out) \<in> set ?L}"
    using rename_links [OF refl assms(1-3)] by blast
  have same: "rename_some (swap k s) ((\<lambda>(_, i, _). i) ` set ?L) nd = rename_node (swap k s) nd" if "nd \<in> set (nodes_of (fl_bbs fl))" for nd
  proof (cases "fn_id nd \<in> (\<lambda>(_, i, _). i) ` set ?L")
    case False
    then have "int k \<notin> mentions (fn_instr nd)" using assms(4,5) that by (force simp: links_complete_def)
    then have "map_values (swap k s) (fn_instr nd) = fn_instr nd"
      using assms(3) that by (intro map_values_fixed renaming_swap') (auto simp: instrs_ok_def swap_def)
    then show ?thesis using False by (simp add: rename_some_def rename_node_def)
  qed (simp add: rename_some_def)
  have bbs: "map_nodes (rename_some (swap k s) ((\<lambda>(_, i, _). i) ` set ?L)) (fl_bbs fl) = map_nodes (rename_node (swap k s)) (fl_bbs fl)"
    by (rule map_nodes_cong) (rule same)
  let ?fl = "fl\<lparr>fl_bbs := map_nodes (rename_node (swap k s)) (fl_bbs fl), fl_binds := binds\<rparr>"
  have "links_live ?fl" using assms(2) by (fastforce simp: links_live_def b(2) image_iff)
  moreover have "links_complete (\<lambda>v. temp v \<and> v \<noteq> k) ?fl"
    unfolding links_complete_def
  proof (intro ballI allI impI)
    fix nd v assume nd: "nd \<in> set (nodes_of (fl_bbs ?fl))" and v: "(temp v \<and> v \<noteq> k) \<and> int v \<in> mentions (fn_instr nd)"
    then obtain nd0 where nd0: "nd0 \<in> set (nodes_of (fl_bbs fl))" "nd = rename_node (swap k s) nd0" by auto
    have "mentions (fn_instr nd) = swap k s ` mentions (fn_instr nd0)"
      using assms(3) nd0 mentions_map(2) [OF renaming_swap'] by (auto simp: instrs_ok_def)
    then obtain v0 where v0: "v0 \<in> mentions (fn_instr nd0)" "int v = swap k s v0" using v by auto
    show "\<exists>out. (v, fn_id nd, out) \<in> set (fl_binds ?fl)"
    proof (cases "v0 = int k")
      case True
      then obtain out where "(k, fn_id nd0, out) \<in> set (fl_binds fl)" using assms(4,5) nd0(1) v0(1) unfolding links_complete_def by blast
      then show ?thesis using v0(2) True nd0(2) by (auto simp: b(2) swap_def)
    next
      case False
      then have "v0 = int v" using v0(2) by (simp add: swap_def)
      then obtain out where "(v, fn_id nd0, out) \<in> set (fl_binds fl)" using assms(4) nd0(1) v0(1) v by (auto simp: links_complete_def)
      then show ?thesis using v nd0(2) by (auto simp: b(2))
    qed
  qed
  ultimately show ?thesis using b(1) bbs by (intro exI [of _ binds]) (simp add: rename_value_def)
qed

end
