(* ===== verification/Vmir_Merge_Loop.thy ===== *)
theory Vmir_Merge_Loop
  imports Vmir_Merge_Flow
begin

section \<open>One merge\<close>

definition temp_of :: "ir_unit \<Rightarrow> nat \<Rightarrow> bool" where
  "temp_of iu v \<longleftrightarrow> (\<exists>iv. value_item iu v = Inr iv \<and> iv_class iv = Vc_temporary)"

text \<open>\<open>iu'\<close> is \<open>iu\<close> with the values of \<open>dead\<close> marked, up to the numbers of neighbours.\<close>

definition no_edges :: "ir_value result \<Rightarrow> ir_value result" where
  "no_edges r = map_sum id (\<lambda>iv. iv\<lparr>iv_edges := 0\<rparr>) r"

definition mark_dead :: "ir_value result \<Rightarrow> ir_value result" where
  "mark_dead r = map_sum id (\<lambda>iv. iv\<lparr>iv_class := Vc_dead\<rparr>) r"

definition killed :: "(nat \<Rightarrow> bool) \<Rightarrow> ir_unit \<Rightarrow> ir_unit \<Rightarrow> bool" where
  "killed dead iu iu' \<longleftrightarrow> iu_ts iu' = iu_ts iu \<and> length (iu_values iu') = length (iu_values iu) \<and>
     (\<forall>v. no_edges (value_item iu' v) = (if dead v then mark_dead (no_edges (value_item iu v)) else no_edges (value_item iu v)))"

lemma mark_dead_idem [simp]: "mark_dead (mark_dead r) = mark_dead r"
  by (cases r) (simp_all add: mark_dead_def)

lemma killed_same: "same_but_edges iu iu' \<longleftrightarrow> killed (\<lambda>_. False) iu iu'"
  by (simp add: same_but_edges_def killed_def no_edges_def)

lemma killed_trans: "killed d iu iu1 \<Longrightarrow> killed d' iu1 iu2 \<Longrightarrow> killed (\<lambda>v. d v \<or> d' v) iu iu2"
  by (auto simp: killed_def)

lemma killed_item:
  assumes "killed d iu iu'" "value_item iu v = Inr iv"
  shows "\<exists>n. value_item iu' v = Inr (if d v then iv\<lparr>iv_edges := n, iv_class := Vc_dead\<rparr> else iv\<lparr>iv_edges := n\<rparr>)"
proof -
  have n: "no_edges (value_item iu' v) = (if d v then Inr (iv\<lparr>iv_edges := 0, iv_class := Vc_dead\<rparr>) else Inr (iv\<lparr>iv_edges := 0\<rparr>))"
    using assms by (simp add: killed_def no_edges_def mark_dead_def)
  then obtain iv' where iv': "value_item iu' v = Inr iv'" "iv'\<lparr>iv_edges := 0\<rparr> = (if d v then iv\<lparr>iv_edges := 0, iv_class := Vc_dead\<rparr> else iv\<lparr>iv_edges := 0\<rparr>)"
    by (cases "value_item iu' v") (auto simp: no_edges_def split: if_splits)
  then have "iv' = (if d v then iv\<lparr>iv_edges := iv_edges iv', iv_class := Vc_dead\<rparr> else iv\<lparr>iv_edges := iv_edges iv'\<rparr>)"
    by (cases iv; cases iv') (simp split: if_splits)
  then show ?thesis using iv'(1) by metis
qed

lemma killed_error: "killed d iu iu' \<Longrightarrow> value_item iu v = Inl e \<Longrightarrow> value_item iu' v = Inl e"
proof -
  assume "killed d iu iu'" "value_item iu v = Inl e"
  then have "no_edges (value_item iu' v) = Inl e" by (simp add: killed_def no_edges_def mark_dead_def)
  then show ?thesis by (cases "value_item iu' v") (simp_all add: no_edges_def)
qed

lemma killed_item_iff: "killed d iu iu' \<Longrightarrow> (\<exists>iv. value_item iu' v = Inr iv) \<longleftrightarrow> (\<exists>iv. value_item iu v = Inr iv)"
  using killed_item killed_error by (cases "value_item iu v") fastforce+

lemma killed_temp:
  assumes "killed d iu iu'"
  shows "temp_of iu' v \<longleftrightarrow> temp_of iu v \<and> \<not> d v"
proof (cases "value_item iu v")
  case (Inl e)
  then show ?thesis using killed_error [OF assms Inl] by (simp add: temp_of_def)
next
  case (Inr iv)
  then show ?thesis using killed_item [OF assms Inr] by (cases "d v") (auto simp: temp_of_def)
qed

lemma items_ok_killed: "killed d iu iu' \<Longrightarrow> items_ok ffv temps iu \<Longrightarrow> items_ok ffv temps iu'"
  by (simp add: items_ok_def killed_item_iff)

definition linked :: "flow \<Rightarrow> bool" where
  "linked fl \<longleftrightarrow> links_live fl \<and> instrs_ok (fl_bbs fl) \<and> links_complete (temp_of (fl_iu fl)) fl"

lemma instrs_ok_rename: "renaming f \<Longrightarrow> instrs_ok bbs \<Longrightarrow> instrs_ok (map_nodes (rename_node f) bbs)"
  using mentions_map(1) by (auto simp: instrs_ok_def comp_def)

lemma set_dead_ok:
  assumes "value_item iu k = Inr iv"
  shows "killed (\<lambda>v. v = k) iu (set_value iu k (iv\<lparr>iv_edges := 0, iv_class := Vc_dead\<rparr>))"
    "value_edges (set_value iu k (iv\<lparr>iv_edges := 0, iv_class := Vc_dead\<rparr>)) = (value_edges iu)(k := 0)"
  by (auto simp: killed_def value_item_set [OF assms] assms no_edges_def mark_dead_def value_edges_def fun_eq_iff)
    (simp_all add: set_value_def)

lemma merge_values_ok:
  assumes "matrix_ok ffv temps (mtx, fl_iu fl)" "linked fl" "temp_of (fl_iu fl) (k + ffv)" "temp_of (fl_iu fl) (s + ffv)"
    "k < temps" "s < temps" "k \<noteq> s" "\<not> edge mtx k s"
  shows "\<exists>mtx' iu' binds. let fl' = fl\<lparr>fl_iu := iu', fl_bbs := map_nodes (rename_node (swap (k + ffv) (s + ffv))) (fl_bbs fl), fl_binds := binds\<rparr> in
    merge_values ffv temps (k + ffv) (s + ffv) (mtx, fl) = Inr (mtx', fl') \<and>
    matrix_ok ffv temps (mtx', iu') \<and> linked fl' \<and> killed (\<lambda>v. v = k + ffv) (fl_iu fl) iu' \<and>
    (\<forall>a < temps. \<forall>b < temps. edge mtx a b \<longrightarrow> edge mtx' (if a = k then s else a) (if b = k then s else b))"
proof -
  let ?f = "swap (k + ffv) (s + ffv)"
  have lk: "links_live fl" "instrs_ok (fl_bbs fl)" "links_complete (temp_of (fl_iu fl)) fl" using assms(2) by (simp_all add: linked_def)
  have g: "graph_inv temps mtx" "items_ok ffv temps (fl_iu fl)" "degrees ffv temps mtx (fl_iu fl)" using assms(1) by (simp_all add: matrix_ok_def)
  obtain binds where r: "rename_value (k + ffv) (s + ffv) fl = Inr (fl\<lparr>fl_bbs := map_nodes (rename_node ?f) (fl_bbs fl), fl_binds := binds\<rparr>)"
    "links_live (fl\<lparr>fl_bbs := map_nodes (rename_node ?f) (fl_bbs fl), fl_binds := binds\<rparr>)"
    "links_complete (\<lambda>v. temp_of (fl_iu fl) v \<and> v \<noteq> k + ffv) (fl\<lparr>fl_bbs := map_nodes (rename_node ?f) (fl_bbs fl), fl_binds := binds\<rparr>)"
    using rename_value_ok [OF _ lk assms(3,4)] assms(7) by auto
  have "degrees_but k ffv temps mtx (fl_iu fl)" using g(3) by (simp add: degrees_def degrees_but_def)
  from merge_rows [OF g(1,2) this assms(5,6) _ assms(7,8), of "[0..<temps]"] obtain mtx' iu1 where
    m: "res_fold (merge_row ffv (k + ffv) (s + ffv)) (mtx, fl_iu fl) [0..<temps] = Inr (mtx', iu1)" "graph_inv temps mtx'"
      "same_but_edges (fl_iu fl) iu1" "degrees_but k ffv temps mtx' iu1"
      "\<forall>a b. edge mtx' a b \<longleftrightarrow> edge mtx a b \<and> (\<forall>i \<in> set [0..<temps]. {a, b} \<noteq> {k, i}) \<or> (\<exists>i \<in> set [0..<temps]. {a, b} = {s, i} \<and> edge mtx k i)"
    by (metis atLeastLessThan_iff lessThan_iff set_upt subsetI)
  obtain iv where iv: "value_item iu1 (k + ffv) = Inr iv" using item_exists [OF items_ok_same [OF m(3) g(2)] assms(5)] by blast
  let ?iu = "set_value iu1 (k + ffv) (iv\<lparr>iv_edges := 0, iv_class := Vc_dead\<rparr>)"
  note sd = set_dead_ok [OF iv]
  have kl: "killed (\<lambda>v. v = k + ffv) (fl_iu fl) ?iu" using killed_trans [OF m(3) [unfolded killed_same] sd(1)] by simp
  have e: "edge mtx' a b \<longleftrightarrow> edge mtx a b \<and> a \<noteq> k \<and> b \<noteq> k \<or> a = s \<and> edge mtx k b \<or> b = s \<and> edge mtx k a" if "a < temps" "b < temps" for a b
    unfolding m(5) [rule_format] using that by (auto simp: doubleton_eq_iff)
  have irr: "\<not> edge mtx x x" for x using g(1) by (simp add: graph_inv_def)
  have "neighbours mtx' temps k = {}" using e irr assms(5,7,8) by (auto simp: neighbours_def)
  then have "degrees ffv temps mtx' ?iu" using m(4) by (auto simp: degrees_def degrees_but_def sd(2))
  then have mo: "matrix_ok ffv temps (mtx', ?iu)" using m(2) items_ok_killed [OF kl g(2)] by (simp add: matrix_ok_def)
  have keep: "edge mtx' (if a = k then s else a) (if b = k then s else b)" if "a < temps" "b < temps" "edge mtx a b" for a b
    using e [of "if a = k then s else a" "if b = k then s else b"] that assms(6) irr edge_sym [of mtx a b] assms(7) by auto
  let ?fl = "fl\<lparr>fl_iu := ?iu, fl_bbs := map_nodes (rename_node ?f) (fl_bbs fl), fl_binds := binds\<rparr>"
  have "links_complete (temp_of ?iu) ?fl" using r(3) killed_temp [OF kl] by (simp add: links_complete_def)
  moreover have "links_live ?fl" using r(2) by (simp add: links_live_def)
  ultimately have "linked ?fl" using instrs_ok_rename [OF renaming_swap' lk(2)] by (simp add: linked_def)
  moreover have "merge_values ffv temps (k + ffv) (s + ffv) (mtx, fl) = Inr (mtx', ?fl)"
    using r(1) m(1) iv by (simp add: merge_values_def)
  ultimately show ?thesis using mo kl keep unfolding Let_def by blast
qed

text \<open>Removing the instruction whose turn it is.\<close>

definition drop_nodes :: "nat set \<Rightarrow> flow_bb list \<Rightarrow> flow_bb list" where
  "drop_nodes ids = map (\<lambda>bb. bb\<lparr>fb_nodes := filter (\<lambda>nd. fn_id nd \<notin> ids) (fb_nodes bb)\<rparr>)"

lemma nodes_of_drop [simp]: "nodes_of (drop_nodes ids bbs) = filter (\<lambda>nd. fn_id nd \<notin> ids) (nodes_of bbs)"
  by (simp add: nodes_of_def drop_nodes_def filter_concat comp_def)

lemma drop_drop: "drop_nodes a (drop_nodes b bbs) = drop_nodes (a \<union> b) bbs"
  by (simp add: drop_nodes_def comp_def conj_commute)

lemma drop_map: "(\<And>nd. fn_id (g nd) = fn_id nd) \<Longrightarrow> drop_nodes a (map_nodes g bbs) = map_nodes g (drop_nodes a bbs)"
  by (simp add: drop_nodes_def map_nodes_def filter_map comp_def)

lemma instr_destroy_ok:
  assumes "linked fl"
  shows "\<exists>binds. instr_destroy i fl = fl\<lparr>fl_bbs := drop_nodes {i} (fl_bbs fl), fl_binds := binds\<rparr> \<and>
    linked (fl\<lparr>fl_bbs := drop_nodes {i} (fl_bbs fl), fl_binds := binds\<rparr>)"
proof -
  have "instr_destroy i fl = fl\<lparr>fl_bbs := drop_nodes {i} (fl_bbs fl), fl_binds := filter (\<lambda>(_, j, _). j \<noteq> i) (fl_binds fl)\<rparr>"
    by (simp add: instr_destroy_def update_nodes_def instr_bind_clear_def drop_nodes_def)
  moreover have "linked (fl\<lparr>fl_bbs := drop_nodes {i} (fl_bbs fl), fl_binds := filter (\<lambda>(_, j, _). j \<noteq> i) (fl_binds fl)\<rparr>)"
    using assms by (fastforce simp: linked_def links_live_def instrs_ok_def links_complete_def distinct_map inj_on_def distinct_filter)
  ultimately show ?thesis by blast
qed

end
