(* ===== verification/Vmir_Merge_Run.thy ===== *)
theory Vmir_Merge_Run
  imports Vmir_Merge_Loop
begin

section \<open>Representatives\<close>

text \<open>\<open>rep\<close> gives the temporary a value has been merged into, itself if none.\<close>

definition lift :: "(nat \<Rightarrow> nat) \<Rightarrow> int \<Rightarrow> int" where
  "lift rep v = (if v < 0 then v else int (rep (nat v)))"

lemma renaming_lift [simp]: "renaming (lift rep)"
  by (rule renamingI) (simp_all add: lift_def)

lemma lift_nonneg [simp]: "0 \<le> v \<Longrightarrow> lift rep v = int (rep (nat v))"
  by (simp add: lift_def)

lemma swap_lift: "swap k s \<circ> lift rep = lift (\<lambda>v. if rep v = k then s else rep v)"
  by (auto simp: swap_def lift_def)

lemma rename_node_comp: "renaming f \<Longrightarrow> renaming g \<Longrightarrow> rename_node f \<circ> rename_node g = rename_node (f \<circ> g)"
  by (simp add: rename_node_def map_values_comp fun_eq_iff)

definition in_range :: "nat \<Rightarrow> nat \<Rightarrow> nat \<Rightarrow> bool" where
  "in_range ffv temps v \<longleftrightarrow> ffv \<le> v \<and> v < ffv + temps"

definition slots_of :: "ir_unit \<Rightarrow> nat \<Rightarrow> int result" where
  "slots_of iu v = res_bind (value_item iu v) (\<lambda>iv. value_regframe_slots (iu_tys iu) (iv_type iv))"

definition rep_ok :: "nat \<Rightarrow> nat \<Rightarrow> ir_unit \<Rightarrow> (nat \<Rightarrow> nat) \<Rightarrow> bool" where
  "rep_ok ffv temps iu rep \<longleftrightarrow> (\<forall>v. rep (rep v) = rep v \<and>
     (rep v \<noteq> v \<longrightarrow> in_range ffv temps v \<and> in_range ffv temps (rep v) \<and> temp_of iu v \<and> temp_of iu (rep v) \<and>
        slots_of iu (rep v) = slots_of iu v))"

lemma rep_okD:
  assumes "rep_ok ffv temps iu rep"
  shows "rep (rep v) = rep v" "temp_of iu (rep v) \<longleftrightarrow> temp_of iu v" "slots_of iu (rep v) = slots_of iu v"
    "in_range ffv temps (rep v) \<longleftrightarrow> in_range ffv temps v"
proof -
  have "rep v = v \<or> in_range ffv temps v \<and> in_range ffv temps (rep v) \<and> temp_of iu v \<and> temp_of iu (rep v) \<and> slots_of iu (rep v) = slots_of iu v"
    using assms unfolding rep_ok_def by blast
  then show "temp_of iu (rep v) \<longleftrightarrow> temp_of iu v" "slots_of iu (rep v) = slots_of iu v" "in_range ffv temps (rep v) \<longleftrightarrow> in_range ffv temps v"
    by auto
  show "rep (rep v) = rep v" using assms unfolding rep_ok_def by blast
qed

text \<open>A move from a value to itself once both sides are replaced.\<close>

definition idle_move :: "(nat \<Rightarrow> nat) \<Rightarrow> flow_node \<Rightarrow> bool" where
  "idle_move rep nd \<longleftrightarrow> (\<exists>ii. fn_instr nd = IR_IC_MOVE ii \<and> 0 \<le> vt_value (ii_ret (imo_super ii)) \<and> 0 \<le> vt_value (imo_value ii) \<and>
     rep (nat (vt_value (ii_ret (imo_super ii)))) = rep (nat (vt_value (imo_value ii))))"

text \<open>
  What is true while moves are merged: the graph has an edge between the representatives of each pair that had
  one, and the function is the original one with values replaced and idle moves removed.
\<close>

definition merged :: "nat \<Rightarrow> nat \<Rightarrow> bitset_words \<Rightarrow> flow \<Rightarrow> (nat \<Rightarrow> nat) \<Rightarrow> nat set \<Rightarrow> bitset_words \<times> flow \<Rightarrow> bool" where
  "merged ffv temps mtx0 fl0 rep gone = (\<lambda>(mtx, fl).
     matrix_ok ffv temps (mtx, fl_iu fl) \<and> linked fl \<and> rep_ok ffv temps (fl_iu fl0) rep \<and>
     killed (\<lambda>v. rep v \<noteq> v) (fl_iu fl0) (fl_iu fl) \<and>
     (\<forall>a < temps. \<forall>b < temps. edge mtx0 a b \<longrightarrow> edge mtx (rep (a + ffv) - ffv) (rep (b + ffv) - ffv)) \<and>
     fl_bbs fl = map_nodes (rename_node (lift rep)) (drop_nodes gone (fl_bbs fl0)) \<and>
     (\<forall>nd \<in> set (nodes_of (fl_bbs fl0)). fn_id nd \<in> gone \<longrightarrow> idle_move rep nd) \<and>
     fl = fl0\<lparr>fl_iu := fl_iu fl, fl_bbs := fl_bbs fl, fl_binds := fl_binds fl\<rparr>)"

lemma mergedD:
  assumes "merged ffv temps mtx0 fl0 rep gone (mtx, fl)"
  shows "matrix_ok ffv temps (mtx, fl_iu fl)" "linked fl" "rep_ok ffv temps (fl_iu fl0) rep" "killed (\<lambda>v. rep v \<noteq> v) (fl_iu fl0) (fl_iu fl)"
    "\<forall>a < temps. \<forall>b < temps. edge mtx0 a b \<longrightarrow> edge mtx (rep (a + ffv) - ffv) (rep (b + ffv) - ffv)"
    "fl_bbs fl = map_nodes (rename_node (lift rep)) (drop_nodes gone (fl_bbs fl0))"
    "\<forall>nd \<in> set (nodes_of (fl_bbs fl0)). fn_id nd \<in> gone \<longrightarrow> idle_move rep nd"
    "fl = fl0\<lparr>fl_iu := fl_iu fl, fl_bbs := fl_bbs fl, fl_binds := fl_binds fl\<rparr>"
  subgoal using assms unfolding merged_def split_conv by (elim conjE)
  subgoal using assms unfolding merged_def split_conv by (elim conjE)
  subgoal using assms unfolding merged_def split_conv by (elim conjE)
  subgoal using assms unfolding merged_def split_conv by (elim conjE)
  subgoal using assms unfolding merged_def split_conv by (elim conjE)
  subgoal using assms unfolding merged_def split_conv by (elim conjE)
  subgoal using assms unfolding merged_def split_conv by (elim conjE)
  subgoal using assms unfolding merged_def split_conv by (elim conjE)
  done

lemma merged_init:
  assumes "matrix_ok ffv temps (mtx, fl_iu fl)" "linked fl"
  shows "merged ffv temps mtx fl (\<lambda>v. v) {} (mtx, fl)"
proof -
  have "lift (\<lambda>v. v) = (\<lambda>v. v)" by (auto simp: lift_def)
  then have "map_nodes (rename_node (lift (\<lambda>v. v))) (drop_nodes {} (fl_bbs fl)) = fl_bbs fl"
    by (simp add: map_nodes_def drop_nodes_def rename_node_def [abs_def])
  then show ?thesis using assms by (simp add: merged_def rep_ok_def killed_def)
qed

lemma merged_drop:
  assumes "merged ffv temps mtx0 fl0 rep gone (mtx, fl)" "\<And>nd. nd \<in> set (nodes_of (fl_bbs fl0)) \<Longrightarrow> fn_id nd = i \<Longrightarrow> idle_move rep nd"
  shows "merged ffv temps mtx0 fl0 rep (insert i gone) (mtx, instr_destroy i fl)"
proof -
  note m = mergedD [OF assms(1)]
  obtain binds where d: "instr_destroy i fl = fl\<lparr>fl_bbs := drop_nodes {i} (fl_bbs fl), fl_binds := binds\<rparr>"
    "linked (fl\<lparr>fl_bbs := drop_nodes {i} (fl_bbs fl), fl_binds := binds\<rparr>)" using instr_destroy_ok [OF m(2), of i] by blast
  have b: "drop_nodes {i} (map_nodes (rename_node (lift rep)) (drop_nodes gone (fl_bbs fl0))) =
      map_nodes (rename_node (lift rep)) (drop_nodes (insert i gone) (fl_bbs fl0))"
    by (subst drop_map) (simp_all add: drop_drop)
  have e: "fl\<lparr>fl_bbs := x, fl_binds := y\<rparr> = fl0\<lparr>fl_iu := fl_iu fl, fl_bbs := x, fl_binds := y\<rparr>" for x y
    by (subst m(8)) simp
  show ?thesis using assms d(2) unfolding d(1) merged_def by (simp add: b e m(6))
qed

lemma merged_merge:
  assumes "merged ffv temps mtx0 fl0 rep gone (mtx, fl)" "k < temps" "s < temps" "k \<noteq> s" "rep (k + ffv) = k + ffv" "rep (s + ffv) = s + ffv"
    "temp_of (fl_iu fl0) (k + ffv)" "temp_of (fl_iu fl0) (s + ffv)" "slots_of (fl_iu fl0) (k + ffv) = slots_of (fl_iu fl0) (s + ffv)" "\<not> edge mtx k s"
  shows "\<exists>mtx' fl'. merge_values ffv temps (k + ffv) (s + ffv) (mtx, fl) = Inr (mtx', fl') \<and>
    merged ffv temps mtx0 fl0 (\<lambda>v. if rep v = k + ffv then s + ffv else rep v) gone (mtx', fl')"
proof -
  let ?rep = "\<lambda>v. if rep v = k + ffv then s + ffv else rep v"
  note m = mergedD [OF assms(1)]
  have t: "temp_of (fl_iu fl) (k + ffv)" "temp_of (fl_iu fl) (s + ffv)" using killed_temp [OF m(4)] assms(5-8) by simp_all
  from merge_values_ok [OF m(1,2) t assms(2-4,10)] obtain mtx' iu' binds where
    r: "merge_values ffv temps (k + ffv) (s + ffv) (mtx, fl) =
        Inr (mtx', fl\<lparr>fl_iu := iu', fl_bbs := map_nodes (rename_node (swap (k + ffv) (s + ffv))) (fl_bbs fl), fl_binds := binds\<rparr>)"
      "matrix_ok ffv temps (mtx', iu')"
      "linked (fl\<lparr>fl_iu := iu', fl_bbs := map_nodes (rename_node (swap (k + ffv) (s + ffv))) (fl_bbs fl), fl_binds := binds\<rparr>)"
      "killed (\<lambda>v. v = k + ffv) (fl_iu fl) iu'"
      "\<And>a b. a < temps \<Longrightarrow> b < temps \<Longrightarrow> edge mtx a b \<Longrightarrow> edge mtx' (if a = k then s else a) (if b = k then s else b)"
    unfolding Let_def by blast
  have ks: "in_range ffv temps (k + ffv)" "in_range ffv temps (s + ffv)" using assms(2,3) by (simp_all add: in_range_def)
  have ro: "rep_ok ffv temps (fl_iu fl0) ?rep"
    unfolding rep_ok_def
  proof (intro allI conjI impI)
    fix v
    note v = rep_okD [OF m(3), of v]
    show "?rep (?rep v) = ?rep v" using assms(4-6) v(1) by auto
    assume ne: "?rep v \<noteq> v"
    have "in_range ffv temps v \<and> in_range ffv temps (?rep v) \<and> temp_of (fl_iu fl0) v \<and> temp_of (fl_iu fl0) (?rep v) \<and>
        slots_of (fl_iu fl0) (?rep v) = slots_of (fl_iu fl0) v"
    proof (cases "rep v = k + ffv")
      case True
      then show ?thesis using v assms(7-9) ks by simp
    next
      case False
      then show ?thesis using m(3) ne unfolding rep_ok_def by simp
    qed
    then show "in_range ffv temps v" "in_range ffv temps (?rep v)" "temp_of (fl_iu fl0) v" "temp_of (fl_iu fl0) (?rep v)"
      "slots_of (fl_iu fl0) (?rep v) = slots_of (fl_iu fl0) v" by blast+
  qed
  have kl: "killed (\<lambda>v. ?rep v \<noteq> v) (fl_iu fl0) iu'"
  proof -
    have "(\<lambda>v. rep v \<noteq> v \<or> v = k + ffv) = (\<lambda>v. ?rep v \<noteq> v)"
      using assms(4-6) rep_okD(1) [OF m(3)] by (auto simp: fun_eq_iff)
    then show ?thesis using killed_trans [OF m(4) r(4)] by simp
  qed
  have edges: "edge mtx' (?rep (a + ffv) - ffv) (?rep (b + ffv) - ffv)" if "a < temps" "b < temps" "edge mtx0 a b" for a b
  proof -
    note ab0 = that
    have x: "\<exists>y < temps. rep (x + ffv) = y + ffv" if "x < temps" for x
    proof -
      have "in_range ffv temps (rep (x + ffv))" using rep_okD(4) [OF m(3)] that by (simp add: in_range_def)
      then show ?thesis by (intro exI [of _ "rep (x + ffv) - ffv"]) (auto simp: in_range_def)
    qed
    obtain a' b' where ab: "a' < temps" "rep (a + ffv) = a' + ffv" "b' < temps" "rep (b + ffv) = b' + ffv" using x ab0(1,2) by metis
    have "edge mtx a' b'" using m(5) [rule_format, OF ab0] by (simp only: ab add_diff_cancel_right')
    then have "edge mtx' (if a' = k then s else a') (if b' = k then s else b')" by (rule r(5) [OF ab(1,3)])
    moreover have "?rep (a + ffv) - ffv = (if a' = k then s else a')" "?rep (b + ffv) - ffv = (if b' = k then s else b')" by (simp_all add: ab)
    ultimately show ?thesis by simp
  qed
  have idle: "idle_move ?rep nd" if "idle_move rep nd" for nd
  proof -
    from that obtain ii where ii: "fn_instr nd = IR_IC_MOVE ii" "0 \<le> vt_value (ii_ret (imo_super ii))" "0 \<le> vt_value (imo_value ii)"
      and eq: "rep (nat (vt_value (ii_ret (imo_super ii)))) = rep (nat (vt_value (imo_value ii)))" unfolding idle_move_def by blast
    show ?thesis unfolding idle_move_def by (intro exI [of _ ii] conjI ii) (simp only: eq)
  qed
  have bbs: "map_nodes (rename_node (swap (k + ffv) (s + ffv))) (fl_bbs fl) = map_nodes (rename_node (lift ?rep)) (drop_nodes gone (fl_bbs fl0))"
    unfolding m(6) map_nodes_comp rename_node_comp [OF renaming_swap' renaming_lift] swap_lift ..
  have e': "fl\<lparr>fl_iu := u, fl_bbs := x, fl_binds := y\<rparr> = fl0\<lparr>fl_iu := u, fl_bbs := x, fl_binds := y\<rparr>" for u x y by (subst m(8)) simp
  let ?fl = "fl0\<lparr>fl_iu := iu', fl_bbs := map_nodes (rename_node (lift ?rep)) (drop_nodes gone (fl_bbs fl0)), fl_binds := binds\<rparr>"
  have "merged ffv temps mtx0 fl0 ?rep gone (mtx', ?fl)"
    unfolding merged_def split_conv
  proof (intro conjI allI impI ballI)
    show "matrix_ok ffv temps (mtx', fl_iu ?fl)" using r(2) by simp
    show "linked ?fl" using r(3) unfolding bbs e' .
    show "rep_ok ffv temps (fl_iu fl0) ?rep" by (rule ro)
    show "killed (\<lambda>v. ?rep v \<noteq> v) (fl_iu fl0) (fl_iu ?fl)" using kl by simp
    show "edge mtx' (?rep (a + ffv) - ffv) (?rep (b + ffv) - ffv)" if "a < temps" "b < temps" "edge mtx0 a b" for a b
      using that by (rule edges)
    show "idle_move ?rep nd" if "nd \<in> set (nodes_of (fl_bbs fl0))" "fn_id nd \<in> gone" for nd
      using idle m(7) that by blast
  qed simp_all
  then show ?thesis using r(1) unfolding bbs e' by blast
qed

section \<open>One move\<close>

definition moves_ok :: "nat \<Rightarrow> nat \<Rightarrow> ir_unit \<Rightarrow> flow_bb list \<Rightarrow> bool" where
  "moves_ok ffv temps iu bbs \<longleftrightarrow> (\<forall>nd \<in> set (nodes_of bbs). \<forall>ii. fn_instr nd = IR_IC_MOVE ii \<longrightarrow>
     (\<exists>r s. vt_value (ii_ret (imo_super ii)) = int r \<and> vt_value (imo_value ii) = int s \<and> in_range ffv temps r \<and> temp_of iu r \<and>
        s < ffv + temps \<and> (ffv \<le> s \<longrightarrow> temp_of iu s \<longrightarrow> slots_of iu s = slots_of iu r)))"

lemma coalesce_move_ok:
  assumes m: "merged ffv temps mtx0 fl0 rep gone (mtx, fl)" and small: "ffv + temps \<le> 2 ^ 32"
    and idle: "\<And>rep'. rep' r = rep' s \<Longrightarrow> \<forall>nd \<in> set (nodes_of (fl_bbs fl0)). fn_id nd = i \<longrightarrow> idle_move rep' nd"
    and ii: "vt_value (ii_ret (imo_super ii)) = int (rep r)" "vt_value (imo_value ii) = int (rep s)"
    and r: "in_range ffv temps r" "temp_of (fl_iu fl0) r" and s: "s < ffv + temps"
    and slots: "ffv \<le> s \<Longrightarrow> temp_of (fl_iu fl0) s \<Longrightarrow> slots_of (fl_iu fl0) s = slots_of (fl_iu fl0) r"
  shows "\<exists>st' rep' gone'. coalesce_move ffv temps i ii (mtx, fl) = Inr st' \<and> merged ffv temps mtx0 fl0 rep' gone' st' \<and> gone' \<subseteq> insert i gone"
proof -
  have ro: "rep_ok ffv temps (fl_iu fl0) rep" and kl: "killed (\<lambda>v. rep v \<noteq> v) (fl_iu fl0) (fl_iu fl)" and mo: "matrix_ok ffv temps (mtx, fl_iu fl)"
    using m by (simp_all add: merged_def)
  have io: "items_ok ffv temps (fl_iu fl)" and tok: "tri_ok temps mtx" using mo by (simp_all add: matrix_ok_def graph_inv_def)
  have R: "in_range ffv temps (rep r)" using rep_okD(4) [OF ro] r(1) by simp
  have S: "rep s < ffv + temps" using ro s unfolding rep_ok_def in_range_def by metis
  have v: "unat (word_of_nat (rep s) :: u32) = rep s"
    using S small by (simp add: unsigned_of_nat take_bit_nat_eq_self)
  have same: ?thesis if "coalesce_move ffv temps i ii (mtx, fl) = Inr (mtx, fl)" using that m by blast
  show ?thesis
  proof (cases "rep s < ffv")
    case True
    then show ?thesis by (intro same) (simp add: coalesce_move_def Let_def ii v)
  next
    case False
    define a where "a = rep s - ffv"
    define b where "b = rep r - ffv"
    have a: "rep s = a + ffv" "a < temps" using False S by (simp_all add: a_def)
    have b: "rep r = b + ffv" "b < temps" using R by (auto simp: b_def in_range_def)
    obtain src where src: "value_item (fl_iu fl) (a + ffv) = Inr src" using item_exists [OF io a(2)] by blast
    obtain dst where dst: "value_item (fl_iu fl) (b + ffv) = Inr dst" using item_exists [OF io b(2)] by blast
    have tr: "temp_of (fl_iu fl) (b + ffv)"
      using killed_temp [OF kl] rep_okD(1,2) [OF ro, of r] r(2) b(1) by simp
    then have dt: "iv_class dst = Vc_temporary" using dst by (simp add: temp_of_def)
    have run: "coalesce_move ffv temps i ii (mtx, fl) =
        (if iv_class src \<noteq> Vc_temporary then Inr (mtx, fl)
         else if rep r = rep s then Inr (mtx, instr_destroy i fl)
         else if iv_precolored dst \<noteq> - 1 \<and> iv_precolored src \<noteq> - 1 \<or> edge mtx b a then Inr (mtx, fl)
         else let (killed, saved) = (if iv_precolored src \<noteq> - 1 then (rep r, rep s) else (rep s, rep r)) in
           res_bind (merge_values ffv temps killed saved (mtx, fl)) (\<lambda>(mtx', fl'). Inr (mtx', instr_destroy i fl')))"
    proof -
      have "int (rep r) - int ffv = int b" "int (rep s) - int ffv = int a" by (simp_all add: a(1) b(1))
      then show ?thesis using tribitmtx_get_ok [OF tok b(2) a(2)] src [folded a(1)] dst [folded b(1)] dt False
        by (simp add: coalesce_move_def Let_def ii v)
    qed
    consider "iv_class src \<noteq> Vc_temporary" | "iv_class src = Vc_temporary" "rep r = rep s"
      | "iv_class src = Vc_temporary" "rep r \<noteq> rep s" "iv_precolored dst \<noteq> - 1 \<and> iv_precolored src \<noteq> - 1 \<or> edge mtx b a"
      | "iv_class src = Vc_temporary" "rep r \<noteq> rep s" "\<not> (iv_precolored dst \<noteq> - 1 \<and> iv_precolored src \<noteq> - 1 \<or> edge mtx b a)" by blast
    then show ?thesis
    proof cases
      case 2
      then have "merged ffv temps mtx0 fl0 rep (insert i gone) (mtx, instr_destroy i fl)" using idle [of rep] by (intro merged_drop [OF m]) blast
      then show ?thesis using run 2 by (intro exI) auto
    next
      case 4
      have ab: "a \<noteq> b" using 4(2) a(1) b(1) by simp
      have ts: "temp_of (fl_iu fl) (a + ffv)" using src 4(1) by (simp add: temp_of_def)
      have ra: "rep (a + ffv) = a + ffv" "rep (b + ffv) = b + ffv" using rep_okD(1) [OF ro] a(1) b(1) by metis+
      have t0: "temp_of (fl_iu fl0) (a + ffv)" "temp_of (fl_iu fl0) (b + ffv)" using ts tr killed_temp [OF kl] by simp_all
      have "temp_of (fl_iu fl0) s" using t0(1) rep_okD(2) [OF ro, of s] a(1) by simp
      moreover have "ffv \<le> s" using rep_okD(4) [OF ro, of s] a by (simp add: in_range_def)
      ultimately have sl: "slots_of (fl_iu fl0) (a + ffv) = slots_of (fl_iu fl0) (b + ffv)"
        using slots rep_okD(3) [OF ro] a(1) b(1) by metis
      have ne: "\<not> edge mtx a b" "\<not> edge mtx b a" using 4(3) edge_sym [of mtx a b] by simp_all
      define k where "k = (if iv_precolored src \<noteq> - 1 then b else a)"
      define w where "w = (if iv_precolored src \<noteq> - 1 then a else b)"
      have kw: "k < temps" "w < temps" "k \<noteq> w" "rep (k + ffv) = k + ffv" "rep (w + ffv) = w + ffv" "temp_of (fl_iu fl0) (k + ffv)"
        "temp_of (fl_iu fl0) (w + ffv)" "slots_of (fl_iu fl0) (k + ffv) = slots_of (fl_iu fl0) (w + ffv)" "\<not> edge mtx k w"
        using a(2) b(2) ab ra t0 sl ne by (simp_all add: k_def w_def)
      from merged_merge [OF m kw] obtain mtx' fl' where
        mm: "merge_values ffv temps (k + ffv) (w + ffv) (mtx, fl) = Inr (mtx', fl')"
          "merged ffv temps mtx0 fl0 (\<lambda>v. if rep v = k + ffv then w + ffv else rep v) gone (mtx', fl')" by blast
      have "(\<lambda>v. if rep v = k + ffv then w + ffv else rep v) r = (\<lambda>v. if rep v = k + ffv then w + ffv else rep v) s"
        using a(1) b(1) by (auto simp: k_def w_def)
      from idle [OF this] have "merged ffv temps mtx0 fl0 (\<lambda>v. if rep v = k + ffv then w + ffv else rep v) (insert i gone) (mtx', instr_destroy i fl')"
        by (intro merged_drop [OF mm(2)]) blast
      moreover have "coalesce_move ffv temps i ii (mtx, fl) = Inr (mtx', instr_destroy i fl')"
        using run 4 mm(1) a(1) b(1) by (auto simp: k_def w_def)
      ultimately show ?thesis by blast
    next
      case 1
      then show ?thesis by (intro same) (simp add: run)
    next
      case 3
      then show ?thesis by (intro same) (auto simp: run)
    qed
  qed
qed

section \<open>All moves\<close>

lemma coalesce_instr_ok:
  assumes m: "merged ffv temps mtx0 fl0 rep gone (mtx, fl)" and small: "ffv + temps \<le> 2 ^ 32" and mv: "moves_ok ffv temps (fl_iu fl0) (fl_bbs fl0)"
    and nd: "nd \<in> set (nodes_of (fl_bbs fl0))" "fn_id nd \<notin> gone" and dist: "distinct (map fn_id (nodes_of (fl_bbs fl0)))"
  shows "\<exists>st' rep' gone'. coalesce_instr ffv temps (mtx, fl) (fn_id nd) = Inr st' \<and> merged ffv temps mtx0 fl0 rep' gone' st' \<and>
    gone' \<subseteq> insert (fn_id nd) gone"
proof -
  have "linked fl" and bbs: "fl_bbs fl = map_nodes (rename_node (lift rep)) (drop_nodes gone (fl_bbs fl0))" using m by (simp_all add: merged_def)
  then have d: "distinct (map fn_id (nodes_of (fl_bbs fl)))" by (simp add: linked_def instrs_ok_def)
  have "rename_node (lift rep) nd \<in> set (nodes_of (fl_bbs fl))" unfolding bbs using nd by auto
  from find_node_ok [OF d this] have f: "find_node fl (fn_id nd) = Inr (rename_node (lift rep) nd)" by simp
  have uniq: "x = nd" if "x \<in> set (nodes_of (fl_bbs fl0))" "fn_id x = fn_id nd" for x
    using dist nd(1) that by (auto simp: distinct_map inj_on_def)
  show ?thesis
  proof (cases "\<exists>ii. fn_instr nd = IR_IC_MOVE ii")
    case False
    then have "coalesce_instr ffv temps (mtx, fl) (fn_id nd) = Inr (mtx, fl)"
      by (cases "fn_instr nd") (simp_all add: coalesce_instr_def f)
    then show ?thesis using m by blast
  next
    case True
    then obtain ii where ii: "fn_instr nd = IR_IC_MOVE ii" by blast
    obtain r s where rs: "vt_value (ii_ret (imo_super ii)) = int r" "vt_value (imo_value ii) = int s" "in_range ffv temps r" "temp_of (fl_iu fl0) r"
      "s < ffv + temps" "ffv \<le> s \<Longrightarrow> temp_of (fl_iu fl0) s \<Longrightarrow> slots_of (fl_iu fl0) s = slots_of (fl_iu fl0) r"
      using mv nd(1) ii unfolding moves_ok_def by metis
    define ii' where "ii' = ii\<lparr>imo_super := map_super (lift rep) (imo_super ii), imo_value := map_vt (lift rep) (imo_value ii)\<rparr>"
    have v: "vt_value (ii_ret (imo_super ii')) = int (rep r)" "vt_value (imo_value ii') = int (rep s)"
      using ret_map_super [OF renaming_lift, of rep "imo_super ii"] by (simp_all add: ii'_def rs(1,2))
    have idle: "\<forall>x \<in> set (nodes_of (fl_bbs fl0)). fn_id x = fn_id nd \<longrightarrow> idle_move rep' x" if "rep' r = rep' s" for rep'
      using uniq that ii rs(1,2) by (force simp: idle_move_def)
    have "coalesce_instr ffv temps (mtx, fl) (fn_id nd) = coalesce_move ffv temps (fn_id nd) ii' (mtx, fl)"
      by (simp add: coalesce_instr_def f ii ii'_def)
    then show ?thesis using coalesce_move_ok [OF m small idle v rs(3-6)] by simp
  qed
qed

lemma coalesce_loop:
  assumes "merged ffv temps mtx0 fl0 rep gone st" "ffv + temps \<le> 2 ^ 32" "moves_ok ffv temps (fl_iu fl0) (fl_bbs fl0)"
    "set nds \<subseteq> set (nodes_of (fl_bbs fl0))" "distinct (map fn_id nds)" "fn_id ` set nds \<inter> gone = {}" "distinct (map fn_id (nodes_of (fl_bbs fl0)))"
  shows "\<exists>st' rep' gone'. res_fold (coalesce_instr ffv temps) st (map fn_id nds) = Inr st' \<and> merged ffv temps mtx0 fl0 rep' gone' st'"
  using assms
proof (induction nds arbitrary: st rep gone)
  case (Cons nd nds)
  obtain mtx fl where st: "st = (mtx, fl)" by (cases st)
  have nd: "nd \<in> set (nodes_of (fl_bbs fl0))" "fn_id nd \<notin> gone" using Cons.prems(4,6) by auto
  from coalesce_instr_ok [OF Cons.prems(1) [unfolded st] Cons.prems(2,3) nd Cons.prems(7)] obtain st1 rep1 gone1 where
    s: "coalesce_instr ffv temps (mtx, fl) (fn_id nd) = Inr st1" "merged ffv temps mtx0 fl0 rep1 gone1 st1" "gone1 \<subseteq> insert (fn_id nd) gone"
    by blast
  have c: "fn_id ` set nds \<inter> gone1 = {}"
  proof -
    have "fn_id nd \<notin> fn_id ` set nds" using Cons.prems(5) by simp
    moreover have "x \<notin> gone" if "x \<in> fn_id ` set nds" for x using Cons.prems(6) that by (simp add: disjoint_iff)
    ultimately show ?thesis using s(3) unfolding disjoint_iff subset_iff insert_iff by metis
  qed
  have a: "set nds \<subseteq> set (nodes_of (fl_bbs fl0))" using Cons.prems(4) by simp
  have b: "distinct (map fn_id nds)" using Cons.prems(5) by simp
  obtain st' rep' gone' where
    "res_fold (coalesce_instr ffv temps) st1 (map fn_id nds) = Inr st'" "merged ffv temps mtx0 fl0 rep' gone' st'"
    using Cons.IH [OF s(2) Cons.prems(2,3) a b c Cons.prems(7)] by (elim exE conjE)
  then show ?case using s(1) by (intro exI [of _ st'] exI [of _ rep'] exI [of _ gone']) (simp add: st)
next
  case Nil
  then show ?case by (intro exI [of _ st] exI [of _ rep] exI [of _ gone]) simp
qed

lemma coalesce_moves_ok:
  assumes "matrix_ok ffv temps (mtx, fl_iu fl)" "linked fl" "ffv + temps \<le> 2 ^ 32" "moves_ok ffv temps (fl_iu fl) (fl_bbs fl)"
  shows "\<exists>st rep gone. coalesce_moves ffv temps (mtx, fl) = Inr st \<and> merged ffv temps mtx fl rep gone st"
proof -
  have "distinct (map fn_id (nodes_of (fl_bbs fl)))" using assms(2) by (simp add: linked_def instrs_ok_def)
  from coalesce_loop [OF merged_init [OF assms(1,2)] assms(3,4) subset_refl this _ this] show ?thesis
    by (simp add: coalesce_moves_def nodes_of_def)
qed

end
