(* ===== verification/Vmir_Alloc.thy ===== *)
theory Vmir_Alloc
  imports Vmir_Merge_Run
begin

text \<open>
  The whole pass \<open>coalesce\<close>: after the merges every remaining temporary gets a register, and
  temporaries in conflict have representatives in disjoint registers.
\<close>

section \<open>The vertices\<close>

lemma res_map_total: "(\<And>x. x \<in> set xs \<Longrightarrow> \<exists>y. f x = Inr y) \<Longrightarrow> \<exists>ys. res_map f xs = Inr ys"
proof (induction xs)
  case (Cons x xs)
  then obtain y ys where "f x = Inr y" "res_map f xs = Inr ys" by (metis list.set_intros)
  then show ?case by simp
qed simp

text \<open>In the build without the JIT no value is bound to a machine register.\<close>

definition sized_temps :: "nat \<Rightarrow> nat \<Rightarrow> ir_unit \<Rightarrow> bool" where
  "sized_temps ffv temps iu \<longleftrightarrow> (\<forall>k < temps. \<exists>iv. value_item iu (k + ffv) = Inr iv \<and> iv_precolored iv = - 1 \<and>
     (iv_class iv = Vc_temporary \<longrightarrow> (\<exists>s \<in> {1, 2}. value_regframe_slots (iu_tys iu) (iv_type iv) = Inr s)))"

lemma sized_temps_killed:
  assumes "killed d iu iu'" "sized_temps ffv temps iu"
  shows "sized_temps ffv temps iu'"
  unfolding sized_temps_def
proof (intro allI impI)
  fix k assume "k < temps"
  then obtain iv where iv: "value_item iu (k + ffv) = Inr iv" "iv_precolored iv = - 1"
    "iv_class iv = Vc_temporary \<longrightarrow> (\<exists>s \<in> {1, 2}. value_regframe_slots (iu_tys iu) (iv_type iv) = Inr s)"
    using assms(2) unfolding sized_temps_def by blast
  have t: "iu_ts iu' = iu_ts iu" using assms(1) by (simp add: killed_def)
  show "\<exists>iv. value_item iu' (k + ffv) = Inr iv \<and> iv_precolored iv = - 1 \<and>
     (iv_class iv = Vc_temporary \<longrightarrow> (\<exists>s \<in> {1, 2}. value_regframe_slots (iu_tys iu') (iv_type iv) = Inr s))"
    using killed_item [OF assms(1) iv(1)] iv(2,3) by (auto simp: t split: if_splits)
qed

lemma vertices_total:
  assumes "sized_temps ffv temps iu" "ffv + temps \<le> 2 ^ 32"
  shows "\<exists>vis. vertices iu ffv temps = Inr vis \<and>
    (\<forall>x < temps. temp_of iu (x + ffv) \<longrightarrow> (\<exists>vi \<in> set vis. vi_value vi = x)) \<and>
    (\<forall>vi \<in> set vis. vi_value vi < temps \<and> vi_score vi = value_edges iu (vi_value vi + ffv) \<and>
       slots_of iu (vi_value vi + ffv) = Inr (reg_bytes vi div 4) \<and> reg_bytes vi \<in> {4, 8})"
proof -
  have at: "\<exists>iv. value_at iu (of_nat (x + ffv)) = Inr iv \<and> value_item iu (x + ffv) = Inr iv \<and> iv_precolored iv = - 1 \<and>
     (iv_class iv = Vc_temporary \<longrightarrow> (\<exists>s \<in> {1, 2}. value_regframe_slots (iu_tys iu) (iv_type iv) = Inr s))" if "x < temps" for x
  proof -
    have "x + ffv < 2 ^ 32" using that assms(2) by simp
    then show ?thesis using assms(1) that value_at_item unfolding sized_temps_def by metis
  qed
  have vtx: "\<exists>o'. vertex_of iu ffv x = Inr o' \<and> (temp_of iu (x + ffv) \<longrightarrow> (\<exists>vi. o' = Some vi))" if "x < temps" for x
    using at [OF that] by (force simp: vertex_of_def temp_of_def)
  then obtain vs where "res_map (vertex_of iu ffv) [0..<temps] = Inr vs" using res_map_total [of "[0..<temps]" "vertex_of iu ffv"] by auto
  then obtain vis where vis: "vertices iu ffv temps = Inr vis" by (simp add: vertices_def)
  note sp = vertices_spec [OF vis]
  have "\<exists>vi \<in> set vis. vi_value vi = x" if "x < temps" "temp_of iu (x + ffv)" for x
  proof -
    have "x \<in> set (map vi_value vis)" unfolding sp(1) using vtx [OF that(1)] that by auto
    then show ?thesis by auto
  qed
  moreover have "vi_value vi < temps \<and> vi_score vi = value_edges iu (vi_value vi + ffv) \<and>
       slots_of iu (vi_value vi + ffv) = Inr (reg_bytes vi div 4) \<and> reg_bytes vi \<in> {4, 8}" if vi: "vi \<in> set vis" for vi
  proof -
    have "vi_value vi \<in> set (map vi_value vis)" using vi by simp
    then have lt: "vi_value vi < temps" unfolding sp(1) by simp
    obtain iv s where v: "value_at iu (of_nat (vi_value vi + ffv)) = Inr iv" "value_regframe_slots (iu_tys iu) (iv_type iv) = Inr s" "s = 1 \<or> s = 2"
      "vi = \<lparr>vi_value = vi_value vi, vi_score = iv_edges iv, vi_class = nat s\<rparr>" using vertex_of_cases [OF sp(2) [OF vi]] by blast
    have i: "value_item iu (vi_value vi + ffv) = Inr iv" using at [OF lt] v(1) by auto
    have "vi_score vi = iv_edges iv" "vi_class vi = nat s" by (subst v(4); simp)+
    then show ?thesis using lt i v(2,3) by (auto simp: value_edges_def slots_of_def reg_bytes_def class_reg_size_def)
  qed
  ultimately show ?thesis using vis by blast
qed

section \<open>Removing empty blocks leaves the values alone\<close>

definition frame_of :: "flow \<Rightarrow> ir_unit \<times> int" where
  "frame_of fl = (fl_iu fl, fl_regframe_size fl)"

lemma frame_of_ops [simp]:
  "frame_of (set_instr i ii fl) = frame_of fl" "frame_of (update_nodes g fl) = frame_of fl" "frame_of (move_edge i b nb fl) = frame_of fl"
  "frame_of (ibe_destroy i fl) = frame_of fl" "frame_of (instr_bind_clear i fl) = frame_of fl" "frame_of (fl\<lparr>fl_bbs := x\<rparr>) = frame_of fl"
  by (simp_all add: frame_of_def set_instr_def update_nodes_def move_edge_def ibe_destroy_def instr_bind_clear_def Let_def)

lemma frame_of_fold: "(\<And>x fl. frame_of (g x fl) = frame_of fl) \<Longrightarrow> frame_of (fold g xs fl) = frame_of fl"
  by (induction xs arbitrary: fl) auto

lemma frame_of_res_fold:
  assumes "\<And>x fl fl'. g fl x = Inr fl' \<Longrightarrow> frame_of fl' = frame_of fl" "res_fold g fl xs = Inr fl'"
  shows "frame_of fl' = frame_of fl"
  using assms(2)
proof (induction xs arbitrary: fl)
  case (Cons x xs)
  then obtain fl1 where "g fl x = Inr fl1" "res_fold g fl1 xs = Inr fl'" by (auto simp: res_bind_eq_Inr)
  then show ?case using assms(1) Cons.IH by metis
qed simp

lemma frame_of_destroy [simp]: "frame_of (bb_destroy b fl) = frame_of fl"
  by (simp add: bb_destroy_def Let_def frame_of_fold)

lemma frame_of_change: "bb_change_branch from to nb fl = Inr fl' \<Longrightarrow> frame_of fl' = frame_of fl"
  by (auto simp: bb_change_branch_def res_bind_eq_Inr Let_def split: if_splits)

lemma frame_of_redirect:
  "res_fold (\<lambda>fl i. res_bind (find_edge fl i) (\<lambda>e. res_bind (bb_change_branch (fe_from e) b nb fl) (\<lambda>fl1. Inr (move_edge i b nb fl1)))) fl is' = Inr fl' \<Longrightarrow>
   frame_of fl' = frame_of fl"
  by (rule frame_of_res_fold [rotated], assumption) (auto simp: res_bind_eq_Inr frame_of_change)

lemma frame_of_step:
  assumes "remove_empty_bb_step fl b = Inr fl'"
  shows "frame_of fl' = frame_of fl"
proof -
  obtain bb nd where n: "find_bb fl b = Inr bb" "first_instr bb = Inr nd" using assms by (auto simp: remove_empty_bb_step_def res_bind_eq_Inr)
  show ?thesis
  proof (cases "fn_instr nd")
    case (IR_IC_BR ii)
    then show ?thesis using assms n frame_of_redirect by (auto simp: remove_empty_bb_step_def res_bind_eq_Inr Let_def split: if_splits)
  qed (use assms n in \<open>simp_all add: remove_empty_bb_step_def\<close>)
qed

lemma frame_of_remove: "remove_empty_bb fl = Inr fl' \<Longrightarrow> frame_of fl' = frame_of fl"
  unfolding remove_empty_bb_def by (rule frame_of_res_fold [OF frame_of_step])

section \<open>The pass\<close>

text \<open>
  What \<open>coalesce\<close> is given: values that exist and have no neighbours yet, instructions whose
  results are temporaries, moves between values of one size, and links that are complete.
\<close>

definition pass_input :: "nat \<Rightarrow> nat \<Rightarrow> flow \<Rightarrow> bool" where
  "pass_input ffv temps fl \<longleftrightarrow> ffv + temps \<le> 2 ^ 32 \<and> (\<exists>mtx. tribitmtx_alloc (int temps) = Inr mtx) \<and> sized_temps ffv temps (fl_iu fl) \<and>
     (\<forall>k < temps. value_edges (fl_iu fl) (k + ffv) = 0) \<and> (\<forall>nd \<in> set (nodes_of (fl_bbs fl)). results_in ffv temps nd) \<and>
     linked fl \<and> moves_ok ffv temps (fl_iu fl) (fl_bbs fl)"

definition reg_at :: "ir_unit \<Rightarrow> nat \<Rightarrow> int" where
  "reg_at iu v = (case value_item iu v of Inl _ \<Rightarrow> 0 | Inr iv \<Rightarrow> (case iv_class iv of Vc_regframe r \<Rightarrow> r | _ \<Rightarrow> 0))"

definition width :: "ir_unit \<Rightarrow> nat \<Rightarrow> int" where
  "width iu v = (case slots_of iu v of Inl _ \<Rightarrow> 0 | Inr n \<Rightarrow> 4 * n)"

text \<open>
  The temporary \<open>x\<close> of \<open>iu\<close> is in the register of its representative in \<open>iu'\<close>: aligned, inside the part of the
  frame the pass has added, and apart from the registers of the temporaries it conflicts with.
\<close>

definition placed :: "nat \<Rightarrow> nat \<Rightarrow> flow \<Rightarrow> (nat \<Rightarrow> nat) \<Rightarrow> int \<Rightarrow> ir_unit \<Rightarrow> bool" where
  "placed ffv temps fl rep frame iu' \<longleftrightarrow> fl_regframe_size fl \<le> frame \<and>
     (\<forall>v. in_range ffv temps v \<longrightarrow> temp_of (fl_iu fl) v \<longrightarrow>
        (\<exists>iv. value_item iu' (rep v) = Inr iv \<and> iv_class iv = Vc_regframe (reg_at iu' (rep v))) \<and>
        width (fl_iu fl) v \<in> {4, 8} \<and> width (fl_iu fl) v dvd reg_at iu' (rep v) \<and>
        fl_regframe_size fl \<le> reg_at iu' (rep v) \<and> reg_at iu' (rep v) + width (fl_iu fl) v \<le> frame) \<and>
     (\<forall>v w. in_range ffv temps v \<longrightarrow> in_range ffv temps w \<longrightarrow> temp_of (fl_iu fl) v \<longrightarrow> temp_of (fl_iu fl) w \<longrightarrow>
        conflict ffv (fl_bbs fl) (v - ffv) (w - ffv) \<longrightarrow>
        regs_apart (reg_at iu' (rep v)) (width (fl_iu fl) v) (reg_at iu' (rep w)) (width (fl_iu fl) w))"

lemma vertices_placed:
  assumes perm: "\<And>xs. mset (qsort xs) = mset xs" and m: "matrix_ok ffv temps (mtx, iu)" and st: "sized_temps ffv temps iu" and small: "ffv + temps \<le> 2 ^ 32"
  shows "\<exists>frame' iu'. reg_alloc qsort mtx temps ffv (frame, iu) = Inr (frame', iu') \<and> frame \<le> frame' \<and>
    (\<forall>x < temps. temp_of iu (x + ffv) \<longrightarrow> in_reg iu' (x + ffv) (reg_at iu' (x + ffv)) \<and> width iu (x + ffv) \<in> {4, 8} \<and>
       width iu (x + ffv) dvd reg_at iu' (x + ffv) \<and> frame \<le> reg_at iu' (x + ffv) \<and> reg_at iu' (x + ffv) + width iu (x + ffv) \<le> frame') \<and>
    (\<forall>x < temps. \<forall>y < temps. temp_of iu (x + ffv) \<longrightarrow> temp_of iu (y + ffv) \<longrightarrow> edge mtx x y \<longrightarrow>
       regs_apart (reg_at iu' (x + ffv)) (width iu (x + ffv)) (reg_at iu' (y + ffv)) (width iu (y + ffv)))"
proof -
  obtain vis where vis: "vertices iu ffv temps = Inr vis" and all: "\<And>x. x < temps \<Longrightarrow> temp_of iu (x + ffv) \<Longrightarrow> \<exists>vi \<in> set vis. vi_value vi = x"
    and each: "\<And>vi. vi \<in> set vis \<Longrightarrow> vi_value vi < temps \<and> vi_score vi = value_edges iu (vi_value vi + ffv) \<and>
       slots_of iu (vi_value vi + ffv) = Inr (reg_bytes vi div 4) \<and> reg_bytes vi \<in> {4, 8}"
    using vertices_total [OF st small] by blast
  have ok: "tri_ok temps mtx" "\<And>x. \<not> edge mtx x x" and deg: "degrees ffv temps mtx iu" using m by (auto simp: matrix_ok_def graph_inv_def)
  have "\<forall>vi \<in> set vis. \<not> edge mtx (vi_value vi) (vi_value vi) \<and> int (card (neighbours mtx temps (vi_value vi))) \<le> vi_score vi"
    using each deg ok(2) by (simp add: degrees_def)
  from reg_alloc_ok [OF perm vis ok(1) small this] obtain frame' iu' reg where
    r: "reg_alloc qsort mtx temps ffv (frame, iu) = Inr (frame', iu')" and a: "allocated mtx ffv vis frame iu frame' iu' reg" by blast
  have at: "reg_at iu' k = z" if "in_reg iu' k z" for k z using that by (auto simp: in_reg_def reg_at_def)
  have w: "width iu (vi_value vi + ffv) = reg_bytes vi" if "vi \<in> set vis" for vi using each [OF that] by (auto simp: width_def)
  have a1: "in_reg iu' (vi_value vi + ffv) (reg (vi_value vi))" "frame \<le> reg (vi_value vi)" "reg (vi_value vi) + reg_bytes vi \<le> frame'"
    "reg_bytes vi dvd reg (vi_value vi)" if "vi \<in> set vis" for vi using a that by (auto simp: allocated_def)
  have a2: "regs_apart (reg (vi_value vi)) (reg_bytes vi) (reg (vi_value vj)) (reg_bytes vj)"
    if "vi \<in> set vis" "vj \<in> set vis" "edge mtx (vi_value vi) (vi_value vj)" for vi vj using a that by (auto simp: allocated_def)
  have "frame \<le> frame'" using a by (simp add: allocated_def)
  moreover have "in_reg iu' (x + ffv) (reg_at iu' (x + ffv)) \<and> width iu (x + ffv) \<in> {4, 8} \<and>
       width iu (x + ffv) dvd reg_at iu' (x + ffv) \<and> frame \<le> reg_at iu' (x + ffv) \<and> reg_at iu' (x + ffv) + width iu (x + ffv) \<le> frame'"
    if "x < temps" "temp_of iu (x + ffv)" for x
  proof -
    obtain vi where vi: "vi \<in> set vis" "vi_value vi = x" using all [OF \<open>x < temps\<close> \<open>temp_of iu (x + ffv)\<close>] by blast
    show ?thesis using a1 [OF vi(1)] each [OF vi(1)] w [OF vi(1)] at [OF a1(1) [OF vi(1)]] vi(2) by simp
  qed
  moreover have "regs_apart (reg_at iu' (x + ffv)) (width iu (x + ffv)) (reg_at iu' (y + ffv)) (width iu (y + ffv))"
    if "x < temps" "y < temps" "temp_of iu (x + ffv)" "temp_of iu (y + ffv)" "edge mtx x y" for x y
  proof -
    note xy = that
    obtain vi vj where vi: "vi \<in> set vis" "vi_value vi = x" "vj \<in> set vis" "vi_value vj = y" using all xy(1-4) by metis
    show ?thesis using a2 [OF vi(1,3)] xy(5) w [OF vi(1)] w [OF vi(3)] at [OF a1(1) [OF vi(1)]] at [OF a1(1) [OF vi(3)]] vi(2,4) by simp
  qed
  ultimately show ?thesis using r by (intro exI [of _ frame'] exI [of _ iu']) simp
qed

lemma width_killed:
  assumes "killed d iu iu'"
  shows "width iu' v = width iu v" "slots_of iu' v = slots_of iu v"
proof -
  have t: "iu_ts iu' = iu_ts iu" using assms by (simp add: killed_def)
  show s: "slots_of iu' v = slots_of iu v"
  proof (cases "value_item iu v")
    case (Inl e)
    then show ?thesis using killed_error [OF assms Inl] by (simp add: slots_of_def)
  next
    case (Inr iv)
    then show ?thesis using killed_item [OF assms Inr] t by (cases "d v") (auto simp: slots_of_def)
  qed
  show "width iu' v = width iu v" by (simp add: width_def s)
qed

lemma moves_ok_same:
  assumes "killed (\<lambda>_. False) iu iu'"
  shows "moves_ok ffv temps iu' bbs \<longleftrightarrow> moves_ok ffv temps iu bbs" "temp_of iu' = temp_of iu"
  using killed_temp [OF assms] width_killed(2) [OF assms] by (simp_all add: moves_ok_def fun_eq_iff)

lemma placed_merged:
  assumes m: "merged ffv temps mtx0 fl1 rep gone (mtx, fl2)" and e: "\<And>a b. edge mtx0 a b \<longleftrightarrow> conflict ffv (fl_bbs fl) a b"
    and same: "killed (\<lambda>_. False) (fl_iu fl) (fl_iu fl1)" "frame \<le> frame'" "fl_regframe_size fl = frame"
    and x: "\<And>x. x < temps \<Longrightarrow> temp_of (fl_iu fl2) (x + ffv) \<Longrightarrow> in_reg iu' (x + ffv) (reg_at iu' (x + ffv)) \<and> width (fl_iu fl2) (x + ffv) \<in> {4, 8} \<and>
       width (fl_iu fl2) (x + ffv) dvd reg_at iu' (x + ffv) \<and> frame \<le> reg_at iu' (x + ffv) \<and> reg_at iu' (x + ffv) + width (fl_iu fl2) (x + ffv) \<le> frame'"
    and xy: "\<And>x y. x < temps \<Longrightarrow> y < temps \<Longrightarrow> temp_of (fl_iu fl2) (x + ffv) \<Longrightarrow> temp_of (fl_iu fl2) (y + ffv) \<Longrightarrow> edge mtx x y \<Longrightarrow>
       regs_apart (reg_at iu' (x + ffv)) (width (fl_iu fl2) (x + ffv)) (reg_at iu' (y + ffv)) (width (fl_iu fl2) (y + ffv))"
  shows "placed ffv temps fl rep frame' iu'"
proof -
  note m' = mergedD [OF m]
  have t: "temp_of (fl_iu fl1) = temp_of (fl_iu fl)" using moves_ok_same(2) [OF same(1)] .
  have w: "width (fl_iu fl2) v = width (fl_iu fl) v" "slots_of (fl_iu fl1) v = slots_of (fl_iu fl) v" for v
    using width_killed [OF m'(4)] width_killed [OF same(1)] by simp_all
  have wr: "width (fl_iu fl) (rep v) = width (fl_iu fl) v" for v using rep_okD(3) [OF m'(3), of v] by (simp add: width_def w(2))
  have r: "\<exists>y < temps. rep v = y + ffv \<and> temp_of (fl_iu fl2) (y + ffv)" if "in_range ffv temps v" "temp_of (fl_iu fl) v" for v
  proof -
    have "in_range ffv temps (rep v)" "temp_of (fl_iu fl2) (rep v)"
      using rep_okD [OF m'(3), of v] that killed_temp [OF m'(4)] by (simp_all add: t)
    then show ?thesis by (intro exI [of _ "rep v - ffv"]) (auto simp: in_range_def)
  qed
  show ?thesis
    unfolding placed_def
  proof (intro conjI allI impI)
    show "fl_regframe_size fl \<le> frame'" using same by simp
  next
    fix v assume v: "in_range ffv temps v" "temp_of (fl_iu fl) v"
    obtain y where y: "y < temps" "rep v = y + ffv" "temp_of (fl_iu fl2) (y + ffv)" using r [OF v] by blast
    from x [OF y(1,3)] wr [of v] show "\<exists>iv. value_item iu' (rep v) = Inr iv \<and> iv_class iv = Vc_regframe (reg_at iu' (rep v))"
      "width (fl_iu fl) v \<in> {4, 8}" "width (fl_iu fl) v dvd reg_at iu' (rep v)"
      "fl_regframe_size fl \<le> reg_at iu' (rep v)" "reg_at iu' (rep v) + width (fl_iu fl) v \<le> frame'"
      unfolding y(2) w(1) in_reg_def same(3) by simp_all
  next
    fix v u assume v: "in_range ffv temps v" "in_range ffv temps u" "temp_of (fl_iu fl) v" "temp_of (fl_iu fl) u"
      and c: "conflict ffv (fl_bbs fl) (v - ffv) (u - ffv)"
    obtain y where y: "y < temps" "rep v = y + ffv" "temp_of (fl_iu fl2) (y + ffv)" using r [OF v(1,3)] by blast
    obtain z where z: "z < temps" "rep u = z + ffv" "temp_of (fl_iu fl2) (z + ffv)" using r [OF v(2,4)] by blast
    have "v - ffv < temps" "u - ffv < temps" "v - ffv + ffv = v" "u - ffv + ffv = u" using v(1,2) by (auto simp: in_range_def)
    then have "edge mtx y z" using m'(5) c y(2) z(2) unfolding e by (metis add_diff_cancel_right')
    from xy [OF y(1) z(1) y(3) z(3) this] wr [of v] wr [of u]
    show "regs_apart (reg_at iu' (rep v)) (width (fl_iu fl) v) (reg_at iu' (rep u)) (width (fl_iu fl) u)"
      unfolding y(2) z(2) w(1) by simp
  qed
qed

lemma coalesce_ok:
  assumes perm: "\<And>xs. mset (qsort xs) = mset xs" and inp: "pass_input ffv temps fl"
  shows "\<exists>rep gone fl2. rep_ok ffv temps (fl_iu fl) rep \<and>
    fl_bbs fl2 = map_nodes (rename_node (lift rep)) (drop_nodes gone (fl_bbs fl)) \<and>
    (\<forall>nd \<in> set (nodes_of (fl_bbs fl)). fn_id nd \<in> gone \<longrightarrow> idle_move rep nd) \<and>
    fl2 = fl\<lparr>fl_iu := fl_iu fl2, fl_bbs := fl_bbs fl2, fl_binds := fl_binds fl2\<rparr> \<and>
    (case remove_empty_bb fl2 of Inl e \<Rightarrow> coalesce qsort temps ffv fl = Inl e
     | Inr fl3 \<Rightarrow> \<exists>frame iu'. coalesce qsort temps ffv fl = Inr (fl3\<lparr>fl_regframe_size := frame, fl_iu := iu'\<rparr>) \<and>
         placed ffv temps fl rep frame iu')"
proof -
  obtain mtx0 where in0: "ffv + temps \<le> 2 ^ 32" "tribitmtx_alloc (int temps) = Inr mtx0" "sized_temps ffv temps (fl_iu fl)"
    "\<forall>k < temps. value_edges (fl_iu fl) (k + ffv) = 0" "\<forall>nd \<in> set (nodes_of (fl_bbs fl)). results_in ffv temps nd"
    "linked fl" "moves_ok ffv temps (fl_iu fl) (fl_bbs fl)" using inp unfolding pass_input_def by blast
  have io: "items_ok ffv temps (fl_iu fl)" using in0(3) unfolding sized_temps_def items_ok_def by blast
  from interference_ok [OF in0(2) io in0(4,5,1)] obtain mtx1 iu1 where
    i: "interference ffv mtx0 fl = Inr (mtx1, fl\<lparr>fl_iu := iu1\<rparr>)" "matrix_ok ffv temps (mtx1, iu1)" "same_but_edges (fl_iu fl) iu1"
      "\<And>a b. edge mtx1 a b \<longleftrightarrow> conflict ffv (fl_bbs fl) a b" by blast
  let ?fl1 = "fl\<lparr>fl_iu := iu1\<rparr>"
  have k1: "killed (\<lambda>_. False) (fl_iu fl) iu1" using i(3) by (simp add: killed_same)
  have "linked ?fl1" using in0(6) by (simp add: linked_def links_live_def links_complete_def moves_ok_same(2) [OF k1])
  moreover have "moves_ok ffv temps (fl_iu ?fl1) (fl_bbs ?fl1)" using in0(7) by (simp add: moves_ok_same(1) [OF k1])
  ultimately obtain mtx2 fl2 rep gone where c: "coalesce_moves ffv temps (mtx1, ?fl1) = Inr (mtx2, fl2)"
    and m: "merged ffv temps mtx1 ?fl1 rep gone (mtx2, fl2)"
    using coalesce_moves_ok [of ffv temps mtx1 ?fl1] i(2) in0(1) by fastforce
  note m' = mergedD [OF m]
  have ro: "rep_ok ffv temps (fl_iu fl) rep"
    using m'(3) width_killed(2) [OF k1] by (simp add: rep_ok_def moves_ok_same(2) [OF k1])
  have st: "sized_temps ffv temps (fl_iu fl2)"
    by (rule sized_temps_killed [OF m'(4)]) (simp add: sized_temps_killed [OF k1 in0(3)])
  have fr: "fl_regframe_size fl2 = fl_regframe_size fl" by (subst m'(8)) simp
  obtain frame iu' where a: "reg_alloc qsort mtx2 temps ffv (fl_regframe_size fl, fl_iu fl2) = Inr (frame, iu')"
    "placed ffv temps fl rep frame iu'"
    using vertices_placed [OF perm m'(1) st in0(1), of "fl_regframe_size fl"] placed_merged [OF m i(4), of "fl_regframe_size fl"] k1 by fastforce
  have body: "coalesce qsort temps ffv fl = res_bind (remove_empty_bb fl2) (\<lambda>fl3. Inr (fl3\<lparr>fl_regframe_size := frame, fl_iu := iu'\<rparr>))"
  proof (cases "remove_empty_bb fl2")
    case (Inr fl3)
    have "(fl_regframe_size fl3, fl_iu fl3) = (fl_regframe_size fl, fl_iu fl2)"
      using frame_of_remove [OF Inr] fr by (simp add: frame_of_def)
    then show ?thesis by (simp add: coalesce_def in0(2) i(1) c Inr a(1))
  qed (simp add: coalesce_def in0(2) i(1) c)
  have e: "fl2 = fl\<lparr>fl_iu := fl_iu fl2, fl_bbs := fl_bbs fl2, fl_binds := fl_binds fl2\<rparr>" using m'(8) by simp
  show ?thesis
  proof (intro exI conjI)
    show "rep_ok ffv temps (fl_iu fl) rep" by (rule ro)
    show "fl_bbs fl2 = map_nodes (rename_node (lift rep)) (drop_nodes gone (fl_bbs fl))" using m'(6) by simp
    show "\<forall>nd \<in> set (nodes_of (fl_bbs fl)). fn_id nd \<in> gone \<longrightarrow> idle_move rep nd" using m'(7) by simp
    show "fl2 = fl\<lparr>fl_iu := fl_iu fl2, fl_bbs := fl_bbs fl2, fl_binds := fl_binds fl2\<rparr>" by (rule e)
    show "case remove_empty_bb fl2 of Inl e \<Rightarrow> coalesce qsort temps ffv fl = Inl e
     | Inr fl3 \<Rightarrow> \<exists>frame iu'. coalesce qsort temps ffv fl = Inr (fl3\<lparr>fl_regframe_size := frame, fl_iu := iu'\<rparr>) \<and>
         placed ffv temps fl rep frame iu'"
      using a(2) by (auto simp: body split: sum.splits)
  qed
qed

end
