(* ===== verification/Vmir_Alloc_Exec.thy ===== *)
theory Vmir_Alloc_Exec
  imports Vmir_Alloc
begin

text \<open>
  Register allocation preserves execution. A function is run twice, once with an environment that holds
  every temporary, once with the bytes of the register frame; the two runs take the same path, and hold the
  same values in every temporary that is live. What an instruction computes is a
  parameter, the same for both runs.
\<close>

section \<open>Runs of a flow graph\<close>

text \<open>
  The meaning of the instruction at a place: from the values of its operands and the rest of the state
  to the values of its results, the new state and the next place, \<open>None\<close> at the end.
\<close>

type_synonym 'm meaning = "place \<Rightarrow> u8 list list \<Rightarrow> 'm \<Rightarrow> u8 list list \<times> 'm \<times> place option"

definition operands_of :: "flow_node \<Rightarrow> ir_valuetype list" where
  "operands_of nd = (case gen_values (fn_instr nd) of Inl _ \<Rightarrow> [] | Inr vs \<Rightarrow> vs)"

definition results_of :: "flow_node \<Rightarrow> ir_valuetype list" where
  "results_of nd = (case instr_results (instr_super (fn_instr nd)) of Inl _ \<Rightarrow> [] | Inr rs \<Rightarrow> rs)"

definition run_step :: "('s \<Rightarrow> ir_valuetype \<Rightarrow> u8 list) \<Rightarrow> (ir_valuetype \<times> u8 list \<Rightarrow> 's \<Rightarrow> 's) \<Rightarrow> flow_bb list \<Rightarrow> 'm meaning \<Rightarrow>
    place \<times> 's \<times> 'm \<Rightarrow> (place \<times> 's \<times> 'm) option" where
  "run_step rd wr bbs sem = (\<lambda>(p, s, m).
     let nd = node_at bbs p; (outs, m', q) = sem p (map (rd s) (operands_of nd)) m in
     map_option (\<lambda>q. (q, fold wr (zip (results_of nd) outs) s, m')) q)"

fun run_steps :: "('s \<Rightarrow> ir_valuetype \<Rightarrow> u8 list) \<Rightarrow> (ir_valuetype \<times> u8 list \<Rightarrow> 's \<Rightarrow> 's) \<Rightarrow> flow_bb list \<Rightarrow> 'm meaning \<Rightarrow>
    nat \<Rightarrow> place \<times> 's \<times> 'm \<Rightarrow> (place \<times> 's \<times> 'm) option" where
  "run_steps rd wr bbs sem 0 c = Some c"
| "run_steps rd wr bbs sem (Suc n) c = Option.bind (run_step rd wr bbs sem c) (run_steps rd wr bbs sem n)"

definition val_of :: "ir_valuetype \<Rightarrow> nat" where
  "val_of vt = nat (vt_value vt)"

definition temp_vt :: "ir_unit \<Rightarrow> ir_valuetype \<Rightarrow> bool" where
  "temp_vt iu vt \<longleftrightarrow> 0 \<le> vt_value vt \<and> temp_of iu (val_of vt)"

text \<open>Temporaries in an environment; \<open>other\<close> gives the value of everything else.\<close>

definition rd_env :: "ir_unit \<Rightarrow> (ir_valuetype \<Rightarrow> u8 list) \<Rightarrow> (nat \<Rightarrow> u8 list) \<Rightarrow> ir_valuetype \<Rightarrow> u8 list" where
  "rd_env iu other env vt = (if temp_vt iu vt then env (val_of vt) else other vt)"

definition wr_env :: "ir_valuetype \<times> u8 list \<Rightarrow> (nat \<Rightarrow> u8 list) \<Rightarrow> (nat \<Rightarrow> u8 list)" where
  "wr_env = (\<lambda>(r, x) env. env(val_of r := x))"

text \<open>Temporaries in the register frame, where \<open>loc\<close> says.\<close>

definition peek :: "(int \<Rightarrow> u8) \<Rightarrow> int \<Rightarrow> int \<Rightarrow> u8 list" where
  "peek fr a n = map fr [a..a + n - 1]"

definition poke :: "int \<Rightarrow> int \<Rightarrow> u8 list \<Rightarrow> (int \<Rightarrow> u8) \<Rightarrow> (int \<Rightarrow> u8)" where
  "poke a n x fr = (\<lambda>b. if a \<le> b \<and> b < a + n then x ! nat (b - a) else fr b)"

definition rd_frame :: "ir_unit \<Rightarrow> (nat \<Rightarrow> int) \<Rightarrow> (ir_valuetype \<Rightarrow> u8 list) \<Rightarrow> (int \<Rightarrow> u8) \<Rightarrow> ir_valuetype \<Rightarrow> u8 list" where
  "rd_frame iu loc other fr vt = (if temp_vt iu vt then peek fr (loc (val_of vt)) (width iu (val_of vt)) else other vt)"

definition wr_frame :: "ir_unit \<Rightarrow> (nat \<Rightarrow> int) \<Rightarrow> ir_valuetype \<times> u8 list \<Rightarrow> (int \<Rightarrow> u8) \<Rightarrow> (int \<Rightarrow> u8)" where
  "wr_frame iu loc = (\<lambda>(r, x). poke (loc (val_of r)) (width iu (val_of r)) x)"

lemma peek_poke_same: "length x = nat n \<Longrightarrow> peek (poke a n x fr) a n = x"
proof -
  assume l: "length x = nat n"
  have "map (poke a n x fr) [a..a + n - 1] = map (\<lambda>b. x ! nat (b - a)) [a..a + n - 1]" by (rule map_cong) (auto simp: poke_def)
  also have "\<dots> = x" by (rule nth_equalityI) (auto simp: l)
  finally show ?thesis by (simp add: peek_def)
qed

lemma peek_poke_apart: "regs_apart a n b k \<Longrightarrow> peek (poke a n x fr) b k = peek fr b k"
  by (auto simp: peek_def poke_def regs_apart_def disjoint_iff intro!: map_cong)

section \<open>One write\<close>

definition env_sized :: "ir_unit \<Rightarrow> (nat \<Rightarrow> u8 list) \<Rightarrow> bool" where
  "env_sized iu env \<longleftrightarrow> (\<forall>v. temp_of iu v \<longrightarrow> length (env v) = nat (width iu v))"

definition holds_values :: "ir_unit \<Rightarrow> (nat \<Rightarrow> int) \<Rightarrow> nat set \<Rightarrow> (nat \<Rightarrow> u8 list) \<Rightarrow> (int \<Rightarrow> u8) \<Rightarrow> bool" where
  "holds_values iu loc vs env fr \<longleftrightarrow> (\<forall>v \<in> vs. peek fr (loc v) (width iu v) = env v)"

definition apart :: "ir_unit \<Rightarrow> (nat \<Rightarrow> int) \<Rightarrow> nat \<Rightarrow> nat \<Rightarrow> bool" where
  "apart iu loc v u \<longleftrightarrow> regs_apart (loc v) (width iu v) (loc u) (width iu u)"

lemma write_one:
  assumes "holds_values iu loc vs env fr" "length x = nat (width iu (val_of r))"
    "\<And>v. v \<in> vs \<Longrightarrow> v \<noteq> val_of r \<Longrightarrow> apart iu loc (val_of r) v \<or> loc v = loc (val_of r) \<and> width iu v = width iu (val_of r) \<and> env v = x"
  shows "holds_values iu loc (insert (val_of r) vs) (wr_env (r, x) env) (wr_frame iu loc (r, x) fr)"
  unfolding holds_values_def
proof
  fix v assume v: "v \<in> insert (val_of r) vs"
  show "peek (wr_frame iu loc (r, x) fr) (loc v) (width iu v) = wr_env (r, x) env v"
  proof (cases "v = val_of r")
    case True
    then show ?thesis using peek_poke_same [OF assms(2)] by (simp add: wr_frame_def wr_env_def)
  next
    case False
    then have "peek fr (loc v) (width iu v) = env v" using v assms(1) by (simp add: holds_values_def)
    then show ?thesis using assms(3) [of v] v False peek_poke_apart peek_poke_same [OF assms(2)]
      by (auto simp: wr_frame_def wr_env_def apart_def)
  qed
qed

lemma write_results:
  assumes "holds_values iu loc vs env fr" "vs \<subseteq> out" "\<forall>(r, x) \<in> set ws. length x = nat (width iu (val_of r))"
    "\<And>r x v. (r, x) \<in> set ws \<Longrightarrow> v \<in> out \<Longrightarrow> v \<noteq> val_of r \<Longrightarrow> apart iu loc (val_of r) v"
  shows "holds_values iu loc (vs \<union> (val_of ` fst ` set ws \<inter> out)) (fold wr_env ws env) (fold (wr_frame iu loc) ws fr)"
  using assms
proof (induction ws arbitrary: vs env fr)
  case (Cons w ws)
  obtain r x where w: "w = (r, x)" by (cases w)
  have "holds_values iu loc (insert (val_of r) vs) (wr_env w env) (wr_frame iu loc w fr)"
    unfolding w by (rule write_one [OF Cons.prems(1)]) (use Cons.prems(2-4) w in auto)
  then have "holds_values iu loc (vs \<union> ({val_of r} \<inter> out)) (wr_env w env) (wr_frame iu loc w fr)"
    by (auto simp: holds_values_def)
  from Cons.IH [OF this] Cons.prems(2-4)
  have "holds_values iu loc (vs \<union> ({val_of r} \<inter> out) \<union> (val_of ` fst ` set ws \<inter> out)) (fold wr_env ws (wr_env w env)) (fold (wr_frame iu loc) ws (wr_frame iu loc w fr))"
    by auto
  moreover have "vs \<union> ({val_of r} \<inter> out) \<union> (val_of ` fst ` set ws \<inter> out) = vs \<union> (val_of ` fst ` set (w # ws) \<inter> out)" by (auto simp: w)
  ultimately show ?case by simp
qed auto

lemma env_sized_fold:
  assumes "env_sized iu env" "\<forall>(r, x) \<in> set ws. length x = nat (width iu (val_of r))"
  shows "env_sized iu (fold wr_env ws env)"
  using assms by (induction ws arbitrary: env) (auto simp: env_sized_def wr_env_def)

section \<open>One step\<close>

text \<open>
  A meaning follows the graph, gives every result a value of its size and copies what a move is given.
\<close>

definition meaning_ok :: "ir_unit \<Rightarrow> (ir_valuetype \<Rightarrow> u8 list) \<Rightarrow> flow_bb list \<Rightarrow> 'm meaning \<Rightarrow> bool" where
  "meaning_ok iu other bbs sem \<longleftrightarrow> (\<forall>p \<in> places bbs. \<forall>env m. env_sized iu env \<longrightarrow>
     (let nd = node_at bbs p; vals = map (rd_env iu other env) (operands_of nd); (outs, m', q) = sem p vals m in
      (\<forall>q'. q = Some q' \<longrightarrow> q' \<in> succ_places bbs p) \<and>
      list_all2 (\<lambda>r x. length x = nat (width iu (val_of r))) (results_of nd) outs \<and>
      (move_source (fn_instr nd) \<noteq> None \<longrightarrow> outs = vals)))"

definition live_values :: "nat \<Rightarrow> flow_bb list \<Rightarrow> place \<Rightarrow> nat set" where
  "live_values ffv bbs p = {v + ffv |v. live_before (int ffv) bbs p v}"

definition live_out :: "nat \<Rightarrow> flow_bb list \<Rightarrow> place \<Rightarrow> nat set" where
  "live_out ffv bbs p = {v + ffv |v. live_after (int ffv) bbs p v}"

text \<open>
  What a placement of the temporaries has to guarantee: results apart from what is live after
  them, where a move and its source may share a register or be apart.
\<close>

definition keeps_live :: "ir_unit \<Rightarrow> nat \<Rightarrow> (nat \<Rightarrow> int) \<Rightarrow> flow_bb list \<Rightarrow> bool" where
  "keeps_live iu ffv loc bbs \<longleftrightarrow> (\<forall>p \<in> places bbs. \<forall>r \<in> set (results_of (node_at bbs p)). \<forall>v \<in> live_out ffv bbs p. v \<noteq> val_of r \<longrightarrow>
     apart iu loc (val_of r) v \<or> move_source (fn_instr (node_at bbs p)) = Some (int v) \<and> loc v = loc (val_of r) \<and> width iu v = width iu (val_of r))"

definition graph_temps :: "ir_unit \<Rightarrow> nat \<Rightarrow> flow_bb list \<Rightarrow> bool" where
  "graph_temps iu ffv bbs \<longleftrightarrow> (\<forall>p \<in> places bbs.
     (\<forall>vt \<in> set (operands_of (node_at bbs p)). temp_vt iu vt \<longrightarrow> ffv \<le> val_of vt \<and> val_of vt - ffv \<in> gen_at bbs p) \<and>
     (\<forall>r \<in> set (results_of (node_at bbs p)). int ffv \<le> vt_value r) \<and>
     kill_at (int ffv) bbs p = (\<lambda>r. val_of r - ffv) ` set (results_of (node_at bbs p)) \<and>
     (\<forall>s. move_source (fn_instr (node_at bbs p)) = Some s \<longrightarrow>
        (\<exists>v r. operands_of (node_at bbs p) = [v] \<and> vt_value v = s \<and> results_of (node_at bbs p) = [r])))"

lemma live_step:
  assumes "graph_temps iu ffv bbs" "p \<in> places bbs"
  shows "live_out ffv bbs p - val_of ` set (results_of (node_at bbs p)) \<subseteq> live_values ffv bbs p"
    "q \<in> succ_places bbs p \<Longrightarrow> live_values ffv bbs q \<subseteq> live_out ffv bbs p"
proof -
  have k: "kill_at (int ffv) bbs p = (\<lambda>r. val_of r - ffv) ` set (results_of (node_at bbs p))"
    and r0: "\<And>r. r \<in> set (results_of (node_at bbs p)) \<Longrightarrow> int ffv \<le> vt_value r" using assms unfolding graph_temps_def by blast+
  have r: "ffv \<le> val_of r" if "r \<in> set (results_of (node_at bbs p))" for r using r0 [OF that] by (simp add: val_of_def)
  show "live_out ffv bbs p - val_of ` set (results_of (node_at bbs p)) \<subseteq> live_values ffv bbs p"
  proof
    fix u assume "u \<in> live_out ffv bbs p - val_of ` set (results_of (node_at bbs p))"
    then obtain v where v: "u = v + ffv" "live_after (int ffv) bbs p v" "v + ffv \<notin> val_of ` set (results_of (node_at bbs p))" by (auto simp: live_out_def)
    have "v \<notin> kill_at (int ffv) bbs p" using v(3) r unfolding k by (force simp: image_iff)
    then have "live_before (int ffv) bbs p v" using v(2) by (auto simp: live_after_def intro: live_before.passed)
    then show "u \<in> live_values ffv bbs p" using v(1) by (auto simp: live_values_def)
  qed
  show "q \<in> succ_places bbs p \<Longrightarrow> live_values ffv bbs q \<subseteq> live_out ffv bbs p" by (auto simp: live_values_def live_out_def live_after_def)
qed

text \<open>The operands have the same values in both machines.\<close>

lemma operands_agree:
  assumes "graph_temps iu ffv bbs" "p \<in> places bbs" "holds_values iu loc (live_values ffv bbs p) env fr"
  shows "map (rd_frame iu loc other fr) (operands_of (node_at bbs p)) = map (rd_env iu other env) (operands_of (node_at bbs p))"
proof (rule map_cong [OF refl])
  fix vt assume vt: "vt \<in> set (operands_of (node_at bbs p))"
  show "rd_frame iu loc other fr vt = rd_env iu other env vt"
  proof (cases "temp_vt iu vt")
    case True
    then have "ffv \<le> val_of vt" "val_of vt - ffv \<in> gen_at bbs p" using assms(1,2) vt by (auto simp: graph_temps_def)
    then have "val_of vt \<in> live_values ffv bbs p" unfolding live_values_def
      by (intro CollectI exI [of _ "val_of vt - ffv"]) (auto intro: live_before.used)
    then show ?thesis using assms(3) True by (simp add: rd_frame_def rd_env_def holds_values_def)
  qed (simp add: rd_frame_def rd_env_def)
qed

lemma writes_agree:
  assumes gt: "graph_temps iu ffv bbs" and p: "p \<in> places bbs" and kl: "keeps_live iu ffv loc bbs"
    and h: "holds_values iu loc (live_values ffv bbs p) env fr"
    and len: "list_all2 (\<lambda>r x. length x = nat (width iu (val_of r))) (results_of (node_at bbs p)) outs"
    and mv: "move_source (fn_instr (node_at bbs p)) \<noteq> None \<Longrightarrow> outs = map (rd_env iu other env) (operands_of (node_at bbs p))"
    and tl: "\<And>v. v \<in> live_out ffv bbs p \<Longrightarrow> temp_of iu v"
  shows "holds_values iu loc (live_out ffv bbs p) (fold wr_env (zip (results_of (node_at bbs p)) outs) env)
    (fold (wr_frame iu loc) (zip (results_of (node_at bbs p)) outs) fr)"
proof -
  let ?rs = "results_of (node_at bbs p)" and ?out = "live_out ffv bbs p"
  have h0: "holds_values iu loc (?out - val_of ` set ?rs) env fr" using h live_step(1) [OF gt p] by (auto simp: holds_values_def)
  have ll: "length ?rs = length outs" using len by (rule list_all2_lengthD)
  have w: "\<forall>(r, x) \<in> set (zip ?rs outs). length x = nat (width iu (val_of r))" using len by (auto simp: list_all2_iff)
  have fst: "fst ` set (zip ?rs outs) = set ?rs" using ll by (simp flip: set_map)
  show ?thesis
  proof (cases "move_source (fn_instr (node_at bbs p))")
    case None
    have "apart iu loc (val_of r) v" if "(r, x) \<in> set (zip ?rs outs)" "v \<in> ?out" "v \<noteq> val_of r" for r x v
      using kl p that None set_zip_leftD [OF that(1)] by (fastforce simp: keeps_live_def)
    from write_results [OF h0 _ w this] have "holds_values iu loc (?out - val_of ` set ?rs \<union> val_of ` set ?rs \<inter> ?out)
      (fold wr_env (zip ?rs outs) env) (fold (wr_frame iu loc) (zip ?rs outs) fr)" by (simp add: fst)
    moreover have "?out - val_of ` set ?rs \<union> val_of ` set ?rs \<inter> ?out = ?out" by blast
    ultimately show ?thesis by simp
  next
    case (Some s)
    then obtain v r where vr: "operands_of (node_at bbs p) = [v]" "vt_value v = s" "?rs = [r]"
      using gt p unfolding graph_temps_def by blast
    have o': "outs = [rd_env iu other env v]" using mv Some vr(1) by simp
    have "holds_values iu loc (insert (val_of r) (?out - {val_of r})) (wr_env (r, rd_env iu other env v) env) (wr_frame iu loc (r, rd_env iu other env v) fr)"
    proof (rule write_one)
      show "holds_values iu loc (?out - {val_of r}) env fr" using h0 by (simp add: vr(3))
      show "length (rd_env iu other env v) = nat (width iu (val_of r))" using len by (simp add: vr(3) o')
      fix u assume u: "u \<in> ?out - {val_of r}" "u \<noteq> val_of r"
      have "apart iu loc (val_of r) u \<or> s = int u \<and> loc u = loc (val_of r) \<and> width iu u = width iu (val_of r)"
        using kl p u Some vr(3) unfolding keeps_live_def by fastforce
      moreover have "env u = rd_env iu other env v" if "s = int u"
        using that vr(2) tl [of u] u(1) by (simp add: rd_env_def temp_vt_def val_of_def)
      ultimately show "apart iu loc (val_of r) u \<or> loc u = loc (val_of r) \<and> width iu u = width iu (val_of r) \<and> env u = rd_env iu other env v" by blast
    qed
    then show ?thesis by (auto simp: vr(3) o' holds_values_def)
  qed
qed

text \<open>The two machines in step.\<close>

definition in_step :: "ir_unit \<Rightarrow> nat \<Rightarrow> (nat \<Rightarrow> int) \<Rightarrow> flow_bb list \<Rightarrow> (place \<times> (nat \<Rightarrow> u8 list) \<times> 'm) option \<Rightarrow>
    (place \<times> (int \<Rightarrow> u8) \<times> 'm) option \<Rightarrow> bool" where
  "in_step iu ffv loc bbs c d = (case (c, d) of
     (None, None) \<Rightarrow> True
   | (Some (p, env, m), Some (p', fr, m')) \<Rightarrow> p' = p \<and> m' = m \<and> p \<in> places bbs \<and> env_sized iu env \<and> holds_values iu loc (live_values ffv bbs p) env fr
   | _ \<Rightarrow> False)"

lemma step_agrees:
  assumes gt: "graph_temps iu ffv bbs" and kl: "keeps_live iu ffv loc bbs" and sem: "meaning_ok iu other bbs sem"
    and sp: "\<And>p. p \<in> places bbs \<Longrightarrow> succ_places bbs p \<subseteq> places bbs"
    and tl: "\<And>p v. p \<in> places bbs \<Longrightarrow> v \<in> live_out ffv bbs p \<Longrightarrow> temp_of iu v"
    and st: "in_step iu ffv loc bbs (Some (p, env, m)) (Some (p, fr, m))"
  shows "in_step iu ffv loc bbs (run_step (rd_env iu other) wr_env bbs sem (p, env, m)) (run_step (rd_frame iu loc other) (wr_frame iu loc) bbs sem (p, fr, m))"
proof -
  have p: "p \<in> places bbs" and es: "env_sized iu env" and h: "holds_values iu loc (live_values ffv bbs p) env fr"
    using st by (simp_all add: in_step_def)
  let ?vals = "map (rd_env iu other env) (operands_of (node_at bbs p))" and ?rs = "results_of (node_at bbs p)"
  obtain outs m' q where o': "sem p ?vals m = (outs, m', q)" by (cases "sem p ?vals m") auto
  have s: "\<And>q'. q = Some q' \<Longrightarrow> q' \<in> succ_places bbs p" "list_all2 (\<lambda>r x. length x = nat (width iu (val_of r))) ?rs outs"
    "move_source (fn_instr (node_at bbs p)) \<noteq> None \<Longrightarrow> outs = ?vals"
    using sem [unfolded meaning_ok_def, rule_format, OF p es, of m] o' by (auto simp: Let_def)
  have w: "\<forall>(r, x) \<in> set (zip ?rs outs). length x = nat (width iu (val_of r))" using s(2) by (auto simp: list_all2_iff)
  note out = writes_agree [OF gt p kl h s(2,3) tl [OF p]]
  show ?thesis
  proof (cases q)
    case None
    then show ?thesis using o' by (simp add: run_step_def operands_agree [OF gt p h] in_step_def)
  next
    case (Some q')
    have "holds_values iu loc (live_values ffv bbs q') (fold wr_env (zip ?rs outs) env) (fold (wr_frame iu loc) (zip ?rs outs) fr)"
      using out live_step(2) [OF gt p s(1) [OF Some]] by (auto simp: holds_values_def)
    then show ?thesis using o' Some env_sized_fold [OF es w] sp [OF p] s(1)
      by (auto simp: run_step_def operands_agree [OF gt p h] in_step_def)
  qed
qed

lemma runs_agree:
  assumes gt: "graph_temps iu ffv bbs" and kl: "keeps_live iu ffv loc bbs" and sem: "meaning_ok iu other bbs sem"
    and sp: "\<And>p. p \<in> places bbs \<Longrightarrow> succ_places bbs p \<subseteq> places bbs"
    and tl: "\<And>p v. p \<in> places bbs \<Longrightarrow> v \<in> live_out ffv bbs p \<Longrightarrow> temp_of iu v"
    and eq: "\<And>p fr m. p \<in> places bbs \<Longrightarrow>
      run_step rd wr bbs' sem (p, fr, m) = run_step (rd_frame iu loc other) (wr_frame iu loc) bbs sem (p, fr, m)"
    and st: "in_step iu ffv loc bbs (Some (p, env, m)) (Some (p, fr, m))"
  shows "in_step iu ffv loc bbs (run_steps (rd_env iu other) wr_env bbs sem n (p, env, m)) (run_steps rd wr bbs' sem n (p, fr, m))"
  using st
proof (induction n arbitrary: p env fr m)
  case (Suc n)
  have p: "p \<in> places bbs" using Suc.prems by (simp add: in_step_def)
  have s: "in_step iu ffv loc bbs (run_step (rd_env iu other) wr_env bbs sem (p, env, m)) (run_step rd wr bbs' sem (p, fr, m))"
    unfolding eq [OF p] by (rule step_agrees [OF gt kl sem sp _ Suc.prems]) (use tl in blast)+
  show ?case
  proof (cases "run_step (rd_env iu other) wr_env bbs sem (p, env, m)")
    case None
    then show ?thesis using s by (auto simp: in_step_def split: option.splits)
  next
    case (Some c)
    obtain p1 env1 m1 where c: "c = (p1, env1, m1)" by (cases c) auto
    with Some s obtain fr1 where d: "run_step rd wr bbs' sem (p, fr, m) = Some (p1, fr1, m1)"
      by (auto simp: in_step_def split: option.splits)
    have "in_step iu ffv loc bbs (Some (p1, env1, m1)) (Some (p1, fr1, m1))" using s unfolding Some c d .
    from Suc.IH [OF this] show ?thesis by (simp add: Some c d)
  qed
qed simp

section \<open>The renamed function\<close>

lemma node_at_map:
  assumes "p \<in> places bbs"
  shows "node_at (map_nodes g bbs) p = g (node_at bbs p)"
  using assms by (auto simp: node_at_def places_def map_nodes_def)

lemma renamed_node:
  assumes "renaming f" "gen_values (fn_instr nd) = Inr vs"
  shows "operands_of (rename_node f nd) = map (map_vt f) (operands_of nd)" "results_of (rename_node f nd) = map (map_vt f) (results_of nd)"
  using instr_super_map [OF assms(1), of "fn_instr nd"] gen_values_map [OF assms] assms(2) instr_results_map [OF assms(1)]
  by (auto simp: operands_of_def results_of_def split: sum.splits)

lemma temp_vt_map:
  assumes "rep_ok ffv temps iu rep"
  shows "temp_vt iu (map_vt (lift rep) vt) \<longleftrightarrow> temp_vt iu vt" "0 \<le> vt_value vt \<Longrightarrow> val_of (map_vt (lift rep) vt) = rep (val_of vt)"
    "\<not> temp_vt iu vt \<Longrightarrow> map_vt (lift rep) vt = vt"
proof -
  show v: "0 \<le> vt_value vt \<Longrightarrow> val_of (map_vt (lift rep) vt) = rep (val_of vt)" by (simp add: val_of_def)
  show "temp_vt iu (map_vt (lift rep) vt) \<longleftrightarrow> temp_vt iu vt"
    using v rep_okD(2) [OF assms] by (cases "0 \<le> vt_value vt") (auto simp: temp_vt_def lift_def)
  assume t: "\<not> temp_vt iu vt"
  have "lift rep (vt_value vt) = vt_value vt"
  proof (cases "0 \<le> vt_value vt")
    case True
    then have "rep (nat (vt_value vt)) = nat (vt_value vt)" using t assms unfolding rep_ok_def temp_vt_def val_of_def by blast
    then show ?thesis using True by simp
  qed (simp add: lift_def)
  then show "map_vt (lift rep) vt = vt" by (rule map_vt_idem)
qed

lemma width_rep: "rep_ok ffv temps iu rep \<Longrightarrow> width iu (rep v) = width iu v"
  using rep_okD(3) [of ffv temps iu rep v] by (simp add: width_def)

lemma step_renamed:
  assumes r: "rep_ok ffv temps iu rep" and p: "p \<in> places bbs" and g: "gen_values (fn_instr (node_at bbs p)) = Inr vs"
    and rs: "\<forall>r \<in> set (results_of (node_at bbs p)). temp_vt iu r"
  shows "run_step (rd_frame iu loc other) (wr_frame iu loc) (map_nodes (rename_node (lift rep)) bbs) sem (p, fr, m) =
    run_step (rd_frame iu (loc \<circ> rep) other) (wr_frame iu (loc \<circ> rep)) bbs sem (p, fr, m)"
proof -
  let ?nd = "node_at bbs p"
  have rd: "rd_frame iu loc other fr (map_vt (lift rep) vt) = rd_frame iu (loc \<circ> rep) other fr vt" for vt
  proof (cases "temp_vt iu vt")
    case True
    then show ?thesis using temp_vt_map(1,2) [OF r, of vt] width_rep [OF r] by (simp add: rd_frame_def temp_vt_def)
  next
    case False
    then show ?thesis using temp_vt_map(3) [OF r False] by (simp add: rd_frame_def)
  qed
  have wr: "fold (wr_frame iu loc) (zip (map (map_vt (lift rep)) xs) outs) fr = fold (wr_frame iu (loc \<circ> rep)) (zip xs outs) fr"
    if "\<forall>x \<in> set xs. temp_vt iu x" for xs outs fr
    using that
  proof (induction xs arbitrary: outs fr)
    case (Cons x xs)
    have w: "wr_frame iu loc (map_vt (lift rep) x, y) = wr_frame iu (loc \<circ> rep) (x, y)" for y
      using Cons.prems temp_vt_map(2) [OF r, of x] width_rep [OF r] by (simp add: wr_frame_def temp_vt_def)
    have "\<forall>x \<in> set xs. temp_vt iu x" using Cons.prems by simp
    note IH = Cons.IH [OF this]
    show ?case
    proof (cases outs)
      case (Cons y ys)
      show ?thesis unfolding Cons list.map zip_Cons_Cons fold_simps w IH ..
    qed simp
  qed simp
  show ?thesis
    by (simp add: run_step_def node_at_map [OF p] renamed_node [OF renaming_lift g] rd wr [OF rs] Let_def comp_def)
qed

end
