(* ===== verification/Vmir_Alloc_Sound.thy ===== *)
theory Vmir_Alloc_Sound
  imports Vmir_Alloc_Exec
begin

text \<open>
  Register allocation from end to end: from the function that \<open>liveness_analysis\<close> is given to the registers
  and the instructions it leaves.
\<close>

section \<open>The input\<close>

text \<open>
  \<open>bbs0\<close> is the function once liveness has been set up. No value of the function has neighbours yet, its
  temporaries and only they are live in it, and each of them takes one or two slots.
\<close>

definition alloc_input :: "flow \<Rightarrow> flow_bb list \<Rightarrow> bool" where
  "alloc_input fl bbs0 \<longleftrightarrow> (let iu = fl_iu fl; ffv = iu_first_func_value iu; temps = iu_next_value iu - ffv in
     liveness_init iu (fl_bbs fl) = Inr bbs0 \<and> graph_ok (setwords_of iu) (int ffv) bbs0 \<and> ffv + temps \<le> 2 ^ 31 \<and>
     (\<exists>mtx. tribitmtx_alloc (int temps) = Inr mtx) \<and> sized_temps ffv temps iu \<and> (\<forall>k < temps. value_edges iu (k + ffv) = 0) \<and>
     (\<forall>v. temp_of iu v \<longrightarrow> in_range ffv temps v) \<and> (\<forall>nd \<in> set (nodes_of (fl_bbs fl)). \<forall>r \<in> set (results_of nd). temp_vt iu r) \<and>
     linked fl \<and> moves_ok ffv temps iu (fl_bbs fl))"

section \<open>Graphs with the same instructions\<close>

definition shape :: "flow_bb list \<Rightarrow> (nat \<times> ir_instr) list" where
  "shape bbs = map (\<lambda>nd. (fn_id nd, fn_instr nd)) (nodes_of bbs)"

lemma shape_ids: "map fn_id (nodes_of bbs) = map fst (shape bbs)" "fn_id ` set (nodes_of bbs) = fst ` set (shape bbs)"
  by (simp_all add: shape_def comp_def image_image)

lemma instrs_ok_shape: "instrs_ok bbs \<longleftrightarrow> distinct (map fst (shape bbs)) \<and> (\<forall>(i, ii) \<in> set (shape bbs). instr_ok ii)"
  by (auto simp: instrs_ok_def shape_def comp_def)

lemma links_shape:
  "links_live fl \<longleftrightarrow> (\<forall>(v, i, out) \<in> set (fl_binds fl). i \<in> fst ` set (shape (fl_bbs fl)))"
  "links_complete temp fl \<longleftrightarrow> (\<forall>(i, ii) \<in> set (shape (fl_bbs fl)). \<forall>v. temp v \<and> int v \<in> mentions ii \<longrightarrow> (\<exists>out. (v, i, out) \<in> set (fl_binds fl)))"
  by (simp_all add: links_live_def shape_ids links_complete_def) (auto simp: shape_def)

lemma moves_shape: "moves_ok ffv temps iu bbs \<longleftrightarrow> (\<forall>(i, x) \<in> set (shape bbs). \<forall>ii. x = IR_IC_MOVE ii \<longrightarrow>
     (\<exists>r s. vt_value (ii_ret (imo_super ii)) = int r \<and> vt_value (imo_value ii) = int s \<and> in_range ffv temps r \<and> temp_of iu r \<and>
        s < ffv + temps \<and> (ffv \<le> s \<longrightarrow> temp_of iu s \<longrightarrow> slots_of iu s = slots_of iu r)))"
  by (auto simp: moves_ok_def shape_def)

lemma linked_shape: "shape bbs = shape (fl_bbs fl) \<Longrightarrow> linked (fl\<lparr>fl_bbs := bbs\<rparr>) \<longleftrightarrow> linked fl"
  by (simp add: linked_def links_shape instrs_ok_shape)

lemma shape_skel:
  assumes "skel bbs = skel bbs'"
  shows "shape bbs = shape bbs'"
proof -
  have "shape bbs = map (\<lambda>nd. (fn_id nd, fn_instr nd)) (nodes_of (skel bbs))" for bbs
    by (simp add: shape_def nodes_of_def skel_def map_concat comp_def skel_node_def)
  then show ?thesis using assms by simp
qed

lemma shape_init:
  assumes "liveness_init iu bbs = Inr bbs0"
  shows "shape bbs0 = shape bbs"
proof -
  have n: "(fn_id nd', fn_instr nd') = (fn_id nd, fn_instr nd)" if "node_init iu bbs nd = Inr nd'" for nd nd'
    using that by (auto simp: node_init_def Let_def res_bind_eq_Inr)
  have "list_all2 (\<lambda>bb bb0. list_all2 (\<lambda>nd nd'. node_init iu bbs nd = Inr nd') (fb_nodes bb) (fb_nodes bb0)) bbs bbs0"
    using res_map_list_all2 [OF assms [unfolded liveness_init_def]]
    by (rule list_all2_mono) (auto simp: res_bind_eq_Inr dest: res_map_list_all2)
  then have "list_all2 (\<lambda>nd nd'. (fn_id nd', fn_instr nd') = (fn_id nd, fn_instr nd)) (nodes_of bbs) (nodes_of bbs0)"
    unfolding nodes_of_def
    by (induction rule: list_all2_induct) (auto intro!: list_all2_appendI elim: list_all2_mono simp: n [THEN sym] dest: n)
  then show ?thesis unfolding shape_def by (induction rule: list_all2_induct) auto
qed

lemma node_in: "p \<in> places bbs \<Longrightarrow> node_at bbs p \<in> set (nodes_of bbs)"
  by (auto simp: places_def node_at_def nodes_of_def) (metis nth_mem)

lemma in_places: "nd \<in> set (nodes_of bbs) \<Longrightarrow> \<exists>p \<in> places bbs. nd = node_at bbs p"
  by (auto simp: places_def node_at_def nodes_of_def in_set_conv_nth) fastforce

section \<open>What liveness gives\<close>

lemma live_temp:
  assumes "live_before ffv bbs0 p v" "p \<in> places bbs0" "\<And>p. p \<in> places bbs0 \<Longrightarrow> succ_places bbs0 p \<subseteq> places bbs0"
    "\<And>p v. p \<in> places bbs0 \<Longrightarrow> v \<in> gen_at bbs0 p \<Longrightarrow> P v"
  shows "P v"
  using assms(1,2) by (induction rule: live_before.induct) (use assms(3,4) in blast)+

lemma set_gen_bound:
  "res_fold (liveness_set_value iu) bs vts = Inr g \<Longrightarrow> vt \<in> set vts \<Longrightarrow> value_at iu (word_of_int (vt_value vt)) = Inr iv \<Longrightarrow>
   iv_class iv = Vc_temporary \<Longrightarrow> int (iu_first_func_value iu) \<le> vt_value vt \<and> vt_value vt < int (iu_first_func_value iu + 32 * length bs)"
proof (induction vts arbitrary: bs)
  case (Cons x vts)
  then obtain b1 where b1: "liveness_set_value iu bs x = Inr b1" "res_fold (liveness_set_value iu) b1 vts = Inr g"
    by (auto simp: res_bind_eq_Inr)
  have l: "length b1 = length bs"
    using b1(1) by (auto simp: liveness_set_value_def Let_def res_bind_eq_Inr split: if_splits)
  show ?case
  proof (cases "vt = x")
    case True
    then show ?thesis using b1(1) Cons.prems(3,4)
      by (auto simp: liveness_set_value_def Let_def res_bind_eq_Inr c_assert_def bs_index_def split: if_splits)
  next
    case False
    then show ?thesis using Cons.IH [OF b1(2) _ Cons.prems(3,4)] Cons.prems(2) l by simp
  qed
qed simp

text \<open>A used value that is a temporary is one of the function, and its bit is that of its number.\<close>

lemma gen_temps:
  assumes "node_init iu bbs nd = Inr nd'" "gen_values (fn_instr nd) = Inr vts" "\<And>v. temp_of iu v \<Longrightarrow> in_range (iu_first_func_value iu) temps v"
    "iu_first_func_value iu + temps \<le> 2 ^ 31" "temps = iu_next_value iu - iu_first_func_value iu"
  shows "bitset_members (fn_gen nd') = {val_of vt - iu_first_func_value iu |vt. vt \<in> set vts \<and> temp_vt iu vt}"
    "vt \<in> set vts \<Longrightarrow> value_at iu (word_of_int (vt_value vt)) = Inr iv \<Longrightarrow> iv_class iv = Vc_temporary \<Longrightarrow> temp_vt iu vt \<and> iu_first_func_value iu \<le> val_of vt"
proof -
  let ?ffv = "iu_first_func_value iu"
  obtain g where g: "res_fold (liveness_set_value iu) (replicate (setwords_of iu) 0) vts = Inr g"
    using assms(1,2) by (auto simp: node_init_def Let_def res_bind_eq_Inr liveness_set_gen_def)
  have w: "?ffv + 32 * setwords_of iu < 2 ^ 32" using assms(4,5) by (simp add: setwords_of_def)
  have key: "(\<exists>iv. value_at iu (word_of_int (vt_value vt)) = Inr iv \<and> iv_class iv = Vc_temporary) \<longleftrightarrow> temp_vt iu vt"
    "temp_vt iu vt \<Longrightarrow> ?ffv \<le> val_of vt" if vt: "vt \<in> set vts" for vt
  proof -
    show 1: "temp_vt iu vt \<Longrightarrow> ?ffv \<le> val_of vt" using assms(3) by (simp add: temp_vt_def in_range_def)
    have at: "value_at iu (word_of_int (vt_value vt)) = Inr iv \<longleftrightarrow> value_item iu (val_of vt) = Inr iv" if "0 \<le> vt_value vt" "vt_value vt < 2 ^ 32" for iv
    proof -
      have "word_of_int (vt_value vt) = (of_nat (val_of vt) :: u32)" "val_of vt < 2 ^ 32" using that by (simp_all add: val_of_def)
      then show ?thesis using value_at_item by metis
    qed
    show "(\<exists>iv. value_at iu (word_of_int (vt_value vt)) = Inr iv \<and> iv_class iv = Vc_temporary) \<longleftrightarrow> temp_vt iu vt"
    proof
      assume "\<exists>iv. value_at iu (word_of_int (vt_value vt)) = Inr iv \<and> iv_class iv = Vc_temporary"
      then obtain iv where iv: "value_at iu (word_of_int (vt_value vt)) = Inr iv" "iv_class iv = Vc_temporary" by blast
      have "int ?ffv \<le> vt_value vt" "vt_value vt < 2 ^ 32" using set_gen_bound [OF g vt iv] w by auto
      then show "temp_vt iu vt" using at iv by (auto simp: temp_vt_def temp_of_def)
    next
      assume t: "temp_vt iu vt"
      then obtain iv where iv: "value_item iu (val_of vt) = Inr iv" "iv_class iv = Vc_temporary" "0 \<le> vt_value vt" by (auto simp: temp_vt_def temp_of_def)
      show "\<exists>iv. value_at iu (word_of_int (vt_value vt)) = Inr iv \<and> iv_class iv = Vc_temporary"
      proof (cases "vt_value vt < 2 ^ 32")
        case True
        then show ?thesis using at iv by blast
      next
        case False
        then show ?thesis using assms(3,4) t by (fastforce simp: temp_vt_def in_range_def val_of_def)
      qed
    qed
  qed
  have "bitset_members (fn_gen nd') = temporaries iu vts" using node_init_fields(5) [OF assms(1)] assms(2) by auto
  moreover have "nat (vt_value vt - int ?ffv) = val_of vt - ?ffv" for vt by (simp add: val_of_def nat_diff_distrib')
  ultimately show "bitset_members (fn_gen nd') = {val_of vt - ?ffv |vt. vt \<in> set vts \<and> temp_vt iu vt}"
    using key(1) by (simp add: temporaries_def cong: conj_cong)
  show "vt \<in> set vts \<Longrightarrow> value_at iu (word_of_int (vt_value vt)) = Inr iv \<Longrightarrow> iv_class iv = Vc_temporary \<Longrightarrow> temp_vt iu vt \<and> ?ffv \<le> val_of vt"
    using key by blast
qed

section \<open>The pass gets what it needs\<close>

lemma alloc_inputD:
  assumes "alloc_input fl bbs0" "iu = fl_iu fl" "ffv = iu_first_func_value iu" "temps = iu_next_value iu - ffv"
  shows "liveness_init iu (fl_bbs fl) = Inr bbs0" "graph_ok (setwords_of iu) (int ffv) bbs0" "ffv + temps \<le> 2 ^ 31"
    "\<exists>mtx. tribitmtx_alloc (int temps) = Inr mtx" "sized_temps ffv temps iu" "\<forall>k < temps. value_edges iu (k + ffv) = 0"
    "\<And>v. temp_of iu v \<Longrightarrow> in_range ffv temps v" "\<forall>nd \<in> set (nodes_of (fl_bbs fl)). \<forall>r \<in> set (results_of nd). temp_vt iu r"
    "linked fl" "moves_ok ffv temps iu (fl_bbs fl)"
  using assms(1) unfolding alloc_input_def Let_def assms(2-4) by auto

lemma shape_node:
  assumes "shape bbs = shape bbs'" "nd \<in> set (nodes_of bbs)"
  shows "\<exists>nd' \<in> set (nodes_of bbs'). fn_id nd' = fn_id nd \<and> fn_instr nd' = fn_instr nd"
proof -
  have "(fn_id nd, fn_instr nd) \<in> set (shape bbs')" unfolding assms(1) [symmetric] using assms(2) by (auto simp: shape_def)
  then show ?thesis by (auto simp: shape_def)
qed

lemma nat_sub: "nat (a - int b) = nat a - b"
  by arith

lemma alloc_facts:
  assumes inp: "alloc_input fl bbs0" and iu: "iu = fl_iu fl" "ffv = iu_first_func_value iu" "temps = iu_next_value iu - ffv"
  shows "graph_temps iu ffv bbs0" "p \<in> places bbs0 \<Longrightarrow> succ_places bbs0 p \<subseteq> places bbs0"
    "p \<in> places bbs0 \<Longrightarrow> v \<in> live_out ffv bbs0 p \<Longrightarrow> temp_of iu v"
    "p \<in> places bbs0 \<Longrightarrow> r \<in> set (results_of (node_at bbs0 p)) \<Longrightarrow> temp_vt iu r \<and> int ffv \<le> vt_value r \<and> in_range ffv temps (val_of r)"
    "p \<in> places bbs0 \<Longrightarrow> \<exists>vs. gen_values (fn_instr (node_at bbs0 p)) = Inr vs"
proof -
  note d = alloc_inputD [OF inp iu]
  note ln = liveness_init_nodes [OF d(1)]
  have sh: "shape bbs0 = shape (fl_bbs fl)" by (rule shape_init [OF d(1)])
  show succ: "succ_places bbs0 p \<subseteq> places bbs0" if "p \<in> places bbs0" for p by (rule succ_in_places [OF d(2) that])
  have ni: "node_init iu (fl_bbs fl) (node_at (fl_bbs fl) p) = Inr (node_at bbs0 p)" "fn_instr (node_at bbs0 p) = fn_instr (node_at (fl_bbs fl) p)"
    if "p \<in> places bbs0" for p using ln(2) [OF that] node_init_fields(3) by auto
  show gv: "\<exists>vs. gen_values (fn_instr (node_at bbs0 p)) = Inr vs" if "p \<in> places bbs0" for p
    using node_init_fields(5) [OF ni(1) [OF that]] ni(2) [OF that] by auto
  have gen: "gen_at bbs0 p = {val_of vt - ffv |vt. vt \<in> set (operands_of (node_at bbs0 p)) \<and> temp_vt iu vt}" if p: "p \<in> places bbs0" for p
  proof -
    obtain vs where vs: "gen_values (fn_instr (node_at bbs0 p)) = Inr vs" using gv [OF p] by blast
    have "gen_values (fn_instr (node_at (fl_bbs fl) p)) = Inr vs" using vs ni(2) [OF p] by simp
    from gen_temps(1) [OF ni(1) [OF p] this, of temps] d(3,7) iu show ?thesis by (simp add: gen_at_def operands_of_def vs)
  qed
  show res: "temp_vt iu r \<and> int ffv \<le> vt_value r \<and> in_range ffv temps (val_of r)"
    if "p \<in> places bbs0" "r \<in> set (results_of (node_at bbs0 p))" for p r
  proof -
    note pr = that
    obtain nd' where "nd' \<in> set (nodes_of (fl_bbs fl))" "fn_instr nd' = fn_instr (node_at bbs0 p)" using shape_node [OF sh node_in [OF pr(1)]] by blast
    then have t: "temp_vt iu r" using d(8) pr(2) by (force simp: results_of_def)
    then have "in_range ffv temps (val_of r)" using d(7) by (simp add: temp_vt_def)
    then show ?thesis using t by (auto simp: in_range_def temp_vt_def val_of_def)
  qed
  show "temp_of iu v" if "p \<in> places bbs0" "v \<in> live_out ffv bbs0 p" for p v
  proof -
    note pv = that
    obtain x q where x: "v = x + ffv" "q \<in> succ_places bbs0 p" "live_before (int ffv) bbs0 q x" using pv(2) by (auto simp: live_out_def live_after_def)
    have q: "q \<in> places bbs0" using succ [OF pv(1)] x(2) by blast
    have "temp_of iu (x + ffv)"
    proof (rule live_temp [OF x(3) q succ])
      fix p y assume "p \<in> places bbs0" "y \<in> gen_at bbs0 p"
      then obtain vt where "y = val_of vt - ffv" "temp_vt iu vt" using gen by blast
      then show "temp_of iu (y + ffv)" using d(7) by (auto simp: temp_vt_def in_range_def)
    qed
    then show ?thesis using x(1) by simp
  qed
  have mo: "moves_ok ffv temps iu bbs0" using d(10) sh by (simp add: moves_shape)
  have mv: "\<exists>v r. operands_of (node_at bbs0 p) = [v] \<and> vt_value v = s \<and> results_of (node_at bbs0 p) = [r]"
    if p: "p \<in> places bbs0" and s: "move_source (fn_instr (node_at bbs0 p)) = Some s" for p s
  proof -
    obtain ii where ii: "fn_instr (node_at bbs0 p) = IR_IC_MOVE ii" "vt_value (imo_value ii) = s" using s by (cases "fn_instr (node_at bbs0 p)") auto
    then obtain r where "vt_value (ii_ret (imo_super ii)) = int r" using mo node_in [OF p] unfolding moves_ok_def by blast
    then show ?thesis using ii by (simp add: operands_of_def results_of_def instr_results_def)
  qed
  have kill: "kill_at (int ffv) bbs0 p = (\<lambda>r. val_of r - ffv) ` set (results_of (node_at bbs0 p))" for p
    by (simp add: kill_at_def results_of_def val_of_def nat_sub split: sum.split)
  show "graph_temps iu ffv bbs0"
    unfolding graph_temps_def using gen d(7) res mv kill by (auto simp: temp_vt_def in_range_def)
qed

lemma alloc_pass:
  assumes inp: "alloc_input fl bbs0" and iu: "iu = fl_iu fl" "ffv = iu_first_func_value iu" "temps = iu_next_value iu - ffv"
  shows "\<exists>bbs'. liveness_sets iu (fl_bbs fl) = Some (Inr bbs') \<and> skel bbs' = skel bbs0 \<and>
    (\<forall>p \<in> places bbs0. out_at bbs' p = {v. live_after (int ffv) bbs0 p v}) \<and> pass_input ffv temps (fl\<lparr>fl_bbs := bbs'\<rparr>)"
proof -
  note d = alloc_inputD [OF inp iu] and f = alloc_facts [OF inp iu]
  have pl: "places bbs0 = places (fl_bbs fl)" by (rule liveness_init_nodes(1) [OF d(1)])
  obtain bbs' where b: "liveness_sets iu (fl_bbs fl) = Some (Inr bbs')" "skel bbs' = skel bbs0"
    "\<forall>p \<in> places bbs0. out_at bbs' p = {v. live_after (int ffv) bbs0 p v}"
    using liveness_sets_exact [OF d(1)] d(2) iu(2) pl by auto
  have sh: "shape bbs' = shape (fl_bbs fl)" using shape_skel [OF b(2)] shape_init [OF d(1)] by simp
  have ri: "results_in ffv temps nd" if "nd \<in> set (nodes_of bbs')" for nd
  proof -
    note nd = that
    obtain p where p: "p \<in> places bbs0" "nd = node_at bbs' p" using in_places [OF nd] skel_places [OF b(2)] by auto
    have fi: "fn_instr nd = fn_instr (node_at bbs0 p)" using skel_node_fields(1) [OF skel_node_at [OF b(2)]] p skel_places [OF b(2)] by simp
    have "bitset_members (fn_out nd) = {v. live_after (int ffv) bbs0 p v}" using b(3) p by (simp add: out_at_def)
    moreover have "v < temps" if "live_after (int ffv) bbs0 p v" for v
    proof -
      have "v + ffv \<in> live_out ffv bbs0 p" using that by (auto simp: live_out_def)
      then have "in_range ffv temps (v + ffv)" by (rule d(7) [OF f(3) [OF p(1)]])
      then show ?thesis by (simp add: in_range_def)
    qed
    moreover obtain rs where rs: "instr_results (instr_super (fn_instr nd)) = Inr rs"
      using d(2) p(1) fi by (cases "instr_results (instr_super (fn_instr nd))") (auto simp: graph_ok_nth node_ok_def)
    moreover have "result_ok ffv temps r" if "r \<in> set rs" for r
      using f(4) [OF p(1), of r] that rs fi by (auto simp: results_of_def result_ok_def in_range_def val_of_def)
    ultimately show ?thesis by (auto simp: results_in_def)
  qed
  have "linked (fl\<lparr>fl_bbs := bbs'\<rparr>)" using d(9) linked_shape [OF sh] by simp
  moreover have "moves_ok ffv temps iu bbs'" using d(10) sh by (simp add: moves_shape)
  ultimately have "pass_input ffv temps (fl\<lparr>fl_bbs := bbs'\<rparr>)"
    using d(3-6) ri iu(1) by (simp add: pass_input_def)
  then show ?thesis using b by blast
qed

section \<open>The registers keep what is live\<close>

lemma dvd_apart: "(n::int) dvd a \<Longrightarrow> n dvd b \<Longrightarrow> 0 < n \<Longrightarrow> a \<noteq> b \<Longrightarrow> regs_apart a n b n"
proof -
  assume "n dvd a" "n dvd b" "0 < n" "a \<noteq> b"
  then obtain c e where "a = 0 + c * n" "b = 0 + e * n" "c \<noteq> e" by (auto simp: dvd_def mult.commute)
  then show ?thesis using slots_apart [of c e n 0] \<open>0 < n\<close> by simp
qed

lemma placed_keeps_live:
  assumes inp: "alloc_input fl bbs0" and iu: "iu = fl_iu fl" "ffv = iu_first_func_value iu" "temps = iu_next_value iu - ffv"
    and sk: "skel bbs' = skel bbs0" and out: "\<forall>p \<in> places bbs0. out_at bbs' p = {v. live_after (int ffv) bbs0 p v}"
    and pl: "placed ffv temps (fl\<lparr>fl_bbs := bbs'\<rparr>) rep frame iu'"
  shows "keeps_live iu ffv (reg_at iu' \<circ> rep) bbs0"
  unfolding keeps_live_def
proof (intro ballI impI)
  note d = alloc_inputD [OF inp iu] and f = alloc_facts [OF inp iu]
  fix p r v assume p: "p \<in> places bbs0" and r: "r \<in> set (results_of (node_at bbs0 p))" and v: "v \<in> live_out ffv bbs0 p" and ne: "v \<noteq> val_of r"
  have tr: "temp_vt iu r" "int ffv \<le> vt_value r" "in_range ffv temps (val_of r)" using f(4) [OF p r] by simp_all
  have tv: "temp_of iu v" "in_range ffv temps v" using f(3) [OF p v] d(7) by auto
  have tr': "temp_of iu (val_of r)" using tr(1) by (simp add: temp_vt_def)
  let ?loc = "reg_at iu' \<circ> rep"
  have at: "width iu u \<in> {4, 8} \<and> width iu u dvd ?loc u" if "in_range ffv temps u" "temp_of iu u" for u
    using pl that iu(1) by (simp add: placed_def)
  show "apart iu ?loc (val_of r) v \<or> move_source (fn_instr (node_at bbs0 p)) = Some (int v) \<and> ?loc v = ?loc (val_of r) \<and> width iu v = width iu (val_of r)"
  proof (cases "move_source (fn_instr (node_at bbs0 p)) = Some (int v)")
    case True
    then obtain ii where ii: "fn_instr (node_at bbs0 p) = IR_IC_MOVE ii" "vt_value (imo_value ii) = int v" by (cases "fn_instr (node_at bbs0 p)") auto
    have "moves_ok ffv temps iu bbs0" using d(10) shape_init [OF d(1)] by (simp add: moves_shape)
    then obtain r' where r': "vt_value (ii_ret (imo_super ii)) = int r'" "slots_of iu v = slots_of iu r'"
      using ii node_in [OF p] tv unfolding moves_ok_def in_range_def by (metis of_nat_eq_iff)
    have "val_of r = r'" using r ii(1) r'(1) by (simp add: results_of_def instr_results_def val_of_def)
    then have w: "width iu v = width iu (val_of r)" using r'(2) by (simp add: width_def)
    show ?thesis
    proof (cases "?loc v = ?loc (val_of r)")
      case False
      then have "regs_apart (?loc (val_of r)) (width iu (val_of r)) (?loc v) (width iu (val_of r))"
        using at [OF tr(3) tr'] at [OF tv(2,1)] w by (intro dvd_apart) auto
      then show ?thesis using w by (simp add: apart_def)
    qed (use True w in simp)
  next
    case False
    have p': "p \<in> places bbs'" using p skel_places [OF sk] by simp
    have fi: "fn_instr (node_at bbs' p) = fn_instr (node_at bbs0 p)" using skel_node_fields(1) [OF skel_node_at [OF sk p']] .
    have o': "v - ffv \<in> bitset_members (fn_out (node_at bbs' p))" using v out p by (auto simp: live_out_def out_at_def)
    have "conflict_at ffv (node_at bbs' p) (val_of r - ffv) (v - ffv)"
      unfolding conflict_at_def fi
    proof -
      obtain rs where rs: "instr_results (instr_super (fn_instr (node_at bbs0 p))) = Inr rs" "r \<in> set rs" using r
        by (cases "instr_results (instr_super (fn_instr (node_at bbs0 p)))") (auto simp: results_of_def)
      have n: "nat (vt_value r - int ffv) = val_of r - ffv" "v - ffv + ffv = v" "int (v - ffv) + int ffv = int v"
        using tv(2) by (auto simp: val_of_def nat_diff_distrib' in_range_def)
      have "v - ffv \<noteq> val_of r - ffv" using ne tv(2) tr(3) by (auto simp: in_range_def)
      then show "\<exists>rs. instr_results (instr_super (fn_instr (node_at bbs0 p))) = Inr rs \<and>
          (\<exists>r' \<in> set rs. \<exists>y \<in> bitset_members (fn_out (node_at bbs' p)). {val_of r - ffv, v - ffv} = {nat (vt_value r' - int ffv), y} \<and>
             y \<noteq> nat (vt_value r' - int ffv) \<and> move_source (fn_instr (node_at bbs0 p)) \<noteq> Some (int y + int ffv))"
        using rs o' False by (intro exI [of _ rs] conjI bexI [of _ r] bexI [of _ "v - ffv"]) (simp_all add: n)
    qed
    then have "conflict ffv bbs' (val_of r - ffv) (v - ffv)" using node_in [OF p'] by (auto simp: conflict_def)
    then have "apart iu ?loc (val_of r) v" using pl tr(3) tr' tv iu(1) by (simp add: placed_def apart_def)
    then show ?thesis by blast
  qed
qed

section \<open>The whole pass\<close>

definition alloc_result :: "(value_info list \<Rightarrow> value_info list) \<Rightarrow> flow \<Rightarrow> flow_bb list \<Rightarrow> flow_bb list \<Rightarrow> (nat \<Rightarrow> nat) \<Rightarrow> flow \<Rightarrow> bool" where
  "alloc_result qsort fl bbs0 bbs' rep fl2 \<longleftrightarrow> (let iu = fl_iu fl; ffv = iu_first_func_value iu; temps = iu_next_value iu - ffv in
     skel bbs' = skel bbs0 \<and> (\<forall>p \<in> places bbs0. out_at bbs' p = {v. live_after (int ffv) bbs0 p v}) \<and> rep_ok ffv temps iu rep \<and>
     (\<exists>gone. fl_bbs fl2 = map_nodes (rename_node (lift rep)) (drop_nodes gone bbs') \<and>
        (\<forall>nd \<in> set (nodes_of bbs'). fn_id nd \<in> gone \<longrightarrow> idle_move rep nd)) \<and>
     (case remove_empty_bb fl2 of Inl e \<Rightarrow> liveness_analysis qsort fl = Some (Inl e)
      | Inr fl3 \<Rightarrow> \<exists>frame iu'. liveness_analysis qsort fl = Some (Inr (fl3\<lparr>fl_regframe_size := frame, fl_iu := iu'\<rparr>)) \<and>
          placed ffv temps (fl\<lparr>fl_bbs := bbs'\<rparr>) rep frame iu'))"

lemma allocation_runs:
  assumes perm: "\<And>xs. mset (qsort xs) = mset xs" and inp: "alloc_input fl bbs0"
  shows "\<exists>bbs' rep fl2. alloc_result qsort fl bbs0 bbs' rep fl2"
proof -
  let ?iu = "fl_iu fl" and ?ffv = "iu_first_func_value (fl_iu fl)"
  let ?temps = "iu_next_value ?iu - ?ffv"
  from alloc_pass [OF inp refl refl refl] obtain bbs' where b: "liveness_sets ?iu (fl_bbs fl) = Some (Inr bbs')" "skel bbs' = skel bbs0"
    "\<forall>p \<in> places bbs0. out_at bbs' p = {v. live_after (int ?ffv) bbs0 p v}" "pass_input ?ffv ?temps (fl\<lparr>fl_bbs := bbs'\<rparr>)" by blast
  from coalesce_ok [OF perm b(4)] obtain rep gone fl2 where c: "rep_ok ?ffv ?temps ?iu rep"
    "fl_bbs fl2 = map_nodes (rename_node (lift rep)) (drop_nodes gone bbs')"
    "\<forall>nd \<in> set (nodes_of bbs'). fn_id nd \<in> gone \<longrightarrow> idle_move rep nd"
    "case remove_empty_bb fl2 of Inl e \<Rightarrow> coalesce qsort ?temps ?ffv (fl\<lparr>fl_bbs := bbs'\<rparr>) = Inl e
     | Inr fl3 \<Rightarrow> \<exists>frame iu'. coalesce qsort ?temps ?ffv (fl\<lparr>fl_bbs := bbs'\<rparr>) = Inr (fl3\<lparr>fl_regframe_size := frame, fl_iu := iu'\<rparr>) \<and>
         placed ?ffv ?temps (fl\<lparr>fl_bbs := bbs'\<rparr>) rep frame iu'" by auto
  have "liveness_analysis qsort fl = Some (coalesce qsort ?temps ?ffv (fl\<lparr>fl_bbs := bbs'\<rparr>))"
    by (simp add: liveness_analysis_def Let_def b(1))
  then have "alloc_result qsort fl bbs0 bbs' rep fl2"
    unfolding alloc_result_def Let_def using b(2,3) c by (auto split: sum.splits)
  then show ?thesis by blast
qed

lemma allocated_runs_agree:
  assumes inp: "alloc_input fl bbs0" and iu: "iu = fl_iu fl" "ffv = iu_first_func_value iu" "temps = iu_next_value iu - ffv"
    and sk: "skel bbs' = skel bbs0" and out: "\<forall>p \<in> places bbs0. out_at bbs' p = {v. live_after (int ffv) bbs0 p v}"
    and ro: "rep_ok ffv temps iu rep" and pl: "placed ffv temps (fl\<lparr>fl_bbs := bbs'\<rparr>) rep frame iu'"
    and sem: "meaning_ok iu other bbs0 sem" and st: "in_step iu ffv (reg_at iu' \<circ> rep) bbs0 (Some (p, env, m)) (Some (p, fr, m))"
  shows "in_step iu ffv (reg_at iu' \<circ> rep) bbs0 (run_steps (rd_env iu other) wr_env bbs0 sem n (p, env, m))
    (run_steps (rd_frame iu (reg_at iu') other) (wr_frame iu (reg_at iu')) (map_nodes (rename_node (lift rep)) bbs0) sem n (p, fr, m))"
proof (rule runs_agree [OF _ _ sem _ _ _ st])
  note f = alloc_facts [OF inp iu]
  show "graph_temps iu ffv bbs0" by (rule f(1))
  show "keeps_live iu ffv (reg_at iu' \<circ> rep) bbs0" by (rule placed_keeps_live [OF inp iu sk out pl])
  show "succ_places bbs0 p \<subseteq> places bbs0" if "p \<in> places bbs0" for p by (rule f(2) [OF that])
  show "temp_of iu v" if "p \<in> places bbs0" "v \<in> live_out ffv bbs0 p" for p v by (rule f(3) [OF that])
  show "run_step (rd_frame iu (reg_at iu') other) (wr_frame iu (reg_at iu')) (map_nodes (rename_node (lift rep)) bbs0) sem (p, fr, m) =
    run_step (rd_frame iu (reg_at iu' \<circ> rep) other) (wr_frame iu (reg_at iu' \<circ> rep)) bbs0 sem (p, fr, m)" if p: "p \<in> places bbs0" for p fr m
  proof -
    obtain vs where "gen_values (fn_instr (node_at bbs0 p)) = Inr vs" using f(5) [OF p] by blast
    then show ?thesis by (rule step_renamed [OF ro p]) (use f(4) [OF p] in blast)
  qed
qed

end
