(* ===== verification/Vmir_Alloc_Props.thy ===== *)
theory Vmir_Alloc_Props
  imports Vmir_Alloc_Sound
begin

text \<open>
  The properties of register allocation as a whole, and a small function it is run on.
\<close>

section \<open>What idle moves do\<close>

lemma poke_peek: "poke a n (peek fr a n) fr = fr"
  by (auto simp: poke_def peek_def fun_eq_iff)

text \<open>A move whose two sides share a register writes what is there.\<close>

definition move_idle :: "ir_unit \<Rightarrow> (nat \<Rightarrow> int) \<Rightarrow> flow_node \<Rightarrow> bool" where
  "move_idle iu loc nd \<longleftrightarrow> (\<forall>other fr. fold (wr_frame iu loc) (zip (results_of nd) (map (rd_frame iu loc other fr) (operands_of nd))) fr = fr)"

lemma idle_move_idle:
  assumes r: "rep_ok ffv temps iu rep" and nd: "idle_move rep nd" and t: "\<forall>r \<in> set (results_of nd). temp_vt iu r"
  shows "move_idle iu loc (rename_node (lift rep) nd)"
proof -
  obtain ii where ii: "fn_instr nd = IR_IC_MOVE ii" "0 \<le> vt_value (ii_ret (imo_super ii))" "0 \<le> vt_value (imo_value ii)"
    "rep (val_of (ii_ret (imo_super ii))) = rep (val_of (imo_value ii))" using nd by (auto simp: idle_move_def val_of_def)
  have v: "operands_of nd = [imo_value ii]" "results_of nd = [ii_ret (imo_super ii)]" "gen_values (fn_instr nd) = Inr [imo_value ii]"
    using ii by (simp_all add: operands_of_def results_of_def instr_results_def)
  have tr: "temp_vt iu (ii_ret (imo_super ii))" using t v(2) by simp
  then have "temp_of iu (rep (val_of (imo_value ii)))" using rep_okD(2) [OF r] ii(4) by (metis temp_vt_def)
  then have tv: "temp_vt iu (imo_value ii)" using rep_okD(2) [OF r] ii(3) by (simp add: temp_vt_def)
  have v': "operands_of (rename_node (lift rep) nd) = [map_vt (lift rep) (imo_value ii)]"
    "results_of (rename_node (lift rep) nd) = [map_vt (lift rep) (ii_ret (imo_super ii))]"
    by (simp_all add: renamed_node [OF renaming_lift v(3)] v(1,2))
  show ?thesis
    unfolding move_idle_def v' by (simp add: wr_frame_def rd_frame_def temp_vt_map(1) [OF r] temp_vt_map(2) [OF r ii(2)]
        temp_vt_map(2) [OF r ii(3)] tv flip: ii(4)) (simp add: ii(4) poke_peek)
qed

section \<open>A function with a loop\<close>

text \<open>Value 1 is set before the loop and used in it, value 2 is its sum and value 3 a copy of 1 that is returned.\<close>

definition alloc_unit :: ir_unit where
  "alloc_unit = sample_unit\<lparr>iu_values := map (\<lambda>c. Some (new_value\<lparr>iv_class := c, iv_precolored := - 1\<rparr>))
     [Vc_constant 5, Vc_temporary, Vc_temporary, Vc_temporary], iu_first_func_value := 1, iu_next_value := 4\<rparr>"

definition alloc_graph :: "flow_bb list" where
  "alloc_graph =
     (let node = (\<lambda>(i, ii). \<lparr>fn_id = i, fn_instr = ii, fn_out = [], fn_gen = [], fn_in = [], fn_num_succ = 0, fn_succ = []\<rparr>);
          vt = (\<lambda>v. \<lparr>vt_value = v, vt_type = 0\<rparr>); to = (\<lambda>v. \<lparr>ii_ret = vt v, ii_rets = []\<rparr>)
      in [\<lparr>fb_id = 10, fb_nodes = map node
             [(1, IR_IC_MOVE \<lparr>imo_super = to 1, imo_value = vt 0\<rparr>),
              (2, IR_IC_BR \<lparr>ibr_condition = vt (- 1), ibr_true = 20, ibr_false = 0\<rparr>)]\<rparr>,
          \<lparr>fb_id = 20, fb_nodes = map node
             [(3, IR_IC_BINOP \<lparr>ibi_super = to 2, ibi_op = 0, ibi_lhs = vt 1, ibi_rhs = vt 0\<rparr>),
              (4, IR_IC_CMP_BRANCH \<lparr>icb_op = ICMP EQ, icb_lhs = vt 2, icb_rhs = vt 0, icb_true = 20, icb_false = 30\<rparr>)]\<rparr>,
          \<lparr>fb_id = 30, fb_nodes = map node
             [(5, IR_IC_MOVE \<lparr>imo_super = to 3, imo_value = vt 1\<rparr>),
              (6, IR_IC_RET \<lparr>iun_super = no_super, iun_value = vt 3, iun_op = 0\<rparr>)]\<rparr>])"

definition alloc_flow :: flow where
  "alloc_flow = \<lparr>fl_iu = alloc_unit, fl_bbs = alloc_graph,
     fl_edges = [\<lparr>fe_id = 1, fe_from = 10, fe_to = 20\<rparr>, \<lparr>fe_id = 2, fe_from = 20, fe_to = 20\<rparr>, \<lparr>fe_id = 3, fe_from = 20, fe_to = 30\<rparr>],
     fl_incoming = (\<lambda>b. if b = 20 then [2, 1] else if b = 30 then [3] else []),
     fl_binds = [(1, 1, True), (1, 3, False), (2, 3, True), (2, 4, False), (3, 5, True), (1, 5, False), (3, 6, False)],
     fl_fresh = 7, fl_num_bbs = 3, fl_regframe_size = 0\<rparr>"

definition alloc_nodes :: "flow_bb list" where
  "alloc_nodes = (case liveness_init alloc_unit alloc_graph of Inl _ \<Rightarrow> [] | Inr b \<Rightarrow> b)"

lemma alloc_init: "liveness_init alloc_unit alloc_graph = Inr alloc_nodes"
proof -
  have "\<not> isl (liveness_init alloc_unit alloc_graph)" by code_simp
  then show ?thesis by (auto simp: alloc_nodes_def isl_def split: sum.split)
qed

definition alloc_swept :: "flow_bb list" where
  "alloc_swept = (case liveness_round 1 1 alloc_nodes of Inl _ \<Rightarrow> [] | Inr (_, b) \<Rightarrow> b)"

lemma alloc_rounds: "liveness_round 1 1 alloc_nodes = Inr (False, alloc_swept)" "liveness_round 1 1 alloc_swept = Inr (True, alloc_swept)"
  by code_simp+


lemma alloc_sets: "liveness_sets alloc_unit alloc_graph = Some (Inr alloc_swept)"
proof -
  have "liveness_update 1 1 alloc_nodes = Some (Inr alloc_swept)"
    using liveness_update_step [OF alloc_rounds(1)] liveness_update_step [OF alloc_rounds(2)] by simp
  then show ?thesis
    by (simp add: liveness_sets_def alloc_init) (simp add: setwords_of_def alloc_unit_def)
qed

lemma alloc_fields [simp]: "fl_iu alloc_flow = alloc_unit" "fl_bbs alloc_flow = alloc_graph" "iu_first_func_value alloc_unit = 1" "iu_next_value alloc_unit = 4"
  by (simp_all add: alloc_flow_def alloc_unit_def)



definition alloc_done :: flow where
  "alloc_done = (case coalesce (\<lambda>vis. vis) 3 1 (alloc_flow\<lparr>fl_bbs := alloc_swept\<rparr>) of Inl _ \<Rightarrow> alloc_flow | Inr fl \<Rightarrow> fl)"

lemma alloc_analysis: "liveness_analysis (\<lambda>vis. vis) alloc_flow = Some (Inr alloc_done)"
proof -
  have "\<not> isl (coalesce (\<lambda>vis. vis) 3 1 (alloc_flow\<lparr>fl_bbs := alloc_swept\<rparr>))" by code_simp
  then show ?thesis by (auto simp: liveness_analysis_def alloc_sets alloc_done_def isl_def split: sum.split)
qed

lemma alloc_frame: "fl_regframe_size alloc_done = 8" "reg_at (fl_iu alloc_done) 1 = 0" "map (\<lambda>bb. map fn_id (fb_nodes bb)) (fl_bbs alloc_done) = [[1, 2], [3, 4], [6]]"
  by code_simp+

lemma alloc_item:
  "value_item alloc_unit v = (if v < 4 then Inr (new_value\<lparr>iv_class := (if v = 0 then Vc_constant 5 else Vc_temporary), iv_precolored := - 1\<rparr>)
     else Inl Undefined_behaviour)"
proof (cases "v < 4")
  case True
  then consider "v = 0" | "v = 1" | "v = 2" | "v = 3" by linarith
  then show ?thesis by cases (simp_all add: value_item_def alloc_unit_def deref_def)
qed (simp add: value_item_def alloc_unit_def)

lemma alloc_temps: "temp_of alloc_unit v \<longleftrightarrow> v = 1 \<or> v = 2 \<or> v = 3"
  by (auto simp: temp_of_def alloc_item)

lemma alloc_slots: "value_regframe_slots (iu_tys alloc_unit) (iv_type new_value) = Inr 1"
  by code_simp

lemma alloc_width: "0 < v \<Longrightarrow> v < 4 \<Longrightarrow> slots_of alloc_unit v = Inr 1"
  by (simp add: slots_of_def alloc_item alloc_slots)

lemma alloc_ready: "alloc_input alloc_flow alloc_nodes"
  unfolding alloc_input_def Let_def alloc_fields
proof (intro conjI)
  show "liveness_init alloc_unit alloc_graph = Inr alloc_nodes" by (rule alloc_init)
  show "graph_ok (setwords_of alloc_unit) (int 1) alloc_nodes" by code_simp
  show "1 + (4 - 1) \<le> (2::nat) ^ 31" by simp
  show "\<exists>mtx. tribitmtx_alloc (int (4 - 1)) = Inr mtx" by (simp add: tribitmtx_alloc_def c_int_def Let_def)
  show "sized_temps 1 (4 - 1) alloc_unit"
    by (simp add: sized_temps_def alloc_item alloc_slots)
  show "\<forall>k<4 - 1. value_edges alloc_unit (k + 1) = 0"
    by (simp add: value_edges_def alloc_item) (simp add: new_value_def)
  show "\<forall>v. temp_of alloc_unit v \<longrightarrow> in_range 1 (4 - 1) v" by (auto simp: alloc_temps in_range_def)
  show "\<forall>nd\<in>set (nodes_of alloc_graph). \<forall>r\<in>set (results_of nd). temp_vt alloc_unit r"
    by (simp add: nodes_of_def alloc_graph_def Let_def results_of_def instr_results_def no_super_def temp_vt_def val_of_def alloc_temps)
  show "linked alloc_flow"
    unfolding linked_def instrs_ok_def links_live_def links_complete_def alloc_fields
    by (auto simp: nodes_of_def alloc_graph_def alloc_flow_def Let_def instr_ok_def mentions_def instr_results_def no_super_def alloc_temps)
  show "moves_ok 1 (4 - 1) alloc_unit alloc_graph"
    by (auto simp: moves_ok_def nodes_of_def alloc_graph_def Let_def in_range_def alloc_temps alloc_width)
qed


lemma alloc_resultD:
  assumes "alloc_result qsort fl bbs0 bbs' rep fl2" "iu = fl_iu fl" "ffv = iu_first_func_value iu" "temps = iu_next_value iu - ffv"
  shows "skel bbs' = skel bbs0" "\<forall>p \<in> places bbs0. out_at bbs' p = {v. live_after (int ffv) bbs0 p v}" "rep_ok ffv temps iu rep"
    "\<exists>gone. fl_bbs fl2 = map_nodes (rename_node (lift rep)) (drop_nodes gone bbs') \<and>
       (\<forall>nd \<in> set (nodes_of bbs'). fn_id nd \<in> gone \<longrightarrow> idle_move rep nd)"
    "case remove_empty_bb fl2 of Inl e \<Rightarrow> liveness_analysis qsort fl = Some (Inl e)
     | Inr fl3 \<Rightarrow> \<exists>frame iu'. liveness_analysis qsort fl = Some (Inr (fl3\<lparr>fl_regframe_size := frame, fl_iu := iu'\<rparr>)) \<and>
         placed ffv temps (fl\<lparr>fl_bbs := bbs'\<rparr>) rep frame iu'"
  using assms(1) unfolding alloc_result_def Let_def assms(2-4) by blast+

lemma case_result_mono:
  "(case r of Inl e \<Rightarrow> P e | Inr x \<Rightarrow> \<exists>a b. Q x a b \<and> R a b) \<Longrightarrow> (\<And>a b. R a b \<Longrightarrow> S a b) \<Longrightarrow>
   (case r of Inl e \<Rightarrow> P e | Inr x \<Rightarrow> \<exists>a b. Q x a b \<and> S a b)"
  by (cases r) (simp, force)

text \<open>
  C5. Registers hold what is live. For a function whose temporaries take one or two slots, the
  pass ends and gives every temporary the register of a representative of the same size, aligned to
  its size and inside the part of the frame the pass has added; the register of what an
  instruction assigns is apart from that of every other temporary that is live after it, unless the
  instruction is a move from that temporary. The one error possible is that of
  \<open>remove_empty_bb\<close>.
\<close>

theorem allocation_sound:
  assumes "\<And>xs. mset (qsort xs) = mset xs" "alloc_input fl bbs0" "iu = fl_iu fl" "ffv = iu_first_func_value iu" "temps = iu_next_value iu - ffv"
  shows "\<exists>rep fl2. rep_ok ffv temps iu rep \<and>
    (case remove_empty_bb fl2 of Inl e \<Rightarrow> liveness_analysis qsort fl = Some (Inl e)
     | Inr fl3 \<Rightarrow> \<exists>frame iu'. liveness_analysis qsort fl = Some (Inr (fl3\<lparr>fl_regframe_size := frame, fl_iu := iu'\<rparr>)) \<and>
         (\<forall>v. temp_of iu v \<longrightarrow> width iu v \<in> {4, 8} \<and> width iu v dvd reg_at iu' (rep v) \<and>
            fl_regframe_size fl \<le> reg_at iu' (rep v) \<and> reg_at iu' (rep v) + width iu v \<le> frame) \<and>
         (\<forall>p \<in> places bbs0. \<forall>r \<in> set (results_of (node_at bbs0 p)). \<forall>v.
            live_after (int ffv) bbs0 p v \<and> v + ffv \<noteq> val_of r \<and> move_source (fn_instr (node_at bbs0 p)) \<noteq> Some (int (v + ffv)) \<longrightarrow>
            regs_apart (reg_at iu' (rep (val_of r))) (width iu (val_of r)) (reg_at iu' (rep (v + ffv))) (width iu (v + ffv))))"
proof -
  obtain bbs' rep fl2 where r: "alloc_result qsort fl bbs0 bbs' rep fl2" using allocation_runs [OF assms(1,2)] by blast
  note d = alloc_resultD [OF r assms(3-5)] and ran = alloc_inputD(7) [OF assms(2-5)]
  have "(\<forall>v. temp_of iu v \<longrightarrow> width iu v \<in> {4, 8} \<and> width iu v dvd reg_at iu' (rep v) \<and>
            fl_regframe_size fl \<le> reg_at iu' (rep v) \<and> reg_at iu' (rep v) + width iu v \<le> frame) \<and>
         (\<forall>p \<in> places bbs0. \<forall>r \<in> set (results_of (node_at bbs0 p)). \<forall>v.
            live_after (int ffv) bbs0 p v \<and> v + ffv \<noteq> val_of r \<and> move_source (fn_instr (node_at bbs0 p)) \<noteq> Some (int (v + ffv)) \<longrightarrow>
            regs_apart (reg_at iu' (rep (val_of r))) (width iu (val_of r)) (reg_at iu' (rep (v + ffv))) (width iu (v + ffv)))"
    if pl: "placed ffv temps (fl\<lparr>fl_bbs := bbs'\<rparr>) rep frame iu'" for frame iu'
  proof -
    have kl: "keeps_live iu ffv (reg_at iu' \<circ> rep) bbs0" by (rule placed_keeps_live [OF assms(2-5) d(1,2) pl])
    have "regs_apart (reg_at iu' (rep (val_of r))) (width iu (val_of r)) (reg_at iu' (rep (v + ffv))) (width iu (v + ffv))"
      if "p \<in> places bbs0" "r \<in> set (results_of (node_at bbs0 p))" "live_after (int ffv) bbs0 p v" "v + ffv \<noteq> val_of r"
        "move_source (fn_instr (node_at bbs0 p)) \<noteq> Some (int (v + ffv))" for p r v
      using kl that unfolding keeps_live_def live_out_def apart_def comp_def by blast
    then show ?thesis using pl ran assms(3) by (simp add: placed_def)
  qed
  then have "case remove_empty_bb fl2 of Inl e \<Rightarrow> liveness_analysis qsort fl = Some (Inl e)
     | Inr fl3 \<Rightarrow> \<exists>frame iu'. liveness_analysis qsort fl = Some (Inr (fl3\<lparr>fl_regframe_size := frame, fl_iu := iu'\<rparr>)) \<and>
         (\<forall>v. temp_of iu v \<longrightarrow> width iu v \<in> {4, 8} \<and> width iu v dvd reg_at iu' (rep v) \<and>
            fl_regframe_size fl \<le> reg_at iu' (rep v) \<and> reg_at iu' (rep v) + width iu v \<le> frame) \<and>
         (\<forall>p \<in> places bbs0. \<forall>r \<in> set (results_of (node_at bbs0 p)). \<forall>v.
            live_after (int ffv) bbs0 p v \<and> v + ffv \<noteq> val_of r \<and> move_source (fn_instr (node_at bbs0 p)) \<noteq> Some (int (v + ffv)) \<longrightarrow>
            regs_apart (reg_at iu' (rep (val_of r))) (width iu (val_of r)) (reg_at iu' (rep (v + ffv))) (width iu (v + ffv)))"
    by (rule case_result_mono [OF d(5)])
  then show ?thesis using d(3) by blast
qed

text \<open>
  C2. Register allocation preserves execution. The pass replaces every temporary by a representative
  and removes moves that would have no effect on the frame. From a place where the frame holds every live
  temporary in the register of its representative, the function as it was, run with an environment of
  temporaries, and the renamed function, run on the frame, take the same path, leave the rest of the state
  equal and hold the same values in the temporaries that are live, whatever the instructions compute.
\<close>

theorem allocation_preserves_execution:
  assumes "\<And>xs. mset (qsort xs) = mset xs" "alloc_input fl bbs0" "iu = fl_iu fl" "ffv = iu_first_func_value iu"
  shows "\<exists>bbs' rep gone fl2. skel bbs' = skel bbs0 \<and> fl_bbs fl2 = map_nodes (rename_node (lift rep)) (drop_nodes gone bbs') \<and>
    (\<forall>loc. \<forall>nd \<in> set (nodes_of bbs0). fn_id nd \<in> gone \<longrightarrow> move_idle iu loc (rename_node (lift rep) nd)) \<and>
    (case remove_empty_bb fl2 of Inl e \<Rightarrow> liveness_analysis qsort fl = Some (Inl e)
     | Inr fl3 \<Rightarrow> \<exists>frame iu'. liveness_analysis qsort fl = Some (Inr (fl3\<lparr>fl_regframe_size := frame, fl_iu := iu'\<rparr>)) \<and>
         (\<forall>other (sem :: 'm meaning) p env fr m n. meaning_ok iu other bbs0 sem \<longrightarrow>
            in_step iu ffv (reg_at iu' \<circ> rep) bbs0 (Some (p, env, m)) (Some (p, fr, m)) \<longrightarrow>
            in_step iu ffv (reg_at iu' \<circ> rep) bbs0 (run_steps (rd_env iu other) wr_env bbs0 sem n (p, env, m))
              (run_steps (rd_frame iu (reg_at iu') other) (wr_frame iu (reg_at iu')) (map_nodes (rename_node (lift rep)) bbs0) sem n (p, fr, m))))"
proof -
  obtain bbs' rep fl2 where r: "alloc_result qsort fl bbs0 bbs' rep fl2" using allocation_runs [OF assms(1,2)] by blast
  note d = alloc_resultD [OF r assms(3,4) refl]
  obtain gone where g: "fl_bbs fl2 = map_nodes (rename_node (lift rep)) (drop_nodes gone bbs')"
    "\<forall>nd \<in> set (nodes_of bbs'). fn_id nd \<in> gone \<longrightarrow> idle_move rep nd" using d(4) by blast
  have mi: "move_idle iu loc (rename_node (lift rep) nd)" if nd: "nd \<in> set (nodes_of bbs0)" "fn_id nd \<in> gone" for loc nd
  proof (rule idle_move_idle [OF d(3)])
    obtain nd' where "nd' \<in> set (nodes_of bbs')" "fn_id nd' = fn_id nd" "fn_instr nd' = fn_instr nd"
      using shape_node [OF shape_skel [OF d(1) [symmetric]] nd(1)] by blast
    moreover from this have "idle_move rep nd'" using g(2) nd(2) by simp
    ultimately show "idle_move rep nd" by (simp add: idle_move_def)
    show "\<forall>r \<in> set (results_of nd). temp_vt iu r"
      using in_places [OF nd(1)] alloc_facts(4) [OF assms(2-4) refl] by blast
  qed
  have "case remove_empty_bb fl2 of Inl e \<Rightarrow> liveness_analysis qsort fl = Some (Inl e)
     | Inr fl3 \<Rightarrow> \<exists>frame iu'. liveness_analysis qsort fl = Some (Inr (fl3\<lparr>fl_regframe_size := frame, fl_iu := iu'\<rparr>)) \<and>
         (\<forall>other (sem :: 'm meaning) p env fr m n. meaning_ok iu other bbs0 sem \<longrightarrow>
            in_step iu ffv (reg_at iu' \<circ> rep) bbs0 (Some (p, env, m)) (Some (p, fr, m)) \<longrightarrow>
            in_step iu ffv (reg_at iu' \<circ> rep) bbs0 (run_steps (rd_env iu other) wr_env bbs0 sem n (p, env, m))
              (run_steps (rd_frame iu (reg_at iu') other) (wr_frame iu (reg_at iu')) (map_nodes (rename_node (lift rep)) bbs0) sem n (p, fr, m)))"
    by (rule case_result_mono [OF d(5)]) (intro allI impI, rule allocated_runs_agree [OF assms(2-4) refl d(1-3)])
  then show ?thesis using d(1) g(1) mi by blast
qed

section \<open>Runs of the example\<close>

definition succ_list :: "flow_bb list \<Rightarrow> place \<Rightarrow> place list" where
  "succ_list bbs = (\<lambda>(b, i).
     if fn_num_succ (node_at bbs (b, i)) = - 1 \<and> Suc i < length (fb_nodes (bbs ! b)) then [(b, Suc i)]
     else map (\<lambda>k. (bb_pos bbs (the k), 0)) (filter (\<lambda>k. k \<noteq> None) (take (nat (fn_num_succ (node_at bbs (b, i)))) (fn_succ (node_at bbs (b, i))))))"

lemma succ_list: "succ_places bbs p = set (succ_list bbs p)"
  by (cases p) (auto simp: succ_places_def succ_list_def image_iff, force+)

lemma alloc_succ:
  "succ_places alloc_nodes (0, 0) = {(0, 1)}" "succ_places alloc_nodes (0, 1) = {(1, 0)}" "succ_places alloc_nodes (1, 0) = {(1, 1)}"
  "succ_places alloc_nodes (1, 1) = {(1, 0), (2, 0)}" "succ_places alloc_nodes (2, 0) = {(2, 1)}" "succ_places alloc_nodes (2, 1) = {}"
proof -
  have "map (succ_list alloc_nodes) [(0, 0), (0, 1), (1, 0), (1, 1), (2, 0), (2, 1)] =
    [[(0, 1)], [(1, 0)], [(1, 1)], [(1, 0), (2, 0)], [(2, 1)], []]" by code_simp
  then show "succ_places alloc_nodes (0, 0) = {(0, 1)}" "succ_places alloc_nodes (0, 1) = {(1, 0)}" "succ_places alloc_nodes (1, 0) = {(1, 1)}"
    "succ_places alloc_nodes (1, 1) = {(1, 0), (2, 0)}" "succ_places alloc_nodes (2, 0) = {(2, 1)}" "succ_places alloc_nodes (2, 1) = {}"
    unfolding succ_list by simp_all
qed

lemma alloc_places: "places alloc_nodes = {(0, 0), (0, 1), (1, 0), (1, 1), (2, 0), (2, 1)}"
  unfolding liveness_init_nodes(1) [OF alloc_init]
  by (auto simp: places_def alloc_graph_def Let_def less_Suc_eq numeral_eq_Suc)

lemma alloc_instrs: "p \<in> places alloc_nodes \<Longrightarrow> fn_instr (node_at alloc_nodes p) = fn_instr (node_at alloc_graph p)"
  using node_init_fields(3) liveness_init_nodes(2) [OF alloc_init] by metis

lemma alloc_values:
  "operands_of (node_at alloc_nodes (0, 0)) = [\<lparr>vt_value = 0, vt_type = 0\<rparr>]" "results_of (node_at alloc_nodes (0, 0)) = [\<lparr>vt_value = 1, vt_type = 0\<rparr>]"
  "results_of (node_at alloc_nodes (0, 1)) = []"
  "operands_of (node_at alloc_nodes (1, 0)) = [\<lparr>vt_value = 1, vt_type = 0\<rparr>, \<lparr>vt_value = 0, vt_type = 0\<rparr>]" "results_of (node_at alloc_nodes (1, 0)) = [\<lparr>vt_value = 2, vt_type = 0\<rparr>]"
  "results_of (node_at alloc_nodes (1, 1)) = []"
  "operands_of (node_at alloc_nodes (2, 0)) = [\<lparr>vt_value = 1, vt_type = 0\<rparr>]" "results_of (node_at alloc_nodes (2, 0)) = [\<lparr>vt_value = 3, vt_type = 0\<rparr>]"
  "results_of (node_at alloc_nodes (2, 1)) = []"
  "move_source (fn_instr (node_at alloc_nodes (0, 1))) = None" "move_source (fn_instr (node_at alloc_nodes (1, 0))) = None"
  "move_source (fn_instr (node_at alloc_nodes (1, 1))) = None" "move_source (fn_instr (node_at alloc_nodes (2, 1))) = None"
  by (simp_all add: operands_of_def results_of_def alloc_instrs alloc_places)
    (simp_all add: node_at_def alloc_graph_def Let_def instr_results_def no_super_def)

lemma alloc_words:
  "fn_in (node_at alloc_swept (0, 0)) = [0]" "fn_in (node_at alloc_swept (2, 1)) = [4]" "fn_out (node_at alloc_swept (1, 0)) = [3]"
  by code_simp+

lemma four_set: "bitset_members [4] = {2}"
proof -
  have "(4::u32) = 2 ^ 2" by simp
  then have b: "bit (4::u32) v \<longleftrightarrow> v = 2" for v by (simp only: bit_exp_iff) auto
  have "bitset_members [x] = {v. v < 32 \<and> bit x v}" for x by (auto simp: bitset_members_def)
  then have "bitset_members [4] = {v. v < 32 \<and> v = 2}" by (simp only: b)
  also have "{v. v < 32 \<and> v = 2} = {2::nat}" by auto
  finally show ?thesis .
qed

lemma alloc_live: "live_before 1 alloc_nodes (0, 0) v = False" "live_before 1 alloc_nodes (2, 1) v \<longleftrightarrow> v = 2" "live_after 1 alloc_nodes (1, 0) v \<longleftrightarrow> v = 0 \<or> v = 1"
proof -
  have "graph_ok (setwords_of alloc_unit) (int (iu_first_func_value alloc_unit)) alloc_nodes" using alloc_inputD(2) [OF alloc_ready refl refl refl] by simp
  from liveness_sets_exact [OF alloc_init this] obtain bbs' where
    s: "liveness_sets alloc_unit alloc_graph = Some (Inr bbs')" and
    l': "\<forall>p \<in> places alloc_graph. in_at bbs' p = {v. live_before 1 alloc_nodes p v} \<and> out_at bbs' p = {v. live_after 1 alloc_nodes p v}"
    unfolding alloc_fields of_nat_1 by blast
  have "bbs' = alloc_swept" using trans [OF s [symmetric] alloc_sets] by blast
  then have l: "\<forall>p \<in> places alloc_nodes. in_at alloc_swept p = {v. live_before 1 alloc_nodes p v} \<and> out_at alloc_swept p = {v. live_after 1 alloc_nodes p v}"
    using l' unfolding liveness_init_nodes(1) [OF alloc_init] by simp
  note b = alloc_words
  have p: "(0, 0) \<in> places alloc_nodes" "(2, 1) \<in> places alloc_nodes" "(1, 0) \<in> places alloc_nodes" by (simp_all add: alloc_places)
  have "{v. live_before 1 alloc_nodes (0, 0) v} = {}" "{v. live_before 1 alloc_nodes (2, 1) v} = {2}" "{v. live_after 1 alloc_nodes (1, 0) v} = {0, 1}"
    using bspec [OF l p(1)] bspec [OF l p(2)] bspec [OF l p(3)] unfolding in_at_def out_at_def b four_set small_sets by blast+
  then show "live_before 1 alloc_nodes (0, 0) v = False" "live_before 1 alloc_nodes (2, 1) v \<longleftrightarrow> v = 2" "live_after 1 alloc_nodes (1, 0) v \<longleftrightarrow> v = 0 \<or> v = 1"
    by auto
qed


text \<open>The program: 3 becomes the copy of 1 after two rounds of the loop, which counts its rounds in \<open>m\<close>.\<close>

definition demo_meaning :: "nat meaning" where
  "demo_meaning p vals m =
     (if p = (0, 0) then (vals, m, Some (0, 1)) else if p = (0, 1) then ([], m, Some (1, 0))
      else if p = (1, 0) then ([map2 (+) (vals ! 0) (vals ! 1)], m, Some (1, 1))
      else if p = (1, 1) then ([], m + 1, Some (if m = 0 then (1, 0) else (2, 0)))
      else if p = (2, 0) then (vals, m, Some (2, 1)) else ([], m, None))"

definition demo_other :: "ir_valuetype \<Rightarrow> u8 list" where
  "demo_other vt = [5, 0, 0, 0]"

lemma width_one: "0 < v \<Longrightarrow> v < 4 \<Longrightarrow> width alloc_unit v = 4"
  by (simp add: width_def alloc_width)

lemma demo_reads:
  "rd_env alloc_unit demo_other env \<lparr>vt_value = 0, vt_type = 0\<rparr> = [5, 0, 0, 0]"
  "rd_env alloc_unit demo_other env \<lparr>vt_value = 1, vt_type = 0\<rparr> = env 1"
  by (auto simp: rd_env_def temp_vt_def val_of_def alloc_temps demo_other_def)

lemma demo_ok: "meaning_ok alloc_unit demo_other alloc_nodes demo_meaning"
proof -
  have w: "length (env 1) = 4" if "env_sized alloc_unit env" for env using that by (simp add: env_sized_def alloc_temps width_one)
  show ?thesis
    unfolding meaning_ok_def alloc_places
    by (simp add: alloc_succ alloc_values demo_meaning_def demo_reads val_of_def width_one w Let_def del: One_nat_def)
qed

lemma run_steps_numeral:
  "run_steps rd wr bbs sem (numeral n) c = Option.bind (run_step rd wr bbs sem c) (run_steps rd wr bbs sem (pred_numeral n))"
  "run_steps rd wr bbs sem 1 c = run_step rd wr bbs sem c"
  by (simp_all add: numeral_eq_Suc) (cases "run_step rd wr bbs sem c", simp_all)

lemma demo_run:
  "run_steps (rd_env alloc_unit demo_other) wr_env alloc_nodes demo_meaning 7 ((0, 0), (\<lambda>_. [0, 0, 0, 0]), 0) =
   Some ((2, 1), ((\<lambda>_. [0, 0, 0, 0])(1 := [5, 0, 0, 0], 2 := [10, 0, 0, 0], 3 := [5, 0, 0, 0])), 2)"
proof -
  show ?thesis
    by (simp add: run_steps_numeral run_step_def alloc_values demo_meaning_def demo_reads wr_env_def val_of_def Let_def del: One_nat_def) simp
qed


theorem allocation_sound_witness:
  "\<exists>rep. liveness_analysis (\<lambda>vis. vis) alloc_flow = Some (Inr alloc_done) \<and> rep_ok 1 3 alloc_unit rep \<and>
     reg_at (fl_iu alloc_done) (rep 1) + 4 \<le> fl_regframe_size alloc_done \<and>
     regs_apart (reg_at (fl_iu alloc_done) (rep 2)) 4 (reg_at (fl_iu alloc_done) (rep 1)) 4"
proof -
  obtain rep fl2 where ro: "rep_ok 1 3 alloc_unit rep" and c:
    "case remove_empty_bb fl2 of Inl e \<Rightarrow> liveness_analysis (\<lambda>vis. vis) alloc_flow = Some (Inl e)
     | Inr fl3 \<Rightarrow> \<exists>frame iu'. liveness_analysis (\<lambda>vis. vis) alloc_flow = Some (Inr (fl3\<lparr>fl_regframe_size := frame, fl_iu := iu'\<rparr>)) \<and>
         (\<forall>v. temp_of alloc_unit v \<longrightarrow> width alloc_unit v \<in> {4, 8} \<and> width alloc_unit v dvd reg_at iu' (rep v) \<and>
            fl_regframe_size alloc_flow \<le> reg_at iu' (rep v) \<and> reg_at iu' (rep v) + width alloc_unit v \<le> frame) \<and>
         (\<forall>p \<in> places alloc_nodes. \<forall>r \<in> set (results_of (node_at alloc_nodes p)). \<forall>v.
            live_after 1 alloc_nodes p v \<and> v + 1 \<noteq> val_of r \<and> move_source (fn_instr (node_at alloc_nodes p)) \<noteq> Some (int (v + 1)) \<longrightarrow>
            regs_apart (reg_at iu' (rep (val_of r))) (width alloc_unit (val_of r)) (reg_at iu' (rep (v + 1))) (width alloc_unit (v + 1)))"
    using allocation_sound [OF _ alloc_ready refl refl refl, of "\<lambda>vis. vis"] unfolding alloc_fields of_nat_1 by auto
  from c obtain fl3 frame iu' where d: "liveness_analysis (\<lambda>vis. vis) alloc_flow = Some (Inr (fl3\<lparr>fl_regframe_size := frame, fl_iu := iu'\<rparr>))"
    and f: "\<forall>v. temp_of alloc_unit v \<longrightarrow> reg_at iu' (rep v) + width alloc_unit v \<le> frame"
    and a: "\<forall>p \<in> places alloc_nodes. \<forall>r \<in> set (results_of (node_at alloc_nodes p)). \<forall>v.
            live_after 1 alloc_nodes p v \<and> v + 1 \<noteq> val_of r \<and> move_source (fn_instr (node_at alloc_nodes p)) \<noteq> Some (int (v + 1)) \<longrightarrow>
            regs_apart (reg_at iu' (rep (val_of r))) (width alloc_unit (val_of r)) (reg_at iu' (rep (v + 1))) (width alloc_unit (v + 1))"
    by (cases "remove_empty_bb fl2") (auto simp: alloc_analysis)
  have dn: "alloc_done = fl3\<lparr>fl_regframe_size := frame, fl_iu := iu'\<rparr>" using trans [OF alloc_analysis [symmetric] d] by blast
  have "reg_at iu' (rep 1) + 4 \<le> frame" using f width_one [of 1] by (simp add: alloc_temps)
  moreover have "regs_apart (reg_at iu' (rep 2)) 4 (reg_at iu' (rep 1)) 4"
    using a [rule_format, of "(1, 0)" "\<lparr>vt_value = 2, vt_type = 0\<rparr>" 0]
    by (simp add: alloc_places alloc_values alloc_live val_of_def width_one del: One_nat_def)
  ultimately show ?thesis using ro alloc_analysis by (intro exI [of _ rep]) (simp add: dn)
qed

theorem allocation_preserves_execution_witness:
  "\<exists>rep fr. liveness_analysis (\<lambda>vis. vis) alloc_flow = Some (Inr alloc_done) \<and>
     run_steps (rd_frame alloc_unit (reg_at (fl_iu alloc_done)) demo_other) (wr_frame alloc_unit (reg_at (fl_iu alloc_done)))
       (map_nodes (rename_node (lift rep)) alloc_nodes) demo_meaning 7 ((0, 0), (\<lambda>_. 0), 0) = Some ((2, 1), fr, 2) \<and>
     peek fr (reg_at (fl_iu alloc_done) (rep 3)) 4 = [5, 0, 0, 0]"
proof -
  obtain bbs' rep gone fl2 where c:
    "case remove_empty_bb fl2 of Inl e \<Rightarrow> liveness_analysis (\<lambda>vis. vis) alloc_flow = Some (Inl e)
     | Inr fl3 \<Rightarrow> \<exists>frame iu'. liveness_analysis (\<lambda>vis. vis) alloc_flow = Some (Inr (fl3\<lparr>fl_regframe_size := frame, fl_iu := iu'\<rparr>)) \<and>
         (\<forall>other (sem :: nat meaning) p env fr m n. meaning_ok alloc_unit other alloc_nodes sem \<longrightarrow>
            in_step alloc_unit 1 (reg_at iu' \<circ> rep) alloc_nodes (Some (p, env, m)) (Some (p, fr, m)) \<longrightarrow>
            in_step alloc_unit 1 (reg_at iu' \<circ> rep) alloc_nodes (run_steps (rd_env alloc_unit other) wr_env alloc_nodes sem n (p, env, m))
              (run_steps (rd_frame alloc_unit (reg_at iu') other) (wr_frame alloc_unit (reg_at iu')) (map_nodes (rename_node (lift rep)) alloc_nodes) sem n (p, fr, m)))"
    using allocation_preserves_execution [OF _ alloc_ready refl refl, of "\<lambda>vis. vis"] unfolding alloc_fields by blast
  from c obtain fl3 frame iu' where d: "liveness_analysis (\<lambda>vis. vis) alloc_flow = Some (Inr (fl3\<lparr>fl_regframe_size := frame, fl_iu := iu'\<rparr>))"
    and a: "\<And>other (sem :: nat meaning) p env fr m n. meaning_ok alloc_unit other alloc_nodes sem \<Longrightarrow>
            in_step alloc_unit 1 (reg_at iu' \<circ> rep) alloc_nodes (Some (p, env, m)) (Some (p, fr, m)) \<Longrightarrow>
            in_step alloc_unit 1 (reg_at iu' \<circ> rep) alloc_nodes (run_steps (rd_env alloc_unit other) wr_env alloc_nodes sem n (p, env, m))
              (run_steps (rd_frame alloc_unit (reg_at iu') other) (wr_frame alloc_unit (reg_at iu')) (map_nodes (rename_node (lift rep)) alloc_nodes) sem n (p, fr, m))"
    by (cases "remove_empty_bb fl2") (auto simp: alloc_analysis)
  have dn: "alloc_done = fl3\<lparr>fl_regframe_size := frame, fl_iu := iu'\<rparr>" using trans [OF alloc_analysis [symmetric] d] by blast
  have reg: "reg_at (fl_iu alloc_done) = reg_at iu'" by (simp add: dn)
  have start: "in_step alloc_unit 1 (reg_at iu' \<circ> rep) alloc_nodes (Some ((0, 0), (\<lambda>_. [0, 0, 0, 0]), 0)) (Some ((0, 0), (\<lambda>_. 0), 0))"
    by (auto simp: in_step_def alloc_places env_sized_def alloc_temps width_one holds_values_def live_values_def alloc_live simp del: One_nat_def)
  have val: "2 + 1 \<in> live_values 1 alloc_nodes (2, 1)" by (auto simp: live_values_def alloc_live simp del: One_nat_def)
  show ?thesis
    using a [OF demo_ok start, of 7] val alloc_analysis width_one [of 3] unfolding demo_run reg
    by (intro exI [of _ rep]) (auto simp: in_step_def holds_values_def split: option.splits)
qed

section \<open>The first block\<close>

text \<open>
  A function starts with its first block. \<open>remove_empty_bb\<close> also removes a first block that is only a branch,
  and then the function starts with the block that follows in the list, whatever the branch named.
\<close>

definition entry_flow :: flow where
  "entry_flow =
     (let node = (\<lambda>(i, ii). \<lparr>fn_id = i, fn_instr = ii, fn_out = [], fn_gen = [], fn_in = [], fn_num_succ = 0, fn_succ = []\<rparr>);
          vt = (\<lambda>v. \<lparr>vt_value = v, vt_type = 0\<rparr>); ret = (\<lambda>v. IR_IC_RET \<lparr>iun_super = no_super, iun_value = vt v, iun_op = 0\<rparr>)
      in \<lparr>fl_iu = alloc_unit,
          fl_bbs = [\<lparr>fb_id = 10, fb_nodes = [node (1, IR_IC_BR \<lparr>ibr_condition = vt (- 1), ibr_true = 30, ibr_false = 0\<rparr>)]\<rparr>,
                    \<lparr>fb_id = 20, fb_nodes = [node (2, ret 1)]\<rparr>, \<lparr>fb_id = 30, fb_nodes = [node (3, ret 2)]\<rparr>],
          fl_edges = [\<lparr>fe_id = 1, fe_from = 10, fe_to = 30\<rparr>], fl_incoming = (\<lambda>b. if b = 30 then [1] else []),
          fl_binds = [(1, 2, False), (2, 3, False)], fl_fresh = 4, fl_num_bbs = 3, fl_regframe_size = 0\<rparr>)"

lemma remove_empty_bb_loses_entry: "map_sum id (\<lambda>fl. map fb_id (fl_bbs fl)) (remove_empty_bb entry_flow) = Inr [20, 30]"
  by code_simp

end
