(* ===== verification/Vmir_Ssa.thy ===== *)
theory Vmir_Ssa
  imports Vmir_Graph
begin

text \<open>
  Leaving SSA form, \<open>exit_ssa\<close> of \<open>src/src/vmir_transform.c\<close>: on every edge into a block with
  PHI instructions the parallel assignment they stand for becomes a sequence of moves at the end of
  the block the edge comes from.

  \<open>exit_ssa_edge\<close> keeps the values involved in a list of nodes and the copies in a list of
  edges. An edge is the pair of its source and its destination, its lists are lists; a value has at most one
  incoming edge, so \<open>pln_dst\<close> is a map. A node can be taken off its list twice, which for the macros of
  \<open>sys/queue.h\<close> is not the same as once, so the list of nodes is modelled with its pointers.
\<close>

section \<open>Intrusive lists\<close>

text \<open>Where a pointer to an element is stored: in the head of the list or in an element.\<close>

datatype 'a link = Head | Next 'a

record 'a bsd_list =
  lh_first :: "'a option"
  le_next :: "'a \<Rightarrow> 'a option"
  le_prev :: "'a \<Rightarrow> 'a link"

definition list_init :: "'a bsd_list" where
  "list_init = \<lparr>lh_first = None, le_next = (\<lambda>_. None), le_prev = (\<lambda>_. Head)\<rparr>"

definition store_link :: "'a link \<Rightarrow> 'a option \<Rightarrow> 'a bsd_list \<Rightarrow> 'a bsd_list" where
  "store_link l x bl = (case l of Head \<Rightarrow> bl\<lparr>lh_first := x\<rparr> | Next a \<Rightarrow> bl\<lparr>le_next := (le_next bl)(a := x)\<rparr>)"

definition list_insert_head :: "'a \<Rightarrow> 'a bsd_list \<Rightarrow> 'a bsd_list" where
  "list_insert_head x bl =
     (let bl1 = bl\<lparr>le_next := (le_next bl)(x := lh_first bl)\<rparr>;
          bl2 = (case lh_first bl of None \<Rightarrow> bl1 | Some y \<Rightarrow> bl1\<lparr>le_prev := (le_prev bl1)(y := Next x)\<rparr>)
      in bl2\<lparr>lh_first := Some x, le_prev := (le_prev bl2)(x := Head)\<rparr>)"

definition list_remove :: "'a \<Rightarrow> 'a bsd_list \<Rightarrow> 'a bsd_list" where
  "list_remove x bl =
     (let bl1 = (case le_next bl x of None \<Rightarrow> bl | Some y \<Rightarrow> bl\<lparr>le_prev := (le_prev bl)(y := le_prev bl x)\<rparr>)
      in store_link (le_prev bl1 x) (le_next bl1 x) bl1)"

section \<open>Copies along an edge\<close>

definition phi_lift_node_find :: "ir_valuetype list \<Rightarrow> int \<Rightarrow> ir_valuetype option" where
  "phi_lift_node_find nodes v = List.find (\<lambda>vt. vt_value vt = v) nodes"

definition phi_lift_node :: "ir_valuetype \<Rightarrow> ir_valuetype list \<Rightarrow> ir_valuetype list" where
  "phi_lift_node vt nodes = (case phi_lift_node_find nodes (vt_value vt) of None \<Rightarrow> vt # nodes | Some _ \<Rightarrow> nodes)"

definition lift_phi_node :: "int \<Rightarrow> ir_valuetype \<Rightarrow> ir_valuetype list \<times> (int \<times> int) list \<Rightarrow> int \<times> ir_valuetype \<Rightarrow>
    (ir_valuetype list \<times> (int \<times> int) list) result" where
  "lift_phi_node predecessor ret = (\<lambda>(nodes, edges) (p, v).
     if p \<noteq> predecessor \<or> vt_value ret = vt_value v then Inr (nodes, edges)
     else let nodes' = phi_lift_node v (phi_lift_node ret nodes) in
       if \<exists>e \<in> set edges. snd e = vt_value ret then Inl (Parser_error ''Multiple PHI entries point to same register'')
       else Inr (nodes', (vt_value v, vt_value ret) # edges))"

definition lift_phi :: "int \<Rightarrow> ir_valuetype list \<times> (int \<times> int) list \<Rightarrow> flow_node \<Rightarrow> (ir_valuetype list \<times> (int \<times> int) list) result" where
  "lift_phi predecessor st nd =
     (case fn_instr nd of IR_IC_PHI p \<Rightarrow> res_fold (lift_phi_node predecessor (ii_ret (iph_super p))) st (iph_nodes p) | _ \<Rightarrow> Inr st)"

definition phi_prefix_nodes :: "flow_bb \<Rightarrow> flow_node list" where
  "phi_prefix_nodes bb = takeWhile (\<lambda>nd. is_phi (fn_instr nd)) (fb_nodes bb)"

definition phi_copies :: "int \<Rightarrow> flow_bb \<Rightarrow> (ir_valuetype list \<times> (int \<times> int) list) result" where
  "phi_copies predecessor bb = res_fold (lift_phi predecessor) ([], []) (phi_prefix_nodes bb)"

section \<open>Sequencing the copies\<close>

text \<open>A move is its destination and its source.\<close>

type_synonym moves = "(ir_valuetype \<times> ir_valuetype) list"

definition lift_move :: "(int \<Rightarrow> ir_valuetype) \<Rightarrow> int \<times> int \<Rightarrow> bool \<times> (int \<times> int) list \<times> int bsd_list \<times> moves \<Rightarrow>
    bool \<times> (int \<times> int) list \<times> int bsd_list \<times> moves" where
  "lift_move vt = (\<lambda>(src, dst) (progress, edges, nodes, ms).
     if \<exists>e \<in> set edges. fst e = dst then (progress, edges, nodes, ms)
     else let edges' = remove1 (src, dst) edges; nodes1 = list_remove dst nodes
       in (True, edges', if \<exists>e \<in> set edges'. fst e = src then nodes1 else list_remove src nodes1, ms @ [(vt dst, vt src)]))"

text \<open>First moves where the destination is not also a source.\<close>

partial_function (option) lift_leaves :: "(int \<Rightarrow> ir_valuetype) \<Rightarrow> (int \<times> int) list \<Rightarrow> int bsd_list \<Rightarrow> moves \<Rightarrow>
    ((int \<times> int) list \<times> int bsd_list \<times> moves) option" where
  [code]: "lift_leaves vt edges nodes ms =
     (case fold (lift_move vt) edges (False, edges, nodes, ms) of (progress, edges', nodes', ms') \<Rightarrow>
        if edges' = [] \<or> \<not> progress then Some (edges', nodes', ms') else lift_leaves vt edges' nodes' ms')"

text \<open>Then the cycles, each through a temporary.\<close>

partial_function (option) lift_cycle :: "(int \<Rightarrow> int option) \<Rightarrow> (int \<Rightarrow> ir_valuetype) \<Rightarrow> int \<Rightarrow> int \<Rightarrow> int bsd_list \<Rightarrow> moves \<Rightarrow>
    (int \<times> int bsd_list \<times> moves) result option" where
  [code]: "lift_cycle dst vt start cur nodes ms =
     (case dst cur of
        None \<Rightarrow> Some (Inl Undefined_behaviour)
      | Some src \<Rightarrow> if src = start then Some (Inr (cur, nodes, ms))
          else lift_cycle dst vt start src (list_remove cur nodes) (ms @ [(vt cur, vt src)]))"

partial_function (option) lift_cycles :: "(int \<Rightarrow> int option) \<Rightarrow> (int \<Rightarrow> ir_valuetype) \<Rightarrow> ir_unit \<Rightarrow> int bsd_list \<Rightarrow> moves \<Rightarrow>
    (ir_unit \<times> moves) result option" where
  [code]: "lift_cycles dst vt iu nodes ms =
     (case lh_first nodes of
        None \<Rightarrow> Some (Inr (iu, ms))
      | Some start \<Rightarrow>
          (case value_alloc_temporary iu (vt_type (vt start)) of
             Inl e \<Rightarrow> Some (Inl e)
           | Inr ((i, ty), iu1) \<Rightarrow>
               (case lift_cycle dst vt start start nodes (ms @ [(\<lparr>vt_value = int i, vt_type = ty\<rparr>, vt start)]) of
                  None \<Rightarrow> None
                | Some (Inl e) \<Rightarrow> Some (Inl e)
                | Some (Inr (cur, nodes1, ms1)) \<Rightarrow>
                    lift_cycles dst vt iu1 (list_remove cur nodes1) (ms1 @ [(vt cur, \<lparr>vt_value = int i, vt_type = ty\<rparr>)]))))"

definition node_vt :: "ir_valuetype list \<Rightarrow> int \<Rightarrow> ir_valuetype" where
  "node_vt nodes v = (case phi_lift_node_find nodes v of Some vt \<Rightarrow> vt | None \<Rightarrow> no_value)"

definition phi_moves :: "ir_unit \<Rightarrow> ir_valuetype list \<Rightarrow> (int \<times> int) list \<Rightarrow> (ir_unit \<times> moves) result option" where
  "phi_moves iu nodes edges =
     (if edges = [] then Some (Inr (iu, []))
      else case lift_leaves (node_vt nodes) edges (foldr list_insert_head (map vt_value nodes) list_init) [] of
        None \<Rightarrow> None
      | Some (edges', nl, ms) \<Rightarrow>
          if edges' = [] then Some (Inr (iu, ms))
          else lift_cycles (map_of (map prod.swap edges)) (node_vt nodes) iu nl ms)"

section \<open>Inserting the moves\<close>

definition insert_move :: "nat \<Rightarrow> flow \<Rightarrow> ir_valuetype \<times> ir_valuetype \<Rightarrow> flow result" where
  "insert_move before fl = (\<lambda>(to, from).
     let (i, fl1) = instr_add_before (IR_IC_MOVE \<lparr>imo_super = \<lparr>ii_ret = to, ii_rets = []\<rparr>, imo_value = from\<rparr>) before fl
     in res_bind (value_bind_return_value to i fl1) (\<lambda>fl2. instr_bind_input from i fl2))"

definition exit_ssa_edge :: "int \<Rightarrow> flow \<Rightarrow> flow_edge \<Rightarrow> flow result option" where
  "exit_ssa_edge b fl ibe =
     (case res_bind (find_bb fl b) (phi_copies (fe_from ibe)) of
        Inl e \<Rightarrow> Some (Inl e)
      | Inr (nodes, edges) \<Rightarrow>
          if edges = [] then Some (Inr fl)
          else (case res_bind (find_bb fl (fe_from ibe)) last_instr of
             Inl e \<Rightarrow> Some (Inl e)
           | Inr before \<Rightarrow>
               (case phi_moves (fl_iu fl) nodes edges of
                  None \<Rightarrow> None
                | Some (Inl e) \<Rightarrow> Some (Inl e)
                | Some (Inr (iu, ms)) \<Rightarrow> Some (res_fold (insert_move (fn_id before)) (fl\<lparr>fl_iu := iu\<rparr>) ms))))"

fun try_fold :: "('s \<Rightarrow> 'a \<Rightarrow> 's result option) \<Rightarrow> 's \<Rightarrow> 'a list \<Rightarrow> 's result option" where
  "try_fold f st [] = Some (Inr st)"
| "try_fold f st (x # xs) =
     (case f st x of None \<Rightarrow> None | Some (Inl e) \<Rightarrow> Some (Inl e) | Some (Inr st') \<Rightarrow> try_fold f st' xs)"

definition exit_ssa_bb :: "flow \<Rightarrow> int \<Rightarrow> flow result option" where
  "exit_ssa_bb fl b =
     (case try_fold (\<lambda>fl i. case find_edge fl i of Inl e \<Rightarrow> Some (Inl e) | Inr ibe \<Rightarrow> exit_ssa_edge b fl ibe) fl (incoming_edges fl b) of
        None \<Rightarrow> None
      | Some (Inl e) \<Rightarrow> Some (Inl e)
      | Some (Inr fl1) \<Rightarrow>
          Some (res_bind (find_bb fl1 b) (\<lambda>bb. Inr (fold instr_destroy (map fn_id (phi_prefix_nodes bb)) fl1))))"

definition exit_ssa :: "flow \<Rightarrow> flow result option" where
  "exit_ssa fl = try_fold exit_ssa_bb fl (map fb_id (fl_bbs fl))"

end
