(* ===== verification/Vmir_Ssa_Copy.thy ===== *)
theory Vmir_Ssa_Copy
  imports Vmir_Ssa
begin

text \<open>
  The sequence of moves \<open>phi_moves\<close> computes has the effect of the copies made all at once, when every
  value that is both copied from and copied to lies on a cycle, or none does. Otherwise a node
  is taken off its list twice.
\<close>

section \<open>Intrusive lists as lists\<close>

definition load_link :: "'a link \<Rightarrow> 'a bsd_list \<Rightarrow> 'a option" where
  "load_link l bl = (case l of Head \<Rightarrow> lh_first bl | Next a \<Rightarrow> le_next bl a)"

fun linked_from :: "'a bsd_list \<Rightarrow> 'a link \<Rightarrow> 'a list \<Rightarrow> bool" where
  "linked_from bl l [] \<longleftrightarrow> load_link l bl = None"
| "linked_from bl l (x # xs) \<longleftrightarrow> load_link l bl = Some x \<and> le_prev bl x = l \<and> linked_from bl (Next x) xs"

definition holds :: "'a bsd_list \<Rightarrow> 'a list \<Rightarrow> bool" where
  "holds bl xs \<longleftrightarrow> distinct xs \<and> linked_from bl Head xs"

lemma linked_from_cong:
  assumes "load_link l bl' = load_link l bl" "\<And>x. x \<in> set xs \<Longrightarrow> le_next bl' x = le_next bl x" "\<And>x. x \<in> set xs \<Longrightarrow> le_prev bl' x = le_prev bl x"
  shows "linked_from bl' l xs = linked_from bl l xs"
  using assms
proof (induction xs arbitrary: l)
  case (Cons x xs)
  have "linked_from bl' (Next x) xs = linked_from bl (Next x) xs"
    by (rule Cons.IH) (use Cons.prems in \<open>auto simp: load_link_def\<close>)
  then show ?case using Cons.prems by simp
qed simp

lemma holds_init [simp]: "holds list_init []"
  by (simp add: holds_def list_init_def load_link_def)

lemma holds_insert:
  assumes "holds bl xs" "x \<notin> set xs"
  shows "holds (list_insert_head x bl) (x # xs)"
proof -
  let ?bl = "list_insert_head x bl"
  have l: "linked_from bl Head xs" and d: "distinct xs" using assms(1) by (simp_all add: holds_def)
  have "linked_from ?bl (Next x) xs"
  proof (cases xs)
    case Nil
    then show ?thesis using l by (simp add: list_insert_head_def load_link_def Let_def)
  next
    case (Cons y ys)
    have f: "lh_first bl = Some y" using l Cons by (simp add: load_link_def)
    have "linked_from ?bl (Next y) ys = linked_from bl (Next y) ys"
      by (rule linked_from_cong) (use assms(2) d Cons f in \<open>auto simp: list_insert_head_def load_link_def Let_def\<close>)
    then show ?thesis using l assms(2) Cons f by (simp add: list_insert_head_def load_link_def Let_def) auto
  qed
  then show ?thesis using assms(2) d by (simp add: holds_def list_insert_head_def load_link_def Let_def split: option.splits)
qed

lemma holds_foldr: "distinct xs \<Longrightarrow> holds (foldr list_insert_head xs list_init) xs"
  by (induction xs) (auto intro: holds_insert)

lemma linked_remove:
  assumes "linked_from bl l (xs @ x # ys)" "distinct (xs @ x # ys)" "\<forall>z \<in> set (xs @ x # ys). l \<noteq> Next z"
  shows "linked_from (list_remove x bl) l (xs @ ys)"
  using assms
proof (induction xs arbitrary: l)
  case Nil
  then have x: "load_link l bl = Some x" "le_prev bl x = l" "linked_from bl (Next x) ys" "x \<notin> set ys" "distinct ys" by simp_all
  show ?case
  proof (cases ys)
    case Nil
    then have n: "le_next bl x = None" using x(3) by (simp add: load_link_def)
    show ?thesis using Nil by (simp add: list_remove_def n x(2) store_link_def load_link_def split: link.split)
  next
    case (Cons y zs)
    then have n: "le_next bl x = Some y" and y: "linked_from bl (Next y) zs" using x(3) by (simp_all add: load_link_def)
    have yx: "y \<noteq> x" using x(4) Cons by auto
    have l: "l \<noteq> Next z" if "z \<in> set ys \<or> z = x" for z using that Nil.prems(3) by auto
    have "linked_from (list_remove x bl) (Next y) zs = linked_from bl (Next y) zs"
      by (rule linked_from_cong) (use x(4,5) Cons n yx l x(2) in \<open>cases l; auto simp: list_remove_def store_link_def load_link_def Let_def\<close>)+
    moreover have "load_link l (list_remove x bl) = Some y" "le_prev (list_remove x bl) y = l"
      using n x(2) yx by (cases l; simp add: list_remove_def store_link_def load_link_def Let_def)+
    ultimately show ?thesis using y Cons by simp
  qed
next
  case (Cons a as)
  have "linked_from (list_remove x bl) (Next a) (as @ ys)"
    by (rule Cons.IH) (use Cons.prems in auto)
  moreover have "\<exists>p \<in> insert a (set as). le_prev bl x = Next p"
    using Cons.prems(1) by (induction as arbitrary: a l) auto
  then obtain p where p: "p \<in> insert a (set as)" "le_prev bl x = Next p" by blast
  have nx: "le_next bl x = None \<or> (\<exists>y \<in> set ys. le_next bl x = Some y)"
    using Cons.prems(1)
  proof (induction as arbitrary: a l)
    case Nil
    then show ?case by (cases ys) (simp_all add: load_link_def)
  next
    case (Cons b bs)
    have "linked_from bl (Next a) ((b # bs) @ x # ys)" using Cons.prems by simp
    then show ?case using Cons.IH [where l = "Next a" and a = b] by simp
  qed
  have "le_prev (list_remove x bl) a = le_prev bl a"
    using nx p Cons.prems(2) by (auto simp: list_remove_def store_link_def)
  moreover have "load_link l (list_remove x bl) = load_link l bl"
  proof -
    have "l \<noteq> Next p" using p(1) Cons.prems(3) by auto
    moreover have "le_prev (case le_next bl x of None \<Rightarrow> bl | Some y \<Rightarrow> bl\<lparr>le_prev := (le_prev bl)(y := le_prev bl x)\<rparr>) x = Next p"
      using nx p(2) Cons.prems(2) by auto
    ultimately show ?thesis by (auto simp: list_remove_def store_link_def load_link_def Let_def split: link.split option.split)
  qed
  ultimately show ?case using Cons.prems(1) by simp
qed

lemma holds_remove:
  assumes "holds bl xs" "x \<in> set xs"
  shows "holds (list_remove x bl) (remove1 x xs)"
proof -
  obtain ys zs where xs: "xs = ys @ x # zs" "x \<notin> set ys" using split_list_first [OF assms(2)] by blast
  then have "linked_from (list_remove x bl) Head (ys @ zs)" using assms(1) by (intro linked_remove) (auto simp: holds_def)
  then show ?thesis using assms(1) xs by (simp add: holds_def remove1_append)
qed

lemma holds_first: "holds bl xs \<Longrightarrow> lh_first bl = (case xs of [] \<Rightarrow> None | x # _ \<Rightarrow> Some x)"
  by (cases xs) (simp_all add: holds_def load_link_def)

section \<open>Copies all at once\<close>

definition run_moves :: "moves \<Rightarrow> (int \<Rightarrow> 'v) \<Rightarrow> (int \<Rightarrow> 'v)" where
  "run_moves ms env = fold (\<lambda>(to, from) env. env(vt_value to := env (vt_value from))) ms env"

lemma run_moves_simps [simp]:
  "run_moves [] env = env" "run_moves (ms @ ms') env = run_moves ms' (run_moves ms env)"
  "run_moves ((to, from) # ms) env = run_moves ms (env(vt_value to := env (vt_value from)))"
  by (simp_all add: run_moves_def)

definition copied :: "(int \<times> int) list \<Rightarrow> (int \<Rightarrow> 'v) \<Rightarrow> (int \<Rightarrow> 'v)" where
  "copied edges env v = (case map_of (map prod.swap edges) v of None \<Rightarrow> env v | Some s \<Rightarrow> env s)"

lemma copied_in:
  assumes "distinct (map snd edges)" "(s, d) \<in> set edges"
  shows "copied edges env d = env s"
proof -
  have "map_of (map prod.swap edges) d = Some s"
    using assms by (intro map_of_is_SomeI) (auto simp: comp_def intro!: rev_image_eqI)
  then show ?thesis by (simp add: copied_def)
qed

lemma copied_out: "d \<notin> snd ` set edges \<Longrightarrow> copied edges env d = env d"
  by (force simp: copied_def split: option.split dest!: map_of_SomeD)

lemma copied_Nil [simp]: "copied [] env = env"
  by (simp add: copied_def fun_eq_iff)

definition is_src :: "(int \<times> int) list \<Rightarrow> int \<Rightarrow> bool" where
  "is_src edges v \<longleftrightarrow> v \<in> fst ` set edges"

definition is_dst :: "(int \<times> int) list \<Rightarrow> int \<Rightarrow> bool" where
  "is_dst edges v \<longleftrightarrow> v \<in> snd ` set edges"

lemma edge_unique:
  "distinct (map snd edges) \<Longrightarrow> (a, d) \<in> set edges \<Longrightarrow> (b, d) \<in> set edges \<Longrightarrow> a = b"
  "distinct (map fst edges) \<Longrightarrow> (d, a) \<in> set edges \<Longrightarrow> (d, b) \<in> set edges \<Longrightarrow> a = b"
  by (metis (no_types) distinct_map inj_on_def snd_conv fst_conv prod.inject)+

text \<open>A copy to a value no copy reads can be made first.\<close>

lemma copied_ready:
  assumes "distinct (map snd edges)" "(s, d) \<in> set edges" "\<not> is_src edges d"
  shows "copied (remove1 (s, d) edges) (env(d := env s)) = copied edges env"
proof
  fix v
  let ?E = "remove1 (s, d) edges"
  have dE: "distinct edges" using assms(1) by (simp add: distinct_map)
  then have E: "set ?E = set edges - {(s, d)}" by simp
  have dm: "distinct (map snd ?E)" using assms(1) by (metis distinct_map dE distinct_remove1 inj_on_subset E Diff_subset)
  consider "v = d" | u where "v \<noteq> d" "(u, v) \<in> set edges" | "v \<noteq> d" "v \<notin> snd ` set edges" by force
  then show "copied ?E (env(d := env s)) v = copied edges env v"
  proof cases
    case 1
    have "d \<notin> snd ` set ?E" using edge_unique(1) [OF assms(1)] assms(2) unfolding E by force
    then show ?thesis using 1 by (simp add: copied_out [of d ?E] copied_in [OF assms(1,2)])
  next
    case 2
    have u: "(u, v) \<in> set ?E" "u \<noteq> d" using 2 assms(3) unfolding E by (auto simp: is_src_def rev_image_eqI)
    show ?thesis using u(2) by (simp add: copied_in [OF dm u(1)] copied_in [OF assms(1) 2(2)])
  next
    case 3
    then have "v \<notin> snd ` set ?E" unfolding E by auto
    then show ?thesis using 3 by (simp add: copied_out)
  qed
qed

section \<open>Leaves\<close>

text \<open>What the nodes of the list are while leaves are removed: the values of the copies that are left.\<close>

definition nodes_left :: "(int \<times> int) list \<Rightarrow> int bsd_list \<Rightarrow> bool" where
  "nodes_left edges nl \<longleftrightarrow> (\<exists>xs. holds nl xs \<and> set xs = fst ` set edges \<union> snd ` set edges)"

text \<open>Every value both copied from and to lies on a cycle.\<close>

definition no_chains :: "(int \<times> int) list \<Rightarrow> bool" where
  "no_chains edges \<longleftrightarrow> (\<forall>x. is_src edges x \<and> is_dst edges x \<longrightarrow> (x, x) \<in> (set edges)\<^sup>+)"

definition cycles_left :: "(int \<times> int) list \<Rightarrow> (int \<times> int) list \<Rightarrow> bool" where
  "cycles_left edges0 edges \<longleftrightarrow> (\<forall>x. (x, x) \<in> (set edges0)\<^sup>+ \<longrightarrow> (\<exists>y. (x, y) \<in> set edges \<and> (y, x) \<in> (set edges0)\<^sup>*))"

definition leaves_inv :: "(int \<times> int) list \<Rightarrow> (int \<times> int) list \<times> int bsd_list \<Rightarrow> bool" where
  "leaves_inv edges0 = (\<lambda>(edges, nl). no_chains edges0 \<longrightarrow> cycles_left edges0 edges \<and> nodes_left edges nl)"

lemma leaves_inv_step:
  assumes inv: "leaves_inv edges0 (edges, nl)" and sub: "set edges \<subseteq> set edges0" and d: "distinct (map snd edges)"
    and e: "(s, d) \<in> set edges" and ns: "\<not> is_src edges d"
  shows "leaves_inv edges0 (remove1 (s, d) edges, if is_src (remove1 (s, d) edges) s then list_remove d nl else list_remove s (list_remove d nl))"
  unfolding leaves_inv_def prod.case
proof
  assume nc: "no_chains edges0"
  let ?E = "remove1 (s, d) edges"
  have cl: "cycles_left edges0 edges" and nl: "nodes_left edges nl" using inv nc by (simp_all add: leaves_inv_def)
  have dE: "distinct edges" using d by (simp add: distinct_map)
  then have E: "set ?E = set edges - {(s, d)}" by simp
  have cl': "cycles_left edges0 ?E"
    unfolding cycles_left_def
  proof (intro allI impI)
    fix x assume x: "(x, x) \<in> (set edges0)\<^sup>+"
    then obtain y where y: "(x, y) \<in> set edges" "(y, x) \<in> (set edges0)\<^sup>*" using cl by (auto simp: cycles_left_def)
    have "(x, y) \<noteq> (s, d)"
    proof
      assume eq: "(x, y) = (s, d)"
      have "(d, d) \<in> (set edges0)\<^sup>+" using y eq sub by (metis Pair_inject rtrancl_into_trancl1 subsetD)
      then have "is_src edges d" using cl by (force simp: cycles_left_def is_src_def)
      then show False using ns by simp
    qed
    then show "\<exists>y. (x, y) \<in> set ?E \<and> (y, x) \<in> (set edges0)\<^sup>*" using y E by blast
  qed
  obtain xs where xs: "holds nl xs" "set xs = fst ` set edges \<union> snd ` set edges" using nl by (auto simp: nodes_left_def)
  have sd: "s \<noteq> d" using e ns by (force simp: is_src_def)
  have dx: "d \<in> set xs" using e xs(2) by force
  have h1: "holds (list_remove d nl) (remove1 d xs)" by (rule holds_remove [OF xs(1) dx])
  have dist: "distinct xs" using xs(1) by (simp add: holds_def)
  have d': "d \<notin> snd ` set ?E" using edge_unique(1) [OF d] e unfolding E by force
  have fs: "fst ` set ?E = fst ` set edges - (if is_src ?E s then {} else {s})" "snd ` set ?E = snd ` set edges - {d}"
  proof -
    have "set edges = insert (s, d) (set ?E)" using e E by blast
    then have "fst ` set edges = insert s (fst ` set ?E)" "snd ` set edges = insert d (snd ` set ?E)" by simp_all
    then show "fst ` set ?E = fst ` set edges - (if is_src ?E s then {} else {s})" "snd ` set ?E = snd ` set edges - {d}"
      using d' by (auto simp: is_src_def)
  qed
  have nd: "d \<notin> fst ` set edges" using ns by (simp add: is_src_def)
  show "cycles_left edges0 ?E \<and> nodes_left ?E (if is_src ?E s then list_remove d nl else list_remove s (list_remove d nl))"
  proof (cases "is_src ?E s")
    case True
    have "set (remove1 d xs) = fst ` set ?E \<union> snd ` set ?E" using xs(2) dist fs True nd by auto
    then show ?thesis using cl' h1 True unfolding nodes_left_def by auto
  next
    case False
    have "s \<notin> snd ` set edges"
    proof
      assume "s \<in> snd ` set edges"
      then have "is_src edges0 s" "is_dst edges0 s" using e sub by (force simp: is_src_def is_dst_def)+
      then have "(s, s) \<in> (set edges0)\<^sup>+" using nc by (simp add: no_chains_def)
      then show False using cl' False by (force simp: cycles_left_def is_src_def)
    qed
    moreover have sx: "s \<in> set (remove1 d xs)" using e xs(2) sd by (force simp: in_set_remove1)
    ultimately have "set (remove1 s (remove1 d xs)) = fst ` set ?E \<union> snd ` set ?E" using xs(2) dist fs False nd by auto
    then show ?thesis using cl' holds_remove [OF h1 sx] False unfolding nodes_left_def by auto
  qed
qed

definition vt_ok :: "(int \<Rightarrow> ir_valuetype) \<Rightarrow> (int \<times> int) list \<Rightarrow> bool" where
  "vt_ok vt edges \<longleftrightarrow> (\<forall>(s, d) \<in> set edges. vt_value (vt s) = s \<and> vt_value (vt d) = d)"

lemma distinct_map_remove1: "distinct (map f xs) \<Longrightarrow> distinct (map f (remove1 x xs))"
  by (auto simp: distinct_map intro: inj_on_diff)

lemma length_remove1_less: "x \<in> set xs \<Longrightarrow> length (remove1 x xs) < length xs"
  using length_pos_if_in_set [of x xs] by (auto simp: length_remove1)

lemma lift_pass:
  fixes env :: "int \<Rightarrow> 'v"
  assumes "fold (lift_move vt) es (pr, E, nl, ms) = (pr', E', nl', ms')" "distinct es" "set es \<subseteq> set E" "distinct (map snd E)"
    "vt_ok vt E" "leaves_inv edges0 (E, nl)" "set E \<subseteq> set edges0"
  shows "distinct (map snd E') \<and> set E' \<subseteq> set E \<and> leaves_inv edges0 (E', nl') \<and> (\<forall>env :: int \<Rightarrow> 'v. copied E' (run_moves ms' env) = copied E (run_moves ms env)) \<and>
    length E' \<le> length E \<and> (pr' \<and> \<not> pr \<longrightarrow> length E' < length E) \<and> (pr \<longrightarrow> pr') \<and> (\<not> pr' \<longrightarrow> E' = E \<and> (\<forall>e \<in> set es. is_src E (snd e))) \<and>
    set ms' \<subseteq> set ms \<union> (\<lambda>(s, d). (vt d, vt s)) ` set E"
  using assms
proof (induction es arbitrary: pr E nl ms)
  case (Cons e es)
  obtain s d where e: "e = (s, d)" by (cases e)
  show ?case
  proof (cases "is_src E d")
    case True
    then have "lift_move vt e (pr, E, nl, ms) = (pr, E, nl, ms)" by (auto simp: lift_move_def e is_src_def)
    then show ?thesis using Cons.IH [of pr E nl ms] Cons.prems True by (auto simp: e)
  next
    case False
    let ?E = "remove1 (s, d) E"
    let ?nl = "if is_src ?E s then list_remove d nl else list_remove s (list_remove d nl)"
    have m: "lift_move vt e (pr, E, nl, ms) = (True, ?E, ?nl, ms @ [(vt d, vt s)])"
      using False by (auto simp: lift_move_def e is_src_def Let_def)
    have eE: "(s, d) \<in> set E" using Cons.prems(3) e by simp
    have dE: "distinct E" using Cons.prems(4) by (simp add: distinct_map)
    have vt: "vt_value (vt s) = s" "vt_value (vt d) = d" using Cons.prems(5) eE by (auto simp: vt_ok_def)
    have sub: "set ?E \<subseteq> set E" by (rule set_remove1_subset)
    have "set es \<subseteq> set ?E" using Cons.prems(2,3) e dE by auto
    moreover have "vt_ok vt ?E" "set ?E \<subseteq> set edges0" using Cons.prems(5,7) sub by (auto simp: vt_ok_def)
    moreover have "fold (lift_move vt) es (True, ?E, ?nl, ms @ [(vt d, vt s)]) = (pr', E', nl', ms')" using Cons.prems(1) m by simp
    ultimately have IH: "distinct (map snd E') \<and> set E' \<subseteq> set ?E \<and> leaves_inv edges0 (E', nl') \<and>
       (\<forall>env :: int \<Rightarrow> 'v. copied E' (run_moves ms' env) = copied ?E (run_moves (ms @ [(vt d, vt s)]) env)) \<and> length E' \<le> length ?E \<and> pr' \<and>
       set ms' \<subseteq> set (ms @ [(vt d, vt s)]) \<union> (\<lambda>(s, d). (vt d, vt s)) ` set ?E"
      using Cons.IH [of True ?E ?nl "ms @ [(vt d, vt s)]"] Cons.prems(2) distinct_map_remove1 [OF Cons.prems(4)]
        leaves_inv_step [OF Cons.prems(6,7,4) eE False] by (simp del: run_moves_simps)
    have "copied ?E (run_moves (ms @ [(vt d, vt s)]) env) = copied E (run_moves ms env)" for env :: "int \<Rightarrow> 'v"
      using copied_ready [OF Cons.prems(4) eE False] by (simp add: vt)
    moreover have "length ?E < length E" by (rule length_remove1_less [OF eE])
    moreover have "set (ms @ [(vt d, vt s)]) \<union> (\<lambda>(s, d). (vt d, vt s)) ` set ?E \<subseteq> set ms \<union> (\<lambda>(s, d). (vt d, vt s)) ` set E"
      using eE sub by force
    then have "set ms' \<subseteq> set ms \<union> (\<lambda>(s, d). (vt d, vt s)) ` set E" using IH by blast
    ultimately show ?thesis using IH sub by (simp only: simp_thms) (meson le_less_trans less_imp_le_nat order_trans)
  qed
qed auto

text \<open>What is left when the leaves are gone is a permutation.\<close>

definition cycles_only :: "(int \<times> int) list \<Rightarrow> bool" where
  "cycles_only edges \<longleftrightarrow> distinct (map fst edges) \<and> distinct (map snd edges) \<and> fst ` set edges = snd ` set edges"

lemma cycles_onlyI:
  assumes "distinct (map snd edges)" "\<forall>e \<in> set edges. is_src edges (snd e)"
  shows "cycles_only edges"
proof -
  have d: "distinct edges" using assms(1) by (simp add: distinct_map)
  have sub: "snd ` set edges \<subseteq> fst ` set edges" using assms(2) by (auto simp: is_src_def)
  have c: "card (snd ` set edges) = card (set edges)" using assms(1) by (simp add: distinct_map card_image)
  have "card (fst ` set edges) \<le> card (set edges)" by (rule card_image_le) simp
  moreover have "card (snd ` set edges) \<le> card (fst ` set edges)" by (rule card_mono) (use sub in auto)
  ultimately have e: "card (fst ` set edges) = card (set edges)" using c by simp
  then have "inj_on fst (set edges)" by (intro eq_card_imp_inj_on) auto
  moreover have "snd ` set edges = fst ` set edges" by (rule card_subset_eq) (use sub c e in auto)
  ultimately show ?thesis using d assms(1) by (simp add: cycles_only_def distinct_map)
qed

lemma lift_leaves_ok:
  assumes "distinct (map snd E)" "vt_ok vt E" "leaves_inv edges0 (E, nl)" "set E \<subseteq> set edges0"
  shows "\<exists>E' nl' ms'. lift_leaves vt E nl ms = Some (E', nl', ms') \<and> cycles_only E' \<and> set E' \<subseteq> set E \<and> leaves_inv edges0 (E', nl') \<and>
    (\<forall>env :: int \<Rightarrow> 'v. copied E' (run_moves ms' env) = copied E (run_moves ms env)) \<and> set ms' \<subseteq> set ms \<union> (\<lambda>(s, d). (vt d, vt s)) ` set E"
  using assms
proof (induction "length E" arbitrary: E nl ms rule: less_induct)
  case less
  obtain pr E1 nl1 ms1 where f: "fold (lift_move vt) E (False, E, nl, ms) = (pr, E1, nl1, ms1)"
    by (cases "fold (lift_move vt) E (False, E, nl, ms)") auto
  have dE: "distinct E" using less.prems(1) by (simp add: distinct_map)
  note p = lift_pass [OF f dE subset_refl less.prems, where 'v = 'v]
  show ?case
  proof (cases "E1 = [] \<or> \<not> pr")
    case True
    then have r: "lift_leaves vt E nl ms = Some (E1, nl1, ms1)" by (subst lift_leaves.simps) (simp add: f)
    have "cycles_only E1" using True p cycles_onlyI [of E1] by (auto simp: cycles_only_def)
    then show ?thesis using r p by auto
  next
    case False
    then have r: "lift_leaves vt E nl ms = lift_leaves vt E1 nl1 ms1" by (subst lift_leaves.simps) (simp add: f)
    have "length E1 < length E" "vt_ok vt E1" "distinct (map snd E1)" "leaves_inv edges0 (E1, nl1)" "set E1 \<subseteq> set edges0"
      using p False less.prems(2,4) by (auto simp: vt_ok_def)
    from less.hyps [OF this(1,3,2,4,5), of ms1] obtain E' nl' ms' where
      h: "lift_leaves vt E1 nl1 ms1 = Some (E', nl', ms')" "cycles_only E'" "set E' \<subseteq> set E1" "leaves_inv edges0 (E', nl')"
      "\<forall>env :: int \<Rightarrow> 'v. copied E' (run_moves ms' env) = copied E1 (run_moves ms1 env)" "set ms' \<subseteq> set ms1 \<union> (\<lambda>(s, d). (vt d, vt s)) ` set E1" by blast
    have "set E1 \<subseteq> set E" "set ms1 \<subseteq> set ms \<union> (\<lambda>(s, d). (vt d, vt s)) ` set E" using p by simp_all
    then have "set E' \<subseteq> set E" "set ms' \<subseteq> set ms \<union> (\<lambda>(s, d). (vt d, vt s)) ` set E" using h(3,6) by blast+
    moreover have "\<forall>env :: int \<Rightarrow> 'v. copied E' (run_moves ms' env) = copied E (run_moves ms env)" using p h(5) by simp
    ultimately show ?thesis unfolding r using h(1,2,4) by blast
  qed
qed

section \<open>Cycles\<close>

text \<open>
  \<open>R\<close> are the copies that are left of a permutation while a cycle is under way: the value it started from has
  been saved, so the copy that reads it reads \<open>tv\<close>.
\<close>

definition open_cycle :: "(int \<Rightarrow> int option) \<Rightarrow> int \<Rightarrow> int \<Rightarrow> (int \<times> int) list \<Rightarrow> bool" where
  "open_cycle dst start tv R \<longleftrightarrow> distinct (map fst R) \<and> distinct (map snd R) \<and> (\<forall>s. is_src R s \<longrightarrow> s \<noteq> tv \<longrightarrow> is_dst R s) \<and>
     \<not> is_src R start \<and> is_src R tv \<and> (\<forall>(s, d) \<in> set R. dst d = Some (if s = tv then start else s))"

definition nodes_are :: "(int \<times> int) list \<Rightarrow> int bsd_list \<Rightarrow> bool" where
  "nodes_are R nl \<longleftrightarrow> (\<exists>xs. holds nl xs \<and> set xs = snd ` set R)"

lemma nodes_are_remove:
  assumes "nodes_are R nl" "distinct (map snd R)" "(s, d) \<in> set R"
  shows "nodes_are (remove1 (s, d) R) (list_remove d nl)"
proof -
  obtain xs where xs: "holds nl xs" "set xs = snd ` set R" using assms(1) by (auto simp: nodes_are_def)
  have dx: "d \<in> set xs" using assms(3) xs(2) by force
  have R: "set (remove1 (s, d) R) = set R - {(s, d)}" using assms(2) by (simp add: distinct_map)
  have "d \<notin> snd ` set (remove1 (s, d) R)" using edge_unique(1) [OF assms(2)] assms(3) unfolding R by force
  moreover have "set R = insert (s, d) (set (remove1 (s, d) R))" using R assms(3) by blast
  then have "snd ` set R = insert d (snd ` set (remove1 (s, d) R))" by simp
  ultimately have "set (remove1 d xs) = snd ` set (remove1 (s, d) R)" using xs by (auto simp: holds_def)
  then show ?thesis using holds_remove [OF xs(1) dx] by (auto simp: nodes_are_def)
qed

lemma open_cycle_step:
  assumes oc: "open_cycle dst start tv R" and e: "(s, cur) \<in> set R" "s \<noteq> tv" and c: "\<not> is_src R cur"
  shows "open_cycle dst start tv (remove1 (s, cur) R)" "is_dst (remove1 (s, cur) R) s" "\<not> is_src (remove1 (s, cur) R) s"
proof -
  let ?R = "remove1 (s, cur) R"
  have d: "distinct (map fst R)" "distinct (map snd R)" using oc by (simp_all add: open_cycle_def)
  have R: "set ?R = set R - {(s, cur)}" using d by (simp add: distinct_map)
  have sc: "s \<noteq> cur" using e(1) c by (force simp: is_src_def)
  show ns: "\<not> is_src ?R s" using edge_unique(2) [OF d(1) e(1)] unfolding is_src_def R by force
  have other: "is_src ?R v \<longleftrightarrow> is_src R v \<and> v \<noteq> s" "is_dst R v \<Longrightarrow> v \<noteq> cur \<Longrightarrow> is_dst ?R v" for v
    using ns unfolding is_src_def is_dst_def R by force+
  have "is_src R s" using e(1) by (force simp: is_src_def)
  then have "is_dst R s" using oc e(2) unfolding open_cycle_def by blast
  then show "is_dst ?R s" using other(2) sc by blast
  have "\<forall>v. is_src ?R v \<longrightarrow> v \<noteq> tv \<longrightarrow> is_dst ?R v"
    using oc c other unfolding open_cycle_def by metis
  moreover have "\<not> is_src ?R start" "is_src ?R tv" using oc other(1) e(2) unfolding open_cycle_def by auto
  moreover have "\<forall>(s, d) \<in> set ?R. dst d = Some (if s = tv then start else s)" using oc R unfolding open_cycle_def by auto
  ultimately show "open_cycle dst start tv ?R" using d by (simp add: open_cycle_def distinct_map_remove1)
qed

lemma lift_cycle_ok:
  assumes "open_cycle dst start tv R" "is_dst R cur" "\<not> is_src R cur" "nodes_are R nl"
    "\<forall>(s, d) \<in> set R. vt_value (vt d) = d \<and> (s \<noteq> tv \<longrightarrow> vt_value (vt s) = s)"
  shows "\<exists>last' nl' ms' R'. lift_cycle dst vt start cur nl ms = Some (Inr (last', nl', ms @ ms')) \<and> (tv, last') \<in> set R' \<and> set R' \<subseteq> set R \<and>
    open_cycle dst start tv R' \<and> \<not> is_src R' last' \<and> nodes_are R' nl' \<and> (\<forall>env :: int \<Rightarrow> 'v. copied R' (run_moves ms' env) = copied R env) \<and>
    (\<forall>(to, from) \<in> set ms'. \<exists>s d. (s, d) \<in> set R \<and> s \<noteq> tv \<and> to = vt d \<and> from = vt s)"
  using assms
proof (induction "length R" arbitrary: R cur nl ms rule: less_induct)
  case less
  obtain s where e: "(s, cur) \<in> set R" using less.prems(2) by (auto simp: is_dst_def)
  have d: "dst cur = Some (if s = tv then start else s)" using less.prems(1) e by (auto simp: open_cycle_def)
  have ns: "s \<noteq> start" using less.prems(1) e by (force simp: open_cycle_def is_src_def)
  show ?case
  proof (cases "s = tv")
    case True
    then have "lift_cycle dst vt start cur nl ms = Some (Inr (cur, nl, ms @ []))" by (subst lift_cycle.simps) (simp add: d)
    then show ?thesis using less.prems e True by (intro exI [of _ cur] exI [of _ nl] exI [of _ "[]"] exI [of _ R]) auto
  next
    case False
    let ?R = "remove1 (s, cur) R" and ?m = "(vt cur, vt s)"
    have dist: "distinct (map snd R)" using less.prems(1) by (simp add: open_cycle_def)
    have r: "lift_cycle dst vt start cur nl ms = lift_cycle dst vt start s (list_remove cur nl) (ms @ [?m])"
      using False ns by (subst lift_cycle.simps) (simp add: d)
    note st = open_cycle_step [OF less.prems(1) e False less.prems(3)]
    have sub: "set ?R \<subseteq> set R" by (rule set_remove1_subset)
    have "length ?R < length R" by (rule length_remove1_less [OF e])
    from less.hyps [OF this st nodes_are_remove [OF less.prems(4) dist e], of "ms @ [?m]"] less.prems(5) sub obtain end' nl' ms' R' where
      h: "lift_cycle dst vt start s (list_remove cur nl) (ms @ [?m]) = Some (Inr (end', nl', (ms @ [?m]) @ ms'))" "(tv, end') \<in> set R'" "set R' \<subseteq> set ?R"
        "open_cycle dst start tv R'" "\<not> is_src R' end'" "nodes_are R' nl'" "\<forall>env :: int \<Rightarrow> 'v. copied R' (run_moves ms' env) = copied ?R env"
        "\<forall>(to, from) \<in> set ms'. \<exists>s d. (s, d) \<in> set ?R \<and> s \<noteq> tv \<and> to = vt d \<and> from = vt s"
      by (auto simp: split_beta) blast
    have vt: "vt_value (vt cur) = cur" "vt_value (vt s) = s" using less.prems(5) e False by auto
    have "copied R' (run_moves (?m # ms') env) = copied R env" for env :: "int \<Rightarrow> 'v"
      using h(7) copied_ready [OF dist e less.prems(3)] by (simp add: vt)
    moreover have "\<forall>(to, from) \<in> set (?m # ms'). \<exists>s d. (s, d) \<in> set R \<and> s \<noteq> tv \<and> to = vt d \<and> from = vt s"
      using h(8) sub e False by (fastforce simp: split_beta)
    ultimately show ?thesis using r h(1-6) sub
      by (intro exI [of _ end'] exI [of _ nl'] exI [of _ "?m # ms'"] exI [of _ R']) auto
  qed
qed

end
