(* ===== verification/Vmir_Ssa_Props.thy ===== *)
theory Vmir_Ssa_Props
  imports Vmir_Ssa_Copy
begin

text \<open>
  Leaving SSA form is correct: the moves put at the end of a block give every PHI of the successor the
  value it has for that block, all of them as one parallel assignment.
\<close>

section \<open>Temporaries\<close>

definition has_value :: "ir_unit \<Rightarrow> int \<Rightarrow> bool" where
  "has_value iu v \<longleftrightarrow> (\<exists>iv. value_at iu (word_of_int v) = Inr iv)"

lemma has_value_slot:
  "has_value iu v \<longleftrightarrow> unat (word_of_int v :: u32) < length (iu_values iu) \<and> iu_values iu ! unat (word_of_int v :: u32) \<noteq> None"
  by (simp add: has_value_def value_at_def value_get_def deref_def split: option.split)

text \<open>The values the table holds, and where the next temporary goes.\<close>

definition more_values :: "ir_unit \<Rightarrow> ir_unit \<Rightarrow> bool" where
  "more_values iu iu' \<longleftrightarrow> iu_next_value iu \<le> iu_next_value iu' \<and> iu_next_value iu' \<le> length (iu_values iu') \<and> (\<forall>v. has_value iu v \<longrightarrow> has_value iu' v) \<and>
     (\<forall>v. iu_next_value iu \<le> v \<and> v < iu_next_value iu' \<and> v < 2 ^ 32 \<longrightarrow> has_value iu' (int v))"

lemma more_values_trans: "more_values iu iu1 \<Longrightarrow> more_values iu1 iu2 \<Longrightarrow> more_values iu iu2"
  unfolding more_values_def by (meson le_trans not_le)

lemma alloc_temporary_ok:
  assumes "iu_next_value iu \<le> length (iu_values iu)"
  shows "\<exists>iu1. value_alloc_temporary iu ty = Inr ((iu_next_value iu, ty), iu1) \<and> iu_next_value iu1 = Suc (iu_next_value iu) \<and> more_values iu iu1"
proof -
  let ?i = "iu_next_value iu"
  obtain iu0 iv where a: "value_append iu = Inr (?i, iu0)" "iu_next_value iu0 = Suc ?i" "?i < length (iu_values iu0)" "iu_values iu0 ! ?i = Some iv"
    "length (iu_values iu) \<le> length (iu_values iu0)" "\<And>k x. k < length (iu_values iu) \<Longrightarrow> iu_values iu ! k = Some x \<Longrightarrow> iu_values iu0 ! k \<noteq> None"
  proof (cases "?i = length (iu_values iu)")
    case True
    then show ?thesis by (intro that [of "iu\<lparr>iu_values := iu_values iu @ [Some new_value], iu_next_value := ?i + 1\<rparr>" new_value])
      (auto simp: value_append_def Let_def nth_append)
  next
    case False
    then have i: "?i < length (iu_values iu)" using assms by simp
    let ?iu = "(if iu_values iu ! ?i = None then set_value iu ?i new_value else iu)\<lparr>iu_next_value := ?i + 1\<rparr>"
    have "value_append iu = Inr (?i, ?iu)" using False i by (simp add: value_append_def Let_def c_assert_def)
    then show ?thesis using i by (intro that [of ?iu "case iu_values iu ! ?i of None \<Rightarrow> new_value | Some x \<Rightarrow> x"])
      (auto simp: set_value_def nth_list_update split: option.split)
  qed
  let ?iu1 = "set_value iu0 ?i (iv\<lparr>iv_class := Vc_temporary, iv_precolored := - 1, iv_type := ty\<rparr>)"
  have f: "iu_next_value ?iu1 = Suc ?i" "length (iu_values ?iu1) = length (iu_values iu0)" by (simp_all add: set_value_def a(2))
  have "has_value ?iu1 v" if "has_value iu v" for v
  proof -
    have "unat (word_of_int v :: u32) < length (iu_values iu0)" "iu_values iu0 ! unat (word_of_int v :: u32) \<noteq> None"
      using that a(5,6) by (auto simp: has_value_slot)
    then show ?thesis by (cases "unat (word_of_int v :: u32) = ?i") (simp_all add: has_value_slot set_value_def)
  qed
  moreover have "has_value ?iu1 (int ?i)" if "?i < 2 ^ 32"
  proof -
    have "unat (word_of_int (int ?i) :: u32) = ?i" using that by (simp add: unsigned_of_nat take_bit_nat_eq_self)
    then show ?thesis using a(3) by (simp add: has_value_slot set_value_def)
  qed
  ultimately have "more_values iu ?iu1" using f a(3) by (auto simp: more_values_def less_Suc_eq)
  then show ?thesis using a f by (intro exI [of _ ?iu1]) (simp add: value_alloc_temporary_def deref_def)
qed

section \<open>Cycles one after the other\<close>

lemma cycles_only_open:
  assumes co: "cycles_only E" and st: "is_dst E start" and fresh: "\<not> is_src E tv"
    and dst: "\<forall>(s, d) \<in> set E. dst d = Some s"
  defines "R \<equiv> map (\<lambda>(s, d). (if s = start then tv else s, d)) E"
  shows "open_cycle dst start tv R" "is_dst R start" "\<not> is_src R start" "snd ` set R = snd ` set E"
proof -
  have d: "distinct (map fst E)" "distinct (map snd E)" "fst ` set E = snd ` set E" using co by (simp_all add: cycles_only_def)
  have st': "start \<in> fst ` set E" using st d(3) by (simp add: is_dst_def)
  then have ne: "tv \<noteq> start" using fresh by (auto simp: is_src_def)
  have m: "map snd R = map snd E" "map fst R = map (\<lambda>s. if s = start then tv else s) (map fst E)" by (auto simp: R_def comp_def split_beta)
  have "inj_on (\<lambda>s. if s = start then tv else s) (fst ` set E)" using fresh by (auto simp: inj_on_def is_src_def)
  then have dR: "distinct (map fst R)" "distinct (map snd R)" using d(1,2) unfolding m by (auto simp: distinct_map intro: comp_inj_on)
  show sn: "snd ` set R = snd ` set E" using m(1) by (metis set_map)
  have fR: "fst ` set R = (\<lambda>s. if s = start then tv else s) ` fst ` set E" using m(2) by (metis set_map)
  show dst': "is_dst R start" using st sn by (simp add: is_dst_def)
  show ns: "\<not> is_src R start" using ne fR by (auto simp: is_src_def)
  have "is_src R tv" using st' fR by (force simp: is_src_def)
  moreover have "\<forall>s. is_src R s \<longrightarrow> s \<noteq> tv \<longrightarrow> is_dst R s" using fR d(3) sn by (auto simp: is_src_def is_dst_def split: if_splits)
  moreover have "\<forall>(s, d) \<in> set R. dst d = Some (if s = tv then start else s)"
  proof
    fix x assume "x \<in> set R"
    then obtain s d where sd: "(s, d) \<in> set E" "x = (if s = start then tv else s, d)" by (auto simp: R_def)
    then have "s \<noteq> tv" "dst d = Some s" using fresh dst by (force simp: is_src_def)+
    then show "case x of (s, d) \<Rightarrow> dst d = Some (if s = tv then start else s)" using sd(2) ne by auto
  qed
  ultimately show "open_cycle dst start tv R" using dR ns by (simp add: open_cycle_def)
qed

text \<open>Closing the cycle leaves a permutation of fewer values.\<close>

lemma close_cycle:
  assumes oc: "open_cycle dst start tv R" and e: "(tv, last') \<in> set R" and nl: "\<not> is_src R last'" and nd: "\<not> is_dst R tv"
  shows "cycles_only (remove1 (tv, last') R)" "\<not> is_src (remove1 (tv, last') R) tv"
proof -
  let ?R = "remove1 (tv, last') R"
  have d: "distinct (map fst R)" "distinct (map snd R)" using oc by (simp_all add: open_cycle_def)
  have R: "set ?R = set R - {(tv, last')}" using d by (simp add: distinct_map)
  have dR: "distinct (map fst ?R)" "distinct (map snd ?R)" using d by (simp_all add: distinct_map_remove1)
  show nt: "\<not> is_src ?R tv" using edge_unique(2) [OF d(1) e] unfolding is_src_def R by force
  have "fst ` set ?R \<subseteq> snd ` set ?R"
  proof
    fix v assume v: "v \<in> fst ` set ?R"
    then have "is_src R v" "v \<noteq> tv" using R nt by (auto simp: is_src_def)
    then have "is_dst R v" "v \<noteq> last'" using oc nl unfolding open_cycle_def by blast+
    then show "v \<in> snd ` set ?R" unfolding is_dst_def R by force
  qed
  moreover have "card (fst ` set ?R) = card (snd ` set ?R)"
    using dR by (simp add: distinct_map card_image)
  ultimately have "fst ` set ?R = snd ` set ?R" by (intro card_subset_eq) auto
  then show "cycles_only ?R" using dR by (simp add: cycles_only_def)
qed

definition values_ok :: "ir_unit \<Rightarrow> (int \<times> int) list \<Rightarrow> bool" where
  "values_ok iu E \<longleftrightarrow> iu_next_value iu \<le> length (iu_values iu) \<and> (\<forall>(s, d) \<in> set E. s < int (iu_next_value iu) \<and> d < int (iu_next_value iu) \<and> has_value iu s \<and> has_value iu d)"

definition moves_valid :: "ir_unit \<Rightarrow> moves \<Rightarrow> bool" where
  "moves_valid iu ms \<longleftrightarrow> (\<forall>(to, from) \<in> set ms. has_value iu (vt_value to) \<and> has_value iu (vt_value from))"

lemma lift_cycles_ok:
  assumes "cycles_only E" "\<forall>(s, d) \<in> set E. dst d = Some s" "vt_ok vt E" "nodes_are E nl" "values_ok iu E" "iu_next_value iu + length E \<le> 2 ^ 32"
  shows "\<exists>iu' ms'. lift_cycles dst vt iu nl ms = Some (Inr (iu', ms @ ms')) \<and> more_values iu iu' \<and> iu_next_value iu' \<le> iu_next_value iu + length E \<and>
    moves_valid iu' ms' \<and> (\<forall>(env :: int \<Rightarrow> 'v) v. v < int (iu_next_value iu) \<longrightarrow> run_moves ms' env v = copied E env v)"
  using assms
proof (induction "length E" arbitrary: E iu nl ms rule: less_induct)
  case less
  let ?n = "iu_next_value iu"
  obtain xs where xs: "holds nl xs" "set xs = snd ` set E" using less.prems(4) by (auto simp: nodes_are_def)
  have nx: "?n \<le> length (iu_values iu)" using less.prems(5) by (simp add: values_ok_def)
  show ?case
  proof (cases xs)
    case Nil
    then have "lh_first nl = None" "E = []" using holds_first [OF xs(1)] xs(2) by simp_all
    moreover have "more_values iu iu" using nx by (auto simp: more_values_def)
    ultimately show ?thesis
      by (intro exI [of _ iu] exI [of _ "[]"], subst lift_cycles.simps) (simp add: moves_valid_def copied_def)
  next
    case (Cons start xs')
    have fst': "lh_first nl = Some start" using holds_first [OF xs(1)] Cons by simp
    have sd: "is_dst E start" using xs(2) Cons by (auto simp: is_dst_def)
    then obtain p where p: "(p, start) \<in> set E" by (auto simp: is_dst_def)
    let ?t = "int ?n" and ?tv = "\<lparr>vt_value = int ?n, vt_type = vt_type (vt start)\<rparr>"
    obtain iu1 where al: "value_alloc_temporary iu (vt_type (vt start)) = Inr ((?n, vt_type (vt start)), iu1)"
      "iu_next_value iu1 = Suc ?n" "more_values iu iu1" using alloc_temporary_ok [OF nx] by blast
    have fresh: "\<not> is_src E ?t" "\<not> is_dst E ?t" using less.prems(5) by (auto simp: is_src_def is_dst_def values_ok_def)
    define R where "R = map (\<lambda>(s, d). (if s = start then ?t else s, d)) E"
    note oc = cycles_only_open [OF less.prems(1) sd fresh(1) less.prems(2), folded R_def]
    have vtR: "\<forall>(s, d) \<in> set R. vt_value (vt d) = d \<and> (s \<noteq> ?t \<longrightarrow> vt_value (vt s) = s)"
      using less.prems(3) by (auto simp: R_def vt_ok_def)
    have nR: "nodes_are R nl" using less.prems(4) oc(4) by (simp add: nodes_are_def)
    from lift_cycle_ok [OF oc(1-3) nR vtR, of "ms @ [(?tv, vt start)]"] obtain last' nl1 ms1 R' where
      lc: "lift_cycle dst vt start start nl (ms @ [(?tv, vt start)]) = Some (Inr (last', nl1, (ms @ [(?tv, vt start)]) @ ms1))" "(?t, last') \<in> set R'" "set R' \<subseteq> set R"
        "open_cycle dst start ?t R'" "\<not> is_src R' last'" "nodes_are R' nl1" "\<forall>env :: int \<Rightarrow> 'v. copied R' (run_moves ms1 env) = copied R env"
        "\<forall>(to, from) \<in> set ms1. \<exists>s d. (s, d) \<in> set R \<and> s \<noteq> ?t \<and> to = vt d \<and> from = vt s" by blast
    let ?R = "remove1 (?t, last') R'"
    have dR': "distinct (map snd R')" "distinct R'" using lc(4) by (simp_all add: open_cycle_def distinct_map)
    have ndst: "\<not> is_dst R' ?t" using fresh(2) lc(3) oc(4) by (auto simp: is_dst_def)
    note cc = close_cycle [OF lc(4,2,5) ndst]
    have inE: "(s, d) \<in> set E" if "(s, d) \<in> set R" "s \<noteq> ?t" for s d using that by (auto simp: R_def split: if_splits)
    have subE: "set ?R \<subseteq> set E"
    proof
      fix x assume x: "x \<in> set ?R"
      then have "fst x \<in> fst ` set ?R" by (rule imageI)
      then have "fst x \<noteq> ?t" using cc(2) unfolding is_src_def by metis
      moreover have "x \<in> set R" using x lc(3) set_remove1_subset [of "(?t, last')" R'] by auto
      ultimately show "x \<in> set E" using inE by (cases x) auto
    qed
    have "card (set R') \<le> card (set R)" using lc(3) by (intro card_mono) auto
    then have "length R' \<le> length E" using dR'(2) card_length [of R] by (simp add: distinct_card R_def)
    then have len: "Suc (length ?R) \<le> length E" using length_remove1_less [OF lc(2)] by simp
    have vo: "values_ok iu1 ?R"
      using less.prems(5) subE al(2,3) by (force simp: values_ok_def more_values_def)
    have "vt_ok vt ?R" "\<forall>(s, d) \<in> set ?R. dst d = Some s" using less.prems(2,3) subE by (auto simp: vt_ok_def)
    from less.hyps [OF _ cc(1) this(2,1) nodes_are_remove [OF lc(6) dR'(1) lc(2)] vo, of "((ms @ [(?tv, vt start)]) @ ms1) @ [(vt last', ?tv)]"]
      len less.prems(6) al(2) obtain iu' ms2 where
      rec: "lift_cycles dst vt iu1 (list_remove last' nl1) (((ms @ [(?tv, vt start)]) @ ms1) @ [(vt last', ?tv)]) =
          Some (Inr (iu', (((ms @ [(?tv, vt start)]) @ ms1) @ [(vt last', ?tv)]) @ ms2))" "more_values iu1 iu'" "iu_next_value iu' \<le> Suc ?n + length ?R"
        "moves_valid iu' ms2" "\<forall>(env :: int \<Rightarrow> 'v) v. v < int (Suc ?n) \<longrightarrow> run_moves ms2 env v = copied ?R env v" by fastforce
    let ?ms = "(?tv, vt start) # ms1 @ (vt last', ?tv) # ms2"
    have run: "lift_cycles dst vt iu nl ms = Some (Inr (iu', ms @ ?ms))"
      using rec(1) by (subst lift_cycles.simps) (simp add: fst' al(1) lc(1))
    have mv: "more_values iu iu'" by (rule more_values_trans [OF al(3) rec(2)])
    have vts: "vt_value (vt start) = start" "vt_value (vt last') = last'" using less.prems(3) p vtR lc(2,3) by (auto simp: vt_ok_def)
    have hv: "has_value iu' s \<and> has_value iu' d" if "(s, d) \<in> set E" for s d
      using that less.prems(5) mv by (auto simp: values_ok_def more_values_def)
    have ht: "has_value iu' ?t" using mv al(2) rec(2) less.prems(6) len by (auto simp: more_values_def)
    have "\<exists>s. (s, last') \<in> set E" using lc(2,3) oc(4) by (force simp: image_iff set_eq_iff)
    then have hl: "has_value iu' last'" using hv by blast
    have h1: "moves_valid iu' ms1"
      unfolding moves_valid_def
    proof
      fix m assume "m \<in> set ms1"
      then obtain s d where m: "(s, d) \<in> set R" "s \<noteq> ?t" "m = (vt d, vt s)" using lc(8) by (cases m) auto
      then have "has_value iu' s \<and> has_value iu' d \<and> vt_value (vt s) = s \<and> vt_value (vt d) = d" using inE hv vtR by blast
      then show "case m of (to, from) \<Rightarrow> has_value iu' (vt_value to) \<and> has_value iu' (vt_value from)" using m(3) by simp
    qed
    have valid: "moves_valid iu' ?ms" using h1 hv [OF p] hl ht rec(4) vts by (simp add: moves_valid_def ball_Un)
    have sem: "run_moves ?ms env v = copied E env v" if v: "v < int ?n" for env :: "int \<Rightarrow> 'v" and v
    proof -
      let ?e1 = "env(?t := env start)"
      let ?e2 = "run_moves ms1 ?e1"
      have "run_moves ?ms env v = copied ?R (?e2(last' := ?e2 ?t)) v" using rec(5) v vts by simp
      also have "\<dots> = copied R' ?e2 v" by (simp add: copied_ready [OF dR'(1) lc(2,5)])
      also have "\<dots> = copied R ?e1 v" using lc(7) by simp
      also have "\<dots> = copied E env v"
      proof (cases "is_dst E v")
        case True
        then obtain s where s: "(s, v) \<in> set E" by (auto simp: is_dst_def)
        have "(if s = start then ?t else s, v) \<in> set R" using s by (force simp: R_def)
        moreover have "distinct (map snd R)" "distinct (map snd E)" using oc(1) less.prems(1) by (simp_all add: open_cycle_def cycles_only_def)
        moreover have "s \<noteq> ?t" using s fresh(1) by (force simp: is_src_def)
        ultimately show ?thesis using s by (auto simp: copied_in split: if_splits)
      next
        case False
        then have "v \<notin> snd ` set E" "v \<notin> snd ` set R" using oc(4) by (simp_all add: is_dst_def)
        then show ?thesis using v by (simp add: copied_out)
      qed
      finally show ?thesis .
    qed
    show ?thesis
      using run mv rec(3) len valid sem by (intro exI [of _ iu'] exI [of _ ?ms]) auto
  qed
qed

section \<open>All copies of an edge\<close>

lemma more_values_refl: "iu_next_value iu \<le> length (iu_values iu) \<Longrightarrow> more_values iu iu"
  by (auto simp: more_values_def)

lemma acyclic_no_permutation:
  assumes "acyclic (set E)" "cycles_only E'" "set E' \<subseteq> set E"
  shows "E' = []"
proof (rule ccontr)
  assume ne: "E' \<noteq> []"
  have "wf (set E)" using assms(1) by (simp add: finite_acyclic_wf)
  then have "wf (set E')" using assms(3) by (rule wf_subset)
  moreover obtain x where "x \<in> fst ` set E'" using ne by (cases E') auto
  ultimately obtain z where z: "z \<in> fst ` set E'" "\<And>y. (y, z) \<in> set E' \<Longrightarrow> y \<notin> fst ` set E'" by (rule wfE_min) blast
  then obtain y where "(y, z) \<in> set E'" using assms(2) by (auto simp: cycles_only_def)
  then show False using z(2) by force
qed

lemma phi_moves_ok:
  assumes E: "distinct (map snd E)" and nodes: "distinct (map vt_value nodes)" "vt_value ` set nodes = fst ` set E \<union> snd ` set E"
    and vo: "values_ok iu E" "iu_next_value iu + length E \<le> 2 ^ 32" and cond: "no_chains E \<or> acyclic (set E)"
  shows "\<exists>iu' ms. phi_moves iu nodes E = Some (Inr (iu', ms)) \<and> more_values iu iu' \<and> moves_valid iu' ms \<and>
    (\<forall>(env :: int \<Rightarrow> 'v) v. v < int (iu_next_value iu) \<longrightarrow> run_moves ms env v = copied E env v)"
proof (cases "E = []")
  case True
  then show ?thesis using vo(1) more_values_refl by (auto simp: phi_moves_def moves_valid_def copied_def values_ok_def)
next
  case False
  let ?vt = "node_vt nodes" and ?nl = "foldr list_insert_head (map vt_value nodes) list_init"
  have vt: "vt_value (?vt v) = v" if "v \<in> vt_value ` set nodes" for v
    using that find_Some_iff [of "\<lambda>vt. vt_value vt = v" nodes] find_None_iff [of "\<lambda>vt. vt_value vt = v" nodes]
    by (auto simp: node_vt_def phi_lift_node_find_def split: option.split) 
  have vt_ok: "vt_ok ?vt E" unfolding vt_ok_def using vt nodes(2) by force
  have "nodes_left E ?nl" using holds_foldr [OF nodes(1)] nodes(2) unfolding nodes_left_def by (intro exI [of _ "map vt_value nodes"]) simp
  moreover have "cycles_left E E" by (auto simp: cycles_left_def dest: tranclD)
  ultimately have inv: "leaves_inv E (E, ?nl)" by (simp add: leaves_inv_def)
  from lift_leaves_ok [OF E vt_ok inv subset_refl, of "[]"] obtain E' nl' ms1 where
    l: "lift_leaves ?vt E ?nl [] = Some (E', nl', ms1)" "cycles_only E'" "set E' \<subseteq> set E" "leaves_inv E (E', nl')"
      "\<forall>env :: int \<Rightarrow> 'v. copied E' (run_moves ms1 env) = copied E env" "set ms1 \<subseteq> (\<lambda>(s, d). (?vt d, ?vt s)) ` set E" by auto
  have hv: "has_value iu' s \<and> has_value iu' d" if "(s, d) \<in> set E" "more_values iu iu'" for s d iu'
    using that vo(1) by (auto simp: values_ok_def more_values_def)
  have mv1: "moves_valid iu' ms1" if "more_values iu iu'" for iu'
    unfolding moves_valid_def
  proof
    fix m assume "m \<in> set ms1"
    then obtain s d where "(s, d) \<in> set E" "m = (?vt d, ?vt s)" using l(6) by auto
    then show "case m of (to, from) \<Rightarrow> has_value iu' (vt_value to) \<and> has_value iu' (vt_value from)"
      using hv [OF _ that] vt_ok by (auto simp: vt_ok_def)
  qed
  have nx: "iu_next_value iu \<le> length (iu_values iu)" using vo(1) by (simp add: values_ok_def)
  show ?thesis
  proof (cases "E' = []")
    case True
    then have "phi_moves iu nodes E = Some (Inr (iu, ms1))" using False l(1) by (simp add: phi_moves_def)
    then show ?thesis using l(5) True mv1 more_values_refl [OF nx] by auto
  next
    case nonempty: False
    have nc: "no_chains E" using cond acyclic_no_permutation [OF _ l(2,3)] nonempty by blast
    let ?dst = "map_of (map prod.swap E)"
    have dst: "\<forall>(s, d) \<in> set E'. ?dst d = Some s"
    proof
      fix x assume x: "x \<in> set E'"
      obtain s d where sd: "x = (s, d)" by (cases x)
      have "?dst d = Some s" using E x l(3) sd by (intro map_of_is_SomeI) (auto simp: comp_def intro!: rev_image_eqI)
      then show "case x of (s, d) \<Rightarrow> ?dst d = Some s" by (simp add: sd)
    qed
    have na: "nodes_are E' nl'" using l(2,4) nc by (auto simp: leaves_inv_def nodes_left_def nodes_are_def cycles_only_def)
    have vo': "values_ok iu E'" "vt_ok ?vt E'" using vo(1) vt_ok l(3) by (auto simp: values_ok_def vt_ok_def)
    have "distinct E'" "distinct E" using l(2) E by (simp_all add: cycles_only_def distinct_map)
    then have "length E' \<le> length E" using l(3) by (metis card_mono distinct_card List.finite_set)
    then have small: "iu_next_value iu + length E' \<le> 2 ^ 32" using vo(2) by simp
    from lift_cycles_ok [OF l(2) dst vo'(2) na vo'(1) small, of ms1] obtain iu' ms2 where
      c: "lift_cycles ?dst ?vt iu nl' ms1 = Some (Inr (iu', ms1 @ ms2))" "more_values iu iu'" "moves_valid iu' ms2"
        "\<forall>(env :: int \<Rightarrow> 'v) v. v < int (iu_next_value iu) \<longrightarrow> run_moves ms2 env v = copied E' env v" by blast
    have "phi_moves iu nodes E = Some (Inr (iu', ms1 @ ms2))" using False nonempty l(1) c(1) by (simp add: phi_moves_def)
    moreover have "moves_valid iu' (ms1 @ ms2)" using mv1 [OF c(2)] c(3) by (simp add: moves_valid_def ball_Un)
    moreover have "run_moves (ms1 @ ms2) env v = copied E env v" if "v < int (iu_next_value iu)" for env :: "int \<Rightarrow> 'v" and v
      using c(4) l(5) that by simp
    ultimately show ?thesis using c(2) by blast
  qed
qed

end
