(* ===== verification/Vmir_Ssa_Edge.thy ===== *)
theory Vmir_Ssa_Edge
  imports Vmir_Ssa_Props Vmir_Live_Props
begin

text \<open>What \<open>exit_ssa_edge\<close> does to the blocks of a function.\<close>

section \<open>Entries of the PHI instructions\<close>

text \<open>The values the PHI instructions of a block take from a predecessor, each with where it goes.\<close>

definition phi_entries :: "int \<Rightarrow> flow_bb \<Rightarrow> (ir_valuetype \<times> ir_valuetype) list" where
  "phi_entries predecessor bb = concat (map (\<lambda>nd. case fn_instr nd of
     IR_IC_PHI p \<Rightarrow> map (\<lambda>(_, v). (ii_ret (iph_super p), v)) (filter (\<lambda>(q, _). q = predecessor) (iph_nodes p)) | _ \<Rightarrow> []) (phi_prefix_nodes bb))"

definition entry_copies :: "(ir_valuetype \<times> ir_valuetype) list \<Rightarrow> (int \<times> int) list" where
  "entry_copies es = map (\<lambda>(r, v). (vt_value v, vt_value r)) (filter (\<lambda>(r, v). vt_value r \<noteq> vt_value v) es)"

lemma entry_copies_simps [simp]:
  "entry_copies [] = []" "entry_copies (xs @ ys) = entry_copies xs @ entry_copies ys"
  "entry_copies ((r, v) # es) = (if vt_value r = vt_value v then [] else [(vt_value v, vt_value r)]) @ entry_copies es"
  by (simp_all add: entry_copies_def)

definition lift_entry :: "ir_valuetype list \<times> (int \<times> int) list \<Rightarrow> ir_valuetype \<times> ir_valuetype \<Rightarrow> (ir_valuetype list \<times> (int \<times> int) list) result" where
  "lift_entry st = (\<lambda>(r, v). lift_phi_node 0 r st (0, v))"

lemma phi_copies_entries: "phi_copies predecessor bb = res_fold lift_entry ([], []) (phi_entries predecessor bb)"
proof -
  have one: "res_fold (lift_phi_node predecessor r) st ns = res_fold lift_entry st (map (\<lambda>(_, v). (r, v)) (filter (\<lambda>(q, _). q = predecessor) ns))" for r st ns
  proof (induction ns arbitrary: st)
    case (Cons n ns)
    obtain q v where n: "n = (q, v)" by (cases n)
    have "lift_phi_node predecessor r st (q, v) = (if q = predecessor then lift_entry st (r, v) else Inr st)"
      by (cases st) (simp add: lift_phi_node_def lift_entry_def)
    then show ?case using Cons.IH by (simp add: n)
  qed simp
  have "res_fold (lift_phi predecessor) st nds = res_fold lift_entry st (concat (map (\<lambda>nd. case fn_instr nd of
      IR_IC_PHI p \<Rightarrow> map (\<lambda>(_, v). (ii_ret (iph_super p), v)) (filter (\<lambda>(q, _). q = predecessor) (iph_nodes p)) | _ \<Rightarrow> []) nds))" for st nds
  proof (induction nds arbitrary: st)
    case (Cons nd nds)
    then show ?case by (cases "fn_instr nd") (simp_all add: lift_phi_def res_fold_append one)
  qed simp
  then show ?thesis by (simp add: phi_copies_def phi_entries_def)
qed

definition nodes_of_copies :: "ir_valuetype list \<Rightarrow> (int \<times> int) list \<Rightarrow> bool" where
  "nodes_of_copies nodes E \<longleftrightarrow> distinct (map vt_value nodes) \<and> vt_value ` set nodes = fst ` set E \<union> snd ` set E"

lemma phi_lift_node_values:
  assumes "distinct (map vt_value nodes)"
  shows "distinct (map vt_value (phi_lift_node vt nodes))" "vt_value ` set (phi_lift_node vt nodes) = insert (vt_value vt) (vt_value ` set nodes)"
proof -
  have "phi_lift_node vt nodes = (if vt_value vt \<in> vt_value ` set nodes then nodes else vt # nodes)"
  proof (cases "List.find (\<lambda>x. vt_value x = vt_value vt) nodes")
    case None
    then have "vt_value vt \<notin> vt_value ` set nodes" by (auto simp: find_None_iff)
    then show ?thesis using None by (simp add: phi_lift_node_def phi_lift_node_find_def)
  next
    case (Some x)
    then have "\<exists>i < length nodes. vt_value (nodes ! i) = vt_value vt" by (auto simp: find_Some_iff)
    then have "vt_value vt \<in> vt_value ` set nodes" by (metis imageI nth_mem)
    then show ?thesis using Some by (simp add: phi_lift_node_def phi_lift_node_find_def)
  qed
  then show "distinct (map vt_value (phi_lift_node vt nodes))" "vt_value ` set (phi_lift_node vt nodes) = insert (vt_value vt) (vt_value ` set nodes)"
    using assms by auto
qed

lemma lift_entries:
  assumes "distinct (map (vt_value \<circ> fst) es)" "\<forall>(r, v) \<in> set es. vt_value r \<notin> snd ` set E" "nodes_of_copies nodes E"
  shows "\<exists>nodes'. res_fold lift_entry (nodes, E) es = Inr (nodes', rev (entry_copies es) @ E) \<and> nodes_of_copies nodes' (rev (entry_copies es) @ E)"
  using assms
proof (induction es arbitrary: nodes E)
  case (Cons e es)
  obtain r v where e: "e = (r, v)" by (cases e)
  show ?case
  proof (cases "vt_value r = vt_value v")
    case True
    then have "lift_entry (nodes, E) e = Inr (nodes, E)" by (simp add: lift_entry_def lift_phi_node_def e)
    then show ?thesis using Cons.IH [of E nodes] Cons.prems True by (auto simp: e)
  next
    case False
    let ?nodes = "phi_lift_node v (phi_lift_node r nodes)" and ?E = "(vt_value v, vt_value r) # E"
    have "\<not> (\<exists>x \<in> set E. snd x = vt_value r)" using Cons.prems(2) e by force
    then have s: "lift_entry (nodes, E) e = Inr (?nodes, ?E)" using False by (simp add: lift_entry_def lift_phi_node_def e Let_def)
    have "nodes_of_copies ?nodes ?E"
      using Cons.prems(3) phi_lift_node_values [of nodes r] phi_lift_node_values [of "phi_lift_node r nodes" v] by (auto simp: nodes_of_copies_def)
    moreover have "\<forall>(r', v') \<in> set es. vt_value r' \<notin> snd ` set ?E" using Cons.prems(1,2) e by force
    ultimately show ?thesis using Cons.IH [of ?E ?nodes] Cons.prems(1) s False by (auto simp: e)
  qed
qed simp

lemma entry_copies_rets:
  assumes "distinct (map (vt_value \<circ> fst) es)"
  shows "distinct (map snd (entry_copies es))" "snd ` set (entry_copies es) \<subseteq> vt_value ` fst ` set es" "length (entry_copies es) \<le> length es"
proof -
  show sub: "snd ` set (entry_copies es) \<subseteq> vt_value ` fst ` set es" by (force simp: entry_copies_def)
  show "length (entry_copies es) \<le> length es" by (simp add: entry_copies_def)
  have "snd \<circ> (\<lambda>(r, v). (vt_value v, vt_value r)) = vt_value \<circ> fst" by auto
  then have "map snd (entry_copies es) = map (vt_value \<circ> fst) (filter (\<lambda>(r, v). vt_value r \<noteq> vt_value v) es)" by (simp add: entry_copies_def)
  then show "distinct (map snd (entry_copies es))" using assms by (simp add: distinct_map_filter)
qed

lemma copied_entry:
  assumes d: "distinct (map (vt_value \<circ> fst) es)" and e: "(r, v) \<in> set es"
  shows "copied (rev (entry_copies es)) env (vt_value r) = env (vt_value v)"
proof (cases "vt_value r = vt_value v")
  case True
  have "vt_value r \<notin> snd ` set (entry_copies es)"
  proof
    assume "vt_value r \<in> snd ` set (entry_copies es)"
    then obtain r' v' where "(r', v') \<in> set es" "vt_value r' = vt_value r" "vt_value r' \<noteq> vt_value v'" by (auto simp: entry_copies_def)
    then show False using d e True by (force simp: distinct_map inj_on_def)
  qed
  then show ?thesis using True copied_out [of "vt_value r" "rev (entry_copies es)"] by simp
next
  case False
  then have "(vt_value v, vt_value r) \<in> set (rev (entry_copies es))" using e by (force simp: entry_copies_def)
  moreover have "distinct (map snd (rev (entry_copies es)))" using entry_copies_rets(1) [OF d] by (simp add: rev_map [symmetric])
  ultimately show ?thesis by (rule copied_in [rotated])
qed

section \<open>Inserting moves\<close>

definition move_instr :: "ir_valuetype \<times> ir_valuetype \<Rightarrow> ir_instr" where
  "move_instr = (\<lambda>(to, from). IR_IC_MOVE \<lparr>imo_super = \<lparr>ii_ret = to, ii_rets = []\<rparr>, imo_value = from\<rparr>)"

definition put_before :: "nat \<Rightarrow> flow_node list \<Rightarrow> flow_node list \<Rightarrow> flow_node list" where
  "put_before i news nds = concat (map (\<lambda>nd. if fn_id nd = i then news @ [nd] else [nd]) nds)"

lemma put_before_last:
  assumes "i \<notin> fn_id ` set pre" "fn_id nd = i"
  shows "put_before i news (pre @ [nd]) = pre @ news @ [nd]"
proof -
  have "concat (map (\<lambda>nd. if fn_id nd = i then news @ [nd] else [nd]) pre) = pre" using assms(1) by (induction pre) auto
  then show ?thesis using assms(2) by (simp add: put_before_def)
qed

lemma put_before_Nil [simp]: "put_before i [] nds = nds"
  by (induction nds) (auto simp: put_before_def)


lemma insert_move_ok:
  assumes "moves_valid (fl_iu fl) [m]"
  shows "\<exists>new fl'. insert_move i fl m = Inr fl' \<and> fn_instr new = move_instr m \<and> fn_id new = fl_fresh fl \<and> fl_fresh fl' = fl_fresh fl + 1 \<and>
    fl_iu fl' = fl_iu fl \<and> fl_bbs fl' = map (\<lambda>bb. bb\<lparr>fb_nodes := put_before i [new] (fb_nodes bb)\<rparr>) (fl_bbs fl)"
proof -
  obtain to from' where m: "m = (to, from')" by (cases m)
  obtain a b where v: "value_at (fl_iu fl) (word_of_int (vt_value to)) = Inr a" "value_at (fl_iu fl) (word_of_int (vt_value from')) = Inr b"
    using assms by (auto simp: moves_valid_def has_value_def m)
  let ?new = "instr_create (fl_fresh fl) (move_instr m)"
  show ?thesis
    by (intro exI [of _ ?new])
      (auto simp: insert_move_def m instr_add_before_def update_nodes_def value_bind_return_value_def value_bind_instr_def instr_bind_input_def v
        instr_create_def move_instr_def put_before_def cong: if_cong)
qed

lemma insert_moves_ok:
  assumes "moves_valid (fl_iu fl) ms" "i < fl_fresh fl"
  shows "\<exists>news fl'. res_fold (insert_move i) fl ms = Inr fl' \<and> map fn_instr news = map move_instr ms \<and> (\<forall>nd \<in> set news. fl_fresh fl \<le> fn_id nd) \<and>
    fl_iu fl' = fl_iu fl \<and> fl_bbs fl' = map (\<lambda>bb. bb\<lparr>fb_nodes := put_before i news (fb_nodes bb)\<rparr>) (fl_bbs fl)"
  using assms
proof (induction ms arbitrary: fl)
  case Nil
  then show ?case by simp
next
  case (Cons m ms)
  obtain new fl1 where s: "insert_move i fl m = Inr fl1" "fn_instr new = move_instr m" "fn_id new = fl_fresh fl" "fl_fresh fl1 = fl_fresh fl + 1"
    "fl_iu fl1 = fl_iu fl" "fl_bbs fl1 = map (\<lambda>bb. bb\<lparr>fb_nodes := put_before i [new] (fb_nodes bb)\<rparr>) (fl_bbs fl)"
    using insert_move_ok [of fl m i] Cons.prems(1) by (auto simp: moves_valid_def)
  have "moves_valid (fl_iu fl1) ms" "i < fl_fresh fl1" using Cons.prems s(4,5) by (simp_all add: moves_valid_def)
  from Cons.IH [OF this] obtain news fl' where
    r: "res_fold (insert_move i) fl1 ms = Inr fl'" "map fn_instr news = map move_instr ms" "\<forall>nd \<in> set news. fl_fresh fl1 \<le> fn_id nd"
      "fl_iu fl' = fl_iu fl1" "fl_bbs fl' = map (\<lambda>bb. bb\<lparr>fb_nodes := put_before i news (fb_nodes bb)\<rparr>) (fl_bbs fl1)" by blast
  have "put_before i news (put_before i [new] nds) = put_before i (new # news) nds" for nds
    using s(3) Cons.prems(2) by (induction nds) (auto simp: put_before_def)
  then have "fl_bbs fl' = map (\<lambda>bb. bb\<lparr>fb_nodes := put_before i (new # news) (fb_nodes bb)\<rparr>) (fl_bbs fl)" using r(5) s(6) by simp
  then show ?case using s r by (intro exI [of _ "new # news"] exI [of _ fl']) auto
qed

section \<open>One edge\<close>

lemma find_bbD: "find_bb fl b = Inr bb \<Longrightarrow> bb \<in> set (fl_bbs fl) \<and> fb_id bb = b"
  by (auto simp: find_bb_def deref_def find_Some_iff split: option.splits)

lemma map_id_bbs: "map (\<lambda>bb. bb\<lparr>fb_nodes := put_before i [] (fb_nodes bb)\<rparr>) bbs = bbs"
  by (simp add: map_idI)

lemma exit_ssa_edge_ok:
  fixes fl b bb pb pre before ibe
  defines "es \<equiv> phi_entries (fe_from ibe) bb" and "iu \<equiv> fl_iu fl"
  assumes bbs: "find_bb fl b = Inr bb" "find_bb fl (fe_from ibe) = Inr pb" "fb_nodes pb = pre @ [before]" "fn_id before < fl_fresh fl"
    and rets: "distinct (map (vt_value \<circ> fst) es)"
    and vals: "iu_next_value iu \<le> length (iu_values iu)" "iu_next_value iu + length es \<le> 2 ^ 32"
      "\<forall>(r, v) \<in> set es. vt_value r < int (iu_next_value iu) \<and> vt_value v < int (iu_next_value iu) \<and> has_value iu (vt_value r) \<and> has_value iu (vt_value v)"
    and cond: "no_chains (entry_copies es) \<or> acyclic (set (entry_copies es))"
  shows "\<exists>ms news fl'. exit_ssa_edge b fl ibe = Some (Inr fl') \<and> map fn_instr news = map move_instr ms \<and>
    fl_bbs fl' = map (\<lambda>bb. bb\<lparr>fb_nodes := put_before (fn_id before) news (fb_nodes bb)\<rparr>) (fl_bbs fl) \<and>
    (\<forall>env :: int \<Rightarrow> 'v. (\<forall>(r, v) \<in> set es. run_moves ms env (vt_value r) = env (vt_value v)) \<and>
       (\<forall>u < int (iu_next_value iu). u \<notin> vt_value ` fst ` set es \<longrightarrow> run_moves ms env u = env u))"
proof -
  let ?E = "rev (entry_copies es)"
  have "nodes_of_copies [] []" by (simp add: nodes_of_copies_def)
  with lift_entries [OF rets, of "[]" "[]"] obtain nodes where
    n: "phi_copies (fe_from ibe) bb = Inr (nodes, ?E)" "nodes_of_copies nodes ?E" by (auto simp: phi_copies_entries es_def)
  have dE: "distinct (map snd ?E)" using entry_copies_rets(1) [OF rets] by (simp add: rev_map [symmetric])
  have vo: "values_ok iu ?E" using vals(1,3) by (auto simp: values_ok_def entry_copies_def)
  have len: "iu_next_value iu + length ?E \<le> 2 ^ 32" using vals(2) entry_copies_rets(3) [OF rets] by simp
  have cond': "no_chains ?E \<or> acyclic (set ?E)" using cond by (simp add: no_chains_def is_src_def is_dst_def)
  have nd: "distinct (map vt_value nodes)" "vt_value ` set nodes = fst ` set ?E \<union> snd ` set ?E" using n(2) by (simp_all add: nodes_of_copies_def)
  from phi_moves_ok [OF dE nd vo len cond'] obtain iu' ms where
    p: "phi_moves iu nodes ?E = Some (Inr (iu', ms))" "moves_valid iu' ms"
      "\<forall>(env :: int \<Rightarrow> 'v) v. v < int (iu_next_value iu) \<longrightarrow> run_moves ms env v = copied ?E env v" by blast
  have sem: "run_moves ms env (vt_value r) = env (vt_value v)" if "(r, v) \<in> set es" for env :: "int \<Rightarrow> 'v" and r v
    using p(3) vals(3) that copied_entry [OF rets that, of env] by auto
  have frame: "run_moves ms env u = env u" if "u < int (iu_next_value iu)" "u \<notin> vt_value ` fst ` set es" for env :: "int \<Rightarrow> 'v" and u
  proof -
    have "u \<notin> snd ` set ?E" using entry_copies_rets(2) [OF rets] that(2) by auto
    then show ?thesis using p(3) that(1) by (simp add: copied_out)
  qed
  have "\<exists>news fl'. exit_ssa_edge b fl ibe = Some (Inr fl') \<and> map fn_instr news = map move_instr ms \<and>
    fl_bbs fl' = map (\<lambda>bb. bb\<lparr>fb_nodes := put_before (fn_id before) news (fb_nodes bb)\<rparr>) (fl_bbs fl)"
  proof (cases "?E = []")
    case True
    then have "ms = []" using p(1) by (simp add: phi_moves_def)
    then show ?thesis using True n(1) bbs(1) map_id_bbs by (intro exI [of _ "[]"] exI [of _ fl]) (simp add: exit_ssa_edge_def)
  next
    case False
    let ?fl = "fl\<lparr>fl_iu := iu'\<rparr>"
    from insert_moves_ok [of ?fl ms "fn_id before"] p(2) bbs(4) obtain news fl' where
      i: "res_fold (insert_move (fn_id before)) ?fl ms = Inr fl'" "map fn_instr news = map move_instr ms"
        "fl_bbs fl' = map (\<lambda>bb. bb\<lparr>fb_nodes := put_before (fn_id before) news (fb_nodes bb)\<rparr>) (fl_bbs fl)" by auto
    have "exit_ssa_edge b fl ibe = Some (Inr fl')"
      using False n(1) bbs(1-3) p(1) i(1) by (simp add: exit_ssa_edge_def last_instr_def iu_def)
    then show ?thesis using i(2,3) by blast
  qed
  then show ?thesis using sem frame by blast
qed

section \<open>Parallel assignment\<close>

text \<open>
  C8. Leaving SSA form keeps the meaning of PHI instructions. For an edge, if the copies its PHI
  instructions stand for form no cycle, or if every value that is both copied and assigned lies on a
  cycle, \<open>exit_ssa_edge\<close> ends, and adds nothing but moves, in front of the last instruction of the block the edge
  leaves. Run in order, they give every PHI at once the value it takes from that block, and leave every
  other value of the function as it was.
\<close>

theorem exit_ssa_edge_parallel:
  assumes "find_bb fl b = Inr bb" "find_bb fl (fe_from ibe) = Inr pb" "fb_nodes pb = pre @ [before]" "fn_id before < fl_fresh fl"
    "es = phi_entries (fe_from ibe) bb" "iu = fl_iu fl" "distinct (map (vt_value \<circ> fst) es)"
    "iu_next_value iu \<le> length (iu_values iu)" "iu_next_value iu + length es \<le> 2 ^ 32"
    "\<forall>(r, v) \<in> set es. vt_value r < int (iu_next_value iu) \<and> vt_value v < int (iu_next_value iu) \<and> has_value iu (vt_value r) \<and> has_value iu (vt_value v)"
    "no_chains (entry_copies es) \<or> acyclic (set (entry_copies es))"
  shows "\<exists>ms news fl'. exit_ssa_edge b fl ibe = Some (Inr fl') \<and> map fn_instr news = map move_instr ms \<and>
    fl_bbs fl' = map (\<lambda>bb. bb\<lparr>fb_nodes := put_before (fn_id before) news (fb_nodes bb)\<rparr>) (fl_bbs fl) \<and>
    (\<forall>env :: int \<Rightarrow> 'v. (\<forall>(r, v) \<in> set es. run_moves ms env (vt_value r) = env (vt_value v)) \<and>
       (\<forall>u < int (iu_next_value iu). u \<notin> vt_value ` fst ` set es \<longrightarrow> run_moves ms env u = env u))"
  using exit_ssa_edge_ok [OF assms(1-4), folded assms(5,6)] assms(7-11) by blast

text \<open>
  The header of a loop that exchanges two values, with a third one that keeps the old value of the first.
\<close>

definition ssa_unit :: ir_unit where
  "ssa_unit = sample_unit\<lparr>iu_values := Some (new_value\<lparr>iv_class := Vc_constant 5\<rparr>) # replicate 7 (Some (new_value\<lparr>iv_class := Vc_temporary, iv_precolored := - 1\<rparr>)),
     iu_first_func_value := 1, iu_next_value := 8\<rparr>"

definition ssa_flow :: "(int \<times> int) list \<Rightarrow> flow" where
  "ssa_flow phis =
     (let node = (\<lambda>(i, ii). \<lparr>fn_id = i, fn_instr = ii, fn_out = [], fn_gen = [], fn_in = [], fn_num_succ = 0, fn_succ = []\<rparr>);
          vt = (\<lambda>v. \<lparr>vt_value = v, vt_type = 0\<rparr>);
          phi = (\<lambda>(r, v). IR_IC_PHI \<lparr>iph_super = \<lparr>ii_ret = vt r, ii_rets = []\<rparr>, iph_nodes = [(10, vt 0), (30, vt v)]\<rparr>);
          br = (\<lambda>b. IR_IC_BR \<lparr>ibr_condition = vt (- 1), ibr_true = b, ibr_false = 0\<rparr>)
      in \<lparr>fl_iu = ssa_unit,
          fl_bbs = [\<lparr>fb_id = 10, fb_nodes = [node (1, br 20)]\<rparr>,
                    \<lparr>fb_id = 20, fb_nodes = map node (zip [10..<10 + length phis] (map phi phis) @ [(2, br 30)])\<rparr>,
                    \<lparr>fb_id = 30, fb_nodes = [node (3, br 20)]\<rparr>],
          fl_edges = [\<lparr>fe_id = 1, fe_from = 10, fe_to = 20\<rparr>, \<lparr>fe_id = 2, fe_from = 20, fe_to = 30\<rparr>, \<lparr>fe_id = 3, fe_from = 30, fe_to = 20\<rparr>],
          fl_incoming = (\<lambda>b. if b = 20 then [3, 1] else if b = 30 then [2] else []),
          fl_binds = [], fl_fresh = 40, fl_num_bbs = 31, fl_regframe_size = 0\<rparr>)"

theorem exit_ssa_edge_parallel_witness:
  "\<exists>ms fl'. exit_ssa_edge 20 (ssa_flow [(1, 2), (2, 1), (3, 1)]) \<lparr>fe_id = 3, fe_from = 30, fe_to = 20\<rparr> = Some (Inr fl') \<and>
     (\<forall>env :: int \<Rightarrow> nat. run_moves ms env 1 = env 2 \<and> run_moves ms env 2 = env 1 \<and> run_moves ms env 3 = env 1 \<and> run_moves ms env 4 = env 4)"
proof -
  let ?fl = "ssa_flow [(1, 2), (2, 1), (3, 1)]" and ?vt = "\<lambda>v. \<lparr>vt_value = v, vt_type = 0\<rparr>"
  let ?br = "\<lambda>b. IR_IC_BR \<lparr>ibr_condition = \<lparr>vt_value = - 1, vt_type = 0\<rparr>, ibr_true = b, ibr_false = 0\<rparr>"
  let ?es = "[(?vt 1, ?vt 2), (?vt 2, ?vt 1), (?vt 3, ?vt 1)]"
  let ?before = "\<lparr>fn_id = 3, fn_instr = ?br 20, fn_out = [], fn_gen = [], fn_in = [], fn_num_succ = 0, fn_succ = []\<rparr>"
  obtain bb pb where bb: "find_bb ?fl 20 = Inr bb" "phi_entries 30 bb = ?es" and pb: "find_bb ?fl 30 = Inr pb" "fb_nodes pb = [] @ [?before]"
    by (auto simp: find_bb_def ssa_flow_def deref_def Let_def phi_entries_def phi_prefix_nodes_def upt_rec)
  have iu: "fl_iu ?fl = ssa_unit" "fl_fresh ?fl = 40" by (simp_all add: ssa_flow_def Let_def)
  have hv: "has_value ssa_unit 1" "has_value ssa_unit 2" "has_value ssa_unit 3" by (simp_all add: has_value_slot ssa_unit_def)
  have nv: "iu_next_value ssa_unit = 8" "length (iu_values ssa_unit) = 8" by (simp_all add: ssa_unit_def)
  have r: "(1, 2) \<in> (set (entry_copies ?es))" "(2, 1) \<in> set (entry_copies ?es)" by simp_all
  have "(1, 1) \<in> (set (entry_copies ?es))\<^sup>+" "(2, 2) \<in> (set (entry_copies ?es))\<^sup>+" using r by (meson trancl.intros)+
  then have nc: "no_chains (entry_copies ?es)" by (auto simp: no_chains_def is_src_def is_dst_def)
  from exit_ssa_edge_parallel [OF bb(1) _ pb(2), of "\<lparr>fe_id = 3, fe_from = 30, fe_to = 20\<rparr>" ?es ssa_unit, where 'v = nat] obtain ms fl' where
    "exit_ssa_edge 20 ?fl \<lparr>fe_id = 3, fe_from = 30, fe_to = 20\<rparr> = Some (Inr fl')"
    "\<forall>env :: int \<Rightarrow> nat. (\<forall>(r, v) \<in> set ?es. run_moves ms env (vt_value r) = env (vt_value v)) \<and>
       (\<forall>u < 8. u \<notin> vt_value ` fst ` set ?es \<longrightarrow> run_moves ms env u = env u)"
    using pb(1) bb(2) iu hv nv nc by auto
  then show ?thesis by (intro exI [of _ ms] exI [of _ fl']) simp
qed

section \<open>A node taken off its list twice\<close>

text \<open>A search for a cycle that does not lead back to where it started has no end.\<close>

lemma lift_cycle_diverges:
  assumes "start \<notin> C" "\<forall>c \<in> C. \<exists>s \<in> C. dst c = Some s" "cur \<in> C"
  shows "lift_cycle dst vt start cur nl ms = None"
proof (rule ccontr)
  assume "lift_cycle dst vt start cur nl ms \<noteq> None"
  then obtain y where "lift_cycle dst vt start cur nl ms = Some y" by blast
  then have "start \<notin> C \<longrightarrow> (\<forall>c \<in> C. \<exists>s \<in> C. dst c = Some s) \<longrightarrow> cur \<notin> C"
  proof (rule lift_cycle.raw_induct [where P = "\<lambda>dst vt start cur nl ms y. start \<notin> C \<longrightarrow> (\<forall>c \<in> C. \<exists>s \<in> C. dst c = Some s) \<longrightarrow> cur \<notin> C", rotated])
    fix lc dst vt start cur nl ms y
    assume IH: "\<And>dst vt start cur nl ms y. lc dst vt start cur nl ms = Some y \<Longrightarrow> start \<notin> C \<longrightarrow> (\<forall>c \<in> C. \<exists>s \<in> C. dst c = Some s) \<longrightarrow> cur \<notin> C"
      and s: "(case dst cur of None \<Rightarrow> Some (Inl Undefined_behaviour)
        | Some src \<Rightarrow> if src = start then Some (Inr (cur, nl, ms)) else lc dst vt start src (list_remove cur nl) (ms @ [(vt cur, vt src)])) = Some y"
    show "start \<notin> C \<longrightarrow> (\<forall>c \<in> C. \<exists>s \<in> C. dst c = Some s) \<longrightarrow> cur \<notin> C"
    proof (intro impI notI)
      assume h: "start \<notin> C" "\<forall>c \<in> C. \<exists>s \<in> C. dst c = Some s" "cur \<in> C"
      then obtain x where x: "x \<in> C" "dst cur = Some x" by blast
      then have "x \<noteq> start" using h(1) by blast
      then have "lc dst vt start x (list_remove cur nl) (ms @ [(vt cur, vt x)]) = Some y" using s x(2) by simp
      then show False using IH h x(1) by blast
    qed
  qed
  then show False using assms by blast
qed

definition leaves_pass :: "(int \<Rightarrow> ir_valuetype) \<Rightarrow> bool \<times> (int \<times> int) list \<times> int bsd_list \<times> moves \<Rightarrow> bool \<times> (int \<times> int) list \<times> int bsd_list \<times> moves" where
  "leaves_pass vt = (\<lambda>(_, edges, nl, ms). fold (lift_move vt) edges (False, edges, nl, ms))"

definition leaves_of :: "(int \<Rightarrow> ir_valuetype) \<Rightarrow> bool \<times> (int \<times> int) list \<times> int bsd_list \<times> moves \<Rightarrow> ((int \<times> int) list \<times> int bsd_list \<times> moves) option" where
  "leaves_of vt = (\<lambda>(_, edges, nl, ms). lift_leaves vt edges nl ms)"

lemma leaves_of_step:
  "leaves_of vt st = (if fst (snd (leaves_pass vt st)) = [] \<or> \<not> fst (leaves_pass vt st) then Some (snd (leaves_pass vt st)) else leaves_of vt (leaves_pass vt st))"
proof -
  obtain p e n m where st: "st = (p, e, n, m)" by (cases st)
  obtain p' e' n' m' where st': "fold (lift_move vt) e (False, e, n, m) = (p', e', n', m')" by (cases "fold (lift_move vt) e (False, e, n, m)")
  show ?thesis using lift_leaves.simps [of vt e n m] by (simp add: leaves_of_def leaves_pass_def st st')
qed

definition chain_vt :: "int \<Rightarrow> ir_valuetype" where
  "chain_vt = node_vt (map (\<lambda>v. \<lparr>vt_value = v, vt_type = 0\<rparr>) [6, 5, 4, 3, 2, 1])"

definition chain_start :: "bool \<times> (int \<times> int) list \<times> int bsd_list \<times> moves" where
  "chain_start = (False, [(6, 5), (5, 4), (1, 3), (1, 2), (2, 1)], foldr list_insert_head [6, 5, 4, 3, 2, 1] list_init, [])"

definition chain_nodes :: "int bsd_list" where
  "chain_nodes = list_remove 6 (list_remove 5 (list_remove 3 (list_remove 5 (list_remove 4 (foldr list_insert_head [6, 5, 4, 3, 2, 1] list_init)))))"

lemma chain_first: "lh_first chain_nodes = Some 3"
  by (simp add: chain_nodes_def list_init_def list_insert_head_def list_remove_def store_link_def Let_def)

lemma chain_passes:
  "leaves_pass vt chain_start = (True, [(6, 5), (1, 2), (2, 1)], list_remove 3 (list_remove 5 (list_remove 4 (foldr list_insert_head [6, 5, 4, 3, 2, 1] list_init))),
     [(vt 4, vt 5), (vt 3, vt 1)])"
  "leaves_pass vt (True, [(6, 5), (1, 2), (2, 1)], list_remove 3 (list_remove 5 (list_remove 4 (foldr list_insert_head [6, 5, 4, 3, 2, 1] list_init))),
     [(vt 4, vt 5), (vt 3, vt 1)]) = (True, [(1, 2), (2, 1)], chain_nodes, [(vt 4, vt 5), (vt 3, vt 1), (vt 5, vt 6)])"
  "leaves_pass vt (True, [(1, 2), (2, 1)], nl, ms) = (False, [(1, 2), (2, 1)], nl, ms)"
  by (simp_all add: leaves_pass_def chain_start_def lift_move_def chain_nodes_def Let_def del: foldr.simps)

lemma chain_leaves:
  "lift_leaves vt [(6, 5), (5, 4), (1, 3), (1, 2), (2, 1)] (foldr list_insert_head [6, 5, 4, 3, 2, 1] list_init) [] =
     Some ([(1, 2), (2, 1)], chain_nodes, [(vt 4, vt 5), (vt 3, vt 1), (vt 5, vt 6)])"
proof -
  have "leaves_of vt chain_start = Some ([(1, 2), (2, 1)], chain_nodes, [(vt 4, vt 5), (vt 3, vt 1), (vt 5, vt 6)])"
    unfolding leaves_of_step [of vt chain_start] chain_passes(1) leaves_of_step [of vt "(True, [(6, 5), (1, 2), (2, 1)], _)"] chain_passes(2)
      leaves_of_step [of vt "(True, [(1, 2), (2, 1)], _)"] chain_passes(3) by simp
  then show ?thesis by (simp only: leaves_of_def chain_start_def prod.case)
qed


end
