(* ===== verification/Vmir_Replace.thy ===== *)
theory Vmir_Replace
  imports Vmir_Graph
begin

text \<open>
  The first pass over the instructions of a function, \<open>replace_instructions\<close> of
  \<open>src/src/vmir_transform.c\<close>: address computations become LEA, constant addresses are merged into loads and
  stores, PHI of one predecessor and casts that change nothing become moves, calls of functions
  with an instruction of their own become that instruction, stores of constant aggregates are split. Then the
  links from values to the instructions that read them are made (\<open>function_bind_instr_inputs\<close>).

  A pointer to an instruction is its number, \<open>None\<close> for \<open>NULL\<close>. The counters of \<open>iu_stats\<close> are left
  out. The walk over a block follows the links of the list while the list changes, so it is a
  recursion that may go on for ever, and \<open>None\<close> is a run that does.
\<close>

section \<open>New values\<close>

definition vt_of :: "nat \<times> u32 \<Rightarrow> ir_valuetype" where
  "vt_of = (\<lambda>(i, ty). \<lparr>vt_value = int i, vt_type = ty\<rparr>)"

definition vt_index :: "ir_valuetype \<Rightarrow> nat" where
  "vt_index vt = unat (word_of_int (vt_value vt) :: u32)"

definition super_of :: "ir_valuetype \<Rightarrow> ir_super" where
  "super_of vt = \<lparr>ii_ret = vt, ii_rets = []\<rparr>"

text \<open>The instruction is made with its result, \<open>value_alloc_instr_ret\<close>.\<close>

definition add_before_with_ret :: "u32 \<Rightarrow> (ir_super \<Rightarrow> ir_instr) \<Rightarrow> nat \<Rightarrow> flow \<Rightarrow> ((nat \<times> ir_valuetype) \<times> flow) result" where
  "add_before_with_ret ty mk before fl =
     res_bind (value_alloc_temporary (fl_iu fl) ty) (\<lambda>(v, iu).
       let (i, fl1) = instr_add_before (mk (super_of (vt_of v))) before (fl\<lparr>fl_iu := iu\<rparr>)
       in Inr ((i, vt_of v), value_bind_instr (fst v) i True fl1))"

definition registerify :: "nat \<Rightarrow> ir_valuetype \<Rightarrow> flow \<Rightarrow> (ir_valuetype \<times> flow) result" where
  "registerify ii vtp fl =
     res_bind (vt_at (fl_iu fl) vtp) (\<lambda>v.
       case iv_class v of
         Vc_temporary \<Rightarrow> Inr (vtp, fl)
       | Vc_regframe _ \<Rightarrow> Inr (vtp, fl)
       | Vc_globalvar _ \<Rightarrow>
           res_bind (add_before_with_ret (iv_type v) (\<lambda>s. IR_IC_MOVE \<lparr>imo_super = s, imo_value = vtp\<rparr>) ii fl)
             (\<lambda>((_, ret), fl1). Inr (ret, fl1))
       | Vc_constant _ \<Rightarrow>
           res_bind (add_before_with_ret (iv_type v) (\<lambda>s. IR_IC_MOVE \<lparr>imo_super = s, imo_value = vtp\<rparr>) ii fl)
             (\<lambda>((_, ret), fl1). Inr (ret, fl1))
       | _ \<Rightarrow> Inl (Parser_error ''Unable convert into register''))"

definition make_pointer :: "u32 \<Rightarrow> flow \<Rightarrow> (u32 \<times> flow) result" where
  "make_pointer ty fl =
     (case type_make_pointer (iu_ts (fl_iu fl)) ty True of
        (None, _) \<Rightarrow> Inl Undefined_behaviour
      | (Some p, ts) \<Rightarrow> Inr (of_nat p, fl\<lparr>fl_iu := (fl_iu fl)\<lparr>iu_ts := ts\<rparr>\<rparr>))"

section \<open>Address computations\<close>

text \<open>The local variables of \<open>replace_gep_with_lea\<close>.\<close>

record gep_state =
  gs_baseptr :: ir_valuetype
  gs_immediate_offset :: int
  gs_value_offset :: ir_valuetype
  gs_value_offset_multiply :: int

definition lea_of :: "gep_state \<Rightarrow> ir_super \<Rightarrow> ir_instr_lea" where
  "lea_of g s = \<lparr>ile_super = s, ile_baseptr = gs_baseptr g, ile_immediate_offset = gs_immediate_offset g,
     ile_value_offset = gs_value_offset g, ile_value_offset_multiply = gs_value_offset_multiply g\<rparr>"

text \<open>The base pointer of a LEA that is in its block already.\<close>

definition registerify_base :: "nat \<Rightarrow> ir_instr_lea \<Rightarrow> flow \<Rightarrow> flow result" where
  "registerify_base i lea fl =
     res_bind (registerify i (ile_baseptr lea) fl) (\<lambda>(base, fl1). Inr (set_instr i (IR_IC_LEA (lea\<lparr>ile_baseptr := base\<rparr>)) fl1))"

definition emit_interim_lea :: "gep_state \<Rightarrow> nat \<Rightarrow> u32 \<Rightarrow> flow \<Rightarrow> (ir_valuetype \<times> flow) result" where
  "emit_interim_lea g gep ty fl =
     (let lea = lea_of (g\<lparr>gs_immediate_offset := 0\<rparr>) in
      res_bind (make_pointer ty fl) (\<lambda>(ptr, fl1).
      res_bind (add_before_with_ret ptr (\<lambda>s. IR_IC_LEA (lea s)) gep fl1) (\<lambda>((i, ret), fl2).
      res_bind (registerify_base i (lea (super_of ret)) fl2) (\<lambda>fl3. Inr (ret, fl3)))))"

text \<open>The constants are unsigned, the sum goes back to an \<open>int\<close>.\<close>

definition gep_scaled :: "ir_unit \<Rightarrow> ir_value \<Rightarrow> u32 \<Rightarrow> gep_state \<Rightarrow> gep_state result" where
  "gep_scaled iu op elem g =
     res_bind (value_get_const32 (iu_tys iu) op) (\<lambda>c. res_bind (type_sizeof (iu_tys iu) elem) (\<lambda>sz.
       Inr (g\<lparr>gs_immediate_offset := sint (word_of_int (gs_immediate_offset g) + c * sz :: u32)\<rparr>)))"

definition gep_variable :: "ir_unit \<Rightarrow> ir_valuetype \<Rightarrow> u32 \<Rightarrow> gep_state \<Rightarrow> gep_state result" where
  "gep_variable iu vt elem g =
     res_bind (type_sizeof (iu_tys iu) elem) (\<lambda>sz.
       Inr (g\<lparr>gs_value_offset := vt, gs_value_offset_multiply := sint sz\<rparr>))"

definition gep_field :: "ir_unit \<Rightarrow> ir_value \<Rightarrow> ir_struct \<Rightarrow> gep_state \<Rightarrow> gep_state result" where
  "gep_field iu op s g =
     res_bind (value_get_const32 (iu_tys iu) op) (\<lambda>c. let x = sint c in
       if int (length (st_elements s)) \<le> x then Inl (Parser_error ''Bad index info struct'')
       else if x < 0 then Inl Undefined_behaviour
       else case snd (st_elements s ! nat x) of
              None \<Rightarrow> Inl Undefined_behaviour
            | Some off \<Rightarrow> res_bind (add_int (gs_immediate_offset g) off) (\<lambda>imm. Inr (g\<lparr>gs_immediate_offset := imm\<rparr>)))"

fun is_operand_reg :: "value_class \<Rightarrow> bool" where
  "is_operand_reg Vc_temporary = True" | "is_operand_reg (Vc_regframe _) = True" | "is_operand_reg _ = False"

fun is_constant :: "value_class \<Rightarrow> bool" where
  "is_constant (Vc_constant _) = True" | "is_constant _ = False"

text \<open>One turn of the loop over the indices; \<open>abort\<close> ends the program.\<close>

definition gep_index :: "nat \<Rightarrow> gep_state \<times> flow \<Rightarrow> ir_valuetype \<times> int \<Rightarrow> (gep_state \<times> flow) result" where
  "gep_index gep = (\<lambda>(g, fl) (vt, curtype).
     let iu = fl_iu fl in
     res_bind (type_get (iu_tys iu) (word_of_int curtype)) (\<lambda>cur. res_bind (vt_at iu vt) (\<lambda>op.
       case cur of
         It_pointer pointee \<Rightarrow>
           if is_constant (iv_class op) then res_bind (gep_scaled iu op pointee g) (\<lambda>g'. Inr (g', fl))
           else if is_operand_reg (iv_class op) then
             if vt_value (gs_value_offset g) \<noteq> - 1 then Inl Assertion_failed
             else res_bind (gep_variable iu vt pointee g) (\<lambda>g'. Inr (g', fl))
           else Inl (Parser_error ''GEP: Can't handle class as pointee'')
       | It_struct s \<Rightarrow>
           if is_constant (iv_class op) then res_bind (gep_field iu op s g) (\<lambda>g'. Inr (g', fl))
           else Inl (Parser_error ''Bad index class for struct'')
       | It_array _ elem \<Rightarrow>
           if is_constant (iv_class op) then
             res_bind (gep_scaled iu op elem g) (\<lambda>g'. res_bind (type_get (iu_tys iu) elem) (\<lambda>_. Inr (g', fl)))
           else if is_operand_reg (iv_class op) then
             res_bind (if vt_value (gs_value_offset g) = - 1 then Inr (gs_baseptr g, fl)
                       else emit_interim_lea g gep (word_of_int curtype) fl) (\<lambda>(base, fl1).
             res_bind (gep_variable (fl_iu fl1) vt elem (g\<lparr>gs_baseptr := base\<rparr>)) (\<lambda>g'.
             res_bind (type_get (iu_tys (fl_iu fl1)) elem) (\<lambda>_. Inr (g', fl1))))
           else Inl (Parser_error ''GEP: Can't handle class as array index'')
       | _ \<Rightarrow> Inl (Parser_error ''Unable to GEP for value type''))))"

definition gep_start :: "ir_instr_gep \<Rightarrow> gep_state" where
  "gep_start ii = \<lparr>gs_baseptr = igp_baseptr ii, gs_immediate_offset = 0,
     gs_value_offset = \<lparr>vt_value = - 1, vt_type = - 1\<rparr>, gs_value_offset_multiply = 0\<rparr>"

definition replace_gep_with_lea :: "nat \<Rightarrow> ir_instr_gep \<Rightarrow> flow \<Rightarrow> (nat \<times> flow) result" where
  "replace_gep_with_lea gep ii fl =
     res_bind (res_fold (gep_index gep) (gep_start ii, fl) (igp_indicies ii)) (\<lambda>(g, fl1).
       let s = super_of (ii_ret (igp_super ii));
           (i, fl2) = instr_add_before (IR_IC_LEA (lea_of g s)) gep fl1
       in res_bind (value_bind_return_value (ii_ret s) i fl2) (\<lambda>fl3.
          res_bind (registerify_base i (lea_of g s) fl3) (\<lambda>fl4. Inr (i, instr_destroy gep fl4))))"

section \<open>Loads and stores\<close>

definition value_get_assigning_instr :: "flow \<Rightarrow> nat \<Rightarrow> nat option" where
  "value_get_assigning_instr fl v =
     map_option (\<lambda>(_, i, _). i) (List.find (\<lambda>(u, _, out). u = v \<and> out) (fl_binds fl))"

definition assigning_lea :: "ir_valuetype \<Rightarrow> flow \<Rightarrow> ir_instr_lea option result" where
  "assigning_lea vt fl =
     res_bind (vt_at (fl_iu fl) vt) (\<lambda>_.
       case value_get_assigning_instr fl (unat (word_of_int (vt_value vt) :: u32)) of
         None \<Rightarrow> Inr None
       | Some a \<Rightarrow> res_bind (find_node fl a) (\<lambda>nd.
           Inr (case fn_instr nd of IR_IC_LEA lea \<Rightarrow> Some lea | _ \<Rightarrow> None)))"

definition fits_int16 :: "int \<Rightarrow> bool" where
  "fits_int16 off \<longleftrightarrow> - 32768 \<le> off \<and> off \<le> 32767"

definition merge_lea_into_store :: "nat \<Rightarrow> ir_instr_store \<Rightarrow> flow \<Rightarrow> (ir_instr_store \<times> flow) result" where
  "merge_lea_into_store i ii fl =
     res_bind (assigning_lea (ist_ptr ii) fl) (\<lambda>a.
       case a of
         None \<Rightarrow> Inr (ii, fl)
       | Some lea \<Rightarrow>
           if vt_value (ile_value_offset lea) \<noteq> - 1 then Inr (ii, fl)
           else res_bind (c_assert (ist_immediate_offset ii = 0)) (\<lambda>_.
             if \<not> fits_int16 (ile_immediate_offset lea) then Inr (ii, fl)
             else let st = ii\<lparr>ist_immediate_offset := ile_immediate_offset lea,
                              ist_ptr := (ist_ptr ii)\<lparr>vt_value := vt_value (ile_baseptr lea)\<rparr>\<rparr>
                  in Inr (st, set_instr i (IR_IC_STORE st) fl)))"

definition merge_lea_into_load :: "nat \<Rightarrow> ir_instr_load \<Rightarrow> flow \<Rightarrow> flow result" where
  "merge_lea_into_load i ii fl =
     res_bind (assigning_lea (ild_ptr ii) fl) (\<lambda>a.
       case a of
         None \<Rightarrow> Inr fl
       | Some lea \<Rightarrow>
           res_bind (c_assert (ild_immediate_offset ii = 0)) (\<lambda>_.
             if \<not> fits_int16 (ile_immediate_offset lea) then Inr fl
             else res_bind (c_assert (vt_value (ild_value_offset ii) < 0)) (\<lambda>_.
               Inr (set_instr i (IR_IC_LOAD (ii\<lparr>ild_immediate_offset := ile_immediate_offset lea,
                 ild_value_offset := ile_value_offset lea, ild_value_offset_multiply := ile_value_offset_multiply lea,
                 ild_ptr := (ild_ptr ii)\<lparr>vt_value := vt_value (ile_baseptr lea)\<rparr>\<rparr>)) fl))))"

text \<open>
  The fields of the aggregate: its values, or zeroes. The C code keeps a pointer into the table of
  types while \<open>type_make_pointer\<close> may grow it; the model reads the type as it was.
\<close>

definition const_field :: "(u32 \<times> u32) list option \<Rightarrow> nat \<Rightarrow> u32 \<Rightarrow> flow \<Rightarrow> (ir_valuetype \<times> flow) result" where
  "const_field values i ty fl =
     (case values of
        Some vs \<Rightarrow>
          if i < length vs then Inr (case vs ! i of (v, t) \<Rightarrow> \<lparr>vt_value = sint v, vt_type = t\<rparr>, fl) else Inl Undefined_behaviour
      | None \<Rightarrow> res_bind (value_create_zero (fl_iu fl) ty) (\<lambda>(v, iu). Inr (vt_of v, fl\<lparr>fl_iu := iu\<rparr>)))"

definition field_store :: "ir_valuetype \<Rightarrow> int \<Rightarrow> (u32 \<times> u32) list option \<Rightarrow> nat \<Rightarrow> u32 \<times> int option \<Rightarrow> flow \<Rightarrow> (ir_instr_store \<times> flow) result" where
  "field_store ptr offset values i = (\<lambda>(ty, off) fl.
     res_bind (make_pointer ty fl) (\<lambda>(p, fl1). case off of
         None \<Rightarrow> Inl Undefined_behaviour
       | Some o' \<Rightarrow> res_bind (add_int offset o') (\<lambda>imm. res_bind (const_field values i ty fl1) (\<lambda>(v, fl2).
           Inr (\<lparr>ist_ptr = ptr\<lparr>vt_type := p\<rparr>, ist_value = v, ist_immediate_offset = imm\<rparr>, fl2)))))"

fun field_stores :: "ir_valuetype \<Rightarrow> int \<Rightarrow> (u32 \<times> u32) list option \<Rightarrow> nat \<Rightarrow> (u32 \<times> int option) list \<Rightarrow> nat \<Rightarrow> flow \<Rightarrow> (nat \<times> flow) result" where
  "field_stores ptr offset values i [] ret fl = Inr (ret, fl)"
| "field_stores ptr offset values i (e # es) ret fl =
     res_bind (field_store ptr offset values i e fl) (\<lambda>(st, fl1).
       let (ret', fl2) = instr_add_after (IR_IC_STORE st) ret fl1 in field_stores ptr offset values (Suc i) es ret' fl2)"

definition split_const_store_aggregate :: "nat \<Rightarrow> ir_instr_store \<Rightarrow> flow \<Rightarrow> (nat \<times> flow) result" where
  "split_const_store_aggregate ii st fl =
     res_bind (vt_at (fl_iu fl) (ist_value st)) (\<lambda>iv.
       let split = (\<lambda>values.
             res_bind (type_get (iu_tys (fl_iu fl)) (vt_type (ist_value st))) (\<lambda>it.
               case it of
                 It_struct s \<Rightarrow>
                   (case st_elements s of
                      [] \<Rightarrow> Inl Undefined_behaviour
                    | e # es \<Rightarrow>
                        res_bind (field_store (ist_ptr st) (ist_immediate_offset st) values 0 e fl) (\<lambda>(st0, fl1).
                          field_stores (ist_ptr st0) (ist_immediate_offset st) values 1 es ii (set_instr ii (IR_IC_STORE st0) fl1)))
               | _ \<Rightarrow> Inl Undefined_behaviour))
       in case iv_class iv of
            Vc_aggregate vs \<Rightarrow> split (Some vs)
          | Vc_zero_initializer \<Rightarrow> split None
          | _ \<Rightarrow> Inr (ii, fl))"

section \<open>PHI, casts and binary operations\<close>

definition replace_single_path_phi :: "nat \<Rightarrow> ir_instr_phi \<Rightarrow> flow \<Rightarrow> (nat \<times> flow) result" where
  "replace_single_path_phi phi ii fl =
     (case iph_nodes ii of
        [(_, v)] \<Rightarrow>
          let s = super_of (ii_ret (iph_super ii));
              (i, fl1) = instr_add_before (IR_IC_MOVE \<lparr>imo_super = s, imo_value = v\<rparr>) phi fl
          in res_bind (value_bind_return_value (ii_ret s) i fl1) (\<lambda>fl2. Inr (i, instr_destroy phi fl2))
      | _ \<Rightarrow> Inr (phi, fl))"

definition binop_prep_args :: "nat \<Rightarrow> ir_instr_binary \<Rightarrow> flow \<Rightarrow> flow result" where
  "binop_prep_args i ii fl =
     res_bind (registerify i (ibi_lhs ii) fl) (\<lambda>(lhs, fl1). Inr (set_instr i (IR_IC_BINOP (ii\<lparr>ibi_lhs := lhs\<rparr>)) fl1))"

text \<open>Casts whose result has the same bits in a register.\<close>

definition cast_is_move :: "ir_type \<Rightarrow> ir_type \<Rightarrow> nat \<Rightarrow> bool" where
  "cast_is_move srcty dstty op =
     (case castop_of op of
        Some BITCAST \<Rightarrow> it_code srcty = IR_TYPE_POINTER \<and> it_code dstty = IR_TYPE_POINTER
      | Some INTTOPTR \<Rightarrow> it_code srcty = IR_TYPE_INT32
      | Some PTRTOINT \<Rightarrow> it_code dstty = IR_TYPE_INT32
      | Some TRUNC \<Rightarrow> legalize_type dstty = legalize_type srcty
      | _ \<Rightarrow> False)"

definition binop_transform_cast :: "nat \<Rightarrow> ir_instr_unary \<Rightarrow> flow \<Rightarrow> flow result" where
  "binop_transform_cast i ii fl =
     (let tys = iu_tys (fl_iu fl) in
      res_bind (type_get tys (vt_type (iun_value ii))) (\<lambda>srcty. res_bind (type_get tys (vt_type (ii_ret (iun_super ii)))) (\<lambda>dstty.
        Inr (if cast_is_move srcty dstty (iun_op ii)
             then set_instr i (IR_IC_MOVE \<lparr>imo_super = iun_super ii, imo_value = iun_value ii\<rparr>) fl else fl))))"

section \<open>Calls\<close>

definition next_instr :: "flow \<Rightarrow> nat \<Rightarrow> nat option" where
  "next_instr fl i =
     List.fold (\<lambda>bb r. case dropWhile (\<lambda>j. j \<noteq> i) (map fn_id (fb_nodes bb)) of _ # j # _ \<Rightarrow> Some j | _ \<Rightarrow> r) (fl_bbs fl) None"

fun registerify_args :: "nat \<Rightarrow> (ir_valuetype \<times> int) list \<Rightarrow> flow \<Rightarrow> ((ir_valuetype \<times> int) list \<times> flow) result" where
  "registerify_args i [] fl = Inr ([], fl)"
| "registerify_args i ((v, sz) # as) fl =
     (if sz \<noteq> 0 then Inl (Parser_error ''help with vmop registerify'')
      else res_bind (registerify i v fl) (\<lambda>(v', fl1). res_bind (registerify_args i as fl1) (\<lambda>(as', fl2).
        Inr ((v', sz) # as', fl2))))"

definition call_as_vmop :: "ir_function \<Rightarrow> bool \<Rightarrow> nat \<Rightarrow> ir_instr_call \<Rightarrow> flow \<Rightarrow> (nat option \<times> flow) result" where
  "call_as_vmop f invoke i ii fl =
     res_bind (parser_check (if_vmop_args f \<le> length (ica_argv ii)) ''Too few arguments for vmop'') (\<lambda>_.
     res_bind (registerify_args i (take (if_vmop_args f) (ica_argv ii)) fl) (\<lambda>(args, fl1).
       let fl2 = (if invoke then snd (instr_add_after (IR_IC_BR \<lparr>ibr_condition = no_value, ibr_true = ica_normal_dest ii, ibr_false = 0\<rparr>) i fl1) else fl1)
       in Inr (Some i, set_instr i (IR_IC_VMOP (ii\<lparr>ica_argv := args, ica_vmop := if_vmop f\<rparr>)) fl2)))"

text \<open>\<open>llvm.va_start\<close> is given the size of the arguments of the function it stands in.\<close>

definition vastart_call :: "nat \<Rightarrow> nat \<Rightarrow> ir_instr_call \<Rightarrow> flow \<Rightarrow> ((nat \<times> ir_instr_call) \<times> flow) result" where
  "vastart_call self i ii fl =
     (case ica_argv ii of
        [] \<Rightarrow> Inl Undefined_behaviour
      | a # _ \<Rightarrow>
          res_bind (value_create_const32 (fl_iu fl) (word_of_int (if_callarg_size (iu_functions (fl_iu fl) ! self)))) (\<lambda>(v, iu).
            let c = \<lparr>ica_super = no_super, ica_callee = ica_callee ii, ica_vmop = 0, ica_normal_dest = 0, ica_unwind_dest = 0,
                     ica_argv = [a, (vt_of v, 0)]\<rparr>;
                (j, fl1) = instr_add_before (IR_IC_CALL c) i (fl\<lparr>fl_iu := iu\<rparr>)
            in Inr ((j, c), instr_destroy i fl1)))"

definition replace_call :: "nat \<Rightarrow> bool \<Rightarrow> nat \<Rightarrow> ir_instr_call \<Rightarrow> flow \<Rightarrow> (nat option \<times> flow) result" where
  "replace_call self invoke i ii fl =
     res_bind (value_function (fl_iu fl) (word_of_int (vt_value (ica_callee ii)))) (\<lambda>fo.
       case fo of
         None \<Rightarrow> Inr (Some i, fl)
       | Some fi \<Rightarrow> let f = iu_functions (fl_iu fl) ! fi; op = if_vmop f in
           if op = 0 then Inr (Some i, fl)
           else if op = vm_op_num (VM_FLOW NOP) then Inr (next_instr fl i, instr_destroy i fl)
           else if op = vm_op_num (VM_VA VASTART) then
             res_bind (vastart_call self i ii fl) (\<lambda>((j, c), fl1). call_as_vmop f False j c fl1)
           else call_as_vmop f invoke i ii fl)"

section \<open>The walk over the instructions\<close>

text \<open>
  The chain of tests in the body of the loop; each test looks at what the one before has
  left as the current instruction.
\<close>

type_synonym replacement = "nat \<Rightarrow> flow \<Rightarrow> (nat option \<times> flow) result"

definition on_instr :: "(nat \<Rightarrow> ir_instr \<Rightarrow> flow \<Rightarrow> (nat option \<times> flow) result) \<Rightarrow> replacement" where
  "on_instr g i fl = res_bind (find_node fl i) (\<lambda>nd. g i (fn_instr nd) fl)"

definition here :: "nat \<times> flow \<Rightarrow> (nat option \<times> flow) result" where
  "here = (\<lambda>(i, fl). Inr (Some i, fl))"

fun replace_gep :: "nat \<Rightarrow> ir_instr \<Rightarrow> flow \<Rightarrow> (nat option \<times> flow) result" where
  "replace_gep i (IR_IC_GEP ii) fl = res_bind (replace_gep_with_lea i ii fl) here"
| "replace_gep i _ fl = here (i, fl)"

fun replace_store :: "nat \<Rightarrow> ir_instr \<Rightarrow> flow \<Rightarrow> (nat option \<times> flow) result" where
  "replace_store i (IR_IC_STORE ii) fl =
     res_bind (merge_lea_into_store i ii fl) (\<lambda>(st, fl1). res_bind (split_const_store_aggregate i st fl1) here)"
| "replace_store i _ fl = here (i, fl)"

fun replace_load :: "nat \<Rightarrow> ir_instr \<Rightarrow> flow \<Rightarrow> (nat option \<times> flow) result" where
  "replace_load i (IR_IC_LOAD ii) fl = res_bind (merge_lea_into_load i ii fl) (\<lambda>fl1. here (i, fl1))"
| "replace_load i _ fl = here (i, fl)"

fun replace_phi :: "nat \<Rightarrow> ir_instr \<Rightarrow> flow \<Rightarrow> (nat option \<times> flow) result" where
  "replace_phi i (IR_IC_PHI ii) fl = res_bind (replace_single_path_phi i ii fl) here"
| "replace_phi i _ fl = here (i, fl)"

fun replace_calls :: "nat \<Rightarrow> nat \<Rightarrow> ir_instr \<Rightarrow> flow \<Rightarrow> (nat option \<times> flow) result" where
  "replace_calls self i (IR_IC_CALL ii) fl = replace_call self False i ii fl"
| "replace_calls self i (IR_IC_INVOKE ii) fl = replace_call self True i ii fl"
| "replace_calls self i _ fl = here (i, fl)"

fun replace_binop :: "nat \<Rightarrow> ir_instr \<Rightarrow> flow \<Rightarrow> (nat option \<times> flow) result" where
  "replace_binop i (IR_IC_BINOP ii) fl = res_bind (binop_prep_args i ii fl) (\<lambda>fl1. here (i, fl1))"
| "replace_binop i _ fl = here (i, fl)"

fun replace_cast :: "nat \<Rightarrow> ir_instr \<Rightarrow> flow \<Rightarrow> (nat option \<times> flow) result" where
  "replace_cast i (IR_IC_CAST ii) fl = res_bind (binop_transform_cast i ii fl) (\<lambda>fl1. here (i, fl1))"
| "replace_cast i _ fl = here (i, fl)"

definition replace_instr :: "nat \<Rightarrow> replacement" where
  "replace_instr self i fl =
     res_fold (\<lambda>(i, fl) g. case i of None \<Rightarrow> Inl Undefined_behaviour | Some i \<Rightarrow> on_instr g i fl) (Some i, fl)
       [replace_gep, replace_store, replace_load, replace_phi, replace_calls self, replace_binop, replace_cast]"

partial_function (option) replace_from :: "nat \<Rightarrow> nat option \<Rightarrow> flow \<Rightarrow> flow result option" where
  [code]: "replace_from self i fl =
     (case i of
        None \<Rightarrow> Some (Inr fl)
      | Some i \<Rightarrow>
          (case replace_instr self i fl of
             Inl e \<Rightarrow> Some (Inl e)
           | Inr (None, fl1) \<Rightarrow> Some (Inl Undefined_behaviour)
           | Inr (Some j, fl1) \<Rightarrow> replace_from self (next_instr fl1 j) fl1))"

fun each_bb :: "(int \<Rightarrow> flow \<Rightarrow> flow result option) \<Rightarrow> int list \<Rightarrow> flow \<Rightarrow> flow result option" where
  "each_bb g [] fl = Some (Inr fl)"
| "each_bb g (b # bs) fl = (case g b fl of Some (Inr fl1) \<Rightarrow> each_bb g bs fl1 | r \<Rightarrow> r)"

definition bb_first :: "flow \<Rightarrow> int \<Rightarrow> nat option" where
  "bb_first fl b = (case find_bb fl b of Inr bb \<Rightarrow> (case fb_nodes bb of nd # _ \<Rightarrow> Some (fn_id nd) | [] \<Rightarrow> None) | Inl _ \<Rightarrow> None)"

definition replace_instructions :: "nat \<Rightarrow> flow \<Rightarrow> flow result option" where
  "replace_instructions self fl = each_bb (\<lambda>b fl. replace_from self (bb_first fl b) fl) (map fb_id (fl_bbs fl)) fl"

section \<open>Links to the operands\<close>

text \<open>Exactly one link of an instruction is an output, if it has a result, and none otherwise.\<close>

definition instr_verify_output :: "nat \<Rightarrow> ir_instr \<Rightarrow> flow \<Rightarrow> unit result" where
  "instr_verify_output i ii fl =
     (let outs = filter (\<lambda>(_, j, out). j = i \<and> out) (fl_binds fl)
      in parser_check (length outs = (if vt_value (ii_ret (instr_super ii)) \<noteq> - 1 then 1 else 0)) ''Instruction output mismatch'')"

fun input_values :: "ir_instr \<Rightarrow> ir_valuetype list result" where
  "input_values IR_IC_UNREACHABLE = Inr []"
| "input_values (IR_IC_RET ii) = Inr [iun_value ii]"
| "input_values (IR_IC_CAST ii) = Inr [iun_value ii]"
| "input_values (IR_IC_VAARG ii) = Inr [iun_value ii]"
| "input_values (IR_IC_LOAD ii) = Inr (ild_ptr ii # (if 0 \<le> vt_value (ild_value_offset ii) then [ild_value_offset ii] else []))"
| "input_values (IR_IC_BINOP ii) = Inr [ibi_lhs ii, ibi_rhs ii]"
| "input_values (IR_IC_CMP2 ii) = Inr [ibi_lhs ii, ibi_rhs ii]"
| "input_values (IR_IC_STORE ii) = Inr [ist_value ii, ist_ptr ii]"
| "input_values (IR_IC_BR ii) = Inr [ibr_condition ii]"
| "input_values (IR_IC_ALLOCA ii) = Inr [ial_num_items ii]"
| "input_values (IR_IC_SELECT ii) = Inr [ise_pred ii, ise_true ii, ise_false ii]"
| "input_values (IR_IC_LEA ii) = Inr [ile_baseptr ii, ile_value_offset ii]"
| "input_values (IR_IC_CALL ii) = Inr (ica_callee ii # map fst (ica_argv ii))"
| "input_values (IR_IC_VMOP ii) = Inr (ica_callee ii # map fst (ica_argv ii))"
| "input_values (IR_IC_INVOKE ii) = Inr (ica_callee ii # map fst (ica_argv ii))"
| "input_values (IR_IC_SWITCH ii) = Inr [isw_value ii]"
| "input_values (IR_IC_PHI ii) = Inr (map snd (iph_nodes ii))"
| "input_values (IR_IC_MOVE ii) = Inr [imo_value ii]"
| "input_values (IR_IC_EXTRACTVAL ii) = Inr [iev_value ii]"
| "input_values (IR_IC_RESUME vs) = Inr vs"
| "input_values (IR_IC_INSERTVAL ii) = Inr [iiv_src ii, iiv_replacement ii]"
| "input_values (IR_IC_LANDINGPAD _) = Inr []"
| "input_values _ = Inl (Parser_error ''Unable to bind input values on instr-class'')"

definition instr_bind_inputs :: "nat \<Rightarrow> ir_valuetype list \<Rightarrow> flow \<Rightarrow> flow result" where
  "instr_bind_inputs i vts fl = res_fold (\<lambda>fl vt. instr_bind_input vt i fl) fl vts"

definition bind_node_inputs :: "flow \<Rightarrow> flow_node \<Rightarrow> flow result" where
  "bind_node_inputs fl nd =
     res_bind (instr_verify_output (fn_id nd) (fn_instr nd) fl) (\<lambda>_. res_bind (input_values (fn_instr nd)) (\<lambda>vts.
       instr_bind_inputs (fn_id nd) vts fl))"

definition function_bind_instr_inputs :: "flow \<Rightarrow> flow result" where
  "function_bind_instr_inputs fl = res_fold bind_node_inputs fl (concat (map fb_nodes (fl_bbs fl)))"

end
