(* ===== verification/Vmir_Replace_Props.thy ===== *)
theory Vmir_Replace_Props
  imports Vmir_Replace
begin

text \<open>
  \<open>replace_gep_with_lea\<close> is correct: the moves and LEA instructions put in the place of a GEP compute
  the address its indices mean, whatever the values of the operands are.
\<close>

section \<open>Values of operands\<close>

text \<open>Constants have the value the code generator gives them, registers that of an environment.\<close>

definition operand_val :: "ir_unit \<Rightarrow> (nat \<Rightarrow> u32) \<Rightarrow> ir_valuetype \<Rightarrow> u32 option" where
  "operand_val iu env vt =
     (case vt_at iu vt of
        Inl _ \<Rightarrow> None
      | Inr iv \<Rightarrow>
          if is_operand_reg (iv_class iv) then Some (env (vt_index vt))
          else (case value_get_const32 (iu_tys iu) iv of Inl _ \<Rightarrow> None | Inr c \<Rightarrow> Some c))"

text \<open>What the interpreter does for \<open>LEA_R32_MUL_OFF\<close> and its variants.\<close>

definition lea_val :: "ir_unit \<Rightarrow> (nat \<Rightarrow> u32) \<Rightarrow> ir_valuetype \<Rightarrow> int \<Rightarrow> ir_valuetype \<Rightarrow> int \<Rightarrow> u32 option" where
  "lea_val iu env base im off mul =
     Option.bind (operand_val iu env base) (\<lambda>b.
       if vt_value off = - 1 then Some (b + word_of_int im)
       else Option.bind (operand_val iu env off) (\<lambda>x. Some (b + x * word_of_int mul + word_of_int im)))"

fun exec_ptr :: "ir_unit \<Rightarrow> ir_instr \<Rightarrow> (nat \<Rightarrow> u32) \<Rightarrow> (nat \<Rightarrow> u32) option" where
  "exec_ptr iu (IR_IC_MOVE ii) env =
     map_option (\<lambda>x. env(vt_index (ii_ret (imo_super ii)) := x)) (operand_val iu env (imo_value ii))"
| "exec_ptr iu (IR_IC_LEA ii) env =
     map_option (\<lambda>x. env(vt_index (ii_ret (ile_super ii)) := x))
       (lea_val iu env (ile_baseptr ii) (ile_immediate_offset ii) (ile_value_offset ii) (ile_value_offset_multiply ii))"
| "exec_ptr iu _ env = None"

fun exec_ptrs :: "ir_unit \<Rightarrow> flow_node list \<Rightarrow> (nat \<Rightarrow> u32) \<Rightarrow> (nat \<Rightarrow> u32) option" where
  "exec_ptrs iu [] env = Some env"
| "exec_ptrs iu (nd # nds) env = Option.bind (exec_ptr iu (fn_instr nd) env) (exec_ptrs iu nds)"

lemma exec_ptrs_append: "exec_ptrs iu (xs @ ys) env = Option.bind (exec_ptrs iu xs env) (exec_ptrs iu ys)"
  by (induction xs arbitrary: env) (auto simp: bind_eq_Some_conv split: bind_splits)

text \<open>The reference: the address after each index, by the rules of the LLVM manual.\<close>

definition gep_offset :: "types \<Rightarrow> ir_type \<Rightarrow> u32 \<Rightarrow> u32 option" where
  "gep_offset tys cur x =
     (case cur of
        It_pointer pointee \<Rightarrow> (case type_sizeof tys pointee of Inl _ \<Rightarrow> None | Inr sz \<Rightarrow> Some (x * sz))
      | It_array _ elem \<Rightarrow> (case type_sizeof tys elem of Inl _ \<Rightarrow> None | Inr sz \<Rightarrow> Some (x * sz))
      | It_struct s \<Rightarrow>
          if unat x < length (st_elements s) then map_option word_of_int (snd (st_elements s ! unat x)) else None
      | _ \<Rightarrow> None)"

fun gep_address :: "ir_unit \<Rightarrow> (nat \<Rightarrow> u32) \<Rightarrow> u32 \<Rightarrow> (ir_valuetype \<times> int) list \<Rightarrow> u32 option" where
  "gep_address iu env addr [] = Some addr"
| "gep_address iu env addr ((vt, ty) # ixs) =
     (case type_get (iu_tys iu) (word_of_int ty) of
        Inl _ \<Rightarrow> None
      | Inr cur \<Rightarrow> Option.bind (operand_val iu env vt) (\<lambda>x. Option.bind (gep_offset (iu_tys iu) cur x) (\<lambda>off.
          gep_address iu env (addr + off) ixs)))"

section \<open>Units that grow\<close>

definition unit_grows :: "ir_unit \<Rightarrow> ir_unit \<Rightarrow> bool" where
  "unit_grows iu iu' \<longleftrightarrow> (\<exists>ts. iu_tys iu' = iu_tys iu @ ts) \<and> iu_next_value iu \<le> iu_next_value iu' \<and>
     (\<forall>i < iu_next_value iu. i < length (iu_values iu) \<longrightarrow> i < length (iu_values iu') \<and> iu_values iu' ! i = iu_values iu ! i)"

lemma unit_grows_refl [simp]: "unit_grows iu iu"
  by (simp add: unit_grows_def)

lemma unit_grows_trans: "unit_grows iu iu1 \<Longrightarrow> unit_grows iu1 iu2 \<Longrightarrow> unit_grows iu iu2"
  unfolding unit_grows_def by force

lemma type_get_grows: "type_get tys i = Inr t \<Longrightarrow> type_get (tys @ ts) i = Inr t"
  by (auto simp: type_get_def nth_append split: if_splits)

lemma type_sizeof_ptr_grows:
  "type_sizeof_ptr n tys it = Inr v \<Longrightarrow> type_sizeof_ptr (n + k) (tys @ ts) it = Inr v"
proof (induction n arbitrary: it v)
  case 0
  then show ?case by (cases k; cases it) auto
next
  case (Suc n)
  then show ?case by (cases it) (auto simp: res_simps intro!: type_get_grows)
qed

lemma type_sizeof_grows:
  assumes "type_sizeof tys i = Inr v"
  shows "type_sizeof (tys @ ts) i = Inr v"
proof -
  obtain t where t: "type_get tys i = Inr t" "type_sizeof_ptr (length tys) tys t = Inr v"
    using assms by (auto simp: type_sizeof_def res_simps)
  from type_get_grows [OF t(1)] type_sizeof_ptr_grows [OF t(2), of "length ts" ts] show ?thesis
    by (simp add: type_sizeof_def)
qed

lemma value_get_const32_grows:
  assumes "value_get_const32 tys iv = Inr c"
  shows "value_get_const32 (tys @ ts) iv = Inr c"
proof -
  obtain t where t: "type_get tys (iv_type iv) = Inr t" using assms by (auto simp: value_get_const32_def res_simps)
  from t type_get_grows [OF t, of ts] assms show ?thesis by (simp add: value_get_const32_def)
qed

lemma vt_at_grows:
  assumes "vt_at iu vt = Inr iv" "vt_index vt < iu_next_value iu" "unit_grows iu iu'"
  shows "vt_at iu' vt = Inr iv"
  using assms by (auto simp: vt_at_def value_at_def value_get_def vt_index_def unit_grows_def res_simps split: if_splits)

lemma operand_val_grows:
  assumes "operand_val iu env vt = Some x" "vt_index vt < iu_next_value iu" "unit_grows iu iu'" "\<forall>i < iu_next_value iu. env' i = env i"
  shows "operand_val iu' env' vt = Some x"
proof -
  obtain iv where iv: "vt_at iu vt = Inr iv" using assms(1) by (auto simp: operand_val_def split: sum.splits)
  obtain ts where ts: "iu_tys iu' = iu_tys iu @ ts" using assms(3) by (auto simp: unit_grows_def)
  show ?thesis using vt_at_grows [OF iv assms(2,3)] iv assms(1,2,4) ts
    by (auto simp: operand_val_def value_get_const32_grows split: if_splits sum.splits)
qed

lemma lea_val_grows:
  assumes "lea_val iu env base im off mul = Some x" "vt_index base < iu_next_value iu" "vt_value off = - 1 \<or> vt_index off < iu_next_value iu"
    "unit_grows iu iu'" "\<forall>i < iu_next_value iu. env' i = env i"
  shows "lea_val iu' env' base im off mul = Some x"
  using assms operand_val_grows [OF _ _ assms(4,5)] by (auto simp: lea_val_def bind_eq_Some_conv split: if_splits)

lemma gep_offset_grows: "gep_offset tys cur x = Some off \<Longrightarrow> gep_offset (tys @ ts) cur x = Some off"
  by (auto simp: gep_offset_def type_sizeof_grows split: ir_type.splits sum.splits)

lemma make_pointer_grows:
  assumes "make_pointer ty fl = Inr (p, fl')"
  shows "unit_grows (fl_iu fl) (fl_iu fl')" "fl_bbs fl' = fl_bbs fl" "fl_fresh fl' = fl_fresh fl" "fl_binds fl' = fl_binds fl"
    "iu_next_value (fl_iu fl') = iu_next_value (fl_iu fl)"
  using assms by (auto simp: make_pointer_def type_make_pointer_def unit_grows_def split: option.splits)

text \<open>A new temporary.\<close>

lemma alloc_temporary_grows:
  assumes "value_alloc_temporary iu ty = Inr ((v, ty'), iu')"
  shows "v = iu_next_value iu" "iu_next_value iu' = Suc v" "unit_grows iu iu'" "v < length (iu_values iu')"
    "\<exists>iv. iu_values iu' ! v = Some iv \<and> iv_class iv = Vc_temporary"
proof -
  obtain iu0 iv where a: "value_append iu = Inr (v, iu0)" "iu_values iu0 ! v = Some iv"
    "iu' = set_value iu0 v (iv\<lparr>iv_class := Vc_temporary, iv_precolored := - 1, iv_type := ty\<rparr>)"
    using assms by (auto simp: value_alloc_temporary_def res_simps deref_def split: option.splits)
  have v: "v = iu_next_value iu" "iu_next_value iu0 = Suc v" "v < length (iu_values iu0)" "iu_ts iu0 = iu_ts iu"
    "length (iu_values iu) \<le> length (iu_values iu0)" "\<forall>i < v. i < length (iu_values iu) \<longrightarrow> iu_values iu0 ! i = iu_values iu ! i"
    using a(1) by (auto simp: value_append_def Let_def res_simps set_value_def nth_append split: if_splits)
  show "v = iu_next_value iu" by (rule v(1))
  show "iu_next_value iu' = Suc v" "v < length (iu_values iu')" "\<exists>iv. iu_values iu' ! v = Some iv \<and> iv_class iv = Vc_temporary"
    using v a(3) by (auto simp: set_value_def)
  show "unit_grows iu iu'" unfolding unit_grows_def using v a(3) by (auto simp: set_value_def)
qed

section \<open>Instructions in front of another\<close>

fun fill_nodes :: "nat \<Rightarrow> flow_node list \<Rightarrow> flow_node list \<Rightarrow> flow_node list" where
  "fill_nodes k xs [] = []"
| "fill_nodes k xs (nd # nds) = (if fn_id nd = k then xs @ nd # fill_nodes k xs nds else nd # fill_nodes k xs nds)"

definition fill :: "nat \<Rightarrow> flow_node list \<Rightarrow> flow_bb list \<Rightarrow> flow_bb list" where
  "fill k xs = map (\<lambda>bb. bb\<lparr>fb_nodes := fill_nodes k xs (fb_nodes bb)\<rparr>)"

definition node_ids :: "flow_bb list \<Rightarrow> nat set" where
  "node_ids bbs = fn_id ` (\<Union>bb \<in> set bbs. set (fb_nodes bb))"

lemma fill_nodes_Nil [simp]: "fill_nodes k [] nds = nds"
  by (induction nds) auto

lemma fill_nodes_append [simp]: "fill_nodes k xs (as @ bs) = fill_nodes k xs as @ fill_nodes k xs bs"
  by (induction as) auto

lemma fill_nodes_id: "k \<notin> fn_id ` set nds \<Longrightarrow> fill_nodes k xs nds = nds"
  by (induction nds) auto

lemma fill_Nil [simp]: "fill k [] bbs = bbs"
  by (induction bbs) (simp_all add: fill_def)

lemma fill_nodes_fill: "k \<notin> fn_id ` set xs \<Longrightarrow> fill_nodes k ys (fill_nodes k xs nds) = fill_nodes k (xs @ ys) nds"
  by (induction nds) (simp_all add: fill_nodes_id)

lemma fill_fill: "k \<notin> fn_id ` set xs \<Longrightarrow> fill k ys (fill k xs bbs) = fill k (xs @ ys) bbs"
  by (simp add: fill_def fill_nodes_fill)

text \<open>In front of an instruction that is in front of \<open>k\<close>.\<close>

lemma fill_nodes_last:
  "i \<notin> fn_id ` set xs \<Longrightarrow> i \<notin> fn_id ` set nds \<Longrightarrow> fn_id x = i \<Longrightarrow> i \<noteq> k \<Longrightarrow>
   fill_nodes i ys (fill_nodes k (xs @ [x]) nds) = fill_nodes k (xs @ ys @ [x]) nds"
  by (induction nds) (simp_all add: fill_nodes_id)

lemma fill_last:
  assumes "i \<notin> fn_id ` set xs" "i \<notin> node_ids bbs" "fn_id x = i" "i \<noteq> k"
  shows "fill i ys (fill k (xs @ [x]) bbs) = fill k (xs @ ys @ [x]) bbs"
proof -
  have "fill_nodes i ys (fill_nodes k (xs @ [x]) (fb_nodes bb)) = fill_nodes k (xs @ ys @ [x]) (fb_nodes bb)" if "bb \<in> set bbs" for bb
    by (rule fill_nodes_last) (use assms that in \<open>auto simp: node_ids_def\<close>)
  then show ?thesis by (simp add: fill_def)
qed

lemma set_nodes_last:
  "i \<notin> fn_id ` set xs \<Longrightarrow> i \<notin> fn_id ` set nds \<Longrightarrow> fn_id x = i \<Longrightarrow>
   map (\<lambda>nd. if fn_id nd = i then nd\<lparr>fn_instr := ii\<rparr> else nd) (fill_nodes k (xs @ [x]) nds) = fill_nodes k (xs @ [x\<lparr>fn_instr := ii\<rparr>]) nds"
proof (induction nds)
  case (Cons nd nds)
  have "map (\<lambda>nd. if fn_id nd = i then nd\<lparr>fn_instr := ii\<rparr> else nd) xs = xs" by (rule map_idI) (use Cons.prems(1) in auto)
  then show ?case using Cons by auto
qed simp

lemma set_instr_last:
  assumes "i \<notin> fn_id ` set xs" "i \<notin> node_ids bbs" "fn_id x = i" "fl_bbs fl = fill k (xs @ [x]) bbs"
  shows "fl_bbs (set_instr i ii fl) = fill k (xs @ [x\<lparr>fn_instr := ii\<rparr>]) bbs"
proof -
  have "map (\<lambda>nd. if fn_id nd = i then nd\<lparr>fn_instr := ii\<rparr> else nd) (fill_nodes k (xs @ [x]) (fb_nodes bb)) =
      fill_nodes k (xs @ [x\<lparr>fn_instr := ii\<rparr>]) (fb_nodes bb)" if "bb \<in> set bbs" for bb
    by (rule set_nodes_last) (use assms that in \<open>auto simp: node_ids_def\<close>)
  then show ?thesis using assms(4) by (simp add: set_instr_def update_nodes_def fill_def)
qed

lemma fill_nodes_concat: "concat (map (\<lambda>nd. if fn_id nd = k then [x, nd] else [nd]) nds) = fill_nodes k [x] nds"
  by (induction nds) auto

lemma instr_add_before_fill:
  assumes "instr_add_before ii k fl = (i, fl')"
  shows "i = fl_fresh fl" "fl_bbs fl' = fill k [instr_create i ii] (fl_bbs fl)" "fl_fresh fl' = Suc i" "fl_iu fl' = fl_iu fl"
  using assms by (auto simp: instr_add_before_def update_nodes_def fill_def fill_nodes_concat)

section \<open>Code put in front of an instruction\<close>

definition emits :: "nat \<Rightarrow> flow \<Rightarrow> flow_node list \<Rightarrow> flow \<Rightarrow> bool" where
  "emits k fl ms fl' \<longleftrightarrow> fl_bbs fl' = fill k ms (fl_bbs fl) \<and> unit_grows (fl_iu fl) (fl_iu fl') \<and> fl_fresh fl \<le> fl_fresh fl' \<and>
     fn_id ` set ms \<subseteq> {fl_fresh fl..<fl_fresh fl'}"

definition ids_below :: "flow \<Rightarrow> bool" where
  "ids_below fl \<longleftrightarrow> (\<forall>i \<in> node_ids (fl_bbs fl). i < fl_fresh fl)"

lemma set_fill_nodes: "set (fill_nodes k xs nds) \<subseteq> set nds \<union> set xs"
  by (induction nds) auto

lemma node_ids_fill: "node_ids (fill k xs bbs) \<subseteq> node_ids bbs \<union> fn_id ` set xs"
  using set_fill_nodes by (fastforce simp: node_ids_def fill_def)

lemma emits_ids_below: "emits k fl ms fl' \<Longrightarrow> ids_below fl \<Longrightarrow> ids_below fl'"
  using node_ids_fill [of k ms "fl_bbs fl"] by (force simp: emits_def ids_below_def)

lemma emits_trans:
  assumes "emits k fl ms fl1" "emits k fl1 ms' fl2" "k < fl_fresh fl"
  shows "emits k fl (ms @ ms') fl2"
proof -
  have "k \<notin> fn_id ` set ms" using assms(1,3) by (fastforce simp: emits_def)
  then show ?thesis using assms unit_grows_trans by (fastforce simp: emits_def fill_fill)
qed

definition agree :: "flow \<Rightarrow> (nat \<Rightarrow> u32) \<Rightarrow> (nat \<Rightarrow> u32) \<Rightarrow> bool" where
  "agree fl env env' \<longleftrightarrow> (\<forall>j < iu_next_value (fl_iu fl). env' j = env j)"

lemma next_grows: "unit_grows iu iu' \<Longrightarrow> iu_next_value iu \<le> iu_next_value iu'"
  by (simp add: unit_grows_def)

lemma vt_index_of: "i < 2 ^ 32 \<Longrightarrow> vt_index (vt_of (i, ty)) = i"
  by (simp add: vt_index_def vt_of_def unsigned_of_nat take_bit_nat_eq_self)

lemma operand_val_temporary:
  assumes "iu_values iu ! v = Some iv" "v < length (iu_values iu)" "v < 2 ^ 32" "iv_class iv = Vc_temporary"
  shows "operand_val iu env (vt_of (v, ty)) = Some (env v)"
  using assms vt_index_of [OF assms(3), of ty]
  by (simp add: operand_val_def vt_at_def value_at_def value_get_def deref_def vt_index_def)

lemma add_before_with_ret_emits:
  assumes "add_before_with_ret ty mk k fl = Inr ((i, ret), fl')" "iu_next_value (fl_iu fl') \<le> 2 ^ 32"
  defines "v \<equiv> iu_next_value (fl_iu fl)"
  shows "emits k fl [instr_create i (mk (super_of ret))] fl'" "i = fl_fresh fl" "fl_fresh fl' = Suc i" "vt_index ret = v" "0 \<le> vt_value ret"
    "iu_next_value (fl_iu fl') = Suc v" "unit_grows (fl_iu fl') iu' \<Longrightarrow> operand_val iu' env ret = Some (env v)"
proof -
  obtain w iu where w: "value_alloc_temporary (fl_iu fl) ty = Inr (w, iu)"
    "ret = vt_of w" "i = fl_fresh fl" "fl' = value_bind_instr (fst w) i True (snd (instr_add_before (mk (super_of ret)) k (fl\<lparr>fl_iu := iu\<rparr>)))"
    using assms(1) by (cases "value_alloc_temporary (fl_iu fl) ty") (auto simp: add_before_with_ret_def instr_add_before_def Let_def split: prod.splits)
  obtain ty' where w': "w = (v, ty')" using w(1) alloc_temporary_grows(1) by (cases w) (auto simp: v_def)
  note al = alloc_temporary_grows [OF w(1) [unfolded w']]
  have f: "fl_bbs fl' = fill k [instr_create i (mk (super_of ret))] (fl_bbs fl)" "fl_fresh fl' = Suc i" "fl_iu fl' = iu"
    using w(3,4) by (simp_all add: value_bind_instr_def instr_add_before_def update_nodes_def fill_def fill_nodes_concat)
  have a: "ret = vt_of (v, ty')" "fl_iu fl' = iu" using w(2) w' f by simp_all
  have v: "v < 2 ^ 32" using assms(2) al(2) a(2) by simp
  show i: "i = fl_fresh fl" "fl_fresh fl' = Suc i" using f w(3) by simp_all
  show "emits k fl [instr_create i (mk (super_of ret))] fl'" using f al(3) w(3) by (simp add: emits_def instr_create_def)
  show vr: "vt_index ret = v" "0 \<le> vt_value ret" using vt_index_of [OF v] a(1) by (simp_all add: vt_of_def)
  show "iu_next_value (fl_iu fl') = Suc v" using al(2) a(2) by simp
  assume g: "unit_grows (fl_iu fl') iu'"
  have "operand_val iu env ret = Some (env v)" using operand_val_temporary al(4,5) v a(1) by blast
  from operand_val_grows [OF this, of iu' env] show "operand_val iu' env ret = Some (env v)" using vr(1) al(2) a(2) g by simp
qed

section \<open>Constants into registers\<close>

lemma registerify_cases:
  assumes "registerify k vtp fl = Inr (vt, fl')"
  obtains (reg) "vt = vtp" "fl' = fl"
  | (new) i ty where "add_before_with_ret ty (\<lambda>s. IR_IC_MOVE \<lparr>imo_super = s, imo_value = vtp\<rparr>) k fl = Inr ((i, vt), fl')"
proof -
  obtain iv where "vt_at (fl_iu fl) vtp = Inr iv" using assms by (auto simp: registerify_def res_simps)
  then show thesis using assms reg new by (cases "iv_class iv") (auto simp: registerify_def res_simps)
qed

lemma registerify_emits:
  assumes "registerify k vtp fl = Inr (vt, fl')" "vt_index vtp < iu_next_value (fl_iu fl)" "iu_next_value (fl_iu fl') \<le> 2 ^ 32"
  shows "\<exists>ms. emits k fl ms fl' \<and> vt_index vt < iu_next_value (fl_iu fl') \<and>
    (\<forall>env x iu'. operand_val (fl_iu fl) env vtp = Some x \<longrightarrow> unit_grows (fl_iu fl') iu' \<longrightarrow>
       (\<exists>env'. exec_ptrs iu' ms env = Some env' \<and> agree fl env env' \<and> operand_val iu' env' vt = Some x))"
proof -
  let ?mk = "\<lambda>s. IR_IC_MOVE \<lparr>imo_super = s, imo_value = vtp\<rparr>"
  show ?thesis using assms(1)
  proof (cases rule: registerify_cases)
    case reg
    have "emits k fl [] fl" by (simp add: emits_def)
    moreover have "\<exists>env'. exec_ptrs iu' [] env = Some env' \<and> agree fl env env' \<and> operand_val iu' env' vt = Some x"
      if "operand_val (fl_iu fl) env vtp = Some x" "unit_grows (fl_iu fl') iu'" for env x iu'
      using operand_val_grows [OF that(1) assms(2)] that(2) reg by (simp add: agree_def)
    ultimately show ?thesis using reg assms(2) by blast
  next
    case (new i ty)
    note a = add_before_with_ret_emits [OF new assms(3)]
    let ?m = "instr_create i (?mk (super_of vt))"
    have "\<exists>env'. exec_ptrs iu' [?m] env = Some env' \<and> agree fl env env' \<and> operand_val iu' env' vt = Some x"
      if "operand_val (fl_iu fl) env vtp = Some x" "unit_grows (fl_iu fl') iu'" for env x iu'
    proof -
      have "unit_grows (fl_iu fl) iu'" using a(1) that(2) unit_grows_trans by (auto simp: emits_def)
      from operand_val_grows [OF that(1) assms(2) this, of env]
      have "exec_ptrs iu' [?m] env = Some (env(vt_index vt := x))" by (simp add: instr_create_def super_of_def)
      then show ?thesis using a(4) a(7) [OF that(2)] by (simp add: agree_def)
    qed
    then show ?thesis using a(1,4,6) by (intro exI [of _ "[?m]"]) auto
  qed
qed

text \<open>A LEA in front of \<open>k\<close> and the move that its base pointer may need.\<close>

lemma lea_emits:
  assumes e: "emits k fl [instr_create i (IR_IC_LEA lea)] fl1" and i: "i = fl_fresh fl" "k < i" "ids_below fl"
    and r: "registerify_base i lea fl1 = Inr fl2" and n: "iu_next_value (fl_iu fl2) \<le> 2 ^ 32"
    and base: "vt_index (ile_baseptr lea) < iu_next_value (fl_iu fl)"
    and off: "vt_value (ile_value_offset lea) = - 1 \<or> vt_index (ile_value_offset lea) < iu_next_value (fl_iu fl)"
  shows "\<exists>ms. emits k fl ms fl2 \<and>
    (\<forall>env x iu'. lea_val (fl_iu fl) env (ile_baseptr lea) (ile_immediate_offset lea) (ile_value_offset lea) (ile_value_offset_multiply lea) = Some x \<longrightarrow>
       unit_grows (fl_iu fl2) iu' \<longrightarrow>
       (\<exists>env'. exec_ptrs iu' ms env = Some env' \<and> env' (vt_index (ii_ret (ile_super lea))) = x \<and>
          (\<forall>j < iu_next_value (fl_iu fl). j \<noteq> vt_index (ii_ret (ile_super lea)) \<longrightarrow> env' j = env j)))"
proof -
  obtain b fl3 where b: "registerify i (ile_baseptr lea) fl1 = Inr (b, fl3)" "fl2 = set_instr i (IR_IC_LEA (lea\<lparr>ile_baseptr := b\<rparr>)) fl3"
    using r by (auto simp: registerify_base_def res_simps)
  have f2: "fl_iu fl2 = fl_iu fl3" "fl_fresh fl2 = fl_fresh fl3" using b(2) by (simp_all add: set_instr_def update_nodes_def)
  have g: "unit_grows (fl_iu fl) (fl_iu fl1)" using e by (simp add: emits_def)
  have "vt_index (ile_baseptr lea) < iu_next_value (fl_iu fl1)" using base next_grows [OF g] by simp
  from registerify_emits [OF b(1) this] n f2 obtain ms where m: "emits i fl1 ms fl3"
    "\<And>env x iu'. operand_val (fl_iu fl1) env (ile_baseptr lea) = Some x \<Longrightarrow> unit_grows (fl_iu fl3) iu' \<Longrightarrow>
       \<exists>env'. exec_ptrs iu' ms env = Some env' \<and> agree fl1 env env' \<and> operand_val iu' env' b = Some x" by metis
  let ?lea = "instr_create i (IR_IC_LEA (lea\<lparr>ile_baseptr := b\<rparr>))"
  have i1: "i \<notin> node_ids (fl_bbs fl)" using i(1,3) by (auto simp: ids_below_def)
  have fr: "fl_fresh fl \<le> fl_fresh fl1" "i < fl_fresh fl1" using e i(1) by (auto simp: emits_def instr_create_def)
  have i2: "i \<notin> fn_id ` set ms" using m(1) fr by (fastforce simp: emits_def)
  have "fl_bbs fl3 = fill k (ms @ [instr_create i (IR_IC_LEA lea)]) (fl_bbs fl)"
    using fill_last [of i "[]" "fl_bbs fl" "instr_create i (IR_IC_LEA lea)" k ms] i1 i(2) e m(1) by (simp add: emits_def instr_create_def)
  from set_instr_last [OF i2 i1 _ this] b(2) have "fl_bbs fl2 = fill k (ms @ [?lea]) (fl_bbs fl)" by (simp add: instr_create_def)
  moreover have "unit_grows (fl_iu fl) (fl_iu fl2)" using g m(1) f2 unit_grows_trans by (auto simp: emits_def)
  ultimately have em: "emits k fl (ms @ [?lea]) fl2" using m(1) fr i(1) f2 by (fastforce simp: emits_def instr_create_def)
  have "\<exists>env'. exec_ptrs iu' (ms @ [?lea]) env = Some env' \<and> env' (vt_index (ii_ret (ile_super lea))) = x \<and>
          (\<forall>j < iu_next_value (fl_iu fl). j \<noteq> vt_index (ii_ret (ile_super lea)) \<longrightarrow> env' j = env j)"
    if l: "lea_val (fl_iu fl) env (ile_baseptr lea) (ile_immediate_offset lea) (ile_value_offset lea) (ile_value_offset_multiply lea) = Some x"
      and gr: "unit_grows (fl_iu fl2) iu'" for env x iu'
  proof -
    obtain y where y: "operand_val (fl_iu fl) env (ile_baseptr lea) = Some y" using l by (auto simp: lea_val_def bind_eq_Some_conv)
    from m(2) [OF operand_val_grows [OF y base g], of env iu'] gr f2 obtain env1 where
      e1: "exec_ptrs iu' ms env = Some env1" "agree fl1 env env1" "operand_val iu' env1 b = Some y" by auto
    have ag: "\<forall>j < iu_next_value (fl_iu fl). env1 j = env j" using e1(2) next_grows [OF g] by (simp add: agree_def)
    have gi: "unit_grows (fl_iu fl) iu'" using em gr unit_grows_trans by (auto simp: emits_def)
    from lea_val_grows [OF l base off gi ag] e1(3) operand_val_grows [OF y base gi ag]
    have "lea_val iu' env1 b (ile_immediate_offset lea) (ile_value_offset lea) (ile_value_offset_multiply lea) = Some x"
      by (simp add: lea_val_def)
    then show ?thesis using e1(1) ag by (auto simp: exec_ptrs_append instr_create_def)
  qed
  then show ?thesis using em by blast
qed

section \<open>The loop over the indices\<close>

lemma add_before_with_ret_grows: "add_before_with_ret ty mk k fl = Inr (r, fl') \<Longrightarrow> unit_grows (fl_iu fl) (fl_iu fl')"
  by (auto simp: add_before_with_ret_def res_simps instr_add_before_def update_nodes_def value_bind_instr_def
      split: prod.splits dest!: alloc_temporary_grows(3))

lemma registerify_grows: "registerify k vt fl = Inr (vt', fl') \<Longrightarrow> unit_grows (fl_iu fl) (fl_iu fl')"
  by (erule registerify_cases) (auto dest: add_before_with_ret_grows)

lemma registerify_base_grows: "registerify_base k lea fl = Inr fl' \<Longrightarrow> unit_grows (fl_iu fl) (fl_iu fl')"
  by (auto simp: registerify_base_def res_simps set_instr_def update_nodes_def dest!: registerify_grows)

lemma emit_interim_lea_grows:
  assumes "emit_interim_lea g k ty fl = Inr (vt, fl')"
  shows "unit_grows (fl_iu fl) (fl_iu fl')"
proof -
  obtain p fl1 i fl2 where "make_pointer ty fl = Inr (p, fl1)" "add_before_with_ret p (\<lambda>s. IR_IC_LEA (lea_of (g\<lparr>gs_immediate_offset := 0\<rparr>) s)) k fl1 = Inr ((i, vt), fl2)"
    "registerify_base i (lea_of (g\<lparr>gs_immediate_offset := 0\<rparr>) (super_of vt)) fl2 = Inr fl'"
    using assms by (auto simp: emit_interim_lea_def res_simps Let_def)
  then show ?thesis using make_pointer_grows(1) add_before_with_ret_grows registerify_base_grows unit_grows_trans by meson
qed

text \<open>What a turn of the loop that succeeds has done.\<close>

lemma gep_index_cases:
  assumes "gep_index k (g, fl) (vt, ty) = Inr (g', fl')"
  obtains (scaled) cur op elem where "type_get (iu_tys (fl_iu fl)) (word_of_int ty) = Inr cur" "vt_at (fl_iu fl) vt = Inr op"
      "cur = It_pointer elem \<or> (\<exists>n. cur = It_array n elem)" "is_constant (iv_class op)" "gep_scaled (fl_iu fl) op elem g = Inr g'" "fl' = fl"
  | (variable) cur op elem where "type_get (iu_tys (fl_iu fl)) (word_of_int ty) = Inr cur" "vt_at (fl_iu fl) vt = Inr op"
      "cur = It_pointer elem \<or> (\<exists>n. cur = It_array n elem)" "is_operand_reg (iv_class op)" "vt_value (gs_value_offset g) = - 1"
      "gep_variable (fl_iu fl) vt elem g = Inr g'" "fl' = fl"
  | (field) s op where "type_get (iu_tys (fl_iu fl)) (word_of_int ty) = Inr (It_struct s)" "vt_at (fl_iu fl) vt = Inr op"
      "is_constant (iv_class op)" "gep_field (fl_iu fl) op s g = Inr g'" "fl' = fl"
  | (interim) n elem op b where "type_get (iu_tys (fl_iu fl)) (word_of_int ty) = Inr (It_array n elem)" "vt_at (fl_iu fl) vt = Inr op"
      "is_operand_reg (iv_class op)" "emit_interim_lea g k (word_of_int ty) fl = Inr (b, fl')"
      "gep_variable (fl_iu fl') vt elem (g\<lparr>gs_baseptr := b\<rparr>) = Inr g'"
proof -
  obtain cur op where co: "type_get (iu_tys (fl_iu fl)) (word_of_int ty) = Inr cur" "vt_at (fl_iu fl) vt = Inr op"
    using assms by (auto simp: gep_index_def Let_def res_simps)
  note u = assms [unfolded gep_index_def Let_def case_prod_conv co res_bind_simps]
  show thesis
  proof (cases cur)
    case (It_pointer e)
    show ?thesis
    proof (cases "is_constant (iv_class op)")
      case True
      with u It_pointer show ?thesis by (intro scaled [OF co, of e]) (auto simp: res_simps)
    next
      case False
      with u It_pointer show ?thesis by (intro variable [OF co, of e]) (auto simp: res_simps split: if_splits)
    qed
  next
    case (It_struct s)
    with u co show ?thesis by (intro field [of s op]) (auto simp: res_simps split: if_splits)
  next
    case (It_array n e)
    consider "is_constant (iv_class op)" | "\<not> is_constant (iv_class op)" "vt_value (gs_value_offset g) = - 1"
      | "\<not> is_constant (iv_class op)" "vt_value (gs_value_offset g) \<noteq> - 1" by blast
    then show ?thesis
    proof cases
      case 1
      with u It_array show ?thesis by (intro scaled [OF co, of e]) (auto simp: res_simps)
    next
      case 2
      with u It_array show ?thesis by (intro variable [OF co, of e]) (auto simp: res_simps split: if_splits)
    next
      case 3
      with u It_array obtain b where "is_operand_reg (iv_class op)" "emit_interim_lea g k (word_of_int ty) fl = Inr (b, fl')"
        "gep_variable (fl_iu fl') vt e (g\<lparr>gs_baseptr := b\<rparr>) = Inr g'" by (auto simp: res_simps split: if_splits)
      with It_array co show ?thesis by (intro interim [of n e op b]) auto
    qed
  qed (use u in auto)
qed

lemma gep_index_grows:
  assumes "gep_index k (g, fl) ix = Inr (g', fl')"
  shows "unit_grows (fl_iu fl) (fl_iu fl')"
proof (cases ix)
  case (Pair vt ty)
  show ?thesis using assms unfolding Pair by (cases rule: gep_index_cases) (auto dest: emit_interim_lea_grows)
qed

abbreviation gs_val :: "ir_unit \<Rightarrow> (nat \<Rightarrow> u32) \<Rightarrow> gep_state \<Rightarrow> u32 option" where
  "gs_val iu env g \<equiv> lea_val iu env (gs_baseptr g) (gs_immediate_offset g) (gs_value_offset g) (gs_value_offset_multiply g)"

lemma gs_val_add:
  assumes "gs_val iu env g = Some a" "word_of_int im = word_of_int (gs_immediate_offset g) + (d :: u32)"
  shows "gs_val iu env (g\<lparr>gs_immediate_offset := im\<rparr>) = Some (a + d)"
  using assms by (auto simp: lea_val_def bind_eq_Some_conv split: if_splits)

lemma constant_operand:
  "vt_at iu vt = Inr op \<Longrightarrow> is_constant (iv_class op) \<Longrightarrow> value_get_const32 (iu_tys iu) op = Inr c \<Longrightarrow> operand_val iu env vt = Some c"
  by (cases "iv_class op") (auto simp: operand_val_def)

lemma register_operand: "vt_at iu vt = Inr op \<Longrightarrow> is_operand_reg (iv_class op) \<Longrightarrow> operand_val iu env vt = Some (env (vt_index vt))"
  by (auto simp: operand_val_def)

text \<open>
  After some indices, the state stands for the address they lead to, given what has been emitted.
\<close>

definition gep_inv :: "nat \<Rightarrow> flow \<Rightarrow> ir_valuetype \<Rightarrow> (ir_valuetype \<times> int) list \<Rightarrow> gep_state \<Rightarrow> flow \<Rightarrow> flow_node list \<Rightarrow> bool" where
  "gep_inv k fl0 base ixs g fl new \<longleftrightarrow> emits k fl0 new fl \<and> vt_index (gs_baseptr g) < iu_next_value (fl_iu fl) \<and>
     (vt_value (gs_value_offset g) = - 1 \<or> vt_index (gs_value_offset g) < iu_next_value (fl_iu fl0)) \<and>
     (\<forall>env b iu'. operand_val (fl_iu fl0) env base = Some b \<longrightarrow> unit_grows (fl_iu fl) iu' \<longrightarrow>
        (\<exists>a env'. gep_address iu' env b ixs = Some a \<and> exec_ptrs iu' new env = Some env' \<and> agree fl0 env env' \<and> gs_val (fl_iu fl) env' g = Some a))"

lemma gep_address_snoc:
  assumes "gep_address iu env b ixs = Some a" "type_get (iu_tys iu) (word_of_int ty) = Inr cur" "operand_val iu env vt = Some x"
    "gep_offset (iu_tys iu) cur x = Some d"
  shows "gep_address iu env b (ixs @ [(vt, ty)]) = Some (a + d)"
  using assms by (induction ixs arbitrary: b) (auto split: sum.splits simp: bind_eq_Some_conv)

text \<open>An index that only changes the offset.\<close>

lemma gep_inv_step:
  assumes inv: "gep_inv k fl0 base ixs g fl new"
    and ty: "type_get (iu_tys (fl_iu fl)) (word_of_int ty) = Inr cur" and vt: "vt_index vt < iu_next_value (fl_iu fl0)"
    and x: "\<And>env. operand_val (fl_iu fl) env vt = Some (x env)"
    and d: "\<And>env. gep_offset (iu_tys (fl_iu fl)) cur (x env) = Some (d env)"
    and g': "gs_baseptr g' = gs_baseptr g" "vt_value (gs_value_offset g') = - 1 \<or> vt_index (gs_value_offset g') < iu_next_value (fl_iu fl0)"
    and v: "\<And>env env' a. agree fl0 env env' \<Longrightarrow> gs_val (fl_iu fl) env' g = Some a \<Longrightarrow> gs_val (fl_iu fl) env' g' = Some (a + d env)"
  shows "gep_inv k fl0 base (ixs @ [(vt, ty)]) g' fl new"
  unfolding gep_inv_def
proof (intro conjI allI impI)
  show "emits k fl0 new fl" "vt_index (gs_baseptr g') < iu_next_value (fl_iu fl)"
    "vt_value (gs_value_offset g') = - 1 \<or> vt_index (gs_value_offset g') < iu_next_value (fl_iu fl0)" using inv g' by (simp_all add: gep_inv_def)
  fix env b iu' assume b: "operand_val (fl_iu fl0) env base = Some b" "unit_grows (fl_iu fl) iu'"
  from inv b obtain a env' where a: "gep_address iu' env b ixs = Some a" "exec_ptrs iu' new env = Some env'" "agree fl0 env env'" "gs_val (fl_iu fl) env' g = Some a"
    unfolding gep_inv_def by blast
  have g0: "unit_grows (fl_iu fl0) (fl_iu fl)" using inv by (simp add: gep_inv_def emits_def)
  obtain ts where ts: "iu_tys iu' = iu_tys (fl_iu fl) @ ts" using b(2) by (auto simp: unit_grows_def)
  have "operand_val iu' env vt = Some (x env)" using operand_val_grows [OF x _ b(2)] vt next_grows [OF g0] by fastforce
  from gep_address_snoc [OF a(1) _ this] ty d ts have "gep_address iu' env b (ixs @ [(vt, ty)]) = Some (a + d env)"
    by (simp add: type_get_grows gep_offset_grows)
  with a(2,3) v [OF a(3,4)]
  show "\<exists>a env'. gep_address iu' env b (ixs @ [(vt, ty)]) = Some a \<and> exec_ptrs iu' new env = Some env' \<and> agree fl0 env env' \<and> gs_val (fl_iu fl) env' g' = Some a"
    by blast
qed

text \<open>What has been collected goes into a temporary.\<close>

lemma gep_inv_interim:
  assumes inv: "gep_inv k fl0 base ixs g fl new" and e: "emit_interim_lea g k ty fl = Inr (vt, fl')"
    and n: "iu_next_value (fl_iu fl') \<le> 2 ^ 32" and k: "k < fl_fresh fl0" "ids_below fl0"
  shows "\<exists>new'. gep_inv k fl0 base ixs (g\<lparr>gs_baseptr := vt, gs_value_offset := \<lparr>vt_value = - 1, vt_type = - 1\<rparr>\<rparr>) fl' new'"
proof -
  let ?l = "\<lambda>s. lea_of (g\<lparr>gs_immediate_offset := 0\<rparr>) s"
  obtain p fl1 i fl2 where o: "make_pointer ty fl = Inr (p, fl1)" "add_before_with_ret p (\<lambda>s. IR_IC_LEA (?l s)) k fl1 = Inr ((i, vt), fl2)"
    "registerify_base i (?l (super_of vt)) fl2 = Inr fl'"
    using e by (auto simp: emit_interim_lea_def res_simps Let_def)
  note p = make_pointer_grows [OF o(1)]
  have n2: "iu_next_value (fl_iu fl2) \<le> 2 ^ 32" using n next_grows [OF registerify_base_grows [OF o(3)]] by simp
  note w = add_before_with_ret_emits [OF o(2) n2]
  have em: "emits k fl0 new fl" and gb: "vt_index (gs_baseptr g) < iu_next_value (fl_iu fl)"
    and go: "vt_value (gs_value_offset g) = - 1 \<or> vt_index (gs_value_offset g) < iu_next_value (fl_iu fl0)" using inv by (simp_all add: gep_inv_def)
  have g0: "unit_grows (fl_iu fl0) (fl_iu fl)" using em by (simp add: emits_def)
  have e1: "emits k fl0 new fl1" using em p unit_grows_trans by (auto simp: emits_def)
  have kf: "k < fl_fresh fl1" using e1 k(1) by (auto simp: emits_def)
  have ids: "ids_below fl1" using emits_ids_below [OF e1 k(2)] .
  have "\<exists>ms. emits k fl1 ms fl' \<and>
    (\<forall>env x iu'. gs_val (fl_iu fl1) env (g\<lparr>gs_immediate_offset := 0\<rparr>) = Some x \<longrightarrow> unit_grows (fl_iu fl') iu' \<longrightarrow>
       (\<exists>env'. exec_ptrs iu' ms env = Some env' \<and> env' (vt_index vt) = x \<and>
          (\<forall>j < iu_next_value (fl_iu fl1). j \<noteq> vt_index vt \<longrightarrow> env' j = env j)))"
    using lea_emits [OF w(1,2) _ ids o(3) n] kf w(2) gb go next_grows [OF g0] p(5) by (fastforce simp: lea_of_def super_of_def)
  then obtain ms where ms: "emits k fl1 ms fl'"
    "\<And>env x iu'. gs_val (fl_iu fl1) env (g\<lparr>gs_immediate_offset := 0\<rparr>) = Some x \<Longrightarrow> unit_grows (fl_iu fl') iu' \<Longrightarrow>
       \<exists>env'. exec_ptrs iu' ms env = Some env' \<and> env' (vt_index vt) = x \<and> (\<forall>j < iu_next_value (fl_iu fl1). j \<noteq> vt_index vt \<longrightarrow> env' j = env j)" by blast
  have em': "emits k fl0 (new @ ms) fl'" by (rule emits_trans [OF e1 ms(1) k(1)])
  have g2: "unit_grows (fl_iu fl2) (fl_iu fl')" using o(3) by (rule registerify_base_grows)
  have vb: "vt_index vt < iu_next_value (fl_iu fl')" using w(4,6) next_grows [OF g2] by simp
  have g1': "unit_grows (fl_iu fl) (fl_iu fl')" using p(1) ms(1) unit_grows_trans by (auto simp: emits_def)
  have "\<exists>a env'. gep_address iu' env b ixs = Some a \<and> exec_ptrs iu' (new @ ms) env = Some env' \<and> agree fl0 env env' \<and>
      gs_val (fl_iu fl') env' (g\<lparr>gs_baseptr := vt, gs_value_offset := \<lparr>vt_value = - 1, vt_type = - 1\<rparr>\<rparr>) = Some a"
    if b: "operand_val (fl_iu fl0) env base = Some b" "unit_grows (fl_iu fl') iu'" for env b iu'
  proof -
    obtain a0 env0 where a0: "gep_address iu' env b ixs = Some a0" "exec_ptrs iu' new env = Some env0" "agree fl0 env env0" "gs_val (fl_iu fl) env0 g = Some a0"
      using inv b unit_grows_trans [OF g1' b(2)] unfolding gep_inv_def by blast
    have "gs_val (fl_iu fl1) env0 g = Some a0"
      by (rule lea_val_grows [OF a0(4) gb _ p(1)]) (use go next_grows [OF g0] in auto)
    then have "gs_val (fl_iu fl1) env0 (g\<lparr>gs_immediate_offset := 0\<rparr>) = Some (a0 - word_of_int (gs_immediate_offset g))"
      by (auto simp: lea_val_def bind_eq_Some_conv split: if_splits)
    from ms(2) [OF this b(2)] obtain env1 where e1: "exec_ptrs iu' ms env0 = Some env1" "env1 (vt_index vt) = a0 - word_of_int (gs_immediate_offset g)"
      "\<forall>j < iu_next_value (fl_iu fl1). j \<noteq> vt_index vt \<longrightarrow> env1 j = env0 j" by blast
    have "agree fl0 env env1" using a0(3) e1(3) w(4) p(5) next_grows [OF g0] by (auto simp: agree_def)
    moreover have "operand_val (fl_iu fl') env1 vt = Some (a0 - word_of_int (gs_immediate_offset g))" using w(4) w(7) [OF g2] e1(2) by simp
    ultimately show ?thesis using a0(1,2) e1(1) by (simp add: exec_ptrs_append lea_val_def)
  qed
  then show ?thesis unfolding gep_inv_def using em' vb by (intro exI [of _ "new @ ms"]) auto
qed

lemma gep_scaled_val:
  assumes "gep_scaled iu op elem g = Inr g'" "vt_at iu vt = Inr op" "is_constant (iv_class op)" "cur = It_pointer elem \<or> (\<exists>n. cur = It_array n elem)"
  obtains x d where "\<And>env. operand_val iu env vt = Some x" "gep_offset (iu_tys iu) cur x = Some d"
    "gs_baseptr g' = gs_baseptr g" "gs_value_offset g' = gs_value_offset g" "\<And>env a. gs_val iu env g = Some a \<Longrightarrow> gs_val iu env g' = Some (a + d)"
proof -
  obtain c sz where c: "value_get_const32 (iu_tys iu) op = Inr c" "type_sizeof (iu_tys iu) elem = Inr sz"
    "g' = g\<lparr>gs_immediate_offset := sint (word_of_int (gs_immediate_offset g) + c * sz :: u32)\<rparr>"
    using assms(1) by (auto simp: gep_scaled_def res_simps)
  have "gs_val iu env g' = Some (a + c * sz)" if "gs_val iu env g = Some a" for env a
    unfolding c(3) by (rule gs_val_add [OF that]) simp
  then show thesis using that [of c "c * sz"] constant_operand [OF assms(2,3) c(1)] c(2,3) assms(4) by (auto simp: gep_offset_def)
qed

lemma gep_field_val:
  assumes "gep_field iu op s g = Inr g'" "vt_at iu vt = Inr op" "is_constant (iv_class op)"
  obtains x d where "\<And>env. operand_val iu env vt = Some x" "gep_offset (iu_tys iu) (It_struct s) x = Some d"
    "gs_baseptr g' = gs_baseptr g" "gs_value_offset g' = gs_value_offset g" "\<And>env a. gs_val iu env g = Some a \<Longrightarrow> gs_val iu env g' = Some (a + d)"
proof -
  obtain c off im where c: "value_get_const32 (iu_tys iu) op = Inr c" "0 \<le> sint c" "sint c < int (length (st_elements s))"
    "snd (st_elements s ! nat (sint c)) = Some off" "add_int (gs_immediate_offset g) off = Inr im" "g' = g\<lparr>gs_immediate_offset := im\<rparr>"
    using assms(1) by (auto simp: gep_field_def Let_def res_simps split: if_splits option.splits)
  have n: "nat (sint c) = unat c"
  proof -
    have "uint c = sint c" using c(2) by (rule uint_of_sint)
    then show ?thesis by (metis unat_eq_nat_uint)
  qed
  have im: "im = gs_immediate_offset g + off" using c(5) by (auto simp: add_int_def c_int_def split: option.splits if_splits)
  have "gs_val iu env g' = Some (a + word_of_int off)" if "gs_val iu env g = Some a" for env a
    unfolding c(6) by (rule gs_val_add [OF that]) (simp add: im)
  then show thesis using that [of c "word_of_int off"] constant_operand [OF assms(2,3) c(1)] c(2-4,6) n by (auto simp: gep_offset_def)
qed

lemma gep_variable_val:
  assumes "gep_variable iu vt elem g = Inr g'" "vt_value (gs_value_offset g) = - 1" "vt_value vt \<noteq> - 1"
    "\<And>env. operand_val iu env vt = Some (env (vt_index vt))" "cur = It_pointer elem \<or> (\<exists>n. cur = It_array n elem)"
  obtains sz where "\<And>x. gep_offset (iu_tys iu) cur x = Some (x * sz)" "gs_baseptr g' = gs_baseptr g" "gs_value_offset g' = vt"
    "\<And>env a. gs_val iu env g = Some a \<Longrightarrow> gs_val iu env g' = Some (a + env (vt_index vt) * sz)"
proof -
  obtain sz where z: "type_sizeof (iu_tys iu) elem = Inr sz" "g' = g\<lparr>gs_value_offset := vt, gs_value_offset_multiply := sint sz\<rparr>"
    using assms(1) by (auto simp: gep_variable_def res_simps)
  have "gs_val iu env g' = Some (a + env (vt_index vt) * sz)" if "gs_val iu env g = Some a" for env a
    using that assms(2-4) by (auto simp: z(2) lea_val_def bind_eq_Some_conv)
  then show thesis using that [of sz] z assms(5) by (auto simp: gep_offset_def)
qed

definition gep_operand :: "flow \<Rightarrow> ir_valuetype \<Rightarrow> bool" where
  "gep_operand fl vt \<longleftrightarrow> vt_value vt \<noteq> - 1 \<and> vt_index vt < iu_next_value (fl_iu fl)"

lemma gep_index_step:
  assumes inv: "gep_inv k fl0 base ixs g fl new" and s: "gep_index k (g, fl) (vt, ty) = Inr (g', fl')"
    and vt: "gep_operand fl0 vt" and n: "iu_next_value (fl_iu fl') \<le> 2 ^ 32" and k: "k < fl_fresh fl0" "ids_below fl0"
  shows "\<exists>new'. gep_inv k fl0 base (ixs @ [(vt, ty)]) g' fl' new'"
proof -
  have g0: "unit_grows (fl_iu fl0) (fl_iu fl)" and go: "vt_value (gs_value_offset g) = - 1 \<or> vt_index (gs_value_offset g) < iu_next_value (fl_iu fl0)"
    using inv by (simp_all add: gep_inv_def emits_def)
  have v: "vt_value vt \<noteq> - 1" "vt_index vt < iu_next_value (fl_iu fl0)" using vt by (simp_all add: gep_operand_def)
  show ?thesis using s
  proof (cases rule: gep_index_cases)
    case (scaled cur op elem)
    from gep_scaled_val [OF scaled(5,2,4,3)] obtain x d where d: "\<And>env. operand_val (fl_iu fl) env vt = Some x" "gep_offset (iu_tys (fl_iu fl)) cur x = Some d"
      "gs_baseptr g' = gs_baseptr g" "gs_value_offset g' = gs_value_offset g" "\<And>env a. gs_val (fl_iu fl) env g = Some a \<Longrightarrow> gs_val (fl_iu fl) env g' = Some (a + d)" by blast
    have "gep_inv k fl0 base (ixs @ [(vt, ty)]) g' fl new"
      by (rule gep_inv_step [OF inv scaled(1) v(2), of "\<lambda>_. x" "\<lambda>_. d"]) (use d go in auto)
    then show ?thesis using scaled(6) by blast
  next
    case (variable cur op elem)
    note rv = register_operand [OF variable(2,4)]
    from gep_variable_val [OF variable(6,5) v(1) rv variable(3)] obtain sz where d: "\<And>x. gep_offset (iu_tys (fl_iu fl)) cur x = Some (x * sz)"
      "gs_baseptr g' = gs_baseptr g" "gs_value_offset g' = vt" "\<And>env a. gs_val (fl_iu fl) env g = Some a \<Longrightarrow> gs_val (fl_iu fl) env g' = Some (a + env (vt_index vt) * sz)" by blast
    have "gep_inv k fl0 base (ixs @ [(vt, ty)]) g' fl new"
    proof (rule gep_inv_step [OF inv variable(1) v(2), of "\<lambda>env. env (vt_index vt)" "\<lambda>env. env (vt_index vt) * sz"])
      fix env env' a assume "agree fl0 env env'" "gs_val (fl_iu fl) env' g = Some a"
      then show "gs_val (fl_iu fl) env' g' = Some (a + env (vt_index vt) * sz)" using d(4) v(2) by (simp add: agree_def)
    qed (use d rv v in auto)
    then show ?thesis using variable(7) by blast
  next
    case (field s op)
    from gep_field_val [OF field(4,2,3)] obtain x d where d: "\<And>env. operand_val (fl_iu fl) env vt = Some x" "gep_offset (iu_tys (fl_iu fl)) (It_struct s) x = Some d"
      "gs_baseptr g' = gs_baseptr g" "gs_value_offset g' = gs_value_offset g" "\<And>env a. gs_val (fl_iu fl) env g = Some a \<Longrightarrow> gs_val (fl_iu fl) env g' = Some (a + d)" by blast
    have "gep_inv k fl0 base (ixs @ [(vt, ty)]) g' fl new"
      by (rule gep_inv_step [OF inv field(1) v(2), of "\<lambda>_. x" "\<lambda>_. d"]) (use d go in auto)
    then show ?thesis using field(5) by blast
  next
    case (interim m elem op b)
    let ?g = "g\<lparr>gs_baseptr := b, gs_value_offset := \<lparr>vt_value = - 1, vt_type = - 1\<rparr>\<rparr>"
    obtain new' where i: "gep_inv k fl0 base ixs ?g fl' new'" using gep_inv_interim [OF inv interim(4) n k] by blast
    have gr: "unit_grows (fl_iu fl) (fl_iu fl')" using interim(4) by (rule emit_interim_lea_grows)
    have nv: "vt_index vt < iu_next_value (fl_iu fl)" using v(2) next_grows [OF g0] by simp
    have rv: "operand_val (fl_iu fl') env vt = Some (env (vt_index vt))" for env
      using register_operand [OF vt_at_grows [OF interim(2) nv gr] interim(3)] .
    have ty: "type_get (iu_tys (fl_iu fl')) (word_of_int ty) = Inr (It_array m elem)" using interim(1) gr by (auto simp: unit_grows_def type_get_grows)
    have gv: "gep_variable (fl_iu fl') vt elem ?g = Inr g'" using interim(5) by (simp add: gep_variable_def)
    from gep_variable_val [OF gv _ v(1) rv, of "It_array m elem"] obtain sz where d: "\<And>x. gep_offset (iu_tys (fl_iu fl')) (It_array m elem) x = Some (x * sz)"
      "gs_baseptr g' = gs_baseptr ?g" "gs_value_offset g' = vt" "\<And>env a. gs_val (fl_iu fl') env ?g = Some a \<Longrightarrow> gs_val (fl_iu fl') env g' = Some (a + env (vt_index vt) * sz)" by auto
    have "gep_inv k fl0 base (ixs @ [(vt, ty)]) g' fl' new'"
    proof (rule gep_inv_step [OF i ty v(2), of "\<lambda>env. env (vt_index vt)" "\<lambda>env. env (vt_index vt) * sz"])
      fix env env' a assume "agree fl0 env env'" "gs_val (fl_iu fl') env' ?g = Some a"
      then show "gs_val (fl_iu fl') env' g' = Some (a + env (vt_index vt) * sz)" using d(4) v(2) by (simp add: agree_def)
    qed (use d rv v in auto)
    then show ?thesis by blast
  qed
qed

lemma gep_fold:
  assumes "res_fold (gep_index k) (gep_start ii, fl) ixs = Inr (g, fl')" "\<forall>vt \<in> fst ` set ixs. gep_operand fl vt"
    "gep_operand fl (igp_baseptr ii)" "iu_next_value (fl_iu fl') \<le> 2 ^ 32" "k < fl_fresh fl" "ids_below fl"
  shows "\<exists>new. gep_inv k fl (igp_baseptr ii) ixs g fl' new"
  using assms
proof (induction ixs arbitrary: g fl' rule: rev_induct)
  case Nil
  have "gep_inv k fl (igp_baseptr ii) [] (gep_start ii) fl []"
    using Nil(3) by (simp add: gep_inv_def gep_start_def emits_def agree_def gep_operand_def lea_val_def)
  then show ?case using Nil(1) by auto
next
  case (snoc ix ixs)
  obtain g1 fl1 where r: "res_fold (gep_index k) (gep_start ii, fl) ixs = Inr (g1, fl1)" "gep_index k (g1, fl1) ix = Inr (g, fl')"
    using snoc.prems(1) by (auto simp: res_fold_append res_simps)
  have "iu_next_value (fl_iu fl1) \<le> 2 ^ 32" using next_grows [OF gep_index_grows [OF r(2)]] snoc.prems(4) by simp
  then obtain new where i: "gep_inv k fl (igp_baseptr ii) ixs g1 fl1 new" using snoc.IH [OF r(1)] snoc.prems by auto
  obtain vt ty where ix: "ix = (vt, ty)" by (cases ix)
  show ?case using gep_index_step [OF i r(2) [unfolded ix] _ snoc.prems(4-6)] snoc.prems(2) by (auto simp: ix)
qed

section \<open>The whole replacement\<close>

definition subst_node :: "nat \<Rightarrow> flow_node list \<Rightarrow> flow_bb list \<Rightarrow> flow_bb list" where
  "subst_node k xs = map (\<lambda>bb. bb\<lparr>fb_nodes := concat (map (\<lambda>nd. if fn_id nd = k then xs else [nd]) (fb_nodes bb))\<rparr>)"

lemma destroy_filled:
  assumes "k \<notin> fn_id ` set xs" "fl_bbs fl = fill k xs bbs"
  shows "fl_bbs (instr_destroy k fl) = subst_node k xs bbs"
proof -
  have *: "filter (\<lambda>nd. fn_id nd \<noteq> k) xs = xs" using assms(1) by (intro filter_True) auto
  have "filter (\<lambda>nd. fn_id nd \<noteq> k) (fill_nodes k xs nds) = concat (map (\<lambda>nd. if fn_id nd = k then xs else [nd]) nds)" for nds
    by (induction nds) (simp_all add: *)
  then show ?thesis using assms(2) by (simp add: instr_destroy_def instr_bind_clear_def update_nodes_def fill_def subst_node_def)
qed

text \<open>
  C3. \<open>replace_gep_with_lea\<close> is correct. When it accepts a GEP, the moves and LEA instructions that stand
  in its place leave in the result of the GEP the address that the rules of LLVM give for its base and
  indices, modulo \<open>2\<^sup>3\<^sup>2\<close>: the size of the element times the index for pointers and arrays, the
  offset of the field for structures. No other value that existed before changes, and the other
  instructions of the function are as they were. This holds for any number of indices that are constants or
  registers, in whatever order, so also where an intermediate address needs a temporary of its own.
\<close>

theorem replace_gep_with_lea_address:
  assumes r: "replace_gep_with_lea k ii fl = Inr (j, fl')" and k: "k < fl_fresh fl" "ids_below fl"
    and o: "\<forall>vt \<in> set (igp_baseptr ii # map fst (igp_indicies ii)). gep_operand fl vt" and n: "iu_next_value (fl_iu fl') \<le> 2 ^ 32"
  shows "\<exists>new. fl_bbs fl' = subst_node k new (fl_bbs fl) \<and>
    (\<forall>env b. operand_val (fl_iu fl) env (igp_baseptr ii) = Some b \<longrightarrow>
       (\<exists>env'. exec_ptrs (fl_iu fl') new env = Some env' \<and>
          gep_address (fl_iu fl') env b (igp_indicies ii) = Some (env' (vt_index (ii_ret (igp_super ii)))) \<and>
          (\<forall>v < iu_next_value (fl_iu fl). v \<noteq> vt_index (ii_ret (igp_super ii)) \<longrightarrow> env' v = env v)))"
proof -
  define s where "s = super_of (ii_ret (igp_super ii))"
  obtain g fl1 where f: "res_fold (gep_index k) (gep_start ii, fl) (igp_indicies ii) = Inr (g, fl1)"
    using r by (auto simp: replace_gep_with_lea_def res_simps)
  obtain i fl2 where a: "instr_add_before (IR_IC_LEA (lea_of g s)) k fl1 = (i, fl2)" by fastforce
  obtain fl3 fl4 where b: "value_bind_return_value (ii_ret s) i fl2 = Inr fl3" "registerify_base i (lea_of g s) fl3 = Inr fl4" "fl' = instr_destroy k fl4"
    using r f a by (auto simp: replace_gep_with_lea_def res_simps s_def Let_def)
  note add = instr_add_before_fill [OF a]
  have f3: "fl_bbs fl3 = fl_bbs fl2" "fl_iu fl3 = fl_iu fl2" "fl_fresh fl3 = fl_fresh fl2"
    using b(1) by (auto simp: value_bind_return_value_def value_bind_instr_def res_simps)
  have f4: "fl_iu fl' = fl_iu fl4" "fl_fresh fl' = fl_fresh fl4" using b(3) by (simp_all add: instr_destroy_def instr_bind_clear_def update_nodes_def)
  have g3: "unit_grows (fl_iu fl3) (fl_iu fl4)" using b(2) by (rule registerify_base_grows)
  have n1: "iu_next_value (fl_iu fl1) \<le> 2 ^ 32" using next_grows [OF g3] n f3 f4 add(4) by simp
  obtain new where inv: "gep_inv k fl (igp_baseptr ii) (igp_indicies ii) g fl1 new"
    using gep_fold [OF f _ _ n1 k] o by auto
  have em: "emits k fl new fl1" and gb: "vt_index (gs_baseptr g) < iu_next_value (fl_iu fl1)" and go: "vt_value (gs_value_offset g) = - 1 \<or> vt_index (gs_value_offset g) < iu_next_value (fl_iu fl)"
    using inv by (simp_all add: gep_inv_def)
  have g1: "unit_grows (fl_iu fl) (fl_iu fl1)" and kf: "k < fl_fresh fl1" using em k(1) by (auto simp: emits_def)
  have e1: "emits k fl1 [instr_create i (IR_IC_LEA (lea_of g s))] fl3" using add f3 by (simp add: emits_def instr_create_def)
  obtain ms where ms: "emits k fl1 ms fl4"
    "\<And>env x iu'. gs_val (fl_iu fl1) env g = Some x \<Longrightarrow> unit_grows (fl_iu fl4) iu' \<Longrightarrow>
       \<exists>env'. exec_ptrs iu' ms env = Some env' \<and> env' (vt_index (ii_ret s)) = x \<and> (\<forall>j < iu_next_value (fl_iu fl1). j \<noteq> vt_index (ii_ret s) \<longrightarrow> env' j = env j)"
    using lea_emits [OF e1 add(1) _ emits_ids_below [OF em k(2)] b(2)] n f4 gb go next_grows [OF g1] kf add(1) by (fastforce simp: lea_of_def s_def super_of_def)
  have em4: "emits k fl (new @ ms) fl4" by (rule emits_trans [OF em ms(1) k(1)])
  have "k \<notin> fn_id ` set (new @ ms)" using em4 k(1) by (fastforce simp: emits_def)
  then have "fl_bbs fl' = subst_node k (new @ ms) (fl_bbs fl)" using destroy_filled em4 b(3) by (simp add: emits_def)
  moreover have "\<exists>env'. exec_ptrs (fl_iu fl') (new @ ms) env = Some env' \<and>
          gep_address (fl_iu fl') env b (igp_indicies ii) = Some (env' (vt_index (ii_ret (igp_super ii)))) \<and>
          (\<forall>v < iu_next_value (fl_iu fl). v \<noteq> vt_index (ii_ret (igp_super ii)) \<longrightarrow> env' v = env v)"
    if ev: "operand_val (fl_iu fl) env (igp_baseptr ii) = Some b" for env b
  proof -
    have g: "unit_grows (fl_iu fl1) (fl_iu fl')" using ms(1) f4 by (simp add: emits_def)
    obtain x env1 where x: "gep_address (fl_iu fl') env b (igp_indicies ii) = Some x" "exec_ptrs (fl_iu fl') new env = Some env1" "agree fl env env1" "gs_val (fl_iu fl1) env1 g = Some x"
      using inv ev g unfolding gep_inv_def by blast
    from ms(2) [OF x(4), of "fl_iu fl'"] f4 obtain env2 where e2: "exec_ptrs (fl_iu fl') ms env1 = Some env2" "env2 (vt_index (ii_ret s)) = x"
      "\<forall>j < iu_next_value (fl_iu fl1). j \<noteq> vt_index (ii_ret s) \<longrightarrow> env2 j = env1 j" by auto
    then show ?thesis using x next_grows [OF g1] by (auto simp: exec_ptrs_append agree_def s_def super_of_def)
  qed
  ultimately show ?thesis by blast
qed

section \<open>An example\<close>

text \<open>\<open>p[1].f[x][y]\<close> for a pointer to structures with an \<open>int [2][4]\<close> at offset 8.\<close>

definition demo_gep_types :: types where
  "demo_gep_types = [It_int32, It_array 4 0, It_struct \<lparr>st_name = None, st_elements = [(0, Some 0), (3, Some 8)], st_size = Some 40,
     st_alignment = Some 4, st_packed = False, st_computed = True\<rparr>, It_array 2 1, It_pointer 2]"

definition demo_gep_unit :: ir_unit where
  "demo_gep_unit =
     (let temp = (\<lambda>ty. Some (new_value\<lparr>iv_class := Vc_temporary, iv_precolored := - 1, iv_type := ty\<rparr>))
      in \<lparr>iu_ts = \<lparr>iu_types = demo_gep_types, iu_types_created = False, iu_current_struct_name = None\<rparr>,
        iu_values = [temp 4, Some (new_value\<lparr>iv_class := Vc_constant 1\<rparr>), temp 0, temp 0, temp 0],
        iu_next_value = 5, iu_first_func_value = 0, iu_functions = [], iu_functions_with_bodies = [], iu_current_function = None,
        iu_data_ptr = 0, iu_initializers = [], iu_current_type = 0, iu_version = 0, iu_triple = None, iu_vstoffset = 0,
        iu_attribute_groups = [], iu_attrsets = [], iu_blockinfos = [], iu_blocks = []\<rparr>)"

definition demo_gep :: ir_instr_gep where
  "demo_gep = \<lparr>igp_super = super_of \<lparr>vt_value = 4, vt_type = 4\<rparr>, igp_baseptr = \<lparr>vt_value = 0, vt_type = 4\<rparr>,
     igp_indicies = [(\<lparr>vt_value = 1, vt_type = 0\<rparr>, 4), (\<lparr>vt_value = 1, vt_type = 0\<rparr>, 2), (\<lparr>vt_value = 2, vt_type = 0\<rparr>, 3), (\<lparr>vt_value = 3, vt_type = 0\<rparr>, 1)]\<rparr>"

definition demo_gep_flow :: flow where
  "demo_gep_flow = \<lparr>fl_iu = demo_gep_unit,
     fl_bbs = [\<lparr>fb_id = 0, fb_nodes = [instr_create 0 (IR_IC_GEP demo_gep), instr_create 1 IR_IC_UNREACHABLE]\<rparr>],
     fl_edges = [], fl_incoming = (\<lambda>_. []), fl_binds = [(4, 0, True)], fl_fresh = 2, fl_num_bbs = 1, fl_regframe_size = 8\<rparr>"

definition demo_gep_result :: "nat \<times> flow" where
  "demo_gep_result = (case replace_gep_with_lea 0 demo_gep demo_gep_flow of Inr r \<Rightarrow> r | Inl _ \<Rightarrow> (0, demo_gep_flow))"

lemma demo_gep_runs: "(case replace_gep_with_lea 0 demo_gep demo_gep_flow of Inl _ \<Rightarrow> False | Inr _ \<Rightarrow> True)"
  by code_simp

lemma demo_gep_unit_after:
  "iu_tys (fl_iu (snd demo_gep_result)) = demo_gep_types @ [It_pointer 1]" "iu_next_value (fl_iu (snd demo_gep_result)) = 6"
  "vt_at (fl_iu (snd demo_gep_result)) \<lparr>vt_value = 1, vt_type = 0\<rparr> = Inr (new_value\<lparr>iv_class := Vc_constant 1\<rparr>)"
  "(case vt_at (fl_iu (snd demo_gep_result)) \<lparr>vt_value = 2, vt_type = 0\<rparr> of Inr iv \<Rightarrow> iv_class iv = Vc_temporary | Inl _ \<Rightarrow> False)"
  "(case vt_at (fl_iu (snd demo_gep_result)) \<lparr>vt_value = 3, vt_type = 0\<rparr> of Inr iv \<Rightarrow> iv_class iv = Vc_temporary | Inl _ \<Rightarrow> False)"
  "(case vt_at (fl_iu demo_gep_flow) (igp_baseptr demo_gep) of Inr iv \<Rightarrow> iv_class iv = Vc_temporary | Inl _ \<Rightarrow> False)"
  by code_simp+

lemma demo_gep_sizes:
  "type_sizeof (demo_gep_types @ ts) 2 = Inr 40" "type_sizeof (demo_gep_types @ ts) 1 = Inr 16" "type_sizeof (demo_gep_types @ ts) 0 = Inr 4"
  by (rule type_sizeof_grows, code_simp)+

lemma demo_gep_operands:
  "operand_val (fl_iu (snd demo_gep_result)) env \<lparr>vt_value = 1, vt_type = 0\<rparr> = Some 1"
  "operand_val (fl_iu (snd demo_gep_result)) env \<lparr>vt_value = 2, vt_type = 0\<rparr> = Some (env 2)"
  "operand_val (fl_iu (snd demo_gep_result)) env \<lparr>vt_value = 3, vt_type = 0\<rparr> = Some (env 3)"
  "operand_val (fl_iu demo_gep_flow) env (igp_baseptr demo_gep) = Some (env 0)"
  using demo_gep_unit_after
  by (auto simp: operand_val_def value_get_const32_def type_get_def new_value_def demo_gep_types_def vt_index_def demo_gep_def split: sum.splits)

lemma demo_gep_address:
  "gep_address (fl_iu (snd demo_gep_result)) env b (igp_indicies demo_gep) = Some (b + 40 + 8 + env 2 * 16 + env 3 * 4)"
proof -
  have t: "type_get (demo_gep_types @ ts) 4 = Inr (It_pointer 2)" "type_get (demo_gep_types @ ts) 3 = Inr (It_array 2 1)" "type_get (demo_gep_types @ ts) 1 = Inr (It_array 4 0)"
    "\<exists>s. type_get (demo_gep_types @ ts) 2 = Inr (It_struct s) \<and> st_elements s = [(0, Some 0), (3, Some 8)]" for ts
    by (simp_all add: type_get_def demo_gep_types_def)
  from t(4) [of "[It_pointer 1]"] show ?thesis
    by (auto simp: demo_gep_def demo_gep_operands demo_gep_unit_after(1) t(1-3) gep_offset_def demo_gep_sizes)
qed

theorem replace_gep_with_lea_address_witness:
  "\<exists>new. fl_bbs (snd demo_gep_result) = subst_node 0 new (fl_bbs demo_gep_flow) \<and>
     (\<forall>env. \<exists>env'. exec_ptrs (fl_iu (snd demo_gep_result)) new env = Some env' \<and> env' 4 = env 0 + 48 + env 2 * 16 + env 3 * 4)"
proof -
  have r: "replace_gep_with_lea 0 demo_gep demo_gep_flow = Inr (fst demo_gep_result, snd demo_gep_result)"
    using demo_gep_runs by (simp add: demo_gep_result_def split: sum.splits)
  have "0 < fl_fresh demo_gep_flow" "ids_below demo_gep_flow" "\<forall>vt \<in> set (igp_baseptr demo_gep # map fst (igp_indicies demo_gep)). gep_operand demo_gep_flow vt"
    by (simp_all add: demo_gep_flow_def ids_below_def node_ids_def instr_create_def gep_operand_def demo_gep_def demo_gep_unit_def Let_def vt_index_def)
  note ex = replace_gep_with_lea_address [OF r this]
  have "iu_next_value (fl_iu (snd demo_gep_result)) \<le> 2 ^ 32" by (simp add: demo_gep_unit_after(2))
  from ex [OF this] obtain new where n: "fl_bbs (snd demo_gep_result) = subst_node 0 new (fl_bbs demo_gep_flow)"
    "\<forall>env b. operand_val (fl_iu demo_gep_flow) env (igp_baseptr demo_gep) = Some b \<longrightarrow>
       (\<exists>env'. exec_ptrs (fl_iu (snd demo_gep_result)) new env = Some env' \<and>
         gep_address (fl_iu (snd demo_gep_result)) env b (igp_indicies demo_gep) = Some (env' (vt_index (ii_ret (igp_super demo_gep)))) \<and>
         (\<forall>v < iu_next_value (fl_iu demo_gep_flow). v \<noteq> vt_index (ii_ret (igp_super demo_gep)) \<longrightarrow> env' v = env v))" by blast
  have v: "vt_index (ii_ret (igp_super demo_gep)) = 4" by (simp add: vt_index_def demo_gep_def super_of_def)
  have "\<exists>env'. exec_ptrs (fl_iu (snd demo_gep_result)) new env = Some env' \<and> env' 4 = env 0 + 48 + env 2 * 16 + env 3 * 4" for env
  proof -
    from n(2) demo_gep_operands(4) [of env] obtain env' where e: "exec_ptrs (fl_iu (snd demo_gep_result)) new env = Some env'"
      "Some (env 0 + 40 + 8 + env 2 * 16 + env 3 * 4) = Some (env' 4)" unfolding demo_gep_address v by blast
    then show ?thesis by (intro exI [of _ env']) (simp add: add.commute)
  qed
  with n(1) show ?thesis by blast
qed

end
