(* ===== verification/Vmir_Combine.thy ===== *)
theory Vmir_Combine
  imports Vmir_Replace
begin

text \<open>
  Combination of instructions and removal of dead code, \<open>combine_instructions\<close> and
  \<open>eliminate_dead_code\<close> of \<open>src/src/vmir_transform.c\<close>: a comparison goes into the branch or the
  select that uses it, a multiplication into the addition, a cast into the load; then
  instructions whose result nobody reads and blocks nobody jumps to are removed, and a block is
  appended to the only one it can follow. The counters of \<open>iu_stats\<close> are left out.

  \<open>combine_instructions\<close> takes the successor of an instruction before it looks at it, so the walk is one over the
  instructions that are there at the start; one that is gone when its turn comes is undefined
  behaviour.
\<close>

section \<open>The instruction that gives a value\<close>

fun upstream_scan :: "nat \<Rightarrow> (nat \<times> bool) list \<Rightarrow> nat option \<Rightarrow> nat option result" where
  "upstream_scan target [] u = Inr u"
| "upstream_scan target ((i, True) # ls) u =
     (if u \<noteq> None then Inl (Parser_error ''Multiplte writes to temporary in instr-combine'') else upstream_scan target ls (Some i))"
| "upstream_scan target ((i, False) # ls) u = (if i \<noteq> target then Inr None else upstream_scan target ls u)"

definition value_links :: "flow \<Rightarrow> nat \<Rightarrow> (nat \<times> bool) list" where
  "value_links fl v = map snd (filter (\<lambda>l. fst l = v) (fl_binds fl))"

definition combine_get_upstream_instruction :: "ir_valuetype \<Rightarrow> nat \<Rightarrow> flow \<Rightarrow> nat option result" where
  "combine_get_upstream_instruction vt target fl =
     res_bind (vt_at (fl_iu fl) vt) (\<lambda>iv.
       if iv_class iv \<noteq> Vc_temporary then Inr None else upstream_scan target (value_links fl (vt_index vt)) None)"

definition upstream_node :: "ir_valuetype \<Rightarrow> nat \<Rightarrow> flow \<Rightarrow> flow_node option result" where
  "upstream_node vt target fl =
     res_bind (combine_get_upstream_instruction vt target fl) (\<lambda>u.
       case u of None \<Rightarrow> Inr None | Some i \<Rightarrow> res_bind (find_node fl i) (\<lambda>nd. Inr (Some nd)))"

definition kill_value :: "ir_valuetype \<Rightarrow> flow \<Rightarrow> flow result" where
  "kill_value vt fl =
     res_bind (vt_at (fl_iu fl) vt) (\<lambda>iv. Inr (fl\<lparr>fl_iu := set_value (fl_iu fl) (vt_index vt) (iv\<lparr>iv_class := Vc_dead\<rparr>)\<rparr>))"

section \<open>Comparisons\<close>

definition combine_branch_with_compare :: "nat \<Rightarrow> ir_instr_br \<Rightarrow> flow \<Rightarrow> flow result" where
  "combine_branch_with_compare br ii fl =
     (if vt_value (ibr_condition ii) = - 1 then Inr fl
      else res_bind (upstream_node (ibr_condition ii) br fl) (\<lambda>u.
        case u of
          Some nd \<Rightarrow>
            (case fn_instr nd of
               IR_IC_CMP2 cmp \<Rightarrow>
                 if \<not> is_icmp (ibi_op cmp) then Inr fl
                 else res_bind (type_get (iu_tys (fl_iu fl)) (vt_type (ibi_lhs cmp))) (\<lambda>ty.
                   if it_code ty \<notin> {IR_TYPE_INT8, IR_TYPE_INT32, IR_TYPE_POINTER} then Inr fl
                   else res_bind (c_assert (vt_value (ii_ret (ibi_super cmp)) = vt_value (ibr_condition ii))) (\<lambda>_.
                     let icb = \<lparr>icb_op = ibi_op cmp, icb_lhs = ibi_lhs cmp, icb_rhs = ibi_rhs cmp, icb_true = ibr_true ii, icb_false = ibr_false ii\<rparr>;
                         (i, fl1) = instr_add_after (IR_IC_CMP_BRANCH icb) br fl
                     in res_bind (instr_bind_inputs i [icb_lhs icb, icb_rhs icb] fl1) (\<lambda>fl2. res_bind (kill_value (ibr_condition ii) fl2) (\<lambda>fl3.
                          Inr (instr_destroy (fn_id nd) (instr_destroy br fl3))))))
             | _ \<Rightarrow> Inr fl)
        | None \<Rightarrow> Inr fl))"

definition combine_select_with_compare :: "nat \<Rightarrow> ir_instr_select \<Rightarrow> flow \<Rightarrow> flow result" where
  "combine_select_with_compare sel ii fl =
     res_bind (upstream_node (ise_pred ii) sel fl) (\<lambda>u.
       case u of
         Some nd \<Rightarrow>
           (case fn_instr nd of
              IR_IC_CMP2 cmp \<Rightarrow>
                if \<not> is_icmp (ibi_op cmp) then Inr fl
                else res_bind (type_get (iu_tys (fl_iu fl)) (vt_type (ibi_lhs cmp))) (\<lambda>cmpty.
                  if it_code cmpty \<notin> {IR_TYPE_INT32, IR_TYPE_POINTER} then Inr fl
                  else res_bind (type_get (iu_tys (fl_iu fl)) (vt_type (ii_ret (ise_super ii)))) (\<lambda>opty.
                    if it_code opty \<notin> {IR_TYPE_INT8, IR_TYPE_INT16, IR_TYPE_INT32, IR_TYPE_POINTER} then Inr fl
                    else res_bind (c_assert (vt_value (ii_ret (ibi_super cmp)) = vt_value (ise_pred ii))) (\<lambda>_.
                      let ics = \<lparr>ics_super = super_of (ii_ret (ise_super ii)), ics_op = ibi_op cmp, ics_lhs = ibi_lhs cmp, ics_rhs = ibi_rhs cmp,
                                 ics_true = ise_true ii, ics_false = ise_false ii\<rparr>;
                          (i, fl1) = instr_add_after (IR_IC_CMP_SELECT ics) sel fl
                      in res_bind (instr_bind_inputs i [ics_lhs ics, ics_rhs ics, ics_true ics, ics_false ics] fl1) (\<lambda>fl2.
                         res_bind (value_bind_return_value (ii_ret (ics_super ics)) i fl2) (\<lambda>fl3. res_bind (kill_value (ise_pred ii) fl3) (\<lambda>fl4.
                           Inr (instr_destroy (fn_id nd) (instr_destroy sel fl4))))))))
            | _ \<Rightarrow> Inr fl)
       | None \<Rightarrow> Inr fl)"

section \<open>Multiplication and addition\<close>

text \<open>\<open>side\<close> tells which operand of the addition is not the product.\<close>

definition combine_binop_add_mul :: "nat \<Rightarrow> ir_instr_binary \<Rightarrow> nat \<Rightarrow> ir_instr_binary \<Rightarrow> bool \<Rightarrow> flow \<Rightarrow> flow result" where
  "combine_binop_add_mul i add j mul side fl =
     (let iu = fl_iu fl; arg3 = vt_value (if side then ibi_lhs add else ibi_rhs add) in
      res_bind (vt_at iu (ibi_lhs mul)) (\<lambda>a1. res_bind (type_get (iu_tys iu) (vt_type (ibi_lhs mul))) (\<lambda>ty.
        if it_code ty \<noteq> IR_TYPE_INT32 then Inr fl
        else res_bind (vt_at iu (ibi_rhs mul)) (\<lambda>a2. res_bind (value_at iu (word_of_int arg3)) (\<lambda>a3.
          res_bind (c_assert (iv_type a1 = iv_type a2 \<and> iv_type a1 = iv_type a3)) (\<lambda>_.
            if \<not> (is_operand_reg (iv_class a1) \<and> is_operand_reg (iv_class a2) \<and> is_operand_reg (iv_class a3)) then Inr fl
            else
              let mla = \<lparr>ite_super = super_of (ii_ret (ibi_super add)), ite_arg1 = ibi_lhs mul, ite_arg2 = ibi_rhs mul,
                         ite_arg3 = \<lparr>vt_value = arg3, vt_type = vt_type (ibi_rhs mul)\<rparr>\<rparr>;
                  (k, fl1) = instr_add_after (IR_IC_MLA mla) i fl
              in res_bind (instr_bind_inputs k [ite_arg1 mla, ite_arg2 mla, ite_arg3 mla] fl1) (\<lambda>fl2.
                 res_bind (value_bind_return_value (ii_ret (ite_super mla)) k fl2) (\<lambda>fl3.
                 res_bind (kill_value (ii_ret (ibi_super mul)) fl3) (\<lambda>fl4.
                   Inr (instr_destroy j (instr_destroy i fl4)))))))))))"

fun mul_of :: "flow_node option \<Rightarrow> (nat \<times> ir_instr_binary) option" where
  "mul_of (Some nd) = (case fn_instr nd of IR_IC_BINOP m \<Rightarrow> if ibi_op m = BINOP MUL then Some (fn_id nd, m) else None | _ \<Rightarrow> None)"
| "mul_of None = None"

definition combine_binop_add :: "nat \<Rightarrow> ir_instr_binary \<Rightarrow> flow \<Rightarrow> flow result" where
  "combine_binop_add i ii fl =
     res_bind (upstream_node (ibi_lhs ii) i fl) (\<lambda>lhs.
       case mul_of lhs of
         Some (j, mul) \<Rightarrow> combine_binop_add_mul i ii j mul False fl
       | None \<Rightarrow> res_bind (upstream_node (ibi_rhs ii) i fl) (\<lambda>rhs.
           case mul_of rhs of
             Some (j, mul) \<Rightarrow> combine_binop_add_mul i ii j mul True fl
           | None \<Rightarrow> Inr fl))"

definition combine_binop :: "nat \<Rightarrow> ir_instr_binary \<Rightarrow> flow \<Rightarrow> flow result" where
  "combine_binop i ii fl = (if ibi_op ii = BINOP ADD then combine_binop_add i ii fl else Inr fl)"

section \<open>Casts of loaded values\<close>

text \<open>\<open>load_type\<close> is a \<open>uint8_t\<close>, the type of a value an \<open>int\<close>.\<close>

definition uint8_of :: "u32 \<Rightarrow> u32" where
  "uint8_of x = ucast (ucast x :: u8)"

definition combine_binop_load_cast :: "nat \<Rightarrow> ir_instr_unary \<Rightarrow> nat \<Rightarrow> ir_instr_load \<Rightarrow> flow \<Rightarrow> flow result" where
  "combine_binop_load_cast i cast j load fl =
     (let kill = ii_ret (ild_super load) in
      res_bind (vt_at (fl_iu fl) kill) (\<lambda>k.
        let load' = load\<lparr>ild_cast := int (iun_op cast), ild_load_type := uint8_of (iv_type k),
                         ild_super := (ild_super load)\<lparr>ii_ret := ii_ret (iun_super cast)\<rparr>\<rparr>;
            fl1 = instr_bind_clear j (set_instr j (IR_IC_LOAD load') fl)
        in res_bind (instr_bind_inputs j (ild_ptr load' # (if 0 \<le> vt_value (ild_value_offset load') then [ild_value_offset load'] else [])) fl1) (\<lambda>fl2.
           res_bind (value_bind_return_value (ii_ret (ild_super load')) j fl2) (\<lambda>fl3. res_bind (kill_value kill fl3) (\<lambda>fl4.
             Inr (instr_destroy i fl4))))))"

definition combine_binop_cast :: "nat \<Rightarrow> ir_instr_unary \<Rightarrow> flow \<Rightarrow> flow result" where
  "combine_binop_cast i ii fl =
     (if castop_of (iun_op ii) \<notin> {Some ZEXT, Some SEXT} then Inr fl
      else res_bind (vt_at (fl_iu fl) (ii_ret (iun_super ii))) (\<lambda>v. res_bind (type_get (iu_tys (fl_iu fl)) (iv_type v)) (\<lambda>ty.
        if it_code ty \<noteq> IR_TYPE_INT32 then Inr fl
        else res_bind (upstream_node (iun_value ii) i fl) (\<lambda>u.
          case u of
            Some nd \<Rightarrow>
              (case fn_instr nd of
                 IR_IC_LOAD load \<Rightarrow> res_bind (vt_at (fl_iu fl) (ild_ptr load)) (\<lambda>ptr.
                   if is_operand_reg (iv_class ptr) then combine_binop_load_cast i ii (fn_id nd) load fl else Inr fl)
               | _ \<Rightarrow> Inr fl)
          | None \<Rightarrow> Inr fl))))"

section \<open>The walk\<close>

definition combine_instr :: "flow \<Rightarrow> nat \<Rightarrow> flow result" where
  "combine_instr fl i =
     res_bind (find_node fl i) (\<lambda>nd.
       case fn_instr nd of
         IR_IC_BINOP ii \<Rightarrow> combine_binop i ii fl
       | IR_IC_CAST ii \<Rightarrow> combine_binop_cast i ii fl
       | IR_IC_SELECT ii \<Rightarrow> combine_select_with_compare i ii fl
       | _ \<Rightarrow> Inr fl)"

definition combine_bb :: "flow \<Rightarrow> int \<Rightarrow> flow result" where
  "combine_bb fl b =
     res_bind (find_bb fl b) (\<lambda>bb. res_bind (last_instr bb) (\<lambda>nd.
     res_bind (case fn_instr nd of IR_IC_BR br \<Rightarrow> combine_branch_with_compare (fn_id nd) br fl | _ \<Rightarrow> Inr fl) (\<lambda>fl1.
     res_bind (find_bb fl1 b) (\<lambda>bb1. res_fold combine_instr fl1 (map fn_id (fb_nodes bb1))))))"

definition combine_instructions :: "flow \<Rightarrow> flow result" where
  "combine_instructions fl = res_fold combine_bb fl (map fb_id (fl_bbs fl))"

section \<open>Dead code\<close>

fun has_effect :: "ir_instr \<Rightarrow> bool" where
  "has_effect (IR_IC_VMOP _) = True" | "has_effect (IR_IC_VAARG _) = True" | "has_effect (IR_IC_CALL _) = True"
| "has_effect (IR_IC_INVOKE _) = True" | "has_effect _ = False"

definition eliminate_instr :: "flow \<Rightarrow> nat \<Rightarrow> flow result" where
  "eliminate_instr fl i =
     res_bind (find_node fl i) (\<lambda>nd. let ret = ii_ret (instr_super (fn_instr nd)) in
       if vt_value ret = - 1 \<or> has_effect (fn_instr nd) \<or> vt_value ret < 1 then Inr fl
       else res_bind (vt_at (fl_iu fl) ret) (\<lambda>_.
         if \<exists>l \<in> set (value_links fl (vt_index ret)). \<not> snd l then Inr fl
         else kill_value ret (instr_destroy i fl)))"

definition eliminate_dead_code_in_bb :: "int \<Rightarrow> flow \<Rightarrow> flow result" where
  "eliminate_dead_code_in_bb b fl = res_bind (find_bb fl b) (\<lambda>bb. res_fold eliminate_instr fl (rev (map fn_id (fb_nodes bb))))"

text \<open>
  The instructions of a block go to the end of another, one at a time; both may be the same block.
\<close>

partial_function (option) move_instrs :: "int \<Rightarrow> int \<Rightarrow> flow \<Rightarrow> flow result option" where
  [code]: "move_instrs b from fl =
     (case find_bb fl b of
        Inl e \<Rightarrow> Some (Inl e)
      | Inr bb \<Rightarrow>
          (case fb_nodes bb of
             [] \<Rightarrow> Some (Inr fl)
           | nd # nds \<Rightarrow> move_instrs b from
               (update_bb from (\<lambda>bb. bb\<lparr>fb_nodes := fb_nodes bb @ [nd]\<rparr>) (update_bb b (\<lambda>bb. bb\<lparr>fb_nodes := nds\<rparr>) fl))))"

text \<open>Taking the edges from the head of one list and putting them at the head of another reverses them.\<close>

definition move_edges :: "int \<Rightarrow> int \<Rightarrow> flow \<Rightarrow> flow" where
  "move_edges b from fl =
     fl\<lparr>fl_edges := rev (map (\<lambda>e. e\<lparr>fe_from := from\<rparr>) (outgoing_edges fl b)) @ filter (\<lambda>e. fe_from e \<noteq> b) (fl_edges fl)\<rparr>"

definition merge_into_predecessor :: "int \<Rightarrow> flow_edge \<Rightarrow> nat \<Rightarrow> flow \<Rightarrow> flow result option" where
  "merge_into_predecessor b inc br fl =
     (let from = fe_from inc; fl1 = ibe_destroy (fe_id inc) (instr_destroy br fl) in
      if outgoing_edges fl1 from \<noteq> [] then Some (Inl Assertion_failed)
      else (case move_instrs b from fl1 of
              Some (Inr fl2) \<Rightarrow> Some (Inr (bb_destroy b (move_edges b from fl2)))
            | r \<Rightarrow> r))"

text \<open>A branch without a condition at the end of the only predecessor of a block.\<close>

definition only_branch :: "flow \<Rightarrow> flow_edge \<Rightarrow> nat option result" where
  "only_branch fl inc =
     res_bind (find_bb fl (fe_from inc)) (\<lambda>bb. res_bind (last_instr bb) (\<lambda>nd.
       Inr (case fn_instr nd of IR_IC_BR br \<Rightarrow> if vt_value (ibr_condition br) = - 1 then Some (fn_id nd) else None | _ \<Rightarrow> None)))"

definition lift_res :: "'a result \<Rightarrow> ('a \<Rightarrow> 'b result option) \<Rightarrow> 'b result option" where
  "lift_res r f = (case r of Inl e \<Rightarrow> Some (Inl e) | Inr x \<Rightarrow> f x)"

definition eliminate_bb :: "int \<Rightarrow> flow \<Rightarrow> flow result option" where
  "eliminate_bb b fl =
     (case incoming_edges fl b of
        [] \<Rightarrow> Some (Inr (bb_destroy b fl))
      | e # es \<Rightarrow>
          lift_res (eliminate_dead_code_in_bb b fl) (\<lambda>fl1.
            if es \<noteq> [] then Some (Inr fl1)
            else lift_res (find_edge fl1 e) (\<lambda>inc. lift_res (only_branch fl1 inc) (\<lambda>br.
              case br of None \<Rightarrow> Some (Inr fl1) | Some i \<Rightarrow> merge_into_predecessor b inc i fl1))))"

definition eliminate_dead_code :: "flow \<Rightarrow> flow result option" where
  "eliminate_dead_code fl =
     (case map fb_id (fl_bbs fl) of
        [] \<Rightarrow> Some (Inr fl)
      | b # bs \<Rightarrow> lift_res (eliminate_dead_code_in_bb b fl) (each_bb eliminate_bb bs))"

end
