(* ===== verification/Vmir_Lower.thy ===== *)
theory Vmir_Lower
  imports Vmir_Combine Vmir_Ssa Vmir_Regalloc
begin

text \<open>
  Calls, values the machine has no registers for, and the whole of \<open>transform_function\<close>,
  \<open>src/src/vmir_transform.c\<close>. The arguments of a call become moves into values placed at the end
  of the frame; a temporary of a structure type becomes one temporary for each field, and
  the instructions that mention it are rewritten; a load of several values becomes several
  loads.

  \<open>iv_data\<close> and \<open>iv_num_values\<close> of a temporary are an entry of a list, which is also the list that
  \<open>iv_tmp_link\<close> makes. The flag \<open>if_used\<close> of the callee is left out.
\<close>

section \<open>Calls\<close>

definition int_vt :: "int \<Rightarrow> u32 \<Rightarrow> ir_valuetype" where
  "int_vt v ty = \<lparr>vt_value = v, vt_type = ty\<rparr>"

text \<open>Values for argument slots are made until there are enough.\<close>

fun alloc_call_args :: "nat \<Rightarrow> u32 \<Rightarrow> nat \<Rightarrow> flow \<Rightarrow> (nat \<times> flow) result" where
  "alloc_call_args 0 ty num fl = Inr (num, fl)"
| "alloc_call_args (Suc n) ty num fl =
     res_bind (value_alloc_temporary (fl_iu fl) ty) (\<lambda>((v, _), iu).
     res_bind (value_item iu v) (\<lambda>iv.
       alloc_call_args n ty (Suc num) (fl\<lparr>fl_iu := set_value iu v (iv\<lparr>iv_precolored := int num\<rparr>)\<rparr>)))"

record call_state =
  cs_total_slots :: int
  cs_num_call_args :: nat
  cs_stackgrowth :: int

definition arg_stackcopy :: "nat \<Rightarrow> int \<Rightarrow> u32 \<Rightarrow> ir_valuetype \<Rightarrow> int \<Rightarrow> flow \<Rightarrow> flow result" where
  "arg_stackcopy call slot ty v sz fl =
     (let (i, fl1) = instr_add_before (IR_IC_STACKCOPY \<lparr>isc_super = super_of (int_vt slot ty), isc_value = v, isc_size = sz\<rparr>) call fl
      in res_bind (instr_bind_input v i fl1) (value_bind_return_value (int_vt slot ty) i))"

definition arg_move2 :: "nat \<Rightarrow> int \<Rightarrow> u32 \<Rightarrow> ir_valuetype \<Rightarrow> flow \<Rightarrow> flow result" where
  "arg_move2 call slot ty v fl =
     (let s = \<lparr>ii_ret = int_vt (- 2) (- 1), ii_rets = [int_vt (slot + 1) ty, int_vt slot ty]\<rparr>;
          (i, fl1) = instr_add_before (IR_IC_MOVE \<lparr>imo_super = s, imo_value = v\<rparr>) call fl
      in res_bind (instr_bind_input v i fl1) (\<lambda>fl2. res_bind (value_bind_return_value (int_vt (slot + 1) ty) i fl2)
           (value_bind_return_value (int_vt slot ty) i)))"

definition arg_move :: "nat \<Rightarrow> int \<Rightarrow> ir_valuetype \<Rightarrow> flow \<Rightarrow> flow result" where
  "arg_move call slot v fl =
     (let ret = int_vt slot (vt_type v);
          (i, fl1) = instr_add_before (IR_IC_MOVE \<lparr>imo_super = super_of ret, imo_value = v\<rparr>) call fl
      in res_bind (instr_bind_input v i fl1) (value_bind_return_value ret i))"

definition prepare_arg :: "nat \<Rightarrow> int \<Rightarrow> u32 \<Rightarrow> ir_valuetype \<times> int \<Rightarrow> call_state \<times> flow \<Rightarrow> ((ir_valuetype \<times> int) \<times> call_state \<times> flow) result" where
  "prepare_arg call base ty = (\<lambda>(v, sz) (cs, fl).
     res_bind (value_regframe_slots (iu_tys (fl_iu fl)) (vt_type v)) (\<lambda>slots.
       let slot = base + cs_total_slots cs; total = cs_total_slots cs + slots in
       res_bind (alloc_call_args (nat (total - int (cs_num_call_args cs))) ty (cs_num_call_args cs) fl) (\<lambda>(num, fl1).
         let cs' = \<lparr>cs_total_slots = total, cs_num_call_args = num,
                    cs_stackgrowth = cs_stackgrowth cs + (if sz \<noteq> 0 then sz else 0)\<rparr> in
         res_bind (if sz \<noteq> 0 then res_bind (c_assert (slots = 1)) (\<lambda>_. arg_stackcopy call slot ty v sz fl1)
                   else if slots = 2 then arg_move2 call slot ty v fl1 else arg_move call slot v fl1) (\<lambda>fl2.
         res_bind (instr_bind_input (v\<lparr>vt_value := slot\<rparr>) call fl2) (\<lambda>fl3. Inr ((v\<lparr>vt_value := slot\<rparr>, sz), cs', fl3))))))"

fun prepare_args :: "nat \<Rightarrow> int \<Rightarrow> u32 \<Rightarrow> (ir_valuetype \<times> int) list \<Rightarrow> call_state \<times> flow \<Rightarrow> ((ir_valuetype \<times> int) list \<times> call_state \<times> flow) result" where
  "prepare_args call base ty [] st = Inr ([], st)"
| "prepare_args call base ty (a # as) st =
     res_bind (prepare_arg call base ty a st) (\<lambda>(a', st1). res_bind (prepare_args call base ty as st1) (\<lambda>(as', st2). Inr (a' # as', st2)))"

definition prepare_call :: "(ir_instr_call \<Rightarrow> ir_instr) \<Rightarrow> nat \<Rightarrow> ir_instr_call \<Rightarrow> int \<Rightarrow> u32 \<Rightarrow> nat \<times> flow \<Rightarrow> (nat \<times> flow) result" where
  "prepare_call mk i ii base ty = (\<lambda>(num, fl).
     res_bind (instr_bind_input (ica_callee ii) i (instr_bind_clear_inputs i fl)) (\<lambda>fl1.
     res_bind (prepare_args i base ty (ica_argv ii) (\<lparr>cs_total_slots = 0, cs_num_call_args = num, cs_stackgrowth = 0\<rparr>, fl1)) (\<lambda>(args, cs, fl2).
     res_bind (value_function (fl_iu fl2) (word_of_int (vt_value (ica_callee ii)))) (\<lambda>_.
       let fl3 = set_instr i (mk (ii\<lparr>ica_argv := args\<rparr>)) fl2 in
       Inr (cs_num_call_args cs,
            if 0 < cs_stackgrowth cs then snd (instr_add_after (IR_IC_STACKSHRINK (cs_stackgrowth cs)) i fl3) else fl3)))))"

definition prepare_instr :: "int \<Rightarrow> u32 \<Rightarrow> nat \<times> flow \<Rightarrow> nat \<Rightarrow> (nat \<times> flow) result" where
  "prepare_instr base ty st i =
     res_bind (find_node (snd st) i) (\<lambda>nd.
       case fn_instr nd of
         IR_IC_CALL ii \<Rightarrow> prepare_call IR_IC_CALL i ii base ty st
       | IR_IC_INVOKE ii \<Rightarrow> prepare_call IR_IC_INVOKE i ii base ty st
       | _ \<Rightarrow> Inr st)"

text \<open>The number of argument slots of the calls of the function.\<close>

definition prepare_calls :: "flow \<Rightarrow> (nat \<times> flow) result" where
  "prepare_calls fl =
     res_bind (type_make (iu_ts (fl_iu fl)) IR_TYPE_INT32) (\<lambda>(ty, ts).
       let fl1 = fl\<lparr>fl_iu := (fl_iu fl)\<lparr>iu_ts := ts\<rparr>\<rparr> in
       res_fold (prepare_instr (int (iu_next_value (fl_iu fl))) (of_nat ty)) (0, fl1) (map fn_id (concat (map fb_nodes (fl_bbs fl1)))))"

section \<open>Structures in temporaries\<close>

type_synonym split_values = "(nat \<times> ir_valuetype list) list"

fun with_super :: "(ir_super \<Rightarrow> ir_super) \<Rightarrow> ir_instr \<Rightarrow> ir_instr" where
  "with_super f (IR_IC_RET ii) = IR_IC_RET (ii\<lparr>iun_super := f (iun_super ii)\<rparr>)"
| "with_super f (IR_IC_BINOP ii) = IR_IC_BINOP (ii\<lparr>ibi_super := f (ibi_super ii)\<rparr>)"
| "with_super f (IR_IC_CAST ii) = IR_IC_CAST (ii\<lparr>iun_super := f (iun_super ii)\<rparr>)"
| "with_super f (IR_IC_LOAD ii) = IR_IC_LOAD (ii\<lparr>ild_super := f (ild_super ii)\<rparr>)"
| "with_super f (IR_IC_CMP2 ii) = IR_IC_CMP2 (ii\<lparr>ibi_super := f (ibi_super ii)\<rparr>)"
| "with_super f (IR_IC_CALL ii) = IR_IC_CALL (ii\<lparr>ica_super := f (ica_super ii)\<rparr>)"
| "with_super f (IR_IC_INVOKE ii) = IR_IC_INVOKE (ii\<lparr>ica_super := f (ica_super ii)\<rparr>)"
| "with_super f (IR_IC_ALLOCA ii) = IR_IC_ALLOCA (ii\<lparr>ial_super := f (ial_super ii)\<rparr>)"
| "with_super f (IR_IC_SELECT ii) = IR_IC_SELECT (ii\<lparr>ise_super := f (ise_super ii)\<rparr>)"
| "with_super f (IR_IC_VAARG ii) = IR_IC_VAARG (ii\<lparr>iun_super := f (iun_super ii)\<rparr>)"
| "with_super f (IR_IC_LANDINGPAD ii) = IR_IC_LANDINGPAD (ii\<lparr>ilp_super := f (ilp_super ii)\<rparr>)"
| "with_super f (IR_IC_LEA ii) = IR_IC_LEA (ii\<lparr>ile_super := f (ile_super ii)\<rparr>)"
| "with_super f (IR_IC_MOVE ii) = IR_IC_MOVE (ii\<lparr>imo_super := f (imo_super ii)\<rparr>)"
| "with_super f (IR_IC_VMOP ii) = IR_IC_VMOP (ii\<lparr>ica_super := f (ica_super ii)\<rparr>)"
| "with_super f (IR_IC_STACKCOPY ii) = IR_IC_STACKCOPY (ii\<lparr>isc_super := f (isc_super ii)\<rparr>)"
| "with_super f (IR_IC_CMP_SELECT ii) = IR_IC_CMP_SELECT (ii\<lparr>ics_super := f (ics_super ii)\<rparr>)"
| "with_super f (IR_IC_MLA ii) = IR_IC_MLA (ii\<lparr>ite_super := f (ite_super ii)\<rparr>)"
| "with_super f (IR_IC_GEP ii) = IR_IC_GEP (ii\<lparr>igp_super := f (igp_super ii)\<rparr>)"
| "with_super f (IR_IC_PHI ii) = IR_IC_PHI (ii\<lparr>iph_super := f (iph_super ii)\<rparr>)"
| "with_super f (IR_IC_EXTRACTVAL ii) = IR_IC_EXTRACTVAL (ii\<lparr>iev_super := f (iev_super ii)\<rparr>)"
| "with_super f (IR_IC_INSERTVAL ii) = IR_IC_INSERTVAL (ii\<lparr>iiv_super := f (iiv_super ii)\<rparr>)"
| "with_super f ii = ii"

text \<open>
  \<open>iv_num_values\<close> shares its place with the constant and the register of a value; pointers and data have
  something there that the model does not know. \<open>iv_data\<close> is \<open>NULL\<close> where there are no values.
\<close>

definition value_parts :: "split_values \<Rightarrow> ir_unit \<Rightarrow> ir_valuetype \<Rightarrow> (int \<times> ir_valuetype list) result" where
  "value_parts vals iu vt =
     res_bind (vt_at iu vt) (\<lambda>iv.
       case map_of vals (vt_index vt) of
         Some ps \<Rightarrow> Inr (int (length ps), ps)
       | None \<Rightarrow>
           (case iv_class iv of
              Vc_aggregate vs \<Rightarrow> Inr (int (length vs), map (\<lambda>(v, ty). int_vt (sint v) ty) vs)
            | Vc_undef \<Rightarrow> Inr (0, [])
            | Vc_zero_initializer \<Rightarrow> Inr (0, [])
            | Vc_temporary \<Rightarrow> Inr (0, [])
            | Vc_dead \<Rightarrow> Inr (0, [])
            | Vc_constant c \<Rightarrow> Inr (sint (ucast c :: u32), [])
            | Vc_regframe r \<Rightarrow> Inr (r, [])
            | Vc_machinereg r \<Rightarrow> Inr (r, [])
            | _ \<Rightarrow> Inl Undefined_behaviour))"

definition part :: "ir_valuetype list \<Rightarrow> int \<Rightarrow> ir_valuetype result" where
  "part ps i = (if 0 \<le> i \<and> i < int (length ps) then Inr (ps ! nat i) else Inl Undefined_behaviour)"

definition legalize_aggregate_move :: "split_values \<Rightarrow> nat \<Rightarrow> ir_instr_move \<Rightarrow> flow \<Rightarrow> flow result" where
  "legalize_aggregate_move vals i ii fl =
     res_bind (value_parts vals (fl_iu fl) (imo_value ii)) (\<lambda>(ns, sv). res_bind (value_parts vals (fl_iu fl) (ii_ret (imo_super ii))) (\<lambda>(nd, dv).
     res_bind (c_assert (ns = nd)) (\<lambda>_.
     res_bind (res_fold (\<lambda>fl k. res_bind (part dv k) (\<lambda>d. res_bind (part sv k) (\<lambda>s. insert_move i fl (d, s)))) fl [0..ns - 1]) (\<lambda>fl1.
       Inr (instr_destroy i fl1)))))"

definition select_part :: "nat \<Rightarrow> ir_instr_select \<Rightarrow> ir_valuetype list \<Rightarrow> ir_valuetype list \<Rightarrow> ir_valuetype list \<Rightarrow> flow \<Rightarrow> int \<Rightarrow> flow result" where
  "select_part i ii tv fv dv fl k =
     res_bind (part dv k) (\<lambda>d. res_bind (part tv k) (\<lambda>t. res_bind (part fv k) (\<lambda>f.
       let (j, fl1) = instr_add_before (IR_IC_SELECT \<lparr>ise_super = super_of d, ise_true = t, ise_false = f, ise_pred = ise_pred ii\<rparr>) i fl
       in res_bind (value_bind_return_value d j fl1) (instr_bind_inputs j [ise_pred ii, t, f]))))"

definition legalize_aggregate_select :: "split_values \<Rightarrow> nat \<Rightarrow> ir_instr_select \<Rightarrow> flow \<Rightarrow> flow result" where
  "legalize_aggregate_select vals i ii fl =
     (let iu = fl_iu fl in
      res_bind (value_parts vals iu (ise_true ii)) (\<lambda>(nt, tv). res_bind (value_parts vals iu (ise_false ii)) (\<lambda>(nf, fv).
      res_bind (value_parts vals iu (ii_ret (ise_super ii))) (\<lambda>(nd, dv). res_bind (c_assert (nt = nd \<and> nf = nd)) (\<lambda>_.
      res_bind (res_fold (select_part i ii tv fv dv) fl [0..nd - 1]) (\<lambda>fl1. Inr (instr_destroy i fl1)))))))"

definition insertval_part :: "nat \<Rightarrow> ir_instr_insertval \<Rightarrow> int \<Rightarrow> int \<Rightarrow> ir_valuetype list \<Rightarrow> ir_valuetype list \<Rightarrow> flow \<Rightarrow> int \<Rightarrow> flow result" where
  "insertval_part i ii ix ns sv dv fl k =
     res_bind (part dv k) (\<lambda>d.
       if k = ix then insert_move i fl (d, iiv_replacement ii)
       else if ns = 0 then res_bind (value_create_zero (fl_iu fl) (vt_type d)) (\<lambda>(z, iu). insert_move i (fl\<lparr>fl_iu := iu\<rparr>) (d, vt_of z))
       else res_bind (part sv k) (\<lambda>s. insert_move i fl (d, s)))"

definition legalize_aggregate_insertval :: "split_values \<Rightarrow> nat \<Rightarrow> ir_instr_insertval \<Rightarrow> flow \<Rightarrow> flow result" where
  "legalize_aggregate_insertval vals i ii fl =
     (case iiv_indicies ii of
        [ix] \<Rightarrow>
          res_bind (value_parts vals (fl_iu fl) (iiv_src ii)) (\<lambda>(ns, sv). res_bind (value_parts vals (fl_iu fl) (ii_ret (iiv_super ii))) (\<lambda>(nd, dv).
          res_bind (c_assert (ns = 0 \<or> ns = nd)) (\<lambda>_.
          res_bind (res_fold (insertval_part i ii ix ns sv dv) fl [0..nd - 1]) (\<lambda>fl1. Inr (instr_destroy i fl1)))))
      | _ \<Rightarrow> Inl (Parser_error ''Unable to legalize insertval with indicies''))"

definition bind_value :: "nat \<Rightarrow> bool \<Rightarrow> flow \<Rightarrow> ir_valuetype \<Rightarrow> flow result" where
  "bind_value i out fl vt = res_bind (vt_at (fl_iu fl) vt) (\<lambda>_. Inr (value_bind_instr (vt_index vt) i out fl))"

definition legalize_output :: "ir_valuetype list \<Rightarrow> nat \<Rightarrow> ir_instr \<Rightarrow> flow \<Rightarrow> flow result" where
  "legalize_output values i ii fl =
     res_fold (bind_value i True) (set_instr i (with_super (\<lambda>s. s\<lparr>ii_ret := (ii_ret s)\<lparr>vt_value := - int (length values)\<rparr>, ii_rets := values\<rparr>) ii) fl) values"

text \<open>
  The stores of the other fields. Each is put directly after the first; what they read is
  linked to the first store, and their pointers are not linked.
\<close>

definition field_store_after :: "ir_instr_store \<Rightarrow> nat \<Rightarrow> flow \<Rightarrow> ir_valuetype \<times> (u32 \<times> int option) \<Rightarrow> flow result" where
  "field_store_after st i fl = (\<lambda>(v, (_, off)).
     case off of
       None \<Rightarrow> Inl Undefined_behaviour
     | Some o' \<Rightarrow> res_bind (add_int (ist_immediate_offset st) o') (\<lambda>im.
         bind_value i False (snd (instr_add_after (IR_IC_STORE \<lparr>ist_ptr = ist_ptr st, ist_value = v, ist_immediate_offset = im\<rparr>) i fl)) v))"

fun legalize_input :: "ir_valuetype list \<Rightarrow> nat \<Rightarrow> ir_instr \<Rightarrow> flow \<Rightarrow> flow result" where
  "legalize_input values i (IR_IC_EXTRACTVAL ii) fl =
     (case iev_indicies ii of
        [ix] \<Rightarrow> res_bind (part values ix) (\<lambda>v.
          bind_value i False (set_instr i (IR_IC_MOVE \<lparr>imo_super = iev_super ii, imo_value = v\<rparr>) fl) v)
      | _ \<Rightarrow> Inl (Parser_error ''Unable to legalize extractval with indicies''))"
| "legalize_input values i (IR_IC_STORE st) fl =
     res_bind (type_get (iu_tys (fl_iu fl)) (vt_type (ist_value st))) (\<lambda>aggty.
       case aggty of
         It_struct s \<Rightarrow>
           res_bind (c_assert (length (st_elements s) = length values)) (\<lambda>_. res_bind (part values 0) (\<lambda>v0.
           res_bind (bind_value i False (set_instr i (IR_IC_STORE (st\<lparr>ist_value := v0\<rparr>)) fl) v0) (\<lambda>fl1.
             res_fold (field_store_after st i) fl1 (tl (zip values (st_elements s))))))
       | _ \<Rightarrow> Inl Assertion_failed)"
| "legalize_input values i (IR_IC_RESUME _) fl =
     res_bind (c_assert (length values < 8)) (\<lambda>_. res_fold (bind_value i False) (set_instr i (IR_IC_RESUME values) fl) values)"
| "legalize_input values i _ fl = Inl (Parser_error ''Unable to legalize aggregate value as input'')"

definition legalize_link :: "split_values \<Rightarrow> ir_valuetype list \<Rightarrow> nat \<times> bool \<Rightarrow> flow \<Rightarrow> flow result" where
  "legalize_link vals values = (\<lambda>(i, out) fl.
     res_bind (find_node fl i) (\<lambda>nd.
       case fn_instr nd of
         IR_IC_MOVE ii \<Rightarrow> legalize_aggregate_move vals i ii fl
       | IR_IC_INSERTVAL ii \<Rightarrow> legalize_aggregate_insertval vals i ii fl
       | IR_IC_SELECT ii \<Rightarrow> legalize_aggregate_select vals i ii fl
       | ii \<Rightarrow> if out then legalize_output values i ii fl else legalize_input values i ii fl))"

definition drop_link :: "nat \<Rightarrow> nat \<times> bool \<Rightarrow> flow \<Rightarrow> flow" where
  "drop_link v l fl = fl\<lparr>fl_binds := remove1 (v, l) (fl_binds fl)\<rparr>"

partial_function (option) legalize_links :: "split_values \<Rightarrow> nat \<Rightarrow> ir_valuetype list \<Rightarrow> flow \<Rightarrow> flow result option" where
  [code]: "legalize_links vals v values fl =
     (case value_links fl v of
        [] \<Rightarrow> Some (Inr fl)
      | l # _ \<Rightarrow>
          (case legalize_link vals values l (drop_link v l fl) of
             Inl e \<Rightarrow> Some (Inl e)
           | Inr fl1 \<Rightarrow> legalize_links vals v values fl1))"

definition legalize_aggregate :: "split_values \<Rightarrow> flow \<Rightarrow> nat \<times> ir_valuetype list \<Rightarrow> flow result option" where
  "legalize_aggregate vals fl = (\<lambda>(v, values).
     if length values \<le> 1 then Some (Inl Assertion_failed) else legalize_links vals v values fl)"

fun alloc_parts :: "(u32 \<times> int option) list \<Rightarrow> ir_unit \<Rightarrow> (ir_valuetype list \<times> ir_unit) result" where
  "alloc_parts [] iu = Inr ([], iu)"
| "alloc_parts ((ty, _) # es) iu =
     res_bind (value_alloc_temporary iu ty) (\<lambda>(v, iu1). res_bind (alloc_parts es iu1) (\<lambda>(vs, iu2). Inr (vt_of v # vs, iu2)))"

text \<open>
  The values made on the way are looked at as well, so structures in structures are split all the way down.
\<close>

partial_function (option) split_temporaries :: "nat \<Rightarrow> split_values \<Rightarrow> ir_unit \<Rightarrow> (split_values \<times> ir_unit) result option" where
  [code]: "split_temporaries i vals iu =
     (if iu_next_value iu \<le> i then Some (Inr (vals, iu))
      else case value_item iu i of
        Inl e \<Rightarrow> Some (Inl e)
      | Inr iv \<Rightarrow>
          if iv_class iv \<noteq> Vc_temporary then split_temporaries (Suc i) vals iu
          else (case type_get (iu_tys iu) (iv_type iv) of
             Inl e \<Rightarrow> Some (Inl e)
           | Inr ty \<Rightarrow>
               (case ty of
                  It_struct s \<Rightarrow>
                    (case alloc_parts (st_elements s) iu of
                       Inl e \<Rightarrow> Some (Inl e)
                     | Inr (values, iu1) \<Rightarrow> split_temporaries (Suc i) ((i, values) # vals) iu1)
                | _ \<Rightarrow> split_temporaries (Suc i) vals iu)))"

definition legalize_temporary_values :: "flow \<Rightarrow> flow result option" where
  "legalize_temporary_values fl =
     (case split_temporaries (iu_first_func_value (fl_iu fl)) [] (fl_iu fl) of
        None \<Rightarrow> None
      | Some (Inl e) \<Rightarrow> Some (Inl e)
      | Some (Inr (vals, iu)) \<Rightarrow>
          (case try_fold (legalize_aggregate vals) (fl\<lparr>fl_iu := iu\<rparr>) vals of
             Some (Inr fl1) \<Rightarrow> Some (res_fold (\<lambda>fl v. kill_value (int_vt (int v) 0) fl) fl1 (map fst vals))
           | r \<Rightarrow> r))"

section \<open>Loads of several values\<close>

definition emit_partial_load :: "ir_instr_load \<Rightarrow> int \<Rightarrow> nat \<Rightarrow> ir_valuetype \<Rightarrow> flow \<Rightarrow> (nat \<times> flow) result" where
  "emit_partial_load orig offset after ret fl =
     res_bind (c_assert (ild_cast orig = - 1)) (\<lambda>_. res_bind (add_int (ild_immediate_offset orig) offset) (\<lambda>im.
       let n = \<lparr>ild_super = super_of ret, ild_ptr = ild_ptr orig, ild_immediate_offset = im, ild_value_offset = ild_value_offset orig,
                ild_value_offset_multiply = ild_value_offset_multiply orig, ild_cast = - 1, ild_load_type = 0\<rparr>;
           (i, fl1) = instr_add_after (IR_IC_LOAD n) after fl
       in res_bind (value_bind_return_value ret i fl1) (\<lambda>fl2.
          res_bind (instr_bind_inputs i (ild_ptr n # (if 0 \<le> vt_value (ild_value_offset n) then [ild_value_offset n] else [])) fl2) (\<lambda>fl3.
            Inr (i, fl3)))))"

fun partial_loads :: "ir_instr_load \<Rightarrow> (int result \<times> ir_valuetype) list \<Rightarrow> nat \<Rightarrow> flow \<Rightarrow> (nat \<times> flow) result" where
  "partial_loads orig [] r fl = Inr (r, fl)"
| "partial_loads orig ((off, ret) # ps) r fl =
     res_bind off (\<lambda>o'. res_bind (emit_partial_load orig o' r ret fl) (\<lambda>(r', fl1). partial_loads orig ps r' fl1))"

definition field_offset :: "u32 \<times> int option \<Rightarrow> int result" where
  "field_offset e = (case snd e of None \<Rightarrow> Inl Undefined_behaviour | Some o' \<Rightarrow> Inr o')"

definition element_offset :: "u32 \<Rightarrow> nat \<Rightarrow> int result" where
  "element_offset esize i = (case c_int (sint esize * int i) of None \<Rightarrow> Inl Undefined_behaviour | Some o' \<Rightarrow> Inr o')"

definition split_aggregated_load :: "nat \<Rightarrow> ir_instr_load \<Rightarrow> flow \<Rightarrow> (nat \<times> flow) result" where
  "split_aggregated_load i ii fl =
     (let tys = iu_tys (fl_iu fl); rets = ii_rets (ild_super ii); n = nat (- vt_value (ii_ret (ild_super ii))) in
      res_bind (type_get_pointee tys (vt_type (ild_ptr ii))) (\<lambda>p. res_bind (type_get tys p) (\<lambda>aggty.
      res_bind (if length rets < n then Inl Undefined_behaviour else
        case aggty of
          It_struct s \<Rightarrow> res_bind (c_assert (length (st_elements s) = n)) (\<lambda>_. partial_loads ii (zip (map field_offset (st_elements s)) rets) i fl)
        | It_array _ elem \<Rightarrow> res_bind (type_sizeof tys elem) (\<lambda>esize.
            partial_loads ii (zip (map (element_offset esize) [0..<n]) rets) i fl)
        | _ \<Rightarrow> Inl Assertion_failed) (\<lambda>(r, fl1). Inr (r, instr_destroy i fl1)))))"

definition legalize_instr :: "flow \<Rightarrow> nat \<Rightarrow> flow result" where
  "legalize_instr fl i =
     res_bind (find_node fl i) (\<lambda>nd.
       case fn_instr nd of
         IR_IC_LOAD ii \<Rightarrow> if vt_value (ii_ret (ild_super ii)) < - 1 then res_bind (split_aggregated_load i ii fl) (\<lambda>(_, fl1). Inr fl1) else Inr fl
       | _ \<Rightarrow> Inr fl)"

definition legalize_instructions :: "flow \<Rightarrow> flow result" where
  "legalize_instructions fl = res_fold legalize_instr fl (map fn_id (concat (map fb_nodes (fl_bbs fl))))"

section \<open>The whole transformation\<close>

definition then_do :: "'a result option \<Rightarrow> ('a \<Rightarrow> 'b result option) \<Rightarrow> 'b result option" where
  "then_do r f = (case r of None \<Rightarrow> None | Some x \<Rightarrow> lift_res x f)"

definition transform_function :: "(value_info list \<Rightarrow> value_info list) \<Rightarrow> nat \<Rightarrow> flow \<Rightarrow> flow result option" where
  "transform_function qsort f fl =
     then_do (replace_instructions f fl) (\<lambda>fl1.
     lift_res (function_bind_instr_inputs fl1) (\<lambda>fl2.
     lift_res (construct_cfg fl2) (\<lambda>fl3.
     lift_res (break_critical_edges fl3) (\<lambda>fl4.
     lift_res (combine_instructions fl4) (\<lambda>fl5.
     then_do (exit_ssa fl5) (\<lambda>fl6.
       let call_arg_base = iu_next_value (fl_iu fl6) in
       lift_res (prepare_calls fl6) (\<lambda>(num_call_args, fl7).
       then_do (legalize_temporary_values fl7) (\<lambda>fl8.
       lift_res (legalize_instructions fl8) (\<lambda>fl9.
       then_do (eliminate_dead_code fl9) (\<lambda>fl10.
       then_do (liveness_analysis qsort fl10) (\<lambda>fl11.
         Some (finalize_call_args call_arg_base num_call_args fl11))))))))))))"

end
