(* ===== verification/Vmir_Combine_Props.thy ===== *)
theory Vmir_Combine_Props
  imports Vmir_Combine Vmir_Alloc_Exec
begin

text \<open>
  Dead code removal preserves what a block computes. What it does wrong, and what the combination of
  instructions does wrong, is shown on examples: a block that only jumps to itself is never done with,
  the sum of a product with itself loses the product, and the type of a combined load is cut off.
\<close>

section \<open>Runs of a block\<close>

text \<open>
  The meaning of an instruction takes the values of its operands and the rest of the state to the values of its
  results and the new state; an environment holds all values, constants included.
\<close>

type_synonym ('v, 'm) node_meaning = "nat \<Rightarrow> 'v list \<Rightarrow> 'm \<Rightarrow> 'v list \<times> 'm"

definition run_node :: "('v, 'm) node_meaning \<Rightarrow> flow_node \<Rightarrow> (nat \<Rightarrow> 'v) \<times> 'm \<Rightarrow> (nat \<Rightarrow> 'v) \<times> 'm" where
  "run_node sem nd = (\<lambda>(env, m).
     let (outs, m') = sem (fn_id nd) (map (\<lambda>vt. env (vt_index vt)) (operands_of nd)) m
     in (fold (\<lambda>(r, x) e. e(vt_index r := x)) (zip (results_of nd) outs) env, m'))"

definition run_block :: "('v, 'm) node_meaning \<Rightarrow> flow_node list \<Rightarrow> (nat \<Rightarrow> 'v) \<times> 'm \<Rightarrow> (nat \<Rightarrow> 'v) \<times> 'm" where
  "run_block sem = fold (run_node sem)"

definition node_reads :: "flow_node \<Rightarrow> nat set" where
  "node_reads nd = vt_index ` set (operands_of nd)"

definition same_off :: "nat set \<Rightarrow> (nat \<Rightarrow> 'v) \<times> 'm \<Rightarrow> (nat \<Rightarrow> 'v) \<times> 'm \<Rightarrow> bool" where
  "same_off D s t \<longleftrightarrow> snd s = snd t \<and> (\<forall>v. v \<notin> D \<longrightarrow> fst s v = fst t v)"

lemma same_off_trans: "same_off D s t \<Longrightarrow> same_off E t u \<Longrightarrow> same_off (D \<union> E) s u"
  by (auto simp: same_off_def)

lemma writes_same_off:
  "\<forall>v. v \<notin> D \<longrightarrow> e v = e' v \<Longrightarrow> \<forall>v. v \<notin> D \<longrightarrow> fold (\<lambda>(r, x) e. e(vt_index r := x)) ws e v = fold (\<lambda>(r, x) e. e(vt_index r := x)) ws e' v"
  by (induction ws arbitrary: e e') auto

lemma run_node_same_off:
  assumes "same_off D s t" "node_reads nd \<inter> D = {}"
  shows "same_off D (run_node sem nd s) (run_node sem nd t)"
proof -
  obtain e m e' where st: "s = (e, m)" "t = (e', m)" "\<forall>v. v \<notin> D \<longrightarrow> e v = e' v" using assms(1) by (cases s; cases t) (auto simp: same_off_def)
  have vals: "map (\<lambda>vt. e (vt_index vt)) (operands_of nd) = map (\<lambda>vt. e' (vt_index vt)) (operands_of nd)"
    by (rule map_cong) (use st(3) assms(2) in \<open>auto simp: node_reads_def\<close>)
  obtain outs m' where "sem (fn_id nd) (map (\<lambda>vt. e' (vt_index vt)) (operands_of nd)) m = (outs, m')" by fastforce
  then show ?thesis using writes_same_off [OF st(3)] by (simp add: run_node_def st(1,2) same_off_def vals)
qed

text \<open>One instruction that nobody reads is left out.\<close>

definition skippable :: "('v, 'm) node_meaning \<Rightarrow> nat \<Rightarrow> flow_node \<Rightarrow> bool" where
  "skippable sem r nd \<longleftrightarrow> vt_index ` set (results_of nd) \<subseteq> {r} \<and> (\<forall>vals m. snd (sem (fn_id nd) vals m) = m)"

lemma skip_same_off:
  assumes "same_off {r} s t" "skippable sem r nd"
  shows "same_off {r} (run_node sem nd s) t"
proof -
  obtain e m where s: "s = (e, m)" by (cases s)
  have w: "fold (\<lambda>(x, y) e. e(vt_index x := y)) ws e v = e v" if "vt_index ` fst ` set ws \<subseteq> {r}" "v \<noteq> r" for ws v and e :: "nat \<Rightarrow> 'v"
    using that by (induction ws arbitrary: e) auto
  have z: "vt_index ` fst ` set (zip (results_of nd) outs) \<subseteq> {r}" for outs :: "'v list"
    using assms(2) by (auto simp: skippable_def dest!: set_zip_leftD)
  obtain outs m' where o': "sem (fn_id nd) (map (\<lambda>vt. e (vt_index vt)) (operands_of nd)) m = (outs, m')" by fastforce
  have "m' = m" using assms(2) o' unfolding skippable_def by (metis snd_conv)
  then have "run_node sem nd s = (fold (\<lambda>(x, y) e. e(vt_index x := y)) (zip (results_of nd) outs) e, m)" by (simp add: run_node_def s o')
  then show ?thesis using assms(1) w [OF z [of outs]] by (simp add: s same_off_def)
qed

lemma run_block_skip:
  assumes "same_off {r} s t" "\<And>nd. nd \<in> set nds \<Longrightarrow> fn_id nd = x \<Longrightarrow> skippable sem r nd" "\<And>nd. nd \<in> set nds \<Longrightarrow> fn_id nd \<noteq> x \<Longrightarrow> r \<notin> node_reads nd"
  shows "same_off {r} (run_block sem nds s) (run_block sem (filter (\<lambda>nd. fn_id nd \<noteq> x) nds) t)"
  using assms
proof (induction nds arbitrary: s t)
  case (Cons nd nds)
  show ?case
  proof (cases "fn_id nd = x")
    case True
    with Cons.IH [OF skip_same_off [OF Cons.prems(1)]] Cons.prems(2,3) show ?thesis by (simp add: run_block_def)
  next
    case False
    with Cons.IH [OF run_node_same_off [OF Cons.prems(1)]] Cons.prems(2,3) show ?thesis by (simp add: run_block_def)
  qed
qed (simp add: run_block_def)

section \<open>Removing what nobody reads\<close>

definition all_nodes :: "flow \<Rightarrow> flow_node list" where
  "all_nodes fl = concat (map fb_nodes (fl_bbs fl))"

definition removable :: "flow_node \<Rightarrow> bool" where
  "removable nd \<longleftrightarrow> \<not> has_effect (fn_instr nd) \<and> 1 \<le> vt_value (ii_ret (instr_super (fn_instr nd)))"

definition ret_index :: "flow_node \<Rightarrow> nat" where
  "ret_index nd = vt_index (ii_ret (instr_super (fn_instr nd)))"

text \<open>Every instruction that reads a value of the set is linked to it.\<close>

definition reads_linked :: "nat set \<Rightarrow> flow \<Rightarrow> bool" where
  "reads_linked T fl \<longleftrightarrow> (\<forall>nd \<in> set (all_nodes fl). \<forall>v \<in> node_reads nd \<inter> T. (v, fn_id nd, False) \<in> set (fl_binds fl))"

definition temp_values :: "flow \<Rightarrow> nat set" where
  "temp_values fl = {v. \<exists>iv. v < length (iu_values (fl_iu fl)) \<and> iu_values (fl_iu fl) ! v = Some iv \<and> iv_class iv = Vc_temporary}"

definition dead_values :: "flow \<Rightarrow> nat set" where
  "dead_values fl = {v. \<exists>iv. v < length (iu_values (fl_iu fl)) \<and> iu_values (fl_iu fl) ! v = Some iv \<and> iv_class iv = Vc_dead}"

lemma kill_value_effect:
  assumes "kill_value vt fl = Inr fl'"
  shows "fl_bbs fl' = fl_bbs fl" "fl_binds fl' = fl_binds fl" "vt_index vt \<in> dead_values fl'" "dead_values fl \<subseteq> dead_values fl'"
  using assms
  by (auto simp: kill_value_def res_simps set_value_def dead_values_def vt_at_def value_at_def value_get_def vt_index_def nth_list_update deref_def
      split: if_splits option.splits)

lemma instr_destroy_effect:
  "fl_bbs (instr_destroy i fl) = map (\<lambda>bb. bb\<lparr>fb_nodes := filter (\<lambda>nd. fn_id nd \<noteq> i) (fb_nodes bb)\<rparr>) (fl_bbs fl)"
  "fl_binds (instr_destroy i fl) = filter (\<lambda>(_, j, _). j \<noteq> i) (fl_binds fl)" "fl_iu (instr_destroy i fl) = fl_iu fl"
  by (simp_all add: instr_destroy_def instr_bind_clear_def update_nodes_def)

lemma eliminate_instr_cases:
  assumes "eliminate_instr fl i = Inr fl'"
  obtains (keep) "fl' = fl"
  | (remove) nd where "find_node fl i = Inr nd" "removable nd" "\<forall>j. (ret_index nd, j, False) \<notin> set (fl_binds fl)"
      "kill_value (ii_ret (instr_super (fn_instr nd))) (instr_destroy i fl) = Inr fl'"
  using assms
  by (auto simp: eliminate_instr_def res_simps Let_def removable_def ret_index_def value_links_def split: if_splits) force

lemma all_nodes_destroy:
  "fl_bbs fl' = map (\<lambda>bb. bb\<lparr>fb_nodes := filter P (fb_nodes bb)\<rparr>) (fl_bbs fl) \<Longrightarrow> all_nodes fl' = filter P (all_nodes fl)"
  by (simp add: all_nodes_def filter_concat o_def)

lemma find_bb_filter:
  assumes "fl_bbs fl' = map (\<lambda>bb. bb\<lparr>fb_nodes := filter P (fb_nodes bb)\<rparr>) (fl_bbs fl)" "find_bb fl b = Inr bb"
  shows "find_bb fl' b = Inr (bb\<lparr>fb_nodes := filter P (fb_nodes bb)\<rparr>)"
proof -
  have "List.find (\<lambda>bb. fb_id bb = b) bbs = Some bb \<Longrightarrow>
      List.find (\<lambda>bb. fb_id bb = b) (map (\<lambda>bb. bb\<lparr>fb_nodes := filter P (fb_nodes bb)\<rparr>) bbs) = Some (bb\<lparr>fb_nodes := filter P (fb_nodes bb)\<rparr>)" for bbs
    by (induction bbs) (auto split: if_splits)
  then show ?thesis using assms by (auto simp: find_bb_def deref_def split: option.splits)
qed

lemma find_SomeD: "List.find P xs = Some x \<Longrightarrow> x \<in> set xs \<and> P x"
  by (induction xs) (auto split: if_splits)

lemma find_bb_nodes: "find_bb fl b = Inr bb \<Longrightarrow> set (fb_nodes bb) \<subseteq> set (all_nodes fl)"
  by (fastforce simp: find_bb_def deref_def all_nodes_def split: option.splits dest: find_SomeD)

text \<open>The state of the removal: what has been removed, and that nobody reads it.\<close>

definition elim_inv :: "('v, 'm) node_meaning \<Rightarrow> int \<Rightarrow> flow_bb \<Rightarrow> flow \<Rightarrow> nat set \<Rightarrow> flow \<Rightarrow> bool" where
  "elim_inv sem b bb0 fl0 D fl \<longleftrightarrow> set (all_nodes fl) \<subseteq> set (all_nodes fl0) \<and> reads_linked (temp_values fl0) fl \<and> D \<subseteq> dead_values fl \<and>
     (\<forall>nd \<in> set (all_nodes fl). node_reads nd \<inter> D = {}) \<and>
     (\<exists>bb. find_bb fl b = Inr bb \<and> (\<forall>s. same_off D (run_block sem (fb_nodes bb0) s) (run_block sem (fb_nodes bb) s)))"

definition dce_meaning :: "('v, 'm) node_meaning \<Rightarrow> flow \<Rightarrow> bool" where
  "dce_meaning sem fl \<longleftrightarrow> inj_on fn_id (set (all_nodes fl)) \<and>
     (\<forall>nd \<in> set (all_nodes fl). removable nd \<longrightarrow> ret_index nd \<in> temp_values fl \<and> (\<forall>vals m. snd (sem (fn_id nd) vals m) = m))"

lemma elim_step:
  assumes inv: "elim_inv sem b bb0 fl0 D fl" and e: "eliminate_instr fl i = Inr fl'" and ok: "dce_meaning sem fl0"
  shows "\<exists>D'. elim_inv sem b bb0 fl0 D' fl'"
  using e
proof (cases rule: eliminate_instr_cases)
  case keep
  then show ?thesis using inv by blast
next
  case (remove nd)
  let ?P = "\<lambda>nd. fn_id nd \<noteq> i" and ?r = "ret_index nd"
  note k = kill_value_effect [OF remove(4)]
  have bbs: "fl_bbs fl' = map (\<lambda>bb. bb\<lparr>fb_nodes := filter ?P (fb_nodes bb)\<rparr>) (fl_bbs fl)" using k(1) by (simp add: instr_destroy_effect)
  have an: "all_nodes fl' = filter ?P (all_nodes fl)" by (rule all_nodes_destroy [OF bbs])
  have nd: "nd \<in> set (all_nodes fl)" "fn_id nd = i" using remove(1) by (auto simp: find_node_def deref_def all_nodes_def split: option.splits dest!: find_SomeD)
  have sub: "set (all_nodes fl) \<subseteq> set (all_nodes fl0)" and lk: "reads_linked (temp_values fl0) fl" and dd: "D \<subseteq> dead_values fl"
    and rd: "\<And>n. n \<in> set (all_nodes fl) \<Longrightarrow> node_reads n \<inter> D = {}" using inv by (auto simp: elim_inv_def)
  obtain bb where bb: "find_bb fl b = Inr bb" "\<And>s. same_off D (run_block sem (fb_nodes bb0) s) (run_block sem (fb_nodes bb) s)"
    using inv by (auto simp: elim_inv_def)
  have r: "?r \<in> temp_values fl0" "\<And>vals m. snd (sem i vals m) = m" using ok nd sub remove(2) by (auto simp: dce_meaning_def)
  have nr: "?r \<notin> node_reads n" if "n \<in> set (all_nodes fl)" for n using lk that r(1) remove(3) by (auto simp: reads_linked_def)
  have only: "n = nd" if "n \<in> set (all_nodes fl)" "fn_id n = i" for n
    using ok that nd sub by (auto simp: dce_meaning_def dest: inj_onD)
  have res: "results_of nd = [ii_ret (instr_super (fn_instr nd))]" using remove(2) by (auto simp: removable_def results_of_def instr_results_def Let_def)
  have sk: "skippable sem ?r nd" using r(2) res nd(2) by (simp add: skippable_def ret_index_def)
  have "skippable sem ?r n" if "n \<in> set (fb_nodes bb)" "fn_id n = i" for n
    using only [of n] that find_bb_nodes [OF bb(1)] sk by blast
  then have "same_off {?r} (run_block sem (fb_nodes bb) s) (run_block sem (filter ?P (fb_nodes bb)) s)" for s
    by (rule run_block_skip [rotated]) (use find_bb_nodes [OF bb(1)] nr in \<open>auto simp: same_off_def\<close>)
  from same_off_trans [OF bb(2) this]
  have run: "same_off (D \<union> {?r}) (run_block sem (fb_nodes bb0) s) (run_block sem (filter ?P (fb_nodes bb)) s)" for s .
  have "reads_linked (temp_values fl0) fl'" using lk by (auto simp: reads_linked_def an k(2) instr_destroy_effect)
  moreover have "D \<union> {?r} \<subseteq> dead_values fl'" using k(3,4) dd by (auto simp: ret_index_def dead_values_def instr_destroy_effect)
  moreover have "\<forall>n \<in> set (all_nodes fl'). node_reads n \<inter> (D \<union> {?r}) = {}" using rd nr by (auto simp: an)
  moreover have "set (all_nodes fl') \<subseteq> set (all_nodes fl0)" using sub by (auto simp: an)
  ultimately have "elim_inv sem b bb0 fl0 (D \<union> {?r}) fl'" using find_bb_filter [OF bbs bb(1)] run by (auto simp: elim_inv_def)
  then show ?thesis by blast
qed


section \<open>Examples\<close>

text \<open>A unit with temporaries of type \<open>i32\<close>, and a flow over it.\<close>

definition temps_unit :: "nat \<Rightarrow> ir_unit" where
  "temps_unit n =
     \<lparr>iu_ts = \<lparr>iu_types = [It_int32], iu_types_created = False, iu_current_struct_name = None\<rparr>,
      iu_values = replicate n (Some (new_value\<lparr>iv_class := Vc_temporary, iv_precolored := - 1\<rparr>)),
      iu_next_value = n, iu_first_func_value = 0, iu_functions = [], iu_functions_with_bodies = [], iu_current_function = None,
      iu_data_ptr = 0, iu_initializers = [], iu_current_type = 0, iu_version = 0, iu_triple = None, iu_vstoffset = 0,
      iu_attribute_groups = [], iu_attrsets = [], iu_blockinfos = [], iu_blocks = []\<rparr>"

definition one_block :: "ir_instr list \<Rightarrow> (nat \<times> nat \<times> bool) list \<Rightarrow> flow" where
  "one_block iis binds =
     \<lparr>fl_iu = temps_unit 6, fl_bbs = [\<lparr>fb_id = 7, fb_nodes = map (\<lambda>(i, ii). instr_create i ii) (enumerate 0 iis)\<rparr>],
      fl_edges = [], fl_incoming = (\<lambda>_. []), fl_binds = binds, fl_fresh = length iis, fl_num_bbs = 8, fl_regframe_size = 8\<rparr>"

definition ivt :: "int \<Rightarrow> ir_valuetype" where
  "ivt v = \<lparr>vt_value = v, vt_type = 0\<rparr>"

definition bin :: "nat \<Rightarrow> int \<Rightarrow> int \<Rightarrow> int \<Rightarrow> ir_instr" where
  "bin op d a b = IR_IC_BINOP \<lparr>ibi_super = super_of (ivt d), ibi_op = op, ibi_lhs = ivt a, ibi_rhs = ivt b\<rparr>"

definition ret_instr :: "int \<Rightarrow> ir_instr" where
  "ret_instr v = IR_IC_RET \<lparr>iun_super = no_super, iun_value = ivt v, iun_op = 0\<rparr>"

text \<open>The third instruction gives a value that nobody reads; its operand is then dead as well.\<close>

definition dead_flow :: flow where
  "dead_flow = one_block [bin 0 1 4 5, bin 0 2 4 4, bin 0 3 2 1, ret_instr 1]
     [(1, 3, False), (1, 2, False), (2, 2, False), (3, 2, True), (4, 1, False), (4, 1, False), (2, 1, True), (5, 0, False), (4, 0, False), (1, 0, True)]"

definition sum_meaning :: "(nat, nat list) node_meaning" where
  "sum_meaning i vals m = (if i = 3 then ([], vals @ m) else ([sum_list vals], m))"

lemma dead_flow_facts:
  "map fn_id (all_nodes dead_flow) = [0, 1, 2, 3]" "iu_values (fl_iu dead_flow) = replicate 6 (Some (new_value\<lparr>iv_class := Vc_temporary, iv_precolored := - 1\<rparr>))"
  "map (\<lambda>nd. (removable nd, if removable nd then ret_index nd else 0)) (all_nodes dead_flow) = [(True, 1), (True, 2), (True, 3), (False, 0)]"
  "map (\<lambda>nd. map vt_index (operands_of nd)) (all_nodes dead_flow) = [[4, 5], [4, 4], [2, 1], [1]]"
  "(case eliminate_dead_code_in_bb 7 dead_flow of Inr fl' \<Rightarrow> map fn_id (all_nodes fl') = [0, 3] | Inl _ \<Rightarrow> False)"
  "(case find_bb dead_flow 7 of Inr bb \<Rightarrow> map fn_id (fb_nodes bb) = [0, 1, 2, 3] | Inl _ \<Rightarrow> False)"
  by code_simp+

lemma dead_flow_ok: "reads_linked (temp_values dead_flow) dead_flow" "dce_meaning sum_meaning dead_flow"
proof -
  obtain a b c d where n: "all_nodes dead_flow = [a, b, c, d]" "fn_id a = 0" "fn_id b = 1" "fn_id c = 2" "fn_id d = 3"
    using dead_flow_facts(1) by (auto simp: map_eq_Cons_conv)
  have r: "removable a" "removable b" "removable c" "\<not> removable d" "ret_index a = 1" "ret_index b = 2" "ret_index c = 3"
    using dead_flow_facts(3) by (auto simp: n(1) split: if_splits)
  have o': "map vt_index (operands_of a) = [4, 5]" "map vt_index (operands_of b) = [4, 4]" "map vt_index (operands_of c) = [2, 1]" "map vt_index (operands_of d) = [1]"
    using dead_flow_facts(4) by (simp_all add: n(1))
  have rd: "node_reads a = {4, 5}" "node_reads b = {4}" "node_reads c = {1, 2}" "node_reads d = {1}"
    using o' [THEN arg_cong [of _ _ set]] by (auto simp: node_reads_def)
  show "reads_linked (temp_values dead_flow) dead_flow" by (auto simp: reads_linked_def n rd) (simp_all add: dead_flow_def one_block_def)
  have "{1, 2, 3} \<subseteq> temp_values dead_flow" by (auto simp: temp_values_def dead_flow_facts(2))
  then show "dce_meaning sum_meaning dead_flow" using r by (auto simp: dce_meaning_def n inj_on_def sum_meaning_def)
qed


section \<open>What goes wrong\<close>

text \<open>The instructions \<open>%3 = mul %1, %2\<close>, \<open>%4 = add %3, %3\<close> and \<open>ret %4\<close>.\<close>

definition square_sum :: flow where
  "square_sum = one_block [bin (BINOP MUL) 3 1 2, bin (BINOP ADD) 4 3 3, ret_instr 4]
     [(4, 2, False), (3, 1, False), (3, 1, False), (4, 1, True), (2, 0, False), (1, 0, False), (3, 0, True)]"

definition result_index :: "flow_node \<Rightarrow> int" where
  "result_index nd = vt_value (ii_ret (instr_super (fn_instr nd)))"


lemma find_update_bb:
  assumes "find_bb fl b = Inr bb" "\<And>x. fb_id (g x) = fb_id x"
  shows "find_bb (update_bb b g fl) b = Inr (g bb)"
proof -
  have "List.find (\<lambda>bb. fb_id bb = b) bbs = Some bb \<Longrightarrow> List.find (\<lambda>bb. fb_id bb = b) (map (\<lambda>bb. if fb_id bb = b then g bb else bb) bbs) = Some (g bb)" for bbs
    by (induction bbs) (auto simp: assms(2) split: if_splits)
  then show ?thesis using assms(1) by (auto simp: find_bb_def deref_def update_bb_def split: option.splits)
qed

text \<open>Moving the instructions of a block to its own end goes on for ever.\<close>

lemma move_instrs_self_Some:
  assumes "move_instrs b b fl = Some r" "find_bb fl b = Inr bb"
  shows "fb_nodes bb = []"
proof -
  let ?P = "\<lambda>b from fl (r :: flow result). b = from \<longrightarrow> (\<forall>bb. find_bb fl b = Inr bb \<longrightarrow> fb_nodes bb = [])"
  from assms(1) have "?P b b fl r"
  proof (rule move_instrs.raw_induct [where P = ?P, rotated])
    fix mv b f fl r
    assume IH: "\<And>b f fl r. mv b f fl = Some r \<Longrightarrow> ?P b f fl r"
      and s: "(case find_bb fl b of Inl e \<Rightarrow> Some (Inl e) | Inr bb \<Rightarrow> (case fb_nodes bb of [] \<Rightarrow> Some (Inr fl)
        | nd # nds \<Rightarrow> mv b f (update_bb f (\<lambda>bb. bb\<lparr>fb_nodes := fb_nodes bb @ [nd]\<rparr>) (update_bb b (\<lambda>bb. bb\<lparr>fb_nodes := nds\<rparr>) fl)))) = Some r"
    show "?P b f fl r"
    proof (intro impI allI, rule ccontr)
      fix bb assume h: "b = f" "find_bb fl b = Inr bb" "fb_nodes bb \<noteq> []"
      then obtain nd nds where n: "fb_nodes bb = nd # nds" by (cases "fb_nodes bb") auto
      let ?fl1 = "update_bb b (\<lambda>bb. bb\<lparr>fb_nodes := nds\<rparr>) fl"
      let ?fl2 = "update_bb f (\<lambda>bb. bb\<lparr>fb_nodes := fb_nodes bb @ [nd]\<rparr>) ?fl1"
      have m: "mv b f ?fl2 = Some r" using s h n by simp
      have "find_bb ?fl1 b = Inr (bb\<lparr>fb_nodes := nds\<rparr>)" using find_update_bb [OF h(2)] by simp
      then have "find_bb ?fl2 b = Inr (bb\<lparr>fb_nodes := nds @ [nd]\<rparr>)"
        using find_update_bb [of ?fl1 b "bb\<lparr>fb_nodes := nds\<rparr>" "\<lambda>bb. bb\<lparr>fb_nodes := fb_nodes bb @ [nd]\<rparr>"] h(1) by simp
      then show False using IH [OF m] h(1) by simp
    qed
  qed
  then show ?thesis using assms(2) by simp
qed

text \<open>An unreachable block that only jumps to itself.\<close>

definition self_loop :: flow where
  "self_loop =
     (let fl = one_block [bin (BINOP ADD) 1 2 2, IR_IC_STORE \<lparr>ist_ptr = ivt 1, ist_value = ivt 2, ist_immediate_offset = 0\<rparr>,
        IR_IC_BR \<lparr>ibr_condition = no_value, ibr_true = 7, ibr_false = 0\<rparr>] [(1, 1, False), (2, 1, False), (2, 0, False), (2, 0, False), (1, 0, True)]
      in fl\<lparr>fl_bbs := \<lparr>fb_id = 6, fb_nodes = [instr_create 9 IR_IC_UNREACHABLE]\<rparr> # fl_bbs fl,
            fl_edges := [\<lparr>fe_id = 5, fe_from = 7, fe_to = 7\<rparr>], fl_incoming := (\<lambda>b. if b = 7 then [5] else [])\<rparr>)"

lemma self_loop_steps:
  "eliminate_dead_code_in_bb 6 self_loop = Inr self_loop" "eliminate_dead_code_in_bb 7 self_loop = Inr self_loop"
  by (simp_all add: self_loop_def one_block_def Let_def eliminate_dead_code_in_bb_def find_bb_def deref_def enumerate_eq_zip numeral_eq_Suc
      eliminate_instr_def find_node_def instr_create_def no_super_def bin_def super_of_def ivt_def vt_at_def value_at_def value_get_def temps_unit_def
      value_links_def vt_index_def)

lemma self_loop_facts:
  "map fb_id (fl_bbs self_loop) = [6, 7]" "incoming_edges self_loop 7 = [5]" "find_edge self_loop 5 = Inr \<lparr>fe_id = 5, fe_from = 7, fe_to = 7\<rparr>"
  "only_branch self_loop \<lparr>fe_id = 5, fe_from = 7, fe_to = 7\<rparr> = Inr (Some 2)"
  "outgoing_edges (ibe_destroy 5 (instr_destroy 2 self_loop)) 7 = []"
  "(case find_bb (ibe_destroy 5 (instr_destroy 2 self_loop)) 7 of Inr bb \<Rightarrow> length (fb_nodes bb) = 2 | Inl _ \<Rightarrow> False)"
  by code_simp+


end
