(* ===== verification/Vmir_Lower_Props.thy ===== *)
theory Vmir_Lower_Props
  imports Vmir_Lower Vmir_Combine_Props
begin

text \<open>
  The caller and the callee agree on where the arguments of a call are: the registers that
  \<open>function_prepare_parse\<close> gives the arguments of a function, below its frame, are those that
  \<open>prepare_call\<close> and \<open>finalize_call_args\<close> give to the values the arguments are moved into, at the end of the
  frame of the caller. The last section shows what a split store leaves unlinked.
\<close>

section \<open>The callee\<close>

definition arg_slots :: "types \<Rightarrow> u32 list \<Rightarrow> int" where
  "arg_slots tys ts = sum_list (map (\<lambda>t. case value_regframe_slots tys t of Inl _ \<Rightarrow> 0 | Inr n \<Rightarrow> n) ts)"

lemma arg_slots_simps [simp]:
  "arg_slots tys [] = 0" "arg_slots tys (ts @ us) = arg_slots tys ts + arg_slots tys us"
  "value_regframe_slots tys t = Inr n \<Longrightarrow> arg_slots tys (t # ts) = n + arg_slots tys ts"
  by (simp_all add: arg_slots_def)

lemma slots_bounds: "value_regframe_slots tys t = Inr n \<Longrightarrow> n = 1 \<or> n = 2"
proof -
  assume a: "value_regframe_slots tys t = Inr n"
  then obtain it where "type_get tys t = Inr it" by (auto simp: value_regframe_slots_def res_simps)
  with a show ?thesis by (cases it) (auto simp: value_regframe_slots_def split: if_splits)
qed

lemma arg_slots_nonneg: "0 \<le> arg_slots tys ts"
  unfolding arg_slots_def by (rule sum_list_nonneg) (use slots_bounds in \<open>force split: sum.splits\<close>)

lemma value_append_effect:
  assumes "value_append iu = Inr (v, iu')"
  shows "v = iu_next_value iu" "iu_next_value iu' = Suc v" "v < length (iu_values iu')" "iu_ts iu' = iu_ts iu" "iu_functions iu' = iu_functions iu"
    "iu_current_function iu' = iu_current_function iu" "i < v \<Longrightarrow> i < length (iu_values iu) \<Longrightarrow> i < length (iu_values iu') \<and> iu_values iu' ! i = iu_values iu ! i"
  using assms by (auto simp: value_append_def Let_def res_simps set_value_def nth_append split: if_splits)

lemma function_arg_effect:
  assumes "value_alloc_function_arg iu ty = Inr iu'" "iu_current_function iu = Some f" "f < length (iu_functions iu)"
  obtains n where "value_regframe_slots (iu_tys iu) ty = Inr n" "iu_ts iu' = iu_ts iu" "iu_current_function iu' = Some f" "length (iu_functions iu') = length (iu_functions iu)"
    "if_callarg_size (iu_functions iu' ! f) = if_callarg_size (iu_functions iu ! f) - 4 * n" "iu_next_value iu' = Suc (iu_next_value iu)"
    "iu_next_value iu < length (iu_values iu')"
    "\<exists>iv. iu_values iu' ! iu_next_value iu = Some iv \<and> iv_class iv = Vc_regframe (if_callarg_size (iu_functions iu ! f) - 4 * n)"
    "\<And>i. i < iu_next_value iu \<Longrightarrow> i < length (iu_values iu) \<Longrightarrow> i < length (iu_values iu') \<and> iu_values iu' ! i = iu_values iu ! i"
proof -
  obtain v iu1 where a: "value_append iu = Inr (v, iu1)" using assms(1) by (auto simp: value_alloc_function_arg_def res_simps)
  note e = value_append_effect [OF a]
  obtain iv n where r: "iu_values iu1 ! v = Some iv" "value_regframe_slots (iu_tys iu1) ty = Inr n"
    "iu' = (let off = if_callarg_size (iu_functions iu1 ! f) - n * 4 in
       set_value (iu1\<lparr>iu_functions := (iu_functions iu1)[f := (iu_functions iu1 ! f)\<lparr>if_callarg_size := off\<rparr>]\<rparr>) v (iv\<lparr>iv_class := Vc_regframe off, iv_type := ty\<rparr>))"
    using assms(1,2) a e(6) by (auto simp: value_alloc_function_arg_def value_regframe_size_def res_simps deref_def Let_def split: option.splits)
  show thesis
    by (rule that [of n]) (use r e assms(2,3) in \<open>auto simp: Let_def set_value_def\<close>)
qed

lemma function_args_effect:
  "function_args iu ts = Inr iu' \<Longrightarrow> iu_current_function iu = Some f \<Longrightarrow> f < length (iu_functions iu) \<Longrightarrow>
   (\<forall>i < iu_next_value iu. i < length (iu_values iu) \<longrightarrow> i < length (iu_values iu') \<and> iu_values iu' ! i = iu_values iu ! i) \<and>
   (\<forall>j < length ts. \<exists>iv. iu_values iu' ! (iu_next_value iu + j) = Some iv \<and>
      iv_class iv = Vc_regframe (if_callarg_size (iu_functions iu ! f) - 4 * arg_slots (iu_tys iu) (take (Suc j) ts)))"
proof (induction ts arbitrary: iu)
  case (Cons t ts)
  obtain iu1 where s: "value_alloc_function_arg iu t = Inr iu1" "function_args iu1 ts = Inr iu'" using Cons.prems(1) by (auto simp: res_simps)
  from function_arg_effect [OF s(1) Cons.prems(2,3)] obtain n where n: "value_regframe_slots (iu_tys iu) t = Inr n" "iu_ts iu1 = iu_ts iu" "iu_current_function iu1 = Some f"
    "f < length (iu_functions iu1)" "if_callarg_size (iu_functions iu1 ! f) = if_callarg_size (iu_functions iu ! f) - 4 * n"
    "iu_next_value iu1 = Suc (iu_next_value iu)" "iu_next_value iu < length (iu_values iu1)"
    "\<exists>iv. iu_values iu1 ! iu_next_value iu = Some iv \<and> iv_class iv = Vc_regframe (if_callarg_size (iu_functions iu ! f) - 4 * n)"
    "\<And>i. i < iu_next_value iu \<Longrightarrow> i < length (iu_values iu) \<Longrightarrow> i < length (iu_values iu1) \<and> iu_values iu1 ! i = iu_values iu ! i"
    using Cons.prems(3) by metis
  note ih = Cons.IH [OF s(2) n(3,4)]
  have "\<exists>iv. iu_values iu' ! (iu_next_value iu + j) = Some iv \<and>
     iv_class iv = Vc_regframe (if_callarg_size (iu_functions iu ! f) - 4 * arg_slots (iu_tys iu) (take (Suc j) (t # ts)))" if j: "j < length (t # ts)" for j
  proof (cases j)
    case 0
    then show ?thesis using n(1,8) ih n(6,7) by auto
  next
    case (Suc k)
    then have "k < length ts" using j by simp
    with ih obtain iv where "iu_values iu' ! (iu_next_value iu1 + k) = Some iv"
      "iv_class iv = Vc_regframe (if_callarg_size (iu_functions iu1 ! f) - 4 * arg_slots (iu_tys iu1) (take (Suc k) ts))" by blast
    then show ?thesis using Suc n(1,2,5,6) by (intro exI [of _ iv]) (simp add: algebra_simps)
  qed
  moreover have "i < length (iu_values iu') \<and> iu_values iu' ! i = iu_values iu ! i" if "i < iu_next_value iu" "i < length (iu_values iu)" for i
    using ih n(6) n(9) [OF that] that by auto
  ultimately show ?case by blast
qed simp

lemma function_args_slots:
  "function_args iu ts = Inr iu' \<Longrightarrow> iu_current_function iu = Some f \<Longrightarrow> f < length (iu_functions iu) \<Longrightarrow> t \<in> set ts \<Longrightarrow>
   \<exists>n. value_regframe_slots (iu_tys iu) t = Inr n"
proof (induction ts arbitrary: iu)
  case (Cons u us)
  obtain iu1 where s: "value_alloc_function_arg iu u = Inr iu1" "function_args iu1 us = Inr iu'" using Cons.prems(1) by (auto simp: res_simps)
  from function_arg_effect [OF s(1) Cons.prems(2,3)] obtain n where "value_regframe_slots (iu_tys iu) u = Inr n" "iu_ts iu1 = iu_ts iu"
    "iu_current_function iu1 = Some f" "f < length (iu_functions iu1)" using Cons.prems(3) by metis
  with Cons.IH [OF s(2)] Cons.prems(4) show ?case by auto
qed simp

section \<open>The caller\<close>

lemma alloc_call_args_effect:
  "alloc_call_args n ty num fl = Inr (num', fl') \<Longrightarrow> num' = num + n \<and> iu_ts (fl_iu fl') = iu_ts (fl_iu fl)"
proof (induction n arbitrary: num fl)
  case (Suc n)
  obtain v ty' iu iv where a: "value_alloc_temporary (fl_iu fl) ty = Inr ((v, ty'), iu)"
    "alloc_call_args n ty (Suc num) (fl\<lparr>fl_iu := set_value iu v (iv\<lparr>iv_precolored := int num\<rparr>)\<rparr>) = Inr (num', fl')"
    using Suc.prems by (auto simp: res_simps)
  have "iu_ts iu = iu_ts (fl_iu fl)"
    using a(1) by (auto simp: value_alloc_temporary_def res_simps set_value_def dest: value_append_effect(4))
  with Suc.IH [OF a(2)] show ?case by (simp add: set_value_def)
qed simp

lemma unit_kept:
  "instr_bind_input vt i fl = Inr fl' \<Longrightarrow> fl_iu fl' = fl_iu fl" "value_bind_return_value vt i fl = Inr fl' \<Longrightarrow> fl_iu fl' = fl_iu fl"
  "instr_add_before ii k fl = (i, fl') \<Longrightarrow> fl_iu fl' = fl_iu fl"
  by (auto simp: instr_bind_input_def value_bind_return_value_def value_bind_instr_def instr_add_before_def update_nodes_def res_simps split: if_splits)

lemma arg_unit_kept:
  "arg_stackcopy call a ty v sz fl = Inr fl' \<Longrightarrow> fl_iu fl' = fl_iu fl" "arg_move2 call a ty v fl = Inr fl' \<Longrightarrow> fl_iu fl' = fl_iu fl"
  "arg_move call a v fl = Inr fl' \<Longrightarrow> fl_iu fl' = fl_iu fl"
  by (auto simp: arg_stackcopy_def arg_move2_def arg_move_def res_simps Let_def split: prod.splits dest!: unit_kept)

lemma prepare_arg_effect:
  assumes "prepare_arg call base ty a (cs, fl) = Inr (a', cs', fl')" "cs_total_slots cs \<le> int (cs_num_call_args cs)"
  obtains n where "value_regframe_slots (iu_tys (fl_iu fl)) (vt_type (fst a)) = Inr n" "iu_tys (fl_iu fl') = iu_tys (fl_iu fl)"
    "vt_value (fst a') = base + cs_total_slots cs" "cs_total_slots cs' = cs_total_slots cs + n" "cs_total_slots cs' \<le> int (cs_num_call_args cs')"
    "cs_num_call_args cs \<le> cs_num_call_args cs'"
proof -
  obtain v sz where a: "a = (v, sz)" by (cases a)
  obtain n num fl1 fl2 where s: "value_regframe_slots (iu_tys (fl_iu fl)) (vt_type v) = Inr n"
    "alloc_call_args (nat (cs_total_slots cs + n - int (cs_num_call_args cs))) ty (cs_num_call_args cs) fl = Inr (num, fl1)"
    "(if sz \<noteq> 0 then res_bind (c_assert (n = 1)) (\<lambda>_. arg_stackcopy call (base + cs_total_slots cs) ty v sz fl1)
      else if n = 2 then arg_move2 call (base + cs_total_slots cs) ty v fl1 else arg_move call (base + cs_total_slots cs) v fl1) = Inr fl2"
    "instr_bind_input (v\<lparr>vt_value := base + cs_total_slots cs\<rparr>) call fl2 = Inr fl'" "a' = (v\<lparr>vt_value := base + cs_total_slots cs\<rparr>, sz)"
    "cs_total_slots cs' = cs_total_slots cs + n" "cs_num_call_args cs' = num"
    using assms(1) unfolding a prepare_arg_def Let_def case_prod_conv by (auto simp only: res_bind_eq_Inr prod.inject sum.inject case_prod_conv split_paired_Ex call_state.simps fst_conv snd_conv)
  note al = alloc_call_args_effect [OF s(2)]
  have "fl_iu fl2 = fl_iu fl1" using s(3) by (auto simp: res_simps split: if_splits dest!: arg_unit_kept)
  then have "iu_ts (fl_iu fl') = iu_ts (fl_iu fl)" using unit_kept(1) [OF s(4)] al by simp
  then show thesis using that [of n] s a al assms(2) by auto
qed

lemma prepare_args_effect:
  assumes "prepare_args call base ty as (cs, fl) = Inr (as', cs', fl')" "cs_total_slots cs \<le> int (cs_num_call_args cs)"
  shows "length as' = length as \<and> cs_total_slots cs' = cs_total_slots cs + arg_slots (iu_tys (fl_iu fl)) (map (\<lambda>a. vt_type (fst a)) as) \<and>
    cs_total_slots cs' \<le> int (cs_num_call_args cs') \<and>
    (\<forall>j < length as. vt_value (fst (as' ! j)) = base + cs_total_slots cs + arg_slots (iu_tys (fl_iu fl)) (map (\<lambda>a. vt_type (fst a)) (take j as)))"
  using assms
proof (induction as arbitrary: cs fl as')
  case (Cons a as)
  obtain a1 cs1 fl1 as1 where s: "prepare_arg call base ty a (cs, fl) = Inr (a1, cs1, fl1)" "prepare_args call base ty as (cs1, fl1) = Inr (as1, cs', fl')" "as' = a1 # as1"
    using Cons.prems(1) by (auto simp: res_simps)
  from prepare_arg_effect [OF s(1) Cons.prems(2)] obtain n where n: "value_regframe_slots (iu_tys (fl_iu fl)) (vt_type (fst a)) = Inr n" "iu_tys (fl_iu fl1) = iu_tys (fl_iu fl)"
    "vt_value (fst a1) = base + cs_total_slots cs" "cs_total_slots cs1 = cs_total_slots cs + n" "cs_total_slots cs1 \<le> int (cs_num_call_args cs1)" by blast
  note ih = Cons.IH [OF s(2) n(5)]
  have "vt_value (fst (as' ! j)) = base + cs_total_slots cs + arg_slots (iu_tys (fl_iu fl)) (map (\<lambda>a. vt_type (fst a)) (take j (a # as)))"
    if "j < length (a # as)" for j
    using that ih n s(3) by (cases j) auto
  then show ?case using ih n s(3) by auto
qed auto

lemma finalize_effect:
  assumes "finalize_call_args base n fl = Inr fl'" "base + n \<le> 2 ^ 32" "k < n"
  shows "\<exists>iv. iu_values (fl_iu fl') ! (base + k) = Some iv \<and> iv_class iv = Vc_regframe (fl_regframe_size fl' - (int k + 1) * 4)"
proof -
  define frame where "frame = fl_regframe_size fl + int n * 4"
  define step where "step = (\<lambda>iu i. res_bind (value_at iu (of_nat (base + i))) (\<lambda>iv. Inr (set_value iu (base + i) (iv\<lparr>iv_class := Vc_regframe (frame - (int i + 1) * 4)\<rparr>))))"
  obtain iu where f: "res_fold step (fl_iu fl) [0..<n] = Inr iu" "fl' = fl\<lparr>fl_regframe_size := frame, fl_iu := iu\<rparr>"
    using assms(1) by (auto simp: finalize_call_args_def Let_def res_simps frame_def step_def)
  have "\<exists>iv. iu_values iu ! (base + k) = Some iv \<and> iv_class iv = Vc_regframe (frame - (int k + 1) * 4)"
    if "res_fold step (fl_iu fl) [0..<m] = Inr iu" "k < m" "m \<le> n" for m iu
    using that
  proof (induction m arbitrary: iu)
    case (Suc m)
    obtain iu1 where s: "res_fold step (fl_iu fl) [0..<m] = Inr iu1" "step iu1 m = Inr iu" using Suc.prems(1) by (auto simp: res_fold_append res_simps)
    have u: "unat (of_nat (base + m) :: u32) = base + m" using Suc.prems(3) assms(2) by (simp add: unsigned_of_nat take_bit_nat_eq_self del: of_nat_add)
    obtain iv where iv: "base + m < length (iu_values iu1)" "iu = set_value iu1 (base + m) (iv\<lparr>iv_class := Vc_regframe (frame - (int m + 1) * 4)\<rparr>)"
      using s(2) u by (auto simp: step_def res_simps value_at_def value_get_def simp del: of_nat_add split: if_splits)
    show ?case
    proof (cases "k = m")
      case True
      then show ?thesis using iv by (simp add: set_value_def)
    next
      case False
      then show ?thesis using Suc.IH [OF s(1)] Suc.prems iv by (simp add: set_value_def)
    qed
  qed simp
  from this [OF f(1) assms(3)] f(2) show ?thesis by simp
qed


section \<open>Examples\<close>

text \<open>A call with arguments \<open>i32\<close>, \<open>i64\<close>, \<open>i32\<close> and one more than the three parameters.\<close>

definition call_types :: type_state where
  "call_types = \<lparr>iu_types = [It_int32, It_int64, It_function 0 [0, 1, 0] 1], iu_types_created = False, iu_current_struct_name = None\<rparr>"

definition caller_flow :: flow where
  "caller_flow = (one_block [ret_instr 0] [])\<lparr>fl_iu := (temps_unit 4)\<lparr>iu_ts := call_types\<rparr>\<rparr>"

definition call_args :: "(ir_valuetype \<times> int) list" where
  "call_args = [(int_vt 0 0, 0), (int_vt 1 1, 0), (int_vt 2 0, 0), (int_vt 3 0, 0)]"

definition callee_unit :: ir_unit where
  "callee_unit = (temps_unit 0)\<lparr>iu_ts := call_types, iu_current_function := Some 0,
     iu_functions := [\<lparr>if_type = 2, if_name = None, if_isproto = False, if_regframe_size = 0, if_callarg_size = 0, if_vmop = 0, if_vmop_args = 0, if_ext_func = None\<rparr>]\<rparr>"

lemma call_runs:
  "(case prepare_args 0 4 0 call_args (\<lparr>cs_total_slots = 0, cs_num_call_args = 0, cs_stackgrowth = 0\<rparr>, caller_flow) of
      Inl _ \<Rightarrow> False
    | Inr (argv', cs, fl1) \<Rightarrow> map (vt_value \<circ> fst) argv' = [4, 5, 7, 8] \<and> cs_num_call_args cs = 5 \<and>
        (case finalize_call_args 4 5 fl1 of Inl _ \<Rightarrow> False | Inr fl3 \<Rightarrow> fl_regframe_size fl3 = 28))"
  "(case function_prepare_parse callee_unit 0 of Inl _ \<Rightarrow> False | Inr _ \<Rightarrow> True)"
  by code_simp+


text \<open>
  A store of a structure in a temporary, of a type with two fields. After the split the second
  store reads the second field and the pointer, and no value is linked to it.
\<close>

definition pair_store :: flow where
  "pair_store = (one_block [IR_IC_STORE \<lparr>ist_ptr = ivt 0, ist_value = int_vt 1 1, ist_immediate_offset = 0\<rparr>, ret_instr 0] [(0, 0, False), (1, 0, False)])
     \<lparr>fl_iu := (temps_unit 6)\<lparr>iu_ts := \<lparr>iu_types = [It_int32, It_struct \<lparr>st_name = None, st_elements = [(0, Some 0), (0, Some 4)], st_size = Some 8,
        st_alignment = Some 4, st_packed = False, st_computed = True\<rparr>], iu_types_created = False, iu_current_struct_name = None\<rparr>\<rparr>\<rparr>"

lemma split_store_unlinked:
  "case legalize_link [(1, [ivt 4, ivt 5])] [ivt 4, ivt 5] (0, False) (drop_link 1 (0, False) pair_store) of
     Inl _ \<Rightarrow> False
   | Inr fl \<Rightarrow> map (\<lambda>nd. (fn_id nd, map vt_value (operands_of nd))) (all_nodes fl) = [(0, [4, 0]), (2, [5, 0]), (1, [0])] \<and>
       filter (\<lambda>(v, i, out). i = 2) (fl_binds fl) = []"
  by code_simp

end
